(* ===== verification/Prelude.thy ===== *)
theory Prelude
  imports Main "HOL-Library.Sublist"
begin

text \<open>
  Shared vocabulary of the development.

  A Go function that returns a value and an error is a function into \<open>'e + 'a\<close>:
  \<open>Inl e\<close> is the early return of the error, \<open>Inr a\<close> the value. \<open>rbind\<close> is the
  \<open>if err != nil { return err }\<close> step. The named collections gather the facts that
  the components hand to the simplifier.
\<close>

named_theorems res_simps \<open>rewriting for results of fallible functions\<close>
named_theorems text_simps \<open>rewriting for the string library\<close>
named_theorems scan_simps \<open>rewriting for the shell scanner\<close>

section \<open>Results\<close>

fun rbind :: "'e + 'a \<Rightarrow> ('a \<Rightarrow> 'e + 'b) \<Rightarrow> 'e + 'b" where
  "rbind (Inl e) f = Inl e"
| "rbind (Inr a) f = f a"

definition ensure :: "bool \<Rightarrow> 'e \<Rightarrow> 'e + unit" where
  "ensure c e = (if c then Inr () else Inl e)"

lemma rbind_cong [fundef_cong]:
  "x = y \<Longrightarrow> (\<And>a. y = Inr a \<Longrightarrow> f a = g a) \<Longrightarrow> rbind x f = rbind y g"
  by (cases y) auto

lemma rbind_eq_Inr [res_simps]: "rbind x f = Inr b \<longleftrightarrow> (\<exists>a. x = Inr a \<and> f a = Inr b)"
  by (cases x) auto

lemma rbind_eq_Inl [res_simps]:
  "rbind x f = Inl e \<longleftrightarrow> x = Inl e \<or> (\<exists>a. x = Inr a \<and> f a = Inl e)"
  by (cases x) auto

lemma ensure_eq_Inr [res_simps]: "ensure c e = Inr u \<longleftrightarrow> c"
  by (simp add: ensure_def)

lemma ensure_eq_Inl [res_simps]: "ensure c e = Inl e' \<longleftrightarrow> \<not> c \<and> e' = e"
  by (auto simp: ensure_def)

lemma ensure_True [simp]: "ensure True e = Inr ()"
  by (simp add: ensure_def)

lemma ensure_False [simp]: "ensure False e = Inl e"
  by (simp add: ensure_def)

text \<open>A loop that stops at the first error.\<close>

fun first_error :: "('a \<Rightarrow> 'e + unit) \<Rightarrow> 'a list \<Rightarrow> 'e + unit" where
  "first_error f [] = Inr ()"
| "first_error f (x # xs) = rbind (f x) (\<lambda>_. first_error f xs)"

lemma first_error_ok [res_simps]: "first_error f xs = Inr u \<longleftrightarrow> (\<forall>x \<in> set xs. f x = Inr ())"
  by (induction xs) (auto simp: res_simps)

lemma first_error_cong [fundef_cong]:
  "xs = ys \<Longrightarrow> (\<And>x. x \<in> set ys \<Longrightarrow> f x = g x) \<Longrightarrow> first_error f xs = first_error g ys"
  by (induction ys arbitrary: xs) (auto intro!: rbind_cong)

section \<open>Lists\<close>

text \<open>The last element satisfying a test, as a loop that keeps overwriting its answer finds it.\<close>

fun last_match :: "('a \<Rightarrow> bool) \<Rightarrow> 'a list \<Rightarrow> 'a option" where
  "last_match p [] = None"
| "last_match p (x # xs) =
     (case last_match p xs of Some y \<Rightarrow> Some y | None \<Rightarrow> if p x then Some x else None)"

lemma last_match_None_iff: "last_match p xs = None \<longleftrightarrow> (\<forall>x \<in> set xs. \<not> p x)"
  by (induction xs) (auto split: option.splits)

lemma last_match_Some_iff:
  "last_match p xs = Some x \<longleftrightarrow>
     (\<exists>us vs. xs = us @ x # vs \<and> p x \<and> (\<forall>v \<in> set vs. \<not> p v))"
proof (induction xs)
  case Nil
  show ?case by simp
next
  case (Cons y ys)
  show ?case
  proof (cases "last_match p ys")
    case None
    then have no: "\<forall>v \<in> set ys. \<not> p v"
      by (simp add: last_match_None_iff)
    with None show ?thesis
      by (auto simp: Cons_eq_append_conv)
  next
    case (Some z)
    then have "\<exists>v \<in> set ys. p v"
      using last_match_None_iff [of p ys] by auto
    with Some Cons.IH show ?thesis
      by (auto simp: Cons_eq_append_conv)
  qed
qed

lemma last_match_append:
  "last_match p (xs @ ys) = (case last_match p ys of None \<Rightarrow> last_match p xs | Some y \<Rightarrow> Some y)"
  by (induction xs) (auto split: option.splits)

lemma last_match_rev: "last_match p (rev xs) = find p xs"
  by (induction xs) (auto simp: last_match_append split: option.splits)

lemma list_all2_append_left:
  "list_all2 P (xs @ ys) zs \<longleftrightarrow>
     (\<exists>us vs. zs = us @ vs \<and> list_all2 P xs us \<and> list_all2 P ys vs)"
  by (metis list_all2_append1 list_all2_appendI)

lemma length_dropWhile_drop_le: "length (dropWhile P (drop n xs)) \<le> length xs"
  by (rule order_trans [OF length_dropWhile_le]) simp

lemma prefix_same_length: "prefix xs ys \<Longrightarrow> length xs = length ys \<Longrightarrow> xs = ys"
  by (auto simp: prefix_def)

end
