(* ===== verification/Go_Text.thy ===== *)
theory Go_Text
  imports Prelude
begin

text \<open>
  Go strings and the part of the standard library the components use.

  A Go string is a sequence of bytes: a \<open>string\<close>, that is, a list of the 256 values of
  \<open>char\<close>. A rune is a \<open>nat\<close>. \<open>runes\<close> is the conversion \<open>[]rune(s)\<close> (and what
  \<open>range\<close> over a string reads): UTF-8 with one U+FFFD for every byte that starts no
  well-formed sequence. \<open>utf8_enc\<close> is what \<open>WriteRune\<close> appends.
\<close>

section \<open>UTF-8\<close>

type_synonym rune = nat

abbreviation ru :: "char \<Rightarrow> rune" where
  "ru c \<equiv> of_char c"

definition scalar :: "rune \<Rightarrow> bool" where
  "scalar r \<longleftrightarrow> r < 0xD800 \<or> (0xDFFF < r \<and> r \<le> 0x10FFFF)"

definition utf8_enc :: "rune \<Rightarrow> string" where
  "utf8_enc r =
     (if r < 0x80 then [char_of r]
      else if r < 0x800 then [char_of (0xC0 + r div 64), char_of (0x80 + r mod 64)]
      else if \<not> scalar r then [char_of (0xEF::nat), char_of (0xBF::nat), char_of (0xBD::nat)]
      else if r < 0x10000 then
        [char_of (0xE0 + r div 4096), char_of (0x80 + r div 64 mod 64), char_of (0x80 + r mod 64)]
      else
        [char_of (0xF0 + r div 262144), char_of (0x80 + r div 4096 mod 64),
         char_of (0x80 + r div 64 mod 64), char_of (0x80 + r mod 64)])"

definition utf8_encs :: "rune list \<Rightarrow> string" where
  "utf8_encs rs = concat (map utf8_enc rs)"

definition byte_in :: "nat \<Rightarrow> nat \<Rightarrow> char \<Rightarrow> bool" where
  "byte_in lo hi c \<longleftrightarrow> lo \<le> of_char c \<and> of_char c \<le> hi"

definition low6 :: "char \<Rightarrow> nat" where
  "low6 c = of_char c - 0x80"

text \<open>\<open>utf8.DecodeRuneInString\<close>: the rune and the number of bytes read.\<close>

fun decode2 :: "nat \<Rightarrow> string \<Rightarrow> rune \<times> nat" where
  "decode2 x (b1 # _) =
     (if byte_in 0x80 0xBF b1 then ((x - 0xC0) * 64 + low6 b1, 2) else (0xFFFD, 1))"
| "decode2 x _ = (0xFFFD, 1)"

fun decode3 :: "nat \<Rightarrow> string \<Rightarrow> rune \<times> nat" where
  "decode3 x (b1 # b2 # _) =
     (if byte_in (if x = 0xE0 then 0xA0 else 0x80) (if x = 0xED then 0x9F else 0xBF) b1
         \<and> byte_in 0x80 0xBF b2
      then ((x - 0xE0) * 4096 + low6 b1 * 64 + low6 b2, 3) else (0xFFFD, 1))"
| "decode3 x _ = (0xFFFD, 1)"

fun decode4 :: "nat \<Rightarrow> string \<Rightarrow> rune \<times> nat" where
  "decode4 x (b1 # b2 # b3 # _) =
     (if byte_in (if x = 0xF0 then 0x90 else 0x80) (if x = 0xF4 then 0x8F else 0xBF) b1
         \<and> byte_in 0x80 0xBF b2 \<and> byte_in 0x80 0xBF b3
      then ((x - 0xF0) * 262144 + low6 b1 * 4096 + low6 b2 * 64 + low6 b3, 4) else (0xFFFD, 1))"
| "decode4 x _ = (0xFFFD, 1)"

definition decode_rune :: "string \<Rightarrow> rune \<times> nat" where
  "decode_rune s =
     (case s of
        [] \<Rightarrow> (0xFFFD, 0)
      | b0 # t \<Rightarrow>
          (let x = of_char b0 in
           if x < 0x80 then (x, 1)
           else if 0xC2 \<le> x \<and> x \<le> 0xDF then decode2 x t
           else if 0xE0 \<le> x \<and> x \<le> 0xEF then decode3 x t
           else if 0xF0 \<le> x \<and> x \<le> 0xF4 then decode4 x t
           else (0xFFFD, 1)))"

lemma decode2_size_pos: "0 < snd (decode2 x t)"
  by (cases "(x, t)" rule: decode2.cases) auto

lemma decode3_size_pos: "0 < snd (decode3 x t)"
  by (cases "(x, t)" rule: decode3.cases) auto

lemma decode4_size_pos: "0 < snd (decode4 x t)"
  by (cases "(x, t)" rule: decode4.cases) auto

lemma decode_rune_size_pos: "s \<noteq> [] \<Longrightarrow> 0 < snd (decode_rune s)"
  by (auto simp: decode_rune_def Let_def decode2_size_pos decode3_size_pos decode4_size_pos split: list.splits)

function runes :: "string \<Rightarrow> rune list" where
  "runes s = (if s = [] then [] else fst (decode_rune s) # runes (drop (snd (decode_rune s)) s))"
  by pat_completeness auto
termination
  by (relation "measure length") (use decode_rune_size_pos in auto)

declare runes.simps [simp del]

lemma runes_Nil [simp]: "runes [] = []"
  by (simp add: runes.simps)

lemma low6_char_of: "n < 64 \<Longrightarrow> low6 (char_of (0x80 + n)) = n"
  by (simp add: low6_def)

lemma byte_in_char_of: "n < 256 \<Longrightarrow> byte_in lo hi (char_of n) \<longleftrightarrow> lo \<le> n \<and> n \<le> hi"
  by (simp add: byte_in_def)

lemma decode_rune_ascii:
  "of_char c < (0x80::nat) \<Longrightarrow> decode_rune (c # s) = (of_char c, 1)"
  by (simp add: decode_rune_def)

lemma decode_bytes2:
  "2 \<le> a \<Longrightarrow> a < 32 \<Longrightarrow> b < 64 \<Longrightarrow>
     decode_rune (char_of (0xC0 + a) # char_of (0x80 + b) # s) = (a * 64 + b, 2)"
  by (simp add: decode_rune_def Let_def low6_char_of byte_in_char_of)

lemma decode_bytes3:
  "a < 16 \<Longrightarrow> b < 64 \<Longrightarrow> c < 64 \<Longrightarrow> (a = 0 \<longrightarrow> 32 \<le> b) \<Longrightarrow> (a = 13 \<longrightarrow> b < 32) \<Longrightarrow>
     decode_rune (char_of (0xE0 + a) # char_of (0x80 + b) # char_of (0x80 + c) # s) =
       (a * 4096 + b * 64 + c, 3)"
  by (auto simp add: decode_rune_def Let_def low6_char_of byte_in_char_of)

lemma decode_bytes4:
  "a \<le> 4 \<Longrightarrow> b < 64 \<Longrightarrow> c < 64 \<Longrightarrow> d < 64 \<Longrightarrow> (a = 0 \<longrightarrow> 16 \<le> b) \<Longrightarrow> (a = 4 \<longrightarrow> b < 16) \<Longrightarrow>
     decode_rune (char_of (0xF0 + a) # char_of (0x80 + b) # char_of (0x80 + c) # char_of (0x80 + d) # s) =
       (a * 262144 + b * 4096 + c * 64 + d, 4)"
  by (auto simp add: decode_rune_def Let_def low6_char_of byte_in_char_of)

lemma split6_3: "r = r div 4096 * 4096 + r div 64 mod 64 * 64 + r mod (64::nat)"
  using div_mult_mod_eq [of "r div 64" 64] div_mult_mod_eq [of r 64]
  unfolding div_mult2_eq [of r 64 64, simplified] by linarith

lemma split6_4: "r = r div 262144 * 262144 + r div 4096 mod 64 * 4096 + r div 64 mod 64 * 64 + r mod (64::nat)"
  using split6_3 [of r] div_mult_mod_eq [of "r div 4096" 64]
  unfolding div_mult2_eq [of r 4096 64, simplified] by linarith

lemma decode_enc2:
  assumes "0x80 \<le> r" "r < 0x800"
  shows "decode_rune (utf8_enc r @ s) = (r, 2)"
proof -
  have "2 \<le> r div 64" using div_le_mono [OF assms(1), of 64] by simp
  moreover have "r div 64 < 32" using assms(2) by (simp add: less_mult_imp_div_less)
  moreover have "r mod 64 < 64" by simp
  ultimately have "decode_rune (char_of (0xC0 + r div 64) # char_of (0x80 + r mod 64) # s) = (r, 2)"
    using decode_bytes2 [of "r div 64" "r mod 64" s] by (simp del: One_nat_def)
  moreover have "utf8_enc r = [char_of (0xC0 + r div 64), char_of (0x80 + r mod 64)]"
    using assms unfolding utf8_enc_def by presburger
  ultimately show ?thesis by (simp only: append_Cons append_Nil)
qed

lemma decode_enc3:
  assumes "scalar r" "0x800 \<le> r" "r < 0x10000"
  shows "decode_rune (utf8_enc r @ s) = (r, 3)"
proof -
  define a b c where "a = r div 4096" and "b = r div 64 mod 64" and "c = r mod 64"
  have r: "r = a * 4096 + b * 64 + c" unfolding a_def b_def c_def by (rule split6_3)
  have bnd: "a < 16" "b < 64" "c < 64"
    using assms(3) by (simp_all add: a_def b_def c_def less_mult_imp_div_less)
  have lo: "a = 0 \<longrightarrow> 32 \<le> b" using assms(2) bnd by (simp add: r)
  have hi: "a = 13 \<longrightarrow> b < 32" using assms(1) bnd by (auto simp: r scalar_def)
  have e: "utf8_enc r = [char_of (0xE0 + a), char_of (0x80 + b), char_of (0x80 + c)]"
    using assms by (simp add: utf8_enc_def a_def b_def c_def)
  show ?thesis
    using decode_bytes3 [OF bnd lo hi, of s] by (simp only: e append_Cons append_Nil r [symmetric])
qed

lemma decode_enc4:
  assumes "scalar r" "0x10000 \<le> r"
  shows "decode_rune (utf8_enc r @ s) = (r, 4)"
proof -
  define a b c d where "a = r div 262144" and "b = r div 4096 mod 64" and "c = r div 64 mod 64"
    and "d = r mod 64"
  have r: "r = a * 262144 + b * 4096 + c * 64 + d" unfolding a_def b_def c_def d_def by (rule split6_4)
  have bnd: "b < 64" "c < 64" "d < 64" unfolding b_def c_def d_def by auto
  have a: "a \<le> 4" using assms(1) unfolding r scalar_def by linarith
  have lo: "a = 0 \<longrightarrow> 16 \<le> b" using assms(2) bnd by (simp add: r)
  have hi: "a = 4 \<longrightarrow> b < 16" using assms(1) bnd by (auto simp: r scalar_def)
  have e: "utf8_enc r = [char_of (0xF0 + a), char_of (0x80 + b), char_of (0x80 + c), char_of (0x80 + d)]"
    using assms by (simp add: utf8_enc_def a_def b_def c_def d_def)
  show ?thesis
    using decode_bytes4 [OF a bnd lo hi, of s] by (simp only: e append_Cons append_Nil r [symmetric])
qed

lemma decode_rune_enc:
  assumes "scalar r"
  shows "decode_rune (utf8_enc r @ s) = (r, length (utf8_enc r))"
proof -
  consider "r < 0x80" | "0x80 \<le> r \<and> r < 0x800" | "0x800 \<le> r \<and> r < 0x10000" | "0x10000 \<le> r"
    by linarith
  then show ?thesis
  proof cases
    case 1
    then show ?thesis by (simp add: utf8_enc_def decode_rune_def)
  next
    case 2
    then show ?thesis using decode_enc2 [of r s] by (simp add: utf8_enc_def)
  next
    case 3
    then show ?thesis using decode_enc3 [of r s] assms by (simp add: utf8_enc_def)
  next
    case 4
    then show ?thesis using decode_enc4 [of r s] assms by (simp add: utf8_enc_def)
  qed
qed

lemma utf8_enc_not_Nil [simp]: "utf8_enc r \<noteq> []"
  by (simp add: utf8_enc_def)

lemma runes_enc: "scalar r \<Longrightarrow> runes (utf8_enc r @ s) = r # runes s"
  by (subst runes.simps) (simp add: decode_rune_enc)

lemma runes_ascii: "of_char c < (0x80::nat) \<Longrightarrow> runes (c # s) = of_char c # runes s"
  by (subst runes.simps) (simp add: decode_rune_ascii)

text \<open>Decoding a concatenation of encodings gives the runes back.\<close>

lemma runes_encs: "list_all scalar rs \<Longrightarrow> runes (utf8_encs rs @ s) = rs @ runes s"
  by (induction rs) (simp_all add: utf8_encs_def runes_enc)

lemma low6_byte_in: "byte_in lo hi c \<Longrightarrow> lo - 0x80 \<le> low6 c \<and> low6 c \<le> hi - 0x80"
  by (auto simp: low6_def byte_in_def)

lemma scalar_FFFD [simp]: "scalar 0xFFFD"
  by (simp add: scalar_def)

lemma scalar2: "x \<le> 0xDF \<Longrightarrow> byte_in 0x80 0xBF b1 \<Longrightarrow> scalar ((x - 0xC0) * 64 + low6 b1)"
  using low6_byte_in [of "0x80" "0xBF" b1] by (auto simp: scalar_def)

lemma scalar3:
  assumes "0xE0 \<le> x" "x \<le> 0xEF"
    and "byte_in (if x = 0xE0 then 0xA0 else 0x80) (if x = 0xED then 0x9F else 0xBF) b1"
    and "byte_in 0x80 0xBF b2"
  shows "scalar ((x - 0xE0) * 4096 + low6 b1 * 64 + low6 b2)"
proof -
  define a where "a = x - 0xE0"
  with assms have a: "x = 0xE0 + a" "a \<le> 15" by simp_all
  have "low6 b1 \<le> 63" "a = 13 \<longrightarrow> low6 b1 \<le> 31"
    using low6_byte_in [OF assms(3)] a by (auto split: if_splits)
  moreover have "low6 b2 \<le> 63" using low6_byte_in [OF assms(4)] by simp
  ultimately show ?thesis using a by (cases "a = 13") (auto simp: scalar_def)
qed

lemma scalar4:
  assumes "0xF0 \<le> x" "x \<le> 0xF4"
    and "byte_in (if x = 0xF0 then 0x90 else 0x80) (if x = 0xF4 then 0x8F else 0xBF) b1"
    and "byte_in 0x80 0xBF b2" "byte_in 0x80 0xBF b3"
  shows "scalar ((x - 0xF0) * 262144 + low6 b1 * 4096 + low6 b2 * 64 + low6 b3)"
proof -
  define a where "a = x - 0xF0"
  with assms have a: "x = 0xF0 + a" "a \<le> 4" by simp_all
  have "low6 b1 \<le> 63" "a = 0 \<longrightarrow> 16 \<le> low6 b1" "a = 4 \<longrightarrow> low6 b1 \<le> 15"
    using low6_byte_in [OF assms(3)] a by (auto split: if_splits)
  moreover have "low6 b2 \<le> 63" "low6 b3 \<le> 63"
    using low6_byte_in [OF assms(4)] low6_byte_in [OF assms(5)] by simp_all
  ultimately show ?thesis using a by (cases "a = 0"; cases "a = 4") (auto simp: scalar_def)
qed

lemma decode2_scalar: "x \<le> 0xDF \<Longrightarrow> scalar (fst (decode2 x t))"
  by (induction x t rule: decode2.induct) (simp_all add: scalar2)

lemma scalar_fst_if: "(c \<Longrightarrow> scalar r) \<Longrightarrow> scalar (fst (if c then (r, n) else (0xFFFD, 1)))"
  by simp

lemma decode3_scalar: "0xE0 \<le> x \<Longrightarrow> x \<le> 0xEF \<Longrightarrow> scalar (fst (decode3 x t))"
  by (cases "(x, t)" rule: decode3.cases)
    (simp_all only: decode3.simps prod.inject fst_conv scalar_FFFD, blast intro: scalar_fst_if scalar3)

lemma decode4_scalar: "0xF0 \<le> x \<Longrightarrow> x \<le> 0xF4 \<Longrightarrow> scalar (fst (decode4 x t))"
  by (cases "(x, t)" rule: decode4.cases)
    (simp_all only: decode4.simps prod.inject fst_conv scalar_FFFD, blast intro: scalar_fst_if scalar4)

lemma decode_rune_scalar: "scalar (fst (decode_rune s))"
  by (auto simp: decode_rune_def Let_def decode2_scalar decode3_scalar decode4_scalar scalar_def [of "of_char _"]
      split: list.split)

lemma runes_scalar: "list_all scalar (runes s)"
  by (induction s rule: runes.induct) (subst runes.simps, simp add: decode_rune_scalar)

lemma utf8_enc_of_char: "of_char c < (0x80::nat) \<Longrightarrow> utf8_enc (of_char c) = [c]"
  by (simp add: utf8_enc_def)

text \<open>The encodings of the ASCII runes as rewrite rules, for evaluating concrete inputs.\<close>

lemmas utf8_enc_ascii =
  utf8_enc_of_char [of "CHR 0x09", simplified] utf8_enc_of_char [of "CHR 0x0A", simplified]
  utf8_enc_of_char [of "CHR 0x0D", simplified] utf8_enc_of_char [of "CHR '' ''", simplified]
  utf8_enc_of_char [of "CHR ''!''", simplified] utf8_enc_of_char [of "CHR 0x22", simplified]
  utf8_enc_of_char [of "CHR ''#''", simplified] utf8_enc_of_char [of "CHR ''$''", simplified]
  utf8_enc_of_char [of "CHR ''%''", simplified] utf8_enc_of_char [of "CHR ''&''", simplified]
  utf8_enc_of_char [of "CHR 0x27", simplified] utf8_enc_of_char [of "CHR ''(''", simplified]
  utf8_enc_of_char [of "CHR '')''", simplified] utf8_enc_of_char [of "CHR ''*''", simplified]
  utf8_enc_of_char [of "CHR ''+''", simplified] utf8_enc_of_char [of "CHR '',''", simplified]
  utf8_enc_of_char [of "CHR ''-''", simplified] utf8_enc_of_char [of "CHR ''.''", simplified]
  utf8_enc_of_char [of "CHR ''/''", simplified] utf8_enc_of_char [of "CHR ''0''", simplified]
  utf8_enc_of_char [of "CHR ''1''", simplified] utf8_enc_of_char [of "CHR ''2''", simplified]
  utf8_enc_of_char [of "CHR ''3''", simplified] utf8_enc_of_char [of "CHR ''4''", simplified]
  utf8_enc_of_char [of "CHR ''5''", simplified] utf8_enc_of_char [of "CHR ''6''", simplified]
  utf8_enc_of_char [of "CHR ''7''", simplified] utf8_enc_of_char [of "CHR ''8''", simplified]
  utf8_enc_of_char [of "CHR ''9''", simplified] utf8_enc_of_char [of "CHR '':''", simplified]
  utf8_enc_of_char [of "CHR '';''", simplified] utf8_enc_of_char [of "CHR ''<''", simplified]
  utf8_enc_of_char [of "CHR ''=''", simplified] utf8_enc_of_char [of "CHR ''>''", simplified]
  utf8_enc_of_char [of "CHR ''?''", simplified] utf8_enc_of_char [of "CHR ''@''", simplified]
  utf8_enc_of_char [of "CHR ''A''", simplified] utf8_enc_of_char [of "CHR ''B''", simplified]
  utf8_enc_of_char [of "CHR ''C''", simplified] utf8_enc_of_char [of "CHR ''D''", simplified]
  utf8_enc_of_char [of "CHR ''E''", simplified] utf8_enc_of_char [of "CHR ''F''", simplified]
  utf8_enc_of_char [of "CHR ''G''", simplified] utf8_enc_of_char [of "CHR ''H''", simplified]
  utf8_enc_of_char [of "CHR ''I''", simplified] utf8_enc_of_char [of "CHR ''J''", simplified]
  utf8_enc_of_char [of "CHR ''K''", simplified] utf8_enc_of_char [of "CHR ''L''", simplified]
  utf8_enc_of_char [of "CHR ''M''", simplified] utf8_enc_of_char [of "CHR ''N''", simplified]
  utf8_enc_of_char [of "CHR ''O''", simplified] utf8_enc_of_char [of "CHR ''P''", simplified]
  utf8_enc_of_char [of "CHR ''Q''", simplified] utf8_enc_of_char [of "CHR ''R''", simplified]
  utf8_enc_of_char [of "CHR ''S''", simplified] utf8_enc_of_char [of "CHR ''T''", simplified]
  utf8_enc_of_char [of "CHR ''U''", simplified] utf8_enc_of_char [of "CHR ''V''", simplified]
  utf8_enc_of_char [of "CHR ''W''", simplified] utf8_enc_of_char [of "CHR ''X''", simplified]
  utf8_enc_of_char [of "CHR ''Y''", simplified] utf8_enc_of_char [of "CHR ''Z''", simplified]
  utf8_enc_of_char [of "CHR ''[''", simplified] utf8_enc_of_char [of "CHR 0x5C", simplified]
  utf8_enc_of_char [of "CHR '']''", simplified] utf8_enc_of_char [of "CHR ''^''", simplified]
  utf8_enc_of_char [of "CHR ''_''", simplified] utf8_enc_of_char [of "CHR 0x60", simplified]
  utf8_enc_of_char [of "CHR ''a''", simplified] utf8_enc_of_char [of "CHR ''b''", simplified]
  utf8_enc_of_char [of "CHR ''c''", simplified] utf8_enc_of_char [of "CHR ''d''", simplified]
  utf8_enc_of_char [of "CHR ''e''", simplified] utf8_enc_of_char [of "CHR ''f''", simplified]
  utf8_enc_of_char [of "CHR ''g''", simplified] utf8_enc_of_char [of "CHR ''h''", simplified]
  utf8_enc_of_char [of "CHR ''i''", simplified] utf8_enc_of_char [of "CHR ''j''", simplified]
  utf8_enc_of_char [of "CHR ''k''", simplified] utf8_enc_of_char [of "CHR ''l''", simplified]
  utf8_enc_of_char [of "CHR ''m''", simplified] utf8_enc_of_char [of "CHR ''n''", simplified]
  utf8_enc_of_char [of "CHR ''o''", simplified] utf8_enc_of_char [of "CHR ''p''", simplified]
  utf8_enc_of_char [of "CHR ''q''", simplified] utf8_enc_of_char [of "CHR ''r''", simplified]
  utf8_enc_of_char [of "CHR ''s''", simplified] utf8_enc_of_char [of "CHR ''t''", simplified]
  utf8_enc_of_char [of "CHR ''u''", simplified] utf8_enc_of_char [of "CHR ''v''", simplified]
  utf8_enc_of_char [of "CHR ''w''", simplified] utf8_enc_of_char [of "CHR ''x''", simplified]
  utf8_enc_of_char [of "CHR ''y''", simplified] utf8_enc_of_char [of "CHR ''z''", simplified]
  utf8_enc_of_char [of "CHR ''{''", simplified] utf8_enc_of_char [of "CHR ''|''", simplified]
  utf8_enc_of_char [of "CHR ''}''", simplified] utf8_enc_of_char [of "CHR ''~''", simplified]

section \<open>Package strings\<close>

text \<open>\<open>unicode.IsSpace\<close>, and the encodings that \<open>strings.TrimSpace\<close> removes at either end.\<close>

definition space_runes :: "rune list" where
  "space_runes =
     [9, 10, 11, 12, 13, 32, 0x85, 0xA0, 0x1680, 0x2000, 0x2001, 0x2002, 0x2003, 0x2004, 0x2005,
      0x2006, 0x2007, 0x2008, 0x2009, 0x200A, 0x2028, 0x2029, 0x202F, 0x205F, 0x3000]"

definition is_space :: "rune \<Rightarrow> bool" where
  "is_space r \<longleftrightarrow> r \<in> set space_runes"

function strip_prefixes :: "string list \<Rightarrow> string \<Rightarrow> string" where
  "strip_prefixes es s =
     (case find (\<lambda>e. e \<noteq> [] \<and> prefix e s) es of
        None \<Rightarrow> s
      | Some e \<Rightarrow> strip_prefixes es (drop (length e) s))"
  by pat_completeness auto
termination
  by (relation "measure (length \<circ> snd)") (auto simp: find_Some_iff prefix_def)

declare strip_prefixes.simps [simp del]

definition trim_space_left :: "string \<Rightarrow> string" where
  "trim_space_left s = strip_prefixes (map utf8_enc space_runes) s"

definition trim_space_right :: "string \<Rightarrow> string" where
  "trim_space_right s = rev (strip_prefixes (map (rev \<circ> utf8_enc) space_runes) (rev s))"

definition trim_space :: "string \<Rightarrow> string" where
  "trim_space s = trim_space_right (trim_space_left s)"

definition trim_right_set :: "string \<Rightarrow> string \<Rightarrow> string" where
  "trim_right_set cutset s = rev (dropWhile (\<lambda>c. c \<in> set cutset) (rev s))"

definition trim_prefix :: "string \<Rightarrow> string \<Rightarrow> string" where
  "trim_prefix p s = (if prefix p s then drop (length p) s else s)"

definition trim_suffix :: "string \<Rightarrow> string \<Rightarrow> string" where
  "trim_suffix p s = (if suffix p s then take (length s - length p) s else s)"

text \<open>\<open>strings.Join\<close>, and \<open>strings.Split\<close> for a separator of one byte.\<close>

fun join :: "string \<Rightarrow> string list \<Rightarrow> string" where
  "join sep [] = []"
| "join sep [x] = x"
| "join sep (x # y # ys) = x @ sep @ join sep (y # ys)"

fun split_char :: "char \<Rightarrow> string \<Rightarrow> string list" where
  "split_char c [] = [[]]"
| "split_char c (x # xs) =
     (if x = c then [] # split_char c xs
      else (case split_char c xs of [] \<Rightarrow> [[x]] | w # ws \<Rightarrow> (x # w) # ws))"

text \<open>\<open>strings.Index\<close>, \<open>strings.Contains\<close>, \<open>strings.Count\<close> and \<open>strings.ReplaceAll\<close>
  (the last two for a nonempty substring).\<close>

fun index_of :: "string \<Rightarrow> string \<Rightarrow> nat option" where
  "index_of sub [] = (if sub = [] then Some 0 else None)"
| "index_of sub (c # s) = (if prefix sub (c # s) then Some 0 else map_option Suc (index_of sub s))"

definition contains :: "string \<Rightarrow> string \<Rightarrow> bool" where
  "contains s sub \<longleftrightarrow> index_of sub s \<noteq> None"

function replace_all :: "string \<Rightarrow> string \<Rightarrow> string \<Rightarrow> string" where
  "replace_all old new [] = []"
| "replace_all old new (c # s) =
     (if old \<noteq> [] \<and> prefix old (c # s) then new @ replace_all old new (drop (length old) (c # s))
      else c # replace_all old new s)"
  by pat_completeness auto
termination
  by (relation "measure (\<lambda>(old, new, s). length s)") auto

lemma split_char_not_Nil [simp]: "split_char c s \<noteq> []"
  by (induction s) (auto split: list.splits)

lemma join_split_char [text_simps]: "join [c] (split_char c s) = s"
proof (induction s)
  case Nil
  show ?case by simp
next
  case (Cons x s)
  obtain w ws where w: "split_char c s = w # ws" by (cases "split_char c s") auto
  with Cons show ?case by (cases ws) auto
qed

lemma split_char_append: "c \<notin> set w \<Longrightarrow> split_char c (w @ c # s) = w # split_char c s"
  by (induction w) auto

lemma split_char_none: "c \<notin> set w \<Longrightarrow> split_char c w = [w]"
  by (induction w) auto

lemma split_char_parts: "w \<in> set (split_char c s) \<Longrightarrow> c \<notin> set w"
  by (induction s arbitrary: w) (auto split: list.splits if_splits)

lemma split_char_join [text_simps]:
  "ws \<noteq> [] \<Longrightarrow> \<forall>w \<in> set ws. c \<notin> set w \<Longrightarrow> split_char c (join [c] ws) = ws"
  by (induction "[c]" ws rule: join.induct) (simp_all add: split_char_append split_char_none)

lemma join_Cons: "join sep (x # xs) = x @ (if xs = [] then [] else sep @ join sep xs)"
  by (cases xs) auto

lemma join_append:
  "xs \<noteq> [] \<Longrightarrow> ys \<noteq> [] \<Longrightarrow> join sep (xs @ ys) = join sep xs @ sep @ join sep ys"
  by (induction xs) (auto simp: join_Cons)

lemma replace_all_single [text_simps]:
  "replace_all [c] new s = concat (map (\<lambda>x. if x = c then new else [x]) s)"
  by (induction s) auto

lemma index_of_Some: "index_of sub s = Some i \<Longrightarrow> prefix sub (drop i s) \<and> i \<le> length s"
  by (induction s arbitrary: i) (auto split: if_splits)

lemma strip_prefixes_suffix: "suffix (strip_prefixes es s) s"
proof (induction es s rule: strip_prefixes.induct)
  case (1 es s)
  show ?case
  proof (cases "find (\<lambda>e. e \<noteq> [] \<and> prefix e s) es")
    case None
    then show ?thesis by (subst strip_prefixes.simps) simp
  next
    case (Some e)
    then have "suffix (strip_prefixes es (drop (length e) s)) (drop (length e) s)"
      by (rule 1)
    then show ?thesis
      using Some suffix_drop by (subst strip_prefixes.simps) (auto intro: suffix_order.trans)
  qed
qed

lemma strip_prefixes_ascii:
  assumes "of_char c < (0x80::nat)" "\<not> is_space (of_char c)"
  shows "strip_prefixes (map utf8_enc space_runes) (c # s) = c # s"
    and "strip_prefixes (map (rev \<circ> utf8_enc) space_runes) (c # s) = c # s"
proof -
  have "char_of n = c \<Longrightarrow> n mod 256 = of_char c" for n :: nat by auto
  note byte = this
  have enc: "\<not> prefix (utf8_enc r) (c # s) \<and> \<not> prefix (rev (utf8_enc r)) (c # s)"
    if "r \<in> set space_runes" for r
    using that assms
    by (auto simp: space_runes_def is_space_def utf8_enc_def dest!: byte)
  then show "strip_prefixes (map utf8_enc space_runes) (c # s) = c # s"
    and "strip_prefixes (map (rev \<circ> utf8_enc) space_runes) (c # s) = c # s"
    by (subst strip_prefixes.simps, auto simp: find_Some_iff split: option.splits)+
qed

text \<open>\<open>TrimSpace\<close> leaves a text alone whose first and last byte are ASCII and no blanks.\<close>

definition trimmed_ascii :: "string \<Rightarrow> bool" where
  "trimmed_ascii s \<longleftrightarrow>
     s = [] \<or> (list_all (\<lambda>c. of_char c < (0x80::nat) \<and> \<not> is_space (of_char c)) [hd s, last s])"

lemma trim_space_id: "trimmed_ascii s \<Longrightarrow> trim_space s = s"
proof (cases "s = []")
  case True
  then show ?thesis
    by (simp add: trim_space_def trim_space_left_def trim_space_right_def strip_prefixes.simps space_runes_def)
next
  case False
  assume ok: "trimmed_ascii s"
  obtain c t where s: "s = c # t" using False by (cases s) auto
  obtain d u where r: "rev s = d # u" using False by (cases "rev s") auto
  then have "last s = d" by (metis last_snoc rev.simps(2) rev_rev_ident)
  with ok s have ends: "of_char c < (0x80::nat)" "\<not> is_space (of_char c)"
    "of_char d < (0x80::nat)" "\<not> is_space (of_char d)"
    by (simp_all add: trimmed_ascii_def)
  have "trim_space_left s = s"
    using strip_prefixes_ascii(1) [OF ends(1,2), of t] s by (simp add: trim_space_left_def)
  moreover have "trim_space_right s = rev (rev s)"
    using strip_prefixes_ascii(2) [OF ends(3,4), of u] unfolding trim_space_right_def r by simp
  ultimately show ?thesis by (simp add: trim_space_def)
qed

section \<open>Valid UTF-8 text\<close>

text \<open>A string that is the encoding of some runes: what a \<open>strings.Builder\<close> fed by \<open>WriteRune\<close> holds.\<close>

definition valid_text :: "string \<Rightarrow> bool" where
  "valid_text s \<longleftrightarrow> utf8_encs (runes s) = s"

lemma utf8_encs_simps [simp]:
  "utf8_encs [] = []" "utf8_encs (r # rs) = utf8_enc r @ utf8_encs rs"
  "utf8_encs (rs @ ts) = utf8_encs rs @ utf8_encs ts"
  by (simp_all add: utf8_encs_def)

lemma runes_utf8_encs [text_simps]: "list_all scalar rs \<Longrightarrow> runes (utf8_encs rs) = rs"
  using runes_encs [of rs "[]"] by simp

lemma valid_text_iff: "valid_text s \<longleftrightarrow> (\<exists>rs. list_all scalar rs \<and> s = utf8_encs rs)"
  using runes_scalar [of s] by (auto simp: valid_text_def text_simps)

lemma valid_text_Nil [simp]: "valid_text []"
  by (simp add: valid_text_def)

lemma valid_text_append [simp]: "valid_text s \<Longrightarrow> valid_text t \<Longrightarrow> valid_text (s @ t)"
proof -
  assume "valid_text s" "valid_text t"
  then obtain rs ts where "list_all scalar rs" "s = utf8_encs rs" "list_all scalar ts" "t = utf8_encs ts"
    by (auto simp: valid_text_iff)
  then have "list_all scalar (rs @ ts)" "s @ t = utf8_encs (rs @ ts)" by simp_all
  then show ?thesis unfolding valid_text_iff by blast
qed

lemma valid_text_enc [simp]: "scalar r \<Longrightarrow> valid_text (utf8_enc r)"
  unfolding valid_text_iff by (rule exI [of _ "[r]"]) simp

lemma runes_append: "valid_text s \<Longrightarrow> runes (s @ t) = runes s @ runes t"
  by (metis runes_encs runes_scalar valid_text_def)

lemma ascii_scalar: "of_char c < (0x80::nat) \<Longrightarrow> scalar (of_char c)"
  by (simp add: scalar_def)

lemma valid_text_ascii: "list_all (\<lambda>c. of_char c < (0x80::nat)) s \<Longrightarrow> valid_text s"
  by (induction s) (simp_all add: valid_text_def runes_ascii utf8_enc_of_char)

text \<open>An ASCII byte occurs in an encoding only as the encoding of its own rune.\<close>

lemma ascii_in_utf8_enc:
  assumes "of_char c < (0x80::nat)"
  shows "c \<in> set (utf8_enc r) \<longleftrightarrow> r = of_char c"
proof (cases "r < 0x80")
  case True
  then show ?thesis by (auto simp: utf8_enc_def)
next
  case False
  have high: "c \<noteq> char_of n" if "0x80 \<le> n" "n < 256" for n :: nat
    using that assms by auto
  have "r div 64 < 32" if "r < 0x800" using that by (simp add: less_mult_imp_div_less)
  moreover have "r div 4096 < 16" if "r < 0x10000" using that by (simp add: less_mult_imp_div_less)
  moreover have "r div 262144 \<le> 4" if "scalar r"
    using that div_le_mono [of r "0x10FFFF" 262144] by (auto simp: scalar_def)
  ultimately have "c \<notin> set (utf8_enc r)"
    using False by (auto simp: utf8_enc_def high)
  with False assms show ?thesis by auto
qed

lemma byte_split_enc:
  assumes "of_char c < (0x80::nat)"
  shows "map (\<lambda>x. if x = c then new else [x]) (utf8_enc r) =
     (if r = of_char c then [new] else map (\<lambda>x. [x]) (utf8_enc r))"
proof (cases "r = of_char c")
  case True
  with assms show ?thesis by (simp add: utf8_enc_of_char)
next
  case False
  then have "c \<notin> set (utf8_enc r)" using ascii_in_utf8_enc [OF assms, of r] by simp
  then have "map (\<lambda>x. if x = c then new else [x]) (utf8_enc r) = map (\<lambda>x. [x]) (utf8_enc r)"
    by (intro map_cong) auto
  with False show ?thesis by simp
qed

end
