(* ===== verification/Shell_Scan.thy ===== *)
theory Shell_Scan
  imports Go_Text
begin

text \<open>
  The shell scanner \<open>src/internal/shellparse/shellparse.go\<close>: it cuts a command line into
  segments at control operators and normalises each segment's argument vector. The Go loop
  reads \<open>p.runes[i]\<close> and moves \<open>i\<close>; here the runes from \<open>i\<close> on are the argument, so that
  \<open>p.runes[i+1]\<close> is the head of the rest. One scanner serves two grammars: the legacy one of
  \<open>Parse\<close> and the restricted one of \<open>ParseSimple\<close>.
\<close>

section \<open>Data\<close>

record segment =
  seg_text :: string
  seg_separator :: string
  seg_argv :: "string list"
  seg_redirection :: bool
  seg_unsafe :: bool

definition empty_segment :: segment where
  "empty_segment =
     \<lparr>seg_text = [], seg_separator = [], seg_argv = [], seg_redirection = False, seg_unsafe = False\<rparr>"

datatype parse_error = BacktickSubstitution | DollarSubstitution | UnterminatedQuote

record parser =
  p_segments :: "segment list"
  p_segment :: segment
  p_raw :: string
  p_arg :: string
  in_single :: bool
  in_double :: bool
  had_arg :: bool
  restricted :: bool
  simple_rejected :: bool
  first_word_start :: int
  last_word_end :: int
  first_word_done :: bool

definition legacy_parser :: parser where
  "legacy_parser =
     \<lparr>p_segments = [], p_segment = empty_segment, p_raw = [], p_arg = [], in_single = False,
      in_double = False, had_arg = False, restricted = False, simple_rejected = False,
      first_word_start = 0, last_word_end = 0, first_word_done = False\<rparr>"

definition restricted_parser :: parser where
  "restricted_parser =
     legacy_parser\<lparr>restricted := True, first_word_start := -1, last_word_end := -1\<rparr>"

section \<open>Character classes\<close>

definition is_unsafe_expansion_rune :: "rune \<Rightarrow> bool" where
  "is_unsafe_expansion_rune r \<longleftrightarrow>
     r = ru CHR ''*'' \<or> r = ru CHR ''?'' \<or> r = ru CHR ''['' \<or> r = ru CHR ''{''"

definition is_double_quote_escaped_rune :: "rune \<Rightarrow> bool" where
  "is_double_quote_escaped_rune r \<longleftrightarrow>
     r = ru CHR ''$'' \<or> r = 0x60 \<or> r = 0x22 \<or> r = 0x5C"

definition next_is :: "rune \<Rightarrow> rune list \<Rightarrow> bool" where
  "next_is r rs \<longleftrightarrow> (case rs of [] \<Rightarrow> False | x # _ \<Rightarrow> x = r)"

definition is_boundary_start :: "rune \<Rightarrow> rune list \<Rightarrow> bool" where
  "is_boundary_start r rs =
     (if r = ru CHR '';'' \<or> r = ru CHR ''|'' then True
      else if r = ru CHR ''&'' then \<not> next_is (ru CHR ''>'') rs
      else False)"

definition is_redirection_start :: "rune \<Rightarrow> rune list \<Rightarrow> bool" where
  "is_redirection_start r rs =
     (if r = ru CHR ''<'' \<or> r = ru CHR ''>'' then True
      else r = ru CHR ''&'' \<and> next_is (ru CHR ''>'') rs)"

text \<open>The number of runes of the redirection operator that starts at \<open>r\<close>.\<close>

definition redirection_op_len :: "rune \<Rightarrow> rune list \<Rightarrow> nat" where
  "redirection_op_len r rs =
     (if r = ru CHR ''&'' \<and> next_is (ru CHR ''>'') rs then
        (if next_is (ru CHR ''>'') (tl rs) then 3 else 2)
      else if r = ru CHR ''>'' \<and>
          (next_is (ru CHR ''>'') rs \<or> next_is (ru CHR ''|'') rs \<or> next_is (ru CHR ''&'') rs) then 2
      else if r = ru CHR ''<'' \<and> next_is (ru CHR ''<'') rs then
        (if next_is (ru CHR ''<'') (tl rs) then 3 else 2)
      else if r = ru CHR ''<'' \<and> next_is (ru CHR ''>'') rs then 2
      else 1)"

definition all_digits :: "string \<Rightarrow> bool" where
  "all_digits s \<longleftrightarrow> s \<noteq> [] \<and> list_all (\<lambda>r. ru CHR ''0'' \<le> r \<and> r \<le> ru CHR ''9'') (runes s)"

definition reserved_command_words :: "string list" where
  "reserved_command_words =
     [''if'', ''then'', ''elif'', ''else'', ''fi'', ''for'', ''while'', ''until'', ''do'', ''done'',
      ''case'', ''esac'', ''in'', ''function'', ''select'', ''coproc'', ''time'', ''!'']"

definition is_name_start :: "char \<Rightarrow> bool" where
  "is_name_start c \<longleftrightarrow>
     (of_char CHR ''A'' \<le> (of_char c :: nat) \<and> (of_char c :: nat) \<le> of_char CHR ''Z'') \<or>
     (of_char CHR ''a'' \<le> (of_char c :: nat) \<and> (of_char c :: nat) \<le> of_char CHR ''z'') \<or> c = CHR ''_''"

definition is_digit_byte :: "char \<Rightarrow> bool" where
  "is_digit_byte c \<longleftrightarrow>
     of_char CHR ''0'' \<le> (of_char c :: nat) \<and> (of_char c :: nat) \<le> of_char CHR ''9''"

fun assignment_prefix_from :: "nat \<Rightarrow> string \<Rightarrow> bool" where
  "assignment_prefix_from i [] = False"
| "assignment_prefix_from i (c # cs) =
     (if c = CHR ''='' then 0 < i
      else if is_name_start c \<or> (0 < i \<and> is_digit_byte c) then assignment_prefix_from (Suc i) cs
      else False)"

definition is_assignment_prefix :: "string \<Rightarrow> bool" where
  "is_assignment_prefix word = assignment_prefix_from 0 word"

section \<open>Building words and segments\<close>

definition write_raw :: "rune \<Rightarrow> parser \<Rightarrow> parser" where
  "write_raw r p = p\<lparr>p_raw := p_raw p @ utf8_enc r\<rparr>"

definition write_arg :: "rune \<Rightarrow> parser \<Rightarrow> parser" where
  "write_arg r p = p\<lparr>p_arg := p_arg p @ utf8_enc r, had_arg := True\<rparr>"

definition reject :: "parser \<Rightarrow> parser" where
  "reject p = p\<lparr>simple_rejected := True\<rparr>"

definition mark_unsafe :: "parser \<Rightarrow> parser" where
  "mark_unsafe p = p\<lparr>p_segment := (p_segment p)\<lparr>seg_unsafe := True\<rparr>\<rparr>"

definition write_word_rune :: "rune \<Rightarrow> parser \<Rightarrow> parser" where
  "write_word_rune r p =
     (let p1 = (if restricted p \<and> first_word_start p < 0
                then p\<lparr>first_word_start := int (length (p_raw p))\<rparr> else p);
          p2 = write_raw r p1
      in if restricted p2 then p2\<lparr>last_word_end := int (length (p_raw p2))\<rparr> else p2)"

definition emit_arg :: "parser \<Rightarrow> parser" where
  "emit_arg p =
     (let p1 = (if restricted p \<and> had_arg p \<and> \<not> first_word_done p then
                  (let word = drop (nat (first_word_start p)) (p_raw p);
                       q = p\<lparr>first_word_done := True\<rparr>
                   in if word \<in> set reserved_command_words \<or> is_assignment_prefix word
                      then reject q else q)
                else p)
      in if \<not> had_arg p1 then p1
         else p1\<lparr>p_segment := (p_segment p1)\<lparr>seg_argv := seg_argv (p_segment p1) @ [p_arg p1]\<rparr>,
                 p_arg := [], had_arg := False\<rparr>)"

definition reset_segment :: "parser \<Rightarrow> parser" where
  "reset_segment p = p\<lparr>p_segment := empty_segment, p_raw := [], p_arg := [], had_arg := False\<rparr>"

definition close_segment :: "string \<Rightarrow> string \<Rightarrow> parser \<Rightarrow> parser" where
  "close_segment txt separator p =
     p\<lparr>p_segments := p_segments p @ [(p_segment p)\<lparr>seg_text := txt, seg_separator := separator\<rparr>]\<rparr>"

definition emit_segment_restricted :: "string \<Rightarrow> parser \<Rightarrow> parser" where
  "emit_segment_restricted separator p =
     (let txt = (if 0 \<le> first_word_start p
                 then take (nat (last_word_end p) - nat (first_word_start p))
                        (drop (nat (first_word_start p)) (p_raw p))
                 else []);
          p1 = (if txt \<noteq> [] then close_segment txt separator p
                else if separator \<noteq> [CHR 0x0A] \<and> separator \<noteq> [] then reject p
                else p)
      in (reset_segment p1)\<lparr>first_word_start := -1, last_word_end := -1, first_word_done := False\<rparr>)"

definition emit_segment :: "string \<Rightarrow> parser \<Rightarrow> parser" where
  "emit_segment separator p =
     (if restricted p then emit_segment_restricted separator p
      else (let txt = trim_space (p_raw p);
                p1 = (if txt \<noteq> [] \<or> seg_argv (p_segment p) \<noteq> [] \<or> seg_redirection (p_segment p)
                         \<or> separator \<noteq> []
                      then close_segment txt separator p else p)
            in reset_segment p1))"

section \<open>The scanner\<close>

text \<open>What follows a backslash: the runes after a line continuation, if there is one.\<close>

fun skip_line_continuation :: "rune list \<Rightarrow> rune list option" where
  "skip_line_continuation [] = None"
| "skip_line_continuation (n # t) =
     (if n = 0x0A then Some t
      else if n = 0x0D then Some (if next_is 0x0A t then tl t else t)
      else None)"

definition step_single :: "parser \<Rightarrow> rune \<Rightarrow> rune list \<Rightarrow> parser \<times> rune list" where
  "step_single p r rs =
     (let p1 = write_word_rune r p
      in if r = 0x27 then (p1\<lparr>in_single := False, had_arg := True\<rparr>, rs)
         else (write_arg r p1, rs))"

definition step_double :: "parser \<Rightarrow> rune \<Rightarrow> rune list \<Rightarrow> parse_error + (parser \<times> rune list)" where
  "step_double p r rs =
     (if r = 0x5C then
        (if restricted p \<and> next_is 0x0D rs then Inr (reject p, rs)
         else case skip_line_continuation rs of
             Some rs' \<Rightarrow> Inr (p, rs')
           | None \<Rightarrow>
               (let p1 = write_word_rune r p
                in case rs of
                     [] \<Rightarrow> Inr (write_arg r p1, [])
                   | n # t \<Rightarrow>
                       if is_double_quote_escaped_rune n
                       then Inr (write_arg n (write_word_rune n p1), t)
                       else Inr (write_arg r p1, rs)))
      else if r = 0x22 then
        Inr ((write_word_rune r p)\<lparr>in_double := False, had_arg := True\<rparr>, rs)
      else if r = 0x60 then
        (if restricted p then Inr (reject p, rs) else Inl BacktickSubstitution)
      else if r = ru CHR ''$'' then
        (if restricted p then Inr (reject p, rs)
         else if next_is (ru CHR ''('') rs then Inl DollarSubstitution
         else Inr (write_arg r (mark_unsafe (write_raw r p)), rs))
      else Inr (write_arg r (write_word_rune r p), rs))"

definition step_restricted :: "parser \<Rightarrow> rune \<Rightarrow> rune list \<Rightarrow> parser \<times> rune list" where
  "step_restricted p r rs =
     (if r = 0x5C then
        (case rs of
           [] \<Rightarrow> (reject p, rs)
         | n # t \<Rightarrow>
             if n = 0x0A then (p, t)
             else if n = 0x0D then (reject p, rs)
             else (write_arg n (write_word_rune n (write_word_rune r p)), t))
      else if r = 0x27 \<or> r = 0x22 then
        (let p1 = write_word_rune r p
         in ((if r = 0x27 then p1\<lparr>in_single := True, had_arg := True\<rparr>
              else p1\<lparr>in_double := True, had_arg := True\<rparr>), rs))
      else if r = 0x20 \<or> r = 0x09 then (write_raw r (emit_arg p), rs)
      else if r = 0x0A then (emit_segment [CHR 0x0A] (emit_arg p), rs)
      else if is_space r then (reject p, rs)
      else if r = ru CHR ''#'' then
        (if had_arg p then (write_arg r (write_word_rune r p), rs) else (reject p, rs))
      else if r = ru CHR '';'' then (emit_segment '';'' (emit_arg p), rs)
      else if r \<in> {ru CHR ''('', ru CHR '')'', ru CHR ''{'', ru CHR ''}''} then (reject p, rs)
      else if r = ru CHR ''<'' \<or> r = ru CHR ''>'' then (reject p, rs)
      else if r = ru CHR ''&'' \<and> next_is (ru CHR ''&'') rs then
        (emit_segment ''&&'' (emit_arg p), tl rs)
      else if r = ru CHR ''&'' then (reject p, rs)
      else if r = ru CHR ''|'' then
        (let p1 = emit_arg p
         in if next_is (ru CHR ''|'') rs then (emit_segment ''||'' p1, tl rs)
            else if next_is (ru CHR ''&'') rs then (emit_segment ''|&'' p1, tl rs)
            else (emit_segment ''|'' p1, rs))
      else if r = 0x60 \<or> r = ru CHR ''$'' \<or> r = ru CHR ''*'' \<or> r = ru CHR ''?'' \<or> r = ru CHR ''[''
      then (reject p, rs)
      else if r = ru CHR ''~'' \<and> \<not> had_arg p then (reject p, rs)
      else (write_arg r (write_word_rune r p), rs))"

text \<open>
  The target of a redirection, up to an unquoted blank or boundary. \<open>first\<close> says that no rune
  of the target has been read yet.
\<close>

fun redirection_target :: "parser \<Rightarrow> bool \<Rightarrow> rune list \<Rightarrow> parse_error + (parser \<times> rune list)" where
  "redirection_target p first [] = Inr (p, [])"
| "redirection_target p first (r # rs) =
     (if in_single p then
        redirection_target
          (if r = 0x27 then (write_raw r p)\<lparr>in_single := False\<rparr> else write_raw r p) False rs
      else if in_double p then
        (if r = 0x22 then redirection_target (write_raw r (p\<lparr>in_double := False\<rparr>)) False rs
         else if r = 0x60 then Inl BacktickSubstitution
         else if r = ru CHR ''$'' then
           (if next_is (ru CHR ''('') rs then Inl DollarSubstitution
            else redirection_target (write_raw r (mark_unsafe p)) False rs)
         else redirection_target (write_raw r p) False rs)
      else if is_space r \<or> is_boundary_start r rs then Inr (p, r # rs)
      else if r = 0x27 then redirection_target (write_raw r (p\<lparr>in_single := True\<rparr>)) False rs
      else if r = 0x22 then redirection_target (write_raw r (p\<lparr>in_double := True\<rparr>)) False rs
      else if r = 0x60 then Inl BacktickSubstitution
      else if r = ru CHR ''$'' \<and> next_is (ru CHR ''('') rs then Inl DollarSubstitution
      else
        redirection_target
          (write_raw r
            (if is_unsafe_expansion_rune r \<or> r = ru CHR ''$'' \<or> (r = ru CHR ''~'' \<and> first)
             then mark_unsafe p else p)) False rs)"

definition consume_redirection :: "parser \<Rightarrow> rune \<Rightarrow> rune list \<Rightarrow> parse_error + (parser \<times> rune list)" where
  "consume_redirection p r rs =
     (let p1 = (if had_arg p then
                  (if all_digits (p_arg p) then p\<lparr>p_arg := [], had_arg := False\<rparr> else emit_arg p)
                else p);
          n = redirection_op_len r rs;
          p2 = fold write_raw (take n (r # rs)) p1;
          rest = drop n (r # rs);
          blank = (\<lambda>x. x = 0x20 \<or> x = 0x09);
          p3 = fold write_raw (takeWhile blank rest) p2
      in rbind (redirection_target p3 True (dropWhile blank rest))
           (\<lambda>(p4, rest'). Inr (p4\<lparr>p_segment := (p_segment p4)\<lparr>seg_redirection := True\<rparr>\<rparr>, rest')))"

definition step_plain :: "parser \<Rightarrow> rune \<Rightarrow> rune list \<Rightarrow> parse_error + (parser \<times> rune list)" where
  "step_plain p r rs =
     (if r = 0x5C then
        (case skip_line_continuation rs of
           Some rs' \<Rightarrow> Inr (p, rs')
         | None \<Rightarrow>
             (let p1 = write_raw r p
              in case rs of
                   [] \<Rightarrow> Inr (write_arg r p1, [])
                 | n # t \<Rightarrow> Inr (write_arg n (write_raw n p1), t)))
      else if r = 0x27 then Inr ((write_raw r p)\<lparr>in_single := True, had_arg := True\<rparr>, rs)
      else if r = 0x22 then Inr ((write_raw r p)\<lparr>in_double := True, had_arg := True\<rparr>, rs)
      else if is_space r then
        (if r = 0x0A \<or> r = 0x0D then Inr (emit_segment (utf8_enc r) (emit_arg p), rs)
         else Inr (emit_arg (write_raw r p), rs))
      else if is_boundary_start r rs then
        (let p1 = emit_arg p
         in if (r = ru CHR ''&'' \<and> next_is (ru CHR ''&'') rs) \<or>
               (r = ru CHR ''|'' \<and> (next_is (ru CHR ''|'') rs \<or> next_is (ru CHR ''&'') rs))
            then Inr (emit_segment (utf8_enc r @ utf8_enc (hd rs)) p1, tl rs)
            else Inr (emit_segment (utf8_enc r) p1, rs))
      else if r = 0x60 then Inl BacktickSubstitution
      else if r = ru CHR ''$'' then
        (if next_is (ru CHR ''('') rs then Inl DollarSubstitution
         else Inr (write_arg r (write_raw r (mark_unsafe p)), rs))
      else if is_redirection_start r rs then consume_redirection p r rs
      else
        (let p1 = (if is_unsafe_expansion_rune r \<or> (r = ru CHR ''~'' \<and> \<not> had_arg p)
                   then mark_unsafe p else p)
         in Inr (write_arg r (write_raw r p1), rs)))"

definition scan_step :: "parser \<Rightarrow> rune \<Rightarrow> rune list \<Rightarrow> parse_error + (parser \<times> rune list)" where
  "scan_step p r rs =
     (if in_single p then Inr (step_single p r rs)
      else if in_double p then step_double p r rs
      else if restricted p then Inr (step_restricted p r rs)
      else step_plain p r rs)"

definition scan_end :: "parser \<Rightarrow> parse_error + parser" where
  "scan_end p =
     (if in_single p \<or> in_double p then Inl UnterminatedQuote
      else Inr (emit_segment [] (emit_arg p)))"

text \<open>Every step leaves at most the runes after the one it read, so the scan ends.\<close>

lemma skip_line_continuation_length:
  "skip_line_continuation rs = Some rs' \<Longrightarrow> length rs' < length rs"
  by (induction rs rule: skip_line_continuation.induct)
    (auto simp: next_is_def split: if_splits list.splits)

lemma step_single_rest: "snd (step_single p r rs) = rs"
  by (simp add: step_single_def Let_def)

lemma step_double_length: "step_double p r rs = Inr (p', rs') \<Longrightarrow> length rs' \<le> length rs"
  by (auto simp: step_double_def Let_def dest: skip_line_continuation_length
      split: if_splits option.splits list.splits)

lemma step_restricted_length: "length (snd (step_restricted p r rs)) \<le> length rs"
  by (auto simp: step_restricted_def Let_def split: list.splits)

lemma redirection_target_length:
  "redirection_target p first rs = Inr (p', rs') \<Longrightarrow> length rs' \<le> length rs"
  by (induction p first rs rule: redirection_target.induct) (auto split: if_splits)

lemma redirection_op_len_pos: "0 < redirection_op_len r rs"
  by (simp add: redirection_op_len_def)

lemma consume_redirection_length:
  "consume_redirection p r rs = Inr (p', rs') \<Longrightarrow> length rs' \<le> length rs"
  using redirection_op_len_pos [of r rs]
  by (auto simp: consume_redirection_def Let_def res_simps drop_Cons' split: if_splits
      dest!: redirection_target_length intro: order_trans [OF _ length_dropWhile_drop_le])

lemma step_plain_length: "step_plain p r rs = Inr (p', rs') \<Longrightarrow> length rs' \<le> length rs"
  by (auto simp: step_plain_def Let_def dest: skip_line_continuation_length consume_redirection_length
      split: if_splits option.splits list.splits)

lemma scan_step_length: "scan_step p r rs = Inr (p', rs') \<Longrightarrow> length rs' \<le> length rs"
  using step_single_rest [of p r rs] step_restricted_length [of p r rs]
  by (auto simp: scan_step_def dest: step_double_length step_plain_length split: if_splits)

function scan :: "parser \<Rightarrow> rune list \<Rightarrow> parse_error + parser" where
  "scan p [] = scan_end p"
| "scan p (r # rs) =
     (case scan_step p r rs of Inl e \<Rightarrow> Inl e | Inr (p', rs') \<Rightarrow> scan p' rs')"
  by pat_completeness auto
termination
  by (relation "measure (length \<circ> snd)") (auto dest: scan_step_length)

definition parse :: "string \<Rightarrow> parse_error + segment list" where
  "parse command = rbind (scan legacy_parser (runes command)) (\<lambda>p. Inr (p_segments p))"

definition parse_simple :: "string \<Rightarrow> segment list option" where
  "parse_simple command =
     (case scan restricted_parser (runes command) of
        Inl _ \<Rightarrow> None
      | Inr p \<Rightarrow>
          (if simple_rejected p \<or> p_segments p = [] then None
           else if seg_separator (last (p_segments p)) \<in> {[], '';'', [CHR 0x0A]}
           then Some (p_segments p)
           else None))"

text \<open>Rewrite rules that run the scanner on a concrete ASCII input.\<close>

lemmas scan_eval =
  parse_def parse_simple_def runes_ascii legacy_parser_def restricted_parser_def scan_step_def
  step_single_def step_double_def step_restricted_def step_plain_def scan_end_def emit_arg_def
  emit_segment_def emit_segment_restricted_def close_segment_def reset_segment_def write_raw_def
  write_arg_def write_word_rune_def reject_def mark_unsafe_def empty_segment_def Let_def next_is_def
  is_boundary_start_def is_redirection_start_def is_unsafe_expansion_rune_def
  is_double_quote_escaped_rune_def is_space_def space_runes_def utf8_enc_ascii
  reserved_command_words_def is_assignment_prefix_def is_name_start_def is_digit_byte_def

end
