(* ===== verification/Shell_Grammar.thy ===== *)
theory Shell_Grammar
  imports Shell_Scan
begin

text \<open>
  What the two grammars of the scanner promise, and how they relate: \<open>parse_simple\<close> accepts only
  plain simple commands, never slices out of range, and on every command it accepts the legacy
  \<open>parse\<close> finds the same argument vectors and separators.
\<close>

section \<open>The restricted scanner keeps its word offsets in range\<close>

text \<open>
  The slices \<open>raw[firstWordStart:]\<close> and \<open>raw[firstWordStart:lastWordEnd]\<close> panic in Go when the
  offsets are out of range. \<open>offsets_ok\<close> says they are not, and that a word has been started
  exactly when an offset is set.
\<close>

definition offsets_ok :: "parser \<Rightarrow> bool" where
  "offsets_ok p \<longleftrightarrow>
     (if had_arg p \<or> seg_argv (p_segment p) \<noteq> []
      then 0 \<le> first_word_start p \<and> first_word_start p < last_word_end p
           \<and> last_word_end p \<le> int (length (p_raw p))
      else first_word_start p = -1)"

definition plain_segment :: "segment \<Rightarrow> bool" where
  "plain_segment s \<longleftrightarrow> \<not> seg_redirection s \<and> \<not> seg_unsafe s"

definition simple_segment :: "segment \<Rightarrow> bool" where
  "simple_segment s \<longleftrightarrow>
     plain_segment s \<and> seg_argv s \<noteq> [] \<and> seg_text s \<noteq> []
     \<and> seg_separator s \<in> {[], [CHR 0x0A], '';'', ''&&'', ''|'', ''||'', ''|&''}"

definition restricted_inv :: "parser \<Rightarrow> bool" where
  "restricted_inv p \<longleftrightarrow>
     restricted p \<and> offsets_ok p \<and> plain_segment (p_segment p)
     \<and> list_all simple_segment (p_segments p)
     \<and> ((in_single p \<or> in_double p) \<longrightarrow> had_arg p)"

lemmas restricted_inv_defs =
  restricted_inv_def offsets_ok_def plain_segment_def

lemma restricted_inv_init: "restricted_inv restricted_parser"
  by (simp add: restricted_inv_defs restricted_parser_def legacy_parser_def empty_segment_def)

text \<open>Writing one rune of a word.\<close>

lemma write_word_arg_inv:
  "restricted_inv p \<Longrightarrow> restricted_inv (write_arg x (write_word_rune r p))"
  by (auto simp: restricted_inv_defs write_word_rune_def write_raw_def write_arg_def Let_def
      split: if_splits)

lemma write_word_had_inv:
  "restricted_inv p \<Longrightarrow> restricted_inv ((write_word_rune r p)\<lparr>had_arg := True\<rparr>)"
  by (auto simp: restricted_inv_defs write_word_rune_def write_raw_def Let_def split: if_splits)

lemma reject_inv: "restricted_inv p \<Longrightarrow> restricted_inv (reject p)"
  by (simp add: restricted_inv_defs reject_def)

lemma write_raw_inv: "restricted_inv p \<Longrightarrow> restricted_inv (write_raw r p)"
  by (auto simp: restricted_inv_defs write_raw_def split: if_splits)

lemma emit_arg_inv:
  "restricted_inv p \<Longrightarrow> \<not> in_single p \<Longrightarrow> \<not> in_double p \<Longrightarrow> restricted_inv (emit_arg p)"
  by (auto simp: restricted_inv_defs emit_arg_def reject_def Let_def split: if_splits)

lemma emit_arg_had_arg [simp]: "\<not> had_arg (emit_arg p)"
  by (simp add: emit_arg_def Let_def reject_def)

lemma emit_arg_fields [simp]:
  "restricted (emit_arg p) = restricted p" "in_single (emit_arg p) = in_single p"
  "in_double (emit_arg p) = in_double p" "p_segments (emit_arg p) = p_segments p"
  "p_raw (emit_arg p) = p_raw p"
  by (simp_all add: emit_arg_def Let_def reject_def)

lemma write_raw_fields [simp]:
  "restricted (write_raw r p) = restricted p" "in_single (write_raw r p) = in_single p"
  "in_double (write_raw r p) = in_double p" "p_segments (write_raw r p) = p_segments p"
  "had_arg (write_raw r p) = had_arg p" "p_arg (write_raw r p) = p_arg p"
  "p_segment (write_raw r p) = p_segment p" "simple_rejected (write_raw r p) = simple_rejected p"
  by (simp_all add: write_raw_def)

lemma emit_segment_inv:
  assumes "restricted_inv p" "\<not> had_arg p"
    and "sep \<in> {[], [CHR 0x0A], '';'', ''&&'', ''|'', ''||'', ''|&''}"
  shows "restricted_inv (emit_segment sep p)"
proof (cases "seg_argv (p_segment p) = []")
  case True
  with assms show ?thesis
    by (auto simp: restricted_inv_defs emit_segment_def emit_segment_restricted_def Let_def
        reset_segment_def reject_def empty_segment_def)
next
  case False
  with assms(1,2) have off: "0 \<le> first_word_start p" "first_word_start p < last_word_end p"
    "last_word_end p \<le> int (length (p_raw p))"
    by (simp_all add: restricted_inv_defs)
  have "take (nat (last_word_end p) - nat (first_word_start p))
      (drop (nat (first_word_start p)) (p_raw p)) \<noteq> []"
    using off by (simp add: nat_less_iff) linarith
  with False assms off show ?thesis
    by (auto simp: restricted_inv_defs simple_segment_def emit_segment_def
        emit_segment_restricted_def close_segment_def Let_def reset_segment_def empty_segment_def)
qed

lemma write_word_quote_inv:
  "restricted_inv p \<Longrightarrow> restricted_inv ((write_word_rune r p)\<lparr>in_single := b, had_arg := True\<rparr>)"
  "restricted_inv p \<Longrightarrow> restricted_inv ((write_word_rune r p)\<lparr>in_double := b, had_arg := True\<rparr>)"
  by (auto simp: restricted_inv_defs write_word_rune_def write_raw_def Let_def split: if_splits)

lemma write_word_two_inv:
  "restricted_inv p \<Longrightarrow> restricted_inv (write_arg x (write_word_rune n (write_word_rune r p)))"
  by (auto simp: restricted_inv_defs write_word_rune_def write_raw_def write_arg_def Let_def
      add_pos_nonneg split: if_splits)

lemmas restricted_inv_intros =
  write_word_quote_inv write_word_two_inv write_word_arg_inv reject_inv write_raw_inv
  emit_arg_inv emit_segment_inv

lemma step_single_inv: "restricted_inv p \<Longrightarrow> restricted_inv (fst (step_single p r rs))"
  by (simp add: step_single_def Let_def restricted_inv_intros)

lemma step_double_inv:
  "restricted_inv p \<Longrightarrow> restricted p \<Longrightarrow> step_double p r rs = Inr (p', rs') \<Longrightarrow> restricted_inv p'"
  by (auto simp: step_double_def Let_def restricted_inv_intros
      split: if_splits option.splits list.splits)

lemma step_restricted_inv:
  assumes "restricted_inv p" "\<not> in_single p" "\<not> in_double p"
  shows "restricted_inv (fst (step_restricted p r rs))"
  using assms by (simp add: step_restricted_def Let_def restricted_inv_intros split: list.split)

lemma scan_step_inv:
  assumes "restricted_inv p" "scan_step p r rs = Inr (p', rs')"
  shows "restricted_inv p'"
proof -
  have "restricted p" using assms(1) by (simp add: restricted_inv_def)
  with assms step_single_inv [of p r rs] step_restricted_inv [of p r rs]
    step_double_inv [of p r rs p' rs']
  show ?thesis by (auto simp: scan_step_def split: if_splits)
qed

lemma scan_inv: "scan p rs = Inr p' \<Longrightarrow> restricted_inv p \<Longrightarrow> restricted_inv p'"
proof (induction p rs rule: scan.induct)
  case (1 p)
  then show ?case by (auto simp: scan_end_def restricted_inv_intros split: if_splits)
next
  case (2 p r rs)
  then show ?case by (auto split: sum.splits prod.splits dest: scan_step_inv)
qed

text \<open>Every segment \<open>parse_simple\<close> returns is a plain nonempty simple command.\<close>

lemma parse_simple_segments:
  assumes "parse_simple command = Some segs"
  shows "segs \<noteq> [] \<and> list_all simple_segment segs
     \<and> seg_separator (last segs) \<in> {[], '';'', [CHR 0x0A]}"
proof -
  obtain p where p: "scan restricted_parser (runes command) = Inr p" "segs = p_segments p"
    "p_segments p \<noteq> []" "seg_separator (last segs) \<in> {[], '';'', [CHR 0x0A]}"
    using assms by (auto simp: parse_simple_def split: sum.splits if_splits)
  from p(1) have "restricted_inv p"
    by (rule scan_inv) (rule restricted_inv_init)
  with p show ?thesis by (simp add: restricted_inv_def)
qed

section \<open>The restricted grammar agrees with the legacy one\<close>

text \<open>
  \<open>seg_key\<close> is what the permission check reads of a segment. The simulation relates a restricted
  scan that has rejected nothing to the legacy scan of the same input: they hold the same open
  word, and the legacy scan holds the same segments between blank ones.
\<close>

definition seg_key :: "segment \<Rightarrow> string list \<times> string" where
  "seg_key s = (seg_argv s, seg_separator s)"

definition commands :: "segment list \<Rightarrow> (string list \<times> string) list" where
  "commands segs = map seg_key (filter (\<lambda>s. seg_argv s \<noteq> []) segs)"

definition agree :: "parser \<Rightarrow> parser \<Rightarrow> bool" where
  "agree p q \<longleftrightarrow>
     \<not> restricted q \<and> in_single q = in_single p \<and> in_double q = in_double p
     \<and> had_arg q = had_arg p \<and> p_arg q = p_arg p
     \<and> seg_argv (p_segment q) = seg_argv (p_segment p) \<and> plain_segment (p_segment q)
     \<and> commands (p_segments q) = map seg_key (p_segments p) \<and> list_all plain_segment (p_segments q)"

lemma agree_init: "agree restricted_parser legacy_parser"
  by (simp add: agree_def restricted_parser_def legacy_parser_def empty_segment_def
      plain_segment_def commands_def)

lemma write_word_rune_fields [simp]:
  "restricted (write_word_rune r p) = restricted p" "in_single (write_word_rune r p) = in_single p"
  "in_double (write_word_rune r p) = in_double p" "p_segments (write_word_rune r p) = p_segments p"
  "had_arg (write_word_rune r p) = had_arg p" "p_arg (write_word_rune r p) = p_arg p"
  "p_segment (write_word_rune r p) = p_segment p"
  "simple_rejected (write_word_rune r p) = simple_rejected p"
  by (simp_all add: write_word_rune_def Let_def)

lemma write_arg_fields [simp]:
  "restricted (write_arg r p) = restricted p" "in_single (write_arg r p) = in_single p"
  "in_double (write_arg r p) = in_double p" "p_segments (write_arg r p) = p_segments p"
  "had_arg (write_arg r p)" "p_arg (write_arg r p) = p_arg p @ utf8_enc r"
  "p_segment (write_arg r p) = p_segment p" "simple_rejected (write_arg r p) = simple_rejected p"
  "p_raw (write_arg r p) = p_raw p"
  by (simp_all add: write_arg_def)

lemma reject_rejected [simp]: "simple_rejected (reject p)"
  by (simp add: reject_def)

lemma agree_emit_arg: "agree p q \<Longrightarrow> agree (emit_arg p) (emit_arg q)"
  by (auto simp: agree_def emit_arg_def reject_def plain_segment_def Let_def)

lemma agree_emit_segment:
  assumes "agree p q" "restricted_inv p" "\<not> had_arg p" "\<not> simple_rejected (emit_segment sep p)"
  shows "agree (emit_segment sep p) (emit_segment sep q)"
proof -
  have slice: "take (nat (last_word_end p) - nat (first_word_start p))
      (drop (nat (first_word_start p)) (p_raw p)) \<noteq> []"
    if "seg_argv (p_segment p) \<noteq> []"
    using that assms(2) by (auto simp: restricted_inv_defs nat_less_iff)
  show ?thesis
  proof (cases "seg_argv (p_segment p) = []")
    case True
    with assms have "first_word_start p = -1" "restricted p"
      by (simp_all add: restricted_inv_defs)
    with True assms show ?thesis
      by (auto simp: agree_def emit_segment_def emit_segment_restricted_def reset_segment_def
          close_segment_def empty_segment_def plain_segment_def commands_def Let_def)
  next
    case False
    with assms have "0 \<le> first_word_start p" "restricted p"
      by (simp_all add: restricted_inv_defs)
    with False slice assms(1) show ?thesis
      by (auto simp: agree_def emit_segment_def emit_segment_restricted_def reset_segment_def
          close_segment_def empty_segment_def plain_segment_def commands_def seg_key_def Let_def)
  qed
qed

lemma agree_step_single:
  "agree p q \<Longrightarrow> step_single p r rs = (p', rs') \<Longrightarrow> \<exists>q'. step_single q r rs = (q', rs') \<and> agree p' q'"
  by (auto simp: agree_def step_single_def Let_def split: if_splits)

lemma agree_step_double:
  assumes "agree p q" "restricted p" "step_double p r rs = Inr (p', rs')" "\<not> simple_rejected p'"
  shows "\<exists>q'. step_double q r rs = Inr (q', rs') \<and> agree p' q'"
proof -
  have "\<not> restricted q" using assms(1) by (simp add: agree_def)
  with assms show ?thesis
    by (auto simp: step_double_def Let_def split: if_splits option.splits list.splits)
      (auto simp: agree_def)
qed

lemma step_restricted_plain_rune:
  assumes "\<not> simple_rejected (fst (step_restricted p r rs))"
    and "r \<notin> {0x5C, 0x27, 0x22, 0x20, 0x09, 0x0A, ru CHR '';'', ru CHR ''|'', ru CHR ''&''}"
  shows "step_restricted p r rs = (write_arg r (write_word_rune r p), rs)"
    and "\<not> is_space r" and "\<not> is_boundary_start r rs" and "r \<noteq> 0x60" and "r \<noteq> ru CHR ''$''"
    and "\<not> is_redirection_start r rs" and "\<not> is_unsafe_expansion_rune r"
    and "r = ru CHR ''~'' \<longrightarrow> had_arg p"
  using assms
  by (auto simp: step_restricted_def is_boundary_start_def is_redirection_start_def
      is_unsafe_expansion_rune_def split: if_splits)

lemma agree_write:
  "agree p q \<Longrightarrow> agree (write_arg r (write_word_rune r p)) (write_arg r (write_raw r q))"
  "agree p q \<Longrightarrow> agree (write_arg n (write_word_rune n (write_word_rune r p)))
     (write_arg n (write_raw n (write_raw r q)))"
  "agree p q \<Longrightarrow> agree ((write_word_rune r p)\<lparr>in_single := b, had_arg := True\<rparr>)
     ((write_raw r q)\<lparr>in_single := b, had_arg := True\<rparr>)"
  "agree p q \<Longrightarrow> agree ((write_word_rune r p)\<lparr>in_double := b, had_arg := True\<rparr>)
     ((write_raw r q)\<lparr>in_double := b, had_arg := True\<rparr>)"
  "agree p q \<Longrightarrow> agree (write_raw r p) q"
  "agree p q \<Longrightarrow> agree p (write_raw r q)"
  by (simp_all add: agree_def)

lemma agree_separator:
  assumes "agree p q" "restricted_inv p" "\<not> in_single p" "\<not> in_double p"
    and "\<not> simple_rejected (emit_segment sep (emit_arg p))"
  shows "agree (emit_segment sep (emit_arg p)) (emit_segment sep (emit_arg q))"
  using assms by (intro agree_emit_segment agree_emit_arg emit_arg_inv) simp_all

lemma agree_step_plain:
  assumes "agree p q" "restricted_inv p" "\<not> in_single p" "\<not> in_double p"
    and "step_restricted p r rs = (p', rs')" "\<not> simple_rejected p'"
  shows "\<exists>q'. step_plain q r rs = Inr (q', rs') \<and> agree p' q'"
proof (cases "r \<in> {0x5C, 0x27, 0x22, 0x20, 0x09, 0x0A, ru CHR '';'', ru CHR ''|'', ru CHR ''&''}")
  case False
  have ok: "\<not> simple_rejected (fst (step_restricted p r rs))" using assms(5,6) by simp
  note plain = step_restricted_plain_rune [OF ok False]
  have "had_arg q = had_arg p" using assms(1) by (simp add: agree_def)
  then have "step_plain q r rs = Inr (write_arg r (write_raw r q), rs)"
    using False plain by (auto simp: step_plain_def)
  then show ?thesis
    using plain(1) assms(1,5) agree_write(1) by auto
next
  case True
  have sep: "agree (emit_segment s (emit_arg p)) (emit_segment s (emit_arg q))"
    if "\<not> simple_rejected (emit_segment s (emit_arg p))" for s
    using agree_separator [OF assms(1-4) that] .
  have closed: ?thesis
    if "step_restricted p r rs = (emit_segment s (emit_arg p), t)"
      and "step_plain q r rs = Inr (emit_segment s (emit_arg q), t)" for s t
    using that assms(5,6) sep [of s] by auto
  note evals = step_restricted_def step_plain_def is_space_def space_runes_def
    is_boundary_start_def utf8_enc_ascii Let_def
  consider "r = 0x5C" | "r = 0x27 \<or> r = 0x22" | "r = 0x20 \<or> r = 0x09" | "r = 0x0A \<or> r = ru CHR '';''"
    | "r = ru CHR ''&''" | "r = ru CHR ''|''"
    using True by auto
  then show ?thesis
  proof cases
    case 1
    with agree_write(2) [OF assms(1)] assms(1,5,6) show ?thesis
      by (cases rs) (auto simp: evals split: if_splits)
  next
    case 2
    then show ?thesis
    proof
      assume r: "r = 0x27"
      with assms(5) have "p' = (write_word_rune r p)\<lparr>in_single := True, had_arg := True\<rparr>" "rs' = rs"
        by (simp_all add: step_restricted_def Let_def)
      with r agree_write(3) [OF assms(1)] show ?thesis by (simp add: step_plain_def)
    next
      assume r: "r = 0x22"
      with assms(5) have "p' = (write_word_rune r p)\<lparr>in_double := True, had_arg := True\<rparr>" "rs' = rs"
        by (simp_all add: step_restricted_def Let_def)
      with r agree_write(4) [OF assms(1)] show ?thesis by (simp add: step_plain_def)
    qed
  next
    case 3
    then have "step_restricted p r rs = (write_raw r (emit_arg p), rs)"
      by (auto simp: step_restricted_def)
    moreover have "step_plain q r rs = Inr (emit_arg (write_raw r q), rs)"
      using 3 by (auto simp: step_plain_def is_space_def space_runes_def)
    moreover have "agree (write_raw r (emit_arg p)) (emit_arg (write_raw r q))"
      using assms(1) by (intro agree_write(5) agree_emit_arg agree_write(6))
    ultimately show ?thesis using assms(5) by simp
  next
    case 4
    then show ?thesis
    proof
      assume "r = 0x0A"
      then show ?thesis by (intro closed [of "[CHR 0x0A]" rs]) (simp_all add: evals)
    next
      assume "r = ru CHR '';''"
      then show ?thesis by (intro closed [of "'';''" rs]) (simp_all add: evals)
    qed
  next
    case 5
    then have "next_is (ru CHR ''&'') rs"
      using assms(5,6) by (auto simp: evals split: if_splits)
    with 5 show ?thesis
      by (intro closed [of "''&&''" "tl rs"]) (cases rs; simp add: evals next_is_def)+
  next
    case 6
    consider "next_is (ru CHR ''|'') rs" | "next_is (ru CHR ''&'') rs" "\<not> next_is (ru CHR ''|'') rs"
      | "\<not> next_is (ru CHR ''|'') rs" "\<not> next_is (ru CHR ''&'') rs" by blast
    then show ?thesis
    proof cases
      case 1
      with 6 show ?thesis
        by (intro closed [of "''||''" "tl rs"]) (cases rs; simp add: evals next_is_def)+
    next
      case 2
      with 6 show ?thesis
        by (intro closed [of "''|&''" "tl rs"]) (cases rs; simp add: evals next_is_def)+
    next
      case 3
      with 6 show ?thesis by (intro closed [of "''|''" rs]) (simp_all add: evals)
    qed
  qed
qed

text \<open>A rejection is never taken back.\<close>

lemma rejected_emit_arg: "simple_rejected p \<Longrightarrow> simple_rejected (emit_arg p)"
  by (simp add: emit_arg_def reject_def Let_def)

lemma rejected_emit_segment: "simple_rejected p \<Longrightarrow> simple_rejected (emit_segment sep p)"
  by (simp add: emit_segment_def emit_segment_restricted_def close_segment_def reset_segment_def
      reject_def Let_def)

lemma rejected_step:
  "simple_rejected p \<Longrightarrow> restricted p \<Longrightarrow> scan_step p r rs = Inr (p', rs') \<Longrightarrow> simple_rejected p'"
  by (auto simp: scan_step_def step_single_def step_double_def step_restricted_def Let_def
      rejected_emit_arg rejected_emit_segment split: if_splits option.splits list.splits)

lemma scan_step_restricted: "restricted_inv p \<Longrightarrow> restricted p"
  by (simp add: restricted_inv_def)

lemma rejected_scan:
  "scan p rs = Inr p' \<Longrightarrow> restricted_inv p \<Longrightarrow> simple_rejected p \<Longrightarrow> simple_rejected p'"
proof (induction p rs rule: scan.induct)
  case (1 p)
  then show ?case
    by (auto simp: scan_end_def rejected_emit_arg rejected_emit_segment split: if_splits)
next
  case (2 p r rs)
  from 2(2) obtain p1 rs1 where step: "scan_step p r rs = Inr (p1, rs1)" and "scan p1 rs1 = Inr p'"
    by (auto split: sum.splits)
  with 2(1) [OF step refl] 2(3,4) scan_step_restricted show ?case
    by (blast dest: rejected_step scan_step_inv)
qed

lemma agree_step:
  assumes "agree p q" "restricted_inv p" "scan_step p r rs = Inr (p', rs')" "\<not> simple_rejected p'"
  shows "\<exists>q'. scan_step q r rs = Inr (q', rs') \<and> agree p' q'"
proof -
  have q: "\<not> restricted q" "in_single q = in_single p" "in_double q = in_double p"
    using assms(1) by (simp_all add: agree_def)
  have p: "restricted p" using assms(2) by (rule scan_step_restricted)
  consider "in_single p" | "\<not> in_single p" "in_double p" | "\<not> in_single p" "\<not> in_double p" by blast
  then show ?thesis
  proof cases
    case 1
    with assms(3) q agree_step_single [OF assms(1), of r rs p' rs'] show ?thesis
      by (auto simp: scan_step_def)
  next
    case 2
    with assms q p agree_step_double [OF assms(1) p, of r rs p' rs'] show ?thesis
      by (auto simp: scan_step_def)
  next
    case 3
    with assms q p agree_step_plain [OF assms(1,2), of r rs p' rs'] show ?thesis
      by (auto simp: scan_step_def)
  qed
qed

lemma agree_scan:
  "scan p rs = Inr p' \<Longrightarrow> agree p q \<Longrightarrow> restricted_inv p \<Longrightarrow> \<not> simple_rejected p' \<Longrightarrow>
     \<exists>q'. scan q rs = Inr q' \<and> agree p' q'"
proof (induction p rs arbitrary: q rule: scan.induct)
  case (1 p)
  then have "\<not> in_single p" "\<not> in_double p" and p': "p' = emit_segment [] (emit_arg p)"
    by (auto simp: scan_end_def split: if_splits)
  with 1 agree_separator [of p q "[]"] show ?case
    by (auto simp: scan_end_def agree_def)
next
  case (2 p r rs)
  from 2(2) obtain p1 rs1 where step: "scan_step p r rs = Inr (p1, rs1)" and rest: "scan p1 rs1 = Inr p'"
    by (auto split: sum.splits)
  have inv: "restricted_inv p1" using 2(4) step by (rule scan_step_inv)
  have "\<not> simple_rejected p1" using rejected_scan [OF rest inv] 2(5) by blast
  then obtain q1 where q1: "scan_step q r rs = Inr (q1, rs1)" "agree p1 q1"
    using agree_step [OF 2(3,4) step] by blast
  with 2(1) [OF step refl rest q1(2) inv 2(5)] show ?case by simp
qed

lemma parse_simple_legacy:
  assumes "parse_simple command = Some segs"
  shows "\<exists>segs'. parse command = Inr segs' \<and> commands segs' = map seg_key segs
     \<and> list_all plain_segment segs'"
proof -
  obtain p where p: "scan restricted_parser (runes command) = Inr p" "segs = p_segments p"
    "\<not> simple_rejected p"
    using assms by (auto simp: parse_simple_def split: sum.splits if_splits)
  with agree_scan [OF p(1) agree_init restricted_inv_init] show ?thesis
    by (auto simp: parse_def agree_def)
qed

section \<open>Properties\<close>

text \<open>What \<open>ParseSimple\<close> accepts is a list of simple commands. Each segment has words and text, no
  redirection and no expansion the permission check could not see through, and the last one ends
  the line, with a \<open>;\<close> or with a newline: nothing is left to run in the background or to be piped on.\<close>

theorem parse_simple_accepts_simple_commands:
  assumes "parse_simple command = Some segs"
  shows "segs \<noteq> [] \<and> list_all simple_segment segs
     \<and> seg_separator (last segs) \<in> {[], '';'', [CHR 0x0A]}"
  by (rule parse_simple_segments [OF assms])

lemma parse_simple_example:
  "map_option (map seg_key) (parse_simple ''ls a; wc'') = Some [([''ls'', ''a''], '';''), ([''wc''], [])]"
  by (simp add: scan_eval seg_key_def)

theorem parse_simple_accepts_simple_commands_witness:
  "\<exists>segs. parse_simple ''ls a; wc'' = Some segs \<and> segs \<noteq> [] \<and> list_all simple_segment segs"
proof -
  obtain segs where segs: "parse_simple ''ls a; wc'' = Some segs"
    using parse_simple_example by (cases "parse_simple ''ls a; wc''") simp_all
  then show ?thesis
    using parse_simple_accepts_simple_commands [OF segs] by (intro exI [of _ segs]) simp
qed

text \<open>The two grammars agree. A command line that the restricted scanner accepts is read by the
  legacy scanner without an error, as the same argument vectors with the same separators and with
  no expansion or redirection: the permission decision taken on \<open>ParseSimple\<close>'s segments is about the
  commands that \<open>Parse\<close> sees in the line.\<close>

theorem parse_simple_agrees_with_parse:
  assumes "parse_simple command = Some segs"
  shows "\<exists>segs'. parse command = Inr segs' \<and> commands segs' = map seg_key segs
     \<and> list_all plain_segment segs'"
  by (rule parse_simple_legacy [OF assms])

theorem parse_simple_agrees_with_parse_witness:
  "\<exists>segs'. parse ''ls a; wc'' = Inr segs'
     \<and> commands segs' = [([''ls'', ''a''], '';''), ([''wc''], [])]"
proof -
  obtain segs where segs: "parse_simple ''ls a; wc'' = Some segs"
    "map seg_key segs = [([''ls'', ''a''], '';''), ([''wc''], [])]"
    using parse_simple_example by (cases "parse_simple ''ls a; wc''") simp_all
  obtain segs' where "parse ''ls a; wc'' = Inr segs'" "commands segs' = map seg_key segs"
    using parse_simple_agrees_with_parse [OF segs(1)] by (elim exE conjE) (rule that)
  then show ?thesis using segs(2) by (intro exI [of _ segs']) simp
qed

end
