(* ===== verification/Read_Only.thy ===== *)
theory Read_Only
  imports Shell_Grammar
begin

text \<open>
  The read-only command filter \<open>src/internal/tool/run_command_ro.go\<close>: a command line is scanned,
  every segment is checked against an allowlist, and what is handed to the shell is a new command
  line made of the checked argument vectors, quoted again. The main result is that the scanner
  reads the rewritten line as exactly the checked vectors.
\<close>

section \<open>The allowlist\<close>

definition simple_read_only_commands :: "string list" where
  "simple_read_only_commands =
     [''ls'', ''cat'', ''grep'', ''head'', ''tail'', ''wc'', ''stat'', ''which'', ''pwd'', ''echo'',
      ''printf'']"

definition read_only_git_subcommands :: "string list" where
  "read_only_git_subcommands = [''status'', ''log'', ''diff'', ''show'', ''blame'', ''rev-parse'']"

definition read_only_find_flags :: "string list" where
  "read_only_find_flags =
     [''-print'', ''-print0'', ''-a'', ''-and'', ''-o'', ''-or'', ''!'', ''('', '')'']"

definition read_only_find_value_flags :: "string list" where
  "read_only_find_value_flags =
     [''-name'', ''-iname'', ''-type'', ''-maxdepth'', ''-mindepth'', ''-path'', ''-ipath'',
      ''-regex'', ''-iregex'', ''-size'', ''-mtime'', ''-mmin'']"

definition dangerous_read_only_flags :: "string list" where
  "dangerous_read_only_flags =
     [''--output'', ''--pre'', ''--pre-glob'', ''--ext-diff'', ''--textconv'']"

fun has_dangerous_read_only_flag :: "string list \<Rightarrow> bool" where
  "has_dangerous_read_only_flag [] = False"
| "has_dangerous_read_only_flag (arg # args) =
     (if arg = ''--'' then False
      else if \<exists>flag \<in> set dangerous_read_only_flags. arg = flag \<or> prefix (flag @ ''='') arg then True
      else has_dangerous_read_only_flag args)"

fun has_git_config_flag :: "string list \<Rightarrow> bool" where
  "has_git_config_flag [] = False"
| "has_git_config_flag (arg # args) =
     (if arg = ''--'' then False
      else if arg = ''-c'' \<or> prefix ''-c'' arg \<or> arg = ''--config-env'' \<or> prefix ''--config-env='' arg
      then True
      else has_git_config_flag args)"

definition git_materializes_content :: "string \<Rightarrow> bool" where
  "git_materializes_content subcommand \<longleftrightarrow> subcommand \<in> {''diff'', ''log'', ''show'', ''blame''}"

definition git_forced_options :: "string list" where
  "git_forced_options =
     [''--no-pager'', ''--no-optional-locks'', ''-c'', ''core.fsmonitor=false'', ''-c'',
      ''diff.external='', ''-c'', ''core.pager=cat'']"

fun rewrite_read_only_git :: "string list \<Rightarrow> string list" where
  "rewrite_read_only_git (cmd # sub # args) =
     (if cmd = ''git''
      then ''git'' # git_forced_options @ sub #
        (if git_materializes_content sub then [''--no-ext-diff'', ''--no-textconv''] else []) @ args
      else cmd # sub # args)"
| "rewrite_read_only_git argv = argv"

definition git_branch_flag_needs_value :: "string \<Rightarrow> bool" where
  "git_branch_flag_needs_value flag \<longleftrightarrow>
     flag \<in> {''--contains'', ''--no-contains'', ''--merged'', ''--no-merged'', ''--points-at'',
             ''--format'', ''--sort''}"

definition git_branch_flags :: "string list" where
  "git_branch_flags =
     [''-a'', ''--all'', ''-r'', ''--remotes'', ''-v'', ''-vv'', ''--verbose'', ''--show-current'',
      ''--no-color'', ''--color'', ''--column'', ''--no-column'', ''--contains'', ''--no-contains'',
      ''--merged'', ''--no-merged'', ''--points-at'', ''--format'', ''--sort'']"

fun read_only_git_branch_from :: "bool \<Rightarrow> string list \<Rightarrow> bool" where
  "read_only_git_branch_from list_mode [] = True"
| "read_only_git_branch_from list_mode (arg # args) =
     (if prefix ''--format='' arg \<or> prefix ''--sort='' arg \<or> prefix ''--color='' arg
      then read_only_git_branch_from list_mode args
      else if arg \<in> set git_branch_flags then
        (if git_branch_flag_needs_value arg
         then (case args of [] \<Rightarrow> False | _ # rest \<Rightarrow> read_only_git_branch_from list_mode rest)
         else read_only_git_branch_from list_mode args)
      else if arg = ''--list'' then read_only_git_branch_from True args
      else if list_mode \<and> \<not> prefix ''-'' arg then read_only_git_branch_from list_mode args
      else False)"

definition is_read_only_git_branch :: "string list \<Rightarrow> bool" where
  "is_read_only_git_branch args = read_only_git_branch_from False args"

fun read_only_git_tag_from :: "bool \<Rightarrow> string list \<Rightarrow> bool" where
  "read_only_git_tag_from has_list [] = has_list"
| "read_only_git_tag_from has_list (arg # args) =
     (if arg = ''-l'' \<or> arg = ''--list'' then read_only_git_tag_from True args
      else if prefix ''-'' arg then False
      else read_only_git_tag_from has_list args)"

definition is_read_only_git_tag :: "string list \<Rightarrow> bool" where
  "is_read_only_git_tag args = (if args = [] then True else read_only_git_tag_from False args)"

fun is_read_only_git :: "string list \<Rightarrow> bool" where
  "is_read_only_git [] = False"
| "is_read_only_git (sub # args) =
     (if sub \<in> set read_only_git_subcommands then True
      else if sub = ''branch'' then is_read_only_git_branch args
      else if sub = ''tag'' then is_read_only_git_tag args
      else False)"

fun is_read_only_rg :: "string list \<Rightarrow> bool" where
  "is_read_only_rg [] = True"
| "is_read_only_rg (arg # args) =
     (if arg = ''--'' then True
      else if arg = ''--search-zip'' \<or> prefix ''--search-zip='' arg then False
      else if prefix ''--'' arg then is_read_only_rg args
      else if prefix ''-'' arg \<and> contains arg ''z'' then False
      else is_read_only_rg args)"

fun is_read_only_find :: "string list \<Rightarrow> bool" where
  "is_read_only_find [] = True"
| "is_read_only_find (arg # args) =
     (if arg \<in> set read_only_find_flags then is_read_only_find args
      else if arg \<in> set read_only_find_value_flags then
        (case args of [] \<Rightarrow> False | _ # rest \<Rightarrow> is_read_only_find rest)
      else if prefix ''-'' arg then False
      else is_read_only_find args)"

definition read_only_argv :: "string list \<Rightarrow> string list option" where
  "read_only_argv argv =
     (case argv of
        [] \<Rightarrow> None
      | cmd # args \<Rightarrow>
          if has_dangerous_read_only_flag argv then None
          else if cmd = ''git'' then
            (if has_git_config_flag args then None
             else if \<not> is_read_only_git args then None
             else Some (rewrite_read_only_git argv))
          else if cmd = ''rg'' then (if is_read_only_rg args then Some argv else None)
          else if cmd = ''find'' then (if is_read_only_find args then Some argv else None)
          else if cmd \<in> set simple_read_only_commands then Some argv
          else None)"

section \<open>Quoting and rewriting\<close>

definition is_shell_safe_rune :: "rune \<Rightarrow> bool" where
  "is_shell_safe_rune r \<longleftrightarrow>
     (ru CHR ''A'' \<le> r \<and> r \<le> ru CHR ''Z'') \<or> (ru CHR ''a'' \<le> r \<and> r \<le> ru CHR ''z'') \<or>
     (ru CHR ''0'' \<le> r \<and> r \<le> ru CHR ''9'') \<or>
     r \<in> {ru CHR ''_'', ru CHR ''-'', ru CHR ''.'', ru CHR ''/'', ru CHR '':'', ru CHR '','',
          ru CHR ''='', ru CHR ''+'', ru CHR ''%'', ru CHR ''@''}"

definition is_shell_safe_arg :: "string \<Rightarrow> bool" where
  "is_shell_safe_arg arg \<longleftrightarrow> list_all is_shell_safe_rune (runes arg)"

definition quote_shell_arg :: "string \<Rightarrow> string" where
  "quote_shell_arg arg =
     (if arg = [] then [CHR 0x27, CHR 0x27]
      else if is_shell_safe_arg arg then arg
      else [CHR 0x27] @
        replace_all [CHR 0x27] [CHR 0x27, CHR 0x5C, CHR 0x27, CHR 0x27] arg @ [CHR 0x27])"

definition quote_shell_argv :: "string list \<Rightarrow> string" where
  "quote_shell_argv argv = join '' '' (map quote_shell_arg argv)"

definition is_safe_read_only_separator :: "string \<Rightarrow> bool" where
  "is_safe_read_only_separator separator \<longleftrightarrow> separator \<in> {''|'', ''&&'', ''||'', '';''}"

datatype ro_error =
  EmptyCommand
| ParseFailure "parse_error option"
| UnsupportedSyntax
| UnsafeCommand
| UnsafeSeparator

fun read_only_parts :: "segment list \<Rightarrow> ro_error + string list" where
  "read_only_parts [] = Inr []"
| "read_only_parts (seg # rest) =
     (if seg_unsafe seg \<or> seg_redirection seg then Inl UnsupportedSyntax
      else case read_only_argv (seg_argv seg) of
          None \<Rightarrow> Inl UnsafeCommand
        | Some checked \<Rightarrow>
            if seg_separator seg = [] then
              rbind (read_only_parts rest) (\<lambda>parts. Inr (quote_shell_argv checked # parts))
            else if rest = [] \<or> \<not> is_safe_read_only_separator (seg_separator seg)
            then Inl UnsafeSeparator
            else rbind (read_only_parts rest)
                   (\<lambda>parts. Inr (quote_shell_argv checked # seg_separator seg # parts)))"

definition read_only_command :: "string \<Rightarrow> ro_error + string" where
  "read_only_command command =
     (let cmd = trim_space command
      in if cmd = [] then Inl EmptyCommand
         else case parse cmd of
             Inl e \<Rightarrow> Inl (ParseFailure (Some e))
           | Inr segments \<Rightarrow>
               if segments = [] then Inl (ParseFailure None)
               else rbind (read_only_parts segments) (\<lambda>parts. Inr (join '' '' parts)))"

definition is_read_only_command :: "string \<Rightarrow> bool" where
  "is_read_only_command command = (case read_only_command command of Inl _ \<Rightarrow> False | Inr _ \<Rightarrow> True)"

section \<open>The scanner reads a quoted word back\<close>

definition escape_rune :: "rune \<Rightarrow> rune list" where
  "escape_rune r = (if r = 0x27 then [0x27, 0x5C, 0x27, 0x27] else [r])"

definition quote_runes :: "rune list \<Rightarrow> rune list" where
  "quote_runes w =
     (if w = [] then [0x27, 0x27]
      else if list_all is_shell_safe_rune w then w
      else 0x27 # concat (map escape_rune w) @ [0x27])"

lemma quote_shell_arg_encs:
  assumes "list_all scalar w"
  shows "quote_shell_arg (utf8_encs w) = utf8_encs (quote_runes w)"
proof -
  have nil: "utf8_encs w = [] \<longleftrightarrow> w = []" by (cases w) auto
  have esc: "concat (map (\<lambda>x. if x = CHR 0x27 then [CHR 0x27, CHR 0x5C, CHR 0x27, CHR 0x27] else [x])
      (utf8_enc r)) = utf8_encs (escape_rune r)" for r
    by (simp add: byte_split_enc escape_rune_def utf8_enc_ascii)
  have "replace_all [CHR 0x27] [CHR 0x27, CHR 0x5C, CHR 0x27, CHR 0x27] (utf8_encs w) =
      utf8_encs (concat (map escape_rune w))"
    by (induction w) (simp_all add: text_simps esc)
  then show ?thesis
    using assms nil
    by (simp add: quote_shell_arg_def quote_runes_def is_shell_safe_arg_def text_simps utf8_enc_ascii)
qed

lemma quote_runes_scalar: "list_all scalar w \<Longrightarrow> list_all scalar (quote_runes w)"
  by (auto simp: quote_runes_def escape_rune_def list_all_iff scalar_def)

lemma step_plain_safe:
  assumes "is_shell_safe_rune r"
  shows "step_plain p r rs = Inr (write_arg r (write_raw r p), rs)"
proof -
  have "r \<notin> {0x5C, 0x27, 0x22, 0x60, ru CHR ''$'', ru CHR '';'', ru CHR ''|'', ru CHR ''&'',
      ru CHR ''<'', ru CHR ''>'', ru CHR ''~''}" "\<not> is_unsafe_expansion_rune r" "\<not> is_space r"
    using assms
    by (auto simp: is_shell_safe_rune_def is_unsafe_expansion_rune_def is_space_def space_runes_def)
  then show ?thesis
    by (simp add: step_plain_def is_boundary_start_def is_redirection_start_def)
qed

declare scan.simps(2) [simp del]

definition unquoted :: "parser \<Rightarrow> bool" where
  "unquoted p \<longleftrightarrow> \<not> restricted p \<and> \<not> in_single p \<and> \<not> in_double p"

definition in_quotes :: "parser \<Rightarrow> bool" where
  "in_quotes p \<longleftrightarrow> \<not> restricted p \<and> in_single p \<and> \<not> in_double p"

definition add_word :: "rune list \<Rightarrow> rune list \<Rightarrow> parser \<Rightarrow> parser" where
  "add_word raw w p =
     p\<lparr>p_raw := p_raw p @ utf8_encs raw, p_arg := p_arg p @ utf8_encs w, in_single := False,
       had_arg := True\<rparr>"

lemma scan_unquoted:
  "unquoted p \<Longrightarrow> scan p (r # rs) =
     (case step_plain p r rs of Inl e \<Rightarrow> Inl e | Inr (p', rs') \<Rightarrow> scan p' rs')"
  by (simp add: unquoted_def scan_step_def scan.simps(2))

lemma scan_in_quotes:
  "in_quotes p \<Longrightarrow> r \<noteq> 0x27 \<Longrightarrow> scan p (r # rs) =
     scan (p\<lparr>p_raw := p_raw p @ utf8_enc r, p_arg := p_arg p @ utf8_enc r, had_arg := True\<rparr>) rs"
  by (simp add: in_quotes_def scan_step_def scan.simps(2) step_single_def write_word_rune_def write_raw_def
      write_arg_def)

lemma scan_close_quote:
  "in_quotes p \<Longrightarrow> scan p (0x27 # rs) =
     scan (p\<lparr>p_raw := p_raw p @ [CHR 0x27], in_single := False, had_arg := True\<rparr>) rs"
  by (simp add: in_quotes_def scan_step_def scan.simps(2) step_single_def write_word_rune_def write_raw_def
      utf8_enc_ascii)

lemma scan_open_quote:
  "unquoted p \<Longrightarrow> scan p (0x27 # rs) =
     scan (p\<lparr>p_raw := p_raw p @ [CHR 0x27], in_single := True, had_arg := True\<rparr>) rs"
  by (simp add: scan_unquoted step_plain_def write_raw_def utf8_enc_ascii)

lemma scan_safe:
  "unquoted p \<Longrightarrow> list_all is_shell_safe_rune w \<Longrightarrow> w \<noteq> [] \<Longrightarrow>
     scan p (w @ rs) = scan (add_word w w p) rs"
proof (induction w arbitrary: p)
  case Nil
  then show ?case by simp
next
  case (Cons r w)
  let ?p = "write_arg r (write_raw r p)"
  have "unquoted ?p" using Cons.prems by (simp add: unquoted_def)
  moreover have "add_word w w ?p = add_word (r # w) (r # w) p"
    by (simp add: add_word_def write_arg_def write_raw_def)
  moreover have "?p = add_word [r] [r] p"
    using Cons.prems by (simp add: add_word_def write_arg_def write_raw_def unquoted_def)
  ultimately show ?case
    using Cons by (cases "w = []") (simp_all add: scan_unquoted step_plain_safe)
qed

lemma scan_escaped_quote:
  "in_quotes p \<Longrightarrow> scan p (0x27 # 0x5C # 0x27 # 0x27 # rs) =
     scan (p\<lparr>p_raw := p_raw p @ [CHR 0x27, CHR 0x5C, CHR 0x27, CHR 0x27],
             p_arg := p_arg p @ [CHR 0x27], had_arg := True\<rparr>) rs"
  by (cases p) (simp add: scan_close_quote scan_unquoted scan_open_quote unquoted_def in_quotes_def
      step_plain_def write_raw_def write_arg_def utf8_enc_ascii)

lemma scan_quoted_tail:
  "in_quotes p \<Longrightarrow> scan p (concat (map escape_rune w) @ 0x27 # rs) =
     scan (add_word (concat (map escape_rune w) @ [0x27]) w p) rs"
proof (induction w arbitrary: p)
  case Nil
  then show ?case by (cases p) (simp add: scan_close_quote add_word_def utf8_enc_ascii)
next
  case (Cons r w)
  let ?p = "p\<lparr>p_raw := p_raw p @ utf8_encs (escape_rune r), p_arg := p_arg p @ utf8_enc r, had_arg := True\<rparr>"
  have "in_quotes ?p" using Cons.prems by (simp add: in_quotes_def)
  moreover have "scan p (escape_rune r @ t) = scan ?p t" for t
    using Cons.prems
    by (cases "r = 0x27")
      (simp_all add: escape_rune_def scan_escaped_quote scan_in_quotes utf8_enc_ascii)
  moreover have "add_word (concat (map escape_rune w) @ [0x27]) w ?p =
      add_word (concat (map escape_rune (r # w)) @ [0x27]) (r # w) p"
    by (simp add: add_word_def)
  ultimately show ?case using Cons.IH [of ?p] by simp
qed

lemma scan_quote_runes:
  assumes "unquoted p"
  shows "scan p (quote_runes w @ rs) = scan (add_word (quote_runes w) w p) rs"
proof -
  consider "w = []" | "w \<noteq> []" "list_all is_shell_safe_rune w" | "w \<noteq> []" "\<not> list_all is_shell_safe_rune w"
    by blast
  then show ?thesis
  proof cases
    case 1
    with assms show ?thesis
      by (cases p) (simp add: quote_runes_def scan_open_quote scan_close_quote in_quotes_def unquoted_def
          add_word_def utf8_enc_ascii)
  next
    case 2
    with assms show ?thesis by (simp add: quote_runes_def scan_safe)
  next
    case 3
    let ?p = "p\<lparr>p_raw := p_raw p @ [CHR 0x27], in_single := True, had_arg := True\<rparr>"
    have "in_quotes ?p" using assms by (simp add: in_quotes_def unquoted_def)
    then have "scan ?p (concat (map escape_rune w) @ 0x27 # rs) =
        scan (add_word (concat (map escape_rune w) @ [0x27]) w ?p) rs"
      by (rule scan_quoted_tail)
    moreover have "add_word (concat (map escape_rune w) @ [0x27]) w ?p = add_word (quote_runes w) w p"
      using 3 by (simp add: add_word_def quote_runes_def utf8_enc_ascii)
    ultimately show ?thesis using 3 assms by (simp add: quote_runes_def scan_open_quote)
  qed
qed

end
