(* ===== verification/Read_Only_Safe.thy ===== *)
theory Read_Only_Safe
  imports Read_Only
begin

text \<open>
  The rewritten command line means what was checked: scanning the output of \<open>read_only_command\<close>
  finds the checked argument vectors, separated as in the input, with no redirection and no
  expansion. Then the facts about what the allowlist lets through.
\<close>

section \<open>Scanning a whole command line\<close>

text \<open>The legacy scanner between words (\<open>mid\<close>) and at the end of a word (\<open>word_end\<close>).\<close>

definition mid :: "segment list \<Rightarrow> string list \<Rightarrow> string \<Rightarrow> parser" where
  "mid segs argv raw =
     legacy_parser\<lparr>p_segments := segs, p_segment := empty_segment\<lparr>seg_argv := argv\<rparr>, p_raw := raw\<rparr>"

definition word_end :: "segment list \<Rightarrow> string list \<Rightarrow> string \<Rightarrow> string \<Rightarrow> parser" where
  "word_end segs argv raw w = (mid segs argv raw)\<lparr>p_arg := w, had_arg := True\<rparr>"

definition closed_segment :: "string \<Rightarrow> string list \<Rightarrow> string \<Rightarrow> segment" where
  "closed_segment raw argv sep =
     \<lparr>seg_text = trim_space raw, seg_separator = sep, seg_argv = argv, seg_redirection = False,
      seg_unsafe = False\<rparr>"

lemmas mid_defs =
  mid_def word_end_def closed_segment_def legacy_parser_def empty_segment_def unquoted_def

lemma scan_mid_word:
  "scan (mid segs argv raw) (quote_runes w @ rs) =
     scan (word_end segs argv (raw @ utf8_encs (quote_runes w)) (utf8_encs w)) rs"
  by (subst scan_quote_runes) (simp_all add: mid_defs add_word_def)

lemma scan_word_space:
  "scan (word_end segs argv raw w) (0x20 # rs) = scan (mid segs (argv @ [w]) (raw @ '' '')) rs"
  by (subst scan_unquoted)
    (simp_all add: mid_defs step_plain_def is_space_def space_runes_def emit_arg_def write_raw_def
      utf8_enc_ascii Let_def)

lemma scan_mid_space: "scan (mid segs argv raw) (0x20 # rs) = scan (mid segs argv (raw @ '' '')) rs"
  by (subst scan_unquoted)
    (simp_all add: mid_defs step_plain_def is_space_def space_runes_def emit_arg_def write_raw_def
      utf8_enc_ascii Let_def)

lemma scan_mid_separator:
  assumes "is_safe_read_only_separator sep"
  shows "scan (mid segs argv raw) (runes sep @ 0x20 # rs) =
    scan (mid (segs @ [closed_segment raw argv sep]) [] []) (0x20 # rs)"
proof -
  have "unquoted (mid segs argv raw)" by (simp add: mid_defs)
  moreover have "sep = ''|'' \<or> sep = ''&&'' \<or> sep = ''||'' \<or> sep = '';''"
    using assms by (auto simp: is_safe_read_only_separator_def)
  ultimately show ?thesis
    by (auto simp: runes_ascii scan_unquoted step_plain_def is_space_def space_runes_def
        is_boundary_start_def next_is_def emit_arg_def emit_segment_def close_segment_def
        reset_segment_def mid_defs utf8_enc_ascii Let_def)
qed

lemma scan_end_word:
  "scan_end (word_end segs argv raw w) =
     Inr (mid (segs @ [closed_segment raw (argv @ [w]) []]) [] [])"
  by (simp add: mid_defs scan_end_def emit_arg_def emit_segment_def close_segment_def
      reset_segment_def Let_def)

text \<open>A quoted argument vector.\<close>

fun argv_runes :: "rune list list \<Rightarrow> rune list" where
  "argv_runes [] = []"
| "argv_runes [w] = quote_runes w"
| "argv_runes (w # v # ws) = quote_runes w @ 0x20 # argv_runes (v # ws)"

lemma scan_argv:
  "ws \<noteq> [] \<Longrightarrow> \<exists>raw'. scan (mid segs argv raw) (argv_runes ws @ rs) =
     scan (word_end segs (argv @ map utf8_encs (butlast ws)) raw' (utf8_encs (last ws))) rs"
proof (induction ws arbitrary: argv raw rule: argv_runes.induct)
  case 1
  then show ?case by simp
next
  case (2 w)
  show ?case by (auto simp: scan_mid_word)
next
  case (3 w v ws)
  let ?raw = "(raw @ utf8_encs (quote_runes w)) @ '' ''"
  obtain raw' where "scan (mid segs (argv @ [utf8_encs w]) ?raw) (argv_runes (v # ws) @ rs) =
      scan (word_end segs ((argv @ [utf8_encs w]) @ map utf8_encs (butlast (v # ws))) raw'
        (utf8_encs (last (v # ws)))) rs"
    using "3.IH" [of "argv @ [utf8_encs w]" ?raw] by auto
  then show ?case
    by (intro exI [of _ raw']) (simp only: argv_runes.simps append_assoc append_Cons scan_mid_word
        scan_word_space, simp)
qed

lemma argv_runes_encs:
  "ws \<noteq> [] \<Longrightarrow> list_all (list_all scalar) ws \<Longrightarrow>
     quote_shell_argv (map utf8_encs ws) = utf8_encs (argv_runes ws) \<and> list_all scalar (argv_runes ws)"
  by (induction ws rule: argv_runes.induct)
    (simp_all add: quote_shell_argv_def quote_shell_arg_encs quote_runes_scalar utf8_enc_ascii
      scalar_def [of 32])

text \<open>A command line: argument vectors and the separators after them (none after the last).\<close>

fun line_runes :: "(rune list list \<times> string) list \<Rightarrow> rune list" where
  "line_runes [] = []"
| "line_runes [(ws, sep)] = argv_runes ws"
| "line_runes ((ws, sep) # c # cs) = argv_runes ws @ 0x20 # runes sep @ 0x20 # line_runes (c # cs)"

fun line_ok :: "(rune list list \<times> string) list \<Rightarrow> bool" where
  "line_ok [] = False"
| "line_ok [(ws, sep)] = (ws \<noteq> [] \<and> list_all (list_all scalar) ws \<and> sep = [])"
| "line_ok ((ws, sep) # c # cs) =
     (ws \<noteq> [] \<and> list_all (list_all scalar) ws \<and> is_safe_read_only_separator sep \<and> line_ok (c # cs))"

definition line_keys :: "(rune list list \<times> string) list \<Rightarrow> (string list \<times> string) list" where
  "line_keys cs = map (\<lambda>(ws, sep). (map utf8_encs ws, sep)) cs"

lemma line_keys_Cons: "line_keys ((ws, sep) # cs) = (map utf8_encs ws, sep) # line_keys cs"
  by (simp add: line_keys_def)

lemma closed_segment_key [simp]:
  "seg_key (closed_segment raw argv sep) = (argv, sep)" "plain_segment (closed_segment raw argv sep)"
  by (simp_all add: closed_segment_def seg_key_def plain_segment_def)

lemma scan_line:
  "line_ok cs \<Longrightarrow> \<exists>new raw. scan (mid segs [] raw0) (line_runes cs) = Inr (mid (segs @ new) [] raw)
     \<and> map seg_key new = line_keys cs \<and> list_all plain_segment new"
proof (induction cs arbitrary: segs raw0 rule: line_runes.induct)
  case 1
  then show ?case by simp
next
  case (2 ws sep)
  then obtain raw where "scan (mid segs [] raw0) (argv_runes ws @ []) =
      scan (word_end segs (map utf8_encs (butlast ws)) raw (utf8_encs (last ws))) []"
    using scan_argv [of ws segs "[]" raw0 "[]"] by auto
  moreover have "map utf8_encs (butlast ws) @ [utf8_encs (last ws)] = map utf8_encs ws"
    using 2 by (metis append_butlast_last_id line_ok.simps(2) list.simps(9) map_append list.map(1))
  ultimately show ?case
    using 2
    by (auto simp: scan_end_word line_keys_def closed_segment_def seg_key_def plain_segment_def
        intro!: exI [of _ "[closed_segment raw (map utf8_encs ws) []]"])
next
  case (3 ws sep c cs)
  let ?rest = "runes sep @ 0x20 # line_runes (c # cs)"
  obtain raw where "scan (mid segs [] raw0) (argv_runes ws @ 0x20 # ?rest) =
      scan (word_end segs (map utf8_encs (butlast ws)) raw (utf8_encs (last ws))) (0x20 # ?rest)"
    using scan_argv [of ws segs "[]" raw0 "0x20 # ?rest"] 3 by auto
  moreover have "map utf8_encs (butlast ws) @ [utf8_encs (last ws)] = map utf8_encs ws"
    using 3 by (metis append_butlast_last_id line_ok.simps(3) list.simps(9) map_append list.map(1))
  ultimately have "scan (mid segs [] raw0) (line_runes ((ws, sep) # c # cs)) =
      scan (mid (segs @ [closed_segment (raw @ '' '') (map utf8_encs ws) sep]) [] '' '') (line_runes (c # cs))"
    using 3 by (simp add: scan_word_space scan_mid_separator scan_mid_space)
  moreover from 3 have "line_ok (c # cs)" by simp
  then obtain new raw' where
    "scan (mid (segs @ [closed_segment (raw @ '' '') (map utf8_encs ws) sep]) [] '' '') (line_runes (c # cs)) =
       Inr (mid ((segs @ [closed_segment (raw @ '' '') (map utf8_encs ws) sep]) @ new) [] raw')"
    "map seg_key new = line_keys (c # cs)" "list_all plain_segment new"
    using "3.IH" [of "segs @ [closed_segment (raw @ '' '') (map utf8_encs ws) sep]" "'' ''"] by blast
  ultimately show ?case
    by (intro exI [of _ "closed_segment (raw @ '' '') (map utf8_encs ws) sep # new"])
      (auto simp: line_keys_Cons)
qed

section \<open>What the scanner returns is valid text\<close>

definition text_ok :: "parser \<Rightarrow> bool" where
  "text_ok p \<longleftrightarrow>
     \<not> restricted p \<and> valid_text (p_arg p) \<and> list_all valid_text (seg_argv (p_segment p))
     \<and> list_all (\<lambda>s. list_all valid_text (seg_argv s) \<and> seg_separator s \<noteq> []) (p_segments p)"

lemma text_ok_write_raw [simp]: "text_ok (write_raw r p) = text_ok p"
  by (simp add: text_ok_def write_raw_def)

lemma text_ok_write_word_rune [simp]: "text_ok (write_word_rune r p) = text_ok p"
  by (simp add: text_ok_def)

lemma text_ok_write_arg [simp]: "scalar r \<Longrightarrow> text_ok p \<Longrightarrow> text_ok (write_arg r p)"
  by (simp add: text_ok_def)

lemma text_ok_reject [simp]: "text_ok (reject p) = text_ok p"
  by (simp add: text_ok_def reject_def)

lemma text_ok_mark_unsafe [simp]: "text_ok (mark_unsafe p) = text_ok p"
  by (simp add: text_ok_def mark_unsafe_def)

lemma text_ok_flags [simp]:
  "text_ok (p\<lparr>in_single := b\<rparr>) = text_ok p" "text_ok (p\<lparr>in_double := b\<rparr>) = text_ok p"
  "text_ok (p\<lparr>had_arg := b\<rparr>) = text_ok p" "text_ok (p\<lparr>in_single := b, had_arg := c\<rparr>) = text_ok p"
  "text_ok (p\<lparr>in_double := b, had_arg := c\<rparr>) = text_ok p"
  "text_ok (p\<lparr>p_segment := (p_segment p)\<lparr>seg_redirection := b\<rparr>\<rparr>) = text_ok p"
  by (simp_all add: text_ok_def)

lemma text_ok_emit_arg [simp]: "text_ok p \<Longrightarrow> text_ok (emit_arg p)"
  by (simp add: text_ok_def emit_arg_def reject_def Let_def)

lemma text_ok_emit_segment:
  "text_ok p \<Longrightarrow> sep \<noteq> [] \<Longrightarrow> text_ok (emit_segment sep p)"
  by (simp add: text_ok_def emit_segment_def emit_segment_restricted_def close_segment_def
      reset_segment_def reject_def empty_segment_def Let_def)

lemma text_ok_fold_raw [simp]: "text_ok (fold write_raw rs p) = text_ok p"
  by (induction rs arbitrary: p) simp_all

lemma text_ok_redirection_target:
  "redirection_target p first rs = Inr (p', rs') \<Longrightarrow> text_ok p \<Longrightarrow> text_ok p' \<and> suffix rs' rs"
  by (induction p first rs rule: redirection_target.induct)
    (auto split: if_splits intro: suffix_ConsI)

lemma text_ok_consume_redirection:
  assumes "consume_redirection p r rs = Inr (p', rs')" "text_ok p"
  shows "text_ok p' \<and> suffix rs' (r # rs)"
proof -
  let ?p1 = "if had_arg p then if all_digits (p_arg p) then p\<lparr>p_arg := [], had_arg := False\<rparr>
    else emit_arg p else p"
  let ?n = "redirection_op_len r rs"
  let ?blank = "\<lambda>x. x = 0x20 \<or> x = 0x09"
  let ?p3 = "fold write_raw (takeWhile ?blank (drop ?n (r # rs))) (fold write_raw (take ?n (r # rs)) ?p1)"
  obtain p4 where t: "redirection_target ?p3 True (dropWhile ?blank (drop ?n (r # rs))) = Inr (p4, rs')"
    and p': "p' = p4\<lparr>p_segment := (p_segment p4)\<lparr>seg_redirection := True\<rparr>\<rparr>"
    using assms(1) by (auto simp: consume_redirection_def Let_def res_simps)
  have "text_ok ?p1" using assms(2) by (simp add: text_ok_def [of "p\<lparr>p_arg := _, had_arg := _\<rparr>"])
      (simp add: text_ok_def)
  then have "text_ok p4 \<and> suffix rs' (dropWhile ?blank (drop ?n (r # rs)))"
    using text_ok_redirection_target [OF t] by simp
  with p' show ?thesis
    by (auto intro: suffix_order.trans [OF _ suffix_order.trans [OF suffix_dropWhile suffix_drop]])
qed

lemma skip_line_continuation_suffix: "skip_line_continuation rs = Some rs' \<Longrightarrow> suffix rs' rs"
  by (induction rs rule: skip_line_continuation.induct)
    (auto simp: next_is_def suffix_def split: if_splits list.splits)

lemma text_ok_step_double:
  "step_double p r rs = Inr (p', rs') \<Longrightarrow> text_ok p \<Longrightarrow> list_all scalar (r # rs) \<Longrightarrow>
     text_ok p' \<and> suffix rs' (r # rs)"
  by (auto simp: step_double_def Let_def suffix_Cons dest: skip_line_continuation_suffix
      split: if_splits option.splits list.splits)

lemma text_ok_step_plain:
  "step_plain p r rs = Inr (p', rs') \<Longrightarrow> text_ok p \<Longrightarrow> list_all scalar (r # rs) \<Longrightarrow>
     text_ok p' \<and> suffix rs' (r # rs)"
  by (auto simp: step_plain_def Let_def suffix_Cons text_ok_emit_segment suffix_tl
      dest: skip_line_continuation_suffix text_ok_consume_redirection
      split: if_splits option.splits list.splits)

lemma text_ok_step:
  "scan_step p r rs = Inr (p', rs') \<Longrightarrow> text_ok p \<Longrightarrow> list_all scalar (r # rs) \<Longrightarrow>
     text_ok p' \<and> suffix rs' (r # rs)"
  using text_ok_def [of p]
  by (auto simp: scan_step_def step_single_def Let_def suffix_Cons
      dest: text_ok_step_double text_ok_step_plain split: if_splits)

text \<open>The segments a scan ends with: valid arguments, and no separator only after the last.\<close>

definition segments_ok :: "segment list \<Rightarrow> bool" where
  "segments_ok segs \<longleftrightarrow>
     list_all (\<lambda>s. list_all valid_text (seg_argv s)) segs
     \<and> list_all (\<lambda>s. seg_separator s \<noteq> []) (butlast segs)"

lemma segments_ok_scan:
  "scan p rs = Inr p' \<Longrightarrow> text_ok p \<Longrightarrow> list_all scalar rs \<Longrightarrow> segments_ok (p_segments p')"
proof (induction p rs rule: scan.induct)
  case (1 p)
  then show ?case
    by (auto simp: scan_end_def text_ok_def segments_ok_def emit_segment_def close_segment_def
        reset_segment_def emit_arg_def Let_def list_all_iff dest: in_set_butlastD split: if_splits)
next
  case (2 p r rs)
  from 2(2) obtain p1 rs1 where step: "scan_step p r rs = Inr (p1, rs1)" and rest: "scan p1 rs1 = Inr p'"
    by (auto simp: scan.simps(2) split: sum.splits)
  have "text_ok p1 \<and> suffix rs1 (r # rs)" using text_ok_step [OF step 2(3,4)] .
  then have "text_ok p1" "list_all scalar rs1"
    using 2(4) set_mono_suffix [of rs1 "r # rs"] by (auto simp: list_all_iff)
  with 2(1) [OF step refl rest] show ?case by simp
qed

lemma parse_segments_ok: "parse command = Inr segs \<Longrightarrow> segments_ok segs"
  by (auto simp: parse_def res_simps text_ok_def legacy_parser_def empty_segment_def runes_scalar
      intro!: segments_ok_scan [of legacy_parser])

section \<open>The rewritten command line\<close>

lemma valid_ascii_words:
  "list_all valid_text git_forced_options" "valid_text ''git''" "valid_text ''--no-ext-diff''"
  "valid_text ''--no-textconv''"
  by (simp_all add: git_forced_options_def valid_text_ascii)

lemma rewrite_git_valid: "list_all valid_text argv \<Longrightarrow> list_all valid_text (rewrite_read_only_git argv)"
  by (induction argv rule: rewrite_read_only_git.induct) (simp_all add: valid_ascii_words)

lemma read_only_argv_valid:
  "read_only_argv argv = Some checked \<Longrightarrow> list_all valid_text argv \<Longrightarrow> list_all valid_text checked"
  by (auto simp: read_only_argv_def rewrite_git_valid split: list.splits if_splits)

lemma read_only_argv_nonempty: "read_only_argv argv = Some checked \<Longrightarrow> checked \<noteq> []"
  by (auto simp: read_only_argv_def split: list.splits if_splits)
    (auto elim: is_read_only_git.elims)

definition checked_line :: "segment list \<Rightarrow> (rune list list \<times> string) list" where
  "checked_line segs =
     map (\<lambda>s. (map runes (the (read_only_argv (seg_argv s))), seg_separator s)) segs"

lemma valid_words:
  "list_all valid_text argv \<Longrightarrow> map utf8_encs (map runes argv) = argv \<and> list_all (list_all scalar) (map runes argv)"
  by (auto simp: list_all_iff valid_text_def runes_scalar [unfolded list_all_iff] intro: map_idI)

lemma quote_checked:
  assumes "list_all valid_text argv" "argv \<noteq> []"
  shows "quote_shell_argv argv = utf8_encs (argv_runes (map runes argv))"
    and "list_all scalar (argv_runes (map runes argv))"
  using argv_runes_encs [of "map runes argv"] valid_words [OF assms(1)] assms(2) by simp_all

lemma safe_separator_runes:
  "is_safe_read_only_separator sep \<Longrightarrow> utf8_encs (runes sep) = sep \<and> sep \<noteq> []"
  by (auto simp: is_safe_read_only_separator_def runes_ascii utf8_enc_ascii)

lemma read_only_parts_line:
  "read_only_parts segs = Inr parts \<Longrightarrow> segs \<noteq> [] \<Longrightarrow> segments_ok segs \<Longrightarrow>
     join '' '' parts = utf8_encs (line_runes (checked_line segs)) \<and> line_ok (checked_line segs)
     \<and> list_all scalar (line_runes (checked_line segs))
     \<and> list_all (\<lambda>s. read_only_argv (seg_argv s) \<noteq> None) segs \<and> parts \<noteq> []"
proof (induction segs arbitrary: parts)
  case Nil
  then show ?case by simp
next
  case (Cons seg rest)
  from Cons.prems(1) obtain checked where chk: "read_only_argv (seg_argv seg) = Some checked"
    by (auto split: if_splits option.splits)
  have valid: "list_all valid_text checked" "checked \<noteq> []"
    using read_only_argv_valid [OF chk] read_only_argv_nonempty [OF chk] Cons.prems(3)
    by (simp_all add: segments_ok_def)
  note quoted = quote_checked [OF valid] valid_words [OF valid(1)]
  show ?case
  proof (cases "rest = []")
    case True
    with Cons.prems chk valid quoted show ?thesis
      by (auto simp: checked_line_def res_simps split: if_splits)
  next
    case False
    then have sep: "seg_separator seg \<noteq> []" and ok: "segments_ok rest"
      using Cons.prems(3) by (auto simp: segments_ok_def)
    with Cons.prems(1) chk False obtain parts' where p: "read_only_parts rest = Inr parts'"
      "parts = quote_shell_argv checked # seg_separator seg # parts'"
      "is_safe_read_only_separator (seg_separator seg)"
      by (auto simp: res_simps split: if_splits)
    obtain c cs where c: "checked_line rest = c # cs"
      using False by (cases rest) (auto simp: checked_line_def)
    with Cons.IH [OF p(1) False ok] p chk valid quoted safe_separator_runes [OF p(3)]
    show ?thesis
      by (simp add: checked_line_def join_Cons utf8_enc_ascii runes_scalar scalar_def [of 32])
  qed
qed

lemma read_only_reparse:
  assumes "read_only_command command = Inr out"
  shows "\<exists>segs segs'. parse (trim_space command) = Inr segs \<and> parse out = Inr segs'
     \<and> list_all (\<lambda>s. read_only_argv (seg_argv s) \<noteq> None) segs
     \<and> list_all plain_segment segs'
     \<and> map seg_key segs' = map (\<lambda>s. (the (read_only_argv (seg_argv s)), seg_separator s)) segs"
proof -
  obtain segs parts where segs: "parse (trim_space command) = Inr segs" "segs \<noteq> []"
    and parts: "read_only_parts segs = Inr parts" "out = join '' '' parts"
    using assms by (auto simp: read_only_command_def Let_def res_simps split: if_splits sum.splits)
  note ok = parse_segments_ok [OF segs(1)]
  note line = read_only_parts_line [OF parts(1) segs(2) ok]
  have mid: "legacy_parser = mid [] [] []" by (simp add: mid_def legacy_parser_def empty_segment_def)
  obtain new raw where new: "scan (mid [] [] []) (line_runes (checked_line segs)) = Inr (mid ([] @ new) [] raw)"
    "map seg_key new = line_keys (checked_line segs)" "list_all plain_segment new"
    using scan_line [of "checked_line segs" "[]" "[]"] line by blast
  have "runes out = line_runes (checked_line segs)"
    using line parts(2) by (simp add: text_simps)
  then have "parse out = Inr new"
    using new(1) by (simp add: parse_def mid) (simp add: mid_def)
  moreover have "line_keys (checked_line segs) =
      map (\<lambda>s. (the (read_only_argv (seg_argv s)), seg_separator s)) segs"
  proof -
    have "map utf8_encs (map runes (the (read_only_argv (seg_argv s)))) = the (read_only_argv (seg_argv s))"
      if "s \<in> set segs" for s
      using that line ok read_only_argv_valid valid_words
      by (fastforce simp: list_all_iff segments_ok_def)
    then show ?thesis by (auto simp: line_keys_def checked_line_def)
  qed
  ultimately show ?thesis using segs(1) new line by auto
qed

section \<open>What an accepted argument vector looks like\<close>

text \<open>
  The policy, stated on its own: \<open>options\<close> are the arguments in front of the first \<open>--\<close>, a
  \<open>find\<close> expression is a sequence of groups, and a \<open>git\<close> call starts with the forced options.
\<close>

definition options :: "string list \<Rightarrow> string list" where
  "options args = takeWhile (\<lambda>a. a \<noteq> ''--'') args"

definition names_flag :: "string list \<Rightarrow> string \<Rightarrow> bool" where
  "names_flag flags arg \<longleftrightarrow> (\<exists>flag \<in> set flags. arg = flag \<or> prefix (flag @ ''='') arg)"

definition find_group :: "string list \<Rightarrow> bool" where
  "find_group g \<longleftrightarrow>
     (case g of
        [a] \<Rightarrow> a \<in> set read_only_find_flags \<or> (\<not> prefix ''-'' a \<and> a \<notin> set read_only_find_value_flags)
      | [flag, v] \<Rightarrow> flag \<in> set read_only_find_value_flags
      | _ \<Rightarrow> False)"

definition sets_config :: "string \<Rightarrow> bool" where
  "sets_config arg \<longleftrightarrow> prefix ''-c'' arg \<or> arg = ''--config-env'' \<or> prefix ''--config-env='' arg"

definition listing_tags :: "string list \<Rightarrow> bool" where
  "listing_tags args \<longleftrightarrow>
     (\<forall>a \<in> set args. prefix ''-'' a \<longrightarrow> a = ''-l'' \<or> a = ''--list'') \<and>
     (args = [] \<or> ''-l'' \<in> set args \<or> ''--list'' \<in> set args)"

definition allowed_argv :: "string list \<Rightarrow> bool" where
  "allowed_argv argv \<longleftrightarrow>
     \<not> list_ex (names_flag dangerous_read_only_flags) (options argv)
     \<and> (case argv of
          [] \<Rightarrow> False
        | cmd # args \<Rightarrow>
            cmd \<in> set simple_read_only_commands
            \<or> cmd = ''rg'' \<and> \<not> list_ex (names_flag [''--search-zip'']) (options args)
            \<or> cmd = ''find'' \<and> (\<exists>gs. args = concat gs \<and> list_all find_group gs)
            \<or> cmd = ''git'' \<and> (\<exists>sub rest. args = git_forced_options @ sub # rest
                \<and> sub \<in> set read_only_git_subcommands \<union> {''branch'', ''tag''}
                \<and> \<not> list_ex sets_config (options rest)
                \<and> (sub = ''tag'' \<longrightarrow> listing_tags rest)
                \<and> (git_materializes_content sub \<longrightarrow> prefix [''--no-ext-diff'', ''--no-textconv''] rest)))"

lemma dangerous_iff:
  "has_dangerous_read_only_flag argv \<longleftrightarrow> list_ex (names_flag dangerous_read_only_flags) (options argv)"
  by (induction argv) (auto simp: options_def names_flag_def)

lemma rg_options:
  "is_read_only_rg args \<Longrightarrow> \<not> list_ex (names_flag [''--search-zip'']) (options args)"
  by (induction args) (auto simp: options_def names_flag_def split: if_splits)

lemma config_iff:
  "has_git_config_flag args \<longleftrightarrow> list_ex sets_config (options args)"
  by (induction args) (auto simp: options_def sets_config_def)

lemma tag_listing:
  "read_only_git_tag_from has_list args \<Longrightarrow>
     (\<forall>a \<in> set args. prefix ''-'' a \<longrightarrow> a = ''-l'' \<or> a = ''--list'') \<and>
     (has_list \<or> ''-l'' \<in> set args \<or> ''--list'' \<in> set args)"
  by (induction has_list args rule: read_only_git_tag_from.induct) (auto split: if_splits)

lemma tag_listing_args: "is_read_only_git_tag args \<Longrightarrow> listing_tags args"
  using tag_listing [of False args] by (auto simp: is_read_only_git_tag_def listing_tags_def split: if_splits)

lemma find_value_flags_facts:
  "x \<in> set read_only_find_value_flags \<Longrightarrow> x \<notin> set read_only_find_flags \<and> prefix ''-'' x"
  by (auto simp: read_only_find_value_flags_def read_only_find_flags_def)

lemma find_group_step:
  assumes "find_group g" "is_read_only_find rest"
  shows "is_read_only_find (g @ rest)"
proof -
  consider (one) a where "g = [a]" | (two) a v where "g = [a, v]" "a \<in> set read_only_find_value_flags"
    using assms(1) by (auto simp: find_group_def split: list.splits)
  then show ?thesis
  proof cases
    case one
    with assms find_value_flags_facts [of a] show ?thesis
      by (cases "a \<in> set read_only_find_flags") (auto simp: find_group_def)
  next
    case two
    with assms find_value_flags_facts [OF two(2)] show ?thesis by simp
  qed
qed

lemma find_groups:
  "is_read_only_find args \<longleftrightarrow> (\<exists>gs. args = concat gs \<and> list_all find_group gs)"
proof
  show "is_read_only_find args \<Longrightarrow> \<exists>gs. args = concat gs \<and> list_all find_group gs"
  proof (induction args rule: is_read_only_find.induct)
    case 1
    show ?case by (rule exI [of _ "[]"]) simp
  next
    case (2 arg args)
    consider (value_flag) v rest where "arg \<in> set read_only_find_value_flags" "args = v # rest" "is_read_only_find rest"
      | (single) "find_group [arg]" "is_read_only_find args"
      using 2(4) by (auto simp: find_group_def split: if_splits list.splits)
    then show ?case
    proof cases
      case value_flag
      then have "arg \<notin> set read_only_find_flags"
        using find_value_flags_facts by blast
      with value_flag 2(2) obtain gs where "rest = concat gs" "list_all find_group gs" by blast
      with value_flag show ?thesis
        by (intro exI [of _ "[arg, v] # gs"]) (simp add: find_group_def [of "[arg, v]"])
    next
      case single
      then have "\<exists>gs. args = concat gs \<and> list_all find_group gs"
      proof (cases "arg \<in> set read_only_find_flags")
        case True
        then show ?thesis using 2(1) single(2) by blast
      next
        case False
        with single(1) have "arg \<notin> set read_only_find_value_flags" "\<not> prefix ''-'' arg"
          by (simp_all add: find_group_def)
        with False show ?thesis using 2(3) single(2) by blast
      qed
      then obtain gs where "args = concat gs" "list_all find_group gs" by blast
      with single show ?thesis
        by (intro exI [of _ "[arg] # gs"]) simp
    qed
  qed
next
  have "list_all find_group gs \<Longrightarrow> is_read_only_find (concat gs)" for gs
  proof (induction gs)
    case (Cons g gs)
    then have "find_group g" "is_read_only_find (concat gs)" by simp_all
    then show ?case by (simp add: find_group_step)
  qed simp
  then show "\<exists>gs. args = concat gs \<and> list_all find_group gs \<Longrightarrow> is_read_only_find args" by blast
qed

lemma options_forced:
  "options (''git'' # git_forced_options @ xs) = ''git'' # git_forced_options @ options xs"
  "options (''git'' # sub # xs) = (if sub = ''--'' then [''git''] else ''git'' # sub # options xs)"
  by (simp_all add: options_def git_forced_options_def)

lemma forced_not_dangerous:
  "\<not> list_ex (names_flag dangerous_read_only_flags) git_forced_options"
  "\<not> list_ex (names_flag dangerous_read_only_flags) [''--no-ext-diff'', ''--no-textconv'']"
  by (simp_all add: names_flag_def dangerous_read_only_flags_def git_forced_options_def)

lemma read_only_argv_allowed:
  assumes "read_only_argv argv = Some checked"
  shows "allowed_argv checked"
proof -
  obtain cmd args where argv: "argv = cmd # args"
    using assms by (cases argv) (simp_all add: read_only_argv_def)
  have safe: "\<not> list_ex (names_flag dangerous_read_only_flags) (options argv)"
    using assms argv by (simp add: read_only_argv_def dangerous_iff split: if_splits)
  show ?thesis
  proof (cases "cmd = ''git''")
    case False
    with assms argv safe have "checked = argv"
      and "cmd \<in> set simple_read_only_commands \<or> cmd = ''rg'' \<and> is_read_only_rg args \<or> cmd = ''find'' \<and> is_read_only_find args"
      by (simp_all add: read_only_argv_def split: if_splits)
    with argv safe show ?thesis
      using rg_options [of args] find_groups [of args] by (auto simp: allowed_argv_def)
  next
    case True
    with assms argv have "is_read_only_git args" and checked: "checked = rewrite_read_only_git argv"
      by (simp_all add: read_only_argv_def split: if_splits)
    then obtain sub rest where args: "args = sub # rest"
      and sub: "sub \<in> set read_only_git_subcommands \<union> {''branch'', ''tag''}"
      by (cases args) (auto split: if_splits)
    define extra where "extra = (if git_materializes_content sub then [''--no-ext-diff'', ''--no-textconv''] else [])"
    have "sub \<noteq> ''--''"
      using sub by (auto simp: read_only_git_subcommands_def)
    moreover have "list_all (\<lambda>a. a \<noteq> ''--'') extra"
      by (simp add: extra_def)
    ultimately have "options (sub # extra @ rest) = sub # extra @ options rest"
      by (simp add: options_def extra_def)
    moreover have "\<not> list_ex (names_flag dangerous_read_only_flags) (sub # options rest)"
      using safe argv True args \<open>sub \<noteq> ''--''\<close> by (simp add: options_forced)
    moreover have "\<not> names_flag dangerous_read_only_flags ''git''"
      by (simp add: names_flag_def dangerous_read_only_flags_def)
    ultimately have "\<not> list_ex (names_flag dangerous_read_only_flags)
        (options (''git'' # git_forced_options @ sub # extra @ rest))"
      using forced_not_dangerous by (simp add: options_forced extra_def)
    moreover have "\<not> list_ex sets_config (options (extra @ rest))"
    proof -
      have "\<not> list_ex sets_config (options (sub # rest))"
        using assms argv True args by (simp add: read_only_argv_def config_iff split: if_splits)
      then have "\<not> list_ex sets_config (options rest)"
        using \<open>sub \<noteq> ''--''\<close> by (simp add: options_def)
      moreover have "options (extra @ rest) = extra @ options rest" by (simp add: options_def extra_def)
      moreover have "\<not> list_ex sets_config extra" by (simp add: sets_config_def extra_def)
      ultimately show ?thesis by simp
    qed
    moreover have "listing_tags (extra @ rest)" if "sub = ''tag''"
    proof -
      have "is_read_only_git_tag rest"
        using \<open>is_read_only_git args\<close> args that by (simp add: read_only_git_subcommands_def)
      then show ?thesis using that by (simp add: extra_def git_materializes_content_def tag_listing_args)
    qed
    ultimately show ?thesis
      using checked argv True args sub by (auto simp: allowed_argv_def extra_def)
  qed
qed

lemma read_only_allowed:
  assumes "read_only_command command = Inr out"
  shows "\<exists>segs'. parse out = Inr segs' \<and> segs' \<noteq> [] \<and> list_all (\<lambda>s. allowed_argv (seg_argv s)) segs'"
proof -
  obtain segs segs' where segs: "parse (trim_space command) = Inr segs" "parse out = Inr segs'"
    "list_all (\<lambda>s. read_only_argv (seg_argv s) \<noteq> None) segs"
    "map seg_key segs' = map (\<lambda>s. (the (read_only_argv (seg_argv s)), seg_separator s)) segs"
    using read_only_reparse [OF assms] by blast
  have "segs \<noteq> []"
    using assms segs(1) by (auto simp: read_only_command_def Let_def split: if_splits)
  moreover have "map seg_argv segs' = map (\<lambda>s. the (read_only_argv (seg_argv s))) segs"
    using arg_cong [OF segs(4), of "map fst"] by (simp add: seg_key_def comp_def)
  moreover from this have "list_all allowed_argv (map seg_argv segs')"
    using segs(3) by (auto simp: list_all_iff intro!: read_only_argv_allowed)
  then have "list_all (\<lambda>s. allowed_argv (seg_argv s)) segs'"
    unfolding list.pred_map comp_def .
  ultimately show ?thesis
    using segs(2) by (intro exI [of _ segs']) auto
qed

section \<open>Properties\<close>

text \<open>C17: The command line that the read-only filter hands to the shell means what was checked.
  When \<open>ReadOnlyCommand\<close> returns a line, scanning that line again gives exactly the argument vectors
  that \<open>readOnlyArgv\<close> returned, joined by the same separators, and no segment has an expansion or a
  redirection: quoting neither splits, joins nor reinterprets a word.\<close>

theorem read_only_command_reparses:
  assumes "read_only_command command = Inr out"
  shows "\<exists>segs segs'. parse (trim_space command) = Inr segs \<and> parse out = Inr segs'
     \<and> list_all (\<lambda>s. read_only_argv (seg_argv s) \<noteq> None) segs
     \<and> list_all plain_segment segs'
     \<and> map seg_key segs' = map (\<lambda>s. (the (read_only_argv (seg_argv s)), seg_separator s)) segs"
  by (rule read_only_reparse [OF assms])

lemmas read_only_eval =
  read_only_command_def read_only_argv_def scan.simps(2) trim_space_id trimmed_ascii_def
  simple_read_only_commands_def dangerous_read_only_flags_def read_only_git_subcommands_def
  git_materializes_content_def git_forced_options_def is_safe_read_only_separator_def
  contains_def quote_shell_argv_def quote_shell_arg_def is_shell_safe_arg_def is_shell_safe_rune_def scan_eval

theorem read_only_command_reparses_witness:
  "\<exists>segs'. parse ''ls 'a b' | wc'' = Inr segs'
     \<and> map seg_key segs' = [([''ls'', ''a b''], ''|''), ([''wc''], [])]"
proof -
  have line: "read_only_command ''ls 'a b' | wc'' = Inr ''ls 'a b' | wc''"
    by (simp add: read_only_eval)
  have keys: "rbind (parse ''ls 'a b' | wc'') (\<lambda>segs. Inr (map seg_key segs)) =
      Inr [([''ls'', ''a b''], ''|''), ([''wc''], [])]"
    by (simp add: read_only_eval seg_key_def)
  obtain segs' where "parse ''ls 'a b' | wc'' = Inr segs'"
    using read_only_command_reparses [OF line] by (elim exE conjE) (rule that)
  with keys show ?thesis by (intro exI [of _ segs']) simp
qed

text \<open>C6: Every command of a line that the filter returns is on the allowlist, stated as a policy of
  its own (\<open>allowed_argv\<close>): its program is a listed one, no flag in front of the first \<open>--\<close> is one of the
  dangerous flags, a \<open>find\<close> expression consists of listed primaries and their values, and a \<open>git\<close> call
  carries the forced safety options and a read-only subcommand, sets no configuration of its own, and, for
  \<open>tag\<close>, only lists.\<close>

theorem read_only_command_runs_allowed_programs:
  assumes "read_only_command command = Inr out"
  shows "\<exists>segs'. parse out = Inr segs' \<and> segs' \<noteq> [] \<and> list_all (\<lambda>s. allowed_argv (seg_argv s)) segs'"
  by (rule read_only_allowed [OF assms])

theorem read_only_command_runs_allowed_programs_witness:
  "\<exists>segs'. parse ''git --no-pager --no-optional-locks -c core.fsmonitor=false -c diff.external= -c core.pager=cat status'' = Inr segs'
     \<and> list_all (\<lambda>s. allowed_argv (seg_argv s)) segs'"
proof -
  have "read_only_command ''git status'' =
      Inr ''git --no-pager --no-optional-locks -c core.fsmonitor=false -c diff.external= -c core.pager=cat status''"
    by (simp add: read_only_eval)
  from read_only_command_runs_allowed_programs [OF this] show ?thesis by blast
qed

text \<open>The filter stops looking for dangerous flags at the first argument \<open>--\<close>, also where that
  argument is the value of an option in front of it: \<open>rg -e -- --pre=sh x\<close> is accepted and handed on
  unchanged, although \<open>-e\<close> takes \<open>--\<close> as its pattern and \<open>--pre=sh\<close> is then an option that runs a program.\<close>

theorem read_only_command_misses_flag_after_dashes_value:
  "read_only_command ''rg -e -- --pre=sh x'' = Inr ''rg -e -- --pre=sh x''"
  by (simp add: read_only_eval)

end
