(* ===== verification/Go_Path.thy ===== *)
theory Go_Path
  imports Go_Text
begin

text \<open>
  Package \<open>path/filepath\<close> on a Unix system, as far as the sources use it: \<open>Clean\<close>, \<open>Base\<close>, \<open>IsAbs\<close>
  and \<open>Rel\<close>. A cleaned path is read as its elements; on absolute paths \<open>Rel\<close> stays below its base
  exactly when the base's elements are a prefix of the target's.
\<close>

definition slash :: char where
  "slash = CHR 0x2F"

definition is_abs :: "string \<Rightarrow> bool" where
  "is_abs path \<longleftrightarrow> prefix [slash] path"

definition clean_step :: "bool \<Rightarrow> string list \<Rightarrow> string \<Rightarrow> string list" where
  "clean_step rooted out c =
     (if c = [] \<or> c = ''.'' then out
      else if c = ''..'' then
        (if out \<noteq> [] \<and> last out \<noteq> ''..'' then butlast out
         else if rooted then out
         else out @ [''..''])
      else out @ [c])"

definition clean_elems :: "string \<Rightarrow> string list" where
  "clean_elems path = foldl (clean_step (is_abs path)) [] (split_char slash path)"

definition clean :: "string \<Rightarrow> string" where
  "clean path =
     (if is_abs path then slash # join [slash] (clean_elems path)
      else if clean_elems path = [] then ''.''
      else join [slash] (clean_elems path))"

definition base_name :: "string \<Rightarrow> string" where
  "base_name path =
     (if path = [] then ''.''
      else (let b = last (split_char slash (trim_right_set [slash] path))
            in if b = [] then [slash] else b))"

text \<open>\<open>Rel\<close> walks the elements of both cleaned paths; an absolute path starts with an empty element.\<close>

definition path_elems :: "string \<Rightarrow> string list" where
  "path_elems s = (if s = [] then [] else if s = [slash] then [[]] else split_char slash s)"

fun rel_elems :: "string list \<Rightarrow> string list \<Rightarrow> string list option" where
  "rel_elems (b # bs) (t # ts) =
     (if b = t then rel_elems bs ts
      else if b = ''..'' then None
      else Some (map (\<lambda>_. ''..'') (b # bs) @ t # ts))"
| "rel_elems bs ts = Some (map (\<lambda>_. ''..'') bs @ ts)"

definition rel :: "string \<Rightarrow> string \<Rightarrow> string option" where
  "rel basepath targpath =
     (let b = clean basepath; t = clean targpath
      in if t = b then Some ''.''
         else (let b' = (if b = ''.'' then [] else b)
               in if is_abs b' \<noteq> is_abs t then None
                  else map_option (join [slash]) (rel_elems (path_elems b') (path_elems t))))"

section \<open>Clean elements\<close>

definition plain_elem :: "string \<Rightarrow> bool" where
  "plain_elem e \<longleftrightarrow> e \<noteq> [] \<and> e \<noteq> ''.'' \<and> e \<noteq> ''..'' \<and> slash \<notin> set e"

lemma clean_step_plain:
  "list_all plain_elem out \<Longrightarrow> slash \<notin> set c \<Longrightarrow> list_all plain_elem (clean_step True out c)"
  by (auto simp: clean_step_def plain_elem_def list_all_iff dest: in_set_butlastD)

lemma foldl_clean_plain:
  "list_all plain_elem out \<Longrightarrow> list_all (\<lambda>c. slash \<notin> set c) cs \<Longrightarrow>
     list_all plain_elem (foldl (clean_step True) out cs)"
  by (induction cs arbitrary: out) (auto intro: clean_step_plain)

lemma split_char_parts_all: "list_all (\<lambda>c. slash \<notin> set c) (split_char slash s)"
  by (auto simp: list_all_iff dest: split_char_parts)

lemma clean_elems_plain: "is_abs path \<Longrightarrow> list_all plain_elem (clean_elems path)"
  by (simp add: clean_elems_def foldl_clean_plain split_char_parts_all)

lemma clean_step_id: "plain_elem c \<Longrightarrow> clean_step rooted out c = out @ [c]"
  by (simp add: clean_step_def plain_elem_def)

lemma foldl_clean_id: "list_all plain_elem es \<Longrightarrow> foldl (clean_step rooted) out es = out @ es"
  by (induction es arbitrary: out) (auto simp: clean_step_id)

lemma split_join_plain:
  "list_all plain_elem es \<Longrightarrow> es \<noteq> [] \<Longrightarrow> split_char slash (join [slash] es) = es"
  by (rule split_char_join) (auto simp: plain_elem_def list_all_iff)

lemma split_rooted: "split_char slash (slash # s) = [] # split_char slash s"
  by simp

lemma join_plain_not_Nil: "list_all plain_elem es \<Longrightarrow> es \<noteq> [] \<Longrightarrow> join [slash] es \<noteq> []"
  by (cases es) (auto simp: join_Cons plain_elem_def)

lemma is_abs_clean [simp]: "is_abs path \<Longrightarrow> is_abs (clean path)"
  by (simp add: clean_def is_abs_def)

lemma path_elems_clean:
  assumes "is_abs path"
  shows "path_elems (clean path) = [] # clean_elems path"
proof (cases "clean_elems path = []")
  case True
  with assms show ?thesis by (simp add: clean_def path_elems_def)
next
  case False
  with assms clean_elems_plain [OF assms] show ?thesis
    by (simp add: clean_def path_elems_def split_join_plain join_plain_not_Nil)
qed

lemma clean_inj: "is_abs p \<Longrightarrow> is_abs q \<Longrightarrow> clean p = clean q \<longleftrightarrow> clean_elems p = clean_elems q"
  by (metis clean_def list.inject path_elems_clean)

lemma clean_clean: "is_abs path \<Longrightarrow> clean (clean path) = clean path"
proof -
  assume abs: "is_abs path"
  note plain = clean_elems_plain [OF abs]
  have "clean_elems (clean path) = clean_elems path"
  proof (cases "clean_elems path = []")
    case True
    with abs show ?thesis by (simp add: clean_def clean_elems_def is_abs_def clean_step_def)
  next
    case False
    with abs plain show ?thesis
      by (simp add: clean_elems_def [of "clean path"])
        (simp add: clean_def split_join_plain foldl_clean_id clean_step_def)
  qed
  with abs show ?thesis using clean_inj is_abs_clean by blast
qed

section \<open>Staying below a directory\<close>

definition stays_below :: "string \<Rightarrow> bool" where
  "stays_below r \<longleftrightarrow> r \<noteq> ''..'' \<and> \<not> prefix (''..'' @ [slash]) r"

lemma stays_below_join:
  "list_all plain_elem es \<Longrightarrow> stays_below (join [slash] es)"
proof (cases es)
  case (Cons e rest)
  assume "list_all plain_elem es"
  with Cons have e: "plain_elem e" by simp
  then have "\<not> prefix (''..'' @ [slash]) (e @ s)" if "s = [] \<or> hd s = slash" for s
    using that by (cases e; cases "tl e"; cases "tl (tl e)") (auto simp: plain_elem_def)
  with Cons e show ?thesis
    by (auto simp: stays_below_def join_Cons plain_elem_def append_eq_Cons_conv slash_def)
qed (simp add: stays_below_def)

lemma not_stays_below_up: "\<not> stays_below (join [slash] (''..'' # es))"
  by (simp add: stays_below_def join_Cons)

lemma stays_below_ups: "stays_below (join [slash] (map (\<lambda>_. ''..'') bs)) \<longleftrightarrow> bs = []"
  by (cases bs) (simp_all add: stays_below_def join_Cons)

lemma rel_elems_plain:
  "list_all plain_elem bs \<Longrightarrow> list_all plain_elem ts \<Longrightarrow>
     \<exists>es. rel_elems bs ts = Some es \<and> (stays_below (join [slash] es) \<longleftrightarrow> prefix bs ts)"
proof (induction bs ts rule: rel_elems.induct)
  case (1 b bs t ts)
  then show ?case
    using not_stays_below_up by (auto simp: plain_elem_def)
qed (simp_all add: stays_below_join stays_below_ups)

text \<open>\<open>Rel\<close> of two absolute paths never fails.\<close>

lemma rel_abs:
  assumes "is_abs root" "is_abs target"
  shows "\<exists>r. rel root target = Some r \<and> (stays_below r \<longleftrightarrow> prefix (clean_elems root) (clean_elems target))"
proof (cases "clean target = clean root")
  case True
  then show ?thesis
    using clean_inj [OF assms(2,1)] by (simp add: rel_def stays_below_def)
next
  case False
  have dot: "clean root \<noteq> ''.''" using is_abs_clean [OF assms(1)] by (auto simp: is_abs_def slash_def)
  obtain es where "rel_elems (clean_elems root) (clean_elems target) = Some es"
    "stays_below (join [slash] es) \<longleftrightarrow> prefix (clean_elems root) (clean_elems target)"
    using rel_elems_plain [OF clean_elems_plain [OF assms(1)] clean_elems_plain [OF assms(2)]] by blast
  with False dot assms show ?thesis
    by (simp add: rel_def Let_def path_elems_clean)
qed

section \<open>The last element\<close>

lemma base_name_clean:
  assumes "is_abs path" "clean path = path"
  shows "base_name path = (if clean_elems path = [] then [slash] else last (clean_elems path))"
proof (cases "clean_elems path = []")
  case True
  with assms have "path = [slash]" by (simp add: clean_def)
  with True show ?thesis by (simp add: base_name_def trim_right_set_def)
next
  case False
  define es where "es = clean_elems path"
  have es: "list_all plain_elem es" "es \<noteq> []"
    using clean_elems_plain [OF assms(1)] False by (simp_all add: es_def)
  have path: "path = slash # join [slash] es"
    using assms by (simp add: clean_def es_def)
  obtain ds d where ds: "es = ds @ [d]" using es(2) by (cases es rule: rev_exhaust) auto
  have plain: "plain_elem d" using es(1) ds by simp
  have "join [slash] es = (if ds = [] then [] else join [slash] ds @ [slash]) @ d"
    using join_append [of ds "[d]" "[slash]"] ds by simp
  then obtain u where u: "path = u @ d" using path by (metis append_Cons)
  obtain e f where e: "rev d = e # f" "e \<noteq> slash"
    using plain by (cases "rev d") (auto simp: plain_elem_def)
  have "trim_right_set [slash] path = path"
    using e unfolding trim_right_set_def u by simp
  moreover have "split_char slash path = [] # es"
    using es by (simp add: path split_join_plain)
  moreover have "path \<noteq> []" using path by simp
  ultimately show ?thesis
    using ds plain False by (simp add: base_name_def Let_def es_def [symmetric] plain_elem_def)
qed

end
