(* ===== verification/Json.thy ===== *)
theory Json
  imports Prelude "HOL-Library.AList"
begin

text \<open>
  JSON values as \<open>encoding/json\<close> decodes them into Go. Reading the bytes is the standard library's
  part: a \<open>json.RawMessage\<close> is here absent (no bytes), malformed (some bytes), or one value. An object keeps its
  members in the order of the text; decoding into a Go map keeps the last of equal keys.
\<close>

datatype json =
  JNull
| JBool bool
| JNum string
| JStr string
| JArr "json list"
| JObj "(string \<times> json) list"

datatype raw = NoBytes | Malformed string | Value json

definition obj_fields :: "(string \<times> json) list \<Rightarrow> (string \<times> json) list" where
  "obj_fields ms = fold (\<lambda>(k, v). AList.update k v) ms []"

lemma obj_fields_distinct: "distinct (map fst (obj_fields ms))"
proof -
  have "distinct (map fst (fold (\<lambda>(k, v). AList.update k v) ms al))" if "distinct (map fst al)" for al
    using that by (induction ms arbitrary: al) (auto simp: distinct_update)
  then show ?thesis by (simp add: obj_fields_def)
qed

lemma map_of_obj_fields: "map_of (obj_fields ms) = map_of (rev ms)"
proof -
  have "map_of (fold (\<lambda>(k, v). AList.update k v) ms al) = map_of al ++ map_of (rev ms)" for al
    by (induction ms arbitrary: al) (auto simp: update_conv' fun_eq_iff map_add_def split: option.splits)
  then show ?thesis by (simp add: obj_fields_def)
qed

text \<open>\<open>json.Unmarshal\<close> into a \<open>string\<close>: \<open>null\<close> leaves the zero value, another type is an error.\<close>

fun json_string :: "json \<Rightarrow> string option" where
  "json_string (JStr s) = Some s"
| "json_string JNull = Some []"
| "json_string _ = None"

text \<open>The first step of \<open>decodePayloadObject\<close>: one value, and that value an object.\<close>

fun decode_payload_object :: "raw \<Rightarrow> (string \<times> json) list option" where
  "decode_payload_object (Value (JObj ms)) = Some (obj_fields ms)"
| "decode_payload_object _ = None"

end
