(* ===== verification/Permissions.thy ===== *)
theory Permissions
  imports Go_Path Json "HOL-Library.Multiset"
begin

text \<open>
  The permission policy \<open>src/harness/permission.go\<close> and the authorization boundary in front of a
  prepared tool call, \<open>toolCallAllowed\<close> of \<open>src/harness/effect.go\<close>: target globs, the parsed user
  levels, the fixed built-in rules, the fallback chain, and the constraints that no evaluator can
  lift.
\<close>

section \<open>Globs\<close>

text \<open>The anchored, dot-all regular expression of a glob, as the list of its factors.\<close>

datatype glob_item = GLit rune | GAnyRune | GAnyRunes

fun glob_items :: "rune list \<Rightarrow> glob_item list option" where
  "glob_items [] = Some []"
| "glob_items (r # rs) =
     (if r = ru CHR ''*'' then map_option (Cons GAnyRunes) (glob_items rs)
      else if r = ru CHR ''?'' then map_option (Cons GAnyRune) (glob_items rs)
      else if r = 0x5C then
        (case rs of [] \<Rightarrow> None | q # qs \<Rightarrow> map_option (Cons (GLit q)) (glob_items qs))
      else map_option (Cons (GLit r)) (glob_items rs))"

definition compile_glob :: "string \<Rightarrow> glob_item list option" where
  "compile_glob pattern = glob_items (runes pattern)"

fun glob_match :: "glob_item list \<Rightarrow> rune list \<Rightarrow> bool" where
  "glob_match [] rs = (rs = [])"
| "glob_match (GLit q # items) rs = (case rs of [] \<Rightarrow> False | r # rs' \<Rightarrow> r = q \<and> glob_match items rs')"
| "glob_match (GAnyRune # items) rs = (case rs of [] \<Rightarrow> False | r # rs' \<Rightarrow> glob_match items rs')"
| "glob_match (GAnyRunes # items) [] = glob_match items []"
| "glob_match (GAnyRunes # items) (r # rs) =
     (glob_match items (r # rs) \<or> glob_match (GAnyRunes # items) rs)"

definition match_string :: "glob_item list \<Rightarrow> string \<Rightarrow> bool" where
  "match_string glob target = glob_match glob (runes target)"

text \<open>What a glob means: the target is cut into one piece for each factor.\<close>

fun glob_piece :: "glob_item \<Rightarrow> rune list \<Rightarrow> bool" where
  "glob_piece (GLit q) piece \<longleftrightarrow> piece = [q]"
| "glob_piece GAnyRune piece \<longleftrightarrow> length piece = 1"
| "glob_piece GAnyRunes piece \<longleftrightarrow> True"

definition glob_denotes :: "glob_item list \<Rightarrow> rune list \<Rightarrow> bool" where
  "glob_denotes items rs \<longleftrightarrow> (\<exists>pieces. list_all2 glob_piece items pieces \<and> concat pieces = rs)"

lemma glob_denotes_Cons:
  "glob_denotes (i # items) rs \<longleftrightarrow> (\<exists>us vs. rs = us @ vs \<and> glob_piece i us \<and> glob_denotes items vs)"
proof
  show "glob_denotes (i # items) rs \<Longrightarrow> \<exists>us vs. rs = us @ vs \<and> glob_piece i us \<and> glob_denotes items vs"
    unfolding glob_denotes_def list_all2_Cons1 by fastforce
next
  assume "\<exists>us vs. rs = us @ vs \<and> glob_piece i us \<and> glob_denotes items vs"
  then obtain us pieces where "rs = us @ concat pieces" "glob_piece i us" "list_all2 glob_piece items pieces"
    by (auto simp: glob_denotes_def)
  then show "glob_denotes (i # items) rs"
    unfolding glob_denotes_def by (intro exI [of _ "us # pieces"]) simp
qed

lemma glob_denotes_one:
  assumes "\<And>us. glob_piece i us \<longleftrightarrow> (\<exists>r. us = [r] \<and> P r)"
  shows "glob_denotes (i # items) rs \<longleftrightarrow>
     (case rs of [] \<Rightarrow> False | r # rs' \<Rightarrow> P r \<and> glob_denotes items rs')"
proof (cases rs)
  case (Cons r rs')
  have "(\<exists>us vs. r # rs' = us @ vs \<and> (\<exists>r. us = [r] \<and> P r) \<and> glob_denotes items vs) \<longleftrightarrow>
      P r \<and> glob_denotes items rs'"
    by auto (metis append_Cons append_Nil)
  with Cons show ?thesis by (simp add: glob_denotes_Cons assms)
qed (auto simp: glob_denotes_Cons assms)

lemma glob_match_denotes: "glob_match items rs \<longleftrightarrow> glob_denotes items rs"
proof (induction items rs rule: glob_match.induct)
  case (1 rs)
  then show ?case by (auto simp: glob_denotes_def)
next
  case (2 q items rs)
  then show ?case
    by (subst glob_denotes_one [where P = "\<lambda>r. r = q"]) (auto split: list.splits)
next
  case (3 items rs)
  then show ?case
    by (subst glob_denotes_one [where P = "\<lambda>r. True"]) (auto simp: length_Suc_conv split: list.splits)
next
  case (4 items)
  then show ?case by (auto simp: glob_denotes_Cons)
next
  case (5 items r rs)
  have "glob_denotes (GAnyRunes # items) (r # rs) \<longleftrightarrow>
      glob_denotes items (r # rs) \<or> glob_denotes (GAnyRunes # items) rs"
    by (auto simp: glob_denotes_Cons Cons_eq_append_conv)
  with 5 show ?case by simp
qed

definition glob_special :: "rune \<Rightarrow> bool" where
  "glob_special r \<longleftrightarrow> r \<in> {ru CHR ''*'', ru CHR ''?'', 0x5C}"

lemma glob_items_literal:
  "list_all (\<lambda>r. \<not> glob_special r) rs \<Longrightarrow> glob_items rs = Some (map GLit rs)"
  by (induction rs) (auto simp: glob_special_def)

lemma glob_match_literal: "glob_match (map GLit rs) us \<longleftrightarrow> us = rs"
  by (induction rs arbitrary: us) (auto split: list.splits)

section \<open>User policy levels\<close>

record permission_request =
  req_permission :: string
  req_target :: string

datatype decision = PermissionAllow | PermissionDeny | OtherDecision string

record permission_rule =
  rule_permission :: string
  rule_glob :: "glob_item list"
  rule_allow :: bool

record permission_level =
  level_rules :: "permission_rule list"
  has_default :: bool
  default_allow :: bool

definition empty_level :: permission_level where
  "empty_level = \<lparr>level_rules = [], has_default = False, default_allow = False\<rparr>"

record permission_policy =
  policy_global :: permission_level
  policy_workspace :: permission_level

definition builtin_policy :: permission_policy where
  "builtin_policy = \<lparr>policy_global = empty_level, policy_workspace = empty_level\<rparr>"

definition rule_matches :: "permission_request \<Rightarrow> permission_rule \<Rightarrow> bool" where
  "rule_matches req rule \<longleftrightarrow>
     rule_permission rule = req_permission req \<and> match_string (rule_glob rule) (req_target req)"

text \<open>The loop of \<open>decide\<close> carries the answer so far.\<close>

fun decide_rules :: "permission_request \<Rightarrow> bool option \<Rightarrow> permission_rule list \<Rightarrow> bool option" where
  "decide_rules req answer [] = answer"
| "decide_rules req answer (rule # rules) =
     decide_rules req (if rule_matches req rule then Some (rule_allow rule) else answer) rules"

definition level_decide :: "permission_level \<Rightarrow> permission_request \<Rightarrow> bool option" where
  "level_decide level req =
     (case decide_rules req None (level_rules level) of
        Some allow \<Rightarrow> Some allow
      | None \<Rightarrow> if has_default level then Some (default_allow level) else None)"

lemma decide_rules_last:
  "decide_rules req answer rules =
     (case last_match (rule_matches req) rules of
        Some rule \<Rightarrow> Some (rule_allow rule) | None \<Rightarrow> answer)"
  by (induction rules arbitrary: answer) (auto split: option.splits)

section \<open>Parsing a level\<close>

definition required_rule_string :: "(string \<times> json) list \<Rightarrow> string \<Rightarrow> string option" where
  "required_rule_string flds name =
     (case map_of flds name of
        None \<Rightarrow> None
      | Some v \<Rightarrow>
          (case json_string v of None \<Rightarrow> None | Some s \<Rightarrow> if s = [] then None else Some s))"

definition parse_permission_rule :: "(string \<times> json) list \<Rightarrow> permission_rule option" where
  "parse_permission_rule flds =
     (if length flds \<noteq> 3 then None
      else case required_rule_string flds ''permission'' of None \<Rightarrow> None
      | Some permission \<Rightarrow>
          (case required_rule_string flds ''target'' of None \<Rightarrow> None
          | Some target \<Rightarrow>
              (case required_rule_string flds ''access'' of None \<Rightarrow> None
              | Some access \<Rightarrow>
                  if access \<noteq> ''allow'' \<and> access \<noteq> ''deny'' then None
                  else case compile_glob target of None \<Rightarrow> None
                  | Some glob \<Rightarrow>
                      Some \<lparr>rule_permission = permission, rule_glob = glob,
                            rule_allow = (access = ''allow'')\<rparr>)))"

text \<open>Decoding the elements into maps: \<open>null\<close> gives the nil map, a non-object is an error.\<close>

fun rule_fields :: "json \<Rightarrow> (string \<times> json) list option" where
  "rule_fields (JObj ms) = Some (obj_fields ms)"
| "rule_fields JNull = Some []"
| "rule_fields _ = None"

fun all_some :: "('a \<Rightarrow> 'b option) \<Rightarrow> 'a list \<Rightarrow> 'b list option" where
  "all_some f [] = Some []"
| "all_some f (x # xs) =
     (case f x of None \<Rightarrow> None | Some y \<Rightarrow> map_option (Cons y) (all_some f xs))"

fun parse_permission_rules :: "json \<Rightarrow> permission_rule list option" where
  "parse_permission_rules (JArr items) =
     (case all_some rule_fields items of
        None \<Rightarrow> None
      | Some encoded \<Rightarrow> all_some parse_permission_rule encoded)"
| "parse_permission_rules _ = None"

definition parse_level_field :: "string \<times> json \<Rightarrow> permission_level \<Rightarrow> permission_level option" where
  "parse_level_field field level =
     (case field of (name, v) \<Rightarrow>
        if name = ''default'' then
          (case json_string v of
             None \<Rightarrow> None
           | Some access \<Rightarrow>
               if access = ''allow'' then Some (level\<lparr>has_default := True, default_allow := True\<rparr>)
               else if access = ''deny'' then Some (level\<lparr>has_default := True\<rparr>)
               else None)
        else if name = ''rules'' then
          map_option (\<lambda>rules. level\<lparr>level_rules := rules\<rparr>) (parse_permission_rules v)
        else None)"

text \<open>The range over the Go map, in the order of the list.\<close>

fun parse_level_fields :: "(string \<times> json) list \<Rightarrow> permission_level \<Rightarrow> permission_level option" where
  "parse_level_fields [] level = Some level"
| "parse_level_fields (field # flds) level =
     (case parse_level_field field level of
        None \<Rightarrow> None
      | Some level' \<Rightarrow> parse_level_fields flds level')"

definition parse_permission_level :: "raw \<Rightarrow> permission_level option" where
  "parse_permission_level raw =
     (if raw = NoBytes then Some empty_level
      else case decode_payload_object raw of
          None \<Rightarrow> None
        | Some flds \<Rightarrow> parse_level_fields flds empty_level)"

definition resolve_permission_policy :: "raw \<Rightarrow> raw \<Rightarrow> permission_policy" where
  "resolve_permission_policy global workspace =
     (case (parse_permission_level global, parse_permission_level workspace) of
        (Some g, Some w) \<Rightarrow> \<lparr>policy_global = g, policy_workspace = w\<rparr>
      | _ \<Rightarrow> builtin_policy)"

section \<open>The built-in policy\<close>

definition contains_path :: "string \<Rightarrow> string \<Rightarrow> bool" where
  "contains_path canonical_root target =
     (case rel canonical_root target of
        None \<Rightarrow> False
      | Some r \<Rightarrow> r \<noteq> ''..'' \<and> \<not> prefix (''..'' @ [slash]) r)"

definition sensitive_basename_patterns :: "string list" where
  "sensitive_basename_patterns =
     [''.env'', ''.env.*'', ''.netrc'', ''.npmrc'', ''.pypirc'',
      ''*.pem'', ''*.key'', ''*.p12'', ''*.pfx'', ''*.keystore'', ''*.jks'',
      ''id_rsa'', ''id_rsa.*'', ''id_ed25519'', ''id_ed25519.*'',
      ''id_ecdsa'', ''id_ecdsa.*'', ''id_dsa'', ''id_dsa.*'',
      ''credentials*.json'', ''credentials*.yaml'', ''credentials*.yml'']"

datatype builtin_match = InsideWorkspace | SensitiveBasename "glob_item list" | AnyTarget | EqualsFixedTarget

record builtin_rule =
  builtin_permission :: string
  builtin_matches :: builtin_match
  builtin_allow :: bool

fun builtin_matches_target :: "builtin_match \<Rightarrow> string \<Rightarrow> string \<Rightarrow> bool" where
  "builtin_matches_target InsideWorkspace root target = contains_path root target"
| "builtin_matches_target (SensitiveBasename glob) root target = match_string glob (base_name target)"
| "builtin_matches_target AnyTarget root target = True"
| "builtin_matches_target EqualsFixedTarget root target = (target = ''*'')"

text \<open>\<open>mustCompileGlob\<close> panics on an invalid pattern: \<open>None\<close> here; \<open>sensitive_patterns_compile\<close> below
  shows that it does not happen.\<close>

definition must_compile_glob :: "string \<Rightarrow> glob_item list option" where
  "must_compile_glob pattern = compile_glob pattern"

definition deny_sensitive_basename :: "string \<Rightarrow> builtin_match" where
  "deny_sensitive_basename pattern = SensitiveBasename (the (must_compile_glob pattern))"

definition sensitive_rules :: "string list \<Rightarrow> builtin_rule list" where
  "sensitive_rules patterns =
     concat (map (\<lambda>pattern.
       [\<lparr>builtin_permission = ''file.read'', builtin_matches = deny_sensitive_basename pattern,
         builtin_allow = False\<rparr>,
        \<lparr>builtin_permission = ''file.write'', builtin_matches = deny_sensitive_basename pattern,
         builtin_allow = False\<rparr>]) patterns)"

definition build_builtin_rules :: "builtin_rule list" where
  "build_builtin_rules =
     [\<lparr>builtin_permission = ''file.read'', builtin_matches = InsideWorkspace, builtin_allow = True\<rparr>,
      \<lparr>builtin_permission = ''file.write'', builtin_matches = InsideWorkspace, builtin_allow = True\<rparr>] @
     sensitive_rules sensitive_basename_patterns @
     [\<lparr>builtin_permission = ''command.run'', builtin_matches = AnyTarget, builtin_allow = True\<rparr>,
      \<lparr>builtin_permission = ''sleep'', builtin_matches = EqualsFixedTarget, builtin_allow = True\<rparr>,
      \<lparr>builtin_permission = ''child.launch'', builtin_matches = AnyTarget, builtin_allow = True\<rparr>,
      \<lparr>builtin_permission = ''process.own'', builtin_matches = AnyTarget, builtin_allow = True\<rparr>]"

definition builtin_rule_matches :: "string \<Rightarrow> permission_request \<Rightarrow> builtin_rule \<Rightarrow> bool" where
  "builtin_rule_matches root req rule \<longleftrightarrow>
     builtin_permission rule = req_permission req
     \<and> builtin_matches_target (builtin_matches rule) root (req_target req)"

definition builtin_decide :: "string \<Rightarrow> permission_request \<Rightarrow> bool" where
  "builtin_decide root req =
     (case find (builtin_rule_matches root req) (rev build_builtin_rules) of
        Some rule \<Rightarrow> builtin_allow rule
      | None \<Rightarrow> False)"

section \<open>Evaluation\<close>

definition policy_evaluate :: "permission_policy \<Rightarrow> string \<Rightarrow> permission_request \<Rightarrow> bool" where
  "policy_evaluate p root req =
     (case level_decide (policy_workspace p) req of
        Some allow \<Rightarrow> allow
      | None \<Rightarrow>
          (case level_decide (policy_global p) req of
             Some allow \<Rightarrow> allow
           | None \<Rightarrow> builtin_decide root req))"

definition call_allowed :: "permission_policy \<Rightarrow> string \<Rightarrow> permission_request list \<Rightarrow> bool" where
  "call_allowed p root requests = list_all (policy_evaluate p root) requests"

record prepared_action =
  canonical_workspace :: string
  canonical_write_dir :: string
  action_permissions :: "permission_request list"

text \<open>\<open>Evaluate\<close> of the interface \<open>PermissionEvaluator\<close>: an error, or a decision.\<close>

type_synonym 'e evaluator = "prepared_action \<Rightarrow> 'e + decision"

definition policy_evaluator :: "permission_policy \<Rightarrow> 'e evaluator" where
  "policy_evaluator p action =
     Inr (if call_allowed p (canonical_workspace action) (action_permissions action)
          then PermissionAllow else PermissionDeny)"

section \<open>The authorization boundary\<close>

record call_capture =
  capture_readonly :: bool
  capture_write_dir :: string

record prepared_tool =
  tool_permissions :: "permission_request list"
  tool_workspace :: string
  tool_write_dir :: string

definition canonical_path_value :: "string \<Rightarrow> bool" where
  "canonical_path_value p \<longleftrightarrow> p \<noteq> [] \<and> is_abs p \<and> clean p = p"

definition is_file_request :: "permission_request \<Rightarrow> bool" where
  "is_file_request req \<longleftrightarrow> req_permission req = ''file.read'' \<or> req_permission req = ''file.write''"

definition is_write_request :: "permission_request \<Rightarrow> bool" where
  "is_write_request req \<longleftrightarrow> req_permission req = ''file.write''"

definition malformed_request :: "permission_request \<Rightarrow> bool" where
  "malformed_request req \<longleftrightarrow>
     req_permission req = [] \<or> req_target req = []
     \<or> (is_file_request req \<and> \<not> canonical_path_value (req_target req))"

definition tool_call_allowed ::
  "'e evaluator option \<Rightarrow> call_capture \<Rightarrow> prepared_tool \<Rightarrow> bool" where
  "tool_call_allowed evaluator capture plan =
     (let requests = tool_permissions plan;
          has_file = list_ex is_file_request requests;
          has_write = list_ex is_write_request requests
      in if requests = [] then False
         else if list_ex malformed_request requests then False
         else if has_file \<and> \<not> canonical_path_value (tool_workspace plan) then False
         else if has_write \<and> capture_readonly capture \<and> capture_write_dir capture = [] then False
         else if has_write \<and> capture_write_dir capture \<noteq> []
             \<and> (\<not> canonical_path_value (tool_write_dir plan)
                \<or> list_ex (\<lambda>req. is_write_request req
                    \<and> \<not> contains_path (tool_write_dir plan) (req_target req)) requests)
         then False
         else
           (let decide = (case evaluator of None \<Rightarrow> policy_evaluator builtin_policy | Some e \<Rightarrow> e)
            in case decide \<lparr>canonical_workspace = tool_workspace plan,
                   canonical_write_dir = tool_write_dir plan, action_permissions = requests\<rparr> of
                 Inl _ \<Rightarrow> False
               | Inr d \<Rightarrow> d = PermissionAllow))"

section \<open>Lemmas\<close>

lemma contains_path_iff:
  "is_abs root \<Longrightarrow> is_abs target \<Longrightarrow>
     contains_path root target \<longleftrightarrow> prefix (clean_elems root) (clean_elems target)"
  using rel_abs [of root target] by (auto simp: contains_path_def stays_below_def)

lemma level_decide_last:
  "level_decide level req =
     (case last_match (rule_matches req) (level_rules level) of
        Some rule \<Rightarrow> Some (rule_allow rule)
      | None \<Rightarrow> if has_default level then Some (default_allow level) else None)"
  by (simp add: level_decide_def decide_rules_last split: option.splits)

text \<open>One list of matchers and answers, from the weakest rule to the strongest.\<close>

definition level_chain :: "permission_level \<Rightarrow> ((permission_request \<Rightarrow> bool) \<times> bool) list" where
  "level_chain level =
     (if has_default level then [(\<lambda>_. True, default_allow level)] else []) @
     map (\<lambda>rule. (\<lambda>req. rule_matches req rule, rule_allow rule)) (level_rules level)"

definition policy_chain :: "permission_policy \<Rightarrow> string \<Rightarrow> ((permission_request \<Rightarrow> bool) \<times> bool) list" where
  "policy_chain p root =
     map (\<lambda>rule. (\<lambda>req. builtin_rule_matches root req rule, builtin_allow rule)) build_builtin_rules @
     level_chain (policy_global p) @ level_chain (policy_workspace p)"

definition chain_answer :: "((permission_request \<Rightarrow> bool) \<times> bool) list \<Rightarrow> permission_request \<Rightarrow> bool option" where
  "chain_answer chain req = map_option snd (last_match (\<lambda>(matches, _). matches req) chain)"

lemma chain_answer_append:
  "chain_answer (xs @ ys) req =
     (case chain_answer ys req of None \<Rightarrow> chain_answer xs req | Some a \<Rightarrow> Some a)"
  by (simp add: chain_answer_def last_match_append split: option.splits)

lemma last_match_map: "last_match p (map f xs) = map_option f (last_match (p \<circ> f) xs)"
  by (induction xs) (auto split: option.splits)

lemma chain_answer_level: "chain_answer (level_chain level) req = level_decide level req"
  by (simp add: level_chain_def chain_answer_append level_decide_last)
    (simp add: chain_answer_def last_match_map comp_def split: option.splits)

lemma policy_evaluate_chain:
  "policy_evaluate p root req = (chain_answer (policy_chain p root) req = Some True)"
proof -
  have "builtin_decide root req =
      (chain_answer (map (\<lambda>rule. (\<lambda>req. builtin_rule_matches root req rule, builtin_allow rule))
        build_builtin_rules) req = Some True)"
    by (simp add: builtin_decide_def chain_answer_def last_match_map comp_def last_match_rev [symmetric]
        split: option.splits)
  then show ?thesis
    by (simp add: policy_evaluate_def policy_chain_def chain_answer_append chain_answer_level
        split: option.splits)
qed

lemma last_match_in_set: "last_match p xs = Some x \<Longrightarrow> x \<in> set xs"
  by (auto simp: last_match_Some_iff)

definition sensitive_target :: "string \<Rightarrow> bool" where
  "sensitive_target target \<longleftrightarrow>
     (\<exists>pattern \<in> set sensitive_basename_patterns.
        match_string (the (compile_glob pattern)) (base_name target))"

lemma builtin_find:
  "find P (rev xs) = last_match P xs"
  using last_match_rev [of P "rev xs"] by simp

lemma builtin_decide_file:
  assumes "is_file_request req"
  shows "builtin_decide root req \<longleftrightarrow>
     contains_path root (req_target req) \<and> \<not> sensitive_target (req_target req)"
proof -
  let ?M = "builtin_rule_matches root req"
  have deny: "last_match ?M (sensitive_rules ps) = None \<longleftrightarrow>
      (\<forall>pattern \<in> set ps. \<not> match_string (the (compile_glob pattern)) (base_name (req_target req)))" for ps
    using assms
    by (auto simp: last_match_None_iff builtin_rule_matches_def deny_sensitive_basename_def
        must_compile_glob_def is_file_request_def sensitive_rules_def)
  have allow: "last_match ?M (sensitive_rules ps) = Some rule \<Longrightarrow> \<not> builtin_allow rule" for ps rule
    unfolding sensitive_rules_def by (drule last_match_in_set) auto
  have decide: "builtin_decide root req \<longleftrightarrow>
      (case last_match ?M (sensitive_rules sensitive_basename_patterns) of
         Some rule \<Rightarrow> builtin_allow rule | None \<Rightarrow> contains_path root (req_target req))"
    using assms unfolding builtin_decide_def builtin_find build_builtin_rules_def is_file_request_def
    by (elim disjE) (simp_all add: last_match_append builtin_rule_matches_def split: option.splits)
  show ?thesis
    by (cases "last_match ?M (sensitive_rules sensitive_basename_patterns)")
      (use deny [of sensitive_basename_patterns] allow decide in \<open>auto simp: sensitive_target_def\<close>)
qed

lemma glob_items_no_backslash: "0x5C \<notin> set rs \<Longrightarrow> glob_items rs \<noteq> None"
proof (induction rs)
  case (Cons r rs)
  then have "r \<noteq> 0x5C" "glob_items rs \<noteq> None" by auto
  then show ?case
    by (subst glob_items.simps) (simp only: if_False option.map_disc_iff not_False_eq_True split: if_split, blast)
qed simp

lemma runes_ascii_all:
  "list_all (\<lambda>c. of_char c < (0x80::nat)) s \<Longrightarrow> runes s = map of_char s"
  by (induction s) (auto simp: runes_ascii)

lemma compile_glob_ascii:
  "list_all (\<lambda>c. of_char c < (0x80::nat) \<and> c \<noteq> CHR 0x5C) s \<Longrightarrow> compile_glob s \<noteq> None"
proof -
  assume ascii: "list_all (\<lambda>c. of_char c < (0x80::nat) \<and> c \<noteq> CHR 0x5C) s"
  then have "runes s = map of_char s"
    by (intro runes_ascii_all) (auto simp: list_all_iff)
  moreover have "(0x5C :: nat) \<notin> of_char ` set s"
  proof
    assume "(0x5C :: nat) \<in> of_char ` set s"
    then obtain c where c: "c \<in> set s" "0x5C = (of_char c :: nat)" by blast
    have "c = char_of (0x5C :: nat)" unfolding c(2) by (rule char_of_char [symmetric])
    then have "c = CHR 0x5C" by (simp add: char_of_def bit_iff_odd)
    with ascii c(1) show False unfolding list_all_iff by blast
  qed
  ultimately show ?thesis
    unfolding compile_glob_def by (intro glob_items_no_backslash) simp
qed

lemma sensitive_patterns_compile:
  "list_all (\<lambda>pattern. must_compile_glob pattern \<noteq> None) sensitive_basename_patterns"
proof -
  have "list_all (list_all (\<lambda>c. of_char c < (0x80::nat) \<and> c \<noteq> CHR 0x5C)) sensitive_basename_patterns"
    by (simp add: sensitive_basename_patterns_def)
  then show ?thesis
    unfolding must_compile_glob_def list_all_iff using compile_glob_ascii by (auto simp: list_all_iff)
qed

text \<open>The range over the members of a level may take them in any order.\<close>

lemma parse_level_field_other:
  "name \<noteq> ''default'' \<Longrightarrow> name \<noteq> ''rules'' \<Longrightarrow> parse_level_field (name, v) = (\<lambda>_. None)"
  by (simp add: parse_level_field_def fun_eq_iff)

lemma parse_level_field_default:
  "\<exists>f. \<forall>level. parse_level_field (''default'', v) level =
     map_option (\<lambda>a. level\<lparr>has_default := True, default_allow := (a \<or> default_allow level)\<rparr>) f"
proof (cases "json_string v")
  case (Some access)
  then show ?thesis
    by (intro exI [of _ "if access = ''allow'' then Some True
          else if access = ''deny'' then Some False else None"])
      (simp add: parse_level_field_def)
qed (auto simp: parse_level_field_def intro: exI [of _ None])

lemma parse_level_field_commute_default:
  "Option.bind (parse_level_field (''default'', v) level) (parse_level_field (''rules'', w)) =
   Option.bind (parse_level_field (''rules'', w) level) (parse_level_field (''default'', v))"
proof -
  obtain f where f: "\<And>level. parse_level_field (''default'', v) level =
     map_option (\<lambda>a. level\<lparr>has_default := True, default_allow := (a \<or> default_allow level)\<rparr>) f"
    using parse_level_field_default [of v] by blast
  have r: "parse_level_field (''rules'', w) level =
      map_option (\<lambda>rules. level\<lparr>level_rules := rules\<rparr>) (parse_permission_rules w)" for level
    by (simp add: parse_level_field_def)
  show ?thesis
    by (cases f; cases "parse_permission_rules w") (simp_all add: f r)
qed

lemma parse_level_field_commute:
  assumes "fst f \<noteq> fst g"
  shows "Option.bind (parse_level_field f level) (parse_level_field g) =
         Option.bind (parse_level_field g level) (parse_level_field f)"
proof -
  obtain n v m w where fg: "f = (n, v)" "g = (m, w)" by fastforce
  have none: "Option.bind x (\<lambda>_. None) = None" for x :: "permission_level option"
    by (cases x) auto
  consider "n = ''default''" "m = ''rules''" | "n = ''rules''" "m = ''default''"
    | "n \<noteq> ''default''" "n \<noteq> ''rules''" | "m \<noteq> ''default''" "m \<noteq> ''rules''"
    using assms fg by auto
  then show ?thesis
    by cases (simp_all add: fg parse_level_field_commute_default parse_level_field_other none)
qed

lemma parse_level_fields_bind:
  "parse_level_fields (f # flds) level = Option.bind (parse_level_field f level) (parse_level_fields flds)"
  by (simp split: option.splits)

lemma parse_level_fields_swap:
  "fst f \<noteq> fst g \<Longrightarrow>
     parse_level_fields (f # g # flds) level = parse_level_fields (g # f # flds) level"
proof -
  assume names: "fst f \<noteq> fst g"
  have two: "parse_level_fields (f # g # flds) level =
      Option.bind (Option.bind (parse_level_field f level) (parse_level_field g)) (parse_level_fields flds)" for f g
    by (cases "parse_level_field f level") (simp_all only: parse_level_fields_bind bind.bind_lunit bind.bind_lzero)
  show ?thesis unfolding two parse_level_field_commute [OF names] ..
qed

lemma parse_level_fields_move:
  "f \<notin> set xs \<Longrightarrow> distinct (map fst (f # xs @ ys)) \<Longrightarrow>
     parse_level_fields (xs @ f # ys) level = parse_level_fields (f # xs @ ys) level"
proof (induction xs arbitrary: level)
  case (Cons x xs)
  have "parse_level_fields ((x # xs) @ f # ys) level =
      Option.bind (parse_level_field x level) (parse_level_fields (xs @ f # ys))"
    by (simp add: parse_level_fields_bind del: parse_level_fields.simps)
  also have "\<dots> = Option.bind (parse_level_field x level) (parse_level_fields (f # xs @ ys))"
    using Cons by (cases "parse_level_field x level") auto
  also have "\<dots> = parse_level_fields (x # f # xs @ ys) level"
    by (simp add: parse_level_fields_bind del: parse_level_fields.simps)
  also have "\<dots> = parse_level_fields (f # x # xs @ ys) level"
    by (rule parse_level_fields_swap) (use Cons.prems(2) in auto)
  finally show ?case by simp
qed simp

lemma parse_level_fields_perm:
  "mset xs = mset ys \<Longrightarrow> distinct (map fst xs) \<Longrightarrow> parse_level_fields xs level = parse_level_fields ys level"
proof (induction xs arbitrary: ys level)
  case (Cons f xs)
  from Cons.prems(1) have "f \<in> set ys" by (metis list.set_intros(1) mset_eq_setD)
  then obtain us vs where ys: "ys = us @ f # vs" "f \<notin> set us" by (meson split_list_first)
  with Cons.prems have m: "mset xs = mset (us @ vs)" by simp
  then have "set xs = set (us @ vs)" by (rule mset_eq_setD)
  moreover from m have "distinct (map fst (us @ vs))"
    using Cons.prems(2) by (metis distinct.simps(2) list.simps(9) mset_eq_imp_distinct_iff mset_map)
  ultimately have "distinct (map fst (f # us @ vs))"
    using Cons.prems(2) by auto
  with ys have "parse_level_fields ys level = parse_level_fields (f # us @ vs) level"
    by (simp add: parse_level_fields_move del: parse_level_fields.simps)
  also have "\<dots> = parse_level_fields (f # xs) level"
    using Cons.IH [OF m] Cons.prems(2) by (simp split: option.splits)
  finally show ?case by simp
qed simp

section \<open>The contract of an evaluator\<close>

text \<open>
  What the boundary's clients may rely on: an evaluator that allows an action exactly when it
  allows each of its declared pairs on their own, against the Workspace of the action.
\<close>

definition boundary_checks :: "call_capture \<Rightarrow> prepared_tool \<Rightarrow> bool" where
  "boundary_checks capture plan \<longleftrightarrow>
     tool_permissions plan \<noteq> []
     \<and> (\<forall>req \<in> set (tool_permissions plan).
          \<not> malformed_request req
          \<and> (is_file_request req \<longrightarrow> canonical_path_value (tool_workspace plan))
          \<and> (is_write_request req \<longrightarrow>
               (if capture_write_dir capture = [] then \<not> capture_readonly capture
                else canonical_path_value (tool_write_dir plan)
                  \<and> contains_path (tool_write_dir plan) (req_target req))))"

lemma tool_call_allowed_iff:
  "tool_call_allowed evaluator capture plan \<longleftrightarrow>
     boundary_checks capture plan
     \<and> (case evaluator of None \<Rightarrow> policy_evaluator builtin_policy | Some e \<Rightarrow> e)
         \<lparr>canonical_workspace = tool_workspace plan, canonical_write_dir = tool_write_dir plan,
          action_permissions = tool_permissions plan\<rparr> = Inr PermissionAllow"
  (is "_ \<longleftrightarrow> _ \<and> ?d = _")
proof -
  have "(case ?d of Inl _ \<Rightarrow> False | Inr d \<Rightarrow> d = PermissionAllow) \<longleftrightarrow> ?d = Inr PermissionAllow"
    by (cases ?d) simp_all
  then show ?thesis
    unfolding tool_call_allowed_def Let_def boundary_checks_def list_ex_iff
    by (simp split del: if_split) (auto split: if_splits)
qed

locale pairwise_evaluator =
  fixes evaluate :: "'e evaluator"
    and allows :: "string \<Rightarrow> permission_request \<Rightarrow> bool"
  assumes pairwise: "evaluate action = Inr PermissionAllow \<longleftrightarrow>
      list_all (allows (canonical_workspace action)) (action_permissions action)"
begin

lemma boundary_iff:
  "tool_call_allowed (Some evaluate) capture plan \<longleftrightarrow>
     boundary_checks capture plan \<and> list_all (allows (tool_workspace plan)) (tool_permissions plan)"
  by (simp add: tool_call_allowed_iff pairwise)

lemma boundary_requests:
  "tool_call_allowed (Some evaluate) capture plan \<Longrightarrow> req \<in> set (tool_permissions plan) \<Longrightarrow>
     allows (tool_workspace plan) req"
  by (auto simp: boundary_iff list_all_iff)

lemma boundary_subset:
  "tool_call_allowed (Some evaluate) capture plan \<Longrightarrow>
     set requests \<subseteq> set (tool_permissions plan) \<Longrightarrow> requests \<noteq> [] \<Longrightarrow>
     tool_call_allowed (Some evaluate) capture (plan\<lparr>tool_permissions := requests\<rparr>)"
  by (auto simp: boundary_iff boundary_checks_def list_all_iff subset_iff)

end

interpretation policy: pairwise_evaluator "policy_evaluator p" "policy_evaluate p" for p
  by unfold_locales (simp add: policy_evaluator_def call_allowed_def)

lemma boundary_constraints:
  assumes "tool_call_allowed evaluator capture plan" "req \<in> set (tool_permissions plan)"
  shows "\<not> malformed_request req"
    and "is_file_request req \<Longrightarrow> canonical_path_value (tool_workspace plan)"
    and "is_write_request req \<Longrightarrow> \<not> (capture_readonly capture \<and> capture_write_dir capture = [])"
    and "is_write_request req \<Longrightarrow> capture_write_dir capture \<noteq> [] \<Longrightarrow>
      canonical_path_value (tool_write_dir plan) \<and> contains_path (tool_write_dir plan) (req_target req)"
  using assms by (auto simp: tool_call_allowed_iff boundary_checks_def)

lemma boundary_builtin:
  "tool_call_allowed (None :: 'e evaluator option) capture plan =
     tool_call_allowed (Some (policy_evaluator builtin_policy :: 'e evaluator)) capture plan"
  by (simp add: tool_call_allowed_iff)

lemma canonical_file_target:
  "\<not> malformed_request req \<Longrightarrow> is_file_request req \<Longrightarrow>
     is_abs (req_target req) \<and> clean (req_target req) = req_target req"
  by (simp add: malformed_request_def canonical_path_value_def)

lemma boundary_write_dir:
  assumes "tool_call_allowed evaluator capture plan" "req \<in> set (tool_permissions plan)"
    and "is_write_request req" "capture_write_dir capture \<noteq> []"
  shows "prefix (clean_elems (tool_write_dir plan)) (clean_elems (req_target req))"
proof -
  have "is_file_request req" using assms(3) by (simp add: is_write_request_def is_file_request_def)
  then have "is_abs (req_target req)"
    using boundary_constraints(1) [OF assms(1,2)] canonical_file_target [of req] by blast
  moreover have "canonical_path_value (tool_write_dir plan)"
    and inside: "contains_path (tool_write_dir plan) (req_target req)"
    using boundary_constraints(4) [OF assms] by blast+
  ultimately show ?thesis
    using contains_path_iff by (auto simp: canonical_path_value_def)
qed

lemma policy_evaluate_builtin: "policy_evaluate builtin_policy root req = builtin_decide root req"
  by (simp add: policy_evaluate_def builtin_policy_def level_decide_def empty_level_def)

lemma boundary_builtin_file:
  assumes "tool_call_allowed None capture plan" "req \<in> set (tool_permissions plan)" "is_file_request req"
  shows "prefix (clean_elems (tool_workspace plan)) (clean_elems (req_target req))
     \<and> \<not> sensitive_target (req_target req)"
proof -
  have "policy_evaluate builtin_policy (tool_workspace plan) req"
    using policy.boundary_requests [OF assms(1) [unfolded boundary_builtin] assms(2)] .
  then have "contains_path (tool_workspace plan) (req_target req) \<and> \<not> sensitive_target (req_target req)"
    using assms(3) by (simp add: policy_evaluate_builtin builtin_decide_file)
  moreover have "is_abs (req_target req)" "is_abs (tool_workspace plan)"
    using boundary_constraints(1,2) [OF assms(1,2)] assms(3) canonical_file_target [of req]
    by (auto simp: canonical_path_value_def)
  ultimately show ?thesis using contains_path_iff by blast
qed

section \<open>Properties\<close>

text \<open>C7: No evaluator can widen where a call writes. Whatever the evaluator answers, a call that the
  boundary allows has only well-formed requests; every path it writes lies, element by element, below
  the Agent's write directory when one is configured; and a read-only Agent without a write directory
  writes nothing.\<close>

theorem tool_call_allowed_confines_writes:
  assumes "tool_call_allowed evaluator capture plan" "req \<in> set (tool_permissions plan)"
    and "is_write_request req"
  shows "canonical_path_value (req_target req)
     \<and> (if capture_write_dir capture = [] then \<not> capture_readonly capture
        else prefix (clean_elems (tool_write_dir plan)) (clean_elems (req_target req)))"
proof -
  have "is_file_request req" using assms(3) by (simp add: is_write_request_def is_file_request_def)
  then have "canonical_path_value (req_target req)"
    using boundary_constraints(1) [OF assms(1,2)] by (simp add: malformed_request_def)
  with boundary_constraints(3) [OF assms] boundary_write_dir [OF assms] show ?thesis by auto
qed

lemmas path_eval =
  is_abs_def slash_def clean_def clean_elems_def clean_step_def rel_def path_elems_def Let_def
  canonical_path_value_def contains_path_def malformed_request_def is_file_request_def
  is_write_request_def

definition example_plan :: prepared_tool where
  "example_plan =
     \<lparr>tool_permissions = [\<lparr>req_permission = ''file.write'', req_target = ''/w/d/x''\<rparr>],
      tool_workspace = ''/w'', tool_write_dir = ''/w/d''\<rparr>"

theorem tool_call_allowed_confines_writes_witness:
  "prefix (clean_elems ''/w/d'') (clean_elems ''/w/d/x'')"
proof -
  have allowed: "tool_call_allowed (Some (\<lambda>_. Inr PermissionAllow))
      \<lparr>capture_readonly = True, capture_write_dir = ''/w/d''\<rparr> example_plan"
    by (simp add: tool_call_allowed_def example_plan_def path_eval)
  have "\<lparr>req_permission = ''file.write'', req_target = ''/w/d/x''\<rparr> \<in> set (tool_permissions example_plan)"
    by (simp add: example_plan_def)
  from tool_call_allowed_confines_writes [OF allowed this] show ?thesis
    by (simp add: is_write_request_def example_plan_def)
qed

text \<open>C25: Under the built-in policy a call never leaves the Workspace and never touches a sensitive
  file. Every file it is allowed to read or write lies, element by element, below its canonical
  Workspace root, and its last path element matches none of the sensitive basename globs.\<close>

theorem builtin_policy_confines_files:
  assumes "tool_call_allowed (None :: 'e evaluator option) capture plan"
    and "req \<in> set (tool_permissions plan)" "is_file_request req"
  shows "prefix (clean_elems (tool_workspace plan)) (clean_elems (req_target req))
     \<and> \<not> sensitive_target (req_target req)"
  by (rule boundary_builtin_file [OF assms])

lemma example_not_sensitive: "\<not> sensitive_target ''/w/d/x''"
proof -
  have "base_name ''/w/d/x'' = ''x''"
    by (simp add: base_name_def trim_right_set_def slash_def Let_def)
  then show ?thesis
    by (simp add: sensitive_target_def sensitive_basename_patterns_def compile_glob_def match_string_def
        runes_ascii)
qed

theorem builtin_policy_confines_files_witness:
  "prefix (clean_elems ''/w'') (clean_elems ''/w/d/x'') \<and> \<not> sensitive_target ''/w/d/x''"
proof -
  let ?req = "\<lparr>req_permission = ''file.write'', req_target = ''/w/d/x''\<rparr>"
  have "builtin_decide ''/w'' ?req"
    by (subst builtin_decide_file) (simp_all add: example_not_sensitive path_eval)
  then have allowed: "tool_call_allowed (None :: unit evaluator option)
      \<lparr>capture_readonly = False, capture_write_dir = []\<rparr> example_plan"
    by (simp add: tool_call_allowed_iff boundary_checks_def policy_evaluator_def call_allowed_def
        policy_evaluate_builtin example_plan_def path_eval)
  have "?req \<in> set (tool_permissions example_plan)" by (simp add: example_plan_def)
  from builtin_policy_confines_files [OF allowed this] show ?thesis
    by (simp add: is_file_request_def example_plan_def)
qed

text \<open>The fallback chain is one ordered list of rules. The answer for a request is that of the last
  matching entry of: the built-in rules, the global default, the global rules, the Workspace default,
  the Workspace rules; without a match it is deny. In particular a Workspace default overrides every
  global rule.\<close>

theorem policy_evaluate_is_last_match:
  "policy_evaluate p root req = (chain_answer (policy_chain p root) req = Some True)"
  by (rule policy_evaluate_chain)

text \<open>A target glob means what its comment says. A compiled glob matches a target exactly when the
  target's runes can be cut into one piece per factor: the literal rune itself for a literal, one
  arbitrary rune for \<open>?\<close>, any run of runes, separators and newlines included, for \<open>*\<close>.\<close>

theorem glob_matching_is_denotation:
  "match_string glob target \<longleftrightarrow> glob_denotes glob (runes target)"
  by (simp add: match_string_def glob_match_denotes)

text \<open>Go ranges over the members of a permission block in an arbitrary order; the parsed level does
  not depend on it. For any two orders of the same members the result is the same, a rejection
  included.\<close>

theorem permission_level_order_independent:
  assumes "mset xs = mset ys" "distinct (map fst xs)"
  shows "parse_level_fields xs level = parse_level_fields ys level"
  by (rule parse_level_fields_perm [OF assms])

theorem permission_level_order_independent_witness:
  "parse_level_fields [(''rules'', JArr []), (''default'', JStr ''deny'')] empty_level =
     Some \<lparr>level_rules = [], has_default = True, default_allow = False\<rparr>"
proof -
  have "mset [(''rules'', JArr []), (''default'', JStr ''deny'')] =
      mset [(''default'', JStr ''deny''), (''rules'', JArr [])]"
    by (simp add: add_mset_commute)
  from permission_level_order_independent [OF this] show ?thesis
    by (simp add: parse_level_field_def empty_level_def)
qed

end
