(* ===== verification/Model_Values.thy ===== *)
theory Model_Values
  imports Go_Text Json
begin

text \<open>
  The provider-neutral values of package \<open>model\<close>: model identities (\<open>model_ref.go\<close>), raw extras and
  their accumulator (\<open>extra.go\<close>), messages (\<open>message.go\<close>), tool definitions, calls, requests and results
  (\<open>tool.go\<close>), outputs (\<open>output.go\<close>) and stream deltas (\<open>stream.go\<close>).

  A Go map of raw values is an association list in the order in which Go happens to range over it.
  Copying for ownership is the identity on values, so an accepting constructor is its validator
  followed by the value itself. A closed string enum is a datatype with one more constructor for the
  strings outside the set.
\<close>

section \<open>Model identities\<close>

record model_ref =
  provider :: string
  model_name :: string

definition slash_byte :: char where
  "slash_byte = CHR 0x2F"

definition ref_complete :: "model_ref \<Rightarrow> bool" where
  "ref_complete r \<longleftrightarrow> provider r \<noteq> [] \<and> model_name r \<noteq> []"

definition ref_is_zero :: "model_ref \<Rightarrow> bool" where
  "ref_is_zero r \<longleftrightarrow> provider r = [] \<and> model_name r = []"

definition ref_string :: "model_ref \<Rightarrow> string" where
  "ref_string r =
     (if provider r = [] \<or> model_name r = [] then [] else provider r @ [slash_byte] @ model_name r)"

text \<open>\<open>strings.Cut\<close> at one byte.\<close>

fun cut_byte :: "char \<Rightarrow> string \<Rightarrow> (string \<times> string) option" where
  "cut_byte c [] = None"
| "cut_byte c (x # xs) =
     (if x = c then Some ([], xs) else map_option (\<lambda>(a, b). (x # a, b)) (cut_byte c xs))"

definition parse_model_ref :: "string \<Rightarrow> model_ref option" where
  "parse_model_ref s =
     (case cut_byte slash_byte s of
        None \<Rightarrow> None
      | Some (p, m) \<Rightarrow>
          if p = [] \<or> m = [] then None else Some \<lparr>provider = p, model_name = m\<rparr>)"

definition ref_marshal :: "model_ref \<Rightarrow> json" where
  "ref_marshal r = JStr (ref_string r)"

definition ref_unmarshal :: "json \<Rightarrow> model_ref option" where
  "ref_unmarshal j = (case json_string j of None \<Rightarrow> None | Some s \<Rightarrow> parse_model_ref s)"

lemma cut_byte_Some: "cut_byte c s = Some (a, b) \<longleftrightarrow> s = a @ c # b \<and> c \<notin> set a"
  by (induction s arbitrary: a b) (auto simp: Cons_eq_append_conv)

lemma cut_byte_None: "cut_byte c s = None \<longleftrightarrow> c \<notin> set s"
  by (induction s) auto

lemma parse_model_ref_string:
  "parse_model_ref s = Some r \<Longrightarrow> ref_string r = s \<and> ref_complete r \<and> slash_byte \<notin> set (provider r)"
  by (auto simp: parse_model_ref_def ref_string_def ref_complete_def cut_byte_Some
      split: option.splits if_splits)

lemma parse_ref_string:
  "parse_model_ref (ref_string r) = Some r \<longleftrightarrow> ref_complete r \<and> slash_byte \<notin> set (provider r)"
proof
  show "parse_model_ref (ref_string r) = Some r \<Longrightarrow> ref_complete r \<and> slash_byte \<notin> set (provider r)"
    using parse_model_ref_string by blast
next
  assume r: "ref_complete r \<and> slash_byte \<notin> set (provider r)"
  then have "cut_byte slash_byte (provider r @ slash_byte # model_name r) = Some (provider r, model_name r)"
    by (simp add: cut_byte_Some)
  with r show "parse_model_ref (ref_string r) = Some r"
    by (simp add: parse_model_ref_def ref_string_def ref_complete_def)
qed

section \<open>Extras\<close>

type_synonym extra = "(string \<times> raw) list"

fun json_valid :: "raw \<Rightarrow> bool" where
  "json_valid (Value j) = True"
| "json_valid _ = False"

fun is_json_null :: "raw \<Rightarrow> bool" where
  "is_json_null (Value j) = (j = JNull)"
| "is_json_null (Malformed b) = (trim_space b = ''null'')"
| "is_json_null NoBytes = False"

definition extra_finalize :: "extra \<Rightarrow> extra" where
  "extra_finalize e = filter (\<lambda>(k, v). \<not> is_json_null v) e"

definition extra_has_values :: "extra \<Rightarrow> bool" where
  "extra_has_values e \<longleftrightarrow> list_ex (\<lambda>(k, v). \<not> is_json_null v) e"

datatype extra_kind = KNull | KString | KArray | KObject | KOther

fun classify_json :: "raw \<Rightarrow> extra_kind" where
  "classify_json NoBytes = KOther"
| "classify_json (Value JNull) = KNull"
| "classify_json (Value (JStr s)) = KString"
| "classify_json (Value (JArr xs)) = KArray"
| "classify_json (Value (JObj ms)) = KObject"
| "classify_json (Value (JBool b)) = KOther"
| "classify_json (Value (JNum n)) = KOther"
| "classify_json (Malformed b) =
     (case trim_space b of
        [] \<Rightarrow> KOther
      | c # cs \<Rightarrow>
          if c # cs = ''null'' then KNull
          else if c = CHR 0x22 then KString
          else if c = CHR ''['' then KArray
          else if c = CHR ''{'' then KObject
          else KOther)"

fun accumulate_same_kind :: "extra_kind \<Rightarrow> raw \<Rightarrow> raw \<Rightarrow> raw option" where
  "accumulate_same_kind KString previous next =
     (case (previous, next) of
        (Value (JStr a), Value (JStr b)) \<Rightarrow> Some (Value (JStr (a @ b)))
      | _ \<Rightarrow> None)"
| "accumulate_same_kind KArray previous next =
     (case (previous, next) of
        (Value (JArr xs), Value (JArr ys)) \<Rightarrow> Some (Value (JArr (xs @ ys)))
      | _ \<Rightarrow> None)"
| "accumulate_same_kind _ previous next = Some next"

record extra_acc =
  acc_values :: extra
  acc_kinds :: "(string \<times> extra_kind) list"

definition new_extra_acc :: extra_acc where
  "new_extra_acc = \<lparr>acc_values = [], acc_kinds = []\<rparr>"

datatype extra_error = KindChanged string extra_kind extra_kind | Unmergeable

text \<open>\<open>Add\<close>: the accumulator afterwards, and the error it reports, if any.\<close>

definition extra_add :: "string \<Rightarrow> raw \<Rightarrow> extra_acc \<Rightarrow> extra_acc \<times> extra_error option" where
  "extra_add key v a =
     (if key = [] \<or> v = NoBytes then (a, None)
      else (let kind = classify_json v;
                store = (\<lambda>w. a\<lparr>acc_values := AList.update key w (acc_values a)\<rparr>);
                rekind = (\<lambda>b. b\<lparr>acc_kinds := AList.update key kind (acc_kinds b)\<rparr>)
            in case map_of (acc_kinds a) key of
                 None \<Rightarrow> (rekind (store v), None)
               | Some prev \<Rightarrow>
                   if prev \<noteq> kind then (rekind (store v), Some (KindChanged key prev kind))
                   else (case accumulate_same_kind prev
                             (case map_of (acc_values a) key of None \<Rightarrow> NoBytes | Some w \<Rightarrow> w) v of
                           None \<Rightarrow> (store v, Some Unmergeable)
                         | Some merged \<Rightarrow> (store merged, None))))"

definition acc_add_all :: "extra \<Rightarrow> extra_acc \<Rightarrow> extra_acc" where
  "acc_add_all e a = fold (\<lambda>(k, v) b. fst (extra_add k v b)) e a"

definition acc_finalize :: "extra_acc \<Rightarrow> extra" where
  "acc_finalize a = extra_finalize (acc_values a)"

definition acc_has_values :: "extra_acc \<Rightarrow> bool" where
  "acc_has_values a \<longleftrightarrow> extra_has_values (acc_values a)"

section \<open>Messages\<close>

datatype role = RoleSystem | RoleUser | RoleAssistant | RoleTool | OtherRole string

datatype part_kind = PartText | PartImageURL | PartOpaque | OtherKind string

record content_part =
  part_kind :: part_kind
  part_text :: string
  part_url :: string
  part_opaque :: string
  part_extra :: extra

record tool_call =
  call_id :: string
  call_name :: string
  call_arguments :: string
  call_extra :: extra

record message =
  msg_role :: role
  msg_content :: "content_part list"
  msg_refusal :: string
  msg_tool_calls :: "tool_call list"
  msg_tool_call_id :: string
  msg_name :: string
  msg_extra :: extra
  msg_source :: model_ref

datatype model_error =
  InvalidRole role
| MissingSource
| UnexpectedSource role
| ForbiddenField
| MissingField
| InvalidStatus
| InvalidExtra string
| InvalidPosition int
| InvalidParameters
| DuplicateToolName string
| SourceMismatch
| MissingPayload
| ForbiddenCalls
| InContent nat model_error
| InToolCalls nat model_error
| InMessages nat model_error
| InTools nat model_error
| InOutputMessage model_error

definition valid_role :: "role \<Rightarrow> bool" where
  "valid_role r \<longleftrightarrow> r \<in> {RoleSystem, RoleUser, RoleAssistant, RoleTool}"

definition validate_extra_values :: "extra \<Rightarrow> model_error + unit" where
  "validate_extra_values e = first_error (\<lambda>(k, v). ensure (json_valid v) (InvalidExtra k)) e"

definition validate_content_part :: "content_part \<Rightarrow> model_error + unit" where
  "validate_content_part p =
     rbind
       (case part_kind p of
          PartText \<Rightarrow> ensure (part_url p = [] \<and> part_opaque p = []) ForbiddenField
        | PartImageURL \<Rightarrow> ensure (part_text p = [] \<and> part_opaque p = []) ForbiddenField
        | PartOpaque \<Rightarrow>
            rbind (ensure (part_text p = [] \<and> part_url p = []) ForbiddenField)
              (\<lambda>_. ensure (part_opaque p \<noteq> []) MissingField)
        | OtherKind _ \<Rightarrow> Inl ForbiddenField)
       (\<lambda>_. validate_extra_values (part_extra p))"

definition map_error :: "('e \<Rightarrow> 'f) \<Rightarrow> 'e + 'a \<Rightarrow> 'f + 'a" where
  "map_error f x = (case x of Inl e \<Rightarrow> Inl (f e) | Inr a \<Rightarrow> Inr a)"

text \<open>A loop over a slice that reports the index of the first offender.\<close>

definition indexed_error :: "(nat \<Rightarrow> 'a \<Rightarrow> 'e + unit) \<Rightarrow> 'a list \<Rightarrow> 'e + unit" where
  "indexed_error f xs = first_error (\<lambda>(i, x). f i x) (enumerate 0 xs)"

definition validate_message :: "message \<Rightarrow> model_error + unit" where
  "validate_message m =
     rbind (ensure (valid_role (msg_role m)) (InvalidRole (msg_role m))) (\<lambda>_.
     rbind (if msg_role m = RoleAssistant then ensure (ref_complete (msg_source m)) MissingSource
            else ensure (ref_is_zero (msg_source m)) (UnexpectedSource (msg_role m))) (\<lambda>_.
     rbind (ensure (\<not> ((msg_refusal m \<noteq> [] \<or> msg_tool_calls m \<noteq> []) \<and> msg_role m \<noteq> RoleAssistant))
              ForbiddenField) (\<lambda>_.
     rbind (if msg_role m = RoleTool then ensure (msg_tool_call_id m \<noteq> []) MissingField
            else ensure (msg_tool_call_id m = []) ForbiddenField) (\<lambda>_.
     rbind (indexed_error (\<lambda>i p. map_error (InContent i) (validate_content_part p)) (msg_content m)) (\<lambda>_.
     rbind (indexed_error (\<lambda>i c.
              rbind (ensure (call_id c \<noteq> [] \<and> call_name c \<noteq> []) MissingField) (\<lambda>_.
                map_error (InToolCalls i) (validate_extra_values (call_extra c)))) (msg_tool_calls m)) (\<lambda>_.
       validate_extra_values (msg_extra m)))))))"

definition new_message :: "message \<Rightarrow> model_error + message" where
  "new_message m = rbind (validate_message m) (\<lambda>_. Inr m)"

definition text_content :: "message \<Rightarrow> string" where
  "text_content m = concat (map part_text (filter (\<lambda>p. part_kind p = PartText) (msg_content m)))"

definition append_text :: "string \<Rightarrow> message \<Rightarrow> message" where
  "append_text s m =
     (if s = [] then m
      else if msg_content m \<noteq> [] \<and> part_kind (last (msg_content m)) = PartText
      then m\<lparr>msg_content := butlast (msg_content m) @
             [(last (msg_content m))\<lparr>part_text := part_text (last (msg_content m)) @ s\<rparr>]\<rparr>
      else m\<lparr>msg_content := msg_content m @
             [\<lparr>part_kind = PartText, part_text = s, part_url = [], part_opaque = [], part_extra = []\<rparr>]\<rparr>)"

section \<open>Tools and requests\<close>

record tool_definition =
  def_name :: string
  def_description :: string
  def_parameters :: raw

text \<open>The raw parameters must be one JSON value that is an object.\<close>

definition validate_tool_definition :: "tool_definition \<Rightarrow> model_error + unit" where
  "validate_tool_definition d =
     rbind (ensure (def_name d \<noteq> []) MissingField)
       (\<lambda>_. ensure (case def_parameters d of Value (JObj _) \<Rightarrow> True | _ \<Rightarrow> False) InvalidParameters)"

definition validate_tool_call :: "tool_call \<Rightarrow> model_error + unit" where
  "validate_tool_call c =
     rbind (ensure (\<not> (call_id c = [] \<or> call_name c = [])) MissingField)
       (\<lambda>_. validate_extra_values (call_extra c))"

record request =
  req_messages :: "message list"
  req_tools :: "tool_definition list"

fun validate_tools_from :: "nat \<Rightarrow> string set \<Rightarrow> tool_definition list \<Rightarrow> model_error + unit" where
  "validate_tools_from i seen [] = Inr ()"
| "validate_tools_from i seen (d # ds) =
     rbind (map_error (InTools i) (validate_tool_definition d)) (\<lambda>_.
     rbind (ensure (def_name d \<notin> seen) (DuplicateToolName (def_name d))) (\<lambda>_.
       validate_tools_from (Suc i) (insert (def_name d) seen) ds))"

definition validate_request :: "request \<Rightarrow> model_error + unit" where
  "validate_request r =
     rbind (indexed_error (\<lambda>i m. map_error (InMessages i) (validate_message m)) (req_messages r))
       (\<lambda>_. validate_tools_from 0 {} (req_tools r))"

definition new_request :: "request \<Rightarrow> model_error + request" where
  "new_request r = rbind (validate_request r) (\<lambda>_. Inr r)"

datatype tool_result_status =
  ResultSuccess | ResultError | ResultDenied | ResultInterrupted | OtherResult string

definition valid_tool_result_status :: "tool_result_status \<Rightarrow> bool" where
  "valid_tool_result_status s \<longleftrightarrow> s \<in> {ResultSuccess, ResultError, ResultDenied, ResultInterrupted}"

record tool_result =
  res_call_id :: string
  res_status :: tool_result_status
  res_content :: string

definition new_tool_result :: "tool_result \<Rightarrow> model_error + tool_result" where
  "new_tool_result r =
     rbind (ensure (res_call_id r \<noteq> []) MissingField) (\<lambda>_.
     rbind (ensure (valid_tool_result_status (res_status r)) InvalidStatus) (\<lambda>_.
     rbind (ensure (\<not> (res_content r = [] \<and> res_status r \<noteq> ResultSuccess)) MissingField) (\<lambda>_.
       Inr r)))"

section \<open>Outputs\<close>

text \<open>
  Diagnostic texts that the agent formats are kept as the format and its arguments; every format is a
  nonempty text, so only \<open>Text []\<close> is the empty detail.
\<close>

datatype detail =
  Text string
| ConflictingKinds int
| ConflictingURLs int
| ConflictingOpaque int
| ConflictingCallId string
| WireTypeNotFunction string
| ConflictingWireType string
| ConflictingFinish string string
| ConflictingRoles string string
| DeltaRejected model_error
| RoleNotAssistant string
| IncompleteOpaque int
| IncompleteCall int
| StreamReadFailed string
| StreamInterrupted string
| UnsupportedFinish string

definition no_detail :: "detail \<Rightarrow> bool" where
  "no_detail d \<longleftrightarrow> d = Text []"

record usage =
  input_tokens :: int
  cached_input_tokens :: int
  output_tokens :: int

datatype output_status = OutputCompleted | OutputErrored | OutputInterrupted | OtherOutput string

record model_output =
  out_status :: output_status
  out_source :: model_ref
  out_message :: "message option"
  out_usage :: "usage option"
  out_detail :: detail

definition valid_output_status :: "output_status \<Rightarrow> bool" where
  "valid_output_status s \<longleftrightarrow> s \<in> {OutputCompleted, OutputErrored, OutputInterrupted}"

definition content_part_has_payload :: "content_part \<Rightarrow> bool" where
  "content_part_has_payload p \<longleftrightarrow>
     part_text p \<noteq> [] \<or> part_url p \<noteq> [] \<or> part_opaque p \<noteq> [] \<or> extra_has_values (part_extra p)"

fun has_assistant_content :: "message option \<Rightarrow> bool" where
  "has_assistant_content None = False"
| "has_assistant_content (Some m) =
     (if msg_refusal m \<noteq> [] then True
      else if list_ex content_part_has_payload (msg_content m) then True
      else extra_has_values (msg_extra m))"

definition has_assistant_payload :: "message option \<Rightarrow> bool" where
  "has_assistant_payload m \<longleftrightarrow>
     has_assistant_content m \<or> (case m of None \<Rightarrow> False | Some m' \<Rightarrow> msg_tool_calls m' \<noteq> [])"

definition validate_output_message :: "message \<Rightarrow> model_ref \<Rightarrow> model_error + unit" where
  "validate_output_message m source =
     rbind (map_error InOutputMessage (validate_message m)) (\<lambda>_.
     rbind (ensure (msg_role m = RoleAssistant) (InvalidRole (msg_role m))) (\<lambda>_.
       ensure (ref_complete (msg_source m) \<and> provider (msg_source m) = provider source
         \<and> model_name (msg_source m) = model_name source) SourceMismatch))"

definition validate_output :: "model_output \<Rightarrow> model_error + unit" where
  "validate_output out =
     rbind (ensure (valid_output_status (out_status out)) InvalidStatus) (\<lambda>_.
     rbind (ensure (ref_complete (out_source out)) MissingSource) (\<lambda>_.
       if out_status out = OutputCompleted then
         (case out_message out of
            None \<Rightarrow> Inl MissingField
          | Some m \<Rightarrow>
              rbind (validate_output_message m (out_source out)) (\<lambda>_.
              rbind (ensure (has_assistant_payload (Some m)) MissingPayload) (\<lambda>_.
                ensure (no_detail (out_detail out)) ForbiddenField)))
       else
         rbind (case out_message out of
            None \<Rightarrow> Inr ()
          | Some m \<Rightarrow>
              rbind (validate_output_message m (out_source out)) (\<lambda>_.
                ensure (msg_tool_calls m = []) ForbiddenCalls)) (\<lambda>_.
           ensure (\<not> no_detail (out_detail out)) MissingField)))"

definition new_output :: "model_output \<Rightarrow> model_error + model_output" where
  "new_output out = rbind (validate_output out) (\<lambda>_. Inr out)"

section \<open>Stream deltas\<close>

record content_fragment =
  cf_position :: int
  cf_kind :: part_kind
  cf_text :: string
  cf_url :: string
  cf_opaque :: string
  cf_extra :: extra

record tool_call_fragment =
  tf_position :: "int option"
  tf_id :: string
  tf_wire_type :: string
  tf_name :: string
  tf_argument :: string
  tf_extra :: extra

record stream_delta =
  has_choice :: bool
  d_role :: string
  d_refusal :: string
  d_content :: "content_fragment list"
  d_tools :: "tool_call_fragment list"
  d_finish_reason :: string
  d_usage :: "usage option"
  d_extra :: extra

definition validate_content_fragment :: "content_fragment \<Rightarrow> model_error + unit" where
  "validate_content_fragment f =
     rbind
       (case cf_kind f of
          PartText \<Rightarrow> ensure (cf_url f = [] \<and> cf_opaque f = []) ForbiddenField
        | PartImageURL \<Rightarrow> ensure (cf_text f = [] \<and> cf_opaque f = []) ForbiddenField
        | PartOpaque \<Rightarrow> ensure (cf_text f = [] \<and> cf_url f = []) ForbiddenField
        | OtherKind _ \<Rightarrow> Inl ForbiddenField)
       (\<lambda>_. validate_extra_values (cf_extra f))"

definition validate_stream_delta :: "stream_delta \<Rightarrow> model_error + unit" where
  "validate_stream_delta d =
     rbind (first_error (\<lambda>f.
        rbind (ensure (0 \<le> cf_position f) (InvalidPosition (cf_position f)))
          (\<lambda>_. map_error (InContent (nat (cf_position f))) (validate_content_fragment f))) (d_content d)) (\<lambda>_.
     rbind (indexed_error (\<lambda>i f.
        rbind (case tf_position f of None \<Rightarrow> Inr () | Some p \<Rightarrow> ensure (0 \<le> p) (InvalidPosition p))
          (\<lambda>_. map_error (InToolCalls i) (validate_extra_values (tf_extra f)))) (d_tools d)) (\<lambda>_.
       validate_extra_values (d_extra d)))"

definition new_stream_delta :: "stream_delta \<Rightarrow> model_error + stream_delta" where
  "new_stream_delta d = rbind (validate_stream_delta d) (\<lambda>_. Inr d)"

section \<open>What the validators accept\<close>

lemma map_error_Inr [res_simps]: "map_error f x = Inr a \<longleftrightarrow> x = Inr a"
  by (cases x) (simp_all add: map_error_def)

lemma indexed_error_ok [res_simps]:
  "indexed_error f xs = Inr u \<longleftrightarrow> (\<forall>i < length xs. f i (xs ! i) = Inr ())"
proof -
  have "set (enumerate 0 xs) = (\<lambda>i. (i, xs ! i)) ` {..<length xs}"
    by (auto simp: in_set_enumerate_eq image_iff)
  then show ?thesis by (auto simp: indexed_error_def first_error_ok)
qed

definition extra_ok :: "extra \<Rightarrow> bool" where
  "extra_ok e \<longleftrightarrow> list_all (\<lambda>(k, v). json_valid v) e"

lemma validate_extra_ok [res_simps]: "validate_extra_values e = Inr u \<longleftrightarrow> extra_ok e"
  by (auto simp: validate_extra_values_def extra_ok_def res_simps list_all_iff)

definition part_ok :: "content_part \<Rightarrow> bool" where
  "part_ok p \<longleftrightarrow> extra_ok (part_extra p) \<and>
     (case part_kind p of
        PartText \<Rightarrow> part_url p = [] \<and> part_opaque p = []
      | PartImageURL \<Rightarrow> part_text p = [] \<and> part_opaque p = []
      | PartOpaque \<Rightarrow> part_text p = [] \<and> part_url p = [] \<and> part_opaque p \<noteq> []
      | OtherKind _ \<Rightarrow> False)"

lemma validate_part_ok [res_simps]: "validate_content_part p = Inr u \<longleftrightarrow> part_ok p"
  by (auto simp: validate_content_part_def part_ok_def res_simps split: part_kind.splits)

definition call_ok :: "tool_call \<Rightarrow> bool" where
  "call_ok c \<longleftrightarrow> call_id c \<noteq> [] \<and> call_name c \<noteq> [] \<and> extra_ok (call_extra c)"

lemma validate_tool_call_ok [res_simps]: "validate_tool_call c = Inr u \<longleftrightarrow> call_ok c"
  by (auto simp: validate_tool_call_def call_ok_def res_simps)

definition assistant_ok :: "model_ref \<Rightarrow> message \<Rightarrow> bool" where
  "assistant_ok source m \<longleftrightarrow>
     msg_role m = RoleAssistant \<and> msg_source m = source \<and> ref_complete source
     \<and> msg_tool_call_id m = [] \<and> list_all part_ok (msg_content m)
     \<and> list_all call_ok (msg_tool_calls m) \<and> extra_ok (msg_extra m)"

lemma ref_eq_iff: "r = s \<longleftrightarrow> provider r = provider s \<and> model_name r = model_name s"
  for r s :: model_ref
  by (cases r; cases s) simp

lemma validate_output_message_ok [res_simps]:
  "validate_output_message m source = Inr u \<longleftrightarrow> assistant_ok source m"
  unfolding assistant_ok_def ref_eq_iff [of "msg_source m"]
  by (auto simp: validate_output_message_def validate_message_def res_simps
      list_all_length valid_role_def call_ok_def ref_complete_def)

definition output_ok :: "model_output \<Rightarrow> bool" where
  "output_ok out \<longleftrightarrow> ref_complete (out_source out) \<and>
     (case out_status out of
        OutputCompleted \<Rightarrow>
          (\<exists>m. out_message out = Some m \<and> assistant_ok (out_source out) m \<and> has_assistant_payload (Some m))
          \<and> no_detail (out_detail out)
      | OtherOutput _ \<Rightarrow> False
      | _ \<Rightarrow>
          (case out_message out of None \<Rightarrow> True
           | Some m \<Rightarrow> assistant_ok (out_source out) m \<and> msg_tool_calls m = [])
          \<and> \<not> no_detail (out_detail out))"

lemma validate_output_ok [res_simps]: "validate_output out = Inr u \<longleftrightarrow> output_ok out"
  by (auto simp: validate_output_def output_ok_def res_simps valid_output_status_def
      split: output_status.splits option.splits)

lemma new_output_ok [res_simps]: "new_output out = Inr out' \<longleftrightarrow> output_ok out \<and> out' = out"
  by (auto simp: new_output_def res_simps)

end
