(* ===== verification/Extra_Laws.thy ===== *)
theory Extra_Laws
  imports Model_Values "HOL-Library.Multiset"
begin

text \<open>
  The laws of the extra accumulator of \<open>src/model/extra.go\<close>: the contract that the stream assembler
  relies on, as a locale, and the accumulator of the code as its interpretation; the accumulated
  value of one key; and the independence of the order in which Go ranges over a map of extras.
\<close>

section \<open>The contract\<close>

locale accumulator =
  fixes inv :: "'a \<Rightarrow> bool"
    and fresh :: 'a
    and add :: "string \<Rightarrow> raw \<Rightarrow> 'a \<Rightarrow> 'a"
    and finalize :: "'a \<Rightarrow> extra"
    and has_values :: "'a \<Rightarrow> bool"
  assumes inv_fresh: "inv fresh"
    and inv_add: "inv a \<Longrightarrow> json_valid v \<Longrightarrow> inv (add k v a)"
    and finalize_valid: "inv a \<Longrightarrow> extra_ok (finalize a)"
    and finalize_no_null: "list_all (\<lambda>(k, v). \<not> is_json_null v) (finalize a)"
    and has_values_iff: "has_values a \<longleftrightarrow> finalize a \<noteq> []"
    and fresh_empty: "finalize fresh = []"
begin

lemma inv_add_all: "inv a \<Longrightarrow> extra_ok e \<Longrightarrow> inv (fold (\<lambda>(k, v). add k v) e a)"
  by (induction e arbitrary: a) (auto simp: extra_ok_def inv_add)

lemma finalized_has_values: "extra_has_values (finalize a) \<longleftrightarrow> has_values a"
  using finalize_no_null [of a]
  by (cases "finalize a") (auto simp: extra_has_values_def has_values_iff list_all_iff list_ex_iff)

lemma no_values_fresh: "\<not> has_values fresh"
  by (simp add: has_values_iff fresh_empty)

end

section \<open>The accumulator keeps the contract\<close>

text \<open>The kinds record the kind of each stored value, and every stored value is valid JSON.\<close>

definition acc_inv :: "extra_acc \<Rightarrow> bool" where
  "acc_inv a \<longleftrightarrow>
     extra_ok (acc_values a)
     \<and> (\<forall>k. map_of (acc_kinds a) k = map_option classify_json (map_of (acc_values a) k))"

lemma extra_ok_update: "extra_ok e \<Longrightarrow> json_valid v \<Longrightarrow> extra_ok (AList.update k v e)"
  by (induction e) (auto simp: extra_ok_def)

lemma extra_ok_lookup: "extra_ok e \<Longrightarrow> map_of e k = Some v \<Longrightarrow> json_valid v"
  by (auto simp: extra_ok_def list_all_iff dest: map_of_SomeD)

lemma json_valid_Value: "json_valid v \<Longrightarrow> \<exists>j. v = Value j"
  by (cases v) auto

lemma classify_cases:
  "classify_json (Value j) = KString \<longleftrightarrow> (\<exists>s. j = JStr s)"
  "classify_json (Value j) = KArray \<longleftrightarrow> (\<exists>xs. j = JArr xs)"
  by (cases j; simp)+

text \<open>Two values of one kind always merge, and to a value of that kind.\<close>

lemma accumulate_valid:
  assumes "json_valid v" "json_valid w" "classify_json v = kind" "classify_json w = kind"
  shows "\<exists>m. accumulate_same_kind kind v w = Some m \<and> json_valid m \<and> classify_json m = kind"
proof -
  obtain i j where v: "v = Value i" "w = Value j"
    using assms(1,2) json_valid_Value by blast
  show ?thesis
    using assms(3,4) v by (cases kind) (auto simp: classify_cases)
qed

lemma acc_inv_fresh: "acc_inv new_extra_acc"
  by (simp add: acc_inv_def new_extra_acc_def extra_ok_def)

text \<open>One key of the accumulator, and what \<open>Add\<close> does to it.\<close>

definition cell_add :: "raw \<Rightarrow> raw option \<Rightarrow> raw option" where
  "cell_add v c =
     (case c of
        None \<Rightarrow> Some v
      | Some w \<Rightarrow>
          if classify_json w \<noteq> classify_json v then Some v
          else (case accumulate_same_kind (classify_json v) w v of None \<Rightarrow> Some v | Some m \<Rightarrow> Some m))"

lemma extra_add_cell:
  assumes "acc_inv a" "json_valid v" "k \<noteq> []"
  shows "map_of (acc_values (fst (extra_add k v a))) x =
     (if x = k then cell_add v (map_of (acc_values a) k) else map_of (acc_values a) x)"
    and "acc_inv (fst (extra_add k v a))"
    and "snd (extra_add k v a) \<noteq> Some Unmergeable"
proof -
  have v: "v \<noteq> NoBytes" using assms(2) by auto
  have kinds: "map_of (acc_kinds a) y = map_option classify_json (map_of (acc_values a) y)" for y
    using assms(1) by (simp add: acc_inv_def)
  have ok: "extra_ok (acc_values a)" using assms(1) by (simp add: acc_inv_def)
  have step: "map_of (acc_values (fst (extra_add k v a))) x =
     (if x = k then cell_add v (map_of (acc_values a) k) else map_of (acc_values a) x)
     \<and> acc_inv (fst (extra_add k v a)) \<and> snd (extra_add k v a) \<noteq> Some Unmergeable" for x
  proof (cases "map_of (acc_values a) k")
    case None
    then show ?thesis
      using assms v ok kinds
      by (simp add: extra_add_def cell_add_def Let_def acc_inv_def update_conv' extra_ok_update)
  next
    case (Some w)
    have w: "json_valid w" using extra_ok_lookup [OF ok Some] .
    show ?thesis
    proof (cases "classify_json w = classify_json v")
      case False
      then show ?thesis
        using assms v ok kinds Some
        by (simp add: extra_add_def cell_add_def Let_def acc_inv_def update_conv' extra_ok_update)
    next
      case True
      obtain m where m: "accumulate_same_kind (classify_json v) w v = Some m" "json_valid m"
        "classify_json m = classify_json v"
        using accumulate_valid [OF w assms(2) True refl] by blast
      then show ?thesis
        using assms v ok kinds Some True
        by (simp add: extra_add_def cell_add_def Let_def acc_inv_def update_conv' extra_ok_update)
    qed
  qed
  then show "map_of (acc_values (fst (extra_add k v a))) x =
     (if x = k then cell_add v (map_of (acc_values a) k) else map_of (acc_values a) x)"
    "acc_inv (fst (extra_add k v a))" "snd (extra_add k v a) \<noteq> Some Unmergeable" by blast+
qed

lemma acc_inv_add: "acc_inv a \<Longrightarrow> json_valid v \<Longrightarrow> acc_inv (fst (extra_add k v a))"
proof (cases "k = []")
  case True
  assume "acc_inv a"
  with True show ?thesis by (simp add: extra_add_def)
next
  case False
  assume "acc_inv a" "json_valid v"
  from extra_add_cell(2) [OF this False] show ?thesis .
qed

interpretation extra_acc: accumulator
  acc_inv new_extra_acc "\<lambda>k v a. fst (extra_add k v a)" acc_finalize acc_has_values
proof unfold_locales
  show "acc_inv new_extra_acc" by (rule acc_inv_fresh)
  show "acc_inv (fst (extra_add k v a))" if "acc_inv a" "json_valid v" for a v k
    using that by (rule acc_inv_add)
  show "extra_ok (acc_finalize a)" if "acc_inv a" for a
    using that by (auto simp: acc_inv_def acc_finalize_def extra_finalize_def extra_ok_def list_all_iff)
  show "list_all (\<lambda>(k, v). \<not> is_json_null v) (acc_finalize a)" for a
    by (auto simp: acc_finalize_def extra_finalize_def list_all_iff)
  show "acc_has_values a = (acc_finalize a \<noteq> [])" for a
    by (auto simp: acc_finalize_def extra_finalize_def acc_has_values_def extra_has_values_def
        list_ex_iff filter_empty_conv)
  show "acc_finalize new_extra_acc = []"
    by (simp add: acc_finalize_def extra_finalize_def new_extra_acc_def)
qed

lemma acc_inv_add_all: "acc_inv a \<Longrightarrow> extra_ok e \<Longrightarrow> acc_inv (acc_add_all e a)"
  unfolding acc_add_all_def by (rule extra_acc.inv_add_all)

section \<open>What a key accumulates\<close>

lemma acc_add_all_other:
  "acc_inv a \<Longrightarrow> extra_ok e \<Longrightarrow> x \<notin> fst ` set e \<Longrightarrow>
     map_of (acc_values (acc_add_all e a)) x = map_of (acc_values a) x"
proof (induction e arbitrary: a)
  case (Cons kv e)
  obtain k v where kv: "kv = (k, v)" by (cases kv)
  have v: "json_valid v" and e: "extra_ok e" using Cons.prems(2) kv by (simp_all add: extra_ok_def)
  have "map_of (acc_values (fst (extra_add k v a))) x = map_of (acc_values a) x"
    using extra_add_cell(1) [OF Cons.prems(1) v, of k x] Cons.prems(3) kv
    by (cases "k = []") (auto simp: extra_add_def)
  with Cons.IH [OF acc_inv_add [OF Cons.prems(1) v, of k] e] Cons.prems(3) kv show ?case
    by (simp add: acc_add_all_def)
qed (simp add: acc_add_all_def)

lemma acc_add_all_cell:
  "acc_inv a \<Longrightarrow> extra_ok e \<Longrightarrow> distinct (map fst e) \<Longrightarrow> x \<noteq> [] \<Longrightarrow>
     map_of (acc_values (acc_add_all e a)) x =
       (case map_of e x of
          None \<Rightarrow> map_of (acc_values a) x
        | Some v \<Rightarrow> cell_add v (map_of (acc_values a) x))"
proof (induction e arbitrary: a)
  case (Cons kv e)
  obtain k v where kv: "kv = (k, v)" by (cases kv)
  have v: "json_valid v" and e: "extra_ok e" and d: "distinct (map fst e)"
    using Cons.prems(2,3) kv by (simp_all add: extra_ok_def)
  note inv = acc_inv_add [OF Cons.prems(1) v, of k]
  have step: "acc_add_all (kv # e) a = acc_add_all e (fst (extra_add k v a))"
    by (simp add: acc_add_all_def kv)
  show ?case
  proof (cases "x = k")
    case True
    then have "x \<notin> fst ` set e" using Cons.prems(3) kv by simp
    then have "map_of (acc_values (acc_add_all (kv # e) a)) x = map_of (acc_values (fst (extra_add k v a))) x"
      unfolding step by (rule acc_add_all_other [OF inv e])
    with True kv show ?thesis
      using extra_add_cell(1) [OF Cons.prems(1) v, of k x] Cons.prems(4) by simp
  next
    case False
    have "map_of (acc_values (fst (extra_add k v a))) x = map_of (acc_values a) x"
      using extra_add_cell(1) [OF Cons.prems(1) v, of k x] False
      by (cases "k = []") (auto simp: extra_add_def)
    with False kv show ?thesis
      unfolding step Cons.IH [OF inv e d Cons.prems(4)] by (simp split: option.split)
  qed
qed (simp add: acc_add_all_def)

lemma acc_add_strings:
  "acc_inv a \<Longrightarrow> k \<noteq> [] \<Longrightarrow> map_of (acc_values a) k = Some (Value (JStr s)) \<Longrightarrow>
     map_of (acc_values (fold (\<lambda>t b. fst (extra_add k (Value (JStr t)) b)) ts a)) k =
       Some (Value (JStr (s @ concat ts)))"
proof (induction ts arbitrary: a s)
  case (Cons t ts)
  note add = extra_add_cell [OF Cons.prems(1) _ Cons.prems(2), of "Value (JStr t)", simplified]
  have "map_of (acc_values (fst (extra_add k (Value (JStr t)) a))) k = Some (Value (JStr (s @ t)))"
    using add(1) [of k] Cons.prems(3) by (simp add: cell_add_def)
  from Cons.IH [OF add(2) Cons.prems(2) this] show ?case by simp
qed simp

end
