(* ===== verification/Assembly.thy ===== *)
theory Assembly
  imports Extra_Laws
begin

text \<open>
  The stream assembler of package \<open>agent\<close>: \<open>content_acc.go\<close> (positioned content), \<open>tool_corr.go\<close> (the
  correlation of tool-call fragments), \<open>assembly.go\<close> (the loop over the stream), \<open>finalize.go\<close> and
  \<open>message_build.go\<close>. A stream is the list of what \<open>Recv\<close> delivers before it reports the end or a
  read error. The run context is read once, at finalization: its error text if it is cancelled. The
  panics of the finalizer, reached when the constructor rejects the output it builds, are the
  \<open>None\<close> results of \<open>finalize\<close>.
\<close>

section \<open>State\<close>

definition no_kind :: part_kind where
  "no_kind = OtherKind []"

record part_acc =
  pa_kind :: part_kind
  pa_opaque :: string
  pa_text :: string
  pa_url :: string
  pa_extra :: extra_acc

record call_acc =
  ca_id :: string
  ca_wire_type :: string
  ca_name :: string
  ca_args :: string
  ca_extra :: extra_acc

record assembly_state =
  st_source :: model_ref
  st_refusal :: string
  st_role :: string
  st_finish_reason :: string
  st_conflict :: detail
  st_established :: bool
  st_usage :: "usage option"
  st_msg_extra :: extra_acc
  st_content :: "(int \<times> part_acc) list"
  st_content_order :: "int list"
  st_tool_deltas :: "(int \<times> call_acc) list"
  st_tool_ids :: "(string \<times> int) list"
  st_next_tool_idx :: int
  st_last_tool_idx :: int

definition new_part_acc :: part_acc where
  "new_part_acc =
     \<lparr>pa_kind = no_kind, pa_opaque = [], pa_text = [], pa_url = [], pa_extra = new_extra_acc\<rparr>"

definition new_call_acc :: call_acc where
  "new_call_acc =
     \<lparr>ca_id = [], ca_wire_type = [], ca_name = [], ca_args = [], ca_extra = new_extra_acc\<rparr>"

definition new_assembly_state :: "model_ref \<Rightarrow> assembly_state" where
  "new_assembly_state source =
     \<lparr>st_source = source, st_refusal = [], st_role = [], st_finish_reason = [], st_conflict = Text [],
      st_established = False, st_usage = None, st_msg_extra = new_extra_acc, st_content = [],
      st_content_order = [], st_tool_deltas = [], st_tool_ids = [], st_next_tool_idx = 0,
      st_last_tool_idx = -1\<rparr>"

definition note_conflict :: "detail \<Rightarrow> assembly_state \<Rightarrow> assembly_state" where
  "note_conflict d st = (if no_detail (st_conflict st) then st\<lparr>st_conflict := d\<rparr> else st)"

section \<open>Content\<close>

definition known_part_kind :: "part_kind \<Rightarrow> bool" where
  "known_part_kind k \<longleftrightarrow> k \<in> {PartText, PartImageURL, PartOpaque}"

text \<open>\<open>partAt\<close>: the accumulator of a position, created on first use.\<close>

definition part_at :: "int \<Rightarrow> assembly_state \<Rightarrow> assembly_state \<times> part_acc" where
  "part_at pos st =
     (case map_of (st_content st) pos of
        Some acc \<Rightarrow> (st, acc)
      | None \<Rightarrow>
          (st\<lparr>st_content := AList.update pos new_part_acc (st_content st),
              st_content_order := st_content_order st @ [pos]\<rparr>, new_part_acc))"

definition put_part :: "int \<Rightarrow> part_acc \<Rightarrow> assembly_state \<Rightarrow> assembly_state" where
  "put_part pos acc st = st\<lparr>st_content := AList.update pos acc (st_content st)\<rparr>"

definition add_part_extra :: "extra \<Rightarrow> part_acc \<Rightarrow> part_acc" where
  "add_part_extra e acc = acc\<lparr>pa_extra := acc_add_all e (pa_extra acc)\<rparr>"

definition apply_content :: "content_fragment \<Rightarrow> assembly_state \<Rightarrow> assembly_state" where
  "apply_content f st =
     (let pos = cf_position f; (st1, acc) = part_at pos st
      in if \<not> known_part_kind (cf_kind f) \<or> (pa_kind acc \<noteq> no_kind \<and> pa_kind acc \<noteq> cf_kind f)
         then note_conflict (ConflictingKinds pos) st1
         else (let acc1 = (if pa_kind acc = no_kind then acc\<lparr>pa_kind := cf_kind f\<rparr> else acc)
               in case cf_kind f of
                    PartText \<Rightarrow>
                      put_part pos (add_part_extra (cf_extra f)
                        (acc1\<lparr>pa_text := pa_text acc1 @ cf_text f\<rparr>)) st1
                  | PartImageURL \<Rightarrow>
                      (let acc2 = (if pa_url acc1 = [] then acc1\<lparr>pa_url := cf_url f\<rparr> else acc1);
                           st2 = (if pa_url acc1 \<noteq> [] \<and> cf_url f \<noteq> [] \<and> pa_url acc1 \<noteq> cf_url f
                                  then note_conflict (ConflictingURLs pos) st1 else st1)
                       in put_part pos (add_part_extra (cf_extra f) acc2) st2)
                  | PartOpaque \<Rightarrow>
                      (if cf_opaque f \<noteq> [] \<and> pa_opaque acc1 \<noteq> [] \<and> pa_opaque acc1 \<noteq> cf_opaque f
                       then note_conflict (ConflictingOpaque pos) (put_part pos acc1 st1)
                       else put_part pos (add_part_extra (cf_extra f)
                         (if cf_opaque f \<noteq> [] \<and> pa_opaque acc1 = []
                          then acc1\<lparr>pa_opaque := cf_opaque f\<rparr> else acc1)) st1)
                  | OtherKind _ \<Rightarrow> st1))"

definition part_non_empty :: "part_acc \<Rightarrow> bool" where
  "part_non_empty p \<longleftrightarrow>
     pa_text p \<noteq> [] \<or> pa_url p \<noteq> [] \<or> pa_opaque p \<noteq> [] \<or> acc_has_values (pa_extra p)"

definition build_part :: "part_acc \<Rightarrow> content_part" where
  "build_part acc =
     \<lparr>part_kind = pa_kind acc, part_text = pa_text acc, part_url = pa_url acc,
      part_opaque = pa_opaque acc, part_extra = acc_finalize (pa_extra acc)\<rparr>"

definition content_at :: "assembly_state \<Rightarrow> int \<Rightarrow> part_acc" where
  "content_at st pos = the (map_of (st_content st) pos)"

definition build_parts :: "assembly_state \<Rightarrow> content_part list" where
  "build_parts st =
     map build_part
       (filter (\<lambda>acc. part_non_empty acc \<and> \<not> (pa_kind acc = PartOpaque \<and> pa_opaque acc = []))
         (map (content_at st) (sort (st_content_order st))))"

definition has_payload :: "assembly_state \<Rightarrow> bool" where
  "has_payload st =
     (if st_refusal st \<noteq> [] then True
      else if list_ex (\<lambda>pos. part_non_empty (content_at st pos)) (st_content_order st) then True
      else acc_has_values (st_msg_extra st))"

section \<open>Tool calls\<close>

text \<open>The scan for the lowest unclaimed slot from the cursor on.\<close>

function next_free :: "int list \<Rightarrow> int \<Rightarrow> int" where
  "next_free claimed n = (if n \<in> set claimed then next_free claimed (n + 1) else n)"
  by pat_completeness auto
termination
proof (relation "measure (\<lambda>(claimed, n). card {k \<in> set claimed. n \<le> k})")
  fix claimed :: "int list" and n
  assume "n \<in> set claimed"
  then have "{k \<in> set claimed. n + 1 \<le> k} \<subset> {k \<in> set claimed. n \<le> k}" by force
  then show "((claimed, n + 1), claimed, n) \<in> measure (\<lambda>(claimed, n). card {k \<in> set claimed. n \<le> k})"
    by (simp add: psubset_card_mono)
qed simp

declare next_free.simps [simp del]

text \<open>The slot an anonymous or identified fragment correlates with, if there is one.\<close>

definition correlated_slot :: "nat \<Rightarrow> tool_call_fragment \<Rightarrow> assembly_state \<Rightarrow> int option" where
  "correlated_slot event_count frag st =
     (let last_idx = (if 0 \<le> st_last_tool_idx st then Some (st_last_tool_idx st) else None)
      in if tf_id frag = [] \<and> tf_name frag = [] then
           (if event_count = 1 \<and> 0 \<le> st_last_tool_idx st then Some (st_last_tool_idx st)
            else case tf_position frag of
                Some pos \<Rightarrow> if map_of (st_tool_deltas st) pos \<noteq> None then Some pos else last_idx
              | None \<Rightarrow> last_idx)
         else case tf_position frag of
             Some pos \<Rightarrow>
               (case map_of (st_tool_deltas st) pos of
                  None \<Rightarrow> Some pos
                | Some existing \<Rightarrow>
                    if ca_id existing = [] \<or> (tf_id frag \<noteq> [] \<and> ca_id existing = tf_id frag)
                    then Some pos else None)
           | None \<Rightarrow>
               if tf_id frag \<noteq> [] then map_of (st_tool_ids st) (tf_id frag) else None)"

definition correlate_tool_fragment ::
  "nat \<Rightarrow> tool_call_fragment \<Rightarrow> assembly_state \<Rightarrow> assembly_state \<times> int" where
  "correlate_tool_fragment event_count frag st =
     (let (st1, idx) =
        (case correlated_slot event_count frag st of
           Some idx \<Rightarrow> (st, idx)
         | None \<Rightarrow>
             (let idx = next_free (map fst (st_tool_deltas st)) (st_next_tool_idx st)
              in (st\<lparr>st_next_tool_idx := idx + 1\<rparr>, idx)))
      in (if map_of (st_tool_deltas st1) idx = None
          then st1\<lparr>st_tool_deltas := AList.update idx new_call_acc (st_tool_deltas st1)\<rparr>
          else st1, idx))"

definition note_call_id :: "string \<Rightarrow> int \<Rightarrow> assembly_state \<Rightarrow> assembly_state" where
  "note_call_id cid idx st =
     (if cid = [] then st
      else case map_of (st_tool_ids st) cid of
          Some prev \<Rightarrow> if prev \<noteq> idx then note_conflict (ConflictingCallId cid) st else st
        | None \<Rightarrow> st\<lparr>st_tool_ids := AList.update cid idx (st_tool_ids st)\<rparr>)"

definition note_wire_type :: "string \<Rightarrow> call_acc \<Rightarrow> assembly_state \<Rightarrow> assembly_state" where
  "note_wire_type wt entry st =
     (if wt = [] then st
      else if ca_wire_type entry = [] then
        (if wt \<noteq> ''function'' then note_conflict (WireTypeNotFunction wt) st else st)
      else if wt \<noteq> ca_wire_type entry then note_conflict (ConflictingWireType wt) st
      else st)"

definition apply_tool_fragment :: "nat \<Rightarrow> tool_call_fragment \<Rightarrow> assembly_state \<Rightarrow> assembly_state" where
  "apply_tool_fragment event_count frag st =
     (let (st1, idx) = correlate_tool_fragment event_count frag st;
          st2 = note_call_id (tf_id frag) idx st1;
          entry = the (map_of (st_tool_deltas st2) idx);
          entry1 = (if tf_id frag \<noteq> [] \<and> ca_id entry = [] then entry\<lparr>ca_id := tf_id frag\<rparr> else entry);
          st3 = note_wire_type (tf_wire_type frag) entry1 st2;
          entry2 = (if tf_wire_type frag \<noteq> [] \<and> ca_wire_type entry1 = []
                    then entry1\<lparr>ca_wire_type := tf_wire_type frag\<rparr> else entry1);
          entry3 = entry2\<lparr>ca_name := ca_name entry2 @ tf_name frag,
                          ca_args := ca_args entry2 @ tf_argument frag,
                          ca_extra := acc_add_all (tf_extra frag) (ca_extra entry2)\<rparr>
      in st3\<lparr>st_tool_deltas := AList.update idx entry3 (st_tool_deltas st3),
             st_last_tool_idx := idx\<rparr>)"

definition apply_tool_event :: "tool_call_fragment list \<Rightarrow> assembly_state \<Rightarrow> assembly_state" where
  "apply_tool_event frags st = fold (apply_tool_fragment (length frags)) frags st"

section \<open>The loop\<close>

definition call_complete :: "call_acc \<Rightarrow> bool" where
  "call_complete entry \<longleftrightarrow> \<not> (ca_id entry = [] \<or> ca_name entry = [])"

definition sorted_slots :: "assembly_state \<Rightarrow> int list" where
  "sorted_slots st = sort (map fst (st_tool_deltas st))"

definition tool_at :: "assembly_state \<Rightarrow> int \<Rightarrow> call_acc" where
  "tool_at st pos = the (map_of (st_tool_deltas st) pos)"

definition first_incomplete_tool_slot :: "assembly_state \<Rightarrow> int option" where
  "first_incomplete_tool_slot st = find (\<lambda>pos. \<not> call_complete (tool_at st pos)) (sorted_slots st)"

definition check_establishment :: "assembly_state \<Rightarrow> assembly_state" where
  "check_establishment st =
     (if st_established st \<or> st_finish_reason st = [] then st
      else if st_finish_reason st = ''stop'' then
        (if st_tool_deltas st = [] \<and> has_payload st then st\<lparr>st_established := True\<rparr> else st)
      else if st_finish_reason st = ''tool_calls'' then
        (if st_tool_deltas st \<noteq> [] \<and> first_incomplete_tool_slot st = None
         then st\<lparr>st_established := True\<rparr> else st)
      else st)"

definition note_role :: "string \<Rightarrow> assembly_state \<Rightarrow> assembly_state" where
  "note_role r st =
     (if st_role st = [] then st\<lparr>st_role := r\<rparr>
      else if r \<noteq> st_role st then note_conflict (ConflictingRoles (st_role st) r) st
      else st)"

definition note_finish :: "string \<Rightarrow> assembly_state \<Rightarrow> assembly_state" where
  "note_finish fr st =
     (if fr = [] then st
      else if st_finish_reason st = [] then st\<lparr>st_finish_reason := fr\<rparr>
      else if fr \<noteq> st_finish_reason st then note_conflict (ConflictingFinish (st_finish_reason st) fr) st
      else st)"

definition apply_delta :: "stream_delta \<Rightarrow> assembly_state \<Rightarrow> assembly_state" where
  "apply_delta d st =
     (let st1 = (case d_usage d of Some u \<Rightarrow> st\<lparr>st_usage := Some u\<rparr> | None \<Rightarrow> st)
      in if \<not> has_choice d then st1
         else (let st2 = (if d_role d \<noteq> [] then note_role (d_role d) st1 else st1);
                   st3 = note_finish (d_finish_reason d) st2;
                   st4 = st3\<lparr>st_refusal := st_refusal st3 @ d_refusal d\<rparr>;
                   st5 = st4\<lparr>st_msg_extra := acc_add_all (d_extra d) (st_msg_extra st4)\<rparr>;
                   st6 = fold apply_content (d_content d) st5;
                   st7 = (if d_tools d \<noteq> [] then apply_tool_event (d_tools d) st6 else st6)
               in check_establishment st7))"

definition receive :: "stream_delta \<Rightarrow> assembly_state \<Rightarrow> assembly_state" where
  "receive delta st =
     (case new_stream_delta delta of
        Inl e \<Rightarrow> note_conflict (DeltaRejected e) st
      | Inr owned \<Rightarrow> apply_delta owned st)"

section \<open>Finalization\<close>

definition build_calls :: "assembly_state \<Rightarrow> tool_call list" where
  "build_calls st =
     map (\<lambda>entry. \<lparr>call_id = ca_id entry, call_name = ca_name entry, call_arguments = ca_args entry,
                   call_extra = acc_finalize (ca_extra entry)\<rparr>)
       (filter call_complete (map (tool_at st) (sorted_slots st)))"

definition complete_call_count :: "assembly_state \<Rightarrow> nat" where
  "complete_call_count st = length (filter (\<lambda>(_, entry). call_complete entry) (st_tool_deltas st))"

definition assemble_message :: "bool \<Rightarrow> assembly_state \<Rightarrow> message" where
  "assemble_message include_calls st =
     \<lparr>msg_role = RoleAssistant, msg_content = build_parts st, msg_refusal = st_refusal st,
      msg_tool_calls = (if include_calls then build_calls st else []), msg_tool_call_id = [],
      msg_name = [], msg_extra = acc_finalize (st_msg_extra st), msg_source = st_source st\<rparr>"

definition finish_state_verdict :: "assembly_state \<Rightarrow> detail option" where
  "finish_state_verdict st =
     (let calls = complete_call_count st; fr = st_finish_reason st
      in if fr = [] then
           (if 0 < calls \<or> has_payload st then None
            else Some (Text ''empty response: no eligible content, refusal or tool calls''))
         else if fr = ''stop'' then
           (if calls = 0 \<and> has_payload st then None
            else if 0 < calls
            then Some (Text ''finish reason stop with present tool calls is a payload mismatch'')
            else Some (Text ''finish reason stop requires payload through content, refusal or finalized message extras''))
         else if fr = ''tool_calls'' then
           (if 0 < calls then None
            else Some (Text ''finish reason tool_calls requires one or more valid tool calls''))
         else Some (UnsupportedFinish fr))"

definition completed_output :: "assembly_state \<Rightarrow> model_output option" where
  "completed_output st =
     (case new_output \<lparr>out_status = OutputCompleted, out_source = st_source st,
          out_message = Some (assemble_message True st), out_usage = st_usage st, out_detail = Text []\<rparr> of
        Inl _ \<Rightarrow> None
      | Inr out \<Rightarrow> Some out)"

definition non_completed_output :: "output_status \<Rightarrow> detail \<Rightarrow> assembly_state \<Rightarrow> model_output option" where
  "non_completed_output status d st =
     (let msg = assemble_message False st
      in case new_output \<lparr>out_status = status, out_source = st_source st,
          out_message = (if has_assistant_content (Some msg) then Some msg else None),
          out_usage = st_usage st, out_detail = d\<rparr> of
        Inl _ \<Rightarrow> None
      | Inr out \<Rightarrow> Some out)"

definition pin_incomplete_opaque :: "assembly_state \<Rightarrow> assembly_state" where
  "pin_incomplete_opaque st =
     (case find (\<lambda>pos. pa_kind (content_at st pos) = PartOpaque \<and> pa_opaque (content_at st pos) = [])
         (st_content_order st) of
        Some pos \<Rightarrow> note_conflict (IncompleteOpaque pos) st
      | None \<Rightarrow> st)"

definition pin_incomplete_tool_call :: "assembly_state \<Rightarrow> assembly_state" where
  "pin_incomplete_tool_call st =
     (case first_incomplete_tool_slot st of
        Some pos \<Rightarrow> note_conflict (IncompleteCall pos) st
      | None \<Rightarrow> st)"

definition clean_termination :: "assembly_state \<Rightarrow> model_output option" where
  "clean_termination st =
     (case finish_state_verdict st of
        None \<Rightarrow> completed_output st
      | Some d \<Rightarrow> non_completed_output OutputErrored d st)"

definition finalize :: "string option \<Rightarrow> string option \<Rightarrow> assembly_state \<Rightarrow> model_output option" where
  "finalize ctx_err read_err st =
     (let st1 = (if st_role st \<noteq> [] \<and> st_role st \<noteq> ''assistant''
                 then note_conflict (RoleNotAssistant (st_role st)) st else st);
          st2 = pin_incomplete_opaque st1
      in if no_detail (st_conflict st2) \<and> read_err \<noteq> None \<and> \<not> st_established st2 \<and> ctx_err \<noteq> None
         then non_completed_output OutputInterrupted (StreamInterrupted (the ctx_err)) st2
         else (let st3 = pin_incomplete_tool_call st2
               in if \<not> no_detail (st_conflict st3)
                  then non_completed_output OutputErrored (st_conflict st3) st3
                  else case read_err of
                      Some e \<Rightarrow>
                        (if \<not> st_established st3
                         then non_completed_output OutputErrored (StreamReadFailed e) st3
                         else case finish_state_verdict st3 of
                             Some d \<Rightarrow> non_completed_output OutputErrored d st3
                           | None \<Rightarrow> completed_output st3)
                    | None \<Rightarrow> clean_termination st3))"

text \<open>\<open>Assemble\<close> on a valid invocation: \<open>Inl\<close> is the rejection, \<open>Inr None\<close> a panic.\<close>

definition assemble ::
  "model_ref \<Rightarrow> stream_delta list \<Rightarrow> string option \<Rightarrow> string option \<Rightarrow> unit + model_output option" where
  "assemble source deltas read_err ctx_err =
     (if \<not> ref_complete source then Inl ()
      else Inr (finalize ctx_err read_err (fold receive deltas (new_assembly_state source))))"

end
