(* ===== verification/Assembly_Safe.thy ===== *)
theory Assembly_Safe
  imports Assembly
begin

text \<open>
  Correctness of the stream assembler: an invariant that every received delta keeps, from which
  follow that the output constructor never rejects what the finalizer builds (its panics are
  unreachable), that a completed output repeats no call id, and that a read error after completion
  was established changes nothing. Then what the assembler computes on text and tool-call streams.
\<close>

declare map_of_eq_Some_iff [simp del] Some_eq_map_of_iff [simp del]

lemma no_detail_simps [simp]:
  "no_detail (Text s) \<longleftrightarrow> s = []" "\<not> no_detail (ConflictingKinds i)" "\<not> no_detail (ConflictingURLs i)"
  "\<not> no_detail (ConflictingOpaque i)" "\<not> no_detail (ConflictingCallId s)"
  "\<not> no_detail (WireTypeNotFunction s)" "\<not> no_detail (ConflictingWireType s)"
  "\<not> no_detail (ConflictingFinish s t)" "\<not> no_detail (ConflictingRoles s t)"
  "\<not> no_detail (DeltaRejected e)" "\<not> no_detail (RoleNotAssistant s)" "\<not> no_detail (IncompleteOpaque i)"
  "\<not> no_detail (IncompleteCall i)" "\<not> no_detail (StreamReadFailed s)"
  "\<not> no_detail (StreamInterrupted s)" "\<not> no_detail (UnsupportedFinish s)"
  by (simp_all add: no_detail_def)

section \<open>The invariant\<close>

definition part_inv :: "part_acc \<Rightarrow> bool" where
  "part_inv acc \<longleftrightarrow> acc_inv (pa_extra acc) \<and>
     (case pa_kind acc of
        PartText \<Rightarrow> pa_url acc = [] \<and> pa_opaque acc = []
      | PartImageURL \<Rightarrow> pa_text acc = [] \<and> pa_opaque acc = []
      | PartOpaque \<Rightarrow> pa_text acc = [] \<and> pa_url acc = []
      | OtherKind k \<Rightarrow> acc = new_part_acc)"

definition content_inv :: "assembly_state \<Rightarrow> bool" where
  "content_inv st \<longleftrightarrow>
     set (st_content_order st) = dom (map_of (st_content st))
     \<and> (\<forall>pos acc. map_of (st_content st) pos = Some acc \<longrightarrow> part_inv acc)"

definition tools_inv :: "assembly_state \<Rightarrow> bool" where
  "tools_inv st \<longleftrightarrow>
     distinct (map fst (st_tool_deltas st))
     \<and> (\<forall>pos entry. map_of (st_tool_deltas st) pos = Some entry \<longrightarrow> acc_inv (ca_extra entry))
     \<and> (no_detail (st_conflict st) \<longrightarrow>
          (\<forall>pos entry. map_of (st_tool_deltas st) pos = Some entry \<longrightarrow> ca_id entry \<noteq> [] \<longrightarrow>
             map_of (st_tool_ids st) (ca_id entry) = Some pos))"

definition assembly_inv :: "model_ref \<Rightarrow> assembly_state \<Rightarrow> bool" where
  "assembly_inv source st \<longleftrightarrow>
     st_source st = source \<and> ref_complete source \<and> acc_inv (st_msg_extra st)
     \<and> content_inv st \<and> tools_inv st"

lemmas inv_defs = assembly_inv_def content_inv_def tools_inv_def

lemma part_inv_new: "part_inv new_part_acc"
  by (simp add: part_inv_def new_part_acc_def no_kind_def acc_inv_fresh)

lemma inv_new: "ref_complete source \<Longrightarrow> assembly_inv source (new_assembly_state source)"
  by (simp add: inv_defs new_assembly_state_def acc_inv_fresh)

text \<open>Recording a conflict keeps the invariant, and afterwards there is one.\<close>

lemma note_conflict_simps [simp]:
  "st_source (note_conflict d st) = st_source st" "st_refusal (note_conflict d st) = st_refusal st"
  "st_role (note_conflict d st) = st_role st"
  "st_finish_reason (note_conflict d st) = st_finish_reason st"
  "st_established (note_conflict d st) = st_established st" "st_usage (note_conflict d st) = st_usage st"
  "st_msg_extra (note_conflict d st) = st_msg_extra st" "st_content (note_conflict d st) = st_content st"
  "st_content_order (note_conflict d st) = st_content_order st"
  "st_tool_deltas (note_conflict d st) = st_tool_deltas st"
  "st_tool_ids (note_conflict d st) = st_tool_ids st"
  "st_next_tool_idx (note_conflict d st) = st_next_tool_idx st"
  "st_last_tool_idx (note_conflict d st) = st_last_tool_idx st"
  by (simp_all add: note_conflict_def)

lemma note_conflict_some: "\<not> no_detail d \<Longrightarrow> \<not> no_detail (st_conflict (note_conflict d st))"
  by (simp add: note_conflict_def)

lemma note_conflict_keeps: "no_detail (st_conflict (note_conflict d st)) \<Longrightarrow> no_detail (st_conflict st)"
  by (auto simp: note_conflict_def split: if_splits)

lemma inv_fields [simp]:
  "assembly_inv source (st\<lparr>st_role := r\<rparr>) = assembly_inv source st"
  "assembly_inv source (st\<lparr>st_finish_reason := r\<rparr>) = assembly_inv source st"
  "assembly_inv source (st\<lparr>st_usage := u\<rparr>) = assembly_inv source st"
  "assembly_inv source (st\<lparr>st_established := b\<rparr>) = assembly_inv source st"
  by (simp_all add: inv_defs)

lemma inv_note: "assembly_inv source st \<Longrightarrow> assembly_inv source (note_conflict d st)"
  by (auto simp: inv_defs dest: note_conflict_keeps)

section \<open>Content keeps it\<close>

lemma inv_update_content:
  assumes "assembly_inv source st" "part_inv acc" "pos \<in> set (st_content_order st)"
  shows "assembly_inv source (put_part pos acc st)"
  using assms by (auto simp: inv_defs put_part_def update_conv')

lemma inv_part_at:
  assumes "assembly_inv source st" "part_at pos st = (st', acc)"
  shows "assembly_inv source st' \<and> part_inv acc \<and> pos \<in> set (st_content_order st')"
proof (cases "map_of (st_content st) pos")
  case None
  with assms show ?thesis
    by (auto simp: part_at_def inv_defs update_conv' part_inv_new split: if_splits)
next
  case (Some a)
  with assms show ?thesis by (auto simp: part_at_def inv_defs)
qed

lemma part_inv_extra: "part_inv acc \<Longrightarrow> pa_kind acc \<noteq> no_kind \<Longrightarrow> extra_ok e \<Longrightarrow> part_inv (add_part_extra e acc)"
  by (auto simp: part_inv_def add_part_extra_def acc_inv_add_all new_part_acc_def split: part_kind.splits)

lemma content_fragment_extra: "validate_content_fragment f = Inr u \<Longrightarrow> extra_ok (cf_extra f) \<and> known_part_kind (cf_kind f)"
  by (auto simp: validate_content_fragment_def res_simps known_part_kind_def split: part_kind.splits)

lemma inv_apply_content:
  assumes "assembly_inv source st" "extra_ok (cf_extra f)"
  shows "assembly_inv source (apply_content f st)"
proof -
  obtain st1 acc where at: "part_at (cf_position f) st = (st1, acc)" by fastforce
  have inv: "assembly_inv source st1" "part_inv acc" "cf_position f \<in> set (st_content_order st1)"
    using inv_part_at [OF assms(1) at] by blast+
  define acc1 where "acc1 = (if pa_kind acc = no_kind then acc\<lparr>pa_kind := cf_kind f\<rparr> else acc)"
  show ?thesis
  proof (cases "\<not> known_part_kind (cf_kind f) \<or> (pa_kind acc \<noteq> no_kind \<and> pa_kind acc \<noteq> cf_kind f)")
    case True
    then show ?thesis using at inv(1) by (simp add: apply_content_def Let_def inv_note)
  next
    case False
    then have kind: "pa_kind acc1 = cf_kind f" "pa_kind acc1 \<noteq> no_kind"
      by (auto simp: acc1_def known_part_kind_def no_kind_def)
    have acc1: "part_inv acc1"
      using inv(2) False
      by (auto simp: acc1_def part_inv_def new_part_acc_def known_part_kind_def no_kind_def
          split: part_kind.splits)
    have put: "assembly_inv source (put_part (cf_position f) a st1)"
      "assembly_inv source (put_part (cf_position f) a (note_conflict d st1))"
      if "part_inv a" for a d
      using that inv inv_update_content inv_note by auto
    have step: "apply_content f st =
       (case cf_kind f of
          PartText \<Rightarrow>
            put_part (cf_position f) (add_part_extra (cf_extra f) (acc1\<lparr>pa_text := pa_text acc1 @ cf_text f\<rparr>)) st1
        | PartImageURL \<Rightarrow>
            put_part (cf_position f) (add_part_extra (cf_extra f)
                (if pa_url acc1 = [] then acc1\<lparr>pa_url := cf_url f\<rparr> else acc1))
              (if pa_url acc1 \<noteq> [] \<and> cf_url f \<noteq> [] \<and> pa_url acc1 \<noteq> cf_url f
               then note_conflict (ConflictingURLs (cf_position f)) st1 else st1)
        | PartOpaque \<Rightarrow>
            (if cf_opaque f \<noteq> [] \<and> pa_opaque acc1 \<noteq> [] \<and> pa_opaque acc1 \<noteq> cf_opaque f
             then note_conflict (ConflictingOpaque (cf_position f)) (put_part (cf_position f) acc1 st1)
             else put_part (cf_position f) (add_part_extra (cf_extra f)
                (if cf_opaque f \<noteq> [] \<and> pa_opaque acc1 = []
                 then acc1\<lparr>pa_opaque := cf_opaque f\<rparr> else acc1)) st1)
        | OtherKind _ \<Rightarrow> st1)"
      unfolding apply_content_def Let_def at prod.case acc1_def if_not_P [OF False] ..
    show ?thesis
    proof (cases "cf_kind f")
      case PartText
      have "part_inv (acc1\<lparr>pa_text := pa_text acc1 @ cf_text f\<rparr>)"
        using acc1 kind PartText by (simp add: part_inv_def)
      then show ?thesis
        using kind PartText assms(2) put unfolding step by (simp add: part_inv_extra)
    next
      case PartImageURL
      have "part_inv (if pa_url acc1 = [] then acc1\<lparr>pa_url := cf_url f\<rparr> else acc1)"
        using acc1 kind PartImageURL by (simp add: part_inv_def)
      then have "part_inv (add_part_extra (cf_extra f) (if pa_url acc1 = [] then acc1\<lparr>pa_url := cf_url f\<rparr> else acc1))"
        using kind assms(2) by (intro part_inv_extra) auto
      then show ?thesis
        unfolding step PartImageURL part_kind.case by (cases "pa_url acc1 \<noteq> [] \<and> cf_url f \<noteq> [] \<and> pa_url acc1 \<noteq> cf_url f")
          (simp_all only: if_True if_False not_False_eq_True simp_thms put)
    next
      case PartOpaque
      have "part_inv (if cf_opaque f \<noteq> [] \<and> pa_opaque acc1 = [] then acc1\<lparr>pa_opaque := cf_opaque f\<rparr> else acc1)"
        using acc1 kind PartOpaque by (simp add: part_inv_def)
      then have "part_inv (add_part_extra (cf_extra f)
          (if cf_opaque f \<noteq> [] \<and> pa_opaque acc1 = [] then acc1\<lparr>pa_opaque := cf_opaque f\<rparr> else acc1))"
        using kind assms(2) by (intro part_inv_extra) auto
      then show ?thesis
        using PartOpaque put acc1 inv_note unfolding step
        by (simp split del: if_split) (simp split: if_split)
    next
      case (OtherKind k)
      then show ?thesis using False by (simp add: known_part_kind_def)
    qed
  qed
qed

lemma inv_fold_content:
  "assembly_inv source st \<Longrightarrow> list_all (\<lambda>f. extra_ok (cf_extra f)) fs \<Longrightarrow>
     assembly_inv source (fold apply_content fs st)"
  by (induction fs arbitrary: st) (auto intro: inv_apply_content)

section \<open>Tool calls keep it\<close>

lemma inv_new_slot:
  assumes "assembly_inv source st" "map_of (st_tool_deltas st) idx = None"
  shows "assembly_inv source (st\<lparr>st_tool_deltas := AList.update idx new_call_acc (st_tool_deltas st)\<rparr>)"
  using assms by (auto simp: inv_defs update_conv' distinct_update new_call_acc_def acc_inv_fresh)

lemma inv_cursor: "assembly_inv source st \<Longrightarrow> assembly_inv source (st\<lparr>st_next_tool_idx := i\<rparr>)"
  by (simp add: inv_defs)

lemma inv_correlate:
  assumes "assembly_inv source st" "correlate_tool_fragment n frag st = (st', idx)"
  shows "assembly_inv source st' \<and> map_of (st_tool_deltas st') idx \<noteq> None \<and> st_conflict st' = st_conflict st"
proof -
  define st1 where "st1 = (if correlated_slot n frag st = None then st\<lparr>st_next_tool_idx := idx + 1\<rparr> else st)"
  have st1: "assembly_inv source st1" "st_conflict st1 = st_conflict st"
    using assms(1) inv_cursor by (auto simp: st1_def)
  have st': "st' = (if map_of (st_tool_deltas st1) idx = None
      then st1\<lparr>st_tool_deltas := AList.update idx new_call_acc (st_tool_deltas st1)\<rparr> else st1)"
    using assms(2)
    by (cases "correlated_slot n frag st") (auto simp: correlate_tool_fragment_def Let_def st1_def split: if_splits)
  from st1 inv_new_slot [OF st1(1), of idx] show ?thesis
    unfolding st' by (auto simp: update_conv')
qed

lemma inv_call_id:
  assumes "assembly_inv source st"
  shows "assembly_inv source (note_call_id cid idx st)"
proof (cases "cid = [] \<or> map_of (st_tool_ids st) cid \<noteq> None")
  case True
  with assms inv_note show ?thesis by (auto simp: note_call_id_def)
next
  case False
  with assms show ?thesis by (auto simp: note_call_id_def inv_defs update_conv')
qed

lemma call_id_recorded:
  "no_detail (st_conflict (note_call_id cid idx st)) \<Longrightarrow> cid \<noteq> [] \<Longrightarrow>
     map_of (st_tool_ids (note_call_id cid idx st)) cid = Some idx"
  using note_conflict_some [of "ConflictingCallId cid" st]
  by (auto simp: note_call_id_def update_conv' split: option.splits if_splits)

lemma note_call_id_deltas [simp]: "st_tool_deltas (note_call_id cid idx st) = st_tool_deltas st"
  by (auto simp: note_call_id_def split: option.splits)

lemma inv_wire_type: "assembly_inv source st \<Longrightarrow> assembly_inv source (note_wire_type wt entry st)"
  by (auto simp: note_wire_type_def inv_note)

lemma note_wire_type_simps [simp]:
  "st_tool_deltas (note_wire_type wt entry st) = st_tool_deltas st"
  "st_tool_ids (note_wire_type wt entry st) = st_tool_ids st"
  by (auto simp: note_wire_type_def)

lemma wire_type_keeps: "no_detail (st_conflict (note_wire_type wt entry st)) \<Longrightarrow> no_detail (st_conflict st)"
  by (auto simp: note_wire_type_def split: if_splits dest: note_conflict_keeps)

lemma inv_put_call:
  assumes "assembly_inv source st" "acc_inv (ca_extra entry)" "map_of (st_tool_deltas st) idx \<noteq> None"
    and "no_detail (st_conflict st) \<Longrightarrow> ca_id entry \<noteq> [] \<Longrightarrow> map_of (st_tool_ids st) (ca_id entry) = Some idx"
  shows "assembly_inv source
     (st\<lparr>st_tool_deltas := AList.update idx entry (st_tool_deltas st), st_last_tool_idx := idx\<rparr>)"
  using assms by (auto simp: inv_defs update_conv' distinct_update)

lemma inv_tool_fragment:
  assumes "assembly_inv source st" "extra_ok (tf_extra frag)"
  shows "assembly_inv source (apply_tool_fragment n frag st)"
proof -
  obtain st1 idx where cor: "correlate_tool_fragment n frag st = (st1, idx)" by fastforce
  note st1 = inv_correlate [OF assms(1) cor]
  define st2 where "st2 = note_call_id (tf_id frag) idx st1"
  have inv2: "assembly_inv source st2" unfolding st2_def using st1 inv_call_id by blast
  have deltas: "st_tool_deltas st2 = st_tool_deltas st1" by (simp add: st2_def)
  then obtain entry where entry: "map_of (st_tool_deltas st2) idx = Some entry" using st1 by auto
  define entry1 where "entry1 = (if tf_id frag \<noteq> [] \<and> ca_id entry = [] then entry\<lparr>ca_id := tf_id frag\<rparr> else entry)"
  define st3 where "st3 = note_wire_type (tf_wire_type frag) entry1 st2"
  have inv3: "assembly_inv source st3" unfolding st3_def using inv2 inv_wire_type by blast
  define entry2 where "entry2 = (if tf_wire_type frag \<noteq> [] \<and> ca_wire_type entry1 = []
      then entry1\<lparr>ca_wire_type := tf_wire_type frag\<rparr> else entry1)"
  define entry3 where "entry3 = entry2\<lparr>ca_name := ca_name entry2 @ tf_name frag,
      ca_args := ca_args entry2 @ tf_argument frag, ca_extra := acc_add_all (tf_extra frag) (ca_extra entry2)\<rparr>"
  have res: "apply_tool_fragment n frag st =
      st3\<lparr>st_tool_deltas := AList.update idx entry3 (st_tool_deltas st3), st_last_tool_idx := idx\<rparr>"
    by (simp only: apply_tool_fragment_def Let_def cor prod.case st2_def [symmetric] entry option.sel
        entry1_def [symmetric] st3_def [symmetric] entry2_def [symmetric] entry3_def [symmetric])
  have "acc_inv (ca_extra entry)" using inv2 entry by (auto simp: inv_defs)
  then have extra: "acc_inv (ca_extra entry3)"
    using assms(2) by (simp add: entry3_def entry2_def entry1_def acc_inv_add_all)
  have id3: "ca_id entry3 = (if tf_id frag \<noteq> [] \<and> ca_id entry = [] then tf_id frag else ca_id entry)"
    by (simp add: entry3_def entry2_def entry1_def)
  have ids: "map_of (st_tool_ids st3) (ca_id entry3) = Some idx"
    if "no_detail (st_conflict st3)" "ca_id entry3 \<noteq> []"
  proof (cases "tf_id frag \<noteq> [] \<and> ca_id entry = []")
    case True
    have "no_detail (st_conflict st2)" using that(1) wire_type_keeps unfolding st3_def by blast
    then have "map_of (st_tool_ids st2) (tf_id frag) = Some idx"
      using call_id_recorded True unfolding st2_def by blast
    with True show ?thesis unfolding id3 st3_def by simp
  next
    case False
    with that inv3 entry show ?thesis unfolding id3 by (auto simp: inv_defs st3_def)
  qed
  show ?thesis unfolding res
    by (rule inv_put_call [OF inv3 extra _ ids]) (simp add: st3_def entry)
qed

lemma inv_fold_tools:
  "assembly_inv source st \<Longrightarrow> list_all (\<lambda>f. extra_ok (tf_extra f)) fs \<Longrightarrow>
     assembly_inv source (fold (apply_tool_fragment n) fs st)"
  by (induction fs arbitrary: st) (auto intro: inv_tool_fragment)

section \<open>Every received delta keeps it\<close>

lemma delta_extras:
  assumes "new_stream_delta d = Inr d'"
  shows "d' = d \<and> list_all (\<lambda>f. extra_ok (cf_extra f)) (d_content d)
     \<and> list_all (\<lambda>f. extra_ok (tf_extra f)) (d_tools d) \<and> extra_ok (d_extra d)"
  using assms
  by (auto simp: new_stream_delta_def validate_stream_delta_def res_simps list_all_iff in_set_conv_nth
      dest!: content_fragment_extra)

lemma inv_establish: "assembly_inv source st \<Longrightarrow> assembly_inv source (check_establishment st)"
  by (simp add: check_establishment_def)

lemma inv_note_role: "assembly_inv source st \<Longrightarrow> assembly_inv source (note_role r st)"
  by (simp add: note_role_def inv_note)

lemma inv_note_finish: "assembly_inv source st \<Longrightarrow> assembly_inv source (note_finish r st)"
  by (simp add: note_finish_def inv_note)

lemma inv_receive: "assembly_inv source st \<Longrightarrow> assembly_inv source (receive d st)"
proof (cases "new_stream_delta d")
  case (Inl e)
  assume "assembly_inv source st"
  then show ?thesis using Inl by (simp add: receive_def inv_note)
next
  case (Inr d')
  assume inv: "assembly_inv source st"
  note ex = delta_extras [OF Inr]
  define st1 where "st1 = (case d_usage d of Some u \<Rightarrow> st\<lparr>st_usage := Some u\<rparr> | None \<Rightarrow> st)"
  have inv1: "assembly_inv source st1"
    using inv by (simp add: st1_def split: option.split)
  define st3 where "st3 = note_finish (d_finish_reason d) (if d_role d \<noteq> [] then note_role (d_role d) st1 else st1)"
  have inv3: "assembly_inv source st3"
    using inv1 by (auto simp: st3_def intro!: inv_note_finish inv_note_role)
  define st5 where "st5 = st3\<lparr>st_refusal := st_refusal st3 @ d_refusal d,
      st_msg_extra := acc_add_all (d_extra d) (st_msg_extra st3)\<rparr>"
  have inv5: "assembly_inv source st5"
    using inv3 ex by (auto simp: st5_def inv_defs acc_inv_add_all)
  have "assembly_inv source (fold apply_content (d_content d) st5)"
    using inv5 ex by (intro inv_fold_content) auto
  define st7 where "st7 = (if d_tools d \<noteq> [] then apply_tool_event (d_tools d) (fold apply_content (d_content d) st5)
      else fold apply_content (d_content d) st5)"
  have "assembly_inv source st7"
    using \<open>assembly_inv source (fold apply_content (d_content d) st5)\<close> ex
    by (simp add: st7_def apply_tool_event_def inv_fold_tools)
  moreover have "apply_delta d st = (if \<not> has_choice d then st1 else check_establishment st7)"
    by (simp add: apply_delta_def Let_def st1_def st3_def st5_def st7_def)
  ultimately have "assembly_inv source (apply_delta d st)"
    using inv1 inv_establish by simp
  with ex Inr show ?thesis by (simp add: receive_def)
qed

lemma inv_stream: "assembly_inv source st \<Longrightarrow> assembly_inv source (fold receive ds st)"
  by (induction ds arbitrary: st) (auto intro: inv_receive)

section \<open>The finalizer never builds an output that the constructor rejects\<close>

lemma part_non_empty_payload: "content_part_has_payload (build_part acc) = part_non_empty acc"
  by (simp add: content_part_has_payload_def build_part_def part_non_empty_def
      extra_acc.finalized_has_values)

lemma part_not_new: "\<not> part_non_empty new_part_acc"
  using extra_acc.no_values_fresh by (simp add: part_non_empty_def new_part_acc_def)

lemma build_part_ok:
  assumes "part_inv acc" "part_non_empty acc" "\<not> (pa_kind acc = PartOpaque \<and> pa_opaque acc = [])"
  shows "part_ok (build_part acc)"
proof -
  have "extra_ok (acc_finalize (pa_extra acc))"
    using assms(1) by (auto simp: part_inv_def intro: extra_acc.finalize_valid)
  with assms part_not_new show ?thesis
    by (auto simp: part_ok_def build_part_def part_inv_def split: part_kind.splits)
qed

lemma content_at_inv:
  "assembly_inv source st \<Longrightarrow> pos \<in> set (st_content_order st) \<Longrightarrow> part_inv (content_at st pos)"
  by (auto simp: inv_defs content_at_def)

lemma build_parts_ok: "assembly_inv source st \<Longrightarrow> list_all part_ok (build_parts st)"
  by (auto simp: build_parts_def list_all_iff intro!: build_part_ok content_at_inv)

lemma tool_at_inv:
  "assembly_inv source st \<Longrightarrow> pos \<in> set (sorted_slots st) \<Longrightarrow>
     acc_inv (ca_extra (tool_at st pos)) \<and>
     (no_detail (st_conflict st) \<longrightarrow> ca_id (tool_at st pos) \<noteq> [] \<longrightarrow>
        map_of (st_tool_ids st) (ca_id (tool_at st pos)) = Some pos)"
  by (auto simp: inv_defs tool_at_def sorted_slots_def map_of_eq_None_iff [symmetric]
      simp del: map_of_eq_None_iff split: option.splits)
    (auto simp: map_of_eq_Some_iff)

lemma build_calls_ok: "assembly_inv source st \<Longrightarrow> list_all call_ok (build_calls st)"
  using tool_at_inv [of source st]
  by (auto simp: build_calls_def list_all_iff call_ok_def call_complete_def
      intro: extra_acc.finalize_valid)

lemma message_ok: "assembly_inv source st \<Longrightarrow> assistant_ok source (assemble_message b st)"
  using build_parts_ok [of source st] build_calls_ok [of source st]
  by (auto simp: assistant_ok_def assemble_message_def assembly_inv_def intro: extra_acc.finalize_valid)

lemma map_tool_at:
  assumes "distinct (map fst (st_tool_deltas st))"
  shows "map (tool_at st) (map fst (st_tool_deltas st)) = map snd (st_tool_deltas st)"
proof -
  have "tool_at st (fst p) = snd p" if "p \<in> set (st_tool_deltas st)" for p
    using map_of_is_SomeI [OF assms, of "fst p" "snd p"] that by (simp add: tool_at_def)
  then show ?thesis by simp
qed

lemma call_count:
  assumes "assembly_inv source st"
  shows "complete_call_count st = length (build_calls st)"
proof -
  have d: "distinct (map fst (st_tool_deltas st))" using assms by (simp add: inv_defs)
  have "mset (map (tool_at st) (sorted_slots st)) = image_mset (tool_at st) (mset (map fst (st_tool_deltas st)))"
    unfolding sorted_slots_def mset_map mset_sort ..
  also have "\<dots> = mset (map snd (st_tool_deltas st))"
    unfolding mset_map [symmetric] map_tool_at [OF d] ..
  finally have m: "mset (map (tool_at st) (sorted_slots st)) = mset (map snd (st_tool_deltas st))" .
  have "length (build_calls st) = size (filter_mset call_complete (mset (map (tool_at st) (sorted_slots st))))"
    unfolding build_calls_def length_map mset_filter [symmetric] size_mset ..
  also have "\<dots> = length (filter call_complete (map snd (st_tool_deltas st)))"
    unfolding m mset_filter [symmetric] size_mset ..
  also have "\<dots> = complete_call_count st"
    by (simp add: complete_call_count_def filter_map comp_def case_prod_unfold)
  finally show ?thesis ..
qed

lemma call_slots_inj:
  assumes "assembly_inv source st" "no_detail (st_conflict st)"
    and "i \<in> set (sorted_slots st)" "j \<in> set (sorted_slots st)"
    and "ca_id (tool_at st i) \<noteq> []" "ca_id (tool_at st i) = ca_id (tool_at st j)"
  shows "i = j"
proof -
  have "map_of (st_tool_ids st) (ca_id (tool_at st i)) = Some i"
    using tool_at_inv [OF assms(1,3)] assms(2,5) by blast
  moreover have "map_of (st_tool_ids st) (ca_id (tool_at st i)) = Some j"
    using tool_at_inv [OF assms(1,4)] assms(2,5,6) by metis
  ultimately show ?thesis by simp
qed

lemma calls_distinct:
  assumes "assembly_inv source st" "no_detail (st_conflict st)"
  shows "distinct (map call_id (build_calls st))"
proof -
  let ?slots = "filter (\<lambda>pos. call_complete (tool_at st pos)) (sorted_slots st)"
  have "inj_on (\<lambda>pos. ca_id (tool_at st pos)) (set ?slots)"
    by (rule inj_onI) (auto simp: call_complete_def intro: call_slots_inj [OF assms])
  moreover have "distinct ?slots"
    using assms(1) unfolding sorted_slots_def inv_defs by (intro distinct_filter) simp
  moreover have "map call_id (build_calls st) = map (\<lambda>pos. ca_id (tool_at st pos)) ?slots"
    unfolding build_calls_def filter_map map_map comp_def by simp
  ultimately show ?thesis by (simp only: distinct_map simp_thms)
qed

definition no_incomplete_opaque :: "assembly_state \<Rightarrow> bool" where
  "no_incomplete_opaque st \<longleftrightarrow>
     (\<forall>pos \<in> set (st_content_order st).
        \<not> (pa_kind (content_at st pos) = PartOpaque \<and> pa_opaque (content_at st pos) = []))"

lemma payload_content:
  assumes "has_payload st" "no_incomplete_opaque st"
  shows "has_assistant_content (Some (assemble_message b st))"
proof -
  have "list_ex content_part_has_payload (build_parts st)"
    if "pos \<in> set (st_content_order st)" "part_non_empty (content_at st pos)" for pos
    using that assms(2)
    by (auto simp: list_ex_iff build_parts_def no_incomplete_opaque_def part_non_empty_payload
        intro!: bexI [of _ "build_part (content_at st pos)"])
  with assms(1) show ?thesis
    by (auto simp: has_payload_def assemble_message_def list_ex_iff extra_acc.finalized_has_values
        split: if_splits)
qed

lemma verdict_payload:
  assumes "finish_state_verdict st = None" "assembly_inv source st" "no_incomplete_opaque st"
  shows "has_assistant_payload (Some (assemble_message True st))"
proof -
  have "0 < complete_call_count st \<or> has_payload st"
    using assms(1) by (auto simp: finish_state_verdict_def Let_def split: if_splits)
  then show ?thesis
  proof
    assume "0 < complete_call_count st"
    then have "build_calls st \<noteq> []" using call_count [OF assms(2)] by auto
    then show ?thesis by (simp add: has_assistant_payload_def assemble_message_def)
  next
    assume "has_payload st"
    then show ?thesis using payload_content assms(3) by (simp add: has_assistant_payload_def)
  qed
qed

lemma completed_output_ok:
  assumes "finish_state_verdict st = None" "assembly_inv source st" "no_incomplete_opaque st"
  shows "completed_output st =
     Some \<lparr>out_status = OutputCompleted, out_source = source, out_message = Some (assemble_message True st),
           out_usage = st_usage st, out_detail = Text []\<rparr>"
proof -
  have src: "st_source st = source" "ref_complete source" using assms(2) by (simp_all add: assembly_inv_def)
  let ?out = "\<lparr>out_status = OutputCompleted, out_source = source, out_message = Some (assemble_message True st),
           out_usage = st_usage st, out_detail = Text []\<rparr>"
  have "output_ok ?out"
    using message_ok [OF assms(2)] verdict_payload [OF assms] src by (simp add: output_ok_def)
  then have "new_output ?out = Inr ?out" by (simp add: new_output_ok)
  then show ?thesis by (simp add: completed_output_def src)
qed

lemma non_completed_output_ok:
  assumes "status \<in> {OutputErrored, OutputInterrupted}" "\<not> no_detail d" "assembly_inv source st"
  shows "\<exists>out. non_completed_output status d st = Some out \<and> output_ok out \<and> out_status out = status
     \<and> out_source out = source \<and> out_usage out = st_usage st \<and> out_detail out = d
     \<and> (\<forall>m. out_message out = Some m \<longrightarrow> m = assemble_message False st)"
proof -
  have src: "st_source st = source" "ref_complete source" using assms(3) by (simp_all add: assembly_inv_def)
  define m where "m = assemble_message False st"
  let ?out = "\<lparr>out_status = status, out_source = source,
      out_message = (if has_assistant_content (Some m) then Some m else None),
      out_usage = st_usage st, out_detail = d\<rparr>"
  have "msg_tool_calls m = []" by (simp add: m_def assemble_message_def)
  then have ok: "output_ok ?out"
    using assms(1,2) message_ok [OF assms(3), of False] src
    by (auto simp: output_ok_def m_def [symmetric])
  then have "new_output ?out = Inr ?out" by (simp add: new_output_ok)
  then have "non_completed_output status d st = Some ?out"
    unfolding non_completed_output_def Let_def src m_def [symmetric] by (simp only: sum.case)
  with ok show ?thesis by (intro exI [of _ ?out]) (auto simp: m_def split: if_splits)
qed

text \<open>What a final output is, in one predicate.\<close>

definition final_output :: "model_ref \<Rightarrow> assembly_state \<Rightarrow> model_output \<Rightarrow> bool" where
  "final_output source st out \<longleftrightarrow>
     output_ok out \<and> out_source out = source \<and> out_usage out = st_usage st
     \<and> (case out_message out of None \<Rightarrow> True | Some m \<Rightarrow> distinct (map call_id (msg_tool_calls m)))
     \<and> (out_status out = OutputCompleted \<longrightarrow>
          no_detail (st_conflict st) \<and> out_message out = Some (assemble_message True st))"

lemma final_non_completed:
  assumes "status \<in> {OutputErrored, OutputInterrupted}" "\<not> no_detail d" "assembly_inv source st"
  shows "\<exists>out. non_completed_output status d st = Some out \<and> final_output source st out"
  using non_completed_output_ok [OF assms] assms(1)
  by (force simp: final_output_def assemble_message_def split: option.splits)

lemma pin_opaque_conflict:
  assumes "no_detail (st_conflict (pin_incomplete_opaque st))"
  shows "no_incomplete_opaque st \<and> pin_incomplete_opaque st = st"
proof (cases "find (\<lambda>pos. pa_kind (content_at st pos) = PartOpaque \<and> pa_opaque (content_at st pos) = [])
      (st_content_order st)")
  case None
  then have "pin_incomplete_opaque st = st" by (simp add: pin_incomplete_opaque_def)
  moreover have "no_incomplete_opaque st"
    using None by (simp add: no_incomplete_opaque_def find_None_iff)
  ultimately show ?thesis by blast
next
  case (Some pos)
  with assms show ?thesis by (simp add: pin_incomplete_opaque_def note_conflict_some)
qed

lemma pin_call_conflict:
  "no_detail (st_conflict (pin_incomplete_tool_call st)) \<Longrightarrow> pin_incomplete_tool_call st = st"
  by (auto simp: pin_incomplete_tool_call_def note_conflict_some split: option.splits)

lemma inv_pins:
  "assembly_inv source st \<Longrightarrow> assembly_inv source (pin_incomplete_opaque st)"
  "assembly_inv source st \<Longrightarrow> assembly_inv source (pin_incomplete_tool_call st)"
  by (auto simp: pin_incomplete_opaque_def pin_incomplete_tool_call_def inv_note split: option.splits)

lemma pins_usage [simp]:
  "st_usage (pin_incomplete_opaque st) = st_usage st"
  "st_usage (pin_incomplete_tool_call st) = st_usage st"
  by (auto simp: pin_incomplete_opaque_def pin_incomplete_tool_call_def split: option.splits)

section \<open>The final output\<close>

lemma verdict_detail: "finish_state_verdict st = Some d \<Longrightarrow> \<not> no_detail d"
  by (auto simp: finish_state_verdict_def Let_def split: if_splits)

text \<open>The last step of every path without a conflict.\<close>

definition conclude :: "assembly_state \<Rightarrow> model_output option" where
  "conclude st =
     (case finish_state_verdict st of
        None \<Rightarrow> completed_output st
      | Some d \<Rightarrow> non_completed_output OutputErrored d st)"

lemma conclude_final:
  assumes "assembly_inv source st" "no_incomplete_opaque st" "no_detail (st_conflict st)"
  shows "\<exists>out. conclude st = Some out \<and> final_output source st out"
proof (cases "finish_state_verdict st")
  case None
  have "st_source st = source" "ref_complete source" using assms(1) by (simp_all add: assembly_inv_def)
  with None show ?thesis
    using completed_output_ok [OF None assms(1,2)] calls_distinct [OF assms(1,3)] assms(3)
      message_ok [OF assms(1)] verdict_payload [OF None assms(1,2)]
    by (simp add: conclude_def final_output_def output_ok_def) (simp add: assemble_message_def)
next
  case (Some d)
  then show ?thesis
    using final_non_completed [OF _ verdict_detail [OF Some] assms(1), of OutputErrored]
    by (simp add: conclude_def)
qed

lemma finalize_cases:
  fixes st ctx_err read_err
  defines "st1 \<equiv> if st_role st \<noteq> [] \<and> st_role st \<noteq> ''assistant''
                 then note_conflict (RoleNotAssistant (st_role st)) st else st"
  defines "st2 \<equiv> pin_incomplete_opaque st1"
  defines "st3 \<equiv> pin_incomplete_tool_call st2"
  shows "finalize ctx_err read_err st =
     (if no_detail (st_conflict st2) \<and> read_err \<noteq> None \<and> \<not> st_established st2 \<and> ctx_err \<noteq> None
      then non_completed_output OutputInterrupted (StreamInterrupted (the ctx_err)) st2
      else if \<not> no_detail (st_conflict st3) then non_completed_output OutputErrored (st_conflict st3) st3
      else if read_err \<noteq> None \<and> \<not> st_established st3
      then non_completed_output OutputErrored (StreamReadFailed (the read_err)) st3
      else conclude st3)"
  unfolding finalize_def Let_def st1_def [symmetric] st2_def [symmetric] st3_def [symmetric]
  by (cases read_err; cases ctx_err) (simp_all add: conclude_def clean_termination_def)

lemma assemble_no_calls: "msg_tool_calls (assemble_message False st) = []"
  by (simp add: assemble_message_def)

lemma final_errored:
  assumes "status \<in> {OutputErrored, OutputInterrupted}" "\<not> no_detail d" "assembly_inv source st'"
    and "st_usage st' = st_usage st"
  shows "\<exists>out. non_completed_output status d st' = Some out \<and> final_output source st out"
proof -
  obtain out where out: "non_completed_output status d st' = Some out" "output_ok out" "out_status out = status"
    "out_source out = source" "out_usage out = st_usage st'"
    "\<forall>m. out_message out = Some m \<longrightarrow> m = assemble_message False st'"
    using non_completed_output_ok [OF assms(1,2,3)] by blast
  have "case out_message out of None \<Rightarrow> True | Some m \<Rightarrow> distinct (map call_id (msg_tool_calls m))"
    using out(6) assemble_no_calls by (auto split: option.split)
  moreover have "out_status out \<noteq> OutputCompleted" using out(3) assms(1) by auto
  ultimately have "final_output source st out"
    using out assms(4) by (simp add: final_output_def)
  with out(1) show ?thesis by blast
qed

lemma finalize_final:
  assumes "assembly_inv source st"
  shows "\<exists>out. finalize ctx_err read_err st = Some out \<and> final_output source st out"
proof -
  define st1 where "st1 = (if st_role st \<noteq> [] \<and> st_role st \<noteq> ''assistant''
                 then note_conflict (RoleNotAssistant (st_role st)) st else st)"
  define st2 where "st2 = pin_incomplete_opaque st1"
  define st3 where "st3 = pin_incomplete_tool_call st2"
  note fin = finalize_cases [of ctx_err read_err st, folded st1_def, folded st2_def, folded st3_def]
  have inv: "assembly_inv source st1" "assembly_inv source st2" "assembly_inv source st3"
    using assms inv_note inv_pins by (simp_all add: st1_def st2_def st3_def)
  have usage: "st_usage st2 = st_usage st" "st_usage st3 = st_usage st"
    by (simp_all add: st1_def st2_def st3_def)
  have clean: "st3 = st \<and> no_incomplete_opaque st \<and> no_detail (st_conflict st)" if "no_detail (st_conflict st3)"
  proof -
    have "st3 = st2" using that pin_call_conflict unfolding st3_def by blast
    moreover have "st2 = st1 \<and> no_incomplete_opaque st1"
      using that calculation pin_opaque_conflict [of st1] unfolding st2_def by simp
    moreover have "st1 = st"
      using that calculation note_conflict_some [of "RoleNotAssistant (st_role st)" st]
      by (auto simp: st1_def split: if_splits)
    ultimately show ?thesis using that by simp
  qed
  note errored2 = final_errored [OF _ _ inv(2) usage(1)]
  note errored3 = final_errored [OF _ _ inv(3) usage(2)]
  show ?thesis
  proof (cases "no_detail (st_conflict st2) \<and> read_err \<noteq> None \<and> \<not> st_established st2 \<and> ctx_err \<noteq> None")
    case True
    then show ?thesis unfolding fin if_P [OF True] by (intro errored2) simp_all
  next
    case not_interrupted: False
    show ?thesis
    proof (cases "no_detail (st_conflict st3)")
      case False
      then show ?thesis unfolding fin if_not_P [OF not_interrupted]
        using errored3 [of OutputErrored "st_conflict st3"] by simp
    next
      case True
      note ok = clean [OF True]
      have "\<exists>out. conclude st3 = Some out \<and> final_output source st out"
        using conclude_final [OF assms] ok by simp
      with True show ?thesis unfolding fin if_not_P [OF not_interrupted]
        using errored3 [of OutputErrored "StreamReadFailed (the read_err)"] by simp
    qed
  qed
qed

text \<open>Once completion is established, a read error or a cancellation changes nothing.\<close>

lemma note_established:
  "st_established (pin_incomplete_opaque st) = st_established st"
  "st_established (pin_incomplete_tool_call st) = st_established st"
  by (auto simp: pin_incomplete_opaque_def pin_incomplete_tool_call_def split: option.splits)

lemma finalize_established:
  "st_established st \<Longrightarrow> finalize ctx_err (Some e) st = finalize ctx_err' None st"
  by (simp add: finalize_cases note_established)

lemma assemble_final:
  assumes "ref_complete source"
  shows "\<exists>out. assemble source deltas read_err ctx_err = Inr (Some out)
     \<and> final_output source (fold receive deltas (new_assembly_state source)) out"
  using assms finalize_final [OF inv_stream [OF inv_new [OF assms]]] by (simp add: assemble_def)

section \<open>Text and tool-call streams\<close>

text \<open>The deltas of an ordinary stream: text pieces, the start of a call, pieces of its arguments and
  the finish reason.\<close>

definition plain_delta :: stream_delta where
  "plain_delta =
     \<lparr>has_choice = True, d_role = [], d_refusal = [], d_content = [], d_tools = [],
      d_finish_reason = [], d_usage = None, d_extra = []\<rparr>"

definition text_delta :: "string \<Rightarrow> stream_delta" where
  "text_delta t = plain_delta\<lparr>d_content :=
     [\<lparr>cf_position = 0, cf_kind = PartText, cf_text = t, cf_url = [], cf_opaque = [], cf_extra = []\<rparr>]\<rparr>"

definition call_delta :: "string \<Rightarrow> string \<Rightarrow> stream_delta" where
  "call_delta cid name = plain_delta\<lparr>d_tools :=
     [\<lparr>tf_position = Some 0, tf_id = cid, tf_wire_type = ''function'', tf_name = name,
       tf_argument = [], tf_extra = []\<rparr>]\<rparr>"

definition args_delta :: "string \<Rightarrow> stream_delta" where
  "args_delta a = plain_delta\<lparr>d_tools :=
     [\<lparr>tf_position = Some 0, tf_id = [], tf_wire_type = [], tf_name = [], tf_argument = a, tf_extra = []\<rparr>]\<rparr>"

definition finish_delta :: "string \<Rightarrow> stream_delta" where
  "finish_delta reason = plain_delta\<lparr>d_finish_reason := reason\<rparr>"

lemmas delta_defs = plain_delta_def text_delta_def call_delta_def args_delta_def finish_delta_def

lemmas validate_defs =
  new_stream_delta_def validate_stream_delta_def validate_content_fragment_def
  validate_extra_values_def indexed_error_def map_error_def

definition text_acc :: "string \<Rightarrow> part_acc" where
  "text_acc s = \<lparr>pa_kind = PartText, pa_opaque = [], pa_text = s, pa_url = [], pa_extra = new_extra_acc\<rparr>"

definition text_state :: "model_ref \<Rightarrow> string \<Rightarrow> assembly_state" where
  "text_state source s = (new_assembly_state source)\<lparr>st_content := [(0, text_acc s)], st_content_order := [0]\<rparr>"

lemma receive_text:
  "receive (text_delta t) (new_assembly_state source) = text_state source t"
  "receive (text_delta t) (text_state source s) = text_state source (s @ t)"
  by (simp_all add: receive_def validate_defs delta_defs apply_delta_def note_finish_def Let_def
      apply_content_def part_at_def text_state_def text_acc_def new_assembly_state_def new_part_acc_def
      known_part_kind_def no_kind_def put_part_def add_part_extra_def acc_add_all_def
      check_establishment_def)

lemma fold_text: "fold receive (map text_delta ts) (text_state source s) = text_state source (s @ concat ts)"
  by (induction ts arbitrary: s) (simp_all add: receive_text)

definition call_state :: "model_ref \<Rightarrow> string \<Rightarrow> string \<Rightarrow> string \<Rightarrow> assembly_state" where
  "call_state source cid name a =
     (new_assembly_state source)\<lparr>st_tool_deltas :=
        [(0, \<lparr>ca_id = cid, ca_wire_type = ''function'', ca_name = name, ca_args = a, ca_extra = new_extra_acc\<rparr>)],
      st_tool_ids := [(cid, 0)], st_last_tool_idx := 0\<rparr>"

lemma receive_call:
  "cid \<noteq> [] \<Longrightarrow> receive (call_delta cid name) (new_assembly_state source) = call_state source cid name []"
  "receive (args_delta b) (call_state source cid name a) = call_state source cid name (a @ b)"
  by (simp_all add: receive_def validate_defs delta_defs apply_delta_def note_finish_def Let_def
      apply_tool_event_def apply_tool_fragment_def correlate_tool_fragment_def correlated_slot_def
      note_call_id_def note_wire_type_def call_state_def new_assembly_state_def new_call_acc_def
      acc_add_all_def check_establishment_def)

lemma fold_args:
  "fold receive (map args_delta bs) (call_state source cid name a) = call_state source cid name (a @ concat bs)"
  by (induction bs arbitrary: a) (simp_all add: receive_call)

lemmas finalize_defs =
  finalize_def pin_incomplete_opaque_def pin_incomplete_tool_call_def first_incomplete_tool_slot_def
  sorted_slots_def clean_termination_def finish_state_verdict_def complete_call_count_def
  call_complete_def has_payload_def part_non_empty_def content_at_def tool_at_def

lemma no_values_new [simp]: "\<not> acc_has_values new_extra_acc" "acc_finalize new_extra_acc = []"
  using extra_acc.no_values_fresh extra_acc.fresh_empty by simp_all

definition text_message :: "model_ref \<Rightarrow> string \<Rightarrow> message" where
  "text_message source s =
     \<lparr>msg_role = RoleAssistant,
      msg_content = [\<lparr>part_kind = PartText, part_text = s, part_url = [], part_opaque = [], part_extra = []\<rparr>],
      msg_refusal = [], msg_tool_calls = [], msg_tool_call_id = [], msg_name = [], msg_extra = [],
      msg_source = source\<rparr>"

definition call_message :: "model_ref \<Rightarrow> string \<Rightarrow> string \<Rightarrow> string \<Rightarrow> message" where
  "call_message source cid name a =
     \<lparr>msg_role = RoleAssistant, msg_content = [], msg_refusal = [],
      msg_tool_calls = [\<lparr>call_id = cid, call_name = name, call_arguments = a, call_extra = []\<rparr>],
      msg_tool_call_id = [], msg_name = [], msg_extra = [], msg_source = source\<rparr>"

definition completed :: "model_ref \<Rightarrow> message \<Rightarrow> model_output" where
  "completed source m =
     \<lparr>out_status = OutputCompleted, out_source = source, out_message = Some m, out_usage = None,
      out_detail = Text []\<rparr>"

lemma finish_text:
  assumes "ref_complete source" "s \<noteq> []"
  shows "finalize ctx_err None (receive (finish_delta ''stop'') (text_state source s)) =
     Some (completed source (text_message source s))"
proof -
  define st where "st = (text_state source s)\<lparr>st_finish_reason := ''stop'', st_established := True\<rparr>"
  have st: "receive (finish_delta ''stop'') (text_state source s) = st"
    using assms by (simp add: st_def receive_def validate_defs delta_defs apply_delta_def note_finish_def
        text_state_def text_acc_def new_assembly_state_def acc_add_all_def check_establishment_def
        has_payload_def part_non_empty_def content_at_def)
  have msg: "assemble_message True st = text_message source s"
    using assms by (simp add: st_def text_message_def assemble_message_def build_parts_def build_part_def
        build_calls_def sorted_slots_def text_state_def text_acc_def new_assembly_state_def
        part_non_empty_def content_at_def)
  have "assembly_inv source st"
    using inv_receive [of source "text_state source s" "finish_delta ''stop''"]
      inv_receive [OF inv_new [OF assms(1)], of "text_delta s"]
    by (simp add: st receive_text)
  moreover have "no_incomplete_opaque st" "finish_state_verdict st = None"
    using assms by (simp_all add: no_incomplete_opaque_def finalize_defs st_def text_state_def text_acc_def
        new_assembly_state_def)
  ultimately have "completed_output st = Some (completed source (text_message source s))"
    using completed_output_ok [of st source] by (simp add: msg completed_def)
      (simp add: st_def text_state_def new_assembly_state_def)
  then show ?thesis
    using assms unfolding st
    by (simp add: finalize_cases conclude_def \<open>finish_state_verdict st = None\<close>)
      (simp add: finalize_defs st_def text_state_def text_acc_def new_assembly_state_def)
qed

lemma finish_call:
  assumes "ref_complete source" "cid \<noteq> []" "name \<noteq> []"
  shows "finalize ctx_err None (receive (finish_delta ''tool_calls'') (call_state source cid name a)) =
     Some (completed source (call_message source cid name a))"
proof -
  define st where "st = (call_state source cid name a)\<lparr>st_finish_reason := ''tool_calls'', st_established := True\<rparr>"
  have st: "receive (finish_delta ''tool_calls'') (call_state source cid name a) = st"
    using assms by (simp add: st_def receive_def validate_defs delta_defs apply_delta_def note_finish_def
        call_state_def new_assembly_state_def acc_add_all_def check_establishment_def
        first_incomplete_tool_slot_def sorted_slots_def call_complete_def tool_at_def)
  have msg: "assemble_message True st = call_message source cid name a"
    using assms by (simp add: st_def call_message_def assemble_message_def build_parts_def
        build_calls_def sorted_slots_def call_state_def new_assembly_state_def call_complete_def tool_at_def)
  have "assembly_inv source st"
    using inv_receive [of source "call_state source cid name a" "finish_delta ''tool_calls''"]
      inv_receive [of source _ "args_delta a"] inv_receive [OF inv_new [OF assms(1)], of "call_delta cid name"]
    by (simp add: st receive_call assms) (metis append_Nil receive_call(2))
  moreover have "no_incomplete_opaque st" "finish_state_verdict st = None"
    using assms by (simp_all add: no_incomplete_opaque_def finalize_defs st_def call_state_def
        new_assembly_state_def)
  ultimately have "completed_output st = Some (completed source (call_message source cid name a))"
    using completed_output_ok [of st source] by (simp add: msg completed_def)
      (simp add: st_def call_state_def new_assembly_state_def)
  then show ?thesis
    using assms unfolding st
    by (simp add: finalize_cases conclude_def \<open>finish_state_verdict st = None\<close>)
      (simp add: finalize_defs st_def call_state_def new_assembly_state_def)
qed

lemma established_text:
  "s \<noteq> [] \<Longrightarrow> st_established (receive (finish_delta ''stop'') (text_state source s))"
  by (simp add: receive_def validate_defs delta_defs apply_delta_def note_finish_def text_state_def
      text_acc_def new_assembly_state_def acc_add_all_def check_establishment_def has_payload_def
      part_non_empty_def content_at_def)

lemma text_assembled:
  assumes "ref_complete source" "concat (t # ts) \<noteq> []"
  shows "assemble source (map text_delta (t # ts) @ [finish_delta ''stop'']) read_err ctx_err =
     Inr (Some (completed source (text_message source (concat (t # ts)))))"
proof -
  have "fold receive (map text_delta (t # ts) @ [finish_delta ''stop'']) (new_assembly_state source) =
      receive (finish_delta ''stop'') (text_state source (concat (t # ts)))"
    by (simp add: receive_text fold_text)
  moreover have "finalize ctx_err read_err (receive (finish_delta ''stop'') (text_state source (concat (t # ts)))) =
      finalize ctx_err None (receive (finish_delta ''stop'') (text_state source (concat (t # ts))))"
    using finalize_established [OF established_text [OF assms(2), of source]] by (cases read_err) simp_all
  ultimately show ?thesis
    using assms finish_text [OF assms] by (simp add: assemble_def)
qed

section \<open>Properties\<close>

text \<open>C13: The assembler is total and its output is always valid. For every stream of deltas whatsoever
  (malformed, conflicting and rejected ones included), with or without a read error and with or
  without a cancelled context, assembling for a complete model identity gives an output: the panics
  behind the output constructor are unreachable. The output satisfies every model-output invariant,
  carries exactly the given identity, and repeats no tool-call id.\<close>

theorem assemble_total:
  assumes "ref_complete source"
  shows "\<exists>out. assemble source deltas read_err ctx_err = Inr (Some out) \<and> validate_output out = Inr ()
     \<and> out_source out = source
     \<and> (\<forall>m. out_message out = Some m \<longrightarrow> distinct (map call_id (msg_tool_calls m)))"
proof -
  obtain out where "assemble source deltas read_err ctx_err = Inr (Some out)"
    "final_output source (fold receive deltas (new_assembly_state source)) out"
    using assemble_final [OF assms] by blast
  then show ?thesis
    by (intro exI [of _ out]) (auto simp: final_output_def validate_output_ok split: option.splits)
qed

definition example_ref :: model_ref where
  "example_ref = \<lparr>provider = ''p'', model_name = ''m''\<rparr>"

lemma example_ref_complete: "ref_complete example_ref"
  by (simp add: example_ref_def ref_complete_def)

theorem assemble_total_witness:
  "\<exists>out. assemble example_ref [args_delta ''x'', finish_delta ''stop''] (Some ''reset'') None = Inr (Some out)
     \<and> validate_output out = Inr ()"
  using assemble_total [OF example_ref_complete, of "[args_delta ''x'', finish_delta ''stop'']" "Some ''reset''" None]
  by blast

text \<open>C26: Completion survives a broken connection. Once a finish reason with its payload has been
  observed, the output is the same whether the stream then ends cleanly or with a read error, and
  whether or not the run is cancelled meanwhile.\<close>

theorem established_completion_survives_read_error:
  assumes "st_established (fold receive deltas (new_assembly_state source))"
  shows "assemble source deltas (Some e) ctx_err = assemble source deltas None ctx_err'"
  using finalize_established [OF assms] by (simp add: assemble_def)

theorem established_completion_survives_read_error_witness:
  "assemble example_ref [text_delta ''hi'', finish_delta ''stop''] (Some ''reset'') (Some ''cancelled'') =
   assemble example_ref [text_delta ''hi'', finish_delta ''stop''] None None"
  by (rule established_completion_survives_read_error) (simp add: receive_text established_text)

text \<open>Streamed text is concatenated. A stream of text pieces followed by the finish reason \<open>stop\<close>
  assembles, whatever happens afterwards, to a completed output whose message is one text part, the
  concatenation of the pieces in arrival order.\<close>

theorem assemble_text_stream:
  assumes "ref_complete source" "concat (t # ts) \<noteq> []"
  shows "assemble source (map text_delta (t # ts) @ [finish_delta ''stop'']) read_err ctx_err =
     Inr (Some (completed source (text_message source (concat (t # ts)))))"
  by (rule text_assembled [OF assms])

theorem assemble_text_stream_witness:
  "assemble example_ref [text_delta ''he'', text_delta ''y'', finish_delta ''stop''] None None =
     Inr (Some (completed example_ref (text_message example_ref ''hey'')))"
  using assemble_text_stream [OF example_ref_complete, of "''he''" "[''y'']" None None] by simp

text \<open>Streamed tool-call arguments are concatenated verbatim. A call announced with its id and name
  and continued by anonymous argument pieces assembles, on the finish reason \<open>tool_calls\<close>, to a
  completed output with exactly that call and the concatenation of its argument pieces.\<close>

theorem assemble_tool_stream:
  assumes "ref_complete source" "cid \<noteq> []" "name \<noteq> []"
  shows "assemble source (call_delta cid name # map args_delta bs @ [finish_delta ''tool_calls'']) None ctx_err =
     Inr (Some (completed source (call_message source cid name (concat bs))))"
  using assms finish_call [OF assms, of ctx_err "concat bs"]
  by (simp add: assemble_def receive_call fold_args)

theorem assemble_tool_stream_witness:
  "assemble example_ref [call_delta ''c1'' ''read'', args_delta ''{'', args_delta ''}'', finish_delta ''tool_calls''] None None =
     Inr (Some (completed example_ref (call_message example_ref ''c1'' ''read'' ''{}'')))"
  using assemble_tool_stream [OF example_ref_complete, of "''c1''" "''read''" "[''{'', ''}'']" None] by simp

text \<open>Go ranges over a fragment's extras in an arbitrary order; what is accumulated does not depend
  on it. Adding a map of valid values changes each key on its own: a key that is absent keeps its
  accumulated value, and a key that is present holds the old value merged with the new one.\<close>

theorem extras_accumulate_per_key:
  assumes "acc_inv a" "extra_ok e" "distinct (map fst e)" "k \<noteq> []"
  shows "map_of (acc_values (acc_add_all e a)) k =
     (case map_of e k of
        None \<Rightarrow> map_of (acc_values a) k
      | Some v \<Rightarrow> cell_add v (map_of (acc_values a) k))"
  by (rule acc_add_all_cell [OF assms])

theorem extras_accumulate_per_key_witness:
  "map_of (acc_values (acc_add_all [(''b'', Value (JStr ''y'')), (''a'', Value JNull)]
     (acc_add_all [(''b'', Value (JStr ''x''))] new_extra_acc))) ''b'' = Some (Value (JStr ''xy''))"
proof -
  have inv: "acc_inv (acc_add_all [(''b'', Value (JStr ''x''))] new_extra_acc)"
    by (rule acc_inv_add_all [OF acc_inv_fresh]) (simp add: extra_ok_def)
  have "map_of (acc_values (acc_add_all [(''b'', Value (JStr ''x''))] new_extra_acc)) ''b'' = Some (Value (JStr ''x''))"
    by (simp add: acc_add_all_def extra_add_def new_extra_acc_def)
  with extras_accumulate_per_key [OF inv, of "[(''b'', Value (JStr ''y'')), (''a'', Value JNull)]" "''b''"]
  show ?thesis by (simp add: extra_ok_def cell_add_def)
qed

end
