(* ===== verification/Agent_Loop.thy ===== *)
theory Agent_Loop
  imports Assembly_Safe
begin

text \<open>
  The agent loop of package \<open>agent\<close>: the boundary contracts (\<open>contract.go\<close>), the validators of what
  crosses them (\<open>settlement.go\<close>), the loop \<open>Run\<close> with its callback protocol (\<open>run.go\<close>) and the
  standalone adapters (\<open>adapter.go\<close>).

  The three caller functions and the run context are parameters. They act on a world of any type, so
  a caller may keep and change whatever state it likes; \<open>poll\<close> is one observation of \<open>ctx.Err\<close>, which
  may answer differently each time. A model effect is a tree: it returns, or it calls the assembly
  callback with an identity and a stream and goes on with the answer. The detail of a protocol error
  is its text without the values formatted into it. \<open>Panic\<close> is the outcome of \<open>finishTerminal\<close>'s and
  of the assembler's panics.
\<close>

section \<open>Contracts\<close>

datatype boundary = BAgent | BModel | BTool

datatype agent_error = ProtocolError boundary string

datatype disposition =
  DispoReady | DispoContinue | DispoFailure | DispoInterruption | OtherDispo string

record settlement =
  set_disposition :: disposition
  set_output :: "model_output option"
  set_detail :: detail

datatype terminal_status = TerminalSuccess | TerminalFailure | TerminalInterruption | OtherTerminal string

record terminal_result =
  term_status :: terminal_status
  term_output :: "model_output option"
  term_unstarted :: "tool_call list"
  term_detail :: detail

record request_result =
  ready_request :: "request option"
  request_interrupted :: bool

datatype ('w, 'e) effect =
  Return "'e + settlement" 'w
| Callback model_ref "stream_delta list" "string option" "string option"
    "agent_error + model_output \<Rightarrow> ('w, 'e) effect"

record ('w, 'e) invocation =
  expected_model :: model_ref
  poll :: "'w \<Rightarrow> bool \<times> 'w"
  request_source :: "'w \<Rightarrow> ('e + request_result) \<times> 'w"
  model_effect :: "request \<Rightarrow> 'w \<Rightarrow> ('w, 'e) effect"
  tool_effect :: "tool_call \<Rightarrow> string list \<Rightarrow> 'w \<Rightarrow> ('e + tool_result) \<times> 'w"

datatype 'e outcome = Terminal terminal_result | CallerError 'e | AgentError agent_error | Panic

section \<open>Settlements\<close>

definition require_disposition_output ::
  "model_output option \<Rightarrow> output_status \<Rightarrow> agent_error + unit" where
  "require_disposition_output out want =
     (case out of
        None \<Rightarrow> Inl (ProtocolError BModel ''disposition requires its callback output, got none'')
      | Some o1 \<Rightarrow>
          ensure (out_status o1 = want) (ProtocolError BModel ''disposition requires another output status''))"

fun unique_call_ids_from :: "boundary \<Rightarrow> string set \<Rightarrow> tool_call list \<Rightarrow> agent_error + unit" where
  "unique_call_ids_from b seen [] = Inr ()"
| "unique_call_ids_from b seen (c # cs) =
     (if call_id c \<in> seen then Inl (ProtocolError b ''completed output repeats tool call id'')
      else unique_call_ids_from b (insert (call_id c) seen) cs)"

definition require_unique_call_ids :: "boundary \<Rightarrow> tool_call list \<Rightarrow> agent_error + unit" where
  "require_unique_call_ids b calls = unique_call_ids_from b {} calls"

definition validate_settlement :: "settlement \<Rightarrow> model_ref \<Rightarrow> agent_error + settlement" where
  "validate_settlement s expected =
     rbind
       (case set_disposition s of
          DispoReady \<Rightarrow> require_disposition_output (set_output s) OutputCompleted
        | DispoContinue \<Rightarrow>
            (case set_output s of
               None \<Rightarrow> Inl (ProtocolError BModel ''continue disposition requires its callback output, got none'')
             | Some out \<Rightarrow>
                 (case out_status out of
                    OutputErrored \<Rightarrow>
                      ensure (has_assistant_content (out_message out))
                        (ProtocolError BModel ''continue disposition requires an errored output retaining an assistant payload'')
                  | OutputCompleted \<Rightarrow>
                      ensure (case out_message out of None \<Rightarrow> True | Some m \<Rightarrow> msg_tool_calls m = [])
                        (ProtocolError BModel ''continue disposition requires a completed output with no tool calls'')
                  | _ \<Rightarrow> Inl (ProtocolError BModel ''continue disposition requires an errored or completed callback output'')))
        | DispoFailure \<Rightarrow>
            rbind (ensure (\<not> no_detail (set_detail s))
                     (ProtocolError BModel ''failure disposition requires non-empty detail'')) (\<lambda>_.
              ensure (case set_output s of None \<Rightarrow> True | Some out \<Rightarrow> out_status out = OutputErrored)
                (ProtocolError BModel ''failure disposition requires no output or an errored one''))
        | DispoInterruption \<Rightarrow>
            rbind (ensure (\<not> no_detail (set_detail s))
                     (ProtocolError BModel ''interruption disposition requires non-empty detail'')) (\<lambda>_.
              ensure (case set_output s of None \<Rightarrow> True
                      | Some out \<Rightarrow> out_status out = OutputInterrupted \<or> out_status out = OutputCompleted)
                (ProtocolError BModel ''interruption disposition requires no output, an interrupted one or a completed one''))
        | OtherDispo _ \<Rightarrow> Inl (ProtocolError BModel ''unknown disposition''))
       (\<lambda>_.
     rbind (ensure (\<not> (set_disposition s \<in> {DispoReady, DispoContinue} \<and> \<not> no_detail (set_detail s)))
              (ProtocolError BModel ''disposition requires an empty detail'')) (\<lambda>_.
       case set_output s of
         None \<Rightarrow> Inr s
       | Some out \<Rightarrow>
           rbind (ensure (provider (out_source out) = provider expected
                     \<and> model_name (out_source out) = model_name expected)
                    (ProtocolError BModel ''settlement output source does not equal invocation expected model identity'')) (\<lambda>_.
           rbind (map_error (\<lambda>_. ProtocolError BModel ''settlement output violates model-output invariants'')
                    (validate_output out)) (\<lambda>_.
           rbind (case out_message out of None \<Rightarrow> Inr ()
                  | Some m \<Rightarrow> require_unique_call_ids BModel (msg_tool_calls m)) (\<lambda>_.
             Inr s)))))"

definition validate_model_settlement :: "model_ref \<Rightarrow> settlement \<Rightarrow> agent_error + settlement" where
  "validate_model_settlement expected s =
     (if \<not> ref_complete expected
      then Inl (ProtocolError BModel ''settlement validation requires a nonzero expected model identity'')
      else validate_settlement s expected)"

definition validate_tool_result :: "tool_result \<Rightarrow> string \<Rightarrow> agent_error + unit" where
  "validate_tool_result res cid =
     rbind (map_error (\<lambda>_. ProtocolError BTool ''settled tool result violates the tool-result contract'')
              (new_tool_result res)) (\<lambda>_.
       ensure (res_call_id res = cid)
         (ProtocolError BTool ''settled tool result answers another call''))"

fun call_index :: "string \<Rightarrow> tool_call list \<Rightarrow> nat option" where
  "call_index cid [] = None"
| "call_index cid (c # cs) = (if call_id c = cid then Some 0 else map_option Suc (call_index cid cs))"

fun unstarted_from :: "int \<Rightarrow> tool_call list \<Rightarrow> tool_call list \<Rightarrow> agent_error + unit" where
  "unstarted_from prev produced [] = Inr ()"
| "unstarted_from prev produced (c # cs) =
     rbind (map_error (\<lambda>_. ProtocolError BAgent ''unstarted call violates the tool-call contract'')
              (validate_tool_call c)) (\<lambda>_.
       (case call_index (call_id c) produced of
          None \<Rightarrow> Inl (ProtocolError BAgent ''unstarted call does not identify a later call of the completed last output'')
        | Some idx \<Rightarrow>
            if int idx \<le> prev
            then Inl (ProtocolError BAgent ''unstarted call does not identify a later call of the completed last output'')
            else unstarted_from (int idx) produced cs))"

definition validate_unstarted_calls ::
  "tool_call list \<Rightarrow> model_output option \<Rightarrow> agent_error + unit" where
  "validate_unstarted_calls calls out =
     (if calls = [] then Inr ()
      else case out of
          Some o1 \<Rightarrow>
            if out_status o1 \<noteq> OutputCompleted
            then Inl (ProtocolError BAgent ''unstarted calls require a completed last output to identify their calls'')
            else unstarted_from (-1) (msg_tool_calls (the (out_message o1))) calls
        | None \<Rightarrow> Inl (ProtocolError BAgent ''unstarted calls require a completed last output to identify their calls''))"

definition validate_terminal_result :: "terminal_result \<Rightarrow> agent_error + unit" where
  "validate_terminal_result res =
     rbind
       (case term_output res of
          None \<Rightarrow> Inr ()
        | Some out \<Rightarrow>
            rbind (map_error (\<lambda>_. ProtocolError BAgent ''terminal last output violates model-output invariants'')
                     (validate_output out)) (\<lambda>_.
              case out_message out of None \<Rightarrow> Inr ()
              | Some m \<Rightarrow> require_unique_call_ids BAgent (msg_tool_calls m)))
       (\<lambda>_. case term_status res of
          TerminalSuccess \<Rightarrow>
            rbind (ensure (no_detail (term_detail res))
                     (ProtocolError BAgent ''success status requires an empty detail'')) (\<lambda>_.
            rbind (ensure (term_unstarted res = [])
                     (ProtocolError BAgent ''success status allows no unstarted calls'')) (\<lambda>_.
            rbind (ensure (case term_output res of None \<Rightarrow> False | Some out \<Rightarrow> out_status out = OutputCompleted)
                     (ProtocolError BAgent ''success status requires a completed last output'')) (\<lambda>_.
              ensure (msg_tool_calls (the (out_message (the (term_output res)))) = [])
                (ProtocolError BAgent ''success status requires a last output with no tool calls''))))
        | TerminalFailure \<Rightarrow>
            rbind (ensure (\<not> no_detail (term_detail res))
                     (ProtocolError BAgent ''failure status requires non-empty detail'')) (\<lambda>_.
            rbind (ensure (term_unstarted res = [])
                     (ProtocolError BAgent ''failure status allows no unstarted calls'')) (\<lambda>_.
              ensure (case term_output res of None \<Rightarrow> True
                      | Some out \<Rightarrow> out_status out = OutputCompleted \<or> out_status out = OutputErrored)
                (ProtocolError BAgent ''failure status allows no output or a completed/errored one'')))
        | TerminalInterruption \<Rightarrow>
            rbind (ensure (\<not> no_detail (term_detail res))
                     (ProtocolError BAgent ''interruption status requires non-empty detail'')) (\<lambda>_.
            rbind (ensure (case term_output res of None \<Rightarrow> True
                           | Some out \<Rightarrow> out_status out = OutputCompleted \<or> out_status out = OutputInterrupted)
                     (ProtocolError BAgent ''interruption status allows no output or a completed/interrupted one'')) (\<lambda>_.
              validate_unstarted_calls (term_unstarted res) (term_output res)))
        | OtherTerminal _ \<Rightarrow> Inl (ProtocolError BAgent ''unknown terminal status''))"

section \<open>The callback protocol\<close>

record callback_protocol =
  cb_expected :: model_ref
  cb_calls :: nat
  cb_failure :: "agent_error option"

definition remember :: "agent_error \<Rightarrow> callback_protocol \<Rightarrow> callback_protocol" where
  "remember e p = (case cb_failure p of None \<Rightarrow> p\<lparr>cb_failure := Some e\<rparr> | Some _ \<Rightarrow> p)"

text \<open>\<open>assemble\<close> of the protocol; \<open>None\<close> when the assembler panics.\<close>

definition callback_assemble ::
  "model_ref \<Rightarrow> stream_delta list \<Rightarrow> string option \<Rightarrow> string option \<Rightarrow> callback_protocol \<Rightarrow>
     (callback_protocol \<times> (agent_error + model_output)) option" where
  "callback_assemble source deltas read_err ctx_err p =
     (let p1 = p\<lparr>cb_calls := Suc (cb_calls p)\<rparr>;
          reject = (\<lambda>e. Some (remember e p1, Inl e))
      in if 1 < cb_calls p1
         then reject (ProtocolError BModel ''assembly callback invoked more than once for one logical model effect'')
         else if source \<noteq> cb_expected p1
         then reject (ProtocolError BModel ''assembly callback source does not equal invocation expected model identity'')
         else case assemble source deltas read_err ctx_err of
             Inl _ \<Rightarrow> reject (ProtocolError BAgent ''assembler requires a non-nil run context, nonzero source identity and accepted stream'')
           | Inr None \<Rightarrow> None
           | Inr (Some out) \<Rightarrow> Some (p1, Inr out))"

primrec run_effect ::
  "('w, 'e) effect \<Rightarrow> callback_protocol \<Rightarrow> (callback_protocol \<times> ('e + settlement) \<times> 'w) option" where
  "run_effect (Return r w) p = Some (p, r, w)"
| "run_effect (Callback source deltas read_err ctx_err k) p =
     (case callback_assemble source deltas read_err ctx_err p of
        None \<Rightarrow> None
      | Some (p', answer) \<Rightarrow> run_effect (k answer) p')"

definition settlement_failure :: "callback_protocol \<Rightarrow> model_output option \<Rightarrow> agent_error option" where
  "settlement_failure p out =
     (case cb_failure p of
        Some e \<Rightarrow> Some e
      | None \<Rightarrow>
          if out \<noteq> None \<and> cb_calls p \<noteq> 1
          then Some (ProtocolError BModel ''settlement carries an output but not exactly one assembly callback ran'')
          else if out = None \<and> cb_calls p \<noteq> 0
          then Some (ProtocolError BModel ''settlement carries no output but the assembly callback ran'')
          else None)"

section \<open>The loop\<close>

definition detail_interrupted :: detail where
  "detail_interrupted = Text ''agent interrupted''"

definition finish_terminal :: "terminal_result \<Rightarrow> 'e outcome" where
  "finish_terminal res = (case validate_terminal_result res of Inl _ \<Rightarrow> Panic | Inr _ \<Rightarrow> Terminal res)"

definition interruption_terminal :: "detail \<Rightarrow> model_output option \<Rightarrow> tool_call list \<Rightarrow> 'e outcome" where
  "interruption_terminal d out unstarted =
     finish_terminal \<lparr>term_status = TerminalInterruption, term_output = out, term_unstarted = unstarted,
       term_detail = d\<rparr>"

definition retained_interruption :: "model_output option \<Rightarrow> tool_call list \<Rightarrow> 'e outcome" where
  "retained_interruption out unstarted =
     (case out of
        Some o1 \<Rightarrow>
          if out_status o1 \<noteq> OutputCompleted then interruption_terminal detail_interrupted None []
          else interruption_terminal detail_interrupted out unstarted
      | None \<Rightarrow> interruption_terminal detail_interrupted out unstarted)"

datatype ('w, 'e) step = Stop "'e outcome" 'w | Next "model_output option" 'w

fun dispatch_calls ::
  "('w, 'e) invocation \<Rightarrow> model_output \<Rightarrow> string list \<Rightarrow> tool_call list \<Rightarrow> 'w \<Rightarrow> ('w, 'e) step" where
  "dispatch_calls ivc out names [] w = Next (Some out) w"
| "dispatch_calls ivc out names (call # rest) w =
     (let (cancelled, w1) = poll ivc w
      in if cancelled then Stop (interruption_terminal detail_interrupted (Some out) (call # rest)) w1
         else (let (r, w2) = tool_effect ivc call names w1
               in case r of
                    Inl e \<Rightarrow> Stop (CallerError e) w2
                  | Inr res \<Rightarrow>
                      (case validate_tool_result res (call_id call) of
                         Inl e \<Rightarrow> Stop (AgentError e) w2
                       | Inr _ \<Rightarrow>
                           if res_status res = ResultInterrupted
                           then Stop (interruption_terminal detail_interrupted (Some out) rest) w2
                           else dispatch_calls ivc out names rest w2)))"

text \<open>What one settled model effect leads to.\<close>

definition settle ::
  "('w, 'e) invocation \<Rightarrow> string list \<Rightarrow> settlement \<Rightarrow> 'w \<Rightarrow> ('w, 'e) step" where
  "settle ivc names s w =
     (let out = set_output s
      in case set_disposition s of
           DispoFailure \<Rightarrow>
             Stop (finish_terminal \<lparr>term_status = TerminalFailure, term_output = out, term_unstarted = [],
               term_detail = set_detail s\<rparr>) w
         | DispoInterruption \<Rightarrow>
             Stop (interruption_terminal (set_detail s) out
               (case out of
                  None \<Rightarrow> []
                | Some o1 \<Rightarrow>
                    if out_status o1 = OutputCompleted then msg_tool_calls (the (out_message o1)) else [])) w
         | DispoContinue \<Rightarrow> Next out w
         | _ \<Rightarrow>
             (let calls = msg_tool_calls (the (out_message (the out)))
              in if calls = [] then
                   (let (cancelled, w1) = poll ivc w
                    in if cancelled then Stop (interruption_terminal detail_interrupted out []) w1
                       else Stop (finish_terminal \<lparr>term_status = TerminalSuccess, term_output = out,
                              term_unstarted = [], term_detail = Text []\<rparr>) w1)
                 else dispatch_calls ivc (the out) names calls w))"

definition run_model ::
  "('w, 'e) invocation \<Rightarrow> request \<Rightarrow> 'w \<Rightarrow> ('w, 'e) step" where
  "run_model ivc owned w =
     (case run_effect (model_effect ivc owned w)
         \<lparr>cb_expected = expected_model ivc, cb_calls = 0, cb_failure = None\<rparr> of
        None \<Rightarrow> Stop Panic w
      | Some (cb, r, w1) \<Rightarrow>
          (case r of
             Inl e \<Rightarrow> Stop (CallerError e) w1
           | Inr s \<Rightarrow>
               (case settlement_failure cb (set_output s) of
                  Some e \<Rightarrow> Stop (AgentError e) w1
                | None \<Rightarrow>
                    (case validate_settlement s (expected_model ivc) of
                       Inl e \<Rightarrow> Stop (AgentError e) w1
                     | Inr _ \<Rightarrow> settle ivc (map def_name (req_tools owned)) s w1))))"

definition run_round ::
  "('w, 'e) invocation \<Rightarrow> model_output option \<Rightarrow> 'w \<Rightarrow> ('w, 'e) step" where
  "run_round ivc last_settled w =
     (let (cancelled, w1) = poll ivc w
      in if cancelled then Stop (retained_interruption last_settled []) w1
         else (let (r, w2) = request_source ivc w1
               in case r of
                    Inl e \<Rightarrow> Stop (CallerError e) w2
                  | Inr rr \<Rightarrow>
                      if (ready_request rr \<noteq> None) = request_interrupted rr
                      then Stop (AgentError (ProtocolError BAgent ''request source requires exactly one outcome'')) w2
                      else if request_interrupted rr then Stop (retained_interruption last_settled []) w2
                      else (case new_request (the (ready_request rr)) of
                              Inl _ \<Rightarrow> Stop (AgentError (ProtocolError BAgent ''request is invalid'')) w2
                            | Inr owned \<Rightarrow>
                                (let (cancelled', w3) = poll ivc w2
                                 in if cancelled' then Stop (retained_interruption last_settled []) w3
                                    else run_model ivc owned w3))))"

text \<open>The rounds, with fuel: \<open>None\<close> when it does not last.\<close>

fun run_loop ::
  "nat \<Rightarrow> ('w, 'e) invocation \<Rightarrow> model_output option \<Rightarrow> 'w \<Rightarrow> ('e outcome \<times> 'w) option" where
  "run_loop 0 ivc last_settled w = None"
| "run_loop (Suc fuel) ivc last_settled w =
     (case run_round ivc last_settled w of
        Stop res w' \<Rightarrow> Some (res, w')
      | Next last' w' \<Rightarrow> run_loop fuel ivc last' w')"

definition run :: "nat \<Rightarrow> ('w, 'e) invocation \<Rightarrow> 'w \<Rightarrow> ('e outcome \<times> 'w) option" where
  "run fuel ivc w =
     (if \<not> ref_complete (expected_model ivc)
      then Some (AgentError (ProtocolError BAgent ''run requires a nonzero expected model identity''), w)
      else run_loop fuel ivc None w)"

section \<open>Adapters\<close>

type_synonym ('w, 'e) tool_func = "tool_call \<Rightarrow> 'w \<Rightarrow> ('e + tool_result) \<times> 'w"

text \<open>A registration may be the nil function, hence the inner option.\<close>

definition adapt_tools ::
  "(string \<rightharpoonup> ('w, 'e) tool_func option) \<Rightarrow> tool_call \<Rightarrow> string list \<Rightarrow> 'w \<Rightarrow> ('e + tool_result) \<times> 'w" where
  "adapt_tools registered call names w =
     (let unavailable = (Inr \<lparr>res_call_id = call_id call, res_status = ResultError,
            res_content = ''Tool '' @ call_name call @ '' is not available.''\<rparr>, w)
      in if call_name call \<notin> set names then unavailable
         else case registered (call_name call) of
             Some (Some fn) \<Rightarrow> fn call w
           | _ \<Rightarrow> unavailable)"

text \<open>One attempt of a transport: a refusal before acceptance, with its text and whether it is a
  cancellation, or an accepted stream.\<close>

datatype attempt =
  Refused string bool
| Accepted "stream_delta list" "string option" "string option"

definition adapt_model_effect ::
  "model_ref \<Rightarrow> (request \<Rightarrow> 'w \<Rightarrow> attempt \<times> 'w) \<Rightarrow> ('w \<Rightarrow> bool \<times> 'w) \<Rightarrow>
     request \<Rightarrow> 'w \<Rightarrow> ('w, agent_error) effect" where
  "adapt_model_effect source transport ctx_done req w =
     (if \<not> ref_complete source
      then Return (Inl (ProtocolError BModel ''model effect adapter requires a non-nil transport and a complete source model identity'')) w
      else (let (a, w1) = transport req w
            in case a of
                 Refused text cancellation \<Rightarrow>
                   (let (done, w2) = (if cancellation then ctx_done w1 else (False, w1))
                    in if cancellation \<and> done
                       then Return (Inr \<lparr>set_disposition = DispoInterruption, set_output = None,
                              set_detail = detail_interrupted\<rparr>) w2
                       else Return (Inr \<lparr>set_disposition = DispoFailure, set_output = None,
                              set_detail = Text text\<rparr>) w2)
               | Accepted deltas read_err ctx_err \<Rightarrow>
                   Callback source deltas read_err ctx_err (\<lambda>answer.
                     case answer of
                       Inl e \<Rightarrow> Return (Inl e) w1
                     | Inr out \<Rightarrow>
                         (if out_status out = OutputCompleted
                          then Return (Inr \<lparr>set_disposition = DispoReady, set_output = Some out,
                                 set_detail = Text []\<rparr>) w1
                          else if out_status out = OutputErrored
                          then Return (Inr \<lparr>set_disposition = DispoFailure, set_output = Some out,
                                 set_detail = out_detail out\<rparr>) w1
                          else Return (Inr \<lparr>set_disposition = DispoInterruption, set_output = Some out,
                                 set_detail = out_detail out\<rparr>) w1))))"

end
