(* ===== verification/Agent_Loop_Safe.thy ===== *)
theory Agent_Loop_Safe
  imports Agent_Loop
begin

text \<open>
  Correctness of the agent loop: whatever the three caller functions do, the loop's own terminal
  results pass the validator that would otherwise panic; every call of a batch is started once, in
  order, or reported as unstarted; fuel only bounds the number of rounds; and the standalone adapters
  keep the protocol that the loop enforces.
\<close>

section \<open>What the validators accept\<close>

definition output_good :: "model_output \<Rightarrow> bool" where
  "output_good out \<longleftrightarrow>
     output_ok out \<and> (\<forall>m. out_message out = Some m \<longrightarrow> distinct (map call_id (msg_tool_calls m)))"

lemma unique_ids_from:
  "unique_call_ids_from b seen calls = Inr u \<longleftrightarrow>
     distinct (map call_id calls) \<and> call_id ` set calls \<inter> seen = {}"
  by (induction calls arbitrary: seen) auto

lemma unique_ids_ok [res_simps]:
  "require_unique_call_ids b calls = Inr u \<longleftrightarrow> distinct (map call_id calls)"
  by (simp add: require_unique_call_ids_def unique_ids_from)

lemma settlement_accepted:
  assumes "validate_settlement s expected = Inr s'"
  shows "s' = s"
    and "set_output s = Some out \<Longrightarrow> output_good out \<and> out_source out = expected"
    and "set_disposition s \<in> {DispoReady, DispoContinue, DispoFailure, DispoInterruption}"
    and "set_disposition s = DispoReady \<Longrightarrow>
      \<exists>out. set_output s = Some out \<and> out_status out = OutputCompleted"
    and "set_disposition s = DispoFailure \<Longrightarrow> \<not> no_detail (set_detail s) \<and>
      (\<forall>out. set_output s = Some out \<longrightarrow> out_status out = OutputErrored)"
    and "set_disposition s = DispoInterruption \<Longrightarrow> \<not> no_detail (set_detail s) \<and>
      (\<forall>out. set_output s = Some out \<longrightarrow> out_status out \<in> {OutputInterrupted, OutputCompleted})"
proof -
  from assms show "s' = s"
    by (auto simp: validate_settlement_def res_simps split: option.splits)
  from assms show "set_output s = Some out \<Longrightarrow> output_good out \<and> out_source out = expected"
    by (auto simp: validate_settlement_def res_simps output_good_def ref_eq_iff split: option.splits)
  from assms show "set_disposition s \<in> {DispoReady, DispoContinue, DispoFailure, DispoInterruption}"
    by (cases "set_disposition s") (auto simp: validate_settlement_def res_simps)
  from assms show "set_disposition s = DispoReady \<Longrightarrow>
      \<exists>out. set_output s = Some out \<and> out_status out = OutputCompleted"
    by (auto simp: validate_settlement_def require_disposition_output_def res_simps split: option.splits)
  from assms show "set_disposition s = DispoFailure \<Longrightarrow> \<not> no_detail (set_detail s) \<and>
      (\<forall>out. set_output s = Some out \<longrightarrow> out_status out = OutputErrored)"
    by (auto simp: validate_settlement_def res_simps split: option.splits)
  from assms show "set_disposition s = DispoInterruption \<Longrightarrow> \<not> no_detail (set_detail s) \<and>
      (\<forall>out. set_output s = Some out \<longrightarrow> out_status out \<in> {OutputInterrupted, OutputCompleted})"
    by (auto simp: validate_settlement_def res_simps split: option.splits)
qed

text \<open>A suffix of the calls of a completed output identifies its calls in order.\<close>

lemma call_index_nth:
  "distinct (map call_id cs) \<Longrightarrow> i < length cs \<Longrightarrow> call_index (call_id (cs ! i)) cs = Some i"
proof (induction cs arbitrary: i)
  case (Cons c cs)
  then show ?case
    by (cases i) (auto dest: nth_mem)
qed simp

lemma unstarted_suffix:
  "distinct (map call_id produced) \<Longrightarrow> list_all call_ok produced \<Longrightarrow> prev < int k \<Longrightarrow>
     unstarted_from prev produced (drop k produced) = Inr ()"
proof (induction "drop k produced" arbitrary: k prev)
  case (Cons c cs)
  then have k: "k < length produced" by (metis drop_all leI list.distinct(1))
  then have d: "drop k produced = produced ! k # drop (Suc k) produced" by (simp add: Cons_nth_drop_Suc)
  have "call_ok (produced ! k)" using Cons.prems(2) k by (simp add: list_all_length)
  moreover have "cs = drop (Suc k) produced" using Cons.hyps(2) d by simp
  then have "unstarted_from (int k) produced (drop (Suc k) produced) = Inr ()"
    using Cons.hyps(1) [of "Suc k" "int k"] Cons.prems by simp
  ultimately show ?case
    using call_index_nth [OF Cons.prems(1) k] Cons.prems(3) validate_tool_call_ok [of "produced ! k" "()"]
    unfolding d by (simp add: map_error_def)
qed simp

section \<open>Terminal results\<close>

definition terminal_ok :: "terminal_result \<Rightarrow> bool" where
  "terminal_ok res \<longleftrightarrow>
     (case term_output res of None \<Rightarrow> True | Some out \<Rightarrow> output_good out) \<and>
     (case term_status res of
        TerminalSuccess \<Rightarrow>
          no_detail (term_detail res) \<and> term_unstarted res = []
          \<and> (\<exists>out m. term_output res = Some out \<and> out_status out = OutputCompleted
               \<and> out_message out = Some m \<and> msg_tool_calls m = [])
      | TerminalFailure \<Rightarrow>
          \<not> no_detail (term_detail res) \<and> term_unstarted res = []
          \<and> (\<forall>out. term_output res = Some out \<longrightarrow> out_status out \<in> {OutputCompleted, OutputErrored})
      | TerminalInterruption \<Rightarrow>
          \<not> no_detail (term_detail res)
          \<and> (\<forall>out. term_output res = Some out \<longrightarrow> out_status out \<in> {OutputCompleted, OutputInterrupted})
          \<and> (term_unstarted res \<noteq> [] \<longrightarrow>
               (\<exists>out m. term_output res = Some out \<and> out_status out = OutputCompleted
                  \<and> out_message out = Some m \<and> suffix (term_unstarted res) (msg_tool_calls m)))
      | OtherTerminal _ \<Rightarrow> False)"

lemma output_good_validates:
  "output_good out \<Longrightarrow>
     rbind (map_error f (validate_output out)) (\<lambda>_.
       case out_message out of None \<Rightarrow> Inr ()
       | Some m \<Rightarrow> require_unique_call_ids b (msg_tool_calls m)) = Inr ()"
  by (auto simp: output_good_def res_simps split: option.splits)

lemma completed_message:
  "output_good out \<Longrightarrow> out_status out = OutputCompleted \<Longrightarrow>
     \<exists>m. out_message out = Some m \<and> list_all call_ok (msg_tool_calls m) \<and> distinct (map call_id (msg_tool_calls m))"
  by (auto simp: output_good_def output_ok_def assistant_ok_def)

lemma terminal_ok_validates:
  assumes "terminal_ok res"
  shows "validate_terminal_result res = Inr ()"
proof -
  have out: "(case term_output res of None \<Rightarrow> Inr ()
        | Some out \<Rightarrow>
            rbind (map_error (\<lambda>_. ProtocolError BAgent ''terminal last output violates model-output invariants'')
                     (validate_output out)) (\<lambda>_.
              case out_message out of None \<Rightarrow> Inr ()
              | Some m \<Rightarrow> require_unique_call_ids BAgent (msg_tool_calls m))) = Inr ()"
  proof (cases "term_output res")
    case (Some out)
    then have "output_good out" using assms by (simp add: terminal_ok_def)
    then show ?thesis unfolding Some option.case by (rule output_good_validates)
  qed simp
  have unstarted: "validate_unstarted_calls (term_unstarted res) (term_output res) = Inr ()"
    if int: "term_status res = TerminalInterruption"
  proof (cases "term_unstarted res = []")
    case False
    with assms int obtain o1 m where o1: "term_output res = Some o1" "out_status o1 = OutputCompleted"
      "out_message o1 = Some m" "suffix (term_unstarted res) (msg_tool_calls m)" "output_good o1"
      by (auto simp: terminal_ok_def)
    then obtain k where "term_unstarted res = drop k (msg_tool_calls m)"
      by (metis suffix_drop suffix_take append_eq_conv_conj suffix_def)
    moreover have "list_all call_ok (msg_tool_calls m)" "distinct (map call_id (msg_tool_calls m))"
      using completed_message [OF o1(5,2)] o1(3) by auto
    ultimately show ?thesis
      using o1 False unstarted_suffix [of "msg_tool_calls m" "-1" k]
      by (simp add: validate_unstarted_calls_def)
  qed (simp add: validate_unstarted_calls_def)
  show ?thesis
    unfolding validate_terminal_result_def out rbind.simps
    using assms unstarted
    by (cases "term_status res") (auto simp: terminal_ok_def split: option.splits)
qed

lemma finish_ok: "terminal_ok res \<Longrightarrow> finish_terminal res = Terminal res"
  by (simp add: finish_terminal_def terminal_ok_validates)

text \<open>A step that panics nowhere: its terminal results satisfy the table and it carries good outputs.\<close>

definition step_ok :: "('w, 'e) step \<Rightarrow> bool" where
  "step_ok s \<longleftrightarrow>
     (case s of
        Stop oc w \<Rightarrow> oc \<noteq> Panic \<and> (\<forall>res. oc = Terminal res \<longrightarrow> terminal_ok res)
      | Next out w \<Rightarrow> (case out of None \<Rightarrow> True | Some o1 \<Rightarrow> output_good o1))"

lemma step_ok_simps [simp]:
  "step_ok (Stop (Terminal res) w) \<longleftrightarrow> terminal_ok res"
  "step_ok (Stop (CallerError e) w)" "step_ok (Stop (AgentError e') w)" "\<not> step_ok (Stop Panic w)"
  "step_ok (Next None w)" "step_ok (Next (Some out) w) \<longleftrightarrow> output_good out"
  by (simp_all add: step_ok_def)

lemma interruption_ok:
  assumes "case out of None \<Rightarrow> unstarted = []
     | Some o1 \<Rightarrow> output_good o1 \<and> out_status o1 \<in> {OutputCompleted, OutputInterrupted}
         \<and> (unstarted \<noteq> [] \<longrightarrow> out_status o1 = OutputCompleted
              \<and> suffix unstarted (msg_tool_calls (the (out_message o1))))"
    and "\<not> no_detail d"
  shows "step_ok (Stop (interruption_terminal d out unstarted) w)"
proof -
  let ?res = "\<lparr>term_status = TerminalInterruption, term_output = out, term_unstarted = unstarted, term_detail = d\<rparr>"
  have "terminal_ok ?res"
  proof (cases out)
    case (Some o1)
    show ?thesis
    proof (cases "unstarted = []")
      case False
      with assms Some obtain m where "out_message o1 = Some m"
        using completed_message [of o1] by auto
      with False assms Some show ?thesis by (simp add: terminal_ok_def)
    qed (use assms Some in \<open>simp add: terminal_ok_def\<close>)
  qed (use assms in \<open>simp add: terminal_ok_def\<close>)
  then show ?thesis unfolding interruption_terminal_def by (simp add: finish_ok)
qed

lemma retained_ok:
  assumes "case out of None \<Rightarrow> True | Some o1 \<Rightarrow> output_good o1"
  shows "step_ok (Stop (retained_interruption out []) w)"
  using assms
  by (auto simp: retained_interruption_def detail_interrupted_def split: option.splits intro!: interruption_ok)

section \<open>No round panics\<close>

lemma dispatch_ok:
  fixes ivc :: "('w, 'e) invocation"
  assumes "output_good out" "out_status out = OutputCompleted"
  shows "suffix calls (msg_tool_calls (the (out_message out))) \<Longrightarrow> step_ok (dispatch_calls ivc out names calls w)"
proof (induction calls arbitrary: w)
  case Nil
  then show ?case using assms by (simp add: step_ok_def)
next
  case (Cons call rest)
  have rest: "suffix rest (msg_tool_calls (the (out_message out)))"
    using Cons.prems by (rule suffix_ConsD)
  have stop: "step_ok (Stop (interruption_terminal detail_interrupted (Some out) cs) w :: ('w, 'e) step)"
    if "suffix cs (msg_tool_calls (the (out_message out)))" for cs w
    by (rule interruption_ok) (use assms that in \<open>auto simp: detail_interrupted_def\<close>)
  obtain c w1 where p: "poll ivc w = (c, w1)" by fastforce
  obtain r w2 where t: "tool_effect ivc call names w1 = (r, w2)" by fastforce
  show ?case
    using stop [OF Cons.prems] stop [OF rest] Cons.IH [OF rest]
    by (simp add: p t Let_def split: sum.split)
qed

lemma settle_ok:
  fixes ivc :: "('w, 'e) invocation"
  assumes "validate_settlement s (expected_model ivc) = Inr s'"
  shows "step_ok (settle ivc names s w)"
proof (cases "set_disposition s")
  case DispoReady
  note acc = settlement_accepted [OF assms]
  obtain out where out: "set_output s = Some out" "out_status out = OutputCompleted"
    using acc(4) [OF DispoReady] by blast
  have good: "output_good out" using acc(2) [OF out(1)] by blast
  obtain m where m: "out_message out = Some m" using completed_message [OF good out(2)] by blast
  obtain c w1 where p: "poll ivc w = (c, w1)" by fastforce
  have success: "terminal_ok \<lparr>term_status = TerminalSuccess, term_output = Some out, term_unstarted = [], term_detail = Text []\<rparr>"
    if "msg_tool_calls m = []" using that out good m by (simp add: terminal_ok_def)
  have stop: "step_ok (Stop (interruption_terminal detail_interrupted (Some out) []) w1 :: ('w, 'e) step)"
    by (rule interruption_ok) (use good out(2) in \<open>auto simp: detail_interrupted_def\<close>)
  show ?thesis
    using DispoReady out m p success stop dispatch_ok [OF good out(2), of "msg_tool_calls m" ivc names w]
    by (auto simp: settle_def Let_def finish_ok)
next
  case DispoContinue
  then show ?thesis
    using settlement_accepted(2) [OF assms] by (auto simp: settle_def step_ok_def split: option.split)
next
  case DispoFailure
  note acc = settlement_accepted [OF assms]
  have "terminal_ok \<lparr>term_status = TerminalFailure, term_output = set_output s, term_unstarted = [], term_detail = set_detail s\<rparr>"
    using acc(5) [OF DispoFailure] acc(2) by (auto simp: terminal_ok_def split: option.split)
  with DispoFailure show ?thesis by (simp add: settle_def finish_ok step_ok_def)
next
  case DispoInterruption
  note acc = settlement_accepted [OF assms]
  show ?thesis unfolding settle_def Let_def DispoInterruption disposition.case
    by (rule interruption_ok) (use acc(6) [OF DispoInterruption] acc(2) in \<open>auto split: option.splits\<close>)
next
  case (OtherDispo d)
  then show ?thesis using settlement_accepted(3) [OF assms] by simp
qed

lemma callback_total: "callback_assemble source deltas read_err ctx_err p \<noteq> None"
proof -
  have "assemble source deltas read_err ctx_err \<noteq> Inr None"
    using assemble_final [of source deltas read_err ctx_err] by (cases "ref_complete source") (auto simp: assemble_def)
  then show ?thesis
    by (auto simp: callback_assemble_def Let_def split: sum.split option.split)
qed

lemma run_effect_total: "\<exists>r. run_effect eff p = Some r"
proof (induction eff arbitrary: p)
  case (Callback source deltas read_err ctx_err k)
  obtain p' a where "callback_assemble source deltas read_err ctx_err p = Some (p', a)"
    using callback_total [of source deltas read_err ctx_err p] by fastforce
  with Callback show ?case by (auto intro: rangeI)
qed simp

lemma run_model_ok: "step_ok (run_model ivc owned w)"
proof -
  obtain cb r w1 where eff: "run_effect (model_effect ivc owned w)
      \<lparr>cb_expected = expected_model ivc, cb_calls = 0, cb_failure = None\<rparr> = Some (cb, r, w1)"
    using run_effect_total by (metis prod_cases3)
  show ?thesis
    by (simp add: run_model_def eff split: sum.split option.split)
      (auto simp: settle_ok)
qed

lemma run_round_ok:
  assumes "case last_settled of None \<Rightarrow> True | Some o1 \<Rightarrow> output_good o1"
  shows "step_ok (run_round ivc last_settled w)"
proof -
  obtain c1 w1 where 1: "poll ivc w = (c1, w1)" by fastforce
  obtain r w2 where 2: "request_source ivc w1 = (r, w2)" by fastforce
  obtain c3 w3 where 3: "poll ivc w2 = (c3, w3)" by fastforce
  note stop = retained_ok [OF assms]
  show ?thesis
    by (simp add: run_round_def 1 2 3 Let_def stop run_model_ok split: sum.split)
qed

lemma run_loop_ok:
  "case last_settled of None \<Rightarrow> True | Some o1 \<Rightarrow> output_good o1 \<Longrightarrow>
     run_loop fuel ivc last_settled w = Some (oc, w') \<Longrightarrow>
     oc \<noteq> Panic \<and> (\<forall>res. oc = Terminal res \<longrightarrow> terminal_ok res)"
proof (induction fuel ivc last_settled w rule: run_loop.induct)
  case (2 fuel ivc last_settled w)
  have "step_ok (run_round ivc last_settled w)" using run_round_ok [OF 2(2)] .
  with 2 show ?case
    by (cases "run_round ivc last_settled w") (auto simp: step_ok_def)
qed simp

section \<open>Every call is accounted for\<close>

text \<open>The same invocation, with a log of the calls handed to the tool effect.\<close>

definition traced :: "('w, 'e) invocation \<Rightarrow> ('w \<times> tool_call list, 'e) invocation" where
  "traced ivc =
     \<lparr>expected_model = expected_model ivc,
      poll = (\<lambda>(w, l). let (c, w') = poll ivc w in (c, (w', l))),
      request_source = (\<lambda>(w, l). let (r, w') = request_source ivc w in (r, (w', l))),
      model_effect = (\<lambda>req (w, l). map_effect (\<lambda>w'. (w', l)) id (model_effect ivc req w)),
      tool_effect = (\<lambda>call names (w, l). let (r, w') = tool_effect ivc call names w in (r, (w', l @ [call])))\<rparr>"

lemma traced_simps:
  "poll (traced ivc) (w, l) = (let (c, w') = poll ivc w in (c, (w', l)))"
  "tool_effect (traced ivc) call names (w, l) = (let (r, w') = tool_effect ivc call names w in (r, (w', l @ [call])))"
  by (simp_all add: traced_def)

definition accounted :: "tool_call list \<Rightarrow> tool_call list \<Rightarrow> ('w \<times> tool_call list, 'e) step \<Rightarrow> bool" where
  "accounted calls l s \<longleftrightarrow>
     (\<exists>started rest. calls = started @ rest \<and>
        (case s of
           Stop oc w \<Rightarrow> snd w = l @ started \<and> (\<forall>res. oc = Terminal res \<longrightarrow> term_unstarted res = rest)
         | Next out w \<Rightarrow> snd w = l @ started \<and> rest = []))"

lemma interruption_unstarted: "interruption_terminal d out cs = Terminal res \<Longrightarrow> term_unstarted res = cs"
  by (auto simp: interruption_terminal_def finish_terminal_def split: sum.splits)

lemma accounted_Cons: "accounted rest (l @ [call]) s \<Longrightarrow> accounted (call # rest) l s"
proof -
  assume "accounted rest (l @ [call]) s"
  then obtain started rest' where s: "rest = started @ rest'"
    "case s of
       Stop oc w \<Rightarrow> snd w = (l @ [call]) @ started \<and> (\<forall>res. oc = Terminal res \<longrightarrow> term_unstarted res = rest')
     | Next out w \<Rightarrow> snd w = (l @ [call]) @ started \<and> rest' = []"
    unfolding accounted_def by blast
  then show ?thesis
    unfolding accounted_def
    by (intro exI [of _ "call # started"] exI [of _ rest']) (auto split: step.splits)
qed

lemma accounted_none:
  "(\<forall>res. oc = Terminal res \<longrightarrow> term_unstarted res = calls) \<Longrightarrow> accounted calls l (Stop oc (w, l))"
  unfolding accounted_def by (intro exI [of _ "[]"] exI [of _ calls]) simp

lemma accounted_one:
  "(\<forall>res. oc = Terminal res \<longrightarrow> term_unstarted res = rest) \<Longrightarrow> accounted (call # rest) l (Stop oc (w, l @ [call]))"
  by (rule accounted_Cons) (rule accounted_none)

lemma dispatch_accounted: "accounted calls l (dispatch_calls (traced ivc) out names calls (w, l))"
proof (induction calls arbitrary: w l)
  case Nil
  show ?case by (simp add: accounted_def)
next
  case (Cons call rest)
  obtain c w1 where p: "poll ivc w = (c, w1)" by fastforce
  obtain r w2 where t: "tool_effect ivc call names w1 = (r, w2)" by fastforce
  have step: "dispatch_calls (traced ivc) out names (call # rest) (w, l) =
     (if c then Stop (interruption_terminal detail_interrupted (Some out) (call # rest)) (w1, l)
      else case r of
          Inl e \<Rightarrow> Stop (CallerError e) (w2, l @ [call])
        | Inr res \<Rightarrow>
            (case validate_tool_result res (call_id call) of
               Inl e \<Rightarrow> Stop (AgentError e) (w2, l @ [call])
             | Inr _ \<Rightarrow>
                 if res_status res = ResultInterrupted
                 then Stop (interruption_terminal detail_interrupted (Some out) rest) (w2, l @ [call])
                 else dispatch_calls (traced ivc) out names rest (w2, l @ [call])))"
    by (simp add: traced_simps p t)
  show ?case
    unfolding step
    by (simp split: sum.split)
      (auto intro!: accounted_none accounted_one accounted_Cons [OF Cons.IH] dest: interruption_unstarted)
qed

section \<open>Fuel\<close>

lemma run_loop_mono: "run_loop n ivc last_settled w = Some r \<Longrightarrow> n \<le> m \<Longrightarrow> run_loop m ivc last_settled w = Some r"
proof (induction n arbitrary: m last_settled w)
  case (Suc n)
  from Suc.prems(2) obtain k where m: "m = Suc k" "n \<le> k" by (cases m) auto
  show ?case
  proof (cases "run_round ivc last_settled w")
    case (Next last' w')
    with Suc.prems(1) have "run_loop n ivc last' w' = Some r" by simp
    from Suc.IH [OF this m(2)] Next m(1) show ?thesis by simp
  qed (use Suc.prems(1) m(1) in simp)
qed simp

text \<open>A measure on the caller's world that each ready request lowers and nothing raises.\<close>

definition request_bounded :: "('w, 'e) invocation \<Rightarrow> ('w \<Rightarrow> nat) \<Rightarrow> bool" where
  "request_bounded ivc left \<longleftrightarrow>
     (\<forall>w. left (snd (poll ivc w)) \<le> left w)
     \<and> (\<forall>w rr w'. request_source ivc w = (Inr rr, w') \<longrightarrow> ready_request rr \<noteq> None \<longrightarrow> left w' < left w)
     \<and> (\<forall>call names w. left (snd (tool_effect ivc call names w)) \<le> left w)
     \<and> (\<forall>req w p cb r w'. run_effect (model_effect ivc req w) p = Some (cb, r, w') \<longrightarrow> left w' \<le> left w)"

lemma dispatch_bounded:
  assumes "request_bounded ivc left"
  shows "dispatch_calls ivc out names calls w = Next last' w' \<Longrightarrow> left w' \<le> left w"
proof (induction calls arbitrary: w)
  case (Cons call rest)
  obtain c w1 where p: "poll ivc w = (c, w1)" by fastforce
  obtain r w2 where t: "tool_effect ivc call names w1 = (r, w2)" by fastforce
  have "left w1 \<le> left w" using assms p unfolding request_bounded_def by (metis snd_conv)
  moreover have "left w2 \<le> left w1" using assms t unfolding request_bounded_def by (metis snd_conv)
  ultimately show ?case
    using Cons by (auto simp: p t split: if_splits sum.splits dest!: Cons.IH)
qed simp

lemma settle_bounded:
  assumes "request_bounded ivc left" "settle ivc names s w = Next last' w'"
  shows "left w' \<le> left w"
proof -
  obtain c w1 where p: "poll ivc w = (c, w1)" by fastforce
  show ?thesis
    using assms(2) dispatch_bounded [OF assms(1)]
    by (auto simp: settle_def Let_def p split: disposition.splits if_splits)
qed

lemma run_round_bounded:
  assumes "request_bounded ivc left" "run_round ivc last_settled w = Next last' w'"
  shows "left w' < left w"
proof -
  obtain c1 w1 where 1: "poll ivc w = (c1, w1)" by fastforce
  obtain r w2 where 2: "request_source ivc w1 = (r, w2)" by fastforce
  obtain c3 w3 where 3: "poll ivc w2 = (c3, w3)" by fastforce
  from assms(2) obtain rr owned where r: "r = Inr rr" "ready_request rr \<noteq> None"
    and model: "run_model ivc owned w3 = Next last' w'"
    by (auto simp: run_round_def 1 2 3 Let_def split: sum.splits if_splits)
  from model obtain cb s w4 where eff: "run_effect (model_effect ivc owned w3)
      \<lparr>cb_expected = expected_model ivc, cb_calls = 0, cb_failure = None\<rparr> = Some (cb, Inr s, w4)"
    and set: "settle ivc (map def_name (req_tools owned)) s w4 = Next last' w'"
    by (auto simp: run_model_def split: sum.splits option.splits)
  have "left w' \<le> left w4" using settle_bounded [OF assms(1) set] .
  also have "\<dots> \<le> left w3" using assms(1) eff unfolding request_bounded_def by blast
  also have "\<dots> \<le> left w2" using assms(1) 3 unfolding request_bounded_def by (metis snd_conv)
  also have "\<dots> < left w1" using assms(1) 2 r unfolding request_bounded_def by blast
  also have "\<dots> \<le> left w" using assms(1) 1 unfolding request_bounded_def by (metis snd_conv)
  finally show ?thesis .
qed

lemma run_loop_returns:
  "request_bounded ivc left \<Longrightarrow> \<exists>r. run_loop (Suc (left w)) ivc last_settled w = Some r"
proof (induction "left w" arbitrary: w last_settled rule: less_induct)
  case less
  show ?case
  proof (cases "run_round ivc last_settled w")
    case (Next last' w')
    then have smaller: "left w' < left w" using run_round_bounded [OF less.prems] by blast
    obtain r where "run_loop (Suc (left w')) ivc last' w' = Some r"
      using less.hyps [OF smaller less.prems] by blast
    then have "run_loop (left w) ivc last' w' = Some r"
      by (rule run_loop_mono) (use smaller in simp)
    with Next show ?thesis by simp
  qed simp
qed

section \<open>The standalone adapters\<close>

lemma adapter_settles:
  assumes "ref_complete source" "\<And>req w msg c w'. transport req w = (Refused msg c, w') \<Longrightarrow> msg \<noteq> []"
  shows "\<exists>cb s w'. run_effect (adapt_model_effect source transport ctx_done req w)
         \<lparr>cb_expected = source, cb_calls = 0, cb_failure = None\<rparr> = Some (cb, Inr s, w')
     \<and> settlement_failure cb (set_output s) = None \<and> validate_settlement s source = Inr s"
proof -
  obtain a w1 where a: "transport req w = (a, w1)" by fastforce
  show ?thesis
  proof (cases a)
    case (Refused msg c)
    then have "msg \<noteq> []" using assms(2) a by blast
    then show ?thesis
      using assms(1) a Refused
      by (cases "ctx_done w1")
        (auto simp: adapt_model_effect_def settlement_failure_def validate_settlement_def detail_interrupted_def)
  next
    case (Accepted deltas read_err ctx_err)
    obtain out where out: "assemble source deltas read_err ctx_err = Inr (Some out)"
      "final_output source (fold receive deltas (new_assembly_state source)) out"
      using assemble_final [OF assms(1)] by blast
    then have ok: "output_ok out" "out_source out = source"
      "(case out_message out of None \<Rightarrow> Inr () | Some m \<Rightarrow> require_unique_call_ids BModel (msg_tool_calls m)) = Inr ()"
      by (auto simp: final_output_def res_simps split: option.splits)
    then have valid: "validate_output out = Inr ()" by (simp add: validate_output_ok)
    have "out_status out \<in> {OutputCompleted, OutputErrored, OutputInterrupted}"
      "out_status out \<noteq> OutputCompleted \<Longrightarrow> \<not> no_detail (out_detail out)"
      using ok(1) by (auto simp: output_ok_def split: output_status.splits)
    then show ?thesis
      using assms(1) a Accepted out(1) ok valid
      by (auto simp: adapt_model_effect_def callback_assemble_def settlement_failure_def
          validate_settlement_def require_disposition_output_def map_error_def)
  qed
qed

lemma finish_final: "finish_terminal res = Terminal res' \<Longrightarrow> validate_terminal_result res = Inr () \<and> res' = res"
  by (auto simp: finish_terminal_def split: sum.splits)

lemma text_completed_ok:
  assumes "ref_complete source" "s \<noteq> []"
  shows "output_good (completed source (text_message source s))"
  using assms
  by (simp add: output_good_def output_ok_def completed_def text_message_def assistant_ok_def part_ok_def
      extra_ok_def has_assistant_payload_def content_part_has_payload_def)

lemma run_text:
  fixes ivc :: "('w, agent_error) invocation"
  assumes "ref_complete source" "concat (t # ts) \<noteq> []" "validate_request req = Inr ()"
    and "expected_model ivc = source" "poll ivc = (\<lambda>w. (False, w))"
    and "request_source ivc w = (Inr \<lparr>ready_request = Some req, request_interrupted = False\<rparr>, w1)"
    and "model_effect ivc = adapt_model_effect source transport ctx_done"
    and "transport req w1 = (Accepted (map text_delta (t # ts) @ [finish_delta ''stop'']) read_err ctx_err, w2)"
  shows "run (Suc fuel) ivc w = Some (Terminal
     \<lparr>term_status = TerminalSuccess, term_output = Some (completed source (text_message source (concat (t # ts)))),
      term_unstarted = [], term_detail = Text []\<rparr>, w2)"
proof -
  define out where "out = completed source (text_message source (concat (t # ts)))"
  have asm: "assemble source (map text_delta (t # ts) @ [finish_delta ''stop'']) read_err ctx_err = Inr (Some out)"
    unfolding out_def by (rule text_assembled [OF assms(1,2)])
  have good: "output_good out" unfolding out_def by (rule text_completed_ok [OF assms(1,2)])
  have st: "out_status out = OutputCompleted" "out_source out = source"
    "out_message out = Some (text_message source (concat (t # ts)))" "msg_tool_calls (text_message source (concat (t # ts))) = []"
    by (simp_all add: out_def completed_def text_message_def)
  let ?s = "\<lparr>set_disposition = DispoReady, set_output = Some out, set_detail = Text []\<rparr>"
  have "validate_settlement ?s source = Inr ?s"
    using good validate_output_ok [of out "()"] unique_ids_ok [of BModel "[]" "()"]
    by (simp only: validate_settlement_def require_disposition_output_def output_good_def map_error_def
        st settlement.simps disposition.case option.case rbind.simps ensure_True sum.case simp_thms
        no_detail_simps insert_iff empty_iff refl map_is_Nil_conv list.map distinct.simps)
  moreover have "run_effect (adapt_model_effect source transport ctx_done req w1)
      \<lparr>cb_expected = source, cb_calls = 0, cb_failure = None\<rparr> =
      Some (\<lparr>cb_expected = source, cb_calls = 1, cb_failure = None\<rparr>, Inr ?s, w2)"
    using assms(1,8) asm by (simp add: adapt_model_effect_def callback_assemble_def st)
  moreover have "terminal_ok \<lparr>term_status = TerminalSuccess, term_output = Some out, term_unstarted = [], term_detail = Text []\<rparr>"
    using good st by (simp add: terminal_ok_def)
  moreover have "new_request req = Inr req" using assms(3) by (simp add: new_request_def)
  ultimately show ?thesis
    using assms(1,4-7) unfolding out_def [symmetric]
    by (simp add: run_def run_round_def run_model_def settlement_failure_def settle_def Let_def st
        st [simplified] finish_ok)
qed

section \<open>Properties\<close>


definition example_request :: request where
  "example_request = \<lparr>req_messages = [], req_tools = []\<rparr>"

definition example_run :: "(nat, agent_error) invocation" where
  "example_run =
     \<lparr>expected_model = example_ref, poll = (\<lambda>w. (False, w)),
      request_source = (\<lambda>w. (Inr (if w = 0 then \<lparr>ready_request = None, request_interrupted = True\<rparr>
         else \<lparr>ready_request = Some example_request, request_interrupted = False\<rparr>), w - 1)),
      model_effect = adapt_model_effect example_ref
         (\<lambda>req w. (Accepted (map text_delta [''hi'', ''!''] @ [finish_delta ''stop'']) None None, w)) (\<lambda>w. (False, w)),
      tool_effect = adapt_tools Map.empty\<rparr>"

lemma example_request_valid: "validate_request example_request = Inr ()"
  by (simp add: validate_request_def example_request_def indexed_error_def)



text \<open>C38: The loop returns when its request source dries up. If every ready request lowers a measure of the
  caller's world that no other boundary raises, a run ends within as many rounds as the measure
  allows, with a result.\<close>

theorem run_returns:
  assumes "request_bounded ivc left"
  shows "\<exists>r. run (Suc (left w)) ivc w = Some r"
  using run_loop_returns [OF assms] by (simp add: run_def)

lemma adapter_world:
  "run_effect (adapt_model_effect source transport (\<lambda>w. (False, w)) req w) p = Some (cb, r, w') \<Longrightarrow>
     w' = snd (transport req w) \<or> w' = w"
  by (auto simp: adapt_model_effect_def case_prod_beta split: attempt.splits sum.splits if_splits option.splits)

theorem run_returns_witness: "\<exists>r. run 3 example_run 2 = Some r"
proof -
  have "request_bounded example_run (\<lambda>w. w)"
    unfolding request_bounded_def
  proof (intro conjI allI impI)
    fix req w p cb r w'
    assume "run_effect (model_effect example_run req w) p = Some (cb, r, w')"
    then show "w' \<le> w" using adapter_world by (fastforce simp: example_run_def)
  qed (auto simp: example_run_def adapt_tools_def Let_def split: if_splits)
  from run_returns [OF this, of 2] show ?thesis by (simp add: numeral_3_eq_3 [symmetric] del: run_loop.simps)
qed

text \<open>C37: The standalone adapter keeps the loop's protocol. For a complete identity and a transport that
  explains its refusals, the adapted model effect always settles (it never fails as a Go error), it
  uses the assembly callback exactly as the protocol demands, and its settlement passes the
  settlement validator for that identity.\<close>

theorem adapted_model_effect_settles:
  assumes "ref_complete source" "\<And>req w msg c w'. transport req w = (Refused msg c, w') \<Longrightarrow> msg \<noteq> []"
  shows "\<exists>cb s w'. run_effect (adapt_model_effect source transport ctx_done req w)
         \<lparr>cb_expected = source, cb_calls = 0, cb_failure = None\<rparr> = Some (cb, Inr s, w')
     \<and> settlement_failure cb (set_output s) = None \<and> validate_settlement s source = Inr s"
  by (rule adapter_settles [OF assms])

theorem adapted_model_effect_settles_witness:
  "\<exists>cb s w'. run_effect (adapt_model_effect example_ref (\<lambda>req w. (Refused ''503'' False, w)) (\<lambda>w. (False, w)) example_request (0::nat))
         \<lparr>cb_expected = example_ref, cb_calls = 0, cb_failure = None\<rparr> = Some (cb, Inr s, w')
     \<and> settlement_failure cb (set_output s) = None \<and> validate_settlement s example_ref = Inr s"
  by (rule adapted_model_effect_settles [OF example_ref_complete]) auto

text \<open>The whole path of a text answer. With the adapters, an uncancelled run whose transport accepts a
  stream of text pieces ended by \<open>stop\<close> returns success, with the concatenation of the pieces as the
  only content of its output, also when the connection breaks right after the finish reason.\<close>

theorem run_answers_text:
  fixes ivc :: "('w, agent_error) invocation"
  assumes "ref_complete source" "concat (t # ts) \<noteq> []" "validate_request req = Inr ()"
    and "expected_model ivc = source" "poll ivc = (\<lambda>w. (False, w))"
    and "request_source ivc w = (Inr \<lparr>ready_request = Some req, request_interrupted = False\<rparr>, w1)"
    and "model_effect ivc = adapt_model_effect source transport ctx_done"
    and "transport req w1 = (Accepted (map text_delta (t # ts) @ [finish_delta ''stop'']) read_err ctx_err, w2)"
  shows "run (Suc fuel) ivc w = Some (Terminal
     \<lparr>term_status = TerminalSuccess, term_output = Some (completed source (text_message source (concat (t # ts)))),
      term_unstarted = [], term_detail = Text []\<rparr>, w2)"
  by (rule run_text [OF assms])

theorem run_answers_text_witness:
  "run 1 example_run 1 = Some (Terminal
     \<lparr>term_status = TerminalSuccess, term_output = Some (completed example_ref (text_message example_ref ''hi!'')),
      term_unstarted = [], term_detail = Text []\<rparr>, 0)"
  using run_answers_text [OF example_ref_complete _ example_request_valid, of "''hi''" "[''!'']" example_run 1 0
    "\<lambda>req w. (Accepted (map text_delta [''hi'', ''!''] @ [finish_delta ''stop'']) None None, w)"
    "\<lambda>w. (False, w)" None None 0 0]
  by (simp add: example_run_def)

end
