(* ===== verification/Patch_Parse.thy ===== *)
theory Patch_Parse
  imports Go_Text
begin

text \<open>
  The parser of the patch format of the tool \<open>apply_patch\<close>
  (\<open>src/internal/tool/apply_patch_parse.go\<close>): the envelope, the three sections (Add, Update with an
  optional Move, Delete), the hunks of an update and every error. A loop over \<open>body[i]\<close> is a
  recursion over the lines that are left. The printer \<open>print_patch\<close> is the reference for the format.
\<close>

section \<open>The data\<close>

datatype op_kind = OpAdd | OpUpdate | OpDelete

datatype line_kind = LineContext | LineAdd | LineRemove

record hunk_line =
  line_kind :: line_kind
  line_text :: string

record hunk =
  anchor :: string
  hunk_lines :: "hunk_line list"

record file_op =
  op_kind :: op_kind
  op_path :: string
  move_path :: string
  op_hunks :: "hunk list"

datatype patch_error =
  PatchEmpty
| PatchNoBegin
| PatchNoEnd
| PatchNoOps
| PatchDupPath string
| PatchUnknownHead string
| PatchAddBody string
| PatchHunkLine string
| PatchHunkExpected string
| PatchEmptyPath op_kind
| PatchEmptyMove
| PatchAddNoContent string
| PatchExpectedHunk string
| PatchHunkNoBody
| PatchUpdateNoHunks string

definition mk_line :: "line_kind \<Rightarrow> string \<Rightarrow> hunk_line" where
  "mk_line k t = \<lparr>line_kind = k, line_text = t\<rparr>"

definition begin_marker :: string where "begin_marker = ''*** Begin Patch''"
definition end_marker :: string where "end_marker = ''*** End Patch''"
definition add_prefix :: string where "add_prefix = ''*** Add File: ''"
definition update_prefix :: string where "update_prefix = ''*** Update File: ''"
definition delete_prefix :: string where "delete_prefix = ''*** Delete File: ''"
definition move_prefix :: string where "move_prefix = ''*** Move to: ''"
definition hunk_prefix :: string where "hunk_prefix = ''@@''"
definition section_prefix :: string where "section_prefix = ''*** ''"

lemmas marker_defs = begin_marker_def end_marker_def add_prefix_def update_prefix_def delete_prefix_def
  move_prefix_def hunk_prefix_def section_prefix_def

section \<open>The parser\<close>

text \<open>The body of an Add section: one hunk for each line.\<close>

fun add_body :: "string list \<Rightarrow> patch_error + (hunk list \<times> string list)" where
  "add_body [] = Inr ([], [])"
| "add_body (b # body) =
     (if prefix section_prefix b then Inr ([], b # body)
      else if \<not> prefix ''+'' b then Inl (PatchAddBody b)
      else rbind (add_body body) (\<lambda>(hs, rest).
        Inr (\<lparr>anchor = [], hunk_lines = [mk_line LineAdd (tl b)]\<rparr> # hs, rest)))"

definition hunk_line_of :: "string \<Rightarrow> patch_error + hunk_line" where
  "hunk_line_of b =
     (case b of
        [] \<Rightarrow> Inl (PatchHunkLine [])
      | c # t \<Rightarrow>
          (if c = CHR '' '' then Inr (mk_line LineContext t)
           else if c = CHR ''-'' then Inr (mk_line LineRemove t)
           else if c = CHR ''+'' then Inr (mk_line LineAdd t)
           else Inl (PatchHunkLine b)))"

fun hunk_body :: "string list \<Rightarrow> patch_error + (hunk_line list \<times> string list)" where
  "hunk_body [] = Inr ([], [])"
| "hunk_body (b # body) =
     (if prefix section_prefix b \<or> prefix hunk_prefix b then Inr ([], b # body)
      else rbind (hunk_line_of b) (\<lambda>l.
        rbind (hunk_body body) (\<lambda>(ls, rest). Inr (l # ls, rest))))"

lemma hunk_body_shorter: "hunk_body body = Inr (ls, rest) \<Longrightarrow> length rest \<le> length body"
  by (induction body arbitrary: ls rest) (fastforce simp: res_simps split: if_splits)+

lemma add_body_shorter: "add_body body = Inr (hs, rest) \<Longrightarrow> length rest \<le> length body"
  by (induction body arbitrary: hs rest) (fastforce simp: res_simps split: if_splits)+

function update_hunks :: "string list \<Rightarrow> patch_error + (hunk list \<times> string list)" where
  "update_hunks [] = Inr ([], [])"
| "update_hunks (b # body) =
     (if prefix section_prefix b then Inr ([], b # body)
      else if \<not> prefix hunk_prefix b then Inl (PatchExpectedHunk b)
      else if body \<noteq> [] \<and> (prefix section_prefix (hd body) \<or> prefix hunk_prefix (hd body))
           then Inl PatchHunkNoBody
      else (case hunk_body body of
              Inl e \<Rightarrow> Inl e
            | Inr (ls, rest) \<Rightarrow>
                (if ls = [] then Inl PatchHunkNoBody
                 else rbind (update_hunks rest) (\<lambda>(hs, rest').
                   Inr (\<lparr>anchor = trim_space (trim_prefix hunk_prefix b), hunk_lines = ls\<rparr> # hs, rest')))))"
  by pat_completeness auto
termination
  by (relation "measure length") (auto dest: hunk_body_shorter)

lemma update_hunks_shorter: "update_hunks body = Inr (hs, rest) \<Longrightarrow> length rest \<le> length body"
proof (induction body arbitrary: hs rest rule: update_hunks.induct)
  case (2 b body)
  then show ?case
    by (fastforce simp: res_simps dest: hunk_body_shorter split: if_splits sum.splits)
qed simp

text \<open>The three sections. Each starts at the header line, which has its prefix.\<close>

definition header_path :: "op_kind \<Rightarrow> string \<Rightarrow> string set \<Rightarrow> string \<Rightarrow> patch_error + string" where
  "header_path k p seen line =
     (let path = trim_space (trim_prefix p line)
      in if path = [] then Inl (PatchEmptyPath k)
         else if path \<in> seen then Inl (PatchDupPath path)
         else Inr path)"

definition move_line :: "string set \<Rightarrow> string list \<Rightarrow> patch_error + (string \<times> string list)" where
  "move_line seen body =
     (case body of
        [] \<Rightarrow> Inr ([], [])
      | b # rest \<Rightarrow>
          (if prefix move_prefix b then
             (let mv = trim_space (trim_prefix move_prefix b)
              in if mv = [] then Inl PatchEmptyMove
                 else if mv \<in> seen then Inl (PatchDupPath mv)
                 else Inr (mv, rest))
           else Inr ([], body)))"

definition parse_add :: "string set \<Rightarrow> string \<Rightarrow> string list \<Rightarrow> patch_error + (file_op \<times> string list)" where
  "parse_add seen line body =
     rbind (header_path OpAdd add_prefix seen line) (\<lambda>path.
     rbind (add_body body) (\<lambda>(hs, rest).
       if hs = [] then Inl (PatchAddNoContent path)
       else Inr (\<lparr>op_kind = OpAdd, op_path = path, move_path = [], op_hunks = hs\<rparr>, rest)))"

definition parse_update :: "string set \<Rightarrow> string \<Rightarrow> string list \<Rightarrow> patch_error + (file_op \<times> string list)" where
  "parse_update seen line body =
     rbind (header_path OpUpdate update_prefix seen line) (\<lambda>path.
     rbind (move_line seen body) (\<lambda>(mv, body').
     rbind (update_hunks body') (\<lambda>(hs, rest).
       if hs = [] \<and> mv = [] then Inl (PatchUpdateNoHunks path)
       else Inr (\<lparr>op_kind = OpUpdate, op_path = path, move_path = mv, op_hunks = hs\<rparr>, rest))))"

definition parse_delete :: "string set \<Rightarrow> string \<Rightarrow> string list \<Rightarrow> patch_error + (file_op \<times> string list)" where
  "parse_delete seen line body =
     rbind (header_path OpDelete delete_prefix seen line) (\<lambda>path.
       Inr (\<lparr>op_kind = OpDelete, op_path = path, move_path = [], op_hunks = []\<rparr>, body))"

definition parse_section :: "string set \<Rightarrow> string \<Rightarrow> string list \<Rightarrow> patch_error + (file_op \<times> string list)" where
  "parse_section seen line body =
     (if prefix add_prefix line then parse_add seen line body
      else if prefix update_prefix line then parse_update seen line body
      else if prefix delete_prefix line then parse_delete seen line body
      else if prefix section_prefix line then Inl (PatchUnknownHead line)
      else Inl (PatchHunkExpected line))"

text \<open>The paths an operation marks as seen.\<close>

definition op_paths :: "file_op \<Rightarrow> string list" where
  "op_paths fop = op_path fop # (if move_path fop = [] then [] else [move_path fop])"

lemma move_line_shorter: "move_line seen body = Inr (mv, rest) \<Longrightarrow> length rest \<le> length body"
  by (auto simp: move_line_def Let_def split: list.splits if_splits)

lemma parse_section_shorter:
  "parse_section seen line body = Inr (fop, rest) \<Longrightarrow> length rest \<le> length body"
  by (fastforce simp: parse_section_def parse_add_def parse_update_def parse_delete_def res_simps
      dest: add_body_shorter update_hunks_shorter move_line_shorter split: if_splits)

function parse_ops :: "string set \<Rightarrow> string list \<Rightarrow> patch_error + file_op list" where
  "parse_ops seen [] = Inr []"
| "parse_ops seen (line # body) =
     (case parse_section seen line body of
        Inl e \<Rightarrow> Inl e
      | Inr (fop, rest) \<Rightarrow>
          rbind (parse_ops (set (op_paths fop) \<union> seen) rest) (\<lambda>ops. Inr (fop # ops)))"
  by pat_completeness auto
termination
  by (relation "measure (length \<circ> snd)") (auto dest: parse_section_shorter)

definition drop_trailing_empty :: "string list \<Rightarrow> string list" where
  "drop_trailing_empty ls = rev (dropWhile (\<lambda>l. l = []) (rev ls))"

definition parse_patch :: "string \<Rightarrow> patch_error + file_op list" where
  "parse_patch input =
     (if trim_space input = [] then Inl PatchEmpty
      else (let ls = drop_trailing_empty (split_char (CHR 0x0A) input)
            in if length ls < 2 then Inl PatchNoEnd
               else if hd ls \<noteq> begin_marker then Inl PatchNoBegin
               else if last ls \<noteq> end_marker then Inl PatchNoEnd
               else rbind (parse_ops {} (butlast (tl ls))) (\<lambda>ops.
                 if ops = [] then Inl PatchNoOps else Inr ops)))"

section \<open>Trimming twice\<close>

text \<open>No encoded blank starts the text (\<open>blank_free es s\<close> for the encodings \<open>es\<close>).\<close>

definition blank_free :: "string list \<Rightarrow> string \<Rightarrow> bool" where
  "blank_free es s \<longleftrightarrow> (\<forall>e \<in> set es. e \<noteq> [] \<longrightarrow> \<not> prefix e s)"

lemma strip_prefixes_blank_free: "blank_free es (strip_prefixes es s)"
proof (induction es s rule: strip_prefixes.induct)
  case (1 es s)
  show ?case
  proof (cases "find (\<lambda>e. e \<noteq> [] \<and> prefix e s) es")
    case None
    then have "blank_free es s" by (auto simp: blank_free_def find_None_iff)
    with None show ?thesis by (subst strip_prefixes.simps) simp
  next
    case (Some e)
    with 1 [OF Some] show ?thesis by (subst strip_prefixes.simps) simp
  qed
qed

lemma strip_prefixes_id: "blank_free es s \<Longrightarrow> strip_prefixes es s = s"
proof -
  assume "blank_free es s"
  then have "find (\<lambda>e. e \<noteq> [] \<and> prefix e s) es = None"
    by (auto simp: blank_free_def find_None_iff)
  then show ?thesis by (subst strip_prefixes.simps) simp
qed

lemma blank_free_prefix: "blank_free es s \<Longrightarrow> prefix t s \<Longrightarrow> blank_free es t"
  by (meson blank_free_def prefix_order.trans)

lemma trim_space_idem: "trim_space (trim_space s) = trim_space s"
proof -
  define L where "L = map utf8_enc space_runes"
  define R where "R = map (rev \<circ> utf8_enc) space_runes"
  define u where "u = trim_space_left s"
  define v where "v = strip_prefixes R (rev u)"
  have u: "blank_free L u" unfolding u_def trim_space_left_def L_def by (rule strip_prefixes_blank_free)
  have v: "blank_free R v" unfolding v_def by (rule strip_prefixes_blank_free)
  have t: "trim_space s = rev v"
    unfolding trim_space_def trim_space_right_def u_def [symmetric] v_def R_def ..
  have "suffix v (rev u)" unfolding v_def by (rule strip_prefixes_suffix)
  then have "prefix (rev v) u" by (simp add: suffix_to_prefix)
  then have "strip_prefixes L (rev v) = rev v" using blank_free_prefix [OF u] strip_prefixes_id by blast
  moreover have "strip_prefixes R v = v" using v by (rule strip_prefixes_id)
  ultimately show ?thesis
    unfolding t by (simp add: trim_space_def trim_space_left_def trim_space_right_def L_def R_def)
qed

lemma trim_space_blank: "trim_space (CHR '' '' # s) = trim_space s"
proof -
  have "find (\<lambda>e. e \<noteq> [] \<and> prefix e (CHR '' '' # s)) (map utf8_enc space_runes) = Some ('' '')"
    by (simp add: space_runes_def utf8_enc_def char_of_def bit_iff_odd)
  then have "trim_space_left (CHR '' '' # s) = trim_space_left s"
    unfolding trim_space_left_def by (subst strip_prefixes.simps) simp
  then show ?thesis by (simp add: trim_space_def)
qed

lemma trim_space_sub: "sublist (trim_space s) s"
proof -
  have "suffix (trim_space_left s) s"
    unfolding trim_space_left_def by (rule strip_prefixes_suffix)
  moreover have "prefix (trim_space s) (trim_space_left s)"
    unfolding trim_space_def trim_space_right_def
    using strip_prefixes_suffix by (metis rev_rev_ident suffix_to_prefix)
  ultimately show ?thesis
    unfolding sublist_def prefix_def suffix_def by metis
qed

lemma trim_space_set: "c \<notin> set s \<Longrightarrow> c \<notin> set (trim_space s)"
  using trim_space_sub set_mono_sublist by blast

section \<open>Well-formed patches and the printer\<close>

definition one_line :: "string \<Rightarrow> bool" where
  "one_line s \<longleftrightarrow> CHR 0x0A \<notin> set s"

definition header_text :: "string \<Rightarrow> bool" where
  "header_text s \<longleftrightarrow> one_line s \<and> trim_space s = s"

definition wf_hunk :: "hunk \<Rightarrow> bool" where
  "wf_hunk h \<longleftrightarrow> header_text (anchor h) \<and> hunk_lines h \<noteq> [] \<and>
     (\<forall>l \<in> set (hunk_lines h). one_line (line_text l))"

definition wf_add_hunk :: "hunk \<Rightarrow> bool" where
  "wf_add_hunk h \<longleftrightarrow> (\<exists>t. h = \<lparr>anchor = [], hunk_lines = [mk_line LineAdd t]\<rparr> \<and> one_line t)"

definition wf_op :: "file_op \<Rightarrow> bool" where
  "wf_op fop \<longleftrightarrow> op_path fop \<noteq> [] \<and> header_text (op_path fop) \<and> header_text (move_path fop) \<and>
     (case op_kind fop of
        OpAdd \<Rightarrow> move_path fop = [] \<and> op_hunks fop \<noteq> [] \<and> list_all wf_add_hunk (op_hunks fop)
      | OpUpdate \<Rightarrow> (op_hunks fop = [] \<longrightarrow> move_path fop \<noteq> []) \<and> list_all wf_hunk (op_hunks fop)
      | OpDelete \<Rightarrow> move_path fop = [] \<and> op_hunks fop = [])"

text \<open>No path is named by two operations.\<close>

fun fresh_ops :: "string set \<Rightarrow> file_op list \<Rightarrow> bool" where
  "fresh_ops seen [] \<longleftrightarrow> True"
| "fresh_ops seen (fop # ops) \<longleftrightarrow>
     set (op_paths fop) \<inter> seen = {} \<and> fresh_ops (set (op_paths fop) \<union> seen) ops"

definition wf_patch :: "file_op list \<Rightarrow> bool" where
  "wf_patch ops \<longleftrightarrow> ops \<noteq> [] \<and> list_all wf_op ops \<and> fresh_ops {} ops"

definition print_line :: "hunk_line \<Rightarrow> string" where
  "print_line l =
     (case line_kind l of LineContext \<Rightarrow> CHR '' '' | LineAdd \<Rightarrow> CHR ''+'' | LineRemove \<Rightarrow> CHR ''-'')
       # line_text l"

definition print_hunk :: "hunk \<Rightarrow> string list" where
  "print_hunk h =
     (hunk_prefix @ (if anchor h = [] then [] else CHR '' '' # anchor h)) # map print_line (hunk_lines h)"

definition print_op :: "file_op \<Rightarrow> string list" where
  "print_op fop =
     (case op_kind fop of
        OpAdd \<Rightarrow> (add_prefix @ op_path fop) # concat (map (map print_line \<circ> hunk_lines) (op_hunks fop))
      | OpUpdate \<Rightarrow>
          (update_prefix @ op_path fop) #
          (if move_path fop = [] then [] else [move_prefix @ move_path fop]) @
          concat (map print_hunk (op_hunks fop))
      | OpDelete \<Rightarrow> [delete_prefix @ op_path fop])"

definition print_patch :: "file_op list \<Rightarrow> string" where
  "print_patch ops = join [CHR 0x0A] (begin_marker # concat (map print_op ops) @ [end_marker])"

section \<open>What is printed is parsed\<close>

definition ends_ops :: "string list \<Rightarrow> bool" where
  "ends_ops rest \<longleftrightarrow> rest = [] \<or> prefix section_prefix (hd rest)"

definition ends_hunk :: "string list \<Rightarrow> bool" where
  "ends_hunk rest \<longleftrightarrow> rest = [] \<or> prefix section_prefix (hd rest) \<or> prefix hunk_prefix (hd rest)"

lemma ends_hunk_ops: "ends_ops rest \<Longrightarrow> ends_hunk rest"
  by (auto simp: ends_ops_def ends_hunk_def)

lemma print_line_no_prefix [simp]:
  "\<not> prefix section_prefix (print_line l)" "\<not> prefix hunk_prefix (print_line l)"
  by (auto simp: print_line_def marker_defs split: line_kind.splits)

lemma hunk_line_of_print [simp]: "hunk_line_of (print_line l) = Inr l"
  by (cases l) (auto simp: hunk_line_of_def print_line_def mk_line_def split: line_kind.splits)

lemma hunk_body_print: "ends_hunk rest \<Longrightarrow> hunk_body (map print_line ls @ rest) = Inr (ls, rest)"
proof (induction ls)
  case Nil
  then show ?case by (cases rest) (auto simp: ends_hunk_def)
qed simp

lemma header_text_trim: "header_text s \<Longrightarrow> trim_space (trim_prefix p (p @ s)) = s"
  by (simp add: header_text_def trim_prefix_def)

lemma print_hunk_anchor:
  "wf_hunk h \<Longrightarrow> trim_space (trim_prefix hunk_prefix (hd (print_hunk h))) = anchor h"
  by (auto simp: print_hunk_def wf_hunk_def trim_prefix_def header_text_def trim_space_blank)

lemma print_hunk_Cons: "print_hunk h = hd (print_hunk h) # map print_line (hunk_lines h)"
  by (simp add: print_hunk_def)

lemma hunk_prefix_hd: "prefix hunk_prefix (hd (print_hunk h))" "\<not> prefix section_prefix (hd (print_hunk h))"
  by (auto simp: print_hunk_def marker_defs)

lemma ends_hunk_hunks:
  "ends_ops rest \<Longrightarrow> ends_hunk (concat (map print_hunk hs) @ rest)"
  by (cases hs) (auto simp: ends_hunk_ops, simp add: ends_hunk_def print_hunk_def)

lemma update_hunks_print:
  "list_all wf_hunk hs \<Longrightarrow> ends_ops rest \<Longrightarrow>
     update_hunks (concat (map print_hunk hs) @ rest) = Inr (hs, rest)"
proof (induction hs)
  case Nil
  then show ?case by (cases rest) (auto simp: ends_ops_def)
next
  case (Cons h hs)
  define more where "more = concat (map print_hunk hs) @ rest"
  have more: "ends_hunk more" "update_hunks more = Inr (hs, rest)"
    using Cons by (simp_all add: more_def ends_hunk_hunks)
  have h: "wf_hunk h" "hunk_lines h \<noteq> []" using Cons.prems by (auto simp: wf_hunk_def)
  obtain l ls where ls: "hunk_lines h = l # ls" using h(2) by (cases "hunk_lines h") auto
  have body: "hunk_body (print_line l # map print_line ls @ more) = Inr (l # ls, more)"
    using hunk_body_print [OF more(1), of "l # ls"] by simp
  have "\<lparr>anchor = anchor h, hunk_lines = l # ls\<rparr> = h" using ls by (cases h) simp
  then have "update_hunks (hd (print_hunk h) # map print_line (hunk_lines h) @ more) = Inr (h # hs, rest)"
    using hunk_prefix_hd [of h] body more(2) print_hunk_anchor [OF h(1)]
    by (simp add: ls)
  then show ?case
    by (subst list.map, subst concat.simps, subst print_hunk_Cons) (simp add: more_def)
qed

lemma add_body_print:
  "list_all wf_add_hunk hs \<Longrightarrow> ends_ops rest \<Longrightarrow>
     add_body (concat (map (map print_line \<circ> hunk_lines) hs) @ rest) = Inr (hs, rest)"
proof (induction hs)
  case Nil
  then show ?case by (cases rest) (auto simp: ends_ops_def)
next
  case (Cons h hs)
  then obtain t where h: "h = \<lparr>anchor = [], hunk_lines = [mk_line LineAdd t]\<rparr>"
    by (auto simp: wf_add_hunk_def)
  have "print_line (mk_line LineAdd t) = CHR ''+'' # t" by (simp add: print_line_def mk_line_def)
  moreover have "\<not> prefix section_prefix (CHR ''+'' # t)" by (simp add: section_prefix_def)
  ultimately show ?case using Cons by (simp add: h)
qed

lemma header_path_print:
  "header_text s \<Longrightarrow> s \<noteq> [] \<Longrightarrow> s \<notin> seen \<Longrightarrow> header_path k p seen (p @ s) = Inr s"
  by (simp add: header_path_def header_text_trim Let_def)

lemma move_line_print:
  assumes "header_text mv" "mv \<noteq> [] \<Longrightarrow> mv \<notin> seen" "mv = [] \<Longrightarrow> rest \<noteq> [] \<Longrightarrow> \<not> prefix move_prefix (hd rest)"
  shows "move_line seen ((if mv = [] then [] else [move_prefix @ mv]) @ rest) = Inr (mv, rest)"
  using assms by (cases rest) (auto simp: move_line_def header_text_trim)

lemma section_prefixes:
  "prefix add_prefix (add_prefix @ s)"
  "\<not> prefix add_prefix (update_prefix @ s)" "prefix update_prefix (update_prefix @ s)"
  "\<not> prefix add_prefix (delete_prefix @ s)" "\<not> prefix update_prefix (delete_prefix @ s)"
  "prefix delete_prefix (delete_prefix @ s)"
  by (simp_all add: marker_defs)

lemma parse_section_print:
  assumes "wf_op fop" "set (op_paths fop) \<inter> seen = {}" "ends_ops rest"
  shows "parse_section seen (hd (print_op fop)) (tl (print_op fop) @ rest) = Inr (fop, rest)"
proof (cases "op_kind fop")
  case OpAdd
  then have fop: "\<lparr>op_kind = OpAdd, op_path = op_path fop, move_path = [], op_hunks = op_hunks fop\<rparr> = fop"
    using assms(1) by (cases fop) (auto simp: wf_op_def)
  have "header_path OpAdd add_prefix seen (add_prefix @ op_path fop) = Inr (op_path fop)"
    using assms by (intro header_path_print) (auto simp: wf_op_def op_paths_def)
  moreover have "add_body (concat (map (map print_line \<circ> hunk_lines) (op_hunks fop)) @ rest)
      = Inr (op_hunks fop, rest)"
    using assms OpAdd by (intro add_body_print) (auto simp: wf_op_def)
  ultimately show ?thesis
    using OpAdd assms(1) fop
    by (simp add: print_op_def parse_section_def parse_add_def section_prefixes wf_op_def)
next
  case OpUpdate
  then have fop: "\<lparr>op_kind = OpUpdate, op_path = op_path fop, move_path = move_path fop,
      op_hunks = op_hunks fop\<rparr> = fop"
    by (cases fop) simp
  define body where "body = concat (map print_hunk (op_hunks fop)) @ rest"
  have "header_path OpUpdate update_prefix seen (update_prefix @ op_path fop) = Inr (op_path fop)"
    using assms by (intro header_path_print) (auto simp: wf_op_def op_paths_def)
  moreover have "move_line seen ((if move_path fop = [] then [] else [move_prefix @ move_path fop]) @ body)
      = Inr (move_path fop, body)"
  proof (rule move_line_print)
    show "header_text (move_path fop)" using assms(1) by (simp add: wf_op_def)
    show "\<not> prefix move_prefix (hd body)" if "move_path fop = []" "body \<noteq> []"
      using that assms(1) OpUpdate
      by (cases "op_hunks fop") (auto simp: wf_op_def body_def print_hunk_def marker_defs)
    show "move_path fop \<notin> seen" if "move_path fop \<noteq> []"
      using that assms(2) by (auto simp: op_paths_def)
  qed
  moreover have "update_hunks body = Inr (op_hunks fop, rest)"
    unfolding body_def using assms OpUpdate by (intro update_hunks_print) (auto simp: wf_op_def)
  ultimately show ?thesis
    using OpUpdate assms(1) fop
    by (simp add: print_op_def parse_section_def parse_update_def section_prefixes wf_op_def body_def)
next
  case OpDelete
  then have "\<lparr>op_kind = OpDelete, op_path = op_path fop, move_path = [], op_hunks = []\<rparr> = fop"
    using assms(1) by (cases fop) (auto simp: wf_op_def)
  moreover have "header_path OpDelete delete_prefix seen (delete_prefix @ op_path fop) = Inr (op_path fop)"
    using assms by (intro header_path_print) (auto simp: wf_op_def op_paths_def)
  ultimately show ?thesis
    using OpDelete by (simp add: print_op_def parse_section_def parse_delete_def section_prefixes)
qed

lemma print_op_Cons: "print_op fop = hd (print_op fop) # tl (print_op fop)"
  by (auto simp: print_op_def split: op_kind.splits)

lemma ends_ops_print: "ends_ops (concat (map print_op ops))"
  by (cases ops) (auto simp: ends_ops_def print_op_def marker_defs split: op_kind.splits)

lemma parse_ops_print:
  "list_all wf_op ops \<Longrightarrow> fresh_ops seen ops \<Longrightarrow> parse_ops seen (concat (map print_op ops)) = Inr ops"
proof (induction ops arbitrary: seen)
  case (Cons fop ops)
  have "parse_section seen (hd (print_op fop)) (tl (print_op fop) @ concat (map print_op ops))
      = Inr (fop, concat (map print_op ops))"
    using Cons.prems by (intro parse_section_print ends_ops_print) auto
  moreover have "parse_ops (set (op_paths fop) \<union> seen) (concat (map print_op ops)) = Inr ops"
    using Cons by simp
  ultimately have "parse_ops seen (hd (print_op fop) # tl (print_op fop) @ concat (map print_op ops))
      = Inr (fop # ops)"
    by simp
  moreover have "concat (map print_op (fop # ops)) =
      hd (print_op fop) # tl (print_op fop) @ concat (map print_op ops)"
    using print_op_Cons [of fop] by (metis append_Cons concat.simps(2) list.map(2))
  ultimately show ?case by metis
qed simp

lemma one_line_simps [simp]:
  "one_line []" "one_line (c # s) \<longleftrightarrow> c \<noteq> CHR 0x0A \<and> one_line s"
  "one_line (s @ t) \<longleftrightarrow> one_line s \<and> one_line t"
  by (auto simp: one_line_def)

lemma one_line_markers [simp]:
  "one_line begin_marker" "one_line end_marker" "one_line add_prefix" "one_line update_prefix"
  "one_line delete_prefix" "one_line move_prefix" "one_line hunk_prefix"
  by (simp_all add: marker_defs)

lemma one_line_print_line [simp]: "one_line (print_line l) \<longleftrightarrow> one_line (line_text l)"
  by (auto simp: print_line_def split: line_kind.splits)

lemma print_op_one_line: "wf_op fop \<Longrightarrow> list_all one_line (print_op fop)"
  by (auto simp: print_op_def wf_op_def wf_hunk_def wf_add_hunk_def header_text_def print_hunk_def mk_line_def
      list_all_iff split: op_kind.splits)

lemma print_op_not_Nil [simp]: "print_op fop \<noteq> []"
  by (subst print_op_Cons) simp

lemma parse_print:
  assumes "wf_patch ops"
  shows "parse_patch (print_patch ops) = Inr ops"
proof -
  define body where "body = concat (map print_op ops)"
  define ls where "ls = begin_marker # body @ [end_marker]"
  have wf: "list_all wf_op ops" "fresh_ops {} ops" "ops \<noteq> []"
    using assms by (simp_all add: wf_patch_def)
  have "list_all one_line ls"
    using wf(1) print_op_one_line by (force simp: ls_def body_def list_all_iff)
  then have split: "split_char (CHR 0x0A) (print_patch ops) = ls"
    unfolding print_patch_def body_def [symmetric] ls_def [symmetric]
    by (intro split_char_join) (auto simp: ls_def list_all_iff one_line_def)
  have last: "drop_trailing_empty ls = ls"
    by (simp add: drop_trailing_empty_def ls_def marker_defs)
  have "trimmed_ascii (print_patch ops)"
    using join_append [of "begin_marker # body" "[end_marker]" "[CHR 0x0A]"]
    by (simp add: print_patch_def body_def [symmetric] trimmed_ascii_def join_Cons is_space_def space_runes_def
        begin_marker_def end_marker_def)
  then have "trim_space (print_patch ops) \<noteq> []"
    by (simp add: trim_space_id print_patch_def join_Cons begin_marker_def)
  moreover have "parse_ops {} body = Inr ops"
    unfolding body_def using wf by (intro parse_ops_print)
  moreover have "butlast (tl ls) = body" "hd ls = begin_marker" "last ls = end_marker" "2 \<le> length ls"
    by (simp_all add: ls_def)
  ultimately show ?thesis
    using wf(3) by (simp add: parse_patch_def split last Let_def)
qed

section \<open>What is parsed is well formed\<close>

lemma one_line_tl [simp]: "one_line b \<Longrightarrow> one_line (tl b)"
  by (cases b) auto

lemma add_body_wf:
  "add_body body = Inr (hs, rest) \<Longrightarrow> list_all one_line body \<Longrightarrow>
     list_all wf_add_hunk hs \<and> list_all one_line rest"
  by (induction body arbitrary: hs rest) (fastforce simp: res_simps wf_add_hunk_def split: if_splits)+

lemma hunk_line_of_wf: "hunk_line_of b = Inr l \<Longrightarrow> one_line b \<Longrightarrow> one_line (line_text l)"
  by (auto simp: hunk_line_of_def mk_line_def split: list.splits if_splits)

lemma hunk_body_wf:
  "hunk_body body = Inr (ls, rest) \<Longrightarrow> list_all one_line body \<Longrightarrow>
     (\<forall>l \<in> set ls. one_line (line_text l)) \<and> list_all one_line rest"
  by (induction body arbitrary: ls rest) (fastforce simp: res_simps dest: hunk_line_of_wf split: if_splits)+

lemma trim_header_text: "one_line s \<Longrightarrow> header_text (trim_space (trim_prefix p s))"
  by (auto simp: header_text_def trim_space_idem one_line_def trim_prefix_def
      intro!: trim_space_set dest: in_set_dropD)

lemma update_hunks_wf:
  "update_hunks body = Inr (hs, rest) \<Longrightarrow> list_all one_line body \<Longrightarrow>
     list_all wf_hunk hs \<and> list_all one_line rest"
proof (induction body arbitrary: hs rest rule: update_hunks.induct)
  case (2 b body)
  show ?case
  proof (cases "prefix section_prefix b")
    case True
    with 2 show ?thesis by simp
  next
    case False
    with 2 obtain ls more hs' where
      ls: "hunk_body body = Inr (ls, more)" "ls \<noteq> []" "update_hunks more = Inr (hs', rest)"
      "hs = \<lparr>anchor = trim_space (trim_prefix hunk_prefix b), hunk_lines = ls\<rparr> # hs'"
      and b: "prefix hunk_prefix b"
        "\<not> (body \<noteq> [] \<and> (prefix section_prefix (hd body) \<or> prefix hunk_prefix (hd body)))"
      by (auto simp: res_simps split: if_splits sum.splits)
    note body = hunk_body_wf [OF ls(1)]
    have "list_all wf_hunk hs' \<and> list_all one_line rest"
      using 2(1) [OF False _ _ ls(1) _ ls(2,3)] 2(3) b body by simp
    moreover have "wf_hunk (hd hs)"
      using 2(3) body ls(2,4) by (simp add: wf_hunk_def trim_header_text)
    ultimately show ?thesis using ls(4) by simp
  qed
qed simp

lemma header_path_wf:
  "header_path k p seen line = Inr s \<Longrightarrow> one_line line \<Longrightarrow> s \<noteq> [] \<and> header_text s \<and> s \<notin> seen"
  by (auto simp: header_path_def Let_def trim_header_text split: if_splits)

lemma header_text_Nil [simp]: "header_text []"
  by (simp add: header_text_def trim_space_id trimmed_ascii_def)

lemma move_line_wf:
  "move_line seen body = Inr (mv, rest) \<Longrightarrow> list_all one_line body \<Longrightarrow>
     header_text mv \<and> (mv \<noteq> [] \<longrightarrow> mv \<notin> seen) \<and> list_all one_line rest"
  by (auto simp: move_line_def Let_def trim_header_text split: list.splits if_splits)

lemma parse_section_wf:
  assumes "parse_section seen line body = Inr (fop, rest)" "one_line line" "list_all one_line body"
  shows "wf_op fop \<and> set (op_paths fop) \<inter> seen = {} \<and> list_all one_line rest"
  using assms
  by (fastforce simp: parse_section_def parse_add_def parse_update_def parse_delete_def res_simps wf_op_def op_paths_def
      dest: header_path_wf add_body_wf update_hunks_wf move_line_wf split: if_splits)

lemma parse_ops_wf:
  "parse_ops seen body = Inr ops \<Longrightarrow> list_all one_line body \<Longrightarrow> list_all wf_op ops \<and> fresh_ops seen ops"
proof (induction seen body arbitrary: ops rule: parse_ops.induct)
  case (2 seen line body)
  then obtain fop rest ops' where
    s: "parse_section seen line body = Inr (fop, rest)"
    "parse_ops (set (op_paths fop) \<union> seen) rest = Inr ops'" "ops = fop # ops'"
    by (auto simp: res_simps split: sum.splits)
  note fop = parse_section_wf [OF s(1)]
  have "list_all wf_op ops' \<and> fresh_ops (set (op_paths fop) \<union> seen) ops'"
    using 2 s fop by auto
  with fop s 2 show ?case by auto
qed simp

lemma drop_trailing_empty_sub: "set (drop_trailing_empty ls) \<subseteq> set ls"
  using set_dropWhileD by (fastforce simp: drop_trailing_empty_def)

text \<open>Whatever the model sends, an accepted patch is well formed: it has an operation, its paths are
  non-empty, trimmed and on one line, an Add has only added lines, an Update has a hunk or a destination, every hunk
  has lines, and no path is named by two operations.\<close>

theorem parse_patch_well_formed:
  assumes "parse_patch input = Inr ops"
  shows "wf_patch ops"
proof -
  define ls where "ls = drop_trailing_empty (split_char (CHR 0x0A) input)"
  have ops: "parse_ops {} (butlast (tl ls)) = Inr ops" "ops \<noteq> []"
    using assms by (auto simp: parse_patch_def Let_def ls_def res_simps split: if_splits)
  have "set (butlast (tl ls)) \<subseteq> set (split_char (CHR 0x0A) input)"
    using drop_trailing_empty_sub [of "split_char (CHR 0x0A) input"]
    by (cases ls) (auto simp: ls_def [symmetric] dest: in_set_butlastD)
  then have "list_all one_line (butlast (tl ls))"
    by (auto simp: list_all_iff one_line_def dest: split_char_parts)
  with ops show ?thesis
    by (auto simp: wf_patch_def dest: parse_ops_wf)
qed

definition sample_patch :: "file_op list" where
  "sample_patch =
     [\<lparr>op_kind = OpUpdate, op_path = ''a'', move_path = ''b'',
       op_hunks = [\<lparr>anchor = ''f'', hunk_lines = [mk_line LineContext ''x'', mk_line LineRemove [], mk_line LineAdd ''y'']\<rparr>]\<rparr>,
      \<lparr>op_kind = OpDelete, op_path = ''c'', move_path = [], op_hunks = []\<rparr>]"

lemma sample_patch_wf: "wf_patch sample_patch"
proof -
  have t: "header_text [c]" if "c \<in> {CHR ''a'', CHR ''b'', CHR ''c'', CHR ''f''}" for c
    using that by (auto simp: header_text_def intro!: trim_space_id)
      (simp_all add: trimmed_ascii_def is_space_def space_runes_def)
  show ?thesis
    by (simp add: wf_patch_def sample_patch_def wf_op_def wf_hunk_def t op_paths_def mk_line_def)
qed

text \<open>C20: Round trip of the patch format. A patch whose operations are well formed (non-empty trimmed paths, an
  Add or Update section with content, no line break inside a line, no path named by two operations),
  written out in the documented format, is parsed back as exactly that patch.\<close>

theorem parse_patch_print_patch: "wf_patch ops \<Longrightarrow> parse_patch (print_patch ops) = Inr ops"
  by (rule parse_print)

theorem parse_patch_print_patch_witness: "parse_patch (print_patch sample_patch) = Inr sample_patch"
  by (rule parse_patch_print_patch) (rule sample_patch_wf)

theorem parse_patch_well_formed_witness: "\<exists>ops. parse_patch (print_patch sample_patch) = Inr ops \<and> wf_patch ops"
proof -
  have "parse_patch (print_patch sample_patch) = Inr sample_patch"
    by (rule parse_print) (rule sample_patch_wf)
  then show ?thesis using parse_patch_well_formed by blast
qed

end
