(* ===== verification/Patch_Match.thy ===== *)
theory Patch_Match
  imports Patch_Parse "HOL-Library.Multiset"
begin

text \<open>
  Locating a hunk in a file and replacing the matched block
  (\<open>src/internal/tool/apply_patch_match.go\<close> and the pure part of \<open>apply_patch_apply.go\<close>): the four levels
  of fuzzy matching, the anchor, the retry at the end of the file, the transformation that keeps the
  file's own text for context lines, and the update of a whole file hunk by hunk.

  \<open>cuts\<close> is the reference: an update takes the file apart into kept pieces and old blocks, and
  puts the new blocks in place of the old ones.
\<close>

section \<open>The four levels\<close>

definition fuzzy_rune :: "rune \<Rightarrow> rune" where
  "fuzzy_rune r =
     (if r \<in> {0x2014, 0x2013, 0x2012, 0x2010, 0x2212} then of_char CHR ''-''
      else if r \<in> {0x2018, 0x2019, 0x201A, 0x201B, 0x60, 0xB4} then 0x27
      else if r \<in> {0x201C, 0x201D, 0x201E, 0x201F, 0xAB, 0xBB} then 0x22
      else if r \<in> {0x20, 0x09, 0xA0, 0x2000, 0x2001, 0x2002, 0x2003, 0x2004, 0x2005, 0x2006, 0x2007,
                   0x2008, 0x2009, 0x200A, 0x202F, 0x205F, 0x3000} then 0x20
      else r)"

definition normalize_fuzzy :: "string \<Rightarrow> string" where
  "normalize_fuzzy s = trim_space (utf8_encs (map fuzzy_rune (runes s)))"

definition match_at_level :: "string \<Rightarrow> string \<Rightarrow> nat \<Rightarrow> bool" where
  "match_at_level line target level =
     (if level = 1 then line = target
      else if level = 2 then
        trim_right_set [CHR '' '', CHR 0x09] line = trim_right_set [CHR '' '', CHR 0x09] target
      else if level = 3 then trim_space line = trim_space target
      else if level = 4 then normalize_fuzzy line = normalize_fuzzy target
      else False)"

section \<open>Locating a hunk\<close>

datatype hunk_error =
  ContextNotFound string string
| LinesNotFound string "string list"
| NoMatchLines string

record hunk_location =
  loc_start :: nat
  loc_len :: nat
  loc_synthetic :: bool

definition pattern_line :: "hunk_line \<Rightarrow> bool" where
  "pattern_line l \<longleftrightarrow> line_kind l = LineContext \<or> line_kind l = LineRemove"

definition pattern_from_hunk :: "hunk \<Rightarrow> hunk_line list" where
  "pattern_from_hunk h = filter pattern_line (hunk_lines h)"

definition pattern_texts :: "hunk_line list \<Rightarrow> string list" where
  "pattern_texts p = map line_text p"

definition locate_line :: "string list \<Rightarrow> string \<Rightarrow> string \<Rightarrow> nat \<Rightarrow> hunk_error + nat" where
  "locate_line ls target path cursor =
     (if target = [] then Inr cursor
      else (case find (\<lambda>i. match_at_level (ls ! i) target 1 \<or> match_at_level (ls ! i) target 2
                         \<or> match_at_level (ls ! i) target 3 \<or> match_at_level (ls ! i) target 4)
                      [cursor ..< length ls] of
              Some i \<Rightarrow> Inr i
            | None \<Rightarrow> Inl (ContextNotFound target path)))"

text \<open>One level for the whole pattern; the callers keep \<open>start + length pattern\<close> inside the file.\<close>

definition match_pattern_at :: "string list \<Rightarrow> hunk_line list \<Rightarrow> nat \<Rightarrow> bool" where
  "match_pattern_at ls p start =
     list_ex (\<lambda>level. list_all (\<lambda>(l, t). match_at_level l (line_text t) level) (zip (drop start ls) p)) [1, 2, 3, 4]"

definition clamp_cursor :: "string list \<Rightarrow> int \<Rightarrow> nat" where
  "clamp_cursor ls cursor = min (nat cursor) (length ls)"

definition starts_between :: "nat \<Rightarrow> string list \<Rightarrow> hunk_line list \<Rightarrow> nat list" where
  "starts_between c ls p = (if length p \<le> length ls then [c ..< Suc (length ls - length p)] else [])"

definition locate_seq :: "string list \<Rightarrow> hunk_line list \<Rightarrow> string \<Rightarrow> nat \<Rightarrow> hunk_error + hunk_location" where
  "locate_seq ls p path cursor =
     (if p = [] then Inr \<lparr>loc_start = cursor, loc_len = 0, loc_synthetic = False\<rparr>
      else
        (let c = clamp_cursor ls (int cursor);
             trimmed = butlast p;
             at_end = (if line_kind (last p) = LineContext \<and> line_text (last p) = []
                       then find (\<lambda>s. match_pattern_at ls trimmed s \<and> s + length trimmed = length ls)
                                 (starts_between c ls trimmed)
                       else None)
         in case find (match_pattern_at ls p) (starts_between c ls p) of
              Some s \<Rightarrow> Inr \<lparr>loc_start = s, loc_len = length p, loc_synthetic = False\<rparr>
            | None \<Rightarrow>
                (case at_end of
                   Some s \<Rightarrow> Inr \<lparr>loc_start = s, loc_len = length trimmed, loc_synthetic = True\<rparr>
                 | None \<Rightarrow> Inl (LinesNotFound path (pattern_texts p)))))"

definition locate_hunk :: "string list \<Rightarrow> hunk \<Rightarrow> string \<Rightarrow> int \<Rightarrow> hunk_error + hunk_location" where
  "locate_hunk ls h path cursor =
     rbind (if anchor h = [] then Inr (clamp_cursor ls cursor)
            else rbind (locate_line ls (anchor h) path (clamp_cursor ls cursor)) (\<lambda>i. Inr (i + 1)))
       (\<lambda>c. let p = pattern_from_hunk h
            in if p = [] then Inr \<lparr>loc_start = c, loc_len = 0, loc_synthetic = False\<rparr>
               else locate_seq ls p path c)"

section \<open>Replacing the matched block\<close>

record applied_hunk =
  start_line :: nat
  old_lines :: "string list"
  new_lines :: "string list"
  row_lines :: "hunk_line list"

text \<open>\<open>matchedLines[matchIdx:]\<close> is the argument \<open>ms\<close>.\<close>

fun hunk_transform ::
  "string \<Rightarrow> string list \<Rightarrow> bool \<Rightarrow> hunk_line list \<Rightarrow> string list \<Rightarrow>
     hunk_error + (string list \<times> string list \<times> hunk_line list)" where
  "hunk_transform path pat synth [] ms = Inr ([], [], [])"
| "hunk_transform path pat synth (hl # hls) ms =
     (case line_kind hl of
        LineContext \<Rightarrow>
          (if ms = [] \<and> synth \<and> line_text hl = [] then hunk_transform path pat synth hls ms
           else (let t = (case ms of [] \<Rightarrow> line_text hl | m # _ \<Rightarrow> m)
                 in rbind (hunk_transform path pat synth hls (tl ms)) (\<lambda>(olds, news, rows).
                      Inr (t # olds, t # news, mk_line LineContext t # rows))))
      | LineRemove \<Rightarrow>
          (case ms of
             [] \<Rightarrow> Inl (LinesNotFound path pat)
           | m # ms' \<Rightarrow> rbind (hunk_transform path pat synth hls ms') (\<lambda>(olds, news, rows).
               Inr (m # olds, news, mk_line LineRemove m # rows)))
      | LineAdd \<Rightarrow> rbind (hunk_transform path pat synth hls ms) (\<lambda>(olds, news, rows).
          Inr (olds, line_text hl # news, hl # rows)))"

definition hunk_pattern_lines :: "hunk \<Rightarrow> string list" where
  "hunk_pattern_lines h = map line_text (filter pattern_line (hunk_lines h))"

definition apply_hunk ::
  "string list \<Rightarrow> hunk \<Rightarrow> string \<Rightarrow> int \<Rightarrow> hunk_error + (string list \<times> nat \<times> applied_hunk)" where
  "apply_hunk ls h path cursor =
     rbind (locate_hunk ls h path cursor) (\<lambda>loc.
       let start = loc_start loc; match_end = start + loc_len loc
       in if length ls < match_end then Inl (LinesNotFound path (hunk_pattern_lines h))
          else rbind (hunk_transform path (hunk_pattern_lines h) (loc_synthetic loc) (hunk_lines h)
                        (drop start (take match_end ls)))
            (\<lambda>(olds, news, rows).
              Inr (take start ls @ news @ drop match_end ls, start + length news,
                   \<lparr>start_line = start + 1, old_lines = olds, new_lines = news, row_lines = rows\<rparr>)))"

definition hunk_has_match_lines :: "hunk \<Rightarrow> bool" where
  "hunk_has_match_lines h = list_ex pattern_line (hunk_lines h)"

definition split_lines_raw :: "string \<Rightarrow> string list" where
  "split_lines_raw d = (if d = [] then [] else split_char (CHR 0x0A) d)"

text \<open>The loop of \<open>computeUpdatedContent\<close> over the hunks, and the function on the bytes it read.\<close>

fun apply_hunks ::
  "string \<Rightarrow> hunk list \<Rightarrow> string list \<Rightarrow> nat \<Rightarrow> hunk_error + (string list \<times> applied_hunk list)" where
  "apply_hunks path [] ls cursor = Inr (ls, [])"
| "apply_hunks path (h # hs) ls cursor =
     (if \<not> hunk_has_match_lines h then Inl (NoMatchLines path)
      else rbind (apply_hunk ls h path (int cursor)) (\<lambda>(ls', fin, ah).
             rbind (apply_hunks path hs ls' fin) (\<lambda>(out, ahs). Inr (out, ah # ahs))))"

definition compute_updated ::
  "string \<Rightarrow> file_op \<Rightarrow> hunk_error + (string list \<times> string \<times> applied_hunk list)" where
  "compute_updated data fop =
     rbind (apply_hunks (op_path fop) (op_hunks fop) (split_lines_raw data) 0) (\<lambda>(ls, ahs).
       Inr (split_lines_raw data, join [CHR 0x0A] ls, ahs))"

definition build_add_content :: "file_op \<Rightarrow> string" where
  "build_add_content fop = join [CHR 0x0A] (concat (map (map line_text \<circ> hunk_lines) (op_hunks fop)))"

section \<open>Where a hunk is located\<close>

text \<open>The place found for a pattern: inside the file, at or after the cursor; the whole pattern matches there, or the
  pattern without its blank last context line matches at the very end of the file.\<close>

definition good_location :: "string list \<Rightarrow> hunk_line list \<Rightarrow> nat \<Rightarrow> hunk_location \<Rightarrow> bool" where
  "good_location ls p c loc \<longleftrightarrow>
     c \<le> loc_start loc \<and> loc_start loc + loc_len loc \<le> length ls \<and>
     (if loc_synthetic loc
      then p \<noteq> [] \<and> line_kind (last p) = LineContext \<and> line_text (last p) = [] \<and>
           loc_len loc = length (butlast p) \<and> loc_start loc + loc_len loc = length ls \<and>
           match_pattern_at ls (butlast p) (loc_start loc)
      else loc_len loc = length p \<and> match_pattern_at ls p (loc_start loc))"

definition fits :: "string list \<Rightarrow> hunk_line list \<Rightarrow> nat \<Rightarrow> bool" where
  "fits ls p s \<longleftrightarrow> s + length p \<le> length ls \<and> match_pattern_at ls p s"

lemma set_starts_between: "s \<in> set (starts_between c ls p) \<longleftrightarrow> c \<le> s \<and> s + length p \<le> length ls"
  by (auto simp: starts_between_def)

lemma match_pattern_Nil [simp]: "match_pattern_at ls [] s"
  by (simp add: match_pattern_at_def)

lemma find_upt_Some:
  "find P [i ..< j] = Some s \<longleftrightarrow> i \<le> s \<and> s < j \<and> P s \<and> (\<forall>t. i \<le> t \<and> t < s \<longrightarrow> \<not> P t)"
proof
  assume "find P [i ..< j] = Some s"
  then obtain k where k: "k < j - i" "P (i + k)" "s = i + k" "\<forall>m < k. \<not> P (i + m)"
    by (auto simp: find_Some_iff)
  have "\<not> P t" if "i \<le> t" "t < s" for t
    using k(3,4) that le_add_diff_inverse [of i t] by (metis add_less_cancel_left)
  with k show "i \<le> s \<and> s < j \<and> P s \<and> (\<forall>t. i \<le> t \<and> t < s \<longrightarrow> \<not> P t)" by auto
next
  assume "i \<le> s \<and> s < j \<and> P s \<and> (\<forall>t. i \<le> t \<and> t < s \<longrightarrow> \<not> P t)"
  then show "find P [i ..< j] = Some s"
    by (intro find_Some_iff [THEN iffD2] exI [of _ "s - i"]) auto
qed

lemma find_fits_Some:
  "find (match_pattern_at ls p) (starts_between c ls p) = Some s \<longleftrightarrow>
     c \<le> s \<and> fits ls p s \<and> (\<forall>t. c \<le> t \<and> t < s \<longrightarrow> \<not> fits ls p t)"
  by (auto simp: starts_between_def fits_def find_upt_Some simp del: upt_Suc)

lemma find_fits_None:
  "find (match_pattern_at ls p) (starts_between c ls p) = None \<longleftrightarrow> (\<forall>s \<ge> c. \<not> fits ls p s)"
  by (auto simp: find_None_iff set_starts_between fits_def)

lemma locate_seq_good:
  assumes "locate_seq ls p path c = Inr loc" "p \<noteq> []" "c \<le> length ls"
  shows "good_location ls p c loc"
proof -
  have c: "clamp_cursor ls (int c) = c" using assms(3) by (simp add: clamp_cursor_def)
  show ?thesis
  proof (cases "find (match_pattern_at ls p) (starts_between c ls p)")
    case (Some s)
    with assms c have "loc = \<lparr>loc_start = s, loc_len = length p, loc_synthetic = False\<rparr>"
      by (simp add: locate_seq_def Let_def)
    with Some show ?thesis by (simp add: good_location_def find_fits_Some fits_def)
  next
    case None
    with assms c obtain s where last: "line_kind (last p) = LineContext" "line_text (last p) = []"
      and s: "find (\<lambda>s. match_pattern_at ls (butlast p) s \<and> s + length (butlast p) = length ls)
                (starts_between c ls (butlast p)) = Some s"
      and loc: "loc = \<lparr>loc_start = s, loc_len = length (butlast p), loc_synthetic = True\<rparr>"
      by (auto simp: locate_seq_def Let_def split: if_splits option.splits)
    from s have "match_pattern_at ls (butlast p) s \<and> s + length (butlast p) = length ls \<and>
        s \<in> set (starts_between c ls (butlast p))"
      by (auto simp: find_Some_iff)
    with last loc assms(2) show ?thesis by (simp add: good_location_def set_starts_between)
  qed
qed

lemma locate_line_ge: "locate_line ls t path c = Inr i \<Longrightarrow> t \<noteq> [] \<Longrightarrow> c \<le> i \<and> i < length ls"
  by (auto simp: locate_line_def find_upt_Some split: option.splits if_splits)

lemma locate_hunk_good:
  assumes "locate_hunk ls h path cursor = Inr loc"
  shows "\<exists>c. clamp_cursor ls cursor \<le> c \<and> c \<le> length ls \<and> good_location ls (pattern_from_hunk h) c loc"
proof -
  obtain c where c: "(if anchor h = [] then Inr (clamp_cursor ls cursor)
        else rbind (locate_line ls (anchor h) path (clamp_cursor ls cursor)) (\<lambda>i. Inr (i + 1))) = Inr c"
    and loc: "(if pattern_from_hunk h = [] then Inr \<lparr>loc_start = c, loc_len = 0, loc_synthetic = False\<rparr>
       else locate_seq ls (pattern_from_hunk h) path c) = Inr loc"
    using assms unfolding locate_hunk_def rbind_eq_Inr Let_def by blast
  from c have c: "clamp_cursor ls cursor \<le> c" "c \<le> length ls"
    by (auto simp: res_simps clamp_cursor_def dest: locate_line_ge split: if_splits)
  show ?thesis
  proof (cases "pattern_from_hunk h = []")
    case True
    with loc c show ?thesis by (auto simp: good_location_def)
  next
    case False
    with loc c show ?thesis by (auto dest: locate_seq_good)
  qed
qed

section \<open>The transformation of one hunk\<close>

definition old_texts :: "hunk_line list \<Rightarrow> string list" where
  "old_texts rows = map line_text (filter pattern_line rows)"

definition new_texts :: "hunk_line list \<Rightarrow> string list" where
  "new_texts rows = map line_text (filter (\<lambda>l. line_kind l \<noteq> LineRemove) rows)"

definition texts_of :: "line_kind \<Rightarrow> hunk_line list \<Rightarrow> string list" where
  "texts_of k rows = map line_text (filter (\<lambda>l. line_kind l = k) rows)"

lemma pattern_line_kinds [simp]:
  "line_kind l = LineContext \<Longrightarrow> pattern_line l" "line_kind l = LineRemove \<Longrightarrow> pattern_line l"
  "line_kind l = LineAdd \<Longrightarrow> \<not> pattern_line l"
  by (simp_all add: pattern_line_def)

lemma mk_line_sel [simp]: "line_kind (mk_line k t) = k" "line_text (mk_line k t) = t"
  by (simp_all add: mk_line_def)

text \<open>The rows shown to the user are the edit that is made, and they add exactly what the patch adds.\<close>

lemma hunk_transform_rows:
  "hunk_transform path pat synth hls ms = Inr (olds, news, rows) \<Longrightarrow>
     olds = old_texts rows \<and> news = new_texts rows \<and> texts_of LineAdd rows = texts_of LineAdd hls"
proof (induction hls arbitrary: ms olds news rows)
  case (Cons hl hls)
  then show ?case
    by (cases "line_kind hl"; cases ms)
      (fastforce simp: res_simps Let_def old_texts_def new_texts_def texts_of_def split: if_splits)+
qed (simp add: old_texts_def new_texts_def texts_of_def)

text \<open>The old lines are the lines of the file, not of the patch.\<close>

lemma hunk_transform_olds:
  assumes "length ms = length (filter pattern_line hls)"
  shows "\<exists>news rows. hunk_transform path pat synth hls ms = Inr (ms, news, rows)"
  using assms
proof (induction hls arbitrary: ms)
  case (Cons hl hls)
  show ?case
  proof (cases "pattern_line hl")
    case True
    then obtain m ms' where ms: "ms = m # ms'" "length ms' = length (filter pattern_line hls)"
      using Cons.prems by (cases ms) auto
    with Cons.IH [OF ms(2)] True show ?thesis
      by (auto simp: pattern_line_def Let_def split: line_kind.splits)
  next
    case False
    then have add: "line_kind hl = LineAdd" by (cases "line_kind hl") auto
    with Cons.prems have "length ms = length (filter pattern_line hls)" by simp
    from Cons.IH [OF this] add show ?thesis by auto
  qed
qed simp

lemma hunk_transform_synthetic:
  assumes "filter pattern_line hls = p @ [z]" "line_kind z = LineContext" "line_text z = []" "length ms = length p"
  shows "\<exists>news rows. hunk_transform path pat True hls ms = Inr (ms, news, rows)"
  using assms
proof (induction hls arbitrary: ms p)
  case (Cons hl hls)
  consider (add) "line_kind hl = LineAdd" | (pat) q p' where "p = q # p'" "q = hl" "pattern_line hl"
      | (z) "p = []" "hl = z" "filter pattern_line hls = []" "pattern_line hl"
    using Cons.prems(1) by (cases p; cases "line_kind hl") auto
  then show ?case
  proof cases
    case add
    with Cons.prems have "filter pattern_line hls = p @ [z]" by simp
    from Cons.IH [OF this Cons.prems(2-4)] add show ?thesis by auto
  next
    case pat
    then obtain m ms' where ms: "ms = m # ms'" "length ms' = length p'"
      using Cons.prems by (cases ms) auto
    have rest: "filter pattern_line hls = p' @ [z]" using Cons.prems(1) pat by simp
    with Cons.IH [OF rest Cons.prems(2,3) ms(2)] pat ms(1) show ?thesis
      by (auto simp: pattern_line_def Let_def split: line_kind.splits)
  next
    case z
    with Cons.prems have ms: "ms = []" "line_kind hl = LineContext" "line_text hl = []" by auto
    have "length ([] :: string list) = length (filter pattern_line hls)" using z by simp
    from hunk_transform_olds [OF this] obtain news rows where
      "hunk_transform path pat True hls [] = Inr ([], news, rows)" by blast
    with ms show ?thesis by simp
  qed
qed simp

section \<open>The update of a file\<close>

text \<open>\<open>apply_hunk\<close> takes the file apart at the matched block, whose lines are the old lines of the record it
  returns, and puts the new lines there; the cursor ends behind them.\<close>

lemma apply_hunk_cut:
  assumes "apply_hunk ls h path cursor = Inr (out, fin, ah)"
  shows "\<exists>us vs. ls = us @ old_lines ah @ vs \<and> out = us @ new_lines ah @ vs \<and>
           clamp_cursor ls cursor \<le> length us \<and> start_line ah = length us + 1 \<and>
           fin = length us + length (new_lines ah) \<and>
           old_lines ah = old_texts (row_lines ah) \<and> new_lines ah = new_texts (row_lines ah) \<and>
           texts_of LineAdd (row_lines ah) = texts_of LineAdd (hunk_lines h)"
proof -
  obtain loc where loc: "locate_hunk ls h path cursor = Inr loc"
    using assms by (auto simp: apply_hunk_def res_simps)
  obtain c where c: "clamp_cursor ls cursor \<le> c" and good: "good_location ls (pattern_from_hunk h) c loc"
    using locate_hunk_good [OF loc] by blast
  define us where "us = take (loc_start loc) ls"
  define ms where "ms = drop (loc_start loc) (take (loc_start loc + loc_len loc) ls)"
  define vs where "vs = drop (loc_start loc + loc_len loc) ls"
  have fit: "loc_start loc + loc_len loc \<le> length ls" "c \<le> loc_start loc"
    using good by (simp_all add: good_location_def)
  have ls: "ls = us @ ms @ vs"
    using append_take_drop_id [of "loc_len loc" "drop (loc_start loc) ls"]
    by (simp add: us_def ms_def vs_def drop_take add.commute)
  obtain olds news rows where
    tr: "hunk_transform path (hunk_pattern_lines h) (loc_synthetic loc) (hunk_lines h) ms = Inr (olds, news, rows)"
    and out: "out = us @ news @ vs" "fin = loc_start loc + length news"
      "ah = \<lparr>start_line = loc_start loc + 1, old_lines = olds, new_lines = news, row_lines = rows\<rparr>"
    using assms loc fit by (auto simp: apply_hunk_def res_simps Let_def us_def ms_def vs_def)
  have len: "length us = loc_start loc" "length ms = loc_len loc" using fit by (simp_all add: us_def ms_def)
  have "olds = ms"
  proof (cases "loc_synthetic loc")
    case False
    with good len have "length ms = length (filter pattern_line (hunk_lines h))"
      by (simp add: good_location_def pattern_from_hunk_def)
    from hunk_transform_olds [OF this, of path "hunk_pattern_lines h" "loc_synthetic loc"] tr show ?thesis by auto
  next
    case True
    define p where "p = butlast (pattern_from_hunk h)"
    define z where "z = last (pattern_from_hunk h)"
    have "filter pattern_line (hunk_lines h) = p @ [z]" "line_kind z = LineContext" "line_text z = []"
      "length ms = length p"
      using good True len by (simp_all add: good_location_def p_def z_def pattern_from_hunk_def)
    from hunk_transform_synthetic [OF this, of path "hunk_pattern_lines h"] tr True show ?thesis by auto
  qed
  moreover have "olds = old_texts rows \<and> news = new_texts rows \<and> texts_of LineAdd rows = texts_of LineAdd (hunk_lines h)"
    using hunk_transform_rows [OF tr] .
  ultimately show ?thesis using ls out len c fit by (intro exI [of _ us] exI [of _ vs]) auto
qed

text \<open>The reference for a whole update: the file is the kept pieces with the old blocks between them, the result the
  same kept pieces with the new blocks.\<close>

fun weave :: "'a list list \<Rightarrow> 'a list list \<Rightarrow> 'a list" where
  "weave (k # ks) (b # bs) = k @ b @ weave ks bs"
| "weave (k # ks) [] = k"
| "weave [] bs = []"

definition cuts :: "string list \<Rightarrow> applied_hunk list \<Rightarrow> string list \<Rightarrow> bool" where
  "cuts pre ahs post \<longleftrightarrow>
     (\<exists>keeps. length keeps = length ahs + 1 \<and>
        pre = weave keeps (map old_lines ahs) \<and> post = weave keeps (map new_lines ahs))"

definition faithful_rows :: "hunk \<Rightarrow> applied_hunk \<Rightarrow> bool" where
  "faithful_rows h ah \<longleftrightarrow>
     old_lines ah = old_texts (row_lines ah) \<and> new_lines ah = new_texts (row_lines ah) \<and>
     texts_of LineAdd (row_lines ah) = texts_of LineAdd (hunk_lines h)"

lemma apply_hunks_cuts:
  "apply_hunks path hs (done @ ls) (length done) = Inr (out, ahs) \<Longrightarrow>
     (\<exists>post. out = done @ post \<and> cuts ls ahs post) \<and> list_all2 faithful_rows hs ahs"
proof (induction hs arbitrary: "done" ls out ahs)
  case Nil
  then show ?case by (auto simp: cuts_def intro!: exI [of _ "[ls]"])
next
  case (Cons h hs)
  obtain ls' fin ah ahs' where
    hd: "apply_hunk (done @ ls) h path (int (length done)) = Inr (ls', fin, ah)"
    and tl: "apply_hunks path hs ls' fin = Inr (out, ahs')" and ahs: "ahs = ah # ahs'"
    using Cons.prems by (auto simp: res_simps split: if_splits)
  obtain us vs where cut: "done @ ls = us @ old_lines ah @ vs" "ls' = us @ new_lines ah @ vs"
      "length done \<le> length us" "fin = length us + length (new_lines ah)"
    and rows: "faithful_rows h ah"
    using apply_hunk_cut [OF hd] by (auto simp: clamp_cursor_def faithful_rows_def)
  obtain k where us: "us = done @ k" "ls = k @ old_lines ah @ vs"
    using cut(1,3) by (auto simp: append_eq_append_conv2)
  have "apply_hunks path hs ((done @ k @ new_lines ah) @ vs) (length (done @ k @ new_lines ah)) = Inr (out, ahs')"
    using tl cut us by (simp add: add.assoc)
  from Cons.IH [OF this] obtain post where
    post: "out = (done @ k @ new_lines ah) @ post" "cuts vs ahs' post" "list_all2 faithful_rows hs ahs'"
    by blast
  then obtain keeps where keeps: "length keeps = length ahs' + 1" "vs = weave keeps (map old_lines ahs')"
    "post = weave keeps (map new_lines ahs')" by (auto simp: cuts_def)
  then have "cuts ls ahs (k @ new_lines ah @ post)"
    using us ahs by (auto simp: cuts_def intro!: exI [of _ "k # keeps"])
  with post rows ahs show ?case by auto
qed

text \<open>C18: An update of a file is the edit its preview rows show. The lines of the file are taken apart, in order, into
  kept pieces and the old blocks of the hunks; the new content has the same kept pieces with the new blocks in their
  place. The rows of a hunk give its old block (context and removed rows, with the text of the file
  even where the match was fuzzy) and its new block, and they add exactly the lines that the patch adds.\<close>

theorem update_weaves_hunks:
  assumes "compute_updated data fop = Inr (pre, content, ahs)"
  shows "pre = split_lines_raw data \<and> list_all2 faithful_rows (op_hunks fop) ahs \<and>
    (\<exists>post. content = join [CHR 0x0A] post \<and> cuts pre ahs post)"
proof -
  obtain ls where ls: "apply_hunks (op_path fop) (op_hunks fop) (split_lines_raw data) 0 = Inr (ls, ahs)"
    "pre = split_lines_raw data" "content = join [CHR 0x0A] ls"
    using assms by (auto simp: compute_updated_def res_simps)
  then show ?thesis
    using apply_hunks_cuts [of "op_path fop" "op_hunks fop" "[]" "split_lines_raw data" ls ahs] by auto
qed

lemma mset_weave:
  "length ks = length bs + 1 \<Longrightarrow> mset (weave ks bs) = mset (concat ks) + mset (concat bs)"
proof (induction ks bs rule: weave.induct)
  case (2 k ks)
  then show ?case by simp
qed auto

lemma mset_pattern_rows:
  "mset (old_texts rows) + mset (texts_of LineAdd rows) = mset (new_texts rows) + mset (texts_of LineRemove rows)"
proof (induction rows)
  case (Cons l rows)
  then show ?case
    by (cases "line_kind l") (auto simp: old_texts_def new_texts_def texts_of_def)
qed (simp add: old_texts_def new_texts_def texts_of_def)

definition all_added :: "hunk list \<Rightarrow> string list" where
  "all_added hs = concat (map (texts_of LineAdd \<circ> hunk_lines) hs)"

definition all_removed :: "applied_hunk list \<Rightarrow> string list" where
  "all_removed ahs = concat (map (texts_of LineRemove \<circ> row_lines) ahs)"

lemma faithful_rows_mset:
  "list_all2 faithful_rows hs ahs \<Longrightarrow>
     mset (concat (map old_lines ahs)) + mset (all_added hs) = mset (concat (map new_lines ahs)) + mset (all_removed ahs)"
proof (induction rule: list_all2_induct)
  case (Cons h hs ah ahs)
  have "mset (old_lines ah) + mset (texts_of LineAdd (hunk_lines h)) =
      mset (new_lines ah) + mset (texts_of LineRemove (row_lines ah))"
    using Cons(1) mset_pattern_rows [of "row_lines ah"] by (simp add: faithful_rows_def)
  then show ?case
    using Cons(3) by (simp add: all_added_def all_removed_def) (simp add: ac_simps)
qed (simp add: all_added_def all_removed_def)

text \<open>No line is lost or invented. Counted with multiplicity, the lines after an update and the removed rows
  of its preview are the lines before it and the lines the patch adds.\<close>

theorem update_conserves_lines:
  assumes "apply_hunks path hs ls 0 = Inr (out, ahs)"
  shows "mset out + mset (all_removed ahs) = mset ls + mset (all_added hs)"
proof -
  have c: "cuts ls ahs out" "list_all2 faithful_rows hs ahs"
    using apply_hunks_cuts [of path hs "[]" ls out ahs] assms by auto
  then obtain keeps where k: "length keeps = length ahs + 1" "ls = weave keeps (map old_lines ahs)"
    "out = weave keeps (map new_lines ahs)" by (auto simp: cuts_def)
  have m: "mset ls = mset (concat keeps) + mset (concat (map old_lines ahs))"
    "mset out = mset (concat keeps) + mset (concat (map new_lines ahs))"
    using k by (simp_all add: mset_weave)
  show ?thesis
    unfolding m using faithful_rows_mset [OF c(2)] by (simp only: add.assoc)
qed

section \<open>A hunk taken from the file applies\<close>

lemma hunk_transform_exact:
  "hunk_transform path pat synth hls (old_texts hls) = Inr (old_texts hls, new_texts hls, hls)"
proof (induction hls)
  case (Cons hl hls)
  have "mk_line (line_kind hl) (line_text hl) = hl" by (cases hl) (simp add: mk_line_def)
  with Cons show ?case
    by (cases "line_kind hl") (auto simp: old_texts_def new_texts_def Let_def)
qed (simp add: old_texts_def new_texts_def)

lemma match_pattern_exact: "match_pattern_at (us @ pattern_texts p @ vs) p (length us)"
proof -
  have "list_all (\<lambda>(l, t). match_at_level l (line_text t) 1) (zip (pattern_texts p @ vs) p)"
    by (induction p) (auto simp: match_at_level_def pattern_texts_def)
  then show ?thesis by (simp add: match_pattern_at_def)
qed

lemma exact_hunk:
  assumes "anchor h = []" "hunk_has_match_lines h"
    and "ls = us @ old_texts (hunk_lines h) @ vs" "cursor \<le> length us"
    and "\<And>s. cursor \<le> s \<Longrightarrow> s < length us \<Longrightarrow> \<not> fits ls (pattern_from_hunk h) s"
  shows "apply_hunk ls h path (int cursor) =
    Inr (us @ new_texts (hunk_lines h) @ vs, length us + length (new_texts (hunk_lines h)),
         \<lparr>start_line = length us + 1, old_lines = old_texts (hunk_lines h),
          new_lines = new_texts (hunk_lines h), row_lines = hunk_lines h\<rparr>)"
proof -
  define p where "p = pattern_from_hunk h"
  have texts: "old_texts (hunk_lines h) = pattern_texts p"
    by (simp add: p_def pattern_from_hunk_def old_texts_def pattern_texts_def)
  have p: "p \<noteq> []"
    using assms(2) by (auto simp: p_def pattern_from_hunk_def hunk_has_match_lines_def list_ex_iff filter_empty_conv)
  have len: "length (pattern_texts p) = length p" by (simp add: pattern_texts_def)
  have c: "clamp_cursor ls (int cursor) = cursor" using assms(3,4) by (simp add: clamp_cursor_def)
  have "fits ls p (length us)"
    using match_pattern_exact [of us p vs] assms(3) texts len by (simp add: fits_def)
  then have "find (match_pattern_at ls p) (starts_between cursor ls p) = Some (length us)"
    using assms(4,5) by (simp add: find_fits_Some p_def)
  then have "locate_seq ls p path cursor =
      Inr \<lparr>loc_start = length us, loc_len = length p, loc_synthetic = False\<rparr>"
    using p c by (simp add: locate_seq_def)
  then have "locate_hunk ls h path (int cursor) =
      Inr \<lparr>loc_start = length us, loc_len = length p, loc_synthetic = False\<rparr>"
    using assms(1) p c by (simp add: locate_hunk_def p_def [symmetric])
  then show ?thesis
    using assms(3) texts len hunk_transform_exact [of path "hunk_pattern_lines h" False "hunk_lines h"]
    by (simp add: apply_hunk_def Let_def)
qed

definition sample_hunk :: hunk where
  "sample_hunk = \<lparr>anchor = [], hunk_lines = [mk_line LineContext ''b'', mk_line LineRemove ''c'', mk_line LineAdd ''d'']\<rparr>"

lemma sample_hunks_apply:
  "apply_hunks ''f'' [sample_hunk] [''b'', ''c'', ''e''] 0 =
     Inr ([''b'', ''d'', ''e''],
       [\<lparr>start_line = 1, old_lines = [''b'', ''c''], new_lines = [''b'', ''d''], row_lines = hunk_lines sample_hunk\<rparr>])"
  using exact_hunk [of sample_hunk "[''b'', ''c'', ''e'']" "[]" "[''e'']" 0 "''f''"]
  by (simp add: sample_hunk_def hunk_has_match_lines_def old_texts_def new_texts_def mk_line_def pattern_line_def)

text \<open>A hunk without an anchor whose context and removed lines stand in the file verbatim, at or behind the cursor and
  with no earlier place where they match, is applied there: its block is replaced by its context and
  added lines, nothing else changes, and the next hunk is searched behind it.\<close>

theorem exact_hunk_applies:
  assumes "anchor h = []" "hunk_has_match_lines h"
    and "ls = us @ old_texts (hunk_lines h) @ vs" "cursor \<le> length us"
    and "\<And>s. cursor \<le> s \<Longrightarrow> s < length us \<Longrightarrow> \<not> fits ls (pattern_from_hunk h) s"
  shows "apply_hunk ls h path (int cursor) =
    Inr (us @ new_texts (hunk_lines h) @ vs, length us + length (new_texts (hunk_lines h)),
         \<lparr>start_line = length us + 1, old_lines = old_texts (hunk_lines h),
          new_lines = new_texts (hunk_lines h), row_lines = hunk_lines h\<rparr>)"
  using assms by (rule exact_hunk)

theorem exact_hunk_applies_witness:
  "apply_hunk [''a'', ''b'', ''c'', ''e''] sample_hunk ''f'' (int 1) =
     Inr ([''a''] @ new_texts (hunk_lines sample_hunk) @ [''e''],
       length [''a''] + length (new_texts (hunk_lines sample_hunk)),
       \<lparr>start_line = length [''a''] + 1, old_lines = old_texts (hunk_lines sample_hunk),
        new_lines = new_texts (hunk_lines sample_hunk), row_lines = hunk_lines sample_hunk\<rparr>)"
  by (rule exact_hunk_applies)
    (simp_all add: sample_hunk_def hunk_has_match_lines_def old_texts_def mk_line_def pattern_line_def)

definition sample_update :: file_op where
  "sample_update = \<lparr>op_kind = OpUpdate, op_path = ''f'', move_path = [], op_hunks = [sample_hunk]\<rparr>"

theorem update_conserves_lines_witness:
  "\<exists>out ahs. apply_hunks ''f'' [sample_hunk] [''b'', ''c'', ''e''] 0 = Inr (out, ahs) \<and>
     mset out + mset (all_removed ahs) = mset [''b'', ''c'', ''e''] + mset (all_added [sample_hunk])"
  using update_conserves_lines [OF sample_hunks_apply] sample_hunks_apply by blast

lemma sample_computes:
  "\<exists>r. compute_updated (join [CHR 0x0A] [''b'', ''c'', ''e'']) sample_update = Inr r"
  using sample_hunks_apply
  by (simp add: compute_updated_def sample_update_def split_lines_raw_def)

theorem update_weaves_hunks_witness:
  "\<exists>pre content ahs. compute_updated (join [CHR 0x0A] [''b'', ''c'', ''e'']) sample_update = Inr (pre, content, ahs) \<and>
     (\<exists>post. content = join [CHR 0x0A] post \<and> cuts pre ahs post)"
  using sample_computes update_weaves_hunks by fast

end
