(* ===== verification/Edit_Preview.thy ===== *)
theory Edit_Preview
  imports Patch_Match Json Go_Number
begin

text \<open>
  The tool \<open>edit_file\<close> on a buffer (\<open>ApplyEdit\<close> of \<open>src/internal/tool/edit_file.go\<close>) and the diff preview
  (\<open>src/internal/editpreview/preview.go\<close>, \<open>src/internal/tool/apply_patch.go\<close>): the longest common
  subsequence table, the rows read off it, the rows of an applied patch, and the start lines the preview reads back
  from the text of the result. A loop that need not end is a \<open>partial_function\<close>; \<open>None\<close> is its not returning.
\<close>

section \<open>Editing a buffer\<close>

fun count_sub :: "nat \<Rightarrow> string \<Rightarrow> string \<Rightarrow> nat" where
  "count_sub k sub [] = 0"
| "count_sub k sub (c # s) =
     (if 0 < k then count_sub (k - 1) sub s
      else if prefix sub (c # s) then Suc (count_sub (length sub - 1) sub s)
      else count_sub 0 sub s)"

text \<open>\<open>strings.Count\<close>; the count of the empty string is one more than the number of runes. \<open>k\<close> above is
  how much of the current match is left.\<close>

definition str_count :: "string \<Rightarrow> string \<Rightarrow> nat" where
  "str_count s sub = (if sub = [] then length (runes s) + 1 else count_sub 0 sub s)"

definition newlines :: "string \<Rightarrow> nat" where
  "newlines s = length (filter (\<lambda>c. c = CHR 0x0A) s)"

definition count_newlines_upto :: "string \<Rightarrow> nat \<Rightarrow> nat" where
  "count_newlines_upto s i = newlines (take i s)"

text \<open>The loop over the occurrences, with the positions at which it finds them.\<close>

partial_function (option) occurrences :: "string \<Rightarrow> nat \<Rightarrow> string \<Rightarrow> nat list option" where
  "occurrences old shift remaining =
     (case index_of old remaining of
        None \<Rightarrow> Some []
      | Some i \<Rightarrow>
          Option.bind (occurrences old (shift + i + length old) (drop (i + length old) remaining))
            (\<lambda>ps. Some ((shift + i) # ps)))"

declare occurrences.simps [code]

datatype edit_error = OldNotFound string | OldAmbiguous nat string

record edit_result =
  er_content :: string
  er_summary :: string
  er_ranges :: string
  er_count :: nat

definition line_range :: "string \<Rightarrow> string \<Rightarrow> nat \<Rightarrow> string" where
  "line_range content new p =
     (let start = count_newlines_upto content p + 1
      in show_nat start @ ''-'' @ show_nat (start + newlines new))"

definition edit_summary :: "string \<Rightarrow> nat \<Rightarrow> string list \<Rightarrow> string" where
  "edit_summary path n ranges =
     ''Edited '' @ path @ '' ('' @ show_nat n @ (if 1 < n then '' replacements, lines '' else '' replacement, lines '') @
     join '', '' ranges @ '').''"

definition edit_outcome :: "string \<Rightarrow> string \<Rightarrow> nat \<Rightarrow> string list \<Rightarrow> edit_result" where
  "edit_outcome updated path n ranges =
     \<lparr>er_content = updated, er_summary = edit_summary path n ranges, er_ranges = join '', '' ranges, er_count = n\<rparr>"

definition apply_edit ::
  "string \<Rightarrow> string \<Rightarrow> string \<Rightarrow> bool \<Rightarrow> string \<Rightarrow> (edit_error + edit_result) option" where
  "apply_edit content old new all path =
     (let n = str_count content old
      in if n = 0 then Some (Inl (OldNotFound path))
         else if 1 < n \<and> \<not> all then Some (Inl (OldAmbiguous n path))
         else if all then
           (case occurrences old 0 content of
              None \<Rightarrow> None
            | Some ps \<Rightarrow> Some (Inr (edit_outcome (replace_all old new content) path n (map (line_range content new) ps))))
         else
           (let i = the (index_of old content)
            in Some (Inr (edit_outcome (take i content @ new @ drop (i + length old) content) path 1
                            [line_range content new i]))))"

section \<open>Start lines read back\<close>

fun last_index_of :: "string \<Rightarrow> string \<Rightarrow> nat option" where
  "last_index_of sub [] = (if sub = [] then Some 0 else None)"
| "last_index_of sub (c # s) =
     (case last_index_of sub s of
        Some i \<Rightarrow> Some (Suc i)
      | None \<Rightarrow> if prefix sub (c # s) then Some 0 else None)"

definition cut_at :: "string \<Rightarrow> string \<Rightarrow> string" where
  "cut_at sub s = (case index_of sub s of None \<Rightarrow> s | Some i \<Rightarrow> take i s)"

definition start_of_part :: "string \<Rightarrow> int list" where
  "start_of_part part =
     (let p = trim_space part
      in if p = [] then []
         else (case atoi (cut_at ''-'' p) of
                 Some v \<Rightarrow> if 0 < v then [v] else []
               | None \<Rightarrow> []))"

definition parse_start_lines :: "string \<Rightarrow> int list" where
  "parse_start_lines result =
     (case last_index_of ''lines '' result of
        None \<Rightarrow> []
      | Some i \<Rightarrow>
          (let tail = trim_suffix ''.'' (trim_space (cut_at '')'' (drop (i + 6) result)))
           in concat (map start_of_part (split_char (CHR '','') tail))))"

section \<open>Rows\<close>

datatype row_kind = RowContext | RowRemove | RowAdd

record row =
  row_kind :: row_kind
  old_line :: int
  new_line :: int
  row_text :: string

definition mk_row :: "row_kind \<Rightarrow> int \<Rightarrow> int \<Rightarrow> string \<Rightarrow> row" where
  "mk_row k a b t = \<lparr>row_kind = k, old_line = a, new_line = b, row_text = t\<rparr>"

text \<open>The table \<open>dp\<close> row by row, from the last old line up: each row has one entry more than there are new lines.\<close>

fun dp_row :: "string \<Rightarrow> string list \<Rightarrow> nat list \<Rightarrow> nat list" where
  "dp_row x [] below = [0]"
| "dp_row x (y # ys) below =
     (let rest = dp_row x ys (tl below)
      in (if x = y then hd (tl below) + 1 else max (hd below) (hd rest)) # rest)"

fun dp_table :: "string list \<Rightarrow> string list \<Rightarrow> nat list list" where
  "dp_table [] ys = [replicate (length ys + 1) 0]"
| "dp_table (x # xs) ys = (let t = dp_table xs ys in dp_row x ys (hd t) # t)"

function diff_walk ::
  "string list \<Rightarrow> string list \<Rightarrow> nat list list \<Rightarrow> nat \<Rightarrow> nat \<Rightarrow> int \<Rightarrow> int \<Rightarrow> row list" where
  "diff_walk xs ys dp i j a b =
     (if i < length xs \<and> j < length ys \<and> xs ! i = ys ! j then
        mk_row RowContext a b (xs ! i) # diff_walk xs ys dp (i + 1) (j + 1) (a + 1) (b + 1)
      else if i < length xs \<and> (j = length ys \<or> dp ! i ! (j + 1) \<le> dp ! (i + 1) ! j) then
        mk_row RowRemove a 0 (xs ! i) # diff_walk xs ys dp (i + 1) j (a + 1) b
      else if j < length ys then
        mk_row RowAdd 0 b (ys ! j) # diff_walk xs ys dp i (j + 1) a (b + 1)
      else [])"
  by pat_completeness auto
termination
  by (relation "measure (\<lambda>(xs, ys, dp, i, j, a, b). (length xs - i) + (length ys - j))") auto

declare diff_walk.simps [simp del]

definition diff_rows :: "string list \<Rightarrow> string list \<Rightarrow> int \<Rightarrow> row list" where
  "diff_rows xs ys start = diff_walk xs ys (dp_table xs ys) 0 0 start start"

definition split_lines :: "string \<Rightarrow> string list" where
  "split_lines s =
     (if s = [] then []
      else (let ls = split_char (CHR 0x0A) s;
                ls' = (if suffix [CHR 0x0A] s then butlast ls else ls)
            in map (trim_suffix [CHR 0x0D]) ls'))"

definition build_preview :: "string \<Rightarrow> string \<Rightarrow> string \<Rightarrow> row list list option" where
  "build_preview old new result =
     (let starts = parse_start_lines result; xs = split_lines old; ys = split_lines new
      in if starts = [] then None
         else if xs = [] \<and> ys = [] then None
         else (let hunks = filter (\<lambda>rows. rows \<noteq> []) (map (diff_rows xs ys) starts)
               in if hunks = [] then None else Some hunks))"

text \<open>The preview kept beside a result of \<open>edit_file\<close>. A decoded object is its members; a member that is missing or
  no string reads as the empty string.\<close>

definition string_param :: "(string \<times> json) list \<Rightarrow> string \<Rightarrow> string" where
  "string_param params k = (case map_of params k of Some (JStr s) \<Rightarrow> s | _ \<Rightarrow> [])"

definition metadata_from_params :: "(string \<times> json) list \<Rightarrow> string \<Rightarrow> row list list option" where
  "metadata_from_params params result =
     (let old = string_param params ''old_string''; new = string_param params ''new_string''
      in if (old = [] \<and> new = []) \<or> old = new then None else build_preview old new result)"

definition metadata_from_args :: "raw \<Rightarrow> string \<Rightarrow> row list list option" where
  "metadata_from_args args result =
     (case args of
        Value (JObj ms) \<Rightarrow> metadata_from_params (obj_fields ms) result
      | Value JNull \<Rightarrow> metadata_from_params [] result
      | _ \<Rightarrow> None)"

definition display_line :: "row \<Rightarrow> int" where
  "display_line r = (if row_kind r = RowRemove then old_line r else new_line r)"

definition marker :: "row \<Rightarrow> string" where
  "marker r = (case row_kind r of RowRemove \<Rightarrow> ''-'' | RowAdd \<Rightarrow> ''+'' | RowContext \<Rightarrow> '' '')"

section \<open>The rows of an applied patch\<close>

record file_preview =
  fp_op :: string
  fp_path :: string
  fp_pre :: "string list"
  fp_post :: "string list"
  fp_hunks :: "applied_hunk list"

fun added_rows :: "int \<Rightarrow> string list \<Rightarrow> row list" where
  "added_rows n [] = []"
| "added_rows n (l # ls) = mk_row RowAdd 0 n l # added_rows (n + 1) ls"

fun hunk_rows :: "int \<Rightarrow> int \<Rightarrow> hunk_line list \<Rightarrow> row list" where
  "hunk_rows a b [] = []"
| "hunk_rows a b (l # ls) =
     (case line_kind l of
        LineContext \<Rightarrow> mk_row RowContext a b (line_text l) # hunk_rows (a + 1) (b + 1) ls
      | LineRemove \<Rightarrow> mk_row RowRemove a 0 (line_text l) # hunk_rows (a + 1) b ls
      | LineAdd \<Rightarrow> mk_row RowAdd 0 b (line_text l) # hunk_rows a (b + 1) ls)"

definition captured_preview :: "file_preview \<Rightarrow> row list list" where
  "captured_preview p =
     (if fp_hunks p = [] then
        (if fp_op p \<noteq> ''A'' \<or> fp_post p = [] then [] else [added_rows 1 (fp_post p)])
      else map (\<lambda>h. hunk_rows (int (start_line h)) (int (start_line h)) (row_lines h)) (fp_hunks p))"

section \<open>The table is the longest common subsequence\<close>

fun lcs :: "'a list \<Rightarrow> 'a list \<Rightarrow> nat" where
  "lcs [] ys = 0"
| "lcs xs [] = 0"
| "lcs (x # xs) (y # ys) = (if x = y then lcs xs ys + 1 else max (lcs xs (y # ys)) (lcs (x # xs) ys))"

lemma lcs_Nil [simp]: "lcs xs [] = 0"
  by (cases xs) auto

definition lcs_row :: "string list \<Rightarrow> string list \<Rightarrow> nat list" where
  "lcs_row xs ys = map (\<lambda>j. lcs xs (drop j ys)) [0 ..< length ys + 1]"

lemma lcs_row_Nil: "lcs_row xs [] = [0]"
  by (simp add: lcs_row_def)

lemma upt_head: "[0 ..< Suc n + 1] = 0 # map Suc [0 ..< n + 1]"
  by (simp add: map_Suc_upt upt_conv_Cons del: upt_Suc)

lemma lcs_row_Cons: "lcs_row xs (y # ys) = lcs xs (y # ys) # lcs_row xs ys"
  using upt_head [of "length ys"] by (simp add: lcs_row_def o_def del: upt_Suc)

lemma dp_row_lcs: "dp_row x ys (lcs_row xs ys) = lcs_row (x # xs) ys"
proof (induction ys)
  case Nil
  show ?case by (simp add: lcs_row_Nil)
next
  case (Cons y ys)
  have hd: "hd (lcs_row zs ys) = lcs zs ys" for zs
    by (cases ys) (simp_all add: lcs_row_Nil lcs_row_Cons)
  show ?case
    by (simp add: lcs_row_Cons Let_def Cons.IH hd)
qed

lemma dp_table_lcs: "dp_table xs ys = map (\<lambda>i. lcs_row (drop i xs) ys) [0 ..< length xs + 1]"
proof (induction xs)
  case Nil
  have "replicate (length ys + 1) 0 = lcs_row [] ys"
    by (simp add: lcs_row_def map_replicate_const del: upt_Suc replicate_Suc)
  then show ?case by simp
next
  case (Cons x xs)
  have hd: "hd (dp_table xs ys) = lcs_row xs ys"
    unfolding Cons.IH by (simp add: upt_conv_Cons del: upt_Suc)
  have "map (\<lambda>i. lcs_row (drop i (x # xs)) ys) [0 ..< length (x # xs) + 1] =
      lcs_row (x # xs) ys # map (\<lambda>i. lcs_row (drop i xs) ys) [0 ..< length xs + 1]"
    using upt_head [of "length xs"] by (simp add: o_def del: upt_Suc)
  moreover have "dp_table (x # xs) ys = lcs_row (x # xs) ys # dp_table xs ys"
    by (simp only: dp_table.simps Let_def hd dp_row_lcs)
  ultimately show ?case using Cons.IH by simp
qed

lemma dp_entry: "i \<le> length xs \<Longrightarrow> j \<le> length ys \<Longrightarrow> dp_table xs ys ! i ! j = lcs (drop i xs) (drop j ys)"
  by (simp add: dp_table_lcs lcs_row_def del: upt_Suc)

lemma lcs_subseq: "subseq zs xs \<Longrightarrow> subseq zs ys \<Longrightarrow> length zs \<le> lcs xs ys"
proof (induction xs ys arbitrary: zs rule: lcs.induct)
  case (3 x xs y ys)
  show ?case
  proof (cases zs)
    case (Cons z zs')
    consider "x = y" "z = x" | "x = y" "z \<noteq> x" | "x \<noteq> y" "z = x" | "x \<noteq> y" "z \<noteq> x" by blast
    then show ?thesis
    proof cases
      case 1
      with 3 Cons have "length zs' \<le> lcs xs ys" by (intro "3.IH"(1)) auto
      with 1 Cons show ?thesis by simp
    next
      case 2
      with 3 Cons have "length zs \<le> lcs xs ys" by (intro "3.IH"(1)) auto
      with 2 show ?thesis by simp
    next
      case 3
      with "3.prems" Cons have "length zs \<le> lcs (x # xs) ys" by (intro "3.IH"(3)) auto
      with 3 show ?thesis by simp
    next
      case 4
      with "3.prems" Cons have "length zs \<le> lcs xs (y # ys)" by (intro "3.IH"(2)) auto
      with 4 show ?thesis by simp
    qed
  qed simp
qed auto

section \<open>What the rows show\<close>

definition shown_old :: "row list \<Rightarrow> string list" where
  "shown_old rows = map row_text (filter (\<lambda>r. row_kind r \<noteq> RowAdd) rows)"

definition shown_new :: "row list \<Rightarrow> string list" where
  "shown_new rows = map row_text (filter (\<lambda>r. row_kind r \<noteq> RowRemove) rows)"

definition shown_kept :: "row list \<Rightarrow> string list" where
  "shown_kept rows = map row_text (filter (\<lambda>r. row_kind r = RowContext) rows)"

text \<open>Old and new line numbers count up from \<open>a\<close> and \<open>b\<close>.\<close>

fun numbered :: "int \<Rightarrow> int \<Rightarrow> row list \<Rightarrow> bool" where
  "numbered a b [] \<longleftrightarrow> True"
| "numbered a b (r # rs) \<longleftrightarrow>
     (case row_kind r of
        RowContext \<Rightarrow> old_line r = a \<and> new_line r = b \<and> numbered (a + 1) (b + 1) rs
      | RowRemove \<Rightarrow> old_line r = a \<and> numbered (a + 1) b rs
      | RowAdd \<Rightarrow> new_line r = b \<and> numbered a (b + 1) rs)"

lemma mk_row_sel [simp]: "row_kind (mk_row k a b t) = k" "old_line (mk_row k a b t) = a"
  "new_line (mk_row k a b t) = b" "row_text (mk_row k a b t) = t"
  by (simp_all add: mk_row_def)

lemma shown_simps [simp]:
  "shown_old [] = []" "shown_new [] = []" "shown_kept [] = []"
  "shown_old (mk_row k a b t # rs) = (if k = RowAdd then [] else [t]) @ shown_old rs"
  "shown_new (mk_row k a b t # rs) = (if k = RowRemove then [] else [t]) @ shown_new rs"
  "shown_kept (mk_row k a b t # rs) = (if k = RowContext then [t] else []) @ shown_kept rs"
  by (simp_all add: shown_old_def shown_new_def shown_kept_def)

text \<open>The walk with the table replaced by what it holds, on the rests of the two texts.\<close>

fun diff_spec :: "string list \<Rightarrow> string list \<Rightarrow> int \<Rightarrow> int \<Rightarrow> row list" where
  "diff_spec [] [] a b = []"
| "diff_spec (x # xs) [] a b = mk_row RowRemove a 0 x # diff_spec xs [] (a + 1) b"
| "diff_spec [] (y # ys) a b = mk_row RowAdd 0 b y # diff_spec [] ys a (b + 1)"
| "diff_spec (x # xs) (y # ys) a b =
     (if x = y then mk_row RowContext a b x # diff_spec xs ys (a + 1) (b + 1)
      else if lcs (x # xs) ys \<le> lcs xs (y # ys) then mk_row RowRemove a 0 x # diff_spec xs (y # ys) (a + 1) b
      else mk_row RowAdd 0 b y # diff_spec (x # xs) ys a (b + 1))"

lemma diff_walk_spec:
  "i \<le> length xs \<Longrightarrow> j \<le> length ys \<Longrightarrow>
     diff_walk xs ys (dp_table xs ys) i j a b = diff_spec (drop i xs) (drop j ys) a b"
proof (induction "(length xs - i) + (length ys - j)" arbitrary: i j a b rule: less_induct)
  case less
  have entries: "dp_table xs ys ! i ! (j + 1) = lcs (drop i xs) (drop (j + 1) ys)" if "j < length ys"
    using that less.prems by (intro dp_entry) auto
  have entries': "dp_table xs ys ! (i + 1) ! j = lcs (drop (i + 1) xs) (drop j ys)" if "i < length xs"
    using that less.prems by (intro dp_entry) auto
  have IHr: "diff_walk xs ys (dp_table xs ys) (i + 1) j (a + 1) b = diff_spec (drop (i + 1) xs) (drop j ys) (a + 1) b"
    if "i < length xs"
    using that less.prems by (intro less.hyps) auto
  have IHa: "diff_walk xs ys (dp_table xs ys) i (j + 1) a (b + 1) = diff_spec (drop i xs) (drop (j + 1) ys) a (b + 1)"
    if "j < length ys"
    using that less.prems by (intro less.hyps) auto
  show ?case
  proof (cases "i < length xs")
    case iL: True
    then have di: "drop i xs = xs ! i # drop (i + 1) xs" by (simp add: Cons_nth_drop_Suc)
    show ?thesis
    proof (cases "j < length ys")
      case jL: True
      then have dj: "drop j ys = ys ! j # drop (j + 1) ys" by (simp add: Cons_nth_drop_Suc)
      have both: "diff_walk xs ys (dp_table xs ys) (i + 1) (j + 1) (a + 1) (b + 1) =
          diff_spec (drop (i + 1) xs) (drop (j + 1) ys) (a + 1) (b + 1)"
        using iL jL less.prems by (intro less.hyps) auto
      show ?thesis
        using iL jL entries entries' IHr IHa both by (subst diff_walk.simps) (simp add: di dj)
    next
      case False
      then have dj: "drop j ys = []" "j = length ys" using less.prems by auto
      show ?thesis
        using iL dj IHr by (subst diff_walk.simps) (simp add: di del: drop_Suc)
    qed
  next
    case False
    then have di: "drop i xs = []" "i = length xs" using less.prems by auto
    show ?thesis
    proof (cases "j < length ys")
      case True
      then have dj: "drop j ys = ys ! j # drop (j + 1) ys" by (simp add: Cons_nth_drop_Suc)
      show ?thesis using di True IHa by (subst diff_walk.simps) (simp add: dj)
    next
      case False
      then show ?thesis using di less.prems by (subst diff_walk.simps) simp
    qed
  qed
qed

lemma diff_spec_shown:
  "shown_old (diff_spec xs ys a b) = xs \<and> shown_new (diff_spec xs ys a b) = ys \<and>
     numbered a b (diff_spec xs ys a b) \<and> length (shown_kept (diff_spec xs ys a b)) = lcs xs ys"
  by (induction xs ys a b rule: diff_spec.induct) auto

lemma diff_rows_spec: "diff_rows xs ys start = diff_spec xs ys start start"
  using diff_walk_spec [of 0 xs 0 ys start start] by (simp add: diff_rows_def)

lemma shown_kept_subseq: "subseq (shown_kept rows) (shown_old rows)" "subseq (shown_kept rows) (shown_new rows)"
  by (induction rows) (auto simp: shown_old_def shown_new_def shown_kept_def)

text \<open>C19: The diff shown for an edit is exact and minimal. The context and removed rows are the old lines, the context and
  added rows the new lines, in order and numbered from the start line on both sides; and no common subsequence
  of the two texts is longer than the context rows, so as few lines as possible are shown as changed.\<close>

theorem diff_rows_exact_minimal:
  "shown_old (diff_rows xs ys start) = xs \<and> shown_new (diff_rows xs ys start) = ys
    \<and> numbered start start (diff_rows xs ys start)
    \<and> (\<forall>zs. subseq zs xs \<longrightarrow> subseq zs ys \<longrightarrow> length zs \<le> length (shown_kept (diff_rows xs ys start)))"
  using diff_spec_shown [of xs ys start start] by (auto simp: diff_rows_spec intro: lcs_subseq)

theorem diff_rows_exact_minimal_witness:
  "shown_old (diff_rows [''a'', ''b''] [''b''] 7) = [''a'', ''b''] \<and>
     length [''b''] \<le> length (shown_kept (diff_rows [''a'', ''b''] [''b''] 7))"
proof -
  have "subseq [''b''] [''a'', ''b'']" "subseq [''b''] [''b'']" by simp_all
  with diff_rows_exact_minimal [of "[''a'', ''b'']" "[''b'']" 7] show ?thesis by blast
qed

text \<open>The rows of an applied hunk.\<close>

lemma hunk_rows_shown:
  "shown_old (hunk_rows a b ls) = old_texts ls \<and> shown_new (hunk_rows a b ls) = new_texts ls \<and> numbered a b (hunk_rows a b ls)"
  by (induction a b ls rule: hunk_rows.induct)
    (auto simp: old_texts_def new_texts_def split: line_kind.splits)

section \<open>The edit\<close>

lemma index_of_Some_prefix: "index_of sub s = Some i \<Longrightarrow> \<exists>t. s = take i s @ sub @ t \<and> drop (i + length sub) s = t \<and> i \<le> length s"
proof -
  assume i: "index_of sub s = Some i"
  from index_of_Some [OF i] obtain t where t: "drop i s = sub @ t" "i \<le> length s" by (auto simp: prefix_def)
  then have "drop (i + length sub) s = t" by (metis add.commute append_eq_conv_conj drop_drop)
  with t show ?thesis by (metis append_take_drop_id)
qed

lemma occurrences_terminates: "old \<noteq> [] \<Longrightarrow> \<exists>ps. occurrences old shift remaining = Some ps"
proof (induction "length remaining" arbitrary: shift remaining rule: less_induct)
  case less
  show ?case
  proof (cases "index_of old remaining")
    case None
    then show ?thesis by (subst occurrences.simps) simp
  next
    case (Some i)
    then have "length (drop (i + length old) remaining) < length remaining"
      using index_of_Some_prefix [OF Some] less.prems by (cases remaining) auto
    from less.hyps [OF this less.prems] obtain ps where
      "occurrences old (shift + i + length old) (drop (i + length old) remaining) = Some ps" by blast
    with Some show ?thesis by (subst occurrences.simps) simp
  qed
qed

text \<open>\<open>ApplyEdit\<close> returns on every input with a non-empty old string, which \<open>edit_file\<close> requires: its loop over the
  occurrences consumes the buffer.\<close>

theorem apply_edit_returns: "old \<noteq> [] \<Longrightarrow> \<exists>r. apply_edit content old new all path = Some r"
  using occurrences_terminates [of old 0 content] by (auto simp: apply_edit_def Let_def)

theorem apply_edit_returns_witness: "\<exists>r. apply_edit ''ab'' ''a'' ''c'' True ''p'' = Some r"
  by (rule apply_edit_returns) simp

lemma count_sub_0_index: "sub \<noteq> [] \<Longrightarrow> count_sub 0 sub s = 0 \<longleftrightarrow> index_of sub s = None"
  by (induction s) auto

text \<open>Without \<open>replace_all\<close> a successful edit replaces the one occurrence.\<close>

lemma apply_edit_single:
  assumes "old \<noteq> []" "apply_edit content old new False path = Some (Inr r)"
  shows "\<exists>us vs. content = us @ old @ vs \<and> er_content r = us @ new @ vs \<and> index_of old content = Some (length us)
     \<and> str_count content old = 1"
proof -
  have n: "str_count content old = 1"
    and r: "r = edit_outcome (take (the (index_of old content)) content @ new @
        drop (the (index_of old content) + length old) content) path 1 [line_range content new (the (index_of old content))]"
    using assms by (auto simp: apply_edit_def Let_def split: if_splits)
  obtain i where i: "index_of old content = Some i"
    using n count_sub_0_index [OF assms(1), of content] assms(1) by (auto simp: str_count_def)
  from index_of_Some_prefix [OF i] obtain t where
    "content = take i content @ old @ t" "drop (i + length old) content = t" "i \<le> length content" by blast
  with i r n show ?thesis
    by (intro exI [of _ "take i content"] exI [of _ t]) (simp add: edit_outcome_def)
qed

section \<open>The start lines are read back\<close>

text \<open>A range of lines as text: digits, a dash, digits.\<close>

definition range_text :: "nat \<times> nat \<Rightarrow> string" where
  "range_text ab = show_nat (fst ab) @ ''-'' @ show_nat (snd ab)"

lemma range_text_chars: "c \<in> set (range_text ab) \<Longrightarrow> is_digit c \<or> c = CHR ''-''"
  using show_nat_digits [of "fst ab"] show_nat_digits [of "snd ab"] by (auto simp: range_text_def list_all_iff)

lemma range_text_ends: "range_text ab \<noteq> [] \<and> is_digit (hd (range_text ab)) \<and> is_digit (last (range_text ab))"
  using show_nat_digits [of "fst ab"] show_nat_digits [of "snd ab"]
  by (auto simp: range_text_def hd_append list_all_iff)

lemma range_text_no: "c \<in> {CHR '','', CHR '')'', CHR ''l''} \<Longrightarrow> c \<notin> set (range_text ab)"
  using range_text_chars [of c ab] digit_char [of c] by auto

lemma index_of_dash: "CHR ''-'' \<notin> set u \<Longrightarrow> index_of ''-'' (u @ ''-'' @ v) = Some (length u)"
  by (induction u) auto

lemma start_of_range:
  assumes "0 < fst ab" "fst ab < 2 ^ 63" "t = range_text ab \<or> t = CHR '' '' # range_text ab"
  shows "start_of_part t = [int (fst ab)]"
proof -
  have "trimmed_ascii (range_text ab)"
    using range_text_ends [of ab] digit_char by (auto simp: trimmed_ascii_def)
  then have trim: "trim_space t = range_text ab"
    using assms(3) by (auto simp: trim_space_id trim_space_blank)
  have "CHR ''-'' \<notin> set (show_nat (fst ab))"
    using show_nat_digits [of "fst ab"] digit_char by (auto simp: list_all_iff)
  from index_of_dash [OF this, of "show_nat (snd ab)"] have "cut_at ''-'' (range_text ab) = show_nat (fst ab)"
    by (simp add: cut_at_def range_text_def)
  with trim assms(1) range_text_ends [of ab] atoi_show_nat [OF assms(2)] show ?thesis
    by (simp add: start_of_part_def Let_def)
qed

lemma split_ranges:
  "rs \<noteq> [] \<Longrightarrow> split_char (CHR '','') (join '', '' (map range_text rs)) =
     range_text (hd rs) # map (\<lambda>ab. CHR '' '' # range_text ab) (tl rs)"
proof (induction rs)
  case (Cons ab rs)
  have no: "CHR '','' \<notin> set (range_text ab)" by (rule range_text_no) simp
  show ?case
  proof (cases rs)
    case Nil
    with no show ?thesis by (simp add: split_char_none)
  next
    case (Cons cd rest)
    define more where "more = join '', '' (map range_text rs)"
    have "split_char (CHR '','') (range_text ab @ CHR '','' # CHR '' '' # more) =
        range_text ab # split_char (CHR '','') (CHR '' '' # more)"
      using no by (rule split_char_append)
    moreover have "split_char (CHR '','') (CHR '' '' # more) =
        (CHR '' '' # range_text (hd rs)) # map (\<lambda>ab. CHR '' '' # range_text ab) (tl rs)"
      using Cons.IH Cons by (simp add: more_def)
    ultimately show ?thesis using Cons by (simp add: more_def)
  qed
qed simp

lemma starts_of_ranges:
  assumes "\<forall>ab \<in> set rs. 0 < fst ab \<and> fst ab < 2 ^ 63" "rs \<noteq> []"
  shows "concat (map start_of_part (split_char (CHR '','') (join '', '' (map range_text rs)))) = map (int \<circ> fst) rs"
proof -
  obtain ab more where rs: "rs = ab # more" using assms(2) by (cases rs) auto
  have "start_of_part (range_text ab) = [int (fst ab)]" using assms(1) rs by (intro start_of_range) auto
  moreover have "start_of_part (CHR '' '' # range_text cd) = [int (fst cd)]" if "cd \<in> set more" for cd
    using assms(1) rs that by (intro start_of_range) auto
  then have "concat (map (start_of_part \<circ> (\<lambda>ab. CHR '' '' # range_text ab)) more) = map (int \<circ> fst) more"
    by (induction more) auto
  moreover have "split_char (CHR '','') (join '', '' (map range_text rs)) =
      range_text ab # map (\<lambda>ab. CHR '' '' # range_text ab) more"
    using split_ranges [OF assms(2)] rs by simp
  ultimately show ?thesis by (simp add: rs o_def)
qed

lemma last_index_none: "c \<notin> set s \<Longrightarrow> last_index_of (c # sub) s = None"
  by (induction s) auto

lemma last_index_of_append:
  assumes "c \<notin> set sub" "c \<notin> set v"
  shows "last_index_of (c # sub) (u @ (c # sub) @ v) = Some (length u)"
proof (induction u)
  case Nil
  have "last_index_of (c # sub) (sub @ v) = None" using assms by (intro last_index_none) simp
  then show ?case by simp
qed simp

lemma join_ranges_chars: "c \<in> set (join '', '' (map range_text rs)) \<Longrightarrow> is_digit c \<or> c \<in> {CHR ''-'', CHR '','', CHR '' ''}"
  by (induction rs) (auto simp: join_Cons dest: range_text_chars split: if_splits)

lemma join_ranges_ends: "rs \<noteq> [] \<Longrightarrow> join '', '' (map range_text rs) \<noteq> [] \<and>
    is_digit (hd (join '', '' (map range_text rs))) \<and> is_digit (last (join '', '' (map range_text rs)))"
proof (induction rs)
  case (Cons ab rs)
  with range_text_ends [of ab] show ?case by (cases rs) (auto simp: join_Cons hd_append)
qed simp

lemma index_of_close: "CHR '')'' \<notin> set u \<Longrightarrow> index_of '')'' (u @ '')'' @ v) = Some (length u)"
  by (induction u) auto

lemma parse_summary:
  assumes "\<forall>ab \<in> set rs. 0 < fst ab \<and> fst ab < 2 ^ 63" "rs \<noteq> []"
  shows "parse_start_lines (edit_summary path n (map range_text rs)) = map (int \<circ> fst) rs"
proof -
  define body where "body = join '', '' (map range_text rs)"
  define front where "front = ''Edited '' @ path @ '' ('' @ show_nat n @ (if 1 < n then '' replacements, '' else '' replacement, '')"
  have sum: "edit_summary path n (map range_text rs) = front @ (CHR ''l'' # ''ines '') @ body @ '').''"
    by (simp add: edit_summary_def front_def body_def)
  have chars: "is_digit c \<or> c \<in> {CHR ''-'', CHR '','', CHR '' ''}" if "c \<in> set body" for c
    using that join_ranges_chars unfolding body_def by blast
  have ends: "body \<noteq> []" "is_digit (hd body)" "is_digit (last body)"
    using join_ranges_ends [OF assms(2)] by (simp_all add: body_def)
  have "CHR ''l'' \<notin> set (body @ '').'')" "CHR '')'' \<notin> set body"
    using chars digit_char by fastforce+
  then have idx: "last_index_of (CHR ''l'' # ''ines '') (front @ (CHR ''l'' # ''ines '') @ body @ '').'') = Some (length front)"
    and close: "index_of '')'' (body @ '')'' @ ''.'') = Some (length body)"
    by (intro last_index_of_append index_of_close; simp)+
  have "trimmed_ascii body" using ends digit_char by (auto simp: trimmed_ascii_def)
  then have trim: "trim_space body = body" by (rule trim_space_id)
  have "\<not> suffix ''.'' body"
    using ends digit_char [of "last body"] by (auto simp: suffix_def)
  then have dot: "trim_suffix ''.'' body = body" by (simp add: trim_suffix_def)
  have "drop (length front + 6) (front @ (CHR ''l'' # ''ines '') @ body @ '').'') = body @ '')'' @ ''.''" by simp
  with idx close trim dot have "parse_start_lines (edit_summary path n (map range_text rs)) =
      concat (map start_of_part (split_char (CHR '','') body))"
    unfolding sum parse_start_lines_def by (simp add: cut_at_def)
  then show ?thesis using starts_of_ranges [OF assms] by (simp add: body_def)
qed

text \<open>Each position the loop finds is an occurrence, and there are as many as \<open>strings.Count\<close> counts.\<close>

lemma count_sub_skip: "count_sub k sub s = count_sub 0 sub (drop k s)"
  by (induction k arbitrary: s) (case_tac s; simp)+

lemma count_sub_index:
  "sub \<noteq> [] \<Longrightarrow> count_sub 0 sub s =
     (case index_of sub s of None \<Rightarrow> 0 | Some i \<Rightarrow> Suc (count_sub 0 sub (drop (i + length sub) s)))"
proof (induction s)
  case (Cons c s)
  show ?case
  proof (cases "prefix sub (c # s)")
    case True
    then show ?thesis using Cons.prems
      by (cases sub) (simp_all add: count_sub_skip [of "length _" _ s])
  next
    case False
    then show ?thesis using Cons by (simp split: option.splits)
  qed
qed simp

lemma occurrences_found:
  assumes "old \<noteq> []" "occurrences old shift remaining = Some ps"
  shows "length ps = count_sub 0 old remaining \<and>
    (\<forall>p \<in> set ps. \<exists>i. p = shift + i \<and> prefix old (drop i remaining))"
  using assms(2)
proof (induction "length remaining" arbitrary: shift remaining ps rule: less_induct)
  case less
  show ?case
  proof (cases "index_of old remaining")
    case None
    with less.prems show ?thesis
      by (subst (asm) occurrences.simps) (simp add: count_sub_index [OF assms(1)])
  next
    case (Some i)
    let ?rest = "drop (i + length old) remaining"
    have i: "prefix old (drop i remaining)" "i \<le> length remaining" using index_of_Some [OF Some] by auto
    with assms(1) have "length ?rest < length remaining" by (cases remaining) auto
    moreover from less.prems Some obtain qs where
      qs: "occurrences old (shift + i + length old) ?rest = Some qs" "ps = (shift + i) # qs"
      by (subst (asm) occurrences.simps) (auto simp: bind_eq_Some_conv)
    ultimately have *: "length qs = count_sub 0 old ?rest"
      "\<forall>p \<in> set qs. \<exists>j. p = shift + i + length old + j \<and> prefix old (drop j ?rest)"
      using less.hyps by blast+
    have "\<exists>j. p = shift + j \<and> prefix old (drop j remaining)" if "p \<in> set qs" for p
    proof -
      from *(2) that obtain j where "p = shift + i + length old + j" "prefix old (drop j ?rest)" by blast
      then show ?thesis by (intro exI [of _ "i + length old + j"]) (simp add: ac_simps)
    qed
    with i qs *(1) Some show ?thesis by (auto simp: count_sub_index [OF assms(1), of remaining])
  qed
qed

text \<open>\<open>parseStartLines\<close> finds in the summary of a successful edit the line of each replaced occurrence, whatever the
  path contains.\<close>

lemma edit_start_lines_read_back:
  assumes "old \<noteq> []" "apply_edit content old new all path = Some (Inr r)" "newlines content + 1 < 2 ^ 63"
  shows "\<exists>ps. length ps = er_count r \<and> ps \<noteq> [] \<and> (\<forall>p \<in> set ps. prefix old (drop p content))
    \<and> parse_start_lines (er_summary r) = map (\<lambda>p. int (newlines (take p content)) + 1) ps"
proof -
  define n where "n = str_count content old"
  define rng where "rng = (\<lambda>p. (newlines (take p content) + 1, newlines (take p content) + 1 + newlines new))"
  have range: "line_range content new = range_text \<circ> rng"
    by (rule ext) (simp add: line_range_def range_text_def rng_def count_newlines_upto_def)
  have "newlines (take p content) \<le> newlines content" for p
    unfolding newlines_def by (metis append_take_drop_id filter_append le_add1 length_append)
  then have below: "newlines (take p content) + 1 < 2 ^ 63" for p
    using assms(3) by (meson add_le_mono1 le_less_trans)
  have small: "0 < fst ab \<and> fst ab < 2 ^ 63" if "ab \<in> set (map rng ps)" for ab ps
    using that below by (auto simp: rng_def)
  have n0: "n \<noteq> 0" using assms(2) by (auto simp: apply_edit_def n_def Let_def split: if_splits)
  have count: "str_count content old = count_sub 0 old content" using assms(1) by (simp add: str_count_def)
  have "\<exists>ps. length ps = er_count r \<and> ps \<noteq> [] \<and> (\<forall>p \<in> set ps. prefix old (drop p content))
      \<and> er_summary r = edit_summary path (er_count r) (map (line_range content new) ps)"
  proof (cases all)
    case True
    from occurrences_terminates [OF assms(1)] obtain ps where ps: "occurrences old 0 content = Some ps" by blast
    with True assms(2) have "r = edit_outcome (replace_all old new content) path n (map (line_range content new) ps)"
      by (auto simp: apply_edit_def Let_def n_def split: if_splits)
    with occurrences_found [OF assms(1) ps] n0 show ?thesis
      by (intro exI [of _ ps]) (auto simp: edit_outcome_def n_def count)
  next
    case False
    with assms(2) have "er_count r = 1 \<and> er_summary r =
        edit_summary path 1 (map (line_range content new) [the (index_of old content)])"
      by (auto simp: apply_edit_def edit_outcome_def Let_def split: if_splits)
    moreover from n0 obtain i where "index_of old content = Some i"
      using count_sub_0_index [OF assms(1), of content] by (auto simp: n_def count)
    ultimately show ?thesis using index_of_Some
      by (intro exI [of _ "[the (index_of old content)]"]) auto
  qed
  then obtain ps where ps: "length ps = er_count r" "ps \<noteq> []" "\<forall>p \<in> set ps. prefix old (drop p content)"
    "er_summary r = edit_summary path (er_count r) (map range_text (map rng ps))"
    by (auto simp: range)
  have "parse_start_lines (er_summary r) = map (int \<circ> fst) (map rng ps)"
    unfolding ps(4) using ps(2) small [of _ ps] by (intro parse_summary) auto
  with ps show ?thesis by (intro exI [of _ ps]) (simp add: rng_def o_def)
qed

lemma split_lines_nonempty: "s \<noteq> [] \<Longrightarrow> split_lines s \<noteq> []"
proof -
  assume s: "s \<noteq> []"
  have "butlast (split_char (CHR 0x0A) s) \<noteq> []" if "suffix [CHR 0x0A] s"
  proof -
    from that obtain u where u: "s = u @ [CHR 0x0A]" by (auto simp: suffix_def)
    have "2 \<le> length (split_char (CHR 0x0A) (u @ [CHR 0x0A]))" by (induction u) (auto split: list.split)
    then show ?thesis using u by (cases "split_char (CHR 0x0A) s" rule: rev_cases) auto
  qed
  with s show ?thesis by (auto simp: split_lines_def Let_def)
qed

lemma diff_rows_nonempty: "xs \<noteq> [] \<Longrightarrow> diff_rows xs ys start \<noteq> []"
  using diff_spec_shown [of xs ys start start] by (auto simp: diff_rows_spec shown_old_def)



text \<open>With \<open>replace_all\<close> the ranges of the summary start at lines of the old file and end by the length of the new
  string, so that from the second occurrence on they are lines of neither file.\<close>

lemma replace_all_ranges_mix_files:
  "apply_edit [CHR ''a'', CHR 0x0A, CHR ''a''] ''a'' [CHR ''b'', CHR 0x0A, CHR ''b''] True ''p'' =
     Some (Inr \<lparr>er_content = [CHR ''b'', CHR 0x0A, CHR ''b'', CHR 0x0A, CHR ''b'', CHR 0x0A, CHR ''b''],
       er_summary = ''Edited p (2 replacements, lines 1-2, 2-3).'', er_ranges = ''1-2, 2-3'', er_count = 2\<rparr>)"
proof -
  have "occurrences ''a'' 0 [CHR ''a'', CHR 0x0A, CHR ''a''] = Some [0, 2]"
    by (simp add: occurrences.simps [of _ _ "_ # _"] occurrences.simps [of _ _ "[]"])
  then show ?thesis
    by (simp add: apply_edit_def str_count_def edit_outcome_def edit_summary_def line_range_def count_newlines_upto_def
        newlines_def show_nat.simps digit_def Let_def char_of_def bit_0)
qed

end
