(* ===== verification/Usage.thy ===== *)
theory Usage
  imports Model_Values "HOL-Library.Word" "HOL-Library.List_Lexorder" "HOL-Library.Char_ord" "HOL-Library.Multiset"
begin

text \<open>
  Token accounting (\<open>src/harness/usage.go\<close>): checked signed 64-bit addition, and totals per model that
  are unique and sorted by provider, then model. A count is a \<open>64 word\<close> read as signed. The order of
  model identities is the linear order of the type \<open>model_ref\<close>, byte by byte as Go compares strings.
\<close>

section \<open>The order of model identities\<close>

definition ref_less_eq :: "'a::linorder model_ref_scheme \<Rightarrow> 'a model_ref_scheme \<Rightarrow> bool" where
  "ref_less_eq a b \<longleftrightarrow>
     provider a < provider b \<or> (provider a = provider b \<and>
       (model_name a < model_name b \<or> (model_name a = model_name b \<and> model_ref.more a \<le> model_ref.more b)))"

instantiation model_ref_ext :: (linorder) linorder
begin

definition less_eq_model_ref_ext :: "'a model_ref_ext \<Rightarrow> 'a model_ref_ext \<Rightarrow> bool" where
  "less_eq_model_ref_ext a b = ref_less_eq a b"

definition less_model_ref_ext :: "'a model_ref_ext \<Rightarrow> 'a model_ref_ext \<Rightarrow> bool" where
  "less_model_ref_ext a b = (ref_less_eq a b \<and> \<not> ref_less_eq b a)"

instance
proof
  fix a b c :: "'a model_ref_ext"
  show "(a < b) = (a \<le> b \<and> \<not> b \<le> a)" by (simp add: less_eq_model_ref_ext_def less_model_ref_ext_def)
  show "a \<le> a" by (simp add: less_eq_model_ref_ext_def ref_less_eq_def)
  show "a \<le> b \<Longrightarrow> b \<le> c \<Longrightarrow> a \<le> c" by (auto simp: less_eq_model_ref_ext_def ref_less_eq_def)
  show "a \<le> b \<Longrightarrow> b \<le> a \<Longrightarrow> a = b" by (auto simp: less_eq_model_ref_ext_def ref_less_eq_def)
  show "a \<le> b \<or> b \<le> a" by (auto simp: less_eq_model_ref_ext_def ref_less_eq_def)
qed

end

lemma model_ref_less:
  "(a :: model_ref) < b \<longleftrightarrow> provider a < provider b \<or> (provider a = provider b \<and> model_name a < model_name b)"
  by (auto simp: less_model_ref_ext_def ref_less_eq_def)

section \<open>Checked addition\<close>

type_synonym int64 = "64 word"

definition max_int64 :: int64 where "max_int64 = 0x7FFFFFFFFFFFFFFF"
definition min_int64 :: int64 where "min_int64 = 0x8000000000000000"

definition add_int64 :: "int64 \<Rightarrow> int64 \<Rightarrow> int64 option" where
  "add_int64 a b =
     (if 0 <s b \<and> max_int64 - b <s a then None
      else if b <s 0 \<and> a <s min_int64 - b then None
      else Some (a + b))"

definition in_int64 :: "int \<Rightarrow> bool" where
  "in_int64 i \<longleftrightarrow> - (2 ^ 63) \<le> i \<and> i < 2 ^ 63"

lemma sint_range: "in_int64 (sint (a :: int64))"
  using sint_greater_eq [of a] sint_lt [of a] by (simp add: in_int64_def)

lemma sint_add: "in_int64 (sint a + sint b) \<Longrightarrow> sint (a + b :: int64) = sint a + sint b"
  by (simp add: sint_word_ariths in_int64_def signed_take_bit_int_eq_self)

lemma sint_sub: "in_int64 (sint a - sint b) \<Longrightarrow> sint (a - b :: int64) = sint a - sint b"
  by (simp add: sint_word_ariths in_int64_def signed_take_bit_int_eq_self)

lemma sint_bounds [simp]: "sint max_int64 = 2 ^ 63 - 1" "sint min_int64 = - (2 ^ 63)"
  by (simp_all add: max_int64_def min_int64_def)

lemma add_int64_Some:
  "add_int64 a b = Some s \<longleftrightarrow> in_int64 (sint a + sint b) \<and> sint s = sint a + sint b"
proof -
  have ra: "in_int64 (sint a)" and rb: "in_int64 (sint b)" by (rule sint_range)+
  have up: "(0 <s b \<and> max_int64 - b <s a) \<longleftrightarrow> 2 ^ 63 \<le> sint a + sint b"
  proof (cases "0 < sint b")
    case True
    then have "in_int64 (sint max_int64 - sint b)" using rb by (simp add: in_int64_def)
    then have "sint (max_int64 - b) = 2 ^ 63 - 1 - sint b" by (simp add: sint_sub)
    with True show ?thesis by (auto simp: word_sless_alt)
  next
    case False
    with ra show ?thesis by (simp add: word_sless_alt in_int64_def)
  qed
  have down: "(b <s 0 \<and> a <s min_int64 - b) \<longleftrightarrow> sint a + sint b < - (2 ^ 63)"
  proof (cases "sint b < 0")
    case True
    then have "in_int64 (sint min_int64 - sint b)" using rb by (simp add: in_int64_def)
    then have "sint (min_int64 - b) = - (2 ^ 63) - sint b" by (simp add: sint_sub)
    with True show ?thesis by (auto simp: word_sless_alt)
  next
    case False
    with ra show ?thesis by (simp add: word_sless_alt in_int64_def)
  qed
  show ?thesis
  proof (cases "in_int64 (sint a + sint b)")
    case True
    then have "add_int64 a b = Some (a + b)"
      using up down by (auto simp: add_int64_def in_int64_def)
    moreover have "sint s = sint a + sint b \<longleftrightarrow> s = a + b"
      using sint_add [OF True] by (metis signed_word_eqI)
    ultimately show ?thesis using True by auto
  next
    case False
    then have "add_int64 a b = None" using up down by (auto simp: add_int64_def in_int64_def)
    with False show ?thesis by simp
  qed
qed

lemma add_int64_None: "add_int64 a b = None \<longleftrightarrow> \<not> in_int64 (sint a + sint b)"
proof
  assume "add_int64 a b = None"
  then show "\<not> in_int64 (sint a + sint b)"
    using add_int64_Some [of a b "a + b"] sint_add [of a b] by auto
next
  assume "\<not> in_int64 (sint a + sint b)"
  then show "add_int64 a b = None" using add_int64_Some [of a b] by (cases "add_int64 a b") auto
qed

section \<open>Counts and totals\<close>

record usage_count =
  in_tokens :: int64
  cached_tokens :: int64
  out_tokens :: int64

record model_usage =
  mu_model :: model_ref
  mu_usage :: usage_count

type_synonym usage_totals = "model_usage list"

datatype usage_error = InputOverflow | CachedOverflow | OutputOverflow

definition add_usage_count :: "usage_count \<Rightarrow> usage_count \<Rightarrow> usage_error + usage_count" where
  "add_usage_count a b =
     (case add_int64 (in_tokens a) (in_tokens b) of
        None \<Rightarrow> Inl InputOverflow
      | Some i \<Rightarrow>
          (case add_int64 (cached_tokens a) (cached_tokens b) of
             None \<Rightarrow> Inl CachedOverflow
           | Some c \<Rightarrow>
               (case add_int64 (out_tokens a) (out_tokens b) of
                  None \<Rightarrow> Inl OutputOverflow
                | Some out \<Rightarrow> Inr \<lparr>in_tokens = i, cached_tokens = c, out_tokens = out\<rparr>)))"

text \<open>A Go map from model identities to counts is an association list with distinct keys.\<close>

type_synonym counts = "(model_ref \<times> usage_count) list"

definition sort_usage_totals :: "usage_totals \<Rightarrow> usage_totals" where
  "sort_usage_totals t = sort_key mu_model t"

definition totals_of_counts :: "counts \<Rightarrow> usage_totals" where
  "totals_of_counts m = sort_usage_totals (map (\<lambda>(r, u). \<lparr>mu_model = r, mu_usage = u\<rparr>) m)"

definition merge_first :: "usage_totals \<Rightarrow> counts" where
  "merge_first t = fold (\<lambda>mu m. AList.update (mu_model mu) (mu_usage mu) m) t []"

fun merge_second :: "counts \<Rightarrow> usage_totals \<Rightarrow> usage_error + counts" where
  "merge_second m [] = Inr m"
| "merge_second m (mu # t) =
     (case map_of m (mu_model mu) of
        None \<Rightarrow> merge_second (AList.update (mu_model mu) (mu_usage mu) m) t
      | Some prev \<Rightarrow> rbind (add_usage_count prev (mu_usage mu))
          (\<lambda>s. merge_second (AList.update (mu_model mu) s m) t))"

definition add_usage_totals :: "usage_totals \<Rightarrow> usage_totals \<Rightarrow> usage_error + usage_totals" where
  "add_usage_totals a b = rbind (merge_second (merge_first a) b) (\<lambda>m. Inr (totals_of_counts m))"

datatype totals_error = IncompleteModel nat | DuplicateModel model_ref | NotSorted nat

text \<open>The loop of \<open>validateUsageTotals\<close> at index \<open>i\<close>, with the previous entry's model.\<close>

fun validate_totals_from :: "nat \<Rightarrow> model_ref option \<Rightarrow> usage_totals \<Rightarrow> totals_error + unit" where
  "validate_totals_from i prev [] = Inr ()"
| "validate_totals_from i prev (mu # t) =
     (let cur = mu_model mu in
      if provider cur = [] \<or> model_name cur = [] then Inl (IncompleteModel i)
      else (case prev of
              None \<Rightarrow> validate_totals_from (i + 1) (Some cur) t
            | Some p \<Rightarrow>
                (if provider p = provider cur \<and> model_name p = model_name cur then Inl (DuplicateModel cur)
                 else if provider cur < provider p \<or> (provider p = provider cur \<and> model_name cur < model_name p)
                      then Inl (NotSorted i)
                 else validate_totals_from (i + 1) (Some cur) t)))"

definition validate_usage_totals :: "usage_totals \<Rightarrow> totals_error + unit" where
  "validate_usage_totals t = validate_totals_from 0 None t"

fun usage_totals_equal :: "usage_totals \<Rightarrow> usage_totals \<Rightarrow> bool" where
  "usage_totals_equal [] [] \<longleftrightarrow> True"
| "usage_totals_equal (a # as) (b # bs) \<longleftrightarrow> mu_model a = mu_model b \<and> mu_usage a = mu_usage b \<and> usage_totals_equal as bs"
| "usage_totals_equal _ _ \<longleftrightarrow> False"

lemma usage_totals_equal_iff [simp]: "usage_totals_equal a b \<longleftrightarrow> a = b"
  by (induction a b rule: usage_totals_equal.induct) auto

section \<open>Canonical totals\<close>

definition canonical_totals :: "usage_totals \<Rightarrow> bool" where
  "canonical_totals t \<longleftrightarrow> sorted (map mu_model t) \<and> distinct (map mu_model t)"

definition complete_totals :: "usage_totals \<Rightarrow> bool" where
  "complete_totals t \<longleftrightarrow> (\<forall>mu \<in> set t. provider (mu_model mu) \<noteq> [] \<and> model_name (mu_model mu) \<noteq> [])"

lemma validate_totals_from_ok:
  "validate_totals_from i prev t = Inr u \<longleftrightarrow>
     complete_totals t \<and> canonical_totals t \<and>
     (\<forall>p. prev = Some p \<longrightarrow> t \<noteq> [] \<longrightarrow> p < mu_model (hd t))"
proof (induction t arbitrary: i prev)
  case Nil
  then show ?case by (simp add: complete_totals_def canonical_totals_def)
next
  case (Cons mu t)
  define cur where "cur = mu_model mu"
  have step: "validate_totals_from i prev (mu # t) = Inr u \<longleftrightarrow>
      provider cur \<noteq> [] \<and> model_name cur \<noteq> [] \<and> (\<forall>p. prev = Some p \<longrightarrow> p < cur) \<and>
      validate_totals_from (i + 1) (Some cur) t = Inr u"
    by (auto simp: Let_def cur_def model_ref_less split: option.splits)
  have head: "canonical_totals (mu # t) \<longleftrightarrow> canonical_totals t \<and> (t \<noteq> [] \<longrightarrow> cur < mu_model (hd t))"
    by (cases t) (force simp: canonical_totals_def cur_def)+
  show ?case
    unfolding step Cons.IH by (auto simp: head cur_def [symmetric] complete_totals_def)
qed

lemma canonical_totals_of_counts: "distinct (map fst m) \<Longrightarrow> canonical_totals (totals_of_counts m)"
proof -
  assume d: "distinct (map fst m)"
  have "mset (map mu_model (totals_of_counts m)) = mset (map fst m)"
    by (simp add: totals_of_counts_def sort_usage_totals_def image_mset.compositionality o_def case_prod_beta)
  then have "distinct (map mu_model (totals_of_counts m))"
    using d by (metis mset_eq_imp_distinct_iff)
  then show ?thesis
    by (simp add: canonical_totals_def totals_of_counts_def sort_usage_totals_def)
qed

definition usage_lookup :: "usage_totals \<Rightarrow> model_ref \<Rightarrow> usage_count option" where
  "usage_lookup t = map_of (map (\<lambda>mu. (mu_model mu, mu_usage mu)) t)"

lemma usage_lookup_totals: "distinct (map fst m) \<Longrightarrow> usage_lookup (totals_of_counts m) = map_of m"
proof -
  assume d: "distinct (map fst m)"
  have c: "distinct (map mu_model (totals_of_counts m))"
    using canonical_totals_of_counts [OF d] by (simp add: canonical_totals_def)
  show ?thesis
    unfolding usage_lookup_def
  proof (rule map_of_inject_set [THEN iffD2])
    show "distinct (map fst (map (\<lambda>mu. (mu_model mu, mu_usage mu)) (totals_of_counts m)))"
      using c by (simp add: o_def)
    show "distinct (map fst m)" by (rule d)
    show "set (map (\<lambda>mu. (mu_model mu, mu_usage mu)) (totals_of_counts m)) = set m"
      by (force simp: totals_of_counts_def sort_usage_totals_def image_image)
  qed
qed

text \<open>Canonical totals are determined by their lookup.\<close>

lemma usage_lookup_in: "canonical_totals t \<Longrightarrow> mu \<in> set t \<Longrightarrow> usage_lookup t (mu_model mu) = Some (mu_usage mu)"
  by (simp add: usage_lookup_def canonical_totals_def map_of_eq_Some_iff o_def image_iff) force

lemma canonical_rebuild:
  assumes "canonical_totals t"
  shows "t = map (\<lambda>r. \<lparr>mu_model = r, mu_usage = the (usage_lookup t r)\<rparr>) (map mu_model t)"
proof -
  have "\<lparr>mu_model = mu_model mu, mu_usage = the (usage_lookup t (mu_model mu))\<rparr> = mu" if "mu \<in> set t" for mu
    using usage_lookup_in [OF assms that] by simp
  then have "map (\<lambda>mu. \<lparr>mu_model = mu_model mu, mu_usage = the (usage_lookup t (mu_model mu))\<rparr>) t = t"
    by (intro map_idI)
  then show ?thesis by (simp add: o_def)
qed

lemma usage_lookup_dom: "dom (usage_lookup t) = set (map mu_model t)"
  by (force simp: usage_lookup_def dom_map_of_conv_image_fst image_image)

lemma canonical_lookup_inject:
  assumes "canonical_totals a" "canonical_totals b" "usage_lookup a = usage_lookup b"
  shows "a = b"
proof -
  have "set (map mu_model a) = set (map mu_model b)"
    using assms(3) usage_lookup_dom by metis
  then have "map mu_model a = map mu_model b"
    using assms(1,2) unfolding canonical_totals_def by (intro sorted_distinct_set_unique) auto
  then show ?thesis
    using canonical_rebuild [OF assms(1)] canonical_rebuild [OF assms(2)] assms(3) by metis
qed

section \<open>Adding totals\<close>

definition count_sum :: "usage_count \<Rightarrow> usage_count \<Rightarrow> usage_count \<Rightarrow> bool" where
  "count_sum a b c \<longleftrightarrow>
     sint (in_tokens c) = sint (in_tokens a) + sint (in_tokens b) \<and>
     sint (cached_tokens c) = sint (cached_tokens a) + sint (cached_tokens b) \<and>
     sint (out_tokens c) = sint (out_tokens a) + sint (out_tokens b)"

lemma add_usage_count_ok: "add_usage_count a b = Inr c \<longleftrightarrow> count_sum a b c"
proof -
  have "add_usage_count a b = Inr c \<longleftrightarrow>
      add_int64 (in_tokens a) (in_tokens b) = Some (in_tokens c) \<and>
      add_int64 (cached_tokens a) (cached_tokens b) = Some (cached_tokens c) \<and>
      add_int64 (out_tokens a) (out_tokens b) = Some (out_tokens c)"
    by (cases c) (auto simp: add_usage_count_def split: option.splits)
  also have "\<dots> \<longleftrightarrow> count_sum a b c"
    using sint_range by (auto simp: add_int64_Some count_sum_def) (metis sint_range)+
  finally show ?thesis .
qed

lemma count_sum_commute: "count_sum a b c \<longleftrightarrow> count_sum b a c"
  by (auto simp: count_sum_def)

lemma count_sum_unique: "count_sum a b c \<Longrightarrow> count_sum a b d \<Longrightarrow> c = d"
  by (metis add_usage_count_ok Inr_inject)

lemma merge_first_map_of: "distinct (map mu_model t) \<Longrightarrow> map_of (merge_first t) = usage_lookup t"
  "distinct (map fst (merge_first t))"
proof -
  have "map_of (fold (\<lambda>mu m. AList.update (mu_model mu) (mu_usage mu) m) t al) =
      map_of al ++ map_of (rev (map (\<lambda>mu. (mu_model mu, mu_usage mu)) t))" for al
    by (induction t arbitrary: al) (auto simp: update_conv' map_add_def fun_eq_iff split: option.splits)
  moreover assume "distinct (map mu_model t)"
  then have "distinct (map fst (map (\<lambda>mu. (mu_model mu, mu_usage mu)) t))" by (simp add: o_def)
  then have "map_of (rev (map (\<lambda>mu. (mu_model mu, mu_usage mu)) t)) = usage_lookup t"
    unfolding usage_lookup_def by (intro map_of_inject_set [THEN iffD2]) (simp_all add: rev_map [symmetric])
  ultimately show "map_of (merge_first t) = usage_lookup t" by (simp add: merge_first_def)
next
  have "distinct (map fst al) \<Longrightarrow>
      distinct (map fst (fold (\<lambda>mu m. AList.update (mu_model mu) (mu_usage mu) m) t al))" for al
    by (induction t arbitrary: al) (simp_all add: distinct_update)
  then show "distinct (map fst (merge_first t))" by (simp add: merge_first_def)
qed

text \<open>What adding must give for one model.\<close>

fun combine_usage :: "usage_count option \<Rightarrow> usage_count option \<Rightarrow> usage_count option \<Rightarrow> bool" where
  "combine_usage None v out \<longleftrightarrow> out = v"
| "combine_usage (Some u) None out \<longleftrightarrow> out = Some u"
| "combine_usage (Some u) (Some v) out \<longleftrightarrow> (\<exists>w. out = Some w \<and> count_sum u v w)"

lemma merge_second_ok:
  "distinct (map fst m) \<Longrightarrow> distinct (map mu_model t) \<Longrightarrow>
     merge_second m t = Inr m' \<Longrightarrow>
     distinct (map fst m') \<and> (\<forall>r. combine_usage (map_of m r) (usage_lookup t r) (map_of m' r))"
proof (induction m t arbitrary: m' rule: merge_second.induct)
  case (1 m)
  have "combine_usage (map_of m r) None (map_of m r)" for r by (cases "map_of m r") auto
  with 1 show ?case by (auto simp: usage_lookup_def)
next
  case (2 m mu t)
  define k where "k = mu_model mu"
  have t: "distinct (map mu_model t)" "usage_lookup t k = None"
    using 2(4) by (auto simp: k_def usage_lookup_def map_of_eq_None_iff image_image)
  have look: "usage_lookup (mu # t) r = (if r = k then Some (mu_usage mu) else usage_lookup t r)" for r
    by (simp add: usage_lookup_def k_def)
  obtain u where u: "merge_second (AList.update k u m) t = Inr m'"
      "combine_usage (map_of m k) (Some (mu_usage mu)) (Some u)"
      "distinct (map fst m') \<and> (\<forall>r. combine_usage (map_of (AList.update k u m) r) (usage_lookup t r) (map_of m' r))"
  proof (cases "map_of m k")
    case None
    have "merge_second (AList.update k (mu_usage mu) m) t = Inr m'"
      using 2(5) None by (simp add: k_def)
    moreover have "distinct (map fst (AList.update k (mu_usage mu) m))" using 2(3) by (rule distinct_update)
    ultimately show ?thesis
      using that [of "mu_usage mu"] 2(1) [OF None [unfolded k_def]] t(1) None by (simp add: k_def)
  next
    case (Some prev)
    then obtain s where s: "add_usage_count prev (mu_usage mu) = Inr s"
      "merge_second (AList.update k s m) t = Inr m'"
      using 2(5) by (auto simp: k_def res_simps)
    moreover have "distinct (map fst (AList.update k s m))" using 2(3) by (rule distinct_update)
    ultimately show ?thesis
      using that [of s] 2(2) [OF Some [unfolded k_def] s(1)] t(1) Some
      by (simp add: k_def add_usage_count_ok)
  qed
  have "combine_usage (map_of m r) (usage_lookup (mu # t) r) (map_of m' r)" for r
  proof (cases "r = k")
    case True
    have "combine_usage (Some u) None (map_of m' k)"
      using u(3) t(2) by (metis fun_upd_same update_conv')
    with True u(2) look show ?thesis by simp
  next
    case False
    then have "map_of (AList.update k u m) r = map_of m r" by (simp add: update_conv')
    with False u(3) look show ?thesis by metis
  qed
  with u(3) show ?case by blast
qed

text \<open>Adding fails exactly when a model named by both has a count whose sum does not fit.\<close>

lemma merge_second_fails:
  "distinct (map mu_model t) \<Longrightarrow>
     (\<exists>e. merge_second m t = Inl e) \<longleftrightarrow>
       (\<exists>r u v. map_of m r = Some u \<and> usage_lookup t r = Some v \<and> (\<forall>w. \<not> count_sum u v w))"
proof (induction m t rule: merge_second.induct)
  case (1 m)
  then show ?case by (simp add: usage_lookup_def)
next
  case (2 m mu t)
  define k where "k = mu_model mu"
  have t: "distinct (map mu_model t)" "usage_lookup t k = None"
    using 2(3) by (auto simp: k_def usage_lookup_def map_of_eq_None_iff image_image)
  have look: "usage_lookup (mu # t) r = (if r = k then Some (mu_usage mu) else usage_lookup t r)" for r
    by (simp add: usage_lookup_def k_def)
  have tail: "(\<exists>r u v. map_of (AList.update k x m) r = Some u \<and> usage_lookup t r = Some v \<and> (\<forall>w. \<not> count_sum u v w))
      \<longleftrightarrow> (\<exists>r u v. r \<noteq> k \<and> map_of m r = Some u \<and> usage_lookup t r = Some v \<and> (\<forall>w. \<not> count_sum u v w))" for x
    using t(2) by (auto simp: update_conv')
  show ?case
  proof (cases "map_of m k")
    case None
    have "merge_second m (mu # t) = merge_second (AList.update k (mu_usage mu) m) t"
      using None by (simp add: k_def)
    moreover note 2(1) [OF None [unfolded k_def] t(1), folded k_def]
    ultimately show ?thesis using None tail look by (auto split: if_splits)
  next
    case (Some prev)
    show ?thesis
    proof (cases "add_usage_count prev (mu_usage mu)")
      case (Inl e)
      then have "\<forall>w. \<not> count_sum prev (mu_usage mu) w" by (simp add: add_usage_count_ok [symmetric])
      moreover have "\<exists>e. merge_second m (mu # t) = Inl e" using Some Inl by (simp add: k_def)
      ultimately show ?thesis using Some look by (metis (full_types))
    next
      case (Inr s)
      then have s: "count_sum prev (mu_usage mu) s" by (simp add: add_usage_count_ok)
      have "merge_second m (mu # t) = merge_second (AList.update k s m) t"
        using Some Inr by (simp add: k_def)
      moreover note 2(2) [OF Some [unfolded k_def] Inr t(1), folded k_def]
      ultimately show ?thesis using Some s tail look by (auto split: if_splits)
    qed
  qed
qed

text \<open>Checked 64-bit addition. The two guards decide exactly whether the mathematical sum of the signed values
  fits in 64 bits; when it does the word sum is that sum, otherwise nothing is returned.\<close>

theorem add_int64_exact:
  "add_int64 a b = (if in_int64 (sint a + sint b) then Some (a + b) else None)
     \<and> (in_int64 (sint a + sint b) \<longleftrightarrow> sint (a + b) = sint a + sint b)"
proof -
  have "in_int64 (sint a + sint b) \<longleftrightarrow> sint (a + b) = sint a + sint b"
    using sint_add [of a b] sint_range [of "a + b"] by metis
  then show ?thesis by (simp add: add_int64_Some add_int64_None)
qed

text \<open>Adding two canonical totals (sorted by provider and model, no model twice) either returns canonical
  totals that have for every model the exact sum of its counts, with no wrap-around, or fails because some model
  of both has a count whose sum does not fit; and the two totals may be swapped.\<close>

theorem add_usage_totals_exact:
  assumes "canonical_totals a" "canonical_totals b"
  shows "case add_usage_totals a b of
      Inr out \<Rightarrow> canonical_totals out \<and> (\<forall>r. combine_usage (usage_lookup a r) (usage_lookup b r) (usage_lookup out r))
    | Inl e \<Rightarrow> (\<exists>r u v. usage_lookup a r = Some u \<and> usage_lookup b r = Some v \<and> (\<forall>w. \<not> count_sum u v w))"
proof -
  have d: "distinct (map mu_model a)" "distinct (map mu_model b)"
    using assms by (simp_all add: canonical_totals_def)
  note m = merge_first_map_of(1) [OF d(1)] merge_first_map_of(2) [of a]
  show ?thesis
  proof (cases "merge_second (merge_first a) b")
    case (Inl e)
    then show ?thesis
      using merge_second_fails [OF d(2), of "merge_first a"] m by (simp add: add_usage_totals_def)
  next
    case (Inr m')
    then show ?thesis
      using merge_second_ok [OF m(2) d(2) Inr] m
      by (simp add: add_usage_totals_def canonical_totals_of_counts usage_lookup_totals)
  qed
qed

lemma combine_usage_commute: "combine_usage u v w \<longleftrightarrow> combine_usage v u w"
  by (cases u; cases v) (auto simp: count_sum_commute)

lemma combine_usage_unique: "combine_usage u v w \<Longrightarrow> combine_usage u v x \<Longrightarrow> w = x"
  by (cases u; cases v) (auto dest: count_sum_unique)

definition sample_totals :: usage_totals where
  "sample_totals = [\<lparr>mu_model = \<lparr>provider = ''p'', model_name = ''m''\<rparr>,
     mu_usage = \<lparr>in_tokens = 1, cached_tokens = 0, out_tokens = - 2\<rparr>\<rparr>]"

theorem add_usage_totals_exact_witness:
  "case add_usage_totals sample_totals sample_totals of
      Inr out \<Rightarrow> canonical_totals out | Inl e \<Rightarrow> \<exists>r u. usage_lookup sample_totals r = Some u"
proof -
  have "canonical_totals sample_totals" by (simp add: canonical_totals_def sample_totals_def)
  from add_usage_totals_exact [OF this this] show ?thesis by (auto split: sum.splits)
qed

text \<open>The validator of stored totals accepts exactly the canonical totals whose model identities are complete.\<close>

theorem validate_usage_totals_canonical:
  "validate_usage_totals t = Inr () \<longleftrightarrow> complete_totals t \<and> canonical_totals t"
  by (simp add: validate_usage_totals_def validate_totals_from_ok)

end
