(* ===== verification/Session_Data.thy ===== *)
theory Session_Data
  imports Usage
begin

text \<open>
  The durable schema of a Session (\<open>src/harness/schema.go\<close>, envelopes of \<open>storage.go\<close>) and the decoded
  Session graph of \<open>graph.go\<close>. A Go string type with named values is a datatype with one constructor for every
  named value and one for the others; a pointer that may be nil is an option. A price is
  the bits of a 64-bit float.
\<close>

section \<open>Closed string types\<close>

datatype lifecycle = LifecycleOpen | LifecycleArchived | OtherLifecycle string

datatype request_kind = RequestMessage | RequestCompact | OtherRequestKind string

datatype input_origin = OriginUser | OriginRuntime | OriginPlugin | OtherOrigin string

datatype operation_status = OpRunning | OpSuccess | OpFailure | OpInterruption | OtherOpStatus string

datatype effect_kind = EffectModel | EffectTool | EffectHook | OtherEffect string

datatype signal_kind =
  SignalInterruption | SignalModelFailure | SignalBackgroundCompletion | OtherSignal string

datatype hook_status = HookSucceeded | HookFailed | HookInterrupted | OtherHookStatus string

datatype execution_evidence =
  EvidenceObserved | EvidenceNotStarted | EvidenceUnknown | OtherEvidence string

datatype invocation_purpose = PurposeConversation | PurposeMaintenance | OtherPurpose string

section \<open>Values\<close>

type_synonym timestamp = int

record entry_ref =
  er_session :: string
  er_entry :: string

record hook_identity =
  hi_extension :: string
  hi_hook :: string

record request_evidence =
  ev_checkpoint :: string
  ev_boundary :: string
  ev_prompt :: string
  ev_messages :: "message list"
  ev_tool_names :: "string list"
  ev_hooks :: "hook_identity list"

record running_request =
  rr_request :: string
  rr_checkpoint :: string
  rr_boundary :: string
  rr_hook_results :: "entry_ref list"

record operation_ref =
  opr_session :: string
  opr_operation :: string

record strategy_capture =
  sc_id :: string
  sc_settings :: raw
  sc_requires_window :: bool

record model_pricing =
  pr_input :: "64 word option"
  pr_output :: "64 word option"
  pr_cache_read :: "64 word option"

record compact_capture =
  cc_model :: model_ref
  cc_prompt :: string
  cc_pricing :: "model_pricing option"

record execution_capture =
  xc_revision :: string
  xc_model :: model_ref
  xc_context_window :: int
  xc_output_reserve :: int
  xc_prompt :: string
  xc_tools :: "tool_definition list"
  xc_capabilities :: "string list"
  xc_readonly :: bool
  xc_write_dir :: string
  xc_pricing :: "model_pricing option"
  xc_compact :: compact_capture
  xc_strategy :: strategy_capture

section \<open>Registers\<close>

record session_identity =
  si_session :: string
  si_workspace :: string
  si_created :: timestamp
  si_source_session :: string
  si_source_boundary :: string
  si_parent :: string

record session_state =
  ss_lifecycle :: lifecycle
  ss_archived_at :: "timestamp option"
  ss_agent_type :: string
  ss_current_operation :: string
  ss_checkpoint :: string
  ss_usage :: usage_totals
  ss_last_activity :: timestamp

record session_record =
  sr_revision :: int
  sr_identity :: session_identity
  sr_state :: session_state

record operation_admission =
  oa_session :: string
  oa_operation :: string
  oa_kind :: request_kind
  oa_admitted :: entry_ref
  oa_agent_type :: string
  oa_execution :: execution_capture
  oa_admitted_at :: timestamp

record active_effect =
  ae_kind :: effect_kind
  ae_result_entry :: string
  ae_tool_call :: string
  ae_hook :: string
  ae_request :: string
  ae_model :: "model_ref option"
  ae_purpose :: invocation_purpose
  ae_evidence :: "request_evidence option"
  ae_extension :: string
  ae_input_base64 :: string
  ae_final_arguments :: raw
  ae_contributions :: "hook_identity list"

record pending_call =
  pc_assistant :: entry_ref
  pc_call :: string
  pc_result_entry :: string

record operation_terminal =
  ot_settlement :: entry_ref
  ot_detail :: string

record operation_state =
  os_status :: operation_status
  os_started_at :: timestamp
  os_settled_at :: "timestamp option"
  os_effect :: "active_effect option"
  os_request :: "running_request option"
  os_pending :: "pending_call list"
  os_usage :: usage_totals
  os_terminal :: "operation_terminal option"
  os_unreported :: bool

record operation_record =
  or_revision :: int
  or_admission :: operation_admission
  or_state :: operation_state

section \<open>Entries\<close>

record input_entry =
  in_session :: string
  in_entry :: string
  in_operation :: string
  in_origin :: input_origin
  in_content :: "content_part list"

record tool_call_record =
  tc_id :: string
  tc_ordinal :: int
  tc_name :: string
  tc_arguments_base64 :: string
  tc_extra :: extra
  tc_normalized :: raw
  tc_normalization_failure :: string
  tc_result_entry :: string

record assistant_entry =
  as_session :: string
  as_entry :: string
  as_operation :: string
  as_status :: output_status
  as_source :: model_ref
  as_content :: "content_part list"
  as_refusal :: string
  as_extra :: extra
  as_tool_calls :: "tool_call_record list"
  as_usage :: "usage_count option"
  as_request :: string
  as_evidence :: "request_evidence option"

record tool_result_entry =
  tr_session :: string
  tr_entry :: string
  tr_operation :: string
  tr_assistant :: entry_ref
  tr_call :: string
  tr_status :: tool_result_status
  tr_content :: string
  tr_original :: string
  tr_shaping_failure :: string
  tr_evidence :: execution_evidence
  tr_metadata :: raw
  tr_normalized :: raw
  tr_hooks :: "hook_identity list"

record request_consequence =
  rc_prompt :: "string option"
  rc_messages :: "message list"
  rc_tool_names :: "string list option"

record hook_result_entry =
  hr_session :: string
  hr_entry :: string
  hr_operation :: string
  hr_hook :: string
  hr_extension :: string
  hr_tool_call :: string
  hr_request :: string
  hr_status :: hook_status
  hr_evidence :: execution_evidence
  hr_arguments :: raw
  hr_error :: string
  hr_input_base64 :: string
  hr_input_evidence :: "request_evidence option"
  hr_consequence :: "request_consequence option"

record related_member =
  rm_kind :: string
  rm_id :: string

record signal_entry =
  sg_session :: string
  sg_entry :: string
  sg_operation :: string
  sg_signal :: signal_kind
  sg_related_operation :: "operation_ref option"
  sg_related_member :: "related_member option"
  sg_content :: string

record maintenance_fact =
  mf_request :: string
  mf_model :: model_ref
  mf_input :: "message list"
  mf_usage :: "usage_count option"

record settlement_entry =
  st_session :: string
  st_entry :: string
  st_operation :: string
  st_status :: operation_status
  st_detail :: string
  st_model :: "model_ref option"
  st_usage :: "usage_count option"
  st_compaction_usage :: bool
  st_request :: string
  st_consumed_request :: string
  st_evidence :: "request_evidence option"
  st_facts :: "maintenance_fact list"

record checkpoint_entry =
  ck_session :: string
  ck_entry :: string
  ck_operation :: string
  ck_strategy :: string
  ck_messages :: "message list"
  ck_boundary :: string
  ck_revision :: string
  ck_facts :: "maintenance_fact list"
  ck_consumed_request :: string
  ck_evidence :: "request_evidence option"

section \<open>Envelopes and the graph\<close>

datatype entry_kind =
  KindInput | KindAssistant | KindToolResult | KindSignal | KindHookResult | KindCompaction | KindSettlement
| OtherEntryKind string

record envelope =
  en_session :: string
  en_id :: string
  en_sequence :: int
  en_operation :: string
  en_kind :: entry_kind
  en_committed_at :: timestamp

datatype payload =
  PInput input_entry
| PAssistant assistant_entry
| PToolResult tool_result_entry
| PSignal signal_entry
| PHookResult hook_result_entry
| PSettlement settlement_entry
| PCompaction checkpoint_entry

record graph_entry =
  ge_env :: envelope
  ge_payload :: payload

record session_graph =
  g_session :: session_record
  g_operations :: "operation_record list"
  g_entries :: "graph_entry list"

abbreviation ge_id :: "graph_entry \<Rightarrow> string" where "ge_id e \<equiv> en_id (ge_env e)"
abbreviation ge_seq :: "graph_entry \<Rightarrow> int" where "ge_seq e \<equiv> en_sequence (ge_env e)"
abbreviation ge_op :: "graph_entry \<Rightarrow> string" where "ge_op e \<equiv> en_operation (ge_env e)"
abbreviation op_id :: "operation_record \<Rightarrow> string" where "op_id x \<equiv> oa_operation (or_admission x)"

text \<open>The typed pointers of a \<open>graphEntry\<close>: exactly one of them is not nil.\<close>

fun the_assistant :: "payload \<Rightarrow> assistant_entry option" where
  "the_assistant (PAssistant a) = Some a" | "the_assistant _ = None"

fun the_tool_result :: "payload \<Rightarrow> tool_result_entry option" where
  "the_tool_result (PToolResult r) = Some r" | "the_tool_result _ = None"

fun the_signal :: "payload \<Rightarrow> signal_entry option" where
  "the_signal (PSignal s) = Some s" | "the_signal _ = None"

fun the_hook_result :: "payload \<Rightarrow> hook_result_entry option" where
  "the_hook_result (PHookResult h) = Some h" | "the_hook_result _ = None"

fun the_settlement :: "payload \<Rightarrow> settlement_entry option" where
  "the_settlement (PSettlement s) = Some s" | "the_settlement _ = None"

fun the_compaction :: "payload \<Rightarrow> checkpoint_entry option" where
  "the_compaction (PCompaction c) = Some c" | "the_compaction _ = None"

lemma the_payload_iff [simp]:
  "the_assistant p = Some a \<longleftrightarrow> p = PAssistant a" "the_tool_result p = Some r \<longleftrightarrow> p = PToolResult r"
  "the_signal p = Some s \<longleftrightarrow> p = PSignal s" "the_hook_result p = Some h \<longleftrightarrow> p = PHookResult h"
  "the_settlement p = Some t \<longleftrightarrow> p = PSettlement t" "the_compaction p = Some c \<longleftrightarrow> p = PCompaction c"
  by (cases p; auto)+

text \<open>The kind under which a payload is stored.\<close>

fun payload_kind :: "payload \<Rightarrow> entry_kind" where
  "payload_kind (PInput _) = KindInput"
| "payload_kind (PAssistant _) = KindAssistant"
| "payload_kind (PToolResult _) = KindToolResult"
| "payload_kind (PSignal _) = KindSignal"
| "payload_kind (PHookResult _) = KindHookResult"
| "payload_kind (PSettlement _) = KindSettlement"
| "payload_kind (PCompaction _) = KindCompaction"

definition typed_entry :: "graph_entry \<Rightarrow> bool" where
  "typed_entry e \<longleftrightarrow> en_kind (ge_env e) = payload_kind (ge_payload e)"

definition find_operation :: "session_graph \<Rightarrow> string \<Rightarrow> operation_record option" where
  "find_operation g i = find (\<lambda>x. op_id x = i) (g_operations g)"

fun replace_operation :: "string \<Rightarrow> operation_record \<Rightarrow> operation_record list \<Rightarrow> operation_record list \<times> bool" where
  "replace_operation i rec [] = ([], False)"
| "replace_operation i rec (x # xs) =
     (if op_id x = i then (rec # xs, True)
      else (let (ys, b) = replace_operation i rec xs in (x # ys, b)))"

end
