(* ===== verification/Cut_Safety.thy ===== *)
theory Cut_Safety
  imports Session_Data
begin

text \<open>
  The table of unsafe cuts (\<open>buildCutSafety\<close> of \<open>src/harness/graph.go\<close>), computed in one pass with a
  running maximum, and its specification: a cut is unsafe when a tool call published at or before it has no
  result, or a result behind it.
\<close>

text \<open>The state of the loop: \<open>maxResult\<close>, \<open>maxCall\<close>, \<open>missingCall\<close>.\<close>

record cut_state =
  max_result :: int
  max_call :: string
  missing_call :: string

definition cut_start :: cut_state where
  "cut_start = \<lparr>max_result = - 1, max_call = [], missing_call = []\<rparr>"

definition entry_calls :: "graph_entry \<Rightarrow> tool_call_record list" where
  "entry_calls e = (case the_assistant (ge_payload e) of Some a \<Rightarrow> as_tool_calls a | None \<Rightarrow> [])"

definition cut_call :: "(string \<rightharpoonup> graph_entry) \<Rightarrow> cut_state \<Rightarrow> tool_call_record \<Rightarrow> cut_state" where
  "cut_call byid s c =
     (case byid (tc_result_entry c) of
        None \<Rightarrow> (if missing_call s = [] then s\<lparr>missing_call := tc_id c\<rparr> else s)
      | Some r \<Rightarrow> (if max_result s < ge_seq r then s\<lparr>max_result := ge_seq r, max_call := tc_id c\<rparr> else s))"

definition cut_verdict :: "cut_state \<Rightarrow> graph_entry \<Rightarrow> string option" where
  "cut_verdict s e =
     (if missing_call s \<noteq> [] then Some (missing_call s)
      else if ge_seq e < max_result s then Some (max_call s)
      else None)"

fun cut_pass :: "(string \<rightharpoonup> graph_entry) \<Rightarrow> cut_state \<Rightarrow> graph_entry list \<Rightarrow> (string \<rightharpoonup> string) \<Rightarrow> (string \<rightharpoonup> string)" where
  "cut_pass byid s [] unsafe = unsafe"
| "cut_pass byid s (e # es) unsafe =
     (let s' = foldl (cut_call byid) s (entry_calls e)
      in cut_pass byid s' es
           (case cut_verdict s' e of None \<Rightarrow> unsafe | Some c \<Rightarrow> unsafe(ge_id e \<mapsto> c)))"

definition entries_by_id :: "graph_entry list \<Rightarrow> (string \<rightharpoonup> graph_entry)" where
  "entries_by_id es = map_of (rev (map (\<lambda>e. (ge_id e, e)) es))"

definition build_cut_safety :: "graph_entry list \<Rightarrow> (string \<rightharpoonup> string)" where
  "build_cut_safety es = cut_pass (entries_by_id es) cut_start es Map.empty"

section \<open>The specification\<close>

text \<open>A call that makes the cut behind sequence \<open>q\<close> unsafe.\<close>

definition straddles :: "(string \<rightharpoonup> graph_entry) \<Rightarrow> int \<Rightarrow> tool_call_record \<Rightarrow> bool" where
  "straddles byid q c \<longleftrightarrow>
     (case byid (tc_result_entry c) of None \<Rightarrow> True | Some r \<Rightarrow> q < ge_seq r)"

definition calls_upto :: "graph_entry list \<Rightarrow> nat \<Rightarrow> tool_call_record list" where
  "calls_upto es i = concat (map entry_calls (take (Suc i) es))"

definition wf_calls :: "graph_entry list \<Rightarrow> bool" where
  "wf_calls es \<longleftrightarrow> (\<forall>e \<in> set es. 0 \<le> ge_seq e \<and> (\<forall>c \<in> set (entry_calls e). tc_id c \<noteq> []))"

text \<open>What the state says about the calls \<open>cs\<close> seen so far.\<close>

definition cut_inv :: "(string \<rightharpoonup> graph_entry) \<Rightarrow> tool_call_record list \<Rightarrow> cut_state \<Rightarrow> bool" where
  "cut_inv byid cs s \<longleftrightarrow>
     (missing_call s = [] \<longleftrightarrow> (\<forall>c \<in> set cs. byid (tc_result_entry c) \<noteq> None)) \<and>
     (missing_call s \<noteq> [] \<longrightarrow> (\<exists>c \<in> set cs. tc_id c = missing_call s \<and> byid (tc_result_entry c) = None)) \<and>
     (\<forall>c \<in> set cs. \<forall>r. byid (tc_result_entry c) = Some r \<longrightarrow> ge_seq r \<le> max_result s) \<and>
     (max_result s = - 1 \<or>
        (\<exists>c \<in> set cs. tc_id c = max_call s \<and> (\<exists>r. byid (tc_result_entry c) = Some r \<and> ge_seq r = max_result s)))"

lemma cut_inv_start: "cut_inv byid [] cut_start"
  by (simp add: cut_inv_def cut_start_def)

lemma cut_inv_call:
  assumes "cut_inv byid cs s" "tc_id c \<noteq> []"
  shows "cut_inv byid (cs @ [c]) (cut_call byid s c)"
proof (cases "byid (tc_result_entry c)")
  case None
  with assms show ?thesis by (auto simp: cut_inv_def cut_call_def)
next
  case (Some r)
  show ?thesis
  proof (cases "max_result s < ge_seq r")
    case True
    with assms Some show ?thesis by (fastforce simp: cut_inv_def cut_call_def)
  next
    case False
    with assms Some show ?thesis by (auto simp: cut_inv_def cut_call_def)
  qed
qed

lemma cut_inv_calls:
  "cut_inv byid cs s \<Longrightarrow> \<forall>c \<in> set ds. tc_id c \<noteq> [] \<Longrightarrow>
     cut_inv byid (cs @ ds) (foldl (cut_call byid) s ds)"
proof (induction ds arbitrary: cs s)
  case (Cons d ds)
  then have "cut_inv byid ((cs @ [d]) @ ds) (foldl (cut_call byid) (cut_call byid s d) ds)"
    using cut_inv_call [of byid cs s d] by (intro Cons.IH) auto
  then show ?case by simp
qed simp

text \<open>The verdict at one boundary.\<close>

lemma cut_verdict_spec:
  assumes "cut_inv byid cs s" "0 \<le> ge_seq e"
  shows "(cut_verdict s e = None \<longleftrightarrow> (\<forall>c \<in> set cs. \<not> straddles byid (ge_seq e) c)) \<and>
    (\<forall>i. cut_verdict s e = Some i \<longrightarrow> (\<exists>c \<in> set cs. tc_id c = i \<and> straddles byid (ge_seq e) c))"
proof (cases "missing_call s = []")
  case False
  with assms show ?thesis by (auto simp: cut_inv_def cut_verdict_def straddles_def split: option.splits) force+
next
  case True
  have inv: "\<forall>c \<in> set cs. \<exists>r. byid (tc_result_entry c) = Some r \<and> ge_seq r \<le> max_result s"
    using assms True by (fastforce simp: cut_inv_def)
  show ?thesis
  proof (cases "ge_seq e < max_result s")
    case True
    with assms obtain c r where "c \<in> set cs" "tc_id c = max_call s" "byid (tc_result_entry c) = Some r"
      "ge_seq r = max_result s"
      by (auto simp: cut_inv_def)
    with True \<open>missing_call s = []\<close> show ?thesis
      by (force simp: cut_verdict_def straddles_def)
  next
    case False
    with \<open>missing_call s = []\<close> inv show ?thesis
      by (force simp: cut_verdict_def straddles_def)
  qed
qed

lemma cut_pass_other: "x \<notin> ge_id ` set es \<Longrightarrow> cut_pass byid s es unsafe x = unsafe x"
  by (induction es arbitrary: s unsafe) (auto simp: Let_def split: option.splits)

lemma cut_pass_spec:
  "cut_inv byid cs s \<Longrightarrow> wf_calls es \<Longrightarrow> distinct (map ge_id es) \<Longrightarrow> i < length es \<Longrightarrow>
     (cut_pass byid s es unsafe (ge_id (es ! i)) = None \<longrightarrow>
        (\<forall>c \<in> set cs \<union> set (calls_upto es i). \<not> straddles byid (ge_seq (es ! i)) c)) \<and>
     (\<forall>k. cut_pass byid s es unsafe (ge_id (es ! i)) = Some k \<longrightarrow> unsafe (ge_id (es ! i)) = None \<longrightarrow>
        (\<exists>c \<in> set cs \<union> set (calls_upto es i). tc_id c = k \<and> straddles byid (ge_seq (es ! i)) c))"
proof (induction es arbitrary: cs s unsafe i)
  case (Cons e es)
  define s' where "s' = foldl (cut_call byid) s (entry_calls e)"
  define un where "un = (case cut_verdict s' e of None \<Rightarrow> unsafe | Some c \<Rightarrow> unsafe(ge_id e \<mapsto> c))"
  have inv: "cut_inv byid (cs @ entry_calls e) s'"
    unfolding s'_def using Cons.prems by (intro cut_inv_calls) (auto simp: wf_calls_def)
  have wf: "wf_calls es" "0 \<le> ge_seq e" "distinct (map ge_id es)" "ge_id e \<notin> ge_id ` set es"
    using Cons.prems by (auto simp: wf_calls_def)
  have pass: "cut_pass byid s (e # es) unsafe = cut_pass byid s' es un"
    by (simp add: Let_def s'_def un_def)
  show ?case
  proof (cases i)
    case 0
    have "cut_pass byid s' es un (ge_id e) = un (ge_id e)"
      using cut_pass_other [OF wf(4)] .
    then show ?thesis
      using cut_verdict_spec [OF inv wf(2)] 0 unfolding pass
      by (auto simp: un_def calls_upto_def split: option.splits)
  next
    case (Suc j)
    then have j: "j < length es" using Cons.prems by simp
    have "un (ge_id (es ! j)) = unsafe (ge_id (es ! j))"
    proof -
      have "ge_id (es ! j) \<in> ge_id ` set es" using j by simp
      with wf(4) have "ge_id (es ! j) \<noteq> ge_id e" by metis
      then show ?thesis by (simp add: un_def split: option.splits)
    qed
    moreover have "set cs \<union> set (calls_upto (e # es) i) = set (cs @ entry_calls e) \<union> set (calls_upto es j)"
      using Suc by (auto simp: calls_upto_def)
    ultimately show ?thesis
      using Cons.IH [OF inv wf(1,3) j, of un] Suc unfolding pass by simp
  qed
qed simp

text \<open>C24: The one-pass table is the specification. On entries with distinct identities and non-negative sequence
  numbers whose calls have an id, the table has an entry for a boundary exactly when some tool call published
  at or before it has no committed result or a result behind the boundary, and the call it names is such a call.\<close>

theorem build_cut_safety_spec:
  assumes "wf_calls es" "distinct (map ge_id es)" "i < length es"
  shows "case build_cut_safety es (ge_id (es ! i)) of
      None \<Rightarrow> \<forall>c \<in> set (calls_upto es i). \<not> straddles (entries_by_id es) (ge_seq (es ! i)) c
    | Some k \<Rightarrow> \<exists>c \<in> set (calls_upto es i). tc_id c = k \<and> straddles (entries_by_id es) (ge_seq (es ! i)) c"
  using cut_pass_spec [OF cut_inv_start assms, of "entries_by_id es" Map.empty]
  by (auto simp: build_cut_safety_def split: option.splits)

definition sample_env :: "string \<Rightarrow> int \<Rightarrow> string \<Rightarrow> entry_kind \<Rightarrow> envelope" where
  "sample_env i q opn k =
     \<lparr>en_session = ''s'', en_id = i, en_sequence = q, en_operation = opn, en_kind = k, en_committed_at = 0\<rparr>"

definition sample_call :: "string \<Rightarrow> string \<Rightarrow> tool_call_record" where
  "sample_call i r = \<lparr>tc_id = i, tc_ordinal = 0, tc_name = ''t'', tc_arguments_base64 = [], tc_extra = [],
     tc_normalized = NoBytes, tc_normalization_failure = [], tc_result_entry = r\<rparr>"

definition sample_assistant :: "string \<Rightarrow> tool_call_record list \<Rightarrow> assistant_entry" where
  "sample_assistant i cs = \<lparr>as_session = ''s'', as_entry = i, as_operation = [], as_status = OutputCompleted,
     as_source = \<lparr>provider = ''p'', model_name = ''m''\<rparr>, as_content = [], as_refusal = [], as_extra = [],
     as_tool_calls = cs, as_usage = None, as_request = ''r'', as_evidence = None\<rparr>"

definition sample_entries :: "graph_entry list" where
  "sample_entries =
     [\<lparr>ge_env = sample_env ''a'' 1 [] KindAssistant, ge_payload = PAssistant (sample_assistant ''a'' [sample_call ''c'' ''b''])\<rparr>]"

theorem build_cut_safety_spec_witness:
  "\<exists>k c. build_cut_safety sample_entries ''a'' = Some k \<and> c \<in> set (calls_upto sample_entries 0) \<and> tc_id c = k"
proof -
  have ok: "wf_calls sample_entries" "distinct (map ge_id sample_entries)" "0 < length sample_entries"
    by (simp_all add: sample_entries_def sample_env_def wf_calls_def entry_calls_def sample_assistant_def sample_call_def)
  have "build_cut_safety sample_entries ''a'' = Some ''c''" "ge_id (sample_entries ! 0) = ''a''"
    by (simp_all add: build_cut_safety_def sample_entries_def entry_calls_def cut_call_def cut_verdict_def cut_start_def
        entries_by_id_def sample_env_def sample_assistant_def sample_call_def)
  with build_cut_safety_spec [OF ok] show ?thesis by auto
qed

end
