(* ===== verification/Session_Graph.thy ===== *)
theory Session_Graph
  imports Cut_Safety "HOL-Library.Sublist"
begin

text \<open>
  The validator of a decoded Session graph (\<open>validateGraphInvariants\<close> and the methods of
  \<open>graphValidation\<close> in \<open>src/harness/graph.go\<close>), which decides whether stored history is coherent: the current
  operation, ownership, the reservations of tool results, the copied prefix of a fork, references,
  the accounting of every operation, hooks, requests and usage. A violation is the name of
  the violated rule with the identities its message names. Iterating a Go map has no fixed order; the model goes
  through the keys in the order they were inserted, which affects only which of several violations is
  reported. A nil pointer the code would dereference is \<open>NilDereference\<close>.
\<close>

section \<open>Violations and lookups\<close>

datatype violation = Corrupt string "string list" | NilDereference

definition entry_by_id :: "session_graph \<Rightarrow> string \<Rightarrow> graph_entry option" where
  "entry_by_id g i = entries_by_id (g_entries g) i"

definition entries_of :: "session_graph \<Rightarrow> string \<Rightarrow> graph_entry list" where
  "entries_of g i = (if i = [] then [] else filter (\<lambda>e. ge_op e = i) (g_entries g))"

definition is_running :: "operation_record \<Rightarrow> bool" where
  "is_running x \<longleftrightarrow> os_status (or_state x) = OpRunning"

section \<open>The Session state and ownership\<close>

definition validate_session_state :: "session_graph \<Rightarrow> violation + unit" where
  "validate_session_state g =
     (let running = filter is_running (g_operations g);
          st = sr_state (g_session g); cur = ss_current_operation st
      in if 1 < length running then Inl (Corrupt ''many running'' [])
         else rbind (if cur \<noteq> [] then
                       (case find_operation g cur of
                          None \<Rightarrow> Inl (Corrupt ''current missing'' [cur])
                        | Some x \<Rightarrow> ensure (is_running x) (Corrupt ''current not running'' [cur]))
                     else ensure (length running \<noteq> 1) (Corrupt ''running not current'' [op_id (hd running)]))
           (\<lambda>_. if ss_lifecycle st = LifecycleArchived \<and> running \<noteq> [] then Inl (Corrupt ''running archived'' [op_id (hd running)])
                else if ss_checkpoint st \<noteq> [] \<and>
                        (case entry_by_id g (ss_checkpoint st) of
                           None \<Rightarrow> True | Some e \<Rightarrow> the_compaction (ge_payload e) = None)
                     then Inl (Corrupt ''checkpoint missing'' [ss_checkpoint st])
                else Inr ()))"

definition is_input :: "payload \<Rightarrow> bool" where
  "is_input p = (case p of PInput _ \<Rightarrow> True | _ \<Rightarrow> False)"

definition validate_owner :: "session_graph \<Rightarrow> graph_entry \<Rightarrow> violation + unit" where
  "validate_owner g e =
     (if ge_op e = [] then Inr ()
      else (case find_operation g (ge_op e) of
              None \<Rightarrow> Inl (Corrupt ''unknown owner'' [ge_id e, ge_op e])
            | Some x \<Rightarrow>
                (if \<not> is_input (ge_payload e) then Inr ()
                 else ensure (oa_kind (or_admission x) = RequestMessage \<and>
                              er_entry (oa_admitted (or_admission x)) = ge_id e) (Corrupt ''input not admitted'' [ge_id e]))))"

definition validate_entry_ownership :: "session_graph \<Rightarrow> violation + unit" where
  "validate_entry_ownership g = first_error (validate_owner g) (g_entries g)"

section \<open>Reservations\<close>

record reservation =
  rs_result :: string
  rs_call :: string
  rs_assistant :: string
  rs_operation :: string

definition entry_reservations :: "graph_entry \<Rightarrow> reservation list" where
  "entry_reservations e =
     map (\<lambda>c. \<lparr>rs_result = tc_result_entry c, rs_call = tc_id c, rs_assistant = ge_id e, rs_operation = ge_op e\<rparr>)
       (entry_calls e)"

fun collect_reservations_from :: "reservation list \<Rightarrow> reservation list \<Rightarrow> violation + reservation list" where
  "collect_reservations_from acc [] = Inr acc"
| "collect_reservations_from acc (r # rs) =
     (if rs_result r \<in> rs_result ` set acc then Inl (Corrupt ''double reservation'' [rs_result r])
      else collect_reservations_from (acc @ [r]) rs)"

definition collect_reservations :: "session_graph \<Rightarrow> violation + reservation list" where
  "collect_reservations g = collect_reservations_from [] (concat (map entry_reservations (g_entries g)))"

definition validate_reservation :: "session_graph \<Rightarrow> reservation \<Rightarrow> violation + unit" where
  "validate_reservation g r =
     (case entry_by_id g (rs_result r) of
        None \<Rightarrow> ensure (rs_operation r \<noteq> []) (Corrupt ''copied call unresolved'' [rs_call r])
      | Some e \<Rightarrow>
          ensure (en_kind (ge_env e) = KindToolResult \<and>
                  (case the_tool_result (ge_payload e) of
                     None \<Rightarrow> False
                   | Some t \<Rightarrow> ge_op e = rs_operation r \<and> tr_call t = rs_call r \<and>
                       er_entry (tr_assistant t) = rs_assistant r))
            (Corrupt ''reservation mismatch'' [rs_result r]))"

definition validate_reservations :: "session_graph \<Rightarrow> reservation list \<Rightarrow> violation + unit" where
  "validate_reservations g rs = first_error (validate_reservation g) rs"

section \<open>The copied prefix of a fork\<close>

definition exempt_signal :: "graph_entry \<Rightarrow> bool" where
  "exempt_signal e =
     (case the_signal (ge_payload e) of Some s \<Rightarrow> sg_signal s = SignalBackgroundCompletion | None \<Rightarrow> False)"

definition copied_entries :: "session_graph \<Rightarrow> graph_entry list" where
  "copied_entries g = filter (\<lambda>e. ge_op e = [] \<and> \<not> exempt_signal e) (g_entries g)"

definition owned_entries :: "session_graph \<Rightarrow> graph_entry list" where
  "owned_entries g = filter (\<lambda>e. ge_op e \<noteq> []) (g_entries g)"

definition is_fork :: "session_graph \<Rightarrow> bool" where
  "is_fork g \<longleftrightarrow> si_source_session (sr_identity (g_session g)) \<noteq> []"

definition validate_fork_prefix :: "session_graph \<Rightarrow> violation + unit" where
  "validate_fork_prefix g =
     (let copied = copied_entries g; owned = owned_entries g
      in if \<not> is_fork g then (if copied = [] then Inr () else Inl (Corrupt ''copied in root'' [ge_id (hd copied)]))
         else if copied \<noteq> [] \<and> owned \<noteq> [] \<and>
                 foldr min (map ge_seq owned) (ge_seq (hd owned)) \<le> foldr max (map ge_seq copied) (ge_seq (hd copied))
              then Inl (Corrupt ''copied after owned'' [ge_id (last copied)])
         else Inr ())"

section \<open>Evidence\<close>

definition conversation_bearing :: "graph_entry \<Rightarrow> bool" where
  "conversation_bearing e =
     (case ge_payload e of PHookResult _ \<Rightarrow> False | PSettlement _ \<Rightarrow> False | _ \<Rightarrow> True)"

fun evidence_names :: "string list \<Rightarrow> string list \<Rightarrow> bool" where
  "evidence_names [] ts \<longleftrightarrow> True"
| "evidence_names (n # ns) [] \<longleftrightarrow> False"
| "evidence_names (n # ns) (t # ts) \<longleftrightarrow> (if t = n then evidence_names ns ts else evidence_names (n # ns) ts)"

definition validate_evidence_names :: "request_evidence \<Rightarrow> execution_capture \<Rightarrow> violation + unit" where
  "validate_evidence_names ev x = ensure (evidence_names (ev_tool_names ev) (map def_name (xc_tools x))) (Corrupt ''evidence tool names'' [])"

text \<open>\<open>what\<close> is the identity in the message; the owner is the envelope of the carrying record, with sequence 0
  and no operation for an effect that is still running.\<close>

definition no_owner :: envelope where
  "no_owner = \<lparr>en_session = [], en_id = [], en_sequence = 0, en_operation = [], en_kind = OtherEntryKind [],
     en_committed_at = 0\<rparr>"

definition late :: "envelope \<Rightarrow> graph_entry \<Rightarrow> bool" where
  "late owner e \<longleftrightarrow> en_sequence owner \<noteq> 0 \<and> en_sequence owner \<le> ge_seq e"

definition validate_evidence_checkpoint ::
  "session_graph \<Rightarrow> string \<Rightarrow> request_evidence \<Rightarrow> envelope \<Rightarrow> graph_entry \<Rightarrow> violation + unit" where
  "validate_evidence_checkpoint g what ev owner boundary =
     (if ev_checkpoint ev = [] then Inr ()
      else (case entry_by_id g (ev_checkpoint ev) of
              None \<Rightarrow> Inl (Corrupt ''evidence checkpoint missing'' [what])
            | Some ck \<Rightarrow>
                (case the_compaction (ge_payload ck) of
                   None \<Rightarrow> Inl (Corrupt ''evidence checkpoint missing'' [what])
                 | Some c \<Rightarrow>
                     (if ge_id boundary = ge_id ck then ensure (\<not> late owner ck) (Corrupt ''evidence checkpoint late'' [what])
                      else (case entry_by_id g (ck_boundary c) of
                              None \<Rightarrow> Inl (Corrupt ''evidence checkpoint target'' [what])
                            | Some target \<Rightarrow>
                                rbind (ensure (ge_seq target < ge_seq boundary) (Corrupt ''evidence covered'' [what]))
                                  (\<lambda>_. ensure (\<not> late owner ck) (Corrupt ''evidence checkpoint late'' [what])))))))"

definition validate_evidence_refs ::
  "session_graph \<Rightarrow> string \<Rightarrow> request_evidence option \<Rightarrow> envelope \<Rightarrow> violation + unit" where
  "validate_evidence_refs g what evo owner =
     (case evo of
        None \<Rightarrow> Inl (Corrupt ''no evidence'' [what])
      | Some ev \<Rightarrow>
          rbind (case (if en_operation owner = [] then None else find_operation g (en_operation owner)) of
                   None \<Rightarrow> Inr ()
                 | Some x \<Rightarrow> validate_evidence_names ev (oa_execution (or_admission x))) (\<lambda>_.
          if ev_boundary ev = [] then Inl (Corrupt ''evidence no boundary'' [what])
          else (case entry_by_id g (ev_boundary ev) of
                  None \<Rightarrow> Inl (Corrupt ''evidence boundary missing'' [what])
                | Some b \<Rightarrow>
                    (if \<not> conversation_bearing b then Inl (Corrupt ''evidence boundary kind'' [what])
                     else if late owner b then Inl (Corrupt ''evidence boundary late'' [what])
                     else validate_evidence_checkpoint g what ev owner b))))"

text \<open>The order rule for hooks: \<open>limit\<close> results precede the owner, \<open>nxt\<close> of them have been named.\<close>

definition hook_named :: "hook_identity \<Rightarrow> graph_entry \<Rightarrow> bool" where
  "hook_named h e =
     (case the_hook_result (ge_payload e) of
        Some r \<Rightarrow> hr_extension r = hi_extension h \<and> hr_hook r = hi_hook h
      | None \<Rightarrow> False)"

fun index_where :: "('a \<Rightarrow> bool) \<Rightarrow> 'a list \<Rightarrow> nat option" where
  "index_where p [] = None"
| "index_where p (x # xs) = (if p x then Some 0 else map_option Suc (index_where p xs))"

fun hook_order_from :: "graph_entry list \<Rightarrow> nat \<Rightarrow> nat \<Rightarrow> hook_identity list \<Rightarrow> violation + nat" where
  "hook_order_from rs limit nxt [] = Inr nxt"
| "hook_order_from rs limit nxt (h # hs) =
     (case index_where (hook_named h) rs of
        None \<Rightarrow> hook_order_from rs limit nxt hs
      | Some i \<Rightarrow>
          (if limit \<le> i then Inl (Corrupt ''hook order late'' [ge_id (rs ! i)])
           else if i \<noteq> nxt then Inl (Corrupt ''hook order wrong'' [ge_id (rs ! i)])
           else hook_order_from rs limit (nxt + 1) hs))"

definition hook_limit :: "graph_entry list \<Rightarrow> envelope \<Rightarrow> nat" where
  "hook_limit rs owner =
     (case index_where (late owner) rs of None \<Rightarrow> length rs | Some i \<Rightarrow> i)"

definition validate_hook_order :: "hook_identity list \<Rightarrow> graph_entry list \<Rightarrow> envelope \<Rightarrow> violation + unit" where
  "validate_hook_order hs rs owner =
     rbind (hook_order_from rs (hook_limit rs owner) 0 hs)
       (\<lambda>nxt. ensure (nxt = hook_limit rs owner) (Corrupt ''hook order omits'' [ge_id (rs ! nxt)]))"

section \<open>References between entries\<close>

definition validate_copied_result :: "string \<Rightarrow> session_graph \<Rightarrow> graph_entry \<Rightarrow> tool_result_entry \<Rightarrow> violation + unit" where
  "validate_copied_result sid g e t =
     (let aref = tr_assistant t in
      case (if er_session aref = sid then entry_by_id g (er_entry aref) else None) of
        None \<Rightarrow> Inl (Corrupt ''copied result foreign'' [ge_id e])
      | Some pub \<Rightarrow>
          (if en_kind (ge_env pub) \<noteq> KindAssistant \<or> ge_op pub \<noteq> []
           then Inl (Corrupt ''copied result not assistant'' [ge_id e])
           else (case the_assistant (ge_payload pub) of
                   None \<Rightarrow> Inl NilDereference
                 | Some a \<Rightarrow>
                     (case find (\<lambda>c. tc_id c = tr_call t) (as_tool_calls a) of
                        None \<Rightarrow> Inl (Corrupt ''copied result unpublished'' [ge_id e])
                      | Some c \<Rightarrow> ensure (ge_id e = tc_result_entry c) (Corrupt ''copied result reservation'' [ge_id e])))))"

definition validate_owned_signal :: "string \<Rightarrow> session_graph \<Rightarrow> graph_entry \<Rightarrow> signal_entry \<Rightarrow> violation + unit" where
  "validate_owned_signal sid g e s =
     (case sg_related_operation s of
        None \<Rightarrow> Inl NilDereference
      | Some r \<Rightarrow>
          rbind (ensure (opr_session r = sid) (Corrupt ''signal foreign'' [ge_id e])) (\<lambda>_.
            ensure (find_operation g (opr_operation r) \<noteq> None) (Corrupt ''signal missing operation'' [ge_id e])))"

definition validate_checkpoint_cut ::
  "session_graph \<Rightarrow> (string \<rightharpoonup> string) \<Rightarrow> graph_entry \<Rightarrow> checkpoint_entry \<Rightarrow> violation + unit" where
  "validate_checkpoint_cut g cuts_table e c =
     (case entry_by_id g (ck_boundary c) of
        None \<Rightarrow> Inl (Corrupt ''boundary missing'' [ge_id e])
      | Some b \<Rightarrow>
          (if ge_seq e \<le> ge_seq b then Inl (Corrupt ''boundary not before'' [ge_id e])
           else (case cuts_table (ck_boundary c) of
                   Some k \<Rightarrow> Inl (Corrupt ''cut straddles'' [ge_id e, k])
                 | None \<Rightarrow>
                     (if ge_op e = [] then validate_evidence_refs g (ge_id e) (ck_evidence c) (ge_env e)
                      else Inr ()))))"

definition validate_reference ::
  "string \<Rightarrow> session_graph \<Rightarrow> (string \<rightharpoonup> string) \<Rightarrow> graph_entry \<Rightarrow> violation + unit" where
  "validate_reference sid g cuts_table e =
     (case ge_payload e of
        PToolResult t \<Rightarrow> (if ge_op e = [] then validate_copied_result sid g e t else Inr ())
      | PSignal s \<Rightarrow> (if ge_op e \<noteq> [] then validate_owned_signal sid g e s else Inr ())
      | PCompaction c \<Rightarrow> validate_checkpoint_cut g cuts_table e c
      | PAssistant a \<Rightarrow>
          (if ge_op e = [] then validate_evidence_refs g (ge_id e) (as_evidence a) (ge_env e) else Inr ())
      | _ \<Rightarrow> Inr ())"

definition validate_entry_references :: "string \<Rightarrow> session_graph \<Rightarrow> violation + unit" where
  "validate_entry_references sid g =
     (let cuts_table = build_cut_safety (g_entries g)
      in first_error (validate_reference sid g cuts_table) (g_entries g))"

section \<open>The accounting of one operation\<close>

record published_call =
  pb_call :: string
  pb_assistant :: string
  pb_result :: string

definition entry_published :: "graph_entry \<Rightarrow> published_call list" where
  "entry_published e =
     map (\<lambda>c. \<lparr>pb_call = tc_id c, pb_assistant = ge_id e, pb_result = tc_result_entry c\<rparr>) (entry_calls e)"

fun publish_from :: "string \<Rightarrow> published_call list \<Rightarrow> published_call list \<Rightarrow> violation + published_call list" where
  "publish_from opid acc [] = Inr acc"
| "publish_from opid acc (p # ps) =
     (if pb_call p \<in> pb_call ` set acc then Inl (Corrupt ''duplicate call'' [opid, pb_call p])
      else publish_from opid (acc @ [p]) ps)"

definition collect_published :: "session_graph \<Rightarrow> string \<Rightarrow> violation + published_call list" where
  "collect_published g opid = publish_from opid [] (concat (map entry_published (entries_of g opid)))"

definition published_by_call :: "published_call list \<Rightarrow> string \<Rightarrow> published_call option" where
  "published_by_call ps c = find (\<lambda>p. pb_call p = c) ps"

definition check_tool_result ::
  "string \<Rightarrow> published_call list \<Rightarrow> graph_entry \<Rightarrow> violation + unit" where
  "check_tool_result sid ps e =
     (case the_tool_result (ge_payload e) of
        None \<Rightarrow> Inr ()
      | Some t \<Rightarrow>
          (case published_by_call ps (tr_call t) of
             None \<Rightarrow> Inl (Corrupt ''result unpublished'' [ge_id e])
           | Some p \<Rightarrow>
               rbind (ensure (er_session (tr_assistant t) = sid \<and> er_entry (tr_assistant t) = pb_assistant p)
                        (Corrupt ''result wrong publisher'' [ge_id e])) (\<lambda>_.
                 ensure (ge_id e = pb_result p) (Corrupt ''result wrong reservation'' [ge_id e]))))"

definition answers :: "string \<Rightarrow> graph_entry \<Rightarrow> bool" where
  "answers c e \<longleftrightarrow> (case the_tool_result (ge_payload e) of None \<Rightarrow> False | Some t \<Rightarrow> tr_call t = c)"

text \<open>The counts map: how many results of the operation answer the call.\<close>

definition result_count :: "session_graph \<Rightarrow> string \<Rightarrow> string \<Rightarrow> nat" where
  "result_count g opid c = length (filter (answers c) (entries_of g opid))"

definition collect_tool_results :: "string \<Rightarrow> session_graph \<Rightarrow> string \<Rightarrow> published_call list \<Rightarrow> violation + unit" where
  "collect_tool_results sid g opid ps = first_error (check_tool_result sid ps) (entries_of g opid)"

fun match_pending :: "string \<Rightarrow> string \<Rightarrow> published_call list \<Rightarrow> pending_call list \<Rightarrow> violation + unit" where
  "match_pending sid opid (p # ps) (q # qs) =
     (if pc_call q = pb_call p \<and> er_entry (pc_assistant q) = pb_assistant p \<and>
         pc_result_entry q = pb_result p \<and> er_session (pc_assistant q) = sid
      then match_pending sid opid ps qs
      else Inl (Corrupt ''pending mismatch'' [opid, pb_call p]))"
| "match_pending sid opid _ _ = Inr ()"

definition unresolved :: "session_graph \<Rightarrow> string \<Rightarrow> published_call list \<Rightarrow> published_call list" where
  "unresolved g opid ps = filter (\<lambda>p. result_count g opid (pb_call p) = 0) ps"

definition validate_pending ::
  "string \<Rightarrow> session_graph \<Rightarrow> string \<Rightarrow> published_call list \<Rightarrow> pending_call list \<Rightarrow> violation + unit" where
  "validate_pending sid g opid ps pending =
     rbind (ensure (length (unresolved g opid ps) = length pending) (Corrupt ''pending count'' [opid]))
       (\<lambda>_. match_pending sid opid (unresolved g opid ps) pending)"

section \<open>Hooks of tool calls\<close>

record hook_execution =
  hx_extension :: string
  hx_hook :: string
  hx_call :: string
  hx_request :: string

record hook_accounting =
  settled_hooks :: "hook_execution list"
  last_status :: "(string \<times> hook_status) list"
  successful :: "(string \<times> graph_entry list) list"

definition call_successes :: "hook_accounting \<Rightarrow> string \<Rightarrow> graph_entry list" where
  "call_successes acc c = (case map_of (successful acc) c of None \<Rightarrow> [] | Some es \<Rightarrow> es)"

definition before_result :: "session_graph \<Rightarrow> graph_entry \<Rightarrow> published_call \<Rightarrow> bool" where
  "before_result g e p \<longleftrightarrow> (case entry_by_id g (pb_result p) of None \<Rightarrow> True | Some r \<Rightarrow> ge_seq e < ge_seq r)"

definition after_result :: "session_graph \<Rightarrow> graph_entry \<Rightarrow> published_call \<Rightarrow> bool" where
  "after_result g e p \<longleftrightarrow> (case entry_by_id g (pb_result p) of None \<Rightarrow> False | Some r \<Rightarrow> ge_seq r < ge_seq e)"

definition check_call_hook ::
  "session_graph \<Rightarrow> published_call list \<Rightarrow> hook_accounting \<Rightarrow> graph_entry \<Rightarrow> hook_result_entry \<Rightarrow> violation + hook_accounting" where
  "check_call_hook g ps acc e h =
     (case published_by_call ps (hr_tool_call h) of
        None \<Rightarrow> Inl (Corrupt ''hook unpublished'' [ge_id e])
      | Some p \<Rightarrow>
          (let c = pb_call p;
               x = \<lparr>hx_extension = hr_extension h, hx_hook = hr_hook h, hx_call = c, hx_request = []\<rparr>
           in if (case entry_by_id g (pb_assistant p) of None \<Rightarrow> True | Some pub \<Rightarrow> ge_seq e \<le> ge_seq pub)
              then Inl (Corrupt ''hook before publisher'' [ge_id e])
              else if \<not> before_result g e p then Inl (Corrupt ''hook after result'' [ge_id e])
              else if \<not> list_all (after_result g e) (takeWhile (\<lambda>q. pb_call q \<noteq> c) ps)
              then Inl (Corrupt ''hook before earlier result'' [ge_id e])
              else if (case map_of (last_status acc) c of
                         None \<Rightarrow> False | Some s \<Rightarrow> s \<noteq> OtherHookStatus [] \<and> s \<noteq> HookSucceeded)
              then Inl (Corrupt ''hook after failure'' [ge_id e])
              else if x \<in> set (settled_hooks acc) then Inl (Corrupt ''hook twice'' [ge_id e])
              else Inr \<lparr>settled_hooks = settled_hooks acc @ [x],
                        last_status = AList.update c (hr_status h) (last_status acc),
                        successful = (if hr_status h = HookSucceeded
                                      then AList.update c (call_successes acc c @ [e]) (successful acc)
                                      else successful acc)\<rparr>))"

definition check_hook ::
  "session_graph \<Rightarrow> published_call list \<Rightarrow> hook_accounting \<Rightarrow> graph_entry \<Rightarrow> violation + hook_accounting" where
  "check_hook g ps acc e =
     (case the_hook_result (ge_payload e) of
        None \<Rightarrow> Inr acc
      | Some h \<Rightarrow>
          (if hr_request h \<noteq> [] then
             (let x = \<lparr>hx_extension = hr_extension h, hx_hook = hr_hook h, hx_call = [], hx_request = hr_request h\<rparr>
              in if x \<in> set (settled_hooks acc) then Inl (Corrupt ''request hook twice'' [ge_id e])
                 else Inr (acc\<lparr>settled_hooks := settled_hooks acc @ [x]\<rparr>))
           else check_call_hook g ps acc e h))"

fun fold_result :: "('s \<Rightarrow> 'a \<Rightarrow> 'e + 's) \<Rightarrow> 's \<Rightarrow> 'a list \<Rightarrow> 'e + 's" where
  "fold_result f s [] = Inr s"
| "fold_result f s (x # xs) = rbind (f s x) (\<lambda>s'. fold_result f s' xs)"

definition check_result_selection :: "hook_accounting \<Rightarrow> graph_entry \<Rightarrow> violation + unit" where
  "check_result_selection acc e =
     (case the_tool_result (ge_payload e) of
        None \<Rightarrow> Inr ()
      | Some t \<Rightarrow>
          (if tr_normalized t = NoBytes then Inr ()
           else validate_hook_order (tr_hooks t) (call_successes acc (tr_call t)) (ge_env e)))"

definition check_hook_consequence ::
  "session_graph \<Rightarrow> published_call list \<Rightarrow> string \<times> hook_status \<Rightarrow> violation + unit" where
  "check_hook_consequence g ps cs =
     (let (c, s) = cs in
      if s = HookSucceeded then Inr ()
      else (case published_by_call ps c of
              None \<Rightarrow> Inl NilDereference
            | Some p \<Rightarrow>
                (case (case entry_by_id g (pb_result p) of None \<Rightarrow> None | Some r \<Rightarrow> the_tool_result (ge_payload r)) of
                   None \<Rightarrow> Inr ()
                 | Some t \<Rightarrow>
                     (if s = HookInterrupted then
                        ensure (tr_status t = ResultInterrupted) (Corrupt ''result after hook'' [c])
                      else if s = HookFailed then
                        ensure (tr_status t = ResultError \<or> tr_status t = ResultInterrupted) (Corrupt ''result after hook'' [c])
                      else Inr ()))))"

definition collect_hook_results ::
  "session_graph \<Rightarrow> string \<Rightarrow> published_call list \<Rightarrow> violation + hook_accounting" where
  "collect_hook_results g opid ps =
     rbind (fold_result (check_hook g ps) \<lparr>settled_hooks = [], last_status = [], successful = []\<rparr> (entries_of g opid))
       (\<lambda>acc. rbind (first_error (check_result_selection acc) (entries_of g opid))
         (\<lambda>_. rbind (first_error (check_hook_consequence g ps) (last_status acc)) (\<lambda>_. Inr acc)))"

section \<open>Running and terminal operations\<close>

definition check_effect_reservation ::
  "session_graph \<Rightarrow> reservation list \<Rightarrow> string \<Rightarrow> hook_accounting \<Rightarrow> active_effect \<Rightarrow> violation + unit" where
  "check_effect_reservation g rs opid acc ef =
     (if ae_kind ef \<noteq> EffectModel \<and> ae_kind ef \<noteq> EffectHook then Inr ()
      else if ae_result_entry ef \<in> rs_result ` set rs then Inl (Corrupt ''effect reservation clash'' [opid])
      else if entry_by_id g (ae_result_entry ef) \<noteq> None then Inl (Corrupt ''effect reserves committed'' [opid])
      else if ae_kind ef \<noteq> EffectHook then Inr ()
      else if \<lparr>hx_extension = ae_extension ef, hx_hook = ae_hook ef, hx_call = ae_tool_call ef,
               hx_request = ae_request ef\<rparr> \<in> set (settled_hooks acc)
           then Inl (Corrupt ''effect hook repeats'' [opid])
      else ensure (ae_tool_call ef = [] \<or> ae_request ef = []) (Corrupt ''effect two bindings'' [opid]))"

definition check_effect_call ::
  "string \<Rightarrow> hook_accounting \<Rightarrow> active_effect \<Rightarrow> violation + unit" where
  "check_effect_call opid acc ef =
     rbind (if (ae_kind ef = EffectHook \<or> ae_kind ef = EffectTool) \<and> ae_tool_call ef \<noteq> [] \<and>
               (case map_of (last_status acc) (ae_tool_call ef) of None \<Rightarrow> False | Some s \<Rightarrow> s \<noteq> HookSucceeded)
            then Inl (Corrupt ''effect after failed hook'' [opid]) else Inr ()) (\<lambda>_.
     rbind (if ae_kind ef = EffectTool
            then validate_hook_order (ae_contributions ef) (call_successes acc (ae_tool_call ef)) no_owner
            else Inr ()) (\<lambda>_.
     ensure (\<not> (ae_kind ef = EffectHook \<and> ae_request ef = [] \<and> ae_tool_call ef = []))
       (Corrupt ''effect no binding'' [opid])))"

definition check_active_effect ::
  "session_graph \<Rightarrow> reservation list \<Rightarrow> string \<Rightarrow> hook_accounting \<Rightarrow> active_effect option \<Rightarrow> violation + unit" where
  "check_active_effect g rs opid acc efo =
     (case efo of
        None \<Rightarrow> Inr ()
      | Some ef \<Rightarrow> rbind (check_effect_reservation g rs opid acc ef) (\<lambda>_. check_effect_call opid acc ef))"

definition settlements_of :: "session_graph \<Rightarrow> string \<Rightarrow> graph_entry list" where
  "settlements_of g opid = filter (\<lambda>e. the_settlement (ge_payload e) \<noteq> None) (entries_of g opid)"

definition validate_running ::
  "string \<Rightarrow> session_graph \<Rightarrow> reservation list \<Rightarrow> operation_record \<Rightarrow> published_call list \<Rightarrow> hook_accounting \<Rightarrow> violation + unit" where
  "validate_running sid g rs x ps acc =
     rbind (validate_pending sid g (op_id x) ps (os_pending (or_state x))) (\<lambda>_.
     rbind (ensure (settlements_of g (op_id x) = []) (Corrupt ''running settled'' [op_id x])) (\<lambda>_.
       check_active_effect g rs (op_id x) acc (os_effect (or_state x))))"

definition check_resolved :: "session_graph \<Rightarrow> string \<Rightarrow> published_call \<Rightarrow> violation + unit" where
  "check_resolved g opid p =
     (let n = result_count g opid (pb_call p)
      in if n = 0 then Inl (Corrupt ''terminal unresolved'' [opid, pb_call p])
         else if n = 1 then Inr ()
         else Inl (Corrupt ''terminal many results'' [opid, pb_call p]))"

definition check_settlement ::
  "string \<Rightarrow> session_graph \<Rightarrow> operation_record \<Rightarrow> operation_terminal \<Rightarrow> violation + unit" where
  "check_settlement sid g x t =
     (case (if er_session (ot_settlement t) = sid then entry_by_id g (er_entry (ot_settlement t)) else None) of
        None \<Rightarrow> Inl (Corrupt ''terminal settlement missing'' [op_id x])
      | Some e \<Rightarrow>
          rbind (ensure (en_kind (ge_env e) = KindSettlement) (Corrupt ''terminal settlement kind'' [op_id x])) (\<lambda>_.
          rbind (ensure (ge_op e = op_id x) (Corrupt ''terminal settlement owner'' [op_id x])) (\<lambda>_.
            case the_settlement (ge_payload e) of
              None \<Rightarrow> Inl NilDereference
            | Some s \<Rightarrow>
                rbind (ensure (st_status s = os_status (or_state x)) (Corrupt ''terminal status disagrees'' [op_id x])) (\<lambda>_.
                  ensure (st_detail s = ot_detail t) (Corrupt ''terminal detail disagrees'' [op_id x])))))"

definition validate_terminal ::
  "string \<Rightarrow> session_graph \<Rightarrow> operation_record \<Rightarrow> published_call list \<Rightarrow> violation + unit" where
  "validate_terminal sid g x ps =
     rbind (first_error (check_resolved g (op_id x)) ps) (\<lambda>_.
     rbind (ensure (length (settlements_of g (op_id x)) = 1) (Corrupt ''terminal settlements'' [op_id x])) (\<lambda>_.
       case os_terminal (or_state x) of
         None \<Rightarrow> Inl NilDereference
       | Some t \<Rightarrow> check_settlement sid g x t))"

definition validate_admission :: "string \<Rightarrow> session_graph \<Rightarrow> operation_record \<Rightarrow> violation + unit" where
  "validate_admission sid g x =
     (let adm = oa_admitted (or_admission x)
      in if oa_kind (or_admission x) = RequestCompact
         then ensure (adm = \<lparr>er_session = [], er_entry = []\<rparr>) (Corrupt ''compact admits input'' [op_id x])
         else (case (if er_session adm = sid then entry_by_id g (er_entry adm) else None) of
                 None \<Rightarrow> Inl (Corrupt ''admitted missing'' [op_id x])
               | Some e \<Rightarrow>
                   rbind (ensure (en_kind (ge_env e) = KindInput) (Corrupt ''admitted not input'' [op_id x])) (\<lambda>_.
                     ensure (ge_op e = op_id x) (Corrupt ''admitted not owned'' [op_id x]))))"

section \<open>The requests of one operation\<close>

definition request_results :: "session_graph \<Rightarrow> string \<Rightarrow> string \<Rightarrow> graph_entry list" where
  "request_results g opid rid =
     filter (\<lambda>e. case the_hook_result (ge_payload e) of
                   None \<Rightarrow> False | Some h \<Rightarrow> hr_request h \<noteq> [] \<and> hr_request h = rid) (entries_of g opid)"

text \<open>The changing part of \<open>requestAccounting\<close>: requests with a failed hook, and the answering assistants.\<close>

record request_state =
  failed_requests :: "string list"
  answered :: "(string \<times> string) list"

definition check_request_hook ::
  "session_graph \<Rightarrow> string \<Rightarrow> request_state \<Rightarrow> graph_entry \<Rightarrow> hook_result_entry \<Rightarrow> violation + request_state" where
  "check_request_hook g opid s e h =
     (let rid = hr_request h in
      if map_of (answered s) rid \<noteq> None then Inl (Corrupt ''hook after answer'' [ge_id e])
      else if rid \<in> set (failed_requests s) then Inl (Corrupt ''request hook after failure'' [ge_id e])
      else rbind (validate_evidence_refs g (ge_id e) (hr_input_evidence h) (ge_env e)) (\<lambda>_.
        case hr_input_evidence h of
          None \<Rightarrow> Inl NilDereference
        | Some ev \<Rightarrow>
            rbind (validate_hook_order (ev_hooks ev) (request_results g opid rid) (ge_env e)) (\<lambda>_.
              Inr (if hr_status h = HookSucceeded then s
                   else s\<lparr>failed_requests := rid # failed_requests s\<rparr>))))"

definition check_assistant_request ::
  "session_graph \<Rightarrow> string \<Rightarrow> request_state \<Rightarrow> graph_entry \<Rightarrow> assistant_entry \<Rightarrow> violation + request_state" where
  "check_assistant_request g opid s e a =
     (let rid = as_request a in
      if rid = [] then Inl (Corrupt ''assistant no request'' [ge_id e])
      else if rid \<in> set (failed_requests s) then Inl (Corrupt ''assistant after failure'' [ge_id e])
      else if map_of (answered s) rid \<noteq> None then Inl (Corrupt ''answered twice'' [ge_id e])
      else rbind (validate_evidence_refs g (ge_id e) (as_evidence a) (ge_env e)) (\<lambda>_.
        case as_evidence a of
          None \<Rightarrow> Inl NilDereference
        | Some ev \<Rightarrow>
            rbind (validate_hook_order (ev_hooks ev) (request_results g opid rid) (ge_env e)) (\<lambda>_.
              Inr (s\<lparr>answered := (rid, ge_id e) # answered s\<rparr>))))"

definition check_settlement_request ::
  "session_graph \<Rightarrow> string \<Rightarrow> bool \<Rightarrow> graph_entry \<Rightarrow> settlement_entry \<Rightarrow> violation + unit" where
  "check_settlement_request g opid automatic e st =
     (case st_evidence st of
        None \<Rightarrow> Inr ()
      | Some ev \<Rightarrow>
          rbind (validate_evidence_refs g (ge_id e) (Some ev) (ge_env e)) (\<lambda>_.
            if st_compaction_usage st \<and> automatic \<and> st_consumed_request st = []
            then Inl (Corrupt ''maintenance no consumed'' [ge_id e])
            else (let key = (if st_compaction_usage st \<and> st_consumed_request st \<noteq> []
                             then st_consumed_request st else st_request st)
                  in validate_hook_order (ev_hooks ev) (request_results g opid key) (ge_env e))))"

definition check_compaction_request ::
  "session_graph \<Rightarrow> string \<Rightarrow> bool \<Rightarrow> graph_entry \<Rightarrow> checkpoint_entry \<Rightarrow> violation + unit" where
  "check_compaction_request g opid automatic e c =
     rbind (validate_evidence_refs g (ge_id e) (ck_evidence c) (ge_env e)) (\<lambda>_.
       if ck_consumed_request c = [] \<and> automatic then Inl (Corrupt ''maintenance no consumed'' [ge_id e])
       else (case ck_evidence c of
               None \<Rightarrow> Inl NilDereference
             | Some ev \<Rightarrow>
                 (let key = (if ck_consumed_request c \<noteq> [] then ck_consumed_request c
                             else (case ck_facts c of [] \<Rightarrow> [] | f # _ \<Rightarrow> mf_request f))
                  in validate_hook_order (ev_hooks ev) (request_results g opid key) (ge_env e))))"

definition check_request_entry ::
  "session_graph \<Rightarrow> string \<Rightarrow> bool \<Rightarrow> request_state \<Rightarrow> graph_entry \<Rightarrow> violation + request_state" where
  "check_request_entry g opid automatic s e =
     (case ge_payload e of
        PHookResult h \<Rightarrow> (if hr_request h \<noteq> [] then check_request_hook g opid s e h else Inr s)
      | PAssistant a \<Rightarrow> check_assistant_request g opid s e a
      | PSettlement st \<Rightarrow> rbind (check_settlement_request g opid automatic e st) (\<lambda>_. Inr s)
      | PCompaction c \<Rightarrow> rbind (check_compaction_request g opid automatic e c) (\<lambda>_. Inr s)
      | _ \<Rightarrow> Inr s)"

definition entry_facts :: "graph_entry \<Rightarrow> maintenance_fact list" where
  "entry_facts e =
     (case ge_payload e of PCompaction c \<Rightarrow> ck_facts c | PSettlement s \<Rightarrow> st_facts s | _ \<Rightarrow> [])"

fun producers_once :: "string \<Rightarrow> string list \<Rightarrow> string list \<Rightarrow> violation + unit" where
  "producers_once opid seen [] = Inr ()"
| "producers_once opid seen (p # ps) =
     (if p = [] then producers_once opid seen ps
      else if p \<in> set seen then Inl (Corrupt ''producer settled twice'' [opid, p])
      else producers_once opid (p # seen) ps)"

definition check_effect_request ::
  "session_graph \<Rightarrow> operation_record \<Rightarrow> request_state \<Rightarrow> violation + unit" where
  "check_effect_request g x s =
     (case os_effect (or_state x) of
        None \<Rightarrow> Inr ()
      | Some ef \<Rightarrow>
          (let rid = ae_request ef in
           if rid = [] then Inr ()
           else if map_of (answered s) rid \<noteq> None then Inl (Corrupt ''effect answered'' [op_id x])
           else if rid \<in> set (failed_requests s) then Inl (Corrupt ''effect request failed'' [op_id x])
           else (case ae_evidence ef of
                   None \<Rightarrow> Inr ()
                 | Some ev \<Rightarrow>
                     if ae_kind ef = EffectHook \<and>
                        list_ex (\<lambda>h. hi_extension h = ae_extension ef \<and> hi_hook h = ae_hook ef) (ev_hooks ev)
                     then Inl (Corrupt ''effect names itself'' [op_id x])
                     else rbind (validate_evidence_refs g (op_id x) (Some ev) no_owner) (\<lambda>_.
                       rbind (validate_evidence_names ev (oa_execution (or_admission x))) (\<lambda>_.
                         validate_hook_order (ev_hooks ev) (request_results g (op_id x) rid) no_owner)))))"

fun match_hook_refs :: "string \<Rightarrow> string \<Rightarrow> graph_entry list \<Rightarrow> entry_ref list \<Rightarrow> violation + unit" where
  "match_hook_refs sid opid (c # cs) (r # rs) =
     (if er_session r \<noteq> sid then Inl (Corrupt ''running hook foreign'' [opid])
      else if ge_id c \<noteq> er_entry r then Inl (Corrupt ''running hook order'' [opid])
      else match_hook_refs sid opid cs rs)"
| "match_hook_refs sid opid _ _ = Inr ()"

definition validate_running_request :: "string \<Rightarrow> session_graph \<Rightarrow> operation_record \<Rightarrow> violation + unit" where
  "validate_running_request sid g x =
     (case os_request (or_state x) of
        None \<Rightarrow> Inr ()
      | Some st \<Rightarrow>
          rbind (ensure (ss_checkpoint (sr_state (g_session g)) = rr_checkpoint st)
                   (Corrupt ''running checkpoint foreign'' [op_id x])) (\<lambda>_.
          rbind (validate_evidence_refs g (op_id x)
                   (Some \<lparr>ev_checkpoint = rr_checkpoint st, ev_boundary = rr_boundary st, ev_prompt = [],
                          ev_messages = [], ev_tool_names = [], ev_hooks = []\<rparr>) no_owner) (\<lambda>_.
            let committed = request_results g (op_id x) (rr_request st)
            in rbind (ensure (length committed = length (rr_hook_results st)) (Corrupt ''running hook count'' [op_id x]))
                 (\<lambda>_. match_hook_refs sid (op_id x) committed (rr_hook_results st)))))"

definition collect_request_domain :: "string \<Rightarrow> session_graph \<Rightarrow> operation_record \<Rightarrow> violation + unit" where
  "collect_request_domain sid g x =
     rbind (fold_result (check_request_entry g (op_id x) (oa_kind (or_admission x) = RequestMessage))
              \<lparr>failed_requests = [], answered = []\<rparr> (entries_of g (op_id x))) (\<lambda>s.
     rbind (producers_once (op_id x) [] (map mf_request (concat (map entry_facts (entries_of g (op_id x)))))) (\<lambda>_.
     rbind (check_effect_request g x s) (\<lambda>_.
       validate_running_request sid g x)))"

definition validate_operation :: "string \<Rightarrow> session_graph \<Rightarrow> reservation list \<Rightarrow> operation_record \<Rightarrow> violation + unit" where
  "validate_operation sid g rs x =
     rbind (validate_admission sid g x) (\<lambda>_.
     rbind (collect_published g (op_id x)) (\<lambda>ps.
     rbind (collect_tool_results sid g (op_id x) ps) (\<lambda>_.
     rbind (collect_hook_results g (op_id x) ps) (\<lambda>acc.
     rbind (if is_running x then validate_running sid g rs x ps acc else validate_terminal sid g x ps) (\<lambda>_.
       collect_request_domain sid g x)))))"

section \<open>Usage\<close>

definition zero_count :: usage_count where
  "zero_count = \<lparr>in_tokens = 0, cached_tokens = 0, out_tokens = 0\<rparr>"

definition count_in :: "counts \<Rightarrow> model_ref \<Rightarrow> usage_count" where
  "count_in m r = (case map_of m r of None \<Rightarrow> zero_count | Some u \<Rightarrow> u)"

definition add_count :: "counts \<Rightarrow> model_ref \<Rightarrow> usage_count \<Rightarrow> violation + counts" where
  "add_count m r u =
     (case add_usage_count (count_in m r) u of
        Inl e \<Rightarrow> Inl (Corrupt ''usage overflow'' [])
      | Inr s \<Rightarrow> Inr (AList.update r s m))"

text \<open>The producers with usage an entry carries, in the order in which they are recorded.\<close>

definition entry_usage :: "graph_entry \<Rightarrow> (model_ref option \<times> usage_count) list" where
  "entry_usage e =
     (case ge_payload e of
        PAssistant a \<Rightarrow> (case as_usage a of None \<Rightarrow> [] | Some u \<Rightarrow> [(Some (as_source a), u)])
      | PSettlement s \<Rightarrow> (case st_usage s of None \<Rightarrow> [] | Some u \<Rightarrow> [(st_model s, u)])
      | _ \<Rightarrow> []) @
     concat (map (\<lambda>f. case mf_usage f of None \<Rightarrow> [] | Some u \<Rightarrow> [(Some (mf_model f), u)]) (entry_facts e))"

record usage_maps =
  session_counts :: counts
  operation_counts :: "(string \<times> counts) list"

definition op_counts :: "usage_maps \<Rightarrow> string \<Rightarrow> counts" where
  "op_counts m i = (case map_of (operation_counts m) i of None \<Rightarrow> [] | Some c \<Rightarrow> c)"

definition record_usage ::
  "string \<Rightarrow> usage_maps \<Rightarrow> model_ref option \<times> usage_count \<Rightarrow> violation + usage_maps" where
  "record_usage opid m pu =
     (case fst pu of
        None \<Rightarrow> Inl NilDereference
      | Some r \<Rightarrow>
          rbind (if opid = [] then Inr (operation_counts m)
                 else rbind (add_count (op_counts m opid) r (snd pu))
                        (\<lambda>c. Inr (AList.update opid c (operation_counts m)))) (\<lambda>ops.
          rbind (add_count (session_counts m) r (snd pu)) (\<lambda>ses.
            Inr \<lparr>session_counts = ses, operation_counts = ops\<rparr>)))"

definition record_entry_usage :: "usage_maps \<Rightarrow> graph_entry \<Rightarrow> violation + usage_maps" where
  "record_entry_usage m e = fold_result (record_usage (ge_op e)) m (entry_usage e)"

definition validate_usage :: "session_graph \<Rightarrow> violation + unit" where
  "validate_usage g =
     rbind (fold_result record_entry_usage \<lparr>session_counts = [], operation_counts = []\<rparr> (g_entries g)) (\<lambda>m.
     rbind (first_error (\<lambda>x. ensure (usage_totals_equal (totals_of_counts (op_counts m (op_id x))) (os_usage (or_state x)))
              (Corrupt ''operation usage disagrees'' [op_id x])) (g_operations g)) (\<lambda>_.
       ensure (usage_totals_equal (totals_of_counts (session_counts m)) (ss_usage (sr_state (g_session g))))
         (Corrupt ''session usage disagrees'' [])))"

section \<open>The validator\<close>

fun duplicate_free :: "string list \<Rightarrow> string list \<Rightarrow> violation + unit" where
  "duplicate_free seen [] = Inr ()"
| "duplicate_free seen (i # is) =
     (if i \<in> set seen then Inl (Corrupt ''duplicate entry'' [i]) else duplicate_free (i # seen) is)"

definition validate_graph :: "string \<Rightarrow> session_graph \<Rightarrow> violation + unit" where
  "validate_graph sid g =
     rbind (ensure (distinct (map op_id (g_operations g))) (Corrupt ''duplicate operation'' [])) (\<lambda>_.
     rbind (duplicate_free [] (map ge_id (g_entries g))) (\<lambda>_.
     rbind (validate_session_state g) (\<lambda>_.
     rbind (validate_entry_ownership g) (\<lambda>_.
     rbind (collect_reservations g) (\<lambda>rs.
     rbind (validate_reservations g rs) (\<lambda>_.
     rbind (validate_fork_prefix g) (\<lambda>_.
     rbind (validate_entry_references sid g) (\<lambda>_.
     rbind (first_error (validate_operation sid g rs) (g_operations g)) (\<lambda>_.
       validate_usage g)))))))))"

end
