(* ===== verification/Session_Graph_Safe.thy ===== *)
theory Session_Graph_Safe
  imports Session_Graph
begin

text \<open>
  What an accepted Session graph guarantees: at most one running operation, agreeing with the Session;
  unique reservations; one result for every published call, or a pending entry in publication order; a copied prefix before
  everything owned; checkpoints that cut no call from its result; hook provenance that is complete and in order;
  totals that are the sums of the reported counts.
\<close>

section \<open>The parts of the validator\<close>

lemma duplicate_free_ok: "duplicate_free seen is = Inr u \<longleftrightarrow> distinct is \<and> set is \<inter> set seen = {}"
  by (induction seen "is" rule: duplicate_free.induct) auto

lemma validate_graph_parts:
  assumes "validate_graph sid g = Inr u"
  obtains rs where
    "distinct (map op_id (g_operations g))" "distinct (map ge_id (g_entries g))"
    "validate_session_state g = Inr ()" "validate_entry_ownership g = Inr ()"
    "collect_reservations g = Inr rs" "validate_reservations g rs = Inr ()"
    "validate_fork_prefix g = Inr ()" "validate_entry_references sid g = Inr ()"
    "\<forall>x \<in> set (g_operations g). validate_operation sid g rs x = Inr ()" "validate_usage g = Inr ()"
  using assms by (auto simp: validate_graph_def res_simps duplicate_free_ok)

lemma entry_by_id_Some:
  "distinct (map ge_id (g_entries g)) \<Longrightarrow>
     entry_by_id g i = Some e \<longleftrightarrow> e \<in> set (g_entries g) \<and> ge_id e = i"
proof -
  assume "distinct (map ge_id (g_entries g))"
  then have "distinct (map fst (rev (map (\<lambda>e. (ge_id e, e)) (g_entries g))))"
    by (simp add: rev_map [symmetric] o_def)
  then show ?thesis
    by (auto simp: entry_by_id_def entries_by_id_def map_of_eq_Some_iff)
qed

lemma find_operation_Some:
  "distinct (map op_id (g_operations g)) \<Longrightarrow>
     find_operation g i = Some x \<longleftrightarrow> x \<in> set (g_operations g) \<and> op_id x = i"
proof -
  have "find (\<lambda>x. op_id x = i) xs = Some x \<longleftrightarrow> x \<in> set xs \<and> op_id x = i" if "distinct (map op_id xs)" for xs
    using that by (induction xs) auto
  moreover assume "distinct (map op_id (g_operations g))"
  ultimately show ?thesis by (simp add: find_operation_def)
qed

section \<open>The current operation\<close>

text \<open>In an accepted graph an operation is running exactly when the Session names it as its current operation; so
  at most one runs, none runs in an archived Session, and a named current operation exists.\<close>

theorem running_operation_is_current:
  assumes "validate_graph sid g = Inr ()"
  shows "(\<forall>x \<in> set (g_operations g). is_running x \<longleftrightarrow>
       ss_current_operation (sr_state (g_session g)) \<noteq> [] \<and> op_id x = ss_current_operation (sr_state (g_session g)))
    \<and> (ss_current_operation (sr_state (g_session g)) \<noteq> [] \<longrightarrow>
         ss_lifecycle (sr_state (g_session g)) \<noteq> LifecycleArchived \<and>
         (\<exists>x \<in> set (g_operations g). op_id x = ss_current_operation (sr_state (g_session g))))"
proof -
  define cur where "cur = ss_current_operation (sr_state (g_session g))"
  define running where "running = filter is_running (g_operations g)"
  obtain rs where d: "distinct (map op_id (g_operations g))" and ok: "validate_session_state g = Inr ()"
    using validate_graph_parts [OF assms] by metis
  have len: "length running \<le> 1" and
    named: "cur \<noteq> [] \<Longrightarrow> \<exists>x \<in> set (g_operations g). op_id x = cur \<and> is_running x" and
    unnamed: "cur = [] \<Longrightarrow> length running \<noteq> 1" and
    arch: "ss_lifecycle (sr_state (g_session g)) = LifecycleArchived \<Longrightarrow> running = []"
    using ok find_operation_Some [OF d]
    by (auto simp: validate_session_state_def Let_def cur_def running_def res_simps split: if_splits option.splits)
  show ?thesis
  proof (cases "cur = []")
    case True
    with len unnamed have "running = []" by (cases running) auto
    with True show ?thesis by (auto simp: running_def filter_empty_conv cur_def)
  next
    case False
    then obtain x where x: "x \<in> set (g_operations g)" "op_id x = cur" "is_running x" using named by blast
    then have "x \<in> set running" by (simp add: running_def)
    with len have one: "running = [x]" by (cases running) auto
    have "is_running y \<longleftrightarrow> op_id y = cur" if "y \<in> set (g_operations g)" for y
    proof
      assume "is_running y"
      with that have "y \<in> set running" by (simp add: running_def)
      with one x show "op_id y = cur" by simp
    next
      assume "op_id y = cur"
      with d that x have "y = x" by (metis (no_types, lifting) distinct_map inj_on_def)
      with x show "is_running y" by simp
    qed
    with False x one arch show ?thesis by (auto simp: cur_def)
  qed
qed

section \<open>Reservations\<close>

lemma collect_reservations_from_ok:
  "collect_reservations_from acc rs = Inr out \<Longrightarrow>
     out = acc @ rs \<and> (distinct (map rs_result acc) \<longrightarrow> distinct (map rs_result out))"
  by (induction acc rs rule: collect_reservations_from.induct) (fastforce split: if_splits)+

definition all_calls :: "session_graph \<Rightarrow> tool_call_record list" where
  "all_calls g = concat (map entry_calls (g_entries g))"

lemma reservations_of_calls: "map rs_result (concat (map entry_reservations es)) = map tc_result_entry (concat (map entry_calls es))"
  by (induction es) (auto simp: entry_reservations_def)

lemma results_unique:
  assumes "validate_graph sid g = Inr ()"
  shows "distinct (map tc_result_entry (all_calls g))"
proof -
  obtain rs where "collect_reservations g = Inr rs"
    using validate_graph_parts [OF assms] by metis
  then have "rs = concat (map entry_reservations (g_entries g)) \<and> distinct (map rs_result rs)"
    unfolding collect_reservations_def by (auto dest: collect_reservations_from_ok)
  then show ?thesis
    by (metis all_calls_def reservations_of_calls)
qed

text \<open>In an accepted graph no two tool calls of the Session, owned or copied, reserve the same result identity.\<close>

theorem reservations_unique:
  assumes "validate_graph sid g = Inr ()"
  shows "distinct (map tc_result_entry (all_calls g))"
  using results_unique [OF assms] .

section \<open>One result for every published call\<close>

lemma entries_of_in: "e \<in> set (entries_of g i) \<longleftrightarrow> e \<in> set (g_entries g) \<and> ge_op e = i \<and> i \<noteq> []"
  by (auto simp: entries_of_def)

lemma publish_from_ok:
  "publish_from opid acc ps = Inr out \<Longrightarrow>
     out = acc @ ps \<and> (distinct (map pb_call acc) \<longrightarrow> distinct (map pb_call out))"
  by (induction opid acc ps rule: publish_from.induct) (fastforce split: if_splits)+

lemma collect_published_ok:
  "collect_published g opid = Inr ps \<Longrightarrow>
     ps = concat (map entry_published (entries_of g opid)) \<and> distinct (map pb_call ps)"
  unfolding collect_published_def by (auto dest: publish_from_ok)

lemma published_by_call_ok:
  "distinct (map pb_call ps) \<Longrightarrow> published_by_call ps c = Some p \<longleftrightarrow> p \<in> set ps \<and> pb_call p = c"
proof -
  have "find (\<lambda>p. pb_call p = c) ps = Some p \<longleftrightarrow> p \<in> set ps \<and> pb_call p = c" if "distinct (map pb_call ps)"
    using that by (induction ps) auto
  moreover assume "distinct (map pb_call ps)"
  ultimately show ?thesis by (simp add: published_by_call_def)
qed

text \<open>An entry that answers a published call has the call's reserved identity and names its publisher.\<close>

lemma tool_result_reserved:
  assumes "collect_tool_results sid g opid ps = Inr ()" "distinct (map pb_call ps)"
    and "e \<in> set (entries_of g opid)" "p \<in> set ps" "answers (pb_call p) e"
  shows "ge_id e = pb_result p"
proof -
  obtain t where t: "ge_payload e = PToolResult t" "tr_call t = pb_call p"
    using assms(5) by (auto simp: answers_def split: option.splits)
  have "check_tool_result sid ps e = Inr ()"
    using assms(1,3) by (auto simp: collect_tool_results_def res_simps)
  moreover have "published_by_call ps (tr_call t) = Some p"
    using published_by_call_ok [OF assms(2)] assms(4) t by simp
  ultimately show ?thesis using t by (simp add: check_tool_result_def res_simps)
qed

lemma distinct_by_id: "distinct (map ge_id (g_entries g)) \<Longrightarrow> e \<in> set (g_entries g) \<Longrightarrow> f \<in> set (g_entries g) \<Longrightarrow>
    ge_id e = ge_id f \<Longrightarrow> e = f"
  by (metis (no_types, lifting) distinct_map inj_on_def)

lemma result_count_le_1:
  assumes "collect_tool_results sid g opid ps = Inr ()" "distinct (map pb_call ps)"
    and "distinct (map ge_id (g_entries g))" "p \<in> set ps"
  shows "result_count g opid (pb_call p) \<le> 1"
proof -
  define rs where "rs = filter (answers (pb_call p)) (entries_of g opid)"
  have "distinct (map ge_id (entries_of g opid))"
    using assms(3) by (auto simp: entries_of_def distinct_map_filter)
  then have "distinct (map ge_id rs)" by (simp add: rs_def distinct_map_filter)
  moreover have "set (map ge_id rs) \<subseteq> {pb_result p}"
    using tool_result_reserved [OF assms(1,2) _ assms(4)] by (auto simp: rs_def)
  ultimately have "length (map ge_id rs) \<le> card {pb_result p}"
    by (metis card_mono distinct_card finite.emptyI finite.insertI)
  then show ?thesis by (simp add: result_count_def rs_def)
qed

lemma result_count_pos: "0 < result_count g opid c \<longleftrightarrow> (\<exists>e \<in> set (entries_of g opid). answers c e)"
  by (auto simp: result_count_def filter_empty_conv)

lemma match_pending_ok:
  "match_pending sid opid ps qs = Inr () \<Longrightarrow> length ps = length qs \<Longrightarrow>
     map pc_call qs = map pb_call ps \<and> map pc_result_entry qs = map pb_result ps"
  by (induction sid opid ps qs rule: match_pending.induct) (auto split: if_splits)

lemma validate_operation_parts:
  assumes "validate_operation sid g rs x = Inr ()"
  obtains ps acc where "validate_admission sid g x = Inr ()" "collect_published g (op_id x) = Inr ps"
    "collect_tool_results sid g (op_id x) ps = Inr ()" "collect_hook_results g (op_id x) ps = Inr acc"
    "is_running x \<Longrightarrow> validate_running sid g rs x ps acc = Inr ()"
    "\<not> is_running x \<Longrightarrow> validate_terminal sid g x ps = Inr ()"
    "collect_request_domain sid g x = Inr ()"
  using assms by (auto simp: validate_operation_def res_simps split: if_splits)

lemma op_call_published:
  "c \<in> set (concat (map entry_calls es)) \<Longrightarrow>
     \<exists>p \<in> set (concat (map entry_published es)). pb_call p = tc_id c \<and> pb_result p = tc_result_entry c"
  by (fastforce simp: entry_published_def)

definition op_calls :: "session_graph \<Rightarrow> operation_record \<Rightarrow> tool_call_record list" where
  "op_calls g x = concat (map entry_calls (entries_of g (op_id x)))"

definition results_for :: "session_graph \<Rightarrow> operation_record \<Rightarrow> tool_call_record \<Rightarrow> graph_entry set" where
  "results_for g x c = {e \<in> set (entries_of g (op_id x)). answers (tc_id c) e}"

lemma published_calls:
  "map pb_call (concat (map entry_published es)) = map tc_id (concat (map entry_calls es))"
  "map pb_result (concat (map entry_published es)) = map tc_result_entry (concat (map entry_calls es))"
  by (induction es) (auto simp: entry_published_def)

lemma calls_settle:
  assumes "validate_graph sid g = Inr ()" "x \<in> set (g_operations g)"
  shows "distinct (map tc_id (op_calls g x))
    \<and> (\<forall>c \<in> set (op_calls g x). \<forall>e \<in> results_for g x c. ge_id e = tc_result_entry c \<and> results_for g x c = {e})
    \<and> (\<not> is_running x \<longrightarrow> (\<forall>c \<in> set (op_calls g x). results_for g x c \<noteq> {}))
    \<and> (is_running x \<longrightarrow>
         map pc_call (os_pending (or_state x)) = map tc_id (filter (\<lambda>c. results_for g x c = {}) (op_calls g x)) \<and>
         map pc_result_entry (os_pending (or_state x)) =
           map tc_result_entry (filter (\<lambda>c. results_for g x c = {}) (op_calls g x)))"
proof -
  obtain rs where d: "distinct (map ge_id (g_entries g))" and vop: "validate_operation sid g rs x = Inr ()"
    using validate_graph_parts [OF assms(1)] assms(2) by metis
  obtain ps acc where ps: "collect_published g (op_id x) = Inr ps"
    and tr: "collect_tool_results sid g (op_id x) ps = Inr ()"
    and run: "is_running x \<Longrightarrow> validate_running sid g rs x ps acc = Inr ()"
    and ended: "\<not> is_running x \<Longrightarrow> validate_terminal sid g x ps = Inr ()"
    using validate_operation_parts [OF vop] by metis
  note pub = collect_published_ok [OF ps]
  have calls: "map pb_call ps = map tc_id (op_calls g x)" "map pb_result ps = map tc_result_entry (op_calls g x)"
    using pub published_calls by (auto simp: op_calls_def)
  have dist: "distinct (map tc_id (op_calls g x))" using pub calls by simp
  have of_call: "\<exists>p \<in> set ps. pb_call p = tc_id c \<and> pb_result p = tc_result_entry c" if "c \<in> set (op_calls g x)" for c
    using op_call_published [of c "entries_of g (op_id x)"] that pub by (simp add: op_calls_def)
  have none: "results_for g x c = {} \<longleftrightarrow> result_count g (op_id x) (tc_id c) = 0" for c
    using result_count_pos [of g "op_id x" "tc_id c"] by (auto simp: results_for_def)
  have unique: "ge_id e = tc_result_entry c \<and> results_for g x c = {e}"
    if c: "c \<in> set (op_calls g x)" and e: "e \<in> results_for g x c" for c e
  proof -
    obtain p where p: "p \<in> set ps" "pb_call p = tc_id c" "pb_result p = tc_result_entry c"
      using of_call [OF c] by blast
    have id: "ge_id f = tc_result_entry c" if "f \<in> results_for g x c" for f
    proof -
      have "f \<in> set (entries_of g (op_id x))" "answers (pb_call p) f" using that p(2) by (simp_all add: results_for_def)
      from tool_result_reserved [OF tr conjunct2 [OF pub] this(1) p(1) this(2)] p(3) show ?thesis by simp
    qed
    have "f = e" if "f \<in> results_for g x c" for f
    proof (rule distinct_by_id [OF d])
      show "f \<in> set (g_entries g)" "e \<in> set (g_entries g)"
        using that e by (simp_all add: results_for_def entries_of_in)
      show "ge_id f = ge_id e" using id [OF that] id [OF e] by simp
    qed
    with e id [OF e] show ?thesis by blast
  qed
  have "results_for g x c \<noteq> {}" if fin: "\<not> is_running x" and c: "c \<in> set (op_calls g x)" for c
  proof -
    obtain p where p: "p \<in> set ps" "pb_call p = tc_id c" using of_call [OF c] by blast
    have "check_resolved g (op_id x) p = Inr ()"
      using ended [OF fin] p(1) by (auto simp: validate_terminal_def res_simps)
    then have "result_count g (op_id x) (tc_id c) \<noteq> 0"
      using p(2) by (auto simp: check_resolved_def Let_def split: if_splits)
    with none show ?thesis by simp
  qed
  moreover have "map pc_call (os_pending (or_state x)) = map tc_id (filter (\<lambda>c. results_for g x c = {}) (op_calls g x)) \<and>
      map pc_result_entry (os_pending (or_state x)) =
        map tc_result_entry (filter (\<lambda>c. results_for g x c = {}) (op_calls g x))" if "is_running x"
  proof -
    have "map pc_call (os_pending (or_state x)) = map pb_call (unresolved g (op_id x) ps) \<and>
        map pc_result_entry (os_pending (or_state x)) = map pb_result (unresolved g (op_id x) ps)"
      using run [OF that]
      by (auto simp: validate_running_def validate_pending_def res_simps dest!: match_pending_ok)
    moreover have "unresolved g (op_id x) (concat (map entry_published es)) =
        concat (map (\<lambda>e. filter (\<lambda>p. result_count g (op_id x) (pb_call p) = 0) (entry_published e)) es)" for es
      by (simp add: unresolved_def filter_concat o_def)
    moreover have "map pb_call (concat (map (\<lambda>e. filter (\<lambda>p. result_count g (op_id x) (pb_call p) = 0) (entry_published e)) es))
        = map tc_id (filter (\<lambda>c. results_for g x c = {}) (concat (map entry_calls es)))"
      "map pb_result (concat (map (\<lambda>e. filter (\<lambda>p. result_count g (op_id x) (pb_call p) = 0) (entry_published e)) es))
        = map tc_result_entry (filter (\<lambda>c. results_for g x c = {}) (concat (map entry_calls es)))" for es
      by (induction es) (auto simp: entry_published_def filter_map o_def none)
    ultimately show ?thesis
      using pub by (simp add: op_calls_def)
  qed
  ultimately show ?thesis using dist unique by blast
qed

text \<open>C8: Exactly-once accounting of tool calls. In an accepted graph an operation publishes no call id twice, and every
  published call has at most one result, which has the reserved identity. A terminal operation has
  a result for each call. The pending list of a running operation is exactly the calls without a result, in publication
  order with their reservations.\<close>

theorem calls_settle_exactly_once:
  assumes "validate_graph sid g = Inr ()" "x \<in> set (g_operations g)"
  shows "distinct (map tc_id (op_calls g x))
    \<and> (\<forall>c \<in> set (op_calls g x). \<forall>e \<in> results_for g x c. ge_id e = tc_result_entry c \<and> results_for g x c = {e})
    \<and> (\<not> is_running x \<longrightarrow> (\<forall>c \<in> set (op_calls g x). results_for g x c \<noteq> {}))
    \<and> (is_running x \<longrightarrow>
         map pc_call (os_pending (or_state x)) = map tc_id (filter (\<lambda>c. results_for g x c = {}) (op_calls g x)) \<and>
         map pc_result_entry (os_pending (or_state x)) =
           map tc_result_entry (filter (\<lambda>c. results_for g x c = {}) (op_calls g x)))"
  using calls_settle [OF assms] .

section \<open>An accepted graph\<close>

definition sample_ref :: model_ref where
  "sample_ref = \<lparr>provider = ''p'', model_name = ''m''\<rparr>"

definition sample_count :: usage_count where
  "sample_count = \<lparr>in_tokens = 5, cached_tokens = 0, out_tokens = 7\<rparr>"

definition sample_evidence :: request_evidence where
  "sample_evidence = \<lparr>ev_checkpoint = [], ev_boundary = ''i'', ev_prompt = [], ev_messages = [],
     ev_tool_names = [], ev_hooks = []\<rparr>"

definition sample_graph_entries :: "graph_entry list" where
  "sample_graph_entries =
     [\<lparr>ge_env = sample_env ''i'' 1 ''o'' KindInput, ge_payload = PInput \<lparr>in_session = ''s'', in_entry = ''i'',
        in_operation = ''o'', in_origin = OriginUser, in_content = []\<rparr>\<rparr>,
      \<lparr>ge_env = sample_env ''a'' 2 ''o'' KindAssistant, ge_payload = PAssistant
        ((sample_assistant ''a'' [sample_call ''c'' ''t''])\<lparr>as_evidence := Some sample_evidence, as_usage := Some sample_count\<rparr>)\<rparr>,
      \<lparr>ge_env = sample_env ''t'' 3 ''o'' KindToolResult, ge_payload = PToolResult \<lparr>tr_session = ''s'', tr_entry = ''t'',
        tr_operation = ''o'', tr_assistant = \<lparr>er_session = ''s'', er_entry = ''a''\<rparr>, tr_call = ''c'',
        tr_status = ResultSuccess, tr_content = [], tr_original = [], tr_shaping_failure = [],
        tr_evidence = EvidenceObserved, tr_metadata = NoBytes, tr_normalized = NoBytes, tr_hooks = []\<rparr>\<rparr>,
      \<lparr>ge_env = sample_env ''z'' 4 ''o'' KindSettlement, ge_payload = PSettlement \<lparr>st_session = ''s'', st_entry = ''z'',
        st_operation = ''o'', st_status = OpSuccess, st_detail = [], st_model = None, st_usage = None,
        st_compaction_usage = False, st_request = [], st_consumed_request = [], st_evidence = None, st_facts = []\<rparr>\<rparr>]"

definition sample_operation :: operation_record where
  "sample_operation = \<lparr>or_revision = 2,
     or_admission = \<lparr>oa_session = ''s'', oa_operation = ''o'', oa_kind = RequestMessage,
       oa_admitted = \<lparr>er_session = ''s'', er_entry = ''i''\<rparr>, oa_agent_type = ''main'',
       oa_execution = \<lparr>xc_revision = ''1'', xc_model = sample_ref, xc_context_window = 0, xc_output_reserve = 0,
         xc_prompt = [], xc_tools = [], xc_capabilities = [], xc_readonly = False, xc_write_dir = [], xc_pricing = None,
         xc_compact = \<lparr>cc_model = sample_ref, cc_prompt = [], cc_pricing = None\<rparr>,
         xc_strategy = \<lparr>sc_id = ''x'', sc_settings = NoBytes, sc_requires_window = False\<rparr>\<rparr>,
       oa_admitted_at = 0\<rparr>,
     or_state = \<lparr>os_status = OpSuccess, os_started_at = 0, os_settled_at = Some 1, os_effect = None, os_request = None,
       os_pending = [], os_usage = [\<lparr>mu_model = sample_ref, mu_usage = sample_count\<rparr>],
       os_terminal = Some \<lparr>ot_settlement = \<lparr>er_session = ''s'', er_entry = ''z''\<rparr>, ot_detail = []\<rparr>,
       os_unreported = False\<rparr>\<rparr>"

definition sample_graph :: session_graph where
  "sample_graph = \<lparr>g_session = \<lparr>sr_revision = 3,
       sr_identity = \<lparr>si_session = ''s'', si_workspace = ''/w'', si_created = 0, si_source_session = [],
         si_source_boundary = [], si_parent = []\<rparr>,
       sr_state = \<lparr>ss_lifecycle = LifecycleOpen, ss_archived_at = None, ss_agent_type = ''main'',
         ss_current_operation = [], ss_checkpoint = [], ss_usage = [\<lparr>mu_model = sample_ref, mu_usage = sample_count\<rparr>],
         ss_last_activity = 1\<rparr>\<rparr>,
     g_operations = [sample_operation], g_entries = sample_graph_entries\<rparr>"

lemmas sample_parts = sample_graph_def sample_operation_def sample_graph_entries_def sample_evidence_def sample_env_def
  sample_assistant_def sample_call_def

lemma sample_entry_ids:
  "entry_by_id sample_graph ''i'' = Some (sample_graph_entries ! 0)"
  "entry_by_id sample_graph ''a'' = Some (sample_graph_entries ! 1)"
  "entry_by_id sample_graph ''t'' = Some (sample_graph_entries ! 2)"
  "entry_by_id sample_graph ''z'' = Some (sample_graph_entries ! 3)"
  by (simp_all add: entry_by_id_def entries_by_id_def sample_graph_def sample_graph_entries_def sample_env_def)

lemma sample_entries_of: "entries_of sample_graph ''o'' = sample_graph_entries"
  by (simp add: entries_of_def sample_parts)

lemma sample_state: "validate_session_state sample_graph = Inr ()"
  by (simp add: validate_session_state_def sample_graph_def sample_operation_def is_running_def)

lemma sample_ownership: "validate_entry_ownership sample_graph = Inr ()"
  by (simp add: validate_entry_ownership_def validate_owner_def find_operation_def is_input_def sample_parts)

lemma sample_reservations:
  "collect_reservations sample_graph =
     Inr [\<lparr>rs_result = ''t'', rs_call = ''c'', rs_assistant = ''a'', rs_operation = ''o''\<rparr>]"
  by (simp add: collect_reservations_def entry_reservations_def entry_calls_def sample_parts)

lemma sample_reserved:
  "validate_reservations sample_graph [\<lparr>rs_result = ''t'', rs_call = ''c'', rs_assistant = ''a'', rs_operation = ''o''\<rparr>] = Inr ()"
  by (simp add: validate_reservations_def validate_reservation_def sample_entry_ids)
    (simp add: sample_graph_entries_def sample_env_def)

lemma sample_prefix: "validate_fork_prefix sample_graph = Inr ()"
  by (simp add: validate_fork_prefix_def copied_entries_def is_fork_def sample_parts)

lemma sample_references: "validate_entry_references ''s'' sample_graph = Inr ()"
  by (simp add: validate_entry_references_def validate_reference_def Let_def sample_parts)

lemma sample_admission: "validate_admission ''s'' sample_graph sample_operation = Inr ()"
  by (simp add: validate_admission_def sample_operation_def sample_entry_ids Let_def)
    (simp add: sample_graph_entries_def sample_env_def)

lemma sample_published:
  "collect_published sample_graph ''o'' = Inr [\<lparr>pb_call = ''c'', pb_assistant = ''a'', pb_result = ''t''\<rparr>]"
  by (simp add: collect_published_def sample_entries_of)
    (simp add: entry_published_def entry_calls_def sample_parts)

lemma sample_results:
  "collect_tool_results ''s'' sample_graph ''o'' [\<lparr>pb_call = ''c'', pb_assistant = ''a'', pb_result = ''t''\<rparr>] = Inr ()"
  by (simp add: collect_tool_results_def sample_entries_of)
    (simp add: check_tool_result_def published_by_call_def sample_parts)

lemma sample_hooks:
  "collect_hook_results sample_graph ''o'' [\<lparr>pb_call = ''c'', pb_assistant = ''a'', pb_result = ''t''\<rparr>] =
     Inr \<lparr>settled_hooks = [], last_status = [], successful = []\<rparr>"
  by (simp add: collect_hook_results_def sample_entries_of)
    (simp add: check_hook_def check_result_selection_def sample_parts)

lemma sample_terminal:
  "validate_terminal ''s'' sample_graph sample_operation [\<lparr>pb_call = ''c'', pb_assistant = ''a'', pb_result = ''t''\<rparr>] = Inr ()"
proof -
  have "result_count sample_graph ''o'' ''c'' = 1" "length (settlements_of sample_graph ''o'') = 1"
    by (simp_all add: result_count_def settlements_of_def sample_entries_of)
      (simp_all add: answers_def sample_parts)
  then show ?thesis
    by (simp add: validate_terminal_def check_resolved_def check_settlement_def sample_operation_def sample_entry_ids)
      (simp add: sample_graph_entries_def sample_env_def)
qed

lemma sample_requests: "collect_request_domain ''s'' sample_graph sample_operation = Inr ()"
proof -
  have refs: "validate_evidence_refs sample_graph ''a'' (Some sample_evidence) (sample_env ''a'' 2 ''o'' KindAssistant) = Inr ()"
    by (simp add: validate_evidence_refs_def validate_evidence_checkpoint_def validate_evidence_names_def find_operation_def
        sample_evidence_def sample_entry_ids late_def split: option.splits)
      (simp add: sample_graph_entries_def sample_env_def conversation_bearing_def)
  have none: "request_results sample_graph ''o'' r = []" for r
    by (simp add: request_results_def sample_entries_of) (simp add: sample_parts)
  have run: "fold_result (check_request_entry sample_graph ''o'' True) \<lparr>failed_requests = [], answered = []\<rparr> sample_graph_entries
      = Inr \<lparr>failed_requests = [], answered = [(''r'', ''a'')]\<rparr>"
    using refs none
    by (simp add: sample_graph_entries_def check_request_entry_def check_assistant_request_def check_settlement_request_def
        validate_hook_order_def hook_limit_def sample_assistant_def)
      (simp add: sample_env_def sample_evidence_def)
  show ?thesis
    by (simp add: collect_request_domain_def sample_operation_def sample_entries_of run)
      (simp add: check_effect_request_def validate_running_request_def sample_graph_entries_def entry_facts_def)
qed

lemma sample_usage: "validate_usage sample_graph = Inr ()"
proof -
  have add: "add_usage_count zero_count sample_count = Inr sample_count"
    by (simp add: add_usage_count_ok count_sum_def zero_count_def)
  have "fold_result record_entry_usage \<lparr>session_counts = [], operation_counts = []\<rparr> sample_graph_entries =
      Inr \<lparr>session_counts = [(sample_ref, sample_count)], operation_counts = [(''o'', [(sample_ref, sample_count)])]\<rparr>"
    using add
    by (simp add: sample_graph_entries_def record_entry_usage_def entry_usage_def entry_facts_def record_usage_def
        add_count_def count_in_def op_counts_def sample_assistant_def sample_ref_def [symmetric])
      (simp add: sample_env_def)
  then show ?thesis
    by (simp add: validate_usage_def sample_graph_def op_counts_def sample_operation_def totals_of_counts_def sort_usage_totals_def)
qed

lemma sample_graph_accepted: "validate_graph ''s'' sample_graph = Inr ()"
proof -
  have ids: "op_id sample_operation = ''o''" "\<not> is_running sample_operation"
    by (simp_all add: sample_operation_def is_running_def)
  have "validate_operation ''s'' sample_graph rs sample_operation = Inr ()" for rs
    by (simp add: validate_operation_def sample_admission ids sample_published sample_results sample_hooks sample_terminal
        sample_requests)
  moreover have "g_operations sample_graph = [sample_operation]" by (simp add: sample_graph_def)
  moreover have "duplicate_free [] (map ge_id (g_entries sample_graph)) = Inr ()"
    by (simp add: sample_graph_def sample_graph_entries_def sample_env_def)
  ultimately show ?thesis
    by (simp add: validate_graph_def sample_state sample_ownership sample_reservations sample_reserved
        sample_prefix sample_references sample_usage)
qed

theorem running_operation_is_current_witness:
  "is_running sample_operation =
     (ss_current_operation (sr_state (g_session sample_graph)) \<noteq> [] \<and>
      op_id sample_operation = ss_current_operation (sr_state (g_session sample_graph)))"
proof -
  have "sample_operation \<in> set (g_operations sample_graph)" by (simp add: sample_graph_def)
  with running_operation_is_current [OF sample_graph_accepted] show ?thesis by blast
qed

theorem reservations_unique_witness: "distinct (map tc_result_entry (all_calls sample_graph))"
  by (rule reservations_unique) (rule sample_graph_accepted)

theorem calls_settle_exactly_once_witness:
  "op_calls sample_graph sample_operation = [sample_call ''c'' ''t''] \<and>
     results_for sample_graph sample_operation (sample_call ''c'' ''t'') \<noteq> {}"
proof -
  have calls: "op_calls sample_graph sample_operation = [sample_call ''c'' ''t'']"
    by (simp add: op_calls_def sample_operation_def sample_entries_of)
      (simp add: entry_calls_def sample_graph_entries_def sample_assistant_def)
  have mem: "sample_operation \<in> set (g_operations sample_graph)" by (simp add: sample_graph_def)
  have "\<not> is_running sample_operation" by (simp add: sample_operation_def is_running_def)
  with calls_settle_exactly_once [OF sample_graph_accepted mem] calls show ?thesis by simp
qed

section \<open>The copied prefix\<close>

lemma foldr_min_le: "x \<in> set xs \<Longrightarrow> foldr min xs b \<le> (x :: int)"
  by (induction xs) (auto simp: min_le_iff_disj)

lemma foldr_max_ge: "x \<in> set xs \<Longrightarrow> (x :: int) \<le> foldr max xs b"
  by (induction xs) (auto simp: le_max_iff_disj)

text \<open>In an accepted graph every entry without an owner, background completions apart, is in a fork and its sequence is below
  that of every owned entry: the copied history is a strict prefix.\<close>

theorem copied_entries_are_prefix:
  assumes "validate_graph sid g = Inr ()" "e \<in> set (g_entries g)" "ge_op e = []" "\<not> exempt_signal e"
  shows "is_fork g \<and> (\<forall>f \<in> set (g_entries g). ge_op f \<noteq> [] \<longrightarrow> ge_seq e < ge_seq f)"
proof -
  have ok: "validate_fork_prefix g = Inr ()" using validate_graph_parts [OF assms(1)] by metis
  have e: "e \<in> set (copied_entries g)" using assms by (simp add: copied_entries_def)
  then have fork: "is_fork g" using ok by (auto simp: validate_fork_prefix_def Let_def split: if_splits)
  have "ge_seq e < ge_seq f" if "f \<in> set (g_entries g)" "ge_op f \<noteq> []" for f
  proof -
    have f: "f \<in> set (owned_entries g)" using that by (simp add: owned_entries_def)
    have "foldr max (map ge_seq (copied_entries g)) (ge_seq (hd (copied_entries g))) <
        foldr min (map ge_seq (owned_entries g)) (ge_seq (hd (owned_entries g)))"
      using ok fork e f by (auto simp: validate_fork_prefix_def Let_def split: if_splits)
    moreover have "ge_seq e \<le> foldr max (map ge_seq (copied_entries g)) (ge_seq (hd (copied_entries g)))"
      using e by (intro foldr_max_ge) simp
    moreover have "foldr min (map ge_seq (owned_entries g)) (ge_seq (hd (owned_entries g))) \<le> ge_seq f"
      using f by (intro foldr_min_le) simp
    ultimately show ?thesis by linarith
  qed
  with fork show ?thesis by blast
qed

section \<open>Terminal operations\<close>

text \<open>A terminal operation of an accepted graph owns exactly one settlement entry; it is the one its register names, and
  status and detail agree.\<close>

theorem terminal_operation_settled:
  assumes "validate_graph sid g = Inr ()" "x \<in> set (g_operations g)" "\<not> is_running x"
  shows "\<exists>e s t. settlements_of g (op_id x) = [e] \<and> ge_payload e = PSettlement s \<and>
    os_terminal (or_state x) = Some t \<and> er_entry (ot_settlement t) = ge_id e \<and>
    st_status s = os_status (or_state x) \<and> st_detail s = ot_detail t"
proof -
  obtain rs where d: "distinct (map ge_id (g_entries g))" "distinct (map op_id (g_operations g))"
    and own: "validate_entry_ownership g = Inr ()" and vop: "validate_operation sid g rs x = Inr ()"
    using validate_graph_parts [OF assms(1)] assms(2) by metis
  obtain ps where "validate_terminal sid g x ps = Inr ()"
    using validate_operation_parts [OF vop] assms(3) by metis
  then obtain t where one: "length (settlements_of g (op_id x)) = 1" and t: "os_terminal (or_state x) = Some t"
    and s: "check_settlement sid g x t = Inr ()"
    by (auto simp: validate_terminal_def res_simps split: option.splits)
  then obtain e st where e: "entry_by_id g (er_entry (ot_settlement t)) = Some e" "ge_op e = op_id x"
    "ge_payload e = PSettlement st" "st_status st = os_status (or_state x)" "st_detail st = ot_detail t"
    by (auto simp: check_settlement_def res_simps split: option.splits if_splits)
  have ge: "e \<in> set (g_entries g)" "ge_id e = er_entry (ot_settlement t)"
    using e(1) entry_by_id_Some [OF d(1)] by auto
  obtain f where f: "settlements_of g (op_id x) = [f]" using one by (cases "settlements_of g (op_id x)") auto
  have "op_id x \<noteq> []"
  proof
    assume "op_id x = []"
    then have "settlements_of g (op_id x) = []" by (simp add: settlements_of_def entries_of_def)
    with f show False by simp
  qed
  with ge e have "e \<in> set (settlements_of g (op_id x))"
    by (simp add: settlements_of_def entries_of_in)
  with f have "e = f" by simp
  with f e t ge show ?thesis by auto
qed

theorem terminal_operation_settled_witness:
  "\<exists>e s t. settlements_of sample_graph (op_id sample_operation) = [e] \<and> ge_payload e = PSettlement s \<and>
    os_terminal (or_state sample_operation) = Some t \<and> er_entry (ot_settlement t) = ge_id e \<and>
    st_status s = os_status (or_state sample_operation) \<and> st_detail s = ot_detail t"
  by (rule terminal_operation_settled [OF sample_graph_accepted])
    (simp_all add: sample_graph_def sample_operation_def is_running_def)

definition sample_copy :: graph_entry where
  "sample_copy = \<lparr>ge_env = sample_env ''i'' 1 [] KindInput, ge_payload = PInput \<lparr>in_session = ''s'', in_entry = ''i'',
     in_operation = [], in_origin = OriginUser, in_content = []\<rparr>\<rparr>"

definition sample_summary :: graph_entry where
  "sample_summary = \<lparr>ge_env = sample_env ''k'' 2 [] KindCompaction, ge_payload = PCompaction \<lparr>ck_session = ''s'',
     ck_entry = ''k'', ck_operation = [], ck_strategy = ''x'', ck_messages = [], ck_boundary = ''i'', ck_revision = ''1'',
     ck_facts = [], ck_consumed_request = [], ck_evidence = Some sample_evidence\<rparr>\<rparr>"

definition sample_fork :: session_graph where
  "sample_fork = \<lparr>g_session = \<lparr>sr_revision = 1,
       sr_identity = \<lparr>si_session = ''s'', si_workspace = ''/w'', si_created = 0, si_source_session = ''q'',
         si_source_boundary = ''j'', si_parent = []\<rparr>,
       sr_state = \<lparr>ss_lifecycle = LifecycleOpen, ss_archived_at = None, ss_agent_type = ''main'',
         ss_current_operation = [], ss_checkpoint = ''k'', ss_usage = [], ss_last_activity = 1\<rparr>\<rparr>,
     g_operations = [], g_entries = [sample_copy, sample_summary]\<rparr>"

lemma sample_fork_ids:
  "entry_by_id sample_fork ''i'' = Some sample_copy" "entry_by_id sample_fork ''k'' = Some sample_summary"
  by (simp_all add: entry_by_id_def entries_by_id_def sample_fork_def sample_copy_def sample_summary_def sample_env_def)

lemma sample_fork_entries: "g_entries sample_fork = [sample_copy, sample_summary]" "g_operations sample_fork = []"
  by (simp_all add: sample_fork_def)

lemma sample_fork_cuts: "build_cut_safety [sample_copy, sample_summary] = Map.empty"
  by (simp add: build_cut_safety_def entry_calls_def cut_verdict_def cut_start_def sample_copy_def sample_summary_def sample_env_def)

lemma sample_fork_reference: "validate_entry_references ''s'' sample_fork = Inr ()"
proof -
  have refs: "validate_evidence_refs sample_fork ''k'' (Some sample_evidence) (sample_env ''k'' 2 [] KindCompaction) = Inr ()"
    by (simp add: validate_evidence_refs_def sample_evidence_def sample_fork_ids validate_evidence_checkpoint_def sample_env_def
        late_def sample_copy_def conversation_bearing_def)
  have "validate_reference ''s'' sample_fork Map.empty sample_copy = Inr ()"
    by (simp add: validate_reference_def sample_copy_def)
  moreover have "validate_reference ''s'' sample_fork Map.empty sample_summary = Inr ()"
    using refs
    by (simp add: validate_reference_def validate_checkpoint_cut_def sample_summary_def sample_fork_ids)
      (simp add: sample_copy_def sample_env_def)
  ultimately show ?thesis
    by (simp add: validate_entry_references_def sample_fork_entries sample_fork_cuts)
qed

lemma sample_fork_accepted: "validate_graph ''s'' sample_fork = Inr ()"
proof -
  have "collect_reservations sample_fork = Inr []"
    by (simp add: collect_reservations_def sample_fork_entries entry_reservations_def entry_calls_def sample_copy_def sample_summary_def)
  moreover have "validate_session_state sample_fork = Inr ()"
    by (simp add: validate_session_state_def sample_fork_entries)
      (simp add: sample_fork_def sample_summary_def sample_fork_ids [unfolded sample_fork_def sample_summary_def])
  moreover have "validate_fork_prefix sample_fork = Inr ()"
    by (simp add: validate_fork_prefix_def owned_entries_def is_fork_def sample_fork_entries)
      (simp add: sample_fork_def sample_copy_def sample_summary_def sample_env_def)
  moreover have "validate_usage sample_fork = Inr ()"
    by (simp add: validate_usage_def sample_fork_entries)
      (simp add: record_entry_usage_def entry_usage_def entry_facts_def sample_copy_def sample_summary_def
        totals_of_counts_def sort_usage_totals_def sample_fork_def)
  moreover have "duplicate_free [] (map ge_id (g_entries sample_fork)) = Inr ()"
    by (simp add: sample_fork_entries sample_copy_def sample_summary_def sample_env_def)
  moreover have "validate_entry_ownership sample_fork = Inr ()"
    by (simp add: validate_entry_ownership_def sample_fork_entries validate_owner_def sample_copy_def sample_summary_def sample_env_def)
  ultimately show ?thesis
    by (simp add: validate_graph_def sample_fork_entries sample_fork_reference validate_reservations_def)
qed

theorem copied_entries_are_prefix_witness: "is_fork sample_fork \<and> sample_copy \<in> set (g_entries sample_fork)"
proof -
  have mem: "sample_copy \<in> set (g_entries sample_fork)" by (simp add: sample_fork_entries)
  moreover have "ge_op sample_copy = []" "\<not> exempt_signal sample_copy"
    by (simp_all add: sample_copy_def sample_env_def exempt_signal_def)
  ultimately show ?thesis using copied_entries_are_prefix [OF sample_fork_accepted] by blast
qed

section \<open>Checkpoints\<close>

lemma cut_is_safe:
  assumes "validate_graph sid g = Inr ()" "wf_calls (g_entries g)"
    and "e \<in> set (g_entries g)" "ge_payload e = PCompaction c"
  shows "\<exists>i < length (g_entries g). ge_id (g_entries g ! i) = ck_boundary c \<and> ge_seq (g_entries g ! i) < ge_seq e \<and>
    (\<forall>k \<in> set (calls_upto (g_entries g) i). \<exists>r \<in> set (g_entries g).
       ge_id r = tc_result_entry k \<and> ge_seq r \<le> ge_seq (g_entries g ! i))"
proof -
  obtain rs where d: "distinct (map ge_id (g_entries g))" and refs: "validate_entry_references sid g = Inr ()"
    using validate_graph_parts [OF assms(1)] by metis
  define table where "table = build_cut_safety (g_entries g)"
  have "validate_checkpoint_cut g table e c = Inr ()"
    using refs assms(3,4) by (auto simp: validate_entry_references_def res_simps validate_reference_def table_def Let_def)
  then obtain b where b: "entry_by_id g (ck_boundary c) = Some b" "ge_seq b < ge_seq e" "table (ck_boundary c) = None"
    by (auto simp: validate_checkpoint_cut_def split: option.splits if_splits)
  then have "b \<in> set (g_entries g)" "ge_id b = ck_boundary c" using entry_by_id_Some [OF d] by auto
  then obtain i where i: "i < length (g_entries g)" "g_entries g ! i = b" by (auto simp: in_set_conv_nth)
  have "table (ge_id (g_entries g ! i)) = None" using b i \<open>ge_id b = ck_boundary c\<close> by simp
  then have safe: "\<forall>k \<in> set (calls_upto (g_entries g) i). \<not> straddles (entries_by_id (g_entries g)) (ge_seq b) k"
    using cut_pass_spec [OF cut_inv_start assms(2) d i(1), of "entries_by_id (g_entries g)" Map.empty] i(2)
    by (simp add: table_def build_cut_safety_def)
  have "\<exists>r \<in> set (g_entries g). ge_id r = tc_result_entry k \<and> ge_seq r \<le> ge_seq b"
    if k: "k \<in> set (calls_upto (g_entries g) i)" for k
  proof -
    obtain r where r: "entry_by_id g (tc_result_entry k) = Some r" "ge_seq r \<le> ge_seq b"
      using bspec [OF safe k] by (auto simp: straddles_def entry_by_id_def not_less split: option.splits)
    with entry_by_id_Some [OF d] show ?thesis by blast
  qed
  with i b \<open>ge_id b = ck_boundary c\<close> show ?thesis by (intro exI [of _ i]) simp
qed

text \<open>C22: A checkpoint of an accepted graph never separates a tool call from its result: its boundary is an entry
  before it, and every call published up to that boundary has a committed result that is not behind it.\<close>

theorem checkpoint_cut_is_safe:
  assumes "validate_graph sid g = Inr ()" "wf_calls (g_entries g)"
    and "e \<in> set (g_entries g)" "ge_payload e = PCompaction c"
  shows "\<exists>i < length (g_entries g). ge_id (g_entries g ! i) = ck_boundary c \<and> ge_seq (g_entries g ! i) < ge_seq e \<and>
    (\<forall>k \<in> set (calls_upto (g_entries g) i). \<exists>r \<in> set (g_entries g).
       ge_id r = tc_result_entry k \<and> ge_seq r \<le> ge_seq (g_entries g ! i))"
  using cut_is_safe [OF assms] .

theorem checkpoint_cut_is_safe_witness:
  "\<exists>i. ge_id (g_entries sample_fork ! i) = ''i'' \<and> ge_seq (g_entries sample_fork ! i) < ge_seq sample_summary"
proof -
  have wf: "wf_calls (g_entries sample_fork)"
    by (simp add: wf_calls_def sample_fork_entries sample_copy_def sample_summary_def sample_env_def entry_calls_def)
  obtain c where c: "ge_payload sample_summary = PCompaction c" "ck_boundary c = ''i''"
    by (simp add: sample_summary_def)
  have mem: "sample_summary \<in> set (g_entries sample_fork)" by (simp add: sample_fork_entries)
  from checkpoint_cut_is_safe [OF sample_fork_accepted wf mem c(1)] c(2) show ?thesis by auto
qed

section \<open>Provenance of hooks\<close>

definition hook_ident :: "graph_entry \<Rightarrow> hook_identity" where
  "hook_ident e =
     (case the_hook_result (ge_payload e) of
        Some r \<Rightarrow> \<lparr>hi_extension = hr_extension r, hi_hook = hr_hook r\<rparr>
      | None \<Rightarrow> \<lparr>hi_extension = [], hi_hook = []\<rparr>)"

definition hook_results :: "graph_entry list \<Rightarrow> bool" where
  "hook_results rs \<longleftrightarrow> (\<forall>r \<in> set rs. the_hook_result (ge_payload r) \<noteq> None) \<and> distinct (map hook_ident rs)"

lemma hook_named_ident: "the_hook_result (ge_payload r) \<noteq> None \<Longrightarrow> hook_named h r \<longleftrightarrow> h = hook_ident r"
  by (cases h) (auto simp: hook_named_def hook_ident_def)

lemma index_where_Some:
  "index_where p xs = Some i \<longleftrightarrow> i < length xs \<and> p (xs ! i) \<and> (\<forall>j < i. \<not> p (xs ! j))"
  by (induction xs arbitrary: i) (auto simp: less_Suc_eq_0_disj nth_Cons split: nat.splits)

lemma index_where_None: "index_where p xs = None \<longleftrightarrow> (\<forall>x \<in> set xs. \<not> p x)"
  by (induction xs) auto

lemma index_of_ident:
  assumes "hook_results rs" "i < length rs"
  shows "index_where (hook_named (hook_ident (rs ! i))) rs = Some i"
proof -
  have named: "hook_named h (rs ! j) \<longleftrightarrow> h = hook_ident (rs ! j)" if "j < length rs" for h j
    using assms(1) that by (intro hook_named_ident) (simp add: hook_results_def)
  have "hook_ident (rs ! i) \<noteq> hook_ident (rs ! j)" if "j < i" for j
    using assms that nth_eq_iff_index_eq [of "map hook_ident rs" i j] by (auto simp: hook_results_def)
  with assms(2) named show ?thesis by (simp add: index_where_Some)
qed

lemma hook_order_from_ok:
  assumes "hook_results rs" "limit \<le> length rs"
  shows "nxt \<le> limit \<Longrightarrow> hook_order_from rs limit nxt hs = Inr n \<longleftrightarrow>
     nxt \<le> n \<and> n \<le> limit \<and> filter (\<lambda>h. h \<in> hook_ident ` set rs) hs = map hook_ident (drop nxt (take n rs))"
proof (induction hs arbitrary: nxt)
  case Nil
  show ?case using Nil assms(2) by auto
next
  case (Cons h hs)
  have named: "(\<exists>r \<in> set rs. hook_named h r) \<longleftrightarrow> h \<in> hook_ident ` set rs"
    using assms(1) hook_named_ident by (fastforce simp: hook_results_def)
  show ?case
  proof (cases "h \<in> hook_ident ` set rs")
    case False
    then have "index_where (hook_named h) rs = None" using named by (auto simp: index_where_None)
    with False Cons show ?thesis by simp
  next
    case True
    then obtain i where i: "i < length rs" "h = hook_ident (rs ! i)" by (auto simp: in_set_conv_nth)
    have idx: "index_where (hook_named h) rs = Some i" using index_of_ident [OF assms(1) i(1)] i(2) by simp
    have head: "drop nxt (take n rs) = rs ! nxt # drop (Suc nxt) (take n rs)" if "nxt < n" "n \<le> limit" for n
      using that assms(2) by (simp add: Cons_nth_drop_Suc [symmetric])
    have same: "hook_ident (rs ! i) = hook_ident (rs ! nxt) \<longleftrightarrow> i = nxt" if "nxt < limit"
      using that assms i(1) nth_eq_iff_index_eq [of "map hook_ident rs" i nxt] by (auto simp: hook_results_def)
    show ?thesis
    proof (cases "i = nxt \<and> i < limit")
      case True
      then have "hook_order_from rs limit nxt (h # hs) = Inr n \<longleftrightarrow> hook_order_from rs limit (Suc nxt) hs = Inr n"
        using idx by simp
      also have "\<dots> \<longleftrightarrow> Suc nxt \<le> n \<and> n \<le> limit \<and>
          filter (\<lambda>h. h \<in> hook_ident ` set rs) hs = map hook_ident (drop (Suc nxt) (take n rs))"
        using True by (intro Cons.IH) simp
      finally have step: "hook_order_from rs limit nxt (h # hs) = Inr n \<longleftrightarrow> Suc nxt \<le> n \<and> n \<le> limit \<and>
          filter (\<lambda>h. h \<in> hook_ident ` set rs) hs = map hook_ident (drop (Suc nxt) (take n rs))" .
      show ?thesis
      proof (cases "nxt < n \<and> n \<le> limit")
        case True
        with step head i(2) \<open>i = nxt \<and> i < limit\<close> \<open>h \<in> hook_ident ` set rs\<close> show ?thesis by (simp del: hook_order_from.simps)
      next
        case False
        then have "\<not> (nxt \<le> n \<and> n \<le> limit) \<or> drop nxt (take n rs) = []" by auto
        with False step \<open>h \<in> hook_ident ` set rs\<close> show ?thesis by (auto simp del: hook_order_from.simps)
      qed
    next
      case False
      then have "hook_order_from rs limit nxt (h # hs) \<noteq> Inr n" using idx by auto
      moreover have "\<not> (nxt \<le> n \<and> n \<le> limit \<and> h # filter (\<lambda>h. h \<in> hook_ident ` set rs) hs = map hook_ident (drop nxt (take n rs)))"
      proof
        assume *: "nxt \<le> n \<and> n \<le> limit \<and> h # filter (\<lambda>h. h \<in> hook_ident ` set rs) hs = map hook_ident (drop nxt (take n rs))"
        then have "nxt < n" by (cases "nxt = n") auto
        then have "drop nxt (take n rs) = rs ! nxt # drop (Suc nxt) (take n rs)" using * head by blast
        with * have "h = hook_ident (rs ! nxt)" by simp
        with same i(2) * \<open>nxt < n\<close> have "i = nxt" by simp
        with False * \<open>nxt < n\<close> show False by simp
      qed
      ultimately show ?thesis using True by simp
    qed
  qed
qed

lemma hook_limit_le: "hook_limit rs owner \<le> length rs"
  by (auto simp: hook_limit_def index_where_Some split: option.splits)

text \<open>The order rule for recorded hook identities is the specification. For committed hook results of
  distinct identities, recorded identities are accepted exactly when those among them that have a committed result are
  the identities of the results before the consumer, each once and in commit order; others may stand anywhere.\<close>

theorem hook_order_complete_and_ordered:
  assumes "hook_results rs"
  shows "validate_hook_order hs rs owner = Inr () \<longleftrightarrow>
    filter (\<lambda>h. h \<in> hook_ident ` set rs) hs = map hook_ident (take (hook_limit rs owner) rs)"
proof -
  have "validate_hook_order hs rs owner = Inr () \<longleftrightarrow>
      hook_order_from rs (hook_limit rs owner) 0 hs = Inr (hook_limit rs owner)"
    by (auto simp: validate_hook_order_def res_simps)
  also have "\<dots> \<longleftrightarrow> filter (\<lambda>h. h \<in> hook_ident ` set rs) hs = map hook_ident (take (hook_limit rs owner) rs)"
    using hook_order_from_ok [OF assms hook_limit_le, of 0 owner hs "hook_limit rs owner"] by simp
  finally show ?thesis .
qed

definition sample_hook_entry :: graph_entry where
  "sample_hook_entry = \<lparr>ge_env = sample_env ''h'' 3 ''o'' KindHookResult, ge_payload = PHookResult \<lparr>hr_session = ''s'',
     hr_entry = ''h'', hr_operation = ''o'', hr_hook = ''k'', hr_extension = ''x'', hr_tool_call = ''c'', hr_request = [],
     hr_status = HookSucceeded, hr_evidence = EvidenceObserved, hr_arguments = NoBytes, hr_error = [],
     hr_input_base64 = [], hr_input_evidence = None, hr_consequence = None\<rparr>\<rparr>"

theorem hook_order_complete_and_ordered_witness:
  "validate_hook_order [\<lparr>hi_extension = ''x'', hi_hook = ''k''\<rparr>] [sample_hook_entry] no_owner = Inr () \<longleftrightarrow>
    filter (\<lambda>h. h \<in> hook_ident ` set [sample_hook_entry]) [\<lparr>hi_extension = ''x'', hi_hook = ''k''\<rparr>] =
      map hook_ident (take (hook_limit [sample_hook_entry] no_owner) [sample_hook_entry])"
  by (rule hook_order_complete_and_ordered) (simp add: hook_results_def sample_hook_entry_def)

text \<open>The tool names of recorded evidence are accepted exactly when they are a subsequence of the captured catalog.\<close>

theorem evidence_names_subsequence:
  "validate_evidence_names ev x = Inr () \<longleftrightarrow> subseq (ev_tool_names ev) (map def_name (xc_tools x))"
proof -
  have "evidence_names ns ts \<longleftrightarrow> subseq ns ts" for ns ts
    by (induction ns ts rule: evidence_names.induct) auto
  then show ?thesis by (simp add: validate_evidence_names_def res_simps)
qed

section \<open>Totals\<close>

text \<open>The reported counts of a model among some producers, as integers, for one field \<open>f\<close> of the counts.\<close>

definition usage_sum :: "(usage_count \<Rightarrow> int64) \<Rightarrow> model_ref \<Rightarrow> (model_ref option \<times> usage_count) list \<Rightarrow> int" where
  "usage_sum f r ps = sum_list (map (\<lambda>(ro, u). if ro = Some r then sint (f u) else 0) ps)"

definition usage_fields :: "(usage_count \<Rightarrow> int64) set" where
  "usage_fields = {in_tokens, cached_tokens, out_tokens}"

lemma usage_sum_simps [simp]:
  "usage_sum f r [] = 0" "usage_sum f r (p # ps) = (if fst p = Some r then sint (f (snd p)) else 0) + usage_sum f r ps"
  "usage_sum f r (ps @ qs) = usage_sum f r ps + usage_sum f r qs"
  by (simp_all add: usage_sum_def case_prod_beta)

lemma count_sum_field: "f \<in> usage_fields \<Longrightarrow> count_sum a b c \<Longrightarrow> sint (f c) = sint (f a) + sint (f b)"
  by (auto simp: usage_fields_def count_sum_def)

lemma add_count_ok:
  assumes "add_count m r u = Inr m'" "f \<in> usage_fields"
  shows "sint (f (count_in m' q)) = sint (f (count_in m q)) + (if q = r then sint (f u) else 0)"
    and "distinct (map fst m) \<Longrightarrow> distinct (map fst m')"
proof -
  obtain s where s: "count_sum (count_in m r) u s" "m' = AList.update r s m"
    using assms(1) by (auto simp: add_count_def add_usage_count_ok split: sum.splits)
  then show "sint (f (count_in m' q)) = sint (f (count_in m q)) + (if q = r then sint (f u) else 0)"
    using count_sum_field [OF assms(2)] by (simp add: count_in_def update_conv')
  show "distinct (map fst m')" if "distinct (map fst m)"
    using that s(2) by (simp add: distinct_update)
qed

definition maps_ok :: "usage_maps \<Rightarrow> bool" where
  "maps_ok m \<longleftrightarrow> distinct (map fst (session_counts m)) \<and> (\<forall>i. distinct (map fst (op_counts m i)))"

lemma record_usage_ok:
  assumes "record_usage opid m p = Inr m'" "f \<in> usage_fields"
  shows "sint (f (count_in (session_counts m') r)) = sint (f (count_in (session_counts m) r)) + usage_sum f r [p]"
    and "sint (f (count_in (op_counts m' i) r)) =
      sint (f (count_in (op_counts m i) r)) + (if i = opid \<and> opid \<noteq> [] then usage_sum f r [p] else 0)"
    and "maps_ok m \<Longrightarrow> maps_ok m'"
proof -
  obtain q ops ses where p: "fst p = Some q"
    and ses: "add_count (session_counts m) q (snd p) = Inr ses"
    and ops: "(if opid = [] then Inr (operation_counts m)
        else rbind (add_count (op_counts m opid) q (snd p)) (\<lambda>c. Inr (AList.update opid c (operation_counts m)))) = Inr ops"
    and m': "m' = \<lparr>session_counts = ses, operation_counts = ops\<rparr>"
    using assms(1) by (auto simp: record_usage_def res_simps split: option.splits)
  show "sint (f (count_in (session_counts m') r)) = sint (f (count_in (session_counts m) r)) + usage_sum f r [p]"
    using add_count_ok(1) [OF ses assms(2)] p m' by simp
  have other: "op_counts m' i = op_counts m i" if "i \<noteq> opid \<or> opid = []"
    using that ops m' by (auto simp: op_counts_def res_simps update_conv' split: if_splits)
  have own: "\<exists>c. add_count (op_counts m opid) q (snd p) = Inr c \<and> op_counts m' opid = c" if "opid \<noteq> []"
    using that ops m' by (auto simp: op_counts_def res_simps update_conv')
  show "sint (f (count_in (op_counts m' i) r)) =
      sint (f (count_in (op_counts m i) r)) + (if i = opid \<and> opid \<noteq> [] then usage_sum f r [p] else 0)"
    using other own add_count_ok(1) [OF _ assms(2)] p by (cases "i = opid \<and> opid \<noteq> []") auto
  have own': "distinct (map fst (op_counts m' j))" if "\<forall>k. distinct (map fst (op_counts m k))" for j
  proof (cases "j = opid \<and> opid \<noteq> []")
    case True
    then show ?thesis using own add_count_ok(2) [OF _ assms(2)] that by auto
  next
    case False
    then have "op_counts m' j = op_counts m j"
      using ops m' by (auto simp: op_counts_def res_simps update_conv' split: if_splits)
    with that show ?thesis by simp
  qed
  show "maps_ok m'" if "maps_ok m"
    using that own' add_count_ok(2) [OF ses assms(2)] m' by (auto simp: maps_ok_def)
qed

lemma record_entry_usage_ok:
  assumes "f \<in> usage_fields"
  shows "fold_result (record_usage opid) m ps = Inr m' \<Longrightarrow>
    sint (f (count_in (session_counts m') r)) = sint (f (count_in (session_counts m) r)) + usage_sum f r ps \<and>
    sint (f (count_in (op_counts m' i) r)) =
      sint (f (count_in (op_counts m i) r)) + (if i = opid \<and> opid \<noteq> [] then usage_sum f r ps else 0) \<and>
    (maps_ok m \<longrightarrow> maps_ok m')"
proof (induction ps arbitrary: m)
  case (Cons p ps)
  then obtain m1 where m1: "record_usage opid m p = Inr m1" "fold_result (record_usage opid) m1 ps = Inr m'"
    by (auto simp: res_simps)
  from Cons.IH [OF m1(2)] record_usage_ok [OF m1(1) assms] show ?case by (auto split: if_splits)
qed simp

lemma record_entries_ok:
  assumes "f \<in> usage_fields"
  shows "fold_result record_entry_usage m es = Inr m' \<Longrightarrow>
    sint (f (count_in (session_counts m') r)) =
      sint (f (count_in (session_counts m) r)) + usage_sum f r (concat (map entry_usage es)) \<and>
    sint (f (count_in (op_counts m' i) r)) =
      sint (f (count_in (op_counts m i) r)) +
      usage_sum f r (concat (map entry_usage (filter (\<lambda>e. ge_op e = i \<and> i \<noteq> []) es))) \<and>
    (maps_ok m \<longrightarrow> maps_ok m')"
proof (induction es arbitrary: m)
  case (Cons e es)
  then obtain m1 where m1: "record_entry_usage m e = Inr m1" "fold_result record_entry_usage m1 es = Inr m'"
    by (auto simp: res_simps)
  note e = record_entry_usage_ok [OF assms m1(1) [unfolded record_entry_usage_def], of r i]
  from Cons.IH [OF m1(2)] e show ?case by (auto split: if_splits)
qed simp

definition usage_of :: "usage_totals \<Rightarrow> model_ref \<Rightarrow> usage_count" where
  "usage_of t r = (case usage_lookup t r of None \<Rightarrow> zero_count | Some u \<Rightarrow> u)"

lemma usage_of_totals: "distinct (map fst m) \<Longrightarrow> usage_of (totals_of_counts m) r = count_in m r"
  by (simp add: usage_of_def count_in_def usage_lookup_totals)

text \<open>C34: The stored totals of an accepted graph are exact. For every model, the totals of the Session and of each operation are the
  integer sums of the counts reported by the entries of the Session, or of that operation: nothing is counted
  twice, nothing is lost, and no sum has wrapped around.\<close>

theorem totals_are_sums:
  assumes "validate_graph sid g = Inr ()" "f \<in> usage_fields"
  shows "sint (f (usage_of (ss_usage (sr_state (g_session g))) r)) = usage_sum f r (concat (map entry_usage (g_entries g)))
    \<and> (\<forall>x \<in> set (g_operations g).
         sint (f (usage_of (os_usage (or_state x)) r)) = usage_sum f r (concat (map entry_usage (entries_of g (op_id x)))))"
proof -
  have ok: "validate_usage g = Inr ()" using validate_graph_parts [OF assms(1)] by metis
  obtain m where m: "fold_result record_entry_usage \<lparr>session_counts = [], operation_counts = []\<rparr> (g_entries g) = Inr m"
    and ops: "\<forall>x \<in> set (g_operations g). os_usage (or_state x) = totals_of_counts (op_counts m (op_id x))"
    and ses: "ss_usage (sr_state (g_session g)) = totals_of_counts (session_counts m)"
    using ok by (auto simp: validate_usage_def res_simps)
  have start: "maps_ok \<lparr>session_counts = [], operation_counts = []\<rparr>" by (simp add: maps_ok_def op_counts_def)
  note sums = record_entries_ok [OF assms(2) m]
  have zero: "sint (f (count_in [] q)) = 0" for q
    using assms(2) by (auto simp: usage_fields_def count_in_def zero_count_def)
  have d: "distinct (map fst (session_counts m))" "distinct (map fst (op_counts m i))" for i
    using sums start by (auto simp: maps_ok_def)
  have none: "op_counts \<lparr>session_counts = [], operation_counts = []\<rparr> i = []" for i
    by (simp add: op_counts_def)
  have "filter (\<lambda>e. ge_op e = i \<and> i \<noteq> []) (g_entries g) = entries_of g i" for i
    by (simp add: entries_of_def)
  then show ?thesis
    using sums [of r] ops ses d zero none by (simp add: usage_of_totals)
qed

theorem totals_are_sums_witness:
  "sint (in_tokens (usage_of (ss_usage (sr_state (g_session sample_graph))) sample_ref)) =
     usage_sum in_tokens sample_ref (concat (map entry_usage (g_entries sample_graph)))"
  using totals_are_sums [OF sample_graph_accepted, of in_tokens sample_ref] by (simp add: usage_fields_def)

end
