(* ===== verification/Store_Contract.thy ===== *)
theory Store_Contract
  imports Session_Data
begin

text \<open>
  The durable storage contract of the harness (\<open>src/harness/storage.go\<close>): the envelopes, the error classes, and what
  every implementation promises, as a locale. Its client lemmas are what the harness relies on: a Session only
  grows, so a reader that asks for what came after the last entry it has seen misses nothing and sees nothing twice,
  and a replacement against the revision that was read cannot overwrite a change made since.
\<close>

section \<open>The envelopes\<close>

datatype register_kind = RegisterSession | RegisterOperation | OtherRegisterKind string

record entry_draft =
  ed_session :: string
  ed_id :: string
  ed_operation :: string
  ed_kind :: entry_kind
  ed_payload :: raw

record stored_entry = envelope +
  se_payload :: raw

record register_key =
  rk_session :: string
  rk_kind :: register_kind
  rk_operation :: string

record register_draft =
  rd_key :: register_key
  rd_payload :: raw

record register =
  rg_key :: register_key
  rg_revision :: int
  rg_payload :: raw

datatype store_error =
  ErrInvalid string
| ErrNotFound string
| ErrConflict string
| ErrStorage string
| ErrCorruption string string

definition session_key :: "string \<Rightarrow> register_key" where
  "session_key sid = \<lparr>rk_session = sid, rk_kind = RegisterSession, rk_operation = []\<rparr>"

definition largest_int64 :: int where
  "largest_int64 = 2 ^ 63 - 1"

section \<open>The contract\<close>

text \<open>\<open>log s sid\<close> is what a Session holds, \<open>None\<close> when it does not exist; \<open>reg s k\<close> is the register at a key.\<close>

locale session_store =
  fixes wf :: "'s \<Rightarrow> bool"
    and log :: "'s \<Rightarrow> string \<Rightarrow> stored_entry list option"
    and reg :: "'s \<Rightarrow> register_key \<Rightarrow> register option"
    and read_entries :: "string \<Rightarrow> int \<Rightarrow> 's \<Rightarrow> store_error + stored_entry list"
    and read_register :: "register_key \<Rightarrow> 's \<Rightarrow> store_error + register"
    and insert_entry :: "entry_draft \<Rightarrow> timestamp \<Rightarrow> 's \<Rightarrow> store_error + stored_entry \<times> 's"
    and insert_register :: "register_draft \<Rightarrow> 's \<Rightarrow> store_error + register \<times> 's"
    and replace_register :: "register_key \<Rightarrow> int \<Rightarrow> raw \<Rightarrow> 's \<Rightarrow> store_error + register \<times> 's"
    and delete_session :: "string \<Rightarrow> 's \<Rightarrow> store_error + unit \<times> 's"
  assumes read_entries: "wf s \<Longrightarrow> read_entries sid after s = Inr out \<longleftrightarrow>
        sid \<noteq> [] \<and> 0 \<le> after \<and> (\<exists>es. log s sid = Some es \<and> out = filter (\<lambda>e. after < en_sequence e) es)"
    and read_register: "wf s \<Longrightarrow> read_register k s = Inr r \<longleftrightarrow> reg s k = Some r"
    and log_increasing: "wf s \<Longrightarrow> log s sid = Some es \<Longrightarrow> sorted_wrt (<) (map en_sequence es) \<and> (\<forall>e \<in> set es. 0 < en_sequence e)"
    and insert_entry: "wf s \<Longrightarrow> now \<noteq> 0 \<Longrightarrow> insert_entry d now s = Inr (e, s') \<Longrightarrow>
        wf s' \<and> (\<exists>es. log s (ed_session d) = Some es \<and> log s' = (log s)(ed_session d \<mapsto> es @ [e])) \<and> reg s' = reg s"
    and insert_register: "wf s \<Longrightarrow> insert_register q s = Inr (r, s') \<Longrightarrow>
        wf s' \<and> reg s (rd_key q) = None \<and> rg_revision r = 1 \<and> rg_payload r = rd_payload q \<and>
        reg s' = (reg s)(rd_key q \<mapsto> r) \<and>
        (\<forall>sid es. log s sid = Some es \<longrightarrow> log s' sid = Some es)"
    and replace_register: "wf s \<Longrightarrow> replace_register k v new s = Inr (r', s') \<Longrightarrow>
        wf s' \<and> log s' = log s \<and> (\<exists>r. reg s k = Some r \<and> rg_revision r = v \<and>
          reg s' = (reg s)(k \<mapsto> r\<lparr>rg_revision := v + 1, rg_payload := new\<rparr>))"
    and delete_session: "wf s \<Longrightarrow> delete_session sid s = Inr (u, s') \<Longrightarrow>
        wf s' \<and> log s' = (log s)(sid := None) \<and> (\<forall>k. reg s' k = (if rk_session k = sid then None else reg s k))"
begin

text \<open>What a reader of one Session may rely on between two states of the store.\<close>

definition later :: "string \<Rightarrow> 's \<Rightarrow> 's \<Rightarrow> bool" where
  "later sid s s' \<longleftrightarrow>
     (\<forall>es. log s sid = Some es \<longrightarrow> (\<exists>fresh. log s' sid = Some (es @ fresh))) \<and>
     (\<forall>k r. rk_session k = sid \<longrightarrow> reg s k = Some r \<longrightarrow>
        (\<exists>r'. reg s' k = Some r' \<and> (r' = r \<or> rg_revision r < rg_revision r')))"

lemma later_refl: "later sid s s"
  by (auto simp: later_def)

lemma later_trans: "later sid s s' \<Longrightarrow> later sid s' s'' \<Longrightarrow> later sid s s''"
  unfolding later_def by (fastforce intro: order_less_trans)

lemma insert_entry_later: "wf s \<Longrightarrow> now \<noteq> 0 \<Longrightarrow> insert_entry d now s = Inr (e, s') \<Longrightarrow> later sid s s'"
  using insert_entry [of s now d e s'] by (auto simp: later_def)

lemma insert_register_later: "wf s \<Longrightarrow> insert_register d s = Inr (r, s') \<Longrightarrow> later sid s s'"
  using insert_register [of s d r s'] by (auto simp: later_def)

lemma replace_register_later: "wf s \<Longrightarrow> replace_register k v new s = Inr (r, s') \<Longrightarrow> later sid s s'"
  using replace_register [of s k v new r s'] by (auto simp: later_def)

lemma delete_session_later: "wf s \<Longrightarrow> delete_session x s = Inr (u, s') \<Longrightarrow> x \<noteq> sid \<Longrightarrow> later sid s s'"
  using delete_session [of s x u s'] by (auto simp: later_def)

text \<open>The last sequence a reader has seen.\<close>

definition seen :: "stored_entry list \<Rightarrow> int" where
  "seen es = (if es = [] then 0 else en_sequence (last es))"

lemma seen_splits:
  assumes "sorted_wrt (<) (map en_sequence (es @ fresh))" "\<forall>e \<in> set (es @ fresh). 0 < en_sequence e"
  shows "filter (\<lambda>e. seen es < en_sequence e) (es @ fresh) = fresh"
proof (cases es rule: rev_cases)
  case Nil
  then show ?thesis using assms(2) by (simp add: seen_def)
next
  case (snoc us e)
  have "en_sequence x \<le> seen es" if "x \<in> set es" for x
    using assms(1) that snoc by (auto simp: seen_def sorted_wrt_append)
  moreover have "seen es < en_sequence x" if "x \<in> set fresh" for x
    using assms(1) that snoc by (auto simp: seen_def sorted_wrt_append)
  ultimately show ?thesis by (auto simp: filter_empty_conv not_less)
qed

lemma poll:
  assumes "wf s" "wf s'" "later sid s s'" "read_entries sid 0 s = Inr es"
  shows "\<exists>fresh. read_entries sid 0 s' = Inr (es @ fresh) \<and> read_entries sid (seen es) s' = Inr fresh"
proof -
  from assms(1,4) obtain all where l: "sid \<noteq> []" "log s sid = Some all" "es = filter (\<lambda>e. 0 < en_sequence e) all"
    by (auto simp: read_entries)
  with log_increasing [OF assms(1) l(2)] have "es = all" by (simp add: filter_id_conv)
  with l assms(3) obtain fresh where m: "log s' sid = Some (es @ fresh)" by (auto simp: later_def)
  note inc = log_increasing [OF assms(2) m]
  then have "0 \<le> seen es" by (cases es rule: rev_cases) (auto simp: seen_def)
  moreover have "filter (\<lambda>e. 0 < en_sequence e) (es @ fresh) = es @ fresh"
    using inc by (intro filter_True) blast
  moreover have "filter (\<lambda>e. seen es < en_sequence e) (es @ fresh) = fresh"
    using inc by (intro seen_splits) blast+
  ultimately show ?thesis
    using l(1) m by (intro exI [of _ fresh]) (simp only: read_entries [OF assms(2)], simp)
qed

lemma no_lost_update:
  assumes "wf s" "wf s'" "later (rk_session k) s s'" "read_register k s = Inr r"
    "replace_register k (rg_revision r) new s' = Inr (r'', s'')"
  shows "read_register k s' = Inr r"
  using assms(3-) replace_register [OF assms(2,5)] by (auto simp: later_def read_register assms(1,2))

end

end
