(* ===== verification/Memory_Store.thy ===== *)
theory Memory_Store
  imports Store_Contract "HOL-Library.AList"
begin

text \<open>
  The in-memory implementation of the storage contract (\<open>src/internal/storage/memory.go\<close>). A Go map is an association list with distinct keys; the loops over a map below
  do not depend on its order. Copies of payload bytes are the identity on values. A transaction callback is a tree of
  the operations it performs, each node continued by the result it sees, so that a callback may branch on what it
  reads, handle an error, or panic; the clock is a function from the number of the reading to a time.
\<close>

section \<open>Validation\<close>

fun valid_entry_kind :: "entry_kind \<Rightarrow> bool" where
  "valid_entry_kind (OtherEntryKind _) = False"
| "valid_entry_kind _ = True"

fun valid_register_kind :: "register_kind \<Rightarrow> bool" where
  "valid_register_kind (OtherRegisterKind _) = False"
| "valid_register_kind _ = True"

definition validate_entry_draft :: "entry_draft \<Rightarrow> store_error + unit" where
  "validate_entry_draft d =
     rbind (ensure (ed_session d \<noteq> []) (ErrInvalid ''session identity is empty'')) (\<lambda>_.
     rbind (ensure (ed_id d \<noteq> []) (ErrInvalid ''entry identity is empty'')) (\<lambda>_.
     rbind (ensure (valid_entry_kind (ed_kind d)) (ErrInvalid ''entry kind'')) (\<lambda>_.
     ensure (json_valid (ed_payload d)) (ErrInvalid ''entry payload''))))"

definition validate_register_key :: "register_key \<Rightarrow> store_error + unit" where
  "validate_register_key k =
     (if rk_session k = [] then Inl (ErrInvalid ''session identity is empty'')
      else (case rk_kind k of
              RegisterSession \<Rightarrow> ensure (rk_operation k = []) (ErrInvalid ''session key with operation'')
            | RegisterOperation \<Rightarrow> ensure (rk_operation k \<noteq> []) (ErrInvalid ''operation key without operation'')
            | OtherRegisterKind _ \<Rightarrow> Inl (ErrInvalid ''register kind'')))"

text \<open>The zero time of Go is 0.\<close>

definition validate_stored_entry :: "stored_entry \<Rightarrow> store_error + unit" where
  "validate_stored_entry e =
     (let corrupt = ErrCorruption (en_session e)
      in rbind (ensure (en_session e \<noteq> []) (ErrCorruption [] ''empty session identity'')) (\<lambda>_.
         rbind (ensure (en_id e \<noteq> []) (corrupt ''empty identity'')) (\<lambda>_.
         rbind (ensure (valid_entry_kind (en_kind e)) (corrupt ''entry kind'')) (\<lambda>_.
         rbind (ensure (0 < en_sequence e) (corrupt ''sequence'')) (\<lambda>_.
         rbind (ensure (en_committed_at e \<noteq> 0) (corrupt ''commit time'')) (\<lambda>_.
         ensure (json_valid (se_payload e)) (corrupt ''payload'')))))))"

definition validate_stored_register :: "register \<Rightarrow> store_error + unit" where
  "validate_stored_register r =
     (let k = rg_key r; corrupt = ErrCorruption (rk_session k)
      in rbind (ensure (rk_session k \<noteq> []) (ErrCorruption [] ''empty session identity'')) (\<lambda>_.
         rbind (ensure (valid_register_kind (rk_kind k)) (corrupt ''register kind'')) (\<lambda>_.
         rbind (ensure (\<not> (rk_kind k = RegisterSession \<and> rk_operation k \<noteq> [])) (corrupt ''session register with operation'')) (\<lambda>_.
         rbind (ensure (\<not> (rk_kind k = RegisterOperation \<and> rk_operation k = [])) (corrupt ''operation register without operation'')) (\<lambda>_.
         rbind (ensure (0 < rg_revision r) (corrupt ''revision'')) (\<lambda>_.
         ensure (json_valid (rg_payload r)) (corrupt ''payload'')))))))"

section \<open>The state\<close>

record memory_state =
  ms_entries :: "(string \<times> stored_entry list) list"
  ms_registers :: "(register_key \<times> register) list"

definition new_memory_state :: memory_state where
  "new_memory_state = \<lparr>ms_entries = [], ms_registers = []\<rparr>"

definition entry_list :: "memory_state \<Rightarrow> string \<Rightarrow> stored_entry list" where
  "entry_list s sid = (case map_of (ms_entries s) sid of Some es \<Rightarrow> es | None \<Rightarrow> [])"

definition register_at :: "memory_state \<Rightarrow> register_key \<Rightarrow> register option" where
  "register_at s k = map_of (ms_registers s) k"

definition session_orphaned :: "memory_state \<Rightarrow> string \<Rightarrow> bool" where
  "session_orphaned s sid =
     (if register_at s (session_key sid) \<noteq> None then False
      else if entry_list s sid \<noteq> [] then True
      else list_ex (\<lambda>(k, r). rk_session k = sid) (ms_registers s))"

definition has_entry_id :: "memory_state \<Rightarrow> string \<Rightarrow> bool" where
  "has_entry_id s i = list_ex (\<lambda>(sid, es). list_ex (\<lambda>e. en_id e = i) es) (ms_entries s)"

definition has_operation_id :: "memory_state \<Rightarrow> string \<Rightarrow> bool" where
  "has_operation_id s i = list_ex (\<lambda>(k, r). rk_kind k = RegisterOperation \<and> rk_operation k = i) (ms_registers s)"

definition max_sequence :: "stored_entry list \<Rightarrow> int" where
  "max_sequence es = foldl (\<lambda>highest e. if highest < en_sequence e then en_sequence e else highest) 0 es"

definition orphan_corruption :: "string \<Rightarrow> store_error" where
  "orphan_corruption sid = ErrCorruption sid ''dependent records without a session register''"

text \<open>The error of a session without its register.\<close>

definition missing_session :: "memory_state \<Rightarrow> string \<Rightarrow> store_error" where
  "missing_session s sid = (if session_orphaned s sid then orphan_corruption sid else ErrNotFound sid)"

section \<open>Reading\<close>

fun read_checked :: "int \<Rightarrow> stored_entry list \<Rightarrow> store_error + stored_entry list" where
  "read_checked after [] = Inr []"
| "read_checked after (e # es) =
     (if en_sequence e \<le> after then read_checked after es
      else rbind (validate_stored_entry e) (\<lambda>_. rbind (read_checked after es) (\<lambda>out. Inr (e # out))))"

definition read_entries :: "string \<Rightarrow> int \<Rightarrow> memory_state \<Rightarrow> store_error + stored_entry list" where
  "read_entries sid after s =
     rbind (ensure (sid \<noteq> []) (ErrInvalid ''session identity is empty'')) (\<lambda>_.
     rbind (ensure (0 \<le> after) (ErrInvalid ''after is negative'')) (\<lambda>_.
     rbind (ensure (register_at s (session_key sid) \<noteq> None) (missing_session s sid)) (\<lambda>_.
     read_checked after (entry_list s sid))))"

definition read_register :: "register_key \<Rightarrow> memory_state \<Rightarrow> store_error + register" where
  "read_register k s =
     rbind (validate_register_key k) (\<lambda>_.
     rbind (ensure (\<not> session_orphaned s (rk_session k)) (orphan_corruption (rk_session k))) (\<lambda>_.
     (case register_at s k of
        None \<Rightarrow> Inl (ErrNotFound (rk_session k))
      | Some r \<Rightarrow> rbind (validate_stored_register r) (\<lambda>_. Inr r))))"

definition read_registers :: "string \<Rightarrow> memory_state \<Rightarrow> store_error + register list" where
  "read_registers sid s =
     rbind (ensure (sid \<noteq> []) (ErrInvalid ''session identity is empty'')) (\<lambda>_.
     rbind (ensure (\<not> session_orphaned s sid) (orphan_corruption sid)) (\<lambda>_.
     (case register_at s (session_key sid) of
        None \<Rightarrow> Inl (ErrNotFound sid)
      | Some r \<Rightarrow>
          rbind (validate_stored_register r) (\<lambda>_.
          (let own = filter (\<lambda>(k, q). rk_session k = sid) (ms_registers s);
               operations = map snd (filter (\<lambda>(k, q). rk_kind k = RegisterOperation) own)
           in rbind (ensure (length own = 1 + length operations) (ErrCorruption sid ''session register with operation'')) (\<lambda>_.
              (let sorted = sort_key (\<lambda>q. rk_operation (rg_key q)) operations
               in rbind (first_error validate_stored_register sorted) (\<lambda>_. Inr (r # sorted)))))))))"

definition list_session_ids :: "memory_state \<Rightarrow> string list" where
  "list_session_ids s = sort (remdups (map fst (ms_entries s) @ map (\<lambda>(k, r). rk_session k) (ms_registers s)))"

section \<open>Writing\<close>

definition insert_entry :: "entry_draft \<Rightarrow> timestamp \<Rightarrow> memory_state \<Rightarrow> store_error + stored_entry \<times> memory_state" where
  "insert_entry d now s =
     rbind (validate_entry_draft d) (\<lambda>_.
     rbind (ensure (register_at s (session_key (ed_session d)) \<noteq> None) (missing_session s (ed_session d))) (\<lambda>_.
     rbind (ensure (\<not> has_entry_id s (ed_id d)) (ErrConflict (ed_id d))) (\<lambda>_.
     (let es = entry_list s (ed_session d); highest = max_sequence es
      in rbind (ensure (highest \<noteq> largest_int64) (ErrStorage ''sequence would overflow'')) (\<lambda>_.
         (let e = \<lparr>en_session = ed_session d, en_id = ed_id d, en_sequence = highest + 1, en_operation = ed_operation d,
                    en_kind = ed_kind d, en_committed_at = now, se_payload = ed_payload d\<rparr>
          in Inr (e, s\<lparr>ms_entries := AList.update (ed_session d) (es @ [e]) (ms_entries s)\<rparr>)))))))"

definition insert_register :: "register_draft \<Rightarrow> memory_state \<Rightarrow> store_error + register \<times> memory_state" where
  "insert_register d s =
     (let k = rd_key d; sid = rk_session k
      in rbind (validate_register_key k) (\<lambda>_.
         rbind (ensure (json_valid (rd_payload d)) (ErrInvalid ''register payload'')) (\<lambda>_.
         rbind (if rk_kind k = RegisterOperation then
                  rbind (ensure (register_at s (session_key sid) \<noteq> None) (missing_session s sid)) (\<lambda>_.
                  ensure (\<not> has_operation_id s (rk_operation k)) (ErrConflict (rk_operation k)))
                else ensure (\<not> session_orphaned s sid) (orphan_corruption sid)) (\<lambda>_.
         rbind (ensure (register_at s k = None) (ErrConflict sid)) (\<lambda>_.
         (let r = \<lparr>rg_key = k, rg_revision = 1, rg_payload = rd_payload d\<rparr>
          in Inr (r, s\<lparr>ms_registers := AList.update k r (ms_registers s)\<rparr>)))))))"

definition replace_register :: "register_key \<Rightarrow> int \<Rightarrow> raw \<Rightarrow> memory_state \<Rightarrow> store_error + register \<times> memory_state" where
  "replace_register k expected new s =
     rbind (validate_register_key k) (\<lambda>_.
     rbind (ensure (0 < expected) (ErrInvalid ''expected revision'')) (\<lambda>_.
     rbind (ensure (json_valid new) (ErrInvalid ''register payload'')) (\<lambda>_.
     (case register_at s k of
        None \<Rightarrow> Inl (missing_session s (rk_session k))
      | Some current \<Rightarrow>
          rbind (ensure (\<not> session_orphaned s (rk_session k)) (orphan_corruption (rk_session k))) (\<lambda>_.
          rbind (ensure (rg_revision current = expected) (ErrConflict (rk_session k))) (\<lambda>_.
          rbind (ensure (rg_revision current \<noteq> largest_int64) (ErrStorage ''revision would overflow'')) (\<lambda>_.
          (let r = current\<lparr>rg_revision := rg_revision current + 1, rg_payload := new\<rparr>
           in Inr (r, s\<lparr>ms_registers := AList.update k r (ms_registers s)\<rparr>)))))))))"

definition delete_session :: "string \<Rightarrow> memory_state \<Rightarrow> store_error + unit \<times> memory_state" where
  "delete_session sid s =
     rbind (ensure (sid \<noteq> []) (ErrInvalid ''session identity is empty'')) (\<lambda>_.
     (if register_at s (session_key sid) \<noteq> None then
        Inr ((), s\<lparr>ms_registers := filter (\<lambda>(k, r). rk_session k \<noteq> sid) (ms_registers s),
                   ms_entries := AList.delete sid (ms_entries s)\<rparr>)
      else Inl (missing_session s sid)))"

section \<open>Transactions\<close>

record memory_txn =
  tx_state :: memory_state
  tx_latched :: "store_error option"
  tx_closed :: bool

definition guard :: "memory_txn \<Rightarrow> store_error + unit" where
  "guard t = ensure (\<not> tx_closed t) (ErrInvalid ''transaction has expired'')"

fun latches :: "store_error \<Rightarrow> bool" where
  "latches (ErrConflict _) = True"
| "latches (ErrStorage _) = True"
| "latches _ = False"

definition latch :: "store_error \<Rightarrow> memory_txn \<Rightarrow> memory_txn" where
  "latch e t = (if tx_latched t = None \<and> latches e then t\<lparr>tx_latched := Some e\<rparr> else t)"

definition txn_read :: "(memory_state \<Rightarrow> store_error + 'a) \<Rightarrow> memory_txn \<Rightarrow> store_error + 'a" where
  "txn_read f t = rbind (guard t) (\<lambda>_. f (tx_state t))"

text \<open>The common shape of the three latching mutations, and the deletion, which does not latch.\<close>

definition txn_mutate ::
  "(memory_state \<Rightarrow> store_error + 'a \<times> memory_state) \<Rightarrow> memory_txn \<Rightarrow> (store_error + 'a) \<times> memory_txn" where
  "txn_mutate f t =
     (case guard t of
        Inl e \<Rightarrow> (Inl e, t)
      | Inr _ \<Rightarrow>
          (case f (tx_state t) of
             Inl e \<Rightarrow> (Inl e, latch e t)
           | Inr (a, s) \<Rightarrow> (Inr a, t\<lparr>tx_state := s\<rparr>)))"

definition txn_delete :: "string \<Rightarrow> memory_txn \<Rightarrow> (store_error + unit) \<times> memory_txn" where
  "txn_delete sid t =
     (case guard t of
        Inl e \<Rightarrow> (Inl e, t)
      | Inr _ \<Rightarrow>
          (case delete_session sid (tx_state t) of
             Inl e \<Rightarrow> (Inl e, t)
           | Inr (_, s) \<Rightarrow> (Inr (), t\<lparr>tx_state := s\<rparr>)))"

datatype go_error = StoreError store_error | ContextError string | CallbackError string

datatype callback =
  Return "go_error option"
| Panic
| ReadEntries string int "store_error + stored_entry list \<Rightarrow> callback"
| ReadRegister register_key "store_error + register \<Rightarrow> callback"
| InsertEntry entry_draft "store_error + stored_entry \<Rightarrow> callback"
| InsertRegister register_draft "store_error + register \<Rightarrow> callback"
| ReplaceRegister register_key int raw "store_error + register \<Rightarrow> callback"
| DeleteSession string "store_error + unit \<Rightarrow> callback"

datatype callback_outcome = Returned "go_error option" | Panicked

primrec run_callback :: "(nat \<Rightarrow> timestamp) \<Rightarrow> callback \<Rightarrow> nat \<Rightarrow> memory_txn \<Rightarrow> callback_outcome \<times> memory_txn" where
  "run_callback clock (Return r) n t = (Returned r, t)"
| "run_callback clock Panic n t = (Panicked, t)"
| "run_callback clock (ReadEntries sid after k) n t = run_callback clock (k (txn_read (read_entries sid after) t)) n t"
| "run_callback clock (ReadRegister key k) n t = run_callback clock (k (txn_read (read_register key) t)) n t"
| "run_callback clock (InsertEntry d k) n t =
     (let rt = txn_mutate (insert_entry d (clock n)) t in run_callback clock (k (fst rt)) (Suc n) (snd rt))"
| "run_callback clock (InsertRegister d k) n t =
     (let rt = txn_mutate (insert_register d) t in run_callback clock (k (fst rt)) n (snd rt))"
| "run_callback clock (ReplaceRegister key expected new k) n t =
     (let rt = txn_mutate (replace_register key expected new) t in run_callback clock (k (fst rt)) n (snd rt))"
| "run_callback clock (DeleteSession sid k) n t =
     (let rt = txn_delete sid t in run_callback clock (k (fst rt)) n (snd rt))"

text \<open>\<open>Memory.Transact\<close>: the result, the state left behind, and the transaction, which is closed on every path that
  made one. \<open>ctx i\<close> is the \<open>i\<close>-th answer of \<open>ctx.Err()\<close>.\<close>

definition transact ::
  "(nat \<Rightarrow> go_error option) \<Rightarrow> (nat \<Rightarrow> timestamp) \<Rightarrow> callback \<Rightarrow> memory_state \<Rightarrow>
     callback_outcome \<times> memory_state \<times> memory_txn option" where
  "transact ctx clock fn s =
     (case ctx 0 of
        Some e \<Rightarrow> (Returned (Some e), s, None)
      | None \<Rightarrow>
     (case ctx 1 of
        Some e \<Rightarrow> (Returned (Some e), s, None)
      | None \<Rightarrow>
          (let rt = run_callback clock fn 0 \<lparr>tx_state = s, tx_latched = None, tx_closed = False\<rparr>;
               txn = (snd rt)\<lparr>tx_closed := True\<rparr>
           in (case fst rt of
                 Panicked \<Rightarrow> (Panicked, s, Some txn)
               | Returned (Some e) \<Rightarrow> (Returned (Some e), s, Some txn)
               | Returned None \<Rightarrow>
                   (case tx_latched txn of
                      Some e \<Rightarrow> (Returned (Some (StoreError e)), s, Some txn)
                    | None \<Rightarrow>
                        (case ctx 2 of
                           Some e \<Rightarrow> (Returned (Some e), s, Some txn)
                         | None \<Rightarrow> (Returned None, tx_state txn, Some txn)))))))"

text \<open>The committed reads of \<open>Memory\<close>.\<close>

definition committed_read ::
  "(nat \<Rightarrow> go_error option) \<Rightarrow> (memory_state \<Rightarrow> store_error + 'a) \<Rightarrow> memory_state \<Rightarrow> go_error + 'a" where
  "committed_read ctx f s =
     (case ctx 0 of
        Some e \<Rightarrow> Inl e
      | None \<Rightarrow>
     (case ctx 1 of
        Some e \<Rightarrow> Inl e
      | None \<Rightarrow> (case f s of Inl e \<Rightarrow> Inl (StoreError e) | Inr a \<Rightarrow> Inr a)))"

end
