(* ===== verification/Memory_Store_Safe.thy ===== *)
theory Memory_Store_Safe
  imports Memory_Store
begin

text \<open>
  The in-memory store keeps its well-formedness and satisfies the contract of \<open>Store_Contract\<close>; transactions are
  atomic; and what the contract promises a client holds across any sequence of transactions.
\<close>

section \<open>Well-formed states\<close>

definition entry_ok :: "string \<Rightarrow> stored_entry \<Rightarrow> bool" where
  "entry_ok sid e \<longleftrightarrow> en_session e = sid \<and> validate_stored_entry e = Inr () \<and> en_sequence e \<le> largest_int64"

definition register_ok :: "register_key \<Rightarrow> register \<Rightarrow> bool" where
  "register_ok k r \<longleftrightarrow> rg_key r = k \<and> validate_register_key k = Inr () \<and> 0 < rg_revision r \<and>
     rg_revision r \<le> largest_int64 \<and> json_valid (rg_payload r)"

definition session_exists :: "memory_state \<Rightarrow> string \<Rightarrow> bool" where
  "session_exists s sid \<longleftrightarrow> register_at s (session_key sid) \<noteq> None"

definition store_wf :: "memory_state \<Rightarrow> bool" where
  "store_wf s \<longleftrightarrow>
     distinct (map fst (ms_entries s)) \<and> distinct (map fst (ms_registers s)) \<and>
     (\<forall>k r. register_at s k = Some r \<longrightarrow> register_ok k r \<and> session_exists s (rk_session k)) \<and>
     (\<forall>sid. \<forall>e \<in> set (entry_list s sid). entry_ok sid e \<and> session_exists s sid) \<and>
     (\<forall>sid. sorted_wrt (<) (map en_sequence (entry_list s sid))) \<and>
     (\<forall>sid sid'. \<forall>e \<in> set (entry_list s sid). \<forall>e' \<in> set (entry_list s sid'). en_id e = en_id e' \<longrightarrow> e = e') \<and>
     (\<forall>k k'. register_at s k \<noteq> None \<longrightarrow> register_at s k' \<noteq> None \<longrightarrow> rk_kind k = RegisterOperation \<longrightarrow>
        rk_kind k' = RegisterOperation \<longrightarrow> rk_operation k = rk_operation k' \<longrightarrow> k = k') \<and>
     (\<forall>sid. map_of (ms_entries s) sid \<noteq> Some [])"

lemma store_wfD:
  assumes "store_wf s"
  shows "distinct (map fst (ms_entries s))" "distinct (map fst (ms_registers s))"
    and "register_at s k = Some r \<Longrightarrow> register_ok k r"
    and "register_at s k = Some r \<Longrightarrow> session_exists s (rk_session k)"
    and "e \<in> set (entry_list s sid) \<Longrightarrow> entry_ok sid e"
    and "e \<in> set (entry_list s sid) \<Longrightarrow> session_exists s sid"
    and "sorted_wrt (<) (map en_sequence (entry_list s sid))"
    and "e \<in> set (entry_list s sid) \<Longrightarrow> e' \<in> set (entry_list s sid') \<Longrightarrow> en_id e = en_id e' \<Longrightarrow> e = e'"
    and "register_at s k \<noteq> None \<Longrightarrow> register_at s k' \<noteq> None \<Longrightarrow> rk_kind k = RegisterOperation \<Longrightarrow>
        rk_kind k' = RegisterOperation \<Longrightarrow> rk_operation k = rk_operation k' \<Longrightarrow> k = k'"
    and "map_of (ms_entries s) sid \<noteq> Some []"
  using assms unfolding store_wf_def by blast+

lemma new_memory_state_wf: "store_wf new_memory_state"
  by (simp add: store_wf_def new_memory_state_def register_at_def entry_list_def)

section \<open>The loops over a map\<close>

lemma register_at_iff:
  "distinct (map fst (ms_registers s)) \<Longrightarrow> (k, r) \<in> set (ms_registers s) \<longleftrightarrow> register_at s k = Some r"
  by (simp add: register_at_def)

lemma has_operation_id_iff:
  "store_wf s \<Longrightarrow> has_operation_id s i \<longleftrightarrow>
     (\<exists>k. register_at s k \<noteq> None \<and> rk_kind k = RegisterOperation \<and> rk_operation k = i)"
  using store_wfD(2) [of s] by (auto simp: has_operation_id_def list_ex_iff register_at_iff) blast+

lemma has_entry_id_iff:
  assumes "store_wf s"
  shows "has_entry_id s i \<longleftrightarrow> (\<exists>sid. \<exists>e \<in> set (entry_list s sid). en_id e = i)"
proof -
  have "has_entry_id s i \<longleftrightarrow> (\<exists>sid es. (sid, es) \<in> set (ms_entries s) \<and> (\<exists>e \<in> set es. en_id e = i))"
    unfolding has_entry_id_def list_ex_iff by blast
  also have "\<dots> \<longleftrightarrow> (\<exists>sid es. map_of (ms_entries s) sid = Some es \<and> (\<exists>e \<in> set es. en_id e = i))"
    by (simp only: map_of_eq_Some_iff [OF store_wfD(1) [OF assms]])
  also have "\<dots> \<longleftrightarrow> (\<exists>sid. \<exists>e \<in> set (entry_list s sid). en_id e = i)"
    unfolding entry_list_def by (rule ex_cong1) (case_tac "map_of (ms_entries s) sid"; simp)
  finally show ?thesis .
qed

lemma wf_not_orphaned: "store_wf s \<Longrightarrow> \<not> session_orphaned s sid"
  using store_wfD(4,6) [of s] store_wfD(2) [of s]
  by (auto simp: session_orphaned_def list_ex_iff register_at_iff session_exists_def neq_Nil_conv)
     (metis list.set_intros(1) option.distinct(1))+

lemma max_sequence_sorted:
  assumes "sorted_wrt (<) (map en_sequence es)" "\<forall>e \<in> set es. 0 < en_sequence e"
  shows "max_sequence es = (if es = [] then 0 else en_sequence (last es))"
  using assms by (induction es rule: rev_induct) (auto simp: max_sequence_def sorted_wrt_append split: if_splits)

lemma entry_ok_positive: "entry_ok sid e \<Longrightarrow> 0 < en_sequence e"
  by (auto simp: entry_ok_def validate_stored_entry_def Let_def res_simps)

lemma max_sequence_bounds:
  assumes "store_wf s"
  shows "e \<in> set (entry_list s sid) \<Longrightarrow> en_sequence e \<le> max_sequence (entry_list s sid)"
    and "0 \<le> max_sequence (entry_list s sid)" "max_sequence (entry_list s sid) \<le> largest_int64"
proof -
  let ?es = "entry_list s sid"
  have sorted: "sorted_wrt (<) (map en_sequence ?es)" and pos: "\<forall>e \<in> set ?es. 0 < en_sequence e"
    using store_wfD(5,7) [OF assms] entry_ok_positive by blast+
  note m = max_sequence_sorted [OF this]
  show "e \<in> set ?es \<Longrightarrow> en_sequence e \<le> max_sequence ?es"
    using sorted m by (cases ?es rule: rev_cases) (auto simp: sorted_wrt_append)
  show "0 \<le> max_sequence ?es" "max_sequence ?es \<le> largest_int64"
    using m pos store_wfD(5) [OF assms, of "last ?es" sid]
    by (cases ?es rule: rev_cases; force simp: entry_ok_def largest_int64_def)+
qed

section \<open>The operations keep it\<close>

lemma entry_list_update:
  "entry_list (s\<lparr>ms_entries := AList.update sid es (ms_entries s)\<rparr>) x = (if x = sid then es else entry_list s x)"
  by (simp add: entry_list_def update_conv')

lemma register_at_update:
  "register_at (s\<lparr>ms_registers := AList.update k r (ms_registers s)\<rparr>) x = (if x = k then Some r else register_at s x)"
  by (simp add: register_at_def update_conv')

lemma frames [simp]:
  "entry_list (s\<lparr>ms_registers := rs\<rparr>) sid = entry_list s sid"
  "register_at (s\<lparr>ms_entries := es\<rparr>) k = register_at s k"
  by (simp_all add: entry_list_def register_at_def)

text \<open>What a successful insertion of an entry does.\<close>

lemma insert_entry_effect:
  assumes "store_wf s" "now \<noteq> 0" "insert_entry d now s = Inr (e, s')"
  shows "session_exists s (ed_session d)"
    and "s' = s\<lparr>ms_entries := AList.update (ed_session d) (entry_list s (ed_session d) @ [e]) (ms_entries s)\<rparr>"
    and "entry_ok (ed_session d) e" "en_sequence e = max_sequence (entry_list s (ed_session d)) + 1"
    and "\<not> has_entry_id s (en_id e)"
  using assms max_sequence_bounds [OF assms(1), where sid = "ed_session d"]
  by (auto simp: insert_entry_def Let_def res_simps session_exists_def entry_ok_def validate_stored_entry_def
      validate_entry_draft_def)

lemma insert_entry_wf:
  assumes "store_wf s" "now \<noteq> 0" "insert_entry d now s = Inr (e, s')"
  shows "store_wf s'"
proof -
  note eff = insert_entry_effect [OF assms]
  let ?sid = "ed_session d"
  have el: "entry_list s' x = (if x = ?sid then entry_list s ?sid @ [e] else entry_list s x)" for x
    by (simp add: eff(2) entry_list_update)
  have reg: "register_at s' = register_at s" by (rule ext) (simp add: eff(2))
  then have ex: "session_exists s' = session_exists s" by (simp add: session_exists_def fun_eq_iff)
  have new: "en_id x \<noteq> en_id e" if "x \<in> set (entry_list s sid)" for x sid
    using eff(5) that has_entry_id_iff [OF assms(1)] by blast
  have above: "en_sequence x < en_sequence e" if "x \<in> set (entry_list s ?sid)" for x
    using max_sequence_bounds(1) [OF assms(1) that] eff(4) by simp
  show ?thesis
    unfolding store_wf_def reg ex
  proof (intro conjI)
    show "distinct (map fst (ms_entries s'))" "distinct (map fst (ms_registers s'))"
      using store_wfD(1,2) [OF assms(1)] by (simp_all add: eff(2) distinct_update)
    show "\<forall>sid. \<forall>x \<in> set (entry_list s' sid). entry_ok sid x \<and> session_exists s sid"
      using store_wfD(5,6) [OF assms(1)] eff(1,3) by (auto simp: el)
    show "\<forall>sid. sorted_wrt (<) (map en_sequence (entry_list s' sid))"
      using store_wfD(7) [OF assms(1)] above by (auto simp: el sorted_wrt_append)
    show "\<forall>sid sid'. \<forall>x \<in> set (entry_list s' sid). \<forall>y \<in> set (entry_list s' sid'). en_id x = en_id y \<longrightarrow> x = y"
      using store_wfD(8) [OF assms(1)] new new [symmetric] unfolding el by (auto split: if_splits)
    show "\<forall>sid. map_of (ms_entries s') sid \<noteq> Some []"
      using store_wfD(10) [OF assms(1)] by (simp add: eff(2) update_conv')
  qed (use store_wfD(3,4,9) [OF assms(1)] in blast)+
qed

lemma register_update_wf:
  assumes "store_wf s" "register_ok k r" "rk_session k \<noteq> [] \<Longrightarrow> k = session_key (rk_session k) \<or> session_exists s (rk_session k)"
    and fresh: "rk_kind k = RegisterOperation \<Longrightarrow> register_at s k = None \<Longrightarrow> \<not> has_operation_id s (rk_operation k)"
  shows "store_wf (s\<lparr>ms_registers := AList.update k r (ms_registers s)\<rparr>)" (is "store_wf ?s")
proof -
  have reg: "register_at ?s x = (if x = k then Some r else register_at s x)" for x by (rule register_at_update)
  have ex: "session_exists ?s x" if "session_exists s x" for x using that by (simp add: session_exists_def reg)
  have "rk_session k \<noteq> []"
    using assms(2) by (auto simp: register_ok_def validate_register_key_def)
  with assms(3) ex have self: "session_exists ?s (rk_session k)" by (auto simp: session_exists_def reg)
  have op: "x = k" if "register_at s x \<noteq> None" "rk_kind x = RegisterOperation" "rk_kind k = RegisterOperation"
    "rk_operation x = rk_operation k" for x
  proof (cases "register_at s k = None")
    case True
    with fresh that show ?thesis by (auto simp: has_operation_id_iff [OF assms(1)])
  next
    case False
    with store_wfD(9) [OF assms(1)] that show ?thesis by blast
  qed
  show ?thesis
    unfolding store_wf_def
  proof (intro conjI)
    show "distinct (map fst (ms_entries ?s))" "distinct (map fst (ms_registers ?s))"
      using store_wfD(1,2) [OF assms(1)] by (simp_all add: distinct_update)
    show "\<forall>x q. register_at ?s x = Some q \<longrightarrow> register_ok x q \<and> session_exists ?s (rk_session x)"
      using store_wfD(3,4) [OF assms(1)] assms(2) self ex by (auto simp: reg)
    show "\<forall>sid. \<forall>e \<in> set (entry_list ?s sid). entry_ok sid e \<and> session_exists ?s sid"
      using store_wfD(5,6) [OF assms(1)] ex by simp
    show "\<forall>x y. register_at ?s x \<noteq> None \<longrightarrow> register_at ?s y \<noteq> None \<longrightarrow> rk_kind x = RegisterOperation \<longrightarrow>
        rk_kind y = RegisterOperation \<longrightarrow> rk_operation x = rk_operation y \<longrightarrow> x = y"
      using store_wfD(9) [OF assms(1)] op by (metis reg)
  qed (use store_wfD(7,8,10) [OF assms(1)] in simp_all)
qed

lemma session_key_simps [simp]:
  "rk_session (session_key sid) = sid" "rk_kind (session_key sid) = RegisterSession" "rk_operation (session_key sid) = []"
  by (simp_all add: session_key_def)

lemma session_key_unique: "rk_kind k = RegisterSession \<Longrightarrow> rk_operation k = [] \<Longrightarrow> k = session_key (rk_session k)"
  by (simp add: session_key_def)

lemma validate_key_session:
  "validate_register_key k = Inr () \<Longrightarrow> rk_kind k \<noteq> RegisterOperation \<Longrightarrow> k = session_key (rk_session k)"
  by (auto simp: validate_register_key_def res_simps intro: session_key_unique split: if_splits register_kind.splits)

lemma insert_register_effect:
  assumes "store_wf s" "insert_register d s = Inr (r, s')"
  shows "register_at s (rd_key d) = None"
    and "r = \<lparr>rg_key = rd_key d, rg_revision = 1, rg_payload = rd_payload d\<rparr>"
    and "s' = s\<lparr>ms_registers := AList.update (rd_key d) r (ms_registers s)\<rparr>" "store_wf s'"
proof -
  let ?k = "rd_key d"
  show r: "register_at s ?k = None" "r = \<lparr>rg_key = ?k, rg_revision = 1, rg_payload = rd_payload d\<rparr>"
    and s': "s' = s\<lparr>ms_registers := AList.update ?k r (ms_registers s)\<rparr>"
    using assms(2) by (auto simp: insert_register_def Let_def res_simps)
  have ok: "register_ok ?k r"
    using assms(2) r(2) by (auto simp: insert_register_def Let_def res_simps register_ok_def largest_int64_def)
  moreover have "?k = session_key (rk_session ?k) \<or> session_exists s (rk_session ?k)"
    and "rk_kind ?k = RegisterOperation \<Longrightarrow> \<not> has_operation_id s (rk_operation ?k)"
    using assms(2) validate_key_session [of ?k]
    by (auto simp: insert_register_def Let_def res_simps session_exists_def split: if_splits)
  ultimately show "store_wf s'"
    unfolding s' by (intro register_update_wf [OF assms(1)]) auto
qed

lemma replace_register_effect:
  assumes "store_wf s" "replace_register k v new s = Inr (r', s')"
  obtains r where "register_at s k = Some r" "rg_revision r = v" "r' = r\<lparr>rg_revision := v + 1, rg_payload := new\<rparr>"
    "s' = s\<lparr>ms_registers := AList.update k r' (ms_registers s)\<rparr>" "store_wf s'"
proof -
  from assms(2) obtain r where r: "register_at s k = Some r" "rg_revision r = v" "rg_revision r \<noteq> largest_int64" "json_valid new"
    "r' = r\<lparr>rg_revision := v + 1, rg_payload := new\<rparr>" "s' = s\<lparr>ms_registers := AList.update k r' (ms_registers s)\<rparr>"
    by (auto simp: replace_register_def Let_def res_simps split: option.splits)
  have "register_ok k r'" using store_wfD(3) [OF assms(1) r(1)] r(2-5) by (auto simp: register_ok_def)
  then have "store_wf s'"
    unfolding r(6) using store_wfD(4) [OF assms(1) r(1)] r(1) by (intro register_update_wf [OF assms(1)]) auto
  with r that show thesis by blast
qed

lemma delete_session_effect:
  assumes "store_wf s" "delete_session sid s = Inr (u, s')"
  shows "register_at s' k = (if rk_session k = sid then None else register_at s k)"
    and "entry_list s' x = (if x = sid then [] else entry_list s x)" "store_wf s'"
proof -
  have s': "s' = s\<lparr>ms_registers := filter (\<lambda>(k, r). rk_session k \<noteq> sid) (ms_registers s),
      ms_entries := AList.delete sid (ms_entries s)\<rparr>"
    using assms(2) by (auto simp: delete_session_def res_simps split: if_splits)
  have "map_of (filter (\<lambda>(k, r). rk_session k \<noteq> sid) xs) k = (if rk_session k = sid then None else map_of xs k)"
    for k :: register_key and xs :: "(register_key \<times> register) list"
    by (induction xs) auto
  then show reg: "register_at s' k = (if rk_session k = sid then None else register_at s k)" for k
    by (simp add: s' register_at_def)
  show el: "entry_list s' x = (if x = sid then [] else entry_list s x)" for x
    by (simp add: s' entry_list_def delete_conv')
  have ex: "session_exists s' x \<longleftrightarrow> x \<noteq> sid \<and> session_exists s x" for x by (simp add: session_exists_def reg)
  show "store_wf s'"
    unfolding store_wf_def ex
  proof (intro conjI)
    show "distinct (map fst (ms_entries s'))" "distinct (map fst (ms_registers s'))"
      using store_wfD(1,2) [OF assms(1)] by (simp_all add: s' distinct_delete distinct_map_filter)
    show "\<forall>sid' sid''. \<forall>e \<in> set (entry_list s' sid'). \<forall>e' \<in> set (entry_list s' sid''). en_id e = en_id e' \<longrightarrow> e = e'"
      using store_wfD(8) [OF assms(1)] unfolding el by (auto split: if_splits)
    show "\<forall>k k'. register_at s' k \<noteq> None \<longrightarrow> register_at s' k' \<noteq> None \<longrightarrow> rk_kind k = RegisterOperation \<longrightarrow>
        rk_kind k' = RegisterOperation \<longrightarrow> rk_operation k = rk_operation k' \<longrightarrow> k = k'"
      using store_wfD(9) [OF assms(1)] unfolding reg by (auto split: if_splits)
    show "\<forall>sid. map_of (ms_entries s') sid \<noteq> Some []"
      using store_wfD(10) [OF assms(1)] by (simp add: s' delete_conv')
  qed (use store_wfD(3-7) [OF assms(1)] in \<open>auto simp: reg el split: if_splits\<close>)
qed

section \<open>Reading a well-formed state\<close>

lemma read_checked_ok:
  "\<forall>e \<in> set es. validate_stored_entry e = Inr () \<Longrightarrow> read_checked after es = Inr (filter (\<lambda>e. after < en_sequence e) es)"
  by (induction es) auto

lemma read_entries_wf:
  assumes "store_wf s"
  shows "read_entries sid after s = Inr out \<longleftrightarrow>
    sid \<noteq> [] \<and> 0 \<le> after \<and> session_exists s sid \<and> out = filter (\<lambda>e. after < en_sequence e) (entry_list s sid)"
proof -
  have "\<forall>e \<in> set (entry_list s sid). validate_stored_entry e = Inr ()"
    using store_wfD(5) [OF assms] by (auto simp: entry_ok_def)
  then show ?thesis
    by (auto simp: read_entries_def res_simps read_checked_ok session_exists_def)
qed

lemma register_ok_stored: "register_ok k r \<Longrightarrow> validate_register_key k = Inr () \<and> validate_stored_register r = Inr ()"
  by (auto simp: register_ok_def validate_register_key_def validate_stored_register_def Let_def res_simps
      split: if_splits register_kind.splits)

lemma read_register_wf: "store_wf s \<Longrightarrow> read_register k s = Inr r \<longleftrightarrow> register_at s k = Some r"
  using store_wfD(3) [of s k] register_ok_stored [of k] wf_not_orphaned [of s "rk_session k"]
  by (cases "register_at s k") (auto simp: read_register_def res_simps)

section \<open>The store implements the contract\<close>

definition store_log :: "memory_state \<Rightarrow> string \<Rightarrow> stored_entry list option" where
  "store_log s sid = (if session_exists s sid then Some (entry_list s sid) else None)"

lemma insert_register_exists:
  assumes "store_wf s" "insert_register d s = Inr (r, s')" "session_exists s sid"
  shows "session_exists s' sid \<and> entry_list s' sid = entry_list s sid"
  using insert_register_effect(3) [OF assms(1,2)] assms(3) by (simp add: session_exists_def register_at_update)

interpretation mem: session_store store_wf store_log register_at read_entries read_register
  insert_entry insert_register replace_register delete_session
proof
  fix s assume wf: "store_wf s"
  show "read_entries sid after s = Inr out \<longleftrightarrow> sid \<noteq> [] \<and> 0 \<le> after \<and>
      (\<exists>es. store_log s sid = Some es \<and> out = filter (\<lambda>e. after < en_sequence e) es)" for sid after out
    by (auto simp: read_entries_wf [OF wf] store_log_def)
  show "read_register k s = Inr r \<longleftrightarrow> register_at s k = Some r" for k r by (rule read_register_wf [OF wf])
  show "store_log s sid = Some es \<Longrightarrow> sorted_wrt (<) (map en_sequence es) \<and> (\<forall>e \<in> set es. 0 < en_sequence e)" for sid es
    using store_wfD(7) [OF wf] store_wfD(5) [OF wf, THEN entry_ok_positive] by (auto simp: store_log_def split: if_splits)
  show "now \<noteq> 0 \<Longrightarrow> insert_entry d now s = Inr (e, s') \<Longrightarrow> store_wf s' \<and>
      (\<exists>es. store_log s (ed_session d) = Some es \<and> store_log s' = (store_log s)(ed_session d \<mapsto> es @ [e])) \<and>
      register_at s' = register_at s" for now d e s'
    using insert_entry_effect [OF wf, of now d e s'] insert_entry_wf [OF wf, of now d e s']
    by (auto simp: store_log_def session_exists_def entry_list_update fun_eq_iff)
  show "insert_register q s = Inr (r, s') \<Longrightarrow> store_wf s' \<and> register_at s (rd_key q) = None \<and> rg_revision r = 1 \<and>
      rg_payload r = rd_payload q \<and> register_at s' = (register_at s)(rd_key q \<mapsto> r) \<and>
      (\<forall>sid es. store_log s sid = Some es \<longrightarrow> store_log s' sid = Some es)" for q r s'
    using insert_register_effect [OF wf, of q r s'] insert_register_exists [OF wf, of q r s']
    by (auto simp: store_log_def register_at_update fun_eq_iff split: if_splits)
  show "replace_register k v new s = Inr (r', s') \<Longrightarrow> store_wf s' \<and> store_log s' = store_log s \<and>
      (\<exists>r. register_at s k = Some r \<and> rg_revision r = v \<and>
        register_at s' = (register_at s)(k \<mapsto> r\<lparr>rg_revision := v + 1, rg_payload := new\<rparr>))" for k v new r' s'
    by (erule replace_register_effect [OF wf])
      (auto simp: store_log_def session_exists_def register_at_update fun_eq_iff)
  show "delete_session x s = Inr (u, s') \<Longrightarrow> store_wf s' \<and> store_log s' = (store_log s)(x := None) \<and>
      (\<forall>k. register_at s' k = (if rk_session k = x then None else register_at s k))" for x u s'
    using delete_session_effect [OF wf, of x u s']
    by (auto simp: store_log_def session_exists_def fun_eq_iff)
qed

section \<open>Transactions\<close>

text \<open>The sessions that a callback may delete, on some answers of the store.\<close>

primrec deletes :: "callback \<Rightarrow> string set" where
  "deletes (Return r) = {}"
| "deletes Panic = {}"
| "deletes (ReadEntries sid after k) = (\<Union>x. deletes (k x))"
| "deletes (ReadRegister key k) = (\<Union>x. deletes (k x))"
| "deletes (InsertEntry d k) = (\<Union>x. deletes (k x))"
| "deletes (InsertRegister d k) = (\<Union>x. deletes (k x))"
| "deletes (ReplaceRegister key v new k) = (\<Union>x. deletes (k x))"
| "deletes (DeleteSession sid k) = insert sid (\<Union>x. deletes (k x))"

text \<open>What holds of every state that the operations of a callback pass through.\<close>

lemma run_callback_induct:
  assumes start: "P (tx_state t)"
    and entry: "\<And>s d m e s'. P s \<Longrightarrow> insert_entry d (clock m) s = Inr (e, s') \<Longrightarrow> P s'"
    and register: "\<And>s d r s'. P s \<Longrightarrow> insert_register d s = Inr (r, s') \<Longrightarrow> P s'"
    and replace: "\<And>s k v new r s'. P s \<Longrightarrow> replace_register k v new s = Inr (r, s') \<Longrightarrow> P s'"
    and delete: "\<And>s sid u s'. sid \<in> deletes fn \<Longrightarrow> P s \<Longrightarrow> delete_session sid s = Inr (u, s') \<Longrightarrow> P s'"
  shows "P (tx_state (snd (run_callback clock fn n t)))"
proof -
  have mutate: "P (tx_state (snd (txn_mutate f t)))"
    if "P (tx_state t)" "\<And>a s'. f (tx_state t) = Inr (a, s') \<Longrightarrow> P s'"
    for f :: "memory_state \<Rightarrow> store_error + 'b \<times> memory_state" and t
    using that by (auto simp: txn_mutate_def latch_def split: sum.splits)
  have del: "P (tx_state (snd (txn_delete sid t)))" if "sid \<in> deletes fn" "P (tx_state t)" for sid t
    using that delete by (auto simp: txn_delete_def split: sum.splits)
  define D where "D = deletes fn"
  then have "deletes fn \<subseteq> D" by simp
  from start this show ?thesis
  proof (induction fn arbitrary: n t)
    case (InsertEntry d k)
    then show ?case by (auto simp: Let_def UN_subset_iff del: subsetI intro!: InsertEntry.IH mutate dest: entry)
  next
    case (InsertRegister d k)
    then show ?case by (auto simp: Let_def UN_subset_iff del: subsetI intro!: InsertRegister.IH mutate dest: register)
  next
    case (ReplaceRegister key v new k)
    then show ?case by (auto simp: Let_def UN_subset_iff del: subsetI intro!: ReplaceRegister.IH mutate dest: replace)
  next
    case (DeleteSession sid k)
    then show ?case by (auto simp: Let_def UN_subset_iff D_def del: subsetI intro!: DeleteSession.IH del)
  next
    case (ReadEntries sid after k)
    then show ?case by (auto simp: UN_subset_iff del: subsetI intro!: ReadEntries.IH)
  next
    case (ReadRegister key k)
    then show ?case by (auto simp: UN_subset_iff del: subsetI intro!: ReadRegister.IH)
  qed simp_all
qed

definition after_transact ::
  "(nat \<Rightarrow> go_error option) \<Rightarrow> (nat \<Rightarrow> timestamp) \<Rightarrow> callback \<Rightarrow> memory_state \<Rightarrow> memory_state" where
  "after_transact ctx clock fn s = fst (snd (transact ctx clock fn s))"

definition callback_end :: "(nat \<Rightarrow> timestamp) \<Rightarrow> callback \<Rightarrow> memory_state \<Rightarrow> callback_outcome \<times> memory_txn" where
  "callback_end clock fn s = run_callback clock fn 0 \<lparr>tx_state = s, tx_latched = None, tx_closed = False\<rparr>"

lemma after_transact_cases:
  "after_transact ctx clock fn s = s \<or> after_transact ctx clock fn s = tx_state (snd (callback_end clock fn s))"
  by (auto simp: after_transact_def transact_def callback_end_def Let_def split: option.splits callback_outcome.splits)

lemma callback_end_wf:
  assumes "\<And>n. clock n \<noteq> 0" "store_wf s"
  shows "store_wf (tx_state (snd (callback_end clock fn s)))"
  unfolding callback_end_def
proof (rule run_callback_induct [where P = store_wf])
  show "store_wf s' \<Longrightarrow> insert_entry d (clock m) s' = Inr (e, s'') \<Longrightarrow> store_wf s''" for s' d m e s''
    using assms(1) by (rule insert_entry_wf [rotated])
  show "store_wf s' \<Longrightarrow> insert_register d s' = Inr (r, s'') \<Longrightarrow> store_wf s''" for s' d r s''
    by (rule insert_register_effect(4))
  show "store_wf s' \<Longrightarrow> replace_register k v new s' = Inr (r, s'') \<Longrightarrow> store_wf s''" for s' k v new r s''
    by (erule (1) replace_register_effect)
  show "store_wf s' \<Longrightarrow> delete_session x s' = Inr (u, s'') \<Longrightarrow> store_wf s''" for s' x u s''
    by (rule delete_session_effect(3))
qed (use assms(2) in simp)

lemma callback_end_later:
  assumes "\<And>n. clock n \<noteq> 0" "store_wf s" "sid \<notin> deletes fn"
  shows "mem.later sid s (tx_state (snd (callback_end clock fn s)))"
proof -
  have "store_wf (tx_state (snd (callback_end clock fn s))) \<and> mem.later sid s (tx_state (snd (callback_end clock fn s)))"
    unfolding callback_end_def
  proof (rule run_callback_induct [where P = "\<lambda>s'. store_wf s' \<and> mem.later sid s s'"])
    fix s' d m e s'' assume "store_wf s' \<and> mem.later sid s s'" "insert_entry d (clock m) s' = Inr (e, s'')"
    then show "store_wf s'' \<and> mem.later sid s s''"
      using assms(1) insert_entry_wf mem.insert_entry_later mem.later_trans by blast
  next
    fix s' d r s'' assume "store_wf s' \<and> mem.later sid s s'" "insert_register d s' = Inr (r, s'')"
    then show "store_wf s'' \<and> mem.later sid s s''"
      using insert_register_effect(4) mem.insert_register_later mem.later_trans by blast
  next
    fix s' k v new r s'' assume "store_wf s' \<and> mem.later sid s s'" "replace_register k v new s' = Inr (r, s'')"
    then show "store_wf s'' \<and> mem.later sid s s''"
      using mem.replace_register mem.replace_register_later mem.later_trans by blast
  next
    fix s' x u s'' assume "x \<in> deletes fn" "store_wf s' \<and> mem.later sid s s'" "delete_session x s' = Inr (u, s'')"
    then show "store_wf s'' \<and> mem.later sid s s''"
      using assms(3) delete_session_effect(3) mem.delete_session_later mem.later_trans by metis
  qed (use assms(2) mem.later_refl in simp)
  then show ?thesis ..
qed

text \<open>A run is a sequence of calls of \<open>Transact\<close>, whatever each of them returns.\<close>

fun transact_all :: "((nat \<Rightarrow> go_error option) \<times> (nat \<Rightarrow> timestamp) \<times> callback) list \<Rightarrow> memory_state \<Rightarrow> memory_state" where
  "transact_all [] s = s"
| "transact_all ((ctx, clock, fn) # ts) s = transact_all ts (after_transact ctx clock fn s)"

text \<open>The clock never shows the zero time, and no callback deletes the Session.\<close>

definition clocks_run :: "((nat \<Rightarrow> go_error option) \<times> (nat \<Rightarrow> timestamp) \<times> callback) list \<Rightarrow> bool" where
  "clocks_run ts \<longleftrightarrow> list_all (\<lambda>(ctx, clock, fn). \<forall>n. clock n \<noteq> 0) ts"

definition none_deletes :: "string \<Rightarrow> ((nat \<Rightarrow> go_error option) \<times> (nat \<Rightarrow> timestamp) \<times> callback) list \<Rightarrow> bool" where
  "none_deletes sid ts \<longleftrightarrow> list_all (\<lambda>(ctx, clock, fn). sid \<notin> deletes fn) ts"

lemma transact_all_wf: "store_wf s \<Longrightarrow> clocks_run ts \<Longrightarrow> store_wf (transact_all ts s)"
proof (induction ts s rule: transact_all.induct)
  case (2 ctx clock fn ts s)
  then show ?case
    using callback_end_wf [of clock s fn] after_transact_cases [of ctx clock fn s]
    by (auto simp: clocks_run_def)
qed simp

lemma transact_all_later: "store_wf s \<Longrightarrow> clocks_run ts \<Longrightarrow> none_deletes sid ts \<Longrightarrow> mem.later sid s (transact_all ts s)"
proof (induction ts s rule: transact_all.induct)
  case (2 ctx clock fn ts s)
  then have c: "\<And>n. clock n \<noteq> 0" "sid \<notin> deletes fn" by (simp_all add: clocks_run_def none_deletes_def)
  let ?s = "after_transact ctx clock fn s"
  have "mem.later sid s ?s" "store_wf ?s"
    using callback_end_wf [OF c(1) "2.prems"(1)] callback_end_later [OF c(1) "2.prems"(1) c(2)] 2(2)
      after_transact_cases [of ctx clock fn s] mem.later_refl by auto
  with 2 mem.later_trans show ?case by (auto simp: clocks_run_def none_deletes_def)
qed (simp add: mem.later_refl)

text \<open>No transaction corrupts the store. Whatever its callback does (and whether it returns, fails or panics), a
  well-formed state is left well formed: keys and identities unique, sequences positive and increasing in every Session,
  revisions within 64 bits, and no record without the register of its Session.\<close>

theorem transact_keeps_wf:
  "store_wf s \<Longrightarrow> (\<And>n. clock n \<noteq> 0) \<Longrightarrow> store_wf (after_transact ctx clock fn s)"
  using transact_all_wf [of s "[(ctx, clock, fn)]"] by (simp add: clocks_run_def)

theorem transact_keeps_wf_witness:
  "store_wf (after_transact (\<lambda>_. None) (\<lambda>_. 1)
     (InsertRegister \<lparr>rd_key = session_key ''s'', rd_payload = Value JNull\<rparr> (\<lambda>_. Return None)) new_memory_state)"
  by (rule transact_keeps_wf [OF new_memory_state_wf]) simp

text \<open>The errors that the mutations of a callback return to it.\<close>

primrec mutation_errors :: "(nat \<Rightarrow> timestamp) \<Rightarrow> callback \<Rightarrow> nat \<Rightarrow> memory_txn \<Rightarrow> store_error list" where
  "mutation_errors clock (Return r) n t = []"
| "mutation_errors clock Panic n t = []"
| "mutation_errors clock (ReadEntries sid after k) n t = mutation_errors clock (k (txn_read (read_entries sid after) t)) n t"
| "mutation_errors clock (ReadRegister key k) n t = mutation_errors clock (k (txn_read (read_register key) t)) n t"
| "mutation_errors clock (InsertEntry d k) n t =
     (let rt = txn_mutate (insert_entry d (clock n)) t
      in (case fst rt of Inl e \<Rightarrow> [e] | Inr _ \<Rightarrow> []) @ mutation_errors clock (k (fst rt)) (Suc n) (snd rt))"
| "mutation_errors clock (InsertRegister d k) n t =
     (let rt = txn_mutate (insert_register d) t
      in (case fst rt of Inl e \<Rightarrow> [e] | Inr _ \<Rightarrow> []) @ mutation_errors clock (k (fst rt)) n (snd rt))"
| "mutation_errors clock (ReplaceRegister key v new k) n t =
     (let rt = txn_mutate (replace_register key v new) t
      in (case fst rt of Inl e \<Rightarrow> [e] | Inr _ \<Rightarrow> []) @ mutation_errors clock (k (fst rt)) n (snd rt))"
| "mutation_errors clock (DeleteSession sid k) n t =
     (let rt = txn_delete sid t in mutation_errors clock (k (fst rt)) n (snd rt))"

lemma txn_mutate_latched:
  "tx_latched (snd (txn_mutate f t)) =
     (case tx_latched t of Some e \<Rightarrow> Some e
      | None \<Rightarrow> (case fst (txn_mutate f t) of Inl e \<Rightarrow> if latches e then Some e else None | Inr _ \<Rightarrow> None))"
  by (auto simp: txn_mutate_def latch_def guard_def ensure_def split: sum.splits option.splits)

lemma txn_delete_latched: "tx_latched (snd (txn_delete sid t)) = tx_latched t"
  by (auto simp: txn_delete_def split: sum.splits)

lemma run_callback_latched:
  "tx_latched (snd (run_callback clock fn n t)) =
     (case tx_latched t of Some e \<Rightarrow> Some e | None \<Rightarrow> find latches (mutation_errors clock fn n t))"
proof (induction fn arbitrary: n t)
  case (InsertEntry d k)
  show ?case
    by (simp add: Let_def InsertEntry.IH [OF rangeI] txn_mutate_latched split: option.splits sum.splits)
next
  case (InsertRegister d k)
  show ?case
    by (simp add: Let_def InsertRegister.IH [OF rangeI] txn_mutate_latched split: option.splits sum.splits)
next
  case (ReplaceRegister key v new k)
  show ?case
    by (simp add: Let_def ReplaceRegister.IH [OF rangeI] txn_mutate_latched split: option.splits sum.splits)
next
  case (DeleteSession sid k)
  show ?case by (simp add: Let_def DeleteSession.IH [OF rangeI] txn_delete_latched split: option.split)
qed (simp_all split: option.splits)

text \<open>C14: Transactions are atomic, and a conflict cannot be swallowed. A call of \<open>Transact\<close> succeeds exactly when the
  context is never cancelled, the callback returns without an error and none of its mutations failed with a conflict
  or a storage failure, even one the callback ignored; then the state is the one the callback made, and on every
  other outcome, a panic included, it is the state before.\<close>

theorem transact_atomic:
  "(fst (transact ctx clock fn s) = Returned None) =
     (ctx 0 = None \<and> ctx 1 = None \<and> ctx 2 = None \<and> fst (callback_end clock fn s) = Returned None \<and>
      find latches (mutation_errors clock fn 0 \<lparr>tx_state = s, tx_latched = None, tx_closed = False\<rparr>) = None)
   \<and> after_transact ctx clock fn s =
       (if fst (transact ctx clock fn s) = Returned None then tx_state (snd (callback_end clock fn s)) else s)"
  using run_callback_latched [of clock fn 0 "\<lparr>tx_state = s, tx_latched = None, tx_closed = False\<rparr>"]
  by (auto simp: transact_def after_transact_def callback_end_def Let_def
      split: option.splits callback_outcome.splits)

text \<open>After \<open>Transact\<close> has returned, a transaction the callback kept can neither read nor write.\<close>

lemma expired_transaction:
  assumes "transact ctx clock fn s = (out, s', Some txn)"
  shows "txn_mutate f txn = (Inl (ErrInvalid ''transaction has expired''), txn)"
    and "txn_read g txn = Inl (ErrInvalid ''transaction has expired'')"
    and "txn_delete sid txn = (Inl (ErrInvalid ''transaction has expired''), txn)"
proof -
  have "tx_closed txn"
    using assms by (auto simp: transact_def Let_def split: option.splits callback_outcome.splits)
  then show "txn_mutate f txn = (Inl (ErrInvalid ''transaction has expired''), txn)"
    "txn_read g txn = Inl (ErrInvalid ''transaction has expired'')"
    "txn_delete sid txn = (Inl (ErrInvalid ''transaction has expired''), txn)"
    by (simp_all add: txn_mutate_def txn_read_def txn_delete_def guard_def)
qed

text \<open>C21: A reader that polls a Session misses nothing and sees nothing twice. Across any sequence of transactions that
  do not delete the Session, reading from the beginning gives what it gave before followed by new entries, and reading
  after the last entry seen gives exactly the new ones.\<close>

theorem polling_is_exact:
  assumes "store_wf s" "clocks_run ts" "none_deletes sid ts" "read_entries sid 0 s = Inr es"
  shows "\<exists>new. read_entries sid 0 (transact_all ts s) = Inr (es @ new)
    \<and> read_entries sid (if es = [] then 0 else en_sequence (last es)) (transact_all ts s) = Inr new"
  using mem.poll [OF assms(1) transact_all_wf [OF assms(1,2)] transact_all_later [OF assms(1-3)] assms(4)]
  by (simp add: mem.seen_def)

text \<open>C29: No update is lost. If a register was read and, after any sequence of transactions that do not delete its
  Session, a replacement against the revision that was read succeeds, then nobody changed the register in between.\<close>

theorem replace_loses_no_update:
  assumes "store_wf s" "clocks_run ts" "none_deletes (rk_session k) ts" "read_register k s = Inr r"
    "replace_register k (rg_revision r) new (transact_all ts s) = Inr (r'', s'')"
  shows "read_register k (transact_all ts s) = Inr r"
  using mem.no_lost_update [OF assms(1) transact_all_wf [OF assms(1,2)] transact_all_later [OF assms(1-3)] assms(4,5)] .

section \<open>A sample\<close>

definition sample_entry :: stored_entry where
  "sample_entry = \<lparr>en_session = ''s'', en_id = ''e1'', en_sequence = 1, en_operation = [], en_kind = KindInput,
     en_committed_at = 1, se_payload = Value JNull\<rparr>"

definition sample_register :: register where
  "sample_register = \<lparr>rg_key = session_key ''s'', rg_revision = 1, rg_payload = Value JNull\<rparr>"

definition sample_store :: memory_state where
  "sample_store = \<lparr>ms_entries = [(''s'', [sample_entry])], ms_registers = [(session_key ''s'', sample_register)]\<rparr>"

definition sample_draft :: entry_draft where
  "sample_draft = \<lparr>ed_session = ''s'', ed_id = ''e2'', ed_operation = [], ed_kind = KindAssistant, ed_payload = Value JNull\<rparr>"

definition sample_run :: "((nat \<Rightarrow> go_error option) \<times> (nat \<Rightarrow> timestamp) \<times> callback) list" where
  "sample_run = [(\<lambda>_. None, \<lambda>_. 5, InsertEntry sample_draft (\<lambda>_. Return None))]"

lemmas sample_defs = sample_entry_def sample_register_def sample_store_def sample_draft_def sample_run_def

lemma sample_store_wf: "store_wf sample_store"
  by (simp add: store_wf_def sample_defs register_at_def entry_list_def session_exists_def entry_ok_def register_ok_def
      validate_stored_entry_def validate_register_key_def largest_int64_def session_key_def)

lemma sample_run_ok: "clocks_run sample_run" "none_deletes sid sample_run"
  by (simp_all add: clocks_run_def none_deletes_def sample_run_def)

lemma sample_reads: "read_entries ''s'' 0 sample_store = Inr [sample_entry]"
  "read_register (session_key ''s'') sample_store = Inr sample_register"
  by (simp_all add: read_entries_wf [OF sample_store_wf] read_register_wf [OF sample_store_wf])
    (simp_all add: sample_defs session_exists_def register_at_def entry_list_def)

lemma sample_replace:
  "\<exists>q. replace_register (session_key ''s'') 1 (Value JNull) (transact_all sample_run sample_store) = Inr q"
  by (simp add: sample_defs after_transact_def transact_def txn_mutate_def guard_def insert_entry_def Let_def register_at_def
      validate_entry_draft_def has_entry_id_def entry_list_def max_sequence_def largest_int64_def replace_register_def
      validate_register_key_def session_orphaned_def session_key_def)

theorem polling_is_exact_witness:
  "\<exists>new. read_entries ''s'' 0 (transact_all sample_run sample_store) = Inr ([sample_entry] @ new)
    \<and> read_entries ''s'' 1 (transact_all sample_run sample_store) = Inr new"
  using polling_is_exact [OF sample_store_wf sample_run_ok sample_reads(1)] by (simp add: sample_entry_def)

theorem replace_loses_no_update_witness:
  "read_register (session_key ''s'') (transact_all sample_run sample_store) = Inr sample_register"
proof -
  obtain q where "replace_register (session_key ''s'') 1 (Value JNull) (transact_all sample_run sample_store) = Inr q"
    using sample_replace by blast
  then have "replace_register (session_key ''s'') (rg_revision sample_register) (Value JNull)
      (transact_all sample_run sample_store) = Inr (fst q, snd q)"
    by (simp add: sample_register_def)
  then show ?thesis
    by (rule replace_loses_no_update [OF sample_store_wf sample_run_ok sample_reads(2)])
qed

section \<open>Listing\<close>

lemma session_registers:
  assumes "store_wf s"
  shows "set (map snd (filter (\<lambda>(k, q). rk_kind k = RegisterOperation)
      (filter (\<lambda>(k, q). rk_session k = sid) (ms_registers s)))) =
    {r. \<exists>k. register_at s k = Some r \<and> rk_session k = sid \<and> rk_kind k = RegisterOperation}"
  using register_at_iff [OF store_wfD(2) [OF assms]] by (force simp: image_iff)

lemma own_registers_count:
  assumes "store_wf s" "register_at s (session_key sid) = Some r"
  shows "length (filter (\<lambda>(k, q). rk_session k = sid) (ms_registers s)) =
    1 + length (filter (\<lambda>(k, q). rk_kind k = RegisterOperation) (filter (\<lambda>(k, q). rk_session k = sid) (ms_registers s)))"
proof -
  let ?own = "filter (\<lambda>(k, q). rk_session k = sid) (ms_registers s)"
  have d: "distinct (map fst (ms_registers s))" by (rule store_wfD(2) [OF assms(1)])
  have key: "k = session_key sid" if "(k, q) \<in> set ?own" "rk_kind k \<noteq> RegisterOperation" for k q
  proof -
    from that d have "register_at s k = Some q" "rk_session k = sid" by (auto simp: register_at_iff)
    with store_wfD(3) [OF assms(1)] that(2) validate_key_session show ?thesis by (auto simp: register_ok_def)
  qed
  have "set (filter (\<lambda>x. \<not> (case x of (k, q) \<Rightarrow> rk_kind k = RegisterOperation)) ?own) = {(session_key sid, r)}"
    (is "?l = _")
  proof (intro equalityI subsetI)
    fix x assume x: "x \<in> ?l"
    obtain k q where kq: "x = (k, q)" by (cases x)
    with x key have "k = session_key sid" "(k, q) \<in> set (ms_registers s)" by auto
    with kq assms(2) register_at_iff [OF d] show "x \<in> {(session_key sid, r)}" by simp
  qed (use assms(2) register_at_iff [OF d] in auto)
  moreover have "distinct (filter (\<lambda>x. \<not> (case x of (k, q) \<Rightarrow> rk_kind k = RegisterOperation)) ?own)"
    using d by (simp add: distinct_map)
  ultimately have "length (filter (\<lambda>x. \<not> (case x of (k, q) \<Rightarrow> rk_kind k = RegisterOperation)) ?own) = 1"
    by (metis distinct_card card.empty card.insert empty_iff finite.emptyI One_nat_def)
  with sum_length_filter_compl [of "\<lambda>(k, q). rk_kind k = RegisterOperation" ?own] show ?thesis by simp
qed

lemma operation_registers_distinct:
  assumes "store_wf s"
  shows "distinct (map (\<lambda>q. rk_operation (rg_key q))
    (map snd (filter (\<lambda>(k, q). rk_kind k = RegisterOperation) (filter (\<lambda>(k, q). rk_session k = sid) (ms_registers s)))))"
proof -
  let ?ops = "filter (\<lambda>(k, q). rk_kind k = RegisterOperation) (filter (\<lambda>(k, q). rk_session k = sid) (ms_registers s))"
  have d: "distinct (map fst (ms_registers s))" by (rule store_wfD(2) [OF assms])
  have key: "register_at s k = Some q \<and> rg_key q = k \<and> rk_kind k = RegisterOperation" if "(k, q) \<in> set ?ops" for k q
    using that store_wfD(3) [OF assms, of k q] d by (auto simp: register_at_iff register_ok_def)
  have "inj_on (\<lambda>x. rk_operation (rg_key (snd x))) (set ?ops)"
  proof (rule inj_onI, clarify)
    fix k q k' q' assume x: "(k, q) \<in> set ?ops" "(k', q') \<in> set ?ops"
      "rk_operation (rg_key (snd (k, q))) = rk_operation (rg_key (snd (k', q')))"
    with key [OF x(1)] key [OF x(2)] have "k = k'" by (intro store_wfD(9) [OF assms]) auto
    with key [OF x(1)] key [OF x(2)] show "k = k' \<and> q = q'" by simp
  qed
  moreover have "distinct ?ops" using d by (simp add: distinct_map)
  ultimately show ?thesis by (simp add: distinct_map o_def)
qed

lemma list_session_ids_set: "store_wf s \<Longrightarrow> set (list_session_ids s) = {sid. session_exists s sid}"
proof -
  assume wf: "store_wf s"
  have "session_exists s sid" if "(sid, es) \<in> set (ms_entries s)" for sid es
  proof -
    have "entry_list s sid = es" "es \<noteq> []"
      using that store_wfD(1,10) [OF wf] by (auto simp: entry_list_def)
    with store_wfD(6) [OF wf] show ?thesis by (metis list.set_sel(1))
  qed
  moreover have "session_exists s (rk_session k)" if "(k, r) \<in> set (ms_registers s)" for k r
    using that store_wfD(2,4) [OF wf] by (auto simp: register_at_iff)
  moreover have "\<exists>k r. (k, r) \<in> set (ms_registers s) \<and> rk_session k = sid" if "session_exists s sid" for sid
    using that store_wfD(2) [OF wf] by (auto simp: session_exists_def register_at_iff intro!: exI [of _ "session_key sid"])
  ultimately show ?thesis
    by (fastforce simp: list_session_ids_def)
qed

text \<open>A Session is read back whole, and every Session is found. The registers read for a Session are its own register,
  then every register of its operations in strictly increasing order of their identities; and the identities listed
  are exactly those of the Sessions that exist, sorted and without duplicates.\<close>

theorem sessions_read_back_whole:
  assumes "store_wf s" "register_at s (session_key sid) = Some r"
  shows "\<exists>ops. read_registers sid s = Inr (r # ops)
    \<and> set ops = {q. \<exists>k. register_at s k = Some q \<and> rk_session k = sid \<and> rk_kind k = RegisterOperation}
    \<and> sorted_wrt (<) (map (\<lambda>q. rk_operation (rg_key q)) ops)
    \<and> set (list_session_ids s) = {x. session_exists s x} \<and> sorted_wrt (<) (list_session_ids s)"
proof -
  define own where "own = filter (\<lambda>(k, q). rk_session k = sid) (ms_registers s)"
  define ops where "ops = map snd (filter (\<lambda>(k, q). rk_kind k = RegisterOperation) own)"
  define sorted where "sorted = sort_key (\<lambda>q. rk_operation (rg_key q)) ops"
  have ops: "set ops = {q. \<exists>k. register_at s k = Some q \<and> rk_session k = sid \<and> rk_kind k = RegisterOperation}"
    unfolding ops_def own_def by (rule session_registers [OF assms(1)])
  have at: "register_at s (rg_key q) = Some q \<and> rk_kind (rg_key q) = RegisterOperation \<and> validate_stored_register q = Inr ()"
    if "q \<in> set ops" for q
    using that store_wfD(3) [OF assms(1)] register_ok_stored by (auto simp: ops register_ok_def)
  have own: "length own = 1 + length ops"
    using own_registers_count [OF assms] by (simp add: ops_def own_def)
  have "distinct (map (\<lambda>q. rk_operation (rg_key q)) ops)"
    using operation_registers_distinct [OF assms(1), of sid] by (simp add: ops_def own_def)
  then have "sorted_wrt (<) (map (\<lambda>q. rk_operation (rg_key q)) sorted)"
    unfolding sorted_def by (simp add: strict_sorted_iff distinct_map)
  moreover have "read_registers sid s = Inr (r # sorted)"
  proof -
    have "first_error validate_stored_register sorted = Inr ()"
      using at by (simp add: res_simps sorted_def)
    moreover have "validate_stored_register r = Inr ()" "sid \<noteq> []"
      using register_ok_stored [OF store_wfD(3) [OF assms]] by (auto simp: validate_register_key_def)
    moreover have "length (filter (\<lambda>(k, q). rk_kind k = RegisterOperation) own) = length ops" by (simp add: ops_def)
    ultimately show ?thesis
      using own assms(2) wf_not_orphaned [OF assms(1), of sid]
      by (simp add: read_registers_def Let_def flip: own_def ops_def sorted_def)
  qed
  moreover have "set (list_session_ids s) = {x. session_exists s x} \<and> sorted_wrt (<) (list_session_ids s)"
    using list_session_ids_set [OF assms(1)] by (simp add: list_session_ids_def strict_sorted_iff)
  ultimately show ?thesis using ops by (intro exI [of _ sorted]) (simp add: sorted_def)
qed

theorem sessions_read_back_whole_witness:
  "\<exists>ops. read_registers ''s'' sample_store = Inr (sample_register # ops) \<and> sorted_wrt (<) (list_session_ids sample_store)"
  using sessions_read_back_whole [OF sample_store_wf, of "''s''" sample_register]
  by (auto simp: sample_store_def register_at_def)

end
