(* ===== verification/Jobs.thy ===== *)
theory Jobs
  imports Json Go_Number "HOL-Library.List_Lexorder" "HOL-Library.Char_ord"
begin

text \<open>
  The background jobs service (\<open>src/internal/jobs/jobs.go\<close>). Every critical section of the service is a function on the
  state that its mutexes guard: the records by address, the map of identities to records, the closed flag and the
  counter of the work group. \<open>job_step\<close> interleaves them: the exit and timeout goroutines of every started job, any
  number of concurrent callers, and the operating system, which ends a process when it likes and with any result.
  Signals are not modelled, since nothing the service decides depends on whether they arrive.
\<close>

section \<open>Settings\<close>

record job_settings =
  max_background :: int
  max_output :: int
  max_line :: int

definition default_settings :: job_settings where
  "default_settings = \<lparr>max_background = 10, max_output = 15360, max_line = 5000\<rparr>"

text \<open>\<open>encoding/json\<close> matches a member with a field when their names agree up to Unicode case folding; the runes that
  fold to an ASCII letter are its two cases, the long s and the Kelvin sign.\<close>

definition fold_rune :: "nat \<Rightarrow> nat" where
  "fold_rune r = (if 97 \<le> r \<and> r \<le> 122 then r - 32 else if r = 0x17F then 83 else if r = 0x212A then 75 else r)"

definition same_name :: "string \<Rightarrow> string \<Rightarrow> bool" where
  "same_name a b \<longleftrightarrow> map fold_rune (runes a) = map fold_rune (runes b)"

definition json_int :: "json \<Rightarrow> int \<Rightarrow> int option" where
  "json_int v old = (case v of JNull \<Rightarrow> Some old | JNum t \<Rightarrow> atoi t | _ \<Rightarrow> None)"

definition set_field :: "string \<Rightarrow> json \<Rightarrow> job_settings \<Rightarrow> job_settings option" where
  "set_field k v s =
     (if same_name k ''max_background_processes'' then map_option (\<lambda>n. s\<lparr>max_background := n\<rparr>) (json_int v (max_background s))
      else if same_name k ''max_output_bytes'' then map_option (\<lambda>n. s\<lparr>max_output := n\<rparr>) (json_int v (max_output s))
      else if same_name k ''read_line_max_chars'' then map_option (\<lambda>n. s\<lparr>max_line := n\<rparr>) (json_int v (max_line s))
      else Some s)"

fun set_fields :: "(string \<times> json) list \<Rightarrow> job_settings \<Rightarrow> job_settings option" where
  "set_fields [] s = Some s"
| "set_fields ((k, v) # ms) s = Option.bind (set_field k v s) (set_fields ms)"

definition unmarshal_settings :: "raw \<Rightarrow> job_settings \<Rightarrow> job_settings option" where
  "unmarshal_settings r s =
     (case r of Value (JObj ms) \<Rightarrow> set_fields ms s | Value JNull \<Rightarrow> Some s | _ \<Rightarrow> None)"

datatype job_error =
  JobsClosed
| NoProcess string
| RandomFailed
| InvalidSettings
| SettingRange string
| LimitReached nat int
| SpawnFailed string

definition blank_config :: "raw \<Rightarrow> bool" where
  "blank_config r = (case r of NoBytes \<Rightarrow> True | Malformed t \<Rightarrow> trim_space t = [] | Value _ \<Rightarrow> False)"

definition decode_settings :: "raw \<Rightarrow> job_error + job_settings" where
  "decode_settings r =
     (case (if blank_config r then Some default_settings else unmarshal_settings r default_settings) of
        None \<Rightarrow> Inl InvalidSettings
      | Some s \<Rightarrow>
          (if max_background s < 1 \<or> 50 < max_background s then Inl (SettingRange ''max_background_processes'')
           else if max_output s < 1024 \<or> 1048576 < max_output s then Inl (SettingRange ''max_output_bytes'')
           else if max_line s < 100 \<or> 100000 < max_line s then Inl (SettingRange ''read_line_max_chars'')
           else Inr s))"

definition validate_settings :: "raw \<Rightarrow> job_error + unit" where
  "validate_settings r = rbind (decode_settings r) (\<lambda>_. Inr ())"

section \<open>Records\<close>

datatype job_state = StateReserved | StateRunning | StateExited
datatype exit_reason = ReasonCompleted | ReasonError | ReasonTimeout | ReasonKilled

text \<open>An empty reason is \<open>None\<close>; \<open>jr_done\<close> is whether the channel is closed; \<open>jr_callback\<close> whether \<open>OnExit\<close> is not nil.\<close>

record job_record =
  jr_id :: string
  jr_done :: bool
  jr_state :: job_state
  jr_session :: string
  jr_command :: string
  jr_started :: int
  jr_pid :: nat
  jr_callback :: bool
  jr_max_bytes :: int
  jr_exit_code :: int
  jr_reason :: "exit_reason option"

record exit_result =
  er_id :: string
  er_command :: string
  er_reason :: "exit_reason option"
  er_code :: int
  er_output :: string
  er_max_bytes :: int

record start_request =
  sq_job :: string
  sq_session :: string
  sq_workspace :: string
  sq_command :: string
  sq_timeout :: int
  sq_config :: raw
  sq_callback :: bool

record manager =
  mg_heap :: "job_record list"
  mg_jobs :: "(string \<times> nat) list"
  mg_closed :: bool
  mg_work :: nat

definition new_manager :: manager where
  "new_manager = \<lparr>mg_heap = [], mg_jobs = [], mg_closed = False, mg_work = 0\<rparr>"

definition new_record :: "string \<Rightarrow> job_record" where
  "new_record i =
     \<lparr>jr_id = i, jr_done = False, jr_state = StateReserved, jr_session = [], jr_command = [], jr_started = 0, jr_pid = 0,
      jr_callback = False, jr_max_bytes = 0, jr_exit_code = 0, jr_reason = None\<rparr>"

definition record_at :: "manager \<Rightarrow> nat \<Rightarrow> job_record" where
  "record_at m a = mg_heap m ! a"

definition update_record :: "nat \<Rightarrow> (job_record \<Rightarrow> job_record) \<Rightarrow> manager \<Rightarrow> manager" where
  "update_record a f m = m\<lparr>mg_heap := (mg_heap m)[a := f (mg_heap m ! a)]\<rparr>"

definition mark_reason :: "exit_reason \<Rightarrow> job_record \<Rightarrow> bool \<times> job_record" where
  "mark_reason reason r =
     (if jr_state r = StateExited \<or> jr_reason r \<noteq> None then (False, r) else (True, r\<lparr>jr_reason := Some reason\<rparr>))"

definition claim_killed :: "job_record \<Rightarrow> job_record" where
  "claim_killed r = (if jr_state r \<noteq> StateExited \<and> jr_reason r = None then r\<lparr>jr_reason := Some ReasonKilled\<rparr> else r)"

section \<open>The operations under the mutex\<close>

definition hex_digit :: "nat \<Rightarrow> char" where
  "hex_digit d = (if d < 10 then char_of (48 + d) else char_of (87 + d))"

definition hex_encode :: "nat list \<Rightarrow> string" where
  "hex_encode bs = concat (map (\<lambda>b. [hex_digit (b div 16), hex_digit (b mod 16)]) bs)"

text \<open>The random bytes are an argument; \<open>None\<close> is a failure to read them.\<close>

definition reserve :: "nat list option \<Rightarrow> manager \<Rightarrow> (job_error + string) \<times> manager" where
  "reserve random m =
     (case random of
        None \<Rightarrow> (Inl RandomFailed, m)
      | Some bs \<Rightarrow>
          (let i = hex_encode bs
           in if mg_closed m then (Inl JobsClosed, m)
              else (Inr i, m\<lparr>mg_heap := mg_heap m @ [new_record i],
                             mg_jobs := AList.update i (length (mg_heap m)) (mg_jobs m)\<rparr>)))"

definition forget :: "string \<Rightarrow> manager \<Rightarrow> manager" where
  "forget i m = m\<lparr>mg_jobs := AList.delete i (mg_jobs m)\<rparr>"

definition abort :: "string \<Rightarrow> manager \<Rightarrow> manager" where
  "abort i m =
     (case map_of (mg_jobs m) i of
        None \<Rightarrow> m
      | Some a \<Rightarrow> if jr_state (record_at m a) = StateReserved then forget i m else m)"

text \<open>The running jobs of a Session. \<open>Start\<close> reads the records one by one while a process may exit, so a record it has
  read as running may have exited since: \<open>late\<close> holds those.\<close>

definition running_jobs :: "nat list \<Rightarrow> string \<Rightarrow> manager \<Rightarrow> (string \<times> nat) list" where
  "running_jobs late sid m =
     filter (\<lambda>(i, a). (jr_state (record_at m a) = StateRunning \<or> a \<in> set late) \<and> jr_session (record_at m a) = sid) (mg_jobs m)"

definition start_record :: "start_request \<Rightarrow> job_settings \<Rightarrow> nat \<Rightarrow> int \<Rightarrow> job_record \<Rightarrow> job_record" where
  "start_record q s pid now r =
     r\<lparr>jr_state := StateRunning, jr_session := sq_session q, jr_command := sq_command q, jr_started := now, jr_pid := pid,
       jr_callback := sq_callback q, jr_max_bytes := max_output s, jr_done := False\<rparr>"

definition start :: "start_request \<Rightarrow> string + nat \<Rightarrow> int \<Rightarrow> nat list \<Rightarrow> manager \<Rightarrow> (job_error + nat) \<times> manager" where
  "start q spawn now late m =
     (if mg_closed m then (Inl JobsClosed, m)
      else (case map_of (mg_jobs m) (sq_job q) of
              None \<Rightarrow> (Inl (NoProcess (sq_job q)), m)
            | Some a \<Rightarrow>
                (if jr_state (record_at m a) \<noteq> StateReserved then (Inl (NoProcess (sq_job q)), m)
                 else (case decode_settings (sq_config q) of
                         Inl e \<Rightarrow> (Inl e, forget (sq_job q) m)
                       | Inr s \<Rightarrow>
                           (let running = length (running_jobs late (sq_session q) m)
                            in if max_background s \<le> int running
                               then (Inl (LimitReached running (max_background s)), forget (sq_job q) m)
                               else (case spawn of
                                       Inl e \<Rightarrow> (Inl (SpawnFailed e), forget (sq_job q) m)
                                     | Inr pid \<Rightarrow>
                                         (Inr a, (update_record a (start_record q s pid now) m)
                                            \<lparr>mg_work := mg_work m + 1 + (if 0 < sq_timeout q then 1 else 0)\<rparr>)))))))"

datatype wait_result = WaitOk | WaitExit int | WaitFailed

definition settle_exit :: "wait_result \<Rightarrow> job_record \<Rightarrow> job_record" where
  "settle_exit w r =
     r\<lparr>jr_state := StateExited,
       jr_exit_code := (case w of WaitOk \<Rightarrow> 0 | WaitExit c \<Rightarrow> c | WaitFailed \<Rightarrow> -1),
       jr_reason := (case jr_reason r of
                       Some x \<Rightarrow> Some x
                     | None \<Rightarrow> Some (if w = WaitOk then ReasonCompleted else ReasonError))\<rparr>"

definition result_of :: "job_record \<Rightarrow> string \<Rightarrow> exit_result" where
  "result_of r out =
     \<lparr>er_id = jr_id r, er_command = jr_command r, er_reason = jr_reason r, er_code = jr_exit_code r, er_output = out,
      er_max_bytes = jr_max_bytes r\<rparr>"

definition admits :: "nat \<Rightarrow> manager \<Rightarrow> bool" where
  "admits a m \<longleftrightarrow> jr_callback (record_at m a) \<and> \<not> mg_closed m"

definition remove_record :: "nat \<Rightarrow> manager \<Rightarrow> manager" where
  "remove_record a m =
     (let i = jr_id (record_at m a) in if map_of (mg_jobs m) i = Some a then forget i m else m)"

text \<open>\<open>Read\<close>, with the length and the text of a capture as arguments.\<close>

definition read_job :: "(nat \<Rightarrow> nat) \<Rightarrow> (nat \<Rightarrow> string) \<Rightarrow> string \<Rightarrow> string \<Rightarrow> manager \<Rightarrow> job_error + string" where
  "read_job len format sid i m =
     (case map_of (mg_jobs m) i of
        None \<Rightarrow> Inl (NoProcess i)
      | Some a \<Rightarrow>
          (if jr_state (record_at m a) = StateReserved \<or> jr_session (record_at m a) \<noteq> sid then Inl (NoProcess i)
           else if len a = 0 then Inr ''(No output yet)'' else Inr (format a)))"

text \<open>\<open>Kill\<close> up to the release of the mutex: an error, nothing to do, or the record to terminate.\<close>

definition kill_target :: "string \<Rightarrow> string \<Rightarrow> manager \<Rightarrow> job_error + nat option" where
  "kill_target sid i m =
     (case map_of (mg_jobs m) i of
        None \<Rightarrow> Inl (NoProcess i)
      | Some a \<Rightarrow>
          (if jr_state (record_at m a) = StateReserved \<or> jr_session (record_at m a) \<noteq> sid then Inl (NoProcess i)
           else if jr_state (record_at m a) = StateExited then Inr None
           else Inr (Some a)))"

text \<open>\<open>StopJob\<close> under the mutex: the record whose process it goes on to reap, if any.\<close>

definition stop_job :: "string \<Rightarrow> string \<Rightarrow> manager \<Rightarrow> nat option \<times> manager" where
  "stop_job sid i m =
     (case map_of (mg_jobs m) i of
        None \<Rightarrow> (None, m)
      | Some a \<Rightarrow>
          (if jr_state (record_at m a) = StateReserved then (None, forget i m)
           else if jr_state (record_at m a) = StateExited \<or> jr_session (record_at m a) \<noteq> sid then (None, m)
           else (Some a, update_record a claim_killed m)))"

definition live :: "string \<Rightarrow> manager \<Rightarrow> string list" where
  "live sid m = sort (map (\<lambda>(i, a). jr_id (record_at m a)) (running_jobs [] sid m))"

text \<open>\<open>Close\<close> under the mutex. It visits the records one by one while a process may exit: \<open>gone\<close> holds the records whose
  process exits before they are visited.\<close>

definition close_claims :: "nat list \<Rightarrow> manager \<Rightarrow> nat list" where
  "close_claims gone m =
     filter (\<lambda>a. jr_state (record_at m a) = StateRunning \<and> a \<notin> set gone) (map snd (mg_jobs m))"

definition close_begin :: "nat list \<Rightarrow> manager \<Rightarrow> nat list \<times> manager" where
  "close_begin gone m =
     (let claimed = close_claims gone m
      in (claimed, (fold (\<lambda>a. update_record a claim_killed) claimed m)\<lparr>mg_closed := True\<rparr>))"

definition close_finish :: "manager \<Rightarrow> manager" where
  "close_finish m = m\<lparr>mg_jobs := filter (\<lambda>(i, a). jr_state (record_at m a) \<noteq> StateReserved) (mg_jobs m)\<rparr>"

section \<open>The goroutines and the callers\<close>

datatype exit_pc = ExitNone | ExitWaiting | ExitSettled | ExitNotified | ExitInCallback | ExitReturned | ExitRemoved | ExitFinished
datatype timer_pc = TimerNone | TimerWaiting | TimerKilling | TimerFinished

datatype call_pc =
  CallIdle
| CallStopping nat
| CallKilling nat
| CallKillWait nat
| CallClosing "nat list"
| CallDraining
| CallClosed

datatype job_event = StopClaimed nat | CalledBack nat exit_result

record job_system =
  js_mgr :: manager
  js_exits :: "nat \<Rightarrow> exit_pc"
  js_timers :: "nat \<Rightarrow> timer_pc"
  js_calls :: "nat \<Rightarrow> call_pc"
  js_events :: "job_event list"

definition initial_system :: job_system where
  "initial_system =
     \<lparr>js_mgr = new_manager, js_exits = (\<lambda>_. ExitNone), js_timers = (\<lambda>_. TimerNone), js_calls = (\<lambda>_. CallIdle), js_events = []\<rparr>"

definition work_done :: "manager \<Rightarrow> manager" where
  "work_done m = m\<lparr>mg_work := mg_work m - 1\<rparr>"

inductive job_step :: "job_system \<Rightarrow> job_system \<Rightarrow> bool" where
  Reserve:
    "reserve random (js_mgr s) = (r, m) \<Longrightarrow> job_step s (s\<lparr>js_mgr := m\<rparr>)"
| Abort:
    "job_step s (s\<lparr>js_mgr := abort i (js_mgr s)\<rparr>)"
| Start_fails:
    "\<forall>a \<in> set late. jr_state (record_at (js_mgr s) a) = StateExited \<Longrightarrow> start q spawn now late (js_mgr s) = (Inl e, m) \<Longrightarrow>
       job_step s (s\<lparr>js_mgr := m\<rparr>)"
| Start:
    "\<forall>a \<in> set late. jr_state (record_at (js_mgr s) a) = StateExited \<Longrightarrow> start q spawn now late (js_mgr s) = (Inr a, m) \<Longrightarrow>
       job_step s (s\<lparr>js_mgr := m, js_exits := (js_exits s)(a := ExitWaiting),
                     js_timers := (if 0 < sq_timeout q then (js_timers s)(a := TimerWaiting) else js_timers s)\<rparr>)"
| Exit_settle:
    "js_exits s a = ExitWaiting \<Longrightarrow>
       job_step s (s\<lparr>js_mgr := update_record a (settle_exit w) (js_mgr s), js_exits := (js_exits s)(a := ExitSettled)\<rparr>)"
| Exit_notify:
    "js_exits s a = ExitSettled \<Longrightarrow>
       job_step s (s\<lparr>js_mgr := update_record a (\<lambda>r. r\<lparr>jr_done := True\<rparr>) (js_mgr s), js_exits := (js_exits s)(a := ExitNotified)\<rparr>)"
| Exit_admit:
    "js_exits s a = ExitNotified \<Longrightarrow> admits a (js_mgr s) \<Longrightarrow>
       job_step s (s\<lparr>js_exits := (js_exits s)(a := ExitInCallback),
                     js_events := js_events s @ [CalledBack a (result_of (record_at (js_mgr s) a) out)]\<rparr>)"
| Exit_skip:
    "js_exits s a = ExitNotified \<Longrightarrow> \<not> admits a (js_mgr s) \<Longrightarrow>
       job_step s (s\<lparr>js_exits := (js_exits s)(a := ExitReturned)\<rparr>)"
| Exit_return:
    "js_exits s a = ExitInCallback \<Longrightarrow> job_step s (s\<lparr>js_exits := (js_exits s)(a := ExitReturned)\<rparr>)"
| Exit_remove:
    "js_exits s a = ExitReturned \<Longrightarrow>
       job_step s (s\<lparr>js_mgr := remove_record a (js_mgr s), js_exits := (js_exits s)(a := ExitRemoved)\<rparr>)"
| Exit_finish:
    "js_exits s a = ExitRemoved \<Longrightarrow>
       job_step s (s\<lparr>js_mgr := work_done (js_mgr s), js_exits := (js_exits s)(a := ExitFinished)\<rparr>)"
| Timer_idle:
    "js_timers s a = TimerWaiting \<Longrightarrow> jr_done (record_at (js_mgr s) a) \<Longrightarrow>
       job_step s (s\<lparr>js_mgr := work_done (js_mgr s), js_timers := (js_timers s)(a := TimerFinished)\<rparr>)"
| Timer_late:
    "js_timers s a = TimerWaiting \<Longrightarrow> mark_reason ReasonTimeout (record_at (js_mgr s) a) = (False, r) \<Longrightarrow>
       job_step s (s\<lparr>js_mgr := work_done (js_mgr s), js_timers := (js_timers s)(a := TimerFinished)\<rparr>)"
| Timer_fires:
    "js_timers s a = TimerWaiting \<Longrightarrow> mark_reason ReasonTimeout (record_at (js_mgr s) a) = (True, r) \<Longrightarrow>
       job_step s (s\<lparr>js_mgr := update_record a (\<lambda>_. r) (js_mgr s), js_timers := (js_timers s)(a := TimerKilling)\<rparr>)"
| Timer_end:
    "js_timers s a = TimerKilling \<Longrightarrow>
       job_step s (s\<lparr>js_mgr := work_done (js_mgr s), js_timers := (js_timers s)(a := TimerFinished)\<rparr>)"
| Stop_nothing:
    "js_calls s c = CallIdle \<Longrightarrow> stop_job sid i (js_mgr s) = (None, m) \<Longrightarrow> job_step s (s\<lparr>js_mgr := m\<rparr>)"
| Stop_claim:
    "js_calls s c = CallIdle \<Longrightarrow> stop_job sid i (js_mgr s) = (Some a, m) \<Longrightarrow>
       job_step s (s\<lparr>js_mgr := m, js_calls := (js_calls s)(c := CallStopping a), js_events := js_events s @ [StopClaimed a]\<rparr>)"
| Stop_return:
    "js_calls s c = CallStopping a \<Longrightarrow> jr_done (record_at (js_mgr s) a) \<Longrightarrow>
       job_step s (s\<lparr>js_calls := (js_calls s)(c := CallIdle)\<rparr>)"
| Kill_begin:
    "js_calls s c = CallIdle \<Longrightarrow> kill_target sid i (js_mgr s) = Inr (Some a) \<Longrightarrow>
       job_step s (s\<lparr>js_calls := (js_calls s)(c := CallKilling a)\<rparr>)"
| Kill_mark:
    "js_calls s c = CallKilling a \<Longrightarrow>
       job_step s (s\<lparr>js_mgr := update_record a (\<lambda>r. snd (mark_reason ReasonKilled r)) (js_mgr s),
                     js_calls := (js_calls s)(c := CallKillWait a)\<rparr>)"
| Kill_return:
    "js_calls s c = CallKillWait a \<Longrightarrow> job_step s (s\<lparr>js_calls := (js_calls s)(c := CallIdle)\<rparr>)"
| Close_begin:
    "js_calls s c = CallIdle \<Longrightarrow> close_begin gone (js_mgr s) = (claimed, m) \<Longrightarrow>
       job_step s (s\<lparr>js_mgr := m, js_calls := (js_calls s)(c := CallClosing claimed)\<rparr>)"
| Close_reap:
    "js_calls s c = CallClosing (a # rest) \<Longrightarrow> jr_done (record_at (js_mgr s) a) \<Longrightarrow>
       job_step s (s\<lparr>js_calls := (js_calls s)(c := CallClosing rest)\<rparr>)"
| Close_drain:
    "js_calls s c = CallClosing [] \<Longrightarrow> mg_work (js_mgr s) = 0 \<Longrightarrow>
       job_step s (s\<lparr>js_calls := (js_calls s)(c := CallDraining)\<rparr>)"
| Close_finish:
    "js_calls s c = CallDraining \<Longrightarrow>
       job_step s (s\<lparr>js_mgr := close_finish (js_mgr s), js_calls := (js_calls s)(c := CallClosed)\<rparr>)"

inductive job_reachable :: "job_system \<Rightarrow> bool" where
  init: "job_reachable initial_system"
| step: "job_reachable s \<Longrightarrow> job_step s s' \<Longrightarrow> job_reachable s'"

end
