(* ===== verification/Jobs_Safe.thy ===== *)
theory Jobs_Safe
  imports Jobs
begin

text \<open>
  Invariants of the jobs service over every interleaving, and what they give: a callback runs at most once and with
  the first reason claimed, a job stopped while it ran never reports that it completed, a Session never has more running
  jobs than the limit, and when \<open>Close\<close> has returned nothing of the service is left or ever starts again.
\<close>

section \<open>One job\<close>

definition done_pcs :: "exit_pc set" where
  "done_pcs = {ExitNotified, ExitInCallback, ExitReturned, ExitRemoved, ExitFinished}"

definition called_pcs :: "exit_pc set" where
  "called_pcs = {ExitInCallback, ExitReturned, ExitRemoved, ExitFinished}"

definition exit_live :: "exit_pc \<Rightarrow> bool" where
  "exit_live p \<longleftrightarrow> p \<noteq> ExitNone \<and> p \<noteq> ExitFinished"

definition timer_live :: "timer_pc \<Rightarrow> bool" where
  "timer_live p \<longleftrightarrow> p = TimerWaiting \<or> p = TimerKilling"

definition stopped :: "exit_reason option \<Rightarrow> bool" where
  "stopped x \<longleftrightarrow> x = Some ReasonTimeout \<or> x = Some ReasonKilled"

fun results_of :: "nat \<Rightarrow> job_event list \<Rightarrow> exit_result list" where
  "results_of a [] = []"
| "results_of a (CalledBack b res # es) = (if a = b then res # results_of a es else results_of a es)"
| "results_of a (StopClaimed b # es) = results_of a es"

lemma results_of_append [simp]: "results_of a (es @ fs) = results_of a es @ results_of a fs"
  by (induction a es rule: results_of.induct) auto

definition cell_ok :: "exit_pc \<Rightarrow> timer_pc \<Rightarrow> job_record \<Rightarrow> bool \<Rightarrow> exit_result list \<Rightarrow> bool" where
  "cell_ok p t r claimed results \<longleftrightarrow>
     (jr_state r = StateReserved \<longleftrightarrow> p = ExitNone) \<and>
     (jr_state r = StateRunning \<longleftrightarrow> p = ExitWaiting) \<and>
     (jr_done r \<longleftrightarrow> p \<in> done_pcs) \<and>
     (p = ExitNone \<longrightarrow> t = TimerNone) \<and>
     (jr_state r = StateExited \<longrightarrow> jr_reason r \<noteq> None) \<and>
     (jr_state r \<noteq> StateExited \<longrightarrow> jr_reason r = None \<or> stopped (jr_reason r)) \<and>
     (claimed \<longrightarrow> p \<noteq> ExitNone \<and> stopped (jr_reason r)) \<and>
     (results \<noteq> [] \<longrightarrow> p \<in> called_pcs \<and> (\<exists>out. results = [result_of r out]))"

lemmas cell_defs = cell_ok_def done_pcs_def called_pcs_def stopped_def

text \<open>The steps of one job.\<close>

lemma cell_new: "cell_ok ExitNone TimerNone (new_record i) False []"
  by (simp add: cell_defs new_record_def)

lemma cell_start: "cell_ok ExitNone t r c rs \<Longrightarrow> cell_ok ExitWaiting t' (start_record q s pid now r) c rs"
  by (auto simp: cell_defs start_record_def)

lemma cell_settle: "cell_ok ExitWaiting t r c rs \<Longrightarrow> cell_ok ExitSettled t (settle_exit w r) c rs"
  by (auto simp: cell_defs settle_exit_def split: option.splits)

lemma cell_notify: "cell_ok ExitSettled t r c rs \<Longrightarrow> cell_ok ExitNotified t (r\<lparr>jr_done := True\<rparr>) c rs"
  by (auto simp: cell_defs)

lemma cell_uncalled: "cell_ok p t r c rs \<Longrightarrow> p \<notin> called_pcs \<Longrightarrow> rs = []"
  by (auto simp: cell_ok_def)

lemma cell_admit: "cell_ok ExitNotified t r c rs \<Longrightarrow> cell_ok ExitInCallback t r c (rs @ [result_of r out])"
  using cell_uncalled [of ExitNotified t r c rs] by (auto simp: cell_defs)

lemma cell_move:
  "cell_ok p t r c rs \<Longrightarrow> (p, p') \<in> {(ExitNotified, ExitReturned), (ExitInCallback, ExitReturned), (ExitReturned, ExitRemoved),
     (ExitRemoved, ExitFinished)} \<Longrightarrow> cell_ok p' t r c rs"
  by (auto simp: cell_defs)

lemma cell_timer: "cell_ok p t r c rs \<Longrightarrow> t \<noteq> TimerNone \<Longrightarrow> cell_ok p t' r c rs"
  by (auto simp: cell_defs)

lemma cell_mark: "cell_ok p t r c rs \<Longrightarrow> stopped (Some x) \<Longrightarrow> cell_ok p t (snd (mark_reason x r)) c rs"
  by (cases "jr_state r") (auto simp: cell_defs mark_reason_def)

lemma cell_claim: "cell_ok p t r c rs \<Longrightarrow> cell_ok p t (claim_killed r) c rs"
  by (cases "jr_state r") (auto simp: cell_defs claim_killed_def)

lemma cell_stop: "cell_ok p t r c rs \<Longrightarrow> jr_state r = StateRunning \<Longrightarrow> cell_ok p t (claim_killed r) True rs"
  by (auto simp: cell_defs claim_killed_def)

section \<open>The invariant\<close>

definition cells_inv :: "job_system \<Rightarrow> bool" where
  "cells_inv s \<longleftrightarrow>
     (\<forall>a < length (mg_heap (js_mgr s)).
        cell_ok (js_exits s a) (js_timers s a) (record_at (js_mgr s) a) (StopClaimed a \<in> set (js_events s)) (results_of a (js_events s))) \<and>
     (\<forall>a \<ge> length (mg_heap (js_mgr s)).
        js_exits s a = ExitNone \<and> js_timers s a = TimerNone \<and> StopClaimed a \<notin> set (js_events s) \<and> results_of a (js_events s) = [])"

definition map_inv :: "job_system \<Rightarrow> bool" where
  "map_inv s \<longleftrightarrow>
     distinct (map fst (mg_jobs (js_mgr s))) \<and>
     (\<forall>i a. map_of (mg_jobs (js_mgr s)) i = Some a \<longrightarrow>
        a < length (mg_heap (js_mgr s)) \<and> jr_id (record_at (js_mgr s) a) = i \<and>
        js_exits s a \<noteq> ExitRemoved \<and> js_exits s a \<noteq> ExitFinished)"

definition work_inv :: "job_system \<Rightarrow> bool" where
  "work_inv s \<longleftrightarrow> finite {a. exit_live (js_exits s a)} \<and> finite {a. timer_live (js_timers s a)} \<and>
     mg_work (js_mgr s) = card {a. exit_live (js_exits s a)} + card {a. timer_live (js_timers s a)}"

fun caller_ok :: "job_system \<Rightarrow> call_pc \<Rightarrow> bool" where
  "caller_ok s (CallStopping a) \<longleftrightarrow> js_exits s a \<noteq> ExitNone"
| "caller_ok s (CallKilling a) \<longleftrightarrow> js_exits s a \<noteq> ExitNone"
| "caller_ok s (CallClosing as) \<longleftrightarrow> mg_closed (js_mgr s) \<and> (\<forall>a \<in> set as. js_exits s a \<noteq> ExitNone)"
| "caller_ok s CallDraining \<longleftrightarrow> mg_closed (js_mgr s) \<and> mg_work (js_mgr s) = 0"
| "caller_ok s CallClosed \<longleftrightarrow> mg_closed (js_mgr s) \<and> mg_work (js_mgr s) = 0 \<and> mg_jobs (js_mgr s) = []"
| "caller_ok s _ \<longleftrightarrow> True"

definition limit_inv :: "job_system \<Rightarrow> bool" where
  "limit_inv s \<longleftrightarrow> (\<forall>sid. length (running_jobs [] sid (js_mgr s)) \<le> 50)"

subsection \<open>Every job stays consistent\<close>

lemma record_at_update:
  "record_at (update_record a f m) b = (if b = a \<and> a < length (mg_heap m) then f (record_at m a) else record_at m b)"
  by (auto simp: record_at_def update_record_def nth_list_update list_update_beyond)

lemma update_record_fields [simp]:
  "length (mg_heap (update_record a f m)) = length (mg_heap m)" "mg_jobs (update_record a f m) = mg_jobs m"
  "mg_closed (update_record a f m) = mg_closed m" "mg_work (update_record a f m) = mg_work m"
  by (simp_all add: update_record_def)

lemma other_fields [simp]:
  "mg_heap (forget i m) = mg_heap m" "mg_closed (forget i m) = mg_closed m" "mg_work (forget i m) = mg_work m"
  "mg_heap (abort i m) = mg_heap m" "mg_closed (abort i m) = mg_closed m" "mg_work (abort i m) = mg_work m"
  "mg_heap (remove_record a m) = mg_heap m" "mg_closed (remove_record a m) = mg_closed m"
  "mg_work (remove_record a m) = mg_work m"
  "mg_heap (close_finish m) = mg_heap m" "mg_closed (close_finish m) = mg_closed m" "mg_work (close_finish m) = mg_work m"
  "mg_heap (work_done m) = mg_heap m" "mg_jobs (work_done m) = mg_jobs m" "mg_closed (work_done m) = mg_closed m"
  "mg_work (work_done m) = mg_work m - 1"
  by (simp_all add: forget_def abort_def remove_record_def close_finish_def work_done_def Let_def split: option.split)

lemma cells_invD: "cells_inv s \<Longrightarrow> a < length (mg_heap (js_mgr s)) \<Longrightarrow>
    cell_ok (js_exits s a) (js_timers s a) (record_at (js_mgr s) a) (StopClaimed a \<in> set (js_events s)) (results_of a (js_events s))"
  by (simp add: cells_inv_def)

lemma cells_inv_bound: "cells_inv s \<Longrightarrow> js_exits s a \<noteq> ExitNone \<Longrightarrow> a < length (mg_heap (js_mgr s))"
  "cells_inv s \<Longrightarrow> js_timers s a \<noteq> TimerNone \<Longrightarrow> a < length (mg_heap (js_mgr s))"
  by (auto simp: cells_inv_def not_less [symmetric])

text \<open>A step that leaves the number of records and every record but one as it was.\<close>

lemma cells_inv_step:
  assumes "cells_inv s" "length (mg_heap (js_mgr s')) = length (mg_heap (js_mgr s))" "a < length (mg_heap (js_mgr s))"
    and "\<And>b. b \<noteq> a \<Longrightarrow> js_exits s' b = js_exits s b \<and> js_timers s' b = js_timers s b \<and>
      record_at (js_mgr s') b = record_at (js_mgr s) b \<and>
      (StopClaimed b \<in> set (js_events s') \<longleftrightarrow> StopClaimed b \<in> set (js_events s)) \<and>
      results_of b (js_events s') = results_of b (js_events s)"
    and "cell_ok (js_exits s' a) (js_timers s' a) (record_at (js_mgr s') a) (StopClaimed a \<in> set (js_events s')) (results_of a (js_events s'))"
  shows "cells_inv s'"
  unfolding cells_inv_def assms(2)
proof (intro conjI allI impI)
  fix b assume b: "b < length (mg_heap (js_mgr s))"
  show "cell_ok (js_exits s' b) (js_timers s' b) (record_at (js_mgr s') b) (StopClaimed b \<in> set (js_events s')) (results_of b (js_events s'))"
    using assms(5) assms(4) [of b] cells_invD [OF assms(1) b] by (cases "b = a") simp_all
qed (use assms(1,3) assms(4) in \<open>auto simp: cells_inv_def\<close>)

lemma start_effect:
  assumes "start q spawn now late m = (Inr a, m')"
  obtains s pid where "\<not> mg_closed m" "map_of (mg_jobs m) (sq_job q) = Some a" "jr_state (record_at m a) = StateReserved"
    "decode_settings (sq_config q) = Inr s" "int (length (running_jobs late (sq_session q) m)) < max_background s"
    "m' = (update_record a (start_record q s pid now) m)\<lparr>mg_work := mg_work m + 1 + (if 0 < sq_timeout q then 1 else 0)\<rparr>"
  using assms by (auto simp: start_def Let_def split: if_splits option.splits sum.splits)

lemma start_error: "start q spawn now late m = (Inl e, m') \<Longrightarrow> m' = m \<or> m' = forget (sq_job q) m"
  by (auto simp: start_def Let_def split: if_splits option.splits sum.splits)

lemma stop_nothing: "stop_job sid i m = (None, m') \<Longrightarrow> m' = m \<or> m' = forget i m"
  by (auto simp: stop_job_def split: if_splits option.splits)

lemma stop_effect:
  assumes "stop_job sid i m = (Some a, m')"
  shows "map_of (mg_jobs m) i = Some a" "jr_state (record_at m a) = StateRunning" "m' = update_record a claim_killed m"
  using assms by (cases "jr_state (record_at m a)"; auto simp: stop_job_def split: if_splits option.splits)+

lemma abort_effect: "abort i m = m \<or> abort i m = forget i m"
  by (auto simp: abort_def split: option.split)

lemma remove_effect: "remove_record a m = m \<or> remove_record a m = forget (jr_id (record_at m a)) m"
  by (simp add: remove_record_def Let_def)

lemma kill_effect:
  assumes "kill_target sid i m = Inr (Some a)"
  shows "map_of (mg_jobs m) i = Some a" "jr_state (record_at m a) = StateRunning"
  using assms by (cases "jr_state (record_at m a)"; auto simp: kill_target_def split: if_splits option.splits)+

lemma claim_killed_idem [simp]: "claim_killed (claim_killed r) = claim_killed r"
  by (simp add: claim_killed_def)

lemma claim_killed_fields [simp]:
  "jr_state (claim_killed r) = jr_state r" "jr_id (claim_killed r) = jr_id r" "jr_session (claim_killed r) = jr_session r"
  "jr_done (claim_killed r) = jr_done r"
  by (simp_all add: claim_killed_def)

lemma mark_reason_fields [simp]:
  "jr_state (snd (mark_reason x r)) = jr_state r" "jr_id (snd (mark_reason x r)) = jr_id r"
  "jr_session (snd (mark_reason x r)) = jr_session r" "jr_done (snd (mark_reason x r)) = jr_done r"
  by (simp_all add: mark_reason_def)

lemma claim_all:
  "length (mg_heap (fold (\<lambda>a. update_record a claim_killed) as m)) = length (mg_heap m)"
  "mg_jobs (fold (\<lambda>a. update_record a claim_killed) as m) = mg_jobs m"
  "mg_work (fold (\<lambda>a. update_record a claim_killed) as m) = mg_work m"
  "record_at (fold (\<lambda>a. update_record a claim_killed) as m) b =
     (if b \<in> set as \<and> b < length (mg_heap m) then claim_killed (record_at m b) else record_at m b)"
  by (induction as arbitrary: m) (auto simp: record_at_update)

lemma close_effect:
  assumes "close_begin gone m = (claimed, m')"
  shows "mg_closed m'" "length (mg_heap m') = length (mg_heap m)" "mg_jobs m' = mg_jobs m" "mg_work m' = mg_work m"
    and "record_at m' b = record_at m b \<or> record_at m' b = claim_killed (record_at m b)"
    and "a \<in> set claimed \<Longrightarrow> \<exists>i. (i, a) \<in> set (mg_jobs m) \<and> jr_state (record_at m a) = StateRunning"
proof -
  from assms have c: "claimed = close_claims gone m" "m' = (fold (\<lambda>a. update_record a claim_killed) claimed m)\<lparr>mg_closed := True\<rparr>"
    by (auto simp: close_begin_def Let_def)
  show "mg_closed m'" "length (mg_heap m') = length (mg_heap m)" "mg_jobs m' = mg_jobs m" "mg_work m' = mg_work m"
    by (simp_all add: c(2) claim_all)
  have "record_at m' b = record_at (fold (\<lambda>a. update_record a claim_killed) claimed m) b"
    by (simp add: c(2) record_at_def)
  then show "record_at m' b = record_at m b \<or> record_at m' b = claim_killed (record_at m b)"
    by (simp add: claim_all)
  show "a \<in> set claimed \<Longrightarrow> \<exists>i. (i, a) \<in> set (mg_jobs m) \<and> jr_state (record_at m a) = StateRunning"
    by (auto simp: c(1) close_claims_def)
qed

lemma record_at_work [simp]: "record_at (m\<lparr>mg_work := w\<rparr>) = record_at m" "record_at (work_done m) = record_at m"
  "record_at (forget i m) = record_at m" "record_at (abort i m) = record_at m" "record_at (remove_record a m) = record_at m"
  "record_at (close_finish m) = record_at m"
  by (simp_all add: fun_eq_iff record_at_def)

lemma reserve_effect:
  assumes "reserve random m = (r, m')"
  shows "m' = m \<or> (\<exists>i. \<not> mg_closed m \<and>
    m' = m\<lparr>mg_heap := mg_heap m @ [new_record i], mg_jobs := AList.update i (length (mg_heap m)) (mg_jobs m)\<rparr>)"
  using assms by (auto simp: reserve_def Let_def split: option.splits if_splits)

lemma cells_inv_reserve:
  assumes "cells_inv s"
  shows "cells_inv (s\<lparr>js_mgr := (js_mgr s)\<lparr>mg_heap := mg_heap (js_mgr s) @ [new_record i], mg_jobs := jobs\<rparr>\<rparr>)"
  unfolding cells_inv_def
proof (intro conjI allI impI)
  let ?m = "(js_mgr s)\<lparr>mg_heap := mg_heap (js_mgr s) @ [new_record i], mg_jobs := jobs\<rparr>"
  fix a assume a: "a < length (mg_heap (js_mgr (s\<lparr>js_mgr := ?m\<rparr>)))"
  show "cell_ok (js_exits (s\<lparr>js_mgr := ?m\<rparr>) a) (js_timers (s\<lparr>js_mgr := ?m\<rparr>) a) (record_at (js_mgr (s\<lparr>js_mgr := ?m\<rparr>)) a)
      (StopClaimed a \<in> set (js_events (s\<lparr>js_mgr := ?m\<rparr>))) (results_of a (js_events (s\<lparr>js_mgr := ?m\<rparr>)))"
  proof (cases "a < length (mg_heap (js_mgr s))")
    case True
    then show ?thesis using cells_invD [OF assms True] by (simp add: record_at_def nth_append)
  next
    case False
    then have "a = length (mg_heap (js_mgr s))" using a by simp
    moreover have "js_exits s a = ExitNone \<and> js_timers s a = TimerNone \<and> StopClaimed a \<notin> set (js_events s) \<and>
        results_of a (js_events s) = []"
      using assms False by (simp add: cells_inv_def)
    ultimately show ?thesis using cell_new [of i] by (simp add: record_at_def nth_append)
  qed
qed (use assms in \<open>auto simp: cells_inv_def\<close>)

lemma cells_inv_mgr:
  "cells_inv s \<Longrightarrow> mg_heap m = mg_heap (js_mgr s) \<Longrightarrow> cells_inv (s\<lparr>js_mgr := m\<rparr>)"
  "cells_inv s \<Longrightarrow> cells_inv (s\<lparr>js_calls := calls\<rparr>)"
  by (simp_all add: cells_inv_def record_at_def)

lemma map_inv_bound: "map_inv s \<Longrightarrow> map_of (mg_jobs (js_mgr s)) i = Some a \<Longrightarrow> a < length (mg_heap (js_mgr s))"
  by (simp add: map_inv_def)

lemma cells_inv_keep:
  assumes "job_step s s'" "cells_inv s" "map_inv s"
  shows "cells_inv s'"
  using assms(1)
proof (cases rule: job_step.cases)
  case (Reserve random r m)
  then show ?thesis using reserve_effect [OF Reserve(2)] cells_inv_reserve [OF assms(2)] assms(2) by auto
next
  case (Abort i)
  then show ?thesis using cells_inv_mgr(1) [OF assms(2)] by simp
next
  case (Start_fails late q spawn now e m)
  then show ?thesis using start_error [OF Start_fails(3)] cells_inv_mgr(1) [OF assms(2)] assms(2) by auto
next
  case (Start late q spawn now a m)
  obtain st pid where e: "map_of (mg_jobs (js_mgr s)) (sq_job q) = Some a" "jr_state (record_at (js_mgr s) a) = StateReserved"
    "m = (update_record a (start_record q st pid now) (js_mgr s))
       \<lparr>mg_work := mg_work (js_mgr s) + 1 + (if 0 < sq_timeout q then 1 else 0)\<rparr>"
    using Start(3) by (rule start_effect)
  note len = map_inv_bound [OF assms(3) e(1)]
  note cell = cells_invD [OF assms(2) len]
  then have "js_exits s a = ExitNone" using e(2) by (simp add: cell_ok_def)
  with cell show ?thesis
    using Start(1) e(3) len cell_start [of "js_timers s a" "record_at (js_mgr s) a"]
    by (intro cells_inv_step [OF assms(2), where a = a]) (auto simp: record_at_update)
next
  case (Exit_settle a w)
  then show ?thesis
    using cell_settle cells_invD [OF assms(2), of a] cells_inv_bound(1) [OF assms(2), of a]
    by (intro cells_inv_step [OF assms(2), where a = a]) (auto simp: record_at_update)
next
  case (Exit_notify a)
  then show ?thesis
    using cell_notify cells_invD [OF assms(2), of a] cells_inv_bound(1) [OF assms(2), of a]
    by (intro cells_inv_step [OF assms(2), where a = a]) (auto simp: record_at_update)
next
  case (Exit_admit a out)
  then show ?thesis
    using cell_admit cells_invD [OF assms(2), of a] cells_inv_bound(1) [OF assms(2), of a]
    by (intro cells_inv_step [OF assms(2), where a = a]) auto
next
  case (Exit_skip a)
  then show ?thesis
    using cell_move [where p' = ExitReturned] cells_invD [OF assms(2), of a] cells_inv_bound(1) [OF assms(2), of a]
    by (intro cells_inv_step [OF assms(2), where a = a]) auto
next
  case (Exit_return a)
  then show ?thesis
    using cell_move [where p' = ExitReturned] cells_invD [OF assms(2), of a] cells_inv_bound(1) [OF assms(2), of a]
    by (intro cells_inv_step [OF assms(2), where a = a]) auto
next
  case (Exit_remove a)
  then show ?thesis
    using cell_move [where p' = ExitRemoved] cells_invD [OF assms(2), of a] cells_inv_bound(1) [OF assms(2), of a]
    by (intro cells_inv_step [OF assms(2), where a = a]) auto
next
  case (Exit_finish a)
  then show ?thesis
    using cell_move [where p' = ExitFinished] cells_invD [OF assms(2), of a] cells_inv_bound(1) [OF assms(2), of a]
    by (intro cells_inv_step [OF assms(2), where a = a]) auto
next
  case (Timer_idle a)
  then show ?thesis
    using cell_timer [OF cells_invD [OF assms(2)], of a TimerFinished] cells_inv_bound(2) [OF assms(2), of a]
    by (intro cells_inv_step [OF assms(2), where a = a]) auto
next
  case (Timer_late a r)
  then show ?thesis
    using cell_timer [OF cells_invD [OF assms(2)], of a TimerFinished] cells_inv_bound(2) [OF assms(2), of a]
    by (intro cells_inv_step [OF assms(2), where a = a]) auto
next
  case (Timer_fires a r)
  then have "cell_ok (js_exits s a) TimerKilling r (StopClaimed a \<in> set (js_events s)) (results_of a (js_events s))"
    using cell_mark [OF cell_timer [OF cells_invD [OF assms(2)]], of a ReasonTimeout TimerKilling] cells_inv_bound(2) [OF assms(2), of a]
    by (simp add: stopped_def)
  with Timer_fires show ?thesis
    using cells_inv_bound(2) [OF assms(2), of a]
    by (intro cells_inv_step [OF assms(2), where a = a]) (auto simp: record_at_update)
next
  case (Timer_end a)
  then show ?thesis
    using cell_timer [OF cells_invD [OF assms(2)], of a TimerFinished] cells_inv_bound(2) [OF assms(2), of a]
    by (intro cells_inv_step [OF assms(2), where a = a]) auto
next
  case (Stop_nothing c sid i m)
  then show ?thesis using stop_nothing [OF Stop_nothing(3)] cells_inv_mgr(1) [OF assms(2)] assms(2) by auto
next
  case (Stop_claim c sid i a m)
  note e = stop_effect [OF Stop_claim(3)]
  then show ?thesis
    using cell_stop [OF cells_invD [OF assms(2)], of a] map_inv_bound [OF assms(3) e(1)] Stop_claim(1)
    by (intro cells_inv_step [OF assms(2), where a = a]) (auto simp: record_at_update)
next
  case (Kill_mark c a)
  show ?thesis
  proof (cases "a < length (mg_heap (js_mgr s))")
    case True
    then show ?thesis
      using cell_mark [OF cells_invD [OF assms(2)], of a ReasonKilled] Kill_mark(1)
      by (intro cells_inv_step [OF assms(2), where a = a]) (auto simp: record_at_update stopped_def)
  next
    case False
    then show ?thesis using assms(2) Kill_mark(1) by (simp add: update_record_def cells_inv_def record_at_def)
  qed
next
  case (Close_begin c gone claimed m)
  note e = close_effect [OF Close_begin(3)]
  have "cell_ok (js_exits s a) (js_timers s a) (record_at m a) (StopClaimed a \<in> set (js_events s)) (results_of a (js_events s))"
    if "a < length (mg_heap (js_mgr s))" for a
    using cells_invD [OF assms(2) that] cell_claim e(5) [of a] by metis
  then show ?thesis using assms(2) Close_begin(1) e(2) by (simp add: cells_inv_def)
next
  case (Close_finish c)
  then show ?thesis using assms(2) by (auto simp: cells_inv_def)
qed (use assms(2) cells_inv_mgr(2) in auto)

subsection \<open>The map names live records\<close>

lemma map_inv_step:
  assumes "map_inv s" "distinct (map fst (mg_jobs (js_mgr s')))" "set (mg_jobs (js_mgr s')) \<subseteq> set (mg_jobs (js_mgr s))"
    and "length (mg_heap (js_mgr s')) = length (mg_heap (js_mgr s))"
    and "\<And>b. jr_id (record_at (js_mgr s') b) = jr_id (record_at (js_mgr s) b)"
    and "\<And>i b. (i, b) \<in> set (mg_jobs (js_mgr s')) \<Longrightarrow>
      js_exits s' b = js_exits s b \<or> js_exits s' b \<noteq> ExitRemoved \<and> js_exits s' b \<noteq> ExitFinished"
  shows "map_inv s'"
  unfolding map_inv_def
proof (intro conjI allI impI)
  fix i b assume m: "map_of (mg_jobs (js_mgr s')) i = Some b"
  then have b': "(i, b) \<in> set (mg_jobs (js_mgr s'))" by (rule map_of_SomeD)
  with assms(1,3) have b: "b < length (mg_heap (js_mgr s)) \<and> jr_id (record_at (js_mgr s) b) = i \<and>
      js_exits s b \<noteq> ExitRemoved \<and> js_exits s b \<noteq> ExitFinished"
    by (auto simp: map_inv_def)
  with assms(4,5) show "b < length (mg_heap (js_mgr s'))" "jr_id (record_at (js_mgr s') b) = i" by simp_all
  from b assms(6) [OF b'] show "js_exits s' b \<noteq> ExitRemoved" "js_exits s' b \<noteq> ExitFinished" by auto
qed (rule assms(2))

lemma jobs_shrink:
  "set (mg_jobs (forget i m)) \<subseteq> set (mg_jobs m)" "distinct (map fst (mg_jobs m)) \<Longrightarrow> distinct (map fst (mg_jobs (forget i m)))"
  "set (mg_jobs (abort i m)) \<subseteq> set (mg_jobs m)" "distinct (map fst (mg_jobs m)) \<Longrightarrow> distinct (map fst (mg_jobs (abort i m)))"
  "set (mg_jobs (remove_record a m)) \<subseteq> set (mg_jobs m)"
  "distinct (map fst (mg_jobs m)) \<Longrightarrow> distinct (map fst (mg_jobs (remove_record a m)))"
  "set (mg_jobs (close_finish m)) \<subseteq> set (mg_jobs m)"
  "distinct (map fst (mg_jobs m)) \<Longrightarrow> distinct (map fst (mg_jobs (close_finish m)))"
  by (auto simp: AList.delete_eq forget_def abort_def remove_record_def close_finish_def Let_def distinct_delete distinct_map_filter
      split: option.split if_splits)

lemma map_inv_distinct: "map_inv s \<Longrightarrow> distinct (map fst (mg_jobs (js_mgr s)))"
  by (simp add: map_inv_def)

lemma map_inv_forget: "map_inv s \<Longrightarrow> map_inv (s\<lparr>js_mgr := forget i (js_mgr s)\<rparr>)"
  by (rule map_inv_step) (auto simp: jobs_shrink map_inv_distinct dest: subsetD [OF jobs_shrink(1)])

lemma map_inv_reserve:
  assumes "map_inv s" "cells_inv s"
  shows "map_inv (s\<lparr>js_mgr := (js_mgr s)\<lparr>mg_heap := mg_heap (js_mgr s) @ [new_record i],
    mg_jobs := AList.update i (length (mg_heap (js_mgr s))) (mg_jobs (js_mgr s))\<rparr>\<rparr>)"
  unfolding map_inv_def
proof (intro conjI allI impI)
  let ?n = "length (mg_heap (js_mgr s))"
  let ?m = "(js_mgr s)\<lparr>mg_heap := mg_heap (js_mgr s) @ [new_record i], mg_jobs := AList.update i ?n (mg_jobs (js_mgr s))\<rparr>"
  show "distinct (map fst (mg_jobs (js_mgr (s\<lparr>js_mgr := ?m\<rparr>))))"
    using map_inv_distinct [OF assms(1)] by (simp add: distinct_update)
  fix j a assume "map_of (mg_jobs (js_mgr (s\<lparr>js_mgr := ?m\<rparr>))) j = Some a"
  then consider "j = i" "a = ?n" | "j \<noteq> i" "map_of (mg_jobs (js_mgr s)) j = Some a"
    by (auto simp: update_conv' split: if_splits)
  note this [case_names new old]
  then show "a < length (mg_heap (js_mgr (s\<lparr>js_mgr := ?m\<rparr>)))" "jr_id (record_at (js_mgr (s\<lparr>js_mgr := ?m\<rparr>)) a) = j"
    "js_exits (s\<lparr>js_mgr := ?m\<rparr>) a \<noteq> ExitRemoved" "js_exits (s\<lparr>js_mgr := ?m\<rparr>) a \<noteq> ExitFinished"
    using assms by (cases; force simp: map_inv_def cells_inv_def record_at_def nth_append new_record_def)+
qed

lemma map_inv_local:
  assumes "map_inv s" "\<And>b. js_exits s' b = js_exits s b \<or> js_exits s' b \<noteq> ExitRemoved \<and> js_exits s' b \<noteq> ExitFinished"
    and "js_mgr s' = js_mgr s \<or> js_mgr s' = work_done (js_mgr s) \<or>
      (\<exists>a f. js_mgr s' = update_record a f (js_mgr s) \<and> jr_id (f (record_at (js_mgr s) a)) = jr_id (record_at (js_mgr s) a))"
  shows "map_inv s'"
  by (rule map_inv_step [OF assms(1)]) (use assms(2,3) map_inv_distinct [OF assms(1)] in \<open>auto simp: record_at_update\<close>)

lemma map_inv_keep:
  assumes "job_step s s'" "cells_inv s" "map_inv s"
  shows "map_inv s'"
  using assms(1)
proof (cases rule: job_step.cases)
  case (Reserve random r m)
  then show ?thesis using reserve_effect [OF Reserve(2)] map_inv_reserve [OF assms(3,2)] assms(3) by auto
next
  case (Abort i)
  then show ?thesis using abort_effect [of i "js_mgr s"] map_inv_forget [OF assms(3)] assms(3) by auto
next
  case (Start_fails late q spawn now e m)
  then show ?thesis using start_error [OF Start_fails(3)] map_inv_forget [OF assms(3)] assms(3) by auto
next
  case (Start late q spawn now a m)
  then show ?thesis
    by (elim start_effect; intro map_inv_step [OF assms(3)])
      (auto simp: record_at_update start_record_def map_inv_distinct [OF assms(3)])
next
  case (Exit_remove a)
  have "b \<noteq> a" if "(i, b) \<in> set (mg_jobs (remove_record a (js_mgr s)))" for i b
  proof
    assume "b = a"
    with that have m: "map_of (mg_jobs (js_mgr s)) i = Some a"
      using jobs_shrink(5) [of a "js_mgr s"] map_inv_distinct [OF assms(3)] by auto
    with assms(3) have "jr_id (record_at (js_mgr s) a) = i" by (simp add: map_inv_def)
    with m that show False
      using map_inv_distinct [OF assms(3)] \<open>b = a\<close>
      by (auto simp: remove_record_def Let_def forget_def AList.delete_eq)
  qed
  then show ?thesis
    using Exit_remove(1) map_inv_distinct [OF assms(3)]
    by (intro map_inv_step [OF assms(3)]) (auto simp: jobs_shrink dest: subsetD [OF jobs_shrink(5)])
next
  case (Exit_finish a)
  have "b \<noteq> a" if "(i, b) \<in> set (mg_jobs (js_mgr s))" for i b
    using that assms(3) Exit_finish(2) by (auto simp: map_inv_def)
  then show ?thesis
    using Exit_finish(1) map_inv_distinct [OF assms(3)] by (intro map_inv_step [OF assms(3)]) auto
next
  case (Stop_nothing c sid i m)
  then show ?thesis using stop_nothing [OF Stop_nothing(3)] map_inv_forget [OF assms(3)] assms(3) by auto
next
  case (Stop_claim c sid i a m)
  then show ?thesis using stop_effect [OF Stop_claim(3)] map_inv_distinct [OF assms(3)]
    by (intro map_inv_step [OF assms(3)]) (auto simp: record_at_update)
next
  case (Close_begin c gone claimed m)
  then show ?thesis using close_effect [OF Close_begin(3)] map_inv_distinct [OF assms(3)]
    by (intro map_inv_step [OF assms(3)]) (auto, metis claim_killed_fields(2))
next
  case (Close_finish c)
  then show ?thesis using map_inv_distinct [OF assms(3)]
    by (intro map_inv_step [OF assms(3)]) (auto simp: jobs_shrink dest: subsetD [OF jobs_shrink(7)])
next
  case (Exit_settle a w)
  then show ?thesis by (intro map_inv_local [OF assms(3)]) (auto simp: settle_exit_def intro!: exI [of _ "settle_exit w"])
next
  case (Exit_notify a)
  then show ?thesis by (intro map_inv_local [OF assms(3)]) (auto intro!: exI [of _ "\<lambda>r. r\<lparr>jr_done := True\<rparr>"])
next
  case (Timer_fires a r)
  then have "jr_id r = jr_id (record_at (js_mgr s) a)" by (auto simp: mark_reason_def split: if_splits)
  then show ?thesis using Timer_fires(1) by (intro map_inv_local [OF assms(3)]) (auto intro!: exI [of _ "\<lambda>_. r"])
next
  case (Kill_mark c a)
  then show ?thesis
    by (intro map_inv_local [OF assms(3)]) (auto intro!: exI [of _ "\<lambda>r. snd (mark_reason ReasonKilled r)"])
qed (rule map_inv_local [OF assms(3)]; simp)+

subsection \<open>The work group counts the goroutines\<close>

lemma count_update:
  fixes P :: "'p \<Rightarrow> bool"
  assumes "finite {a. P (f a)}"
  shows "finite {a. P ((f(x := v)) a)}"
    and "card {a. P ((f(x := v)) a)} + (if P (f x) then 1 else 0) = card {a. P (f a)} + (if P v then 1 else 0)"
proof -
  have eq: "{a. P ((f(x := v)) a)} = (if P v then insert x ({a. P (f a)} - {x}) else {a. P (f a)} - {x})" by auto
  show "finite {a. P ((f(x := v)) a)}" using assms unfolding eq by simp
  show "card {a. P ((f(x := v)) a)} + (if P (f x) then 1 else 0) = card {a. P (f a)} + (if P v then 1 else 0)"
    using assms card.remove [OF assms, of x] unfolding eq by (cases "P (f x)") (auto simp: card_insert_if)
qed

lemma work_inv_same:
  assumes "work_inv s" "mg_work (js_mgr s') = mg_work (js_mgr s)" "\<And>a. exit_live (js_exits s' a) = exit_live (js_exits s a)"
    "\<And>a. timer_live (js_timers s' a) = timer_live (js_timers s a)"
  shows "work_inv s'"
  using assms(1) by (simp add: work_inv_def assms(2-4))

lemma work_inv_exit:
  assumes "work_inv s" "js_exits s' = (js_exits s)(a := p)" "js_timers s' = js_timers s"
    "mg_work (js_mgr s') + (if exit_live (js_exits s a) then 1 else 0) = mg_work (js_mgr s) + (if exit_live p then 1 else 0)"
  shows "work_inv s'"
  using assms count_update [of exit_live "js_exits s" a p] by (auto simp: work_inv_def split: if_splits)

lemma work_inv_timer:
  assumes "work_inv s" "js_timers s' = (js_timers s)(a := p)" "js_exits s' = js_exits s"
    "mg_work (js_mgr s') + (if timer_live (js_timers s a) then 1 else 0) = mg_work (js_mgr s) + (if timer_live p then 1 else 0)"
  shows "work_inv s'"
  using assms count_update [of timer_live "js_timers s" a p] by (auto simp: work_inv_def split: if_splits)

lemma work_positive:
  assumes "work_inv s"
  shows "exit_live (js_exits s a) \<Longrightarrow> 0 < mg_work (js_mgr s)" "timer_live (js_timers s a) \<Longrightarrow> 0 < mg_work (js_mgr s)"
  using assms by (auto simp: work_inv_def card_gt_0_iff)

lemma start_pcs:
  assumes "cells_inv s" "map_inv s" "start q spawn now late (js_mgr s) = (Inr a, m)"
  shows "js_exits s a = ExitNone" "js_timers s a = TimerNone"
proof -
  obtain st pid where e: "map_of (mg_jobs (js_mgr s)) (sq_job q) = Some a" "jr_state (record_at (js_mgr s) a) = StateReserved"
    using assms(3) by (rule start_effect)
  have "cell_ok (js_exits s a) (js_timers s a) (record_at (js_mgr s) a) (StopClaimed a \<in> set (js_events s)) (results_of a (js_events s))"
    using map_inv_bound [OF assms(2) e(1)] cells_invD [OF assms(1)] by blast
  with e(2) show "js_exits s a = ExitNone" "js_timers s a = TimerNone" by (auto simp: cell_ok_def)
qed

lemmas live_defs = exit_live_def timer_live_def

lemma work_inv_keep:
  assumes "job_step s s'" "cells_inv s" "map_inv s" "work_inv s"
  shows "work_inv s'"
  using assms(1)
proof (cases rule: job_step.cases)
  case (Reserve random r m)
  then show ?thesis using reserve_effect [OF Reserve(2)] by (intro work_inv_same [OF assms(4)]) auto
next
  case (Start_fails late q spawn now e m)
  then show ?thesis using start_error [OF Start_fails(3)] by (intro work_inv_same [OF assms(4)]) auto
next
  case (Start late q spawn now a m)
  note pcs = start_pcs [OF assms(2,3) Start(3)]
  let ?s = "s\<lparr>js_mgr := (js_mgr s)\<lparr>mg_work := mg_work (js_mgr s) + 1\<rparr>, js_exits := (js_exits s)(a := ExitWaiting)\<rparr>"
  have w: "mg_work m = mg_work (js_mgr s) + 1 + (if 0 < sq_timeout q then 1 else 0)"
    using Start(3) by (rule start_effect) simp
  have s: "work_inv ?s" by (rule work_inv_exit [OF assms(4), where a = a and p = ExitWaiting]) (simp_all add: pcs live_defs)
  show ?thesis
  proof (cases "0 < sq_timeout q")
    case True
    then show ?thesis
      using Start(1) w pcs by (intro work_inv_timer [OF s, where a = a and p = TimerWaiting]) (simp_all add: live_defs)
  next
    case False
    then show ?thesis using Start(1) w by (intro work_inv_same [OF s]) simp_all
  qed
next
  case (Exit_finish a)
  moreover have "0 < mg_work (js_mgr s)" using work_positive(1) [OF assms(4), of a] Exit_finish(2) by (simp add: live_defs)
  ultimately show ?thesis by (intro work_inv_exit [OF assms(4)]) (auto simp: live_defs)
next
  case (Timer_idle a)
  moreover have "0 < mg_work (js_mgr s)" using work_positive(2) [OF assms(4), of a] Timer_idle(2) by (simp add: live_defs)
  ultimately show ?thesis by (intro work_inv_timer [OF assms(4)]) (auto simp: live_defs)
next
  case (Timer_late a r)
  moreover have "0 < mg_work (js_mgr s)" using work_positive(2) [OF assms(4), of a] Timer_late(2) by (simp add: live_defs)
  ultimately show ?thesis by (intro work_inv_timer [OF assms(4)]) (auto simp: live_defs)
next
  case (Timer_end a)
  moreover have "0 < mg_work (js_mgr s)" using work_positive(2) [OF assms(4), of a] Timer_end(2) by (simp add: live_defs)
  ultimately show ?thesis by (intro work_inv_timer [OF assms(4)]) (auto simp: live_defs)
next
  case (Stop_nothing c sid i m)
  then show ?thesis using stop_nothing [OF Stop_nothing(3)] by (intro work_inv_same [OF assms(4)]) auto
next
  case (Stop_claim c sid i a m)
  then show ?thesis using stop_effect [OF Stop_claim(3)] by (intro work_inv_same [OF assms(4)]) auto
next
  case (Close_begin c gone claimed m)
  then show ?thesis using close_effect [OF Close_begin(3)] by (intro work_inv_same [OF assms(4)]) auto
qed (rule work_inv_same [OF assms(4)]; simp add: live_defs; fail)+

subsection \<open>The callers, and the limit\<close>

definition calls_inv :: "job_system \<Rightarrow> bool" where
  "calls_inv s \<longleftrightarrow> (\<forall>c. caller_ok s (js_calls s c))"

lemma exits_monotone:
  assumes "job_step s s'" "cells_inv s" "map_inv s"
  shows "js_exits s a \<noteq> ExitNone \<Longrightarrow> js_exits s' a \<noteq> ExitNone" "mg_closed (js_mgr s) \<Longrightarrow> mg_closed (js_mgr s')"
proof -
  show "js_exits s a \<noteq> ExitNone \<Longrightarrow> js_exits s' a \<noteq> ExitNone"
    using assms(1) by (cases rule: job_step.cases) auto
  show "mg_closed (js_mgr s) \<Longrightarrow> mg_closed (js_mgr s')"
    using assms(1)
  proof (cases rule: job_step.cases)
    case (Reserve random r m)
    then show "mg_closed (js_mgr s) \<Longrightarrow> mg_closed (js_mgr s')" using reserve_effect [OF Reserve(2)] by auto
  next
    case (Start_fails late q spawn now e m)
    then show "mg_closed (js_mgr s) \<Longrightarrow> mg_closed (js_mgr s')" using start_error [OF Start_fails(3)] by auto
  next
    case (Start late q spawn now a m)
    then show "mg_closed (js_mgr s) \<Longrightarrow> mg_closed (js_mgr s')" by (elim start_effect) simp
  next
    case (Stop_nothing c sid i m)
    then show "mg_closed (js_mgr s) \<Longrightarrow> mg_closed (js_mgr s')" using stop_nothing [OF Stop_nothing(3)] by auto
  next
    case (Stop_claim c sid i a m)
    then show "mg_closed (js_mgr s) \<Longrightarrow> mg_closed (js_mgr s')" using stop_effect [OF Stop_claim(3)] by auto
  next
    case (Close_begin c gone claimed m)
    then show "mg_closed (js_mgr s) \<Longrightarrow> mg_closed (js_mgr s')" using close_effect [OF Close_begin(3)] by auto
  qed auto
qed

lemma closed_shrinks:
  assumes "job_step s s'" "mg_closed (js_mgr s)"
  shows "mg_work (js_mgr s') \<le> mg_work (js_mgr s) \<and> set (mg_jobs (js_mgr s')) \<subseteq> set (mg_jobs (js_mgr s))"
  using assms(1)
proof (cases rule: job_step.cases)
  case (Reserve random r m)
  then show ?thesis using reserve_effect [OF Reserve(2)] assms(2) by auto
next
  case (Abort i)
  then show ?thesis using jobs_shrink(3) by simp
next
  case (Start_fails late q spawn now e m)
  then show ?thesis using start_error [OF Start_fails(3)] jobs_shrink(1) by auto
next
  case (Start late q spawn now a m)
  then show ?thesis using assms(2) by (elim start_effect) simp
next
  case (Exit_remove a)
  then show ?thesis using jobs_shrink(5) by simp
next
  case (Stop_nothing c sid i m)
  then show ?thesis using stop_nothing [OF Stop_nothing(3)] jobs_shrink(1) by auto
next
  case (Stop_claim c sid i a m)
  then show ?thesis using stop_effect [OF Stop_claim(3)] by auto
next
  case (Close_begin c gone claimed m)
  then show ?thesis using close_effect [OF Close_begin(3)] by auto
next
  case (Close_finish c)
  then show ?thesis using jobs_shrink(7) by simp
qed simp_all

lemma caller_ok_persists:
  assumes "job_step s s'" "cells_inv s" "map_inv s" "caller_ok s p"
  shows "caller_ok s' p"
  using assms(4) exits_monotone [OF assms(1-3)] closed_shrinks [OF assms(1)] by (cases p) auto

lemma running_started: "cells_inv s \<Longrightarrow> map_inv s \<Longrightarrow> (i, a) \<in> set (mg_jobs (js_mgr s)) \<Longrightarrow>
    jr_state (record_at (js_mgr s) a) = StateRunning \<Longrightarrow> js_exits s a \<noteq> ExitNone"
  using cells_invD [of s a] map_inv_bound [of s i a] map_inv_distinct [of s] by (auto simp: cell_ok_def)

lemma drained_jobs_reserved:
  assumes "cells_inv s" "map_inv s" "work_inv s" "mg_work (js_mgr s) = 0" "(i, a) \<in> set (mg_jobs (js_mgr s))"
  shows "jr_state (record_at (js_mgr s) a) = StateReserved"
proof -
  have a: "map_of (mg_jobs (js_mgr s)) i = Some a" using assms(2,5) map_inv_distinct by auto
  have "\<not> exit_live (js_exits s a)" using work_positive(1) [OF assms(3), of a] assms(4) by auto
  moreover have "js_exits s a \<noteq> ExitFinished" using assms(2) a by (simp add: map_inv_def)
  ultimately have "js_exits s a = ExitNone" by (simp add: exit_live_def)
  with cells_invD [OF assms(1) map_inv_bound [OF assms(2) a]] show ?thesis by (simp add: cell_ok_def)
qed

lemma calls_inv_keep:
  assumes "job_step s s'" "cells_inv s" "map_inv s" "work_inv s" "calls_inv s"
  shows "calls_inv s'"
proof -
  have old: "caller_ok s' (js_calls s c)" for c
    using caller_ok_persists [OF assms(1-3)] assms(5) by (simp add: calls_inv_def)
  have "calls_inv s' \<longleftrightarrow> (\<forall>c. js_calls s' c \<noteq> js_calls s c \<longrightarrow> caller_ok s' (js_calls s' c))"
    unfolding calls_inv_def using old by metis
  moreover have "caller_ok s' (js_calls s' c)" if "js_calls s' c \<noteq> js_calls s c" for c
    using assms(1)
  proof (cases rule: job_step.cases)
    case (Stop_claim c' sid i a m)
    note e = stop_effect [OF Stop_claim(3)]
    then have "js_exits s a \<noteq> ExitNone" using running_started [OF assms(2,3) map_of_SomeD] by blast
    then show ?thesis using Stop_claim(1) that by (simp split: if_splits)
  next
    case (Kill_begin c' sid i a)
    note e = kill_effect [OF Kill_begin(3)]
    then have "js_exits s a \<noteq> ExitNone" using running_started [OF assms(2,3) map_of_SomeD] by blast
    then show ?thesis using Kill_begin(1) that by (simp split: if_splits)
  next
    case (Close_begin c' gone claimed m)
    note e = close_effect [OF Close_begin(3)]
    have "\<forall>a \<in> set claimed. js_exits s a \<noteq> ExitNone"
      using e(6) running_started [OF assms(2,3)] by blast
    then show ?thesis using Close_begin(1) e(1) that by (simp split: if_splits)
  next
    case (Close_reap c' a rest)
    then have "caller_ok s (CallClosing (a # rest))" using assms(5) unfolding calls_inv_def by metis
    then show ?thesis using Close_reap(1) that by (simp split: if_splits)
  next
    case (Close_drain c')
    then have "caller_ok s (CallClosing [])" using assms(5) unfolding calls_inv_def by metis
    then show ?thesis using Close_drain that by (simp split: if_splits)
  next
    case (Close_finish c')
    then have "caller_ok s CallDraining" using assms(5) unfolding calls_inv_def by metis
    then have w: "mg_closed (js_mgr s)" "mg_work (js_mgr s) = 0" by simp_all
    then have "mg_jobs (close_finish (js_mgr s)) = []"
      using drained_jobs_reserved [OF assms(2-4)] by (auto simp: close_finish_def filter_empty_conv)
    then show ?thesis using Close_finish(1) w that by (simp split: if_splits)
  qed (use that in \<open>auto split: if_splits\<close>)
  ultimately show ?thesis by blast
qed

lemma limit_inv_card:
  "map_inv s \<Longrightarrow> limit_inv s \<longleftrightarrow> (\<forall>sid. card (set (running_jobs [] sid (js_mgr s))) \<le> 50)"
proof -
  assume "map_inv s"
  then have "distinct (running_jobs [] sid (js_mgr s))" for sid
    using map_inv_distinct [of s] by (simp add: running_jobs_def distinct_map)
  then show ?thesis by (simp add: limit_inv_def distinct_card)
qed

lemma limit_inv_step:
  assumes "limit_inv s" "map_inv s" "map_inv s'"
    "\<And>i a. (i, a) \<in> set (mg_jobs (js_mgr s')) \<Longrightarrow> jr_state (record_at (js_mgr s') a) = StateRunning \<Longrightarrow>
      (i, a) \<in> set (mg_jobs (js_mgr s)) \<and> jr_state (record_at (js_mgr s) a) = StateRunning \<and>
      jr_session (record_at (js_mgr s) a) = jr_session (record_at (js_mgr s') a)"
  shows "limit_inv s'"
proof -
  have "set (running_jobs [] sid (js_mgr s')) \<subseteq> set (running_jobs [] sid (js_mgr s))" for sid
    using assms(4) by (auto simp: running_jobs_def)
  then have "card (set (running_jobs [] sid (js_mgr s'))) \<le> card (set (running_jobs [] sid (js_mgr s)))" for sid
    by (intro card_mono) auto
  then show ?thesis using assms(1) order_trans unfolding limit_inv_card [OF assms(2)] limit_inv_card [OF assms(3)] by blast
qed

lemma length_filter_mono: "(\<And>x. P x \<Longrightarrow> Q x) \<Longrightarrow> length (filter P xs) \<le> length (filter Q xs)"
  by (induction xs) (auto simp: le_SucI)

lemma decode_settings_range: "decode_settings r = Inr s \<Longrightarrow> 1 \<le> max_background s \<and> max_background s \<le> 50"
  by (auto simp: decode_settings_def split: option.splits if_splits)

lemma start_running:
  assumes "map_inv s" "start q spawn now late (js_mgr s) = (Inr a, m)"
  shows "length (running_jobs [] (sq_session q) m) \<le> Suc (length (running_jobs [] (sq_session q) (js_mgr s)))"
    and "sid \<noteq> sq_session q \<Longrightarrow> length (running_jobs [] sid m) \<le> length (running_jobs [] sid (js_mgr s))"
proof -
  obtain st pid where e: "map_of (mg_jobs (js_mgr s)) (sq_job q) = Some a"
    "m = (update_record a (start_record q st pid now) (js_mgr s))
       \<lparr>mg_work := mg_work (js_mgr s) + 1 + (if 0 < sq_timeout q then 1 else 0)\<rparr>"
    using assms(2) by (rule start_effect)
  let ?R = "\<lambda>sid m. set (running_jobs [] sid m)"
  have d: "distinct (running_jobs [] sid m)" "distinct (running_jobs [] sid (js_mgr s))" for sid
    using map_inv_distinct [OF assms(1)] by (simp_all add: running_jobs_def distinct_map e(2))
  have "i = sq_job q" if "(i, a) \<in> set (mg_jobs (js_mgr s))" for i
    using that assms(1) e(1) map_inv_distinct [OF assms(1)] by (auto simp: map_inv_def)
  then have sub: "?R sid m \<subseteq> (if sid = sq_session q then insert (sq_job q, a) (?R sid (js_mgr s)) else ?R sid (js_mgr s))" for sid
    using map_inv_bound [OF assms(1) e(1)]
    by (auto simp: running_jobs_def e(2) record_at_update start_record_def split: if_splits)
  have "card (?R (sq_session q) m) \<le> card (insert (sq_job q, a) (?R (sq_session q) (js_mgr s)))"
    using sub [of "sq_session q"] by (intro card_mono) auto
  also have "\<dots> \<le> Suc (card (?R (sq_session q) (js_mgr s)))" by (simp add: card_insert_if)
  finally show "length (running_jobs [] (sq_session q) m) \<le> Suc (length (running_jobs [] (sq_session q) (js_mgr s)))"
    by (simp only: distinct_card [OF d(1)] distinct_card [OF d(2)])
  assume "sid \<noteq> sq_session q"
  then have "card (?R sid m) \<le> card (?R sid (js_mgr s))" using sub [of sid] by (intro card_mono) auto
  then show "length (running_jobs [] sid m) \<le> length (running_jobs [] sid (js_mgr s))"
    by (simp only: distinct_card [OF d(1)] distinct_card [OF d(2)])
qed

lemma start_within_limit:
  assumes "map_inv s" "start q spawn now late (js_mgr s) = (Inr a, m)" "decode_settings (sq_config q) = Inr st"
  shows "int (length (running_jobs [] (sq_session q) m)) \<le> max_background st"
proof -
  have "int (length (running_jobs late (sq_session q) (js_mgr s))) < max_background st"
    using assms(2) by (rule start_effect) (use assms(3) in simp)
  moreover have "length (running_jobs [] (sq_session q) (js_mgr s)) \<le> length (running_jobs late (sq_session q) (js_mgr s))"
    unfolding running_jobs_def by (intro length_filter_mono) auto
  ultimately show ?thesis using start_running(1) [OF assms(1,2)] by linarith
qed

lemma limit_inv_keep:
  assumes "job_step s s'" "cells_inv s" "map_inv s" "limit_inv s"
  shows "limit_inv s'"
proof -
  note m' = map_inv_keep [OF assms(1-3)]
  note step = limit_inv_step [OF assms(4,3) m']
  show ?thesis
    using assms(1)
  proof (cases rule: job_step.cases)
    case (Reserve random r m)
    show ?thesis
    proof (cases "m = js_mgr s")
      case False
      with reserve_effect [OF Reserve(2)] obtain k where m: "m = (js_mgr s)\<lparr>mg_heap := mg_heap (js_mgr s) @ [new_record k],
          mg_jobs := AList.update k (length (mg_heap (js_mgr s))) (mg_jobs (js_mgr s))\<rparr>" by blast
      show ?thesis
      proof (rule step)
        fix i a assume ia: "(i, a) \<in> set (mg_jobs (js_mgr s'))" and run: "jr_state (record_at (js_mgr s') a) = StateRunning"
        have old: "a \<noteq> length (mg_heap (js_mgr s))"
          using run Reserve(1) m by (auto simp: record_at_def new_record_def)
        have "map_of (mg_jobs (js_mgr s')) i = Some a" using ia map_inv_distinct [OF m'] by simp
        with old have a: "map_of (mg_jobs (js_mgr s)) i = Some a"
          using Reserve(1) m by (simp add: update_conv' split: if_splits)
        with map_inv_bound [OF assms(3) a] run Reserve(1) m
        show "(i, a) \<in> set (mg_jobs (js_mgr s)) \<and> jr_state (record_at (js_mgr s) a) = StateRunning \<and>
            jr_session (record_at (js_mgr s) a) = jr_session (record_at (js_mgr s') a)"
          by (auto simp: record_at_def nth_append dest: map_of_SomeD)
      qed
    qed (use assms(4) Reserve(1) in simp)
  next
    case (Start late q spawn now a m)
    obtain st pid where d: "decode_settings (sq_config q) = Inr st" using Start(3) by (rule start_effect)
    have "length (running_jobs [] sid m) \<le> 50" for sid
      using start_within_limit [OF assms(3) Start(3) d] start_running(2) [OF assms(3) Start(3), of sid] decode_settings_range [OF d]
        assms(4) [unfolded limit_inv_def, rule_format, of sid]
      by (cases "sid = sq_session q"; simp; linarith)
    then show ?thesis using Start(1) by (simp add: limit_inv_def)
  next
    case (Close_begin c gone claimed m)
    then show ?thesis
      using close_effect [OF Close_begin(3)]
      by (intro step) (auto, (metis claim_killed_fields(1,3))+)
  next
    case (Stop_claim c sid i a m)
    then show ?thesis using stop_effect [OF Stop_claim(3)] by (intro step) (auto simp: record_at_update split: if_splits)
  next
    case (Abort i)
    then show ?thesis using jobs_shrink(3) [of i "js_mgr s"] by (intro step) auto
  next
    case (Start_fails late q spawn now e m)
    then show ?thesis using start_error [OF Start_fails(3)] jobs_shrink(1) [of "sq_job q" "js_mgr s"] by (intro step) auto
  next
    case (Stop_nothing c sid i m)
    then show ?thesis using stop_nothing [OF Stop_nothing(3)] jobs_shrink(1) [of i "js_mgr s"] by (intro step) auto
  next
    case (Exit_remove a)
    then show ?thesis using jobs_shrink(5) [of a "js_mgr s"] by (intro step) auto
  next
    case (Close_finish c)
    then show ?thesis using jobs_shrink(7) [of "js_mgr s"] by (intro step) auto
  next
    case (Timer_fires a r)
    then have "jr_state r = jr_state (record_at (js_mgr s) a) \<and> jr_session r = jr_session (record_at (js_mgr s) a)"
      by (auto simp: mark_reason_def split: if_splits)
    with Timer_fires(1) show ?thesis by (intro step) (auto simp: record_at_update split: if_splits)
  qed (intro step; auto simp: record_at_update settle_exit_def split: if_splits; fail)+
qed

section \<open>Every reachable state\<close>

definition job_inv :: "job_system \<Rightarrow> bool" where
  "job_inv s \<longleftrightarrow> cells_inv s \<and> map_inv s \<and> work_inv s \<and> calls_inv s \<and> limit_inv s"

lemma job_inv_initial: "job_inv initial_system"
  by (simp add: job_inv_def cells_inv_def map_inv_def work_inv_def calls_inv_def limit_inv_def initial_system_def
      new_manager_def live_defs running_jobs_def)

lemma job_inv_keep: "job_step s s' \<Longrightarrow> job_inv s \<Longrightarrow> job_inv s'"
  using cells_inv_keep map_inv_keep work_inv_keep calls_inv_keep limit_inv_keep by (simp add: job_inv_def)

lemma job_inv_reachable: "job_reachable s \<Longrightarrow> job_inv s"
  by (induction rule: job_reachable.induct) (auto intro: job_inv_initial job_inv_keep)

lemma results_of_set: "CalledBack a res \<in> set es \<Longrightarrow> res \<in> set (results_of a es)"
  by (induction a es rule: results_of.induct) auto

text \<open>C16: A callback runs at most once, and the first reason wins. Over every interleaving of the service, a job reports its
  exit at most once and with a reason; and if a caller of \<open>StopJob\<close> found it running, the report says that it was
  killed or timed out, never that it completed or failed by itself.\<close>

theorem job_reports_once_with_first_reason:
  assumes "job_reachable s" "CalledBack a res \<in> set (js_events s)"
  shows "results_of a (js_events s) = [res] \<and> er_reason res \<noteq> None
    \<and> (StopClaimed a \<in> set (js_events s) \<longrightarrow> er_reason res = Some ReasonTimeout \<or> er_reason res = Some ReasonKilled)"
proof -
  have inv: "cells_inv s" using job_inv_reachable [OF assms(1)] by (simp add: job_inv_def)
  have res: "res \<in> set (results_of a (js_events s))" by (rule results_of_set [OF assms(2)])
  then have "a < length (mg_heap (js_mgr s))" using inv by (auto simp: cells_inv_def not_less [symmetric])
  from cells_invD [OF inv this] res obtain out where
    "results_of a (js_events s) = [result_of (record_at (js_mgr s) a) out]" "js_exits s a \<in> called_pcs"
    "jr_reason (record_at (js_mgr s) a) \<noteq> None"
    "StopClaimed a \<in> set (js_events s) \<longrightarrow> stopped (jr_reason (record_at (js_mgr s) a))"
    by (cases "jr_state (record_at (js_mgr s) a)") (auto simp: cell_ok_def called_pcs_def)
  with res show ?thesis by (auto simp: result_of_def stopped_def)
qed

text \<open>C33: The limit on background jobs holds. No Session ever has more than 50 running jobs, and after a successful start it
  has no more than the limit that the settings of the start name, even though the count is taken record by record
  while processes exit.\<close>

theorem running_jobs_limited:
  assumes "job_reachable s"
  shows "length (live sid (js_mgr s)) \<le> 50
    \<and> (\<forall>q spawn now late a m st. start q spawn now late (js_mgr s) = (Inr a, m) \<longrightarrow> decode_settings (sq_config q) = Inr st \<longrightarrow>
         int (length (live (sq_session q) m)) \<le> max_background st)"
proof (intro conjI allI impI)
  have inv: "cells_inv s" "map_inv s" "limit_inv s" using job_inv_reachable [OF assms] by (simp_all add: job_inv_def)
  then show "length (live sid (js_mgr s)) \<le> 50" by (simp add: live_def limit_inv_def)
  fix q spawn now late a m st
  assume s: "start q spawn now late (js_mgr s) = (Inr a, m)" and d: "decode_settings (sq_config q) = Inr st"
  from s show "int (length (live (sq_session q) m)) \<le> max_background st"
    using start_within_limit [OF inv(2) s d] by (simp add: live_def)
qed

section \<open>Closing\<close>

lemma closed_final:
  assumes "job_step s s'" "job_inv s" "js_calls s c = CallClosed"
  shows "js_calls s' c = CallClosed \<and> js_events s' = js_events s \<and> js_exits s' = js_exits s \<and> js_timers s' = js_timers s"
proof -
  have inv: "cells_inv s" "map_inv s" "work_inv s" using assms(2) by (simp_all add: job_inv_def)
  have "caller_ok s (js_calls s c)" using assms(2) by (simp add: job_inv_def calls_inv_def)
  then have fin: "mg_closed (js_mgr s)" "mg_work (js_mgr s) = 0" "mg_jobs (js_mgr s) = []" by (simp_all add: assms(3))
  have dead: "\<not> exit_live (js_exits s a)" "\<not> timer_live (js_timers s a)" for a
    using work_positive [OF inv(3), of a] fin(2) by auto
  have no: "exit_live p \<Longrightarrow> js_exits s a \<noteq> p" "timer_live t \<Longrightarrow> js_timers s a \<noteq> t" for a p t
    using dead by auto
  show ?thesis
    using assms(1)
  proof (cases rule: job_step.cases)
    case (Start late q spawn now a m)
    then show ?thesis using fin(1) by (elim start_effect) simp
  next
    case (Stop_claim c' sid i a m)
    then show ?thesis using stop_effect(1) [OF Stop_claim(3)] fin(3) by simp
  qed (use no assms(3) in \<open>auto simp: live_defs\<close>)
qed

text \<open>C30: When \<open>Close\<close> has returned, the service is finished. No record, no goroutine and no running process is left, and
  whatever is called afterwards, no callback runs and no goroutine starts.\<close>

theorem close_is_final:
  assumes "job_reachable s" "js_calls s c = CallClosed" "job_step\<^sup>*\<^sup>* s s'"
  shows "mg_jobs (js_mgr s') = [] \<and> mg_work (js_mgr s') = 0 \<and> js_events s' = js_events s \<and> js_exits s' = js_exits s
    \<and> (\<forall>a < length (mg_heap (js_mgr s')). jr_state (record_at (js_mgr s') a) \<noteq> StateRunning)"
proof -
  have "job_inv s' \<and> js_calls s' c = CallClosed \<and> js_events s' = js_events s \<and> js_exits s' = js_exits s"
    using assms(3)
  proof (induction rule: rtranclp_induct)
    case base
    show ?case using job_inv_reachable [OF assms(1)] assms(2) by simp
  next
    case (step y z)
    then show ?case using closed_final [of y z c] job_inv_keep [of y z] by simp
  qed
  then have inv: "job_inv s'" "js_calls s' c = CallClosed" "js_events s' = js_events s" "js_exits s' = js_exits s" by simp_all
  then have "caller_ok s' CallClosed" unfolding job_inv_def calls_inv_def by metis
  moreover have "jr_state (record_at (js_mgr s') a) \<noteq> StateRunning" if "a < length (mg_heap (js_mgr s'))" for a
  proof -
    have "\<not> exit_live (js_exits s' a)"
      using work_positive(1) [of s' a] inv(1) \<open>caller_ok s' CallClosed\<close> by (auto simp: job_inv_def)
    with cells_invD [of s' a] inv(1) that show ?thesis by (auto simp: job_inv_def cell_ok_def exit_live_def)
  qed
  ultimately show ?thesis using inv(3,4) by simp
qed

text \<open>How far the goroutines are from their ends.\<close>

fun exit_rank :: "exit_pc \<Rightarrow> nat" where
  "exit_rank ExitWaiting = 6"
| "exit_rank ExitSettled = 5"
| "exit_rank ExitNotified = 4"
| "exit_rank ExitInCallback = 3"
| "exit_rank ExitReturned = 2"
| "exit_rank ExitRemoved = 1"
| "exit_rank _ = 0"

fun timer_rank :: "timer_pc \<Rightarrow> nat" where
  "timer_rank TimerWaiting = 2"
| "timer_rank TimerKilling = 1"
| "timer_rank _ = 0"

definition remaining :: "job_system \<Rightarrow> nat" where
  "remaining s = (\<Sum>a < length (mg_heap (js_mgr s)). exit_rank (js_exits s a) + timer_rank (js_timers s a))"

lemma remaining_less:
  assumes "length (mg_heap (js_mgr s')) = length (mg_heap (js_mgr s))" "a < length (mg_heap (js_mgr s))"
    "\<And>b. b \<noteq> a \<Longrightarrow> js_exits s' b = js_exits s b \<and> js_timers s' b = js_timers s b"
    "exit_rank (js_exits s' a) + timer_rank (js_timers s' a) < exit_rank (js_exits s a) + timer_rank (js_timers s a)"
  shows "remaining s' < remaining s"
  unfolding remaining_def assms(1)
proof (rule sum_strict_mono_ex1)
  show "\<forall>x \<in> {..<length (mg_heap (js_mgr s))}. exit_rank (js_exits s' x) + timer_rank (js_timers s' x) \<le>
      exit_rank (js_exits s x) + timer_rank (js_timers s x)"
    using assms(3,4) by (metis order.strict_implies_order order_refl)
qed (use assms(2,4) in auto)

lemma advanceI: "job_step s s' \<Longrightarrow> remaining s' < remaining s \<Longrightarrow> js_calls s' = js_calls s \<Longrightarrow>
    \<exists>s'. job_step s s' \<and> remaining s' < remaining s \<and> js_calls s' = js_calls s"
  by blast

lemma exit_advances:
  assumes "a < length (mg_heap (js_mgr s))" "exit_live (js_exits s a)"
  shows "\<exists>s'. job_step s s' \<and> remaining s' < remaining s \<and> js_calls s' = js_calls s"
proof (cases "js_exits s a")
  case ExitWaiting
  show ?thesis
    by (rule advanceI [OF Exit_settle [OF ExitWaiting, of WaitOk]]) (auto intro!: remaining_less [where a = a] simp: ExitWaiting assms(1))
next
  case ExitSettled
  show ?thesis
    by (rule advanceI [OF Exit_notify [OF ExitSettled]]) (auto intro!: remaining_less [where a = a] simp: ExitSettled assms(1))
next
  case ExitNotified
  show ?thesis
  proof (cases "admits a (js_mgr s)")
    case True
    show ?thesis
      by (rule advanceI [OF Exit_admit [OF ExitNotified True]]) (auto intro!: remaining_less [where a = a] simp: ExitNotified assms(1))
  next
    case False
    show ?thesis
      by (rule advanceI [OF Exit_skip [OF ExitNotified False]]) (auto intro!: remaining_less [where a = a] simp: ExitNotified assms(1))
  qed
next
  case ExitInCallback
  show ?thesis
    by (rule advanceI [OF Exit_return [OF ExitInCallback]]) (auto intro!: remaining_less [where a = a] simp: ExitInCallback assms(1))
next
  case ExitReturned
  show ?thesis
    by (rule advanceI [OF Exit_remove [OF ExitReturned]]) (auto intro!: remaining_less [where a = a] simp: ExitReturned assms(1))
next
  case ExitRemoved
  show ?thesis
    by (rule advanceI [OF Exit_finish [OF ExitRemoved]]) (auto intro!: remaining_less [where a = a] simp: ExitRemoved assms(1))
qed (use assms(2) in \<open>auto simp: exit_live_def\<close>)

lemma timer_advances:
  assumes "a < length (mg_heap (js_mgr s))" "timer_live (js_timers s a)"
  shows "\<exists>s'. job_step s s' \<and> remaining s' < remaining s \<and> js_calls s' = js_calls s"
proof (cases "js_timers s a")
  case TimerWaiting
  obtain claimed r where r: "mark_reason ReasonTimeout (record_at (js_mgr s) a) = (claimed, r)" by force
  show ?thesis
  proof (cases claimed)
    case True
    with r have fires: "mark_reason ReasonTimeout (record_at (js_mgr s) a) = (True, r)" by simp
    show ?thesis
      by (rule advanceI [OF Timer_fires [OF TimerWaiting fires]]) (auto intro!: remaining_less [where a = a] simp: TimerWaiting assms(1))
  next
    case False
    with r have late: "mark_reason ReasonTimeout (record_at (js_mgr s) a) = (False, r)" by simp
    show ?thesis
      by (rule advanceI [OF Timer_late [OF TimerWaiting late]]) (auto intro!: remaining_less [where a = a] simp: TimerWaiting assms(1))
  qed
next
  case TimerKilling
  show ?thesis
    by (rule advanceI [OF Timer_end [OF TimerKilling]]) (auto intro!: remaining_less [where a = a] simp: TimerKilling assms(1))
qed (use assms(2) in \<open>auto simp: timer_live_def\<close>)

lemma work_drains:
  "job_inv s \<Longrightarrow> \<exists>s'. job_step\<^sup>*\<^sup>* s s' \<and> mg_work (js_mgr s') = 0 \<and> js_calls s' = js_calls s"
proof (induction "remaining s" arbitrary: s rule: less_induct)
  case less
  have inv: "cells_inv s" "work_inv s" using less.prems by (simp_all add: job_inv_def)
  show ?case
  proof (cases "\<exists>a. exit_live (js_exits s a) \<or> timer_live (js_timers s a)")
    case True
    then obtain a where a: "exit_live (js_exits s a) \<or> timer_live (js_timers s a)" by blast
    then have "a < length (mg_heap (js_mgr s))"
      using cells_inv_bound [OF inv(1), of a] by (auto simp: live_defs)
    with a exit_advances timer_advances obtain s' where
      s': "job_step s s'" "remaining s' < remaining s" "js_calls s' = js_calls s" by blast
    from less.hyps [OF s'(2) job_inv_keep [OF s'(1) less.prems]] s' show ?thesis
      by (metis converse_rtranclp_into_rtranclp)
  next
    case False
    then have "mg_work (js_mgr s) = 0" using inv(2) by (simp add: work_inv_def)
    then show ?thesis by blast
  qed
qed

lemma drained_done:
  assumes "job_inv s" "mg_work (js_mgr s) = 0" "js_exits s a \<noteq> ExitNone"
  shows "jr_done (record_at (js_mgr s) a)"
proof -
  have inv: "cells_inv s" "work_inv s" using assms(1) by (simp_all add: job_inv_def)
  have "js_exits s a = ExitFinished"
    using work_positive(1) [OF inv(2), of a] assms(2,3) by (auto simp: exit_live_def)
  with cells_invD [OF inv(1) cells_inv_bound(1) [OF inv(1) assms(3)]] show ?thesis
    by (simp add: cell_ok_def done_pcs_def)
qed

text \<open>C31: \<open>Close\<close> cannot deadlock. From every reachable state in which a call of \<open>Close\<close> has begun, whatever other calls are
  under way, the goroutines can finish and that call then returns: it needs only that processes end and callbacks
  return.\<close>

theorem close_can_return:
  assumes "job_reachable s" "js_calls s c = CallClosing claimed"
  shows "\<exists>s'. job_step\<^sup>*\<^sup>* s s' \<and> js_calls s' c = CallClosed"
proof -
  obtain s1 where s1: "job_step\<^sup>*\<^sup>* s s1" "mg_work (js_mgr s1) = 0" "js_calls s1 c = CallClosing claimed"
    using work_drains [OF job_inv_reachable [OF assms(1)]] assms(2) by metis
  have "job_inv s1"
    using s1(1) by (induction rule: rtranclp_induct) (auto intro: job_inv_keep job_inv_reachable [OF assms(1)])
  then have "\<exists>s'. job_step\<^sup>*\<^sup>* s1 s' \<and> js_calls s' c = CallClosing [] \<and> mg_work (js_mgr s') = 0"
    using s1(2,3)
  proof (induction claimed arbitrary: s1)
    case (Cons a claimed)
    have "caller_ok s1 (CallClosing (a # claimed))"
      using Cons.prems(1,3) unfolding job_inv_def calls_inv_def by metis
    then have "jr_done (record_at (js_mgr s1) a)" using drained_done [OF Cons.prems(1,2)] by simp
    from Close_reap [OF Cons.prems(3) this]
    obtain s2 where s2: "job_step s1 s2" "js_mgr s2 = js_mgr s1" "js_calls s2 c = CallClosing claimed" by force
    then have "\<exists>s'. job_step\<^sup>*\<^sup>* s2 s' \<and> js_calls s' c = CallClosing [] \<and> mg_work (js_mgr s') = 0"
      using Cons.IH [of s2] job_inv_keep [OF s2(1) Cons.prems(1)] Cons.prems(2) by simp
    with s2(1) show ?case by (metis converse_rtranclp_into_rtranclp)
  qed auto
  then obtain s3 where s3: "job_step\<^sup>*\<^sup>* s1 s3" "js_calls s3 c = CallClosing []" "mg_work (js_mgr s3) = 0" by blast
  from Close_drain [OF s3(2,3)] obtain s4 where s4: "job_step s3 s4" "js_calls s4 c = CallDraining" by force
  from Close_finish [OF s4(2)] obtain s5 where s5: "job_step s4 s5" "js_calls s5 c = CallClosed" by force
  from s1(1) s3(1) s4(1) s5 show ?thesis by (meson rtranclp.rtrancl_into_rtrancl rtranclp_trans)
qed

section \<open>A sample run\<close>

definition sample_id :: string where
  "sample_id = hex_encode [0, 0, 0, 1]"

definition sample_request :: start_request where
  "sample_request = \<lparr>sq_job = sample_id, sq_session = ''s'', sq_workspace = ''/w'', sq_command = ''true'', sq_timeout = 0,
     sq_config = NoBytes, sq_callback = True\<rparr>"

definition sample_job :: job_record where
  "sample_job = start_record sample_request default_settings 7 1 (new_record sample_id)"

definition sample_system :: "job_record \<Rightarrow> exit_pc \<Rightarrow> call_pc \<Rightarrow> job_event list \<Rightarrow> job_system" where
  "sample_system r p call es =
     \<lparr>js_mgr = \<lparr>mg_heap = [r], mg_jobs = [(sample_id, 0)], mg_closed = False, mg_work = 1\<rparr>, js_exits = (\<lambda>_. ExitNone)(0 := p),
      js_timers = (\<lambda>_. TimerNone), js_calls = (\<lambda>_. CallIdle)(0 := call), js_events = es\<rparr>"

lemma job_reachable_step: "job_step s s' \<Longrightarrow> job_reachable s \<Longrightarrow> s' = t \<Longrightarrow> job_reachable t"
  using job_reachable.step by blast

lemma default_settings_decode: "decode_settings NoBytes = Inr default_settings"
  by (simp add: decode_settings_def blank_config_def default_settings_def)

lemma sample_start:
  "start sample_request (Inr 7) 1 [] \<lparr>mg_heap = [new_record sample_id], mg_jobs = [(sample_id, 0)], mg_closed = False, mg_work = 0\<rparr> =
     (Inr 0, \<lparr>mg_heap = [sample_job], mg_jobs = [(sample_id, 0)], mg_closed = False, mg_work = 1\<rparr>)"
  by (simp add: start_def sample_request_def record_at_def new_record_def default_settings_decode running_jobs_def Let_def
      default_settings_def update_record_def sample_job_def)

lemma sample_running: "job_reachable (sample_system sample_job ExitWaiting CallIdle [])"
proof (rule job_reachable_step [OF Start [where late = "[]" and q = sample_request and spawn = "Inr 7" and now = 1 and a = 0]])
  let ?m = "\<lparr>mg_heap = [new_record sample_id], mg_jobs = [(sample_id, 0)], mg_closed = False, mg_work = 0\<rparr>"
  show "job_reachable (initial_system\<lparr>js_mgr := ?m\<rparr>)"
    by (rule job_reachable_step [OF Reserve [where random = "Some [0, 0, 0, 1]" and r = "Inr sample_id"] job_reachable.init])
      (simp_all add: reserve_def initial_system_def new_manager_def sample_id_def Let_def)
  show "start sample_request (Inr 7) 1 [] (js_mgr (initial_system\<lparr>js_mgr := ?m\<rparr>)) =
      (Inr 0, \<lparr>mg_heap = [sample_job], mg_jobs = [(sample_id, 0)], mg_closed = False, mg_work = 1\<rparr>)"
    using sample_start by simp
qed (simp_all add: sample_system_def initial_system_def sample_request_def fun_eq_iff)

lemma sample_killed:
  "job_reachable (sample_system (claim_killed sample_job) ExitWaiting (CallStopping 0) [StopClaimed 0])"
  by (rule job_reachable_step [OF Stop_claim [where c = 0 and sid = "''s''" and i = sample_id and a = 0] sample_running])
    (simp_all add: sample_system_def stop_job_def record_at_def sample_job_def start_record_def sample_request_def update_record_def
      fun_eq_iff)

lemma sample_reported:
  "\<exists>r out. job_reachable (sample_system r ExitInCallback (CallStopping 0) [StopClaimed 0, CalledBack 0 (result_of r out)])"
proof -
  let ?r = "settle_exit (WaitExit 143) (claim_killed sample_job)"
  have "job_reachable (sample_system ?r ExitSettled (CallStopping 0) [StopClaimed 0])"
    by (rule job_reachable_step [OF Exit_settle [where a = 0 and w = "WaitExit 143"] sample_killed])
      (simp_all add: sample_system_def update_record_def)
  note job_reachable_step [OF Exit_notify [where a = 0] this]
  then have r: "job_reachable (sample_system (?r\<lparr>jr_done := True\<rparr>) ExitNotified (CallStopping 0) [StopClaimed 0])"
    by (simp add: sample_system_def update_record_def)
  have "jr_callback ?r"
    by (simp add: settle_exit_def claim_killed_def sample_job_def start_record_def sample_request_def)
  then have "job_reachable (sample_system (?r\<lparr>jr_done := True\<rparr>) ExitInCallback (CallStopping 0)
      [StopClaimed 0, CalledBack 0 (result_of (?r\<lparr>jr_done := True\<rparr>) [])])"
    by (intro job_reachable_step [OF Exit_admit [where a = 0 and out = "[]"] r])
      (simp_all add: sample_system_def admits_def record_at_def)
  then show ?thesis by blast
qed

theorem job_reports_once_with_first_reason_witness:
  "\<exists>s res. job_reachable s \<and> StopClaimed 0 \<in> set (js_events s) \<and> results_of 0 (js_events s) = [res] \<and> er_reason res \<noteq> None"
proof -
  obtain r out where s: "job_reachable (sample_system r ExitInCallback (CallStopping 0) [StopClaimed 0, CalledBack 0 (result_of r out)])"
    using sample_reported by blast
  from job_reports_once_with_first_reason [OF s, of 0 "result_of r out"] s show ?thesis
    by (intro exI conjI) (auto simp: sample_system_def)
qed

theorem running_jobs_limited_witness:
  "length (live ''s'' (js_mgr (sample_system sample_job ExitWaiting CallIdle []))) \<le> 50"
  using running_jobs_limited [OF sample_running] by blast

lemma empty_closing: "\<exists>s. job_reachable s \<and> js_calls s 0 = CallClosing []"
proof (intro exI conjI)
  show "job_reachable (initial_system\<lparr>js_mgr := new_manager\<lparr>mg_closed := True\<rparr>, js_calls := (js_calls initial_system)(0 := CallClosing [])\<rparr>)"
    by (rule job_reachable_step [OF Close_begin [where c = 0 and gone = "[]" and claimed = "[]"] job_reachable.init])
      (simp_all add: initial_system_def close_begin_def close_claims_def new_manager_def)
qed simp

lemma sample_closing: "\<exists>s. job_reachable s \<and> js_calls s 0 = CallClosing [0]"
proof -
  let ?s = "sample_system sample_job ExitWaiting CallIdle []"
  have c: "close_begin [] (js_mgr ?s) = ([0], (update_record 0 claim_killed (js_mgr ?s))\<lparr>mg_closed := True\<rparr>)"
    by (simp add: close_begin_def close_claims_def sample_system_def record_at_def sample_job_def start_record_def)
  have "js_calls ?s 0 = CallIdle" by (simp add: sample_system_def)
  from Close_begin [OF this c] obtain s' where "job_step ?s s'" "js_calls s' 0 = CallClosing [0]" by force
  with sample_running show ?thesis using job_reachable.step by blast
qed

theorem close_can_return_witness:
  "\<exists>s s'. job_reachable s \<and> js_calls s 0 = CallClosing [0] \<and> job_step\<^sup>*\<^sup>* s s' \<and> js_calls s' 0 = CallClosed"
  using sample_closing close_can_return by blast

lemma sample_closed: "\<exists>s. job_reachable s \<and> js_calls s 0 = CallClosed"
proof -
  obtain s where s: "job_reachable s" "js_calls s 0 = CallClosing []" using empty_closing by blast
  obtain s1 where s1: "job_step\<^sup>*\<^sup>* s s1" "mg_work (js_mgr s1) = 0" "js_calls s1 0 = CallClosing []"
    using work_drains [OF job_inv_reachable [OF s(1)]] s(2) by metis
  have r1: "job_reachable s1" using s1(1) s(1) by (induction rule: rtranclp_induct) (auto intro: job_reachable.step)
  from Close_drain [OF s1(3,2)] obtain s2 where s2: "job_step s1 s2" "js_calls s2 0 = CallDraining" by force
  from Close_finish [OF s2(2)] obtain s3 where "job_step s2 s3" "js_calls s3 0 = CallClosed" by force
  with r1 s2(1) show ?thesis using job_reachable.step by blast
qed

theorem close_is_final_witness:
  "\<exists>s. job_reachable s \<and> js_calls s 0 = CallClosed \<and> mg_jobs (js_mgr s) = [] \<and> mg_work (js_mgr s) = 0"
proof -
  obtain s where s: "job_reachable s" "js_calls s 0 = CallClosed" using sample_closed by blast
  with close_is_final [OF s rtranclp.rtrancl_refl] show ?thesis by blast
qed

end
