(* ===== verification/File_World.thy ===== *)
theory File_World
  imports Go_Path "HOL-Library.AList"
begin

text \<open>
  The file system as the file tools see it, and package \<open>src/internal/safefs\<close> (Linux) on it.

  A world is a tree of nodes addressed by path elements, the snapshot groups, and a counter of operating system calls.
  The environment of a call is fixed: for each kind of call and each moment it says whether the call fails (and, where
  a failing call may have taken effect in part, how much of it did), and it holds the working directory and the two
  digests the programs use. An action is a function from a world to a result and a world. While an action runs, nobody
  else changes the files; between actions anything may happen. Closing a descriptor has no effect.
\<close>

section \<open>Nodes\<close>

text \<open>\<open>Linked\<close> is a regular file with a link count above one, \<open>Special\<close> a device, a pipe or a socket.\<close>

datatype node = Plain string | Linked string | Directory | Symlink string | Special

type_synonym tree = "(string list \<times> node) list"

definition node_at :: "tree \<Rightarrow> string list \<Rightarrow> node option" where
  "node_at t es = (if es = [] then Some Directory else map_of t es)"

definition has_children :: "tree \<Rightarrow> string list \<Rightarrow> bool" where
  "has_children t es =
     list_ex (\<lambda>(q, n). length q = Suc (length es) \<and> take (length es) q = es) t"

fun bytes_of :: "node \<Rightarrow> string option" where
  "bytes_of (Plain s) = Some s"
| "bytes_of (Linked s) = Some s"
| "bytes_of _ = None"

fun is_regular :: "node \<Rightarrow> bool" where
  "is_regular (Plain s) = True"
| "is_regular (Linked s) = True"
| "is_regular _ = False"

section \<open>Snapshot data\<close>

record snapshot_identity =
  si_hash :: string
  si_absent :: bool

record snapshot_meta =
  original_path :: string
  canonical_path :: string
  existed :: bool
  last_write :: "snapshot_identity option"

text \<open>A directory of a group: the files \<open>original\<close> and \<open>meta.json\<close>, each present or not.\<close>

record snapshot_entry_dir =
  en_original :: "string option"
  en_meta :: "snapshot_meta option"

section \<open>Worlds, environments and actions\<close>

record world =
  w_tree :: tree
  w_groups :: "string \<Rightarrow> (string \<times> snapshot_entry_dir) list option"
  w_now :: nat

datatype os_call =
  Getwd | LStat | ReadLinks | OpenDir | MakeDir | OpenFile | CreateFile | StatFile | ReadFile
| TruncateFile | SeekFile | WriteFile | SyncFile | UnlinkFile | ReadDirectory
| StatMeta | MakeEntry | CopyOriginal | WriteMeta | ReadMeta | RemoveEntry | ReadEntries | RemoveEntries
| OpenOriginal

record env =
  en_fault :: "os_call \<Rightarrow> nat \<Rightarrow> nat option"
  en_cwd :: string
  en_path_hash :: "string \<Rightarrow> string"
  en_content_hash :: "string \<Rightarrow> string"

datatype file_error =
  NotExist | IsADirectory | NotADirectory | TooManyLinks | AlreadyThere | NotEmpty
| IoFailure os_call
| NonRegular string | Hardlink string | NotAbsolute string | InvalidPath string
| BadEntryId string
| NoCanonicalPath string | EntryIdMismatch string string | CanonicalChanged string string
| RootChanged string string | WriteDirChanged string string | OutsideWriteDir string string
| Incomplete nat nat
| Appeared string
| Refused string
| TargetsChanged
| SameFile string
| PartialApply string file_error
| AlsoFailed file_error file_error

type_synonym 'a act = "world \<Rightarrow> (file_error + 'a) \<times> world"

definition ret :: "'a \<Rightarrow> 'a act" where
  "ret a w = (Inr a, w)"

definition raise :: "file_error \<Rightarrow> 'a act" where
  "raise e w = (Inl e, w)"

definition abind :: "'a act \<Rightarrow> ('a \<Rightarrow> 'b act) \<Rightarrow> 'b act" where
  "abind m f w = (case m w of (Inl e, v) \<Rightarrow> (Inl e, v) | (Inr a, v) \<Rightarrow> f a v)"

text \<open>The error as a value, for the code that looks at it.\<close>

definition try_act :: "'a act \<Rightarrow> (file_error + 'a) act" where
  "try_act m w = (case m w of (r, v) \<Rightarrow> (Inr r, v))"

definition or_else :: "'a act \<Rightarrow> (file_error \<Rightarrow> 'a act) \<Rightarrow> 'a act" where
  "or_else m h w = (case m w of (Inl e, v) \<Rightarrow> h e v | (Inr a, v) \<Rightarrow> (Inr a, v))"

definition asks :: "(world \<Rightarrow> file_error + 'a) \<Rightarrow> 'a act" where
  "asks f w = (f w, w)"

definition updates :: "(world \<Rightarrow> world) \<Rightarrow> unit act" where
  "updates f w = (Inr (), f w)"

text \<open>One call of the operating system: its fault, if any. \<open>checked\<close> is a call that has no effect when it fails.\<close>

definition sys :: "env \<Rightarrow> os_call \<Rightarrow> nat option act" where
  "sys env k w = (Inr (en_fault env k (w_now w)), w\<lparr>w_now := Suc (w_now w)\<rparr>)"

definition checked :: "env \<Rightarrow> os_call \<Rightarrow> 'a act \<Rightarrow> 'a act" where
  "checked env k m = abind (sys env k) (\<lambda>f. case f of Some _ \<Rightarrow> raise (IoFailure k) | None \<Rightarrow> m)"

definition lift_sum :: "file_error + 'a \<Rightarrow> 'a act" where
  "lift_sum r w = (r, w)"

definition put_node :: "string list \<Rightarrow> node \<Rightarrow> unit act" where
  "put_node es n = updates (\<lambda>w. w\<lparr>w_tree := AList.update es n (w_tree w)\<rparr>)"

definition drop_node :: "string list \<Rightarrow> unit act" where
  "drop_node es = updates (\<lambda>w. w\<lparr>w_tree := AList.delete es (w_tree w)\<rparr>)"

section \<open>Paths in the tree\<close>

definition elems :: "string \<Rightarrow> string list" where
  "elems path = clean_elems path"

definition show_path :: "string list \<Rightarrow> string" where
  "show_path es = slash # join [slash] es"

text \<open>Following symbolic links: the elements still to walk, with a bound on the links. The kernel allows 40,
  \<open>filepath.EvalSymlinks\<close> 255.\<close>

definition link_elems :: "string \<Rightarrow> string list" where
  "link_elems s = filter (\<lambda>c. c \<noteq> [] \<and> c \<noteq> ''.'') (split_char slash s)"

function walk_links :: "tree \<Rightarrow> nat \<Rightarrow> string list \<Rightarrow> string list \<Rightarrow> file_error + string list" where
  "walk_links t n done [] = Inr done"
| "walk_links t n done (c # cs) =
     (if c = ''..'' then walk_links t n (butlast done) cs
      else case node_at t (done @ [c]) of
             None \<Rightarrow> Inl NotExist
           | Some Directory \<Rightarrow> walk_links t n (done @ [c]) cs
           | Some (Symlink l) \<Rightarrow>
               (case n of
                  0 \<Rightarrow> Inl TooManyLinks
                | Suc m \<Rightarrow> walk_links t m (if is_abs l then [] else done) (link_elems l @ cs))
           | Some _ \<Rightarrow> if cs = [] then Inr (done @ [c]) else Inl NotADirectory)"
  by pat_completeness auto
termination
  by (relation "measures [\<lambda>(t, n, d, cs). n, \<lambda>(t, n, d, cs). length cs]") auto

text \<open>\<open>os.Lstat\<close> follows the links of the parents and looks at the leaf itself.\<close>

definition leaf_node :: "tree \<Rightarrow> string list \<Rightarrow> file_error + node" where
  "leaf_node t es =
     (if es = [] then Inr Directory
      else rbind (walk_links t 40 [] (butlast es)) (\<lambda>d.
             case node_at t d of
               Some Directory \<Rightarrow>
                 (case node_at t (d @ [last es]) of None \<Rightarrow> Inl NotExist | Some n \<Rightarrow> Inr n)
             | _ \<Rightarrow> Inl NotADirectory))"

definition os_lstat :: "env \<Rightarrow> string list \<Rightarrow> node act" where
  "os_lstat env es = checked env LStat (asks (\<lambda>w. leaf_node (w_tree w) es))"

definition eval_symlinks :: "env \<Rightarrow> string list \<Rightarrow> string act" where
  "eval_symlinks env es =
     checked env ReadLinks (asks (\<lambda>w. rbind (walk_links (w_tree w) 255 [] es) (\<lambda>r. Inr (show_path r))))"

end
