(* ===== verification/Safe_Files.thy ===== *)
theory Safe_Files
  imports File_World
begin

text \<open>
  \<open>src/internal/safefs/safefs_linux.go\<close>: opening and removing the last element of a path without following any
  symbolic link, creating missing parents on request, and refusing what is not a regular file with a single name.
  A descriptor is the path it was opened at. The replacement of a file's content through a descriptor
  (\<open>writeReplacement\<close> of \<open>src/internal/tool/write_file.go\<close>) is here too.
\<close>

section \<open>Walking to the parent\<close>

text \<open>\<open>openat\<close> of a directory below an open one: a link is refused with \<open>O_NOFOLLOW\<close>.\<close>

definition openat_dir :: "env \<Rightarrow> string list \<Rightarrow> unit act" where
  "openat_dir env p = checked env OpenDir (asks (\<lambda>w.
     case node_at (w_tree w) p of
       None \<Rightarrow> Inl NotExist
     | Some Directory \<Rightarrow> Inr ()
     | Some _ \<Rightarrow> Inl NotADirectory))"

definition mkdirat :: "env \<Rightarrow> string list \<Rightarrow> unit act" where
  "mkdirat env p = checked env MakeDir (\<lambda>w.
     case node_at (w_tree w) p of
       None \<Rightarrow> put_node p Directory w
     | Some _ \<Rightarrow> raise AlreadyThere w)"

definition enter_dir :: "env \<Rightarrow> bool \<Rightarrow> string list \<Rightarrow> unit act" where
  "enter_dir env create p =
     or_else (openat_dir env p) (\<lambda>e.
       if e = NotExist \<and> create then
         abind (or_else (mkdirat env p) (\<lambda>e'. if e' = AlreadyThere then ret () else raise e'))
           (\<lambda>_. openat_dir env p)
       else raise e)"

fun enter_dirs :: "env \<Rightarrow> bool \<Rightarrow> string list \<Rightarrow> string list \<Rightarrow> unit act" where
  "enter_dirs env create d [] = ret ()"
| "enter_dirs env create d (c # cs) =
     abind (enter_dir env create (d @ [c])) (\<lambda>_. enter_dirs env create (d @ [c]) cs)"

definition open_parent :: "env \<Rightarrow> string \<Rightarrow> bool \<Rightarrow> string list act" where
  "open_parent env path create =
     (if \<not> is_abs path then raise (NotAbsolute path)
      else if elems path = [] then raise (InvalidPath path)
      else abind (openat_dir env []) (\<lambda>_.
           abind (enter_dirs env create [] (butlast (elems path))) (\<lambda>_. ret (elems path))))"

section \<open>Opening the leaf\<close>

definition require_regular_fd :: "env \<Rightarrow> string list \<Rightarrow> unit act" where
  "require_regular_fd env h = checked env StatFile (asks (\<lambda>w.
     case node_at (w_tree w) h of
       Some (Plain s) \<Rightarrow> Inr ()
     | Some (Linked s) \<Rightarrow> Inl (Hardlink (show_path h))
     | _ \<Rightarrow> Inl (NonRegular (show_path h))))"

definition openat_leaf :: "env \<Rightarrow> bool \<Rightarrow> string list \<Rightarrow> unit act" where
  "openat_leaf env for_writing h = checked env OpenFile (asks (\<lambda>w.
     case node_at (w_tree w) h of
       None \<Rightarrow> Inl NotExist
     | Some (Symlink l) \<Rightarrow> Inl TooManyLinks
     | Some Directory \<Rightarrow> if for_writing then Inl IsADirectory else Inr ()
     | Some _ \<Rightarrow> Inr ()))"

definition create_excl :: "env \<Rightarrow> string list \<Rightarrow> unit act" where
  "create_excl env h = checked env CreateFile (\<lambda>w.
     case node_at (w_tree w) h of
       None \<Rightarrow> put_node h (Plain []) w
     | Some _ \<Rightarrow> raise AlreadyThere w)"

definition open_existing :: "env \<Rightarrow> string \<Rightarrow> bool \<Rightarrow> string list act" where
  "open_existing env path for_writing =
     abind (open_parent env path False) (\<lambda>h.
     abind (openat_leaf env for_writing h) (\<lambda>_.
     abind (require_regular_fd env h) (\<lambda>_. ret h)))"

definition reopen_leaf :: "env \<Rightarrow> string list \<Rightarrow> (string list \<times> bool) act" where
  "reopen_leaf env h =
     abind (openat_leaf env True h) (\<lambda>_.
     abind (require_regular_fd env h) (\<lambda>_. ret (h, True)))"

definition open_for_write :: "env \<Rightarrow> string \<Rightarrow> (string list \<times> bool) act" where
  "open_for_write env path =
     abind (open_parent env path True) (\<lambda>h.
     abind (try_act (openat_leaf env True h)) (\<lambda>r.
       case r of
         Inr _ \<Rightarrow> abind (require_regular_fd env h) (\<lambda>_. ret (h, True))
       | Inl e \<Rightarrow>
           (if e \<noteq> NotExist then raise e
            else abind (try_act (create_excl env h)) (\<lambda>c.
                   case c of
                     Inr _ \<Rightarrow> ret (h, False)
                   | Inl e' \<Rightarrow> if e' \<noteq> AlreadyThere then raise e' else reopen_leaf env h))))"

text \<open>\<open>OpenDirectory\<close>, for the listings of suggestions.\<close>

definition open_directory :: "env \<Rightarrow> string \<Rightarrow> string list act" where
  "open_directory env path =
     (if \<not> is_abs (clean path) then raise (NotAbsolute path)
      else if elems path = [] then abind (openat_dir env []) (\<lambda>_. ret [])
      else abind (open_parent env (clean path) False) (\<lambda>h.
           abind (openat_dir env h) (\<lambda>_. ret h)))"

section \<open>Removing the leaf\<close>

definition require_removable_leaf :: "env \<Rightarrow> string list \<Rightarrow> unit act" where
  "require_removable_leaf env h = checked env StatFile (asks (\<lambda>w.
     case node_at (w_tree w) h of
       None \<Rightarrow> Inl NotExist
     | Some (Linked s) \<Rightarrow> Inl (Hardlink (show_path h))
     | Some Special \<Rightarrow> Inl (NonRegular (show_path h))
     | Some _ \<Rightarrow> Inr ()))"

definition unlinkat :: "env \<Rightarrow> bool \<Rightarrow> string list \<Rightarrow> unit act" where
  "unlinkat env remove_dir h = checked env UnlinkFile (\<lambda>w.
     case node_at (w_tree w) h of
       None \<Rightarrow> raise NotExist w
     | Some Directory \<Rightarrow>
         if \<not> remove_dir then raise IsADirectory w
         else if has_children (w_tree w) h then raise NotEmpty w
         else drop_node h w
     | Some _ \<Rightarrow> if remove_dir then raise NotADirectory w else drop_node h w)"

definition remove_leaf :: "env \<Rightarrow> string \<Rightarrow> unit act" where
  "remove_leaf env path =
     abind (open_parent env path False) (\<lambda>h.
     abind (require_removable_leaf env h) (\<lambda>_.
       or_else (unlinkat env False h) (\<lambda>e.
         if e = IsADirectory then unlinkat env True h else raise e)))"

section \<open>Content\<close>

definition read_all :: "env \<Rightarrow> string list \<Rightarrow> string act" where
  "read_all env h = checked env ReadFile (asks (\<lambda>w.
     case node_at (w_tree w) h of
       None \<Rightarrow> Inl NotExist
     | Some n \<Rightarrow> (case bytes_of n of Some s \<Rightarrow> Inr s | None \<Rightarrow> Inl IsADirectory)))"

text \<open>Truncating, seeking to the start, writing and syncing. A failing call may have kept or written some bytes; the
  content counts as complete when all of it was written.\<close>

definition write_replacement :: "env \<Rightarrow> string list \<Rightarrow> string \<Rightarrow> (bool \<times> file_error option) act" where
  "write_replacement env h content =
     abind (sys env TruncateFile) (\<lambda>f.
       case f of
         Some n \<Rightarrow>
           abind (asks (\<lambda>w. Inr (case node_at (w_tree w) h of Some (Plain s) \<Rightarrow> s | _ \<Rightarrow> []))) (\<lambda>s.
           abind (put_node h (Plain (take n s))) (\<lambda>_. ret (False, Some (IoFailure TruncateFile))))
       | None \<Rightarrow>
           abind (put_node h (Plain [])) (\<lambda>_.
           abind (sys env SeekFile) (\<lambda>f.
             case f of
               Some _ \<Rightarrow> ret (False, Some (IoFailure SeekFile))
             | None \<Rightarrow>
                 abind (sys env WriteFile) (\<lambda>f.
                   let n = (case f of Some k \<Rightarrow> min k (length content) | None \<Rightarrow> length content)
                   in abind (put_node h (Plain (take n content))) (\<lambda>_.
                        if n \<noteq> length content then ret (False, Some (Incomplete n (length content)))
                        else if f \<noteq> None then ret (True, Some (IoFailure WriteFile))
                        else abind (sys env SyncFile) (\<lambda>f.
                               ret (True, case f of Some _ \<Rightarrow> Some (IoFailure SyncFile) | None \<Rightarrow> None)))))))"

end
