(* ===== verification/Path_Resolve.thy ===== *)
theory Path_Resolve
  imports Safe_Files
begin

text \<open>
  \<open>src/internal/pathutil/resolver.go\<close>: the absolute and the canonical path of a file that need not exist. The
  deepest parent that exists is resolved through its symbolic links; the missing elements are appended. The write
  boundary of \<open>src/internal/tool/capability.go\<close> and the regular-file check of \<open>file_shape.go\<close> are here too.
\<close>

section \<open>Joining paths\<close>

text \<open>\<open>filepath.Join\<close> leaves out empty elements and cleans the result.\<close>

definition path_join :: "string list \<Rightarrow> string" where
  "path_join ps = (let qs = filter (\<lambda>p. p \<noteq> []) ps in if qs = [] then [] else clean (join [slash] qs))"

definition go_abs :: "env \<Rightarrow> string \<Rightarrow> string act" where
  "go_abs env path =
     (if is_abs path then ret (clean path)
      else checked env Getwd (ret (path_join [en_cwd env, path])))"

section \<open>Resolving\<close>

record resolved_path =
  rp_original :: string
  rp_abs :: string
  rp_canonical :: string
  rp_leaf_exists :: bool

text \<open>The loop over the parents; the elements of the current parent come in reverse, the deepest first.\<close>

fun climb :: "env \<Rightarrow> string \<Rightarrow> string list \<Rightarrow> string list \<Rightarrow> (string \<times> bool) act" where
  "climb env abs_path [] tail =
     abind (try_act (os_lstat env [])) (\<lambda>r.
       case r of
         Inr _ \<Rightarrow> abind (eval_symlinks env []) (\<lambda>p. ret (path_join (p # tail), False))
       | Inl e \<Rightarrow> if e = NotExist then ret (abs_path, False) else raise e)"
| "climb env abs_path (c # rparent) tail =
     abind (try_act (os_lstat env (rev (c # rparent)))) (\<lambda>r.
       case r of
         Inr _ \<Rightarrow> abind (eval_symlinks env (rev (c # rparent))) (\<lambda>p. ret (path_join (p # tail), False))
       | Inl e \<Rightarrow> if e = NotExist then climb env abs_path rparent (c # tail) else raise e)"

definition resolve_abs_path :: "env \<Rightarrow> string \<Rightarrow> (string \<times> bool) act" where
  "resolve_abs_path env p =
     (let abs_path = clean p; es = elems p
      in abind (try_act (os_lstat env es)) (\<lambda>r.
           case r of
             Inr _ \<Rightarrow> abind (eval_symlinks env es) (\<lambda>c. ret (c, True))
           | Inl e \<Rightarrow>
               (if e \<noteq> NotExist then raise e
                else climb env abs_path (tl (rev es)) [last es])))"

definition resolve_file_path_from :: "env \<Rightarrow> string \<Rightarrow> string \<Rightarrow> resolved_path act" where
  "resolve_file_path_from env root path =
     (let path = (if root \<noteq> [] \<and> \<not> is_abs path then path_join [root, path] else path)
      in abind (go_abs env path) (\<lambda>abs_path.
         abind (resolve_abs_path env abs_path) (\<lambda>(canonical, leaf).
           ret \<lparr>rp_original = path, rp_abs = abs_path, rp_canonical = canonical, rp_leaf_exists = leaf\<rparr>)))"

definition resolve_file_path :: "env \<Rightarrow> string \<Rightarrow> resolved_path act" where
  "resolve_file_path env path = resolve_file_path_from env [] path"

section \<open>The shape of a target\<close>

definition ensure_regular_existing :: "env \<Rightarrow> string \<Rightarrow> bool act" where
  "ensure_regular_existing env path =
     abind (try_act (os_lstat env (elems path))) (\<lambda>r.
       case r of
         Inl e \<Rightarrow> if e = NotExist then ret False else raise e
       | Inr n \<Rightarrow> if is_regular n then ret True else raise (NonRegular path))"

section \<open>The write boundary\<close>

definition path_inside_dir :: "string \<Rightarrow> string \<Rightarrow> bool" where
  "path_inside_dir path dir =
     (case rel (clean dir) (clean path) of
        None \<Rightarrow> False
      | Some r \<Rightarrow> r = ''.'' \<or> (r \<noteq> ''..'' \<and> \<not> prefix (''..'' @ [slash]) r \<and> \<not> is_abs r))"

definition has_write_dir :: "string \<Rightarrow> bool" where
  "has_write_dir write_dir \<longleftrightarrow> trim_space write_dir \<noteq> []"

definition is_write_tool :: "string \<Rightarrow> bool" where
  "is_write_tool tool \<longleftrightarrow> tool = ''write_file'' \<or> tool = ''edit_file'' \<or> tool = ''apply_patch''"

definition check_write_dir_target :: "env \<Rightarrow> string \<Rightarrow> string \<Rightarrow> string \<Rightarrow> string \<Rightarrow> unit act" where
  "check_write_dir_target env root tool canonical write_dir =
     (if \<not> has_write_dir write_dir \<or> \<not> is_write_tool tool \<or> canonical = [] then ret ()
      else abind (resolve_file_path_from env root write_dir) (\<lambda>boundary.
             if path_inside_dir canonical (rp_canonical boundary) then ret ()
             else raise (OutsideWriteDir canonical (rp_canonical boundary))))"

end
