(* ===== verification/Code_Store.thy ===== *)
theory Code_Store
  imports Path_Resolve "HOL-Library.List_Lexorder" "HOL-Library.Char_ord"
begin

text \<open>
  \<open>src/internal/snapshot\<close> (\<open>code_store.go\<close>, \<open>meta.go\<close>): the first preimage of every file a group touches, the
  identity of what the group wrote last, and the traversal that restores the files. A group is addressed by the
  directory that holds its \<open>snapshots/1\<close>; the group's entries are that directory's sub-directories. Publishing
  \<open>meta.json\<close> replaces it completely or not at all (\<open>atomicfs.Write\<close>); removing an entry directory may fail half way.
\<close>

section \<open>Entries\<close>

type_synonym entries = "(string \<times> snapshot_entry_dir) list"

definition no_files :: snapshot_entry_dir where
  "no_files = \<lparr>en_original = None, en_meta = None\<rparr>"

definition group_entries :: "world \<Rightarrow> string \<Rightarrow> entries" where
  "group_entries w dir = (case w_groups w dir of None \<Rightarrow> [] | Some es \<Rightarrow> es)"

definition entry_of :: "world \<Rightarrow> string \<Rightarrow> string \<Rightarrow> snapshot_entry_dir option" where
  "entry_of w dir i = map_of (group_entries w dir) i"

definition set_entry :: "string \<Rightarrow> string \<Rightarrow> snapshot_entry_dir \<Rightarrow> world \<Rightarrow> world" where
  "set_entry dir i e w = w\<lparr>w_groups := (w_groups w)(dir := Some (AList.update i e (group_entries w dir)))\<rparr>"

definition drop_entry :: "string \<Rightarrow> string \<Rightarrow> world \<Rightarrow> world" where
  "drop_entry dir i w = w\<lparr>w_groups := (w_groups w)(dir := map_option (AList.delete i) (w_groups w dir))\<rparr>"

definition is_entry_id :: "string \<Rightarrow> bool" where
  "is_entry_id i \<longleftrightarrow> length i = 16 \<and> list_all (\<lambda>c. c \<in> set ''0123456789abcdef'') i"

definition validate_entry_id :: "string \<Rightarrow> unit act" where
  "validate_entry_id i = (if is_entry_id i then ret () else raise (BadEntryId i))"

text \<open>\<open>RemoveAll\<close> of an entry directory; a failing one may have removed either file before.\<close>

definition remove_entry_dir :: "env \<Rightarrow> string \<Rightarrow> string \<Rightarrow> unit act" where
  "remove_entry_dir env dir i =
     abind (sys env RemoveEntry) (\<lambda>f.
       case f of
         None \<Rightarrow> updates (drop_entry dir i)
       | Some n \<Rightarrow>
           abind (updates (\<lambda>w. case entry_of w dir i of
               None \<Rightarrow> w
             | Some e \<Rightarrow>
                 set_entry dir i
                   (if n = 1 then e\<lparr>en_original := None\<rparr> else if n = 2 then e\<lparr>en_meta := None\<rparr> else e) w))
             (\<lambda>_. raise (IoFailure RemoveEntry)))"

definition read_meta :: "env \<Rightarrow> string \<Rightarrow> string \<Rightarrow> snapshot_meta act" where
  "read_meta env dir i = checked env ReadMeta (asks (\<lambda>w.
     case Option.bind (entry_of w dir i) en_meta of None \<Rightarrow> Inl NotExist | Some m \<Rightarrow> Inr m))"

definition write_meta :: "env \<Rightarrow> string \<Rightarrow> string \<Rightarrow> snapshot_meta \<Rightarrow> unit act" where
  "write_meta env dir i m = checked env WriteMeta (\<lambda>w.
     case entry_of w dir i of
       None \<Rightarrow> raise NotExist w
     | Some e \<Rightarrow> updates (set_entry dir i (e\<lparr>en_meta := Some m\<rparr>)) w)"

section \<open>Capturing\<close>

definition make_entry :: "env \<Rightarrow> string \<Rightarrow> string \<Rightarrow> unit act" where
  "make_entry env dir i = checked env MakeEntry (updates (\<lambda>w.
     case entry_of w dir i of None \<Rightarrow> set_entry dir i no_files w | Some _ \<Rightarrow> w))"

text \<open>\<open>copyFromFile\<close>; a failing copy may leave a part of the bytes.\<close>

definition copy_original :: "env \<Rightarrow> string \<Rightarrow> string \<Rightarrow> string list \<Rightarrow> unit act" where
  "copy_original env dir i h =
     abind (sys env CopyOriginal) (\<lambda>f w.
       let s = (case node_at (w_tree w) h of Some n \<Rightarrow> (case bytes_of n of Some s \<Rightarrow> s | None \<Rightarrow> []) | None \<Rightarrow> []);
           e = (case entry_of w dir i of Some e \<Rightarrow> e | None \<Rightarrow> no_files)
       in case f of
            None \<Rightarrow> updates (set_entry dir i (e\<lparr>en_original := Some s\<rparr>)) w
          | Some n \<Rightarrow> abind (updates (set_entry dir i (e\<lparr>en_original := Some (take n s)\<rparr>)))
                        (\<lambda>_. raise (IoFailure CopyOriginal)) w)"

text \<open>The part of \<open>SnapshotResolvedEntry\<close> after the entry directory exists.\<close>

definition capture_entry :: "env \<Rightarrow> string \<Rightarrow> string \<Rightarrow> string \<Rightarrow> string \<Rightarrow> string \<Rightarrow> unit act" where
  "capture_entry env dir i original canonical real =
     abind (try_act (open_existing env canonical False)) (\<lambda>r.
       case r of
         Inl e \<Rightarrow>
           (if e \<noteq> NotExist then raise e
            else write_meta env dir i
                   \<lparr>original_path = original, canonical_path = real, existed = False, last_write = None\<rparr>)
       | Inr h \<Rightarrow>
           abind (checked env StatFile (asks (\<lambda>w.
               case node_at (w_tree w) h of
                 Some n \<Rightarrow> if is_regular n then Inr () else Inl (NonRegular canonical)
               | None \<Rightarrow> Inl (NonRegular canonical)))) (\<lambda>_.
           abind (copy_original env dir i h) (\<lambda>_.
             write_meta env dir i
               \<lparr>original_path = original, canonical_path = real, existed = True, last_write = None\<rparr>)))"

definition snapshot_resolved_entry :: "env \<Rightarrow> string \<Rightarrow> string \<Rightarrow> string \<Rightarrow> (string \<times> bool) act" where
  "snapshot_resolved_entry env dir original canonical =
     abind (try_act (eval_symlinks env (elems canonical))) (\<lambda>r.
       let real = (case r of Inr p \<Rightarrow> p | Inl _ \<Rightarrow> canonical); i = en_path_hash env real
       in abind (try_act (os_lstat env (elems canonical))) (\<lambda>l.
            if (case l of Inr n \<Rightarrow> \<not> is_regular n | Inl e \<Rightarrow> e \<noteq> NotExist)
            then raise (case l of Inr n \<Rightarrow> NonRegular canonical | Inl e \<Rightarrow> e)
            else
              abind (try_act (checked env StatMeta (asks (\<lambda>w.
                  case Option.bind (entry_of w dir i) en_meta of None \<Rightarrow> Inl NotExist | Some m \<Rightarrow> Inr ())))) (\<lambda>s.
                case s of
                  Inr _ \<Rightarrow> ret (i, False)
                | Inl _ \<Rightarrow>
                    abind (make_entry env dir i) (\<lambda>_.
                    abind (or_else (capture_entry env dir i original canonical real)
                             (\<lambda>e. abind (try_act (remove_entry_dir env dir i)) (\<lambda>_. raise e)))
                      (\<lambda>_. ret (i, True))))))"

definition discard_entry :: "env \<Rightarrow> string \<Rightarrow> string \<Rightarrow> unit act" where
  "discard_entry env dir i = abind (validate_entry_id i) (\<lambda>_. remove_entry_dir env dir i)"

text \<open>\<open>ReplaceSnapshotIdentity\<close> and the identity the entry had.\<close>

definition replace_identity ::
  "env \<Rightarrow> string \<Rightarrow> string \<Rightarrow> snapshot_identity option \<Rightarrow> snapshot_identity option act" where
  "replace_identity env dir i identity =
     abind (validate_entry_id i) (\<lambda>_.
     abind (read_meta env dir i) (\<lambda>m.
     abind (write_meta env dir i (m\<lparr>last_write := identity\<rparr>)) (\<lambda>_. ret (last_write m))))"

definition record_content :: "env \<Rightarrow> string \<Rightarrow> string \<Rightarrow> string \<Rightarrow> unit act" where
  "record_content env dir i content =
     abind (replace_identity env dir i
              (Some \<lparr>si_hash = en_content_hash env content, si_absent = False\<rparr>)) (\<lambda>_. ret ())"

definition record_absence :: "env \<Rightarrow> string \<Rightarrow> string \<Rightarrow> unit act" where
  "record_absence env dir i =
     abind (replace_identity env dir i (Some \<lparr>si_hash = [], si_absent = True\<rparr>)) (\<lambda>_. ret ())"

text \<open>\<open>ReadDir\<close> lists the names in order; unreadable entries are left out of the listing.\<close>

definition entry_names :: "world \<Rightarrow> string \<Rightarrow> file_error + string list" where
  "entry_names w dir =
     (case w_groups w dir of None \<Rightarrow> Inl NotExist | Some es \<Rightarrow> Inr (sort (remdups (map fst es))))"

fun readable_metas :: "env \<Rightarrow> string \<Rightarrow> string list \<Rightarrow> snapshot_meta list act" where
  "readable_metas env dir [] = ret []"
| "readable_metas env dir (i # is) =
     abind (try_act (read_meta env dir i)) (\<lambda>r.
     abind (readable_metas env dir is) (\<lambda>ms.
       ret (case r of Inl _ \<Rightarrow> ms | Inr m \<Rightarrow> m # ms)))"

definition list_entries :: "env \<Rightarrow> string \<Rightarrow> snapshot_meta list act" where
  "list_entries env dir =
     abind (try_act (checked env ReadEntries (asks (\<lambda>w. entry_names w dir)))) (\<lambda>r.
       case r of
         Inl e \<Rightarrow> if e = NotExist then ret [] else raise e
       | Inr names \<Rightarrow> readable_metas env dir names)"

end
