(* ===== verification/File_Mutation.thy ===== *)
theory File_Mutation
  imports Code_Store Edit_Preview
begin

text \<open>
  The prepared mutations of \<open>src/internal/tool\<close>: the bindings made at preparation and their revalidation
  (\<open>prepare.go\<close>), the snapshot transaction around a mutation (\<open>write_file.go\<close>) and the tools \<open>write_file\<close> and
  \<open>edit_file\<close>. The snapshot store is the group of \<open>Code_Store\<close> addressed by \<open>dir\<close>. Of a wrapped error the model
  keeps the cause.
\<close>

section \<open>Bindings\<close>

record approved_binding =
  ab_write_dir :: string
  ab_root_canonical :: string
  ab_write_dir_canonical :: string

record canonical_binding =
  cb_display :: string
  cb_canonical :: string
  cb_write_dir_canonical :: string
  cb_leaf_exists :: bool

record bound_call =
  bc_root :: string
  bc_tool :: string
  bc_path :: string
  bc_root_canonical :: string
  bc_canonical :: string
  bc_write_dir :: string
  bc_write_dir_canonical :: string

definition bind_write_dir :: "env \<Rightarrow> string \<Rightarrow> string \<Rightarrow> string act" where
  "bind_write_dir env root write_dir =
     (if write_dir = [] then ret []
      else abind (resolve_file_path_from env root write_dir) (\<lambda>r. ret (rp_canonical r)))"

definition file_display_abs_path :: "env \<Rightarrow> string \<Rightarrow> string \<Rightarrow> string act" where
  "file_display_abs_path env root path =
     go_abs env (if root \<noteq> [] \<and> \<not> is_abs path then path_join [root, path] else path)"

definition bind_canonical_target ::
  "env \<Rightarrow> string \<Rightarrow> string \<Rightarrow> string \<Rightarrow> approved_binding \<Rightarrow> canonical_binding act" where
  "bind_canonical_target env root tool path approved =
     abind (file_display_abs_path env root path) (\<lambda>display.
     abind (resolve_file_path_from env root path) (\<lambda>r.
     abind (check_write_dir_target env root tool (rp_canonical r) (ab_write_dir approved)) (\<lambda>_.
     abind (if ab_write_dir_canonical approved = [] then bind_write_dir env root (ab_write_dir approved)
            else ret (ab_write_dir_canonical approved)) (\<lambda>wd.
       ret \<lparr>cb_display = display, cb_canonical = rp_canonical r, cb_write_dir_canonical = wd,
            cb_leaf_exists = rp_leaf_exists r\<rparr>))))"

definition bind_workspace_root :: "env \<Rightarrow> string \<Rightarrow> string act" where
  "bind_workspace_root env root =
     abind (resolve_file_path_from env [] root) (\<lambda>r. ret (rp_canonical r))"

definition revalidate_workspace_root :: "env \<Rightarrow> string \<Rightarrow> string \<Rightarrow> unit act" where
  "revalidate_workspace_root env root bound_canonical =
     abind (resolve_file_path_from env [] root) (\<lambda>r.
       if bound_canonical \<noteq> [] \<and> rp_canonical r \<noteq> bound_canonical
       then raise (RootChanged bound_canonical (rp_canonical r)) else ret ())"

definition revalidate_write_dir_witness :: "env \<Rightarrow> string \<Rightarrow> string \<Rightarrow> string \<Rightarrow> unit act" where
  "revalidate_write_dir_witness env root write_dir bound_canonical =
     (if write_dir = [] then ret ()
      else abind (resolve_file_path_from env root write_dir) (\<lambda>r.
             if rp_canonical r \<noteq> bound_canonical then raise (WriteDirChanged bound_canonical (rp_canonical r))
             else ret ()))"

definition revalidate_write_dir :: "env \<Rightarrow> bound_call \<Rightarrow> unit act" where
  "revalidate_write_dir env b =
     abind (revalidate_write_dir_witness env (bc_root b) (bc_write_dir b) (bc_write_dir_canonical b)) (\<lambda>_.
       if bc_write_dir b \<noteq> [] \<and> \<not> path_inside_dir (bc_canonical b) (bc_write_dir_canonical b)
       then raise (OutsideWriteDir (bc_canonical b) (bc_write_dir_canonical b)) else ret ())"

definition revalidate :: "env \<Rightarrow> bound_call \<Rightarrow> unit act" where
  "revalidate env b =
     abind (revalidate_workspace_root env (bc_root b) (bc_root_canonical b)) (\<lambda>_.
     abind (resolve_file_path_from env (bc_root b) (bc_path b)) (\<lambda>r.
       if bc_canonical b \<noteq> [] \<and> rp_canonical r \<noteq> bc_canonical b
       then raise (CanonicalChanged (bc_canonical b) (rp_canonical r))
       else revalidate_write_dir env b))"

text \<open>The part of the preparation that the file tools share: the bound call and the display path.\<close>

definition prepare_bound ::
  "env \<Rightarrow> string \<Rightarrow> string \<Rightarrow> string \<Rightarrow> approved_binding \<Rightarrow> (bound_call \<times> canonical_binding) act" where
  "prepare_bound env root tool path approved =
     abind (if ab_root_canonical approved = [] then bind_workspace_root env root
            else ret (ab_root_canonical approved)) (\<lambda>root_canonical.
     abind (bind_canonical_target env root tool path approved) (\<lambda>cb.
       ret (\<lparr>bc_root = root, bc_tool = tool, bc_path = path, bc_root_canonical = root_canonical,
             bc_canonical = cb_canonical cb, bc_write_dir = ab_write_dir approved,
             bc_write_dir_canonical = cb_write_dir_canonical cb\<rparr>, cb)))"

section \<open>The snapshot transaction\<close>

record captured_snapshot =
  cs_id :: string
  cs_created :: bool
  cs_prior :: "snapshot_identity option"

definition capture_snapshot :: "env \<Rightarrow> string \<Rightarrow> string \<Rightarrow> string \<Rightarrow> captured_snapshot act" where
  "capture_snapshot env dir original canonical =
     abind (snapshot_resolved_entry env dir original canonical) (\<lambda>(i, created).
     abind (try_act (replace_identity env dir i None)) (\<lambda>r.
       case r of
         Inr prior \<Rightarrow> ret \<lparr>cs_id = i, cs_created = created, cs_prior = prior\<rparr>
       | Inl e \<Rightarrow>
           (if \<not> created then raise e
            else abind (try_act (discard_entry env dir i)) (\<lambda>d.
                   raise (case d of Inl e' \<Rightarrow> AlsoFailed e e' | Inr _ \<Rightarrow> e)))))"

definition abandon_unmutated :: "env \<Rightarrow> string \<Rightarrow> captured_snapshot \<Rightarrow> unit act" where
  "abandon_unmutated env dir s =
     (if cs_created s then discard_entry env dir (cs_id s)
      else if cs_prior s = None then ret ()
      else abind (replace_identity env dir (cs_id s) (cs_prior s)) (\<lambda>_. ret ()))"

text \<open>An error before any mutation: the snapshot is abandoned, then the error returned.\<close>

definition abandon_and_raise :: "env \<Rightarrow> string \<Rightarrow> captured_snapshot \<Rightarrow> file_error \<Rightarrow> 'a act" where
  "abandon_and_raise env dir s e =
     abind (try_act (abandon_unmutated env dir s)) (\<lambda>r.
       raise (case r of Inl e' \<Rightarrow> AlsoFailed e e' | Inr _ \<Rightarrow> e))"

definition finish_mutation_failure ::
  "env \<Rightarrow> string \<Rightarrow> captured_snapshot \<Rightarrow> bool \<Rightarrow> bool \<Rightarrow> string \<Rightarrow> file_error \<Rightarrow> 'a act" where
  "finish_mutation_failure env dir s started complete produced e =
     (if \<not> started then abandon_and_raise env dir s e
      else if complete then
        abind (try_act (record_content env dir (cs_id s) produced)) (\<lambda>r.
          raise (case r of Inl e' \<Rightarrow> AlsoFailed e e' | Inr _ \<Rightarrow> e))
      else raise e)"

text \<open>The checks of the shape through a descriptor (\<open>ensureRegularFileInfo\<close> after \<open>Stat\<close>).\<close>

definition ensure_regular_handle :: "env \<Rightarrow> string \<Rightarrow> string list \<Rightarrow> unit act" where
  "ensure_regular_handle env path h = checked env StatFile (asks (\<lambda>w.
     case node_at (w_tree w) h of
       Some n \<Rightarrow> if is_regular n then Inr () else Inl (NonRegular path)
     | None \<Rightarrow> Inl (NonRegular path)))"

definition open_write_target :: "env \<Rightarrow> string \<Rightarrow> (string list \<times> bool) act" where
  "open_write_target env path =
     abind (ensure_regular_existing env path) (\<lambda>_.
     abind (open_for_write env path) (\<lambda>(h, existing).
       if existing then abind (ensure_regular_handle env path h) (\<lambda>_. ret (h, existing))
       else ret (h, existing)))"

definition preflight_write :: "env \<Rightarrow> string \<Rightarrow> unit act" where
  "preflight_write env path =
     abind (ensure_regular_existing env path) (\<lambda>existing.
       if \<not> existing then ret ()
       else abind (open_existing env path True) (\<lambda>h. ensure_regular_handle env path h))"

section \<open>The tool \<open>write_file\<close>\<close>

text \<open>Whether the mutation may have started, whether the bytes are known to be complete, and the error.\<close>

definition write_mutation :: "env \<Rightarrow> string \<Rightarrow> string \<Rightarrow> (bool \<times> bool \<times> file_error option) act" where
  "write_mutation env canonical content =
     abind (try_act (open_write_target env canonical)) (\<lambda>r.
       case r of
         Inl e \<Rightarrow> ret (False, False, Some e)
       | Inr (h, _) \<Rightarrow>
           abind (write_replacement env h content) (\<lambda>(complete, err).
             ret (True, if err = None then True else complete, err)))"

definition write_with_bookkeeping ::
  "env \<Rightarrow> string \<Rightarrow> bound_call \<Rightarrow> string \<Rightarrow> string \<Rightarrow> string \<Rightarrow> string \<Rightarrow> string act" where
  "write_with_bookkeeping env dir b display canonical content path =
     abind (preflight_write env canonical) (\<lambda>_.
     abind (capture_snapshot env dir display canonical) (\<lambda>s.
     abind (try_act (revalidate env b)) (\<lambda>v.
       case v of
         Inl e \<Rightarrow> abandon_and_raise env dir s e
       | Inr _ \<Rightarrow>
           abind (write_mutation env canonical content) (\<lambda>(started, complete, err).
             case err of
               Some e \<Rightarrow> finish_mutation_failure env dir s started complete content e
             | None \<Rightarrow>
                 abind (record_content env dir (cs_id s) content)
                   (\<lambda>_. ret (''Wrote '' @ path @ ''.''))))))"

definition execute_write :: "env \<Rightarrow> string \<Rightarrow> bound_call \<Rightarrow> string \<Rightarrow> string \<Rightarrow> string act" where
  "execute_write env dir b display content =
     abind (revalidate env b) (\<lambda>_. write_with_bookkeeping env dir b display (bc_canonical b) content (bc_path b))"

section \<open>The tool \<open>edit_file\<close>\<close>

definition preflight_edit :: "env \<Rightarrow> string \<Rightarrow> unit act" where
  "preflight_edit env path =
     abind (ensure_regular_existing env path) (\<lambda>_.
     abind (open_existing env path True) (\<lambda>h. ensure_regular_handle env path h))"

definition edit_refusal :: "edit_error \<Rightarrow> string" where
  "edit_refusal e = (case e of OldNotFound p \<Rightarrow> ''old_string not found'' | OldAmbiguous n p \<Rightarrow> ''old_string is ambiguous'')"

text \<open>The part of \<open>editMutation\<close> before the write: the descriptor and the edit.\<close>

definition edit_read :: "env \<Rightarrow> string \<Rightarrow> string \<Rightarrow> string \<Rightarrow> string \<Rightarrow> bool \<Rightarrow> (string list \<times> edit_result) act" where
  "edit_read env canonical path old new all =
     (if old = [] then raise (Refused ''old_string must not be empty'')
      else if old = new then raise (Refused ''old_string and new_string are identical'')
      else
        abind (ensure_regular_existing env canonical) (\<lambda>_.
        abind (open_existing env canonical True) (\<lambda>h.
        abind (ensure_regular_handle env canonical h) (\<lambda>_.
        abind (read_all env h) (\<lambda>content.
          case apply_edit content old new all path of
            None \<Rightarrow> raise (Refused ''edit does not return'')
          | Some (Inl e) \<Rightarrow> raise (Refused (edit_refusal e))
          | Some (Inr r) \<Rightarrow> ret (h, r))))))"

definition edit_mutation ::
  "env \<Rightarrow> string \<Rightarrow> string \<Rightarrow> string \<Rightarrow> string \<Rightarrow> bool \<Rightarrow> (string \<times> string \<times> bool \<times> bool \<times> file_error option) act" where
  "edit_mutation env canonical path old new all =
     abind (try_act (edit_read env canonical path old new all)) (\<lambda>r.
       case r of
         Inl e \<Rightarrow> ret ([], [], False, False, Some e)
       | Inr (h, res) \<Rightarrow>
           abind (write_replacement env h (er_content res)) (\<lambda>(complete, err).
             ret (er_summary res, er_content res, True, if err = None then True else complete, err)))"

definition edit_with_bookkeeping ::
  "env \<Rightarrow> string \<Rightarrow> bound_call \<Rightarrow> string \<Rightarrow> string \<Rightarrow> string \<Rightarrow> string \<Rightarrow> string \<Rightarrow> bool \<Rightarrow> string act" where
  "edit_with_bookkeeping env dir b display canonical path old new all =
     abind (preflight_edit env canonical) (\<lambda>_.
     abind (capture_snapshot env dir display canonical) (\<lambda>s.
     abind (try_act (revalidate env b)) (\<lambda>v.
       case v of
         Inl e \<Rightarrow> abandon_and_raise env dir s e
       | Inr _ \<Rightarrow>
           abind (edit_mutation env canonical path old new all) (\<lambda>(summary, produced, started, complete, err).
             case err of
               Some e \<Rightarrow> finish_mutation_failure env dir s started complete produced e
             | None \<Rightarrow>
                 abind (record_content env dir (cs_id s) produced) (\<lambda>_. ret summary)))))"

definition execute_edit ::
  "env \<Rightarrow> string \<Rightarrow> bound_call \<Rightarrow> string \<Rightarrow> string \<Rightarrow> string \<Rightarrow> bool \<Rightarrow> string act" where
  "execute_edit env dir b display old new all =
     abind (revalidate env b) (\<lambda>_. edit_with_bookkeeping env dir b display (bc_canonical b) (bc_path b) old new all)"

end
