(* ===== verification/Patch_Apply.thy ===== *)
theory Patch_Apply
  imports File_Mutation
begin

text \<open>
  The tool \<open>apply_patch\<close> on the file system: its targets (\<open>src/internal/tool/apply_patch_target.go\<close>) and the
  validation and application of a parsed patch (\<open>apply_patch_apply.go\<close>). All operations are located against the
  current files first; then they are applied in order, each with its own snapshot, and a failure reports what was
  committed before it.
\<close>

section \<open>Targets\<close>

datatype target_role = RoleAdd | RoleUpdate | RoleDelete | RoleMoveSource | RoleMoveDest

record patch_target =
  pt_path :: string
  pt_abs :: string
  pt_canonical :: string
  pt_role :: target_role
  pt_destination :: bool

definition source_role :: "file_op \<Rightarrow> target_role" where
  "source_role fop =
     (case op_kind fop of
        OpAdd \<Rightarrow> RoleAdd
      | OpDelete \<Rightarrow> RoleDelete
      | OpUpdate \<Rightarrow> if move_path fop \<noteq> [] then RoleMoveSource else RoleUpdate)"

definition resolve_patch_target :: "env \<Rightarrow> string \<Rightarrow> string \<Rightarrow> target_role \<Rightarrow> bool \<Rightarrow> patch_target act" where
  "resolve_patch_target env root path role destination =
     abind (resolve_file_path_from env root path) (\<lambda>r.
       ret \<lparr>pt_path = path, pt_abs = rp_abs r, pt_canonical = rp_canonical r, pt_role = role,
            pt_destination = destination\<rparr>)"

definition checked_target ::
  "env \<Rightarrow> string \<Rightarrow> string \<Rightarrow> string \<Rightarrow> target_role \<Rightarrow> bool \<Rightarrow> patch_target act" where
  "checked_target env root write_dir path role destination =
     abind (resolve_patch_target env root path role destination) (\<lambda>t.
     abind (check_write_dir_target env root ''apply_patch'' (pt_canonical t) write_dir) (\<lambda>_. ret t))"

fun op_targets :: "env \<Rightarrow> string \<Rightarrow> string \<Rightarrow> file_op list \<Rightarrow> patch_target list act" where
  "op_targets env root write_dir [] = ret []"
| "op_targets env root write_dir (fop # fops) =
     abind (checked_target env root write_dir (op_path fop) (source_role fop) False) (\<lambda>t.
     abind (if move_path fop = [] then ret []
            else abind (checked_target env root write_dir (move_path fop) RoleMoveDest True) (\<lambda>d. ret [d])) (\<lambda>ds.
     abind (op_targets env root write_dir fops) (\<lambda>ts. ret (t # ds @ ts))))"

text \<open>The check for two entries that resolve to the same file.\<close>

fun first_collision :: "string list \<Rightarrow> patch_target list \<Rightarrow> string option" where
  "first_collision seen [] = None"
| "first_collision seen (t # ts) =
     (if clean (pt_canonical t) \<in> set seen then Some (pt_canonical t)
      else first_collision (clean (pt_canonical t) # seen) ts)"

definition resolve_patch_targets :: "env \<Rightarrow> string \<Rightarrow> string \<Rightarrow> file_op list \<Rightarrow> patch_target list act" where
  "resolve_patch_targets env root write_dir fops =
     abind (op_targets env root write_dir fops) (\<lambda>ts.
       case first_collision [] ts of Some p \<Rightarrow> raise (SameFile p) | None \<Rightarrow> ret ts)"

fun same_targets :: "patch_target list \<Rightarrow> patch_target list \<Rightarrow> file_error + unit" where
  "same_targets (a # as) (c # cs) =
     (if clean (pt_canonical a) \<noteq> clean (pt_canonical c)
      then Inl (CanonicalChanged (clean (pt_canonical a)) (clean (pt_canonical c)))
      else same_targets as cs)"
| "same_targets _ _ = Inr ()"

definition compare_patch_targets :: "patch_target list \<Rightarrow> patch_target list \<Rightarrow> file_error + unit" where
  "compare_patch_targets approved current =
     (if length approved \<noteq> length current then Inl TargetsChanged else same_targets approved current)"

section \<open>Plans\<close>

record apply_plan =
  pl_op :: file_op
  pl_root :: string
  pl_canonical :: string
  pl_display :: string
  pl_new_content :: string
  pl_move_canonical :: string
  pl_move_display :: string
  pl_pre_lines :: "string list"
  pl_pre_content :: string
  pl_hunks :: "applied_hunk list"

definition read_file_bytes :: "env \<Rightarrow> string \<Rightarrow> string act" where
  "read_file_bytes env path = abind (open_existing env path False) (\<lambda>h. read_all env h)"

definition fresh_plan :: "string \<Rightarrow> file_op \<Rightarrow> patch_target \<Rightarrow> apply_plan" where
  "fresh_plan root fop t =
     \<lparr>pl_op = fop, pl_root = root, pl_canonical = pt_canonical t, pl_display = pt_abs t, pl_new_content = [],
      pl_move_canonical = [], pl_move_display = [], pl_pre_lines = [], pl_pre_content = [], pl_hunks = []\<rparr>"

text \<open>The part of \<open>buildApplyPlans\<close> for the path itself.\<close>

definition plan_source :: "env \<Rightarrow> apply_plan \<Rightarrow> apply_plan act" where
  "plan_source env pl =
     abind (ensure_regular_existing env (pl_canonical pl)) (\<lambda>present.
       case op_kind (pl_op pl) of
         OpAdd \<Rightarrow>
           if present then raise (Refused ''already exists'')
           else ret (pl\<lparr>pl_new_content := build_add_content (pl_op pl)\<rparr>)
       | OpUpdate \<Rightarrow>
           if \<not> present then raise (Refused ''does not exist'')
           else abind (read_file_bytes env (pl_canonical pl)) (\<lambda>data.
                  case compute_updated data (pl_op pl) of
                    Inl e \<Rightarrow> raise (Refused ''hunk not located'')
                  | Inr (pre, content, hs) \<Rightarrow>
                      ret (pl\<lparr>pl_pre_content := data, pl_pre_lines := pre, pl_new_content := content, pl_hunks := hs\<rparr>))
       | OpDelete \<Rightarrow>
           if \<not> present then raise (Refused ''does not exist'')
           else abind (read_file_bytes env (pl_canonical pl)) (\<lambda>data.
                  ret (pl\<lparr>pl_pre_content := data, pl_pre_lines := split_lines_raw data\<rparr>)))"

definition plan_move :: "env \<Rightarrow> patch_target \<Rightarrow> apply_plan \<Rightarrow> apply_plan act" where
  "plan_move env t pl =
     abind (ensure_regular_existing env (pt_canonical t)) (\<lambda>present.
       if present then raise (Refused ''move destination already exists'')
       else ret (pl\<lparr>pl_move_canonical := pt_canonical t, pl_move_display := pt_abs t,
                   pl_new_content := (if op_hunks (pl_op pl) = [] then pl_pre_content pl else pl_new_content pl)\<rparr>))"

fun build_plans :: "env \<Rightarrow> string \<Rightarrow> file_op list \<Rightarrow> patch_target list \<Rightarrow> apply_plan list act" where
  "build_plans env root [] ts =
     (if ts \<noteq> [] then raise (Refused ''target plan has extra entries'') else ret [])"
| "build_plans env root (fop # fops) [] = raise (Refused ''target plan missing'')"
| "build_plans env root (fop # fops) (t # ts) =
     (if pt_path t \<noteq> op_path fop \<or> pt_destination t then raise (Refused ''target plan mismatch'')
      else abind (plan_source env (fresh_plan root fop t)) (\<lambda>pl.
             if move_path fop = [] then
               abind (build_plans env root fops ts) (\<lambda>pls. ret (pl # pls))
             else
               (case ts of
                  [] \<Rightarrow> raise (Refused ''target plan missing'')
                | d # ts' \<Rightarrow>
                    if pt_path d \<noteq> move_path fop \<or> \<not> pt_destination d then raise (Refused ''target plan mismatch'')
                    else abind (plan_move env d pl) (\<lambda>pl'.
                         abind (build_plans env root fops ts') (\<lambda>pls. ret (pl' # pls))))))"

section \<open>One mutation under its snapshot\<close>

definition write_with_snapshot ::
  "env \<Rightarrow> string \<Rightarrow> bound_call \<Rightarrow> string \<Rightarrow> string \<Rightarrow> string \<Rightarrow> bool \<Rightarrow> unit act" where
  "write_with_snapshot env dir b display canonical content for_new =
     abind (capture_snapshot env dir display canonical) (\<lambda>s.
     abind (try_act (revalidate env b)) (\<lambda>v.
       case v of
         Inl e \<Rightarrow> abandon_and_raise env dir s e
       | Inr _ \<Rightarrow>
           abind (try_act (open_write_target env canonical)) (\<lambda>r.
             case r of
               Inl e \<Rightarrow> abandon_and_raise env dir s e
             | Inr (h, existing) \<Rightarrow>
                 if for_new \<and> existing then abandon_and_raise env dir s (Appeared canonical)
                 else
                   abind (write_replacement env h content) (\<lambda>(complete, err).
                     case err of
                       Some e \<Rightarrow> finish_mutation_failure env dir s True complete content e
                     | None \<Rightarrow> record_content env dir (cs_id s) content))))"

definition delete_with_snapshot ::
  "env \<Rightarrow> string \<Rightarrow> bound_call \<Rightarrow> string \<Rightarrow> string \<Rightarrow> unit act" where
  "delete_with_snapshot env dir b display canonical =
     abind (capture_snapshot env dir display canonical) (\<lambda>s.
     abind (try_act (revalidate env b)) (\<lambda>v.
       case v of
         Inl e \<Rightarrow> abandon_and_raise env dir s e
       | Inr _ \<Rightarrow>
           abind (try_act (remove_leaf env canonical)) (\<lambda>r.
             case r of
               Inl e \<Rightarrow> abandon_and_raise env dir s e
             | Inr _ \<Rightarrow> record_absence env dir (cs_id s))))"

section \<open>Applying the plans\<close>

type_synonym applied_op = "string \<times> string"

definition success_summary :: "applied_op list \<Rightarrow> string" where
  "success_summary committed =
     join [CHR 0x0A]
       (''Success. Updated the following files:'' # map (\<lambda>(k, p). k @ '' '' @ p) committed)"

definition revalidate_patch_target :: "env \<Rightarrow> string \<Rightarrow> string \<Rightarrow> string \<Rightarrow> unit act" where
  "revalidate_patch_target env root path approved =
     abind (resolve_file_path_from env root path) (\<lambda>r.
       if rp_canonical r \<noteq> approved then raise (CanonicalChanged approved (rp_canonical r)) else ret ())"

definition revalidate_source_content :: "env \<Rightarrow> apply_plan \<Rightarrow> unit act" where
  "revalidate_source_content env pl =
     abind (read_file_bytes env (pl_canonical pl)) (\<lambda>data.
       if data \<noteq> pl_pre_content pl then raise (Refused ''changed after validation'') else ret ())"

definition revalidate_plan :: "env \<Rightarrow> apply_plan \<Rightarrow> unit act" where
  "revalidate_plan env pl =
     abind (revalidate_patch_target env (pl_root pl) (op_path (pl_op pl)) (pl_canonical pl)) (\<lambda>_.
     abind (if pl_move_canonical pl = [] then ret ()
            else revalidate_patch_target env (pl_root pl) (move_path (pl_op pl)) (pl_move_canonical pl)) (\<lambda>_.
       if op_kind (pl_op pl) = OpUpdate \<or> op_kind (pl_op pl) = OpDelete \<or> pl_move_canonical pl \<noteq> []
       then revalidate_source_content env pl else ret ()))"

text \<open>\<open>applyOriginalMutation\<close>: what it commits.\<close>

definition original_mutation :: "env \<Rightarrow> string \<Rightarrow> bound_call \<Rightarrow> apply_plan \<Rightarrow> applied_op act" where
  "original_mutation env dir b pl =
     (let fop = pl_op pl
      in if pl_move_canonical pl \<noteq> [] then
           abind (delete_with_snapshot env dir b (pl_display pl) (pl_canonical pl)) (\<lambda>_. ret (''D'', op_path fop))
         else case op_kind fop of
           OpAdd \<Rightarrow> abind (write_with_snapshot env dir b (pl_display pl) (pl_canonical pl) (pl_new_content pl) True)
                      (\<lambda>_. ret (''A'', op_path fop))
         | OpUpdate \<Rightarrow> abind (write_with_snapshot env dir b (pl_display pl) (pl_canonical pl) (pl_new_content pl) False)
                      (\<lambda>_. ret (''M'', op_path fop))
         | OpDelete \<Rightarrow> abind (delete_with_snapshot env dir b (pl_display pl) (pl_canonical pl))
                      (\<lambda>_. ret (''D'', op_path fop)))"

definition op_previews :: "apply_plan \<Rightarrow> file_preview list" where
  "op_previews pl =
     (let fop = pl_op pl; post = split_lines_raw (pl_new_content pl)
      in if pl_move_canonical pl \<noteq> [] then
           [\<lparr>fp_op = ''M'', fp_path = move_path fop, fp_pre = [], fp_post = post, fp_hunks = pl_hunks pl\<rparr>,
            \<lparr>fp_op = ''D'', fp_path = op_path fop, fp_pre = pl_pre_lines pl, fp_post = [], fp_hunks = []\<rparr>]
         else case op_kind fop of
           OpAdd \<Rightarrow> [\<lparr>fp_op = ''A'', fp_path = op_path fop, fp_pre = [], fp_post = post, fp_hunks = []\<rparr>]
         | OpUpdate \<Rightarrow>
             [\<lparr>fp_op = ''M'', fp_path = op_path fop, fp_pre = pl_pre_lines pl, fp_post = post, fp_hunks = pl_hunks pl\<rparr>]
         | OpDelete \<Rightarrow> [\<lparr>fp_op = ''D'', fp_path = op_path fop, fp_pre = pl_pre_lines pl, fp_post = [], fp_hunks = []\<rparr>])"

text \<open>An error of a step leaves with the summary of what is committed.\<close>

definition with_summary :: "applied_op list \<Rightarrow> 'a act \<Rightarrow> 'a act" where
  "with_summary committed m = or_else m (\<lambda>e. raise (PartialApply (success_summary committed) e))"

text \<open>The part of \<open>applyOne\<close> for a move: the destination lands first.\<close>

definition apply_move_dest ::
  "env \<Rightarrow> string \<Rightarrow> bound_call \<Rightarrow> apply_plan \<Rightarrow> applied_op list \<Rightarrow> applied_op list act" where
  "apply_move_dest env dir dst pl committed =
     (if move_path (pl_op pl) = [] then ret committed
      else
        abind (with_summary committed
           (write_with_snapshot env dir dst (pl_move_display pl) (pl_move_canonical pl) (pl_new_content pl) True)) (\<lambda>_.
        let committed' = committed @ [(''M'', move_path (pl_op pl))]
        in abind (with_summary committed' (revalidate_source_content env pl)) (\<lambda>_. ret committed')))"

definition apply_one ::
  "env \<Rightarrow> string \<Rightarrow> bound_call \<Rightarrow> bound_call \<Rightarrow> apply_plan \<Rightarrow> applied_op list \<Rightarrow> (applied_op list \<times> file_preview list) act" where
  "apply_one env dir src dst pl committed =
     abind (with_summary committed (revalidate_plan env pl)) (\<lambda>_.
     abind (apply_move_dest env dir dst pl committed) (\<lambda>committed'.
     abind (with_summary committed' (original_mutation env dir src pl)) (\<lambda>c.
       ret (committed' @ [c], op_previews pl))))"

definition plan_bound :: "string \<Rightarrow> string \<Rightarrow> string \<Rightarrow> string \<Rightarrow> string \<Rightarrow> string \<Rightarrow> bound_call" where
  "plan_bound root root_canonical write_dir write_dir_canonical path canonical =
     \<lparr>bc_root = root, bc_tool = ''apply_patch'', bc_path = path, bc_root_canonical = root_canonical,
      bc_canonical = canonical, bc_write_dir = write_dir, bc_write_dir_canonical = write_dir_canonical\<rparr>"

fun apply_plans ::
  "env \<Rightarrow> string \<Rightarrow> (string \<Rightarrow> string \<Rightarrow> bound_call) \<Rightarrow> apply_plan list \<Rightarrow> applied_op list \<Rightarrow>
     (applied_op list \<times> file_preview list) act" where
  "apply_plans env dir mk [] committed = ret (committed, [])"
| "apply_plans env dir mk (pl # pls) committed =
     abind (apply_one env dir (mk (op_path (pl_op pl)) (pl_canonical pl))
              (mk (move_path (pl_op pl)) (pl_move_canonical pl)) pl committed) (\<lambda>(done, pv).
     abind (apply_plans env dir mk pls done) (\<lambda>(done', pvs). ret (done', pv @ pvs)))"

definition execute_parsed_patch ::
  "env \<Rightarrow> string \<Rightarrow> string \<Rightarrow> string \<Rightarrow> string \<Rightarrow> string \<Rightarrow> file_op list \<Rightarrow> patch_target list option \<Rightarrow>
     (string \<times> file_preview list) act" where
  "execute_parsed_patch env dir root root_canonical write_dir write_dir_canonical fops approved =
     abind (revalidate_workspace_root env root root_canonical) (\<lambda>_.
     abind (revalidate_write_dir_witness env root write_dir write_dir_canonical) (\<lambda>_.
     abind (resolve_patch_targets env root write_dir fops) (\<lambda>current.
     abind (case approved of None \<Rightarrow> ret () | Some ts \<Rightarrow> lift_sum (compare_patch_targets ts current)) (\<lambda>_.
     abind (build_plans env root fops current) (\<lambda>plans.
     abind (apply_plans env dir (plan_bound root root_canonical write_dir write_dir_canonical) plans []) (\<lambda>(committed, previews).
       ret (success_summary committed, previews)))))))"

text \<open>\<open>PreparePatchCall\<close>: the patch is parsed once, at preparation.\<close>

definition prepare_patch :: "env \<Rightarrow> string \<Rightarrow> string \<Rightarrow> string \<Rightarrow> (file_op list \<times> patch_target list) act" where
  "prepare_patch env root write_dir input =
     (case parse_patch input of
        Inl e \<Rightarrow> raise (Refused ''not a patch'')
      | Inr fops \<Rightarrow> abind (resolve_patch_targets env root write_dir fops) (\<lambda>ts. ret (fops, ts)))"

end
