(* ===== verification/Code_Revert.thy ===== *)
theory Code_Revert
  imports Code_Store
begin

text \<open>
  The restoring half of \<open>src/internal/snapshot/code_store.go\<close>: the proof that a target is still the one that was
  captured and still holds what the group wrote last, the restore of one entry, and the traversal of several groups
  under one ledger of skipped entries.
\<close>

section \<open>The current state of a target\<close>

datatype skip_reason =
  NoIdentity | ExistsButLeftAbsent | MissingButWrote | ContentChanged | NoLongerRegular | CanonicalPathChanged string string

record skipped_revert =
  sk_path :: string
  sk_reason :: skip_reason

record revert_result =
  rr_restored :: "string list"
  rr_skipped :: "skipped_revert list"

definition hardlinked_leaf :: "env \<Rightarrow> string \<Rightarrow> bool act" where
  "hardlinked_leaf env path =
     abind (os_lstat env (elems path)) (\<lambda>n. ret (case n of Linked s \<Rightarrow> True | _ \<Rightarrow> False))"

datatype current_file = Missing | Unreadable skip_reason | HashedTo string

definition not_regular_error :: "file_error \<Rightarrow> bool" where
  "not_regular_error e =
     (case e of NonRegular p \<Rightarrow> True | TooManyLinks \<Rightarrow> True | IsADirectory \<Rightarrow> True | NotADirectory \<Rightarrow> True | _ \<Rightarrow> False)"

definition hash_current_file :: "env \<Rightarrow> string \<Rightarrow> current_file act" where
  "hash_current_file env path =
     abind (try_act (open_existing env path False)) (\<lambda>r.
       case r of
         Inl e \<Rightarrow>
           (if e = NotExist then ret Missing
            else if not_regular_error e then
              abind (try_act (hardlinked_leaf env path)) (\<lambda>q.
                case q of
                  Inl e' \<Rightarrow> if e' \<noteq> NotExist then raise e' else ret (Unreadable NoLongerRegular)
                | Inr linked \<Rightarrow> if linked then raise (Hardlink path) else ret (Unreadable NoLongerRegular))
            else raise e)
       | Inr h \<Rightarrow> abind (read_all env h) (\<lambda>s. ret (HashedTo (en_content_hash env s))))"

definition current_matches_last_write :: "env \<Rightarrow> string \<Rightarrow> snapshot_identity option \<Rightarrow> skip_reason option act" where
  "current_matches_last_write env path ident =
     (case ident of
        None \<Rightarrow> ret (Some NoIdentity)
      | Some l \<Rightarrow>
          if si_absent l then
            abind (try_act (os_lstat env (elems path))) (\<lambda>r.
              case r of
                Inr _ \<Rightarrow> ret (Some ExistsButLeftAbsent)
              | Inl e \<Rightarrow> if e = NotExist then ret None else raise e)
          else
            abind (hash_current_file env path) (\<lambda>c.
              case c of
                Unreadable reason \<Rightarrow> ret (Some reason)
              | Missing \<Rightarrow> ret (Some MissingButWrote)
              | HashedTo got \<Rightarrow> ret (if got = si_hash l then None else Some ContentChanged)))"

section \<open>The path that may be restored\<close>

definition validate_canonical_restore_path :: "env \<Rightarrow> snapshot_meta \<Rightarrow> (string + skipped_revert) act" where
  "validate_canonical_restore_path env m =
     abind (resolve_file_path env (original_path m)) (\<lambda>r.
       ret (if rp_canonical r \<noteq> canonical_path m
            then Inr \<lparr>sk_path = original_path m, sk_reason = CanonicalPathChanged (canonical_path m) (rp_canonical r)\<rparr>
            else Inl (canonical_path m)))"

definition validate_canonical_delete_path :: "env \<Rightarrow> snapshot_meta \<Rightarrow> string act" where
  "validate_canonical_delete_path env m =
     abind (go_abs env (original_path m)) (\<lambda>a.
     abind (resolve_abs_path env (show_path (butlast (elems a)))) (\<lambda>(parent, _).
       let resolved = path_join [parent, base_name a]
       in if resolved \<noteq> canonical_path m then raise (CanonicalChanged (canonical_path m) resolved)
          else ret (canonical_path m)))"

definition validate_restore_path :: "env \<Rightarrow> string \<Rightarrow> snapshot_meta \<Rightarrow> (string + skipped_revert) act" where
  "validate_restore_path env i m =
     (if canonical_path m = [] then raise (NoCanonicalPath (original_path m))
      else if en_path_hash env (canonical_path m) \<noteq> i then raise (EntryIdMismatch (canonical_path m) i)
      else if \<not> existed m then abind (validate_canonical_delete_path env m) (\<lambda>p. ret (Inl p))
      else validate_canonical_restore_path env m)"

section \<open>Restoring one entry\<close>

text \<open>\<open>restoreFile\<close>: opening the preimage, the check of the target, and the copy over the truncated target.\<close>

definition open_original :: "env \<Rightarrow> string \<Rightarrow> string \<Rightarrow> string act" where
  "open_original env dir i = checked env OpenOriginal (asks (\<lambda>w.
     case Option.bind (entry_of w dir i) en_original of None \<Rightarrow> Inl NotExist | Some s \<Rightarrow> Inr s))"

definition restore_file :: "env \<Rightarrow> string \<Rightarrow> string \<Rightarrow> string \<Rightarrow> unit act" where
  "restore_file env dir i dst =
     abind (open_original env dir i) (\<lambda>s.
     abind (try_act (os_lstat env (elems dst))) (\<lambda>l.
       if (case l of Inr n \<Rightarrow> \<not> is_regular n | Inl e \<Rightarrow> e \<noteq> NotExist)
       then raise (case l of Inr n \<Rightarrow> NonRegular dst | Inl e \<Rightarrow> e)
       else
         abind (open_for_write env dst) (\<lambda>(h, _).
         abind (write_replacement env h s) (\<lambda>(_, err).
           case err of Some e \<Rightarrow> raise e | None \<Rightarrow> ret ()))))"

definition restore_one :: "env \<Rightarrow> string \<Rightarrow> string \<Rightarrow> snapshot_meta \<Rightarrow> skipped_revert option act" where
  "restore_one env dir i m =
     abind (validate_restore_path env i m) (\<lambda>v.
       case v of
         Inr sk \<Rightarrow> ret (Some sk)
       | Inl path \<Rightarrow>
           abind (current_matches_last_write env path (last_write m)) (\<lambda>reason.
             case reason of
               Some why \<Rightarrow> ret (Some \<lparr>sk_path = original_path m, sk_reason = why\<rparr>)
             | None \<Rightarrow>
                 if \<not> existed m then
                   abind (or_else (remove_leaf env path) (\<lambda>e. if e = NotExist then ret () else raise e))
                     (\<lambda>_. ret None)
                 else abind (restore_file env dir i path) (\<lambda>_. ret None)))"

section \<open>The traversal\<close>

text \<open>The ledger of skipped entries and the result are threaded through the loops; an error comes with the result
  accumulated so far.\<close>

record revert_state =
  rs_skipped_ids :: "string list"
  rs_result :: revert_result

definition note_restored :: "snapshot_meta \<Rightarrow> revert_state \<Rightarrow> revert_state" where
  "note_restored m s = s\<lparr>rs_result := (rs_result s)\<lparr>rr_restored := rr_restored (rs_result s) @ [original_path m]\<rparr>\<rparr>"

definition note_skipped :: "string \<Rightarrow> skipped_revert \<Rightarrow> revert_state \<Rightarrow> revert_state" where
  "note_skipped i sk s =
     s\<lparr>rs_skipped_ids := i # rs_skipped_ids s,
       rs_result := (rs_result s)\<lparr>rr_skipped := rr_skipped (rs_result s) @ [sk]\<rparr>\<rparr>"

definition revert_entry :: "env \<Rightarrow> string \<Rightarrow> string \<Rightarrow> revert_state \<Rightarrow> (revert_state \<times> file_error option) act" where
  "revert_entry env dir i s =
     abind (try_act (read_meta env dir i)) (\<lambda>r.
       case r of
         Inl e \<Rightarrow> ret (s, Some e)
       | Inr m \<Rightarrow>
           if i \<in> set (rs_skipped_ids s) then ret (s, None)
           else abind (try_act (restore_one env dir i m)) (\<lambda>q.
                  case q of
                    Inl e \<Rightarrow> ret (s, Some e)
                  | Inr (Some sk) \<Rightarrow> ret (note_skipped i sk s, None)
                  | Inr None \<Rightarrow>
                      abind (try_act (remove_entry_dir env dir i)) (\<lambda>d.
                        ret (note_restored m s, case d of Inl e \<Rightarrow> Some e | Inr _ \<Rightarrow> None))))"

fun revert_names :: "env \<Rightarrow> string \<Rightarrow> string list \<Rightarrow> revert_state \<Rightarrow> (revert_state \<times> file_error option) act" where
  "revert_names env dir [] s = ret (s, None)"
| "revert_names env dir (i # is) s =
     abind (revert_entry env dir i s) (\<lambda>(s', e).
       case e of Some _ \<Rightarrow> ret (s', e) | None \<Rightarrow> revert_names env dir is s')"

definition revert_entries_dir :: "env \<Rightarrow> string \<Rightarrow> revert_state \<Rightarrow> (revert_state \<times> file_error option) act" where
  "revert_entries_dir env dir s =
     abind (try_act (checked env ReadEntries (asks (\<lambda>w. entry_names w dir)))) (\<lambda>r.
       case r of
         Inl e \<Rightarrow> ret (s, if e = NotExist then None else Some e)
       | Inr names \<Rightarrow> revert_names env dir names s)"

text \<open>\<open>os.Remove\<close> of the entries directory: only an empty one goes.\<close>

definition remove_entries_dir :: "env \<Rightarrow> string \<Rightarrow> unit act" where
  "remove_entries_dir env dir = checked env RemoveEntries (\<lambda>w.
     case w_groups w dir of
       None \<Rightarrow> raise NotExist w
     | Some es \<Rightarrow> if es = [] then updates (\<lambda>w. w\<lparr>w_groups := (w_groups w)(dir := None)\<rparr>) w else raise NotEmpty w)"

fun revert_groups :: "env \<Rightarrow> string list \<Rightarrow> revert_state \<Rightarrow> (revert_state \<times> file_error option) act" where
  "revert_groups env [] s = ret (s, None)"
| "revert_groups env (dir # dirs) s =
     abind (revert_entries_dir env dir s) (\<lambda>(s', e).
       case e of
         Some _ \<Rightarrow> ret (s', e)
       | None \<Rightarrow>
           abind (try_act (remove_entries_dir env dir)) (\<lambda>r.
             case r of
               Inl e' \<Rightarrow> if e' \<noteq> NotExist \<and> e' \<noteq> NotEmpty then ret (s', Some e') else revert_groups env dirs s'
             | Inr _ \<Rightarrow> revert_groups env dirs s'))"

definition empty_revert :: revert_state where
  "empty_revert = \<lparr>rs_skipped_ids = [], rs_result = \<lparr>rr_restored = [], rr_skipped = []\<rparr>\<rparr>"

definition revert_code_groups :: "env \<Rightarrow> string list \<Rightarrow> (revert_result \<times> file_error option) act" where
  "revert_code_groups env dirs =
     abind (revert_groups env dirs empty_revert) (\<lambda>(s, e). ret (rs_result s, e))"

end
