(* ===== verification/File_Laws.thy ===== *)
theory File_Laws
  imports Patch_Apply Code_Revert
begin

text \<open>
  Laws of actions, of the tree and of the operations of \<open>safefs\<close>, under any faults: what an operation leaves
  unchanged, whatever its result, and what its results say of the tree.
\<close>

named_theorems act_simps \<open>the result of a composed action\<close>

section \<open>Running actions\<close>

lemma abind_Inr [act_simps]:
  "abind m f w = (Inr b, v) \<longleftrightarrow> (\<exists>a u. m w = (Inr a, u) \<and> f a u = (Inr b, v))"
  by (auto simp: abind_def split: prod.splits sum.splits)

lemma abind_Inl [act_simps]:
  "abind m f w = (Inl e, v) \<longleftrightarrow> m w = (Inl e, v) \<or> (\<exists>a u. m w = (Inr a, u) \<and> f a u = (Inl e, v))"
  by (auto simp: abind_def split: prod.splits sum.splits)

lemma ret_eq [act_simps]: "ret a w = (r, v) \<longleftrightarrow> r = Inr a \<and> v = w"
  by (auto simp: ret_def)

lemma raise_eq [act_simps]: "raise e w = (r, v) \<longleftrightarrow> r = Inl e \<and> v = w"
  by (auto simp: raise_def)

lemma asks_eq [act_simps]: "asks f w = (r, v) \<longleftrightarrow> r = f w \<and> v = w"
  by (auto simp: asks_def)

lemma lift_sum_eq [act_simps]: "lift_sum s w = (r, v) \<longleftrightarrow> r = s \<and> v = w"
  by (auto simp: lift_sum_def)

lemma updates_eq [act_simps]: "updates f w = (r, v) \<longleftrightarrow> r = Inr () \<and> v = f w"
  by (auto simp: updates_def)

lemma sys_eq [act_simps]:
  "sys env k w = (r, v) \<longleftrightarrow> r = Inr (en_fault env k (w_now w)) \<and> v = w\<lparr>w_now := Suc (w_now w)\<rparr>"
  by (auto simp: sys_def)

lemma try_act_Inr [act_simps]: "try_act m w = (Inr r, v) \<longleftrightarrow> m w = (r, v)"
  by (auto simp: try_act_def split: prod.splits)

lemma try_act_Inl [act_simps]: "try_act m w \<noteq> (Inl e, v)"
  by (auto simp: try_act_def split: prod.splits)

lemma or_else_Inr [act_simps]:
  "or_else m h w = (Inr a, v) \<longleftrightarrow> m w = (Inr a, v) \<or> (\<exists>e u. m w = (Inl e, u) \<and> h e u = (Inr a, v))"
  by (auto simp: or_else_def split: prod.splits sum.splits)

lemma or_else_Inl [act_simps]:
  "or_else m h w = (Inl e, v) \<longleftrightarrow> (\<exists>e' u. m w = (Inl e', u) \<and> h e' u = (Inl e, v))"
  by (auto simp: or_else_def split: prod.splits sum.splits)

lemma checked_Inr [act_simps]:
  "checked env k m w = (Inr a, v) \<longleftrightarrow>
     en_fault env k (w_now w) = None \<and> m (w\<lparr>w_now := Suc (w_now w)\<rparr>) = (Inr a, v)"
  by (auto simp: checked_def act_simps split: option.splits)

lemma checked_Inl [act_simps]:
  "checked env k m w = (Inl e, v) \<longleftrightarrow>
     (case en_fault env k (w_now w) of
        Some _ \<Rightarrow> e = IoFailure k \<and> v = w\<lparr>w_now := Suc (w_now w)\<rparr>
      | None \<Rightarrow> m (w\<lparr>w_now := Suc (w_now w)\<rparr>) = (Inl e, v))"
  by (auto simp: checked_def act_simps split: option.splits)

section \<open>What holds after an action\<close>

text \<open>Sequencing as in a Hoare logic: the condition on the result and the state is carried through the steps.\<close>

definition post :: "'a act \<Rightarrow> world \<Rightarrow> (file_error + 'a \<Rightarrow> world \<Rightarrow> bool) \<Rightarrow> bool" where
  "post m w Q \<longleftrightarrow> Q (fst (m w)) (snd (m w))"

lemma postI: "(\<And>r v. m w = (r, v) \<Longrightarrow> Q r v) \<Longrightarrow> post m w Q"
  by (simp add: post_def)

lemma postD: "post m w Q \<Longrightarrow> m w = (r, v) \<Longrightarrow> Q r v"
  by (simp add: post_def)

lemma post_mono: "post m w P \<Longrightarrow> (\<And>r v. P r v \<Longrightarrow> Q r v) \<Longrightarrow> post m w Q"
  by (simp add: post_def)

lemma post_abind:
  assumes "post m w P" "\<And>e u. P (Inl e) u \<Longrightarrow> Q (Inl e) u" "\<And>a u. P (Inr a) u \<Longrightarrow> post (f a) u Q"
  shows "post (abind m f) w Q"
  using assms by (auto simp: post_def abind_def split: prod.splits sum.splits)

lemma post_try_bind:
  assumes "post m w P" "\<And>r u. P r u \<Longrightarrow> post (f r) u Q"
  shows "post (abind (try_act m) f) w Q"
  using assms by (auto simp: post_def abind_def try_act_def split: prod.splits sum.splits)

lemma post_or_else:
  assumes "post m w P" "\<And>a u. P (Inr a) u \<Longrightarrow> Q (Inr a) u" "\<And>e u. P (Inl e) u \<Longrightarrow> post (h e) u Q"
  shows "post (or_else m h) w Q"
  using assms by (auto simp: post_def or_else_def split: prod.splits sum.splits)

lemma post_try: "post m w (\<lambda>r. Q (Inr r)) \<Longrightarrow> post (try_act m) w Q"
  by (simp add: post_def try_act_def split_beta)

lemma post_ret [simp]: "post (ret a) w Q \<longleftrightarrow> Q (Inr a) w"
  by (simp add: post_def ret_def)

lemma post_raise [simp]: "post (raise e) w Q \<longleftrightarrow> Q (Inl e) w"
  by (simp add: post_def raise_def)

section \<open>What an action leaves\<close>

definition leaves :: "(world \<Rightarrow> world \<Rightarrow> bool) \<Rightarrow> 'a act \<Rightarrow> bool" where
  "leaves R m \<longleftrightarrow> (\<forall>w. R w (snd (m w)))"

lemma leavesD: "leaves R m \<Longrightarrow> m w = (r, v) \<Longrightarrow> R w v"
  by (metis leaves_def snd_conv)

lemma leavesI: "(\<And>w r v. m w = (r, v) \<Longrightarrow> R w v) \<Longrightarrow> leaves R m"
  by (simp add: leaves_def) (metis prod.collapse)

text \<open>Only the clock moves.\<close>

definition same :: "world \<Rightarrow> world \<Rightarrow> bool" where
  "same w v \<longleftrightarrow> w_tree v = w_tree w \<and> w_groups v = w_groups w"

abbreviation reads :: "'a act \<Rightarrow> bool" where
  "reads m \<equiv> leaves same m"

lemma same_refl [simp]: "same w w"
  by (simp add: same_def)

lemma same_trans: "same w u \<Longrightarrow> same u v \<Longrightarrow> same w v"
  by (simp add: same_def)

lemma same_clock [simp]: "same w (w\<lparr>w_now := n\<rparr>)"
  by (simp add: same_def)

lemma leaves_abind:
  assumes "\<And>w u v. R w u \<Longrightarrow> R u v \<Longrightarrow> R w v" "leaves R m" "\<And>a. leaves R (f a)"
  shows "leaves R (abind m f)"
  using assms unfolding leaves_def abind_def
  by (auto split: prod.splits sum.splits) (metis snd_conv)+

lemma leaves_or_else:
  assumes "\<And>w u v. R w u \<Longrightarrow> R u v \<Longrightarrow> R w v" "leaves R m" "\<And>e. leaves R (h e)"
  shows "leaves R (or_else m h)"
  using assms unfolding leaves_def or_else_def
  by (auto split: prod.splits sum.splits) (metis snd_conv)+

lemma leaves_try: "leaves R m \<Longrightarrow> leaves R (try_act m)"
  unfolding leaves_def try_act_def by (auto split: prod.splits) (metis snd_conv)

lemma reads_abind [intro]: "reads m \<Longrightarrow> (\<And>a. reads (f a)) \<Longrightarrow> reads (abind m f)"
  by (rule leaves_abind [OF same_trans])

lemma reads_or_else [intro]: "reads m \<Longrightarrow> (\<And>e. reads (h e)) \<Longrightarrow> reads (or_else m h)"
  by (rule leaves_or_else [OF same_trans])

lemma reads_try [intro]: "reads m \<Longrightarrow> reads (try_act m)"
  by (rule leaves_try)

lemma reads_base [intro, simp]:
  "reads (ret a)" "reads (raise e)" "reads (asks f)" "reads (lift_sum s)" "reads (sys env k)"
  by (simp_all add: leaves_def ret_def raise_def asks_def lift_sum_def sys_def)

lemma reads_checked [intro]: "reads m \<Longrightarrow> reads (checked env k m)"
  unfolding checked_def by (intro reads_abind) (auto split: option.splits)

lemma reads_if [intro]: "(c \<Longrightarrow> reads a) \<Longrightarrow> (\<not> c \<Longrightarrow> reads b) \<Longrightarrow> reads (if c then a else b)"
  by simp

lemma reads_sum [intro]: "(\<And>e. reads (f e)) \<Longrightarrow> (\<And>a. reads (g a)) \<Longrightarrow> reads (case s of Inl e \<Rightarrow> f e | Inr a \<Rightarrow> g a)"
  by (cases s) auto

lemma reads_option [intro]: "reads a \<Longrightarrow> (\<And>x. reads (g x)) \<Longrightarrow> reads (case s of None \<Rightarrow> a | Some x \<Rightarrow> g x)"
  by (cases s) auto

lemma reads_prod [intro]: "(\<And>x y. reads (g x y)) \<Longrightarrow> reads (case p of (x, y) \<Rightarrow> g x y)"
  by (cases p) auto

lemma reads_lstat [intro, simp]: "reads (os_lstat env es)"
  unfolding os_lstat_def by blast

lemma reads_eval_symlinks [intro, simp]: "reads (eval_symlinks env es)"
  unfolding eval_symlinks_def by blast

lemma reads_go_abs [intro, simp]: "reads (go_abs env p)"
  unfolding go_abs_def by auto

lemma reads_climb [intro, simp]: "reads (climb env a rs tail)"
  by (induction env a rs tail rule: climb.induct) (auto intro!: reads_abind reads_try reads_sum)

lemma reads_resolve_abs [intro, simp]: "reads (resolve_abs_path env p)"
  unfolding resolve_abs_path_def Let_def by (auto intro!: reads_abind reads_try reads_sum)

lemma reads_resolve [intro, simp]: "reads (resolve_file_path_from env root p)"
  unfolding resolve_file_path_from_def Let_def by (auto intro!: reads_abind)

lemma reads_ensure_regular [intro, simp]: "reads (ensure_regular_existing env p)"
  unfolding ensure_regular_existing_def by (auto intro!: reads_abind reads_try reads_sum)

lemma reads_check_write_dir [intro, simp]: "reads (check_write_dir_target env root tool c wd)"
  unfolding check_write_dir_target_def by (auto intro!: reads_abind)

lemma reads_revalidate_root [intro, simp]: "reads (revalidate_workspace_root env root b)"
  unfolding revalidate_workspace_root_def by (auto intro!: reads_abind)

lemma reads_revalidate_witness [intro, simp]: "reads (revalidate_write_dir_witness env root wd b)"
  unfolding revalidate_write_dir_witness_def by (auto intro!: reads_abind)

lemma reads_revalidate [intro, simp]: "reads (revalidate env b)"
  unfolding revalidate_def revalidate_write_dir_def by (auto intro!: reads_abind)

section \<open>The tree\<close>

definition file_at :: "world \<Rightarrow> string list \<Rightarrow> string option" where
  "file_at w es = Option.bind (node_at (w_tree w) es) bytes_of"

definition wf_tree :: "tree \<Rightarrow> bool" where
  "wf_tree t \<longleftrightarrow> (\<forall>es c. node_at t (es @ [c]) \<noteq> None \<longrightarrow> node_at t es = Some Directory)"

lemma wf_treeD: "wf_tree t \<Longrightarrow> node_at t (es @ [c]) \<noteq> None \<Longrightarrow> node_at t es = Some Directory"
  by (auto simp: wf_tree_def)

lemma node_at_Nil [simp]: "node_at t [] = Some Directory"
  by (simp add: node_at_def)

lemma node_at_update [simp]:
  "q \<noteq> [] \<Longrightarrow> node_at (AList.update q n t) es = (if es = q then Some n else node_at t es)"
  by (simp add: node_at_def update_conv')

lemma node_at_delete [simp]:
  "q \<noteq> [] \<Longrightarrow> node_at (AList.delete q t) es = (if es = q then None else node_at t es)"
  by (simp add: node_at_def delete_conv')

lemma wf_tree_prefix:
  assumes "wf_tree t" "node_at t (q @ r) \<noteq> None" "r \<noteq> []"
  shows "node_at t q = Some Directory"
  using assms
proof (induction r rule: rev_induct)
  case (snoc c r)
  from snoc.prems have "node_at t (q @ r) = Some Directory"
    by (metis append_assoc wf_treeD)
  with snoc show ?case by (cases "r = []") auto
qed simp

lemma wf_tree_missing: "wf_tree t \<Longrightarrow> node_at t q = None \<Longrightarrow> node_at t (q @ r) = None"
  by (cases "r = []") (auto dest: wf_tree_prefix)

lemma wf_tree_list:
  assumes "list_all (\<lambda>(q, n). q \<noteq> [] \<and> node_at t (butlast q) = Some Directory) t"
  shows "wf_tree t"
  unfolding wf_tree_def
proof (intro allI impI)
  fix es c
  assume "node_at t (es @ [c]) \<noteq> None"
  then obtain n where "(es @ [c], n) \<in> set t"
    by (auto simp: node_at_def dest: map_of_SomeD)
  with assms show "node_at t es = Some Directory"
    by (fastforce simp: list_all_iff)
qed

lemma wf_tree_put:
  assumes "wf_tree t" "node_at t es = Some Directory" "node_at t (es @ [c]) \<noteq> Some Directory"
  shows "wf_tree (AList.update (es @ [c]) n t)"
  unfolding wf_tree_def
proof (intro allI impI)
  fix q d
  assume q: "node_at (AList.update (es @ [c]) n t) (q @ [d]) \<noteq> None"
  show "node_at (AList.update (es @ [c]) n t) q = Some Directory"
  proof (cases "q @ [d] = es @ [c]")
    case True
    then show ?thesis using assms(2) by simp
  next
    case False
    then have "node_at t (q @ [d]) \<noteq> None" using q by (auto split: if_splits)
    then have "node_at t q = Some Directory" by (rule wf_treeD [OF assms(1)])
    moreover from this have "q \<noteq> es @ [c]" using assms(3) by metis
    ultimately show ?thesis by simp
  qed
qed

lemma wf_tree_drop:
  assumes "wf_tree t" "h \<noteq> []" "\<not> has_children t h"
  shows "wf_tree (AList.delete h t)"
  unfolding wf_tree_def
proof (intro allI impI)
  fix q d
  assume q: "node_at (AList.delete h t) (q @ [d]) \<noteq> None"
  then have there: "node_at t (q @ [d]) \<noteq> None" using assms(2) by (auto split: if_splits)
  then obtain n where "(q @ [d], n) \<in> set t"
    by (auto simp: node_at_def dest: map_of_SomeD)
  then have "q \<noteq> h" using assms(3) by (auto simp: has_children_def list_ex_iff)
  with there assms(1) show "node_at (AList.delete h t) q = Some Directory"
    using assms(2) by (simp add: wf_treeD)
qed

text \<open>Only directories appear, where nothing was.\<close>

definition grows :: "world \<Rightarrow> world \<Rightarrow> bool" where
  "grows w v \<longleftrightarrow>
     w_groups v = w_groups w \<and>
     (\<forall>es. node_at (w_tree v) es = node_at (w_tree w) es \<or>
           node_at (w_tree w) es = None \<and> node_at (w_tree v) es = Some Directory) \<and>
     (wf_tree (w_tree w) \<longrightarrow> wf_tree (w_tree v))"

lemma same_grows: "same w v \<Longrightarrow> grows w v"
  by (simp add: same_def grows_def)

lemma grows_refl [simp]: "grows w w"
  by (simp add: grows_def)

lemma grows_trans: "grows w u \<Longrightarrow> grows u v \<Longrightarrow> grows w v"
  unfolding grows_def by (metis option.distinct(1))

lemma grows_node: "grows w v \<Longrightarrow> node_at (w_tree w) es = Some n \<Longrightarrow> node_at (w_tree v) es = Some n"
  unfolding grows_def by (metis option.distinct(1))

lemma grows_missing: "grows w v \<Longrightarrow> node_at (w_tree v) es = None \<Longrightarrow> node_at (w_tree w) es = None"
  unfolding grows_def by metis

lemma grows_content: "grows w v \<Longrightarrow> file_at v es = file_at w es"
  unfolding grows_def file_at_def by (metis bind.bind_lunit bind.bind_lzero bytes_of.simps(3))

lemma same_content: "same w v \<Longrightarrow> file_at v es = file_at w es"
  by (simp add: same_def file_at_def)

text \<open>Files other than the one at \<open>p\<close> stay as they are.\<close>

definition only_at :: "string list \<Rightarrow> world \<Rightarrow> world \<Rightarrow> bool" where
  "only_at p w v \<longleftrightarrow>
     w_groups v = w_groups w \<and>
     (\<forall>es. es \<noteq> p \<longrightarrow>
        node_at (w_tree v) es = node_at (w_tree w) es \<or>
        node_at (w_tree w) es = None \<and> node_at (w_tree v) es = Some Directory) \<and>
     (wf_tree (w_tree w) \<longrightarrow> wf_tree (w_tree v))"

lemma grows_only: "grows w v \<Longrightarrow> only_at p w v"
  by (simp add: grows_def only_at_def)

lemma only_at_trans: "only_at p w u \<Longrightarrow> only_at p u v \<Longrightarrow> only_at p w v"
  unfolding only_at_def by (metis option.distinct(1))

lemma only_at_content: "only_at p w v \<Longrightarrow> es \<noteq> p \<Longrightarrow> file_at v es = file_at w es"
  unfolding only_at_def file_at_def by (metis bind.bind_lunit bind.bind_lzero bytes_of.simps(3))

lemma only_at_groups: "only_at p w v \<Longrightarrow> w_groups v = w_groups w"
  by (simp add: only_at_def)

section \<open>Walking to the parent\<close>

lemma openat_dir_law:
  assumes "openat_dir env p w = (r, v)"
  shows "same w v" and "r = Inr () \<Longrightarrow> node_at (w_tree w) p = Some Directory"
    and "r = Inl NotExist \<Longrightarrow> node_at (w_tree w) p = None"
  using assms
  by (cases r; auto simp: openat_dir_def act_simps split: option.splits node.splits; fail)+

lemma mkdirat_law:
  assumes "mkdirat env (d @ [c]) w = (r, v)" "node_at (w_tree w) d = Some Directory"
  shows "grows w v"
proof (cases "same w v")
  case True
  then show ?thesis by (rule same_grows)
next
  case False
  with assms(1) have "v = w\<lparr>w_tree := AList.update (d @ [c]) Directory (w_tree w), w_now := Suc (w_now w)\<rparr>"
    "node_at (w_tree w) (d @ [c]) = None"
    by (cases r; auto simp: mkdirat_def put_node_def act_simps split: option.splits)+
  with assms(2) show ?thesis by (simp add: grows_def wf_tree_put)
qed

lemma enter_dir_law:
  assumes run: "enter_dir env mk (d @ [c]) w = (r, v)" and d: "node_at (w_tree w) d = Some Directory"
  shows "grows w v" and "\<not> mk \<Longrightarrow> same w v" and "r = Inr () \<Longrightarrow> node_at (w_tree v) (d @ [c]) = Some Directory"
    and "r = Inl NotExist \<Longrightarrow> \<not> mk \<Longrightarrow> node_at (w_tree w) (d @ [c]) = None"
proof -
  obtain s u where first: "openat_dir env (d @ [c]) w = (s, u)" by fastforce
  note at = openat_dir_law [OF first]
  show "\<not> mk \<Longrightarrow> same w v"
    using run first at(1) by (cases s; cases r) (auto simp: enter_dir_def act_simps)
  show "r = Inl NotExist \<Longrightarrow> \<not> mk \<Longrightarrow> node_at (w_tree w) (d @ [c]) = None"
    using run first at(3) by (auto simp: enter_dir_def act_simps)
  have du: "node_at (w_tree u) d = Some Directory" using at(1) d by (simp add: same_def)
  have "grows w v \<and> (r = Inr () \<longrightarrow> node_at (w_tree v) (d @ [c]) = Some Directory)"
  proof (cases "s = Inl NotExist \<and> mk")
    case False
    then have "v = u \<and> (r = Inr () \<longrightarrow> s = Inr ())"
      using run first by (cases s; cases r) (auto simp: enter_dir_def act_simps)
    with at(1,2) show ?thesis by (auto simp: same_def grows_def)
  next
    case True
    obtain t x where made: "mkdirat env (d @ [c]) u = (t, x)" by fastforce
    have ux: "grows u x" by (rule mkdirat_law [OF made du])
    have "v = x \<and> (\<exists>e. r = Inl e) \<or> openat_dir env (d @ [c]) x = (r, v)"
      using run first made True by (cases r; cases t) (auto simp: enter_dir_def act_simps split: if_splits)
    then show ?thesis
    proof
      assume "v = x \<and> (\<exists>e. r = Inl e)"
      with grows_trans [OF same_grows [OF at(1)] ux] show ?thesis by auto
    next
      assume again: "openat_dir env (d @ [c]) x = (r, v)"
      note law = openat_dir_law [OF again]
      have "node_at (w_tree v) (d @ [c]) = Some Directory" if "r = Inr ()"
        using law(1) law(2) [OF that] by (simp add: same_def)
      moreover have "grows w v"
        by (rule grows_trans [OF same_grows [OF at(1)] grows_trans [OF ux same_grows [OF law(1)]]])
      ultimately show ?thesis by blast
    qed
  qed
  then show "grows w v" and "r = Inr () \<Longrightarrow> node_at (w_tree v) (d @ [c]) = Some Directory" by auto
qed

lemma enter_dirs_law:
  assumes "enter_dirs env mk d cs w = (r, v)" "node_at (w_tree w) d = Some Directory"
  shows "grows w v \<and> (\<not> mk \<longrightarrow> same w v) \<and> (r = Inr () \<longrightarrow> node_at (w_tree v) (d @ cs) = Some Directory) \<and>
         (r = Inl NotExist \<longrightarrow> \<not> mk \<longrightarrow> (\<exists>q x. cs = q @ x \<and> node_at (w_tree w) (d @ q) = None))"
  using assms
proof (induction cs arbitrary: d w)
  case Nil
  then show ?case by (auto simp: act_simps)
next
  case (Cons c cs)
  obtain s u where first: "enter_dir env mk (d @ [c]) w = (s, u)" by fastforce
  note law = enter_dir_law [OF first Cons.prems(2)]
  show ?case
  proof (cases s)
    case (Inl e)
    then have "r = Inl e \<and> v = u" using first Cons.prems(1) by (cases r) (auto simp: act_simps)
    moreover have "\<exists>q x. c # cs = q @ x \<and> node_at (w_tree w) (d @ q) = None" if "r = Inl NotExist" "\<not> mk"
      using law(4) that calculation Inl by (intro exI [of _ "[c]"] exI [of _ cs]) simp
    ultimately show ?thesis using law Inl by auto
  next
    case (Inr x)
    then have rest: "enter_dirs env mk (d @ [c]) cs u = (r, v)"
      using first Cons.prems(1) by (cases r) (auto simp: act_simps)
    have du: "node_at (w_tree u) (d @ [c]) = Some Directory" using law(3) Inr by simp
    note ih = Cons.IH [OF rest du]
    have "\<exists>q x. c # cs = q @ x \<and> node_at (w_tree w) (d @ q) = None" if hyp: "r = Inl NotExist" "\<not> mk"
    proof -
      obtain q x where "cs = q @ x" "node_at (w_tree u) (d @ c # q) = None" using ih hyp by auto
      moreover have "same w u" using law(2) hyp(2) by simp
      ultimately show ?thesis by (intro exI [of _ "c # q"] exI [of _ x]) (simp add: same_def)
    qed
    moreover have "grows w v" using law(1) ih grows_trans by blast
    moreover have "same w v" if "\<not> mk" using law(2) ih that same_trans by blast
    moreover have "node_at (w_tree v) (d @ c # cs) = Some Directory" if "r = Inr ()" using ih that by simp
    ultimately show ?thesis by blast
  qed
qed

lemma open_parent_law:
  assumes "open_parent env path mk w = (r, v)"
  shows "grows w v" and "\<not> mk \<Longrightarrow> same w v"
    and "r = Inr h \<Longrightarrow> h = elems path \<and> h \<noteq> [] \<and> is_abs path \<and> node_at (w_tree v) (butlast h) = Some Directory"
    and "r = Inl NotExist \<Longrightarrow> \<not> mk \<Longrightarrow> wf_tree (w_tree w) \<Longrightarrow> node_at (w_tree w) (elems path) = None"
proof -
  obtain s u where root: "openat_dir env [] w = (s, u)" by fastforce
  obtain t x where walk: "enter_dirs env mk [] (butlast (elems path)) u = (t, x)" by fastforce
  note at = openat_dir_law [OF root] and law = enter_dirs_law [OF walk node_at_Nil]
  consider (Early) "v = w" "\<exists>e. r = Inl e \<and> e \<noteq> NotExist" | (Root) e where "v = u" "s = Inl e" "r = Inl e"
    | (Walk) "v = x" "is_abs path" "elems path \<noteq> []" "r = (case t of Inl e \<Rightarrow> Inl e | Inr _ \<Rightarrow> Inr (elems path))"
  proof (cases "is_abs path \<and> elems path \<noteq> []")
    case False
    then show ?thesis using assms Early by (cases r) (auto simp: open_parent_def act_simps split: if_splits)
  next
    case True
    have run: "abind (openat_dir env []) (\<lambda>_. abind (enter_dirs env mk [] (butlast (elems path)))
      (\<lambda>_. ret (elems path))) w = (r, v)"
      using assms True by (simp add: open_parent_def)
    show ?thesis
    proof (cases s)
      case (Inl e)
      then have "r = Inl e \<and> v = u" using run root by (cases r) (auto simp: act_simps)
      with Inl show ?thesis using Root by blast
    next
      case (Inr y)
      then have "v = x \<and> r = (case t of Inl e \<Rightarrow> Inl e | Inr _ \<Rightarrow> Inr (elems path))"
        using run root walk by (cases r; cases t) (auto simp: act_simps)
      then show ?thesis using Walk True by blast
    qed
  qed
  note cases = this
  have wx: "grows w x" using grows_trans [OF same_grows [OF at(1)]] law by blast
  have sx: "same w x" if "\<not> mk" using same_trans [OF at(1)] law that by blast
  show "grows w v" by (cases rule: cases) (use wx at(1) in \<open>auto intro: same_grows\<close>)
  show "same w v" if "\<not> mk" by (cases rule: cases) (use sx [OF that] at(1) in auto)
  show "r = Inr h \<Longrightarrow> h = elems path \<and> h \<noteq> [] \<and> is_abs path \<and> node_at (w_tree v) (butlast h) = Some Directory"
    using law by (cases rule: cases) (auto split: sum.splits)
  show "node_at (w_tree w) (elems path) = None" if hyp: "r = Inl NotExist" "\<not> mk" "wf_tree (w_tree w)"
  proof (cases rule: cases)
    case Early
    with hyp show ?thesis by auto
  next
    case (Root e)
    with hyp at(3) show ?thesis by simp
  next
    case Walk
    then have "t = Inl NotExist" using hyp by (auto split: sum.splits)
    then obtain q y where q: "butlast (elems path) = q @ y" "node_at (w_tree u) q = None"
      using law hyp(2) by auto
    then have "node_at (w_tree w) q = None" using at(1) by (simp add: same_def)
    moreover have "elems path = q @ y @ [last (elems path)]"
      using q(1) Walk(3) by (metis append_assoc append_butlast_last_id)
    ultimately show ?thesis using wf_tree_missing [OF hyp(3)] by metis
  qed
qed


section \<open>Opening, reading and removing\<close>

lemma openat_leaf_law:
  assumes "openat_leaf env wr h w = (r, v)"
  shows "same w v" and "r = Inl NotExist \<longleftrightarrow> node_at (w_tree w) h = None \<and> en_fault env OpenFile (w_now w) = None"
    and "r = Inr () \<Longrightarrow> node_at (w_tree w) h \<noteq> None"
  using assms
  by (cases r; auto simp: openat_leaf_def act_simps split: option.splits node.splits if_splits; fail)+

lemma require_regular_fd_law:
  assumes "require_regular_fd env h w = (r, v)"
  shows "same w v" and "r = Inr () \<Longrightarrow> \<exists>s. node_at (w_tree w) h = Some (Plain s)" and "r \<noteq> Inl NotExist"
  using assms
  by (cases r; auto simp: require_regular_fd_def act_simps split: option.splits node.splits; fail)+

lemma reads_openat_leaf [intro, simp]: "reads (openat_leaf env wr h)"
  by (rule leavesI) (rule openat_leaf_law(1))

lemma reads_require_fd [intro, simp]: "reads (require_regular_fd env h)"
  by (rule leavesI) (rule require_regular_fd_law(1))

lemma reads_open_parent [intro, simp]: "reads (open_parent env path False)"
  by (rule leavesI) (simp add: open_parent_law(2))

lemma reads_open_existing [intro, simp]: "reads (open_existing env path wr)"
  unfolding open_existing_def by blast

lemma post_same: "reads m \<Longrightarrow> post m w (\<lambda>r v. same w v)"
  by (simp add: post_def leaves_def)

lemma post_conj: "post m w P \<Longrightarrow> post m w Q \<Longrightarrow> post m w (\<lambda>r v. P r v \<and> Q r v)"
  by (simp add: post_def)

lemma open_parent_post:
  "post (open_parent env path mk) w (\<lambda>r v. grows w v \<and> (\<not> mk \<longrightarrow> same w v) \<and>
     (\<forall>h. r = Inr h \<longrightarrow> h = elems path \<and> h \<noteq> [] \<and> node_at (w_tree v) (butlast h) = Some Directory) \<and>
     (r = Inl NotExist \<longrightarrow> \<not> mk \<longrightarrow> wf_tree (w_tree w) \<longrightarrow> node_at (w_tree w) (elems path) = None))"
proof (rule postI)
  fix r v
  assume "open_parent env path mk w = (r, v)"
  note p = open_parent_law [OF this]
  show "grows w v \<and> (\<not> mk \<longrightarrow> same w v) \<and>
     (\<forall>h. r = Inr h \<longrightarrow> h = elems path \<and> h \<noteq> [] \<and> node_at (w_tree v) (butlast h) = Some Directory) \<and>
     (r = Inl NotExist \<longrightarrow> \<not> mk \<longrightarrow> wf_tree (w_tree w) \<longrightarrow> node_at (w_tree w) (elems path) = None)"
    using p(1,2,4) p(3) by blast
qed

lemma open_existing_law:
  "post (open_existing env path wr) w (\<lambda>r v. same w v \<and>
     (\<forall>h. r = Inr h \<longrightarrow> h = elems path \<and> h \<noteq> [] \<and> (\<exists>s. node_at (w_tree w) h = Some (Plain s))) \<and>
     (r = Inl NotExist \<longrightarrow> wf_tree (w_tree w) \<longrightarrow> node_at (w_tree w) (elems path) = None))"
  (is "post _ w ?Q")
proof -
  let ?P = "\<lambda>r u. same w u \<and> (\<forall>h. r = Inr h \<longrightarrow> h = elems path \<and> h \<noteq> []) \<and>
     (r = Inl NotExist \<longrightarrow> wf_tree (w_tree w) \<longrightarrow> node_at (w_tree w) (elems path) = None)"
  have parent: "post (open_parent env path False) w ?P"
    by (rule post_mono [OF open_parent_post]) auto
  have leaf: "post (openat_leaf env wr h) u (\<lambda>r v. same w v \<and>
      (r = Inl NotExist \<longrightarrow> node_at (w_tree w) h = None))" if wu: "same w u" for h u
  proof (rule postI)
    fix r v
    assume "openat_leaf env wr h u = (r, v)"
    note law = openat_leaf_law(1,2) [OF this]
    show "same w v \<and> (r = Inl NotExist \<longrightarrow> node_at (w_tree w) h = None)"
      using law wu by (simp add: same_def)
  qed
  have fd: "post (require_regular_fd env h) u (\<lambda>r v. same w v \<and> r \<noteq> Inl NotExist \<and>
      (r = Inr () \<longrightarrow> (\<exists>s. node_at (w_tree w) h = Some (Plain s))))" if wu: "same w u" for h u
  proof (rule postI)
    fix r v
    assume "require_regular_fd env h u = (r, v)"
    note law = require_regular_fd_law [OF this]
    show "same w v \<and> r \<noteq> Inl NotExist \<and> (r = Inr () \<longrightarrow> (\<exists>s. node_at (w_tree w) h = Some (Plain s)))"
      using law wu by (simp add: same_def)
  qed
  show ?thesis
    unfolding open_existing_def
  proof (rule post_abind [OF parent])
    fix h u
    assume "?P (Inr h) u"
    then have u: "same w u" "h = elems path" "h \<noteq> []" by auto
    show "post (abind (openat_leaf env wr h) (\<lambda>_. abind (require_regular_fd env h) (\<lambda>_. ret h))) u ?Q"
    proof (rule post_abind [OF leaf [OF u(1)]])
      fix a x
      assume "same w x \<and> (Inr a = Inl NotExist \<longrightarrow> node_at (w_tree w) h = None)"
      then have "same w x" by simp
      show "post (abind (require_regular_fd env h) (\<lambda>_. ret h)) x ?Q"
        by (rule post_abind [OF fd [OF \<open>same w x\<close>]]) (use u(2,3) in auto)
    qed (use u(2) in auto)
  qed auto
qed

lemma create_excl_law:
  assumes "h \<noteq> []" "node_at (w_tree w) (butlast h) = Some Directory"
  shows "post (create_excl env h) w (\<lambda>r v.
     ((\<exists>e. r = Inl e) \<longrightarrow> same w v) \<and>
     (r = Inr () \<longrightarrow> node_at (w_tree w) h = None \<and> node_at (w_tree v) h = Some (Plain []) \<and> only_at h w v))"
proof (rule postI)
  fix r v
  assume run: "create_excl env h w = (r, v)"
  obtain d c where h: "h = d @ [c]" using assms(1) by (cases h rule: rev_exhaust) auto
  show "((\<exists>e. r = Inl e) \<longrightarrow> same w v) \<and>
     (r = Inr () \<longrightarrow> node_at (w_tree w) h = None \<and> node_at (w_tree v) h = Some (Plain []) \<and> only_at h w v)"
    using run assms(2) h
    by (cases r) (auto simp: create_excl_def put_node_def act_simps only_at_def wf_tree_put split: option.splits)
qed

lemma reopen_leaf_law:
  "post (reopen_leaf env h) w (\<lambda>r v. same w v \<and>
     (\<forall>g ex. r = Inr (g, ex) \<longrightarrow> g = h \<and> ex \<and> (\<exists>s. node_at (w_tree w) h = Some (Plain s))))"
proof -
  have leaf: "post (openat_leaf env True h) w (\<lambda>r v. same w v)"
    by (rule post_same) simp
  have fd: "post (require_regular_fd env h) u (\<lambda>r v. same w v \<and>
      (r = Inr () \<longrightarrow> (\<exists>s. node_at (w_tree w) h = Some (Plain s))))" if "same w u" for u
    by (rule postI) (metis require_regular_fd_law same_def same_trans that)
  show ?thesis
    unfolding reopen_leaf_def
    by (rule post_abind [OF leaf], simp, rule post_abind [OF fd], assumption, auto)
qed

lemma open_for_write_law:
  "post (open_for_write env path) w (\<lambda>r v.
     ((\<exists>e. r = Inl e) \<longrightarrow> grows w v) \<and>
     (\<forall>h ex. r = Inr (h, ex) \<longrightarrow>
        h = elems path \<and> h \<noteq> [] \<and> (\<exists>s. node_at (w_tree v) h = Some (Plain s)) \<and> only_at h w v \<and>
        (ex \<longrightarrow> grows w v) \<and> (\<not> ex \<longrightarrow> node_at (w_tree w) h = None)))"
  (is "post _ w ?Q")
proof -
  let ?P = "\<lambda>r u. grows w u \<and> (\<forall>h. r = Inr h \<longrightarrow> h = elems path \<and> h \<noteq> [] \<and> node_at (w_tree u) (butlast h) = Some Directory)"
  have parent: "post (open_parent env path True) w ?P"
    by (rule post_mono [OF open_parent_post]) auto
  have found: "post (abind (require_regular_fd env h) (\<lambda>_. ret (h, True))) u ?Q"
    if "grows w u" "h = elems path" "h \<noteq> []" for h u
  proof -
    have fd: "post (require_regular_fd env h) u (\<lambda>r v. grows w v \<and>
        (r = Inr () \<longrightarrow> (\<exists>s. node_at (w_tree v) h = Some (Plain s))))"
      by (rule postI) (metis require_regular_fd_law(1,2) same_def same_grows grows_trans that(1))
    show ?thesis by (rule post_abind [OF fd]) (use that grows_only in auto)
  qed
  have again: "post (reopen_leaf env h) u ?Q" if "grows w u" "h = elems path" "h \<noteq> []" for h u
    by (rule post_mono [OF reopen_leaf_law])
       (use that grows_only grows_trans [OF that(1) same_grows] in \<open>auto simp: same_def\<close>)
  have create: "post (abind (try_act (create_excl env h)) (\<lambda>c. case c of
        Inr _ \<Rightarrow> ret (h, False) | Inl e' \<Rightarrow> if e' \<noteq> AlreadyThere then raise e' else reopen_leaf env h)) u ?Q"
    if "grows w u" "h = elems path" "h \<noteq> []" "node_at (w_tree u) (butlast h) = Some Directory" for h u
  proof (rule post_try_bind [OF create_excl_law [OF that(3,4)]])
    fix c :: "file_error + unit" and x
    assume c: "((\<exists>e. c = Inl e) \<longrightarrow> same u x) \<and>
     (c = Inr () \<longrightarrow> node_at (w_tree u) h = None \<and> node_at (w_tree x) h = Some (Plain []) \<and> only_at h u x)"
    show "post (case c of Inr _ \<Rightarrow> ret (h, False)
        | Inl e' \<Rightarrow> if e' \<noteq> AlreadyThere then raise e' else reopen_leaf env h) x ?Q"
    proof (cases c)
      case (Inl e')
      then have "grows w x" using c grows_trans [OF that(1) same_grows] by simp
      with Inl again [OF this that(2,3)] show ?thesis by simp
    next
      case (Inr y)
      then have "only_at h w x" using c only_at_trans [OF grows_only [OF that(1)]] by simp
      moreover have "node_at (w_tree w) h = None" using c Inr grows_missing [OF that(1)] by simp
      ultimately show ?thesis using c Inr that(2,3) by simp
    qed
  qed
  have leaf: "post (openat_leaf env True h) u (\<lambda>r v. same u v)" for h u
    by (rule post_same) simp
  show ?thesis
    unfolding open_for_write_def
  proof (rule post_abind [OF parent])
    fix h u
    assume "?P (Inr h) u"
    then have h: "grows w u" "h = elems path" "h \<noteq> []" "node_at (w_tree u) (butlast h) = Some Directory" by auto
    show "post (abind (try_act (openat_leaf env True h)) (\<lambda>r. case r of
         Inr _ \<Rightarrow> abind (require_regular_fd env h) (\<lambda>_. ret (h, True))
       | Inl e \<Rightarrow> (if e \<noteq> NotExist then raise e
            else abind (try_act (create_excl env h)) (\<lambda>c. case c of
                     Inr _ \<Rightarrow> ret (h, False)
                   | Inl e' \<Rightarrow> if e' \<noteq> AlreadyThere then raise e' else reopen_leaf env h)))) u ?Q"
    proof (rule post_try_bind [OF leaf])
      fix r :: "file_error + unit" and x
      assume s: "same u x"
      then have x: "grows w x" "node_at (w_tree x) (butlast h) = Some Directory"
        using grows_trans [OF h(1) same_grows] h(4) by (auto simp: same_def)
      show "post (case r of Inr _ \<Rightarrow> abind (require_regular_fd env h) (\<lambda>_. ret (h, True))
       | Inl e \<Rightarrow> (if e \<noteq> NotExist then raise e
            else abind (try_act (create_excl env h)) (\<lambda>c. case c of
                     Inr _ \<Rightarrow> ret (h, False)
                   | Inl e' \<Rightarrow> if e' \<noteq> AlreadyThere then raise e' else reopen_leaf env h))) x ?Q"
        using found [OF x(1) h(2,3)] create [OF x(1) h(2,3) x(2)] x(1) by (cases r) auto
    qed
  qed auto
qed

lemma wf_no_children:
  assumes "wf_tree t" "node_at t h \<noteq> Some Directory"
  shows "\<not> has_children t h"
proof
  assume "has_children t h"
  then obtain q n where q: "(q, n) \<in> set t" "length q = Suc (length h)" "take (length h) q = h"
    by (auto simp: has_children_def list_ex_iff)
  then obtain c where "q = h @ [c]"
    by (metis append_take_drop_id length_Suc_conv_rev take_all_iff order_refl append_eq_conv_conj)
  moreover from q(1,2) have "node_at t q \<noteq> None"
    by (simp add: node_at_def map_of_eq_None_iff del: not_None_eq) force
  ultimately show False using assms by (auto dest: wf_treeD)
qed

lemma unlinkat_law:
  assumes "h \<noteq> []"
  shows "post (unlinkat env rd h) w (\<lambda>r v.
     ((\<exists>e. r = Inl e) \<longrightarrow> same w v) \<and> (r = Inr () \<longrightarrow> only_at h w v \<and> node_at (w_tree v) h = None) \<and>
     (r = Inl NotExist \<longrightarrow> node_at (w_tree w) h = None))"
proof (rule postI)
  fix r v
  assume run: "unlinkat env rd h w = (r, v)"
  let ?gone = "w\<lparr>w_tree := AList.delete h (w_tree w), w_now := Suc (w_now w)\<rparr>"
  have gone: "only_at h w ?gone" if "wf_tree (w_tree w) \<longrightarrow> \<not> has_children (w_tree w) h"
    using that assms by (simp add: only_at_def wf_tree_drop)
  show "((\<exists>e. r = Inl e) \<longrightarrow> same w v) \<and> (r = Inr () \<longrightarrow> only_at h w v \<and> node_at (w_tree v) h = None) \<and>
     (r = Inl NotExist \<longrightarrow> node_at (w_tree w) h = None)"
  proof (cases r)
    case (Inl e)
    then show ?thesis
      using run by (auto simp: unlinkat_def drop_node_def act_simps split: option.splits node.splits if_splits)
  next
    case (Inr x)
    then have "v = ?gone \<and> (has_children (w_tree w) h \<longrightarrow> node_at (w_tree w) h \<noteq> Some Directory)"
      using run by (auto simp: unlinkat_def drop_node_def act_simps split: option.splits node.splits if_splits)
    moreover from this have "only_at h w v"
      using gone wf_no_children by blast
    ultimately show ?thesis using Inr assms by simp
  qed
qed

lemma remove_leaf_law:
  "post (remove_leaf env path) w (\<lambda>r v.
     ((\<exists>e. r = Inl e) \<longrightarrow> same w v) \<and>
     (r = Inr () \<longrightarrow> elems path \<noteq> [] \<and> only_at (elems path) w v \<and> node_at (w_tree v) (elems path) = None) \<and>
     (r = Inl NotExist \<longrightarrow> wf_tree (w_tree w) \<longrightarrow> node_at (w_tree w) (elems path) = None))"
  (is "post _ w ?Q")
proof -
  let ?P = "\<lambda>r u. same w u \<and> (\<forall>h. r = Inr h \<longrightarrow> h = elems path \<and> h \<noteq> []) \<and>
     (r = Inl NotExist \<longrightarrow> wf_tree (w_tree w) \<longrightarrow> node_at (w_tree w) (elems path) = None)"
  have parent: "post (open_parent env path False) w ?P"
    by (rule post_mono [OF open_parent_post]) auto
  have shape: "post (require_removable_leaf env h) u (\<lambda>r v. same u v \<and>
      (r = Inl NotExist \<longrightarrow> node_at (w_tree u) h = None))" for h u
    by (rule postI, rename_tac r v, case_tac r)
       (auto simp: require_removable_leaf_def act_simps split: option.splits node.splits)
  have unlink: "post (unlinkat env rd h) x ?Q" if "same w x" "h = elems path" "h \<noteq> []" for rd h x
  proof (rule post_mono [OF unlinkat_law [OF that(3)]])
    fix r v
    assume law: "((\<exists>e. r = Inl e) \<longrightarrow> same x v) \<and> (r = Inr () \<longrightarrow> only_at h x v \<and> node_at (w_tree v) h = None) \<and>
      (r = Inl NotExist \<longrightarrow> node_at (w_tree x) h = None)"
    show "?Q r v"
      using law that same_trans [OF that(1)] only_at_trans [OF grows_only [OF same_grows [OF that(1)]]]
      by (auto simp: same_def)
  qed
  show ?thesis
    unfolding remove_leaf_def
  proof (rule post_abind [OF parent])
    fix h u
    assume "?P (Inr h) u"
    then have u: "same w u" "h = elems path" "h \<noteq> []" by auto
    show "post (abind (require_removable_leaf env h) (\<lambda>_. or_else (unlinkat env False h)
        (\<lambda>e. if e = IsADirectory then unlinkat env True h else raise e))) u ?Q"
    proof (rule post_abind [OF shape])
      fix a x
      assume "same u x \<and> (Inr a = Inl NotExist \<longrightarrow> node_at (w_tree u) h = None)"
      then have x: "same w x" using same_trans [OF u(1)] by simp
      show "post (or_else (unlinkat env False h) (\<lambda>e. if e = IsADirectory then unlinkat env True h else raise e)) x ?Q"
      proof (rule post_or_else [OF unlink [OF x u(2,3)]])
        fix e y
        assume y: "?Q (Inl e) y"
        then have "same w y" by auto
        then show "post (if e = IsADirectory then unlinkat env True h else raise e) y ?Q"
          using unlink [OF _ u(2,3)] y by auto
      qed
    next
      fix e x
      assume "same u x \<and> (Inl e = Inl NotExist \<longrightarrow> node_at (w_tree u) h = None)"
      then show "?Q (Inl e) x" using u same_trans [OF u(1)] by (auto simp: same_def)
    qed
  qed auto
qed

lemma read_all_law:
  "post (read_all env h) w (\<lambda>r v. same w v \<and> (\<forall>s. r = Inr s \<longrightarrow> file_at w h = Some s))"
  by (rule postI, rename_tac r v, case_tac r)
     (auto simp: read_all_def act_simps file_at_def split: option.splits)

lemma only_at_put:
  assumes "node_at (w_tree w) h = Some (Plain s)"
    and "w_tree v = AList.update h (Plain s') (w_tree w)" "w_groups v = w_groups w"
  shows "only_at h w v"
proof -
  have "h \<noteq> []" using assms by (auto simp: node_at_def)
  then obtain d c where h: "h = d @ [c]" by (cases h rule: rev_exhaust) auto
  have "wf_tree (AList.update h (Plain s') (w_tree w))" if "wf_tree (w_tree w)"
  proof -
    have "node_at (w_tree w) d = Some Directory"
      using wf_treeD [OF that, of d c] assms(1) h by simp
    then show ?thesis using wf_tree_put [OF that, of d c] assms(1) h by simp
  qed
  with \<open>h \<noteq> []\<close> assms(2,3) show ?thesis by (simp add: only_at_def)
qed

lemma write_replacement_law:
  assumes "node_at (w_tree w) h = Some (Plain s)"
  shows "post (write_replacement env h new) w (\<lambda>r v.
     only_at h w v \<and> (\<exists>s'. node_at (w_tree v) h = Some (Plain s')) \<and>
     (\<exists>done err. r = Inr (done, err) \<and> (done \<longrightarrow> node_at (w_tree v) h = Some (Plain new)) \<and> (err = None \<longrightarrow> done)))"
proof (rule postI)
  fix r v
  assume run: "write_replacement env h new w = (r, v)"
  have h: "h \<noteq> []" using assms by (auto simp: node_at_def)
  have twice: "AList.update h a (AList.update h b t) = AList.update h a t" for a b :: node and t
    by (induction t) auto
  have "\<exists>s' done err. w_tree v = AList.update h (Plain s') (w_tree w) \<and> w_groups v = w_groups w \<and>
      r = Inr (done, err) \<and> (done \<longrightarrow> s' = new) \<and> (err = None \<longrightarrow> done)"
    using run
    by (cases r)
       (auto simp: write_replacement_def put_node_def act_simps Let_def twice split: option.splits if_splits)
  then obtain s' full err where v: "w_tree v = AList.update h (Plain s') (w_tree w)" "w_groups v = w_groups w"
    and r: "r = Inr (full, err)" "full \<longrightarrow> s' = new" "err = None \<longrightarrow> full"
    by blast
  from v(1) h have "node_at (w_tree v) h = Some (Plain s')" by simp
  with r only_at_put [OF assms v]
  show "only_at h w v \<and> (\<exists>s'. node_at (w_tree v) h = Some (Plain s')) \<and>
     (\<exists>done err. r = Inr (done, err) \<and> (done \<longrightarrow> node_at (w_tree v) h = Some (Plain new)) \<and> (err = None \<longrightarrow> done))"
    by auto
qed

lemma ensure_regular_existing_law:
  "post (ensure_regular_existing env path) w (\<lambda>r v. same w v)"
  by (rule post_same) simp

end
