(* ===== verification/Canonical_Path.thy ===== *)
theory Canonical_Path
  imports File_Laws
begin

text \<open>
  What a canonical path is: walked through the tree it was resolved in, it leads to itself or nowhere, however many
  links may be followed. Every path that the resolver returns is one.
\<close>

section \<open>Showing and reading paths\<close>

abbreviation plain :: "string list \<Rightarrow> bool" where
  "plain es \<equiv> list_all plain_elem es"

lemma split_char_two: "split_char c (u @ c # v) = split_char c u @ split_char c v"
proof (induction u)
  case (Cons x u)
  obtain a as where "split_char c u = a # as" by (cases "split_char c u") auto
  with Cons show ?case by auto
qed simp

lemma is_abs_show [simp]: "is_abs (show_path es)"
  by (simp add: is_abs_def show_path_def)

lemma show_path_not_Nil [simp]: "show_path es \<noteq> []"
  by (simp add: show_path_def)

lemma elems_show [simp]: "plain es \<Longrightarrow> elems (show_path es) = es"
proof (cases "es = []")
  case True
  then show ?thesis by (simp add: elems_def show_path_def clean_elems_def is_abs_def clean_step_def)
next
  case False
  assume "plain es"
  with False have "split_char slash (show_path es) = [] # es"
    by (simp add: show_path_def split_join_plain)
  with \<open>plain es\<close> show ?thesis
    using is_abs_show [of es] by (simp add: elems_def clean_elems_def clean_step_def foldl_clean_id)
qed

lemma show_inj: "plain es \<Longrightarrow> plain fs \<Longrightarrow> show_path es = show_path fs \<longleftrightarrow> es = fs"
  by (metis elems_show)

lemma clean_show [simp]: "plain es \<Longrightarrow> clean (show_path es) = show_path es"
  using elems_show [of es] is_abs_show [of es] by (simp add: clean_def elems_def show_path_def)

lemma clean_is_show: "is_abs p \<Longrightarrow> clean p = show_path (elems p)"
  by (simp add: clean_def elems_def show_path_def)

lemma elems_plain: "is_abs p \<Longrightarrow> plain (elems p)"
  by (simp add: elems_def clean_elems_plain)

lemma elems_clean: "is_abs p \<Longrightarrow> elems (clean p) = elems p"
  using clean_is_show elems_plain by simp

lemma is_abs_append [simp]: "is_abs p \<Longrightarrow> is_abs (p @ q)"
  by (auto simp: is_abs_def prefix_def)

lemma path_join_show:
  assumes "is_abs p" "plain tail" "tail \<noteq> []"
  shows "path_join (p # tail) = show_path (elems p @ tail)"
proof -
  have ne: "filter (\<lambda>q. q \<noteq> []) (p # tail) = p # tail"
  proof -
    have "p \<noteq> []" using assms(1) by (auto simp: is_abs_def)
    moreover have "\<forall>q \<in> set tail. q \<noteq> []" using assms(2) by (auto simp: list_all_iff plain_elem_def)
    ultimately show ?thesis by (simp add: filter_id_conv)
  qed
  have j: "join [slash] (p # tail) = p @ slash # join [slash] tail"
    using assms(3) by (simp add: join_Cons)
  have "elems (join [slash] (p # tail)) = elems p @ tail"
    using assms by (simp add: j elems_def clean_elems_def split_char_two split_join_plain foldl_clean_id)
  moreover have "is_abs (join [slash] (p # tail))" using assms(1) by (simp add: j)
  ultimately show ?thesis
    using ne by (simp add: path_join_def clean_is_show)
qed

lemma path_join_abs:
  assumes "is_abs p"
  shows "is_abs (path_join [p, q])"
proof -
  have "p \<noteq> []" using assms by (auto simp: is_abs_def)
  then have "path_join [p, q] = clean (if q = [] then p else p @ slash # q)"
    by (simp add: path_join_def)
  also have "is_abs \<dots>" using assms by (intro is_abs_clean) simp
  finally show ?thesis .
qed

section \<open>Walking\<close>

definition canonical_in :: "tree \<Rightarrow> string list \<Rightarrow> bool" where
  "canonical_in t es \<longleftrightarrow> (\<forall>n. case walk_links t n [] es of Inl _ \<Rightarrow> True | Inr r \<Rightarrow> r = es)"

text \<open>The parents are directories.\<close>

definition dirs_above :: "tree \<Rightarrow> string list \<Rightarrow> bool" where
  "dirs_above t es \<longleftrightarrow> (\<forall>k < length es. node_at t (take k es) = Some Directory)"

lemma walk_through:
  assumes "\<And>k. 0 < k \<Longrightarrow> k \<le> length cs \<Longrightarrow> node_at t (d @ take k cs) = Some Directory" "plain cs"
  shows "walk_links t n d (cs @ ds) = walk_links t n (d @ cs) ds"
  using assms
proof (induction cs arbitrary: d)
  case (Cons c cs)
  have c: "node_at t (d @ [c]) = Some Directory" using Cons.prems(1) [of 1] by simp
  have "walk_links t n (d @ [c]) (cs @ ds) = walk_links t n ((d @ [c]) @ cs) ds"
  proof (rule Cons.IH)
    fix k assume "0 < k" "k \<le> length cs"
    then show "node_at t ((d @ [c]) @ take k cs) = Some Directory" using Cons.prems(1) [of "Suc k"] by simp
  qed (use Cons.prems(2) in simp)
  with c Cons.prems(2) show ?case by (simp add: plain_elem_def)
qed simp

lemma dirs_above_walk:
  assumes "dirs_above t es" "plain es" "es \<noteq> []"
  shows "walk_links t n [] es = walk_links t n (butlast es) [last es]"
proof -
  have "walk_links t n [] (butlast es @ [last es]) = walk_links t n ([] @ butlast es) [last es]"
  proof (rule walk_through)
    fix k assume "0 < k" "k \<le> length (butlast es)"
    then show "node_at t ([] @ take k (butlast es)) = Some Directory"
      using assms(1,3) by (simp add: dirs_above_def take_butlast)
  qed (use assms(2) in \<open>auto simp: list_all_iff dest: in_set_butlastD\<close>)
  with assms(3) show ?thesis by simp
qed

text \<open>What ends on a directory or a file with directories above is canonical, and so is what is missing below.\<close>

lemma canonical_existing:
  assumes "dirs_above t es" "plain es" "\<And>l. node_at t es \<noteq> Some (Symlink l)"
  shows "canonical_in t es"
proof (cases "es = []")
  case False
  then have w: "walk_links t n [] es = walk_links t n (butlast es) [last es]" for n
    using dirs_above_walk [OF assms(1,2)] by simp
  have e: "butlast es @ [last es] = es" using False by simp
  have "last es \<noteq> ''..''" using assms(2) False by (auto simp: list_all_iff plain_elem_def)
  then have "case walk_links t n [] es of Inl _ \<Rightarrow> True | Inr r \<Rightarrow> r = es" for n
    using assms(3) e by (simp add: w split: option.splits node.splits)
  then show ?thesis by (simp add: canonical_in_def)
qed (simp add: canonical_in_def)

lemma canonical_missing:
  assumes "dirs_above t ds" "node_at t ds = Some Directory" "node_at t (ds @ [x]) = None" "plain (ds @ x # fs)"
  shows "canonical_in t (ds @ x # fs)"
proof -
  have "walk_links t n [] (ds @ x # fs) = walk_links t n ([] @ ds) (x # fs)" for n
  proof (rule walk_through)
    fix k assume "0 < k" "k \<le> length ds"
    then show "node_at t ([] @ take k ds) = Some Directory"
      using assms(1,2) by (cases "k = length ds") (auto simp: dirs_above_def)
  qed (use assms(4) in simp)
  moreover have "walk_links t n ds (x # fs) = Inl NotExist" for n
    using assms(3,4) by (simp add: plain_elem_def)
  ultimately show ?thesis by (simp add: canonical_in_def)
qed

text \<open>The invariant of a walk: where it is, all is directories.\<close>

definition walkable :: "string \<Rightarrow> bool" where
  "walkable c \<longleftrightarrow> c \<noteq> [] \<and> c \<noteq> ''.'' \<and> slash \<notin> set c"

lemma walkable_plain: "walkable c \<Longrightarrow> c \<noteq> ''..'' \<Longrightarrow> plain_elem c"
  by (simp add: walkable_def plain_elem_def)

lemma plain_walkable: "plain es \<Longrightarrow> list_all walkable es"
  by (auto simp: list_all_iff walkable_def plain_elem_def)

lemma link_elems_walkable: "list_all walkable (link_elems l)"
  using split_char_parts_all [of l] by (auto simp: link_elems_def list_all_iff walkable_def)

definition standing :: "tree \<Rightarrow> string list \<Rightarrow> bool" where
  "standing t d \<longleftrightarrow> plain d \<and> dirs_above t d \<and> node_at t d = Some Directory"

lemma standing_Nil [simp]: "standing t []"
  by (simp add: standing_def dirs_above_def)

lemma dirs_above_snoc: "dirs_above t (d @ [c]) \<longleftrightarrow> dirs_above t d \<and> node_at t d = Some Directory"
  by (auto simp: dirs_above_def less_Suc_eq)

lemma standing_butlast: "standing t d \<Longrightarrow> standing t (butlast d)"
  by (cases d rule: rev_exhaust) (auto simp: standing_def dirs_above_snoc)

lemma walk_links_law:
  assumes "walk_links t n d cs = Inr r" "standing t d" "list_all walkable cs"
  shows "plain r \<and> dirs_above t r \<and> node_at t r \<noteq> None \<and> (\<forall>l. node_at t r \<noteq> Some (Symlink l))"
  using assms
proof (induction t n d cs rule: walk_links.induct)
  case (1 t n d)
  then show ?case by (simp add: standing_def)
next
  case (2 t n d c cs)
  show ?case
  proof (cases "c = ''..''")
    case True
    with 2 show ?thesis by (simp add: standing_butlast)
  next
    case False
    have c: "plain_elem c" using 2(6) False by (simp add: walkable_plain)
    show ?thesis
    proof (cases "node_at t (d @ [c])")
      case None
      with 2(4) False show ?thesis by simp
    next
      case (Some nd)
      have up: "plain (d @ [c])" "dirs_above t (d @ [c])"
        using 2(5) c by (simp_all add: standing_def dirs_above_snoc)
      show ?thesis
      proof (cases nd)
        case Directory
        then have "standing t (d @ [c])" using up Some by (simp add: standing_def)
        with 2(2) [OF False Some Directory] 2(4,6) False Some Directory show ?thesis by simp
      next
        case (Symlink l)
        then obtain m where n: "n = Suc m" using 2(4) False Some by (cases n) auto
        have "standing t (if is_abs l then [] else d)" using 2(5) by simp
        moreover have "list_all walkable (link_elems l @ cs)" using 2(6) link_elems_walkable by simp
        ultimately show ?thesis
          using 2(3) [OF False Some Symlink n] 2(4) False Some Symlink n by simp
      qed (use 2(4) False Some up in \<open>auto split: if_splits\<close>)
    qed
  qed
qed

lemma walk_links_more:
  assumes "walk_links t n d cs = x" "x \<noteq> Inl TooManyLinks" "n \<le> m"
  shows "walk_links t m d cs = x"
  using assms
proof (induction t n d cs arbitrary: m rule: walk_links.induct)
  case (2 t n d c cs)
  show ?case
  proof (cases "c = ''..''")
    case True
    with 2 show ?thesis by simp
  next
    case False
    show ?thesis
    proof (cases "node_at t (d @ [c])")
      case (Some nd)
      show ?thesis
      proof (cases nd)
        case Directory
        with 2(2) [OF False Some Directory, of m] 2(4-) False Some show ?thesis by simp
      next
        case (Symlink l)
        then obtain n' where n: "n = Suc n'" using 2(4,5) False Some by (cases n) auto
        then obtain m' where m: "m = Suc m'" "n' \<le> m'" using 2(6) by (cases m) auto
        with 2(3) [OF False Some Symlink n, of m'] 2(4-) False Some Symlink n show ?thesis by simp
      qed (use 2(4) False Some in auto)
    qed (use 2(4) False in simp)
  qed
qed simp

section \<open>What the resolver returns\<close>

definition canonical_text :: "tree \<Rightarrow> string \<Rightarrow> bool" where
  "canonical_text t p \<longleftrightarrow> (\<exists>es. plain es \<and> p = show_path es \<and> canonical_in t es)"

lemma canonical_textD:
  assumes "canonical_text t p"
  shows "is_abs p" "p = show_path (elems p)" "plain (elems p)" "canonical_in t (elems p)" "p \<noteq> []"
  using assms by (auto simp: canonical_text_def)

lemma os_lstat_law: "post (os_lstat env es) w (\<lambda>r v. same w v \<and>
    (\<forall>n. r = Inr n \<longrightarrow> leaf_node (w_tree w) es = Inr n) \<and>
    (r = Inl NotExist \<longrightarrow> leaf_node (w_tree w) es = Inl NotExist))"
  by (rule postI, rename_tac r v, case_tac r)
     (auto simp: os_lstat_def act_simps split: option.splits)

lemma eval_symlinks_post: "post (eval_symlinks env es) w (\<lambda>r v. same w v \<and>
    (\<forall>p. r = Inr p \<longrightarrow> (\<exists>ds. walk_links (w_tree w) 255 [] es = Inr ds \<and> p = show_path ds)))"
  by (rule postI, rename_tac r v, case_tac r)
     (auto simp: eval_symlinks_def act_simps res_simps split: option.splits)

lemma eval_symlinks_canonical:
  assumes "walk_links t 255 [] es = Inr ds" "plain es"
  shows "canonical_text t (show_path ds)" "plain ds" "dirs_above t ds"
proof -
  note law = walk_links_law [OF assms(1) standing_Nil plain_walkable [OF assms(2)]]
  then show "canonical_text t (show_path ds)" "plain ds" "dirs_above t ds"
    by (auto simp: canonical_text_def intro: canonical_existing)
qed

lemma leaf_missing:
  assumes "leaf_node t (ps @ [x]) = Inl NotExist" "walk_links t 255 [] ps = Inr ds"
  shows "node_at t ds = Some Directory \<and> node_at t (ds @ [x]) = None"
proof -
  have "walk_links t 40 [] ps = Inr ds"
  proof (cases "walk_links t 40 [] ps = Inl TooManyLinks")
    case True
    with assms(1) show ?thesis by (simp add: leaf_node_def)
  next
    case False
    with walk_links_more [OF refl False, of 255] assms(2) show ?thesis by simp
  qed
  with assms(1) show ?thesis
    by (auto simp: leaf_node_def split: option.splits node.splits)
qed

lemma canonical_joined:
  assumes "walk_links t 255 [] ps = Inr ds" "plain ps" "leaf_node t (ps @ [x]) = Inl NotExist" "plain (x # tail)"
  shows "canonical_text t (path_join (show_path ds # x # tail))"
proof -
  note ds = eval_symlinks_canonical(2,3) [OF assms(1,2)]
  have p: "plain (ds @ x # tail)" using ds(1) assms(4) by simp
  have "canonical_in t (ds @ x # tail)"
    using leaf_missing [OF assms(3,1)] by (intro canonical_missing [OF ds(2) _ _ p]) simp_all
  moreover have "path_join (show_path ds # x # tail) = show_path (ds @ x # tail)"
    using path_join_show [of "show_path ds" "x # tail"] ds(1) assms(4) by simp
  ultimately show ?thesis
    unfolding canonical_text_def using p by (intro exI [of _ "ds @ x # tail"]) simp
qed

lemma climb_law:
  assumes "plain (rev rparent)" "plain (x # tail)" "leaf_node (w_tree w) (rev rparent @ [x]) = Inl NotExist"
  shows "post (climb env a rparent (x # tail)) w (\<lambda>r v. same w v \<and> (\<forall>q. r = Inr q \<longrightarrow> canonical_text (w_tree w) (fst q)))"
  using assms
proof (induction rparent arbitrary: x tail w)
  case Nil
  have found: "post (abind (eval_symlinks env []) (\<lambda>p. ret (path_join (p # x # tail), False))) u
      (\<lambda>r v. same w v \<and> (\<forall>q. r = Inr q \<longrightarrow> canonical_text (w_tree w) (fst q)))" if wu: "same w u" for u
  proof (rule post_abind [OF eval_symlinks_post])
    fix p v
    assume p: "same u v \<and> (\<forall>q. Inr p = Inr q \<longrightarrow> (\<exists>ds. walk_links (w_tree u) 255 [] [] = Inr ds \<and> q = show_path ds))"
    then have "canonical_text (w_tree w) (path_join (p # x # tail))"
      using canonical_joined [of "w_tree w" "[]" _ x tail] Nil wu by (auto simp: same_def)
    with p show "post (ret (path_join (p # x # tail), False)) v
        (\<lambda>r v. same w v \<and> (\<forall>q. r = Inr q \<longrightarrow> canonical_text (w_tree w) (fst q)))"
      using same_trans [OF wu] by simp
  qed (use wu same_trans in auto)
  show ?case
    unfolding climb.simps
  proof (rule post_try_bind [OF os_lstat_law])
    fix r u
    assume r: "same w u \<and> (\<forall>n. r = Inr n \<longrightarrow> leaf_node (w_tree w) [] = Inr n) \<and>
      (r = Inl NotExist \<longrightarrow> leaf_node (w_tree w) [] = Inl NotExist)"
    then show "post (case r of Inr _ \<Rightarrow> abind (eval_symlinks env []) (\<lambda>p. ret (path_join (p # x # tail), False))
       | Inl e \<Rightarrow> if e = NotExist then ret (a, False) else raise e) u
       (\<lambda>r v. same w v \<and> (\<forall>q. r = Inr q \<longrightarrow> canonical_text (w_tree w) (fst q)))"
      using found by (cases r) (auto simp: leaf_node_def)
  qed
next
  case (Cons c rparent)
  let ?es = "rev (c # rparent)"
  have found: "post (abind (eval_symlinks env ?es) (\<lambda>p. ret (path_join (p # x # tail), False))) u
      (\<lambda>r v. same w v \<and> (\<forall>q. r = Inr q \<longrightarrow> canonical_text (w_tree w) (fst q)))" if wu: "same w u" for u
  proof (rule post_abind [OF eval_symlinks_post])
    fix p v
    assume p: "same u v \<and> (\<forall>q. Inr p = Inr q \<longrightarrow> (\<exists>ds. walk_links (w_tree u) 255 [] ?es = Inr ds \<and> q = show_path ds))"
    then have "canonical_text (w_tree w) (path_join (p # x # tail))"
      using canonical_joined [of "w_tree w" ?es _ x tail] Cons.prems wu by (auto simp: same_def)
    with p show "post (ret (path_join (p # x # tail), False)) v
        (\<lambda>r v. same w v \<and> (\<forall>q. r = Inr q \<longrightarrow> canonical_text (w_tree w) (fst q)))"
      using same_trans [OF wu] by simp
  qed (use wu same_trans in auto)
  have up: "post (climb env a rparent (c # x # tail)) u
      (\<lambda>r v. same w v \<and> (\<forall>q. r = Inr q \<longrightarrow> canonical_text (w_tree w) (fst q)))"
    if wu: "same w u" and miss: "leaf_node (w_tree w) ?es = Inl NotExist" for u
  proof (rule post_mono [OF Cons.IH])
    show "plain (rev rparent)" "plain (c # x # tail)" using Cons.prems(1,2) by simp_all
    show "leaf_node (w_tree u) (rev rparent @ [c]) = Inl NotExist" using miss wu by (simp add: same_def)
  qed (use wu same_trans [OF wu] in \<open>auto simp: same_def\<close>)
  show ?case
    unfolding climb.simps
  proof (rule post_try_bind [OF os_lstat_law])
    fix r u
    assume "same w u \<and> (\<forall>n. r = Inr n \<longrightarrow> leaf_node (w_tree w) ?es = Inr n) \<and>
      (r = Inl NotExist \<longrightarrow> leaf_node (w_tree w) ?es = Inl NotExist)"
    then show "post (case r of Inr _ \<Rightarrow> abind (eval_symlinks env ?es) (\<lambda>p. ret (path_join (p # x # tail), False))
       | Inl e \<Rightarrow> if e = NotExist then climb env a rparent (c # x # tail) else raise e) u
       (\<lambda>r v. same w v \<and> (\<forall>q. r = Inr q \<longrightarrow> canonical_text (w_tree w) (fst q)))"
      using found up by (cases r) auto
  qed
qed

lemma resolve_abs_law:
  assumes "is_abs p"
  shows "post (resolve_abs_path env p) w (\<lambda>r v. same w v \<and> (\<forall>q. r = Inr q \<longrightarrow> canonical_text (w_tree w) (fst q)))"
  unfolding resolve_abs_path_def Let_def
proof (rule post_try_bind [OF os_lstat_law])
  fix r u
  assume r: "same w u \<and> (\<forall>n. r = Inr n \<longrightarrow> leaf_node (w_tree w) (elems p) = Inr n) \<and>
    (r = Inl NotExist \<longrightarrow> leaf_node (w_tree w) (elems p) = Inl NotExist)"
  have pl: "plain (elems p)" by (rule elems_plain [OF assms])
  have found: "post (abind (eval_symlinks env (elems p)) (\<lambda>c. ret (c, True))) u
      (\<lambda>r v. same w v \<and> (\<forall>q. r = Inr q \<longrightarrow> canonical_text (w_tree w) (fst q)))"
  proof (rule post_abind [OF eval_symlinks_post])
    fix c v
    assume c: "same u v \<and> (\<forall>q. Inr c = Inr q \<longrightarrow> (\<exists>ds. walk_links (w_tree u) 255 [] (elems p) = Inr ds \<and> q = show_path ds))"
    then have "canonical_text (w_tree w) c"
      using eval_symlinks_canonical(1) pl r by (auto simp: same_def)
    with c r show "post (ret (c, True)) v (\<lambda>r v. same w v \<and> (\<forall>q. r = Inr q \<longrightarrow> canonical_text (w_tree w) (fst q)))"
      using same_trans by auto
  qed (use r same_trans in auto)
  have up: "post (climb env (clean p) (tl (rev (elems p))) [last (elems p)]) u
      (\<lambda>r v. same w v \<and> (\<forall>q. r = Inr q \<longrightarrow> canonical_text (w_tree w) (fst q)))"
    if miss: "leaf_node (w_tree w) (elems p) = Inl NotExist"
  proof -
    have "elems p \<noteq> []" using miss by (auto simp: leaf_node_def)
    then obtain ps x where e: "elems p = ps @ [x]" by (cases "elems p" rule: rev_exhaust) auto
    show ?thesis
      by (rule post_mono [OF climb_law])
         (use e pl miss r same_trans in \<open>auto simp: same_def\<close>)
  qed
  show "post (case r of Inr _ \<Rightarrow> abind (eval_symlinks env (elems p)) (\<lambda>c. ret (c, True))
     | Inl e \<Rightarrow> (if e \<noteq> NotExist then raise e
         else climb env (clean p) (tl (rev (elems p))) [last (elems p)])) u
     (\<lambda>r v. same w v \<and> (\<forall>q. r = Inr q \<longrightarrow> canonical_text (w_tree w) (fst q)))"
    using found up r by (cases r) auto
qed

lemma go_abs_law:
  assumes "is_abs (en_cwd env)"
  shows "post (go_abs env p) w (\<lambda>r v. same w v \<and> (\<forall>q. r = Inr q \<longrightarrow> is_abs q))"
  by (rule postI, rename_tac r v, case_tac r)
     (auto simp: go_abs_def act_simps path_join_abs [OF assms] split: if_splits option.splits)

lemma resolve_file_law:
  assumes "is_abs (en_cwd env)"
  shows "post (resolve_file_path_from env root path) w
           (\<lambda>r v. same w v \<and> (\<forall>q. r = Inr q \<longrightarrow> canonical_text (w_tree w) (rp_canonical q)))"
  unfolding resolve_file_path_from_def Let_def
proof (rule post_abind [OF go_abs_law [OF assms]])
  fix a u
  assume "same w u \<and> (\<forall>q. Inr a = Inr q \<longrightarrow> is_abs q)"
  then have u: "same w u" "is_abs a" by auto
  show "post (abind (resolve_abs_path env a) (\<lambda>(canonical, leaf). ret \<lparr>rp_original =
      (if root \<noteq> [] \<and> \<not> is_abs path then path_join [root, path] else path), rp_abs = a, rp_canonical = canonical, rp_leaf_exists = leaf\<rparr>)) u
      (\<lambda>r v. same w v \<and> (\<forall>q. r = Inr q \<longrightarrow> canonical_text (w_tree w) (rp_canonical q)))"
    by (rule post_abind [OF resolve_abs_law [OF u(2)]])
       (use u(1) same_trans in \<open>auto simp: same_def split: prod.splits\<close>)
qed auto

end
