(* ===== verification/Preimages.thy ===== *)
theory Preimages
  imports Canonical_Path
begin

text \<open>
  What a group would bring back: for every file the preimage it holds, and the current content of a file it does not
  hold. Each operation of the snapshot store is shown to keep it, given what the transaction around the operation
  knows of the entry.
\<close>

section \<open>What a group would bring back\<close>

definition meta_of :: "world \<Rightarrow> string \<Rightarrow> string \<Rightarrow> snapshot_meta option" where
  "meta_of w d i = Option.bind (entry_of w d i) en_meta"

definition entry_preimage :: "snapshot_entry_dir option \<Rightarrow> string \<Rightarrow> string option option" where
  "entry_preimage e p =
     (case e of
        None \<Rightarrow> None
      | Some e \<Rightarrow>
          (case en_meta e of
             None \<Rightarrow> None
           | Some m \<Rightarrow> if canonical_path m = p then Some (if existed m then en_original e else None) else None))"

definition preimage :: "env \<Rightarrow> string \<Rightarrow> world \<Rightarrow> string list \<Rightarrow> string option option" where
  "preimage env d w es = entry_preimage (entry_of w d (en_path_hash env (show_path es))) (show_path es)"

definition restore_target :: "env \<Rightarrow> string \<Rightarrow> world \<Rightarrow> string list \<Rightarrow> string option" where
  "restore_target env d w es = (case preimage env d w es of Some x \<Rightarrow> x | None \<Rightarrow> file_at w es)"

text \<open>The entries are filed under the digests of their paths, and the paths are among those in play.\<close>

definition sound_group :: "env \<Rightarrow> string set \<Rightarrow> string \<Rightarrow> world \<Rightarrow> bool" where
  "sound_group env P d w \<longleftrightarrow>
     (\<forall>i m. meta_of w d i = Some m \<longrightarrow> canonical_path m \<in> P \<and> i = en_path_hash env (canonical_path m))"

definition ids_of :: "env \<Rightarrow> string list set \<Rightarrow> string set" where
  "ids_of env F = (\<lambda>es. en_path_hash env (show_path es)) ` F"

text \<open>The relation that every call is to keep between its first world and any later one: the targets of the group, the
  other groups, the soundness of the group, the shape of the tree, and all files and entries but those of \<open>F\<close>.\<close>

definition keeps :: "env \<Rightarrow> string set \<Rightarrow> string \<Rightarrow> string list set \<Rightarrow> world \<Rightarrow> world \<Rightarrow> bool" where
  "keeps env P d F w v \<longleftrightarrow>
     (\<forall>es. plain es \<longrightarrow> restore_target env d v es = restore_target env d w es) \<and>
     (\<forall>d'. d' \<noteq> d \<longrightarrow> w_groups v d' = w_groups w d') \<and>
     (sound_group env P d w \<longrightarrow> sound_group env P d v) \<and>
     (wf_tree (w_tree w) \<longrightarrow> wf_tree (w_tree v)) \<and>
     (\<forall>es. plain es \<longrightarrow> es \<notin> F \<longrightarrow> file_at v es = file_at w es) \<and>
     (\<forall>j. j \<notin> ids_of env F \<longrightarrow> entry_of v d j = entry_of w d j)"

lemma keeps_refl [simp]: "keeps env P d F w w"
  by (simp add: keeps_def)

lemma keeps_trans: "keeps env P d F w u \<Longrightarrow> keeps env P d F u v \<Longrightarrow> keeps env P d F w v"
  by (simp add: keeps_def)

lemma keeps_mono: "keeps env P d F w v \<Longrightarrow> F \<subseteq> G \<Longrightarrow> keeps env P d G w v"
proof -
  assume k: "keeps env P d F w v" and "F \<subseteq> G"
  then have "ids_of env F \<subseteq> ids_of env G" by (auto simp: ids_of_def)
  with k \<open>F \<subseteq> G\<close> show ?thesis unfolding keeps_def by (metis subsetD)
qed

lemma keepsD:
  assumes "keeps env P d F w v"
  shows "plain es \<Longrightarrow> restore_target env d v es = restore_target env d w es"
    and "d' \<noteq> d \<Longrightarrow> w_groups v d' = w_groups w d'"
    and "sound_group env P d w \<Longrightarrow> sound_group env P d v"
    and "wf_tree (w_tree w) \<Longrightarrow> wf_tree (w_tree v)"
    and "plain es \<Longrightarrow> es \<notin> F \<Longrightarrow> file_at v es = file_at w es"
    and "j \<notin> ids_of env F \<Longrightarrow> entry_of v d j = entry_of w d j"
  using assms by (simp_all add: keeps_def)

section \<open>Steps on the tree\<close>

lemma same_preimage: "w_groups v = w_groups w \<Longrightarrow> preimage env d v es = preimage env d w es"
  by (simp add: preimage_def entry_of_def group_entries_def)

lemma same_entries: "w_groups v = w_groups w \<Longrightarrow> entry_of v d i = entry_of w d i"
  by (simp add: entry_of_def group_entries_def)

lemma same_meta: "w_groups v = w_groups w \<Longrightarrow> meta_of v d i = meta_of w d i"
  by (simp add: meta_of_def entry_of_def group_entries_def)

lemma same_sound: "w_groups v = w_groups w \<Longrightarrow> sound_group env P d v = sound_group env P d w"
  unfolding sound_group_def by (simp add: same_meta [of v w])

lemma restore_target_cong:
  "preimage env d v es = preimage env d w es \<Longrightarrow> preimage env d w es = None \<longrightarrow> file_at v es = file_at w es \<Longrightarrow>
     restore_target env d v es = restore_target env d w es"
  by (simp add: restore_target_def split: option.split)

lemma grows_keeps:
  assumes "grows w v"
  shows "keeps env P d F w v"
proof -
  have g: "w_groups v = w_groups w" and wf: "wf_tree (w_tree w) \<longrightarrow> wf_tree (w_tree v)"
    using assms by (simp_all add: grows_def)
  show ?thesis
    using grows_content [OF assms] wf
    by (simp add: keeps_def restore_target_cong [OF same_preimage [OF g]] same_sound [OF g] same_entries [OF g] g)
qed

lemma same_keeps: "same w v \<Longrightarrow> keeps env P d F w v"
  by (rule grows_keeps) (rule same_grows)

text \<open>A file may change once its preimage is held.\<close>

lemma only_at_keeps:
  assumes "only_at p w v" "preimage env d w p \<noteq> None"
  shows "keeps env P d {p} w v" and "preimage env d v p = preimage env d w p"
proof -
  have g: "w_groups v = w_groups w" and wf: "wf_tree (w_tree w) \<longrightarrow> wf_tree (w_tree v)"
    using assms(1) by (simp_all add: only_at_def)
  show "preimage env d v p = preimage env d w p" by (rule same_preimage [OF g])
  have "restore_target env d v es = restore_target env d w es" for es
    using assms(2) only_at_content [OF assms(1), of es]
    by (cases "es = p") (auto intro: restore_target_cong [OF same_preimage [OF g]])
  then show "keeps env P d {p} w v"
    using wf only_at_content [OF assms(1)] by (simp add: keeps_def same_sound [OF g] same_entries [OF g] g)
qed

section \<open>Steps on an entry\<close>

definition entry_step :: "string \<Rightarrow> string \<Rightarrow> world \<Rightarrow> world \<Rightarrow> bool" where
  "entry_step d i w v \<longleftrightarrow>
     w_tree v = w_tree w \<and> (\<forall>d'. d' \<noteq> d \<longrightarrow> w_groups v d' = w_groups w d') \<and>
     (\<forall>j. j \<noteq> i \<longrightarrow> entry_of v d j = entry_of w d j)"

lemma entry_step_refl [simp]: "entry_step d i w w"
  by (simp add: entry_step_def)

lemma same_entry_step: "same w v \<Longrightarrow> entry_step d i w v"
  by (simp add: same_def entry_step_def entry_of_def group_entries_def)

lemma same_entry: "same w v \<Longrightarrow> entry_of v d i = entry_of w d i"
  by (simp add: same_def entry_of_def group_entries_def)

lemma entry_step_trans: "entry_step d i w u \<Longrightarrow> entry_step d i u v \<Longrightarrow> entry_step d i w v"
  by (simp add: entry_step_def)

lemma entry_step_file: "entry_step d i w v \<Longrightarrow> file_at v es = file_at w es"
  by (simp add: entry_step_def file_at_def)

lemma entry_of_set [simp]: "entry_of (set_entry d i e w) d j = (if j = i then Some e else entry_of w d j)"
  by (simp add: entry_of_def set_entry_def group_entries_def update_conv')

lemma entry_of_drop [simp]: "entry_of (drop_entry d i w) d j = (if j = i then None else entry_of w d j)"
  by (auto simp: entry_of_def drop_entry_def group_entries_def delete_conv' split: option.splits)

lemma set_entry_step [simp]: "entry_step d i w (set_entry d i e w)"
  by (simp add: entry_step_def) (simp add: set_entry_def)

lemma drop_entry_step [simp]: "entry_step d i w (drop_entry d i w)"
  by (simp add: entry_step_def) (simp add: drop_entry_def)

lemma clock_entry [simp]: "entry_of (w\<lparr>w_now := n\<rparr>) d i = entry_of w d i"
  by (simp add: entry_of_def group_entries_def)

lemma entry_step_clock [simp]: "entry_step d i (w\<lparr>w_now := n\<rparr>) v \<longleftrightarrow> entry_step d i w v"
  by (simp add: entry_step_def entry_of_def group_entries_def)

lemma entry_step_clocks [simp]:
  "entry_step d i w (w\<lparr>w_now := n\<rparr>)" "entry_step d i w (set_entry d i e (w\<lparr>w_now := n\<rparr>))"
  "entry_step d i w (drop_entry d i (w\<lparr>w_now := n\<rparr>))"
  using set_entry_step [of d i "w\<lparr>w_now := n\<rparr>" e] drop_entry_step [of d i "w\<lparr>w_now := n\<rparr>"]
    entry_step_refl [of d i "w\<lparr>w_now := n\<rparr>"]
  by (simp_all only: entry_step_clock)

text \<open>What an entry brings back may only change when the group is left with the same target.\<close>

lemma entry_step_keeps:
  assumes step: "entry_step d i w v" and mine: "i \<in> ids_of env F"
    and same: "\<And>es. plain es \<Longrightarrow> en_path_hash env (show_path es) = i \<Longrightarrow>
        restore_target env d v es = restore_target env d w es"
    and sound: "\<And>m. meta_of v d i = Some m \<Longrightarrow> sound_group env P d w \<Longrightarrow> canonical_path m \<in> P \<and> i = en_path_hash env (canonical_path m)"
  shows "keeps env P d F w v"
proof -
  have t: "w_tree v = w_tree w" and o: "d' \<noteq> d \<Longrightarrow> w_groups v d' = w_groups w d'"
    and e: "j \<noteq> i \<Longrightarrow> entry_of v d j = entry_of w d j" for d' j
    using step by (simp_all add: entry_step_def)
  have "restore_target env d v es = restore_target env d w es" if "plain es" for es
  proof (cases "en_path_hash env (show_path es) = i")
    case False
    then show ?thesis
      using e [OF False] t by (intro restore_target_cong) (simp_all add: preimage_def file_at_def)
  qed (rule same [OF that])
  moreover have "sound_group env P d v" if s: "sound_group env P d w"
    unfolding sound_group_def
  proof (intro allI impI)
    fix j m assume m: "meta_of v d j = Some m"
    show "canonical_path m \<in> P \<and> j = en_path_hash env (canonical_path m)"
    proof (cases "j = i")
      case True
      with sound m s show ?thesis by simp
    next
      case False
      then have "meta_of w d j = Some m" using m e by (simp add: meta_of_def)
      with s show ?thesis by (simp add: sound_group_def)
    qed
  qed
  moreover have "entry_of v d j = entry_of w d j" if "j \<notin> ids_of env F" for j
    using e [of j] that mine by blast
  ultimately show ?thesis
    using t o by (simp add: keeps_def file_at_def)
qed

text \<open>The entry of one file: its digest, and that no other file of the group is filed under it.\<close>

lemma entry_same_meta_keeps:
  assumes step: "entry_step d i w v" and mine: "i \<in> ids_of env F"
    and pre: "\<And>p. entry_preimage (entry_of v d i) p = entry_preimage (entry_of w d i) p"
    and metas: "\<And>m. meta_of v d i = Some m \<Longrightarrow> \<exists>m'. meta_of w d i = Some m' \<and> canonical_path m' = canonical_path m"
  shows "keeps env P d F w v" and "preimage env d v es = preimage env d w es"
proof -
  have p: "preimage env d v es = preimage env d w es" for es
    using step pre by (cases "en_path_hash env (show_path es) = i") (simp_all add: preimage_def entry_step_def)
  then show "preimage env d v es = preimage env d w es" .
  show "keeps env P d F w v"
  proof (rule entry_step_keeps [OF step mine])
    show "restore_target env d v es = restore_target env d w es" for es
      using p entry_step_file [OF step] by (intro restore_target_cong) simp_all
    show "canonical_path m \<in> P \<and> i = en_path_hash env (canonical_path m)"
      if "meta_of v d i = Some m" "sound_group env P d w" for m
      using metas [OF that(1)] that(2) unfolding sound_group_def by metis
  qed
qed

section \<open>The operations of the store\<close>

text \<open>A failed removal never loses the preimage of an entry that it leaves in place.\<close>

definition clean_removal :: "env \<Rightarrow> bool" where
  "clean_removal env \<longleftrightarrow> (\<forall>t. en_fault env RemoveEntry t \<noteq> Some 1)"

lemma remove_entry_dir_law:
  assumes "clean_removal env"
  shows "post (remove_entry_dir env d i) w (\<lambda>r v. entry_step d i w v \<and>
     (entry_of v d i = entry_of w d i \<or> meta_of v d i = None) \<and> (r = Inr () \<longrightarrow> entry_of v d i = None))"
proof (rule postI)
  fix r v
  assume run: "remove_entry_dir env d i w = (r, v)"
  have "en_fault env RemoveEntry (w_now w) \<noteq> Some 1" using assms by (simp add: clean_removal_def)
  with run show "entry_step d i w v \<and> (entry_of v d i = entry_of w d i \<or> meta_of v d i = None) \<and>
      (r = Inr () \<longrightarrow> entry_of v d i = None)"
    by (cases r)
       (auto simp: remove_entry_dir_def act_simps meta_of_def split: option.splits if_splits)
qed

lemma read_meta_law:
  "post (read_meta env d i) w (\<lambda>r v. same w v \<and> (\<forall>m. r = Inr m \<longrightarrow> meta_of w d i = Some m))"
  by (rule postI, rename_tac r v, case_tac r)
     (auto simp: read_meta_def act_simps meta_of_def split: option.splits)

lemma write_meta_law:
  "post (write_meta env d i m) w (\<lambda>r v. entry_step d i w v \<and>
     ((\<exists>e. r = Inl e) \<longrightarrow> same w v) \<and>
     (r = Inr () \<longrightarrow> (\<exists>e. entry_of w d i = Some e \<and> entry_of v d i = Some (e\<lparr>en_meta := Some m\<rparr>))))"
  by (rule postI, rename_tac r v, case_tac r)
     (auto simp: write_meta_def act_simps split: option.splits)

lemma make_entry_law:
  "post (make_entry env d i) w (\<lambda>r v. entry_step d i w v \<and>
     (r = Inr () \<longrightarrow> entry_of v d i = Some (case entry_of w d i of Some e \<Rightarrow> e | None \<Rightarrow> no_files)) \<and>
     (r \<noteq> Inr () \<longrightarrow> same w v))"
  by (rule postI, rename_tac r v, case_tac r)
     (auto simp: make_entry_def act_simps split: option.splits)

lemma copy_original_law:
  assumes "node_at (w_tree w) h = Some (Plain s)" "entry_of w d i = Some e"
  shows "post (copy_original env d i h) w (\<lambda>r v. entry_step d i w v \<and>
     (\<exists>x. entry_of v d i = Some (e\<lparr>en_original := Some x\<rparr>)) \<and>
     (r = Inr () \<longrightarrow> entry_of v d i = Some (e\<lparr>en_original := Some s\<rparr>)))"
proof (rule postI)
  fix r v
  assume run: "copy_original env d i h w = (r, v)"
  show "entry_step d i w v \<and> (\<exists>x. entry_of v d i = Some (e\<lparr>en_original := Some x\<rparr>)) \<and>
      (r = Inr () \<longrightarrow> entry_of v d i = Some (e\<lparr>en_original := Some s\<rparr>))"
    using run assms
    by (cases r) (auto simp: copy_original_def act_simps Let_def split: option.splits)
qed

section \<open>Capturing\<close>

text \<open>\<open>os.Stat\<close> of the entry's metadata never fails but for its absence.\<close>

definition steady_stat :: "env \<Rightarrow> bool" where
  "steady_stat env \<longleftrightarrow> (\<forall>t. en_fault env StatMeta t = None)"

lemma entry_preimage_no_meta: "Option.bind e en_meta = None \<Longrightarrow> entry_preimage e p = None"
  by (cases e) (auto simp: entry_preimage_def)

lemma write_capture_law:
  assumes e: "entry_of w d i = Some e" "en_meta e = None" and m: "canonical_path m = c"
    and pre: "(if existed m then en_original e else None) = x"
  shows "post (write_meta env d i m) w (\<lambda>r v. entry_step d i w v \<and>
     (r = Inr () \<longrightarrow> meta_of v d i = Some m \<and> entry_preimage (entry_of v d i) c = Some x) \<and>
     (r \<noteq> Inr () \<longrightarrow> meta_of v d i = None))"
proof (rule post_mono [OF write_meta_law])
  fix r v
  assume r: "entry_step d i w v \<and> ((\<exists>e. r = Inl e) \<longrightarrow> same w v) \<and>
     (r = Inr () \<longrightarrow> (\<exists>e. entry_of w d i = Some e \<and> entry_of v d i = Some (e\<lparr>en_meta := Some m\<rparr>)))"
  show "entry_step d i w v \<and>
     (r = Inr () \<longrightarrow> meta_of v d i = Some m \<and> entry_preimage (entry_of v d i) c = Some x) \<and>
     (r \<noteq> Inr () \<longrightarrow> meta_of v d i = None)"
  proof (cases r)
    case (Inl err)
    with r have "entry_of v d i = Some e" using e(1) same_entry [of w v d i] by auto
    with r Inl e(2) show ?thesis by (simp add: meta_of_def)
  next
    case (Inr y)
    with r e(1) have "entry_of v d i = Some (e\<lparr>en_meta := Some m\<rparr>)" by auto
    with r Inr m pre show ?thesis by (auto simp: meta_of_def entry_preimage_def)
  qed
qed

lemma capture_entry_law:
  assumes e: "entry_of w d i = Some e" "en_meta e = None" and wf: "wf_tree (w_tree w)"
  shows "post (capture_entry env d i original c real) w (\<lambda>r v. entry_step d i w v \<and>
     (r = Inr () \<longrightarrow> (\<exists>m. meta_of v d i = Some m \<and> canonical_path m = real) \<and>
        entry_preimage (entry_of v d i) real = Some (file_at w (elems c))) \<and>
     (r \<noteq> Inr () \<longrightarrow> meta_of v d i = None))"
  (is "post _ w ?Q")
proof -
  let ?meta = "\<lambda>b. \<lparr>original_path = original, canonical_path = real, existed = b, last_write = None\<rparr>"
  let ?stat = "\<lambda>h. checked env StatFile (asks (\<lambda>w.
               case node_at (w_tree w) h of
                 Some n \<Rightarrow> if is_regular n then Inr () else Inl (NonRegular c)
               | None \<Rightarrow> Inl (NonRegular c)))"
  have none: "meta_of v d i = None" if "same w v" for v
    using e same_entry [OF that, of d i] by (simp add: meta_of_def)
  have stat: "post (?stat h) u (\<lambda>r v. same u v)" for h u
    by (rule post_same) (auto intro!: reads_checked)
  have missing: "post (write_meta env d i (?meta False)) u ?Q" if "same w u" "node_at (w_tree w) (elems c) = None" for u
  proof (rule post_mono [OF write_capture_law [where e = e and c = real and x = None]])
    show "entry_of u d i = Some e" using e(1) same_entry [OF that(1)] by simp
  qed (use that e(2) entry_step_trans [OF same_entry_step [OF that(1)]] in \<open>auto simp: file_at_def\<close>)
  have present: "post (abind (?stat h) (\<lambda>_. abind (copy_original env d i h) (\<lambda>_. write_meta env d i (?meta True)))) u ?Q"
    if u: "same w u" and h: "h = elems c" "node_at (w_tree w) h = Some (Plain s)" for u h s
  proof (rule post_abind [OF stat])
    fix a x
    assume "same u x"
    then have wx: "same w x" by (rule same_trans [OF u])
    then have x: "node_at (w_tree x) h = Some (Plain s)" "entry_of x d i = Some e"
      using h(2) e(1) same_entry [OF wx] by (simp_all add: same_def)
    show "post (abind (copy_original env d i h) (\<lambda>_. write_meta env d i (?meta True))) x ?Q"
    proof (rule post_abind [OF copy_original_law [OF x]])
      fix a y
      assume y: "entry_step d i x y \<and> (\<exists>z. entry_of y d i = Some (e\<lparr>en_original := Some z\<rparr>)) \<and>
        (Inr a = Inr () \<longrightarrow> entry_of y d i = Some (e\<lparr>en_original := Some s\<rparr>))"
      show "post (write_meta env d i (?meta True)) y ?Q"
      proof (rule post_mono [OF write_capture_law [where e = "e\<lparr>en_original := Some s\<rparr>" and c = real and x = "Some s"]])
        show "entry_of y d i = Some (e\<lparr>en_original := Some s\<rparr>)" using y by simp
      qed (use y e(2) h entry_step_trans [OF entry_step_trans [OF same_entry_step [OF wx]]] in \<open>auto simp: file_at_def\<close>)
    next
      fix err :: file_error and y
      assume y: "entry_step d i x y \<and> (\<exists>z. entry_of y d i = Some (e\<lparr>en_original := Some z\<rparr>)) \<and>
        (Inl err = Inr () \<longrightarrow> entry_of y d i = Some (e\<lparr>en_original := Some s\<rparr>))"
      then show "?Q (Inl err) y"
        using e(2) entry_step_trans [OF same_entry_step [OF wx]] by (auto simp: meta_of_def)
    qed
  next
    fix err :: file_error and x
    assume "same u x"
    then have "same w x" by (rule same_trans [OF u])
    then show "?Q (Inl err) x" using none same_entry_step by simp
  qed
  show ?thesis
    unfolding capture_entry_def
  proof (rule post_try_bind [OF open_existing_law])
    fix r u
    assume r: "same w u \<and>
       (\<forall>h. r = Inr h \<longrightarrow> h = elems c \<and> h \<noteq> [] \<and> (\<exists>s. node_at (w_tree w) h = Some (Plain s))) \<and>
       (r = Inl NotExist \<longrightarrow> wf_tree (w_tree w) \<longrightarrow> node_at (w_tree w) (elems c) = None)"
    show "post (case r of
         Inl e \<Rightarrow> (if e \<noteq> NotExist then raise e else write_meta env d i (?meta False))
       | Inr h \<Rightarrow> abind (?stat h) (\<lambda>_. abind (copy_original env d i h) (\<lambda>_. write_meta env d i (?meta True)))) u ?Q"
    proof (cases r)
      case (Inl err)
      then show ?thesis using r wf missing none [of u] same_entry_step [of w u d i] by auto
    next
      case (Inr h)
      with r obtain s where h: "h = elems c" "node_at (w_tree w) h = Some (Plain s)" by auto
      have wu: "same w u" using r by (rule conjunct1)
      show ?thesis using present [OF wu h] by (simp add: Inr)
    qed
  qed
qed

text \<open>What is asked of the environment of a call: an absolute working directory, no failing \<open>Stat\<close> of metadata, no removal
  that loses a preimage only, and no two paths in play with one digest. Any other call may fail at any time.\<close>

definition steady :: "env \<Rightarrow> string set \<Rightarrow> bool" where
  "steady env P \<longleftrightarrow>
     is_abs (en_cwd env) \<and> clean_removal env \<and> steady_stat env \<and> inj_on (en_path_hash env) P"

lemma held_keeps:
  assumes step: "entry_step d i w v" and none: "meta_of w d i = None"
    and new: "meta_of v d i = None \<or>
       (\<exists>m. meta_of v d i = Some m \<and> canonical_path m = show_path p) \<and>
       entry_preimage (entry_of v d i) (show_path p) = Some (file_at w p)"
    and i: "i = en_path_hash env (show_path p)" and p: "plain p" "show_path p \<in> P" "p \<in> F"
  shows "keeps env P d F w v"
proof (rule entry_step_keeps [OF step])
  show "i \<in> ids_of env F" using i p(3) by (simp add: ids_of_def)
next
  fix es
  assume es: "plain es" "en_path_hash env (show_path es) = i"
  have before: "preimage env d w es = None"
    using none es by (simp add: preimage_def meta_of_def entry_preimage_no_meta)
  have unch: "file_at v es = file_at w es" by (rule entry_step_file [OF step])
  show "restore_target env d v es = restore_target env d w es"
  proof (cases "meta_of v d i = None")
    case True
    then have "preimage env d v es = None" using es by (simp add: preimage_def meta_of_def entry_preimage_no_meta)
    with before unch show ?thesis by (simp add: restore_target_def)
  next
    case False
    with new obtain m where m: "meta_of v d i = Some m" "canonical_path m = show_path p"
      "entry_preimage (entry_of v d i) (show_path p) = Some (file_at w p)" by auto
    show ?thesis
    proof (cases "es = p")
      case True
      then have "preimage env d v es = Some (file_at w p)" using m es by (simp add: preimage_def)
      with before True show ?thesis by (simp add: restore_target_def)
    next
      case False
      then have "show_path es \<noteq> show_path p" using show_inj es(1) p(1) by simp
      then have "preimage env d v es = None"
        using m es(2) by (auto simp: preimage_def meta_of_def entry_preimage_def split: option.splits)
      with before unch show ?thesis by (simp add: restore_target_def)
    qed
  qed
next
  fix m
  assume "meta_of v d i = Some m"
  with new i p(2) show "canonical_path m \<in> P \<and> i = en_path_hash env (canonical_path m)" by auto
qed

lemma eval_canonical_law:
  assumes "canonical_text (w_tree w) c"
  shows "post (eval_symlinks env (elems c)) w (\<lambda>r v. same w v \<and> (\<forall>q. r = Inr q \<longrightarrow> q = c))"
proof (rule post_mono [OF eval_symlinks_post])
  fix r v
  assume r: "same w v \<and> (\<forall>p. r = Inr p \<longrightarrow>
    (\<exists>ds. walk_links (w_tree w) 255 [] (elems c) = Inr ds \<and> p = show_path ds))"
  have "canonical_in (w_tree w) (elems c)" by (rule canonical_textD [OF assms])
  then have c: "case walk_links (w_tree w) 255 [] (elems c) of Inl _ \<Rightarrow> True | Inr r \<Rightarrow> r = elems c"
    unfolding canonical_in_def by (rule spec)
  show "same w v \<and> (\<forall>q. r = Inr q \<longrightarrow> q = c)"
    using r c canonical_textD(2) [OF assms] by auto
qed

lemma held_meta:
  assumes "steady env P" "sound_group env P d w" "c \<in> P" "meta_of w d (en_path_hash env c) = Some m"
  shows "canonical_path m = c"
  using assms unfolding steady_def sound_group_def by (metis inj_onD)

lemma snapshot_resolved_entry_law:
  assumes st: "steady env P" and sound: "sound_group env P d w" and wf: "wf_tree (w_tree w)"
    and c: "canonical_text (w_tree w) c" "c \<in> P" "elems c \<in> F"
  shows "post (snapshot_resolved_entry env d original c) w (\<lambda>r v. keeps env P d F w v \<and> w_tree v = w_tree w \<and>
     (\<forall>i created. r = Inr (i, created) \<longrightarrow> i = en_path_hash env c \<and> preimage env d v (elems c) \<noteq> None \<and>
        (created \<longrightarrow> preimage env d v (elems c) = Some (file_at w (elems c)))))"
  (is "post _ w ?Q")
proof -
  let ?i = "en_path_hash env c"
  have show_c: "show_path (elems c) = c" using canonical_textD(2) [OF c(1)] by simp
  have plain_c: "plain (elems c)" by (rule canonical_textD(3) [OF c(1)])
  have clean: "clean_removal env" and stat: "\<And>t. en_fault env StatMeta t = None"
    using st by (simp_all add: steady_def steady_stat_def)
  have quiet: "keeps env P d F w v \<and> w_tree v = w_tree w" if "same w v" for v
    using that same_keeps by (simp add: same_def)
  let ?capture = "abind (make_entry env d ?i) (\<lambda>_.
      abind (or_else (capture_entry env d ?i original c c)
               (\<lambda>e. abind (try_act (remove_entry_dir env d ?i)) (\<lambda>_. raise e)))
        (\<lambda>_. ret (?i, True)))"
  have fresh: "post ?capture u ?Q" if wu: "same w u" and none: "meta_of w d ?i = None" for u
  proof (rule post_abind [OF make_entry_law])
    fix a x
    assume x: "entry_step d ?i u x \<and>
      (Inr a = Inr () \<longrightarrow> entry_of x d ?i = Some (case entry_of u d ?i of Some e \<Rightarrow> e | None \<Rightarrow> no_files)) \<and>
      (Inr a \<noteq> Inr () \<longrightarrow> same u x)"
    then obtain e where e: "entry_of x d ?i = Some e" "en_meta e = None"
      using none same_entry [OF wu, of d ?i] by (auto simp: meta_of_def no_files_def split: option.splits)
    have wx: "entry_step d ?i w x" using entry_step_trans [OF same_entry_step [OF wu]] x by blast
    have wfx: "wf_tree (w_tree x)" and fx: "file_at x (elems c) = file_at w (elems c)"
      using wf wx entry_step_file by (simp_all add: entry_step_def file_at_def)
    let ?R = "\<lambda>r v. entry_step d ?i w v \<and>
       (r = Inr () \<longrightarrow> (\<exists>m. meta_of v d ?i = Some m \<and> canonical_path m = c) \<and>
          entry_preimage (entry_of v d ?i) c = Some (file_at w (elems c))) \<and>
       (r \<noteq> Inr () \<longrightarrow> meta_of v d ?i = None)"
    have body: "post (capture_entry env d ?i original c c) x ?R"
      by (rule post_mono [OF capture_entry_law [OF e wfx]]) (use entry_step_trans [OF wx] fx in auto)
    have cleaned: "post (or_else (capture_entry env d ?i original c c)
          (\<lambda>e. abind (try_act (remove_entry_dir env d ?i)) (\<lambda>_. raise e))) x ?R"
    proof (rule post_or_else [OF body])
      fix err :: file_error and v
      assume v: "?R (Inl err) v"
      show "post (abind (try_act (remove_entry_dir env d ?i)) (\<lambda>_. raise err)) v ?R"
        by (rule post_try_bind [OF remove_entry_dir_law [OF clean]])
           (use v entry_step_trans in \<open>auto simp: meta_of_def\<close>)
    qed
    show "post (abind (or_else (capture_entry env d ?i original c c)
               (\<lambda>e. abind (try_act (remove_entry_dir env d ?i)) (\<lambda>_. raise e))) (\<lambda>_. ret (?i, True))) x ?Q"
    proof (rule post_abind [OF cleaned])
      fix err :: file_error and v
      assume v: "?R (Inl err) v"
      have "keeps env P d F w v"
        by (rule held_keeps [where i = ?i and p = "elems c"])
           (use v none show_c plain_c c(2,3) in auto)
      then show "?Q (Inl err) v" using v by (simp add: entry_step_def)
    next
      fix b v
      assume v: "?R (Inr b) v"
      have "keeps env P d F w v"
        by (rule held_keeps [where i = ?i and p = "elems c"])
           (use v none show_c plain_c c(2,3) in auto)
      then show "post (ret (?i, True)) v ?Q" using v show_c by (simp add: entry_step_def preimage_def)
    qed
  next
    fix err :: file_error and x
    assume "entry_step d ?i u x \<and> (Inl err = Inr () \<longrightarrow>
        entry_of x d ?i = Some (case entry_of u d ?i of Some e \<Rightarrow> e | None \<Rightarrow> no_files)) \<and>
      ((Inl err :: file_error + unit) \<noteq> Inr () \<longrightarrow> same u x)"
    then have "same w x" using same_trans [OF wu] by simp
    from quiet [OF this] show "?Q (Inl err) x" by simp
  qed
  show ?thesis
    unfolding snapshot_resolved_entry_def Let_def
  proof (rule post_try_bind [OF eval_canonical_law [OF c(1)]])
    fix q u
    assume q: "same w u \<and> (\<forall>p. q = Inr p \<longrightarrow> p = c)"
    have real: "(case q of Inr p \<Rightarrow> p | Inl _ \<Rightarrow> c) = c" using q by (cases q) auto
    show "post (abind (try_act (os_lstat env (elems c))) (\<lambda>l.
            if (case l of Inr n \<Rightarrow> \<not> is_regular n | Inl e \<Rightarrow> e \<noteq> NotExist)
            then raise (case l of Inr n \<Rightarrow> NonRegular c | Inl e \<Rightarrow> e)
            else
              abind (try_act (checked env StatMeta (asks (\<lambda>w.
                  case Option.bind (entry_of w d (en_path_hash env (case q of Inr p \<Rightarrow> p | Inl _ \<Rightarrow> c))) en_meta of
                    None \<Rightarrow> Inl NotExist | Some m \<Rightarrow> Inr ())))) (\<lambda>s.
                case s of
                  Inr _ \<Rightarrow> ret (en_path_hash env (case q of Inr p \<Rightarrow> p | Inl _ \<Rightarrow> c), False)
                | Inl _ \<Rightarrow>
                    abind (make_entry env d (en_path_hash env (case q of Inr p \<Rightarrow> p | Inl _ \<Rightarrow> c))) (\<lambda>_.
                    abind (or_else (capture_entry env d (en_path_hash env (case q of Inr p \<Rightarrow> p | Inl _ \<Rightarrow> c)) original c
                                (case q of Inr p \<Rightarrow> p | Inl _ \<Rightarrow> c))
                             (\<lambda>e. abind (try_act (remove_entry_dir env d
                                (en_path_hash env (case q of Inr p \<Rightarrow> p | Inl _ \<Rightarrow> c)))) (\<lambda>_. raise e)))
                      (\<lambda>_. ret (en_path_hash env (case q of Inr p \<Rightarrow> p | Inl _ \<Rightarrow> c), True)))))) u ?Q"
      unfolding real
    proof (rule post_try_bind [OF post_same [OF reads_lstat]])
      fix l x
      assume "same u x"
      then have wx: "same w x" using q same_trans by blast
      let ?stat = "checked env StatMeta (asks (\<lambda>w.
                  case Option.bind (entry_of w d ?i) en_meta of None \<Rightarrow> Inl NotExist | Some m \<Rightarrow> Inr ()))"
      have look: "post ?stat x (\<lambda>r v. same x v \<and> (r = Inr () \<longleftrightarrow> meta_of x d ?i \<noteq> None))"
        by (rule postI, rename_tac r v, case_tac r)
           (auto simp: act_simps stat meta_of_def split: option.splits)
      have "post (abind (try_act ?stat) (\<lambda>s. case s of Inr _ \<Rightarrow> ret (?i, False) | Inl _ \<Rightarrow> ?capture)) x ?Q"
      proof (rule post_try_bind [OF look])
        fix s y
        assume s: "same x y \<and> (s = Inr () \<longleftrightarrow> meta_of x d ?i \<noteq> None)"
        then have wy: "same w y" and metas: "meta_of x d ?i = meta_of w d ?i"
          using same_trans [OF wx] same_entry [OF wx, of d ?i] by (auto simp: meta_of_def)
        show "post (case s of Inr _ \<Rightarrow> ret (?i, False) | Inl _ \<Rightarrow> ?capture) y ?Q"
        proof (cases s)
          case (Inl err)
          then have "meta_of w d ?i = None" using s metas by auto
          with fresh [OF wy] Inl show ?thesis by simp
        next
          case (Inr z)
          then obtain m where m: "meta_of w d ?i = Some m" using s metas by auto
          then have "canonical_path m = c" by (rule held_meta [OF st sound c(2)])
          moreover have "preimage env d y (elems c) = preimage env d w (elems c)"
            by (rule same_preimage) (use wy in \<open>simp add: same_def\<close>)
          ultimately have "preimage env d y (elems c) \<noteq> None"
            using m show_c by (auto simp: preimage_def meta_of_def entry_preimage_def split: option.splits)
          with Inr quiet [OF wy] show ?thesis by simp
        qed
      qed
      then show "post (if (case l of Inr n \<Rightarrow> \<not> is_regular n | Inl e \<Rightarrow> e \<noteq> NotExist)
            then raise (case l of Inr n \<Rightarrow> NonRegular c | Inl e \<Rightarrow> e)
            else abind (try_act ?stat) (\<lambda>s. case s of Inr _ \<Rightarrow> ret (?i, False) | Inl _ \<Rightarrow> ?capture)) x ?Q"
        using quiet [OF wx] by simp
    qed
  qed
qed

end
