(* ===== verification/Mutation_Safe.thy ===== *)
theory Mutation_Safe
  imports Preimages
begin

text \<open>
  The snapshot transaction keeps what a group would bring back: around every mutation of \<open>write_file\<close>, \<open>edit_file\<close> and
  \<open>apply_patch\<close>, whichever calls of the operating system fail. A mutation touches only the canonical file that was bound
  when the call was authorised.
\<close>

section \<open>Proof records\<close>

text \<open>Nothing but the identities changes.\<close>

definition undisturbed :: "env \<Rightarrow> string set \<Rightarrow> string \<Rightarrow> string list set \<Rightarrow> world \<Rightarrow> world \<Rightarrow> bool" where
  "undisturbed env P d F w v \<longleftrightarrow>
     keeps env P d F w v \<and> w_tree v = w_tree w \<and> (\<forall>es. preimage env d v es = preimage env d w es)"

lemma same_undisturbed: "same w v \<Longrightarrow> undisturbed env P d F w v"
  unfolding undisturbed_def using same_keeps same_preimage [of v w env d] by (auto simp: same_def)

lemma undisturbed_trans:
  "undisturbed env P d F w u \<Longrightarrow> undisturbed env P d F u v \<Longrightarrow> undisturbed env P d F w v"
  unfolding undisturbed_def using keeps_trans by auto

lemma undisturbed_keeps: "undisturbed env P d F w v \<Longrightarrow> keeps env P d F w v"
  by (simp add: undisturbed_def)

lemma undisturbed_file: "undisturbed env P d F w v \<Longrightarrow> file_at v es = file_at w es"
  by (simp add: undisturbed_def file_at_def)

lemma replace_identity_law:
  assumes mine: "i \<in> ids_of env F"
  shows "post (replace_identity env d i ident) w (\<lambda>r v. undisturbed env P d F w v \<and>
     (\<forall>p. r = Inr p \<longrightarrow> (\<exists>m. meta_of w d i = Some m \<and> meta_of v d i = Some (m\<lparr>last_write := ident\<rparr>))))"
  (is "post _ _ ?Q")
proof -
  have read: "post (read_meta env d i) u (\<lambda>r v. same u v \<and> (\<forall>m. r = Inr m \<longrightarrow> meta_of u d i = Some m))" for u
    by (rule read_meta_law)
  have valid: "post (validate_entry_id i) w (\<lambda>r v. same w v)"
    by (rule post_same) (simp add: validate_entry_id_def)
  show ?thesis
    unfolding replace_identity_def
  proof (rule post_abind [OF valid])
    fix a u
    assume wu: "same w u"
    show "post (abind (read_meta env d i) (\<lambda>m. abind (write_meta env d i (m\<lparr>last_write := ident\<rparr>))
        (\<lambda>_. ret (last_write m)))) u ?Q"
    proof (rule post_abind [OF read])
      fix m x
      assume m: "same u x \<and> (\<forall>m'. Inr m = Inr m' \<longrightarrow> meta_of u d i = Some m')"
      then have wx: "same w x" and old: "meta_of x d i = Some m"
        using same_trans [OF wu] same_entry [of u x d i] by (auto simp: meta_of_def)
      show "post (abind (write_meta env d i (m\<lparr>last_write := ident\<rparr>)) (\<lambda>_. ret (last_write m))) x
          ?Q"
      proof (rule post_abind [OF write_meta_law])
        fix b v
        assume v: "entry_step d i x v \<and> ((\<exists>e. Inr b = Inl e) \<longrightarrow> same x v) \<and>
          (Inr b = Inr () \<longrightarrow> (\<exists>e. entry_of x d i = Some e \<and> entry_of v d i = Some (e\<lparr>en_meta := Some (m\<lparr>last_write := ident\<rparr>)\<rparr>)))"
        then obtain e where e: "entry_of x d i = Some e"
          "entry_of v d i = Some (e\<lparr>en_meta := Some (m\<lparr>last_write := ident\<rparr>)\<rparr>)" by auto
        have em: "en_meta e = Some m" using e old by (simp add: meta_of_def)
        have step: "entry_step d i x v" using v by (rule conjunct1)
        have "keeps env P d F x v \<and> (\<forall>es. preimage env d v es = preimage env d x es)"
          by (intro conjI allI entry_same_meta_keeps [OF step mine])
             (use e em in \<open>auto simp: entry_preimage_def meta_of_def\<close>)
        then have "undisturbed env P d F x v" using step by (simp add: undisturbed_def entry_step_def)
        then have "undisturbed env P d F w v" by (rule undisturbed_trans [OF same_undisturbed [OF wx]])
        moreover have "meta_of w d i = Some m" using old same_entry [OF wx, of d i] by (simp add: meta_of_def)
        moreover have "meta_of v d i = Some (m\<lparr>last_write := ident\<rparr>)" using e(2) by (simp add: meta_of_def)
        ultimately show "post (ret (last_write m)) v ?Q" by simp
      next
        fix err :: file_error and v
        assume "entry_step d i x v \<and> ((\<exists>e. (Inl err :: file_error + unit) = Inl e) \<longrightarrow> same x v) \<and>
          (Inl err = Inr () \<longrightarrow> (\<exists>e. entry_of x d i = Some e \<and> entry_of v d i = Some (e\<lparr>en_meta := Some (m\<lparr>last_write := ident\<rparr>)\<rparr>)))"
        then have "same x v" by auto
        then have "undisturbed env P d F w v" by (intro same_undisturbed same_trans [OF wx])
        then show "?Q (Inl err) v" by simp
      qed
    next
      fix err :: file_error and x
      assume "same u x \<and> (\<forall>m'. Inl err = Inr m' \<longrightarrow> meta_of u d i = Some m')"
      then have "undisturbed env P d F w x" by (intro same_undisturbed same_trans [OF wu]) simp
      then show "?Q (Inl err) x" by simp
    qed
  qed (simp add: same_undisturbed)
qed

text \<open>What the entry says of the last write.\<close>

definition recorded :: "world \<Rightarrow> string \<Rightarrow> string \<Rightarrow> snapshot_identity \<Rightarrow> bool" where
  "recorded w d i ident \<longleftrightarrow> (\<exists>m. meta_of w d i = Some m \<and> last_write m = Some ident)"

lemma record_content_law:
  assumes "i \<in> ids_of env F"
  shows "post (record_content env d i s) w (\<lambda>r v. undisturbed env P d F w v \<and>
     (r = Inr () \<longrightarrow> recorded v d i \<lparr>si_hash = en_content_hash env s, si_absent = False\<rparr>))"
  unfolding record_content_def
  by (rule post_abind [OF replace_identity_law [OF assms, where P = P]]) (auto simp: recorded_def)

lemma record_absence_law:
  assumes "i \<in> ids_of env F"
  shows "post (record_absence env d i) w (\<lambda>r v. undisturbed env P d F w v \<and>
     (r = Inr () \<longrightarrow> recorded v d i \<lparr>si_hash = [], si_absent = True\<rparr>))"
  unfolding record_absence_def
  by (rule post_abind [OF replace_identity_law [OF assms, where P = P]]) (auto simp: recorded_def)

section \<open>Discarding and abandoning\<close>

text \<open>An entry may go while the file still has the content that the entry holds.\<close>

lemma dropped_keeps:
  assumes step: "entry_step d i w v" and gone: "entry_of v d i = entry_of w d i \<or> meta_of v d i = None"
    and i: "i = en_path_hash env (show_path p)" and p: "plain p" "p \<in> F"
    and held: "preimage env d w p = Some (file_at w p)"
  shows "keeps env P d F w v"
proof (rule entry_step_keeps [OF step])
  show "i \<in> ids_of env F" using i p(2) by (simp add: ids_of_def)
next
  fix es
  assume es: "plain es" "en_path_hash env (show_path es) = i"
  have unch: "file_at v es = file_at w es" by (rule entry_step_file [OF step])
  obtain m where m: "meta_of w d i = Some m" "canonical_path m = show_path p"
    using held i by (auto simp: preimage_def entry_preimage_def meta_of_def split: option.splits if_splits)
  show "restore_target env d v es = restore_target env d w es"
  proof (cases "meta_of v d i = None")
    case True
    then have after: "preimage env d v es = None"
      using es by (simp add: preimage_def meta_of_def entry_preimage_no_meta)
    show ?thesis
    proof (cases "es = p")
      case True
      with after held unch show ?thesis by (simp add: restore_target_def)
    next
      case False
      then have "preimage env d w es = None"
        using m es show_inj [OF es(1) p(1)] by (auto simp: preimage_def meta_of_def entry_preimage_def split: option.splits)
      with after unch show ?thesis by (simp add: restore_target_def)
    qed
  next
    case False
    with gone have "entry_of v d i = entry_of w d i" by blast
    with es unch show ?thesis by (intro restore_target_cong) (simp_all add: preimage_def)
  qed
next
  fix m
  assume "meta_of v d i = Some m" "sound_group env P d w"
  with gone show "canonical_path m \<in> P \<and> i = en_path_hash env (canonical_path m)"
    by (auto simp: sound_group_def meta_of_def)
qed

lemma discard_law:
  assumes "clean_removal env" "i = en_path_hash env (show_path p)" "plain p" "p \<in> F"
    "preimage env d w p = Some (file_at w p)"
  shows "post (discard_entry env d i) w (\<lambda>r v. keeps env P d F w v \<and> w_tree v = w_tree w)"
proof -
  have valid: "post (validate_entry_id i) w (\<lambda>r v. v = w)"
    by (rule postI, rename_tac r v, case_tac r) (auto simp: validate_entry_id_def act_simps split: if_splits)
  have quiet: "keeps env P d F w w \<and> w_tree w = w_tree w" by simp
  show ?thesis
    unfolding discard_entry_def
  proof (rule post_abind [OF valid])
    fix a v
    assume "v = w"
    then show "post (remove_entry_dir env d i) v (\<lambda>r v. keeps env P d F w v \<and> w_tree v = w_tree w)"
      by (intro post_mono [OF remove_entry_dir_law [OF assms(1)]])
         (auto intro: dropped_keeps [OF _ _ assms(2,3,4,5)] simp: entry_step_def)
  qed (use quiet in auto)
qed

text \<open>What the transaction knows of its entry: it holds the preimage of the target, and while nothing was mutated a new
  entry holds the current content.\<close>

definition holding :: "env \<Rightarrow> string \<Rightarrow> string \<Rightarrow> captured_snapshot \<Rightarrow> world \<Rightarrow> bool" where
  "holding env d c s w \<longleftrightarrow> cs_id s = en_path_hash env c \<and> preimage env d w (elems c) \<noteq> None"

definition unmutated :: "env \<Rightarrow> string \<Rightarrow> string \<Rightarrow> captured_snapshot \<Rightarrow> world \<Rightarrow> bool" where
  "unmutated env d c s w \<longleftrightarrow>
     holding env d c s w \<and> (cs_created s \<longrightarrow> preimage env d w (elems c) = Some (file_at w (elems c)))"

lemma unmutated_cong:
  assumes "unmutated env d c s w" "preimage env d v (elems c) = preimage env d w (elems c)"
    "file_at v (elems c) = file_at w (elems c)"
  shows "unmutated env d c s v"
  using assms by (simp add: unmutated_def holding_def)

lemma undisturbed_unmutated: "undisturbed env P d F w v \<Longrightarrow> unmutated env d c s w \<Longrightarrow> unmutated env d c s v"
  by (rule unmutated_cong) (simp_all add: undisturbed_def file_at_def)

lemma grows_unmutated: "grows w v \<Longrightarrow> unmutated env d c s w \<Longrightarrow> unmutated env d c s v"
  by (erule unmutated_cong) (simp_all add: grows_content same_preimage [of v w] grows_def)

lemma abandon_law:
  assumes st: "steady env P" and c: "c = show_path (elems c)" "plain (elems c)" "elems c \<in> F"
    and s: "unmutated env d c s w"
  shows "post (abandon_unmutated env d s) w (\<lambda>r v. keeps env P d F w v \<and> w_tree v = w_tree w)"
proof (cases "cs_created s")
  case True
  with s have "preimage env d w (elems c) = Some (file_at w (elems c))" "cs_id s = en_path_hash env (show_path (elems c))"
    using c(1) by (simp_all add: unmutated_def holding_def)
  with True st c(2,3) discard_law [of env "cs_id s" "elems c" F d w P] show ?thesis
    by (simp add: abandon_unmutated_def steady_def)
next
  case False
  have mine: "cs_id s \<in> ids_of env F"
    using s c(1,3) by (auto simp: unmutated_def holding_def ids_of_def intro!: image_eqI [of _ _ "elems c"])
  have proof_back: "post (abind (replace_identity env d (cs_id s) (cs_prior s)) (\<lambda>_. ret ())) w
      (\<lambda>r v. keeps env P d F w v \<and> w_tree v = w_tree w)"
    by (rule post_abind [OF replace_identity_law [OF mine, where P = P]]) (auto simp: undisturbed_def)
  show ?thesis
  proof (cases "cs_prior s = None")
    case True
    with False show ?thesis by (simp add: abandon_unmutated_def)
  next
    case no: False
    with False proof_back show ?thesis by (simp add: abandon_unmutated_def)
  qed
qed

lemma abandon_and_raise_law:
  assumes "steady env P" "c = show_path (elems c)" "plain (elems c)" "elems c \<in> F" "unmutated env d c s w"
  shows "post (abandon_and_raise env d s e) w (\<lambda>r v. (\<exists>e'. r = Inl e') \<and> keeps env P d F w v)"
  unfolding abandon_and_raise_def
  by (rule post_try_bind [OF abandon_law [OF assms]]) auto

lemma capture_snapshot_law:
  assumes st: "steady env P" and sound: "sound_group env P d w" and wf: "wf_tree (w_tree w)"
    and c: "canonical_text (w_tree w) c" "c \<in> P" "elems c \<in> F"
  shows "post (capture_snapshot env d original c) w (\<lambda>r v. keeps env P d F w v \<and> w_tree v = w_tree w \<and>
     (\<forall>s. r = Inr s \<longrightarrow> unmutated env d c s v))"
  (is "post _ w ?Q")
proof -
  have c': "c = show_path (elems c)" "plain (elems c)" using canonical_textD [OF c(1)] by simp_all
  show ?thesis
    unfolding capture_snapshot_def
  proof (rule post_abind [OF snapshot_resolved_entry_law [OF st sound wf c, of original]])
    fix a u
    assume u: "keeps env P d F w u \<and> w_tree u = w_tree w \<and> (\<forall>i created. Inr a = Inr (i, created) \<longrightarrow>
      i = en_path_hash env c \<and> preimage env d u (elems c) \<noteq> None \<and>
      (created \<longrightarrow> preimage env d u (elems c) = Some (file_at w (elems c))))"
    obtain i created where a: "a = (i, created)" by (cases a)
    have i: "i = en_path_hash env c" "preimage env d u (elems c) \<noteq> None"
      "created \<longrightarrow> preimage env d u (elems c) = Some (file_at u (elems c))"
      using u a by (auto simp: file_at_def)
    show "post (case a of (i, created) \<Rightarrow> abind (try_act (replace_identity env d i None)) (\<lambda>r.
       case r of
         Inr prior \<Rightarrow> ret \<lparr>cs_id = i, cs_created = created, cs_prior = prior\<rparr>
       | Inl e \<Rightarrow>
           (if \<not> created then raise e
            else abind (try_act (discard_entry env d i)) (\<lambda>q.
                   raise (case q of Inl e' \<Rightarrow> AlsoFailed e e' | Inr _ \<Rightarrow> e))))) u ?Q"
      unfolding a prod.case
    proof (rule post_try_bind [OF replace_identity_law [where F = F and P = P]])
      show "i \<in> ids_of env F"
        using i(1) c'(1) c(3) by (auto simp: ids_of_def intro!: image_eqI [of _ _ "elems c"])
    next
      fix r :: "file_error + snapshot_identity option" and x
      assume x': "undisturbed env P d F u x \<and> (\<forall>p. r = Inr p \<longrightarrow>
        (\<exists>m. meta_of u d i = Some m \<and> meta_of x d i = Some (m\<lparr>last_write := None\<rparr>)))"
      then have x: "undisturbed env P d F u x" by (rule conjunct1)
      have wx: "keeps env P d F w x" "w_tree x = w_tree w"
        using u x keeps_trans by (auto simp: undisturbed_def)
      have ix: "preimage env d x (elems c) \<noteq> None"
        "created \<longrightarrow> preimage env d x (elems c) = Some (file_at x (elems c))"
        using x i(2,3) by (simp_all add: undisturbed_def file_at_def)
      show "post (case r of
         Inr prior \<Rightarrow> ret \<lparr>cs_id = i, cs_created = created, cs_prior = prior\<rparr>
       | Inl e \<Rightarrow>
           (if \<not> created then raise e
            else abind (try_act (discard_entry env d i)) (\<lambda>q.
                   raise (case q of Inl e' \<Rightarrow> AlsoFailed e e' | Inr _ \<Rightarrow> e)))) x ?Q"
      proof (cases r)
        case (Inr prior)
        with wx ix i(1) show ?thesis by (simp add: unmutated_def holding_def)
      next
        case (Inl e)
        have "post (abind (try_act (discard_entry env d i)) (\<lambda>q.
            raise (case q of Inl e' \<Rightarrow> AlsoFailed e e' | Inr _ \<Rightarrow> e))) x ?Q" if created
        proof -
          have "post (discard_entry env d i) x (\<lambda>r v. keeps env P d F x v \<and> w_tree v = w_tree x)"
            using st i(1) c' c(3) ix(2) that by (intro discard_law [of env i "elems c"]) (simp_all add: steady_def)
          then show ?thesis
            by (rule post_try_bind) (use wx keeps_trans in auto)
        qed
        with Inl wx show ?thesis by simp
      qed
    qed
  qed auto
qed

section \<open>Revalidating\<close>

text \<open>What a successful revalidation proves of the bound target.\<close>

definition bound_here :: "env \<Rightarrow> bound_call \<Rightarrow> world \<Rightarrow> bool" where
  "bound_here env b w \<longleftrightarrow>
     canonical_text (w_tree w) (bc_canonical b) \<and>
     (bc_write_dir b \<noteq> [] \<longrightarrow> path_inside_dir (bc_canonical b) (bc_write_dir_canonical b))"

lemma revalidate_write_dir_law:
  "post (revalidate_write_dir env b) w (\<lambda>r v. same w v \<and>
     (r = Inr () \<longrightarrow> bc_write_dir b \<noteq> [] \<longrightarrow> path_inside_dir (bc_canonical b) (bc_write_dir_canonical b)))"
  unfolding revalidate_write_dir_def
  by (rule post_abind [OF post_same [OF reads_revalidate_witness]]) auto

lemma revalidate_law:
  assumes "is_abs (en_cwd env)" "bc_canonical b \<noteq> []"
  shows "post (revalidate env b) w (\<lambda>r v. same w v \<and> (r = Inr () \<longrightarrow> bound_here env b w))"
  unfolding revalidate_def
proof (rule post_abind [OF post_same [OF reads_revalidate_root]])
  fix a u
  assume wu: "same w u"
  show "post (abind (resolve_file_path_from env (bc_root b) (bc_path b)) (\<lambda>r.
       if bc_canonical b \<noteq> [] \<and> rp_canonical r \<noteq> bc_canonical b
       then raise (CanonicalChanged (bc_canonical b) (rp_canonical r)) else revalidate_write_dir env b)) u
     (\<lambda>r v. same w v \<and> (r = Inr () \<longrightarrow> bound_here env b w))"
  proof (rule post_abind [OF resolve_file_law [OF assms(1)]])
    fix q x
    assume x: "same u x \<and> (\<forall>q'. Inr q = Inr q' \<longrightarrow> canonical_text (w_tree u) (rp_canonical q'))"
    then have wx: "same w x" using same_trans [OF wu] by blast
    have q: "canonical_text (w_tree w) (rp_canonical q)" using x wu by (simp add: same_def)
    have "post (revalidate_write_dir env b) x (\<lambda>r v. same w v \<and> (r = Inr () \<longrightarrow> bound_here env b w))"
      if "rp_canonical q = bc_canonical b"
      by (rule post_mono [OF revalidate_write_dir_law])
         (use that q same_trans [OF wx] in \<open>auto simp: bound_here_def\<close>)
    with wx assms(2) show "post (if bc_canonical b \<noteq> [] \<and> rp_canonical q \<noteq> bc_canonical b
       then raise (CanonicalChanged (bc_canonical b) (rp_canonical q)) else revalidate_write_dir env b) x
      (\<lambda>r v. same w v \<and> (r = Inr () \<longrightarrow> bound_here env b w))" by simp
  qed (use same_trans [OF wu] in auto)
qed auto

section \<open>Opening the target\<close>

lemma reads_regular_handle [intro, simp]: "reads (ensure_regular_handle env p h)"
  unfolding ensure_regular_handle_def by (auto intro!: reads_checked)

lemma reads_preflight_write [intro, simp]: "reads (preflight_write env p)"
  unfolding preflight_write_def by (auto intro!: reads_abind)

lemma reads_preflight_edit [intro, simp]: "reads (preflight_edit env p)"
  unfolding preflight_edit_def by (auto intro!: reads_abind)

lemma open_write_target_law:
  "post (open_write_target env path) w (\<lambda>r v.
     ((\<exists>e. r = Inl e) \<longrightarrow> grows w v) \<and>
     (\<forall>h ex. r = Inr (h, ex) \<longrightarrow>
        h = elems path \<and> (\<exists>s. node_at (w_tree v) h = Some (Plain s)) \<and> only_at h w v \<and> (ex \<longrightarrow> grows w v)))"
  (is "post _ w ?Q")
  unfolding open_write_target_def
proof (rule post_abind [OF ensure_regular_existing_law])
  fix a u
  assume wu: "same w u"
  note up = grows_trans [OF same_grows [OF wu]] only_at_trans [OF grows_only [OF same_grows [OF wu]]]
  show "post (abind (open_for_write env path) (\<lambda>(h, existing).
       if existing then abind (ensure_regular_handle env path h) (\<lambda>_. ret (h, existing)) else ret (h, existing))) u ?Q"
  proof (rule post_abind [OF open_for_write_law])
    fix hx :: "string list \<times> bool" and x
    obtain h ex where hx: "hx = (h, ex)" by (cases hx)
    assume "((\<exists>e. Inr hx = Inl e) \<longrightarrow> grows u x) \<and> (\<forall>h ex. Inr hx = Inr (h, ex) \<longrightarrow>
        h = elems path \<and> h \<noteq> [] \<and> (\<exists>s. node_at (w_tree x) h = Some (Plain s)) \<and> only_at h u x \<and>
        (ex \<longrightarrow> grows u x) \<and> (\<not> ex \<longrightarrow> node_at (w_tree u) h = None))"
    then have x: "h = elems path" "\<exists>s. node_at (w_tree x) h = Some (Plain s)" "only_at h w x" "ex \<Longrightarrow> grows w x"
      using hx up by auto
    have "post (abind (ensure_regular_handle env path h) (\<lambda>_. ret (h, ex))) x ?Q" if ex
    proof (rule post_abind [OF post_same [OF reads_regular_handle]])
      fix b v
      assume xv: "same x v"
      note ux = grows_trans [OF x(4) same_grows [OF xv]] only_at_trans [OF x(3) grows_only [OF same_grows [OF xv]]]
      show "post (ret (h, ex)) v ?Q" using x(1,2) ux that xv by (auto simp: same_def)
    next
      fix err :: file_error and v
      assume xv: "same x v"
      show "?Q (Inl err) v" using grows_trans [OF x(4) same_grows [OF xv]] that by simp
    qed
    with x show "post (case hx of (h, existing) \<Rightarrow>
       if existing then abind (ensure_regular_handle env path h) (\<lambda>_. ret (h, existing)) else ret (h, existing)) x ?Q"
      by (simp add: hx)
  qed (use up in auto)
qed (use same_grows in auto)

section \<open>Mutating\<close>

lemma finish_law:
  assumes st: "steady env P" and c: "c = show_path (elems c)" "plain (elems c)" "elems c \<in> F"
    and i: "cs_id s \<in> ids_of env F" and s: "\<not> started \<Longrightarrow> unmutated env d c s w"
  shows "post (finish_mutation_failure env d s started complete produced e) w
           (\<lambda>r v. (\<exists>e'. r = Inl e') \<and> keeps env P d F w v)"
proof (cases "started")
  case False
  with abandon_and_raise_law [OF st c s] show ?thesis
    by (simp add: finish_mutation_failure_def)
next
  case True
  then show ?thesis
    by (auto simp: finish_mutation_failure_def undisturbed_def
        intro!: post_try_bind [OF record_content_law [OF i, where P = P]])
qed

text \<open>The replacement of the content of a file whose preimage is held.\<close>

lemma replacement_law:
  assumes "node_at (w_tree w) h = Some (Plain s0)" "preimage env d w h \<noteq> None"
  shows "post (write_replacement env h new) w (\<lambda>r v. keeps env P d {h} w v \<and>
     preimage env d v h = preimage env d w h \<and>
     (\<exists>full err. r = Inr (full, err) \<and> (full \<longrightarrow> file_at v h = Some new) \<and> (err = None \<longrightarrow> full)))"
proof (rule post_mono [OF write_replacement_law [OF assms(1)]])
  fix r v
  assume r: "only_at h w v \<and> (\<exists>s'. node_at (w_tree v) h = Some (Plain s')) \<and>
     (\<exists>full err. r = Inr (full, err) \<and> (full \<longrightarrow> node_at (w_tree v) h = Some (Plain new)) \<and> (err = None \<longrightarrow> full))"
  then have o: "only_at h w v" by (rule conjunct1)
  from r only_at_keeps [OF o assms(2)]
  show "keeps env P d {h} w v \<and> preimage env d v h = preimage env d w h \<and>
     (\<exists>full err. r = Inr (full, err) \<and> (full \<longrightarrow> file_at v h = Some new) \<and> (err = None \<longrightarrow> full))"
    by (auto simp: file_at_def)
qed

text \<open>Opening the target for a mutation: nothing was mutated when it fails or finds the file.\<close>

lemma open_held_law:
  assumes "unmutated env d c s w" "c = show_path (elems c)"
  shows "post (open_write_target env c) w (\<lambda>r v. keeps env P d {elems c} w v \<and> holding env d c s v \<and>
     ((\<exists>e. r = Inl e) \<longrightarrow> unmutated env d c s v) \<and>
     (\<forall>h ex. r = Inr (h, ex) \<longrightarrow> h = elems c \<and> (\<exists>s. node_at (w_tree v) h = Some (Plain s)) \<and>
        (ex \<longrightarrow> unmutated env d c s v)))"
proof (rule post_mono [OF open_write_target_law])
  fix r v
  assume r: "((\<exists>e. r = Inl e) \<longrightarrow> grows w v) \<and>
     (\<forall>h ex. r = Inr (h, ex) \<longrightarrow>
        h = elems c \<and> (\<exists>s. node_at (w_tree v) h = Some (Plain s)) \<and> only_at h w v \<and> (ex \<longrightarrow> grows w v))"
  have held: "holding env d c s w" using assms(1) by (simp add: unmutated_def)
  have un: "unmutated env d c s v" if "grows w v" by (rule grows_unmutated [OF that assms(1)])
  have o: "only_at (elems c) w v"
    using r grows_only [of w v "elems c"] by (cases r) auto
  have p: "preimage env d w (elems c) \<noteq> None" using held by (simp add: holding_def)
  note k = only_at_keeps [OF o p]
  show "keeps env P d {elems c} w v \<and> holding env d c s v \<and>
     ((\<exists>e. r = Inl e) \<longrightarrow> unmutated env d c s v) \<and>
     (\<forall>h ex. r = Inr (h, ex) \<longrightarrow> h = elems c \<and> (\<exists>s. node_at (w_tree v) h = Some (Plain s)) \<and>
        (ex \<longrightarrow> unmutated env d c s v))"
    using k(1) k(2) held r un by (auto simp: holding_def)
qed

lemma write_mutation_law:
  assumes "unmutated env d c s w" "c = show_path (elems c)"
  shows "post (write_mutation env c new) w (\<lambda>r v. keeps env P d {elems c} w v \<and> holding env d c s v \<and>
     (\<exists>started full err. r = Inr (started, full, err) \<and> (\<not> started \<longrightarrow> unmutated env d c s v \<and> err \<noteq> None) \<and>
        (full \<longrightarrow> file_at v (elems c) = Some new) \<and> (err = None \<longrightarrow> full)))"
  (is "post _ w ?Q")
  unfolding write_mutation_def
proof (rule post_try_bind [OF open_held_law [OF assms, where P = P]])
  fix r :: "file_error + string list \<times> bool" and u
  assume u: "keeps env P d {elems c} w u \<and> holding env d c s u \<and>
     ((\<exists>e. r = Inl e) \<longrightarrow> unmutated env d c s u) \<and>
     (\<forall>h ex. r = Inr (h, ex) \<longrightarrow> h = elems c \<and> (\<exists>s. node_at (w_tree u) h = Some (Plain s)) \<and>
        (ex \<longrightarrow> unmutated env d c s u))"
  show "post (case r of Inl e \<Rightarrow> ret (False, False, Some e)
      | Inr (h, _) \<Rightarrow> abind (write_replacement env h new) (\<lambda>(complete, err).
          ret (True, if err = None then True else complete, err))) u ?Q"
  proof (cases r)
    case (Inl e)
    with u show ?thesis by (auto intro: exI [of _ False])
  next
    case (Inr hx)
    then obtain ex s0 where hx: "hx = (elems c, ex)" "node_at (w_tree u) (elems c) = Some (Plain s0)"
      using u by (cases hx) auto
    have held: "preimage env d u (elems c) \<noteq> None" and i: "cs_id s = en_path_hash env c"
      and wu: "keeps env P d {elems c} w u" using u by (simp_all add: holding_def)
    have "post (abind (write_replacement env (elems c) new) (\<lambda>(complete, err).
          ret (True, if err = None then True else complete, err))) u ?Q"
    proof (rule post_abind [OF replacement_law [OF hx(2) held, where P = P]])
      fix a :: "bool \<times> file_error option" and v
      assume a: "keeps env P d {elems c} u v \<and> preimage env d v (elems c) = preimage env d u (elems c) \<and>
        (\<exists>full err. Inr a = Inr (full, err) \<and> (full \<longrightarrow> file_at v (elems c) = Some new) \<and> (err = None \<longrightarrow> full))"
      then obtain full err where f: "a = (full, err)" "full \<longrightarrow> file_at v (elems c) = Some new" "err = None \<longrightarrow> full"
        by auto
      have "keeps env P d {elems c} w v" by (rule keeps_trans [OF wu conjunct1 [OF a]])
      moreover have "holding env d c s v" using a held i by (simp add: holding_def)
      ultimately show "post (case a of (complete, err) \<Rightarrow>
          ret (True, if err = None then True else complete, err)) v ?Q"
        using f by (cases err) auto
    qed auto
    then show ?thesis by (simp add: Inr hx(1))
  qed
qed

end
