(* ===== verification/Tool_Calls.thy ===== *)
theory Tool_Calls
  imports Mutation_Safe
begin

text \<open>The transaction composed: the calls of the tools keep what the group would bring back, and what they leave when
  they succeed.\<close>

section \<open>The transaction\<close>

definition succeeded :: "env \<Rightarrow> string \<Rightarrow> string \<Rightarrow> string option \<Rightarrow> world \<Rightarrow> bool" where
  "succeeded env d c s v \<longleftrightarrow>
     file_at v (elems c) = s \<and>
     recorded v d (en_path_hash env c)
       (case s of Some s \<Rightarrow> \<lparr>si_hash = en_content_hash env s, si_absent = False\<rparr>
                | None \<Rightarrow> \<lparr>si_hash = [], si_absent = True\<rparr>)"

definition after_call :: "env \<Rightarrow> string set \<Rightarrow> string \<Rightarrow> string \<Rightarrow> string option \<Rightarrow> world \<Rightarrow> file_error + 'a \<Rightarrow> world \<Rightarrow> bool" where
  "after_call env P d c s w r v \<longleftrightarrow>
     keeps env P d {elems c} w v \<and> ((\<exists>a. r = Inr a) \<longrightarrow> succeeded env d c s v)"

lemma transaction_law:
  assumes st: "steady env P" and sound: "sound_group env P d w" and wf: "wf_tree (w_tree w)"
    and c: "canonical_text (w_tree w) c" "c \<in> P"
    and body: "\<And>s u. unmutated env d c s u \<Longrightarrow> w_tree u = w_tree w \<Longrightarrow>
      post (body s) u (\<lambda>r v. keeps env P d {elems c} u v \<and> ((\<exists>a. r = Inr a) \<longrightarrow> Q v))"
  shows "post (abind (capture_snapshot env d original c) (\<lambda>s. abind (try_act (revalidate env b)) (\<lambda>v.
       case v of Inl e \<Rightarrow> abandon_and_raise env d s e | Inr _ \<Rightarrow> body s))) w
     (\<lambda>r v. keeps env P d {elems c} w v \<and> ((\<exists>a. r = Inr a) \<longrightarrow> Q v))"
proof (rule post_abind [OF capture_snapshot_law [OF st sound wf c, where F = "{elems c}"]])
  show "elems c \<in> {elems c}" by simp
next
  fix s u
  assume u: "keeps env P d {elems c} w u \<and> w_tree u = w_tree w \<and> (\<forall>s'. Inr s = Inr s' \<longrightarrow> unmutated env d c s' u)"
  have c': "c = show_path (elems c)" "plain (elems c)" using canonical_textD [OF c(1)] by simp_all
  note up = keeps_trans [OF conjunct1 [OF u]]
  show "post (abind (try_act (revalidate env b)) (\<lambda>v.
       case v of Inl e \<Rightarrow> abandon_and_raise env d s e | Inr _ \<Rightarrow> body s)) u
     (\<lambda>r v. keeps env P d {elems c} w v \<and> ((\<exists>a. r = Inr a) \<longrightarrow> Q v))"
  proof (rule post_try_bind [OF post_same [OF reads_revalidate]])
    fix r x
    assume ux: "same u x"
    have un: "unmutated env d c s x" using grows_unmutated [OF same_grows [OF ux]] u by simp
    have wx: "keeps env P d {elems c} w x" by (rule up [OF same_keeps [OF ux]])
    have tx: "w_tree x = w_tree w" using ux u by (simp add: same_def)
    show "post (case r of Inl e \<Rightarrow> abandon_and_raise env d s e | Inr _ \<Rightarrow> body s) x
      (\<lambda>r v. keeps env P d {elems c} w v \<and> ((\<exists>a. r = Inr a) \<longrightarrow> Q v))"
    proof (cases r)
      case (Inl e)
      have "post (abandon_and_raise env d s e) x (\<lambda>r v. (\<exists>e'. r = Inl e') \<and> keeps env P d {elems c} x v)"
        by (rule abandon_and_raise_law [OF st c' _ un]) simp
      then show ?thesis
        unfolding Inl sum.case by (rule post_mono) (auto intro: keeps_trans [OF wx])
    next
      case (Inr y)
      show ?thesis
        unfolding Inr sum.case by (rule post_mono [OF body [OF un tx]]) (auto intro: keeps_trans [OF wx])
    qed
  qed
qed auto

lemma holding_id: "holding env d c s w \<Longrightarrow> c = show_path (elems c) \<Longrightarrow> cs_id s \<in> ids_of env {elems c}"
  by (simp add: holding_def ids_of_def)

lemma record_succeeded:
  assumes "holding env d c s w" "c = show_path (elems c)" "file_at w (elems c) = Some new"
  shows "post (record_content env d (cs_id s) new) w
           (\<lambda>r v. keeps env P d {elems c} w v \<and> ((\<exists>a. r = Inr a) \<longrightarrow> succeeded env d c (Some new) v))"
proof (rule post_mono [OF record_content_law [OF holding_id [OF assms(1,2)], where P = P]])
  fix r v
  assume r: "undisturbed env P d {elems c} w v \<and>
    (r = Inr () \<longrightarrow> recorded v d (cs_id s) \<lparr>si_hash = en_content_hash env new, si_absent = False\<rparr>)"
  then show "keeps env P d {elems c} w v \<and> ((\<exists>a. r = Inr a) \<longrightarrow> succeeded env d c (Some new) v)"
    using undisturbed_file [OF conjunct1 [OF r]] assms(1,3) by (auto simp: undisturbed_def succeeded_def holding_def)
qed

lemma write_with_bookkeeping_law:
  assumes st: "steady env P" and sound: "sound_group env P d w" and wf: "wf_tree (w_tree w)"
    and c: "canonical_text (w_tree w) c" "c \<in> P"
  shows "post (write_with_bookkeeping env d b display c new path) w
     (\<lambda>r v. keeps env P d {elems c} w v \<and> ((\<exists>a. r = Inr a) \<longrightarrow> succeeded env d c (Some new) v))"
  unfolding write_with_bookkeeping_def
proof (rule post_abind [OF post_same [OF reads_preflight_write]])
  fix a u
  assume wu: "same w u"
  have c': "c = show_path (elems c)" "plain (elems c)" using canonical_textD [OF c(1)] by simp_all
  have u: "sound_group env P d u" "wf_tree (w_tree u)" "canonical_text (w_tree u) c"
    using wu sound wf c(1) same_sound [of u w] by (simp_all add: same_def)
  show "post (abind (capture_snapshot env d display c) (\<lambda>s. abind (try_act (revalidate env b)) (\<lambda>v.
       case v of
         Inl e \<Rightarrow> abandon_and_raise env d s e
       | Inr _ \<Rightarrow>
           abind (write_mutation env c new) (\<lambda>(started, complete, err).
             case err of
               Some e \<Rightarrow> finish_mutation_failure env d s started complete new e
             | None \<Rightarrow> abind (record_content env d (cs_id s) new) (\<lambda>_. ret (''Wrote '' @ path @ ''.'')))))) u
     (\<lambda>r v. keeps env P d {elems c} w v \<and> ((\<exists>a. r = Inr a) \<longrightarrow> succeeded env d c (Some new) v))"
  proof (rule post_mono [OF transaction_law [OF st u c(2), where Q = "succeeded env d c (Some new)"]])
    fix s x
    assume un: "unmutated env d c s x"
    show "post (abind (write_mutation env c new) (\<lambda>(started, complete, err).
             case err of
               Some e \<Rightarrow> finish_mutation_failure env d s started complete new e
             | None \<Rightarrow> abind (record_content env d (cs_id s) new) (\<lambda>_. ret (''Wrote '' @ path @ ''.'')))) x
       (\<lambda>r v. keeps env P d {elems c} x v \<and> ((\<exists>a. r = Inr a) \<longrightarrow> succeeded env d c (Some new) v))"
    proof (rule post_abind [OF write_mutation_law [OF un c'(1), where P = P]])
      fix q :: "bool \<times> bool \<times> file_error option" and y
      assume y: "keeps env P d {elems c} x y \<and> holding env d c s y \<and> (\<exists>started full err.
        Inr q = Inr (started, full, err) \<and> (\<not> started \<longrightarrow> unmutated env d c s y \<and> err \<noteq> None) \<and>
        (full \<longrightarrow> file_at y (elems c) = Some new) \<and> (err = None \<longrightarrow> full))"
      then obtain started full err where q: "q = (started, full, err)" "\<not> started \<longrightarrow> unmutated env d c s y"
        "full \<longrightarrow> file_at y (elems c) = Some new" "err = None \<longrightarrow> full" by auto
      have hold: "holding env d c s y" and xy: "keeps env P d {elems c} x y" using y by simp_all
      show "post (case q of (started, complete, err) \<Rightarrow> case err of
               Some e \<Rightarrow> finish_mutation_failure env d s started complete new e
             | None \<Rightarrow> abind (record_content env d (cs_id s) new) (\<lambda>_. ret (''Wrote '' @ path @ ''.''))) y
         (\<lambda>r v. keeps env P d {elems c} x v \<and> ((\<exists>a. r = Inr a) \<longrightarrow> succeeded env d c (Some new) v))"
      proof (cases err)
        case (Some e)
        have "post (finish_mutation_failure env d s started full new e) y
            (\<lambda>r v. (\<exists>e'. r = Inl e') \<and> keeps env P d {elems c} y v)"
          by (rule finish_law [OF st c' _ holding_id [OF hold c'(1)]]) (use q(2) in auto)
        then show ?thesis
          unfolding q(1) Some prod.case option.case by (rule post_mono) (auto intro: keeps_trans [OF xy])
      next
        case None
        with q have "file_at y (elems c) = Some new" by simp
        from record_succeeded [OF hold c'(1) this, where P = P]
        have "post (abind (record_content env d (cs_id s) new) (\<lambda>_. ret (''Wrote '' @ path @ ''.''))) y
          (\<lambda>r v. keeps env P d {elems c} x v \<and> ((\<exists>a. r = Inr a) \<longrightarrow> succeeded env d c (Some new) v))"
          by (rule post_abind) (auto intro: keeps_trans [OF xy])
        then show ?thesis by (simp add: q(1) None)
      qed
    qed auto
  qed (auto intro: keeps_trans [OF same_keeps [OF wu]])
qed (auto intro: same_keeps)

section \<open>Editing\<close>

definition edits_to :: "string \<Rightarrow> string \<Rightarrow> string \<Rightarrow> bool \<Rightarrow> string \<Rightarrow> string option \<Rightarrow> string \<Rightarrow> bool" where
  "edits_to path old new all summary before after \<longleftrightarrow>
     (\<exists>s r. before = Some s \<and> apply_edit s old new all path = Some (Inr r) \<and> after = er_content r \<and> summary = er_summary r)"

lemma edit_read_law:
  "post (edit_read env c path old new all) w (\<lambda>r v. same w v \<and>
     (\<forall>h res. r = Inr (h, res) \<longrightarrow> h = elems c \<and> (\<exists>s. node_at (w_tree w) h = Some (Plain s)) \<and>
        edits_to path old new all (er_summary res) (file_at w (elems c)) (er_content res)))"
  (is "post _ w ?Q")
proof -
  let ?rest = "\<lambda>h. abind (read_all env h) (\<lambda>content.
          case apply_edit content old new all path of
            None \<Rightarrow> raise (Refused ''edit does not return'')
          | Some (Inl e) \<Rightarrow> raise (Refused (edit_refusal e))
          | Some (Inr r) \<Rightarrow> ret (h, r))"
  have rest: "post (?rest h) u ?Q" if wu: "same w u" and h: "h = elems c" "\<exists>s. node_at (w_tree w) h = Some (Plain s)" for h u
  proof (rule post_abind [OF read_all_law])
    fix content v
    assume v: "same u v \<and> (\<forall>s. Inr content = Inr s \<longrightarrow> file_at u h = Some s)"
    then have wv: "same w v" and f: "file_at w (elems c) = Some content"
      using same_trans [OF wu] same_content [OF wu] h(1) by auto
    show "post (case apply_edit content old new all path of
            None \<Rightarrow> raise (Refused ''edit does not return'')
          | Some (Inl e) \<Rightarrow> raise (Refused (edit_refusal e))
          | Some (Inr r) \<Rightarrow> ret (h, r)) v ?Q"
      using wv f h by (auto simp: edits_to_def split: option.split sum.split)
  next
    fix e :: file_error and v
    assume v: "same u v \<and> (\<forall>s. Inl e = Inr s \<longrightarrow> file_at u h = Some s)"
    have "same w v" using same_trans [OF wu conjunct1 [OF v]] .
    then show "?Q (Inl e) v" by simp
  qed
  have handle: "post (abind (ensure_regular_handle env c h) (\<lambda>_. ?rest h)) u ?Q"
    if wu: "same w u" and h: "h = elems c" "\<exists>s. node_at (w_tree w) h = Some (Plain s)" for h u
  proof (rule post_abind [OF post_same [OF reads_regular_handle]])
    fix a v
    assume "same u v"
    then show "post (?rest h) v ?Q" using rest [OF same_trans [OF wu] h] by simp
  qed (use same_trans [OF wu] in auto)
  have opened: "post (abind (open_existing env c True) (\<lambda>h. abind (ensure_regular_handle env c h) (\<lambda>_. ?rest h))) u ?Q"
    if wu: "same w u" for u
  proof (rule post_abind [OF open_existing_law])
    fix h v
    assume v: "same u v \<and> (\<forall>h'. Inr h = Inr h' \<longrightarrow> h' = elems c \<and> h' \<noteq> [] \<and> (\<exists>s. node_at (w_tree u) h' = Some (Plain s))) \<and>
      (Inr h = Inl NotExist \<longrightarrow> wf_tree (w_tree u) \<longrightarrow> node_at (w_tree u) (elems c) = None)"
    have wv: "same w v" by (rule same_trans [OF wu conjunct1 [OF v]])
    have "h = elems c" "\<exists>s. node_at (w_tree w) h = Some (Plain s)"
      using v wu by (auto simp: same_def)
    then show "post (abind (ensure_regular_handle env c h) (\<lambda>_. ?rest h)) v ?Q" by (rule handle [OF wv])
  next
    fix e :: file_error and v
    assume v: "same u v \<and> (\<forall>h'. Inl e = Inr h' \<longrightarrow> h' = elems c \<and> h' \<noteq> [] \<and> (\<exists>s. node_at (w_tree u) h' = Some (Plain s))) \<and>
      (Inl e = Inl NotExist \<longrightarrow> wf_tree (w_tree u) \<longrightarrow> node_at (w_tree u) (elems c) = None)"
    have "same w v" by (rule same_trans [OF wu conjunct1 [OF v]])
    then show "?Q (Inl e) v" by simp
  qed
  have "post (abind (ensure_regular_existing env c) (\<lambda>_. abind (open_existing env c True)
      (\<lambda>h. abind (ensure_regular_handle env c h) (\<lambda>_. ?rest h)))) w ?Q"
    by (rule post_abind [OF ensure_regular_existing_law]) (use opened in auto)
  then show ?thesis by (simp add: edit_read_def)
qed

lemma edit_mutation_law:
  assumes un: "unmutated env d c s w"
  shows "post (edit_mutation env c path old new all) w (\<lambda>r v. keeps env P d {elems c} w v \<and> holding env d c s v \<and>
     (\<exists>summary produced started full err. r = Inr (summary, produced, started, full, err) \<and>
        (\<not> started \<longrightarrow> unmutated env d c s v \<and> err \<noteq> None) \<and> (full \<longrightarrow> file_at v (elems c) = Some produced) \<and>
        (err = None \<longrightarrow> full \<and> edits_to path old new all summary (file_at w (elems c)) produced)))"
  (is "post _ w ?Q")
  unfolding edit_mutation_def
proof (rule post_try_bind [OF edit_read_law])
  fix r :: "file_error + string list \<times> edit_result" and u
  assume u: "same w u \<and> (\<forall>h res. r = Inr (h, res) \<longrightarrow> h = elems c \<and> (\<exists>s. node_at (w_tree w) h = Some (Plain s)) \<and>
        edits_to path old new all (er_summary res) (file_at w (elems c)) (er_content res))"
  have wu: "same w u" by (rule conjunct1 [OF u])
  have unu: "unmutated env d c s u" by (rule grows_unmutated [OF same_grows [OF wu] un])
  have ku: "keeps env P d {elems c} w u" by (rule same_keeps [OF wu])
  show "post (case r of Inl e \<Rightarrow> ret ([], [], False, False, Some e)
       | Inr (h, res) \<Rightarrow> abind (write_replacement env h (er_content res)) (\<lambda>(complete, err).
             ret (er_summary res, er_content res, True, if err = None then True else complete, err))) u ?Q"
  proof (cases r)
    case (Inl e)
    with unu ku show ?thesis by (auto simp: unmutated_def intro!: exI [of _ False])
  next
    case (Inr hr)
    then obtain res s0 where hr: "hr = (elems c, res)" "node_at (w_tree u) (elems c) = Some (Plain s0)"
      "edits_to path old new all (er_summary res) (file_at w (elems c)) (er_content res)"
      using u wu by (cases hr) (auto simp: same_def)
    have held: "preimage env d u (elems c) \<noteq> None" and i: "cs_id s = en_path_hash env c"
      using unu by (simp_all add: unmutated_def holding_def)
    have "post (abind (write_replacement env (elems c) (er_content res)) (\<lambda>(complete, err).
          ret (er_summary res, er_content res, True, if err = None then True else complete, err))) u ?Q"
    proof (rule post_abind [OF replacement_law [OF hr(2) held, where P = P]])
      fix a :: "bool \<times> file_error option" and v
      assume a: "keeps env P d {elems c} u v \<and> preimage env d v (elems c) = preimage env d u (elems c) \<and>
        (\<exists>full err. Inr a = Inr (full, err) \<and> (full \<longrightarrow> file_at v (elems c) = Some (er_content res)) \<and> (err = None \<longrightarrow> full))"
      then obtain full err where f: "a = (full, err)" "full \<longrightarrow> file_at v (elems c) = Some (er_content res)" "err = None \<longrightarrow> full"
        by auto
      have "keeps env P d {elems c} w v" by (rule keeps_trans [OF ku conjunct1 [OF a]])
      moreover have "holding env d c s v" using a held i by (simp add: holding_def)
      ultimately show "post (case a of (complete, err) \<Rightarrow>
          ret (er_summary res, er_content res, True, if err = None then True else complete, err)) v ?Q"
        using f hr(3) by (cases err) auto
    qed auto
    then show ?thesis by (simp add: Inr hr(1))
  qed
qed

lemma edit_with_bookkeeping_law:
  assumes st: "steady env P" and sound: "sound_group env P d w" and wf: "wf_tree (w_tree w)"
    and c: "canonical_text (w_tree w) c" "c \<in> P"
  shows "post (edit_with_bookkeeping env d b display c path old new all) w
     (\<lambda>r v. keeps env P d {elems c} w v \<and> ((\<exists>a. r = Inr a) \<longrightarrow>
        (\<exists>summary after. edits_to path old new all summary (file_at w (elems c)) after \<and> succeeded env d c (Some after) v)))"
  unfolding edit_with_bookkeeping_def
proof (rule post_abind [OF post_same [OF reads_preflight_edit]])
  fix a u
  assume wu: "same w u"
  have c': "c = show_path (elems c)" "plain (elems c)" using canonical_textD [OF c(1)] by simp_all
  have u: "sound_group env P d u" "wf_tree (w_tree u)" "canonical_text (w_tree u) c"
    using wu sound wf c(1) same_sound [of u w] by (simp_all add: same_def)
  have fu: "file_at x (elems c) = file_at w (elems c)" if "w_tree x = w_tree u" for x
    using that wu by (simp add: file_at_def same_def)
  let ?Q = "\<lambda>v. \<exists>summary after. edits_to path old new all summary (file_at w (elems c)) after \<and> succeeded env d c (Some after) v"
  show "post (abind (capture_snapshot env d display c) (\<lambda>s. abind (try_act (revalidate env b)) (\<lambda>v.
       case v of
         Inl e \<Rightarrow> abandon_and_raise env d s e
       | Inr _ \<Rightarrow>
           abind (edit_mutation env c path old new all) (\<lambda>(summary, produced, started, complete, err).
             case err of
               Some e \<Rightarrow> finish_mutation_failure env d s started complete produced e
             | None \<Rightarrow> abind (record_content env d (cs_id s) produced) (\<lambda>_. ret summary))))) u
     (\<lambda>r v. keeps env P d {elems c} w v \<and> ((\<exists>a. r = Inr a) \<longrightarrow> ?Q v))"
  proof (rule post_mono [OF transaction_law [OF st u c(2), where Q = ?Q]])
    fix s x
    assume un: "unmutated env d c s x" and tx: "w_tree x = w_tree u"
    show "post (abind (edit_mutation env c path old new all) (\<lambda>(summary, produced, started, complete, err).
             case err of
               Some e \<Rightarrow> finish_mutation_failure env d s started complete produced e
             | None \<Rightarrow> abind (record_content env d (cs_id s) produced) (\<lambda>_. ret summary))) x
       (\<lambda>r v. keeps env P d {elems c} x v \<and> ((\<exists>a. r = Inr a) \<longrightarrow> ?Q v))"
    proof (rule post_abind [OF edit_mutation_law [OF un, where P = P]])
      fix q :: "string \<times> string \<times> bool \<times> bool \<times> file_error option" and y
      assume y: "keeps env P d {elems c} x y \<and> holding env d c s y \<and> (\<exists>summary produced started full err.
        Inr q = Inr (summary, produced, started, full, err) \<and>
        (\<not> started \<longrightarrow> unmutated env d c s y \<and> err \<noteq> None) \<and> (full \<longrightarrow> file_at y (elems c) = Some produced) \<and>
        (err = None \<longrightarrow> full \<and> edits_to path old new all summary (file_at x (elems c)) produced))"
      then obtain summary produced started full err where q: "q = (summary, produced, started, full, err)"
        "\<not> started \<longrightarrow> unmutated env d c s y \<and> err \<noteq> None" "full \<longrightarrow> file_at y (elems c) = Some produced"
        "err = None \<longrightarrow> full \<and> edits_to path old new all summary (file_at x (elems c)) produced"
        by (elim conjE exE) (rule that, simp_all only: sum.inject simp_thms)
      have hold: "holding env d c s y" and xy: "keeps env P d {elems c} x y" using y by simp_all
      show "post (case q of (summary, produced, started, complete, err) \<Rightarrow> case err of
               Some e \<Rightarrow> finish_mutation_failure env d s started complete produced e
             | None \<Rightarrow> abind (record_content env d (cs_id s) produced) (\<lambda>_. ret summary)) y
         (\<lambda>r v. keeps env P d {elems c} x v \<and> ((\<exists>a. r = Inr a) \<longrightarrow> ?Q v))"
      proof (cases err)
        case (Some e)
        have "post (finish_mutation_failure env d s started full produced e) y
            (\<lambda>r v. (\<exists>e'. r = Inl e') \<and> keeps env P d {elems c} y v)"
          by (rule finish_law [OF st c' _ holding_id [OF hold c'(1)]]) (use q(2) in auto)
        then show ?thesis
          unfolding q(1) Some prod.case option.case by (rule post_mono) (auto intro: keeps_trans [OF xy])
      next
        case None
        with q(3,4) fu [OF tx] have f: "file_at y (elems c) = Some produced"
          "edits_to path old new all summary (file_at w (elems c)) produced" by simp_all
        from record_succeeded [OF hold c'(1) f(1), where P = P]
        have "post (abind (record_content env d (cs_id s) produced) (\<lambda>_. ret summary)) y
          (\<lambda>r v. keeps env P d {elems c} x v \<and> ((\<exists>a. r = Inr a) \<longrightarrow> ?Q v))"
          by (rule post_abind) (use f(2) in \<open>auto intro: keeps_trans [OF xy]\<close>)
        then show ?thesis by (simp add: q(1) None)
      qed
    qed auto
  qed (auto intro: keeps_trans [OF same_keeps [OF wu]])
qed (auto intro: same_keeps)

section \<open>The mutations of a patch\<close>

lemma abandon_after:
  assumes "steady env P" "c = show_path (elems c)" "plain (elems c)" "unmutated env d c s u"
    "keeps env P d {elems c} w u"
  shows "post (abandon_and_raise env d s e) u (\<lambda>r v. keeps env P d {elems c} w v \<and> ((\<exists>a. r = Inr a) \<longrightarrow> Q v))"
proof -
  have "post (abandon_and_raise env d s e) u (\<lambda>r v. (\<exists>e'. r = Inl e') \<and> keeps env P d {elems c} u v)"
    by (rule abandon_and_raise_law [OF assms(1-3) _ assms(4)]) simp
  then show ?thesis by (rule post_mono) (auto intro: keeps_trans [OF assms(5)])
qed

lemma write_with_snapshot_law:
  assumes st: "steady env P" and sound: "sound_group env P d w" and wf: "wf_tree (w_tree w)"
    and c: "canonical_text (w_tree w) c" "c \<in> P"
  shows "post (write_with_snapshot env d b display c new for_new) w
     (\<lambda>r v. keeps env P d {elems c} w v \<and> ((\<exists>a. r = Inr a) \<longrightarrow> succeeded env d c (Some new) v))"
  unfolding write_with_snapshot_def
proof (rule transaction_law [OF st sound wf c])
  fix s u
  assume un: "unmutated env d c s u"
  have c': "c = show_path (elems c)" "plain (elems c)" using canonical_textD [OF c(1)] by simp_all
  let ?Q = "\<lambda>r v. keeps env P d {elems c} u v \<and> ((\<exists>a. r = Inr a) \<longrightarrow> succeeded env d c (Some new) v)"
  show "post (abind (try_act (open_write_target env c)) (\<lambda>r.
             case r of
               Inl e \<Rightarrow> abandon_and_raise env d s e
             | Inr (h, existing) \<Rightarrow>
                 if for_new \<and> existing then abandon_and_raise env d s (Appeared c)
                 else
                   abind (write_replacement env h new) (\<lambda>(complete, err).
                     case err of
                       Some e \<Rightarrow> finish_mutation_failure env d s True complete new e
                     | None \<Rightarrow> record_content env d (cs_id s) new))) u ?Q"
  proof (rule post_try_bind [OF open_held_law [OF un c'(1), where P = P]])
    fix r :: "file_error + string list \<times> bool" and x
    assume x: "keeps env P d {elems c} u x \<and> holding env d c s x \<and>
     ((\<exists>e. r = Inl e) \<longrightarrow> unmutated env d c s x) \<and>
     (\<forall>h ex. r = Inr (h, ex) \<longrightarrow> h = elems c \<and> (\<exists>s. node_at (w_tree x) h = Some (Plain s)) \<and>
        (ex \<longrightarrow> unmutated env d c s x))"
    have ux: "keeps env P d {elems c} u x" and hold: "holding env d c s x" using x by simp_all
    show "post (case r of
               Inl e \<Rightarrow> abandon_and_raise env d s e
             | Inr (h, existing) \<Rightarrow>
                 if for_new \<and> existing then abandon_and_raise env d s (Appeared c)
                 else
                   abind (write_replacement env h new) (\<lambda>(complete, err).
                     case err of
                       Some e \<Rightarrow> finish_mutation_failure env d s True complete new e
                     | None \<Rightarrow> record_content env d (cs_id s) new)) x ?Q"
    proof (cases r)
      case (Inl e)
      then have "unmutated env d c s x" using x by simp
      from abandon_after [OF st c' this ux] show ?thesis by (simp only: Inl sum.case)
    next
      case (Inr hx)
      then obtain ex s0 where hx: "hx = (elems c, ex)" "node_at (w_tree x) (elems c) = Some (Plain s0)"
        "ex \<longrightarrow> unmutated env d c s x" using x by (cases hx) auto
      have held: "preimage env d x (elems c) \<noteq> None" using hold by (simp add: holding_def)
      have replace: "post (abind (write_replacement env (elems c) new) (\<lambda>(complete, err).
                     case err of
                       Some e \<Rightarrow> finish_mutation_failure env d s True complete new e
                     | None \<Rightarrow> record_content env d (cs_id s) new)) x ?Q"
      proof (rule post_abind [OF replacement_law [OF hx(2) held, where P = P]])
        fix a :: "bool \<times> file_error option" and y
        assume a: "keeps env P d {elems c} x y \<and> preimage env d y (elems c) = preimage env d x (elems c) \<and>
          (\<exists>full err. Inr a = Inr (full, err) \<and> (full \<longrightarrow> file_at y (elems c) = Some new) \<and> (err = None \<longrightarrow> full))"
        then obtain full err where f: "a = (full, err)" "full \<longrightarrow> file_at y (elems c) = Some new" "err = None \<longrightarrow> full"
          by auto
        have uy: "keeps env P d {elems c} u y" by (rule keeps_trans [OF ux conjunct1 [OF a]])
        have holdy: "holding env d c s y" using a hold by (simp add: holding_def)
        show "post (case a of (complete, err) \<Rightarrow> case err of
               Some e \<Rightarrow> finish_mutation_failure env d s True complete new e
             | None \<Rightarrow> record_content env d (cs_id s) new) y ?Q"
        proof (cases err)
          case (Some e)
          have "post (finish_mutation_failure env d s True full new e) y
              (\<lambda>r v. (\<exists>e'. r = Inl e') \<and> keeps env P d {elems c} y v)"
            by (rule finish_law [OF st c' _ holding_id [OF holdy c'(1)]]) auto
          then show ?thesis
            unfolding f(1) Some prod.case option.case by (rule post_mono) (auto intro: keeps_trans [OF uy])
        next
          case None
          with f have "file_at y (elems c) = Some new" by simp
          from record_succeeded [OF holdy c'(1) this, where P = P] show ?thesis
            unfolding f(1) None prod.case option.case by (rule post_mono) (auto intro: keeps_trans [OF uy])
        qed
      qed auto
      have appeared: "post (abandon_and_raise env d s (Appeared c)) x ?Q" if ex
        by (rule abandon_after [OF st c' _ ux]) (use hx(3) that in simp)
      show ?thesis
        unfolding Inr hx(1) sum.case prod.case using replace appeared by (simp only: split: if_split) blast
    qed
  qed
qed

lemma delete_with_snapshot_law:
  assumes st: "steady env P" and sound: "sound_group env P d w" and wf: "wf_tree (w_tree w)"
    and c: "canonical_text (w_tree w) c" "c \<in> P"
  shows "post (delete_with_snapshot env d b display c) w
     (\<lambda>r v. keeps env P d {elems c} w v \<and> ((\<exists>a. r = Inr a) \<longrightarrow> succeeded env d c None v))"
  unfolding delete_with_snapshot_def
proof (rule transaction_law [OF st sound wf c])
  fix s u
  assume un: "unmutated env d c s u"
  have c': "c = show_path (elems c)" "plain (elems c)" using canonical_textD [OF c(1)] by simp_all
  have hold: "holding env d c s u" using un by (simp add: unmutated_def)
  let ?Q = "\<lambda>r v. keeps env P d {elems c} u v \<and> ((\<exists>a. r = Inr a) \<longrightarrow> succeeded env d c None v)"
  show "post (abind (try_act (remove_leaf env c)) (\<lambda>r.
             case r of
               Inl e \<Rightarrow> abandon_and_raise env d s e
             | Inr _ \<Rightarrow> record_absence env d (cs_id s))) u ?Q"
  proof (rule post_try_bind [OF remove_leaf_law])
    fix r x
    assume x: "((\<exists>e. r = Inl e) \<longrightarrow> same u x) \<and>
       (r = Inr () \<longrightarrow> elems c \<noteq> [] \<and> only_at (elems c) u x \<and> node_at (w_tree x) (elems c) = None) \<and>
       (r = Inl NotExist \<longrightarrow> wf_tree (w_tree u) \<longrightarrow> node_at (w_tree u) (elems c) = None)"
    show "post (case r of Inl e \<Rightarrow> abandon_and_raise env d s e | Inr _ \<Rightarrow> record_absence env d (cs_id s)) x ?Q"
    proof (cases r)
      case (Inl e)
      then have ux: "same u x" using x by simp
      have "post (abandon_and_raise env d s e) x ?Q"
        by (rule abandon_after [OF st c' grows_unmutated [OF same_grows [OF ux] un] same_keeps [OF ux]])
      then show ?thesis by (simp only: Inl sum.case)
    next
      case (Inr y)
      then have o: "only_at (elems c) u x" and gone: "file_at x (elems c) = None"
        using x by (simp_all add: file_at_def)
      have held: "preimage env d u (elems c) \<noteq> None" using hold by (simp add: holding_def)
      note k = only_at_keeps [OF o held]
      have holdx: "holding env d c s x" using k(2) hold by (simp add: holding_def)
      have "post (record_absence env d (cs_id s)) x ?Q"
      proof (rule post_mono [OF record_absence_law [OF holding_id [OF holdx c'(1)], where P = P]])
        fix q v
        assume q: "undisturbed env P d {elems c} x v \<and>
          (q = Inr () \<longrightarrow> recorded v d (cs_id s) \<lparr>si_hash = [], si_absent = True\<rparr>)"
        have "keeps env P d {elems c} u v"
          by (rule keeps_trans [OF k(1) undisturbed_keeps [OF conjunct1 [OF q]]])
        then show "?Q q v"
          using q undisturbed_file [OF conjunct1 [OF q]] gone hold by (auto simp: succeeded_def holding_def)
      qed
      then show ?thesis by (simp add: Inr)
    qed
  qed
qed

end
