(* ===== verification/Patch_Calls.thy ===== *)
theory Patch_Calls
  imports Tool_Calls
begin

text \<open>
  A patch as a sequence of mutations: validation changes nothing, every mutation runs under its own snapshot, and the
  report of a patch that stops half way names exactly the operations that are on disk and on record.
\<close>

section \<open>Canonical texts that stay canonical\<close>

definition neat :: "string \<Rightarrow> bool" where
  "neat c \<longleftrightarrow> c = show_path (elems c) \<and> plain (elems c)"

lemma canonical_text_neat: "canonical_text t c \<Longrightarrow> neat c"
  using canonical_textD by (simp add: neat_def)

lemma canonical_text_present:
  assumes "wf_tree t" "neat c" "node_at t (elems c) = Some (Plain s)"
  shows "canonical_text t c"
proof -
  have "dirs_above t (elems c)"
    unfolding dirs_above_def
  proof (intro allI impI)
    fix k assume "k < length (elems c)"
    then have "drop k (elems c) \<noteq> []" by simp
    with wf_tree_prefix [OF assms(1), of "take k (elems c)" "drop k (elems c)"] assms(3)
    show "node_at t (take k (elems c)) = Some Directory" by simp
  qed
  then have "canonical_in t (elems c)"
    using assms by (intro canonical_existing) (simp_all add: neat_def)
  with assms(2) show ?thesis unfolding canonical_text_def neat_def by blast
qed

lemma read_file_bytes_law:
  "post (read_file_bytes env p) w (\<lambda>r v. same w v \<and> (\<forall>s. r = Inr s \<longrightarrow> node_at (w_tree w) (elems p) = Some (Plain s)))"
  unfolding read_file_bytes_def
proof (rule post_abind [OF open_existing_law])
  fix h u
  assume u: "same w u \<and> (\<forall>h'. Inr h = Inr h' \<longrightarrow> h' = elems p \<and> h' \<noteq> [] \<and> (\<exists>s. node_at (w_tree w) h' = Some (Plain s))) \<and>
     (Inr h = Inl NotExist \<longrightarrow> wf_tree (w_tree w) \<longrightarrow> node_at (w_tree w) (elems p) = None)"
  then obtain s where s: "h = elems p" "node_at (w_tree w) h = Some (Plain s)" and wu: "same w u" by auto
  show "post (read_all env h) u (\<lambda>r v. same w v \<and> (\<forall>s. r = Inr s \<longrightarrow> node_at (w_tree w) (elems p) = Some (Plain s)))"
  proof (rule post_mono [OF read_all_law])
    fix r v
    assume v: "same u v \<and> (\<forall>s. r = Inr s \<longrightarrow> file_at u h = Some s)"
    have "same w v" by (rule same_trans [OF wu conjunct1 [OF v]])
    then show "same w v \<and> (\<forall>s. r = Inr s \<longrightarrow> node_at (w_tree w) (elems p) = Some (Plain s))"
      using v s same_content [OF wu, of h] by (auto simp: file_at_def)
  qed
qed auto

lemma reads_read_file_bytes [intro, simp]: "reads (read_file_bytes env p)"
  by (rule leavesI) (drule postD [OF read_file_bytes_law], simp)

lemma reads_revalidate_source [intro, simp]: "reads (revalidate_source_content env pl)"
  unfolding revalidate_source_content_def by (auto intro!: reads_abind)

lemma revalidate_source_law:
  "post (revalidate_source_content env pl) w (\<lambda>r v. same w v \<and>
     (r = Inr () \<longrightarrow> node_at (w_tree w) (elems (pl_canonical pl)) = Some (Plain (pl_pre_content pl))))"
  unfolding revalidate_source_content_def
  by (rule post_abind [OF read_file_bytes_law]) auto

lemma revalidate_patch_target_law:
  assumes "is_abs (en_cwd env)"
  shows "post (revalidate_patch_target env root path c) w (\<lambda>r v. same w v \<and> (r = Inr () \<longrightarrow> canonical_text (w_tree w) c))"
  unfolding revalidate_patch_target_def
  by (rule post_abind [OF resolve_file_law [OF assms]]) auto

lemma revalidate_plan_law:
  assumes "is_abs (en_cwd env)"
  shows "post (revalidate_plan env pl) w (\<lambda>r v. same w v \<and>
     (r = Inr () \<longrightarrow> canonical_text (w_tree w) (pl_canonical pl) \<and>
        (pl_move_canonical pl \<noteq> [] \<longrightarrow> canonical_text (w_tree w) (pl_move_canonical pl))))"
  (is "post _ w ?Q")
proof -
  let ?tail = "if op_kind (pl_op pl) = OpUpdate \<or> op_kind (pl_op pl) = OpDelete \<or> pl_move_canonical pl \<noteq> []
       then revalidate_source_content env pl else ret ()"
  have tail: "post ?tail u (\<lambda>r v. same u v)" for u
    by (rule post_same) auto
  have move: "post (if pl_move_canonical pl = [] then ret ()
            else revalidate_patch_target env (pl_root pl) (move_path (pl_op pl)) (pl_move_canonical pl)) u
     (\<lambda>r v. same u v \<and> (r = Inr () \<longrightarrow> pl_move_canonical pl \<noteq> [] \<longrightarrow> canonical_text (w_tree u) (pl_move_canonical pl)))" for u
    using revalidate_patch_target_law [OF assms] by (auto intro: post_mono)
  show ?thesis
    unfolding revalidate_plan_def
  proof (rule post_abind [OF revalidate_patch_target_law [OF assms]])
    fix a :: unit and u
    assume u: "same w u \<and> (Inr a = Inr () \<longrightarrow> canonical_text (w_tree w) (pl_canonical pl))"
    then have wu: "same w u" and c: "canonical_text (w_tree w) (pl_canonical pl)" by auto
    show "post (abind (if pl_move_canonical pl = [] then ret ()
            else revalidate_patch_target env (pl_root pl) (move_path (pl_op pl)) (pl_move_canonical pl)) (\<lambda>_. ?tail)) u ?Q"
    proof (rule post_abind [OF move])
      fix b :: unit and x
      assume x: "same u x \<and> (Inr b = Inr () \<longrightarrow> pl_move_canonical pl \<noteq> [] \<longrightarrow> canonical_text (w_tree u) (pl_move_canonical pl))"
      have wx: "same w x" by (rule same_trans [OF wu conjunct1 [OF x]])
      show "post ?tail x ?Q"
        by (rule post_mono [OF tail]) (use x c wu same_trans [OF wx] in \<open>auto simp: same_def\<close>)
    next
      fix e :: file_error and x
      assume x: "same u x \<and> (Inl e = Inr () \<longrightarrow> pl_move_canonical pl \<noteq> [] \<longrightarrow> canonical_text (w_tree u) (pl_move_canonical pl))"
      have "same w x" by (rule same_trans [OF wu conjunct1 [OF x]])
      then show "?Q (Inl e) x" by simp
    qed
  qed auto
qed

section \<open>The steps of a plan\<close>

text \<open>A step is its line of the report, its file, and the content that it is to leave.\<close>

type_synonym patch_step = "applied_op \<times> string \<times> string option"

definition plan_steps :: "apply_plan \<Rightarrow> patch_step list" where
  "plan_steps pl =
     (if pl_move_canonical pl \<noteq> [] then
        [((''M'', move_path (pl_op pl)), pl_move_canonical pl, Some (pl_new_content pl)),
         ((''D'', op_path (pl_op pl)), pl_canonical pl, None)]
      else case op_kind (pl_op pl) of
        OpAdd \<Rightarrow> [((''A'', op_path (pl_op pl)), pl_canonical pl, Some (pl_new_content pl))]
      | OpUpdate \<Rightarrow> [((''M'', op_path (pl_op pl)), pl_canonical pl, Some (pl_new_content pl))]
      | OpDelete \<Rightarrow> [((''D'', op_path (pl_op pl)), pl_canonical pl, None)])"

definition step_file :: "patch_step \<Rightarrow> string" where
  "step_file x = fst (snd x)"

definition touched :: "patch_step list \<Rightarrow> string list set" where
  "touched xs = elems ` step_file ` set xs"

definition all_done :: "env \<Rightarrow> string \<Rightarrow> patch_step list \<Rightarrow> world \<Rightarrow> bool" where
  "all_done env d xs v \<longleftrightarrow> (\<forall>(l, c, s) \<in> set xs. succeeded env d c s v)"

text \<open>The steps may run in this order: their files are canonical texts among those in play, no two the same.\<close>

definition good_steps :: "string set \<Rightarrow> patch_step list \<Rightarrow> bool" where
  "good_steps P xs \<longleftrightarrow> distinct (map step_file xs) \<and> (\<forall>x \<in> set xs. neat (step_file x) \<and> step_file x \<in> P)"

definition good_plan :: "apply_plan \<Rightarrow> bool" where
  "good_plan pl \<longleftrightarrow> (move_path (pl_op pl) = [] \<longleftrightarrow> pl_move_canonical pl = [])"

lemma neat_not_Nil: "neat c \<Longrightarrow> c \<noteq> []"
  unfolding neat_def by (metis show_path_not_Nil)

lemma neat_clean: "neat c \<Longrightarrow> clean c = c"
  unfolding neat_def by (metis clean_show)

lemma neat_inj: "neat c \<Longrightarrow> neat c' \<Longrightarrow> elems c = elems c' \<Longrightarrow> c = c'"
  unfolding neat_def by metis

lemma succeeded_stays:
  assumes st: "steady env P" and k: "keeps env P d (touched xs) u v" and s: "succeeded env d c s u"
    and c: "neat c" "c \<in> P" and xs: "good_steps P xs" "c \<notin> step_file ` set xs"
  shows "succeeded env d c s v"
proof -
  have fresh: "elems c \<notin> touched xs"
  proof
    assume "elems c \<in> touched xs"
    then obtain x where x: "x \<in> set xs" "elems c = elems (step_file x)" by (auto simp: touched_def)
    then have "c = step_file x" using neat_inj [OF c(1)] xs(1) by (simp add: good_steps_def)
    with x(1) xs(2) show False by simp
  qed
  have "en_path_hash env c \<notin> ids_of env (touched xs)"
  proof
    assume "en_path_hash env c \<in> ids_of env (touched xs)"
    then obtain x where x: "x \<in> set xs" "en_path_hash env c = en_path_hash env (show_path (elems (step_file x)))"
      by (auto simp: ids_of_def touched_def)
    then have "neat (step_file x)" "step_file x \<in> P" using xs(1) by (auto simp: good_steps_def)
    with x(2) c(2) st have "c = step_file x" by (auto simp: neat_def steady_def dest: inj_onD)
    with x(1) xs(2) show False by auto
  qed
  from keepsD(6) [OF k this] have "entry_of v d (en_path_hash env c) = entry_of u d (en_path_hash env c)" .
  moreover have "file_at v (elems c) = file_at u (elems c)"
    using keepsD(5) [OF k _ fresh] c(1) by (simp add: neat_def)
  ultimately show ?thesis using s by (simp add: succeeded_def recorded_def meta_of_def)
qed

lemma all_done_stays:
  assumes "steady env P" "keeps env P d (touched ys) u v" "all_done env d xs u" "good_steps P (xs @ ys)"
  shows "all_done env d xs v"
  unfolding all_done_def
proof
  fix x
  assume x: "x \<in> set xs"
  obtain l c s where e: "x = (l, c, s)" by (cases x)
  have "c \<in> step_file ` set xs" using x e by (force simp: step_file_def)
  with assms(4) have "neat c" "c \<in> P" "good_steps P ys" "c \<notin> step_file ` set ys"
    by (auto simp: good_steps_def)
  moreover have "succeeded env d c s u" using assms(3) x e by (auto simp: all_done_def)
  ultimately show "case x of (l, c, s) \<Rightarrow> succeeded env d c s v"
    using succeeded_stays [OF assms(1,2)] e by simp
qed

lemma touched_append [simp]: "touched (xs @ ys) = touched xs \<union> touched ys"
  by (simp add: touched_def image_Un)

lemma touched_Cons [simp]: "touched (x # xs) = insert (elems (step_file x)) (touched xs)"
  by (simp add: touched_def)

lemma touched_Nil [simp]: "touched [] = {}"
  by (simp add: touched_def)

text \<open>How a run of steps ends: all done, or stopped at a step after the ones reported.\<close>

definition ran :: "env \<Rightarrow> string set \<Rightarrow> string \<Rightarrow> applied_op list \<Rightarrow> patch_step list \<Rightarrow> world \<Rightarrow> file_error + 'a \<Rightarrow> world \<Rightarrow> bool" where
  "ran env P d committed xs w r v \<longleftrightarrow>
     (case r of
        Inr _ \<Rightarrow> keeps env P d (touched xs) w v \<and> all_done env d xs v
      | Inl e \<Rightarrow> \<exists>did x rest e'. xs = did @ x # rest \<and>
          e = PartialApply (success_summary (committed @ map fst did)) e' \<and>
          keeps env P d (touched (did @ [x])) w v \<and> all_done env d did v)"

section \<open>Applying a plan\<close>

lemma post_summary:
  assumes "post m w P" "\<And>e u. P (Inl e) u \<Longrightarrow> Q (Inl (PartialApply (success_summary committed) e)) u"
    "\<And>a u. P (Inr a) u \<Longrightarrow> Q (Inr a) u"
  shows "post (with_summary committed m) w Q"
  unfolding with_summary_def using assms by (intro post_or_else [OF assms(1)]) auto

text \<open>The mutation of the path itself is the last step of the plan.\<close>

definition last_step :: "apply_plan \<Rightarrow> patch_step" where
  "last_step pl = last (plan_steps pl)"

lemma plan_steps_split:
  "plan_steps pl =
     (if pl_move_canonical pl = [] then [last_step pl]
      else [((''M'', move_path (pl_op pl)), pl_move_canonical pl, Some (pl_new_content pl)), last_step pl])"
  by (simp add: plan_steps_def last_step_def split: op_kind.split)

lemma last_step_file [simp]: "step_file (last_step pl) = pl_canonical pl"
  by (simp add: plan_steps_def last_step_def step_file_def split: op_kind.split)

lemma original_mutation_law:
  assumes "steady env P" "sound_group env P d w" "wf_tree (w_tree w)"
    and "canonical_text (w_tree w) (pl_canonical pl)" "pl_canonical pl \<in> P"
  shows "post (original_mutation env d b pl) w (\<lambda>r v. keeps env P d {elems (pl_canonical pl)} w v \<and>
     (\<forall>a. r = Inr a \<longrightarrow> a = fst (last_step pl) \<and> succeeded env d (pl_canonical pl) (snd (snd (last_step pl))) v))"
proof -
  have wrote: "post (abind (write_with_snapshot env d b (pl_display pl) (pl_canonical pl) (pl_new_content pl) n)
      (\<lambda>_. ret x)) w (\<lambda>r v. keeps env P d {elems (pl_canonical pl)} w v \<and>
         (\<forall>a. r = Inr a \<longrightarrow> a = x \<and> succeeded env d (pl_canonical pl) (Some (pl_new_content pl)) v))" for n and x :: applied_op
    by (rule post_abind [OF write_with_snapshot_law [OF assms]]) auto
  have deleted: "post (abind (delete_with_snapshot env d b (pl_display pl) (pl_canonical pl)) (\<lambda>_. ret x)) w
      (\<lambda>r v. keeps env P d {elems (pl_canonical pl)} w v \<and>
         (\<forall>a. r = Inr a \<longrightarrow> a = x \<and> succeeded env d (pl_canonical pl) None v))" for x :: applied_op
    by (rule post_abind [OF delete_with_snapshot_law [OF assms]]) auto
  show ?thesis
    using wrote deleted
    by (cases "pl_move_canonical pl = []"; cases "op_kind (pl_op pl)")
       (simp_all only: original_mutation_def Let_def last_step_def plan_steps_def if_True if_False simp_thms
          op_kind.case last.simps fst_conv snd_conv list.distinct)
qed

lemma ran_stopped:
  assumes "xs = did @ x # rest" "keeps env P d (touched (did @ [x])) w v" "all_done env d did v"
  shows "ran env P d committed xs w (Inl (PartialApply (success_summary (committed @ map fst did)) e)) v"
  unfolding ran_def sum.case using assms by blast

lemma all_done_Nil [simp]: "all_done env d [] v"
  by (simp add: all_done_def)

text \<open>The steps before the last one leave the report so far and a source that is still canonical.\<close>

definition ready :: "env \<Rightarrow> string set \<Rightarrow> string \<Rightarrow> applied_op list \<Rightarrow> apply_plan \<Rightarrow> world \<Rightarrow> applied_op list \<Rightarrow> world \<Rightarrow> bool" where
  "ready env P d committed pl w cs u \<longleftrightarrow>
     (let did = butlast (plan_steps pl)
      in cs = committed @ map fst did \<and> keeps env P d (touched did) w u \<and> all_done env d did u \<and>
         canonical_text (w_tree u) (pl_canonical pl))"

lemma plan_steps_last: "plan_steps pl = butlast (plan_steps pl) @ [last_step pl]"
  by (simp add: plan_steps_split)

lemma original_step_law:
  assumes st: "steady env P" and sound: "sound_group env P d w" and wf: "wf_tree (w_tree w)"
    and good: "good_steps P (plan_steps pl)" and r: "ready env P d committed pl w cs u"
  shows "post (abind (with_summary cs (original_mutation env d src pl)) (\<lambda>c. ret (cs @ [c], op_previews pl))) u
     (\<lambda>r v. ran env P d committed (plan_steps pl) w r v \<and>
        (\<forall>a. r = Inr a \<longrightarrow> a = (committed @ map fst (plan_steps pl), op_previews pl)))"
proof -
  define did where "did = butlast (plan_steps pl)"
  define x where "x = last_step pl"
  let ?c = "pl_canonical pl"
  have steps: "plan_steps pl = did @ [x]" unfolding did_def x_def by (rule plan_steps_last)
  have cs: "cs = committed @ map fst did" and wu: "keeps env P d (touched did) w u"
    and ok: "all_done env d did u" and canon: "canonical_text (w_tree u) ?c"
    using r by (simp_all add: ready_def did_def Let_def)
  have at_c: "step_file x = ?c" by (simp add: x_def)
  have cP: "?c \<in> P" using good at_c by (auto simp: steps good_steps_def)
  have u: "sound_group env P d u" "wf_tree (w_tree u)" using keepsD(3,4) [OF wu] sound wf by simp_all
  have trans: "keeps env P d (touched (did @ [x])) w v" if k: "keeps env P d {elems ?c} u v" for v
    by (rule keeps_trans [OF keeps_mono [OF wu] keeps_mono [OF k]]) (auto simp: at_c)
  have stay: "all_done env d did v" if k: "keeps env P d {elems ?c} u v" for v
    by (rule all_done_stays [OF st, of d "[x]" u]) (use k ok good steps at_c in auto)
  have run: "post (with_summary cs (original_mutation env d src pl)) u
      (\<lambda>r v. (\<forall>e. r = Inl e \<longrightarrow> ran env P d committed (plan_steps pl) w (Inl e :: file_error + (applied_op list \<times> file_preview list)) v) \<and>
         (\<forall>a. r = Inr a \<longrightarrow> a = fst x \<and> keeps env P d (touched (plan_steps pl)) w v \<and> all_done env d (plan_steps pl) v))"
  proof (rule post_summary [OF original_mutation_law [OF st u canon cP]])
    fix e :: file_error and v
    assume "keeps env P d {elems ?c} u v \<and> (\<forall>a. Inl e = Inr a \<longrightarrow> a = fst (last_step pl) \<and>
      succeeded env d ?c (snd (snd (last_step pl))) v)"
    then have k: "keeps env P d {elems ?c} u v" by (rule conjunct1)
    have "ran env P d committed (plan_steps pl) w
        (Inl (PartialApply (success_summary (committed @ map fst did)) e) :: file_error + (applied_op list \<times> file_preview list)) v"
      by (rule ran_stopped [OF _ trans [OF k] stay [OF k]]) (simp add: steps)
    then show "(\<forall>e'. (Inl (PartialApply (success_summary cs) e) :: file_error + applied_op) = Inl e' \<longrightarrow>
        ran env P d committed (plan_steps pl) w (Inl e' :: file_error + (applied_op list \<times> file_preview list)) v) \<and>
      (\<forall>a. (Inl (PartialApply (success_summary cs) e) :: file_error + applied_op) = Inr a \<longrightarrow>
         a = fst x \<and> keeps env P d (touched (plan_steps pl)) w v \<and> all_done env d (plan_steps pl) v)"
      by (simp add: cs)
  next
    fix a :: applied_op and v
    assume v: "keeps env P d {elems ?c} u v \<and> (\<forall>b. Inr a = Inr b \<longrightarrow> b = fst (last_step pl) \<and>
      succeeded env d ?c (snd (snd (last_step pl))) v)"
    then have k: "keeps env P d {elems ?c} u v" by (rule conjunct1)
    have "succeeded env d (fst (snd x)) (snd (snd x)) v" using v at_c by (simp add: step_file_def x_def)
    then have "all_done env d (did @ [x]) v" using stay [OF k] by (auto simp: all_done_def)
    with v trans [OF k] show "(\<forall>e'. (Inr a :: file_error + applied_op) = Inl e' \<longrightarrow>
        ran env P d committed (plan_steps pl) w (Inl e' :: file_error + (applied_op list \<times> file_preview list)) v) \<and>
      (\<forall>b. (Inr a :: file_error + applied_op) = Inr b \<longrightarrow>
         b = fst x \<and> keeps env P d (touched (plan_steps pl)) w v \<and> all_done env d (plan_steps pl) v)"
      by (simp add: steps x_def)
  qed
  show ?thesis
    by (rule post_abind [OF run]) (auto simp: ran_def steps cs)
qed

lemma apply_move_dest_law:
  assumes st: "steady env P" and sound: "sound_group env P d w" and wf: "wf_tree (w_tree w)"
    and good: "good_plan pl" "good_steps P (plan_steps pl)" and wu: "same w u"
    and canon: "canonical_text (w_tree w) (pl_canonical pl)"
      "pl_move_canonical pl \<noteq> [] \<longrightarrow> canonical_text (w_tree w) (pl_move_canonical pl)"
  shows "post (apply_move_dest env d dst pl committed) u (\<lambda>r v.
     (\<forall>e. r = Inl e \<longrightarrow> ran env P d committed (plan_steps pl) w (Inl e :: file_error + (applied_op list \<times> file_preview list)) v) \<and>
     (\<forall>cs. r = Inr cs \<longrightarrow> ready env P d committed pl w cs v))"
  (is "post _ u ?Q")
proof (cases "pl_move_canonical pl = []")
  case True
  then have did: "butlast (plan_steps pl) = []" by (simp add: plan_steps_split)
  have "ready env P d committed pl w committed u"
    unfolding ready_def did using canon(1) wu same_keeps [OF wu] by (simp add: same_def)
  moreover have "move_path (pl_op pl) = []" using True good(1) by (simp add: good_plan_def)
  ultimately show ?thesis by (simp add: apply_move_dest_def)
next
  case False
  define y :: patch_step where "y = ((''M'', move_path (pl_op pl)), pl_move_canonical pl, Some (pl_new_content pl))"
  let ?m = "pl_move_canonical pl" and ?c = "pl_canonical pl"
  have steps: "plan_steps pl = [y, last_step pl]" and did: "butlast (plan_steps pl) = [y]"
    using False by (simp_all add: plan_steps_split y_def)
  have mp: "move_path (pl_op pl) \<noteq> []" using False good(1) by (simp add: good_plan_def)
  have mu: "canonical_text (w_tree u) ?m" and u: "sound_group env P d u" "wf_tree (w_tree u)"
    using canon(2) False wu sound wf same_sound [of u w] by (simp_all add: same_def)
  have mP: "?m \<in> P" and at_c: "step_file y = ?m" using good(2) by (auto simp: steps good_steps_def y_def step_file_def)
  have neat_c: "neat ?c" by (rule canonical_text_neat [OF canon(1)])
  let ?cs = "committed @ [(''M'', move_path (pl_op pl))]"
  have to_w: "keeps env P d (touched [y]) w v" if k: "keeps env P d {elems ?m} u v" for v
    using keeps_trans [OF same_keeps [OF wu] k] at_c by simp
  have wrote: "post (with_summary committed
           (write_with_snapshot env d dst (pl_move_display pl) ?m (pl_new_content pl) True)) u
     (\<lambda>r v. (\<forall>e. r = Inl e \<longrightarrow> ran env P d committed (plan_steps pl) w (Inl e :: file_error + (applied_op list \<times> file_preview list)) v) \<and>
        (r = Inr () \<longrightarrow> keeps env P d (touched [y]) w v \<and> all_done env d [y] v))"
  proof (rule post_summary [OF write_with_snapshot_law [OF st u mu mP]])
    fix e :: file_error and v
    assume "keeps env P d {elems ?m} u v \<and> ((\<exists>a. (Inl e :: file_error + unit) = Inr a) \<longrightarrow>
      succeeded env d ?m (Some (pl_new_content pl)) v)"
    then have k: "keeps env P d {elems ?m} u v" by (rule conjunct1)
    show "(\<forall>e'. (Inl (PartialApply (success_summary committed) e) :: file_error + unit) = Inl e' \<longrightarrow>
        ran env P d committed (plan_steps pl) w (Inl e' :: file_error + (applied_op list \<times> file_preview list)) v) \<and>
      ((Inl (PartialApply (success_summary committed) e) :: file_error + unit) = Inr () \<longrightarrow>
         keeps env P d (touched [y]) w v \<and> all_done env d [y] v)"
      using ran_stopped [of "plan_steps pl" "[]" y "[last_step pl]"] to_w [OF k] steps by simp
  next
    fix a :: unit and v
    assume v: "keeps env P d {elems ?m} u v \<and> ((\<exists>b. Inr a = Inr b) \<longrightarrow> succeeded env d ?m (Some (pl_new_content pl)) v)"
    then have "keeps env P d (touched [y]) w v" "all_done env d [y] v"
      using to_w by (simp_all add: all_done_def y_def)
    then show "(\<forall>e'. (Inr a :: file_error + unit) = Inl e' \<longrightarrow>
        ran env P d committed (plan_steps pl) w (Inl e' :: file_error + (applied_op list \<times> file_preview list)) v) \<and>
      (Inr a = Inr () \<longrightarrow> keeps env P d (touched [y]) w v \<and> all_done env d [y] v)" by simp
  qed
  have check: "post (with_summary ?cs (revalidate_source_content env pl)) x (\<lambda>r v. same x v \<and>
      (\<forall>e. r = Inl e \<longrightarrow> (\<exists>e'. e = PartialApply (success_summary ?cs) e')) \<and>
      (r = Inr () \<longrightarrow> node_at (w_tree x) (elems ?c) = Some (Plain (pl_pre_content pl))))" for x
    by (rule post_summary [OF revalidate_source_law]) auto
  have rest: "post (abind (with_summary ?cs (revalidate_source_content env pl)) (\<lambda>_. ret ?cs)) x ?Q"
    if x: "keeps env P d (touched [y]) w x" "all_done env d [y] x" for x
  proof (rule post_abind [OF check])
    fix e :: file_error and v
    assume v: "same x v \<and> (\<forall>e'. Inl e = Inl e' \<longrightarrow> (\<exists>e''. e' = PartialApply (success_summary ?cs) e'')) \<and>
      ((Inl e :: file_error + unit) = Inr () \<longrightarrow> node_at (w_tree x) (elems ?c) = Some (Plain (pl_pre_content pl)))"
    then obtain e' where e: "e = PartialApply (success_summary ?cs) e'" and xv: "same x v" by auto
    have kv: "keeps env P d (touched [y]) w v" by (rule keeps_trans [OF x(1) same_keeps [OF xv]])
    have "all_done env d [y] v"
      by (rule all_done_stays [OF st same_keeps [OF xv] x(2), of "[last_step pl]"]) (use good(2) steps in simp)
    from ran_stopped [OF _ keeps_mono [OF kv] this, of "plan_steps pl" "last_step pl" "[]" committed e']
    have "ran env P d committed (plan_steps pl) w
        (Inl (PartialApply (success_summary (committed @ map fst [y])) e') :: file_error + (applied_op list \<times> file_preview list)) v"
      using steps by auto
    then show "?Q (Inl e) v" by (simp add: e y_def)
  next
    fix a :: unit and v
    assume v: "same x v \<and> (\<forall>e'. (Inr a :: file_error + unit) = Inl e' \<longrightarrow> (\<exists>e''. e' = PartialApply (success_summary ?cs) e'')) \<and>
      (Inr a = Inr () \<longrightarrow> node_at (w_tree x) (elems ?c) = Some (Plain (pl_pre_content pl)))"
    then have xv: "same x v" and n: "node_at (w_tree v) (elems ?c) = Some (Plain (pl_pre_content pl))"
      by (auto simp: same_def)
    have kv: "keeps env P d (touched [y]) w v" by (rule keeps_trans [OF x(1) same_keeps [OF xv]])
    have "all_done env d [y] v"
      by (rule all_done_stays [OF st same_keeps [OF xv] x(2), of "[last_step pl]"]) (use good(2) steps in simp)
    moreover have "canonical_text (w_tree v) ?c"
      by (rule canonical_text_present [OF _ neat_c n]) (use keepsD(4) [OF kv] wf in simp)
    ultimately have "ready env P d committed pl w ?cs v"
      unfolding ready_def did using kv by (simp add: y_def)
    then show "post (ret ?cs) v ?Q" by simp
  qed
  have "post (abind (with_summary committed
           (write_with_snapshot env d dst (pl_move_display pl) ?m (pl_new_content pl) True)) (\<lambda>_.
        abind (with_summary ?cs (revalidate_source_content env pl)) (\<lambda>_. ret ?cs))) u ?Q"
    by (rule post_abind [OF wrote]) (use rest in auto)
  then show ?thesis by (simp add: apply_move_dest_def mp Let_def)
qed

lemma apply_one_law:
  assumes st: "steady env P" and sound: "sound_group env P d w" and wf: "wf_tree (w_tree w)"
    and good: "good_plan pl" "good_steps P (plan_steps pl)"
  shows "post (apply_one env d src dst pl committed) w (\<lambda>r v. ran env P d committed (plan_steps pl) w r v \<and>
     (\<forall>a. r = Inr a \<longrightarrow> a = (committed @ map fst (plan_steps pl), op_previews pl)))"
  (is "post _ w ?Q")
proof -
  have cwd: "is_abs (en_cwd env)" using st by (simp add: steady_def)
  obtain y rest where y: "plan_steps pl = y # rest" by (cases "plan_steps pl") (auto simp: plan_steps_split split: if_splits)
  have check: "post (with_summary committed (revalidate_plan env pl)) w (\<lambda>r v. same w v \<and>
      (\<forall>e. r = Inl e \<longrightarrow> (\<exists>e'. e = PartialApply (success_summary committed) e')) \<and>
      (r = Inr () \<longrightarrow> canonical_text (w_tree w) (pl_canonical pl) \<and>
         (pl_move_canonical pl \<noteq> [] \<longrightarrow> canonical_text (w_tree w) (pl_move_canonical pl))))"
    by (rule post_summary [OF revalidate_plan_law [OF cwd]]) auto
  show ?thesis
    unfolding apply_one_def
  proof (rule post_abind [OF check])
    fix e :: file_error and v
    assume v: "same w v \<and> (\<forall>e'. Inl e = Inl e' \<longrightarrow> (\<exists>e''. e' = PartialApply (success_summary committed) e'')) \<and>
      ((Inl e :: file_error + unit) = Inr () \<longrightarrow> canonical_text (w_tree w) (pl_canonical pl) \<and>
         (pl_move_canonical pl \<noteq> [] \<longrightarrow> canonical_text (w_tree w) (pl_move_canonical pl)))"
    then obtain e' where e: "e = PartialApply (success_summary committed) e'" and wv: "same w v" by auto
    have "ran env P d committed (plan_steps pl) w
        (Inl (PartialApply (success_summary (committed @ map fst ([] :: patch_step list))) e') :: file_error + (applied_op list \<times> file_preview list)) v"
      by (rule ran_stopped [where x = y and rest = rest]) (use y same_keeps [OF wv] in simp_all)
    then show "?Q (Inl e) v" by (simp add: e)
  next
    fix a :: unit and u
    assume u: "same w u \<and> (\<forall>e'. (Inr a :: file_error + unit) = Inl e' \<longrightarrow> (\<exists>e''. e' = PartialApply (success_summary committed) e'')) \<and>
      (Inr a = Inr () \<longrightarrow> canonical_text (w_tree w) (pl_canonical pl) \<and>
         (pl_move_canonical pl \<noteq> [] \<longrightarrow> canonical_text (w_tree w) (pl_move_canonical pl)))"
    have wu: "same w u" using u by (rule conjunct1)
    have canon: "canonical_text (w_tree w) (pl_canonical pl)"
      "pl_move_canonical pl \<noteq> [] \<longrightarrow> canonical_text (w_tree w) (pl_move_canonical pl)" using u by auto
    show "post (abind (apply_move_dest env d dst pl committed) (\<lambda>committed'.
        abind (with_summary committed' (original_mutation env d src pl)) (\<lambda>c. ret (committed' @ [c], op_previews pl)))) u ?Q"
    proof (rule post_abind [OF apply_move_dest_law [OF st sound wf good wu canon]])
      fix cs x
      assume "(\<forall>e. Inr cs = Inl e \<longrightarrow> ran env P d committed (plan_steps pl) w (Inl e :: file_error + (applied_op list \<times> file_preview list)) x) \<and>
        (\<forall>cs'. Inr cs = Inr cs' \<longrightarrow> ready env P d committed pl w cs' x)"
      then have "ready env P d committed pl w cs x" by simp
      then show "post (abind (with_summary cs (original_mutation env d src pl)) (\<lambda>c. ret (cs @ [c], op_previews pl))) x ?Q"
        by (rule original_step_law [OF st sound wf good(2)])
    qed auto
  qed
qed

lemma ran_extends:
  assumes st: "steady env P" and good: "good_steps P (xs @ ys)"
    and first: "keeps env P d (touched xs) w u" "all_done env d xs u"
    and rest: "ran env P d (committed @ map fst xs) ys u r v"
  shows "ran env P d committed (xs @ ys) w r v"
proof (cases r)
  case (Inr a)
  then have k: "keeps env P d (touched ys) u v" and done_ys: "all_done env d ys v" using rest by (simp_all add: ran_def)
  have "all_done env d xs v" by (rule all_done_stays [OF st k first(2) good])
  moreover have "keeps env P d (touched (xs @ ys)) w v"
    by (rule keeps_trans [OF keeps_mono [OF first(1)] keeps_mono [OF k]]) auto
  ultimately show ?thesis using done_ys Inr by (auto simp: ran_def all_done_def)
next
  case (Inl e)
  then obtain did x more e' where y: "ys = did @ x # more"
    "e = PartialApply (success_summary ((committed @ map fst xs) @ map fst did)) e'"
    "keeps env P d (touched (did @ [x])) u v" "all_done env d did v"
    using rest unfolding ran_def by auto
  have "good_steps P (xs @ did @ [x])" using good y(1) by (auto simp: good_steps_def)
  then have "all_done env d xs v" by (rule all_done_stays [OF st y(3) first(2)])
  then have "all_done env d (xs @ did) v" using y(4) by (auto simp: all_done_def)
  moreover have "keeps env P d (touched ((xs @ did) @ [x])) w v"
    by (rule keeps_trans [OF keeps_mono [OF first(1)] keeps_mono [OF y(3)]]) auto
  ultimately show ?thesis
    using ran_stopped [of "xs @ ys" "xs @ did" x more env P d w v committed e'] y(1,2) Inl by simp
qed

definition all_steps :: "apply_plan list \<Rightarrow> patch_step list" where
  "all_steps pls = concat (map plan_steps pls)"

lemma all_steps_simps [simp]: "all_steps [] = []" "all_steps (pl # pls) = plan_steps pl @ all_steps pls"
  by (simp_all add: all_steps_def)

lemma apply_plans_law:
  assumes st: "steady env P" and sound: "sound_group env P d w" and wf: "wf_tree (w_tree w)"
    and good: "\<forall>pl \<in> set pls. good_plan pl" "good_steps P (all_steps pls)"
  shows "post (apply_plans env d mk pls committed) w (\<lambda>r v. ran env P d committed (all_steps pls) w r v \<and>
     (\<forall>cs pvs. r = Inr (cs, pvs) \<longrightarrow> cs = committed @ map fst (all_steps pls) \<and> pvs = concat (map op_previews pls)))"
  using sound wf good
proof (induction pls arbitrary: committed w)
  case Nil
  then show ?case by (simp add: ran_def)
next
  case (Cons pl pls)
  let ?Q = "\<lambda>r v. ran env P d committed (all_steps (pl # pls)) w r v \<and>
     (\<forall>cs pvs. r = Inr (cs, pvs) \<longrightarrow> cs = committed @ map fst (all_steps (pl # pls)) \<and>
        pvs = concat (map op_previews (pl # pls)))"
  have g: "good_plan pl" "good_steps P (plan_steps pl)" "\<forall>pl \<in> set pls. good_plan pl" "good_steps P (all_steps pls)"
    using Cons.prems(3,4) by (auto simp: good_steps_def)
  show ?case
    unfolding apply_plans.simps
  proof (rule post_abind [OF apply_one_law [OF st Cons.prems(1,2) g(1,2)]])
    fix e :: file_error and v
    assume "ran env P d committed (plan_steps pl) w (Inl e :: file_error + (applied_op list \<times> file_preview list)) v \<and>
      (\<forall>a. (Inl e :: file_error + (applied_op list \<times> file_preview list)) = Inr a \<longrightarrow>
         a = (committed @ map fst (plan_steps pl), op_previews pl))"
    then obtain did x more e' where y: "plan_steps pl = did @ x # more"
      "e = PartialApply (success_summary (committed @ map fst did)) e'"
      "keeps env P d (touched (did @ [x])) w v" "all_done env d did v"
      unfolding ran_def by auto
    have "all_steps (pl # pls) = did @ x # (more @ all_steps pls)" using y(1) by simp
    from ran_stopped [OF this y(3,4)] show "?Q (Inl e) v" by (simp add: y(2))
  next
    fix a and u
    assume a: "ran env P d committed (plan_steps pl) w (Inr a :: file_error + (applied_op list \<times> file_preview list)) u \<and>
      (\<forall>b. (Inr a :: file_error + (applied_op list \<times> file_preview list)) = Inr b \<longrightarrow>
         b = (committed @ map fst (plan_steps pl), op_previews pl))"
    then have a': "a = (committed @ map fst (plan_steps pl), op_previews pl)" by blast
    have first: "keeps env P d (touched (plan_steps pl)) w u" "all_done env d (plan_steps pl) u"
      using a by (simp_all add: ran_def)
    have u: "sound_group env P d u" "wf_tree (w_tree u)" using keepsD(3,4) [OF first(1)] Cons.prems(1,2) by simp_all
    have gs: "good_steps P (plan_steps pl @ all_steps pls)" using Cons.prems(4) by simp
    show "post (case a of (done, pv) \<Rightarrow>
        abind (apply_plans env d mk pls done) (\<lambda>(done', pvs). ret (done', pv @ pvs))) u ?Q"
      unfolding a' prod.case
    proof (rule post_abind [OF Cons.IH [OF u g(3,4)]])
      fix e :: file_error and v
      assume v: "ran env P d (committed @ map fst (plan_steps pl)) (all_steps pls) u (Inl e :: file_error + (applied_op list \<times> file_preview list)) v \<and>
        (\<forall>cs pvs. (Inl e :: file_error + (applied_op list \<times> file_preview list)) = Inr (cs, pvs) \<longrightarrow>
           cs = (committed @ map fst (plan_steps pl)) @ map fst (all_steps pls) \<and> pvs = concat (map op_previews pls))"
      from ran_extends [OF st gs first conjunct1 [OF v]] show "?Q (Inl e) v" by simp
    next
      fix b :: "applied_op list \<times> file_preview list" and v
      assume v: "ran env P d (committed @ map fst (plan_steps pl)) (all_steps pls) u (Inr b :: file_error + (applied_op list \<times> file_preview list)) v \<and>
        (\<forall>cs pvs. (Inr b :: file_error + (applied_op list \<times> file_preview list)) = Inr (cs, pvs) \<longrightarrow>
           cs = (committed @ map fst (plan_steps pl)) @ map fst (all_steps pls) \<and> pvs = concat (map op_previews pls))"
      obtain cs pvs where b: "b = (cs, pvs)" by (cases b)
      have "ran env P d committed (plan_steps pl @ all_steps pls) w (Inr b :: file_error + (applied_op list \<times> file_preview list)) v"
        by (rule ran_extends [OF st gs first conjunct1 [OF v]])
      with v b show "post (case b of (done', pvs) \<Rightarrow> ret (done', op_previews pl @ pvs)) v ?Q"
        by (simp add: ran_def)
    qed
  qed
qed

section \<open>Targets and plans\<close>

lemma reads_checked_target [intro, simp]: "reads (checked_target env root wd p role dst)"
  unfolding checked_target_def resolve_patch_target_def by (auto intro!: reads_abind)

lemma checked_target_law:
  assumes "is_abs (en_cwd env)"
  shows "post (checked_target env root wd p role dst) w (\<lambda>r v. same w v \<and>
     (\<forall>t. r = Inr t \<longrightarrow> canonical_text (w_tree w) (pt_canonical t)))"
proof -
  have target: "post (resolve_patch_target env root p role dst) w (\<lambda>r v. same w v \<and>
     (\<forall>t. r = Inr t \<longrightarrow> canonical_text (w_tree w) (pt_canonical t)))"
    unfolding resolve_patch_target_def by (rule post_abind [OF resolve_file_law [OF assms]]) auto
  show ?thesis
    unfolding checked_target_def
  proof (rule post_abind [OF target])
    fix t :: patch_target and u
    assume "same w u \<and> (\<forall>t'. Inr t = Inr t' \<longrightarrow> canonical_text (w_tree w) (pt_canonical t'))"
    then have wu: "same w u" and t: "canonical_text (w_tree w) (pt_canonical t)" by auto
    have "post (check_write_dir_target env root ''apply_patch'' (pt_canonical t) wd) u (\<lambda>r v. same u v)"
      by (rule post_same) simp
    then show "post (abind (check_write_dir_target env root ''apply_patch'' (pt_canonical t) wd) (\<lambda>_. ret t)) u
        (\<lambda>r v. same w v \<and> (\<forall>t. r = Inr t \<longrightarrow> canonical_text (w_tree w) (pt_canonical t)))"
      by (rule post_abind) (use t in \<open>auto intro: same_trans [OF wu]\<close>)
  qed auto
qed

lemma op_targets_law:
  assumes "is_abs (en_cwd env)"
  shows "post (op_targets env root wd fops) w (\<lambda>r v. same w v \<and>
     (\<forall>ts. r = Inr ts \<longrightarrow> (\<forall>t \<in> set ts. canonical_text (w_tree w) (pt_canonical t))))"
proof (induction fops arbitrary: w)
  case (Cons fop fops)
  let ?Q = "\<lambda>r v. same w v \<and> (\<forall>ts. r = Inr ts \<longrightarrow> (\<forall>t \<in> set ts. canonical_text (w_tree w) (pt_canonical t)))"
  have dests: "post (if move_path fop = [] then ret []
      else abind (checked_target env root wd (move_path fop) RoleMoveDest True) (\<lambda>d. ret [d])) u ?Q" if wu: "same w u" for u
  proof -
    have "post (abind (checked_target env root wd (move_path fop) RoleMoveDest True) (\<lambda>d. ret [d])) u ?Q"
      by (rule post_abind [OF checked_target_law [OF assms]]) (use wu in \<open>auto intro: same_trans [OF wu] simp: same_def\<close>)
    with wu show ?thesis by simp
  qed
  show ?case
    unfolding op_targets.simps
  proof (rule post_abind [OF checked_target_law [OF assms]])
    fix t :: patch_target and u
    assume "same w u \<and> (\<forall>t'. Inr t = Inr t' \<longrightarrow> canonical_text (w_tree w) (pt_canonical t'))"
    then have wu: "same w u" and t: "canonical_text (w_tree w) (pt_canonical t)" by auto
    show "post (abind (if move_path fop = [] then ret []
            else abind (checked_target env root wd (move_path fop) RoleMoveDest True) (\<lambda>d. ret [d])) (\<lambda>ds.
          abind (op_targets env root wd fops) (\<lambda>ts. ret (t # ds @ ts)))) u ?Q"
    proof (rule post_abind [OF dests [OF wu]])
      fix ds :: "patch_target list" and x
      assume x: "?Q (Inr ds) x"
      then have wx: "same w x" by simp
      show "post (abind (op_targets env root wd fops) (\<lambda>ts. ret (t # ds @ ts))) x ?Q"
        by (rule post_abind [OF Cons.IH]) (use x t wx in \<open>auto intro: same_trans [OF wx] simp: same_def\<close>)
    qed auto
  qed auto
qed auto

lemma first_collision_law:
  assumes "first_collision seen ts = None" "\<forall>t \<in> set ts. neat (pt_canonical t)"
  shows "distinct (map pt_canonical ts) \<and> (\<forall>t \<in> set ts. pt_canonical t \<notin> set seen)"
  using assms
proof (induction ts arbitrary: seen)
  case (Cons t ts)
  have "clean (pt_canonical t) = pt_canonical t" using Cons.prems(2) by (simp add: neat_clean)
  with Cons.prems(1) have "pt_canonical t \<notin> set seen" "first_collision (pt_canonical t # seen) ts = None"
    by (simp_all split: if_splits)
  with Cons.IH [OF this(2)] Cons.prems(2) show ?case by auto
qed simp

lemma resolve_patch_targets_law:
  assumes "is_abs (en_cwd env)"
  shows "post (resolve_patch_targets env root wd fops) w (\<lambda>r v. same w v \<and>
     (\<forall>ts. r = Inr ts \<longrightarrow> (\<forall>t \<in> set ts. canonical_text (w_tree w) (pt_canonical t)) \<and> distinct (map pt_canonical ts)))"
  unfolding resolve_patch_targets_def
  by (rule post_abind [OF op_targets_law [OF assms]])
     (auto split: option.split dest!: first_collision_law intro: canonical_text_neat)

lemma same_targets_law:
  assumes "same_targets as cs = Inr ()" "length as = length cs"
    "\<forall>t \<in> set as. neat (pt_canonical t)" "\<forall>t \<in> set cs. neat (pt_canonical t)"
  shows "map pt_canonical as = map pt_canonical cs"
  using assms
proof (induction as cs rule: same_targets.induct)
  case (1 a as c cs)
  then have "clean (pt_canonical a) = pt_canonical a" "clean (pt_canonical c) = pt_canonical c"
    by (simp_all add: neat_clean)
  with 1 show ?case by (auto split: if_splits)
qed auto

text \<open>What a plan was made of: the operation, the content read for it, and the content it will leave.\<close>

definition planned :: "world \<Rightarrow> file_op \<Rightarrow> apply_plan \<Rightarrow> bool" where
  "planned w fop pl \<longleftrightarrow>
     pl_op pl = fop \<and> good_plan pl \<and>
     (op_kind fop = OpAdd \<longrightarrow> move_path fop = [] \<longrightarrow> pl_new_content pl = build_add_content fop) \<and>
     (op_kind fop = OpUpdate \<longrightarrow>
        (\<exists>s pre new hs. file_at w (elems (pl_canonical pl)) = Some s \<and> compute_updated s fop = Inr (pre, new, hs) \<and>
           pl_pre_content pl = s \<and>
           pl_new_content pl = (if move_path fop \<noteq> [] \<and> op_hunks fop = [] then s else new))) \<and>
     (op_kind fop = OpDelete \<longrightarrow> file_at w (elems (pl_canonical pl)) = Some (pl_pre_content pl))"

lemma plan_source_law:
  "post (plan_source env pl) w (\<lambda>r v. same w v \<and>
     (\<forall>q. r = Inr q \<longrightarrow> pl_op q = pl_op pl \<and> pl_canonical q = pl_canonical pl \<and> pl_move_canonical q = pl_move_canonical pl \<and>
        (op_kind (pl_op pl) = OpAdd \<longrightarrow> pl_new_content q = build_add_content (pl_op pl)) \<and>
        (op_kind (pl_op pl) = OpUpdate \<longrightarrow>
           (\<exists>s pre new hs. file_at w (elems (pl_canonical pl)) = Some s \<and> compute_updated s (pl_op pl) = Inr (pre, new, hs) \<and>
              pl_pre_content q = s \<and> pl_new_content q = new)) \<and>
        (op_kind (pl_op pl) = OpDelete \<longrightarrow> file_at w (elems (pl_canonical pl)) = Some (pl_pre_content q))))"
  (is "post _ w ?Q")
  unfolding plan_source_def
proof (rule post_abind [OF ensure_regular_existing_law])
  fix present u
  assume wu: "same w u"
  have update: "post (abind (read_file_bytes env (pl_canonical pl)) (\<lambda>data.
                  case compute_updated data (pl_op pl) of
                    Inl e \<Rightarrow> raise (Refused ''hunk not located'')
                  | Inr (pre, content, hs) \<Rightarrow>
                      ret (pl\<lparr>pl_pre_content := data, pl_pre_lines := pre, pl_new_content := content, pl_hunks := hs\<rparr>))) u ?Q"
    if "op_kind (pl_op pl) = OpUpdate"
  proof (rule post_abind [OF read_file_bytes_law])
    fix data x
    assume x: "same u x \<and> (\<forall>s. Inr data = Inr s \<longrightarrow> node_at (w_tree u) (elems (pl_canonical pl)) = Some (Plain s))"
    have wx: "same w x" by (rule same_trans [OF wu conjunct1 [OF x]])
    have "file_at w (elems (pl_canonical pl)) = Some data" using x wu by (auto simp: file_at_def same_def)
    with that wx show "post (case compute_updated data (pl_op pl) of
                    Inl e \<Rightarrow> raise (Refused ''hunk not located'')
                  | Inr (pre, content, hs) \<Rightarrow>
                      ret (pl\<lparr>pl_pre_content := data, pl_pre_lines := pre, pl_new_content := content, pl_hunks := hs\<rparr>)) x ?Q"
      by (auto split: sum.split)
  qed (auto intro: same_trans [OF wu])
  have delete_plan: "post (abind (read_file_bytes env (pl_canonical pl)) (\<lambda>data.
                  ret (pl\<lparr>pl_pre_content := data, pl_pre_lines := split_lines_raw data\<rparr>))) u ?Q"
    if "op_kind (pl_op pl) = OpDelete"
  proof (rule post_abind [OF read_file_bytes_law])
    fix data x
    assume x: "same u x \<and> (\<forall>s. Inr data = Inr s \<longrightarrow> node_at (w_tree u) (elems (pl_canonical pl)) = Some (Plain s))"
    have wx: "same w x" by (rule same_trans [OF wu conjunct1 [OF x]])
    have "file_at w (elems (pl_canonical pl)) = Some data" using x wu by (auto simp: file_at_def same_def)
    with that wx show "post (ret (pl\<lparr>pl_pre_content := data, pl_pre_lines := split_lines_raw data\<rparr>)) x ?Q" by simp
  qed (auto intro: same_trans [OF wu])
  show "post (case op_kind (pl_op pl) of
         OpAdd \<Rightarrow>
           if present then raise (Refused ''already exists'')
           else ret (pl\<lparr>pl_new_content := build_add_content (pl_op pl)\<rparr>)
       | OpUpdate \<Rightarrow>
           if \<not> present then raise (Refused ''does not exist'')
           else abind (read_file_bytes env (pl_canonical pl)) (\<lambda>data.
                  case compute_updated data (pl_op pl) of
                    Inl e \<Rightarrow> raise (Refused ''hunk not located'')
                  | Inr (pre, content, hs) \<Rightarrow>
                      ret (pl\<lparr>pl_pre_content := data, pl_pre_lines := pre, pl_new_content := content, pl_hunks := hs\<rparr>))
       | OpDelete \<Rightarrow>
           if \<not> present then raise (Refused ''does not exist'')
           else abind (read_file_bytes env (pl_canonical pl)) (\<lambda>data.
                  ret (pl\<lparr>pl_pre_content := data, pl_pre_lines := split_lines_raw data\<rparr>))) u ?Q"
    using update delete_plan wu by (cases "op_kind (pl_op pl)") auto
qed auto

lemma plan_move_law:
  "post (plan_move env t pl) w (\<lambda>r v. same w v \<and>
     (\<forall>q. r = Inr q \<longrightarrow> q = pl\<lparr>pl_move_canonical := pt_canonical t, pl_move_display := pt_abs t,
        pl_new_content := (if op_hunks (pl_op pl) = [] then pl_pre_content pl else pl_new_content pl)\<rparr>))"
  unfolding plan_move_def by (rule post_abind [OF ensure_regular_existing_law]) auto

lemma build_plans_law:
  assumes "\<forall>t \<in> set ts. pt_canonical t \<noteq> []"
  shows "post (build_plans env root fops ts) w (\<lambda>r v. same w v \<and>
     (\<forall>pls. r = Inr pls \<longrightarrow> list_all2 (planned w) fops pls \<and>
        mset (map step_file (all_steps pls)) = mset (map pt_canonical ts)))"
  using assms
proof (induction env root fops ts arbitrary: w rule: build_plans.induct)
  case (3 env root fop fops t ts)
  let ?Q = "\<lambda>r v. same w v \<and> (\<forall>pls. r = Inr pls \<longrightarrow> list_all2 (planned w) (fop # fops) pls \<and>
        mset (map step_file (all_steps pls)) = mset (map pt_canonical (t # ts)))"
  have planned_same: "planned x f q = planned w f q" if "same w x" for x f q
    using same_content [OF that] by (simp add: planned_def)
  let ?rest = "\<lambda>pl. if move_path fop = [] then
               abind (build_plans env root fops ts) (\<lambda>pls. ret (pl # pls))
             else
               (case ts of
                  [] \<Rightarrow> raise (Refused ''target plan missing'')
                | d # ts' \<Rightarrow>
                    if pt_path d \<noteq> move_path fop \<or> \<not> pt_destination d then raise (Refused ''target plan mismatch'')
                    else abind (plan_move env d pl) (\<lambda>pl'.
                         abind (build_plans env root fops ts') (\<lambda>pls. ret (pl' # pls))))"
  have more: "post (abind (build_plans env root fops us) (\<lambda>pls. ret (q # pls))) x ?Q"
    if wx: "same w x" and q: "planned w fop q" and steps: "mset (map step_file (plan_steps q)) + mset (map pt_canonical us) = mset (map pt_canonical (t # ts))"
      and ih: "\<And>w. post (build_plans env root fops us) w (\<lambda>r v. same w v \<and>
         (\<forall>pls. r = Inr pls \<longrightarrow> list_all2 (planned w) fops pls \<and>
            mset (map step_file (all_steps pls)) = mset (map pt_canonical us)))" for us q x
    by (rule post_abind [OF ih])
       (use q steps same_trans [OF wx] in \<open>auto simp: planned_same [OF wx, abs_def]\<close>)
  show ?case
  proof (cases "pt_path t \<noteq> op_path fop \<or> pt_destination t")
    case True
    then show ?thesis by auto
  next
    case False
    have "post (abind (plan_source env (fresh_plan root fop t)) ?rest) w ?Q"
    proof (rule post_abind [OF plan_source_law])
      fix pl :: apply_plan and x
      let ?f = "fresh_plan root fop t"
      assume x: "same w x \<and>
       (\<forall>q. Inr pl = Inr q \<longrightarrow> pl_op q = pl_op ?f \<and> pl_canonical q = pl_canonical ?f \<and> pl_move_canonical q = pl_move_canonical ?f \<and>
        (op_kind (pl_op ?f) = OpAdd \<longrightarrow> pl_new_content q = build_add_content (pl_op ?f)) \<and>
        (op_kind (pl_op ?f) = OpUpdate \<longrightarrow>
           (\<exists>s pre new hs. file_at w (elems (pl_canonical ?f)) = Some s \<and> compute_updated s (pl_op ?f) = Inr (pre, new, hs) \<and>
              pl_pre_content q = s \<and> pl_new_content q = new)) \<and>
        (op_kind (pl_op ?f) = OpDelete \<longrightarrow> file_at w (elems (pl_canonical ?f)) = Some (pl_pre_content q)))"
      have wx: "same w x" using x by (rule conjunct1)
      from x have pl: "pl_op pl = fop" "pl_canonical pl = pt_canonical t" "pl_move_canonical pl = []"
        "op_kind fop = OpAdd \<longrightarrow> pl_new_content pl = build_add_content fop"
        "op_kind fop = OpUpdate \<longrightarrow>
           (\<exists>s pre new hs. file_at w (elems (pt_canonical t)) = Some s \<and> compute_updated s fop = Inr (pre, new, hs) \<and>
              pl_pre_content pl = s \<and> pl_new_content pl = new)"
        "op_kind fop = OpDelete \<longrightarrow> file_at w (elems (pt_canonical t)) = Some (pl_pre_content pl)"
        by (auto simp: fresh_plan_def)
      show "post (?rest pl) x ?Q"
      proof (cases "move_path fop = []")
        case True
        have "planned w fop pl" using pl True by (auto simp: planned_def good_plan_def)
        moreover have "map step_file (plan_steps pl) = [pt_canonical t]"
          using pl(2,3) by (simp add: plan_steps_split)
        ultimately have "post (abind (build_plans env root fops ts) (\<lambda>pls. ret (pl # pls))) x ?Q"
          using 3(1) [OF False True] 3(3) by (intro more [OF wx]) auto
        with True show ?thesis by simp
      next
        case move: False
        show ?thesis
        proof (cases ts)
          case Nil
          with move wx show ?thesis by simp
        next
          case (Cons d ts')
          have "post (abind (plan_move env d pl) (\<lambda>pl'. abind (build_plans env root fops ts') (\<lambda>pls. ret (pl' # pls)))) x ?Q"
            if ok: "\<not> (pt_path d \<noteq> move_path fop \<or> \<not> pt_destination d)"
          proof (rule post_abind [OF plan_move_law])
            fix q :: apply_plan and y
            assume y: "same x y \<and> (\<forall>q'. Inr q = Inr q' \<longrightarrow> q' = pl\<lparr>pl_move_canonical := pt_canonical d, pl_move_display := pt_abs d,
              pl_new_content := (if op_hunks (pl_op pl) = [] then pl_pre_content pl else pl_new_content pl)\<rparr>)"
            then have q: "q = pl\<lparr>pl_move_canonical := pt_canonical d, pl_move_display := pt_abs d,
              pl_new_content := (if op_hunks (pl_op pl) = [] then pl_pre_content pl else pl_new_content pl)\<rparr>" by blast
            have wy: "same w y" by (rule same_trans [OF wx conjunct1 [OF y]])
            have dn: "pt_canonical d \<noteq> []" using 3(3) Cons by simp
            have "planned w fop q" using pl move dn by (auto simp: planned_def good_plan_def q)
            moreover have "map step_file (plan_steps q) = [pt_canonical d, pt_canonical t]"
              using pl(2) dn by (simp add: plan_steps_split q) (simp add: step_file_def)
            ultimately show "post (abind (build_plans env root fops ts') (\<lambda>pls. ret (q # pls))) y ?Q"
              using 3(2) [OF False move Cons ok] 3(3) Cons by (intro more [OF wy]) auto
          qed (auto intro: same_trans [OF wx])
          with move Cons wx show ?thesis by auto
        qed
      qed
    qed auto
    with False show ?thesis by simp
  qed
qed (auto simp: all_steps_def)

section \<open>The whole call\<close>

text \<open>How a call ends: validation failed and nothing changed, or the plans ran, up to a step that failed.\<close>

definition patch_outcome ::
  "env \<Rightarrow> string set \<Rightarrow> string \<Rightarrow> file_op list \<Rightarrow> patch_target list \<Rightarrow> world \<Rightarrow>
     file_error + (string \<times> file_preview list) \<Rightarrow> world \<Rightarrow> bool" where
  "patch_outcome env P d fops ts w r v \<longleftrightarrow>
     same w v \<and> (\<exists>e. r = Inl e) \<or>
     (\<exists>pls. list_all2 (planned w) fops pls \<and>
        mset (map step_file (all_steps pls)) = mset (map pt_canonical ts) \<and>
        ran env P d [] (all_steps pls) w r v \<and>
        (\<forall>a. r = Inr a \<longrightarrow> a = (success_summary (map fst (all_steps pls)), concat (map op_previews pls))))"

lemma execute_parsed_patch_law:
  assumes st: "steady env P" and sound: "sound_group env P d w" and wf: "wf_tree (w_tree w)"
    and ts: "\<forall>t \<in> set ts. neat (pt_canonical t) \<and> pt_canonical t \<in> P"
  shows "post (execute_parsed_patch env d root root_canonical wd wdc fops (Some ts)) w (patch_outcome env P d fops ts w)"
proof -
  have cwd: "is_abs (en_cwd env)" using st by (simp add: steady_def)
  let ?Q = "patch_outcome env P d fops ts w"
  have quiet: "?Q (Inl e) v" if "same w v" for e v using that by (simp add: patch_outcome_def)
  let ?mk = "plan_bound root root_canonical wd wdc"
  have run: "post (abind (apply_plans env d ?mk pls []) (\<lambda>(committed, previews).
       ret (success_summary committed, previews))) u ?Q"
    if wu: "same w u" and pls: "list_all2 (planned w) fops pls"
      "mset (map step_file (all_steps pls)) = mset (map pt_canonical ts)" and dist: "distinct (map pt_canonical ts)" for pls u
  proof -
    have u: "sound_group env P d u" "wf_tree (w_tree u)"
      using wu sound wf same_sound [of u w] by (simp_all add: same_def)
    have good: "\<forall>pl \<in> set pls. good_plan pl"
      using pls(1) by (fastforce simp: list_all2_conv_all_nth in_set_conv_nth planned_def)
    have gs: "good_steps P (all_steps pls)"
    proof -
      have "distinct (map step_file (all_steps pls))" using pls(2) dist by (metis mset_eq_imp_distinct_iff)
      moreover have "step_file ` set (all_steps pls) = pt_canonical ` set ts"
        using pls(2) by (metis list.set_map mset_eq_setD)
      ultimately show ?thesis using ts unfolding good_steps_def by (metis (no_types, lifting) imageE imageI)
    qed
    have moved: "ran env P d [] (all_steps pls) w r v" if "ran env P d [] (all_steps pls) u r v" for r :: "file_error + (applied_op list \<times> file_preview list)" and v
      using ran_extends [OF st _ _ _, of "[]" "all_steps pls" d w u "[]"] that gs same_keeps [OF wu] by simp
    show ?thesis
    proof (rule post_abind [OF apply_plans_law [OF st u good gs]])
      fix e :: file_error and v
      assume v: "ran env P d [] (all_steps pls) u (Inl e :: file_error + (applied_op list \<times> file_preview list)) v \<and>
        (\<forall>cs pvs. (Inl e :: file_error + (applied_op list \<times> file_preview list)) = Inr (cs, pvs) \<longrightarrow>
           cs = [] @ map fst (all_steps pls) \<and> pvs = concat (map op_previews pls))"
      have "ran env P d [] (all_steps pls) w (Inl e :: file_error + (string \<times> file_preview list)) v"
        using moved [OF conjunct1 [OF v]] by (simp add: ran_def)
      then show "?Q (Inl e) v" unfolding patch_outcome_def using pls by blast
    next
      fix a :: "applied_op list \<times> file_preview list" and v
      assume v: "ran env P d [] (all_steps pls) u (Inr a :: file_error + (applied_op list \<times> file_preview list)) v \<and>
        (\<forall>cs pvs. (Inr a :: file_error + (applied_op list \<times> file_preview list)) = Inr (cs, pvs) \<longrightarrow>
           cs = [] @ map fst (all_steps pls) \<and> pvs = concat (map op_previews pls))"
      obtain cs pvs where a: "a = (cs, pvs)" by (cases a)
      have r: "ran env P d [] (all_steps pls) w (Inr b :: file_error + (string \<times> file_preview list)) v" for b
        using moved [OF conjunct1 [OF v]] by (simp add: ran_def)
      have "cs = map fst (all_steps pls)" "pvs = concat (map op_previews pls)" using v a by auto
      then have "?Q (Inr (success_summary cs, pvs)) v"
        unfolding patch_outcome_def using pls r by blast
      then show "post (case a of (committed, previews) \<Rightarrow> ret (success_summary committed, previews)) v ?Q"
        by (simp add: a)
    qed
  qed
  have build: "post (abind (build_plans env root fops current) (\<lambda>plans.
     abind (apply_plans env d ?mk plans []) (\<lambda>(committed, previews). ret (success_summary committed, previews)))) u ?Q"
    if wu: "same w u" and same: "map pt_canonical ts = map pt_canonical current" and dist: "distinct (map pt_canonical current)" for current u
  proof -
    have "\<forall>t \<in> set current. pt_canonical t \<noteq> []"
    proof
      fix t assume "t \<in> set current"
      then have "pt_canonical t \<in> set (map pt_canonical ts)" using same by simp
      then have "neat (pt_canonical t)" using ts by auto
      then show "pt_canonical t \<noteq> []" by (rule neat_not_Nil)
    qed
    from build_plans_law [OF this] show ?thesis
    proof (rule post_abind)
      fix e :: file_error and v
      assume "same u v \<and> (\<forall>pls. Inl e = Inr pls \<longrightarrow> list_all2 (planned u) fops pls \<and>
        mset (map step_file (all_steps pls)) = mset (map pt_canonical current))"
      then show "?Q (Inl e) v" using quiet same_trans [OF wu] by blast
    next
      fix pls v
      assume v: "same u v \<and> (\<forall>pls'. Inr pls = Inr pls' \<longrightarrow> list_all2 (planned u) fops pls' \<and>
        mset (map step_file (all_steps pls')) = mset (map pt_canonical current))"
      have wv: "same w v" by (rule same_trans [OF wu conjunct1 [OF v]])
      have "planned u = planned w" using same_content [OF wu] by (intro ext) (simp add: planned_def)
      with v have "list_all2 (planned w) fops pls" "mset (map step_file (all_steps pls)) = mset (map pt_canonical ts)"
        by (simp_all add: same)
      from run [OF wv this] dist same show "post (abind (apply_plans env d ?mk pls [])
        (\<lambda>(committed, previews). ret (success_summary committed, previews))) v ?Q" by simp
    qed
  qed
  have compared: "post (abind (lift_sum (compare_patch_targets ts current)) (\<lambda>_.
     abind (build_plans env root fops current) (\<lambda>plans.
     abind (apply_plans env d ?mk plans []) (\<lambda>(committed, previews). ret (success_summary committed, previews))))) u ?Q"
    if wu: "same w u" and canon: "\<forall>t \<in> set current. canonical_text (w_tree w) (pt_canonical t)"
      and dist: "distinct (map pt_canonical current)" for current u
  proof (cases "compare_patch_targets ts current")
    case (Inl e)
    then show ?thesis using quiet [OF wu] by (simp add: post_def abind_def lift_sum_def)
  next
    case (Inr x)
    then have "length ts = length current" "same_targets ts current = Inr ()"
      by (auto simp: compare_patch_targets_def split: if_splits)
    with ts canon canonical_text_neat have "map pt_canonical ts = map pt_canonical current"
      by (intro same_targets_law) auto
    from build [OF wu this dist] Inr show ?thesis by (simp add: post_def abind_def lift_sum_def)
  qed
  show ?thesis
    unfolding execute_parsed_patch_def
  proof (rule post_abind [OF post_same [OF reads_revalidate_root]])
    fix a u
    assume wu: "same w u"
    show "post (abind (revalidate_write_dir_witness env root wd wdc) (\<lambda>_.
     abind (resolve_patch_targets env root wd fops) (\<lambda>current.
     abind (case Some ts of None \<Rightarrow> ret () | Some ts \<Rightarrow> lift_sum (compare_patch_targets ts current)) (\<lambda>_.
     abind (build_plans env root fops current) (\<lambda>plans.
     abind (apply_plans env d ?mk plans []) (\<lambda>(committed, previews). ret (success_summary committed, previews))))))) u ?Q"
      unfolding option.case
    proof (rule post_abind [OF post_same [OF reads_revalidate_witness]])
      fix b x
      assume ux: "same u x"
      have wx: "same w x" by (rule same_trans [OF wu ux])
      show "post (abind (resolve_patch_targets env root wd fops) (\<lambda>current.
         abind (lift_sum (compare_patch_targets ts current)) (\<lambda>_.
         abind (build_plans env root fops current) (\<lambda>plans.
         abind (apply_plans env d ?mk plans []) (\<lambda>(committed, previews). ret (success_summary committed, previews)))))) x ?Q"
      proof (rule post_abind [OF resolve_patch_targets_law [OF cwd]])
        fix current :: "patch_target list" and y
        assume y: "same x y \<and> (\<forall>ts'. Inr current = Inr ts' \<longrightarrow>
          (\<forall>t \<in> set ts'. canonical_text (w_tree x) (pt_canonical t)) \<and> distinct (map pt_canonical ts'))"
        have "same w y" by (rule same_trans [OF wx conjunct1 [OF y]])
        then show "post (abind (lift_sum (compare_patch_targets ts current)) (\<lambda>_.
         abind (build_plans env root fops current) (\<lambda>plans.
         abind (apply_plans env d ?mk plans []) (\<lambda>(committed, previews). ret (success_summary committed, previews))))) y ?Q"
          by (rule compared) (use y wx in \<open>auto simp: same_def\<close>)
      qed (use quiet same_trans [OF wx] in blast)
    qed (use quiet same_trans [OF wu] in blast)
  qed (use quiet in blast)
qed

end
