(* ===== verification/Revert_Safe.thy ===== *)
theory Revert_Safe
  imports Patch_Calls
begin

text \<open>
  Restoring: the traversal overwrites a file only when the file holds what the group wrote last, it keeps what the group
  would bring back, and when it reports nothing skipped and no error, every file is what the group was to bring back.
\<close>

section \<open>What a matching proof says\<close>

definition matches :: "env \<Rightarrow> snapshot_meta \<Rightarrow> world \<Rightarrow> bool" where
  "matches env m w \<longleftrightarrow>
     (case last_write m of
        None \<Rightarrow> False
      | Some l \<Rightarrow>
          if si_absent l then file_at w (elems (canonical_path m)) = None
          else (\<exists>s. file_at w (elems (canonical_path m)) = Some s \<and> en_content_hash env s = si_hash l))"

lemma reads_hardlinked [intro, simp]: "reads (hardlinked_leaf env p)"
  unfolding hardlinked_leaf_def by (auto intro!: reads_abind)

lemma reads_read_all [intro, simp]: "reads (read_all env h)"
  unfolding read_all_def by (auto intro!: reads_checked)

lemma leaf_node_present:
  assumes "wf_tree t" "plain es" "node_at t es = Some n" "es \<noteq> []"
  shows "leaf_node t es = Inr n"
proof -
  obtain ds x where es: "es = ds @ [x]" using assms(4) by (cases es rule: rev_exhaust) auto
  have d: "node_at t ds = Some Directory" using wf_treeD [OF assms(1), of ds x] assms(3) es by simp
  have pre: "node_at t (take k ds) = Some Directory" if "k \<le> length ds" for k
  proof (cases "drop k ds = []")
    case True
    with that d show ?thesis by simp
  next
    case False
    with wf_tree_prefix [OF assms(1), of "take k ds" "drop k ds"] d show ?thesis by simp
  qed
  have "walk_links t 40 [] (ds @ []) = walk_links t 40 ([] @ ds) []"
    by (rule walk_through) (use pre assms(2) es in auto)
  then have "walk_links t 40 [] ds = Inr ds" by simp
  then show ?thesis using d assms(3) by (simp add: leaf_node_def es)
qed

lemma missing_leaf:
  assumes "wf_tree (w_tree w)" "neat p" "leaf_node (w_tree w) (elems p) = Inl NotExist"
  shows "file_at w (elems p) = None"
proof (cases "node_at (w_tree w) (elems p)")
  case (Some n)
  moreover have "elems p \<noteq> []" using assms(3) by (auto simp: leaf_node_def)
  ultimately have "leaf_node (w_tree w) (elems p) = Inr n"
    using leaf_node_present assms(1,2) by (simp add: neat_def)
  with assms(3) show ?thesis by simp
qed (simp add: file_at_def)

lemma hash_current_law:
  "post (hash_current_file env p) w (\<lambda>r v. same w v \<and>
     (\<forall>g. r = Inr (HashedTo g) \<longrightarrow> (\<exists>s. file_at w (elems p) = Some s \<and> en_content_hash env s = g)))"
  (is "post _ w ?Q")
  unfolding hash_current_file_def
proof (rule post_try_bind [OF open_existing_law])
  fix r u
  assume r: "same w u \<and> (\<forall>h. r = Inr h \<longrightarrow> h = elems p \<and> h \<noteq> [] \<and> (\<exists>s. node_at (w_tree w) h = Some (Plain s))) \<and>
     (r = Inl NotExist \<longrightarrow> wf_tree (w_tree w) \<longrightarrow> node_at (w_tree w) (elems p) = None)"
  have wu: "same w u" using r by (rule conjunct1)
  have linked: "post (abind (try_act (hardlinked_leaf env p)) (\<lambda>q.
                case q of
                  Inl e' \<Rightarrow> if e' \<noteq> NotExist then raise e' else ret (Unreadable NoLongerRegular)
                | Inr linked \<Rightarrow> if linked then raise (Hardlink p) else ret (Unreadable NoLongerRegular))) u ?Q"
    by (rule post_try_bind [OF post_same [OF reads_hardlinked]])
       (auto intro: same_trans [OF wu] split: sum.split)
  show "post (case r of
         Inl e \<Rightarrow>
           (if e = NotExist then ret Missing
            else if not_regular_error e then
              abind (try_act (hardlinked_leaf env p)) (\<lambda>q.
                case q of
                  Inl e' \<Rightarrow> if e' \<noteq> NotExist then raise e' else ret (Unreadable NoLongerRegular)
                | Inr linked \<Rightarrow> if linked then raise (Hardlink p) else ret (Unreadable NoLongerRegular))
            else raise e)
       | Inr h \<Rightarrow> abind (read_all env h) (\<lambda>s. ret (HashedTo (en_content_hash env s)))) u ?Q"
  proof (cases r)
    case (Inl e)
    with linked wu show ?thesis by simp
  next
    case (Inr h)
    then have h: "h = elems p" using r by simp
    have "post (abind (read_all env h) (\<lambda>s. ret (HashedTo (en_content_hash env s)))) u ?Q"
      by (rule post_abind [OF read_all_law]) (use h same_content [OF wu] in \<open>auto intro: same_trans [OF wu]\<close>)
    then show ?thesis by (simp add: Inr)
  qed
qed

lemma current_matches_law:
  assumes "wf_tree (w_tree w)" "neat p" "canonical_path m = p"
  shows "post (current_matches_last_write env p (last_write m)) w (\<lambda>r v. same w v \<and> (r = Inr None \<longrightarrow> matches env m w))"
  (is "post _ w ?Q")
proof (cases "last_write m")
  case None
  then show ?thesis by (simp add: current_matches_last_write_def)
next
  case (Some l)
  show ?thesis
  proof (cases "si_absent l")
    case True
    have "post (abind (try_act (os_lstat env (elems p))) (\<lambda>r.
              case r of Inr _ \<Rightarrow> ret (Some ExistsButLeftAbsent) | Inl e \<Rightarrow> if e = NotExist then ret None else raise e)) w ?Q"
      by (rule post_try_bind [OF os_lstat_law])
         (use True Some assms missing_leaf in \<open>auto simp: matches_def split: sum.split\<close>)
    with True Some show ?thesis by (simp add: current_matches_last_write_def)
  next
    case False
    have "post (abind (hash_current_file env p) (\<lambda>c.
              case c of
                Unreadable reason \<Rightarrow> ret (Some reason)
              | Missing \<Rightarrow> ret (Some MissingButWrote)
              | HashedTo got \<Rightarrow> ret (if got = si_hash l then None else Some ContentChanged))) w ?Q"
      by (rule post_abind [OF hash_current_law])
         (use False Some assms(3) in \<open>auto simp: matches_def split: current_file.split\<close>)
    with False Some show ?thesis by (simp add: current_matches_last_write_def)
  qed
qed

section \<open>The path of an entry\<close>

lemma neat_path_join: "is_abs p \<Longrightarrow> neat (path_join [p, q])"
proof -
  assume "is_abs p"
  then have "is_abs (path_join [p, q])" by (rule path_join_abs)
  moreover have "clean (path_join [p, q]) = path_join [p, q]"
  proof -
    have "p \<noteq> []" using \<open>is_abs p\<close> by (auto simp: is_abs_def)
    then obtain r where "is_abs r" "path_join [p, q] = clean r"
      using \<open>is_abs p\<close> by (cases "q = []") (auto simp: path_join_def intro: that [of p] that [of "p @ slash # q"])
    then show ?thesis by (simp add: clean_clean)
  qed
  ultimately show ?thesis unfolding neat_def by (metis clean_is_show elems_plain)
qed

lemma validate_restore_law:
  assumes "is_abs (en_cwd env)"
  shows "post (validate_restore_path env i m) w (\<lambda>r v. same w v \<and>
     (\<forall>p. r = Inr (Inl p) \<longrightarrow> p = canonical_path m \<and> neat p \<and> i = en_path_hash env p))"
  (is "post _ w ?Q")
proof -
  have restore: "post (validate_canonical_restore_path env m) w ?Q" if "en_path_hash env (canonical_path m) = i"
    unfolding validate_canonical_restore_path_def resolve_file_path_def
    by (rule post_abind [OF resolve_file_law [OF assms]])
       (use that canonical_text_neat in \<open>auto split: if_splits\<close>)
  have delete_path: "post (validate_canonical_delete_path env m) w (\<lambda>r v. same w v \<and>
     (\<forall>p. r = Inr p \<longrightarrow> p = canonical_path m \<and> neat p))"
    unfolding validate_canonical_delete_path_def
  proof (rule post_abind [OF go_abs_law [OF assms]])
    fix a u
    assume "same w u \<and> (\<forall>q. Inr a = Inr q \<longrightarrow> is_abs q)"
    then have wu: "same w u" by (rule conjunct1)
    show "post (abind (resolve_abs_path env (show_path (butlast (elems a)))) (\<lambda>(parent, _).
       let resolved = path_join [parent, base_name a]
       in if resolved \<noteq> canonical_path m then raise (CanonicalChanged (canonical_path m) resolved)
          else ret (canonical_path m))) u (\<lambda>r v. same w v \<and> (\<forall>p. r = Inr p \<longrightarrow> p = canonical_path m \<and> neat p))"
    proof (rule post_abind [OF resolve_abs_law [OF is_abs_show]])
      fix q v
      assume q: "same u v \<and> (\<forall>q'. Inr q = Inr q' \<longrightarrow> canonical_text (w_tree u) (fst q'))"
      have wv: "same w v" by (rule same_trans [OF wu conjunct1 [OF q]])
      obtain parent b where qq: "q = (parent, b)" by (cases q)
      have "neat (path_join [parent, base_name a])"
        by (rule neat_path_join) (use q qq canonical_textD(1) in auto)
      with wv show "post (case q of (parent, _) \<Rightarrow>
         let resolved = path_join [parent, base_name a]
         in if resolved \<noteq> canonical_path m then raise (CanonicalChanged (canonical_path m) resolved)
            else ret (canonical_path m)) v (\<lambda>r v. same w v \<and> (\<forall>p. r = Inr p \<longrightarrow> p = canonical_path m \<and> neat p))"
        by (auto simp: qq Let_def)
    qed (auto intro: same_trans [OF wu])
  qed auto
  have "post (abind (validate_canonical_delete_path env m) (\<lambda>p. ret (Inl p))) w ?Q" if "en_path_hash env (canonical_path m) = i"
    by (rule post_abind [OF delete_path]) (use that in auto)
  with restore show ?thesis by (simp add: validate_restore_path_def)
qed

section \<open>Restoring one entry\<close>

lemma reads_open_original [intro, simp]: "reads (open_original env d i)"
  unfolding open_original_def by (auto intro!: reads_checked)

lemma open_original_law:
  "post (open_original env d i) w (\<lambda>r v. same w v \<and>
     (\<forall>s. r = Inr s \<longrightarrow> Option.bind (entry_of w d i) en_original = Some s))"
  by (rule postI, rename_tac r v, case_tac r)
     (auto simp: open_original_def act_simps split: option.splits)

lemma open_for_write_keeps:
  assumes "preimage env d w (elems p) \<noteq> None"
  shows "post (open_for_write env p) w (\<lambda>r v. keeps env P d {elems p} w v \<and>
     preimage env d v (elems p) = preimage env d w (elems p) \<and> w_groups v = w_groups w \<and>
     (\<forall>h ex. r = Inr (h, ex) \<longrightarrow> h = elems p \<and> (\<exists>s. node_at (w_tree v) h = Some (Plain s))))"
proof (rule post_mono [OF open_for_write_law])
  fix r v
  assume r: "((\<exists>e. r = Inl e) \<longrightarrow> grows w v) \<and>
     (\<forall>h ex. r = Inr (h, ex) \<longrightarrow>
        h = elems p \<and> h \<noteq> [] \<and> (\<exists>s. node_at (w_tree v) h = Some (Plain s)) \<and> only_at h w v \<and>
        (ex \<longrightarrow> grows w v) \<and> (\<not> ex \<longrightarrow> node_at (w_tree w) h = None))"
  have o: "only_at (elems p) w v" using r grows_only [of w v "elems p"] by (cases r) auto
  from only_at_keeps [OF o assms] only_at_groups [OF o] r
  show "keeps env P d {elems p} w v \<and> preimage env d v (elems p) = preimage env d w (elems p) \<and> w_groups v = w_groups w \<and>
     (\<forall>h ex. r = Inr (h, ex) \<longrightarrow> h = elems p \<and> (\<exists>s. node_at (w_tree v) h = Some (Plain s)))" by auto
qed

text \<open>What a restore leaves alone: the entry of the file, whatever happened to the file.\<close>

definition restoring :: "env \<Rightarrow> string set \<Rightarrow> string \<Rightarrow> string \<Rightarrow> world \<Rightarrow> world \<Rightarrow> bool" where
  "restoring env P d p w v \<longleftrightarrow>
     keeps env P d {elems p} w v \<and> preimage env d v (elems p) = preimage env d w (elems p)"

lemma restoring_trans: "restoring env P d p w u \<Longrightarrow> restoring env P d p u v \<Longrightarrow> restoring env P d p w v"
  using keeps_trans [of env P d "{elems p}" w u v] by (simp add: restoring_def)

lemma same_restoring: "same w v \<Longrightarrow> restoring env P d p w v"
  using same_keeps [of w v env P d "{elems p}"] same_preimage [of v w env d "elems p"] by (simp add: restoring_def same_def)

lemma restore_file_law:
  assumes held: "preimage env d w (elems p) \<noteq> None"
  shows "post (restore_file env d i p) w (\<lambda>r v. restoring env P d p w v \<and>
     (r = Inr () \<longrightarrow> (\<exists>s. Option.bind (entry_of w d i) en_original = Some s \<and> file_at v (elems p) = Some s)))"
  (is "post _ w ?Q")
  unfolding restore_file_def
proof (rule post_abind [OF open_original_law])
  fix s u
  assume "same w u \<and> (\<forall>t. Inr s = Inr t \<longrightarrow> Option.bind (entry_of w d i) en_original = Some t)"
  then have wu: "same w u" and s: "Option.bind (entry_of w d i) en_original = Some s" by simp_all
  show "post (abind (try_act (os_lstat env (elems p))) (\<lambda>l.
       if (case l of Inr n \<Rightarrow> \<not> is_regular n | Inl e \<Rightarrow> e \<noteq> NotExist)
       then raise (case l of Inr n \<Rightarrow> NonRegular p | Inl e \<Rightarrow> e)
       else abind (open_for_write env p) (\<lambda>(h, _). abind (write_replacement env h s)
              (\<lambda>(_, err). case err of Some e \<Rightarrow> raise e | None \<Rightarrow> ret ())))) u ?Q"
  proof (rule post_try_bind [OF post_same [OF reads_lstat]])
    fix l x
    assume "same u x"
    then have wx: "same w x" by (rule same_trans [OF wu])
    have rx: "restoring env P d p w x" by (rule same_restoring [OF wx])
    have "post (abind (open_for_write env p) (\<lambda>(h, _). abind (write_replacement env h s)
              (\<lambda>(_, err). case err of Some e \<Rightarrow> raise e | None \<Rightarrow> ret ()))) x ?Q"
    proof (rule post_abind [OF open_for_write_keeps [where P = P]])
      show "preimage env d x (elems p) \<noteq> None" using held rx by (simp add: restoring_def)
    next
      fix hx :: "string list \<times> bool" and y
      obtain h ex where hx: "hx = (h, ex)" by (cases hx)
      assume y: "keeps env P d {elems p} x y \<and> preimage env d y (elems p) = preimage env d x (elems p) \<and> w_groups y = w_groups x \<and>
        (\<forall>h ex. Inr hx = Inr (h, ex) \<longrightarrow> h = elems p \<and> (\<exists>s. node_at (w_tree y) h = Some (Plain s)))"
      then obtain s0 where h: "h = elems p" "node_at (w_tree y) (elems p) = Some (Plain s0)" using hx by auto
      have "restoring env P d p x y" using y by (simp add: restoring_def)
      then have ry: "restoring env P d p w y" by (rule restoring_trans [OF rx])
      have held': "preimage env d y (elems p) \<noteq> None" using held ry by (simp add: restoring_def)
      have "post (abind (write_replacement env (elems p) s)
              (\<lambda>(_, err). case err of Some e \<Rightarrow> raise e | None \<Rightarrow> ret ())) y ?Q"
      proof (rule post_abind [OF replacement_law [OF h(2) held', where P = P]])
        fix a :: "bool \<times> file_error option" and v
        assume a: "keeps env P d {elems p} y v \<and> preimage env d v (elems p) = preimage env d y (elems p) \<and>
          (\<exists>full err. Inr a = Inr (full, err) \<and> (full \<longrightarrow> file_at v (elems p) = Some s) \<and> (err = None \<longrightarrow> full))"
        then have "restoring env P d p y v" by (simp add: restoring_def)
        then have "restoring env P d p w v" by (rule restoring_trans [OF ry])
        with a s show "post (case a of (_, err) \<Rightarrow> case err of Some e \<Rightarrow> raise e | None \<Rightarrow> ret ()) v ?Q"
          by (auto split: option.splits)
      qed auto
      then show "post (case hx of (h, _) \<Rightarrow> abind (write_replacement env h s)
              (\<lambda>(_, err). case err of Some e \<Rightarrow> raise e | None \<Rightarrow> ret ())) y ?Q"
        by (simp add: hx h(1))
    next
      fix e :: file_error and y
      assume "keeps env P d {elems p} x y \<and> preimage env d y (elems p) = preimage env d x (elems p) \<and> w_groups y = w_groups x \<and>
        (\<forall>h ex. Inl e = Inr (h, ex) \<longrightarrow> h = elems p \<and> (\<exists>s. node_at (w_tree y) h = Some (Plain s)))"
      then have "restoring env P d p x y" by (simp add: restoring_def)
      then show "?Q (Inl e) y" using restoring_trans [OF rx] by simp
    qed
    then show "post (if (case l of Inr n \<Rightarrow> \<not> is_regular n | Inl e \<Rightarrow> e \<noteq> NotExist)
       then raise (case l of Inr n \<Rightarrow> NonRegular p | Inl e \<Rightarrow> e)
       else abind (open_for_write env p) (\<lambda>(h, _). abind (write_replacement env h s)
              (\<lambda>(_, err). case err of Some e \<Rightarrow> raise e | None \<Rightarrow> ret ()))) x ?Q"
      using rx by (simp split: sum.split)
  qed
qed (auto intro: same_restoring)

text \<open>The path of the entry, its metadata read before.\<close>

lemma held_entry:
  assumes "meta_of w d i = Some m" "canonical_path m = p" "neat p" "i = en_path_hash env p"
  shows "preimage env d w (elems p) =
     Some (if existed m then Option.bind (entry_of w d i) en_original else None)"
proof -
  have "show_path (elems p) = p" using assms(3) by (simp add: neat_def)
  moreover obtain e where "entry_of w d i = Some e" "en_meta e = Some m"
    using assms(1) by (cases "entry_of w d i") (auto simp: meta_of_def)
  ultimately show ?thesis
    using assms(2,4) by (simp add: preimage_def entry_preimage_def)
qed

text \<open>An entry that may be restored: it is filed under the digest of its path, and the file holds what was written last.\<close>

definition entry_fits :: "env \<Rightarrow> snapshot_meta \<Rightarrow> string \<Rightarrow> world \<Rightarrow> bool" where
  "entry_fits env m i w \<longleftrightarrow> neat (canonical_path m) \<and> i = en_path_hash env (canonical_path m) \<and> matches env m w"

lemma restore_one_law:
  assumes st: "steady env P" and wf: "wf_tree (w_tree w)" and m: "meta_of w d i = Some m"
  shows "post (restore_one env d i m) w (\<lambda>r v.
     restoring env P d (canonical_path m) w v \<and> (same w v \<or> entry_fits env m i w) \<and>
     (\<forall>sk. r = Inr (Some sk) \<longrightarrow> same w v) \<and>
     (r = Inr None \<longrightarrow> neat (canonical_path m) \<and> i = en_path_hash env (canonical_path m) \<and>
        preimage env d v (elems (canonical_path m)) = Some (file_at v (elems (canonical_path m)))))"
  (is "post _ w ?Q")
  unfolding restore_one_def
proof (rule post_abind [OF validate_restore_law])
  show "is_abs (en_cwd env)" using st by (simp add: steady_def)
next
  fix e :: file_error and u
  assume "same w u \<and> (\<forall>p. Inl e = Inr (Inl p) \<longrightarrow> p = canonical_path m \<and> neat p \<and> i = en_path_hash env p)"
  then show "?Q (Inl e) u" using same_restoring by blast
next
  fix q :: "string + skipped_revert" and u
  assume q: "same w u \<and> (\<forall>p. Inr q = Inr (Inl p) \<longrightarrow> p = canonical_path m \<and> neat p \<and> i = en_path_hash env p)"
  then have wu: "same w u" by (rule conjunct1)
  let ?p = "canonical_path m"
  let ?mutate = "if \<not> existed m then
                   abind (or_else (remove_leaf env ?p) (\<lambda>e. if e = NotExist then ret () else raise e)) (\<lambda>_. ret None)
                 else abind (restore_file env d i ?p) (\<lambda>_. ret None)"
  have mutate: "post ?mutate x ?Q" if wx: "same w x" and p: "neat ?p" "i = en_path_hash env ?p" and ok: "entry_fits env m i w" for x
  proof -
    have pre: "preimage env d x (elems ?p) = Some (if existed m then Option.bind (entry_of w d i) en_original else None)"
    proof -
      have "preimage env d x (elems ?p) = preimage env d w (elems ?p)"
        using wx by (intro same_preimage) (simp add: same_def)
      with held_entry [OF m refl p(1) p(2)] show ?thesis by simp
    qed
    have rx: "restoring env P d ?p w x" by (rule same_restoring [OF wx])
    show ?thesis
    proof (cases "existed m")
      case True
      have "post (abind (restore_file env d i ?p) (\<lambda>_. ret None)) x ?Q"
      proof (rule post_abind [OF restore_file_law [where P = P]])
        show "preimage env d x (elems ?p) \<noteq> None" using pre by simp
      next
        fix e :: file_error and v
        assume "restoring env P d ?p x v \<and> (Inl e = Inr () \<longrightarrow>
          (\<exists>s. Option.bind (entry_of x d i) en_original = Some s \<and> file_at v (elems ?p) = Some s))"
        then show "?Q (Inl e) v" using restoring_trans [OF rx] ok by simp
      next
        fix a v
        assume v: "restoring env P d ?p x v \<and> (Inr a = Inr () \<longrightarrow>
          (\<exists>s. Option.bind (entry_of x d i) en_original = Some s \<and> file_at v (elems ?p) = Some s))"
        have "preimage env d v (elems ?p) = Some (file_at v (elems ?p))"
          using v pre True same_entry [OF wx, of d i] by (auto simp: restoring_def)
        with v restoring_trans [OF rx] ok p show "post (ret None) v ?Q" by simp
      qed
      with True show ?thesis by simp
    next
      case False
      have gone: "post (or_else (remove_leaf env ?p) (\<lambda>e. if e = NotExist then ret () else raise e)) x
          (\<lambda>r v. restoring env P d ?p w v \<and> (r = Inr () \<longrightarrow> file_at v (elems ?p) = None))"
      proof (rule post_or_else [OF remove_leaf_law])
        fix a v
        assume v: "((\<exists>e. Inr a = Inl e) \<longrightarrow> same x v) \<and>
          (Inr a = Inr () \<longrightarrow> elems ?p \<noteq> [] \<and> only_at (elems ?p) x v \<and> node_at (w_tree v) (elems ?p) = None) \<and>
          (Inr a = Inl NotExist \<longrightarrow> wf_tree (w_tree x) \<longrightarrow> node_at (w_tree x) (elems ?p) = None)"
        then have o: "only_at (elems ?p) x v" and n: "file_at v (elems ?p) = None" by (simp_all add: file_at_def)
        have "restoring env P d ?p x v" 
          using only_at_keeps(1) [OF o, where P = P] only_at_keeps(2) [OF o] pre by (simp add: restoring_def)
        with n restoring_trans [OF rx] show "restoring env P d ?p w v \<and> (Inr a = Inr () \<longrightarrow> file_at v (elems ?p) = None)"
          by simp
      next
        fix e v
        assume v: "((\<exists>e'. Inl e = Inl e') \<longrightarrow> same x v) \<and>
          (Inl e = Inr () \<longrightarrow> elems ?p \<noteq> [] \<and> only_at (elems ?p) x v \<and> node_at (w_tree v) (elems ?p) = None) \<and>
          (Inl e = Inl NotExist \<longrightarrow> wf_tree (w_tree x) \<longrightarrow> node_at (w_tree x) (elems ?p) = None)"
        then have wv: "same w v" using same_trans [OF wx] by simp
        show "post (if e = NotExist then ret () else raise e) v
           (\<lambda>r v. restoring env P d ?p w v \<and> (r = Inr () \<longrightarrow> file_at v (elems ?p) = None))"
          using same_restoring [OF wv] v wf wx wv by (auto simp: file_at_def same_def)
      qed
      have "post (abind (or_else (remove_leaf env ?p) (\<lambda>e. if e = NotExist then ret () else raise e)) (\<lambda>_. ret None)) x ?Q"
        by (rule post_abind [OF gone])
           (use ok p pre rx False in \<open>auto simp: restoring_def\<close>)
      with False show ?thesis by simp
    qed
  qed
  have current: "post (abind (current_matches_last_write env ?p (last_write m)) (\<lambda>reason.
             case reason of Some why \<Rightarrow> ret (Some \<lparr>sk_path = original_path m, sk_reason = why\<rparr>) | None \<Rightarrow> ?mutate)) u ?Q"
    if p: "neat ?p" "i = en_path_hash env ?p"
  proof (rule post_abind [OF current_matches_law])
    show "wf_tree (w_tree u)" using wf wu by (simp add: same_def)
    show "neat ?p" by (rule p(1))
    show "canonical_path m = ?p" by (rule refl)
  next
    fix e :: file_error and x
    assume "same u x \<and> (Inl e = Inr None \<longrightarrow> matches env m u)"
    then have "same w x" using same_trans [OF wu] by blast
    then show "?Q (Inl e) x" using same_restoring by blast
  next
    fix reason :: "skip_reason option" and x
    assume x: "same u x \<and> (Inr reason = Inr None \<longrightarrow> matches env m u)"
    then have wx: "same w x" using same_trans [OF wu] by blast
    show "post (case reason of Some why \<Rightarrow> ret (Some \<lparr>sk_path = original_path m, sk_reason = why\<rparr>) | None \<Rightarrow> ?mutate) x ?Q"
    proof (cases reason)
      case None
      have "matches env m w" using x None wu same_content [OF wu] by (auto simp: matches_def split: option.splits)
      with p have "entry_fits env m i w" by (simp add: entry_fits_def)
      with mutate [OF wx p] None show ?thesis by simp
    next
      case (Some why)
      with wx same_restoring [OF wx] show ?thesis by simp
    qed
  qed
  show "post (case q of Inr sk \<Rightarrow> ret (Some sk)
       | Inl path \<Rightarrow>
           abind (current_matches_last_write env path (last_write m)) (\<lambda>reason.
             case reason of
               Some why \<Rightarrow> ret (Some \<lparr>sk_path = original_path m, sk_reason = why\<rparr>)
             | None \<Rightarrow>
                 if \<not> existed m then
                   abind (or_else (remove_leaf env path) (\<lambda>e. if e = NotExist then ret () else raise e))
                     (\<lambda>_. ret None)
                 else abind (restore_file env d i path) (\<lambda>_. ret None))) u ?Q"
  proof (cases q)
    case (Inl path)
    then have "path = ?p" "neat ?p" "i = en_path_hash env ?p" using q by auto
    with current show ?thesis by (simp add: Inl)
  next
    case (Inr sk)
    with wu same_restoring [OF wu] show ?thesis by simp
  qed
qed

section \<open>The traversal of a group\<close>

text \<open>What a traversal over the entries \<open>is\<close> may change, with the ledger \<open>L\<close> of skipped entries: files of fitting entries
  that are not in the ledger, and those entries.\<close>

definition traversed :: "env \<Rightarrow> string set \<Rightarrow> string \<Rightarrow> string set \<Rightarrow> string set \<Rightarrow> world \<Rightarrow> world \<Rightarrow> bool" where
  "traversed env P d is L w v \<longleftrightarrow>
     keeps env P d UNIV w v \<and>
     (\<forall>j. j \<notin> is \<longrightarrow> entry_of v d j = entry_of w d j) \<and>
     (\<forall>es. plain es \<longrightarrow> file_at v es \<noteq> file_at w es \<longrightarrow>
        (\<exists>i m. i \<in> is \<and> i \<notin> L \<and> meta_of w d i = Some m \<and> es = elems (canonical_path m) \<and> entry_fits env m i w))"

lemma same_traversed: "same w v \<Longrightarrow> traversed env P d is L w v"
  using same_keeps [of w v env P d UNIV] same_content [of w v] same_entry [of w v d] by (simp add: traversed_def)

lemma entry_fits_cong: "file_at v (elems (canonical_path m)) = file_at w (elems (canonical_path m)) \<Longrightarrow> entry_fits env m i v = entry_fits env m i w"
  by (simp add: entry_fits_def matches_def split: option.split)

lemma traversed_trans:
  assumes a: "traversed env P d I L w u" and b: "traversed env P d J L' u v" and "I \<inter> J = {}" "L \<subseteq> L'"
  shows "traversed env P d (I \<union> J) L w v"
  unfolding traversed_def
proof (intro conjI allI impI)
  show "keeps env P d UNIV w v" using a b keeps_trans [of env P d UNIV w u v] by (simp add: traversed_def)
  show "entry_of v d j = entry_of w d j" if "j \<notin> I \<union> J" for j
    using a b that by (simp add: traversed_def)
next
  fix es
  assume es: "plain es" "file_at v es \<noteq> file_at w es"
  show "\<exists>i m. i \<in> I \<union> J \<and> i \<notin> L \<and> meta_of w d i = Some m \<and> es = elems (canonical_path m) \<and> entry_fits env m i w"
  proof (cases "file_at u es = file_at w es")
    case False
    with a es(1) show ?thesis unfolding traversed_def by blast
  next
    case True
    then obtain j m where j: "j \<in> J" "j \<notin> L'" "meta_of u d j = Some m" "es = elems (canonical_path m)" "entry_fits env m j u"
      using b es unfolding traversed_def by metis
    have "entry_of u d j = entry_of w d j" using a j(1) assms(3) by (auto simp: traversed_def)
    then have "meta_of w d j = Some m" using j(3) by (simp add: meta_of_def)
    moreover have "entry_fits env m j w" using j(5) entry_fits_cong [of u m w env j] True j(4) by simp
    ultimately show ?thesis using j assms(4) by blast
  qed
qed

lemma entry_traversed:
  assumes m: "meta_of w d i = Some m" "entry_fits env m i w" "i \<notin> L" and k: "keeps env P d {elems (canonical_path m)} w v"
  shows "traversed env P d {i} L w v"
proof -
  have ids: "ids_of env {elems (canonical_path m)} = {i}"
    using m(2) unfolding ids_of_def entry_fits_def neat_def by simp
  have "keeps env P d UNIV w v" by (rule keeps_mono [OF k]) simp
  moreover have "entry_of v d j = entry_of w d j" if "j \<noteq> i" for j
    by (rule keepsD(6) [OF k]) (simp add: ids that)
  moreover have "es = elems (canonical_path m)" if "plain es" "file_at v es \<noteq> file_at w es" for es
    using keepsD(5) [OF k that(1)] that(2) by blast
  ultimately show ?thesis using m unfolding traversed_def by blast
qed

lemma revert_entry_law:
  assumes st: "steady env P" and wf: "wf_tree (w_tree w)"
  shows "post (revert_entry env d i s) w (\<lambda>r v. \<exists>s' e. r = Inr (s', e) \<and>
     traversed env P d {i} (set (rs_skipped_ids s)) w v \<and>
     set (rs_skipped_ids s) \<subseteq> set (rs_skipped_ids s') \<and>
     (e = None \<longrightarrow> rs_skipped_ids s' = [] \<longrightarrow> entry_of v d i = None))"
  (is "post _ w ?Q")
  unfolding revert_entry_def
proof (rule post_try_bind [OF read_meta_law])
  fix r :: "file_error + snapshot_meta" and u
  assume r: "same w u \<and> (\<forall>m. r = Inr m \<longrightarrow> meta_of w d i = Some m)"
  then have wu: "same w u" by (rule conjunct1)
  have wfu: "wf_tree (w_tree u)" using wf wu by (simp add: same_def)
  have clean: "clean_removal env" using st by (simp add: steady_def)
  have go: "post (abind (try_act (restore_one env d i m)) (\<lambda>q.
                  case q of
                    Inl e \<Rightarrow> ret (s, Some e)
                  | Inr (Some sk) \<Rightarrow> ret (note_skipped i sk s, None)
                  | Inr None \<Rightarrow>
                      abind (try_act (remove_entry_dir env d i)) (\<lambda>q.
                        ret (note_restored m s, case q of Inl e \<Rightarrow> Some e | Inr _ \<Rightarrow> None)))) u ?Q"
    if m: "meta_of w d i = Some m" and unskipped: "i \<notin> set (rs_skipped_ids s)" for m
  proof -
    let ?p = "canonical_path m"
    have mu: "meta_of u d i = Some m" using m same_entry [OF wu, of d i] by (simp add: meta_of_def)
    have fw: "entry_fits env m i u \<Longrightarrow> entry_fits env m i w" using entry_fits_cong [of u m w env i] same_content [OF wu] by simp
    have moved: "traversed env P d {i} (set (rs_skipped_ids s)) w v"
      if "keeps env P d {elems ?p} u v" "same u v \<or> entry_fits env m i u" for v
      using that(2)
    proof
      assume "same u v"
      then show ?thesis by (intro same_traversed same_trans [OF wu])
    next
      assume "entry_fits env m i u"
      then show ?thesis
        by (intro entry_traversed [OF m fw unskipped] keeps_trans [OF same_keeps [OF wu] that(1)])
    qed
    show ?thesis
    proof (rule post_try_bind [OF restore_one_law [OF st wfu mu]])
      fix q :: "file_error + skipped_revert option" and x
      assume q: "restoring env P d ?p u x \<and> (same u x \<or> entry_fits env m i u) \<and> (\<forall>sk. q = Inr (Some sk) \<longrightarrow> same u x) \<and>
        (q = Inr None \<longrightarrow> neat ?p \<and> i = en_path_hash env ?p \<and> preimage env d x (elems ?p) = Some (file_at x (elems ?p)))"
      then have ux: "keeps env P d {elems ?p} u x" and how: "same u x \<or> entry_fits env m i u" by (simp_all add: restoring_def)
      note wx = moved [OF ux how]
      have drop: "post (abind (try_act (remove_entry_dir env d i)) (\<lambda>q.
                        ret (note_restored m s, case q of Inl e \<Rightarrow> Some e | Inr _ \<Rightarrow> None))) x ?Q"
        if p: "neat ?p" "i = en_path_hash env ?p" "preimage env d x (elems ?p) = Some (file_at x (elems ?p))"
      proof (rule post_try_bind [OF remove_entry_dir_law [OF clean]])
        fix c :: "file_error + unit" and v
        assume c: "entry_step d i x v \<and> (entry_of v d i = entry_of x d i \<or> meta_of v d i = None) \<and>
          (c = Inr () \<longrightarrow> entry_of v d i = None)"
        have xv: "keeps env P d {elems ?p} x v"
          by (rule dropped_keeps [where i = i and p = "elems ?p"]) (use c p in \<open>auto simp: neat_def\<close>)
        have "keeps env P d UNIV w v" "\<forall>j. j \<notin> {i} \<longrightarrow> entry_of v d j = entry_of w d j"
        proof -
          have "keeps env P d UNIV w x" using wx by (simp add: traversed_def)
          then show "keeps env P d UNIV w v" using keeps_trans keeps_mono [OF xv subset_UNIV] by blast
          show "\<forall>j. j \<notin> {i} \<longrightarrow> entry_of v d j = entry_of w d j"
            using wx c by (simp add: traversed_def entry_step_def)
        qed
        moreover have "file_at v es = file_at x es" for es using c entry_step_file by blast
        ultimately have "traversed env P d {i} (set (rs_skipped_ids s)) w v" using wx by (simp add: traversed_def)
        moreover have "e = None \<Longrightarrow> entry_of v d i = None" if "e = (case c of Inl e \<Rightarrow> Some e | Inr _ \<Rightarrow> None)" for e
          using that c by (cases c) auto
        ultimately show "post (ret (note_restored m s, case c of Inl e \<Rightarrow> Some e | Inr _ \<Rightarrow> None)) v ?Q"
          by (simp add: note_restored_def)
      qed
      show "post (case q of
                    Inl e \<Rightarrow> ret (s, Some e)
                  | Inr (Some sk) \<Rightarrow> ret (note_skipped i sk s, None)
                  | Inr None \<Rightarrow>
                      abind (try_act (remove_entry_dir env d i)) (\<lambda>q.
                        ret (note_restored m s, case q of Inl e \<Rightarrow> Some e | Inr _ \<Rightarrow> None))) x ?Q"
      proof (cases q)
        case (Inl e)
        with wx show ?thesis by simp
      next
        case (Inr o')
        show ?thesis
        proof (cases o')
          case None
          with drop q Inr show ?thesis by simp
        next
          case (Some sk)
          with wx Inr show ?thesis by (auto simp: note_skipped_def)
        qed
      qed
    qed
  qed
  show "post (case r of
         Inl e \<Rightarrow> ret (s, Some e)
       | Inr m \<Rightarrow>
           if i \<in> set (rs_skipped_ids s) then ret (s, None)
           else abind (try_act (restore_one env d i m)) (\<lambda>q.
                  case q of
                    Inl e \<Rightarrow> ret (s, Some e)
                  | Inr (Some sk) \<Rightarrow> ret (note_skipped i sk s, None)
                  | Inr None \<Rightarrow>
                      abind (try_act (remove_entry_dir env d i)) (\<lambda>q.
                        ret (note_restored m s, case q of Inl e \<Rightarrow> Some e | Inr _ \<Rightarrow> None)))) u ?Q"
  proof (cases r)
    case (Inl e)
    with same_traversed [OF wu] show ?thesis by simp
  next
    case (Inr m)
    show ?thesis
    proof (cases "i \<in> set (rs_skipped_ids s)")
      case True
      then have "rs_skipped_ids s \<noteq> []" by auto
      with True Inr same_traversed [OF wu] show ?thesis by simp
    next
      case False
      with go [OF _ False] r Inr show ?thesis by simp
    qed
  qed
qed

lemma revert_names_law:
  assumes st: "steady env P"
  shows "wf_tree (w_tree w) \<Longrightarrow> distinct is \<Longrightarrow> post (revert_names env d is s) w (\<lambda>r v. \<exists>s' e. r = Inr (s', e) \<and>
     traversed env P d (set is) (set (rs_skipped_ids s)) w v \<and>
     set (rs_skipped_ids s) \<subseteq> set (rs_skipped_ids s') \<and>
     (e = None \<longrightarrow> rs_skipped_ids s' = [] \<longrightarrow> (\<forall>i \<in> set is. entry_of v d i = None)))"
proof (induction "is" arbitrary: s w)
  case Nil
  then show ?case using same_traversed [OF same_refl] by simp
next
  case (Cons i js)
  have wf: "wf_tree (w_tree w)" by (rule Cons.prems(1))
  show ?case
    unfolding revert_names.simps
  proof (rule post_abind [OF revert_entry_law [OF st wf]])
    fix a :: "revert_state \<times> file_error option" and u
    assume "\<exists>s' e. Inr a = Inr (s', e) \<and> traversed env P d {i} (set (rs_skipped_ids s)) w u \<and>
     set (rs_skipped_ids s) \<subseteq> set (rs_skipped_ids s') \<and> (e = None \<longrightarrow> rs_skipped_ids s' = [] \<longrightarrow> entry_of u d i = None)"
    then obtain s1 e1 where a: "a = (s1, e1)" and wu: "traversed env P d {i} (set (rs_skipped_ids s)) w u"
      and sub: "set (rs_skipped_ids s) \<subseteq> set (rs_skipped_ids s1)"
      and gone: "e1 = None \<Longrightarrow> rs_skipped_ids s1 = [] \<Longrightarrow> entry_of u d i = None" by auto
    have ku: "keeps env P d UNIV w u" using wu by (simp add: traversed_def)
    have wfu: "wf_tree (w_tree u)" by (rule keepsD(4) [OF ku wf])
    let ?Q = "\<lambda>r v. \<exists>s' e. r = Inr (s', e) \<and> traversed env P d (set (i # js)) (set (rs_skipped_ids s)) w v \<and>
        set (rs_skipped_ids s) \<subseteq> set (rs_skipped_ids s') \<and>
        (e = None \<longrightarrow> rs_skipped_ids s' = [] \<longrightarrow> (\<forall>j \<in> set (i # js). entry_of v d j = None))"
    have compose: "traversed env P d (set (i # js)) (set (rs_skipped_ids s)) w v"
      if "traversed env P d (set js) (set (rs_skipped_ids s1)) u v" for v
      using traversed_trans [OF wu that _ sub] Cons.prems(2) by simp
    have rest: "post (revert_names env d js s1) u ?Q" if e1: "e1 = None"
    proof (rule post_mono [OF Cons.IH [OF wfu]])
      show "distinct js" using Cons.prems(2) by simp
    next
      fix r v
      assume "\<exists>s' e. r = Inr (s', e) \<and> traversed env P d (set js) (set (rs_skipped_ids s1)) u v \<and>
        set (rs_skipped_ids s1) \<subseteq> set (rs_skipped_ids s') \<and>
        (e = None \<longrightarrow> rs_skipped_ids s' = [] \<longrightarrow> (\<forall>j \<in> set js. entry_of v d j = None))"
      then obtain s2 e2 where r: "r = Inr (s2, e2)" and uv: "traversed env P d (set js) (set (rs_skipped_ids s1)) u v"
        and sub2: "set (rs_skipped_ids s1) \<subseteq> set (rs_skipped_ids s2)"
        and gone2: "e2 = None \<Longrightarrow> rs_skipped_ids s2 = [] \<Longrightarrow> \<forall>j \<in> set js. entry_of v d j = None" by auto
      have "entry_of v d i = entry_of u d i" using uv Cons.prems(2) by (simp add: traversed_def)
      then have "\<forall>j \<in> set (i # js). entry_of v d j = None" if "e2 = None" "rs_skipped_ids s2 = []"
        using gone [OF e1] gone2 [OF that] sub2 that(2) by simp
      then show "?Q r v" using r compose [OF uv] sub sub2 by auto
    qed
    have stop: "?Q (Inr (s1, Some err)) u" for err
    proof -
      have "traversed env P d (set js) (set (rs_skipped_ids s1)) u u" by (rule same_traversed) simp
      from compose [OF this] sub show ?thesis by simp
    qed
    show "post (case a of (s', e) \<Rightarrow> case e of Some _ \<Rightarrow> ret (s', e) | None \<Rightarrow> revert_names env d js s') u ?Q"
    proof (cases e1)
      case None
      with rest a show ?thesis by simp
    next
      case (Some err)
      with stop a show ?thesis by simp
    qed
  qed auto
qed

lemma entry_names_law:
  "post (checked env ReadEntries (asks (\<lambda>w. entry_names w d))) w (\<lambda>r v. same w v \<and>
     (\<forall>is. r = Inr is \<longrightarrow> distinct is \<and> (\<forall>j. j \<notin> set is \<longrightarrow> entry_of w d j = None)) \<and>
     (r = Inl NotExist \<longrightarrow> w_groups w d = None))"
  by (rule postI, rename_tac r v, case_tac r)
     (auto simp: act_simps entry_names_def entry_of_def group_entries_def map_of_eq_None_iff split: option.splits)

lemma revert_entries_dir_law:
  assumes st: "steady env P" and wf: "wf_tree (w_tree w)"
  shows "post (revert_entries_dir env d s) w (\<lambda>r v. \<exists>s' e. r = Inr (s', e) \<and>
     traversed env P d UNIV (set (rs_skipped_ids s)) w v \<and>
     set (rs_skipped_ids s) \<subseteq> set (rs_skipped_ids s') \<and>
     (e = None \<longrightarrow> rs_skipped_ids s' = [] \<longrightarrow> (\<forall>i. entry_of v d i = None)))"
  (is "post _ w ?Q")
  unfolding revert_entries_dir_def
proof (rule post_try_bind [OF entry_names_law])
  fix r :: "file_error + string list" and u
  assume r: "same w u \<and> (\<forall>is. r = Inr is \<longrightarrow> distinct is \<and> (\<forall>j. j \<notin> set is \<longrightarrow> entry_of w d j = None)) \<and>
     (r = Inl NotExist \<longrightarrow> w_groups w d = None)"
  then have wu: "same w u" by (rule conjunct1)
  have wfu: "wf_tree (w_tree u)" using wf wu by (simp add: same_def)
  show "post (case r of Inl e \<Rightarrow> ret (s, if e = NotExist then None else Some e)
       | Inr names \<Rightarrow> revert_names env d names s) u ?Q"
  proof (cases r)
    case (Inl e)
    have "entry_of u d i = None" if "e = NotExist" for i
      using that r Inl wu by (simp add: entry_of_def group_entries_def same_def)
    with Inl same_traversed [OF wu] show ?thesis by simp
  next
    case (Inr names)
    have names: "distinct names" "j \<notin> set names \<Longrightarrow> entry_of w d j = None" for j using r Inr by auto
    have "post (revert_names env d names s) u ?Q"
    proof (rule post_mono [OF revert_names_law [OF st wfu names(1)]])
      fix q :: "file_error + revert_state \<times> file_error option" and v
      assume "\<exists>s' e. q = Inr (s', e) \<and> traversed env P d (set names) (set (rs_skipped_ids s)) u v \<and>
         set (rs_skipped_ids s) \<subseteq> set (rs_skipped_ids s') \<and>
         (e = None \<longrightarrow> rs_skipped_ids s' = [] \<longrightarrow> (\<forall>i \<in> set names. entry_of v d i = None))"
      then obtain s' e where q: "q = Inr (s', e)" and uv: "traversed env P d (set names) (set (rs_skipped_ids s)) u v"
        and sub: "set (rs_skipped_ids s) \<subseteq> set (rs_skipped_ids s')"
        and gone: "e = None \<Longrightarrow> rs_skipped_ids s' = [] \<Longrightarrow> \<forall>i \<in> set names. entry_of v d i = None" by auto
      have "traversed env P d ({} \<union> set names) (set (rs_skipped_ids s)) w v"
        by (rule traversed_trans [OF same_traversed [OF wu] uv]) auto
      then have wv: "traversed env P d UNIV (set (rs_skipped_ids s)) w v" unfolding traversed_def by blast
      have "entry_of v d i = None" if "e = None" "rs_skipped_ids s' = []" for i
      proof (cases "i \<in> set names")
        case True
        with gone [OF that] show ?thesis by blast
      next
        case False
        then have "entry_of v d i = entry_of u d i" using uv by (simp add: traversed_def)
        also have "\<dots> = None" using names(2) [OF False] same_entry [OF wu, of d i] by simp
        finally show ?thesis .
      qed
      with q wv sub show "?Q q v" by auto
    qed
    then show ?thesis by (simp add: Inr)
  qed
qed

section \<open>Several groups\<close>

text \<open>The content that reverting the groups from the newest to the oldest is to leave: the oldest preimage wins.\<close>

fun restored_content :: "env \<Rightarrow> world \<Rightarrow> string list \<Rightarrow> string list \<Rightarrow> string option \<Rightarrow> string option" where
  "restored_content env w [] es f = f"
| "restored_content env w (d # ds) es f =
     restored_content env w ds es (case preimage env d w es of Some x \<Rightarrow> x | None \<Rightarrow> f)"

lemma restored_content_cong:
  "\<forall>d \<in> set ds. w_groups v d = w_groups w d \<Longrightarrow> restored_content env v ds es f = restored_content env w ds es f"
proof (induction ds arbitrary: f)
  case (Cons d ds)
  then have "preimage env d v es = preimage env d w es"
    by (simp add: preimage_def entry_of_def group_entries_def)
  with Cons show ?case by simp
qed simp

text \<open>What reverting the groups \<open>D\<close> may change: files of fitting entries that were not in the ledger at the start.\<close>

definition group_traversed :: "env \<Rightarrow> string set \<Rightarrow> string set \<Rightarrow> world \<Rightarrow> world \<Rightarrow> bool" where
  "group_traversed env D L w v \<longleftrightarrow>
     (wf_tree (w_tree w) \<longrightarrow> wf_tree (w_tree v)) \<and>
     (\<forall>d. d \<notin> D \<longrightarrow> w_groups v d = w_groups w d) \<and>
     (\<forall>es. plain es \<longrightarrow> file_at v es \<noteq> file_at w es \<longrightarrow>
        (\<exists>d i m. d \<in> D \<and> i \<notin> L \<and> meta_of w d i = Some m \<and> es = elems (canonical_path m) \<and> entry_fits env m i w))"

lemma group_traversed_trans:
  assumes a: "group_traversed env D L w u" and b: "group_traversed env E L' u v" and "D \<inter> E = {}" "L \<subseteq> L'"
  shows "group_traversed env (D \<union> E) L w v"
  unfolding group_traversed_def
proof (intro conjI allI impI)
  show "wf_tree (w_tree v)" if "wf_tree (w_tree w)" using a b that by (simp add: group_traversed_def)
  show "w_groups v d = w_groups w d" if "d \<notin> D \<union> E" for d using a b that by (simp add: group_traversed_def)
next
  fix es
  assume es: "plain es" "file_at v es \<noteq> file_at w es"
  show "\<exists>d i m. d \<in> D \<union> E \<and> i \<notin> L \<and> meta_of w d i = Some m \<and> es = elems (canonical_path m) \<and> entry_fits env m i w"
  proof (cases "file_at u es = file_at w es")
    case False
    with a es(1) show ?thesis unfolding group_traversed_def by blast
  next
    case True
    then obtain d j m where j: "d \<in> E" "j \<notin> L'" "meta_of u d j = Some m" "es = elems (canonical_path m)" "entry_fits env m j u"
      using b es unfolding group_traversed_def by metis
    have "w_groups u d = w_groups w d" using a j(1) assms(3) by (auto simp: group_traversed_def)
    then have "meta_of w d j = Some m" using j(3) by (simp add: meta_of_def entry_of_def group_entries_def)
    moreover have "entry_fits env m j w" using j(5) entry_fits_cong [of u m w env j] True j(4) by simp
    ultimately show ?thesis using j assms(4) by blast
  qed
qed

lemma traversed_group: "traversed env P d is L w v \<Longrightarrow> group_traversed env {d} L w v"
  unfolding traversed_def group_traversed_def keeps_def by blast

lemma remove_entries_dir_law:
  "post (remove_entries_dir env d) w (\<lambda>r v. w_tree v = w_tree w \<and> (\<forall>d'. d' \<noteq> d \<longrightarrow> w_groups v d' = w_groups w d'))"
  by (rule postI, rename_tac r v, case_tac r)
     (auto simp: remove_entries_dir_def act_simps split: option.splits if_splits)

lemma revert_groups_law:
  assumes st: "steady env P"
  shows "wf_tree (w_tree w) \<Longrightarrow> distinct ds \<Longrightarrow> post (revert_groups env ds s) w (\<lambda>r v. \<exists>s' e. r = Inr (s', e) \<and>
     group_traversed env (set ds) (set (rs_skipped_ids s)) w v \<and>
     set (rs_skipped_ids s) \<subseteq> set (rs_skipped_ids s') \<and>
     (e = None \<longrightarrow> rs_skipped_ids s' = [] \<longrightarrow>
        (\<forall>es. plain es \<longrightarrow> file_at v es = restored_content env w ds es (file_at w es))))"
proof (induction ds arbitrary: s w)
  case Nil
  then show ?case by (simp add: group_traversed_def)
next
  case (Cons d ds)
  have wf: "wf_tree (w_tree w)" by (rule Cons.prems(1))
  have d: "d \<notin> set ds" "distinct ds" using Cons.prems(2) by simp_all
  let ?Q = "\<lambda>r v. \<exists>s' e. r = Inr (s', e) \<and> group_traversed env (set (d # ds)) (set (rs_skipped_ids s)) w v \<and>
     set (rs_skipped_ids s) \<subseteq> set (rs_skipped_ids s') \<and>
     (e = None \<longrightarrow> rs_skipped_ids s' = [] \<longrightarrow>
        (\<forall>es. plain es \<longrightarrow> file_at v es = restored_content env w (d # ds) es (file_at w es)))"
  show ?case
    unfolding revert_groups.simps
  proof (rule post_abind [OF revert_entries_dir_law [OF st wf]])
    fix a :: "revert_state \<times> file_error option" and u
    assume "\<exists>s' e. Inr a = Inr (s', e) \<and> traversed env P d UNIV (set (rs_skipped_ids s)) w u \<and>
      set (rs_skipped_ids s) \<subseteq> set (rs_skipped_ids s') \<and>
      (e = None \<longrightarrow> rs_skipped_ids s' = [] \<longrightarrow> (\<forall>i. entry_of u d i = None))"
    then obtain s1 e1 where a: "a = (s1, e1)" and wu: "traversed env P d UNIV (set (rs_skipped_ids s)) w u"
      and sub: "set (rs_skipped_ids s) \<subseteq> set (rs_skipped_ids s1)"
      and gone: "e1 = None \<Longrightarrow> rs_skipped_ids s1 = [] \<Longrightarrow> \<forall>i. entry_of u d i = None" by auto
    have clean: "file_at u es = (case preimage env d w es of Some x \<Rightarrow> x | None \<Rightarrow> file_at w es)"
      if "e1 = None" "rs_skipped_ids s1 = []" "plain es" for es
    proof -
      have "preimage env d u es = None" using gone [OF that(1,2)] by (simp add: preimage_def entry_preimage_def)
      then have "file_at u es = restore_target env d u es" by (simp add: restore_target_def)
      also have "\<dots> = restore_target env d w es" using wu that(3) by (simp add: traversed_def keeps_def)
      finally show ?thesis by (simp add: restore_target_def)
    qed
    have gu: "group_traversed env {d} (set (rs_skipped_ids s)) w x"
      if "w_tree x = w_tree u" "\<forall>d'. d' \<noteq> d \<longrightarrow> w_groups x d' = w_groups u d'" for x
      using traversed_group [OF wu] that unfolding group_traversed_def by (simp add: file_at_def)
    have stop: "?Q (Inr (s1, Some err)) x"
      if "w_tree x = w_tree u" "\<forall>d'. d' \<noteq> d \<longrightarrow> w_groups x d' = w_groups u d'" for err x
      using gu [OF that] sub unfolding group_traversed_def by auto
    have rest: "post (revert_groups env ds s1) x ?Q"
      if e1: "e1 = None" and x: "w_tree x = w_tree u" "\<forall>d'. d' \<noteq> d \<longrightarrow> w_groups x d' = w_groups u d'" for x
    proof -
      have wx: "group_traversed env {d} (set (rs_skipped_ids s)) w x" by (rule gu [OF x])
      then have wfx: "wf_tree (w_tree x)" and others: "\<forall>d' \<in> set ds. w_groups x d' = w_groups w d'"
        using wf d(1) by (auto simp: group_traversed_def)
      show ?thesis
      proof (rule post_mono [OF Cons.IH [OF wfx d(2)]])
        fix r :: "file_error + revert_state \<times> file_error option" and v
        assume "\<exists>s' e. r = Inr (s', e) \<and> group_traversed env (set ds) (set (rs_skipped_ids s1)) x v \<and>
           set (rs_skipped_ids s1) \<subseteq> set (rs_skipped_ids s') \<and>
           (e = None \<longrightarrow> rs_skipped_ids s' = [] \<longrightarrow>
              (\<forall>es. plain es \<longrightarrow> file_at v es = restored_content env x ds es (file_at x es)))"
        then obtain s2 e2 where r: "r = Inr (s2, e2)" and xv: "group_traversed env (set ds) (set (rs_skipped_ids s1)) x v"
          and sub2: "set (rs_skipped_ids s1) \<subseteq> set (rs_skipped_ids s2)"
          and rc: "e2 = None \<Longrightarrow> rs_skipped_ids s2 = [] \<Longrightarrow> plain es \<Longrightarrow>
            file_at v es = restored_content env x ds es (file_at x es)" for es by auto
        have "group_traversed env ({d} \<union> set ds) (set (rs_skipped_ids s)) w v"
          by (rule group_traversed_trans [OF wx xv _ sub]) (use d(1) in simp)
        moreover have "file_at v es = restored_content env w (d # ds) es (file_at w es)"
          if h: "e2 = None" "rs_skipped_ids s2 = []" "plain es" for es
        proof -
          have "rs_skipped_ids s1 = []" using sub2 h(2) by simp
          then have "file_at x es = (case preimage env d w es of Some x \<Rightarrow> x | None \<Rightarrow> file_at w es)"
            using clean [OF e1 _ h(3)] x(1) by (simp add: file_at_def)
          with rc [OF h] restored_content_cong [OF others, of env es] show ?thesis by simp
        qed
        ultimately show "?Q r v" using r sub sub2 by auto
      qed
    qed
    show "post (case a of (s', e) \<Rightarrow> case e of
         Some _ \<Rightarrow> ret (s', e)
       | None \<Rightarrow>
           abind (try_act (remove_entries_dir env d)) (\<lambda>r.
             case r of
               Inl e' \<Rightarrow> if e' \<noteq> NotExist \<and> e' \<noteq> NotEmpty then ret (s', Some e') else revert_groups env ds s'
             | Inr _ \<Rightarrow> revert_groups env ds s')) u ?Q"
    proof (cases e1)
      case (Some err)
      with stop [of u err] a show ?thesis by simp
    next
      case None
      have "post (abind (try_act (remove_entries_dir env d)) (\<lambda>r.
             case r of
               Inl e' \<Rightarrow> if e' \<noteq> NotExist \<and> e' \<noteq> NotEmpty then ret (s1, Some e') else revert_groups env ds s1
             | Inr _ \<Rightarrow> revert_groups env ds s1)) u ?Q"
      proof (rule post_try_bind [OF remove_entries_dir_law])
        fix r :: "file_error + unit" and x :: world
        assume x: "w_tree x = w_tree u \<and> (\<forall>d'. d' \<noteq> d \<longrightarrow> w_groups x d' = w_groups u d')"
        show "post (case r of
               Inl e' \<Rightarrow> if e' \<noteq> NotExist \<and> e' \<noteq> NotEmpty then ret (s1, Some e') else revert_groups env ds s1
             | Inr _ \<Rightarrow> revert_groups env ds s1) x ?Q"
          using rest [OF None, of x] stop [of x] x by (cases r) simp_all
      qed
      then show ?thesis by (simp add: None a)
    qed
  qed auto
qed

end
