(* ===== verification/File_Safe.thy ===== *)
theory File_Safe
  imports Revert_Safe
begin

text \<open>
  The file tools and the revert together: what a call may change, what it leaves when it succeeds, and that reverting a
  group after any calls brings every file back, under any faults of the operating system that \<open>steady\<close> admits.
\<close>

section \<open>The calls\<close>

definition bound_target :: "string set \<Rightarrow> bound_call \<Rightarrow> bool" where
  "bound_target P b \<longleftrightarrow> bc_canonical b \<noteq> [] \<and> bc_canonical b \<in> P"

lemma bound_call_law:
  assumes st: "steady env P" and sound: "sound_group env P d w" and wf: "wf_tree (w_tree w)" and b: "bound_target P b"
    and body: "\<And>u. sound_group env P d u \<Longrightarrow> wf_tree (w_tree u) \<Longrightarrow> canonical_text (w_tree u) (bc_canonical b) \<Longrightarrow> same w u \<Longrightarrow>
      post m u (\<lambda>r v. keeps env P d {elems (bc_canonical b)} u v \<and> ((\<exists>a. r = Inr a) \<longrightarrow> Q v))"
  shows "post (abind (revalidate env b) (\<lambda>_. m)) w (\<lambda>r v.
     keeps env P d {elems (bc_canonical b)} w v \<and> (\<not> bound_here env b w \<longrightarrow> same w v \<and> (\<exists>e. r = Inl e)) \<and> ((\<exists>a. r = Inr a) \<longrightarrow> Q v))"
  (is "post _ w ?R")
proof (rule post_abind [OF revalidate_law])
  show "is_abs (en_cwd env)" using st by (simp add: steady_def)
  show "bc_canonical b \<noteq> []" using b by (simp add: bound_target_def)
next
  fix e :: file_error and u
  assume "same w u \<and> (Inl e = Inr () \<longrightarrow> bound_here env b w)"
  then have wu: "same w u" by (rule conjunct1)
  from wu same_keeps [OF wu] show "?R (Inl e) u" by simp
next
  fix a u
  assume u: "same w u \<and> (Inr a = Inr () \<longrightarrow> bound_here env b w)"
  then have wu: "same w u" and here: "bound_here env b w" by simp_all
  have "sound_group env P d u" "wf_tree (w_tree u)" "canonical_text (w_tree u) (bc_canonical b)"
    using wu here sound wf same_sound [of u w] by (simp_all add: same_def bound_here_def)
  from body [OF this wu] show "post m u ?R"
    by (rule post_mono) (use keeps_trans [OF same_keeps [OF wu]] here in blast)
qed

lemma execute_write_law:
  assumes "steady env P" "sound_group env P d w" "wf_tree (w_tree w)" "bound_target P b"
  shows "post (execute_write env d b display content) w (\<lambda>r v.
     keeps env P d {elems (bc_canonical b)} w v \<and> (\<not> bound_here env b w \<longrightarrow> same w v \<and> (\<exists>e. r = Inl e)) \<and>
     ((\<exists>a. r = Inr a) \<longrightarrow> succeeded env d (bc_canonical b) (Some content) v))"
  unfolding execute_write_def
  by (rule bound_call_law [OF assms]) (rule write_with_bookkeeping_law; use assms in \<open>simp add: bound_target_def\<close>)

lemma execute_edit_law:
  assumes "steady env P" "sound_group env P d w" "wf_tree (w_tree w)" "bound_target P b"
  shows "post (execute_edit env d b display old new all) w (\<lambda>r v.
     keeps env P d {elems (bc_canonical b)} w v \<and> (\<not> bound_here env b w \<longrightarrow> same w v \<and> (\<exists>e. r = Inl e)) \<and>
     ((\<exists>a. r = Inr a) \<longrightarrow> (\<exists>summary after.
        edits_to (bc_path b) old new all summary (file_at w (elems (bc_canonical b))) after \<and>
        succeeded env d (bc_canonical b) (Some after) v)))"
  unfolding execute_edit_def
proof (rule bound_call_law [OF assms])
  fix u
  assume u: "sound_group env P d u" "wf_tree (w_tree u)" "canonical_text (w_tree u) (bc_canonical b)" "same w u"
  have "bc_canonical b \<in> P" using assms(4) by (simp add: bound_target_def)
  from edit_with_bookkeeping_law [OF assms(1) u(1-3) this]
  show "post (edit_with_bookkeeping env d b display (bc_canonical b) (bc_path b) old new all) u
     (\<lambda>r v. keeps env P d {elems (bc_canonical b)} u v \<and> ((\<exists>a. r = Inr a) \<longrightarrow> (\<exists>summary after.
        edits_to (bc_path b) old new all summary (file_at w (elems (bc_canonical b))) after \<and>
        succeeded env d (bc_canonical b) (Some after) v)))"
    by (simp only: same_content [OF u(4)])
qed

text \<open>A file with a second name is never written.\<close>

lemma preflight_linked_law:
  assumes "node_at (w_tree w) (elems c) = Some (Linked s)"
  shows "post (preflight_write env c) w (\<lambda>r v. same w v \<and> (\<exists>e. r = Inl e) \<or> leaf_node (w_tree w) (elems c) = Inl NotExist)"
  unfolding preflight_write_def
proof (rule post_abind [where P = "\<lambda>r u. same w u \<and> (r = Inr False \<longrightarrow> leaf_node (w_tree w) (elems c) = Inl NotExist)"])
  show "post (ensure_regular_existing env c) w (\<lambda>r u. same w u \<and> (r = Inr False \<longrightarrow> leaf_node (w_tree w) (elems c) = Inl NotExist))"
    unfolding ensure_regular_existing_def
    by (rule post_try_bind [OF os_lstat_law]) (auto split: sum.splits)
next
  fix found u
  assume u: "same w u \<and> (Inr found = Inr False \<longrightarrow> leaf_node (w_tree w) (elems c) = Inl NotExist)"
  then have n: "node_at (w_tree u) (elems c) = Some (Linked s)" using assms by (simp add: same_def)
  have "post (abind (open_existing env c True) (\<lambda>h. ensure_regular_handle env c h)) u
     (\<lambda>r v. same w v \<and> (\<exists>e. r = Inl e) \<or> leaf_node (w_tree w) (elems c) = Inl NotExist)"
    by (rule post_abind [OF open_existing_law]) (use n u same_trans in auto)
  with u show "post (if \<not> found then ret () else abind (open_existing env c True) (\<lambda>h. ensure_regular_handle env c h)) u
     (\<lambda>r v. same w v \<and> (\<exists>e. r = Inl e) \<or> leaf_node (w_tree w) (elems c) = Inl NotExist)" by simp
qed auto

lemma write_linked_law:
  assumes st: "steady env P" and wf: "wf_tree (w_tree w)" and b: "bound_target P b"
    and linked: "node_at (w_tree w) (elems (bc_canonical b)) = Some (Linked s)"
  shows "post (execute_write env d b display content) w (\<lambda>r v. same w v \<and> (\<exists>e. r = Inl e))"
  (is "post _ w ?R")
  unfolding execute_write_def
proof (rule post_abind [OF revalidate_law])
  show "is_abs (en_cwd env)" using st by (simp add: steady_def)
  show "bc_canonical b \<noteq> []" using b by (simp add: bound_target_def)
next
  fix a u
  assume u: "same w u \<and> (Inr a = Inr () \<longrightarrow> bound_here env b w)"
  then have wu: "same w u" and here: "bound_here env b w" by simp_all
  let ?c = "bc_canonical b"
  have n: "node_at (w_tree u) (elems ?c) = Some (Linked s)" using linked wu by (simp add: same_def)
  have "leaf_node (w_tree u) (elems ?c) = Inr (Linked s)"
  proof (rule leaf_node_present [OF _ _ n])
    show "wf_tree (w_tree u)" using wf wu by (simp add: same_def)
    show "plain (elems ?c)" using here canonical_textD(3) unfolding bound_here_def by blast
    show "elems ?c \<noteq> []" using linked by (auto simp: node_at_def)
  qed
  then have refused: "post (preflight_write env ?c) u (\<lambda>r v. same u v \<and> (\<exists>e. r = Inl e))"
    using preflight_linked_law [OF n, of env] by simp
  show "post (write_with_bookkeeping env d b display ?c content (bc_path b)) u ?R"
    unfolding write_with_bookkeeping_def
    by (rule post_abind [OF refused]) (use same_trans [OF wu] in auto)
qed auto

section \<open>Any calls, then a revert\<close>

text \<open>The prepared calls of the three tools, with what the preparation bound.\<close>

datatype file_call =
  WriteCall bound_call string string
| EditCall bound_call string string string bool
| PatchCall string string string string "file_op list" "patch_target list"

fun bound_file_call :: "string set \<Rightarrow> file_call \<Rightarrow> bool" where
  "bound_file_call P (WriteCall b display content) = bound_target P b"
| "bound_file_call P (EditCall b display old new all) = bound_target P b"
| "bound_file_call P (PatchCall root rootc wd wdc fops ts) \<longleftrightarrow> (\<forall>t \<in> set ts. neat (pt_canonical t) \<and> pt_canonical t \<in> P)"

fun run_file_call :: "env \<Rightarrow> string \<Rightarrow> file_call \<Rightarrow> string act" where
  "run_file_call env d (WriteCall b display content) = execute_write env d b display content"
| "run_file_call env d (EditCall b display old new all) = execute_edit env d b display old new all"
| "run_file_call env d (PatchCall root rootc wd wdc fops ts) =
     abind (execute_parsed_patch env d root rootc wd wdc fops (Some ts)) (\<lambda>(summary, previews). ret summary)"

text \<open>The calls of a turn in order; a failing call does not stop the ones after it.\<close>

fun run_file_calls :: "env \<Rightarrow> string \<Rightarrow> file_call list \<Rightarrow> (file_error + string) list act" where
  "run_file_calls env d [] = ret []"
| "run_file_calls env d (c # cs) =
     abind (try_act (run_file_call env d c)) (\<lambda>r. abind (run_file_calls env d cs) (\<lambda>rs. ret (r # rs)))"

lemma ran_keeps: "ran env P d committed xs w r v \<Longrightarrow> keeps env P d UNIV w v"
  unfolding ran_def by (cases r) (auto intro: keeps_mono)

lemma patch_outcome_keeps:
  assumes "patch_outcome env P d fops ts w r v"
  shows "keeps env P d UNIV w v"
  using assms same_keeps ran_keeps unfolding patch_outcome_def by blast

lemma run_file_call_law:
  assumes st: "steady env P" and sound: "sound_group env P d w" and wf: "wf_tree (w_tree w)" and b: "bound_file_call P c"
  shows "post (run_file_call env d c) w (\<lambda>r v. keeps env P d UNIV w v)"
proof (cases c)
  case (WriteCall b' display content)
  then have "bound_target P b'" using b by simp
  from execute_write_law [OF st sound wf this] show ?thesis
    unfolding WriteCall run_file_call.simps by (rule post_mono) (auto intro: keeps_mono)
next
  case (EditCall b' display old new all)
  then have "bound_target P b'" using b by simp
  from execute_edit_law [OF st sound wf this] show ?thesis
    unfolding EditCall run_file_call.simps by (rule post_mono) (auto intro: keeps_mono)
next
  case (PatchCall root rootc wd wdc fops ts)
  then have ts: "\<forall>t \<in> set ts. neat (pt_canonical t) \<and> pt_canonical t \<in> P" using b by simp
  show ?thesis
    unfolding PatchCall run_file_call.simps
    by (rule post_abind [OF execute_parsed_patch_law [OF st sound wf ts]])
       (auto dest: patch_outcome_keeps)
qed

lemma run_file_calls_law:
  assumes st: "steady env P"
  shows "sound_group env P d w \<Longrightarrow> wf_tree (w_tree w) \<Longrightarrow> \<forall>c \<in> set cs. bound_file_call P c \<Longrightarrow>
     post (run_file_calls env d cs) w (\<lambda>r v. keeps env P d UNIV w v)"
proof (induction cs arbitrary: w)
  case (Cons c cs)
  show ?case
    unfolding run_file_calls.simps
  proof (rule post_try_bind [OF run_file_call_law [OF st Cons.prems(1,2)]])
    show "bound_file_call P c" using Cons.prems(3) by simp
  next
    fix r :: "file_error + string" and u
    assume wu: "keeps env P d UNIV w u"
    have "sound_group env P d u" "wf_tree (w_tree u)" "\<forall>c \<in> set cs. bound_file_call P c"
      using keepsD(3,4) [OF wu] Cons.prems by simp_all
    from Cons.IH [OF this]
    show "post (abind (run_file_calls env d cs) (\<lambda>rs. ret (r # rs))) u (\<lambda>r v. keeps env P d UNIV w v)"
      by (rule post_abind) (use keeps_trans [OF wu] in auto)
  qed
qed simp

text \<open>The reported skips are the ledger.\<close>

definition tallied :: "revert_state \<Rightarrow> bool" where
  "tallied s \<longleftrightarrow> length (rr_skipped (rs_result s)) = length (rs_skipped_ids s)"

abbreviation ends_tallied :: "file_error + revert_state \<times> file_error option \<Rightarrow> world \<Rightarrow> bool" where
  "ends_tallied r v \<equiv> \<forall>s' e. r = Inr (s', e) \<longrightarrow> tallied s'"

lemma post_any: "post m w (\<lambda>r v. True)"
  by (simp add: post_def)

lemma revert_entry_tally: "tallied s \<Longrightarrow> post (revert_entry env d i s) w ends_tallied"
  unfolding revert_entry_def
proof (rule post_try_bind [OF post_any])
  fix r :: "file_error + snapshot_meta" and u
  assume s: "tallied s"
  show "post (case r of
         Inl e \<Rightarrow> ret (s, Some e)
       | Inr m \<Rightarrow>
           if i \<in> set (rs_skipped_ids s) then ret (s, None)
           else abind (try_act (restore_one env d i m)) (\<lambda>q.
                  case q of
                    Inl e \<Rightarrow> ret (s, Some e)
                  | Inr (Some sk) \<Rightarrow> ret (note_skipped i sk s, None)
                  | Inr None \<Rightarrow>
                      abind (try_act (remove_entry_dir env d i)) (\<lambda>d.
                        ret (note_restored m s, case d of Inl e \<Rightarrow> Some e | Inr _ \<Rightarrow> None)))) u ends_tallied"
    by (cases r)
       (use s in \<open>auto simp: tallied_def note_skipped_def note_restored_def
          intro!: post_try_bind [OF post_any] split: sum.split option.split\<close>)
qed

lemma revert_names_tally: "tallied s \<Longrightarrow> post (revert_names env d is s) w ends_tallied"
proof (induction "is" arbitrary: s w)
  case (Cons i js)
  show ?case
    unfolding revert_names.simps
    by (rule post_abind [OF revert_entry_tally [OF Cons.prems]]) (use Cons.IH in \<open>auto split: option.split\<close>)
qed simp

lemma revert_entries_dir_tally: "tallied s \<Longrightarrow> post (revert_entries_dir env d s) w ends_tallied"
  unfolding revert_entries_dir_def
  by (rule post_try_bind [OF post_any]) (use revert_names_tally [of s env d] in \<open>auto split: sum.split\<close>)

lemma revert_groups_tally: "tallied s \<Longrightarrow> post (revert_groups env ds s) w ends_tallied"
proof (induction ds arbitrary: s w)
  case (Cons d ds)
  show ?case
    unfolding revert_groups.simps
    by (rule post_abind [OF revert_entries_dir_tally [OF Cons.prems]])
       (use Cons.IH in \<open>auto intro!: post_try_bind [OF post_any] split: option.split sum.split\<close>)
qed simp

lemma revert_code_groups_law:
  assumes st: "steady env P" and wf: "wf_tree (w_tree w)" and ds: "distinct ds"
  shows "post (revert_code_groups env ds) w (\<lambda>r v. \<exists>res e. r = Inr (res, e) \<and>
     group_traversed env (set ds) {} w v \<and>
     (e = None \<longrightarrow> rr_skipped res = [] \<longrightarrow>
        (\<forall>es. plain es \<longrightarrow> file_at v es = restored_content env w ds es (file_at w es))))"
  unfolding revert_code_groups_def
proof (rule post_abind [OF post_conj [OF revert_groups_law [OF st wf ds]]])
  have empty: "tallied empty_revert" by (simp add: tallied_def empty_revert_def)
  show "post (revert_groups env ds empty_revert) w ends_tallied"
    by (rule revert_groups_tally [OF empty])
qed (auto simp: tallied_def empty_revert_def)

end
