(* ===== verification/File_Props.thy ===== *)
theory File_Props
  imports File_Safe
begin

text \<open>The properties of the file tools and of the revert, with the inputs of their witnesses.\<close>

section \<open>Inputs of the witnesses\<close>

text \<open>A workspace with a file, a file that has a second name, and a digest that tells the paths apart.\<close>

definition disk_env :: env where
  "disk_env = \<lparr>en_fault = (\<lambda>k t. None), en_cwd = ''/w'',
     en_path_hash = (\<lambda>p. if p = ''/w/a'' then ''aaaaaaaaaaaaaaaa'' else if p = ''/w/l'' then ''1111111111111111''
                         else ''bbbbbbbbbbbbbbbb''),
     en_content_hash = (\<lambda>s. s)\<rparr>"

definition disk_world :: world where
  "disk_world = \<lparr>w_tree = [([''w''], Directory), ([''w'', ''a''], Plain ''one''), ([''w'', ''l''], Linked ''two'')],
     w_groups = (\<lambda>d. None), w_now = 0\<rparr>"

definition disk_call :: "string \<Rightarrow> bound_call" where
  "disk_call p = \<lparr>bc_root = ''/w'', bc_tool = ''write_file'', bc_path = p, bc_root_canonical = ''/w'',
     bc_canonical = ''/w/'' @ p, bc_write_dir = [], bc_write_dir_canonical = []\<rparr>"

definition disk_paths :: "string set" where
  "disk_paths = {''/w/a'', ''/w/b'', ''/w/l''}"

lemma disk_steady: "steady disk_env disk_paths"
proof -
  have "is_abs (en_cwd disk_env)" by code_simp
  then show ?thesis
    by (simp add: steady_def clean_removal_def steady_stat_def disk_env_def disk_paths_def)
qed

lemma disk_wf: "wf_tree (w_tree disk_world)"
proof (rule wf_tree_list)
  show "list_all (\<lambda>(q, n). q \<noteq> [] \<and> node_at (w_tree disk_world) (butlast q) = Some Directory) (w_tree disk_world)"
    by code_simp
qed

lemma no_group_sound: "w_groups w d = None \<Longrightarrow> sound_group env P d w"
  by (simp add: sound_group_def meta_of_def entry_of_def group_entries_def)

lemma disk_sound: "sound_group disk_env disk_paths d disk_world"
  by (rule no_group_sound) (simp add: disk_world_def)

lemma disk_targets: "bound_target disk_paths (disk_call ''a'')" "bound_target disk_paths (disk_call ''l'')"
  by (simp_all add: bound_target_def disk_call_def disk_paths_def)

section \<open>The tools\<close>


lemma write_run:
  "fst (execute_write disk_env ''g'' (disk_call ''a'') ''/w/a'' ''two'' disk_world) = Inr ''Wrote a.''"
  by code_simp



lemma edit_run:
  "fst (execute_edit disk_env ''g'' (disk_call ''a'') ''/w/a'' ''one'' ''three'' False disk_world) =
     Inr ''Edited a (1 replacement, lines 1-1).''"
  by code_simp

lemma edit_content:
  "map_option (map_sum id er_content) (apply_edit ''one'' ''one'' ''three'' False ''a'') = Some (Inr ''three'')"
  "file_at disk_world (elems ''/w/a'') = Some ''one''"
  by code_simp+


section \<open>Patches\<close>

text \<open>C11: an \<open>apply_patch\<close> call either fails with nothing changed, or runs plans made from the content the files had at the
  beginning, on exactly the approved targets. A success reports every step, and every step is on disk and recorded. A
  failure on the way reports exactly the steps that are complete, on disk and recorded; besides their files only the file
  of the step that failed may differ. In every case what the group would bring back is kept for every file.\<close>

theorem patch_reports_truth:
  assumes "steady env P" "sound_group env P d w" "wf_tree (w_tree w)"
    and "\<forall>t \<in> set ts. neat (pt_canonical t) \<and> pt_canonical t \<in> P"
    and run: "execute_parsed_patch env d root root_canonical wd wdc fops (Some ts) w = (r, v)"
  shows "(w_tree v = w_tree w \<and> w_groups v = w_groups w \<and> (\<exists>e. r = Inl e)) \<or>
         (\<exists>pls. list_all2 (planned w) fops pls \<and>
            mset (map step_file (all_steps pls)) = mset (map pt_canonical ts) \<and>
            (case r of
               Inr (summary, previews) \<Rightarrow>
                 summary = success_summary (map fst (all_steps pls)) \<and>
                 all_done env d (all_steps pls) v \<and> keeps env P d (touched (all_steps pls)) w v
             | Inl e \<Rightarrow>
                 (\<exists>complete failed rest cause. all_steps pls = complete @ failed # rest \<and>
                    e = PartialApply (success_summary (map fst complete)) cause \<and>
                    all_done env d complete v \<and> keeps env P d (touched (complete @ [failed])) w v)))"
  using postD [OF execute_parsed_patch_law [OF assms(1-4)] run]
  unfolding patch_outcome_def same_def ran_def
proof (elim disjE)
  assume "\<exists>pls. list_all2 (planned w) fops pls \<and> mset (map step_file (all_steps pls)) = mset (map pt_canonical ts) \<and>
     (case r of
        Inl e \<Rightarrow> \<exists>did x rest e'. all_steps pls = did @ x # rest \<and>
          e = PartialApply (success_summary ([] @ map fst did)) e' \<and>
          keeps env P d (touched (did @ [x])) w v \<and> all_done env d did v
      | Inr x \<Rightarrow> keeps env P d (touched (all_steps pls)) w v \<and> all_done env d (all_steps pls) v) \<and>
     (\<forall>a. r = Inr a \<longrightarrow> a = (success_summary (map fst (all_steps pls)), concat (map op_previews pls)))"
  then show ?thesis by (cases r) fastforce+
qed simp

definition disk_ops :: "file_op list" where
  "disk_ops =
     [\<lparr>op_kind = OpAdd, op_path = ''b'', move_path = [],
        op_hunks = [\<lparr>anchor = [], hunk_lines = [\<lparr>line_kind = LineAdd, line_text = ''new''\<rparr>]\<rparr>]\<rparr>,
      \<lparr>op_kind = OpDelete, op_path = ''a'', move_path = [], op_hunks = []\<rparr>]"

definition disk_patch_targets :: "patch_target list" where
  "disk_patch_targets =
     [\<lparr>pt_path = ''b'', pt_abs = ''/w/b'', pt_canonical = ''/w/b'', pt_role = RoleAdd, pt_destination = False\<rparr>,
      \<lparr>pt_path = ''a'', pt_abs = ''/w/a'', pt_canonical = ''/w/a'', pt_role = RoleDelete, pt_destination = False\<rparr>]"

lemma neat_disk: "neat ''/w/a''" "neat ''/w/b''"
  by code_simp+

lemma disk_patch_bound: "\<forall>t \<in> set disk_patch_targets. neat (pt_canonical t) \<and> pt_canonical t \<in> disk_paths"
  using neat_disk by (simp add: disk_patch_targets_def disk_paths_def)

lemma disk_restore_target: "restore_target disk_env ''g'' disk_world [''w'', ''a''] = Some ''one''"
  by code_simp

theorem patch_reports_truth_witness:
  "restore_target disk_env ''g''
     (snd (execute_parsed_patch disk_env ''g'' ''/w'' ''/w'' [] [] disk_ops (Some disk_patch_targets) disk_world)) [''w'', ''a''] =
   Some ''one''"
proof -
  let ?v = "snd (execute_parsed_patch disk_env ''g'' ''/w'' ''/w'' [] [] disk_ops (Some disk_patch_targets) disk_world)"
  have a: "plain [''w'', ''a'']" by code_simp
  note run = patch_reports_truth [OF disk_steady disk_sound disk_wf disk_patch_bound prod.collapse [symmetric],
      of "''g''" "''/w''" "''/w''" "[]" "[]" disk_ops]
  have "same disk_world ?v \<or> (\<exists>F. keeps disk_env disk_paths ''g'' F disk_world ?v)"
    using run unfolding same_def
    by (cases "fst (execute_parsed_patch disk_env ''g'' ''/w'' ''/w'' [] [] disk_ops (Some disk_patch_targets) disk_world)")
       fastforce+
  then obtain F where "keeps disk_env disk_paths ''g'' F disk_world ?v" using same_keeps by blast
  from keepsD(1) [OF this a] disk_restore_target show ?thesis by simp
qed

section \<open>Reverting\<close>

text \<open>C12: reverting groups never overwrites what somebody else wrote. Whatever the operating system does, and whether the
  revert ends with an error or not, a file that it changed was one for which some of the groups holds an entry whose
  recorded last write is exactly the content (or the absence) the file had when the revert began.\<close>

theorem revert_spares_foreign:
  assumes "steady env P" "wf_tree (w_tree w)" "distinct ds"
    and run: "revert_code_groups env ds w = (r, v)" and es: "plain es" "file_at v es \<noteq> file_at w es"
  shows "\<exists>d i m l. d \<in> set ds \<and> meta_of w d i = Some m \<and> es = elems (canonical_path m) \<and>
           i = en_path_hash env (canonical_path m) \<and> last_write m = Some l \<and>
           (case file_at w es of
              None \<Rightarrow> si_absent l
            | Some s \<Rightarrow> \<not> si_absent l \<and> si_hash l = en_content_hash env s)"
proof -
  obtain d i m where m: "d \<in> set ds" "meta_of w d i = Some m" "es = elems (canonical_path m)" "entry_fits env m i w"
    using postD [OF revert_code_groups_law [OF assms(1-3)] run] es unfolding group_traversed_def by blast
  then obtain l where "last_write m = Some l"
    by (auto simp: entry_fits_def matches_def split: option.splits)
  with m show ?thesis
    by (intro exI [of _ d] exI [of _ i] exI [of _ m] exI [of _ l])
       (auto simp: entry_fits_def matches_def split: option.splits if_splits)
qed

lemma find_snoc:
  "find p (xs @ [y]) = (case find p xs of Some z \<Rightarrow> Some z | None \<Rightarrow> if p y then Some y else None)"
  by (induction xs) auto

text \<open>C28: a revert that reports neither an error nor a skipped file leaves every file with the preimage of the oldest group
  that holds one, and leaves the files that no group holds as they were.\<close>

theorem revert_restores_oldest:
  assumes "steady env P" "wf_tree (w_tree w)" "distinct ds"
    and run: "revert_code_groups env ds w = (Inr (res, None), v)" "rr_skipped res = []" and es: "plain es"
  shows "file_at v es =
     (case find (\<lambda>x. x \<noteq> None) (map (\<lambda>d. preimage env d w es) (rev ds)) of
        Some (Some content) \<Rightarrow> content
      | _ \<Rightarrow> file_at w es)"
proof -
  have "file_at v es = restored_content env w ds es (file_at w es)"
    using postD [OF revert_code_groups_law [OF assms(1-3)] run(1)] run(2) es by simp
  also have "restored_content env w ds es f =
     (case find (\<lambda>x. x \<noteq> None) (map (\<lambda>d. preimage env d w es) (rev ds)) of Some (Some content) \<Rightarrow> content | _ \<Rightarrow> f)" for f
  proof (induction ds arbitrary: f)
    case (Cons d ds)
    show ?case
    proof (cases "find (\<lambda>x. x \<noteq> None) (map (\<lambda>d. preimage env d w es) (rev ds))")
      case None
      then show ?thesis using Cons by (auto simp: find_snoc split: option.splits)
    next
      case (Some y)
      then have "y \<noteq> None" by (auto simp: find_Some_iff)
      with Some show ?thesis using Cons by (auto simp: find_snoc)
    qed
  qed simp
  finally show ?thesis .
qed

text \<open>C1: any sequence of prepared calls of the three tools on a new group, under any faults and whether the calls succeed
  or fail, is undone by a revert that reports neither an error nor a skipped file: every file has its first content
  again.\<close>

theorem calls_then_revert:
  assumes "steady env P" "wf_tree (w_tree w)" "w_groups w d = None"
    and calls: "\<forall>c \<in> set cs. bound_file_call P c" "run_file_calls env d cs w = (r, u)"
    and revert: "revert_code_groups env [d] u = (Inr (res, None), v)" "rr_skipped res = []" and es: "plain es"
  shows "file_at v es = file_at w es"
proof -
  have k: "keeps env P d UNIV w u"
    by (rule postD [OF run_file_calls_law [OF assms(1) no_group_sound [OF assms(3)] assms(2) calls(1)] calls(2)])
  have "file_at v es = restored_content env u [d] es (file_at u es)"
    using postD [OF revert_code_groups_law [OF assms(1) keepsD(4) [OF k assms(2)]] revert(1)] revert(2) es by simp
  also have "\<dots> = restore_target env d u es" by (simp add: restore_target_def)
  also have "\<dots> = restore_target env d w es" by (rule keepsD(1) [OF k es])
  also have "\<dots> = file_at w es"
    using assms(3) by (simp add: restore_target_def preimage_def entry_preimage_def entry_of_def group_entries_def)
  finally show ?thesis .
qed

text \<open>The witnesses of the reverts: the world after a call that wrote a file.\<close>

definition disk_later :: world where
  "disk_later = snd (execute_write disk_env ''g'' (disk_call ''a'') ''/w/a'' ''two'' disk_world)"

lemma later_keeps: "keeps disk_env disk_paths ''g'' UNIV disk_world disk_later"
proof -
  have "keeps disk_env disk_paths ''g'' {elems (bc_canonical (disk_call ''a''))} disk_world disk_later"
    using execute_write_law [OF disk_steady disk_sound disk_wf disk_targets(1), of "''g''" "''/w/a''" "''two''"]
    by (simp add: post_def disk_later_def)
  then show ?thesis by (rule keeps_mono) simp
qed

lemma later_wf: "wf_tree (w_tree disk_later)"
  by (rule keepsD(4) [OF later_keeps disk_wf])

lemma later_revert:
  "fst (revert_code_groups disk_env [''g''] disk_later) = (Inr (\<lparr>rr_restored = [''/w/a''], rr_skipped = []\<rparr>, None))"
  "file_at (snd (revert_code_groups disk_env [''g''] disk_later)) [''w'', ''a''] \<noteq> file_at disk_later [''w'', ''a'']"
  by code_simp+

lemma plain_a: "plain [''w'', ''a'']"
  by code_simp

theorem revert_spares_foreign_witness:
  "\<exists>d i m l. d \<in> set [''g''] \<and> meta_of disk_later d i = Some m \<and> [''w'', ''a''] = elems (canonical_path m) \<and>
     i = en_path_hash disk_env (canonical_path m) \<and> last_write m = Some l \<and>
     (case file_at disk_later [''w'', ''a''] of
        None \<Rightarrow> si_absent l
      | Some s \<Rightarrow> \<not> si_absent l \<and> si_hash l = en_content_hash disk_env s)"
  by (rule revert_spares_foreign [OF disk_steady later_wf _ prod.collapse [symmetric] plain_a later_revert(2)]) simp

lemma later_preimage: "preimage disk_env ''g'' disk_later [''w'', ''a''] = Some (Some ''one'')"
  by code_simp

theorem revert_restores_oldest_witness:
  "file_at (snd (revert_code_groups disk_env [''g''] disk_later)) [''w'', ''a''] = Some ''one''"
proof -
  have "revert_code_groups disk_env [''g''] disk_later =
      (Inr (\<lparr>rr_restored = [''/w/a''], rr_skipped = []\<rparr>, None), snd (revert_code_groups disk_env [''g''] disk_later))"
    using later_revert(1) by (metis prod.collapse)
  from revert_restores_oldest [OF disk_steady later_wf _ this _ plain_a] later_preimage show ?thesis by simp
qed

definition disk_calls :: "file_call list" where
  "disk_calls =
     [WriteCall (disk_call ''a'') ''/w/a'' ''two'', WriteCall (disk_call ''b'') ''/w/b'' ''new'',
      EditCall (disk_call ''a'') ''/w/a'' ''w'' ''ww'' False]"

definition disk_after_calls :: world where
  "disk_after_calls = snd (run_file_calls disk_env ''g'' disk_calls disk_world)"

lemma calls_run:
  "file_at disk_after_calls [''w'', ''a''] = Some ''twwo''"
  "fst (revert_code_groups disk_env [''g''] disk_after_calls) = (Inr (\<lparr>rr_restored = [''/w/a'', ''/w/b''], rr_skipped = []\<rparr>, None))"
  by code_simp+

theorem calls_then_revert_witness:
  "file_at disk_after_calls [''w'', ''a''] = Some ''twwo'' \<and>
   file_at (snd (revert_code_groups disk_env [''g''] disk_after_calls)) [''w'', ''a''] = Some ''one''"
proof -
  let ?v = "snd (revert_code_groups disk_env [''g''] disk_after_calls)"
  have b: "\<forall>c \<in> set disk_calls. bound_file_call disk_paths c"
    by (simp add: disk_calls_def bound_target_def disk_call_def disk_paths_def)
  have r: "revert_code_groups disk_env [''g''] disk_after_calls = (Inr (\<lparr>rr_restored = [''/w/a'', ''/w/b''], rr_skipped = []\<rparr>, None), ?v)"
    using calls_run(2) by (metis prod.collapse)
  have c: "run_file_calls disk_env ''g'' disk_calls disk_world =
      (fst (run_file_calls disk_env ''g'' disk_calls disk_world), disk_after_calls)"
    by (simp add: disk_after_calls_def)
  have g: "w_groups disk_world ''g'' = None" by (simp add: disk_world_def)
  have "file_at ?v [''w'', ''a''] = file_at disk_world [''w'', ''a'']"
    by (rule calls_then_revert [OF disk_steady disk_wf g b c r _ plain_a]) simp
  moreover have "file_at disk_world [''w'', ''a''] = Some ''one''" by code_simp
  ultimately show ?thesis using calls_run(1) by simp
qed

section \<open>A fault outside the assumption\<close>

text \<open>\<open>SnapshotResolvedEntry\<close> takes any error of \<open>os.Stat\<close> on the metadata for its absence. When it fails once for
  another reason, the entry is captured again, and the content written since replaces the first preimage: the revert then
  brings back the wrong content.\<close>

definition stat_fault_env :: env where
  "stat_fault_env = disk_env\<lparr>en_fault := (\<lambda>k t. if k = StatMeta then Some 0 else None)\<rparr>"

lemma failing_stat_loses_preimage:
  "restore_target disk_env ''g'' disk_later [''w'', ''a''] = Some ''one'' \<and>
   restore_target disk_env ''g''
     (snd (execute_write stat_fault_env ''g'' (disk_call ''a'') ''/w/a'' ''three'' disk_later)) [''w'', ''a''] = Some ''two''"
  by code_simp

end
