(* ===== verification/Base64.thy ===== *)
theory Base64
  imports Main
begin

text \<open>
  \<open>base64.StdEncoding\<close> of the Go library, in which the arguments of tool calls are stored. Decoding skips line breaks and
  does not look at the unused bits of the last digit. The position inside a decoding error is dropped.
\<close>

definition b64_alphabet :: string where
  "b64_alphabet = ''ABCDEFGHIJKLMNOPQRSTUVWXYZabcdefghijklmnopqrstuvwxyz0123456789+/''"

definition b64_digit :: "nat \<Rightarrow> char" where
  "b64_digit n = b64_alphabet ! n"

definition b64_value :: "char \<Rightarrow> nat option" where
  "b64_value c = map_of (zip b64_alphabet [0..<64]) c"

definition b64_pad :: char where
  "b64_pad = CHR ''=''"

definition byte_of :: "nat \<Rightarrow> char" where
  "byte_of n = char_of n"

abbreviation code_of :: "char \<Rightarrow> nat" where
  "code_of c \<equiv> of_char c"

fun base64_encode :: "string \<Rightarrow> string" where
  "base64_encode [] = []"
| "base64_encode [a] = [b64_digit (code_of a div 4), b64_digit (code_of a mod 4 * 16), b64_pad, b64_pad]"
| "base64_encode [a, b] =
     [b64_digit (code_of a div 4), b64_digit (code_of a mod 4 * 16 + code_of b div 16),
      b64_digit (code_of b mod 16 * 4), b64_pad]"
| "base64_encode (a # b # c # rest) =
     [b64_digit (code_of a div 4), b64_digit (code_of a mod 4 * 16 + code_of b div 16),
      b64_digit (code_of b mod 16 * 4 + code_of c div 64), b64_digit (code_of c mod 64)] @ base64_encode rest"

fun decode_quanta :: "string \<Rightarrow> string option" where
  "decode_quanta [] = Some []"
| "decode_quanta (a # b # c # d # rest) =
     (case (b64_value a, b64_value b) of
        (Some x, Some y) \<Rightarrow>
          (if c = b64_pad
           then (if d = b64_pad \<and> rest = [] then Some [byte_of (x * 4 + y div 16)] else None)
           else (case b64_value c of
                   None \<Rightarrow> None
                 | Some z \<Rightarrow>
                     (if d = b64_pad
                      then (if rest = [] then Some [byte_of (x * 4 + y div 16), byte_of (y mod 16 * 16 + z div 4)] else None)
                      else (case b64_value d of
                              None \<Rightarrow> None
                            | Some v \<Rightarrow>
                                map_option (\<lambda>bs. [byte_of (x * 4 + y div 16), byte_of (y mod 16 * 16 + z div 4),
                                    byte_of (z mod 4 * 64 + v)] @ bs) (decode_quanta rest)))))
      | _ \<Rightarrow> None)"
| "decode_quanta _ = None"

definition line_break :: "char \<Rightarrow> bool" where
  "line_break c \<longleftrightarrow> of_char c = (10 :: nat) \<or> of_char c = (13 :: nat)"

definition base64_decode :: "string \<Rightarrow> string option" where
  "base64_decode s = decode_quanta (filter (\<lambda>c. \<not> line_break c) s)"

section \<open>Round trip\<close>

lemma b64_digits:
  "list_all (\<lambda>n. b64_value (b64_digit n) = Some n \<and> b64_digit n \<noteq> b64_pad \<and> \<not> line_break (b64_digit n)) [0..<64]"
  by code_simp

lemma b64_digit_ok [simp]:
  assumes "n < 64"
  shows "b64_value (b64_digit n) = Some n" "b64_digit n \<noteq> b64_pad" "\<not> line_break (b64_digit n)"
  using b64_digits assms by (simp_all add: list_all_iff)

lemma pad_no_break [simp]: "\<not> line_break b64_pad"
  by code_simp

lemma code_bound [simp]: "code_of c < (256 :: nat)"
  using nat_of_char_less_256 [of c] by simp

lemma code_parts [simp]:
  "code_of c div 4 < (64 :: nat)" "code_of c mod 4 * 16 < (64 :: nat)" "code_of c mod 16 * 4 < (64 :: nat)"
  "code_of c mod 4 * 16 + code_of d div 16 < (64 :: nat)" "code_of c mod 16 * 4 + code_of d div 64 < (64 :: nat)"
  using code_bound [of c] code_bound [of d] by linarith+

lemma byte_of_code [simp]: "byte_of (code_of c) = c"
  by (simp add: byte_of_def)

lemma code_halves [simp]:
  "code_of c div 16 div 16 = (0 :: nat)" "code_of c div 64 div 4 = (0 :: nat)"
  "code_of c div 16 mod 16 = (code_of c div 16 :: nat)" "code_of c div 64 mod 4 = (code_of c div 64 :: nat)"
proof -
  have "code_of c div 16 < (16 :: nat)" "code_of c div 64 < (4 :: nat)"
    using code_bound [of c] by linarith+
  then show "code_of c div 16 div 16 = (0 :: nat)" "code_of c div 64 div 4 = (0 :: nat)"
    "code_of c div 16 mod 16 = (code_of c div 16 :: nat)" "code_of c div 64 mod 4 = (code_of c div 64 :: nat)"
    by simp_all
qed

lemma encode_no_breaks: "filter (\<lambda>c. \<not> line_break c) (base64_encode s) = base64_encode s"
  by (induction s rule: base64_encode.induct) simp_all

lemma decode_quanta_encode: "decode_quanta (base64_encode s) = Some s"
  by (induction s rule: base64_encode.induct) simp_all

lemma base64_round_trip [simp]: "base64_decode (base64_encode s) = Some s"
  by (simp add: base64_decode_def encode_no_breaks decode_quanta_encode)

end
