(* ===== verification/Conversation.thy ===== *)
theory Conversation
  imports Session_Graph Base64
begin

text \<open>
  The conversation a model request is built from (\<open>src/harness/context.go\<close>, with the lookup of the current
  checkpoint from \<open>compact.go\<close>): the projection of the committed entries into messages, the live view that request
  hooks transform, and the dispatched request. Copies that only separate ownership are the identity. The codec pass at
  the end of an accepted consequence or evidence, which returns the value it was given or an error, is left out.
\<close>

section \<open>Messages of entries\<close>

datatype projection_error =
  BadMessage model_error
| BadArguments string string
| UnknownOperation string

definition no_ref :: model_ref where
  "no_ref = \<lparr>provider = [], model_name = []\<rparr>"

definition blank_message :: "role \<Rightarrow> message" where
  "blank_message r = \<lparr>msg_role = r, msg_content = [], msg_refusal = [], msg_tool_calls = [], msg_tool_call_id = [],
     msg_name = [], msg_extra = [], msg_source = no_ref\<rparr>"

definition text_part :: "string \<Rightarrow> content_part" where
  "text_part s = \<lparr>part_kind = PartText, part_text = s, part_url = [], part_opaque = [], part_extra = []\<rparr>"

definition checked_message :: "message \<Rightarrow> projection_error + message" where
  "checked_message m = map_error BadMessage (new_message m)"

text \<open>\<open>strings.NewReplacer\<close> with patterns of one byte replaces every byte on its own.\<close>

definition escape_byte :: "char \<Rightarrow> string" where
  "escape_byte c =
     (if c = CHR ''&'' then ''&amp;'' else if c = CHR ''<'' then ''&lt;'' else if c = CHR ''>'' then ''&gt;'' else [c])"

definition signal_projected_text :: "string \<Rightarrow> string" where
  "signal_projected_text s = ''<system-signal>'' @ concat (map escape_byte s) @ ''</system-signal>''"

fun project_calls :: "string \<Rightarrow> tool_call_record list \<Rightarrow> projection_error + tool_call list" where
  "project_calls i [] = Inr []"
| "project_calls i (c # cs) =
     (case base64_decode (tc_arguments_base64 c) of
        None \<Rightarrow> Inl (BadArguments i (tc_id c))
      | Some s \<Rightarrow>
          rbind (project_calls i cs) (\<lambda>ks.
            Inr (\<lparr>call_id = tc_id c, call_name = tc_name c, call_arguments = s, call_extra = tc_extra c\<rparr> # ks)))"

definition project_entry :: "graph_entry \<Rightarrow> projection_error + message option" where
  "project_entry e =
     (case ge_payload e of
        PInput i \<Rightarrow>
          rbind (checked_message ((blank_message RoleUser)\<lparr>msg_content := in_content i\<rparr>)) (\<lambda>m. Inr (Some m))
      | PAssistant a \<Rightarrow>
          rbind (project_calls (ge_id e) (as_tool_calls a)) (\<lambda>cs.
          rbind (checked_message ((blank_message RoleAssistant)\<lparr>msg_source := as_source a, msg_content := as_content a,
                   msg_refusal := as_refusal a, msg_extra := as_extra a, msg_tool_calls := cs\<rparr>)) (\<lambda>m. Inr (Some m)))
      | PToolResult t \<Rightarrow>
          rbind (checked_message ((blank_message RoleTool)\<lparr>msg_tool_call_id := tr_call t,
                   msg_content := [text_part (tr_content t)]\<rparr>)) (\<lambda>m. Inr (Some m))
      | PSignal s \<Rightarrow>
          rbind (checked_message ((blank_message RoleUser)\<lparr>
                   msg_content := [text_part (signal_projected_text (sg_content s))]\<rparr>)) (\<lambda>m. Inr (Some m))
      | _ \<Rightarrow> Inr None)"

definition message_bearing :: "graph_entry \<Rightarrow> bool" where
  "message_bearing e =
     (case ge_payload e of
        PInput _ \<Rightarrow> True | PAssistant _ \<Rightarrow> True | PToolResult _ \<Rightarrow> True | PSignal _ \<Rightarrow> True | _ \<Rightarrow> False)"

section \<open>The projection\<close>

text \<open>The payload of the named checkpoint and the sequence of its boundary; \<open>-1\<close> when nothing is cut.\<close>

fun find_cutoff_from :: "graph_entry list \<Rightarrow> string \<Rightarrow> graph_entry list \<Rightarrow> checkpoint_entry option \<times> int" where
  "find_cutoff_from es named [] = (None, -1)"
| "find_cutoff_from es named (e # rest) =
     (case (if ge_id e = named then the_compaction (ge_payload e) else None) of
        None \<Rightarrow> find_cutoff_from es named rest
      | Some c \<Rightarrow>
          (case find (\<lambda>b. ge_id b = ck_boundary c) es of
             None \<Rightarrow> find_cutoff_from es named rest
           | Some b \<Rightarrow> (Some c, ge_seq b)))"

definition find_compaction_cutoff :: "graph_entry list \<Rightarrow> string \<Rightarrow> checkpoint_entry option \<times> int" where
  "find_compaction_cutoff es named = (if named = [] then (None, -1) else find_cutoff_from es named es)"

definition checkpoint_messages :: "checkpoint_entry option \<Rightarrow> message list" where
  "checkpoint_messages co = (case co of None \<Rightarrow> [] | Some c \<Rightarrow> ck_messages c)"

text \<open>One round of the loop over the entries, on the messages and the boundary found so far.\<close>

definition project_step ::
  "string \<Rightarrow> int \<Rightarrow> message list \<times> string \<Rightarrow> graph_entry \<Rightarrow> projection_error + message list \<times> string" where
  "project_step named cutoff s e =
     (if ge_seq e \<le> cutoff then Inr s
      else rbind (project_entry e) (\<lambda>mo.
        Inr (case mo of None \<Rightarrow> fst s | Some m \<Rightarrow> fst s @ [m],
             if ge_id e \<noteq> named \<and> message_bearing e then ge_id e else snd s)))"

definition system_message :: "string \<Rightarrow> message" where
  "system_message s = (blank_message RoleSystem)\<lparr>msg_content := [text_part s]\<rparr>"

definition project_context_refs ::
  "session_graph \<Rightarrow> string \<Rightarrow> projection_error + (message list \<times> string \<times> string \<times> bool)" where
  "project_context_refs g opid =
     (case find_operation g opid of
        None \<Rightarrow> Inl (UnknownOperation opid)
      | Some x \<Rightarrow>
          (let prompt = xc_prompt (oa_execution (or_admission x));
               named = ss_checkpoint (sr_state (g_session g));
               (co, cutoff) = find_compaction_cutoff (g_entries g) named
           in rbind (if prompt = [] then Inr [] else rbind (checked_message (system_message prompt)) (\<lambda>m. Inr [m])) (\<lambda>sys.
              rbind (fold_result (project_step named cutoff) (sys @ checkpoint_messages co, []) (g_entries g)) (\<lambda>(ms, b).
                Inr (ms, named, (if b = [] \<and> named \<noteq> [] then named else b), prompt \<noteq> [])))))"

definition project_canonical :: "session_graph \<Rightarrow> string \<Rightarrow> projection_error + (message list \<times> string \<times> string)" where
  "project_canonical g opid =
     rbind (project_context_refs g opid) (\<lambda>(ms, ckpt, boundary, injected).
       Inr (if injected \<and> ms \<noteq> [] then tl ms else ms, ckpt, boundary))"

section \<open>The usage measured last\<close>

definition conversation_usage :: "graph_entry \<Rightarrow> usage_count option" where
  "conversation_usage e =
     (case ge_payload e of
        PAssistant a \<Rightarrow> as_usage a
      | PSettlement s \<Rightarrow> (if st_compaction_usage s then None else st_usage s)
      | _ \<Rightarrow> None)"

fun latest_usage_from :: "string \<Rightarrow> graph_entry list \<Rightarrow> usage_count option" where
  "latest_usage_from ck [] = None"
| "latest_usage_from ck (e # es) =
     (if ck \<noteq> [] \<and> ge_id e = ck then None
      else (case conversation_usage e of Some u \<Rightarrow> Some u | None \<Rightarrow> latest_usage_from ck es))"

definition latest_context_usage :: "graph_entry list \<Rightarrow> string \<Rightarrow> usage_count option" where
  "latest_context_usage es ck = latest_usage_from ck (rev es)"

section \<open>The view of a request\<close>

record request_view =
  rv_capture :: execution_capture
  rv_canonical :: "message list"
  rv_checkpoint :: string
  rv_boundary :: string
  rv_prompt :: string
  rv_additions :: "message list"
  rv_names :: "string list"
  rv_contributors :: "hook_identity list"

definition new_request_view :: "execution_capture \<Rightarrow> string \<Rightarrow> string \<Rightarrow> message list \<Rightarrow> request_view" where
  "new_request_view x ckpt boundary canonical = \<lparr>rv_capture = x, rv_canonical = canonical, rv_checkpoint = ckpt,
     rv_boundary = boundary, rv_prompt = xc_prompt x, rv_additions = [], rv_names = map def_name (xc_tools x),
     rv_contributors = []\<rparr>"

definition current_canonical :: "request_view \<Rightarrow> message list" where
  "current_canonical v = rv_canonical v @ rv_additions v"

definition effective_tools :: "execution_capture \<Rightarrow> string list \<Rightarrow> tool_definition list" where
  "effective_tools x names = filter (\<lambda>t. def_name t \<in> set names) (xc_tools x)"

definition apply_consequence :: "request_view \<Rightarrow> request_consequence \<Rightarrow> request_view" where
  "apply_consequence v con =
     (let v1 = (case rc_prompt con of None \<Rightarrow> v | Some p \<Rightarrow> v\<lparr>rv_prompt := p\<rparr>);
          v2 = v1\<lparr>rv_additions := rv_additions v1 @ rc_messages con\<rparr>
      in case rc_tool_names con of None \<Rightarrow> v2 | Some ns \<Rightarrow> v2\<lparr>rv_names := ns\<rparr>)"

definition record_accepted :: "request_view \<Rightarrow> hook_identity \<Rightarrow> request_consequence \<Rightarrow> request_view" where
  "record_accepted v h con =
     (let v' = apply_consequence v con in v'\<lparr>rv_contributors := rv_contributors v' @ [h]\<rparr>)"

definition evidence_for :: "request_view \<Rightarrow> request_evidence" where
  "evidence_for v = \<lparr>ev_checkpoint = rv_checkpoint v, ev_boundary = rv_boundary v, ev_prompt = rv_prompt v,
     ev_messages = rv_additions v, ev_tool_names = rv_names v, ev_hooks = rv_contributors v\<rparr>"

section \<open>Consequences of hooks\<close>

datatype consequence_error =
  CarriesCalls | CarriesCallId | InvalidContribution model_error
| MessageError nat consequence_error
| EmptyName | DuplicateName string | OutsideCatalog string

definition validate_contribution_message :: "message \<Rightarrow> consequence_error + message" where
  "validate_contribution_message m =
     (if msg_tool_calls m \<noteq> [] then Inl CarriesCalls
      else if msg_tool_call_id m \<noteq> [] then Inl CarriesCallId
      else map_error InvalidContribution (new_message m))"

fun accept_messages :: "nat \<Rightarrow> message list \<Rightarrow> consequence_error + message list" where
  "accept_messages i [] = Inr []"
| "accept_messages i (m # ms) =
     rbind (map_error (MessageError i) (validate_contribution_message m)) (\<lambda>m'.
     rbind (accept_messages (Suc i) ms) (\<lambda>ms'. Inr (m' # ms')))"

fun accept_names :: "tool_definition list \<Rightarrow> string list \<Rightarrow> string list \<Rightarrow> consequence_error + string list" where
  "accept_names catalog seen [] = Inr seen"
| "accept_names catalog seen (n # ns) =
     (if n = [] then Inl EmptyName
      else if n \<in> set seen then Inl (DuplicateName n)
      else if n \<notin> def_name ` set catalog then Inl (OutsideCatalog n)
      else accept_names catalog (seen @ [n]) ns)"

definition validate_request_consequence ::
  "execution_capture \<Rightarrow> request_consequence \<Rightarrow> consequence_error + request_consequence" where
  "validate_request_consequence x con =
     rbind (accept_messages 0 (rc_messages con)) (\<lambda>ms.
     rbind (case rc_tool_names con of
              None \<Rightarrow> Inr None
            | Some ns \<Rightarrow> rbind (accept_names (xc_tools x) [] ns) (\<lambda>seen.
                Inr (Some (filter (\<lambda>n. n \<in> set seen) (map def_name (xc_tools x)))))) (\<lambda>names.
       Inr \<lparr>rc_prompt = rc_prompt con, rc_messages = ms, rc_tool_names = names\<rparr>))"

section \<open>The dispatched request\<close>

definition build_dispatch_request :: "execution_capture \<Rightarrow> message list \<Rightarrow> request_evidence \<Rightarrow> request" where
  "build_dispatch_request x canonical ev = \<lparr>
     req_messages = (if ev_prompt ev = [] then [] else [system_message (ev_prompt ev)]) @ canonical @ ev_messages ev,
     req_tools = effective_tools x (ev_tool_names ev)\<rparr>"

section \<open>Request hooks\<close>

record request_hook_input =
  ri_request :: string
  ri_canonical :: "message list"
  ri_messages :: "message list"
  ri_checkpoint :: string
  ri_boundary :: string
  ri_captured_prompt :: string
  ri_prompt :: string
  ri_catalog :: "tool_definition list"
  ri_tools :: "tool_definition list"

definition hook_input :: "string \<Rightarrow> request_view \<Rightarrow> request_hook_input" where
  "hook_input rid v = \<lparr>ri_request = rid, ri_canonical = rv_canonical v, ri_messages = current_canonical v,
     ri_checkpoint = rv_checkpoint v, ri_boundary = rv_boundary v, ri_captured_prompt = xc_prompt (rv_capture v),
     ri_prompt = rv_prompt v, ri_catalog = xc_tools (rv_capture v), ri_tools = effective_tools (rv_capture v) (rv_names v)\<rparr>"

text \<open>What the callback of a hook returns, and how a chain of hooks may stop.\<close>

datatype hook_return = Consequence request_consequence | HookCancelled | HookFails string

datatype hook_stop = ExecutionInterrupted | CallbackFailed string | ConsequenceRejected consequence_error

record request_hook =
  rh_identity :: hook_identity
  rh_run :: "request_hook_input \<Rightarrow> hook_return"

definition run_pure_hook :: "string \<Rightarrow> request_view \<Rightarrow> request_hook \<Rightarrow> hook_stop + request_consequence" where
  "run_pure_hook rid v hook =
     (case rh_run hook (hook_input rid v) of
        HookCancelled \<Rightarrow> Inl ExecutionInterrupted
      | HookFails s \<Rightarrow> Inl (CallbackFailed s)
      | Consequence con \<Rightarrow> map_error ConsequenceRejected (validate_request_consequence (rv_capture v) con))"

text \<open>The chain of hooks, all of them pure; \<open>cancelled\<close> is the state of the execution context before each.\<close>

fun run_request_hooks :: "(nat \<Rightarrow> bool) \<Rightarrow> string \<Rightarrow> request_view \<Rightarrow> request_hook list \<Rightarrow> hook_stop + request_view" where
  "run_request_hooks cancelled rid v [] = Inr v"
| "run_request_hooks cancelled rid v (hook # hooks) =
     (if cancelled (length hooks) then Inl ExecutionInterrupted
      else rbind (run_pure_hook rid v hook) (\<lambda>con.
        run_request_hooks cancelled rid (record_accepted v (rh_identity hook) con) hooks))"

end
