(* ===== verification/Checkpoint_Plan.thy ===== *)
theory Checkpoint_Plan
  imports Conversation
begin

text \<open>
  Context maintenance (\<open>src/harness/compact.go\<close>, \<open>strategy.go\<close>): the plans a strategy may return and the included
  summary strategy, the pairing rule for tool calls and results, the resolution of a proposed checkpoint
  against the frozen conversation, and its validation against the entries. Iterating a Go map has no fixed order; which of
  several violations is reported follows the order of insertion here. \<open>IndexPanic\<close> is the panic of an index out of range.
  The JSON text of a message and the quoting of raw bytes are the Go library's: they are parameters.
\<close>

section \<open>Pairing of tool calls and results\<close>

datatype plan_error =
  RepeatsCall string | OrphanResult string | Unanswered string
| NoItems | NotExactlyOne nat | NotIncreasing nat | OutsideCovered nat | ItemMessage nat consequence_error | IndexPanic
| OmitsResult nat nat | UnopenedResult nat | OmitsCall nat nat
| NoBoundary string | BoundaryUncovered string | CutStraddles string | Unprojectable projection_error
| MalformedPlan | NothingToCompact | SerializeFailed | EmptySummary | SummaryRejected model_error

fun open_calls :: "string list \<Rightarrow> tool_call list \<Rightarrow> plan_error + string list" where
  "open_calls out [] = Inr out"
| "open_calls out (c # cs) =
     (if call_id c \<in> set out then Inl (RepeatsCall (call_id c)) else open_calls (call_id c # out) cs)"

fun pairing_from :: "string list \<Rightarrow> message list \<Rightarrow> plan_error + unit" where
  "pairing_from out [] = (case out of [] \<Rightarrow> Inr () | c # _ \<Rightarrow> Inl (Unanswered c))"
| "pairing_from out (m # ms) =
     rbind (open_calls out (msg_tool_calls m)) (\<lambda>out'.
       if msg_tool_call_id m = [] then pairing_from out' ms
       else if msg_tool_call_id m \<notin> set out' then Inl (OrphanResult (msg_tool_call_id m))
       else pairing_from (removeAll (msg_tool_call_id m) out') ms)"

definition validate_tool_pairing :: "message list \<Rightarrow> plan_error + unit" where
  "validate_tool_pairing ms = pairing_from [] ms"

section \<open>Plans\<close>

record checkpoint_item =
  it_retain :: "int option"
  it_context :: "message option"

record checkpoint_plan =
  cp_boundary :: string
  cp_items :: "checkpoint_item list"

record model_plan =
  mp_request :: request
  mp_state :: raw

datatype plan_kind = PlanNone | PlanModel | PlanCheckpoint | OtherPlan string

record plan_output =
  po_kind :: plan_kind
  po_model :: "model_plan option"
  po_checkpoint :: "checkpoint_plan option"

datatype trigger = TriggerAutomatic | TriggerManual | OtherTrigger string

record plan_input =
  pi_trigger :: trigger
  pi_messages :: "message list"
  pi_checkpoint :: string
  pi_boundary :: string
  pi_instructions :: string
  pi_tools :: "tool_definition list"
  pi_contributions :: "request_evidence option"
  pi_measurement :: "usage_count option"
  pi_context_window :: int
  pi_output_reserve :: int
  pi_settings :: raw

definition validate_plan_output :: "plan_output \<Rightarrow> plan_error + unit" where
  "validate_plan_output p =
     ensure (case po_kind p of
               PlanNone \<Rightarrow> po_model p = None \<and> po_checkpoint p = None
             | PlanModel \<Rightarrow>
                 (case po_model p of
                    None \<Rightarrow> False
                  | Some m \<Rightarrow> po_checkpoint p = None \<and> req_tools (mp_request m) = [] \<and>
                      (case mp_state m of Malformed _ \<Rightarrow> False | _ \<Rightarrow> True))
             | PlanCheckpoint \<Rightarrow>
                 (case po_checkpoint p of
                    None \<Rightarrow> False
                  | Some c \<Rightarrow> po_model p = None \<and> cp_boundary c \<noteq> [] \<and> cp_items c \<noteq> [])
             | OtherPlan _ \<Rightarrow> False) MalformedPlan"

section \<open>The included summary strategy\<close>

text \<open>\<open>marshal\<close> is \<open>json.Marshal\<close> of a message, \<open>quote\<close> the JSON text of the bytes quoted with \<open>%q\<close>.\<close>

definition inert_message :: "(string \<Rightarrow> string) \<Rightarrow> message \<Rightarrow> message" where
  "inert_message quote m = m\<lparr>msg_source := no_ref,
     msg_tool_calls := map (\<lambda>c. c\<lparr>call_arguments := quote (call_arguments c)\<rparr>) (msg_tool_calls m)\<rparr>"

fun serialize_messages ::
  "(string \<Rightarrow> string) \<Rightarrow> (message \<Rightarrow> string option) \<Rightarrow> message list \<Rightarrow> plan_error + string list" where
  "serialize_messages quote marshal [] = Inr []"
| "serialize_messages quote marshal (m # ms) =
     (case marshal (inert_message quote m) of
        None \<Rightarrow> Inl SerializeFailed
      | Some line \<Rightarrow> rbind (serialize_messages quote marshal ms) (\<lambda>ls. Inr (line # ls)))"

definition summary_request ::
  "(string \<Rightarrow> string) \<Rightarrow> (message \<Rightarrow> string option) \<Rightarrow> plan_input \<Rightarrow> plan_error + request" where
  "summary_request quote marshal pin =
     (if pi_messages pin = [] then Inl NothingToCompact
      else rbind (serialize_messages quote marshal (pi_messages pin)) (\<lambda>ls.
        Inr \<lparr>req_messages = [system_message (pi_instructions pin),
               (blank_message RoleUser)\<lparr>msg_content := [text_part (join [char_of (10 :: nat)] ls)]\<rparr>], req_tools = []\<rparr>))"

definition no_plan :: plan_output where
  "no_plan = \<lparr>po_kind = PlanNone, po_model = None, po_checkpoint = None\<rparr>"

definition summary_plan ::
  "(string \<Rightarrow> string) \<Rightarrow> (message \<Rightarrow> string option) \<Rightarrow> plan_input \<Rightarrow> plan_error + plan_output" where
  "summary_plan quote marshal pin =
     (if pi_trigger pin = TriggerAutomatic \<and>
         (case pi_measurement pin of
            None \<Rightarrow> True
          | Some u \<Rightarrow> sint (in_tokens u) + sint (cached_tokens u) + sint (out_tokens u)
                        \<le> pi_context_window pin - pi_output_reserve pin)
      then Inr no_plan
      else rbind (summary_request quote marshal pin) (\<lambda>r.
        Inr \<lparr>po_kind = PlanModel, po_model = Some \<lparr>mp_request = r, mp_state = NoBytes\<rparr>, po_checkpoint = None\<rparr>))"

definition summary_consume :: "plan_input \<Rightarrow> model_output \<Rightarrow> plan_error + plan_output" where
  "summary_consume pin out =
     (let summary = (case out_message out of None \<Rightarrow> [] | Some m \<Rightarrow> text_content m);
          nl = [char_of (10 :: nat), char_of (10 :: nat)]
      in if out_status out \<noteq> OutputCompleted \<or> summary = [] then Inl EmptySummary
         else rbind (map_error SummaryRejected (new_message ((blank_message RoleAssistant)\<lparr>msg_source := out_source out,
                msg_content := [text_part (''[Previous conversation summary]'' @ nl @ summary @ nl @
                  ''[End of summary. Continue from here.]'')]\<rparr>))) (\<lambda>m.
           Inr \<lparr>po_kind = PlanCheckpoint, po_model = None,
                po_checkpoint = Some \<lparr>cp_boundary = pi_boundary pin,
                  cp_items = [\<lparr>it_retain = None, it_context = Some m\<rparr>]\<rparr>\<rparr>))"

section \<open>Resolving the items of a checkpoint\<close>

text \<open>The loop over the items: the messages and the retained positions, in order.\<close>

fun resolve_items ::
  "message list \<Rightarrow> int \<Rightarrow> nat \<Rightarrow> int \<Rightarrow> checkpoint_item list \<Rightarrow> plan_error + message list \<times> nat list" where
  "resolve_items frozen covered i previous [] = Inr ([], [])"
| "resolve_items frozen covered i previous (it # its) =
     (case (it_retain it, it_context it) of
        (Some p, None) \<Rightarrow>
          (if p \<le> previous then Inl (NotIncreasing i)
           else if p < 0 \<or> covered \<le> p then Inl (OutsideCovered i)
           else if length frozen \<le> nat p then Inl IndexPanic
           else rbind (resolve_items frozen covered (Suc i) p its) (\<lambda>(ms, ps). Inr (frozen ! nat p # ms, nat p # ps)))
      | (None, Some m) \<Rightarrow>
          rbind (map_error (ItemMessage i) (validate_contribution_message m)) (\<lambda>m'.
          rbind (resolve_items frozen covered (Suc i) previous its) (\<lambda>(ms, ps). Inr (m' # ms, ps)))
      | _ \<Rightarrow> Inl (NotExactlyOne i))"

text \<open>The three maps of the occurrence pairing: \<open>open\<close>, \<open>resultsOf\<close> and \<open>ownerOf\<close>.\<close>

record exchange_state =
  xs_open :: "string \<Rightarrow> nat list"
  xs_results :: "nat \<Rightarrow> nat list"
  xs_owner :: "nat \<Rightarrow> nat option"

definition exchange_start :: exchange_state where
  "exchange_start = \<lparr>xs_open = \<lambda>_. [], xs_results = \<lambda>_. [], xs_owner = \<lambda>_. None\<rparr>"

definition open_occurrence :: "nat \<Rightarrow> exchange_state \<Rightarrow> tool_call \<Rightarrow> exchange_state" where
  "open_occurrence i s c = s\<lparr>xs_open := (xs_open s)(call_id c := xs_open s (call_id c) @ [i])\<rparr>"

definition exchange_step :: "exchange_state \<Rightarrow> nat \<times> message \<Rightarrow> exchange_state" where
  "exchange_step s im =
     (let (i, m) = im; s1 = foldl (open_occurrence i) s (msg_tool_calls m); c = msg_tool_call_id m
      in if c = [] then s1
         else (case xs_open s1 c of
                 [] \<Rightarrow> s1
               | q # qs \<Rightarrow> s1\<lparr>xs_open := (xs_open s1)(c := qs), xs_results := (xs_results s1)(q := xs_results s1 q @ [i]),
                              xs_owner := (xs_owner s1)(i := Some q)\<rparr>))"

definition exchanges :: "message list \<Rightarrow> exchange_state" where
  "exchanges frozen = foldl exchange_step exchange_start (enumerate 0 frozen)"

definition check_retained :: "message list \<Rightarrow> exchange_state \<Rightarrow> nat list \<Rightarrow> nat \<Rightarrow> plan_error + unit" where
  "check_retained frozen s retained p =
     rbind (if msg_tool_calls (frozen ! p) \<noteq> []
            then first_error (\<lambda>r. ensure (r \<in> set retained) (OmitsResult p r)) (xs_results s p) else Inr ()) (\<lambda>_.
       if msg_tool_call_id (frozen ! p) = [] then Inr ()
       else (case xs_owner s p of
               None \<Rightarrow> Inl (UnopenedResult p)
             | Some q \<Rightarrow> ensure (q \<in> set retained) (OmitsCall p q)))"

definition resolve_checkpoint_items ::
  "message list \<Rightarrow> checkpoint_item list \<Rightarrow> int \<Rightarrow> plan_error + message list" where
  "resolve_checkpoint_items frozen items covered =
     (if items = [] then Inl NoItems
      else rbind (resolve_items frozen covered 0 (-1) items) (\<lambda>(ms, retained).
           rbind (first_error (check_retained frozen (exchanges frozen) retained) retained) (\<lambda>_.
           rbind (validate_tool_pairing ms) (\<lambda>_. Inr ms))))"

section \<open>Validating a proposed checkpoint\<close>

definition entry_by_identity :: "graph_entry list \<Rightarrow> string \<Rightarrow> graph_entry option" where
  "entry_by_identity es i = find (\<lambda>e. ge_id e = i) es"

definition covered_source :: "graph_entry list \<Rightarrow> checkpoint_entry option \<Rightarrow> int \<Rightarrow> int \<Rightarrow> int" where
  "covered_source es prior cutoff cutseq =
     int (length (checkpoint_messages prior)) +
     int (length (filter (\<lambda>e. cutoff < ge_seq e \<and> ge_seq e \<le> cutseq \<and> message_bearing e) es))"

fun project_tail :: "int \<Rightarrow> graph_entry list \<Rightarrow> projection_error + message list" where
  "project_tail cutseq [] = Inr []"
| "project_tail cutseq (e # es) =
     (if ge_seq e \<le> cutseq then project_tail cutseq es
      else rbind (project_entry e) (\<lambda>mo.
           rbind (project_tail cutseq es) (\<lambda>ms. Inr (case mo of None \<Rightarrow> ms | Some m \<Rightarrow> m # ms))))"

definition boundary_covered :: "graph_entry list \<Rightarrow> plan_input \<Rightarrow> int \<Rightarrow> string \<Rightarrow> plan_error + graph_entry" where
  "boundary_covered es pin cutoff proposed =
     (let bo = entry_by_identity es proposed;
          covered_end = (if pi_boundary pin = [] then -1
                         else (case entry_by_identity es (pi_boundary pin) of None \<Rightarrow> -1 | Some b \<Rightarrow> ge_seq b));
          is_prior = (proposed = pi_checkpoint pin \<and> pi_checkpoint pin \<noteq> [])
      in case bo of
           None \<Rightarrow> Inl (NoBoundary proposed)
         | Some b \<Rightarrow>
             (if is_prior \<or> message_bearing b \<and> cutoff < ge_seq b \<and> ge_seq b \<le> covered_end then Inr b
              else Inl (BoundaryUncovered proposed)))"

definition validate_checkpoint_plan ::
  "session_graph \<Rightarrow> plan_input \<Rightarrow> checkpoint_plan option \<Rightarrow> plan_error + message list option" where
  "validate_checkpoint_plan g pin cpo =
     (case cpo of
        None \<Rightarrow> Inr None
      | Some cp \<Rightarrow>
          (let es = g_entries g;
               (prior, cutoff) = find_compaction_cutoff es (pi_checkpoint pin)
           in rbind (boundary_covered es pin cutoff (cp_boundary cp)) (\<lambda>b.
              rbind (resolve_checkpoint_items (pi_messages pin) (cp_items cp)
                       (covered_source es prior cutoff (ge_seq b))) (\<lambda>ms.
              case build_cut_safety es (cp_boundary cp) of
                Some k \<Rightarrow> Inl (CutStraddles k)
              | None \<Rightarrow>
                  rbind (map_error Unprojectable (project_tail (ge_seq b) es)) (\<lambda>tail.
                  rbind (validate_tool_pairing (ms @ tail)) (\<lambda>_. Inr (Some ms)))))))"

definition rebuilt_boundary :: "graph_entry list \<Rightarrow> string \<Rightarrow> string \<Rightarrow> string" where
  "rebuilt_boundary es cut_entry checkpoint =
     (case entry_by_identity es cut_entry of
        None \<Rightarrow> checkpoint
      | Some b \<Rightarrow>
          (case last_match (\<lambda>e. ge_seq b < ge_seq e \<and> message_bearing e) es of
             None \<Rightarrow> checkpoint
           | Some e \<Rightarrow> ge_id e))"

section \<open>Maintenance facts\<close>

text \<open>The carrier of a maintenance procedure. A nil carrier is \<open>None\<close>.\<close>

record facts_carrier =
  fc_facts :: "maintenance_fact list"
  fc_consumed :: request_evidence
  fc_source_request :: string
  fc_producer :: string

definition facts_list :: "facts_carrier option \<Rightarrow> maintenance_fact list" where
  "facts_list f = (case f of None \<Rightarrow> [] | Some c \<Rightarrow> fc_facts c)"

definition has_input :: "facts_carrier option \<Rightarrow> bool" where
  "has_input f \<longleftrightarrow> facts_list f \<noteq> []"

definition has_consumed :: "facts_carrier option \<Rightarrow> bool" where
  "has_consumed f \<longleftrightarrow> (case f of None \<Rightarrow> False | Some c \<Rightarrow> ev_boundary (fc_consumed c) \<noteq> [])"

definition witnesses_request :: "facts_carrier option \<Rightarrow> string \<Rightarrow> bool" where
  "witnesses_request f i \<longleftrightarrow> i \<noteq> [] \<and> i \<in> mf_request ` set (facts_list f)"

definition producer_of :: "facts_carrier option \<Rightarrow> string" where
  "producer_of f = (case f of None \<Rightarrow> [] | Some c \<Rightarrow> fc_producer c)"

definition no_evidence :: request_evidence where
  "no_evidence = \<lparr>ev_checkpoint = [], ev_boundary = [], ev_prompt = [], ev_messages = [], ev_tool_names = [], ev_hooks = []\<rparr>"

definition transfer_pending :: "maintenance_fact list \<Rightarrow> facts_carrier \<Rightarrow> maintenance_fact list \<times> facts_carrier" where
  "transfer_pending pending f = (pending @ fc_facts f, f\<lparr>fc_facts := []\<rparr>)"

definition consume_pending_facts :: "maintenance_fact list \<Rightarrow> facts_carrier option \<Rightarrow> facts_carrier option" where
  "consume_pending_facts pending f =
     (if pending = [] then f
      else Some (case f of
                   None \<Rightarrow> \<lparr>fc_facts = pending, fc_consumed = no_evidence, fc_source_request = [], fc_producer = []\<rparr>
                 | Some c \<Rightarrow> c\<lparr>fc_facts := pending @ fc_facts c\<rparr>))"

definition retain_input :: "facts_carrier \<Rightarrow> string \<Rightarrow> model_ref \<Rightarrow> request \<Rightarrow> facts_carrier" where
  "retain_input f i r req = f\<lparr>fc_facts := fc_facts f @
     [\<lparr>mf_request = i, mf_model = r, mf_input = req_messages req, mf_usage = None\<rparr>]\<rparr>"

definition counted_usage :: "usage \<Rightarrow> usage_count" where
  "counted_usage u = \<lparr>in_tokens = word_of_int (input_tokens u), cached_tokens = word_of_int (cached_input_tokens u),
     out_tokens = word_of_int (output_tokens u)\<rparr>"

definition retain_usage :: "facts_carrier \<Rightarrow> usage option \<Rightarrow> facts_carrier" where
  "retain_usage f uo =
     (case uo of
        None \<Rightarrow> f
      | Some u \<Rightarrow>
          (if fc_facts f = [] then f
           else f\<lparr>fc_facts := butlast (fc_facts f) @ [(last (fc_facts f))\<lparr>mf_usage := Some (counted_usage u)\<rparr>]\<rparr>))"

fun facts_usage_from :: "usage_totals \<Rightarrow> maintenance_fact list \<Rightarrow> usage_error + usage_totals" where
  "facts_usage_from t [] = Inr t"
| "facts_usage_from t (f # fs) =
     (case mf_usage f of
        None \<Rightarrow> facts_usage_from t fs
      | Some u \<Rightarrow> rbind (add_usage_totals t [\<lparr>mu_model = mf_model f, mu_usage = u\<rparr>]) (\<lambda>t'. facts_usage_from t' fs))"

definition facts_usage_contribution :: "maintenance_fact list \<Rightarrow> usage_error + usage_totals" where
  "facts_usage_contribution fs = facts_usage_from [] fs"

end
