(* ===== verification/Pairing_Safe.thy ===== *)
theory Pairing_Safe
  imports Checkpoint_Plan
begin

text \<open>
  The pairing rule counted: a conversation pairs when no call id is open twice at a time, no result comes without an open
  call, and nothing is open at the end. Then the occurrence pairing: in a conversation whose calls and results
  pair so far, the three maps hold exactly the exchanges, and resolved items keep or drop an exchange as a whole.
\<close>

section \<open>The pairing rule\<close>

datatype exchange_event = Opens string | Closes string

definition message_events :: "message \<Rightarrow> exchange_event list" where
  "message_events m = map (\<lambda>c. Opens (call_id c)) (msg_tool_calls m) @
     (if msg_tool_call_id m = [] then [] else [Closes (msg_tool_call_id m)])"

definition conversation_events :: "message list \<Rightarrow> exchange_event list" where
  "conversation_events ms = concat (map message_events ms)"

definition opened :: "string \<Rightarrow> exchange_event list \<Rightarrow> nat" where
  "opened c evs = count_list evs (Opens c)"

definition closed_count :: "string \<Rightarrow> exchange_event list \<Rightarrow> nat" where
  "closed_count c evs = count_list evs (Closes c)"

definition pairs_so_far :: "exchange_event list \<Rightarrow> bool" where
  "pairs_so_far evs \<longleftrightarrow>
     (\<forall>k c. closed_count c (take k evs) \<le> opened c (take k evs) \<and>
            opened c (take k evs) \<le> closed_count c (take k evs) + 1)"

definition well_paired :: "message list \<Rightarrow> bool" where
  "well_paired ms \<longleftrightarrow>
     (let evs = conversation_events ms in pairs_so_far evs \<and> (\<forall>c. opened c evs = closed_count c evs))"

text \<open>The calls that are open after a conversation, if its calls and results pair so far.\<close>

fun event_run :: "string list \<Rightarrow> exchange_event list \<Rightarrow> string list option" where
  "event_run out [] = Some out"
| "event_run out (Opens c # evs) = (if c \<in> set out then None else event_run (c # out) evs)"
| "event_run out (Closes c # evs) = (if c \<in> set out then event_run (removeAll c out) evs else None)"

definition outstanding :: "string list \<Rightarrow> message list \<Rightarrow> string list option" where
  "outstanding out ms = event_run out (conversation_events ms)"

lemma event_run_append: "event_run out (as @ bs) = Option.bind (event_run out as) (\<lambda>o1. event_run o1 bs)"
  by (induction out as rule: event_run.induct) auto

lemma open_calls_run:
  "open_calls out cs = Inr out' \<longleftrightarrow> event_run out (map (\<lambda>c. Opens (call_id c)) cs) = Some out'"
  by (induction out cs rule: open_calls.induct) auto

lemma conversation_events_simps [simp]:
  "conversation_events [] = []" "conversation_events (m # ms) = message_events m @ conversation_events ms"
  "conversation_events (ms @ ns) = conversation_events ms @ conversation_events ns"
  by (simp_all add: conversation_events_def)

lemma pairing_from_run: "pairing_from out ms = Inr () \<longleftrightarrow> outstanding out ms = Some []"
proof (induction out ms rule: pairing_from.induct)
  case (1 out)
  then show ?case by (cases out) (simp_all add: outstanding_def)
next
  case (2 out m ms)
  show ?case
  proof (cases "open_calls out (msg_tool_calls m)")
    case (Inl e)
    then have "event_run out (map (\<lambda>c. Opens (call_id c)) (msg_tool_calls m)) = None"
      using open_calls_run [of out "msg_tool_calls m"] by (cases "event_run out (map (\<lambda>c. Opens (call_id c)) (msg_tool_calls m))") auto
    with Inl show ?thesis by (simp add: outstanding_def message_events_def event_run_append)
  next
    case (Inr out')
    with open_calls_run [of out "msg_tool_calls m" out'] 2 show ?thesis
      by (auto simp: outstanding_def message_events_def event_run_append)
  qed
qed

text \<open>The bounds on the counts, with calls that are open from the start.\<close>

definition bounded_from :: "string list \<Rightarrow> exchange_event list \<Rightarrow> bool" where
  "bounded_from out evs \<longleftrightarrow>
     (\<forall>k c. closed_count c (take k evs) \<le> opened c (take k evs) + of_bool (c \<in> set out) \<and>
            opened c (take k evs) + of_bool (c \<in> set out) \<le> closed_count c (take k evs) + 1)"

lemma count_simps [simp]:
  "opened c [] = 0" "closed_count c [] = 0"
  "opened c (Opens d # evs) = (if c = d then Suc (opened c evs) else opened c evs)"
  "opened c (Closes d # evs) = opened c evs"
  "closed_count c (Closes d # evs) = (if c = d then Suc (closed_count c evs) else closed_count c evs)"
  "closed_count c (Opens d # evs) = closed_count c evs"
  by (auto simp: opened_def closed_count_def)

lemma all_takes: "(\<forall>k. P (take k (e # evs))) \<longleftrightarrow> P [] \<and> (\<forall>k. P (e # take k evs))"
  by (metis take_0 take_Suc_Cons not0_implies_Suc)

lemma bounded_from_Nil [simp]: "bounded_from out []"
  by (simp add: bounded_from_def)

lemma bounded_from_Opens: "bounded_from out (Opens d # evs) \<longleftrightarrow> d \<notin> set out \<and> bounded_from (d # out) evs"
proof -
  define P where "P es \<longleftrightarrow> (\<forall>c. closed_count c es \<le> opened c es + of_bool (c \<in> set out) \<and>
      opened c es + of_bool (c \<in> set out) \<le> closed_count c es + 1)" for es
  define Q where "Q es \<longleftrightarrow> (\<forall>c. closed_count c es \<le> opened c es + of_bool (c \<in> set (d # out)) \<and>
      opened c es + of_bool (c \<in> set (d # out)) \<le> closed_count c es + 1)" for es
  have step: "P (Opens d # es) \<longleftrightarrow> Q es" if "d \<notin> set out" for es
    unfolding P_def Q_def using that by (intro iff_allI) auto
  have zero: "P []" by (simp add: P_def)
  have no: "\<not> P [Opens d]" if "d \<in> set out"
    unfolding P_def using that by (auto intro!: exI [of _ d])
  have "bounded_from out (Opens d # evs) \<longleftrightarrow> (\<forall>k. P (Opens d # take k evs))"
    using all_takes [of P "Opens d" evs] zero by (simp add: bounded_from_def P_def)
  moreover have "bounded_from (d # out) evs \<longleftrightarrow> (\<forall>k. Q (take k evs))"
    by (simp add: bounded_from_def Q_def)
  ultimately show ?thesis using step no by (metis take_0)
qed

lemma bounded_from_Closes: "bounded_from out (Closes d # evs) \<longleftrightarrow> d \<in> set out \<and> bounded_from (removeAll d out) evs"
proof -
  define P where "P es \<longleftrightarrow> (\<forall>c. closed_count c es \<le> opened c es + of_bool (c \<in> set out) \<and>
      opened c es + of_bool (c \<in> set out) \<le> closed_count c es + 1)" for es
  define Q where "Q es \<longleftrightarrow> (\<forall>c. closed_count c es \<le> opened c es + of_bool (c \<in> set (removeAll d out)) \<and>
      opened c es + of_bool (c \<in> set (removeAll d out)) \<le> closed_count c es + 1)" for es
  have step: "P (Closes d # es) \<longleftrightarrow> Q es" if "d \<in> set out" for es
    unfolding P_def Q_def using that by (intro iff_allI) auto
  have zero: "P []" by (simp add: P_def)
  have no: "\<not> P [Closes d]" if "d \<notin> set out"
    unfolding P_def using that by (auto intro!: exI [of _ d])
  have "bounded_from out (Closes d # evs) \<longleftrightarrow> (\<forall>k. P (Closes d # take k evs))"
    using all_takes [of P "Closes d" evs] zero by (simp add: bounded_from_def P_def)
  moreover have "bounded_from (removeAll d out) evs \<longleftrightarrow> (\<forall>k. Q (take k evs))"
    by (simp add: bounded_from_def Q_def)
  ultimately show ?thesis using step no by (metis take_0)
qed

lemma event_run_bounded: "event_run out evs \<noteq> None \<longleftrightarrow> bounded_from out evs"
  by (induction out evs rule: event_run.induct) (simp_all add: bounded_from_Opens bounded_from_Closes)

lemma event_run_counts:
  "event_run out evs = Some out' \<Longrightarrow>
     opened c evs + of_bool (c \<in> set out) = closed_count c evs + of_bool (c \<in> set out')"
  by (induction out evs rule: event_run.induct) (auto split: if_splits)

lemma pairs_so_far_run: "pairs_so_far (conversation_events ms) \<longleftrightarrow> outstanding [] ms \<noteq> None"
  using event_run_bounded [of "[]" "conversation_events ms"] by (simp add: outstanding_def pairs_so_far_def bounded_from_def)

lemma validate_tool_pairing_iff: "validate_tool_pairing ms = Inr () \<longleftrightarrow> well_paired ms"
proof -
  have "outstanding [] ms = Some [] \<longleftrightarrow> (\<forall>c. opened c (conversation_events ms) = closed_count c (conversation_events ms))"
    if "outstanding [] ms = Some out" for out
  proof -
    have "opened c (conversation_events ms) = closed_count c (conversation_events ms) + of_bool (c \<in> set out)" for c
      using event_run_counts [of "[]" "conversation_events ms" out c] that by (simp add: outstanding_def)
    then show ?thesis using that by (cases out) auto
  qed
  then show ?thesis
    unfolding validate_tool_pairing_def pairing_from_run well_paired_def Let_def pairs_so_far_run by force
qed

text \<open>The check of tool pairing decides the counted rule: it accepts a conversation exactly when, at every point of it,
  each call id was opened as often as it was answered or once more, and at its end as often.\<close>

theorem validate_tool_pairing_counts: "validate_tool_pairing ms = Inr () \<longleftrightarrow> well_paired ms"
  by (rule validate_tool_pairing_iff)

section \<open>Exchanges\<close>

text \<open>The call at position \<open>p\<close> is answered at position \<open>r\<close>: the next result of its id.\<close>

definition calls_id :: "message \<Rightarrow> string \<Rightarrow> bool" where
  "calls_id m c \<longleftrightarrow> c \<in> call_id ` set (msg_tool_calls m)"

definition open_at :: "message list \<Rightarrow> string \<Rightarrow> nat \<Rightarrow> bool" where
  "open_at ms c p \<longleftrightarrow> p < length ms \<and> calls_id (ms ! p) c \<and> (\<forall>q. p < q \<and> q < length ms \<longrightarrow> msg_tool_call_id (ms ! q) \<noteq> c)"

definition exchange :: "message list \<Rightarrow> nat \<Rightarrow> nat \<Rightarrow> bool" where
  "exchange ms p r \<longleftrightarrow> r < length ms \<and> msg_tool_call_id (ms ! r) \<noteq> [] \<and> open_at (take r ms) (msg_tool_call_id (ms ! r)) p"

text \<open>A message carries calls or answers one, not both, and its calls are named, as every valid message.\<close>

definition one_sided :: "message \<Rightarrow> bool" where
  "one_sided m \<longleftrightarrow> (msg_tool_calls m = [] \<or> msg_tool_call_id m = []) \<and> \<not> calls_id m []"

lemma exchange_append:
  "exchange (ms @ [m]) p r \<longleftrightarrow>
     exchange ms p r \<or> r = length ms \<and> msg_tool_call_id m \<noteq> [] \<and> open_at ms (msg_tool_call_id m) p"
  by (auto simp: exchange_def nth_append less_Suc_eq)

lemma open_at_append:
  "open_at (ms @ [m]) c p \<longleftrightarrow>
     open_at ms c p \<and> msg_tool_call_id m \<noteq> c \<or> p = length ms \<and> calls_id m c"
  by (auto simp: open_at_def nth_append less_Suc_eq)

definition exchange_inv :: "message list \<Rightarrow> exchange_state \<Rightarrow> string list \<Rightarrow> bool" where
  "exchange_inv ms s out \<longleftrightarrow>
     (\<forall>c. if c \<in> set out then \<exists>p. xs_open s c = [p] \<and> (\<forall>q. open_at ms c q \<longleftrightarrow> q = p)
          else xs_open s c = [] \<and> (\<forall>q. \<not> open_at ms c q)) \<and>
     (\<forall>r p. xs_owner s r = Some p \<longleftrightarrow> exchange ms p r) \<and>
     (\<forall>r p. r \<in> set (xs_results s p) \<longleftrightarrow> exchange ms p r)"

lemma open_occurrences:
  "event_run out (map (\<lambda>c. Opens (call_id c)) cs) = Some out' \<Longrightarrow>
   (\<forall>c. c \<notin> set out \<longrightarrow> xs_open s c = []) \<Longrightarrow>
   (let s' = foldl (open_occurrence i) s cs
    in set out' = set out \<union> call_id ` set cs \<and> set out \<inter> call_id ` set cs = {} \<and>
       (\<forall>c. xs_open s' c = (if c \<in> call_id ` set cs then [i] else xs_open s c)) \<and>
       xs_owner s' = xs_owner s \<and> xs_results s' = xs_results s)"
proof (induction cs arbitrary: out s)
  case (Cons c cs)
  have c: "call_id c \<notin> set out" and run: "event_run (call_id c # out) (map (\<lambda>c. Opens (call_id c)) cs) = Some out'"
    using Cons.prems(1) by (auto split: if_splits)
  have "\<forall>d. d \<notin> set (call_id c # out) \<longrightarrow> xs_open (open_occurrence i s c) d = []"
    using Cons.prems(2) by (simp add: open_occurrence_def)
  from Cons.IH [OF run this] c Cons.prems(2) show ?case
    by (auto simp: Let_def open_occurrence_def)
qed simp

lemma exchange_step_inv:
  assumes inv: "exchange_inv ms s out" and run: "event_run out (message_events m) = Some out'" and one: "one_sided m"
    and ones: "\<forall>m \<in> set ms. one_sided m"
  shows "exchange_inv (ms @ [m]) (exchange_step s (length ms, m)) out'"
proof (cases "msg_tool_call_id m = []")
  case True
  have ids: "calls_id m c \<longleftrightarrow> c \<in> call_id ` set (msg_tool_calls m)" for c by (simp add: calls_id_def)
  have st: "exchange_step s (length ms, m) = foldl (open_occurrence (length ms)) s (msg_tool_calls m)"
    using True by (simp add: exchange_step_def Let_def)
  have closed: "\<forall>c. c \<notin> set out \<longrightarrow> xs_open s c = []" using inv by (simp add: exchange_inv_def)
  have r: "event_run out (map (\<lambda>c. Opens (call_id c)) (msg_tool_calls m)) = Some out'"
    using run True by (simp add: message_events_def)
  note * = open_occurrences [OF r closed, of "length ms", unfolded Let_def st [symmetric]]
  have blank: "open_at (ms @ [m]) c p \<longleftrightarrow> open_at ms c p \<or> p = length ms \<and> calls_id m c" for c p
  proof (cases "c = []")
    case True
    have "\<not> open_at ms [] p" using ones by (auto simp: open_at_def one_sided_def)
    with True one show ?thesis by (simp add: open_at_append one_sided_def)
  qed (simp add: open_at_append True)
  have named: "c \<noteq> []" if "calls_id m c" for c using one that by (auto simp: one_sided_def)
  have ex: "exchange (ms @ [m]) p r \<longleftrightarrow> exchange ms p r" for p r using True by (simp add: exchange_append)
  show ?thesis
    unfolding exchange_inv_def
  proof (intro conjI allI)
    fix c
    show "if c \<in> set out' then \<exists>p. xs_open (exchange_step s (length ms, m)) c = [p] \<and> (\<forall>q. open_at (ms @ [m]) c q \<longleftrightarrow> q = p)
          else xs_open (exchange_step s (length ms, m)) c = [] \<and> (\<forall>q. \<not> open_at (ms @ [m]) c q)"
    proof (cases "calls_id m c")
      case True
      then have "c \<notin> set out" using * ids by auto
      with inv have "\<forall>q. \<not> open_at ms c q" by (simp add: exchange_inv_def)
      with True * ids blank show ?thesis by auto
    next
      case False
      then have "c \<in> set out' \<longleftrightarrow> c \<in> set out" "xs_open (exchange_step s (length ms, m)) c = xs_open s c"
        using * ids by auto
      moreover have "open_at (ms @ [m]) c q \<longleftrightarrow> open_at ms c q" for q using False blank by simp
      ultimately show ?thesis using inv unfolding exchange_inv_def by presburger
    qed
  qed (use * ex inv in \<open>simp_all add: exchange_inv_def\<close>)
next
  case False
  define c where "c = msg_tool_call_id m"
  have no: "msg_tool_calls m = []" using one False by (simp add: one_sided_def)
  then have in_out: "c \<in> set out" and out': "out' = removeAll c out"
    using run False by (auto simp: message_events_def c_def split: if_splits)
  obtain p where p: "xs_open s c = [p]" "\<And>q. open_at ms c q \<longleftrightarrow> q = p"
    using inv in_out unfolding exchange_inv_def by (metis (no_types, lifting))
  have st: "exchange_step s (length ms, m) = s\<lparr>xs_open := (xs_open s)(c := []),
      xs_results := (xs_results s)(p := xs_results s p @ [length ms]), xs_owner := (xs_owner s)(length ms := Some p)\<rparr>"
    using no False p(1) by (simp add: exchange_step_def Let_def c_def)
  have ex: "exchange (ms @ [m]) q r \<longleftrightarrow> exchange ms q r \<or> r = length ms \<and> q = p" for q r
    using False p(2) by (simp add: exchange_append c_def)
  have later: "\<not> exchange ms q (length ms)" for q by (simp add: exchange_def)
  have op: "open_at (ms @ [m]) d q \<longleftrightarrow> open_at ms d q \<and> d \<noteq> c" for d q
    using no by (auto simp: open_at_append calls_id_def c_def)
  show ?thesis
    unfolding exchange_inv_def
  proof (intro conjI allI)
    fix d
    show "if d \<in> set out' then \<exists>p. xs_open (exchange_step s (length ms, m)) d = [p] \<and> (\<forall>q. open_at (ms @ [m]) d q \<longleftrightarrow> q = p)
          else xs_open (exchange_step s (length ms, m)) d = [] \<and> (\<forall>q. \<not> open_at (ms @ [m]) d q)"
    proof (cases "d = c")
      case True
      then show ?thesis using op by (simp add: st out')
    next
      case False
      then have "d \<in> set out' \<longleftrightarrow> d \<in> set out" "xs_open (exchange_step s (length ms, m)) d = xs_open s d"
        by (simp_all add: st out')
      with op False inv show ?thesis unfolding exchange_inv_def by presburger
    qed
  next
    fix r q
    show "xs_owner (exchange_step s (length ms, m)) r = Some q \<longleftrightarrow> exchange (ms @ [m]) q r"
      using inv ex later by (auto simp: st exchange_inv_def)
    show "r \<in> set (xs_results (exchange_step s (length ms, m)) q) \<longleftrightarrow> exchange (ms @ [m]) q r"
      using inv ex later by (auto simp: st exchange_inv_def)
  qed
qed

lemma exchanges_inv:
  "outstanding [] ms = Some out \<Longrightarrow> \<forall>m \<in> set ms. one_sided m \<Longrightarrow> exchange_inv ms (exchanges ms) out"
proof (induction ms arbitrary: out rule: rev_induct)
  case Nil
  then show ?case
    by (simp add: outstanding_def exchanges_def exchange_start_def exchange_inv_def exchange_def open_at_def)
next
  case (snoc m ms)
  obtain o1 where o1: "outstanding [] ms = Some o1" "event_run o1 (message_events m) = Some out"
    using snoc.prems(1) by (auto simp: outstanding_def event_run_append split: bind_splits)
  have "exchanges (ms @ [m]) = exchange_step (exchanges ms) (length ms, m)"
    by (simp add: exchanges_def enumerate_append_eq)
  with exchange_step_inv [OF snoc.IH [OF o1(1)] o1(2)] snoc.prems(2) show ?case by simp
qed

section \<open>Resolved checkpoints\<close>

definition item_message :: "message list \<Rightarrow> checkpoint_item \<Rightarrow> message" where
  "item_message frozen it = (case it_retain it of Some p \<Rightarrow> frozen ! nat p | None \<Rightarrow> the (it_context it))"

definition retained_positions :: "checkpoint_item list \<Rightarrow> nat list" where
  "retained_positions its = map nat (List.map_filter it_retain its)"

lemma validate_contribution_ok:
  "validate_contribution_message m = Inr m' \<longleftrightarrow>
     m' = m \<and> msg_tool_calls m = [] \<and> msg_tool_call_id m = [] \<and> validate_message m = Inr ()"
  by (auto simp: validate_contribution_message_def map_error_def new_message_def res_simps split: sum.splits)

lemma map_error_ok [simp]: "map_error f x = Inr a \<longleftrightarrow> x = Inr a"
  by (cases x) (simp_all add: map_error_def)

lemma resolve_items_ok:
  "resolve_items frozen covered i prev its = Inr (ms, ps) \<Longrightarrow> -1 \<le> prev \<Longrightarrow>
     ms = map (item_message frozen) its \<and> ps = retained_positions its \<and>
     (\<forall>p \<in> set ps. prev < int p \<and> int p < covered \<and> p < length frozen) \<and> sorted_wrt (<) ps \<and>
     (\<forall>it \<in> set its. case it_retain it of
        None \<Rightarrow> \<exists>m. it_context it = Some m \<and> msg_tool_calls m = [] \<and> msg_tool_call_id m = [] \<and> validate_message m = Inr ()
      | Some _ \<Rightarrow> it_context it = None)"
proof (induction frozen covered i prev its arbitrary: ms ps rule: resolve_items.induct)
  case (1 frozen covered i previous)
  then show ?case by (simp add: retained_positions_def List.map_filter_simps)
next
  case (2 frozen covered i previous it its)
  show ?case
  proof (cases "it_retain it")
    case None
    then obtain m ms1 where m: "it_context it = Some m" "msg_tool_calls m = []" "msg_tool_call_id m = []"
      "validate_message m = Inr ()" and rec: "resolve_items frozen covered (Suc i) previous its = Inr (ms1, ps)" "ms = m # ms1"
      using "2.prems"(1) by (auto simp: res_simps validate_contribution_ok split: option.splits)
    have pair: "(None, Some m) = (it_retain it, it_context it)" using None m(1) by simp
    have "map_error (ItemMessage i) (validate_contribution_message m) = Inr m"
      using m by (simp add: validate_contribution_ok)
    from "2.IH"(1) [OF pair refl refl this rec(1) "2.prems"(2)] None m rec(2) show ?thesis
      by (auto simp: retained_positions_def List.map_filter_simps item_message_def)
  next
    case (Some p)
    have ctx: "it_context it = None" using "2.prems" Some by (auto split: option.splits)
    have pair: "(Some p, None) = (it_retain it, it_context it)" using Some ctx by simp
    have ok: "previous < p" "0 \<le> p" "p < covered" "nat p < length frozen"
      using "2.prems" Some ctx by (auto split: if_splits)
    then obtain ms1 ps1 where rec: "resolve_items frozen covered (Suc i) p its = Inr (ms1, ps1)"
      "ms = frozen ! nat p # ms1" "ps = nat p # ps1"
      using "2.prems"(1) Some ctx by (auto simp: res_simps split: if_splits)
    have "- 1 \<le> p" using ok(2) by simp
    moreover have "\<not> p \<le> previous" "\<not> (p < 0 \<or> covered \<le> p)" "\<not> length frozen \<le> nat p" using ok by auto
    ultimately have ih: "ms1 = map (item_message frozen) its" "ps1 = retained_positions its"
      "\<forall>q \<in> set ps1. p < int q \<and> int q < covered \<and> q < length frozen" "sorted_wrt (<) ps1"
      "\<forall>it \<in> set its. case it_retain it of
        None \<Rightarrow> \<exists>m. it_context it = Some m \<and> msg_tool_calls m = [] \<and> msg_tool_call_id m = [] \<and> validate_message m = Inr ()
      | Some _ \<Rightarrow> it_context it = None"
      using "2.IH"(2) [OF pair refl refl _ _ _ rec(1)] by blast+
    have "\<forall>q \<in> set ps1. nat p < q" using ih(3) ok(2) by auto
    moreover have "previous < int (nat p)" "int (nat p) < covered" using ok by simp_all
    moreover have "\<forall>q \<in> set ps1. previous < int q" using ih(3) ok(1) by auto
    ultimately show ?thesis
      using ih Some ctx ok(4) rec(2,3)
      by (simp add: retained_positions_def List.map_filter_simps item_message_def)
  qed
qed

text \<open>C23: A resolved checkpoint keeps or drops a tool exchange as a whole. On a conversation that pairs so far, the
  resolved messages are the proposed items in order; the retained positions strictly increase below the covered
  end; everything else is authored without tool calls; of every call with its result either both are
  retained or neither; and the resolved messages pair completely.\<close>

theorem resolved_checkpoint_keeps_exchanges:
  assumes "resolve_checkpoint_items frozen items covered = Inr ms"
    and "pairs_so_far (conversation_events frozen)" "\<forall>m \<in> set frozen. one_sided m"
  shows "ms = map (item_message frozen) items
    \<and> sorted_wrt (<) (retained_positions items)
    \<and> (\<forall>p \<in> set (retained_positions items). p < length frozen \<and> int p < covered)
    \<and> (\<forall>p r. exchange frozen p r \<longrightarrow> (p \<in> set (retained_positions items) \<longleftrightarrow> r \<in> set (retained_positions items)))
    \<and> well_paired ms"
proof -
  obtain ps where items: "resolve_items frozen covered 0 (-1) items = Inr (ms, ps)"
    and ret: "\<And>p. p \<in> set ps \<Longrightarrow> check_retained frozen (exchanges frozen) ps p = Inr ()"
    and pair: "validate_tool_pairing ms = Inr ()"
    using assms(1) by (auto simp: resolve_checkpoint_items_def res_simps split: if_splits)
  note parts = resolve_items_ok [OF items, simplified]
  obtain out where "outstanding [] frozen = Some out" using assms(2) pairs_so_far_run by auto
  note inv = exchanges_inv [OF this assms(3)]
  have iff: "p \<in> set ps \<longleftrightarrow> r \<in> set ps" if ex: "exchange frozen p r" for p r
  proof
    assume p: "p \<in> set ps"
    have "r \<in> set (xs_results (exchanges frozen) p)" using inv ex by (simp add: exchange_inv_def)
    moreover have "msg_tool_calls (frozen ! p) \<noteq> []" using ex by (auto simp: exchange_def open_at_def calls_id_def)
    ultimately show "r \<in> set ps" using ret [OF p] by (auto simp: check_retained_def res_simps)
  next
    assume r: "r \<in> set ps"
    have "xs_owner (exchanges frozen) r = Some p" using inv ex by (simp add: exchange_inv_def)
    moreover have "msg_tool_call_id (frozen ! r) \<noteq> []" using ex by (simp add: exchange_def)
    ultimately show "p \<in> set ps" using ret [OF r] by (auto simp: check_retained_def res_simps split: if_splits)
  qed
  show ?thesis using parts iff pair validate_tool_pairing_iff by auto
qed

definition sample_exchange :: "message list" where
  "sample_exchange =
     [(blank_message RoleAssistant)\<lparr>msg_tool_calls := [\<lparr>call_id = ''c'', call_name = ''t'', call_arguments = [], call_extra = []\<rparr>],
        msg_source := \<lparr>provider = ''p'', model_name = ''m''\<rparr>\<rparr>,
      (blank_message RoleTool)\<lparr>msg_tool_call_id := ''c'', msg_content := [text_part ''out'']\<rparr>]"

definition sample_retained :: "checkpoint_item list" where
  "sample_retained = [\<lparr>it_retain = Some 0, it_context = None\<rparr>, \<lparr>it_retain = Some 1, it_context = None\<rparr>]"

theorem resolved_checkpoint_keeps_exchanges_witness:
  "resolve_checkpoint_items sample_exchange sample_retained 2 = Inr sample_exchange \<and> well_paired sample_exchange"
proof -
  have ok: "resolve_checkpoint_items sample_exchange sample_retained 2 = Inr sample_exchange" by code_simp
  have "well_paired sample_exchange" by (simp add: validate_tool_pairing_iff [symmetric]) code_simp
  then have "pairs_so_far (conversation_events sample_exchange)" by (simp add: well_paired_def Let_def)
  moreover have "\<forall>m \<in> set sample_exchange. one_sided m"
    by (simp add: sample_exchange_def one_sided_def blank_message_def calls_id_def)
  ultimately show ?thesis using resolved_checkpoint_keeps_exchanges [OF ok] ok by blast
qed

end
