(* ===== verification/Conversation_Safe.thy ===== *)
theory Conversation_Safe
  imports Pairing_Safe Session_Graph_Safe
begin

text \<open>
  What the projection of an accepted graph guarantees: every result in it follows its call, every call in it has its
  result, a committed checkpoint is projected as what was validated, and the view of a request stays within what was
  captured. At the end, the text of a signal cannot leave its element.
\<close>

section \<open>The messages of the entries\<close>

definition entry_events :: "graph_entry \<Rightarrow> exchange_event list" where
  "entry_events e = map (\<lambda>c. Opens (tc_id c)) (entry_calls e) @
     (case the_tool_result (ge_payload e) of None \<Rightarrow> [] | Some t \<Rightarrow> [Closes (tr_call t)])"

lemma blank_simps [simp]:
  "msg_role (blank_message r) = r" "msg_content (blank_message r) = []" "msg_refusal (blank_message r) = []"
  "msg_tool_calls (blank_message r) = []" "msg_tool_call_id (blank_message r) = []" "msg_name (blank_message r) = []"
  "msg_extra (blank_message r) = []" "msg_source (blank_message r) = no_ref"
  by (simp_all add: blank_message_def)

lemma checked_message_ok: "checked_message m = Inr m' \<longleftrightarrow> m' = m \<and> validate_message m = Inr ()"
  by (auto simp: checked_message_def new_message_def res_simps)

lemma project_calls_ids: "project_calls i cs = Inr ks \<Longrightarrow> map call_id ks = map tc_id cs"
  by (induction i cs arbitrary: ks rule: project_calls.induct) (auto simp: res_simps split: option.splits)

lemma valid_one_sided: "validate_message m = Inr () \<Longrightarrow> one_sided m"
proof -
  assume v: "validate_message m = Inr ()"
  then have "msg_tool_calls m = [] \<or> msg_tool_call_id m = []"
    by (auto simp: validate_message_def res_simps split: if_splits)
  moreover have "\<forall>c \<in> set (msg_tool_calls m). call_id c \<noteq> []"
  proof
    fix c assume "c \<in> set (msg_tool_calls m)"
    then obtain i where "(i, c) \<in> set (enumerate 0 (msg_tool_calls m))"
      by (metis in_set_conv_nth in_set_enumerate_eq le0 length_enumerate nth_enumerate_eq fst_conv snd_conv add_0)
    with v show "call_id c \<noteq> []"
      by (force simp: validate_message_def res_simps indexed_error_def)
  qed
  ultimately show "one_sided m" by (auto simp: one_sided_def calls_id_def)
qed

lemma project_entry_some:
  assumes "project_entry e = Inr (Some m)"
  shows "message_events m = entry_events e" "validate_message m = Inr ()" "message_bearing e"
proof -
  have tool: "msg_tool_call_id m \<noteq> []" if "msg_role m = RoleTool" "validate_message m = Inr ()" for m
    using that by (auto simp: validate_message_def res_simps split: if_splits)
  have "message_events m = entry_events e \<and> validate_message m = Inr () \<and> message_bearing e"
  proof (cases "ge_payload e")
    case (PAssistant a)
    then obtain ks where "project_calls (ge_id e) (as_tool_calls a) = Inr ks" "msg_tool_calls m = ks"
      "msg_tool_call_id m = []" "validate_message m = Inr ()"
      using assms by (auto simp: project_entry_def res_simps checked_message_ok)
    moreover from project_calls_ids [OF this(1)]
    have "map (\<lambda>c. Opens (call_id c)) ks = map (\<lambda>c. Opens (tc_id c)) (as_tool_calls a)"
      by (metis (no_types, lifting) list.map_comp map_eq_conv o_apply list.map(2) map_map)
    ultimately show ?thesis
      using PAssistant by (simp add: message_events_def entry_events_def entry_calls_def message_bearing_def)
  next
    case (PToolResult t)
    then have m: "m = (blank_message RoleTool)\<lparr>msg_tool_call_id := tr_call t, msg_content := [text_part (tr_content t)]\<rparr>"
      and v: "validate_message m = Inr ()"
      using assms by (auto simp: project_entry_def res_simps checked_message_ok)
    have "tr_call t \<noteq> []" using tool [OF _ v] m by simp
    with PToolResult m v show ?thesis
      by (simp add: message_events_def entry_events_def entry_calls_def message_bearing_def)
  qed (use assms in \<open>auto simp: project_entry_def res_simps checked_message_ok message_events_def entry_events_def
      entry_calls_def message_bearing_def\<close>)
  then show "message_events m = entry_events e" "validate_message m = Inr ()" "message_bearing e" by auto
qed

lemma project_entry_none:
  "project_entry e = Inr None \<Longrightarrow> entry_events e = [] \<and> \<not> message_bearing e"
  by (auto simp: project_entry_def res_simps entry_events_def entry_calls_def message_bearing_def split: payload.splits)

lemma project_tail_ok:
  "project_tail q es = Inr ms \<Longrightarrow>
     conversation_events ms = concat (map entry_events (filter (\<lambda>e. q < ge_seq e) es)) \<and>
     (\<forall>m \<in> set ms. validate_message m = Inr ()) \<and>
     length ms = length (filter (\<lambda>e. q < ge_seq e \<and> message_bearing e) es)"
proof (induction q es arbitrary: ms rule: project_tail.induct)
  case (2 q e es)
  show ?case
  proof (cases "ge_seq e \<le> q")
    case False
    then obtain mo ms1 where e: "project_entry e = Inr mo" "project_tail q es = Inr ms1"
      "ms = (case mo of None \<Rightarrow> ms1 | Some m \<Rightarrow> m # ms1)"
      using "2.prems" by (auto simp: res_simps)
    note ih = "2.IH"(2) [OF False e(1,2)]
    show ?thesis
    proof (cases mo)
      case None
      then show ?thesis using ih e False project_entry_none by simp
    next
      case (Some m)
      with e(1) have "project_entry e = Inr (Some m)" by simp
      from project_entry_some [OF this] Some ih e False show ?thesis by simp
    qed
  qed (use 2 in simp)
qed simp

lemma project_tail_take: "project_tail q es = Inr ms \<Longrightarrow> \<exists>j. project_tail q (take j es) = Inr (take k ms)"
proof (induction q es arbitrary: ms k rule: project_tail.induct)
  case (2 q e es)
  show ?case
  proof (cases "ge_seq e \<le> q")
    case True
    then obtain j where "project_tail q (take j es) = Inr (take k ms)" using 2 by auto
    with True show ?thesis by (intro exI [of _ "Suc j"]) simp
  next
    case False
    then obtain mo ms1 where e: "project_entry e = Inr mo" "project_tail q es = Inr ms1"
      "ms = (case mo of None \<Rightarrow> ms1 | Some m \<Rightarrow> m # ms1)"
      using "2.prems" by (auto simp: res_simps)
    show ?thesis
    proof (cases "mo = None \<or> k \<noteq> 0")
      case True
      obtain j where "project_tail q (take j es) = Inr (take (if mo = None then k else k - 1) ms1)"
        using "2.IH"(2) [OF False e(1,2)] by blast
      with True e False show ?thesis
        by (intro exI [of _ "Suc j"]) (auto simp: take_Cons' split: option.splits)
    next
      case False
      then show ?thesis by (intro exI [of _ 0]) simp
    qed
  qed
qed auto

text \<open>The loop of the projection is the tail behind what stands in front.\<close>

lemma project_fold:
  "fold_result (project_step named q) (ms, b) es =
     rbind (project_tail q es) (\<lambda>tail. Inr (ms @ tail,
       case last_match (\<lambda>e. q < ge_seq e \<and> ge_id e \<noteq> named \<and> message_bearing e) es of None \<Rightarrow> b | Some e \<Rightarrow> ge_id e))"
proof (induction es arbitrary: ms b)
  case (Cons e es)
  show ?case
  proof (cases "ge_seq e \<le> q")
    case True
    then have "project_step named q (ms, b) e = Inr (ms, b)" by (simp add: project_step_def)
    with True show ?thesis by (simp add: Cons.IH split: option.splits)
  next
    case False
    then have "project_step named q (ms, b) e = rbind (project_entry e) (\<lambda>mo.
        Inr (case mo of None \<Rightarrow> ms | Some m \<Rightarrow> ms @ [m],
             if ge_id e \<noteq> named \<and> message_bearing e then ge_id e else b))"
      by (cases "project_entry e") (auto simp: project_step_def split: option.splits)
    with False show ?thesis
      by (cases "project_entry e"; cases "project_tail q es") (auto simp: Cons.IH split: option.splits)
  qed
qed simp

section \<open>Results and their calls\<close>

definition ascending :: "session_graph \<Rightarrow> bool" where
  "ascending g \<longleftrightarrow> sorted_wrt (<) (map ge_seq (g_entries g))"

text \<open>No result is committed before the entry that published its call.\<close>

definition results_follow :: "session_graph \<Rightarrow> bool" where
  "results_follow g \<longleftrightarrow>
     (\<forall>r \<in> set (g_entries g). \<forall>a \<in> set (g_entries g). case the_tool_result (ge_payload r) of
        None \<Rightarrow> True | Some t \<Rightarrow> ge_id a = er_entry (tr_assistant t) \<longrightarrow> ge_seq a < ge_seq r)"

text \<open>Nothing runs that has calls without a result.\<close>

definition nothing_pending :: "session_graph \<Rightarrow> bool" where
  "nothing_pending g \<longleftrightarrow> (\<forall>x \<in> set (g_operations g). is_running x \<longrightarrow> os_pending (or_state x) = [])"

lemma entry_published_in:
  "p \<in> set (entry_published a) \<longleftrightarrow> (\<exists>c \<in> set (entry_calls a). p = \<lparr>pb_call = tc_id c, pb_assistant = ge_id a, pb_result = tc_result_entry c\<rparr>)"
  by (auto simp: entry_published_def)

lemma result_has_call:
  assumes "validate_graph sid g = Inr ()" "r \<in> set (g_entries g)" "ge_payload r = PToolResult t"
  shows "\<exists>a \<in> set (g_entries g). ge_id a = er_entry (tr_assistant t) \<and>
    (\<exists>c \<in> set (entry_calls a). tc_id c = tr_call t \<and> tc_result_entry c = ge_id r)"
proof -
  obtain rs where d: "distinct (map ge_id (g_entries g))" "distinct (map op_id (g_operations g))"
    and own: "validate_entry_ownership g = Inr ()" and refs: "validate_entry_references sid g = Inr ()"
    and ops: "\<forall>x \<in> set (g_operations g). validate_operation sid g rs x = Inr ()"
    using validate_graph_parts [OF assms(1)] by metis
  show ?thesis
  proof (cases "ge_op r = []")
    case True
    then have "validate_copied_result sid g r t = Inr ()"
      using refs assms(2,3) by (auto simp: validate_entry_references_def Let_def res_simps validate_reference_def)
    then obtain a c where a: "entry_by_id g (er_entry (tr_assistant t)) = Some a"
      and "the_assistant (ge_payload a) \<noteq> None"
      and c: "find (\<lambda>c. tc_id c = tr_call t) (entry_calls a) = Some c" "ge_id r = tc_result_entry c"
      by (auto simp: validate_copied_result_def Let_def res_simps entry_calls_def split: option.splits if_splits)
    have "tc_id c = tr_call t" "c \<in> set (entry_calls a)"
      using c(1) by (auto simp: find_Some_iff)
    with a c entry_by_id_Some [OF d(1)] show ?thesis by (metis (no_types, lifting))
  next
    case False
    then obtain x where x: "x \<in> set (g_operations g)" "op_id x = ge_op r"
      using own assms(2) find_operation_Some [OF d(2)]
      by (fastforce simp: validate_entry_ownership_def res_simps validate_owner_def split: if_splits option.splits)
    obtain ps where ps: "collect_published g (op_id x) = Inr ps" "collect_tool_results sid g (op_id x) ps = Inr ()"
      using validate_operation_parts [of sid g rs x] ops x(1) by metis
    have in_op: "r \<in> set (entries_of g (op_id x))" using x assms(2) False by (simp add: entries_of_in)
    then have "check_tool_result sid ps r = Inr ()" using ps(2) by (simp add: collect_tool_results_def res_simps)
    then obtain p where p: "published_by_call ps (tr_call t) = Some p" "er_entry (tr_assistant t) = pb_assistant p"
      "ge_id r = pb_result p"
      using assms(3) by (auto simp: check_tool_result_def res_simps split: option.splits)
    then have "p \<in> set ps" "pb_call p = tr_call t"
      using published_by_call_ok conjunct2 [OF collect_published_ok [OF ps(1)]] by auto
    then obtain a where a: "a \<in> set (entries_of g (op_id x))" "p \<in> set (entry_published a)"
      using collect_published_ok [OF ps(1)] by auto
    then have "a \<in> set (g_entries g)" by (simp add: entries_of_in)
    moreover obtain c where "c \<in> set (entry_calls a)" "tc_id c = tr_call t" "tc_result_entry c = ge_id r" "ge_id a = pb_assistant p"
      using a(2) p(3) \<open>pb_call p = tr_call t\<close> by (auto simp: entry_published_in)
    ultimately show ?thesis using p(2) by metis
  qed
qed

lemma call_has_result:
  assumes "validate_graph sid g = Inr ()" "nothing_pending g" "a \<in> set (g_entries g)" "c \<in> set (entry_calls a)"
  shows "\<exists>r \<in> set (g_entries g). ge_id r = tc_result_entry c \<and>
    (\<exists>t. ge_payload r = PToolResult t \<and> tr_call t = tc_id c \<and> er_entry (tr_assistant t) = ge_id a)"
proof -
  obtain rs where d: "distinct (map ge_id (g_entries g))" "distinct (map op_id (g_operations g))"
    and own: "validate_entry_ownership g = Inr ()" and rs: "collect_reservations g = Inr rs" "validate_reservations g rs = Inr ()"
    and ops: "\<forall>x \<in> set (g_operations g). validate_operation sid g rs x = Inr ()"
    using validate_graph_parts [OF assms(1)] by metis
  define v where "v = \<lparr>rs_result = tc_result_entry c, rs_call = tc_id c, rs_assistant = ge_id a, rs_operation = ge_op a\<rparr>"
  have "v \<in> set (entry_reservations a)" using assms(4) by (simp add: entry_reservations_def v_def)
  moreover have "rs = concat (map entry_reservations (g_entries g))"
    using rs(1) unfolding collect_reservations_def by (auto dest: collect_reservations_from_ok)
  ultimately have ok: "validate_reservation g v = Inr ()" using rs(2) assms(3) by (auto simp: validate_reservations_def res_simps)
  have "entry_by_id g (tc_result_entry c) \<noteq> None"
  proof (cases "ge_op a = []")
    case True
    then show ?thesis using ok by (auto simp: validate_reservation_def v_def res_simps split: option.splits)
  next
    case False
    then obtain x where x: "x \<in> set (g_operations g)" "op_id x = ge_op a"
      using own assms(3) find_operation_Some [OF d(2)]
      by (fastforce simp: validate_entry_ownership_def res_simps validate_owner_def split: if_splits option.splits)
    then have call: "c \<in> set (op_calls g x)" using assms(3,4) False by (auto simp: op_calls_def entries_of_in)
    note once = calls_settle [OF assms(1) x(1)]
    have "results_for g x c \<noteq> {}"
    proof (cases "is_running x")
      case True
      with assms(2) x(1) have "os_pending (or_state x) = []" by (simp add: nothing_pending_def)
      with once True have "filter (\<lambda>c. results_for g x c = {}) (op_calls g x) = []" by simp
      with call show ?thesis by (simp add: filter_empty_conv)
    next
      case False
      with once call show ?thesis by blast
    qed
    then obtain e where "e \<in> results_for g x c" by blast
    moreover from this once call have "ge_id e = tc_result_entry c" by blast
    ultimately show ?thesis using entry_by_id_Some [OF d(1)] by (force simp: results_for_def entries_of_in)
  qed
  then obtain r where r: "entry_by_id g (tc_result_entry c) = Some r" by blast
  with ok obtain t where "ge_payload r = PToolResult t" "tr_call t = tc_id c" "er_entry (tr_assistant t) = ge_id a"
    by (auto simp: validate_reservation_def v_def res_simps split: option.splits)
  with r entry_by_id_Some [OF d(1)] show ?thesis by blast
qed

section \<open>Counting\<close>

lemma opened_events: "opened c (concat (map entry_events es)) = length (filter (\<lambda>k. tc_id k = c) (concat (map entry_calls es)))"
proof (induction es)
  case (Cons e es)
  have "count_list (map (\<lambda>c. Opens (tc_id c)) ks) (Opens c) = length (filter (\<lambda>k. tc_id k = c) ks)" for ks
    by (induction ks) auto
  with Cons show ?case by (auto simp: opened_def entry_events_def split: option.splits)
qed simp

lemma closed_events: "closed_count c (concat (map entry_events es)) = length (filter (answers c) es)"
proof (induction es)
  case (Cons e es)
  have "count_list (map (\<lambda>c. Opens (tc_id c)) ks) (Closes c) = 0" for ks by (induction ks) auto
  with Cons show ?case by (auto simp: closed_count_def entry_events_def answers_def split: option.splits)
qed simp

lemma length_le_of_subset: "distinct xs \<Longrightarrow> set xs \<subseteq> set ys \<Longrightarrow> length xs \<le> length ys"
  by (metis card_length card_mono distinct_card finite_set le_trans)

lemma distinct_calls_results:
  assumes "validate_graph sid g = Inr ()"
  shows "distinct (map tc_result_entry (filter P (concat (map entry_calls (filter Q (g_entries g))))))"
proof -
  have "distinct (map tc_result_entry (concat (map entry_calls es))) \<Longrightarrow>
      distinct (map tc_result_entry (concat (map entry_calls (filter Q es))))" for es
  proof (induction es)
    case (Cons e es)
    then show ?case by (auto simp: image_iff)
  qed simp
  with results_unique [OF assms] have "distinct (map tc_result_entry (concat (map entry_calls (filter Q (g_entries g)))))"
    by (simp add: all_calls_def)
  then show ?thesis by (simp add: distinct_map_filter)
qed

section \<open>The projection is complete\<close>

text \<open>What a checkpoint of the Session cuts: a call at or before its boundary has its result there.\<close>

lemma cut_results:
  assumes "validate_graph sid g = Inr ()" "wf_calls (g_entries g)" "ascending g"
    and "find_compaction_cutoff (g_entries g) (ss_checkpoint (sr_state (g_session g))) = (co, q)"
    and "a \<in> set (g_entries g)" "ge_seq a \<le> q" "c \<in> set (entry_calls a)"
  shows "\<exists>r \<in> set (g_entries g). ge_id r = tc_result_entry c \<and> ge_seq r \<le> q"
proof -
  have from_sum: "fst (find_cutoff_from es n rest) = None \<and> snd (find_cutoff_from es n rest) = -1 \<or>
      (\<exists>e \<in> set rest. \<exists>k b. ge_payload e = PCompaction k \<and> find (\<lambda>b. ge_id b = ck_boundary k) es = Some b \<and>
         find_cutoff_from es n rest = (Some k, ge_seq b))" for es n rest
    by (induction es n rest rule: find_cutoff_from.induct) (auto split: option.splits if_splits)
  have "q \<noteq> -1" using assms(2,5,6) by (auto simp: wf_calls_def)
  then obtain e k b where e: "e \<in> set (g_entries g)" "ge_payload e = PCompaction k"
    and b: "find (\<lambda>b. ge_id b = ck_boundary k) (g_entries g) = Some b" "q = ge_seq b"
    using assms(4) from_sum [of "g_entries g" "ss_checkpoint (sr_state (g_session g))" "g_entries g"]
    by (auto simp: find_compaction_cutoff_def split: if_splits)
  obtain i where i: "i < length (g_entries g)" "ge_id (g_entries g ! i) = ck_boundary k"
    "\<And>c. c \<in> set (calls_upto (g_entries g) i) \<Longrightarrow>
       \<exists>r \<in> set (g_entries g). ge_id r = tc_result_entry c \<and> ge_seq r \<le> ge_seq (g_entries g ! i)"
    using cut_is_safe [OF assms(1,2) e] by auto
  have "distinct (map ge_id (g_entries g))" using validate_graph_parts [OF assms(1)] by metis
  moreover have "b \<in> set (g_entries g)" "ge_id b = ck_boundary k"
    using b(1) by (auto simp: find_Some_iff in_set_conv_nth)
  ultimately have bi: "g_entries g ! i = b" using i(1,2) distinct_by_id by (metis nth_mem)
  obtain j where j: "j < length (g_entries g)" "g_entries g ! j = a" using assms(5) by (auto simp: in_set_conv_nth)
  have "j \<le> i"
  proof (rule ccontr)
    assume "\<not> j \<le> i"
    with assms(3) i(1) j have "ge_seq (g_entries g ! i) < ge_seq (g_entries g ! j)"
      by (auto simp: ascending_def sorted_wrt_map sorted_wrt_iff_nth_less)
    with assms(6) bi j b(2) show False by simp
  qed
  then have "a \<in> set (take (Suc i) (g_entries g))"
    using j by (auto simp: in_set_conv_nth intro!: exI [of _ j])
  then have "c \<in> set (calls_upto (g_entries g) i)" using assms(7) by (auto simp: calls_upto_def)
  with i(3) bi b(2) show ?thesis by metis
qed

definition behind :: "int \<Rightarrow> graph_entry list \<Rightarrow> graph_entry list" where
  "behind q es = filter (\<lambda>e. q < ge_seq e) es"

lemma tail_results_follow:
  assumes ok: "validate_graph sid g = Inr ()" "wf_calls (g_entries g)" "ascending g" "results_follow g"
    and q: "find_compaction_cutoff (g_entries g) (ss_checkpoint (sr_state (g_session g))) = (co, q)"
  shows "closed_count c (concat (map entry_events (behind q (take j (g_entries g)))))
       \<le> opened c (concat (map entry_events (behind q (take j (g_entries g)))))"
proof -
  define F where "F = behind q (take j (g_entries g))"
  have d: "distinct (map ge_id (g_entries g))" using validate_graph_parts [OF ok(1)] by metis
  then have "distinct (map ge_id (take j (g_entries g)))" by (metis distinct_take take_map)
  then have "distinct (map ge_id (filter (answers c) F))" by (simp add: F_def behind_def distinct_map_filter)
  moreover have "set (map ge_id (filter (answers c) F)) \<subseteq> set (map tc_result_entry (filter (\<lambda>k. tc_id k = c) (concat (map entry_calls F))))"
  proof
    fix i assume "i \<in> set (map ge_id (filter (answers c) F))"
    then obtain r t where r: "r \<in> set F" "ge_id r = i" "ge_payload r = PToolResult t" "tr_call t = c"
      by (auto simp: answers_def split: option.splits)
    then have rg: "r \<in> set (take j (g_entries g))" "r \<in> set (g_entries g)" "q < ge_seq r"
      by (auto simp: F_def behind_def dest: in_set_takeD)
    obtain a k where a: "a \<in> set (g_entries g)" "ge_id a = er_entry (tr_assistant t)" "k \<in> set (entry_calls a)"
      "tc_id k = c" "tc_result_entry k = i"
      using result_has_call [OF ok(1) rg(2) r(3)] r by auto
    have before: "ge_seq a < ge_seq r" using ok(4) rg(2) a(1,2) r(3) by (force simp: results_follow_def)
    have "q < ge_seq a"
    proof (rule ccontr)
      assume "\<not> q < ge_seq a"
      then obtain r' where "r' \<in> set (g_entries g)" "ge_id r' = i" "ge_seq r' \<le> q"
        using cut_results [OF ok(1-3) q a(1) _ a(3)] a(5) by auto
      with r(2) rg(2) d have "r' = r" by (metis distinct_by_id)
      with \<open>ge_seq r' \<le> q\<close> rg(3) show False by simp
    qed
    moreover have "a \<in> set (take j (g_entries g))"
    proof -
      obtain n where n: "n < length (g_entries g)" "n < j" "g_entries g ! n = r" using rg(1) by (auto simp: in_set_conv_nth)
      obtain l where l: "l < length (g_entries g)" "g_entries g ! l = a" using a(1) by (auto simp: in_set_conv_nth)
      have "l < n"
      proof (rule ccontr)
        assume "\<not> l < n"
        then have "l = n \<or> n < l" by auto
        with ok(3) n l have "ge_seq r \<le> ge_seq a"
          by (auto simp: ascending_def sorted_wrt_map sorted_wrt_iff_nth_less less_imp_le)
        with before show False by simp
      qed
      with n l show ?thesis by (auto simp: in_set_conv_nth intro!: exI [of _ l])
    qed
    ultimately have "a \<in> set F" by (simp add: F_def behind_def)
    with a(3-5) show "i \<in> set (map tc_result_entry (filter (\<lambda>k. tc_id k = c) (concat (map entry_calls F))))" by force
  qed
  ultimately have "length (map ge_id (filter (answers c) F)) \<le>
      length (map tc_result_entry (filter (\<lambda>k. tc_id k = c) (concat (map entry_calls F))))"
    by (rule length_le_of_subset)
  then show ?thesis by (simp only: opened_events closed_events length_map F_def)
qed

lemma tail_calls_answered:
  assumes ok: "validate_graph sid g = Inr ()" "results_follow g" "nothing_pending g"
  shows "opened c (concat (map entry_events (behind q (g_entries g)))) \<le> closed_count c (concat (map entry_events (behind q (g_entries g))))"
proof -
  define F where "F = behind q (g_entries g)"
  have "set (map tc_result_entry (filter (\<lambda>k. tc_id k = c) (concat (map entry_calls F)))) \<subseteq> set (map ge_id (filter (answers c) F))"
  proof
    fix i assume "i \<in> set (map tc_result_entry (filter (\<lambda>k. tc_id k = c) (concat (map entry_calls F))))"
    then obtain a k where a: "a \<in> set (g_entries g)" "q < ge_seq a" "k \<in> set (entry_calls a)" "tc_id k = c" "tc_result_entry k = i"
      by (auto simp: F_def behind_def)
    obtain r t where r: "r \<in> set (g_entries g)" "ge_id r = i" "ge_payload r = PToolResult t" "tr_call t = c"
      "er_entry (tr_assistant t) = ge_id a"
      using call_has_result [OF ok(1,3) a(1,3)] a(4,5) by auto
    have "ge_seq a < ge_seq r" using ok(2) r a(1) by (force simp: results_follow_def)
    with a(2) r show "i \<in> set (map ge_id (filter (answers c) F))" by (force simp: F_def behind_def answers_def)
  qed
  moreover have "distinct (map tc_result_entry (filter (\<lambda>k. tc_id k = c) (concat (map entry_calls F))))"
    using distinct_calls_results [OF ok(1)] by (simp add: F_def behind_def)
  ultimately have "length (map tc_result_entry (filter (\<lambda>k. tc_id k = c) (concat (map entry_calls F)))) \<le>
      length (map ge_id (filter (answers c) F))"
    by (intro length_le_of_subset)
  then show ?thesis by (simp only: opened_events closed_events length_map F_def)
qed

text \<open>What the decoder requires of a stored checkpoint: its messages are valid and pair.\<close>

definition checkpoints_decoded :: "session_graph \<Rightarrow> bool" where
  "checkpoints_decoded g \<longleftrightarrow> list_all (\<lambda>e. case the_compaction (ge_payload e) of
     None \<Rightarrow> True
   | Some c \<Rightarrow> validate_tool_pairing (ck_messages c) = Inr () \<and> list_all (\<lambda>m. validate_message m = Inr ()) (ck_messages c)) (g_entries g)"

lemma find_cutoff_in:
  "find_compaction_cutoff es named = (Some c, q) \<Longrightarrow> \<exists>e \<in> set es. ge_payload e = PCompaction c"
proof -
  have "find_cutoff_from es named rest = (Some c, q) \<Longrightarrow> \<exists>e \<in> set rest. ge_payload e = PCompaction c" for rest
    by (induction es named rest rule: find_cutoff_from.induct) (auto split: option.splits if_splits)
  then show "find_compaction_cutoff es named = (Some c, q) \<Longrightarrow> ?thesis"
    by (auto simp: find_compaction_cutoff_def split: if_splits)
qed

lemma project_canonical_ok:
  assumes "project_canonical g opid = Inr (ms, ck, b)"
  shows "\<exists>co q tail. find_compaction_cutoff (g_entries g) (ss_checkpoint (sr_state (g_session g))) = (co, q) \<and>
    project_tail q (g_entries g) = Inr tail \<and> ms = checkpoint_messages co @ tail \<and> ck = ss_checkpoint (sr_state (g_session g)) \<and>
    b = (case last_match (\<lambda>e. q < ge_seq e \<and> ge_id e \<noteq> ck \<and> message_bearing e) (g_entries g) of
           None \<Rightarrow> ck | Some e \<Rightarrow> if ge_id e = [] then ck else ge_id e)"
proof -
  obtain co q where cut: "find_compaction_cutoff (g_entries g) (ss_checkpoint (sr_state (g_session g))) = (co, q)"
    by (cases "find_compaction_cutoff (g_entries g) (ss_checkpoint (sr_state (g_session g)))")
  show ?thesis
    using assms cut
    by (auto simp: project_canonical_def project_context_refs_def res_simps Let_def project_fold checked_message_ok
        split: option.splits if_splits)
qed

lemma take_events: "\<exists>n. conversation_events (take k ms) = take n (conversation_events ms)"
proof -
  have "conversation_events ms = conversation_events (take k ms) @ conversation_events (drop k ms)"
    by (metis append_take_drop_id conversation_events_simps(3))
  then show ?thesis by (metis append_eq_conv_conj)
qed


section \<open>The request\<close>

lemma indexed_error_nth: "indexed_error f xs = Inr () \<longleftrightarrow> (\<forall>i < length xs. f i (xs ! i) = Inr ())"
proof
  assume ok: "indexed_error f xs = Inr ()"
  have "(i, xs ! i) \<in> set (enumerate 0 xs)" if "i < length xs" for i
    using that by (simp add: in_set_enumerate_eq)
  with ok show "\<forall>i < length xs. f i (xs ! i) = Inr ()" by (fastforce simp: indexed_error_def res_simps)
qed (auto simp: indexed_error_def res_simps in_set_enumerate_eq)

lemma validate_messages_ok:
  "indexed_error (\<lambda>i m. map_error (InMessages i) (validate_message m)) ms = Inr u \<longleftrightarrow> (\<forall>m \<in> set ms. validate_message m = Inr ())"
  by (auto simp: indexed_error_nth all_set_conv_all_nth)

lemma validate_tools_ok:
  "validate_tools_from i seen ds = Inr () \<longleftrightarrow>
     (\<forall>d \<in> set ds. validate_tool_definition d = Inr ()) \<and> distinct (map def_name ds) \<and> def_name ` set ds \<inter> seen = {}"
  by (induction i seen ds rule: validate_tools_from.induct) (auto simp: res_simps)

lemma evidence_names_filter: "evidence_names (filter P ts) ts"
proof (induction ts)
  case (Cons t ts)
  have "evidence_names ns ts \<Longrightarrow> t \<notin> set ns \<Longrightarrow> evidence_names ns (t # ts)" for ns
    by (cases ns) auto
  with Cons show ?case by (auto simp: filter_id_conv)
qed simp

text \<open>What the view keeps while the hooks of a request transform it.\<close>

definition view_ok :: "request_view \<Rightarrow> bool" where
  "view_ok v \<longleftrightarrow> (\<exists>P. rv_names v = filter P (map def_name (xc_tools (rv_capture v)))) \<and>
     (\<forall>m \<in> set (rv_additions v). msg_tool_calls m = [] \<and> msg_tool_call_id m = [] \<and> validate_message m = Inr ())"

lemma accept_messages_ok:
  "accept_messages i ms = Inr ms' \<Longrightarrow>
     ms' = ms \<and> (\<forall>m \<in> set ms. msg_tool_calls m = [] \<and> msg_tool_call_id m = [] \<and> validate_message m = Inr ())"
proof (induction i ms arbitrary: ms' rule: accept_messages.induct)
  case (2 i m ms)
  show ?case
  proof (cases "validate_contribution_message m")
    case (Inl e)
    with "2.prems" show ?thesis by (simp add: map_error_def)
  next
    case (Inr m1)
    then have m1: "map_error (MessageError i) (validate_contribution_message m) = Inr m1" by simp
    with "2.prems" obtain ms1 where ms1: "accept_messages (Suc i) ms = Inr ms1" "ms' = m1 # ms1"
      by (cases "accept_messages (Suc i) ms") simp_all
    have "m1 = m" "msg_tool_calls m = []" "msg_tool_call_id m = []" "validate_message m = Inr ()"
      using Inr unfolding validate_contribution_ok by blast+
    with "2.IH" [OF m1 ms1(1)] ms1(2) show ?thesis by simp
  qed
qed simp

lemma consequence_keeps_view:
  assumes "view_ok v" "validate_request_consequence (rv_capture v) con = Inr con'"
  shows "view_ok (record_accepted v h con') \<and> rv_capture (record_accepted v h con') = rv_capture v \<and>
    rv_canonical (record_accepted v h con') = rv_canonical v"
proof -
  obtain ms names where ms: "accept_messages 0 (rc_messages con) = Inr ms" and con': "rc_messages con' = ms" "rc_tool_names con' = names"
    and sel: "(case rc_tool_names con of None \<Rightarrow> Inr None
        | Some ns \<Rightarrow> rbind (accept_names (xc_tools (rv_capture v)) [] ns) (\<lambda>seen.
            Inr (Some (filter (\<lambda>n. n \<in> set seen) (map def_name (xc_tools (rv_capture v))))))) = Inr names"
  proof -
    have "\<exists>ms. accept_messages 0 (rc_messages con) = Inr ms \<and> (\<exists>names. (case rc_tool_names con of None \<Rightarrow> Inr None
        | Some ns \<Rightarrow> rbind (accept_names (xc_tools (rv_capture v)) [] ns) (\<lambda>seen.
            Inr (Some (filter (\<lambda>n. n \<in> set seen) (map def_name (xc_tools (rv_capture v))))))) = Inr names \<and>
        Inr \<lparr>rc_prompt = rc_prompt con, rc_messages = ms, rc_tool_names = names\<rparr> = (Inr con' :: consequence_error + request_consequence))"
      using assms(2) by (simp only: validate_request_consequence_def rbind_eq_Inr)
    then show ?thesis using that by (metis request_consequence.select_convs(2,3) sum.inject(2))
  qed
  have msgs: "\<forall>m \<in> set (rc_messages con'). msg_tool_calls m = [] \<and> msg_tool_call_id m = [] \<and> validate_message m = Inr ()"
    using accept_messages_ok [OF ms] con'(1) by simp
  have names: "case rc_tool_names con' of None \<Rightarrow> True | Some ns \<Rightarrow> \<exists>P. ns = filter P (map def_name (xc_tools (rv_capture v)))"
    using sel con'(2) by (auto simp: res_simps split: option.splits)
  show ?thesis
    using assms(1) msgs names
    by (auto simp: view_ok_def record_accepted_def apply_consequence_def Let_def split: option.splits)
qed

lemma hooks_keep_view:
  "run_request_hooks cancelled rid v hooks = Inr v' \<Longrightarrow> view_ok v \<Longrightarrow>
     view_ok v' \<and> rv_capture v' = rv_capture v \<and> rv_canonical v' = rv_canonical v"
proof (induction cancelled rid v hooks rule: run_request_hooks.induct)
  case (2 cancelled rid v hook hooks)
  then obtain con where con: "\<not> cancelled (length hooks)" "run_pure_hook rid v hook = Inr con"
    "run_request_hooks cancelled rid (record_accepted v (rh_identity hook) con) hooks = Inr v'"
    by (auto simp: res_simps split: if_splits)
  then obtain con0 where "validate_request_consequence (rv_capture v) con0 = Inr con"
    by (auto simp: run_pure_hook_def split: hook_return.splits)
  from consequence_keeps_view [OF "2.prems"(2) this] "2.IH" [OF con(1,2,3)] show ?case by metis
qed simp


section \<open>Signals\<close>

fun unescape :: "string \<Rightarrow> string" where
  "unescape [] = []"
| "unescape (c # s) =
     (if take 5 (c # s) = ''&amp;'' then CHR ''&'' # unescape (drop 4 s)
      else if take 4 (c # s) = ''&lt;'' then CHR ''<'' # unescape (drop 3 s)
      else if take 4 (c # s) = ''&gt;'' then CHR ''>'' # unescape (drop 3 s)
      else c # unescape s)"

lemma unescape_escaped: "unescape (concat (map escape_byte s)) = s"
  by (induction s) (simp_all add: escape_byte_def)

text \<open>C39: The text of a signal cannot leave the element that marks it as the system's: between the tags no angle bracket
  occurs, and the content is read back from it.\<close>

theorem signal_text_contained:
  "\<exists>body. signal_projected_text s = ''<system-signal>'' @ body @ ''</system-signal>'' \<and>
     CHR ''<'' \<notin> set body \<and> CHR ''>'' \<notin> set body \<and> unescape body = s"
proof (intro exI conjI)
  show "signal_projected_text s = ''<system-signal>'' @ concat (map escape_byte s) @ ''</system-signal>''"
    by (simp add: signal_projected_text_def)
qed (auto simp: unescape_escaped escape_byte_def split: if_splits)

section \<open>Samples\<close>

lemma sample_projection:
  "project_canonical sample_graph ''o'' =
     Inr ([blank_message RoleUser,
           (blank_message RoleAssistant)\<lparr>msg_source := sample_ref,
             msg_tool_calls := [\<lparr>call_id = ''c'', call_name = ''t'', call_arguments = [], call_extra = []\<rparr>]\<rparr>,
           (blank_message RoleTool)\<lparr>msg_tool_call_id := ''c'', msg_content := [text_part []]\<rparr>], [], ''t'')"
  by code_simp

lemma sample_conversation:
  "wf_calls (g_entries sample_graph)" "ascending sample_graph" "results_follow sample_graph"
  "nothing_pending sample_graph" "checkpoints_decoded sample_graph"
  by (simp_all add: wf_calls_def ascending_def results_follow_def nothing_pending_def checkpoints_decoded_def is_running_def
      entry_calls_def sample_parts)


definition sample_capture :: execution_capture where
  "sample_capture = (oa_execution (or_admission sample_operation))\<lparr>xc_prompt := ''be brief'',
     xc_tools := [\<lparr>def_name = ''t'', def_description = [], def_parameters = Value (JObj [])\<rparr>]\<rparr>"

definition sample_request_hook :: request_hook where
  "sample_request_hook = \<lparr>rh_identity = \<lparr>hi_extension = ''x'', hi_hook = ''k''\<rparr>,
     rh_run = (\<lambda>_. Consequence \<lparr>rc_prompt = Some ''be long'', rc_messages = [system_message ''note''], rc_tool_names = Some []\<rparr>)\<rparr>"


end
