(* ===== verification/Session_Tx.thy ===== *)
theory Session_Tx
  imports Checkpoint_Plan
begin

text \<open>
  The transactions that write a Session (\<open>src/harness/effect.go\<close>, \<open>harness.go\<close>, \<open>compact.go\<close>, \<open>recover.go\<close>), on the
  decoded graph of that Session. A transaction is all or nothing (\<open>Memory_Store_Safe\<close>): a body that returns an error
  leaves the Session as it was. What the codec accepts, the commit times and the identities other Sessions use are
  an environment, arbitrary in every theorem; the identities drawn at random are a supply, and an exhausted supply is
  the failure of the random source. Decoding what was just encoded gives it back.
\<close>

section \<open>The store of one Session\<close>

datatype tx_error =
  TxInvalid string | TxRace | TxConflict string | TxNotFound string | TxCodec | TxEntropy | TxOverflow
| TxUsage usage_error | TxCorrupt violation | TxCancelled

record tx_env =
  te_entry_ok :: "payload \<Rightarrow> bool"
  te_operation_ok :: "operation_record \<Rightarrow> bool"
  te_session_ok :: "session_record \<Rightarrow> bool"
  te_now :: "int \<Rightarrow> timestamp"
  te_elsewhere :: "string \<Rightarrow> bool"

record tx =
  tx_graph :: session_graph
  tx_fresh :: "string list"

definition last_int64 :: int where
  "last_int64 = 9223372036854775807"

definition new_hex_id :: "tx \<Rightarrow> tx_error + string \<times> tx" where
  "new_hex_id t = (case tx_fresh t of [] \<Rightarrow> Inl TxEntropy | i # is \<Rightarrow> Inr (i, t\<lparr>tx_fresh := is\<rparr>))"

definition highest_sequence :: "graph_entry list \<Rightarrow> int" where
  "highest_sequence es = foldr max (map ge_seq es) 0"

definition session_id :: "session_graph \<Rightarrow> string" where
  "session_id g = si_session (sr_identity (g_session g))"

definition insert_and_adopt ::
  "tx_env \<Rightarrow> string \<Rightarrow> string \<Rightarrow> payload \<Rightarrow> tx \<Rightarrow> tx_error + graph_entry \<times> tx" where
  "insert_and_adopt env i opid p t =
     (let g = tx_graph t; q = highest_sequence (g_entries g);
          e = \<lparr>ge_env = \<lparr>en_session = session_id g, en_id = i, en_sequence = q + 1, en_operation = opid,
                en_kind = payload_kind p, en_committed_at = te_now env (q + 1)\<rparr>, ge_payload = p\<rparr>
      in if \<not> te_entry_ok env p then Inl TxCodec
         else if i \<in> ge_id ` set (g_entries g) \<or> te_elsewhere env i then Inl (TxConflict i)
         else if q = last_int64 then Inl TxOverflow
         else Inr (e, t\<lparr>tx_graph := g\<lparr>g_entries := g_entries g @ [e]\<rparr>\<rparr>))"

definition insert_operation :: "tx_env \<Rightarrow> operation_record \<Rightarrow> tx \<Rightarrow> tx_error + operation_record \<times> tx" where
  "insert_operation env x t =
     (let g = tx_graph t; x' = x\<lparr>or_revision := 1\<rparr>
      in if \<not> te_operation_ok env x then Inl TxCodec
         else if find_operation g (op_id x) \<noteq> None \<or> te_elsewhere env (op_id x) then Inl (TxConflict (op_id x))
         else Inr (x', t\<lparr>tx_graph := g\<lparr>g_operations := g_operations g @ [x']\<rparr>\<rparr>))"

definition replace_operation_register ::
  "tx_env \<Rightarrow> string \<Rightarrow> int \<Rightarrow> operation_record \<Rightarrow> tx \<Rightarrow> tx_error + operation_record \<times> tx" where
  "replace_operation_register env opid expected x t =
     (let g = tx_graph t in
      if \<not> te_operation_ok env x then Inl TxCodec
      else (case find_operation g opid of
              None \<Rightarrow> Inl (TxNotFound opid)
            | Some cur \<Rightarrow>
                if or_revision cur \<noteq> expected then Inl (TxConflict opid)
                else if expected = last_int64 then Inl TxOverflow
                else (let x' = x\<lparr>or_revision := expected + 1\<rparr>
                      in Inr (x', t\<lparr>tx_graph := g\<lparr>g_operations := fst (replace_operation opid x' (g_operations g))\<rparr>\<rparr>))))"

definition replace_session_register ::
  "tx_env \<Rightarrow> int \<Rightarrow> session_record \<Rightarrow> tx \<Rightarrow> tx_error + session_record \<times> tx" where
  "replace_session_register env expected s t =
     (let g = tx_graph t in
      if \<not> te_session_ok env s then Inl TxCodec
      else if sr_revision (g_session g) \<noteq> expected then Inl (TxConflict (session_id g))
      else if expected = last_int64 then Inl TxOverflow
      else (let s' = s\<lparr>sr_revision := expected + 1\<rparr> in Inr (s', t\<lparr>tx_graph := g\<lparr>g_session := s'\<rparr>\<rparr>)))"

definition read_operation :: "string \<Rightarrow> tx \<Rightarrow> tx_error + operation_record" where
  "read_operation opid t =
     (case find_operation (tx_graph t) opid of None \<Rightarrow> Inl (TxNotFound opid) | Some x \<Rightarrow> Inr x)"

definition add_totals :: "usage_totals \<Rightarrow> usage_totals \<Rightarrow> tx_error + usage_totals" where
  "add_totals a b = map_error TxUsage (add_usage_totals a b)"

section \<open>Admission\<close>

record admission_request =
  ar_operation :: string
  ar_kind :: request_kind
  ar_origin :: input_origin
  ar_content :: "content_part list"

definition fresh_state :: "timestamp \<Rightarrow> operation_state" where
  "fresh_state now = \<lparr>os_status = OpRunning, os_started_at = now, os_settled_at = None, os_effect = None,
     os_request = None, os_pending = [], os_usage = [], os_terminal = None, os_unreported = False\<rparr>"

definition admitted_record ::
  "session_record \<Rightarrow> execution_capture \<Rightarrow> admission_request \<Rightarrow> entry_ref \<Rightarrow> timestamp \<Rightarrow> operation_record" where
  "admitted_record s x req admitted now =
     \<lparr>or_revision = 0,
      or_admission = \<lparr>oa_session = si_session (sr_identity s), oa_operation = ar_operation req, oa_kind = ar_kind req,
        oa_admitted = admitted, oa_agent_type = ss_agent_type (sr_state s), oa_execution = x, oa_admitted_at = now\<rparr>,
      or_state = fresh_state now\<rparr>"

text \<open>The registers that every admission writes: the operation and the Session that names it.\<close>

definition admit_registers ::
  "tx_env \<Rightarrow> session_record \<Rightarrow> operation_record \<Rightarrow> timestamp \<Rightarrow> tx \<Rightarrow> tx_error + (operation_record \<times> session_record) \<times> tx" where
  "admit_registers env s x now t =
     rbind (insert_operation env x t) (\<lambda>(x', t1).
     rbind (replace_session_register env (sr_revision s)
              (s\<lparr>sr_state := (sr_state s)\<lparr>ss_current_operation := op_id x, ss_last_activity := now\<rparr>\<rparr>) t1) (\<lambda>(s', t2).
       Inr ((x', s'), t2)))"

definition produce_admission ::
  "tx_env \<Rightarrow> timestamp \<Rightarrow> session_record \<Rightarrow> execution_capture \<Rightarrow> admission_request \<Rightarrow> tx \<Rightarrow>
     tx_error + (operation_record \<times> session_record \<times> graph_entry list) \<times> tx" where
  "produce_admission env now s x req t =
     (if ar_kind req = RequestCompact then
        rbind (admit_registers env s (admitted_record s x req \<lparr>er_session = [], er_entry = []\<rparr> now) now t) (\<lambda>((x', s'), t').
          Inr ((x', s', []), t'))
      else
        rbind (new_hex_id t) (\<lambda>(i, t1).
        rbind (insert_and_adopt env i (ar_operation req)
                 (PInput \<lparr>in_session = si_session (sr_identity s), in_entry = i, in_operation = ar_operation req,
                    in_origin = ar_origin req, in_content = ar_content req\<rparr>) t1) (\<lambda>(e, t2).
        rbind (admit_registers env s (admitted_record s x req
                 \<lparr>er_session = si_session (sr_identity s), er_entry = i\<rparr> (en_committed_at (ge_env e)))
                 (en_committed_at (ge_env e)) t2) (\<lambda>((x', s'), t').
          Inr ((x', s', [e]), t')))))"

section \<open>Intents of effects\<close>

text \<open>What every intent checks of the operation, in the resident view and again in the transaction.\<close>

definition check_quiet :: "operation_record \<Rightarrow> tx_error + unit" where
  "check_quiet x =
     rbind (ensure (is_running x) (TxInvalid ''not running'')) (\<lambda>_.
       ensure (os_effect (or_state x) = None) (TxInvalid ''effects never nest''))"

definition check_first_pending :: "string \<Rightarrow> operation_record \<Rightarrow> tx_error + unit" where
  "check_first_pending c x =
     rbind (check_quiet x) (\<lambda>_.
       ensure (case os_pending (or_state x) of [] \<Rightarrow> False | p # _ \<Rightarrow> pc_call p = c) (TxInvalid ''not the first pending call''))"

definition view_operation :: "session_graph \<Rightarrow> string \<Rightarrow> tx_error + operation_record" where
  "view_operation view opid = (case find_operation view opid of None \<Rightarrow> Inl (TxNotFound opid) | Some x \<Rightarrow> Inr x)"

text \<open>The transaction of an intent: re-read, check again, compare the revision, replace.\<close>

definition replace_intent ::
  "tx_env \<Rightarrow> string \<Rightarrow> int \<Rightarrow> (operation_record \<Rightarrow> tx_error + unit) \<Rightarrow> (operation_state \<Rightarrow> operation_state) \<Rightarrow> tx \<Rightarrow>
     tx_error + operation_record \<times> tx" where
  "replace_intent env opid revision check next_state t =
     rbind (read_operation opid t) (\<lambda>cur.
     rbind (check cur) (\<lambda>_.
     rbind (ensure (or_revision cur = revision) TxRace) (\<lambda>_.
       replace_operation_register env opid (or_revision cur) (cur\<lparr>or_state := next_state (or_state cur)\<rparr>) t)))"

definition model_intent :: "string \<Rightarrow> string \<Rightarrow> invocation_purpose \<Rightarrow> model_ref \<Rightarrow> request_evidence option \<Rightarrow> active_effect" where
  "model_intent result rid purpose m ev = \<lparr>ae_kind = EffectModel, ae_result_entry = result, ae_tool_call = [],
     ae_hook = [], ae_request = rid, ae_model = Some m, ae_purpose = purpose, ae_evidence = ev, ae_extension = [],
     ae_input_base64 = [], ae_final_arguments = NoBytes, ae_contributions = []\<rparr>"

text \<open>The running request that a model intent publishes or refreshes.\<close>

definition intent_request ::
  "string \<Rightarrow> invocation_purpose \<Rightarrow> request_evidence option \<Rightarrow> running_request option \<Rightarrow> running_request option \<Rightarrow>
     running_request option" where
  "intent_request rid purpose evo suspended cur =
     (case purpose of
        PurposeConversation \<Rightarrow>
          (case evo of
             None \<Rightarrow> cur
           | Some ev \<Rightarrow>
               Some (case cur of
                 None \<Rightarrow> \<lparr>rr_request = rid, rr_checkpoint = ev_checkpoint ev, rr_boundary = ev_boundary ev, rr_hook_results = []\<rparr>
               | Some rr \<Rightarrow> rr\<lparr>rr_checkpoint := ev_checkpoint ev, rr_boundary := ev_boundary ev\<rparr>))
      | PurposeMaintenance \<Rightarrow> (case cur of None \<Rightarrow> suspended | Some rr \<Rightarrow> Some rr)
      | OtherPurpose _ \<Rightarrow> cur)"

definition begin_model_effect ::
  "tx_env \<Rightarrow> session_graph \<Rightarrow> string \<Rightarrow> string \<Rightarrow> invocation_purpose \<Rightarrow> model_ref \<Rightarrow> request_evidence option \<Rightarrow>
     running_request option \<Rightarrow> bool \<Rightarrow> tx \<Rightarrow> tx_error + operation_record \<times> tx" where
  "begin_model_effect env view opid rid purpose m evo suspended cancelled t =
     rbind (view_operation view opid) (\<lambda>x.
     rbind (check_quiet x) (\<lambda>_.
     rbind (ensure (\<not> cancelled) TxCancelled) (\<lambda>_.
     rbind (new_hex_id t) (\<lambda>(i, t1).
       replace_intent env opid (or_revision x) check_quiet
         (\<lambda>s. s\<lparr>os_effect := Some (model_intent i rid purpose m evo),
                os_request := intent_request rid purpose evo suspended (os_request s)\<rparr>) t1))))"

record pending_call_intent =
  pci_hook :: string
  pci_extension :: string
  pci_input_base64 :: string
  pci_final_arguments :: raw
  pci_contributions :: "hook_identity list"

definition call_intent :: "effect_kind \<Rightarrow> string \<Rightarrow> string \<Rightarrow> pending_call_intent \<Rightarrow> active_effect" where
  "call_intent k result c pci = \<lparr>ae_kind = k, ae_result_entry = result, ae_tool_call = c, ae_hook = pci_hook pci,
     ae_request = [], ae_model = None, ae_purpose = OtherPurpose [], ae_evidence = None, ae_extension = pci_extension pci,
     ae_input_base64 = pci_input_base64 pci, ae_final_arguments = pci_final_arguments pci,
     ae_contributions = pci_contributions pci\<rparr>"

definition begin_pending_call_effect ::
  "tx_env \<Rightarrow> session_graph \<Rightarrow> string \<Rightarrow> string \<Rightarrow> effect_kind \<Rightarrow> pending_call_intent \<Rightarrow> bool \<Rightarrow> tx \<Rightarrow>
     tx_error + operation_record \<times> tx" where
  "begin_pending_call_effect env view opid c k pci cancelled t =
     rbind (view_operation view opid) (\<lambda>x.
     rbind (check_first_pending c x) (\<lambda>_.
     rbind (if k = EffectHook then new_hex_id t else Inr (pc_result_entry (hd (os_pending (or_state x))), t)) (\<lambda>(i, t1).
     rbind (ensure (\<not> cancelled) TxCancelled) (\<lambda>_.
       replace_intent env opid (or_revision x) (check_first_pending c)
         (\<lambda>s. s\<lparr>os_effect := Some (call_intent k i c pci)\<rparr>) t1))))"

definition hook_intent :: "string \<Rightarrow> string \<Rightarrow> hook_identity \<Rightarrow> request_evidence \<Rightarrow> active_effect" where
  "hook_intent result rid h ev = \<lparr>ae_kind = EffectHook, ae_result_entry = result, ae_tool_call = [], ae_hook = hi_hook h,
     ae_request = rid, ae_model = None, ae_purpose = OtherPurpose [], ae_evidence = Some ev, ae_extension = hi_extension h,
     ae_input_base64 = [], ae_final_arguments = NoBytes, ae_contributions = []\<rparr>"

definition begin_request_hook_effect ::
  "tx_env \<Rightarrow> session_graph \<Rightarrow> string \<Rightarrow> string \<Rightarrow> hook_identity \<Rightarrow> request_evidence \<Rightarrow> bool \<Rightarrow> tx \<Rightarrow>
     tx_error + operation_record \<times> tx" where
  "begin_request_hook_effect env view opid rid h consumed cancelled t =
     rbind (view_operation view opid) (\<lambda>x.
     rbind (check_quiet x) (\<lambda>_.
     rbind (ensure (\<not> cancelled) TxCancelled) (\<lambda>_.
     rbind (new_hex_id t) (\<lambda>(i, t1).
       replace_intent env opid (or_revision x) check_quiet
         (\<lambda>s. s\<lparr>os_effect := Some (hook_intent i rid h consumed),
                os_request := (case os_request s of
                    None \<Rightarrow> Some \<lparr>rr_request = rid, rr_checkpoint = ev_checkpoint consumed, rr_boundary = ev_boundary consumed,
                                  rr_hook_results = []\<rparr>
                  | Some rr \<Rightarrow> Some rr)\<rparr>) t1))))"

section \<open>Contents of synthetic entries\<close>

definition blank_line :: string where
  "blank_line = [char_of (10 :: nat), char_of (10 :: nat)]"

definition interrupted_content :: string where
  "interrupted_content = ''Tool call interrupted.''"

definition build_tool_result_content :: "execution_evidence \<Rightarrow> bool \<Rightarrow> string \<Rightarrow> string" where
  "build_tool_result_content ev hook_unknown base =
     (if ev = EvidenceUnknown then ''Execution outcome unknown; the action may have occurred.'' @ blank_line @ base
      else if hook_unknown then
        ''Pre-tool hook outcome unknown; the hook may have taken effect. The tool was not executed.'' @ blank_line @ base
      else base)"

definition recovery_detail :: string where
  "recovery_detail = ''Operation interrupted by Runtime loss.''"

definition executed_detail :: string where
  "executed_detail = ''agent interrupted''"

text \<open>The fixed content of a signal.\<close>

definition signal_content :: "signal_kind \<Rightarrow> string" where
  "signal_content k =
     (if k = SignalInterruption then ''Operation interrupted.''
      else if k = SignalModelFailure
      then ''The previous model response failed after partial output. Continue from the retained response.''
      else [])"

definition new_signal_entry ::
  "tx_env \<Rightarrow> string \<Rightarrow> signal_kind \<Rightarrow> tx \<Rightarrow> tx_error + graph_entry \<times> tx" where
  "new_signal_entry env opid k t =
     rbind (new_hex_id t) (\<lambda>(i, t1).
       insert_and_adopt env i opid
         (PSignal \<lparr>sg_session = session_id (tx_graph t), sg_entry = i, sg_operation = opid, sg_signal = k,
            sg_related_operation = Some \<lparr>opr_session = session_id (tx_graph t), opr_operation = opid\<rparr>,
            sg_related_member = None, sg_content = signal_content k\<rparr>) t1)"

section \<open>The assistant entry of an output\<close>

definition normalization_failed :: string where
  "normalization_failed = ''Tool call failed internal validation.''"

text \<open>What the normalizing callback returns: bytes or a diagnostic. \<open>describe\<close> renders the error of a rejected call;
  diagnostics are taken as already bounded.\<close>

record normalizer =
  nz_run :: "tool_call \<Rightarrow> string + raw"
  nz_describe :: "model_error \<Rightarrow> string"

definition diagnostic :: "string \<Rightarrow> string" where
  "diagnostic s = (if s = [] then normalization_failed else s)"

definition normalize_call_arguments :: "normalizer \<Rightarrow> tool_call \<Rightarrow> string + raw" where
  "normalize_call_arguments norm c =
     (case validate_tool_call c of
        Inl e \<Rightarrow> Inl (diagnostic (nz_describe norm e))
      | Inr _ \<Rightarrow>
          (case nz_run norm c of
             Inl s \<Rightarrow> Inl (diagnostic s)
           | Inr v \<Rightarrow> if decode_payload_object v = None then Inl normalization_failed else Inr v))"

definition call_record :: "normalizer \<Rightarrow> string list \<Rightarrow> nat \<Rightarrow> tool_call \<Rightarrow> tool_call_record" where
  "call_record norm advertised i c =
     (let r = \<lparr>tc_id = call_id c, tc_ordinal = int i, tc_name = call_name c,
                tc_arguments_base64 = base64_encode (call_arguments c), tc_extra = call_extra c,
                tc_normalized = NoBytes, tc_normalization_failure = [], tc_result_entry = []\<rparr>
      in if call_name c \<notin> set advertised then r
         else (case normalize_call_arguments norm c of
                 Inl s \<Rightarrow> r\<lparr>tc_normalization_failure := s\<rparr>
               | Inr v \<Rightarrow> r\<lparr>tc_normalized := v\<rparr>))"

fun reserve_results :: "tool_call_record list \<Rightarrow> tx \<Rightarrow> tx_error + tool_call_record list \<times> tx" where
  "reserve_results [] t = Inr ([], t)"
| "reserve_results (c # cs) t =
     rbind (new_hex_id t) (\<lambda>(i, t1).
     rbind (reserve_results cs t1) (\<lambda>(cs', t2). Inr (c\<lparr>tc_result_entry := i\<rparr> # cs', t2)))"

definition assistant_payload_eligible :: "assistant_entry \<Rightarrow> bool" where
  "assistant_payload_eligible a \<longleftrightarrow>
     as_refusal a \<noteq> [] \<or> list_ex content_part_has_payload (as_content a) \<or> extra_has_values (as_extra a) \<or>
     as_status a = OutputCompleted \<and> as_tool_calls a \<noteq> []"

definition new_assistant_entry ::
  "string \<Rightarrow> string \<Rightarrow> string \<Rightarrow> model_output \<Rightarrow> normalizer \<Rightarrow> string list \<Rightarrow> string \<Rightarrow> request_evidence option \<Rightarrow> tx \<Rightarrow>
     tx_error + (assistant_entry option \<times> usage_count option) \<times> tx" where
  "new_assistant_entry sid opid i out norm advertised rid evo t =
     (let usage = map_option counted_usage (out_usage out);
          calls = (case out_message out of None \<Rightarrow> [] | Some m \<Rightarrow>
                     map (\<lambda>(n, c). call_record norm advertised n c) (enumerate 0 (msg_tool_calls m)))
      in rbind (reserve_results calls t) (\<lambda>(cs, t').
         let a = \<lparr>as_session = sid, as_entry = i, as_operation = opid, as_status = out_status out, as_source = out_source out,
                   as_content = (case out_message out of None \<Rightarrow> [] | Some m \<Rightarrow> msg_content m),
                   as_refusal = (case out_message out of None \<Rightarrow> [] | Some m \<Rightarrow> msg_refusal m),
                   as_extra = (case out_message out of None \<Rightarrow> [] | Some m \<Rightarrow> msg_extra m),
                   as_tool_calls = cs, as_usage = None, as_request = rid, as_evidence = evo\<rparr>
         in if \<not> assistant_payload_eligible a then Inr ((None, usage), t')
            else Inr ((Some (a\<lparr>as_usage := usage\<rparr>), None), t')))"

section \<open>The terminal settlement\<close>

definition assistant_pending :: "string \<Rightarrow> assistant_entry \<Rightarrow> pending_call list" where
  "assistant_pending sid a = map (\<lambda>c. \<lparr>pc_assistant = \<lparr>er_session = sid, er_entry = as_entry a\<rparr>, pc_call = tc_id c,
     pc_result_entry = tc_result_entry c\<rparr>) (as_tool_calls a)"

definition insert_assistant ::
  "tx_env \<Rightarrow> string \<Rightarrow> assistant_entry option \<Rightarrow> tx \<Rightarrow> tx_error + (graph_entry list \<times> pending_call list) \<times> tx" where
  "insert_assistant env opid ao t =
     (case ao of
        None \<Rightarrow> Inr (([], []), t)
      | Some a \<Rightarrow> rbind (insert_and_adopt env (as_entry a) opid (PAssistant a) t) (\<lambda>(e, t').
          Inr (([e], assistant_pending (session_id (tx_graph t)) a), t')))"

definition ordinary_usage :: "assistant_entry option \<Rightarrow> model_ref \<Rightarrow> usage_count option \<Rightarrow> usage_totals" where
  "ordinary_usage ao m uo =
     (case (case ao of None \<Rightarrow> None | Some a \<Rightarrow> map_option (\<lambda>u. (as_source a, u)) (as_usage a)) of
        Some (r, u) \<Rightarrow> [\<lparr>mu_model = r, mu_usage = u\<rparr>]
      | None \<Rightarrow> (case uo of None \<Rightarrow> [] | Some u \<Rightarrow> [\<lparr>mu_model = m, mu_usage = u\<rparr>]))"

definition settlement_contribution ::
  "assistant_entry option \<Rightarrow> model_ref \<Rightarrow> usage_count option \<Rightarrow> facts_carrier option \<Rightarrow> tx_error + usage_totals" where
  "settlement_contribution ao m uo facts =
     rbind (map_error TxUsage (facts_usage_contribution (facts_list facts))) (\<lambda>f. add_totals (ordinary_usage ao m uo) f)"

definition is_effect :: "effect_kind \<Rightarrow> active_effect option \<Rightarrow> bool" where
  "is_effect k efo \<longleftrightarrow> (case efo of None \<Rightarrow> False | Some ef \<Rightarrow> ae_kind ef = k)"

text \<open>The result of a hook that was running: interrupted, with what its intent holds.\<close>

definition interrupted_hook :: "string \<Rightarrow> string \<Rightarrow> active_effect \<Rightarrow> hook_result_entry" where
  "interrupted_hook sid opid ef = \<lparr>hr_session = sid, hr_entry = ae_result_entry ef, hr_operation = opid,
     hr_hook = ae_hook ef, hr_extension = ae_extension ef, hr_tool_call = ae_tool_call ef, hr_request = ae_request ef,
     hr_status = HookInterrupted, hr_evidence = EvidenceUnknown, hr_arguments = NoBytes, hr_error = recovery_detail,
     hr_input_base64 = ae_input_base64 ef, hr_input_evidence = ae_evidence ef, hr_consequence = None\<rparr>"

definition insert_interrupted_hook ::
  "tx_env \<Rightarrow> string \<Rightarrow> active_effect option \<Rightarrow> tx \<Rightarrow> tx_error + graph_entry list \<times> tx" where
  "insert_interrupted_hook env opid efo t =
     (case efo of
        None \<Rightarrow> Inr ([], t)
      | Some ef \<Rightarrow>
          (if ae_kind ef \<noteq> EffectHook then Inr ([], t)
           else rbind (insert_and_adopt env (ae_result_entry ef) opid
                         (PHookResult (interrupted_hook (session_id (tx_graph t)) opid ef)) t) (\<lambda>(e, t'). Inr ([e], t'))))"

definition hook_unknown_for :: "graph_entry list \<Rightarrow> string \<Rightarrow> string \<Rightarrow> bool" where
  "hook_unknown_for es opid c \<longleftrightarrow>
     list_ex (\<lambda>e. ge_op e = opid \<and> (case the_hook_result (ge_payload e) of
       None \<Rightarrow> False | Some h \<Rightarrow> hr_tool_call h \<noteq> [] \<and> hr_tool_call h = c \<and> hr_evidence h = EvidenceUnknown)) es"

definition addresses :: "effect_kind \<Rightarrow> active_effect option \<Rightarrow> string \<Rightarrow> bool" where
  "addresses k efo c \<longleftrightarrow> (case efo of None \<Rightarrow> False | Some ef \<Rightarrow> ae_kind ef = k \<and> ae_tool_call ef = c)"

definition interrupted_result ::
  "string \<Rightarrow> string \<Rightarrow> active_effect option \<Rightarrow> graph_entry list \<Rightarrow> pending_call \<Rightarrow> tool_result_entry" where
  "interrupted_result sid opid efo committed p =
     (let c = pc_call p; tool = addresses EffectTool efo c;
          ev = (if tool then EvidenceUnknown else EvidenceNotStarted);
          hook = (hook_unknown_for committed opid c \<or> addresses EffectHook efo c)
      in \<lparr>tr_session = sid, tr_entry = pc_result_entry p, tr_operation = opid, tr_assistant = pc_assistant p, tr_call = c,
          tr_status = ResultInterrupted, tr_content = build_tool_result_content ev hook interrupted_content,
          tr_original = interrupted_content, tr_shaping_failure = [], tr_evidence = ev, tr_metadata = NoBytes,
          tr_normalized = (if tool then ae_final_arguments (the efo) else NoBytes),
          tr_hooks = (if tool then ae_contributions (the efo) else [])\<rparr>)"

fun insert_results ::
  "tx_env \<Rightarrow> string \<Rightarrow> (pending_call \<Rightarrow> tool_result_entry) \<Rightarrow> pending_call list \<Rightarrow> tx \<Rightarrow> tx_error + graph_entry list \<times> tx" where
  "insert_results env opid f [] t = Inr ([], t)"
| "insert_results env opid f (p # ps) t =
     rbind (insert_and_adopt env (pc_result_entry p) opid (PToolResult (f p)) t) (\<lambda>(e, t1).
     rbind (insert_results env opid f ps t1) (\<lambda>(es, t2). Inr (e # es, t2)))"

definition insert_interruption ::
  "tx_env \<Rightarrow> string \<Rightarrow> operation_status \<Rightarrow> tx \<Rightarrow> tx_error + graph_entry list \<times> tx" where
  "insert_interruption env opid terminal t =
     (if terminal = OpInterruption
      then rbind (new_signal_entry env opid SignalInterruption t) (\<lambda>(e, t'). Inr ([e], t')) else Inr ([], t))"

text \<open>The witness, evidence and model of the settlement entry. \<open>quiet\<close> is that no assistant entry was produced.\<close>

definition settlement_witness ::
  "bool \<Rightarrow> bool \<Rightarrow> facts_carrier option \<Rightarrow> string \<Rightarrow> operation_state \<Rightarrow> string \<times> string" where
  "settlement_witness quiet compaction facts maintenance s =
     (let model = (quiet \<and> is_effect EffectModel (os_effect s)) in
      if compaction \<and> facts \<noteq> None \<and> (has_input facts \<or> has_consumed facts)
      then (maintenance, fc_source_request (the facts))
      else if model \<and> ae_purpose (the (os_effect s)) = PurposeMaintenance \<and> ae_request (the (os_effect s)) \<noteq> []
      then (ae_request (the (os_effect s)), [])
      else (case os_request s of
              Some rr \<Rightarrow> (rr_request rr, [])
            | None \<Rightarrow> if model \<and> ae_request (the (os_effect s)) \<noteq> [] then (ae_request (the (os_effect s)), []) else ([], [])))"

definition settlement_evidence ::
  "bool \<Rightarrow> bool \<Rightarrow> facts_carrier option \<Rightarrow> operation_state \<Rightarrow> request_evidence option" where
  "settlement_evidence quiet compaction facts s =
     (if \<not> quiet then None
      else if is_effect EffectModel (os_effect s) \<and> ae_evidence (the (os_effect s)) \<noteq> None then ae_evidence (the (os_effect s))
      else if compaction \<and> has_consumed facts then Some (fc_consumed (the facts))
      else None)"

definition settlement_model ::
  "bool \<Rightarrow> model_ref \<Rightarrow> usage_count option \<Rightarrow> facts_carrier option \<Rightarrow> operation_state \<Rightarrow> model_ref option" where
  "settlement_model quiet m uo facts s =
     (if \<not> quiet then None
      else if uo \<noteq> None then Some m
      else if is_effect EffectModel (os_effect s) \<and> \<not> witnesses_request facts (ae_request (the (os_effect s)))
      then ae_model (the (os_effect s))
      else None)"

definition settlement_identity :: "bool \<Rightarrow> operation_state \<Rightarrow> tx \<Rightarrow> tx_error + string \<times> tx" where
  "settlement_identity quiet s t =
     (if quiet \<and> is_effect EffectModel (os_effect s) \<and> ae_result_entry (the (os_effect s)) \<noteq> []
      then Inr (ae_result_entry (the (os_effect s)), t) else new_hex_id t)"

record settlement_request =
  sq_status :: operation_status
  sq_detail :: string
  sq_assistant :: "assistant_entry option"
  sq_usage_model :: model_ref
  sq_usage :: "usage_count option"
  sq_compaction :: bool
  sq_facts :: "facts_carrier option"
  sq_maintenance :: string

definition settlement_of ::
  "string \<Rightarrow> string \<Rightarrow> string \<Rightarrow> settlement_request \<Rightarrow> operation_state \<Rightarrow> settlement_entry" where
  "settlement_of sid opid i q s =
     (let quiet = (sq_assistant q = None);
          w = settlement_witness quiet (sq_compaction q) (sq_facts q) (sq_maintenance q) s
      in \<lparr>st_session = sid, st_entry = i, st_operation = opid, st_status = sq_status q, st_detail = sq_detail q,
          st_model = settlement_model quiet (sq_usage_model q) (sq_usage q) (sq_facts q) s,
          st_usage = (if quiet then sq_usage q else None), st_compaction_usage = sq_compaction q,
          st_request = fst w, st_consumed_request = snd w,
          st_evidence = settlement_evidence quiet (sq_compaction q) (sq_facts q) s,
          st_facts = facts_list (sq_facts q)\<rparr>)"

definition settled_state ::
  "string \<Rightarrow> string \<Rightarrow> timestamp \<Rightarrow> settlement_request \<Rightarrow> usage_totals \<Rightarrow> operation_state \<Rightarrow> operation_state" where
  "settled_state sid i settled q usage s = s\<lparr>os_effect := None, os_request := None, os_usage := usage, os_status := sq_status q,
     os_pending := [], os_settled_at := Some settled,
     os_unreported := (if has_input (sq_facts q) then False else os_unreported s),
     os_terminal := Some \<lparr>ot_settlement = \<lparr>er_session = sid, er_entry = i\<rparr>, ot_detail = sq_detail q\<rparr>\<rparr>"

text \<open>The entries before the settlement: the assistant, the interrupted hook, the interrupted results, the signal.\<close>

definition insert_before_settlement ::
  "tx_env \<Rightarrow> string \<Rightarrow> settlement_request \<Rightarrow> operation_state \<Rightarrow> tx \<Rightarrow> tx_error + graph_entry list \<times> tx" where
  "insert_before_settlement env opid q s t =
     rbind (insert_assistant env opid (sq_assistant q) t) (\<lambda>((es1, pending), t1).
     rbind (insert_interrupted_hook env opid (os_effect s) t1) (\<lambda>(es2, t2).
     rbind (insert_results env opid
              (interrupted_result (session_id (tx_graph t)) opid (os_effect s) (g_entries (tx_graph t2)))
              (os_pending s @ pending) t2) (\<lambda>(es3, t3).
     rbind (insert_interruption env opid (sq_status q) t3) (\<lambda>(es4, t4).
       Inr (es1 @ es2 @ es3 @ es4, t4)))))"

definition commit_terminal_settlement ::
  "tx_env \<Rightarrow> string \<Rightarrow> session_record \<Rightarrow> operation_record \<Rightarrow> int \<Rightarrow> int \<Rightarrow> settlement_request \<Rightarrow> tx \<Rightarrow>
     tx_error + (operation_record \<times> session_record \<times> graph_entry list) \<times> tx" where
  "commit_terminal_settlement env opid cur_sess cur srev orev q t =
     rbind (settlement_contribution (sq_assistant q) (sq_usage_model q) (sq_usage q) (sq_facts q)) (\<lambda>contribution.
     rbind (add_totals (os_usage (or_state cur)) contribution) (\<lambda>op_usage.
     rbind (add_totals (ss_usage (sr_state cur_sess)) contribution) (\<lambda>sess_usage.
     rbind (insert_before_settlement env opid q (or_state cur) t) (\<lambda>(es, t1).
     rbind (settlement_identity (sq_assistant q = None) (or_state cur) t1) (\<lambda>(i, t2).
     rbind (insert_and_adopt env i opid (PSettlement (settlement_of (session_id (tx_graph t)) opid i q (or_state cur))) t2)
       (\<lambda>(e, t3).
     rbind (replace_operation_register env opid orev
              (cur\<lparr>or_state := settled_state (session_id (tx_graph t)) i (en_committed_at (ge_env e)) q op_usage (or_state cur)\<rparr>) t3)
       (\<lambda>(cur', t4).
     rbind (replace_session_register env srev
              (cur_sess\<lparr>sr_state := (sr_state cur_sess)\<lparr>ss_usage := sess_usage, ss_current_operation := []\<rparr>\<rparr>) t4)
       (\<lambda>(sess', t5). Inr ((cur', sess', es @ [e]), t5)))))))))"

section \<open>Recovery\<close>

definition recovery_request :: settlement_request where
  "recovery_request = \<lparr>sq_status = OpInterruption, sq_detail = recovery_detail, sq_assistant = None, sq_usage_model = no_ref,
     sq_usage = None, sq_compaction = False, sq_facts = None, sq_maintenance = []\<rparr>"

definition recover_running_operation ::
  "tx_env \<Rightarrow> string \<Rightarrow> tx \<Rightarrow> tx_error + tx" where
  "recover_running_operation env opid t =
     rbind (read_operation opid t) (\<lambda>cur.
       if \<not> is_running cur then Inr t
       else rbind (commit_terminal_settlement env opid (g_session (tx_graph t)) cur
                     (sr_revision (g_session (tx_graph t))) (or_revision cur) recovery_request t) (\<lambda>(_, t'). Inr t'))"

section \<open>The result of a model effect\<close>

record model_effect_intent =
  mi_expected :: model_ref
  mi_result :: string
  mi_compaction :: bool

record model_result =
  mr_assistant :: "assistant_entry option"
  mr_signal :: "signal_kind option"
  mr_terminal :: "operation_status option"
  mr_detail :: string
  mr_usage :: "usage_count option"
  mr_usage_model :: model_ref
  mr_compaction :: bool
  mr_facts :: "facts_carrier option"
  mr_maintenance :: string

text \<open>The success guard: a prospective success under an interrupted execution becomes an interruption.
  \<open>interrupted\<close> is what the guard observes, and is false when the result carries no context.\<close>

definition guard_success :: "bool \<Rightarrow> model_result \<Rightarrow> model_result" where
  "guard_success interrupted r =
     (if interrupted then r\<lparr>mr_terminal := Some OpInterruption, mr_detail := executed_detail\<rparr> else r)"

definition check_model_intent :: "model_effect_intent option \<Rightarrow> operation_record \<Rightarrow> tx_error + unit" where
  "check_model_intent io x =
     rbind (ensure (is_running x) (TxInvalid ''not running'')) (\<lambda>_.
       case io of
         Some mi \<Rightarrow>
           ensure (case os_effect (or_state x) of
                     None \<Rightarrow> False | Some ef \<Rightarrow> ae_kind ef = EffectModel \<and> ae_result_entry ef = mi_result mi)
             (TxInvalid ''no model intent'')
       | None \<Rightarrow> ensure (os_effect (or_state x) = None) (TxInvalid ''not quiet''))"

definition check_revisions :: "session_graph \<Rightarrow> operation_record \<Rightarrow> session_record \<Rightarrow> operation_record \<Rightarrow> tx_error + unit" where
  "check_revisions view vx s x =
     ensure (sr_revision s = sr_revision (g_session view) \<and> or_revision x = or_revision vx) TxRace"

definition terminal_request ::
  "maintenance_fact list \<Rightarrow> model_effect_intent option \<Rightarrow> model_result \<Rightarrow> operation_status \<Rightarrow> settlement_request" where
  "terminal_request pending_facts io r st = \<lparr>sq_status = st, sq_detail = mr_detail r, sq_assistant = mr_assistant r,
     sq_usage_model = (case io of Some mi \<Rightarrow> mi_expected mi | None \<Rightarrow> mr_usage_model r), sq_usage = mr_usage r,
     sq_compaction = (case io of Some mi \<Rightarrow> mi_compaction mi | None \<Rightarrow> mr_compaction r),
     sq_facts = consume_pending_facts pending_facts (mr_facts r), sq_maintenance = mr_maintenance r\<rparr>"

definition insert_continuation ::
  "tx_env \<Rightarrow> string \<Rightarrow> signal_kind option \<Rightarrow> tx \<Rightarrow> tx_error + graph_entry list \<times> tx" where
  "insert_continuation env opid ko t =
     (case ko of
        None \<Rightarrow> Inr ([], t)
      | Some k \<Rightarrow> rbind (new_signal_entry env opid k t) (\<lambda>(e, t'). Inr ([e], t')))"

definition running_state ::
  "model_effect_intent option \<Rightarrow> pending_call list \<Rightarrow> usage_totals \<Rightarrow> operation_state \<Rightarrow> operation_state" where
  "running_state io pending usage s =
     (let compaction = (case io of Some mi \<Rightarrow> mi_compaction mi | None \<Rightarrow> False)
      in s\<lparr>os_effect := None, os_usage := usage, os_status := OpRunning, os_pending := os_pending s @ pending,
           os_request := (if \<not> compaction \<and> os_pending s @ pending = [] then None else os_request s),
           os_unreported := (if compaction then True else os_unreported s)\<rparr>)"

definition commit_running_result ::
  "tx_env \<Rightarrow> string \<Rightarrow> model_effect_intent option \<Rightarrow> model_result \<Rightarrow> session_record \<Rightarrow>
     operation_record \<Rightarrow> tx \<Rightarrow> tx_error + (operation_record \<times> session_record \<times> graph_entry list) \<times> tx" where
  "commit_running_result env opid io r sess cur t =
     (let contribution = ordinary_usage (mr_assistant r) no_ref None in
      rbind (add_totals (os_usage (or_state cur)) contribution) (\<lambda>op_usage.
      rbind (add_totals (ss_usage (sr_state sess)) contribution) (\<lambda>sess_usage.
      rbind (insert_assistant env opid (mr_assistant r) t) (\<lambda>((es1, pending), t1).
      rbind (insert_continuation env opid (mr_signal r) t1) (\<lambda>(es2, t2).
      rbind (replace_operation_register env opid (or_revision cur)
               (cur\<lparr>or_state := running_state io pending op_usage (or_state cur)\<rparr>) t2) (\<lambda>(cur', t3).
      rbind (replace_session_register env (sr_revision sess)
               (sess\<lparr>sr_state := (sr_state sess)\<lparr>ss_usage := sess_usage\<rparr>\<rparr>) t3) (\<lambda>(sess', t4).
        Inr ((cur', sess', es1 @ es2), t4))))))))"

definition commit_effect_result ::
  "tx_env \<Rightarrow> session_graph \<Rightarrow> string \<Rightarrow> maintenance_fact list \<Rightarrow> model_effect_intent option \<Rightarrow>
     bool \<Rightarrow> model_result \<Rightarrow> tx \<Rightarrow> tx_error + (operation_record \<times> session_record \<times> graph_entry list) \<times> tx" where
  "commit_effect_result env view opid pending_facts io interrupted res t =
     (let r = guard_success interrupted res; sess = g_session (tx_graph t) in
      rbind (view_operation view opid) (\<lambda>vx.
      rbind (read_operation opid t) (\<lambda>cur.
      rbind (check_model_intent io cur) (\<lambda>_.
      rbind (check_revisions view vx sess cur) (\<lambda>_.
        case mr_terminal r of
          Some st \<Rightarrow> commit_terminal_settlement env opid sess cur (sr_revision sess) (or_revision cur)
                       (terminal_request pending_facts io r st) t
        | None \<Rightarrow> commit_running_result env opid io r sess cur t)))))"

section \<open>The result of a tool call\<close>

record tool_selection =
  ts_arguments :: raw
  ts_hooks :: "hook_identity list"

record tool_outcome =
  to_status :: tool_result_status
  to_content :: string
  to_evidence :: execution_evidence
  to_metadata :: raw

definition check_tool_intent :: "bool \<Rightarrow> pending_call \<Rightarrow> operation_record \<Rightarrow> tx_error + unit" where
  "check_tool_intent from_intent p x =
     rbind (ensure (is_running x) (TxInvalid ''not running'')) (\<lambda>_.
       if from_intent
       then ensure (case os_effect (or_state x) of
                      None \<Rightarrow> False
                    | Some ef \<Rightarrow> ae_kind ef = EffectTool \<and> ae_tool_call ef = pc_call p \<and> ae_result_entry ef = pc_result_entry p)
              (TxInvalid ''no tool intent'')
       else ensure (os_effect (or_state x) = None) (TxInvalid ''not quiet''))"

fun remove_first :: "('a \<Rightarrow> bool) \<Rightarrow> 'a list \<Rightarrow> 'a list" where
  "remove_first P [] = []"
| "remove_first P (x # xs) = (if P x then xs else x # remove_first P xs)"

definition tool_entry ::
  "string \<Rightarrow> string \<Rightarrow> pending_call \<Rightarrow> string \<Rightarrow> tool_outcome \<Rightarrow> (string \<times> string) option \<Rightarrow> tool_selection \<Rightarrow> bool \<Rightarrow>
     (raw \<Rightarrow> raw) \<Rightarrow> tool_result_entry" where
  "tool_entry sid opid reservation c out shaping sel hook_unknown own_metadata =
     (let (base, failure) = (case shaping of None \<Rightarrow> (to_content out, []) | Some s \<Rightarrow> s)
      in \<lparr>tr_session = sid, tr_entry = pc_result_entry reservation, tr_operation = opid,
          tr_assistant = pc_assistant reservation, tr_call = c, tr_status = to_status out,
          tr_content = build_tool_result_content (to_evidence out) hook_unknown base, tr_original = to_content out,
          tr_shaping_failure = failure, tr_evidence = to_evidence out, tr_metadata = own_metadata (to_metadata out),
          tr_normalized = ts_arguments sel, tr_hooks = ts_hooks sel\<rparr>)"

definition after_tool_result :: "string \<Rightarrow> operation_state \<Rightarrow> operation_state" where
  "after_tool_result c s =
     (let rest = remove_first (\<lambda>p. pc_call p = c) (os_pending s)
      in s\<lparr>os_effect := None, os_pending := rest, os_request := (if rest = [] then None else os_request s)\<rparr>)"

text \<open>\<open>own_metadata\<close> keeps metadata that is one JSON value within the bound on its bytes, and drops any other.\<close>

definition commit_tool_result ::
  "tx_env \<Rightarrow> (raw \<Rightarrow> raw) \<Rightarrow> session_graph \<Rightarrow> string \<Rightarrow> pending_call \<Rightarrow> tool_outcome \<Rightarrow> (string \<times> string) option \<Rightarrow> bool \<Rightarrow>
     tool_selection \<Rightarrow> bool \<Rightarrow> tx \<Rightarrow> tx_error + (operation_record \<times> session_record \<times> graph_entry list) \<times> tx" where
  "commit_tool_result env own_metadata view opid p out shaping from_intent selection hook_unknown t =
     (let sess = g_session (tx_graph t) in
      rbind (view_operation view opid) (\<lambda>vx.
      rbind (read_operation opid t) (\<lambda>cur.
      rbind (check_tool_intent from_intent p cur) (\<lambda>_.
      rbind (case find (\<lambda>q. pc_call q = pc_call p) (os_pending (or_state cur)) of
               None \<Rightarrow> Inl (TxInvalid ''no pending call'') | Some q \<Rightarrow> Inr q) (\<lambda>reservation.
      rbind (check_revisions view vx sess cur) (\<lambda>_.
      (let sel = (if from_intent then (case os_effect (or_state cur) of
                     None \<Rightarrow> selection
                   | Some ef \<Rightarrow> \<lparr>ts_arguments = ae_final_arguments ef, ts_hooks = ae_contributions ef\<rparr>) else selection)
       in rbind (insert_and_adopt env (pc_result_entry reservation) opid
                   (PToolResult (tool_entry (session_id (tx_graph t)) opid reservation (pc_call p) out shaping sel hook_unknown
                      own_metadata)) t) (\<lambda>(e, t1).
          rbind (replace_operation_register env opid (or_revision cur)
                   (cur\<lparr>or_state := after_tool_result (pc_call p) (or_state cur)\<rparr>) t1) (\<lambda>(cur', t2).
          rbind (replace_session_register env (sr_revision sess) sess t2) (\<lambda>(sess', t3).
            Inr ((cur', sess', [e]), t3)))))))))))"

section \<open>The result of a hook\<close>

record hook_binding =
  hb_hook :: string
  hb_call :: string
  hb_request :: string

definition check_hook_intent :: "hook_binding \<Rightarrow> string \<Rightarrow> operation_record \<Rightarrow> tx_error + unit" where
  "check_hook_intent b result x =
     rbind (ensure (is_running x) (TxInvalid ''not running'')) (\<lambda>_.
       ensure (case os_effect (or_state x) of
                 None \<Rightarrow> False
               | Some ef \<Rightarrow> ae_kind ef = EffectHook \<and> ae_hook ef = hb_hook b \<and> ae_result_entry ef = result \<and>
                   (hb_call b \<noteq> [] \<longrightarrow> ae_tool_call ef = hb_call b) \<and>
                   (hb_request b \<noteq> [] \<longrightarrow> ae_request ef = hb_request b)) (TxInvalid ''no hook intent''))"

text \<open>The entry a hook result stores: the caller's outcome with the identities and the input of the intent.\<close>

definition hook_entry :: "string \<Rightarrow> string \<Rightarrow> hook_binding \<Rightarrow> string \<Rightarrow> active_effect \<Rightarrow> hook_result_entry \<Rightarrow> hook_result_entry" where
  "hook_entry sid opid b result ef res =
     (let r = res\<lparr>hr_session := sid, hr_entry := result, hr_operation := opid, hr_hook := hb_hook b,
                  hr_extension := ae_extension ef\<rparr>
      in if hb_call b \<noteq> [] then r\<lparr>hr_tool_call := hb_call b, hr_input_base64 := ae_input_base64 ef\<rparr>
         else (let r1 = r\<lparr>hr_request := hb_request b\<rparr>
               in case ae_evidence ef of None \<Rightarrow> r1 | Some ev \<Rightarrow> r1\<lparr>hr_input_evidence := Some ev\<rparr>))"

definition after_hook_result :: "string \<Rightarrow> hook_binding \<Rightarrow> string \<Rightarrow> operation_state \<Rightarrow> operation_state" where
  "after_hook_result sid b result s = s\<lparr>os_effect := None,
     os_request := (case os_request s of
         None \<Rightarrow> None
       | Some rr \<Rightarrow> Some (if hb_request b = [] then rr
                          else rr\<lparr>rr_hook_results := rr_hook_results rr @ [\<lparr>er_session = sid, er_entry = result\<rparr>]\<rparr>))\<rparr>"

definition commit_hook_result ::
  "tx_env \<Rightarrow> session_graph \<Rightarrow> string \<Rightarrow> hook_binding \<Rightarrow> string \<Rightarrow> hook_result_entry \<Rightarrow> tx \<Rightarrow>
     tx_error + (operation_record \<times> session_record \<times> graph_entry list) \<times> tx" where
  "commit_hook_result env view opid b result res t =
     (let sess = g_session (tx_graph t); sid = session_id (tx_graph t) in
      rbind (view_operation view opid) (\<lambda>vx.
      rbind (read_operation opid t) (\<lambda>cur.
      rbind (check_hook_intent b result cur) (\<lambda>_.
      rbind (check_revisions view vx sess cur) (\<lambda>_.
      rbind (insert_and_adopt env result opid (PHookResult (hook_entry sid opid b result (the (os_effect (or_state cur))) res)) t)
        (\<lambda>(e, t1).
      rbind (replace_operation_register env opid (or_revision cur)
               (cur\<lparr>or_state := after_hook_result sid b result (or_state cur)\<rparr>) t1) (\<lambda>(cur', t2).
      rbind (replace_session_register env (sr_revision sess) sess t2) (\<lambda>(sess', t3).
        Inr ((cur', sess', [e]), t3)))))))))"

section \<open>The checkpoint\<close>

text \<open>What a checkpoint commits: its messages and boundary, the consumed references, and whose maintenance it was.\<close>

record checkpoint_commit =
  cc_boundary :: string
  cc_messages :: "message list"
  cc_input_checkpoint :: string
  cc_input_boundary :: string
  cc_source :: string
  cc_manual :: bool

definition checkpoint_of ::
  "string \<Rightarrow> string \<Rightarrow> string \<Rightarrow> execution_capture \<Rightarrow> checkpoint_commit \<Rightarrow> facts_carrier option \<Rightarrow> checkpoint_entry" where
  "checkpoint_of sid opid i x cc merged = \<lparr>ck_session = sid, ck_entry = i, ck_operation = opid, ck_strategy = sc_id (xc_strategy x),
     ck_messages = cc_messages cc, ck_boundary = cc_boundary cc, ck_revision = xc_revision x,
     ck_facts = facts_list merged, ck_consumed_request = cc_source cc,
     ck_evidence = Some (if has_consumed merged then fc_consumed (the merged)
       else evidence_for (new_request_view x (cc_input_checkpoint cc) (cc_input_boundary cc) []))\<rparr>"

definition checkpoint_request :: "checkpoint_commit \<Rightarrow> string \<Rightarrow> string \<Rightarrow> running_request option \<Rightarrow> running_request option" where
  "checkpoint_request cc i rebuilt ro =
     (case ro of
        None \<Rightarrow>
          (if \<not> cc_manual cc \<and> cc_source cc \<noteq> []
           then Some \<lparr>rr_request = cc_source cc, rr_checkpoint = i, rr_boundary = rebuilt, rr_hook_results = []\<rparr> else None)
      | Some rr \<Rightarrow> Some (rr\<lparr>rr_checkpoint := i, rr_boundary := rebuilt\<rparr>))"

definition checkpoint_registers ::
  "tx_env \<Rightarrow> session_graph \<Rightarrow> string \<Rightarrow> execution_capture \<Rightarrow> checkpoint_commit \<Rightarrow> facts_carrier option \<Rightarrow> session_record \<Rightarrow>
     operation_record \<Rightarrow> tx \<Rightarrow> tx_error + (operation_record \<times> session_record \<times> graph_entry list) \<times> tx" where
  "checkpoint_registers env view opid x cc merged sess cur t =
     rbind (new_hex_id t) (\<lambda>(i, t1).
     rbind (insert_and_adopt env i opid (PCompaction (checkpoint_of (session_id (tx_graph t)) opid i x cc merged)) t1) (\<lambda>(e, t2).
     rbind (map_error TxUsage (facts_usage_contribution (facts_list merged))) (\<lambda>contribution.
     rbind (add_totals (os_usage (or_state cur)) contribution) (\<lambda>op_usage.
     rbind (add_totals (ss_usage (sr_state sess)) contribution) (\<lambda>sess_usage.
     rbind (replace_operation_register env opid (or_revision cur)
              (cur\<lparr>or_state := (or_state cur)\<lparr>os_usage := op_usage, os_unreported := False,
                 os_request := checkpoint_request cc i (rebuilt_boundary (g_entries view) (cc_boundary cc) i)
                                 (os_request (or_state cur))\<rparr>\<rparr>) t2) (\<lambda>(cur', t3).
     rbind (replace_session_register env (sr_revision sess)
              (sess\<lparr>sr_state := (sr_state sess)\<lparr>ss_checkpoint := i, ss_usage := sess_usage\<rparr>\<rparr>) t3) (\<lambda>(sess', t4).
       Inr ((cur', sess', [e]), t4))))))))"

definition maintenance_settlement :: "operation_status \<Rightarrow> string \<Rightarrow> bool \<Rightarrow> facts_carrier option \<Rightarrow> string \<Rightarrow> settlement_request" where
  "maintenance_settlement st detail compaction facts maintenance = \<lparr>sq_status = st, sq_detail = detail, sq_assistant = None,
     sq_usage_model = no_ref, sq_usage = None, sq_compaction = compaction, sq_facts = facts, sq_maintenance = maintenance\<rparr>"

text \<open>\<open>merged\<close> are the facts of the procedure behind those that earlier procedures left uncommitted.\<close>

definition commit_checkpoint ::
  "tx_env \<Rightarrow> session_graph \<Rightarrow> string \<Rightarrow> execution_capture \<Rightarrow> bool \<Rightarrow> checkpoint_commit option \<Rightarrow>
     facts_carrier option \<Rightarrow> bool \<Rightarrow> tx \<Rightarrow> tx_error + (operation_record \<times> session_record \<times> graph_entry list) \<times> tx" where
  "commit_checkpoint env view opid x interrupted cco merged manual t =
     (let sess = g_session (tx_graph t) in
      rbind (view_operation view opid) (\<lambda>vx.
      rbind (read_operation opid t) (\<lambda>cur.
      rbind (ensure (is_running cur) (TxInvalid ''not running'')) (\<lambda>_.
      rbind (check_revisions view vx sess cur) (\<lambda>_.
        if interrupted
        then commit_terminal_settlement env opid sess cur (sr_revision sess) (or_revision cur)
               (maintenance_settlement OpInterruption executed_detail True merged (producer_of merged)) t
        else rbind (case cco of None \<Rightarrow> Inr ((cur, sess, []), t)
                    | Some cc \<Rightarrow> checkpoint_registers env view opid x cc merged sess cur t) (\<lambda>((cur1, sess1, es1), t1).
             if \<not> manual then Inr ((cur1, sess1, es1), t1)
             else (let facts = (if cco = None \<and> has_input merged then merged else None)
                   in rbind (commit_terminal_settlement env opid sess1 cur1 (sr_revision sess1) (or_revision cur1)
                               (maintenance_settlement OpSuccess [] (facts \<noteq> None) facts (producer_of merged)) t1)
                        (\<lambda>((cur2, sess2, es2), t2). Inr ((cur2, sess2, es1 @ es2), t2)))))))))"

section \<open>Publication to the resident view\<close>

record coordinator =
  co_view :: session_graph
  co_store :: tx

definition adopt :: "operation_record \<Rightarrow> session_record \<Rightarrow> graph_entry list \<Rightarrow> session_graph \<Rightarrow> session_graph" where
  "adopt x s es v = v\<lparr>g_session := s, g_operations := fst (replace_operation (op_id x) x (g_operations v)),
     g_entries := g_entries v @ es\<rparr>"

text \<open>A committed body is adopted by the view; a race makes the coordinator load the graph again.\<close>

definition publish ::
  "(session_graph \<Rightarrow> tx \<Rightarrow> tx_error + (operation_record \<times> session_record \<times> graph_entry list) \<times> tx) \<Rightarrow> coordinator \<Rightarrow>
     (tx_error + operation_record) \<times> coordinator" where
  "publish body c =
     (case body (co_view c) (co_store c) of
        Inr ((x, s, es), t) \<Rightarrow> (Inr x, \<lparr>co_view = adopt x s es (co_view c), co_store = t\<rparr>)
      | Inl e \<Rightarrow>
          (if e \<noteq> TxRace then (Inl e, c)
           else (let g = tx_graph (co_store c) in
                 case validate_graph (session_id g) g of
                   Inl v \<Rightarrow> (Inl (TxCorrupt v), c)
                 | Inr _ \<Rightarrow> (Inl TxRace, c\<lparr>co_view := g\<rparr>))))"

end
