(* ===== verification/Session_Grow.thy ===== *)
theory Session_Grow
  imports Session_Tx Conversation_Safe
begin

text \<open>
  How the rules of the graph behave when entries are appended and registers replaced: what was accepted of the old
  entries and of the operations that own none of the new ones stays accepted.
\<close>

section \<open>Growth\<close>

definition admission_of :: "session_graph \<Rightarrow> string \<Rightarrow> operation_admission option" where
  "admission_of g i = map_option or_admission (find_operation g i)"

text \<open>\<open>g'\<close> has the entries of \<open>g\<close>, then \<open>es\<close> with fresh identities and later sequences; every operation of \<open>g\<close> is still
  there with its admission.\<close>

definition graph_grows :: "session_graph \<Rightarrow> session_graph \<Rightarrow> graph_entry list \<Rightarrow> bool" where
  "graph_grows g g' es \<longleftrightarrow>
     g_entries g' = g_entries g @ es \<and> distinct (map ge_id (g_entries g')) \<and>
     (\<forall>i a. admission_of g i = Some a \<longrightarrow> admission_of g' i = Some a) \<and>
     (\<forall>e \<in> set (g_entries g). \<forall>n \<in> set es. ge_seq e < ge_seq n)"

lemma growsD:
  assumes "graph_grows g g' es"
  shows "g_entries g' = g_entries g @ es" "distinct (map ge_id (g_entries g'))" "distinct (map ge_id (g_entries g))"
    "distinct (map ge_id es)"
    "\<And>e n. e \<in> set (g_entries g) \<Longrightarrow> n \<in> set es \<Longrightarrow> ge_seq e < ge_seq n"
    "\<And>e n. e \<in> set (g_entries g) \<Longrightarrow> n \<in> set es \<Longrightarrow> ge_id e \<noteq> ge_id n"
proof -
  have d: "g_entries g' = g_entries g @ es" "distinct (map ge_id (g_entries g @ es))" using assms unfolding graph_grows_def by (elim conjE, simp)+
  then have parts: "distinct (map ge_id (g_entries g))" "distinct (map ge_id es)" and
    disjoint: "ge_id ` set (g_entries g) \<inter> ge_id ` set es = {}"
    unfolding map_append distinct_append by simp_all
  show "g_entries g' = g_entries g @ es" "distinct (map ge_id (g_entries g'))" by (fact d(1), simp only: d)
  show "distinct (map ge_id (g_entries g))" "distinct (map ge_id es)" by (fact parts)+
  show "ge_seq e < ge_seq n" if "e \<in> set (g_entries g)" "n \<in> set es" for e n
    using assms that by (simp add: graph_grows_def)
  show "ge_id e \<noteq> ge_id n" if "e \<in> set (g_entries g)" "n \<in> set es" for e n
    using disjoint imageI [OF that(1), of ge_id] imageI [OF that(2), of ge_id] by force
qed

lemma entry_by_id_in: "entry_by_id g i = Some e \<Longrightarrow> e \<in> set (g_entries g) \<and> ge_id e = i"
  unfolding entry_by_id_def entries_by_id_def by (auto dest!: map_of_SomeD)

lemma entry_by_id_None: "entry_by_id g i = None \<longleftrightarrow> i \<notin> ge_id ` set (g_entries g)"
  by (force simp: entry_by_id_def entries_by_id_def map_of_eq_None_iff)

lemma grows_entry:
  assumes "graph_grows g g' es" "entry_by_id g i = Some e"
  shows "entry_by_id g' i = Some e"
  using entry_by_id_in [OF assms(2)] entry_by_id_Some [OF growsD(2) [OF assms(1)]] growsD(1) [OF assms(1)] by simp

lemma grows_new_entry:
  assumes "graph_grows g g' es" "e \<in> set es"
  shows "entry_by_id g' (ge_id e) = Some e" "entry_by_id g (ge_id e) = None"
proof -
  show "entry_by_id g' (ge_id e) = Some e"
    using entry_by_id_Some [OF growsD(2) [OF assms(1)]] growsD(1) [OF assms(1)] assms(2) by simp
  show "entry_by_id g (ge_id e) = None"
    using growsD(6) [OF assms(1) _ assms(2)] by (force simp: entry_by_id_None)
qed

lemma grows_entry_cases:
  assumes "graph_grows g g' es" "entry_by_id g' i = Some e"
  obtains "entry_by_id g i = Some e" | "entry_by_id g i = None" "e \<in> set es" "ge_id e = i"
proof (cases "e \<in> set es")
  case True
  with grows_new_entry(2) [OF assms(1) True] entry_by_id_in [OF assms(2)] that(2) show ?thesis by simp
next
  case False
  with entry_by_id_in [OF assms(2)] growsD(1) [OF assms(1)] have "e \<in> set (g_entries g)" "ge_id e = i" by auto
  with entry_by_id_Some [OF growsD(3) [OF assms(1)]] that(1) show ?thesis by simp
qed

lemma grows_operation:
  assumes "graph_grows g g' es" "find_operation g i = Some x"
  obtains x' where "find_operation g' i = Some x'" "or_admission x' = or_admission x"
  using assms by (force simp: graph_grows_def admission_of_def)

lemma find_operation_id: "find_operation g i = Some x \<Longrightarrow> op_id x = i"
  by (auto simp: find_operation_def find_Some_iff)

section \<open>Ownership and evidence\<close>

lemma validate_owner_ok: "validate_owner g e = Inr () \<longleftrightarrow> ge_op e = [] \<or>
    (\<exists>a. admission_of g (ge_op e) = Some a \<and>
       (is_input (ge_payload e) \<longrightarrow> oa_kind a = RequestMessage \<and> er_entry (oa_admitted a) = ge_id e))"
  by (cases "find_operation g (ge_op e)") (auto simp: validate_owner_def admission_of_def res_simps)

lemma grows_owner:
  assumes "graph_grows g g' es" "validate_owner g e = Inr ()"
  shows "validate_owner g' e = Inr ()"
proof -
  have "\<And>i a. admission_of g i = Some a \<Longrightarrow> admission_of g' i = Some a" using assms(1) by (simp add: graph_grows_def)
  with assms(2) show ?thesis unfolding validate_owner_ok by blast
qed

lemma evidence_checkpoint_ok: "validate_evidence_checkpoint g what ev owner b = Inr () \<longleftrightarrow>
    ev_checkpoint ev = [] \<or>
    (\<exists>ck c. entry_by_id g (ev_checkpoint ev) = Some ck \<and> ge_payload ck = PCompaction c \<and> \<not> late owner ck \<and>
       (ge_id b = ge_id ck \<or> (\<exists>t. entry_by_id g (ck_boundary c) = Some t \<and> ge_seq t < ge_seq b)))"
proof (cases "ev_checkpoint ev = []")
  case False
  show ?thesis
  proof (cases "entry_by_id g (ev_checkpoint ev)")
    case (Some ck)
    show ?thesis
    proof (cases "the_compaction (ge_payload ck)")
      case None
      with Some False show ?thesis by (auto simp: validate_evidence_checkpoint_def)
    next
      case c: (Some c)
      show ?thesis
        using Some False c
        by (cases "entry_by_id g (ck_boundary c)") (auto simp: validate_evidence_checkpoint_def res_simps)
    qed
  qed (use False in \<open>simp add: validate_evidence_checkpoint_def\<close>)
qed (simp add: validate_evidence_checkpoint_def)

text \<open>The captured catalog against which the names of owned evidence are checked.\<close>

definition names_accepted :: "session_graph \<Rightarrow> request_evidence \<Rightarrow> string \<Rightarrow> bool" where
  "names_accepted g ev i \<longleftrightarrow> i = [] \<or>
     (case admission_of g i of None \<Rightarrow> True | Some a \<Rightarrow> validate_evidence_names ev (oa_execution a) = Inr ())"

lemma evidence_refs_ok: "validate_evidence_refs g what evo owner = Inr () \<longleftrightarrow>
    (\<exists>ev b. evo = Some ev \<and> names_accepted g ev (en_operation owner) \<and> ev_boundary ev \<noteq> [] \<and>
       entry_by_id g (ev_boundary ev) = Some b \<and> conversation_bearing b \<and> \<not> late owner b \<and>
       validate_evidence_checkpoint g what ev owner b = Inr ())"
proof (cases evo)
  case (Some ev)
  have names: "(case if en_operation owner = [] then None else find_operation g (en_operation owner) of
        None \<Rightarrow> Inr () | Some x \<Rightarrow> validate_evidence_names ev (oa_execution (or_admission x))) = Inr () \<longleftrightarrow>
      names_accepted g ev (en_operation owner)"
    by (auto simp: names_accepted_def admission_of_def split: option.splits)
  show ?thesis
    unfolding validate_evidence_refs_def Some option.case rbind_eq_Inr
    by (cases "entry_by_id g (ev_boundary ev)") (use names in \<open>auto\<close>)
qed (simp add: validate_evidence_refs_def)

lemma grows_evidence_checkpoint:
  assumes "graph_grows g g' es" "validate_evidence_checkpoint g what ev owner b = Inr ()"
  shows "validate_evidence_checkpoint g' what' ev owner b = Inr ()"
  using assms(2) grows_entry [OF assms(1)] unfolding evidence_checkpoint_ok by metis

lemma grows_names:
  assumes "graph_grows g g' es" "names_accepted g ev i" "i = [] \<or> admission_of g i \<noteq> None"
  shows "names_accepted g' ev i"
  using assms by (force simp: names_accepted_def graph_grows_def split: option.splits)

lemma grows_evidence_refs:
  assumes "graph_grows g g' es" "validate_evidence_refs g what evo owner = Inr ()"
    and "en_operation owner = [] \<or> admission_of g (en_operation owner) \<noteq> None"
  shows "validate_evidence_refs g' what' evo owner = Inr ()"
  using assms(2) grows_entry [OF assms(1)] grows_names [OF assms(1) _ assms(3)] grows_evidence_checkpoint [OF assms(1)]
  unfolding evidence_refs_ok by metis

text \<open>Evidence accepted for a running effect is accepted for the entry that settles it.\<close>

lemma evidence_refs_settled:
  assumes "graph_grows g g' es" "validate_evidence_refs g what (Some ev) no_owner = Inr ()" "e \<in> set es"
    and "names_accepted g' ev (ge_op e)"
  shows "validate_evidence_refs g' what' (Some ev) (ge_env e) = Inr ()"
proof -
  obtain b where b: "ev_boundary ev \<noteq> []" "entry_by_id g (ev_boundary ev) = Some b" "conversation_bearing b"
    "validate_evidence_checkpoint g what ev no_owner b = Inr ()"
    using assms(2) unfolding evidence_refs_ok by blast
  have early: "\<not> late (ge_env e) f" if "entry_by_id g i = Some f" for i f
    using growsD(5) [OF assms(1) conjunct1 [OF entry_by_id_in [OF that]] assms(3)] by (simp add: late_def)
  have "validate_evidence_checkpoint g' what' ev (ge_env e) b = Inr ()"
    using b(4) early grows_entry [OF assms(1)] unfolding evidence_checkpoint_ok by metis
  with b early [OF b(2)] grows_entry [OF assms(1) b(2)] assms(4) show ?thesis
    unfolding evidence_refs_ok by blast
qed

section \<open>The table of unsafe cuts\<close>

lemma cut_table_grows:
  assumes "graph_grows g g' es" "wf_calls (g_entries g')"
    and "b \<in> set (g_entries g)" "build_cut_safety (g_entries g) (ge_id b) = None"
  shows "build_cut_safety (g_entries g') (ge_id b) = None"
proof -
  note d = growsD [OF assms(1)]
  obtain i where i: "i < length (g_entries g)" "g_entries g ! i = b" using assms(3) by (auto simp: in_set_conv_nth)
  have wf: "wf_calls (g_entries g)" using assms(2) d(1) by (auto simp: wf_calls_def)
  have nth: "g_entries g' ! i = b" and upto: "calls_upto (g_entries g') i = calls_upto (g_entries g) i"
    and len: "i < length (g_entries g')"
    using i d(1) by (simp_all add: nth_append calls_upto_def)
  have safe: "\<forall>c \<in> set (calls_upto (g_entries g) i). \<not> straddles (entries_by_id (g_entries g)) (ge_seq b) c"
    using cut_pass_spec [OF cut_inv_start wf d(3) i(1), of "entries_by_id (g_entries g)" Map.empty] assms(4) i(2)
    by (simp add: build_cut_safety_def)
  have safe': "\<not> straddles (entries_by_id (g_entries g')) (ge_seq b) c" if c: "c \<in> set (calls_upto (g_entries g) i)" for c
  proof -
    obtain r where r: "entry_by_id g (tc_result_entry c) = Some r" "ge_seq r \<le> ge_seq b"
      using bspec [OF safe c] by (auto simp: straddles_def entry_by_id_def not_less split: option.splits)
    from grows_entry [OF assms(1) r(1)] r(2) show ?thesis by (simp add: straddles_def entry_by_id_def)
  qed
  note spec = cut_pass_spec [OF cut_inv_start assms(2) d(2) len, of "entries_by_id (g_entries g')" Map.empty]
  have "c \<in> set (calls_upto (g_entries g) i) \<Longrightarrow> straddles (entries_by_id (g_entries g')) (ge_seq b) c \<Longrightarrow> False" for c
    using safe' by blast
  with spec nth upto show ?thesis
    by (cases "build_cut_safety (g_entries g') (ge_id b)") (auto simp: build_cut_safety_def)
qed

end
