(* ===== verification/Session_Frame.thy ===== *)
theory Session_Frame
  imports Session_Grow
begin

text \<open>
  Settling steps: entries of one operation that publish no call and report no usage are appended, and its register is
  replaced. What the validator checks of everything else stays accepted, so a step is accepted when its own new
  entries and its own operation are.
\<close>

section \<open>Settling steps\<close>

definition settling_entry :: "string \<Rightarrow> graph_entry \<Rightarrow> bool" where
  "settling_entry opid e \<longleftrightarrow> ge_op e = opid \<and>
     (case ge_payload e of PToolResult _ \<Rightarrow> True | PHookResult _ \<Rightarrow> True | PSignal _ \<Rightarrow> True
      | PSettlement s \<Rightarrow> st_facts s = [] \<and> st_usage s = None | _ \<Rightarrow> False)"

lemma settling_facts:
  assumes "settling_entry opid e"
  shows "ge_op e = opid" "entry_calls e = []" "entry_usage e = []" "entry_facts e = []" "\<not> is_input (ge_payload e)"
  using assms by (auto simp: settling_entry_def entry_calls_def entry_usage_def entry_facts_def is_input_def split: payload.splits)

text \<open>The operation \<open>x\<close> becomes \<open>x'\<close> while \<open>es\<close> is appended; the Session keeps its identity and its checkpoint.\<close>

definition settling_step :: "session_graph \<Rightarrow> session_graph \<Rightarrow> graph_entry list \<Rightarrow> operation_record \<Rightarrow> operation_record \<Rightarrow> bool" where
  "settling_step g g' es x x' \<longleftrightarrow> graph_grows g g' es \<and> wf_calls (g_entries g') \<and>
     (\<forall>e \<in> set es. settling_entry (op_id x) e) \<and> op_id x \<noteq> [] \<and> distinct (map op_id (g_operations g)) \<and> x \<in> set (g_operations g) \<and>
     g_operations g' = map (\<lambda>y. if op_id y = op_id x then x' else y) (g_operations g) \<and>
     or_admission x' = or_admission x \<and>
     sr_identity (g_session g') = sr_identity (g_session g) \<and>
     ss_checkpoint (sr_state (g_session g')) = ss_checkpoint (sr_state (g_session g))"

lemma settling_stepD:
  assumes "settling_step g g' es x x'"
  shows "graph_grows g g' es" "wf_calls (g_entries g')" "\<And>e. e \<in> set es \<Longrightarrow> settling_entry (op_id x) e"
    "op_id x \<noteq> []" "x \<in> set (g_operations g)"
    "g_operations g' = map (\<lambda>y. if op_id y = op_id x then x' else y) (g_operations g)"
    "or_admission x' = or_admission x" "sr_identity (g_session g') = sr_identity (g_session g)"
    "ss_checkpoint (sr_state (g_session g')) = ss_checkpoint (sr_state (g_session g))"
    "g_entries g' = g_entries g @ es" "distinct (map op_id (g_operations g))"
  using assms growsD(1) by (simp_all add: settling_step_def)

lemma replace_operation_map:
  "distinct (map op_id xs) \<Longrightarrow> fst (replace_operation i x' xs) = map (\<lambda>y. if op_id y = i then x' else y) xs"
proof (induction xs)
  case (Cons y ys)
  have "map (\<lambda>y. if op_id y = i then x' else y) ys = ys" if "i \<notin> op_id ` set ys"
    using that by (intro map_idI) auto
  with Cons show ?case by (auto simp: case_prod_beta)
qed simp

lemma entries_of_grow:
  assumes "settling_step g g' es x x'"
  shows "entries_of g' i = entries_of g i @ (if i = op_id x then es else [])"
proof -
  have "filter (\<lambda>e. ge_op e = i) es = (if i = op_id x then es else [])"
    using settling_facts(1) [OF settling_stepD(3) [OF assms]] by (auto simp: filter_id_conv filter_empty_conv)
  then show ?thesis using settling_stepD(4,10) [OF assms] by (simp add: entries_of_def)
qed

lemma fold_result_append: "fold_result f s (xs @ ys) = rbind (fold_result f s xs) (\<lambda>s'. fold_result f s' ys)"
proof (induction xs arbitrary: s)
  case (Cons x xs)
  then show ?case by (cases "f s x") auto
qed simp

lemma fold_result_mono:
  assumes "\<And>s e s'. e \<in> set es \<Longrightarrow> f s e = Inr s' \<Longrightarrow> f' s e = Inr s'"
  shows "fold_result f s es = Inr s' \<Longrightarrow> fold_result f' s es = Inr s'"
  using assms by (induction es arbitrary: s) (auto simp: rbind_eq_Inr)

section \<open>Reservations, prefix and references\<close>

lemma settling_reservations:
  assumes "settling_step g g' es x x'"
  shows "collect_reservations g' = collect_reservations g"
proof -
  have "concat (map entry_reservations es) = []"
    using settling_facts(2) [OF settling_stepD(3) [OF assms]] by (auto simp: entry_reservations_def)
  then show ?thesis
    using settling_stepD(10) [OF assms] by (simp only: collect_reservations_def map_append concat_append append_Nil2)
qed

text \<open>A new entry under a reserved identity is the result the reservation announces.\<close>

definition reserved_result :: "string \<Rightarrow> reservation list \<Rightarrow> graph_entry \<Rightarrow> bool" where
  "reserved_result sid rs e \<longleftrightarrow> (\<forall>r \<in> set rs. rs_result r = ge_id e \<longrightarrow>
     rs_operation r = ge_op e \<and> en_kind (ge_env e) = KindToolResult \<and>
     (\<exists>t. ge_payload e = PToolResult t \<and> tr_call t = rs_call r \<and> er_entry (tr_assistant t) = rs_assistant r))"

lemma settling_reserved:
  assumes "settling_step g g' es x x'" "validate_reservations g rs = Inr ()" "\<And>e. e \<in> set es \<Longrightarrow> reserved_result sid rs e"
  shows "validate_reservations g' rs = Inr ()"
proof -
  have "validate_reservation g' r = Inr ()" if r: "r \<in> set rs" for r
  proof -
    have ok: "validate_reservation g r = Inr ()" using assms(2) r by (simp add: validate_reservations_def first_error_ok)
    show ?thesis
    proof (cases "entry_by_id g' (rs_result r)")
      case None
      then have "entry_by_id g (rs_result r) = None"
        using grows_entry [OF settling_stepD(1) [OF assms(1)]] by (cases "entry_by_id g (rs_result r)") auto
      with ok None show ?thesis by (simp add: validate_reservation_def)
    next
      case (Some e)
      from settling_stepD(1) [OF assms(1)] Some show ?thesis
      proof (cases rule: grows_entry_cases)
        case 1
        with ok Some show ?thesis by (simp add: validate_reservation_def)
      next
        case 2
        with assms(3) [OF 2(2)] r obtain t where "rs_operation r = ge_op e" "en_kind (ge_env e) = KindToolResult"
          "ge_payload e = PToolResult t" "tr_call t = rs_call r" "er_entry (tr_assistant t) = rs_assistant r"
          by (auto simp: reserved_result_def)
        with Some show ?thesis by (simp add: validate_reservation_def)
      qed
    qed
  qed
  then show ?thesis by (simp add: validate_reservations_def first_error_ok)
qed

lemma foldr_min_bound: "(\<And>x. x \<in> set xs \<Longrightarrow> b < x) \<Longrightarrow> b < c \<Longrightarrow> b < foldr min xs (c :: int)"
  by (induction xs) auto

lemma foldr_max_bound: "(\<And>x. x \<in> set xs \<Longrightarrow> x < b) \<Longrightarrow> c < b \<Longrightarrow> foldr max xs (c :: int) < b"
  by (induction xs) auto

lemma settling_prefix:
  assumes "settling_step g g' es x x'" "validate_fork_prefix g = Inr ()"
  shows "validate_fork_prefix g' = Inr ()"
proof -
  note step = settling_stepD [OF assms(1)]
  note es = settling_facts(1) [OF step(3)]
  have copied: "copied_entries g' = copied_entries g"
    using es step(4,10) by (auto simp: copied_entries_def filter_empty_conv)
  have owned: "owned_entries g' = owned_entries g @ es"
    using es step(4,10) by (auto simp: owned_entries_def filter_id_conv)
  have fork: "is_fork g' = is_fork g" using step(8) by (simp add: is_fork_def)
  show ?thesis
  proof (cases "is_fork g \<and> copied_entries g \<noteq> [] \<and> owned_entries g' \<noteq> []")
    case True
    define m where "m = foldr max (map ge_seq (copied_entries g)) (ge_seq (hd (copied_entries g)))"
    have old: "m < ge_seq f" if "f \<in> set (owned_entries g)" for f
    proof -
      have "m < foldr min (map ge_seq (owned_entries g)) (ge_seq (hd (owned_entries g)))"
        using assms(2) True that by (auto simp: validate_fork_prefix_def Let_def m_def split: if_splits)
      also have "\<dots> \<le> ge_seq f" using that by (intro foldr_min_le) simp
      finally show ?thesis .
    qed
    have new: "m < ge_seq f" if f: "f \<in> set es" for f
    proof -
      have "ge_seq e < ge_seq f" if "e \<in> set (copied_entries g)" for e
        using growsD(5) [OF step(1) _ f] that by (simp add: copied_entries_def)
      moreover have "hd (copied_entries g) \<in> set (copied_entries g)" using True by simp
      ultimately show ?thesis unfolding m_def by (intro foldr_max_bound) auto
    qed
    have "m < ge_seq f" if "f \<in> set (owned_entries g')" for f using that old new owned by auto
    moreover have "hd (owned_entries g') \<in> set (owned_entries g')" using True by simp
    ultimately have "m < foldr min (map ge_seq (owned_entries g')) (ge_seq (hd (owned_entries g')))"
      by (intro foldr_min_bound) auto
    with True copied fork show ?thesis by (simp add: validate_fork_prefix_def Let_def m_def)
  qed (use assms(2) copied fork in \<open>auto simp: validate_fork_prefix_def Let_def split: if_splits\<close>)
qed

lemma same_operation: "distinct (map op_id xs) \<Longrightarrow> x \<in> set xs \<Longrightarrow> y \<in> set xs \<Longrightarrow> op_id y = op_id x \<Longrightarrow> y = x"
  by (metis (no_types, lifting) distinct_map inj_on_def)

lemma settling_operations:
  assumes "settling_step g g' es x x'"
  shows "map op_id (g_operations g') = map op_id (g_operations g)"
    "x' \<in> set (g_operations g')" "op_id x' = op_id x"
    "\<And>y. y \<in> set (g_operations g') \<Longrightarrow> y = x' \<or> y \<in> set (g_operations g) \<and> op_id y \<noteq> op_id x"
  using settling_stepD(5-7) [OF assms] by auto

lemma settling_admission: "settling_step g g' es x x' \<Longrightarrow> admission_of g' i = admission_of g i"
proof -
  assume step: "settling_step g g' es x x'"
  have find: "map_option or_admission (find (\<lambda>y. op_id y = i) (map (\<lambda>y. if op_id y = op_id x then x' else y) ys)) =
        map_option or_admission (find (\<lambda>y. op_id y = i) ys)"
    if "\<forall>y \<in> set ys. op_id y = op_id x \<longrightarrow> y = x" for ys
    using that settling_stepD(7) [OF step] by (induction ys) auto
  have "\<forall>y \<in> set (g_operations g). op_id y = op_id x \<longrightarrow> y = x"
    using same_operation [OF settling_stepD(11,5) [OF step]] by blast
  from find [OF this] show ?thesis using settling_stepD(6) [OF step] by (simp add: admission_of_def find_operation_def)
qed

lemma settling_ownership:
  assumes step: "settling_step g g' es x x'" and ok: "validate_entry_ownership g = Inr ()"
  shows "validate_entry_ownership g' = Inr ()"
proof -
  have "validate_owner g' e = Inr ()" if "e \<in> set (g_entries g)" for e
    using ok that grows_owner [OF settling_stepD(1) [OF step]] by (simp add: validate_entry_ownership_def first_error_ok)
  moreover have "validate_owner g' e = Inr ()" if "e \<in> set es" for e
  proof -
    have "find_operation g (op_id x) = Some x"
      using find_operation_Some [OF settling_stepD(11) [OF step]] settling_stepD(5) [OF step] by simp
    then have "admission_of g' (op_id x) \<noteq> None" using settling_admission [OF step] by (simp add: admission_of_def)
    with settling_facts(1,5) [OF settling_stepD(3) [OF step that]] show ?thesis unfolding validate_owner_ok by auto
  qed
  ultimately show ?thesis
    using settling_stepD(10) [OF step] by (auto simp: validate_entry_ownership_def first_error_ok)
qed

text \<open>The references of an accepted entry stay accepted. Only signals of a new entry refer to anything.\<close>

lemma entry_reference_grows:
  assumes g: "graph_grows g g' es" and wf: "wf_calls (g_entries g')"
    and e: "e \<in> set (g_entries g)" and ok: "validate_reference sid g (build_cut_safety (g_entries g)) e = Inr ()"
  shows "validate_reference sid g' (build_cut_safety (g_entries g')) e = Inr ()"
proof (cases "ge_payload e")
  case (PToolResult t)
  show ?thesis
  proof (cases "ge_op e = []")
    case True
    with ok PToolResult have c: "validate_copied_result sid g e t = Inr ()" by (simp add: validate_reference_def)
    then obtain p where p: "entry_by_id g (er_entry (tr_assistant t)) = Some p" "er_session (tr_assistant t) = sid"
      by (auto simp: validate_copied_result_def Let_def split: option.splits if_splits)
    from c grows_entry [OF g p(1)] p have "validate_copied_result sid g' e t = Inr ()"
      by (simp add: validate_copied_result_def Let_def)
    with True PToolResult show ?thesis by (simp add: validate_reference_def)
  qed (use PToolResult in \<open>simp add: validate_reference_def\<close>)
next
  case (PSignal s)
  show ?thesis
  proof (cases "ge_op e = []")
    case False
    with ok PSignal have c: "validate_owned_signal sid g e s = Inr ()" by (simp add: validate_reference_def)
    then obtain r x where r: "sg_related_operation s = Some r" "opr_session r = sid" "find_operation g (opr_operation r) = Some x"
      by (cases "sg_related_operation s") (auto simp: validate_owned_signal_def res_simps)
    from grows_operation [OF g r(3)] obtain x' where "find_operation g' (opr_operation r) = Some x'" by blast
    with r have "validate_owned_signal sid g' e s = Inr ()" by (simp add: validate_owned_signal_def)
    with PSignal show ?thesis by (simp add: validate_reference_def)
  qed (use PSignal in \<open>simp add: validate_reference_def\<close>)
next
  case (PCompaction c)
  with ok have "validate_checkpoint_cut g (build_cut_safety (g_entries g)) e c = Inr ()" by (simp add: validate_reference_def)
  then obtain b where b: "entry_by_id g (ck_boundary c) = Some b" "\<not> ge_seq e \<le> ge_seq b"
    "build_cut_safety (g_entries g) (ck_boundary c) = None"
    and ev: "ge_op e = [] \<Longrightarrow> validate_evidence_refs g (ge_id e) (ck_evidence c) (ge_env e) = Inr ()"
    by (auto simp: validate_checkpoint_cut_def split: option.splits if_splits)
  have cut: "build_cut_safety (g_entries g') (ck_boundary c) = None"
    using cut_table_grows [OF g wf, of b] b entry_by_id_in [OF b(1)] by simp
  have "ge_op e = [] \<Longrightarrow> validate_evidence_refs g' (ge_id e) (ck_evidence c) (ge_env e) = Inr ()"
    using grows_evidence_refs [OF g ev] by simp
  with cut b(2) grows_entry [OF g b(1)] PCompaction show ?thesis
    by (simp add: validate_reference_def validate_checkpoint_cut_def)
next
  case (PAssistant a)
  show ?thesis
  proof (cases "ge_op e = []")
    case True
    with ok PAssistant have "validate_evidence_refs g (ge_id e) (as_evidence a) (ge_env e) = Inr ()"
      by (simp add: validate_reference_def)
    from grows_evidence_refs [OF g this] True PAssistant show ?thesis by (simp add: validate_reference_def)
  qed (use PAssistant in \<open>simp add: validate_reference_def\<close>)
qed (simp_all add: validate_reference_def)

lemma settling_references:
  assumes step: "settling_step g g' es x x'" and ok: "validate_entry_references sid g = Inr ()"
    and sig: "\<And>e s. e \<in> set es \<Longrightarrow> ge_payload e = PSignal s \<Longrightarrow>
        sg_related_operation s = Some \<lparr>opr_session = sid, opr_operation = op_id x\<rparr>"
  shows "validate_entry_references sid g' = Inr ()"
proof -
  have old: "validate_reference sid g' (build_cut_safety (g_entries g')) e = Inr ()" if "e \<in> set (g_entries g)" for e
    using entry_reference_grows [OF settling_stepD(1,2) [OF step] that] ok that
    by (simp add: validate_entry_references_def first_error_ok)
  have "find_operation g' (op_id x) = Some x'"
    using settling_operations [OF step] settling_stepD(11) [OF step] by (subst find_operation_Some) simp_all
  then have new: "validate_reference sid g' (build_cut_safety (g_entries g')) e = Inr ()" if "e \<in> set es" for e
    using settling_stepD(3) [OF step that] settling_stepD(4) [OF step] that sig [OF that]
    by (auto simp: settling_entry_def validate_reference_def validate_owned_signal_def split: payload.splits)
  from old new show ?thesis
    using settling_stepD(10) [OF step] by (auto simp: validate_entry_references_def first_error_ok)
qed

section \<open>Usage\<close>

lemma settling_usage:
  assumes step: "settling_step g g' es x x'" and ok: "validate_usage g = Inr ()"
    and same: "os_usage (or_state x') = os_usage (or_state x)"
      "ss_usage (sr_state (g_session g')) = ss_usage (sr_state (g_session g))"
  shows "validate_usage g' = Inr ()"
proof -
  have none: "fold_result record_entry_usage m es' = Inr m" if "\<forall>e \<in> set es'. entry_usage e = []" for m es'
    using that by (induction es') (simp_all add: record_entry_usage_def)
  have "\<forall>e \<in> set es. entry_usage e = []" using settling_facts(3) [OF settling_stepD(3) [OF step]] by blast
  note none = none [OF this]
  obtain m where m: "fold_result record_entry_usage \<lparr>session_counts = [], operation_counts = []\<rparr> (g_entries g) = Inr m"
    and ops: "\<forall>y \<in> set (g_operations g). usage_totals_equal (totals_of_counts (op_counts m (op_id y))) (os_usage (or_state y))"
    and ses: "usage_totals_equal (totals_of_counts (session_counts m)) (ss_usage (sr_state (g_session g)))"
    using ok by (auto simp: validate_usage_def rbind_eq_Inr first_error_ok ensure_eq_Inr)
  have "fold_result record_entry_usage \<lparr>session_counts = [], operation_counts = []\<rparr> (g_entries g') = Inr m"
    using m none settling_stepD(10) [OF step] by (simp add: fold_result_append)
  moreover have "\<forall>y \<in> set (g_operations g'). usage_totals_equal (totals_of_counts (op_counts m (op_id y))) (os_usage (or_state y))"
    using ops settling_operations(3,4) [OF step] settling_stepD(5) [OF step] same(1) by force
  ultimately show ?thesis using ses same(2)
    by (auto simp: validate_usage_def rbind_eq_Inr first_error_ok ensure_eq_Inr)
qed

end
