(* ===== verification/Session_Accounts.thy ===== *)
theory Session_Accounts
  imports Session_Frame
begin

text \<open>
  The accounting of operations across a settling step: the operations that own none of the new entries keep theirs, and
  the accounting of the stepping operation is the old one continued over the new entries.
\<close>

section \<open>Admission and publication\<close>

lemma admission_grows:
  assumes g: "graph_grows g g' es" and ok: "validate_admission sid g y = Inr ()" and same: "or_admission y' = or_admission y"
  shows "validate_admission sid g' y' = Inr ()"
proof (cases "oa_kind (or_admission y) = RequestCompact")
  case True
  with ok same show ?thesis by (simp add: validate_admission_def Let_def ensure_eq_Inr)
next
  case False
  with ok obtain e where e: "er_session (oa_admitted (or_admission y)) = sid"
    "entry_by_id g (er_entry (oa_admitted (or_admission y))) = Some e"
    "en_kind (ge_env e) = KindInput" "ge_op e = op_id y"
    by (auto simp: validate_admission_def Let_def rbind_eq_Inr ensure_eq_Inr split: option.splits if_splits)
  with False same grows_entry [OF g e(2)] show ?thesis by (simp add: validate_admission_def Let_def)
qed

lemma settling_published:
  assumes "settling_step g g' es x x'"
  shows "collect_published g' i = collect_published g i"
proof -
  have "concat (map entry_published es) = []"
    using settling_facts(2) [OF settling_stepD(3) [OF assms]] by (auto simp: entry_published_def)
  then have "concat (map entry_published (entries_of g' i)) = concat (map entry_published (entries_of g i))"
    by (simp only: entries_of_grow [OF assms] map_append concat_append if_distrib [of "map entry_published"]
        if_distrib [of concat]) simp
  then show ?thesis by (simp only: collect_published_def)
qed

text \<open>A published call is reserved under its operation.\<close>

lemma published_reserved:
  assumes "collect_reservations g = Inr rs" "collect_published g i = Inr ps" "p \<in> set ps"
  shows "\<lparr>rs_result = pb_result p, rs_call = pb_call p, rs_assistant = pb_assistant p, rs_operation = i\<rparr> \<in> set rs"
proof -
  from assms(2,3) obtain e where e: "e \<in> set (entries_of g i)" "p \<in> set (entry_published e)"
    using collect_published_ok by force
  then have "\<lparr>rs_result = pb_result p, rs_call = pb_call p, rs_assistant = pb_assistant p, rs_operation = i\<rparr> \<in>
      set (entry_reservations e)"
    by (auto simp: entry_published_in entry_reservations_def entries_of_in)
  moreover have "rs = concat (map entry_reservations (g_entries g))"
    using assms(1) unfolding collect_reservations_def by (auto dest: collect_reservations_from_ok)
  ultimately show ?thesis using e(1) by (auto simp: entries_of_in)
qed

lemma new_result_is_own:
  assumes step: "settling_step g g' es x x'" and res: "\<And>e. e \<in> set es \<Longrightarrow> reserved_result sid rs e"
    and rs: "collect_reservations g = Inr rs" and ps: "collect_published g i = Inr ps" "p \<in> set ps" "i \<noteq> op_id x"
  shows "entry_by_id g' (pb_result p) = entry_by_id g (pb_result p)"
proof (cases "entry_by_id g' (pb_result p)")
  case None
  then show ?thesis using grows_entry [OF settling_stepD(1) [OF step]] by (cases "entry_by_id g (pb_result p)") auto
next
  case (Some e)
  from settling_stepD(1) [OF step] Some show ?thesis
  proof (cases rule: grows_entry_cases)
    case 2
    with res [OF 2(2)] published_reserved [OF rs ps(1,2)] have "i = ge_op e" by (fastforce simp: reserved_result_def)
    with settling_facts(1) [OF settling_stepD(3) [OF step 2(2)]] ps(3) show ?thesis by simp
  qed (use Some in simp)
qed

section \<open>Hooks of calls\<close>

definition hook_after :: "hook_accounting \<Rightarrow> graph_entry \<Rightarrow> hook_result_entry \<Rightarrow> string \<Rightarrow> hook_accounting" where
  "hook_after acc e h c = \<lparr>settled_hooks = settled_hooks acc @
       [\<lparr>hx_extension = hr_extension h, hx_hook = hr_hook h, hx_call = c, hx_request = []\<rparr>],
     last_status = AList.update c (hr_status h) (last_status acc),
     successful = (if hr_status h = HookSucceeded then AList.update c (call_successes acc c @ [e]) (successful acc)
                   else successful acc)\<rparr>"

lemma check_call_hook_ok: "check_call_hook g ps acc e h = Inr acc' \<longleftrightarrow>
    (\<exists>p pub. published_by_call ps (hr_tool_call h) = Some p \<and> entry_by_id g (pb_assistant p) = Some pub \<and>
       ge_seq pub < ge_seq e \<and> before_result g e p \<and>
       list_all (after_result g e) (takeWhile (\<lambda>q. pb_call q \<noteq> pb_call p) ps) \<and>
       (case map_of (last_status acc) (pb_call p) of None \<Rightarrow> True | Some s \<Rightarrow> s = OtherHookStatus [] \<or> s = HookSucceeded) \<and>
       \<lparr>hx_extension = hr_extension h, hx_hook = hr_hook h, hx_call = pb_call p, hx_request = []\<rparr> \<notin> set (settled_hooks acc) \<and>
       acc' = hook_after acc e h (pb_call p))"
proof (cases "published_by_call ps (hr_tool_call h)")
  case (Some p)
  show ?thesis
  proof (cases "entry_by_id g (pb_assistant p)")
    case None
    with Some show ?thesis by (simp add: check_call_hook_def Let_def)
  next
    case pub: (Some pub)
    have *: "(case map_of (last_status acc) (pb_call p) of None \<Rightarrow> False | Some s \<Rightarrow> s \<noteq> OtherHookStatus [] \<and> s \<noteq> HookSucceeded)
        \<longleftrightarrow> \<not> (case map_of (last_status acc) (pb_call p) of None \<Rightarrow> True | Some s \<Rightarrow> s = OtherHookStatus [] \<or> s = HookSucceeded)"
      by (simp split: option.splits)
    show ?thesis
      unfolding check_call_hook_def Some option.case Let_def pub * hook_after_def
      by (auto simp: not_le pub Some)
  qed
qed (simp add: check_call_hook_def)

lemma after_result_grows: "graph_grows g g' es \<Longrightarrow> after_result g e p \<Longrightarrow> after_result g' e p"
  using grows_entry by (fastforce simp: after_result_def split: option.splits)

lemma before_result_grows:
  assumes "graph_grows g g' es" "e \<in> set (g_entries g)" "before_result g e p"
  shows "before_result g' e p"
proof (cases "entry_by_id g' (pb_result p)")
  case (Some r)
  from assms(1) Some show ?thesis
  proof (cases rule: grows_entry_cases)
    case 1
    with assms(3) Some show ?thesis by (simp add: before_result_def)
  next
    case 2
    with growsD(5) [OF assms(1,2)] Some show ?thesis by (simp add: before_result_def)
  qed
qed (simp add: before_result_def)

lemma check_hook_grows:
  assumes "graph_grows g g' es" "e \<in> set (g_entries g)" "check_hook g ps acc e = Inr acc'"
  shows "check_hook g' ps acc e = Inr acc'"
proof (cases "the_hook_result (ge_payload e)")
  case (Some h)
  show ?thesis
  proof (cases "hr_request h = []")
    case True
    with assms(3) Some have "check_call_hook g ps acc e h = Inr acc'" by (simp add: check_hook_def)
    then obtain p pub where p: "published_by_call ps (hr_tool_call h) = Some p" "entry_by_id g (pb_assistant p) = Some pub"
      "ge_seq pub < ge_seq e" "before_result g e p"
      and earlier: "list_all (after_result g e) (takeWhile (\<lambda>q. pb_call q \<noteq> pb_call p) ps)"
      and status: "case map_of (last_status acc) (pb_call p) of None \<Rightarrow> True | Some s \<Rightarrow> s = OtherHookStatus [] \<or> s = HookSucceeded"
      and fresh: "\<lparr>hx_extension = hr_extension h, hx_hook = hr_hook h, hx_call = pb_call p, hx_request = []\<rparr> \<notin> set (settled_hooks acc)"
      and acc': "acc' = hook_after acc e h (pb_call p)"
      unfolding check_call_hook_ok by blast
    have "list_all (after_result g' e) (takeWhile (\<lambda>q. pb_call q \<noteq> pb_call p) ps)"
      using earlier by (rule list.pred_mono_strong) (rule after_result_grows [OF assms(1)])
    with p status fresh acc' grows_entry [OF assms(1) p(2)] before_result_grows [OF assms(1,2) p(4)]
    have "check_call_hook g' ps acc e h = Inr acc'" unfolding check_call_hook_ok by blast
    with True Some show ?thesis by (simp add: check_hook_def)
  qed (use Some assms(3) in \<open>simp add: check_hook_def\<close>)
qed (use assms(3) in \<open>simp add: check_hook_def\<close>)

lemma entries_of_set: "set (entries_of g i) \<subseteq> set (g_entries g)"
  by (auto simp: entries_of_def)

lemma hook_fold_grows:
  assumes "graph_grows g g' es" "fold_result (check_hook g ps) acc (entries_of g i) = Inr acc'"
  shows "fold_result (check_hook g' ps) acc (entries_of g i) = Inr acc'"
  by (rule fold_result_mono [OF _ assms(2)]) (use check_hook_grows [OF assms(1)] entries_of_set in blast)

lemma hook_fold_quiet:
  "\<forall>e \<in> set es. the_hook_result (ge_payload e) = None \<Longrightarrow> fold_result (check_hook g ps) acc es = Inr acc"
  by (induction es) (simp_all add: check_hook_def)

lemma collect_hook_results_ok: "collect_hook_results g i ps = Inr acc \<longleftrightarrow>
    fold_result (check_hook g ps) \<lparr>settled_hooks = [], last_status = [], successful = []\<rparr> (entries_of g i) = Inr acc \<and>
    (\<forall>e \<in> set (entries_of g i). check_result_selection acc e = Inr ()) \<and>
    (\<forall>cs \<in> set (last_status acc). check_hook_consequence g ps cs = Inr ())"
  unfolding collect_hook_results_def rbind_eq_Inr first_error_ok by auto

lemma check_consequence_ok: "check_hook_consequence g ps (c, s) = Inr () \<longleftrightarrow> s = HookSucceeded \<or>
    (\<exists>p. published_by_call ps c = Some p \<and>
       (\<forall>r t. entry_by_id g (pb_result p) = Some r \<longrightarrow> ge_payload r = PToolResult t \<longrightarrow>
          (s = HookInterrupted \<longrightarrow> tr_status t = ResultInterrupted) \<and>
          (s = HookFailed \<longrightarrow> tr_status t = ResultError \<or> tr_status t = ResultInterrupted)))"
proof (cases "published_by_call ps c")
  case (Some p)
  show ?thesis
  proof (cases "entry_by_id g (pb_result p)")
    case r: (Some r)
    show ?thesis
      by (cases "the_tool_result (ge_payload r)") (use Some r in \<open>auto simp: check_hook_consequence_def ensure_eq_Inr\<close>)
  qed (use Some in \<open>simp add: check_hook_consequence_def\<close>)
qed (simp add: check_hook_consequence_def)

section \<open>Requests\<close>

lemma request_results_grow:
  assumes "settling_step g g' es x x'"
  shows "request_results g' i rid = request_results g i rid @ (if i = op_id x
     then filter (\<lambda>e. case the_hook_result (ge_payload e) of None \<Rightarrow> False | Some h \<Rightarrow> hr_request h \<noteq> [] \<and> hr_request h = rid) es
     else [])"
  by (simp add: request_results_def entries_of_grow [OF assms])

lemma index_where_append:
  "index_where p (xs @ ys) = (case index_where p xs of Some i \<Rightarrow> Some i | None \<Rightarrow> map_option (\<lambda>i. length xs + i) (index_where p ys))"
  by (induction xs; cases "index_where p ys") (auto split: option.splits)

text \<open>Results that all come after the consumer, and that it does not name, change nothing for it.\<close>

lemma hook_order_late:
  assumes "\<forall>r \<in> set new. late owner r" "\<forall>h \<in> set hs. \<forall>r \<in> set new. \<not> hook_named h r"
  shows "validate_hook_order hs (rs @ new) owner = Inr () \<longleftrightarrow> validate_hook_order hs rs owner = Inr ()"
proof -
  have limit: "hook_limit (rs @ new) owner = hook_limit rs owner"
  proof (cases new)
    case (Cons r rs')
    then have "index_where (late owner) new = Some 0" using assms(1) by simp
    then show ?thesis by (simp add: hook_limit_def index_where_append split: option.splits)
  qed simp
  have "index_where (hook_named h) (rs @ new) = index_where (hook_named h) rs" if "h \<in> set hs" for h
  proof -
    have "index_where (hook_named h) new = None" using assms(2) that by (simp add: index_where_None)
    then show ?thesis by (simp add: index_where_append split: option.splits)
  qed
  then have "hook_order_from (rs @ new) lim nxt hs = Inr n \<longleftrightarrow> hook_order_from rs lim nxt hs = Inr n" for lim nxt n
  proof (induction hs arbitrary: nxt)
    case (Cons h hs)
    from Cons.prems have h: "index_where (hook_named h) (rs @ new) = index_where (hook_named h) rs" by simp
    have ih: "hook_order_from (rs @ new) lim k hs = Inr n \<longleftrightarrow> hook_order_from rs lim k hs = Inr n" for k
      using Cons by simp
    show ?case by (simp add: h ih split: option.splits)
  qed simp
  then show ?thesis by (auto simp: validate_hook_order_def rbind_eq_Inr ensure_eq_Inr limit)
qed

text \<open>The request whose hooks the evidence of an entry must name, with that evidence.\<close>

definition request_evidence_of :: "graph_entry \<Rightarrow> (string \<times> request_evidence) option" where
  "request_evidence_of e =
     (case ge_payload e of
        PHookResult h \<Rightarrow> map_option (\<lambda>ev. (hr_request h, ev)) (hr_input_evidence h)
      | PAssistant a \<Rightarrow> map_option (\<lambda>ev. (as_request a, ev)) (as_evidence a)
      | PSettlement st \<Rightarrow> map_option (\<lambda>ev. (if st_compaction_usage st \<and> st_consumed_request st \<noteq> []
          then st_consumed_request st else st_request st, ev)) (st_evidence st)
      | PCompaction c \<Rightarrow> map_option (\<lambda>ev. (if ck_consumed_request c \<noteq> [] then ck_consumed_request c
          else (case ck_facts c of [] \<Rightarrow> [] | f # _ \<Rightarrow> mf_request f), ev)) (ck_evidence c)
      | _ \<Rightarrow> None)"

definition request_hook_of :: "string \<Rightarrow> graph_entry \<Rightarrow> bool" where
  "request_hook_of rid e \<longleftrightarrow>
     (case the_hook_result (ge_payload e) of None \<Rightarrow> False | Some h \<Rightarrow> hr_request h \<noteq> [] \<and> hr_request h = rid)"

text \<open>No new hook result of a request is named by evidence that was recorded before.\<close>

definition unannounced :: "graph_entry list \<Rightarrow> graph_entry list \<Rightarrow> bool" where
  "unannounced old es \<longleftrightarrow> (\<forall>e \<in> set old. \<forall>n \<in> set es. case request_evidence_of e of
     None \<Rightarrow> True | Some (rid, ev) \<Rightarrow> request_hook_of rid n \<longrightarrow> (\<forall>h \<in> set (ev_hooks ev). \<not> hook_named h n))"

lemma unannouncedD: "unannounced old es \<Longrightarrow> e \<in> set old \<Longrightarrow> request_evidence_of e = Some (rid, ev) \<Longrightarrow> n \<in> set es \<Longrightarrow>
    request_hook_of rid n \<Longrightarrow> h \<in> set (ev_hooks ev) \<Longrightarrow> \<not> hook_named h n"
  by (force simp: unannounced_def split: option.splits)

lemma old_hook_order:
  assumes step: "settling_step g g' es x x'" and e: "e \<in> set (entries_of g i)" "0 < ge_seq e"
    and un: "unannounced (entries_of g (op_id x)) es" and ev: "request_evidence_of e = Some (rid, ev)"
    and ok: "validate_hook_order (ev_hooks ev) (request_results g i rid) (ge_env e) = Inr ()"
  shows "validate_hook_order (ev_hooks ev) (request_results g' i rid) (ge_env e) = Inr ()"
proof (cases "i = op_id x")
  case True
  define new where "new = filter (request_hook_of rid) es"
  have "\<forall>r \<in> set new. late (ge_env e) r"
    using growsD(5) [OF settling_stepD(1) [OF step]] e by (force simp: new_def late_def entries_of_in)
  moreover have "\<forall>h \<in> set (ev_hooks ev). \<forall>r \<in> set new. \<not> hook_named h r"
    using unannouncedD [OF un _ ev] e True by (auto simp: new_def)
  ultimately have "validate_hook_order (ev_hooks ev) (request_results g i rid @ new) (ge_env e) = Inr ()"
    using hook_order_late ok by blast
  moreover have "request_results g' i rid = request_results g i rid @ new"
    using request_results_grow [OF step, of i rid] True by (simp add: new_def request_hook_of_def [abs_def])
  ultimately show ?thesis by simp
next
  case False
  with request_results_grow [OF step, of i rid] ok show ?thesis by simp
qed

lemma check_request_entry_grows:
  assumes step: "settling_step g g' es x x'" and e: "e \<in> set (entries_of g i)" "0 < ge_seq e" "admission_of g i \<noteq> None"
    and un: "unannounced (entries_of g (op_id x)) es"
    and ok: "check_request_entry g i auto s e = Inr s'"
  shows "check_request_entry g' i auto s e = Inr s'"
proof -
  note order = old_hook_order [OF step e(1,2) un]
  have "en_operation (ge_env e) = i" using e(1) by (simp add: entries_of_in)
  then have refs: "validate_evidence_refs g (ge_id e) evo (ge_env e) = Inr () \<Longrightarrow>
      validate_evidence_refs g' (ge_id e) evo (ge_env e) = Inr ()" for evo
    using grows_evidence_refs [OF settling_stepD(1) [OF step]] e(3) by simp
  show ?thesis
  proof (cases "ge_payload e")
    case (PHookResult h)
    show ?thesis
    proof (cases "hr_request h = []")
      case False
      with ok PHookResult have c: "check_request_hook g i s e h = Inr s'" by (simp add: check_request_entry_def)
      then obtain ev where ev: "hr_input_evidence h = Some ev"
        "validate_evidence_refs g (ge_id e) (Some ev) (ge_env e) = Inr ()"
        "validate_hook_order (ev_hooks ev) (request_results g i (hr_request h)) (ge_env e) = Inr ()"
        by (cases "hr_input_evidence h") (auto simp: check_request_hook_def Let_def rbind_eq_Inr split: if_splits)
      have "validate_hook_order (ev_hooks ev) (request_results g' i (hr_request h)) (ge_env e) = Inr ()"
        using order [OF _ ev(3)] PHookResult ev(1) by (simp add: request_evidence_of_def)
      with c ev refs [OF ev(2)] have "check_request_hook g' i s e h = Inr s'"
        by (simp add: check_request_hook_def Let_def split: if_splits)
      with False PHookResult show ?thesis by (simp add: check_request_entry_def)
    qed (use ok PHookResult in \<open>simp add: check_request_entry_def\<close>)
  next
    case (PAssistant a)
    with ok have c: "check_assistant_request g i s e a = Inr s'" by (simp add: check_request_entry_def)
    then obtain ev where ev: "as_evidence a = Some ev"
      "validate_evidence_refs g (ge_id e) (Some ev) (ge_env e) = Inr ()"
      "validate_hook_order (ev_hooks ev) (request_results g i (as_request a)) (ge_env e) = Inr ()"
      by (cases "as_evidence a") (auto simp: check_assistant_request_def Let_def rbind_eq_Inr split: if_splits)
    have "validate_hook_order (ev_hooks ev) (request_results g' i (as_request a)) (ge_env e) = Inr ()"
      using order [OF _ ev(3)] PAssistant ev(1) by (simp add: request_evidence_of_def)
    with c ev refs [OF ev(2)] have "check_assistant_request g' i s e a = Inr s'"
      by (simp add: check_assistant_request_def Let_def split: if_splits)
    with PAssistant show ?thesis by (simp add: check_request_entry_def)
  next
    case (PSettlement st)
    with ok have c: "check_settlement_request g i auto e st = Inr ()" and s': "s' = s"
      by (auto simp: check_request_entry_def rbind_eq_Inr)
    have "check_settlement_request g' i auto e st = Inr ()"
    proof (cases "st_evidence st")
      case (Some ev)
      define rid where "rid = (if st_compaction_usage st \<and> st_consumed_request st \<noteq> [] then st_consumed_request st else st_request st)"
      have ev: "validate_evidence_refs g (ge_id e) (Some ev) (ge_env e) = Inr ()"
        "\<not> (st_compaction_usage st \<and> auto \<and> st_consumed_request st = [])"
        "validate_hook_order (ev_hooks ev) (request_results g i rid) (ge_env e) = Inr ()"
        using c Some by (auto simp: check_settlement_request_def rbind_eq_Inr rid_def Let_def split: if_splits)
      have "validate_hook_order (ev_hooks ev) (request_results g' i rid) (ge_env e) = Inr ()"
        by (rule order [OF _ ev(3)]) (simp add: PSettlement Some request_evidence_of_def rid_def)
      with refs [OF ev(1)] ev(2) Some show ?thesis
        by (simp add: check_settlement_request_def rid_def [symmetric] Let_def)
    qed (simp add: check_settlement_request_def)
    with PSettlement s' show ?thesis by (simp add: check_request_entry_def)
  next
    case (PCompaction c)
    with ok have k: "check_compaction_request g i auto e c = Inr ()" and s': "s' = s"
      by (auto simp: check_request_entry_def rbind_eq_Inr)
    define rid where "rid = (if ck_consumed_request c \<noteq> [] then ck_consumed_request c
        else (case ck_facts c of [] \<Rightarrow> [] | f # _ \<Rightarrow> mf_request f))"
    obtain ev where ev: "ck_evidence c = Some ev" "validate_evidence_refs g (ge_id e) (Some ev) (ge_env e) = Inr ()"
      "\<not> (ck_consumed_request c = [] \<and> auto)"
      "validate_hook_order (ev_hooks ev) (request_results g i rid) (ge_env e) = Inr ()"
      using k by (cases "ck_evidence c") (auto simp: check_compaction_request_def rbind_eq_Inr rid_def Let_def split: if_splits)
    have "validate_hook_order (ev_hooks ev) (request_results g' i rid) (ge_env e) = Inr ()"
      by (rule order [OF _ ev(4)]) (simp add: PCompaction ev(1) request_evidence_of_def rid_def)
    with refs [OF ev(2)] ev have "check_compaction_request g' i auto e c = Inr ()"
      by (auto simp: check_compaction_request_def rid_def [symmetric] Let_def)
    with PCompaction s' show ?thesis by (simp add: check_request_entry_def)
  qed (use ok in \<open>simp_all add: check_request_entry_def\<close>)
qed

definition request_start :: request_state where
  "request_start = \<lparr>failed_requests = [], answered = []\<rparr>"

lemma request_fold_grows:
  assumes step: "settling_step g g' es x x'" and pos: "\<forall>e \<in> set (g_entries g). 0 < ge_seq e" and adm: "admission_of g i \<noteq> None"
    and un: "unannounced (entries_of g (op_id x)) es"
  shows "fold_result (check_request_entry g i auto) s (entries_of g i) = Inr s' \<Longrightarrow>
    fold_result (check_request_entry g' i auto) s (entries_of g i) = Inr s'"
proof (erule fold_result_mono [rotated])
  fix t e t' assume e: "e \<in> set (entries_of g i)" and ok: "check_request_entry g i auto t e = Inr t'"
  have "0 < ge_seq e" using e pos entries_of_set by blast
  then show "check_request_entry g' i auto t e = Inr t'" by (rule check_request_entry_grows [OF step e _ adm un ok])
qed

lemma collect_request_domain_ok: "collect_request_domain sid g x = Inr () \<longleftrightarrow>
    (\<exists>s. fold_result (check_request_entry g (op_id x) (oa_kind (or_admission x) = RequestMessage)) request_start
           (entries_of g (op_id x)) = Inr s \<and>
       producers_once (op_id x) [] (map mf_request (concat (map entry_facts (entries_of g (op_id x))))) = Inr () \<and>
       check_effect_request g x s = Inr () \<and> validate_running_request sid g x = Inr ())"
  unfolding collect_request_domain_def rbind_eq_Inr request_start_def by auto

section \<open>The other operations\<close>

lemma effect_request_grows:
  assumes step: "settling_step g g' es x x'" and other: "op_id y \<noteq> op_id x" and ok: "check_effect_request g y s = Inr ()"
  shows "check_effect_request g' y s = Inr ()"
proof (cases "os_effect (or_state y)")
  case (Some ef)
  have "request_results g' (op_id y) rid = request_results g (op_id y) rid" for rid
    using request_results_grow [OF step, of "op_id y" rid] other by simp
  moreover have "validate_evidence_refs g (op_id y) evo no_owner = Inr () \<Longrightarrow>
      validate_evidence_refs g' (op_id y) evo no_owner = Inr ()" for evo
    using grows_evidence_refs [OF settling_stepD(1) [OF step]] by (simp add: no_owner_def)
  ultimately show ?thesis
    using ok Some
    by (cases "ae_evidence ef") (auto simp: check_effect_request_def Let_def rbind_eq_Inr split: if_splits)
qed (simp add: check_effect_request_def)

lemma running_request_grows:
  assumes step: "settling_step g g' es x x'" and ok: "validate_running_request sid g y = Inr ()"
    and same: "os_request (or_state y') = os_request (or_state y)" "op_id y' = op_id y"
    and quiet: "op_id y \<noteq> op_id x \<or> (\<forall>e \<in> set es. the_hook_result (ge_payload e) = None)"
  shows "validate_running_request sid g' y' = Inr ()"
proof (cases "os_request (or_state y)")
  case (Some rr)
  have "request_results g' (op_id y) rid = request_results g (op_id y) rid" for rid
    using request_results_grow [OF step, of "op_id y" rid] quiet by (auto simp: filter_empty_conv)
  moreover have "validate_evidence_refs g (op_id y) evo no_owner = Inr () \<Longrightarrow>
      validate_evidence_refs g' (op_id y) evo no_owner = Inr ()" for evo
    using grows_evidence_refs [OF settling_stepD(1) [OF step]] by (simp add: no_owner_def)
  ultimately show ?thesis
    using ok Some same settling_stepD(9) [OF step]
    by (auto simp: validate_running_request_def Let_def rbind_eq_Inr ensure_eq_Inr)
qed (use same in \<open>simp add: validate_running_request_def\<close>)

lemma settling_other:
  assumes step: "settling_step g g' es x x'" and pos: "\<forall>e \<in> set (g_entries g). 0 < ge_seq e"
    and un: "unannounced (entries_of g (op_id x)) es" and res: "\<And>e. e \<in> set es \<Longrightarrow> reserved_result sid rs e"
    and rs: "collect_reservations g = Inr rs"
    and y: "y \<in> set (g_operations g)" "op_id y \<noteq> op_id x" "\<not> is_running y" "validate_operation sid g rs y = Inr ()"
  shows "validate_operation sid g' rs y = Inr ()"
proof -
  note g = settling_stepD(1) [OF step]
  obtain ps acc where p: "validate_admission sid g y = Inr ()" "collect_published g (op_id y) = Inr ps"
    "collect_tool_results sid g (op_id y) ps = Inr ()" "collect_hook_results g (op_id y) ps = Inr acc"
    "validate_terminal sid g y ps = Inr ()" "collect_request_domain sid g y = Inr ()"
    using validate_operation_parts [OF y(4)] y(3) by metis
  have own: "entries_of g' (op_id y) = entries_of g (op_id y)" using entries_of_grow [OF step, of "op_id y"] y(2) by simp
  have adm: "admission_of g (op_id y) \<noteq> None"
    using find_operation_Some [OF settling_stepD(11) [OF step], of "op_id y" y] y(1) by (simp add: admission_of_def)
  have tools: "collect_tool_results sid g' (op_id y) ps = Inr ()" using p(3) by (simp add: collect_tool_results_def own)
  have hooks: "collect_hook_results g' (op_id y) ps = Inr acc"
  proof -
    have old: "fold_result (check_hook g ps) \<lparr>settled_hooks = [], last_status = [], successful = []\<rparr> (entries_of g (op_id y)) = Inr acc"
      "\<forall>e \<in> set (entries_of g (op_id y)). check_result_selection acc e = Inr ()"
      "\<forall>cs \<in> set (last_status acc). check_hook_consequence g ps cs = Inr ()"
      using p(4) unfolding collect_hook_results_ok by blast+
    have "check_hook_consequence g' ps cs = Inr ()" if "cs \<in> set (last_status acc)" for cs
    proof -
      obtain c s where cs: "cs = (c, s)" by fastforce
      have ok: "check_hook_consequence g ps (c, s) = Inr ()" using old(3) that cs by blast
      have same: "entry_by_id g' (pb_result q) = entry_by_id g (pb_result q)" if "published_by_call ps c = Some q" for q
        using new_result_is_own [OF step res rs p(2) _ y(2)] that published_by_call_ok collect_published_ok [OF p(2)] by blast
      show ?thesis using ok same unfolding cs check_consequence_ok by metis
    qed
    with old(1,2) hook_fold_grows [OF g] show ?thesis unfolding collect_hook_results_ok own by blast
  qed
  have terminal: "validate_terminal sid g' y ps = Inr ()"
  proof -
    have "check_settlement sid g' y t = Inr ()" if t: "check_settlement sid g y t = Inr ()" for t
    proof -
      obtain e where "er_session (ot_settlement t) = sid" "entry_by_id g (er_entry (ot_settlement t)) = Some e"
        using t by (auto simp: check_settlement_def split: option.splits if_splits)
      with t grows_entry [OF g] show ?thesis by (simp add: check_settlement_def)
    qed
    moreover have "check_resolved g' (op_id y) = check_resolved g (op_id y)" "settlements_of g' (op_id y) = settlements_of g (op_id y)"
      by (simp_all add: check_resolved_def result_count_def settlements_of_def own fun_eq_iff)
    ultimately show ?thesis
      using p(5) by (cases "os_terminal (or_state y)") (simp_all add: validate_terminal_def rbind_eq_Inr)
  qed
  have requests: "collect_request_domain sid g' y = Inr ()"
    using p(6) request_fold_grows [OF step pos adm un] effect_request_grows [OF step y(2)]
      running_request_grows [OF step _ refl refl disjI1 [OF y(2)]]
    unfolding collect_request_domain_ok own by blast
  show ?thesis
    using admission_grows [OF g p(1) refl] settling_published [OF step] p(2) tools hooks terminal requests y(3)
    by (simp add: validate_operation_def)
qed

end
