(* ===== verification/Session_Settle.thy ===== *)
theory Session_Settle
  imports Session_Accounts
begin

text \<open>
  Settling steps are accepted when their own operation is; the entries a transaction appends; the accounting of the
  operation that a terminal settlement closes. The settlement of an interrupted operation, and with it recovery,
  leaves an accepted graph in which nothing runs.
\<close>

section \<open>Accepted steps\<close>

lemma settling_step_accepted:
  assumes ok: "validate_graph sid g = Inr ()" and rs: "collect_reservations g = Inr rs"
    and step: "settling_step g g' es x x'" and pos: "\<forall>e \<in> set (g_entries g). 0 < ge_seq e" and run: "is_running x"
    and un: "unannounced (entries_of g (op_id x)) es" and res: "\<And>e. e \<in> set es \<Longrightarrow> reserved_result sid rs e"
    and sig: "\<And>e s. e \<in> set es \<Longrightarrow> ge_payload e = PSignal s \<Longrightarrow>
        sg_related_operation s = Some \<lparr>opr_session = sid, opr_operation = op_id x\<rparr>"
    and st: "validate_session_state g' = Inr ()"
    and same: "os_usage (or_state x') = os_usage (or_state x)"
      "ss_usage (sr_state (g_session g')) = ss_usage (sr_state (g_session g))"
    and own: "validate_operation sid g' rs x' = Inr ()"
  shows "validate_graph sid g' = Inr ()"
proof -
  obtain rs' where p: "distinct (map op_id (g_operations g))" "validate_entry_ownership g = Inr ()"
    "collect_reservations g = Inr rs'" "validate_reservations g rs' = Inr ()"
    "validate_fork_prefix g = Inr ()" "validate_entry_references sid g = Inr ()"
    "\<forall>y \<in> set (g_operations g). validate_operation sid g rs' y = Inr ()" "validate_usage g = Inr ()"
    using validate_graph_parts [OF ok] by metis
  have [simp]: "rs' = rs" using p(3) rs by simp
  note ops = settling_operations [OF step]
  have dist: "distinct (map op_id (g_operations g'))" "duplicate_free [] (map ge_id (g_entries g')) = Inr ()"
    using p(1) ops(1) growsD(2) [OF settling_stepD(1) [OF step]] by (simp_all add: duplicate_free_ok)
  have other: "\<not> is_running y" if "y \<in> set (g_operations g)" "op_id y \<noteq> op_id x" for y
  proof
    assume "is_running y"
    with running_operation_is_current [OF ok] that(1) run settling_stepD(5) [OF step] have "op_id y = op_id x" by metis
    with that(2) show False by simp
  qed
  have "validate_operation sid g' rs y = Inr ()" if y: "y \<in> set (g_operations g')" for y
  proof (cases "y = x'")
    case False
    with ops(4) [OF y] have "y \<in> set (g_operations g)" "op_id y \<noteq> op_id x" by blast+
    with settling_other [OF step pos un res rs] other p(7) show ?thesis by simp
  qed (simp add: own)
  then have all: "first_error (validate_operation sid g' rs) (g_operations g') = Inr ()" by (simp add: first_error_ok)
  have reserved: "validate_reservations g' rs = Inr ()" using settling_reserved [OF step _ res] p(4) by simp
  show ?thesis
    unfolding validate_graph_def rbind_eq_Inr ensure_eq_Inr
    using dist st settling_ownership [OF step p(2)] settling_reservations [OF step] rs reserved
      settling_prefix [OF step p(5)] settling_references [OF step p(6) sig] all settling_usage [OF step p(8) same]
    by simp
qed

section \<open>What a transaction appends\<close>

definition ascending_after :: "graph_entry list \<Rightarrow> graph_entry list \<Rightarrow> bool" where
  "ascending_after old es \<longleftrightarrow> sorted_wrt (<) (map ge_seq es) \<and> (\<forall>n \<in> set es. 0 < ge_seq n \<and> (\<forall>e \<in> set old. ge_seq e < ge_seq n))"

text \<open>The transaction has appended \<open>es\<close>, of the operation \<open>opid\<close>, and drawn some of its fresh identities.\<close>

definition appends :: "string \<Rightarrow> tx \<Rightarrow> graph_entry list \<Rightarrow> tx \<Rightarrow> bool" where
  "appends opid t es t' \<longleftrightarrow>
     tx_graph t' = (tx_graph t)\<lparr>g_entries := g_entries (tx_graph t) @ es\<rparr> \<and>
     set (tx_fresh t') \<subseteq> set (tx_fresh t) \<and>
     distinct (map ge_id es) \<and> ge_id ` set es \<inter> ge_id ` set (g_entries (tx_graph t)) = {} \<and>
     ascending_after (g_entries (tx_graph t)) es \<and>
     (\<forall>e \<in> set es. ge_op e = opid \<and> en_kind (ge_env e) = payload_kind (ge_payload e))"

lemma appendsD:
  assumes "appends opid t es t'"
  shows "tx_graph t' = (tx_graph t)\<lparr>g_entries := g_entries (tx_graph t) @ es\<rparr>" "set (tx_fresh t') \<subseteq> set (tx_fresh t)"
    "distinct (map ge_id es)" "ascending_after (g_entries (tx_graph t)) es"
    "\<And>e. e \<in> set es \<Longrightarrow> ge_op e = opid" "\<And>e. e \<in> set es \<Longrightarrow> en_kind (ge_env e) = payload_kind (ge_payload e)"
    "\<And>e. e \<in> set es \<Longrightarrow> ge_id e \<notin> ge_id ` set (g_entries (tx_graph t))" "session_id (tx_graph t') = session_id (tx_graph t)"
  using assms by (auto simp: appends_def session_id_def)

lemma appends_refl: "appends opid t [] t"
  by (simp add: appends_def ascending_after_def)

lemma ascending_after_append:
  "ascending_after old es \<Longrightarrow> ascending_after (old @ es) fs \<Longrightarrow> ascending_after old (es @ fs)"
  by (auto simp: ascending_after_def sorted_wrt_append)

lemma appends_trans:
  assumes "appends opid t es t1" "appends opid t1 fs t2"
  shows "appends opid t (es @ fs) t2"
proof -
  have fs: "ge_id ` set fs \<inter> (ge_id ` set (g_entries (tx_graph t)) \<union> ge_id ` set es) = {}"
    "ascending_after (g_entries (tx_graph t) @ es) fs"
    using assms by (simp_all add: appends_def image_Un)
  have "ge_id ` set es \<inter> ge_id ` set fs = {}" using fs(1) by blast
  with assms fs ascending_after_append show ?thesis by (auto simp: appends_def image_Un)
qed

lemma highest_sequence_ge: "e \<in> set es \<Longrightarrow> ge_seq e \<le> highest_sequence es" "0 \<le> highest_sequence es"
  unfolding highest_sequence_def by (induction es) (auto simp: le_max_iff_disj)

lemma insert_appends:
  assumes "insert_and_adopt env i opid p t = Inr (e, t')"
  shows "appends opid t [e] t'" "ge_id e = i" "ge_payload e = p" "tx_fresh t' = tx_fresh t"
proof -
  define q where "q = highest_sequence (g_entries (tx_graph t))"
  have e: "i \<notin> ge_id ` set (g_entries (tx_graph t))"
    "e = \<lparr>ge_env = \<lparr>en_session = session_id (tx_graph t), en_id = i, en_sequence = q + 1, en_operation = opid,
            en_kind = payload_kind p, en_committed_at = te_now env (q + 1)\<rparr>, ge_payload = p\<rparr>"
    "t' = t\<lparr>tx_graph := (tx_graph t)\<lparr>g_entries := g_entries (tx_graph t) @ [e]\<rparr>\<rparr>"
    using assms by (auto simp: insert_and_adopt_def Let_def q_def split: if_splits)
  have "ge_seq f < q + 1" if "f \<in> set (g_entries (tx_graph t))" for f
    using highest_sequence_ge(1) [OF that] by (simp add: q_def)
  moreover have "0 < q + 1" using highest_sequence_ge(2) [of "g_entries (tx_graph t)"] by (simp add: q_def)
  moreover have f: "ge_id e = i" "ge_seq e = q + 1" "ge_op e = opid" "en_kind (ge_env e) = payload_kind p" "ge_payload e = p"
    unfolding e(2) by simp_all
  ultimately show "appends opid t [e] t'" using e(1) unfolding appends_def ascending_after_def e(3) by simp
  show "ge_id e = i" "ge_payload e = p" by (fact f)+
  show "tx_fresh t' = tx_fresh t" unfolding e(3) by simp
qed

lemma new_hex_id_ok: "new_hex_id t = Inr (i, t') \<Longrightarrow> i \<in> set (tx_fresh t) \<and> appends opid t [] t'"
  by (auto simp: new_hex_id_def appends_def ascending_after_def split: list.splits)

lemma insert_results_appends:
  "insert_results env opid f ps t = Inr (es, t') \<Longrightarrow> appends opid t es t' \<and> map ge_id es = map pc_result_entry ps \<and>
     map ge_payload es = map (\<lambda>p. PToolResult (f p)) ps"
proof (induction env opid f ps t arbitrary: es t' rule: insert_results.induct)
  case (2 env opid f p ps t)
  from "2.prems" obtain e t1 es1 where e: "insert_and_adopt env (pc_result_entry p) opid (PToolResult (f p)) t = Inr (e, t1)"
    "insert_results env opid f ps t1 = Inr (es1, t')" "es = e # es1"
    by (auto simp: rbind_eq_Inr)
  note head = insert_appends [OF e(1)]
  have ih: "appends opid t1 es1 t'" "map ge_id es1 = map pc_result_entry ps" "map ge_payload es1 = map (\<lambda>p. PToolResult (f p)) ps"
    using "2.IH" [OF e(1) refl e(2)] by blast+
  show ?case using appends_trans [OF head(1) ih(1)] head(2,3) ih(2,3) e(3) by simp
qed (simp add: appends_refl)

lemma new_signal_appends:
  assumes "new_signal_entry env opid k t = Inr (e, t')"
  shows "appends opid t [e] t' \<and> ge_id e \<in> set (tx_fresh t) \<and>
    (\<exists>s. ge_payload e = PSignal s \<and>
       sg_related_operation s = Some \<lparr>opr_session = session_id (tx_graph t), opr_operation = opid\<rparr>)"
proof -
  obtain i t1 where i: "new_hex_id t = Inr (i, t1)"
    and e: "insert_and_adopt env i opid
         (PSignal \<lparr>sg_session = session_id (tx_graph t), sg_entry = i, sg_operation = opid, sg_signal = k,
            sg_related_operation = Some \<lparr>opr_session = session_id (tx_graph t), opr_operation = opid\<rparr>,
            sg_related_member = None, sg_content = signal_content k\<rparr>) t1 = Inr (e, t')"
    using assms by (auto simp: new_signal_entry_def rbind_eq_Inr)
  have "appends opid t [] t1" "i \<in> set (tx_fresh t)" using new_hex_id_ok [OF i] by blast+
  from appends_trans [OF this(1) insert_appends(1) [OF e]] this(2) insert_appends(2,3) [OF e] show ?thesis by simp
qed

section \<open>What a settlement without outcome writes\<close>

lemma add_totals_nothing: "canonical_totals a \<Longrightarrow> add_totals a [] = Inr a"
proof -
  assume a: "canonical_totals a"
  then have d: "distinct (map mu_model a)" by (simp add: canonical_totals_def)
  have "totals_of_counts (merge_first a) = a"
  proof (rule canonical_lookup_inject)
    show "canonical_totals (totals_of_counts (merge_first a))"
      by (rule canonical_totals_of_counts) (rule merge_first_map_of(2))
    show "usage_lookup (totals_of_counts (merge_first a)) = usage_lookup a"
      using usage_lookup_totals [OF merge_first_map_of(2)] merge_first_map_of(1) [OF d] by simp
  qed (rule a)
  then show ?thesis by (simp add: add_totals_def add_usage_totals_def map_error_def)
qed

text \<open>A settlement without assistant, reported usage and maintenance facts: an interruption or a bare end.\<close>

definition plain_settlement :: "settlement_request \<Rightarrow> bool" where
  "plain_settlement q \<longleftrightarrow> sq_assistant q = None \<and> sq_usage q = None \<and> sq_facts q = None \<and> \<not> sq_compaction q \<and>
     sq_status q \<noteq> OpRunning"

lemma plain_contribution: "plain_settlement q \<Longrightarrow>
    settlement_contribution (sq_assistant q) (sq_usage_model q) (sq_usage q) (sq_facts q) = Inr []"
  using add_totals_nothing [of "[]"]
  by (simp add: plain_settlement_def settlement_contribution_def ordinary_usage_def facts_list_def facts_usage_contribution_def
      map_error_def canonical_totals_def)

definition settled_operation :: "string \<Rightarrow> string \<Rightarrow> timestamp \<Rightarrow> int \<Rightarrow> settlement_request \<Rightarrow> operation_record \<Rightarrow> operation_record" where
  "settled_operation sid i settled orev q x =
     x\<lparr>or_state := settled_state sid i settled q (os_usage (or_state x)) (or_state x), or_revision := orev + 1\<rparr>"

definition idle_session :: "int \<Rightarrow> session_record \<Rightarrow> session_record" where
  "idle_session srev s = s\<lparr>sr_state := (sr_state s)\<lparr>ss_current_operation := []\<rparr>, sr_revision := srev + 1\<rparr>"

text \<open>The parts of what is appended: the interrupted hook, the interrupted results, the signal.\<close>

definition hook_part :: "string \<Rightarrow> string \<Rightarrow> active_effect option \<Rightarrow> graph_entry list \<Rightarrow> bool" where
  "hook_part sid opid efo hk \<longleftrightarrow>
     (if is_effect EffectHook efo
      then \<exists>e. hk = [e] \<and> ge_id e = ae_result_entry (the efo) \<and> ge_payload e = PHookResult (interrupted_hook sid opid (the efo))
      else hk = [])"

definition result_part :: "(pending_call \<Rightarrow> tool_result_entry) \<Rightarrow> pending_call list \<Rightarrow> graph_entry list \<Rightarrow> bool" where
  "result_part f ps rsl \<longleftrightarrow> map ge_id rsl = map pc_result_entry ps \<and> map ge_payload rsl = map (\<lambda>p. PToolResult (f p)) ps"

definition signal_part :: "string \<Rightarrow> string \<Rightarrow> string set \<Rightarrow> graph_entry list \<Rightarrow> bool" where
  "signal_part sid opid fresh sg \<longleftrightarrow> (\<forall>e \<in> set sg. ge_id e \<in> fresh \<and>
     (\<exists>s. ge_payload e = PSignal s \<and> sg_related_operation s = Some \<lparr>opr_session = sid, opr_operation = opid\<rparr>))"

lemma insert_hook_part:
  assumes "insert_interrupted_hook env opid efo t = Inr (hk, t')"
  shows "appends opid t hk t' \<and> hook_part (session_id (tx_graph t)) opid efo hk"
proof (cases "is_effect EffectHook efo")
  case True
  then obtain ef where ef: "efo = Some ef" "ae_kind ef = EffectHook" by (auto simp: is_effect_def split: option.splits)
  with assms obtain e where e: "hk = [e]"
    "insert_and_adopt env (ae_result_entry ef) opid (PHookResult (interrupted_hook (session_id (tx_graph t)) opid ef)) t = Inr (e, t')"
    by (auto simp: insert_interrupted_hook_def rbind_eq_Inr)
  with insert_appends [OF e(2)] True ef(1) show ?thesis by (simp add: hook_part_def)
next
  case False
  then have "insert_interrupted_hook env opid efo t = Inr ([], t)"
    by (auto simp: insert_interrupted_hook_def is_effect_def split: option.splits)
  with assms False show ?thesis by (simp add: hook_part_def appends_refl)
qed

lemma insert_signal_part:
  assumes "insert_interruption env opid st t = Inr (sg, t')"
  shows "appends opid t sg t' \<and> signal_part (session_id (tx_graph t)) opid (set (tx_fresh t)) sg"
proof (cases "st = OpInterruption")
  case True
  with assms obtain e where e: "sg = [e]" "new_signal_entry env opid SignalInterruption t = Inr (e, t')"
    by (auto simp: insert_interruption_def rbind_eq_Inr)
  with new_signal_appends [OF e(2)] show ?thesis by (simp add: signal_part_def)
next
  case False
  with assms have "sg = []" "t' = t" by (simp_all add: insert_interruption_def)
  then show ?thesis by (simp add: signal_part_def appends_refl)
qed

lemma settlement_shape:
  assumes c: "commit_terminal_settlement env opid sess cur srev orev q t = Inr ((cur', sess', es), t')"
    and q: "plain_settlement q" and usage: "canonical_totals (os_usage (or_state cur))" "canonical_totals (ss_usage (sr_state sess))"
    and sid: "sid = session_id (tx_graph t)"
  obtains hk rsl sg z t3 f where
    "es = hk @ rsl @ sg @ [z]" "appends opid t es t3"
    "hook_part sid opid (os_effect (or_state cur)) hk"
    "result_part f (os_pending (or_state cur)) rsl"
    "f = interrupted_result sid opid (os_effect (or_state cur)) (g_entries (tx_graph t) @ hk)"
    "signal_part sid opid (set (tx_fresh t)) sg"
    "ge_payload z = PSettlement (settlement_of sid opid (ge_id z) q (or_state cur))"
    "ge_id z \<in> set (tx_fresh t) \<or> is_effect EffectModel (os_effect (or_state cur)) \<and> ge_id z = ae_result_entry (the (os_effect (or_state cur)))"
    "cur' = settled_operation sid (ge_id z) (en_committed_at (ge_env z)) orev q cur" "sess' = idle_session srev sess"
    "tx_graph t' = (tx_graph t3)\<lparr>g_operations := fst (replace_operation opid cur' (g_operations (tx_graph t))), g_session := sess'\<rparr>"
proof -
  have qa: "sq_assistant q = None" using q by (simp add: plain_settlement_def)
  note none = plain_contribution [OF q, unfolded qa] add_totals_nothing [OF usage(1)] add_totals_nothing [OF usage(2)]
  obtain t1 t2 t3 t4 i z es0 where
    e0: "insert_before_settlement env opid q (or_state cur) t = Inr (es0, t1)"
    and i: "settlement_identity True (or_state cur) t1 = Inr (i, t2)"
    and z: "insert_and_adopt env i opid (PSettlement (settlement_of (session_id (tx_graph t)) opid i q (or_state cur))) t2 = Inr (z, t3)"
    and x: "replace_operation_register env opid orev
              (cur\<lparr>or_state := settled_state (session_id (tx_graph t)) i (en_committed_at (ge_env z)) q (os_usage (or_state cur)) (or_state cur)\<rparr>) t3
            = Inr (cur', t4)"
    and s: "replace_session_register env srev
              (sess\<lparr>sr_state := (sr_state sess)\<lparr>ss_usage := ss_usage (sr_state sess), ss_current_operation := []\<rparr>\<rparr>) t4 = Inr (sess', t')"
    and es: "es = es0 @ [z]"
  proof -
    have "\<exists>t1 t2 t3 t4 i z es0. insert_before_settlement env opid q (or_state cur) t = Inr (es0, t1) \<and>
      settlement_identity True (or_state cur) t1 = Inr (i, t2) \<and>
      insert_and_adopt env i opid (PSettlement (settlement_of (session_id (tx_graph t)) opid i q (or_state cur))) t2 = Inr (z, t3) \<and>
      replace_operation_register env opid orev
              (cur\<lparr>or_state := settled_state (session_id (tx_graph t)) i (en_committed_at (ge_env z)) q (os_usage (or_state cur)) (or_state cur)\<rparr>) t3
            = Inr (cur', t4) \<and>
      replace_session_register env srev
              (sess\<lparr>sr_state := (sr_state sess)\<lparr>ss_usage := ss_usage (sr_state sess), ss_current_operation := []\<rparr>\<rparr>) t4 = Inr (sess', t') \<and>
      es = es0 @ [z]"
      using c unfolding commit_terminal_settlement_def by (simp add: qa none rbind_eq_Inr split_paired_Ex) blast
    then show ?thesis using that by blast
  qed
  obtain hk rsl sg u1 u2 where
    hk: "insert_interrupted_hook env opid (os_effect (or_state cur)) t = Inr (hk, u1)"
    and rsl: "insert_results env opid (interrupted_result (session_id (tx_graph t)) opid (os_effect (or_state cur)) (g_entries (tx_graph u1)))
              (os_pending (or_state cur)) u1 = Inr (rsl, u2)"
    and sg: "insert_interruption env opid (sq_status q) u2 = Inr (sg, t1)" and es0: "es0 = hk @ rsl @ sg"
    using e0 unfolding insert_before_settlement_def qa insert_assistant_def by (auto simp: rbind_eq_Inr)
  note a1 = insert_hook_part [OF hk]
  note a2 = insert_results_appends [OF rsl]
  note a3 = insert_signal_part [OF sg]
  note z' = insert_appends [OF z]
  have i': "appends opid t1 [] t2" "i \<in> set (tx_fresh t1) \<or> is_effect EffectModel (os_effect (or_state cur)) \<and>
      i = ae_result_entry (the (os_effect (or_state cur)))"
    using i new_hex_id_ok [of t1 i t2] by (auto simp: settlement_identity_def appends_refl split: if_splits)
  have u1: "g_entries (tx_graph u1) = g_entries (tx_graph t) @ hk" "session_id (tx_graph u1) = session_id (tx_graph t)"
    using appendsD(1,8) [OF conjunct1 [OF a1]] by simp_all
  have u2: "session_id (tx_graph u2) = session_id (tx_graph t)" "set (tx_fresh u2) \<subseteq> set (tx_fresh t)"
    using appendsD(2,8) [OF conjunct1 [OF a2]] appendsD(2) [OF conjunct1 [OF a1]] u1 by auto
  have t1: "set (tx_fresh t1) \<subseteq> set (tx_fresh t)" using appendsD(2) [OF conjunct1 [OF a3]] u2 by auto
  have app: "appends opid t es t3"
    using appends_trans [OF conjunct1 [OF a1] appends_trans [OF conjunct1 [OF a2] appends_trans [OF conjunct1 [OF a3]
      appends_trans [OF i'(1) z'(1)]]]] by (simp add: es es0)
  have ops: "g_operations (tx_graph t3) = g_operations (tx_graph t)" "g_session (tx_graph t3) = g_session (tx_graph t)"
    using appendsD(1) [OF app] by simp_all
  have t4: "cur' = settled_operation sid i (en_committed_at (ge_env z)) orev q cur"
    "tx_graph t4 = (tx_graph t3)\<lparr>g_operations := fst (replace_operation opid cur' (g_operations (tx_graph t)))\<rparr>"
    using x ops by (auto simp: replace_operation_register_def Let_def settled_operation_def sid split: if_splits option.splits)
  have t5: "sess' = idle_session srev sess" "tx_graph t' = (tx_graph t4)\<lparr>g_session := sess'\<rparr>"
    using s by (auto simp: replace_session_register_def Let_def idle_session_def split: if_splits)
  show ?thesis
  proof (rule that)
    show "es = hk @ rsl @ sg @ [z]" by (simp add: es es0)
    show "appends opid t es t3" by (rule app)
    show "hook_part sid opid (os_effect (or_state cur)) hk" using a1 by (simp add: sid)
    show "result_part (interrupted_result sid opid (os_effect (or_state cur)) (g_entries (tx_graph t) @ hk)) (os_pending (or_state cur)) rsl"
      using a2 u1 by (simp add: result_part_def sid)
    show "signal_part sid opid (set (tx_fresh t)) sg" using a3 u2 by (auto simp: signal_part_def sid)
    show "ge_payload z = PSettlement (settlement_of sid opid (ge_id z) q (or_state cur))" using z'(2,3) by (simp add: sid)
    show "ge_id z \<in> set (tx_fresh t) \<or> is_effect EffectModel (os_effect (or_state cur)) \<and> ge_id z = ae_result_entry (the (os_effect (or_state cur)))"
      using i'(2) z'(2) t1 by auto
    show "cur' = settled_operation sid (ge_id z) (en_committed_at (ge_env z)) orev q cur" using t4(1) z'(2) by simp
    show "tx_graph t' = (tx_graph t3)\<lparr>g_operations := fst (replace_operation opid cur' (g_operations (tx_graph t))), g_session := sess'\<rparr>"
      using t4(2) t5(2) by simp
  qed (rule t5(1) refl)+
qed

end
