(* ===== verification/Session_Close.thy ===== *)
theory Session_Close
  imports Session_Settle
begin

text \<open>
  The operation that a settlement closes passes the validator: its pending calls have their interrupted results, its
  interrupted hook is accounted for, its request is closed by what the effect recorded, and one settlement is stored.
\<close>

section \<open>The account of a running operation\<close>

definition pending_matches :: "string \<Rightarrow> published_call \<Rightarrow> pending_call \<Rightarrow> bool" where
  "pending_matches sid p q \<longleftrightarrow> pc_call q = pb_call p \<and> er_entry (pc_assistant q) = pb_assistant p \<and>
     pc_result_entry q = pb_result p \<and> er_session (pc_assistant q) = sid"

lemma match_pending_all2: "match_pending sid opid ps qs = Inr () \<Longrightarrow> length ps = length qs \<Longrightarrow> list_all2 (pending_matches sid) ps qs"
  by (induction sid opid ps qs rule: match_pending.induct) (auto simp: pending_matches_def split: if_splits)

definition account :: "string \<Rightarrow> session_graph \<Rightarrow> reservation list \<Rightarrow> operation_record \<Rightarrow> published_call list \<Rightarrow> hook_accounting \<Rightarrow> bool" where
  "account sid g rs x ps acc \<longleftrightarrow>
     collect_reservations g = Inr rs \<and> validate_reservations g rs = Inr () \<and> validate_admission sid g x = Inr () \<and>
     collect_published g (op_id x) = Inr ps \<and> collect_tool_results sid g (op_id x) ps = Inr () \<and>
     collect_hook_results g (op_id x) ps = Inr acc \<and>
     list_all2 (pending_matches sid) (unresolved g (op_id x) ps) (os_pending (or_state x)) \<and>
     settlements_of g (op_id x) = [] \<and> check_active_effect g rs (op_id x) acc (os_effect (or_state x)) = Inr () \<and>
     collect_request_domain sid g x = Inr ()"

lemma accountI:
  assumes "validate_graph sid g = Inr ()" "x \<in> set (g_operations g)" "is_running x" "collect_reservations g = Inr rs"
  obtains ps acc where "account sid g rs x ps acc"
proof -
  have r: "validate_reservations g rs = Inr ()" "validate_operation sid g rs x = Inr ()"
    using validate_graph_parts [OF assms(1)] assms(2,4) by (metis Inr_inject)+
  from validate_operation_parts [OF r(2)] assms(3) obtain ps acc where
    p: "validate_admission sid g x = Inr ()" "collect_published g (op_id x) = Inr ps"
    "collect_tool_results sid g (op_id x) ps = Inr ()" "collect_hook_results g (op_id x) ps = Inr acc"
    "validate_running sid g rs x ps acc = Inr ()" "collect_request_domain sid g x = Inr ()" by metis
  have "validate_pending sid g (op_id x) ps (os_pending (or_state x)) = Inr ()" "settlements_of g (op_id x) = []"
    "check_active_effect g rs (op_id x) acc (os_effect (or_state x)) = Inr ()"
    using p(5) by (auto simp: validate_running_def rbind_eq_Inr ensure_eq_Inr)
  moreover from this(1) have "list_all2 (pending_matches sid) (unresolved g (op_id x) ps) (os_pending (or_state x))"
    using match_pending_all2 by (auto simp: validate_pending_def rbind_eq_Inr ensure_eq_Inr)
  ultimately show ?thesis using that r(1) p assms(4) by (auto simp: account_def)
qed

lemma accountD:
  assumes "account sid g rs x ps acc"
  shows "collect_reservations g = Inr rs" "validate_reservations g rs = Inr ()" "validate_admission sid g x = Inr ()"
    "collect_published g (op_id x) = Inr ps" "collect_tool_results sid g (op_id x) ps = Inr ()"
    "collect_hook_results g (op_id x) ps = Inr acc"
    "list_all2 (pending_matches sid) (unresolved g (op_id x) ps) (os_pending (or_state x))"
    "settlements_of g (op_id x) = []" "check_active_effect g rs (op_id x) acc (os_effect (or_state x)) = Inr ()"
    "collect_request_domain sid g x = Inr ()" "distinct (map pb_call ps)"
  using assms collect_published_ok by (auto simp: account_def)

lemma pending_call_published:
  assumes "account sid g rs x ps acc" "q \<in> set (os_pending (or_state x))"
  obtains p where "p \<in> set ps" "result_count g (op_id x) (pb_call p) = 0" "pending_matches sid p q"
proof -
  obtain p where "p \<in> set (unresolved g (op_id x) ps)" "pending_matches sid p q"
    using accountD(7) [OF assms(1)] assms(2) unfolding list_all2_conv_all_nth in_set_conv_nth by metis
  with that show ?thesis by (auto simp: unresolved_def)
qed

lemma unresolved_call_pending:
  assumes "account sid g rs x ps acc" "p \<in> set ps" "result_count g (op_id x) (pb_call p) = 0"
  obtains q where "q \<in> set (os_pending (or_state x))" "pending_matches sid p q"
proof -
  have "p \<in> set (unresolved g (op_id x) ps)" using assms(2,3) by (simp add: unresolved_def)
  then show ?thesis using accountD(7) [OF assms(1)] that unfolding list_all2_conv_all_nth in_set_conv_nth by metis
qed

lemma pending_distinct:
  assumes "account sid g rs x ps acc"
  shows "map pc_call (os_pending (or_state x)) = map pb_call (unresolved g (op_id x) ps)"
    "distinct (map pc_call (os_pending (or_state x)))"
proof -
  show *: "map pc_call (os_pending (or_state x)) = map pb_call (unresolved g (op_id x) ps)"
    using accountD(7) [OF assms] by (auto simp: list_all2_conv_all_nth pending_matches_def intro: nth_equalityI)
  show "distinct (map pc_call (os_pending (or_state x)))"
    using accountD(11) [OF assms] by (simp only: * unresolved_def distinct_map_filter)
qed

text \<open>A resolved call has its result in the graph; an unresolved one has nothing under its reserved identity.\<close>

lemma resolved_entry:
  assumes "account sid g rs x ps acc" "distinct (map ge_id (g_entries g))" "p \<in> set ps" "result_count g (op_id x) (pb_call p) \<noteq> 0"
  obtains r where "entry_by_id g (pb_result p) = Some r" "r \<in> set (entries_of g (op_id x))" "answers (pb_call p) r"
proof -
  obtain r where r: "r \<in> set (entries_of g (op_id x))" "answers (pb_call p) r"
    using assms(4) result_count_pos [of g "op_id x" "pb_call p"] by auto
  from tool_result_reserved [OF accountD(5,11) [OF assms(1)] r(1) assms(3) r(2)] r(1) assms(2)
  have "entry_by_id g (pb_result p) = Some r" by (simp add: entry_by_id_Some entries_of_in)
  with r that show ?thesis by blast
qed

lemma unresolved_entry:
  assumes "account sid g rs x ps acc" "p \<in> set ps" "result_count g (op_id x) (pb_call p) = 0" "op_id x \<noteq> []"
  shows "entry_by_id g (pb_result p) = None"
proof (rule ccontr)
  let ?r = "\<lparr>rs_result = pb_result p, rs_call = pb_call p, rs_assistant = pb_assistant p, rs_operation = op_id x\<rparr>"
  assume "entry_by_id g (pb_result p) \<noteq> None"
  then obtain e where e: "entry_by_id g (pb_result p) = Some e" by blast
  have "?r \<in> set rs" using published_reserved [OF accountD(1,4) [OF assms(1)] assms(2)] .
  then have "validate_reservation g ?r = Inr ()"
    using accountD(2) [OF assms(1)] by (simp add: validate_reservations_def first_error_ok)
  then obtain t where "ge_payload e = PToolResult t" "ge_op e = op_id x" "tr_call t = pb_call p"
    using e by (cases "ge_payload e") (auto simp: validate_reservation_def ensure_eq_Inr)
  with entry_by_id_in [OF e] assms(4) have "e \<in> set (entries_of g (op_id x))" "answers (pb_call p) e"
    by (simp_all add: entries_of_in answers_def)
  with assms(3) result_count_pos [of g "op_id x" "pb_call p"] show False by auto
qed

section \<open>The closing step\<close>

definition closing ::
  "string \<Rightarrow> session_graph \<Rightarrow> session_graph \<Rightarrow> operation_record \<Rightarrow> operation_record \<Rightarrow> settlement_request \<Rightarrow>
     graph_entry list \<Rightarrow> graph_entry list \<Rightarrow> graph_entry list \<Rightarrow> graph_entry \<Rightarrow> bool" where
  "closing sid g g' x x' q hk rsl sg z \<longleftrightarrow>
     settling_step g g' (hk @ rsl @ sg @ [z]) x x' \<and> ascending_after (g_entries g) (hk @ rsl @ sg @ [z]) \<and>
     (\<forall>e \<in> set (hk @ rsl @ sg @ [z]). en_kind (ge_env e) = payload_kind (ge_payload e)) \<and> plain_settlement q \<and>
     hook_part sid (op_id x) (os_effect (or_state x)) hk \<and>
     result_part (interrupted_result sid (op_id x) (os_effect (or_state x)) (g_entries g @ hk)) (os_pending (or_state x)) rsl \<and>
     (\<forall>e \<in> set sg. \<exists>s. ge_payload e = PSignal s) \<and>
     ge_payload z = PSettlement (settlement_of sid (op_id x) (ge_id z) q (or_state x)) \<and>
     (\<exists>settled. or_state x' = settled_state sid (ge_id z) settled q (os_usage (or_state x)) (or_state x))"

lemma closingD:
  assumes "closing sid g g' x x' q hk rsl sg z"
  shows "settling_step g g' (hk @ rsl @ sg @ [z]) x x'" "ascending_after (g_entries g) (hk @ rsl @ sg @ [z])"
    "\<And>e. e \<in> set (hk @ rsl @ sg @ [z]) \<Longrightarrow> en_kind (ge_env e) = payload_kind (ge_payload e)" "plain_settlement q"
    "hook_part sid (op_id x) (os_effect (or_state x)) hk"
    "result_part (interrupted_result sid (op_id x) (os_effect (or_state x)) (g_entries g @ hk)) (os_pending (or_state x)) rsl"
    "\<And>e. e \<in> set sg \<Longrightarrow> \<exists>s. ge_payload e = PSignal s"
    "ge_payload z = PSettlement (settlement_of sid (op_id x) (ge_id z) q (or_state x))"
    "\<exists>settled. or_state x' = settled_state sid (ge_id z) settled q (os_usage (or_state x)) (or_state x)"
  using assms unfolding closing_def by blast+

lemma closing_entries:
  assumes "closing sid g g' x x' q hk rsl sg z"
  shows "entries_of g' (op_id x) = entries_of g (op_id x) @ hk @ rsl @ sg @ [z]"
  using entries_of_grow [OF closingD(1) [OF assms], of "op_id x"] by simp

lemma hook_part_in: "hook_part sid opid efo hk \<Longrightarrow> e \<in> set hk \<Longrightarrow>
    \<exists>ef. efo = Some ef \<and> ae_kind ef = EffectHook \<and> hk = [e] \<and> ge_id e = ae_result_entry ef \<and>
      ge_payload e = PHookResult (interrupted_hook sid opid ef)"
  by (auto simp: hook_part_def is_effect_def split: if_splits option.splits)

lemma result_part_nth:
  assumes "result_part f ps rsl"
  shows "length rsl = length ps" "i < length ps \<Longrightarrow> ge_id (rsl ! i) = pc_result_entry (ps ! i) \<and> ge_payload (rsl ! i) = PToolResult (f (ps ! i))"
proof -
  show len: "length rsl = length ps" using assms by (metis length_map result_part_def)
  show "i < length ps \<Longrightarrow> ge_id (rsl ! i) = pc_result_entry (ps ! i) \<and> ge_payload (rsl ! i) = PToolResult (f (ps ! i))"
    using assms len by (metis (no_types, lifting) nth_map result_part_def)
qed

lemma result_part_in:
  assumes "result_part f ps rsl" "e \<in> set rsl"
  obtains p where "p \<in> set ps" "ge_id e = pc_result_entry p" "ge_payload e = PToolResult (f p)"
  using result_part_nth [OF assms(1)] assms(2) by (metis in_set_conv_nth)

lemma result_part_of:
  assumes "result_part f ps rsl" "p \<in> set ps"
  obtains e where "e \<in> set rsl" "ge_id e = pc_result_entry p" "ge_payload e = PToolResult (f p)"
  using result_part_nth [OF assms(1)] assms(2) by (metis in_set_conv_nth)

lemma interrupted_result_simps [simp]:
  "tr_call (interrupted_result sid opid efo es p) = pc_call p"
  "tr_assistant (interrupted_result sid opid efo es p) = pc_assistant p"
  "tr_status (interrupted_result sid opid efo es p) = ResultInterrupted"
  "tr_entry (interrupted_result sid opid efo es p) = pc_result_entry p"
  by (simp_all add: interrupted_result_def Let_def)

text \<open>Which of the new entries is a tool result, a hook result, a settlement.\<close>

lemma closing_result:
  assumes "closing sid g g' x x' q hk rsl sg z" "e \<in> set (hk @ rsl @ sg @ [z])" "ge_payload e = PToolResult t"
  shows "e \<in> set rsl"
  using assms(2,3) hook_part_in [OF closingD(5) [OF assms(1)]] closingD(7,8) [OF assms(1)] by fastforce

lemma closing_not_result:
  assumes "closing sid g g' x x' q hk rsl sg z" "e \<in> set (hk @ sg @ [z])"
  shows "the_tool_result (ge_payload e) = None" "\<not> answers c e"
  using assms(2) hook_part_in [OF closingD(5) [OF assms(1)]] closingD(7,8) [OF assms(1)] by (fastforce simp: answers_def)+

section \<open>Tool results\<close>

lemma closing_tool_results:
  assumes a: "account sid g rs x ps acc" and c: "closing sid g g' x x' q hk rsl sg z"
  shows "collect_tool_results sid g' (op_id x) ps = Inr ()"
proof -
  have "check_tool_result sid ps e = Inr ()" if e: "e \<in> set rsl" for e
  proof -
    obtain k where k: "k \<in> set (os_pending (or_state x))" "ge_id e = pc_result_entry k"
      "ge_payload e = PToolResult (interrupted_result sid (op_id x) (os_effect (or_state x)) (g_entries g @ hk) k)"
      using result_part_in [OF closingD(6) [OF c] e] .
    obtain p where p: "p \<in> set ps" "pending_matches sid p k" using pending_call_published [OF a k(1)] .
    then have "published_by_call ps (pc_call k) = Some p"
      using published_by_call_ok [OF accountD(11) [OF a]] by (simp add: pending_matches_def)
    with k p(2) show ?thesis by (simp add: check_tool_result_def pending_matches_def)
  qed
  moreover have "check_tool_result sid ps e = Inr ()" if "e \<in> set (hk @ sg @ [z])" for e
    using closing_not_result(1) [OF c that] by (simp add: check_tool_result_def)
  ultimately show ?thesis
    using accountD(5) [OF a] unfolding collect_tool_results_def closing_entries [OF c] first_error_ok by auto
qed

lemma closing_count:
  assumes a: "account sid g rs x ps acc" and c: "closing sid g g' x x' q hk rsl sg z" and d: "distinct (map ge_id (g_entries g))"
    and p: "p \<in> set ps"
  shows "result_count g' (op_id x) (pb_call p) = 1"
proof -
  have "0 < result_count g' (op_id x) (pb_call p)"
  proof (cases "result_count g (op_id x) (pb_call p) = 0")
    case True
    then obtain k where k: "k \<in> set (os_pending (or_state x))" "pending_matches sid p k"
      using unresolved_call_pending [OF a p] by blast
    obtain e where "e \<in> set rsl" "ge_payload e = PToolResult (interrupted_result sid (op_id x) (os_effect (or_state x)) (g_entries g @ hk) k)"
      using result_part_of [OF closingD(6) [OF c] k(1)] by metis
    with k(2) have "e \<in> set (entries_of g' (op_id x)) \<and> answers (pb_call p) e"
      unfolding closing_entries [OF c] by (simp add: answers_def pending_matches_def)
    then show ?thesis unfolding result_count_pos by blast
  next
    case False
    then show ?thesis by (simp add: result_count_def closing_entries [OF c])
  qed
  moreover have "result_count g' (op_id x) (pb_call p) \<le> 1"
    using result_count_le_1 [OF closing_tool_results [OF a c] accountD(11) [OF a] _ p]
      growsD(2) [OF settling_stepD(1) [OF closingD(1) [OF c]]] by blast
  ultimately show ?thesis by simp
qed

lemma closing_terminal:
  assumes a: "account sid g rs x ps acc" and c: "closing sid g g' x x' q hk rsl sg z" and d: "distinct (map ge_id (g_entries g))"
  shows "validate_terminal sid g' x' ps = Inr ()"
proof -
  note step = closingD(1) [OF c]
  have id: "op_id x' = op_id x" using settling_operations(3) [OF step] .
  have resolved: "first_error (check_resolved g' (op_id x)) ps = Inr ()"
    using closing_count [OF a c d] by (simp add: first_error_ok check_resolved_def)
  have "filter (\<lambda>e. the_settlement (ge_payload e) \<noteq> None) (hk @ rsl @ sg @ [z]) = [z]"
  proof -
    have "the_settlement (ge_payload e) = None" if "e \<in> set (hk @ rsl @ sg)" for e
      using that hook_part_in [OF closingD(5) [OF c]] closingD(7) [OF c] result_part_in [OF closingD(6) [OF c]]
      by (fastforce elim: result_part_in [OF closingD(6) [OF c]])
    then have "filter (\<lambda>e. the_settlement (ge_payload e) \<noteq> None) (hk @ rsl @ sg) = []" by (intro filter_False ballI) simp
    then show ?thesis using closingD(8) [OF c] by simp
  qed
  then have settled: "settlements_of g' (op_id x) = [z]"
    using accountD(8) [OF a] by (simp add: settlements_of_def closing_entries [OF c])
  obtain settled where st: "or_state x' = settled_state sid (ge_id z) settled q (os_usage (or_state x)) (or_state x)"
    using closingD(9) [OF c] by blast
  have "entry_by_id g' (ge_id z) = Some z" using grows_new_entry(1) [OF settling_stepD(1) [OF step], of z] by simp
  moreover have "ge_op z = op_id x" using settling_facts(1) [OF settling_stepD(3) [OF step], of z] by simp
  moreover have "en_kind (ge_env z) = KindSettlement" using closingD(3) [OF c, of z] closingD(8) [OF c] by simp
  ultimately have "check_settlement sid g' x' \<lparr>ot_settlement = \<lparr>er_session = sid, er_entry = ge_id z\<rparr>, ot_detail = sq_detail q\<rparr> = Inr ()"
    using closingD(8) [OF c] id st by (simp add: check_settlement_def settlement_of_def settled_state_def Let_def)
  with resolved settled st id show ?thesis by (simp add: validate_terminal_def settled_state_def)
qed

section \<open>Hooks\<close>

text \<open>What the driver keeps of a running effect and the validator does not ask of it: a hook of a call is bound to the
  first pending call; a hook of a request has its evidence, which no earlier evidence of the request anticipates; the
  evidence of a model effect is that of the request the settlement will name.\<close>

definition effect_bound :: "session_graph \<Rightarrow> operation_record \<Rightarrow> active_effect \<Rightarrow> bool" where
  "effect_bound g x ef \<longleftrightarrow>
     (if ae_kind ef = EffectHook then
        (if ae_request ef = []
         then (case os_pending (or_state x) of [] \<Rightarrow> False | p # _ \<Rightarrow> pc_call p = ae_tool_call ef)
         else ae_evidence ef \<noteq> None \<and>
           list_all (\<lambda>e. case request_evidence_of e of
               None \<Rightarrow> True
             | Some (rid, ev) \<Rightarrow> rid \<noteq> ae_request ef \<or>
                 \<lparr>hi_extension = ae_extension ef, hi_hook = ae_hook ef\<rparr> \<notin> set (ev_hooks ev)) (entries_of g (op_id x)))
      else if ae_kind ef = EffectModel \<and> ae_evidence ef \<noteq> None then
        ae_request ef \<noteq> [] \<and>
        (ae_purpose ef = PurposeMaintenance \<or>
         (case os_request (or_state x) of None \<Rightarrow> True | Some rr \<Rightarrow> rr_request rr = ae_request ef))
      else True)"

definition recoverable :: "session_graph \<Rightarrow> operation_record \<Rightarrow> bool" where
  "recoverable g x \<longleftrightarrow> (case os_effect (or_state x) of None \<Rightarrow> True | Some ef \<Rightarrow> effect_bound g x ef)"

lemma successes_old:
  "fold_result (check_hook g ps) acc es = Inr acc' \<Longrightarrow> (\<And>c. set (call_successes acc c) \<subseteq> E) \<Longrightarrow> set es \<subseteq> E \<Longrightarrow>
     set (call_successes acc' c) \<subseteq> E"
proof (induction es arbitrary: acc)
  case (Cons e es)
  from Cons.prems(1) obtain a where a: "check_hook g ps acc e = Inr a" "fold_result (check_hook g ps) a es = Inr acc'"
    by (auto simp: rbind_eq_Inr)
  have "set (call_successes a d) \<subseteq> E" for d
  proof (cases "the_hook_result (ge_payload e)")
    case (Some h)
    show ?thesis
    proof (cases "hr_request h = []")
      case True
      with a(1) Some have "check_call_hook g ps acc e h = Inr a" by (simp add: check_hook_def)
      then obtain p :: published_call where p: "a = hook_after acc e h (pb_call p)" unfolding check_call_hook_ok by blast
      have "set (call_successes acc (pb_call p) @ [e]) \<subseteq> E" using Cons.prems(2,3) by auto
      with Cons.prems(2) show ?thesis
        unfolding p by (auto simp: hook_after_def call_successes_def update_conv split: if_splits option.splits)
    next
      case False
      with a(1) Some have "call_successes a d = call_successes acc d"
        by (auto simp: check_hook_def call_successes_def Let_def split: if_splits)
      with Cons.prems(2) show ?thesis by simp
    qed
  qed (use a(1) Cons.prems(2) in \<open>auto simp: check_hook_def\<close>)
  then show ?case using Cons.IH [OF a(2)] Cons.prems(3) by auto
qed (auto simp: call_successes_def)

text \<open>The interrupted hook is accounted for; it is no success, and its call is unresolved.\<close>

lemma update_subset: "set (AList.update k v xs) \<subseteq> insert (k, v) (set xs)"
  by (induction xs) auto

lemma first_pending_published:
  assumes "account sid g rs x ps acc" "os_pending (or_state x) = k # ks"
  obtains p pre post where "ps = pre @ p # post" "pending_matches sid p k" "result_count g (op_id x) (pb_call p) = 0"
    "\<forall>q \<in> set pre. result_count g (op_id x) (pb_call q) \<noteq> 0" "takeWhile (\<lambda>q. pb_call q \<noteq> pb_call p) ps = pre"
proof -
  obtain p us where u: "unresolved g (op_id x) ps = p # us" "pending_matches sid p k"
    using accountD(7) [OF assms(1)] assms(2) by (auto simp: list_all2_Cons2)
  then obtain pre post where s: "ps = pre @ p # post" "\<forall>q \<in> set pre. result_count g (op_id x) (pb_call q) \<noteq> 0"
    "result_count g (op_id x) (pb_call p) = 0"
    by (auto simp: unresolved_def filter_eq_Cons_iff)
  have "\<forall>q \<in> set pre. pb_call q \<noteq> pb_call p" using accountD(11) [OF assms(1)] unfolding s(1) by (auto simp: rev_image_eqI)
  then have "takeWhile (\<lambda>q. pb_call q \<noteq> pb_call p) ps = pre" using s(1) by simp
  with s u(2) that show ?thesis by blast
qed

lemma closing_call_hook:
  assumes a: "account sid g rs x ps acc" and c: "closing sid g g' x x' q hk rsl sg z" and d: "distinct (map ge_id (g_entries g))"
    and ef: "os_effect (or_state x) = Some ef" "ae_kind ef = EffectHook" "ae_request ef = []" "effect_bound g x ef"
    and e: "hk = [e]"
  shows "\<exists>p. published_by_call ps (ae_tool_call ef) = Some p \<and> result_count g (op_id x) (pb_call p) = 0 \<and>
    pb_call p = ae_tool_call ef \<and>
    check_call_hook g' ps acc e (interrupted_hook sid (op_id x) ef) =
      Inr (hook_after acc e (interrupted_hook sid (op_id x) ef) (ae_tool_call ef))"
proof -
  note step = closingD(1) [OF c]
  note g = settling_stepD(1) [OF step]
  obtain k ks where k: "os_pending (or_state x) = k # ks" "pc_call k = ae_tool_call ef"
    using ef by (auto simp: effect_bound_def split: list.splits)
  obtain p pre post where p: "ps = pre @ p # post" "pending_matches sid p k" "result_count g (op_id x) (pb_call p) = 0"
    "\<forall>q \<in> set pre. result_count g (op_id x) (pb_call q) \<noteq> 0" "takeWhile (\<lambda>q. pb_call q \<noteq> pb_call p) ps = pre"
    using first_pending_published [OF a k(1)] .
  have call: "pb_call p = ae_tool_call ef" using p(2) k(2) by (simp add: pending_matches_def)
  have pub: "published_by_call ps (ae_tool_call ef) = Some p"
    using published_by_call_ok [OF accountD(11) [OF a]] p(1) call by simp
  obtain f where f: "f \<in> set (entries_of g (op_id x))" "pb_assistant p = ge_id f"
  proof -
    have "p \<in> set (concat (map entry_published (entries_of g (op_id x))))"
      using conjunct1 [OF collect_published_ok [OF accountD(4) [OF a]]] p(1) by (metis in_set_conv_decomp)
    with that show ?thesis by (auto simp: entry_published_def)
  qed
  then have publisher: "entry_by_id g' (pb_assistant p) = Some f" "ge_seq f < ge_seq e"
    using grows_entry [OF g] entry_by_id_Some [OF d] growsD(5) [OF g] e by (auto simp: entries_of_in)
  obtain r where r: "r \<in> set rsl" "ge_id r = pb_result p"
    using result_part_of [OF closingD(6) [OF c]] k(1) p(2) by (metis list.set_intros(1) pending_matches_def)
  have "ge_seq e < ge_seq r" using closingD(2) [OF c] r(1) e by (simp add: ascending_after_def)
  moreover have "entry_by_id g' (pb_result p) = Some r" using grows_new_entry(1) [OF g, of r] r by simp
  ultimately have before: "before_result g' e p" by (simp add: before_result_def)
  have after: "after_result g' e y" if "y \<in> set pre" for y
  proof -
    have y: "y \<in> set ps" "result_count g (op_id x) (pb_call y) \<noteq> 0" using p(1,4) that by simp_all
    obtain r' where "entry_by_id g (pb_result y) = Some r'" "r' \<in> set (entries_of g (op_id x))"
      using resolved_entry [OF a d y] by metis
    then show ?thesis using grows_entry [OF g] growsD(5) [OF g, of r' e] e by (auto simp: after_result_def entries_of_in)
  qed
  have eff: "check_active_effect g rs (op_id x) acc (Some ef) = Inr ()" using accountD(9) [OF a] ef(1) by simp
  then have status: "case map_of (last_status acc) (pb_call p) of None \<Rightarrow> True | Some s \<Rightarrow> s = OtherHookStatus [] \<or> s = HookSucceeded"
    using ef(2,3) call
    by (auto simp: check_active_effect_def check_effect_call_def rbind_eq_Inr ensure_eq_Inr split: if_splits option.splits)
  have fresh: "\<lparr>hx_extension = ae_extension ef, hx_hook = ae_hook ef, hx_call = pb_call p, hx_request = []\<rparr> \<notin> set (settled_hooks acc)"
    using eff ef(2,3) call by (auto simp: check_active_effect_def check_effect_reservation_def rbind_eq_Inr split: if_splits)
  have "check_call_hook g' ps acc e (interrupted_hook sid (op_id x) ef) =
      Inr (hook_after acc e (interrupted_hook sid (op_id x) ef) (pb_call p))"
    unfolding check_call_hook_ok
    using pub publisher before after status fresh p(5) by (auto simp: interrupted_hook_def list_all_iff)
  with pub p(3) call show ?thesis by metis
qed

text \<open>The accounting \<open>acc'\<close> continues \<open>acc\<close>: no new success, and a new last status only for an unresolved call.\<close>

definition continues_account ::
  "session_graph \<Rightarrow> string \<Rightarrow> published_call list \<Rightarrow> hook_accounting \<Rightarrow> hook_accounting \<Rightarrow> bool" where
  "continues_account g opid ps acc acc' \<longleftrightarrow>
     successful acc' = successful acc \<and>
     (\<forall>c s. (c, s) \<in> set (last_status acc') \<longrightarrow> (c, s) \<in> set (last_status acc) \<or>
        s = HookInterrupted \<and> (\<exists>p. published_by_call ps c = Some p \<and> result_count g opid (pb_call p) = 0))"

lemma continues_refl: "continues_account g opid ps acc acc"
  by (simp add: continues_account_def)

lemma closing_hook_fold:
  assumes a: "account sid g rs x ps acc" and c: "closing sid g g' x x' q hk rsl sg z" and d: "distinct (map ge_id (g_entries g))"
    and b: "recoverable g x"
  obtains acc' where "fold_result (check_hook g' ps) acc (hk @ rsl @ sg @ [z]) = Inr acc'" "continues_account g (op_id x) ps acc acc'"
proof -
  have quiet: "the_hook_result (ge_payload e) = None" if "e \<in> set (rsl @ sg @ [z])" for e
    using that closingD(7,8) [OF c] by (fastforce elim: result_part_in [OF closingD(6) [OF c]])
  have fold: "fold_result (check_hook g' ps) acc (hk @ rsl @ sg @ [z]) = fold_result (check_hook g' ps) acc hk"
  proof -
    have "fold_result (check_hook g' ps) s (rsl @ sg @ [z]) = Inr s" for s by (rule hook_fold_quiet) (use quiet in blast)
    then show ?thesis by (simp only: fold_result_append [of _ _ hk]) (cases "fold_result (check_hook g' ps) acc hk"; simp)
  qed
  show ?thesis
  proof (cases hk)
    case Nil
    then show ?thesis using that [of acc] fold by (simp add: continues_refl)
  next
    case (Cons e es)
    then obtain ef where ef: "os_effect (or_state x) = Some ef" "ae_kind ef = EffectHook" "hk = [e]"
      "ge_payload e = PHookResult (interrupted_hook sid (op_id x) ef)"
      using hook_part_in [OF closingD(5) [OF c], of e] by auto
    have bound: "effect_bound g x ef" using b ef(1) by (simp add: recoverable_def)
    have eff: "check_active_effect g rs (op_id x) acc (Some ef) = Inr ()" using accountD(9) [OF a] ef(1) by simp
    show ?thesis
    proof (cases "ae_request ef = []")
      case True
      obtain p where p: "published_by_call ps (ae_tool_call ef) = Some p" "result_count g (op_id x) (pb_call p) = 0"
        "check_call_hook g' ps acc e (interrupted_hook sid (op_id x) ef) =
           Inr (hook_after acc e (interrupted_hook sid (op_id x) ef) (ae_tool_call ef))"
        using closing_call_hook [OF a c d ef(1,2) True bound ef(3)] by blast
      have "check_hook g' ps acc e = Inr (hook_after acc e (interrupted_hook sid (op_id x) ef) (ae_tool_call ef))"
        using ef(4) p(3) True by (simp add: check_hook_def interrupted_hook_def)
      moreover have "continues_account g (op_id x) ps acc (hook_after acc e (interrupted_hook sid (op_id x) ef) (ae_tool_call ef))"
        using p(1,2) update_subset [of "ae_tool_call ef" HookInterrupted "last_status acc"]
        by (auto simp: continues_account_def hook_after_def interrupted_hook_def)
      ultimately show ?thesis using that fold ef(3) by simp
    next
      case False
      define h where "h = \<lparr>hx_extension = ae_extension ef, hx_hook = ae_hook ef, hx_call = [], hx_request = ae_request ef\<rparr>"
      have "h \<notin> set (settled_hooks acc)"
        using eff ef(2) False by (auto simp: h_def check_active_effect_def check_effect_reservation_def rbind_eq_Inr ensure_eq_Inr split: if_splits)
      then have "check_hook g' ps acc e = Inr (acc\<lparr>settled_hooks := settled_hooks acc @ [h]\<rparr>)"
        using ef(4) False by (simp add: check_hook_def interrupted_hook_def h_def Let_def)
      moreover have "continues_account g (op_id x) ps acc (acc\<lparr>settled_hooks := settled_hooks acc @ [h]\<rparr>)"
        by (simp add: continues_account_def)
      ultimately show ?thesis using that fold ef(3) by simp
    qed
  qed
qed

lemma same_limit:
  assumes "\<forall>r \<in> set rs. \<not> late o1 r" "\<forall>r \<in> set rs. \<not> late o2 r"
  shows "validate_hook_order hs rs o1 = Inr () \<longleftrightarrow> validate_hook_order hs rs o2 = Inr ()"
proof -
  have "hook_limit rs o1 = length rs" "hook_limit rs o2 = length rs"
    using assms by (simp_all add: hook_limit_def index_where_None [THEN iffD2])
  then show ?thesis by (simp add: validate_hook_order_def rbind_eq_Inr ensure_eq_Inr)
qed

lemma not_late_no_owner: "\<not> late no_owner r"
  by (simp add: late_def no_owner_def)

lemma call_successes_old:
  assumes "collect_hook_results g i ps = Inr acc"
  shows "set (call_successes acc c) \<subseteq> set (entries_of g i)"
proof (rule successes_old)
  show "fold_result (check_hook g ps) \<lparr>settled_hooks = [], last_status = [], successful = []\<rparr> (entries_of g i) = Inr acc"
    using assms unfolding collect_hook_results_ok by blast
qed (simp_all add: call_successes_def)

lemma closing_selection:
  assumes a: "account sid g rs x ps acc" and c: "closing sid g g' x x' q hk rsl sg z" and e: "e \<in> set (hk @ rsl @ sg @ [z])"
  shows "check_result_selection acc e = Inr ()"
proof (cases "e \<in> set rsl")
  case True
  obtain k where k: "k \<in> set (os_pending (or_state x))"
    "ge_payload e = PToolResult (interrupted_result sid (op_id x) (os_effect (or_state x)) (g_entries g @ hk) k)"
    using result_part_in [OF closingD(6) [OF c] True] by metis
  show ?thesis
  proof (cases "addresses EffectTool (os_effect (or_state x)) (pc_call k)")
    case True
    then obtain ef where ef: "os_effect (or_state x) = Some ef" "ae_kind ef = EffectTool" "ae_tool_call ef = pc_call k"
      by (auto simp: addresses_def split: option.splits)
    then have "validate_hook_order (ae_contributions ef) (call_successes acc (pc_call k)) no_owner = Inr ()"
      using accountD(9) [OF a] by (auto simp: check_active_effect_def check_effect_call_def rbind_eq_Inr)
    moreover have "\<forall>r \<in> set (call_successes acc (pc_call k)). \<not> late (ge_env e) r"
      using call_successes_old [OF accountD(6) [OF a]] growsD(5) [OF settling_stepD(1) [OF closingD(1) [OF c]] _ e]
      by (force simp: late_def entries_of_in)
    ultimately have "validate_hook_order (ae_contributions ef) (call_successes acc (pc_call k)) (ge_env e) = Inr ()"
      using same_limit [of _ no_owner] not_late_no_owner by metis
    with k(2) ef True show ?thesis by (simp add: check_result_selection_def interrupted_result_def Let_def)
  qed (use k(2) in \<open>simp add: check_result_selection_def interrupted_result_def Let_def\<close>)
next
  case False
  with e closing_not_result(1) [OF c, of e] show ?thesis by (simp add: check_result_selection_def)
qed

lemma closing_hooks:
  assumes a: "account sid g rs x ps acc" and c: "closing sid g g' x x' q hk rsl sg z" and d: "distinct (map ge_id (g_entries g))"
    and b: "recoverable g x"
  obtains acc' where "collect_hook_results g' (op_id x) ps = Inr acc'"
proof -
  note step = closingD(1) [OF c]
  note g = settling_stepD(1) [OF step]
  obtain acc' where acc': "fold_result (check_hook g' ps) acc (hk @ rsl @ sg @ [z]) = Inr acc'"
    "continues_account g (op_id x) ps acc acc'"
    using closing_hook_fold [OF assms] .
  have old: "fold_result (check_hook g ps) \<lparr>settled_hooks = [], last_status = [], successful = []\<rparr> (entries_of g (op_id x)) = Inr acc"
    "\<forall>e \<in> set (entries_of g (op_id x)). check_result_selection acc e = Inr ()"
    "\<forall>cs \<in> set (last_status acc). check_hook_consequence g ps cs = Inr ()"
    using accountD(6) [OF a] unfolding collect_hook_results_ok by blast+
  have fold: "fold_result (check_hook g' ps) \<lparr>settled_hooks = [], last_status = [], successful = []\<rparr> (entries_of g' (op_id x)) = Inr acc'"
    using hook_fold_grows [OF g old(1)] acc'(1) by (simp add: closing_entries [OF c] fold_result_append)
  have "call_successes acc' k = call_successes acc k" for k
    using acc'(2) by (simp add: call_successes_def continues_account_def)
  then have "check_result_selection acc' e = check_result_selection acc e" for e
    by (cases "the_tool_result (ge_payload e)") (simp_all add: check_result_selection_def)
  then have selection: "check_result_selection acc' e = Inr ()" if "e \<in> set (entries_of g' (op_id x))" for e
    using that old(2) closing_selection [OF a c] unfolding closing_entries [OF c] set_append [of "entries_of g (op_id x)"] by auto
  have interrupted: "tr_status t = ResultInterrupted"
    if "entry_by_id g i = None" "entry_by_id g' i = Some r" "ge_payload r = PToolResult t" for i r t
    using g that(2)
  proof (cases rule: grows_entry_cases)
    case 2
    from closing_result [OF c 2(2) that(3)] show ?thesis
      by (rule result_part_in [OF closingD(6) [OF c]]) (use that(3) in simp)
  qed (use that in simp)
  have "check_hook_consequence g' ps (k, s) = Inr ()" if s: "(k, s) \<in> set (last_status acc')" for k s
  proof (cases "(k, s) \<in> set (last_status acc)")
    case True
    then have ok: "check_hook_consequence g ps (k, s) = Inr ()" using old(3) by blast
    have "entry_by_id g i = Some r" if "entry_by_id g' i = Some r" "entry_by_id g i \<noteq> None" for i r
      using that grows_entry [OF g] by (cases "entry_by_id g i") auto
    with ok interrupted show ?thesis unfolding check_consequence_ok by metis
  next
    case False
    with acc'(2) s obtain p where p: "s = HookInterrupted" "published_by_call ps k = Some p" "result_count g (op_id x) (pb_call p) = 0"
      by (auto simp: continues_account_def)
    have "entry_by_id g (pb_result p) = None"
      using unresolved_entry [OF a _ p(3) settling_stepD(4) [OF step]] published_by_call_ok [OF accountD(11) [OF a]] p(2) by blast
    with p(1,2) interrupted show ?thesis unfolding check_consequence_ok by blast
  qed
  with fold selection have "collect_hook_results g' (op_id x) ps = Inr acc'" unfolding collect_hook_results_ok by fast
  then show ?thesis by (rule that)
qed

section \<open>Requests\<close>

lemma closing_request_hook:
  assumes "closing sid g g' x x' q hk rsl sg z" "e \<in> set (hk @ rsl @ sg @ [z])" "request_hook_of rid e"
  obtains ef where "os_effect (or_state x) = Some ef" "ae_kind ef = EffectHook" "hk = [e]" "ae_request ef = rid" "rid \<noteq> []"
    "ge_payload e = PHookResult (interrupted_hook sid (op_id x) ef)"
proof -
  have "e \<in> set hk"
  proof (rule ccontr)
    assume "e \<notin> set hk"
    with assms(2) have "e \<in> set rsl \<or> e \<in> set (sg @ [z])" by auto
    with assms(3) closingD(7,8) [OF assms(1)] show False
      by (auto simp: request_hook_of_def elim: result_part_in [OF closingD(6) [OF assms(1)]] dest: closingD(7) [OF assms(1)])
  qed
  with hook_part_in [OF closingD(5) [OF assms(1)]] obtain ef where ef: "os_effect (or_state x) = Some ef"
    "ae_kind ef = EffectHook" "hk = [e]" "ge_payload e = PHookResult (interrupted_hook sid (op_id x) ef)" by blast
  with assms(3) have "ae_request ef = rid" "rid \<noteq> []" by (auto simp: request_hook_of_def interrupted_hook_def)
  with ef that show ?thesis by blast
qed

lemma hook_named_interrupted: "ge_payload e = PHookResult (interrupted_hook sid opid ef) \<Longrightarrow>
    hook_named h e \<longleftrightarrow> h = \<lparr>hi_extension = ae_extension ef, hi_hook = ae_hook ef\<rparr>"
  by (auto simp: hook_named_def interrupted_hook_def)

lemma closing_unannounced:
  assumes c: "closing sid g g' x x' q hk rsl sg z" and b: "recoverable g x"
  shows "unannounced (entries_of g (op_id x)) (hk @ rsl @ sg @ [z])"
  unfolding unannounced_def
proof (intro ballI)
  fix e n assume e: "e \<in> set (entries_of g (op_id x))" and n: "n \<in> set (hk @ rsl @ sg @ [z])"
  have "\<not> hook_named h n"
    if ev: "request_evidence_of e = Some (rid, ev)" and r: "request_hook_of rid n" and h: "h \<in> set (ev_hooks ev)" for rid ev h
  proof -
    obtain ef where ef: "os_effect (or_state x) = Some ef" "ae_kind ef = EffectHook" "ae_request ef = rid" "rid \<noteq> []"
      "ge_payload n = PHookResult (interrupted_hook sid (op_id x) ef)"
      using closing_request_hook [OF c n r] by metis
    have "list_all (\<lambda>e. case request_evidence_of e of None \<Rightarrow> True | Some (rid, ev) \<Rightarrow> rid \<noteq> ae_request ef \<or>
        \<lparr>hi_extension = ae_extension ef, hi_hook = ae_hook ef\<rparr> \<notin> set (ev_hooks ev)) (entries_of g (op_id x))"
      using b ef by (simp add: recoverable_def effect_bound_def)
    with e ev ef(3) have "\<lparr>hi_extension = ae_extension ef, hi_hook = ae_hook ef\<rparr> \<notin> set (ev_hooks ev)"
      by (auto simp: list_all_iff)
    with h show ?thesis using hook_named_interrupted [OF ef(5)] by metis
  qed
  then show "case request_evidence_of e of None \<Rightarrow> True | Some (rid, ev) \<Rightarrow> request_hook_of rid n \<longrightarrow>
      (\<forall>h \<in> set (ev_hooks ev). \<not> hook_named h n)"
    by (auto split: option.splits)
qed

text \<open>The check of the effect, by what it says of an effect that has evidence.\<close>

lemma effect_request_ok:
  assumes "check_effect_request g x s = Inr ()" "os_effect (or_state x) = Some ef" "ae_request ef \<noteq> []" "ae_evidence ef = Some ev"
  shows "map_of (answered s) (ae_request ef) = None" "ae_request ef \<notin> set (failed_requests s)"
    "ae_kind ef = EffectHook \<Longrightarrow> \<lparr>hi_extension = ae_extension ef, hi_hook = ae_hook ef\<rparr> \<notin> set (ev_hooks ev)"
    "validate_evidence_refs g (op_id x) (Some ev) no_owner = Inr ()"
    "validate_evidence_names ev (oa_execution (or_admission x)) = Inr ()"
    "validate_hook_order (ev_hooks ev) (request_results g (op_id x) (ae_request ef)) no_owner = Inr ()"
  using assms by (auto simp: check_effect_request_def Let_def rbind_eq_Inr list_ex_iff split: if_splits)

lemma new_order:
  assumes c: "closing sid g g' x x' q hk rsl sg z" and e: "e \<in> set (hk @ rsl @ sg @ [z])"
    and ok: "validate_hook_order hs (request_results g i rid) no_owner = Inr ()"
  shows "validate_hook_order hs (request_results g i rid) (ge_env e) = Inr ()"
proof -
  have "\<forall>r \<in> set (request_results g i rid). \<not> late (ge_env e) r"
    using growsD(5) [OF settling_stepD(1) [OF closingD(1) [OF c]] _ e] by (force simp: late_def request_results_def entries_of_in)
  then show ?thesis using ok same_limit [of _ no_owner] not_late_no_owner by metis
qed

lemma closing_names:
  assumes c: "closing sid g g' x x' q hk rsl sg z" and e: "e \<in> set (hk @ rsl @ sg @ [z])"
    and ok: "validate_evidence_names ev (oa_execution (or_admission x)) = Inr ()"
  shows "names_accepted g' ev (ge_op e)"
proof -
  note step = closingD(1) [OF c]
  have "find_operation g (op_id x) = Some x"
    using find_operation_Some [OF settling_stepD(11) [OF step]] settling_stepD(5) [OF step] by simp
  then have "admission_of g' (op_id x) = Some (or_admission x)" using settling_admission [OF step] by (simp add: admission_of_def)
  then show ?thesis using ok settling_facts(1) [OF settling_stepD(3) [OF step e]] by (simp add: names_accepted_def)
qed

lemma closing_new_refs:
  assumes c: "closing sid g g' x x' q hk rsl sg z" and e: "e \<in> set (hk @ rsl @ sg @ [z])"
    and ok: "validate_evidence_names ev (oa_execution (or_admission x)) = Inr ()" "validate_evidence_refs g w (Some ev) no_owner = Inr ()"
  shows "validate_evidence_refs g' w' (Some ev) (ge_env e) = Inr ()"
  by (rule evidence_refs_settled [OF settling_stepD(1) [OF closingD(1) [OF c]] ok(2) e closing_names [OF c e ok(1)]])

lemma closing_hook_request:
  assumes c: "closing sid g g' x x' q hk rsl sg z" and b: "recoverable g x" and eff: "check_effect_request g x s = Inr ()"
  shows "\<exists>s'. fold_result (check_request_entry g' (op_id x) auto) s hk = Inr s'"
proof (cases hk)
  case (Cons e es)
  then obtain ef where ef: "os_effect (or_state x) = Some ef" "ae_kind ef = EffectHook" "hk = [e]"
    "ge_payload e = PHookResult (interrupted_hook sid (op_id x) ef)"
    using hook_part_in [OF closingD(5) [OF c], of e] by auto
  have e: "e \<in> set (hk @ rsl @ sg @ [z])" using ef(3) by simp
  show ?thesis
  proof (cases "ae_request ef = []")
    case True
    then show ?thesis using ef by (simp add: check_request_entry_def interrupted_hook_def)
  next
    case False
    obtain ev where ev: "ae_evidence ef = Some ev" using b ef(1,2) False by (auto simp: recoverable_def effect_bound_def)
    note ok = effect_request_ok [OF eff ef(1) False ev]
    have "request_results g' (op_id x) (ae_request ef) = request_results g (op_id x) (ae_request ef) @
        filter (request_hook_of (ae_request ef)) (hk @ rsl @ sg @ [z])"
      using request_results_grow [OF closingD(1) [OF c], of "op_id x" "ae_request ef"] by (simp add: request_hook_of_def [abs_def])
    moreover have "f = e" if "f \<in> set (filter (request_hook_of (ae_request ef)) (hk @ rsl @ sg @ [z]))" for f
    proof -
      have f: "f \<in> set (hk @ rsl @ sg @ [z])" "request_hook_of (ae_request ef) f" using that unfolding set_filter by blast+
      show ?thesis by (rule closing_request_hook [OF c f]) (use ef(3) in simp)
    qed
    moreover have "0 < ge_seq e" using closingD(2) [OF c] e unfolding ascending_after_def by blast
    then have "late (ge_env e) e" by (simp add: late_def)
    moreover have "\<not> hook_named h e" if "h \<in> set (ev_hooks ev)" for h
      using ok(3) [OF ef(2)] that hook_named_interrupted [OF ef(4)] by metis
    ultimately have "validate_hook_order (ev_hooks ev) (request_results g' (op_id x) (ae_request ef)) (ge_env e) = Inr ()"
      using hook_order_late new_order [OF c e ok(6)] by metis
    moreover have "validate_evidence_refs g' (ge_id e) (Some ev) (ge_env e) = Inr ()"
      by (rule closing_new_refs [OF c e ok(5,4)])
    ultimately show ?thesis using ok(1,2) ef False ev
      by (simp add: check_request_entry_def check_request_hook_def interrupted_hook_def Let_def)
  qed
qed simp

lemma closing_settlement_request:
  assumes c: "closing sid g g' x x' q hk rsl sg z" and b: "recoverable g x" and eff: "check_effect_request g x s = Inr ()"
  shows "check_settlement_request g' (op_id x) auto z (settlement_of sid (op_id x) (ge_id z) q (or_state x)) = Inr ()"
proof -
  have q: "sq_assistant q = None" "sq_facts q = None" "\<not> sq_compaction q"
    using closingD(4) [OF c] by (simp_all add: plain_settlement_def)
  define w where "w = settlement_of sid (op_id x) (ge_id z) q (or_state x)"
  have w: "\<not> st_compaction_usage w" "st_evidence w = settlement_evidence True False None (or_state x)"
    "st_request w = fst (settlement_witness True False None (sq_maintenance q) (or_state x))"
    using q by (simp_all add: w_def settlement_of_def Let_def)
  show ?thesis
  proof (cases "st_evidence w")
    case (Some ev)
    obtain ef where ef: "os_effect (or_state x) = Some ef" "ae_kind ef = EffectModel" "ae_evidence ef = Some ev"
      using Some w(2) by (auto simp: settlement_evidence_def is_effect_def split: if_splits option.splits)
    have bound: "ae_request ef \<noteq> []"
      "ae_purpose ef = PurposeMaintenance \<or>
       (case os_request (or_state x) of None \<Rightarrow> True | Some rr \<Rightarrow> rr_request rr = ae_request ef)"
      using b ef by (simp_all add: recoverable_def effect_bound_def)
    have key: "st_request w = ae_request ef"
      using w(3) ef bound by (auto simp: settlement_witness_def is_effect_def Let_def split: option.splits)
    note ok = effect_request_ok [OF eff ef(1) bound(1) ef(3)]
    have "filter (request_hook_of (ae_request ef)) (hk @ rsl @ sg @ [z]) = []"
      unfolding filter_empty_conv using closing_request_hook [OF c] ef(1,2) by (metis effect_kind.distinct(3) option.inject)
    then have "request_results g' (op_id x) (ae_request ef) = request_results g (op_id x) (ae_request ef)"
      using request_results_grow [OF closingD(1) [OF c], of "op_id x" "ae_request ef"] by (simp add: request_hook_of_def [abs_def])
    then have "validate_hook_order (ev_hooks ev) (request_results g' (op_id x) (ae_request ef)) (ge_env z) = Inr ()"
      using new_order [OF c _ ok(6), of z] by simp
    moreover have "validate_evidence_refs g' (ge_id z) (Some ev) (ge_env z) = Inr ()"
      by (rule closing_new_refs [OF c _ ok(5,4)]) simp
    ultimately show ?thesis using Some w(1) key by (simp add: check_settlement_request_def w_def [symmetric])
  qed (simp add: check_settlement_request_def w_def)
qed

lemma closing_requests:
  assumes a: "account sid g rs x ps acc" and c: "closing sid g g' x x' q hk rsl sg z" and b: "recoverable g x"
    and pos: "\<forall>e \<in> set (g_entries g). 0 < ge_seq e"
  shows "collect_request_domain sid g' x' = Inr ()"
proof -
  note step = closingD(1) [OF c]
  define auto where "auto = (oa_kind (or_admission x) = RequestMessage)"
  obtain s where s: "fold_result (check_request_entry g (op_id x) auto) request_start (entries_of g (op_id x)) = Inr s"
    "producers_once (op_id x) [] (map mf_request (concat (map entry_facts (entries_of g (op_id x))))) = Inr ()"
    "check_effect_request g x s = Inr ()"
    using accountD(10) [OF a] unfolding collect_request_domain_ok auto_def by blast
  have "find_operation g (op_id x) = Some x"
    using find_operation_Some [OF settling_stepD(11) [OF step]] settling_stepD(5) [OF step] by simp
  then have adm: "admission_of g (op_id x) \<noteq> None" by (simp add: admission_of_def)
  note old = request_fold_grows [OF step pos adm closing_unannounced [OF c b] s(1)]
  obtain s' where hk: "fold_result (check_request_entry g' (op_id x) auto) s hk = Inr s'"
    using closing_hook_request [OF c b s(3)] by blast
  have neutral: "fold_result (check_request_entry g' (op_id x) auto) t es = Inr t"
    if "\<forall>e \<in> set es. (\<exists>r. ge_payload e = PToolResult r) \<or> (\<exists>r. ge_payload e = PSignal r)" for t es
    using that by (induction es) (auto simp: check_request_entry_def)
  have parts: "fold_result (check_request_entry g' (op_id x) auto) s' rsl = Inr s'"
    "fold_result (check_request_entry g' (op_id x) auto) s' sg = Inr s'"
    using closingD(7) [OF c] by (intro neutral ballI; blast elim: result_part_in [OF closingD(6) [OF c]])+
  have z: "check_request_entry g' (op_id x) auto s' z = Inr s'"
    using closing_settlement_request [OF c b s(3)] closingD(8) [OF c] by (simp add: check_request_entry_def)
  have fold: "fold_result (check_request_entry g' (op_id x) auto) request_start (entries_of g' (op_id x)) = Inr s'"
    unfolding closing_entries [OF c] by (simp add: fold_result_append old hk parts z)
  have facts: "concat (map entry_facts (entries_of g' (op_id x))) = concat (map entry_facts (entries_of g (op_id x)))"
    unfolding closing_entries [OF c] map_append concat_append [of "map entry_facts (entries_of g (op_id x))"]
    using settling_facts(4) [OF settling_stepD(3) [OF step]] by simp
  have id: "op_id x' = op_id x" "or_admission x' = or_admission x"
    using settling_operations(3) [OF step] settling_stepD(7) [OF step] by simp_all
  have "os_effect (or_state x') = None" "os_request (or_state x') = None"
    using closingD(9) [OF c] by (auto simp: settled_state_def)
  with fold s(2) facts id show ?thesis
    unfolding collect_request_domain_ok auto_def by (simp add: check_effect_request_def validate_running_request_def)
qed

section \<open>The closed operation\<close>

lemma closed_operation_accepted:
  assumes a: "account sid g rs x ps acc" and c: "closing sid g g' x x' q hk rsl sg z" and b: "recoverable g x"
    and d: "distinct (map ge_id (g_entries g))" and pos: "\<forall>e \<in> set (g_entries g). 0 < ge_seq e"
  shows "validate_operation sid g' rs x' = Inr ()"
proof -
  note step = closingD(1) [OF c]
  note id = settling_operations(3) [OF step]
  obtain acc' where hooks: "collect_hook_results g' (op_id x) ps = Inr acc'" using closing_hooks [OF a c d b] .
  have "\<not> is_running x'"
    using closingD(4,9) [OF c] by (auto simp: is_running_def settled_state_def plain_settlement_def)
  moreover have "validate_admission sid g' x' = Inr ()"
    using admission_grows [OF settling_stepD(1) [OF step] accountD(3) [OF a]] settling_stepD(7) [OF step] by blast
  moreover have "collect_published g' (op_id x) = Inr ps" using settling_published [OF step] accountD(4) [OF a] by simp
  ultimately show ?thesis
    using closing_tool_results [OF a c] hooks closing_terminal [OF a c d] closing_requests [OF a c b pos]
    by (simp add: validate_operation_def id)
qed

end
