(* ===== verification/Session_Recovery.thy ===== *)
theory Session_Recovery
  imports Session_Close
begin

text \<open>
  Settling the running operation of an accepted Session, as recovery does after the Runtime was lost, leaves an accepted
  Session in which nothing runs, with the history it had and the interrupted results, hook and settlement behind it.
\<close>

section \<open>What accepted graphs have\<close>

lemma accepted_totals:
  assumes "validate_graph sid g = Inr ()"
  shows "canonical_totals (ss_usage (sr_state (g_session g)))"
    "\<And>y. y \<in> set (g_operations g) \<Longrightarrow> canonical_totals (os_usage (or_state y))"
proof -
  obtain rs where "validate_usage g = Inr ()" using validate_graph_parts [OF assms] by metis
  then obtain m where m: "fold_result record_entry_usage \<lparr>session_counts = [], operation_counts = []\<rparr> (g_entries g) = Inr m"
    "\<forall>y \<in> set (g_operations g). totals_of_counts (op_counts m (op_id y)) = os_usage (or_state y)"
    "totals_of_counts (session_counts m) = ss_usage (sr_state (g_session g))"
    by (auto simp: validate_usage_def rbind_eq_Inr first_error_ok ensure_eq_Inr)
  have "in_tokens \<in> usage_fields" by (simp add: usage_fields_def)
  from record_entries_ok [OF this m(1)] have "maps_ok m" by (simp add: maps_ok_def op_counts_def)
  with m(2,3) show "canonical_totals (ss_usage (sr_state (g_session g)))"
    "\<And>y. y \<in> set (g_operations g) \<Longrightarrow> canonical_totals (os_usage (or_state y))"
    using canonical_totals_of_counts unfolding maps_ok_def by metis+
qed

definition stored :: "graph_entry list \<Rightarrow> bool" where
  "stored es \<longleftrightarrow> wf_calls es \<and> (\<forall>e \<in> set es. 0 < ge_seq e)"

lemma reservation_operations:
  assumes "validate_graph sid g = Inr ()" "collect_reservations g = Inr rs" "r \<in> set rs" "rs_operation r = op_id x" "op_id x \<noteq> []"
    and a: "account sid g rs x ps acc"
  shows "\<exists>p \<in> set ps. pb_result p = rs_result r \<and> pb_call p = rs_call r \<and> pb_assistant p = rs_assistant r"
proof -
  have "rs = concat (map entry_reservations (g_entries g))"
    using assms(2) unfolding collect_reservations_def by (auto dest: collect_reservations_from_ok)
  with assms(3) obtain e c where e: "e \<in> set (g_entries g)" "c \<in> set (entry_calls e)"
    "r = \<lparr>rs_result = tc_result_entry c, rs_call = tc_id c, rs_assistant = ge_id e, rs_operation = ge_op e\<rparr>"
    by (auto simp: entry_reservations_def)
  with assms(4,5) have "e \<in> set (entries_of g (op_id x))" by (simp add: entries_of_in)
  with e(2) have "\<lparr>pb_call = tc_id c, pb_assistant = ge_id e, pb_result = tc_result_entry c\<rparr> \<in> set ps"
    using collect_published_ok [OF accountD(4) [OF a]] by (auto simp: entry_published_def)
  with e(3) show ?thesis by force
qed

lemma same_reservation:
  assumes "collect_reservations g = Inr rs" "r \<in> set rs" "r' \<in> set rs" "rs_result r = rs_result r'"
  shows "r = r'"
proof -
  have "distinct (map rs_result rs)"
    using assms(1) unfolding collect_reservations_def by (auto dest: collect_reservations_from_ok)
  with assms(2-4) show ?thesis by (metis (no_types, lifting) distinct_map inj_on_def)
qed

section \<open>The settlement of an interrupted operation\<close>

lemma settlement_step:
  assumes g: "tx_graph t = g" and sid: "sid = session_id g" and ok: "validate_graph sid g = Inr ()"
    and x: "find_operation g opid = Some x" "is_running x" and q: "plain_settlement q" and b: "recoverable g x"
    and st: "stored (g_entries g)"
    and c: "commit_terminal_settlement env opid (g_session g) x srev orev q t = Inr ((x', s', es), t')"
  obtains hk rsl sg z where "es = hk @ rsl @ sg @ [z]" "closing sid g (tx_graph t') x x' q hk rsl sg z"
    "signal_part sid opid (set (tx_fresh t)) sg"
    "ge_id z \<in> set (tx_fresh t) \<or> is_effect EffectModel (os_effect (or_state x)) \<and> ge_id z = ae_result_entry (the (os_effect (or_state x)))"
    "g_session (tx_graph t') = idle_session srev (g_session g)" "x' = settled_operation sid (ge_id z) (en_committed_at (ge_env z)) orev q x"
proof -
  obtain rs where p: "distinct (map op_id (g_operations g))" "distinct (map ge_id (g_entries g))"
    using validate_graph_parts [OF ok] by metis
  have x_in: "x \<in> set (g_operations g)" "op_id x = opid" using find_operation_Some [OF p(1)] x(1) by blast+
  have "opid \<noteq> []" using running_operation_is_current [OF ok] x_in x(2) by metis
  have cop: "canonical_totals (os_usage (or_state x))" and cs: "canonical_totals (ss_usage (sr_state (g_session g)))"
    using accepted_totals [OF ok] x_in(1) by blast+
  obtain hk rsl sg z t3 f where s: "es = hk @ rsl @ sg @ [z]" "appends opid t es t3"
    "hook_part sid opid (os_effect (or_state x)) hk" "result_part f (os_pending (or_state x)) rsl"
    "f = interrupted_result sid opid (os_effect (or_state x)) (g_entries g @ hk)"
    "signal_part sid opid (set (tx_fresh t)) sg"
    "ge_payload z = PSettlement (settlement_of sid opid (ge_id z) q (or_state x))"
    "ge_id z \<in> set (tx_fresh t) \<or> is_effect EffectModel (os_effect (or_state x)) \<and> ge_id z = ae_result_entry (the (os_effect (or_state x)))"
    "x' = settled_operation sid (ge_id z) (en_committed_at (ge_env z)) orev q x" "s' = idle_session srev (g_session g)"
    "tx_graph t' = (tx_graph t3)\<lparr>g_operations := fst (replace_operation opid x' (g_operations g)), g_session := s'\<rparr>"
    using settlement_shape [OF c q cop cs] sid g by metis
  note app = appendsD [OF s(2), unfolded g]
  have entries: "g_entries (tx_graph t') = g_entries g @ es" and ops: "g_operations (tx_graph t') = fst (replace_operation opid x' (g_operations g))"
    using s(11) app(1) by simp_all
  have settling: "settling_entry opid e" if "e \<in> set es" for e
  proof -
    have "sq_facts q = None" "sq_usage q = None" "sq_assistant q = None" using q by (simp_all add: plain_settlement_def)
    then have "settling_entry opid z" using s(1,7) app(5) by (simp add: settling_entry_def settlement_of_def facts_list_def Let_def)
    moreover have "e \<in> set hk \<Longrightarrow> settling_entry opid e" using hook_part_in [OF s(3), of e] app(5) s(1) by (auto simp: settling_entry_def)
    moreover have "e \<in> set rsl \<Longrightarrow> settling_entry opid e"
      using app(5) s(1) by (auto simp: settling_entry_def elim: result_part_in [OF s(4)])
    moreover have "e \<in> set sg \<Longrightarrow> settling_entry opid e" using app(5) s(1,6) by (auto simp: settling_entry_def signal_part_def)
    ultimately show ?thesis using that s(1) by auto
  qed
  have id': "op_id x' = opid" "or_admission x' = or_admission x" using s(9) x_in(2) by (simp_all add: settled_operation_def)
  have new: "\<forall>e \<in> set (g_entries g). \<forall>n \<in> set es. ge_seq e < ge_seq n" "\<forall>n \<in> set es. 0 < ge_seq n"
    using app(4) unfolding ascending_after_def by blast+
  have ops': "g_operations (tx_graph t') = map (\<lambda>y. if op_id y = op_id x then x' else y) (g_operations g)"
    using ops replace_operation_map [OF p(1)] x_in(2) by simp
  have "admission_of (tx_graph t') i = admission_of g i" for i
  proof -
    have "map_option or_admission (find (\<lambda>y. op_id y = i) (map (\<lambda>y. if op_id y = op_id x then x' else y) ys)) =
        map_option or_admission (find (\<lambda>y. op_id y = i) ys)" if "\<forall>y \<in> set ys. op_id y = op_id x \<longrightarrow> y = x" for ys
      using that id' x_in(2) by (induction ys) auto
    moreover have "\<forall>y \<in> set (g_operations g). op_id y = op_id x \<longrightarrow> y = x" using same_operation [OF p(1) x_in(1)] by blast
    ultimately show ?thesis using ops' by (simp add: admission_of_def find_operation_def)
  qed
  moreover have "distinct (map ge_id (g_entries g @ es))"
  proof -
    have "i \<notin> ge_id ` set (g_entries g)" if "i \<in> ge_id ` set es" for i
    proof -
      from that obtain n where "n \<in> set es" "i = ge_id n" by blast
      with app(7) show ?thesis by simp
    qed
    then have "ge_id ` set (g_entries g) \<inter> ge_id ` set es = {}" by blast
    then show ?thesis unfolding map_append distinct_append set_map using p(2) app(3) by blast
  qed
  ultimately have graph_grows: "graph_grows g (tx_graph t') es" using new(1) entries by (simp add: graph_grows_def)
  have "wf_calls (g_entries (tx_graph t'))"
    using st new(2) settling_facts(2) [OF settling] entries by (auto simp: stored_def wf_calls_def less_imp_le)
  with graph_grows settling \<open>opid \<noteq> []\<close> p(1) x_in ops' id'(2) have step: "settling_step g (tx_graph t') es x x'"
    using s(10,11) by (simp add: settling_step_def idle_session_def)
  have "en_kind (ge_env e) = payload_kind (ge_payload e)" if "e \<in> set es" for e using app(6) that .
  with step app(4) q s x_in(2) have "closing sid g (tx_graph t') x x' q hk rsl sg z"
    unfolding closing_def signal_part_def by (auto simp: settled_operation_def)
  with that s show ?thesis by simp
qed

definition reserved :: "session_graph \<Rightarrow> string set" where
  "reserved g = tc_result_entry ` set (all_calls g)"

lemma reserved_results:
  assumes "collect_reservations g = Inr rs"
  shows "rs_result ` set rs = reserved g"
proof -
  have "rs = concat (map entry_reservations (g_entries g))"
    using assms unfolding collect_reservations_def by (auto dest: collect_reservations_from_ok)
  then have "map rs_result rs = map tc_result_entry (all_calls g)" by (simp add: reservations_of_calls all_calls_def)
  then show ?thesis unfolding reserved_def using image_set by metis
qed

lemma effect_not_reserved:
  assumes "check_active_effect g rs opid acc (Some ef) = Inr ()" "ae_kind ef = EffectModel \<or> ae_kind ef = EffectHook"
  shows "ae_result_entry ef \<notin> rs_result ` set rs" "entry_by_id g (ae_result_entry ef) = None"
  using assms by (auto simp: check_active_effect_def check_effect_reservation_def rbind_eq_Inr split: if_splits)

lemma closing_reserved:
  assumes a: "account sid g rs x ps acc" and c: "closing sid g g' x x' q hk rsl sg z"
    and fresh: "\<And>e. e \<in> set sg \<Longrightarrow> ge_id e \<notin> rs_result ` set rs"
      "ge_id z \<notin> rs_result ` set rs \<or>
       is_effect EffectModel (os_effect (or_state x)) \<and> ge_id z = ae_result_entry (the (os_effect (or_state x)))"
    and e: "e \<in> set (hk @ rsl @ sg @ [z])"
  shows "reserved_result sid rs e"
proof (cases "e \<in> set rsl")
  case True
  obtain k where k: "k \<in> set (os_pending (or_state x))" "ge_id e = pc_result_entry k"
    "ge_payload e = PToolResult (interrupted_result sid (op_id x) (os_effect (or_state x)) (g_entries g @ hk) k)"
    using result_part_in [OF closingD(6) [OF c] True] .
  obtain p where p: "p \<in> set ps" "pending_matches sid p k" using pending_call_published [OF a k(1)] .
  let ?r = "\<lparr>rs_result = pb_result p, rs_call = pb_call p, rs_assistant = pb_assistant p, rs_operation = op_id x\<rparr>"
  have "?r \<in> set rs" using published_reserved [OF accountD(1,4) [OF a] p(1)] .
  then have r: "r = ?r" if "r \<in> set rs" "rs_result r = ge_id e" for r
    using same_reservation [OF accountD(1) [OF a] that(1)] that(2) k(2) p(2) by (simp add: pending_matches_def)
  have "ge_op e = op_id x" using settling_facts(1) [OF settling_stepD(3) [OF closingD(1) [OF c] e]] .
  moreover have "en_kind (ge_env e) = KindToolResult" using closingD(3) [OF c e] k(3) by simp
  ultimately show ?thesis unfolding reserved_result_def
    using k(3) p(2) by (intro ballI impI) (drule (1) r, simp add: pending_matches_def)
next
  case False
  note eff = effect_not_reserved(1) [of g rs "op_id x" acc]
  have "ge_id e \<notin> rs_result ` set rs"
  proof -
    have "e \<in> set hk \<Longrightarrow> ge_id e \<notin> rs_result ` set rs"
      using hook_part_in [OF closingD(5) [OF c], of e] eff accountD(9) [OF a] by metis
    moreover have "ge_id z \<notin> rs_result ` set rs"
    proof (cases "ge_id z \<in> rs_result ` set rs")
      case True
      with fresh(2) obtain ef where "os_effect (or_state x) = Some ef" "ae_kind ef = EffectModel" "ge_id z = ae_result_entry ef"
        by (auto simp: is_effect_def split: option.splits)
      with eff accountD(9) [OF a] show ?thesis by metis
    qed
    ultimately show ?thesis using e False fresh(1) by auto
  qed
  then show ?thesis by (force simp: reserved_result_def)
qed

lemma settled_session_state:
  assumes ok: "validate_graph sid g = Inr ()" and step: "settling_step g g' es x x'" and x: "is_running x" "\<not> is_running x'"
    and cur: "ss_current_operation (sr_state (g_session g')) = []"
  shows "validate_session_state g' = Inr ()" "\<forall>y \<in> set (g_operations g'). \<not> is_running y"
proof -
  have "\<not> is_running y" if y: "y \<in> set (g_operations g')" for y
  proof (cases "y = x'")
    case False
    with settling_operations(4) [OF step y] have "y \<in> set (g_operations g)" "op_id y \<noteq> op_id x" by blast+
    with running_operation_is_current [OF ok] x(1) settling_stepD(5) [OF step] show ?thesis by metis
  qed (use x(2) in simp)
  then show quiet: "\<forall>y \<in> set (g_operations g'). \<not> is_running y" by blast
  then have none: "filter is_running (g_operations g') = []" by simp
  have "validate_session_state g = Inr ()" using validate_graph_parts [OF ok] by metis
  then have ck: "ss_checkpoint (sr_state (g_session g)) = [] \<or>
      (\<exists>e. entry_by_id g (ss_checkpoint (sr_state (g_session g))) = Some e \<and> the_compaction (ge_payload e) \<noteq> None)"
    by (auto simp: validate_session_state_def Let_def rbind_eq_Inr split: if_splits option.splits)
  have ck': "\<not> (ss_checkpoint (sr_state (g_session g')) \<noteq> [] \<and>
      (case entry_by_id g' (ss_checkpoint (sr_state (g_session g'))) of None \<Rightarrow> True | Some e \<Rightarrow> the_compaction (ge_payload e) = None))"
    using ck grows_entry [OF settling_stepD(1) [OF step]] settling_stepD(9) [OF step] by auto
  show "validate_session_state g' = Inr ()"
    unfolding validate_session_state_def none Let_def cur by (simp only: if_not_P [OF ck'] list.size) simp
qed

lemma plain_settlement_accepted:
  assumes g: "tx_graph t = g" and sid: "sid = session_id g" and ok: "validate_graph sid g = Inr ()"
    and x: "find_operation g opid = Some x" "is_running x" and q: "plain_settlement q" and b: "recoverable g x"
    and st: "stored (g_entries g)" and fresh: "set (tx_fresh t) \<inter> reserved g = {}"
    and c: "commit_terminal_settlement env opid (g_session g) x srev orev q t = Inr ((x', s', es), t')"
  shows "validate_graph sid (tx_graph t') = Inr ()" "\<forall>y \<in> set (g_operations (tx_graph t')). \<not> is_running y"
    "g_entries (tx_graph t') = g_entries g @ es"
proof -
  obtain hk rsl sg z where s: "es = hk @ rsl @ sg @ [z]" "closing sid g (tx_graph t') x x' q hk rsl sg z"
    "signal_part sid opid (set (tx_fresh t)) sg"
    "ge_id z \<in> set (tx_fresh t) \<or> is_effect EffectModel (os_effect (or_state x)) \<and> ge_id z = ae_result_entry (the (os_effect (or_state x)))"
    "g_session (tx_graph t') = idle_session srev (g_session g)" "x' = settled_operation sid (ge_id z) (en_committed_at (ge_env z)) orev q x"
    using settlement_step [OF g sid ok x q b st c] .
  note step = closingD(1) [OF s(2)]
  obtain rs where rs: "collect_reservations g = Inr rs" and d: "distinct (map ge_id (g_entries g))"
    using validate_graph_parts [OF ok] by metis
  have x_in: "x \<in> set (g_operations g)" "op_id x = opid"
    using settling_stepD(5) [OF step] find_operation_id [OF x(1)] by simp_all
  obtain ps acc where a: "account sid g rs x ps acc" using accountI [OF ok x_in(1) x(2) rs] .
  have pos: "\<forall>e \<in> set (g_entries g). 0 < ge_seq e" using st by (simp add: stored_def)
  have closed: "\<not> is_running x'" using s(6) q by (simp add: settled_operation_def settled_state_def plain_settlement_def is_running_def)
  note state = settled_session_state [OF ok step x(2) closed]
  have unreserved: "i \<notin> rs_result ` set rs" if "i \<in> set (tx_fresh t)" for i using that fresh reserved_results [OF rs] by auto
  have res: "reserved_result sid rs e" if "e \<in> set (hk @ rsl @ sg @ [z])" for e
    using closing_reserved [OF a s(2) _ _ that] unreserved s(3,4) by (auto simp: signal_part_def)
  have cur: "ss_current_operation (sr_state (g_session (tx_graph t'))) = []" using s(5) by (simp add: idle_session_def)
  have sig: "sg_related_operation k = Some \<lparr>opr_session = sid, opr_operation = op_id x\<rparr>"
    if e: "e \<in> set (hk @ rsl @ sg @ [z])" "ge_payload e = PSignal k" for e k
  proof -
    have "e \<in> set sg" using e hook_part_in [OF closingD(5) [OF s(2)]] closingD(8) [OF s(2)]
      by (fastforce elim: result_part_in [OF closingD(6) [OF s(2)]])
    with s(3) e(2) x_in(2) show ?thesis by (auto simp: signal_part_def)
  qed
  show "validate_graph sid (tx_graph t') = Inr ()"
    using settling_step_accepted [OF ok rs step pos x(2) closing_unannounced [OF s(2) b] res sig state(1) [OF cur] _ _
        closed_operation_accepted [OF a s(2) b d pos]] s(5,6)
    by (simp add: settled_operation_def settled_state_def idle_session_def)
  show "\<forall>y \<in> set (g_operations (tx_graph t')). \<not> is_running y" by (rule state(2) [OF cur])
  show "g_entries (tx_graph t') = g_entries g @ es" using settling_stepD(10) [OF step] s(1) by simp
qed

section \<open>Recovery\<close>

lemma recovery_plain: "plain_settlement recovery_request"
  by (simp add: plain_settlement_def recovery_request_def)

lemma recovery_accepted:
  assumes "validate_graph (session_id (tx_graph t)) (tx_graph t) = Inr ()"
    and "find_operation (tx_graph t) opid = Some x" "is_running x" "recoverable (tx_graph t) x"
    and "stored (g_entries (tx_graph t))" "set (tx_fresh t) \<inter> reserved (tx_graph t) = {}"
    and "recover_running_operation env opid t = Inr t'"
  shows "validate_graph (session_id (tx_graph t)) (tx_graph t') = Inr () \<and>
    (\<forall>y \<in> set (g_operations (tx_graph t')). \<not> is_running y) \<and> (\<exists>es. g_entries (tx_graph t') = g_entries (tx_graph t) @ es)"
proof -
  obtain x' s' es where "commit_terminal_settlement env opid (g_session (tx_graph t)) x
      (sr_revision (g_session (tx_graph t))) (or_revision x) recovery_request t = Inr ((x', s', es), t')"
    using assms(2,3,7) by (auto simp: recover_running_operation_def read_operation_def rbind_eq_Inr)
  from plain_settlement_accepted [OF refl refl assms(1-3) recovery_plain assms(4-6) this] show ?thesis by blast
qed

text \<open>Nothing but the codec, a foreign identity, the supply of identities or an exhausted counter stops it.\<close>

definition accepting :: "tx_env \<Rightarrow> bool" where
  "accepting env \<longleftrightarrow> (\<forall>p. te_entry_ok env p) \<and> (\<forall>x. te_operation_ok env x) \<and> (\<forall>s. te_session_ok env s) \<and>
     (\<forall>i. \<not> te_elsewhere env i)"

abbreviation entry_ids :: "tx \<Rightarrow> string set" where
  "entry_ids t \<equiv> ge_id ` set (g_entries (tx_graph t))"

definition room :: "tx \<Rightarrow> nat \<Rightarrow> bool" where
  "room t n \<longleftrightarrow> highest_sequence (g_entries (tx_graph t)) + int n \<le> last_int64"

lemma highest_sequence_snoc: "ge_seq e = highest_sequence es + 1 \<Longrightarrow> highest_sequence (es @ [e]) = highest_sequence es + 1"
proof -
  assume e: "ge_seq e = highest_sequence es + 1"
  have "foldr max xs (max a b) = max a (foldr max xs b)" for xs and a b :: int by (induction xs) auto
  from this [of "map ge_seq es" "ge_seq e" 0] e highest_sequence_ge(2) [of es] show ?thesis
    by (simp add: highest_sequence_def)
qed

lemma insert_returns:
  assumes "accepting env" "i \<notin> entry_ids t" "room t (Suc n)"
  obtains e t1 where "insert_and_adopt env i opid p t = Inr (e, t1)" "room t1 n" "entry_ids t1 = insert i (entry_ids t)"
    "tx_fresh t1 = tx_fresh t"
proof -
  define q where "q = highest_sequence (g_entries (tx_graph t))"
  define e where "e = \<lparr>ge_env = \<lparr>en_session = session_id (tx_graph t), en_id = i, en_sequence = q + 1, en_operation = opid,
            en_kind = payload_kind p, en_committed_at = te_now env (q + 1)\<rparr>, ge_payload = p\<rparr>"
  have "q \<noteq> last_int64" using assms(3) by (simp add: room_def q_def)
  then have ok: "insert_and_adopt env i opid p t =
      Inr (e, t\<lparr>tx_graph := (tx_graph t)\<lparr>g_entries := g_entries (tx_graph t) @ [e]\<rparr>\<rparr>)"
    using assms(1,2) by (simp add: insert_and_adopt_def Let_def accepting_def e_def q_def)
  have "room (t\<lparr>tx_graph := (tx_graph t)\<lparr>g_entries := g_entries (tx_graph t) @ [e]\<rparr>\<rparr>) n"
    using assms(3) highest_sequence_snoc [of e "g_entries (tx_graph t)"] by (simp add: room_def e_def q_def)
  with ok that show ?thesis by (simp add: e_def)
qed

lemma insert_results_returns:
  "accepting env \<Longrightarrow> distinct (map pc_result_entry ps) \<Longrightarrow> pc_result_entry ` set ps \<inter> entry_ids t = {} \<Longrightarrow>
     room t (length ps + n) \<Longrightarrow>
     \<exists>es t1. insert_results env opid f ps t = Inr (es, t1) \<and> room t1 n \<and>
       entry_ids t1 = entry_ids t \<union> pc_result_entry ` set ps \<and> tx_fresh t1 = tx_fresh t"
proof (induction ps arbitrary: t)
  case (Cons p ps)
  have new: "pc_result_entry p \<notin> entry_ids t" "room t (Suc (length ps + n))" using Cons.prems(3,4) by simp_all
  obtain e t1 where e: "insert_and_adopt env (pc_result_entry p) opid (PToolResult (f p)) t = Inr (e, t1)"
    "room t1 (length ps + n)" "entry_ids t1 = insert (pc_result_entry p) (entry_ids t)" "tx_fresh t1 = tx_fresh t"
    by (rule insert_returns [OF Cons.prems(1) new])
  have "pc_result_entry ` set ps \<inter> entry_ids t1 = {}" using Cons.prems(2,3) e(3) by auto
  from Cons.IH [OF Cons.prems(1) _ this e(2)] Cons.prems(2) obtain es t2 where
    "insert_results env opid f ps t1 = Inr (es, t2)" "room t2 n"
    "entry_ids t2 = entry_ids t1 \<union> pc_result_entry ` set ps" "tx_fresh t2 = tx_fresh t1" by auto
  with e show ?case by (auto simp: rbind_eq_Inr)
qed simp

lemma distinct_filtered:
  "distinct (map f (concat (map h xs))) \<Longrightarrow> distinct (map f (concat (map h (filter P xs))))"
  by (induction xs) auto

lemma pending_results_free:
  assumes ok: "validate_graph sid g = Inr ()" and a: "account sid g rs x ps acc" and n: "op_id x \<noteq> []"
  shows "distinct (map pc_result_entry (os_pending (or_state x)))"
    "\<And>k. k \<in> set (os_pending (or_state x)) \<Longrightarrow> entry_by_id g (pc_result_entry k) = None \<and> pc_result_entry k \<in> rs_result ` set rs"
proof -
  have "distinct (map tc_result_entry (concat (map entry_calls (entries_of g (op_id x)))))"
    using distinct_filtered [OF results_unique [OF ok, unfolded all_calls_def]] n by (simp add: entries_of_def)
  then have "distinct (map pb_result ps)"
    using collect_published_ok [OF accountD(4) [OF a]] published_calls(2) by simp
  then have "distinct (map pb_result (unresolved g (op_id x) ps))" unfolding unresolved_def by (rule distinct_map_filter)
  moreover have "map pc_result_entry (os_pending (or_state x)) = map pb_result (unresolved g (op_id x) ps)"
    using accountD(7) [OF a] by (auto simp: list_all2_conv_all_nth pending_matches_def intro: nth_equalityI)
  ultimately show "distinct (map pc_result_entry (os_pending (or_state x)))" by simp
  fix k assume "k \<in> set (os_pending (or_state x))"
  then obtain p where p: "p \<in> set ps" "result_count g (op_id x) (pb_call p) = 0" "pending_matches sid p k"
    using pending_call_published [OF a] by metis
  with unresolved_entry [OF a p(1,2) n] published_reserved [OF accountD(1,4) [OF a] p(1)]
  show "entry_by_id g (pc_result_entry k) = None \<and> pc_result_entry k \<in> rs_result ` set rs"
    by (force simp: pending_matches_def)
qed

text \<open>The supply holds two identities that nothing uses.\<close>

definition supplied :: "tx \<Rightarrow> operation_record \<Rightarrow> bool" where
  "supplied t x \<longleftrightarrow> (case tx_fresh t of
     i # j # _ \<Rightarrow> i \<noteq> j \<and> {i, j} \<inter> (entry_ids t \<union> reserved (tx_graph t)) = {} \<and>
       (case os_effect (or_state x) of None \<Rightarrow> True | Some ef \<Rightarrow> ae_result_entry ef \<notin> {i, j})
   | _ \<Rightarrow> False)"

lemma hook_returns:
  assumes "accepting env" "room t (Suc n)"
    and "\<And>ef. efo = Some ef \<Longrightarrow> ae_kind ef = EffectHook \<Longrightarrow> ae_result_entry ef \<notin> entry_ids t"
  shows "\<exists>hk t1. insert_interrupted_hook env opid efo t = Inr (hk, t1) \<and> room t1 n \<and> tx_fresh t1 = tx_fresh t \<and>
    entry_ids t1 = entry_ids t \<union> (if is_effect EffectHook efo then {ae_result_entry (the efo)} else {})"
proof (cases "is_effect EffectHook efo")
  case True
  then obtain ef where ef: "efo = Some ef" "ae_kind ef = EffectHook" by (auto simp: is_effect_def split: option.splits)
  obtain e t1 where "insert_and_adopt env (ae_result_entry ef) opid (PHookResult (interrupted_hook (session_id (tx_graph t)) opid ef)) t = Inr (e, t1)"
    "room t1 n" "entry_ids t1 = insert (ae_result_entry ef) (entry_ids t)" "tx_fresh t1 = tx_fresh t"
    by (rule insert_returns [OF assms(1) assms(3) [OF ef] assms(2)])
  with True ef show ?thesis by (simp add: insert_interrupted_hook_def)
next
  case False
  then have "insert_interrupted_hook env opid efo t = Inr ([], t)"
    by (auto simp: insert_interrupted_hook_def is_effect_def split: option.splits)
  with assms(2) False show ?thesis by (simp add: room_def)
qed

lemma signal_returns:
  assumes "accepting env" "room t (Suc n)" "tx_fresh t = i # is" "i \<notin> entry_ids t"
  shows "\<exists>sg t1. insert_interruption env opid OpInterruption t = Inr (sg, t1) \<and> room t1 n \<and> tx_fresh t1 = is \<and>
    entry_ids t1 = insert i (entry_ids t)"
proof -
  define t0 where "t0 = t\<lparr>tx_fresh := is\<rparr>"
  have t0: "i \<notin> entry_ids t0" "room t0 (Suc n)" "new_hex_id t = Inr (i, t0)" "entry_ids t0 = entry_ids t" "tx_fresh t0 = is"
    using assms by (simp_all add: t0_def room_def new_hex_id_def)
  obtain e t1 where "insert_and_adopt env i opid (PSignal \<lparr>sg_session = session_id (tx_graph t), sg_entry = i,
      sg_operation = opid, sg_signal = SignalInterruption,
      sg_related_operation = Some \<lparr>opr_session = session_id (tx_graph t), opr_operation = opid\<rparr>,
      sg_related_member = None, sg_content = signal_content SignalInterruption\<rparr>) t0 = Inr (e, t1)"
    "room t1 n" "entry_ids t1 = insert i (entry_ids t0)" "tx_fresh t1 = tx_fresh t0"
    by (rule insert_returns [OF assms(1) t0(1,2)])
  with t0(3-5) show ?thesis by (simp add: insert_interruption_def new_signal_entry_def)
qed

lemma before_settlement_returns:
  assumes ok: "validate_graph (session_id (tx_graph t)) (tx_graph t) = Inr ()"
    and x: "find_operation (tx_graph t) opid = Some x" "is_running x"
    and env: "accepting env" and sup: "tx_fresh t = i # j # is" "supplied t x"
    and room: "room t (length (os_pending (or_state x)) + 3)"
  shows "\<exists>es t1. insert_before_settlement env opid recovery_request (or_state x) t = Inr (es, t1) \<and> room t1 1 \<and>
    tx_fresh t1 = j # is \<and> j \<notin> entry_ids t1 \<and>
    (\<forall>ef. os_effect (or_state x) = Some ef \<longrightarrow> ae_kind ef = EffectModel \<longrightarrow> ae_result_entry ef \<notin> entry_ids t1)"
proof -
  let ?g = "tx_graph t" and ?ps = "os_pending (or_state x)" and ?efo = "os_effect (or_state x)"
  obtain rs where rs: "collect_reservations ?g = Inr rs" and d: "distinct (map op_id (g_operations ?g))"
    using validate_graph_parts [OF ok] by metis
  have x_in: "x \<in> set (g_operations ?g)" "op_id x = opid" using find_operation_Some [OF d] x(1) by blast+
  have n: "op_id x \<noteq> []" using running_operation_is_current [OF ok] x_in x(2) by metis
  obtain ps acc where a: "account (session_id ?g) ?g rs x ps acc" using accountI [OF ok x_in(1) x(2) rs] .
  note free = pending_results_free [OF ok a n]
  have eff: "ae_result_entry ef \<notin> rs_result ` set rs" "ae_result_entry ef \<notin> entry_ids t" "ae_result_entry ef \<notin> {i, j}"
    if "?efo = Some ef" "ae_kind ef = EffectModel \<or> ae_kind ef = EffectHook" for ef
    using effect_not_reserved [of ?g rs opid acc ef] accountD(9) [OF a] that x_in(2) sup
    by (auto simp: entry_by_id_None supplied_def)
  have ij: "i \<noteq> j" "i \<notin> entry_ids t" "j \<notin> entry_ids t" "i \<notin> rs_result ` set rs" "j \<notin> rs_result ` set rs"
    using sup reserved_results [OF rs] by (auto simp: supplied_def)
  define h where "h = (if is_effect EffectHook ?efo then {ae_result_entry (the ?efo)} else {})"
  have h: "h \<inter> rs_result ` set rs = {}" "i \<notin> h" "j \<notin> h"
    using eff unfolding h_def by (auto simp: is_effect_def split: option.splits)
  have "\<And>ef. ?efo = Some ef \<Longrightarrow> ae_kind ef = EffectHook \<Longrightarrow> ae_result_entry ef \<notin> entry_ids t" using eff(2) by blast
  moreover have "room t (Suc (length ?ps + 2))" using room by (simp add: numeral_eq_Suc)
  ultimately obtain hk t1 where t1: "insert_interrupted_hook env opid ?efo t = Inr (hk, t1)" "room t1 (length ?ps + 2)"
    "tx_fresh t1 = tx_fresh t" "entry_ids t1 = entry_ids t \<union> h"
    using hook_returns [OF env, of t "length ?ps + 2" ?efo] unfolding h_def by metis
  have "pc_result_entry ` set ?ps \<inter> entry_ids t1 = {}"
    using free(2) h(1) by (auto simp: t1(4) entry_by_id_None)
  from insert_results_returns [OF env free(1) this t1(2)] obtain rsl t2 where
    t2: "insert_results env opid (interrupted_result (session_id ?g) opid ?efo (g_entries (tx_graph t1))) ?ps t1 = Inr (rsl, t2)"
    "room t2 2" "entry_ids t2 = entry_ids t1 \<union> pc_result_entry ` set ?ps" "tx_fresh t2 = tx_fresh t1" by metis
  have ids: "entry_ids t2 \<subseteq> entry_ids t \<union> h \<union> rs_result ` set rs" using t1(4) t2(3) free(2) by auto
  have "i \<notin> entry_ids t2" "j \<notin> entry_ids t2" using ids ij h by blast+
  moreover have "room t2 (Suc 1)" "tx_fresh t2 = i # (j # is)" using t2(2,4) t1(3) sup(1) by (simp_all add: numeral_2_eq_2)
  ultimately obtain sg t3 where t3: "insert_interruption env opid OpInterruption t2 = Inr (sg, t3)" "room t3 1"
    "tx_fresh t3 = j # is" "entry_ids t3 = insert i (entry_ids t2)"
    using signal_returns [OF env] by metis
  have "ae_result_entry ef \<notin> entry_ids t3" if "?efo = Some ef" "ae_kind ef = EffectModel" for ef
  proof -
    have "h = {}" using that by (simp add: h_def is_effect_def)
    with ids eff [OF that(1) disjI1 [OF that(2)]] show ?thesis by (auto simp: t3(4))
  qed
  moreover have "j \<notin> entry_ids t3" using \<open>j \<notin> entry_ids t2\<close> ij(1) t3(4) by simp
  moreover have "insert_before_settlement env opid recovery_request (or_state x) t = Inr (hk @ rsl @ sg, t3)"
    using t1(1) t2(1) t3(1) by (simp add: insert_before_settlement_def insert_assistant_def recovery_request_def)
  ultimately show ?thesis using t3(2,3) by blast
qed

lemma before_settlement_registers:
  assumes "insert_before_settlement env opid recovery_request s t = Inr (es, t1)"
  shows "g_operations (tx_graph t1) = g_operations (tx_graph t) \<and> g_session (tx_graph t1) = g_session (tx_graph t)"
proof -
  obtain hk rsl sg u1 u2 where "insert_interrupted_hook env opid (os_effect s) t = Inr (hk, u1)"
    "insert_results env opid (interrupted_result (session_id (tx_graph t)) opid (os_effect s) (g_entries (tx_graph u1))) (os_pending s) u1 = Inr (rsl, u2)"
    "insert_interruption env opid OpInterruption u2 = Inr (sg, t1)"
    using assms by (auto simp: insert_before_settlement_def insert_assistant_def recovery_request_def rbind_eq_Inr)
  then have "appends opid t hk u1" "appends opid u1 rsl u2" "appends opid u2 sg t1"
    using insert_hook_part insert_results_appends insert_signal_part by blast+
  from this [THEN appendsD(1)] show ?thesis by simp
qed

lemma recovery_returns:
  assumes ok: "validate_graph (session_id (tx_graph t)) (tx_graph t) = Inr ()"
    and x: "find_operation (tx_graph t) opid = Some x" "is_running x"
    and env: "accepting env" and sup: "supplied t x" and room: "room t (length (os_pending (or_state x)) + 3)"
    and rev: "or_revision x \<noteq> last_int64" "sr_revision (g_session (tx_graph t)) \<noteq> last_int64"
  shows "\<exists>t'. recover_running_operation env opid t = Inr t'"
proof -
  let ?s = "or_state x" and ?q = recovery_request and ?sid = "session_id (tx_graph t)"
  obtain i j "is" where fresh: "tx_fresh t = i # j # is" using sup by (auto simp: supplied_def split: list.splits)
  obtain es t1 where t1: "insert_before_settlement env opid ?q ?s t = Inr (es, t1)" "room t1 (Suc 0)"
    "tx_fresh t1 = j # is" "j \<notin> entry_ids t1"
    "\<forall>ef. os_effect ?s = Some ef \<longrightarrow> ae_kind ef = EffectModel \<longrightarrow> ae_result_entry ef \<notin> entry_ids t1"
    using before_settlement_returns [OF ok x env fresh sup room] by auto
  note reg1 = before_settlement_registers [OF t1(1)]
  have "\<exists>k t2. settlement_identity True ?s t1 = Inr (k, t2) \<and> k \<notin> entry_ids t2 \<and> tx_graph t2 = tx_graph t1"
    using t1(3-5) by (auto simp: settlement_identity_def is_effect_def new_hex_id_def split: option.splits)
  then obtain k t2 where t2: "settlement_identity True ?s t1 = Inr (k, t2)" "k \<notin> entry_ids t2" "tx_graph t2 = tx_graph t1" by blast
  have "room t2 (Suc 0)" using t1(2) t2(3) by (simp add: room_def)
  then obtain z t3 where t3: "insert_and_adopt env k opid (PSettlement (settlement_of ?sid opid k ?q ?s)) t2 = Inr (z, t3)"
    using insert_returns [OF env t2(2), of 0] by metis
  have g3: "g_operations (tx_graph t3) = g_operations (tx_graph t)" "g_session (tx_graph t3) = g_session (tx_graph t)"
    using appendsD(1) [OF insert_appends(1) [OF t3]] t2(3) reg1 by simp_all
  define x1 where "x1 = x\<lparr>or_state := settled_state ?sid k (en_committed_at (ge_env z)) ?q (os_usage ?s) ?s\<rparr>"
  obtain x2 t4 where t4: "replace_operation_register env opid (or_revision x) x1 t3 = Inr (x2, t4)" "g_session (tx_graph t4) = g_session (tx_graph t)"
    using env x(1) g3 rev(1) by (auto simp: replace_operation_register_def find_operation_def accepting_def Let_def)
  define s1 where "s1 = (g_session (tx_graph t))\<lparr>sr_state := (sr_state (g_session (tx_graph t)))\<lparr>
      ss_usage := ss_usage (sr_state (g_session (tx_graph t))), ss_current_operation := []\<rparr>\<rparr>"
  obtain s2 t5 where t5: "replace_session_register env (sr_revision (g_session (tx_graph t))) s1 t4 = Inr (s2, t5)"
    using env t4(2) rev(2) by (auto simp: replace_session_register_def accepting_def Let_def)
  have "x \<in> set (g_operations (tx_graph t))" using x(1) by (auto simp: find_operation_def find_Some_iff)
  note totals = accepted_totals(1) [OF ok] accepted_totals(2) [OF ok this]
  have "sq_assistant ?q = None" by (simp add: recovery_request_def)
  then have "commit_terminal_settlement env opid (g_session (tx_graph t)) x (sr_revision (g_session (tx_graph t))) (or_revision x) ?q t =
      Inr ((x2, s2, es @ [z]), t5)"
    using plain_contribution [OF recovery_plain] add_totals_nothing [OF totals(1)] add_totals_nothing [OF totals(2)] t1(1) t2(1) t3 t4(1) t5
    by (simp add: commit_terminal_settlement_def x1_def s1_def)
  with x show ?thesis by (simp add: recover_running_operation_def read_operation_def)
qed

section \<open>The intents keep what recovery needs\<close>

lemma replace_intent_state:
  assumes "replace_intent env opid r check nxt t = Inr (x', t')"
  obtains x where "find_operation (tx_graph t) opid = Some x" "check x = Inr ()" "or_state x' = nxt (or_state x)" "op_id x' = op_id x"
    "g_entries (tx_graph t') = g_entries (tx_graph t)"
  using assms
  by (auto simp: replace_intent_def rbind_eq_Inr read_operation_def replace_operation_register_def Let_def split: option.splits if_splits)

lemma entries_of_same: "g_entries g' = g_entries g \<Longrightarrow> entries_of g' i = entries_of g i"
  by (simp add: entries_of_def)

lemma call_intent_recoverable:
  assumes "begin_pending_call_effect env view opid c k pci cancelled t = Inr (x', t')"
  shows "recoverable (tx_graph t') x'"
proof -
  obtain vx :: operation_record and i t1 where r: "replace_intent env opid (or_revision vx) (check_first_pending c)
      (\<lambda>s. s\<lparr>os_effect := Some (call_intent k i c pci)\<rparr>) t1 = Inr (x', t')"
    using assms by (auto simp: begin_pending_call_effect_def rbind_eq_Inr)
  obtain x where x: "check_first_pending c x = Inr ()" "or_state x' = (or_state x)\<lparr>os_effect := Some (call_intent k i c pci)\<rparr>"
    using replace_intent_state [OF r] by metis
  have "case os_pending (or_state x) of [] \<Rightarrow> False | p # _ \<Rightarrow> pc_call p = c"
    using x(1) by (simp add: check_first_pending_def rbind_eq_Inr ensure_eq_Inr)
  with x(2) show ?thesis
    by (cases "os_pending (or_state x)") (simp_all add: recoverable_def effect_bound_def call_intent_def)
qed

lemma hook_intent_recoverable:
  assumes "begin_request_hook_effect env view opid rid h ev cancelled t = Inr (x', t')" "rid \<noteq> []"
    and "list_all (\<lambda>e. case request_evidence_of e of None \<Rightarrow> True | Some (r, v) \<Rightarrow> r \<noteq> rid \<or> h \<notin> set (ev_hooks v)) (entries_of (tx_graph t) opid)"
  shows "recoverable (tx_graph t') x'"
proof -
  obtain vx :: operation_record and i t1 where t1: "new_hex_id t = Inr (i, t1)" and r: "replace_intent env opid (or_revision vx) check_quiet
      (\<lambda>s. s\<lparr>os_effect := Some (hook_intent i rid h ev),
             os_request := (case os_request s of
                 None \<Rightarrow> Some \<lparr>rr_request = rid, rr_checkpoint = ev_checkpoint ev, rr_boundary = ev_boundary ev, rr_hook_results = []\<rparr>
               | Some rr \<Rightarrow> Some rr)\<rparr>) t1 = Inr (x', t')"
    using assms(1) by (auto simp: begin_request_hook_effect_def rbind_eq_Inr)
  obtain x where f: "find_operation (tx_graph t1) opid = Some x" "op_id x' = op_id x" "g_entries (tx_graph t') = g_entries (tx_graph t1)"
    and x': "os_effect (or_state x') = Some (hook_intent i rid h ev)"
    by (rule replace_intent_state [OF r]) (rule that; simp)
  have "g_entries (tx_graph t') = g_entries (tx_graph t)" using f(3) t1 by (auto simp: new_hex_id_def split: list.splits)
  from entries_of_same [OF this, of opid] have "entries_of (tx_graph t') (op_id x') = entries_of (tx_graph t) opid"
    using f(2) find_operation_id [OF f(1)] by simp
  moreover have intent: "ae_request (hook_intent i rid h ev) = rid" "ae_kind (hook_intent i rid h ev) = EffectHook"
    "\<lparr>hi_extension = ae_extension (hook_intent i rid h ev), hi_hook = ae_hook (hook_intent i rid h ev)\<rparr> = h"
    "ae_evidence (hook_intent i rid h ev) = Some ev"
    by (simp_all add: hook_intent_def)
  ultimately show ?thesis
    unfolding recoverable_def x' option.case effect_bound_def intent using assms(2,3) by simp
qed

section \<open>A Session lost while a hook ran\<close>

definition lost_effect :: active_effect where
  "lost_effect = call_intent EffectHook ''h'' ''c'' \<lparr>pci_hook = ''k'', pci_extension = ''x'', pci_input_base64 = [],
     pci_final_arguments = NoBytes, pci_contributions = []\<rparr>"

definition lost_entries :: "graph_entry list" where
  "lost_entries = [
     \<lparr>ge_env = sample_env ''i'' 1 ''o'' KindInput, ge_payload = PInput \<lparr>in_session = ''s'', in_entry = ''i'',
        in_operation = ''o'', in_origin = OriginUser, in_content = []\<rparr>\<rparr>,
     \<lparr>ge_env = sample_env ''a'' 2 ''o'' KindAssistant, ge_payload = PAssistant
        ((sample_assistant ''a'' [sample_call ''c'' ''t''])\<lparr>as_evidence := Some sample_evidence\<rparr>)\<rparr>]"

definition lost_operation :: operation_record where
  "lost_operation = sample_operation\<lparr>or_state := (fresh_state 0)\<lparr>os_effect := Some lost_effect,
     os_pending := [\<lparr>pc_assistant = \<lparr>er_session = ''s'', er_entry = ''a''\<rparr>, pc_call = ''c'', pc_result_entry = ''t''\<rparr>]\<rparr>\<rparr>"

definition lost_graph :: session_graph where
  "lost_graph = sample_graph\<lparr>g_session := (g_session sample_graph)\<lparr>sr_state := (sr_state (g_session sample_graph))\<lparr>
     ss_current_operation := ''o'', ss_usage := []\<rparr>\<rparr>, g_operations := [lost_operation], g_entries := lost_entries\<rparr>"

lemma lost_graph_accepted: "validate_graph ''s'' lost_graph = Inr ()"
  by code_simp

definition open_env :: tx_env where
  "open_env = \<lparr>te_entry_ok = (\<lambda>_. True), te_operation_ok = (\<lambda>_. True), te_session_ok = (\<lambda>_. True), te_now = (\<lambda>q. q),
     te_elsewhere = (\<lambda>_. False)\<rparr>"

definition lost_tx :: tx where
  "lost_tx = \<lparr>tx_graph = lost_graph, tx_fresh = [''f'', ''z'']\<rparr>"

lemma lost_facts:
  "session_id (tx_graph lost_tx) = ''s''" "tx_graph lost_tx = lost_graph" "find_operation lost_graph ''o'' = Some lost_operation"
  "is_running lost_operation" "recoverable lost_graph lost_operation" "set (tx_fresh lost_tx) \<inter> reserved lost_graph = {}"
  by code_simp+

lemma lost_stored: "stored (g_entries lost_graph)"
  by (simp add: stored_def wf_calls_def lost_graph_def lost_entries_def sample_env_def entry_calls_def sample_assistant_def
      sample_call_def)

text \<open>C2: after the loss of the Runtime, recovery turns any accepted Session whose running operation keeps the driver's
  invariant into an accepted Session in which nothing runs: every pending call has its one interrupted result, an
  interrupted hook and a lost model effect are accounted for by the entries they had reserved, one settlement closes the
  operation, and the history before it is unchanged.\<close>

theorem recovery_settles:
  assumes "validate_graph (session_id (tx_graph t)) (tx_graph t) = Inr ()"
    and "find_operation (tx_graph t) opid = Some x" "is_running x" "recoverable (tx_graph t) x"
    and "stored (g_entries (tx_graph t))" "set (tx_fresh t) \<inter> reserved (tx_graph t) = {}"
    and "recover_running_operation env opid t = Inr t'"
  shows "validate_graph (session_id (tx_graph t)) (tx_graph t') = Inr () \<and>
    (\<forall>y \<in> set (g_operations (tx_graph t')). \<not> is_running y) \<and> (\<exists>es. g_entries (tx_graph t') = g_entries (tx_graph t) @ es)"
  using recovery_accepted [OF assms] .

theorem recovery_settles_witness:
  "case recover_running_operation open_env ''o'' lost_tx of Inl _ \<Rightarrow> False | Inr t' \<Rightarrow>
     validate_graph ''s'' (tx_graph t') = Inr () \<and> length (g_entries (tx_graph t')) = 6"
proof -
  have "case recover_running_operation open_env ''o'' lost_tx of Inl _ \<Rightarrow> False | Inr t' \<Rightarrow>
      length (g_entries (tx_graph t')) = 6" by code_simp
  then obtain t' where t': "recover_running_operation open_env ''o'' lost_tx = Inr t'" "length (g_entries (tx_graph t')) = 6"
    by (auto split: sum.splits)
  have "validate_graph ''s'' (tx_graph t') = Inr ()"
    using recovery_settles [of lost_tx "''o''" lost_operation open_env t'] t'(1) lost_graph_accepted lost_facts lost_stored by simp
  with t' show ?thesis by simp
qed


lemma lost_supplied:
  "accepting open_env" "supplied lost_tx lost_operation" "room lost_tx (length (os_pending (or_state lost_operation)) + 3)"
  "or_revision lost_operation \<noteq> last_int64" "sr_revision (g_session lost_graph) \<noteq> last_int64"
proof -
  show "accepting open_env" by (simp add: accepting_def open_env_def)
  show "supplied lost_tx lost_operation" "room lost_tx (length (os_pending (or_state lost_operation)) + 3)"
    "or_revision lost_operation \<noteq> last_int64" "sr_revision (g_session lost_graph) \<noteq> last_int64" by code_simp+
qed


end
