(* ===== verification/Codec.thy ===== *)
theory Codec
  imports Store_Contract Checkpoint_Plan Go_Number
begin

text \<open>
  The shared steps of the durable codec (\<open>src/harness/codec.go\<close>): strict members of a payload object, framed bytes,
  timestamps, identities, and the values of package \<open>model\<close> as they are stored.

  An object is the association list of its members. What the code takes from the standard library is a record of
  functions: the bytes of a raw message with a given value and their reading, timestamps in the layout RFC3339Nano
  (\<open>None\<close> outside the four-digit years; reading also gives the zone offset), and the decimal text of a 64-bit float.
  An encoder builds the value; its bytes are \<open>marshal\<close>, in which every text becomes valid UTF-8.
\<close>

section \<open>What is taken from the standard library\<close>

record wire =
  wr_bytes :: "json \<Rightarrow> string"
  wr_parse :: "string \<Rightarrow> raw"
  wr_time :: "timestamp \<Rightarrow> string option"
  wr_read_time :: "string \<Rightarrow> (timestamp \<times> int) option"
  wr_rate :: "64 word \<Rightarrow> string"
  wr_read_rate :: "string \<Rightarrow> 64 word option"

text \<open>The exponent of a float is all ones exactly for infinities and for values that are no number.\<close>

definition finite_rate :: "64 word \<Rightarrow> bool" where
  "finite_rate b \<longleftrightarrow> take_bit 11 (drop_bit 52 b) \<noteq> 0x7FF"

definition faithful_wire :: "wire \<Rightarrow> bool" where
  "faithful_wire w \<longleftrightarrow>
     (\<forall>j. wr_bytes w j \<noteq> [] \<and> wr_parse w (wr_bytes w j) = Value j) \<and>
     (\<forall>t s. wr_time w t = Some s \<longrightarrow> wr_read_time w s = Some (t, 0)) \<and>
     (\<forall>b. finite_rate b \<longrightarrow> wr_read_rate w (wr_rate w b) = Some b)"

fun raw_bytes :: "wire \<Rightarrow> raw \<Rightarrow> string" where
  "raw_bytes w NoBytes = []"
| "raw_bytes w (Malformed b) = b"
| "raw_bytes w (Value j) = wr_bytes w j"

fun coerce_json :: "json \<Rightarrow> json" where
  "coerce_json (JStr s) = JStr (utf8_encs (runes s))"
| "coerce_json (JArr js) = JArr (map coerce_json js)"
| "coerce_json (JObj ms) = JObj (map (\<lambda>(k, j). (utf8_encs (runes k), coerce_json j)) ms)"
| "coerce_json j = j"

definition marshal :: "json \<Rightarrow> raw" where
  "marshal j = Value (coerce_json j)"

section \<open>Objects\<close>

type_synonym obj = "(string \<times> json) list"

datatype codec_error =
  NotObject
| UnknownMember string
| MissingMember string
| NullMember string
| MemberType string
| PresentMember string
| Noncanonical
| EmptyBytes string
| ExtraValue string
| BadTime
| ZeroTime
| ZoneOffset int
| YearRange
| Identity string
| Incomplete
| Refused string
| Disagrees string
| InMember string codec_error
| InItem string nat codec_error
| ModelRule model_error
| TotalsRule totals_error
| ContributionRule consequence_error
| PairingRule plan_error
| InvalidInput codec_error

definition payload_object :: "raw \<Rightarrow> codec_error + obj" where
  "payload_object r = (case decode_payload_object r of None \<Rightarrow> Inl NotObject | Some o' \<Rightarrow> Inr o')"

definition reject_unknown_members :: "string list \<Rightarrow> obj \<Rightarrow> codec_error + unit" where
  "reject_unknown_members known ob = first_error (\<lambda>(k, _). ensure (k \<in> set known) (UnknownMember k)) ob"

definition present :: "obj \<Rightarrow> string \<Rightarrow> bool" where
  "present ob k \<longleftrightarrow> map_of ob k \<noteq> None"

text \<open>\<open>member\<close>: \<open>None\<close> for an absent optional member.\<close>

definition json_member :: "obj \<Rightarrow> string \<Rightarrow> bool \<Rightarrow> codec_error + json option" where
  "json_member ob k required =
     (case map_of ob k of
        None \<Rightarrow> if required then Inl (MissingMember k) else Inr None
      | Some JNull \<Rightarrow> Inl (NullMember k)
      | Some j \<Rightarrow> Inr (Some j))"

definition typed_member :: "(json \<Rightarrow> 'a option) \<Rightarrow> 'a \<Rightarrow> obj \<Rightarrow> string \<Rightarrow> bool \<Rightarrow> codec_error + 'a" where
  "typed_member read zero ob k required =
     rbind (json_member ob k required) (\<lambda>m.
       case m of
         None \<Rightarrow> Inr zero
       | Some j \<Rightarrow> (case read j of None \<Rightarrow> Inl (MemberType k) | Some a \<Rightarrow> Inr a))"

fun json_int64 :: "json \<Rightarrow> int option" where
  "json_int64 (JNum t) = atoi t"
| "json_int64 JNull = Some 0"
| "json_int64 _ = None"

fun json_bool :: "json \<Rightarrow> bool option" where
  "json_bool (JBool b) = Some b"
| "json_bool JNull = Some False"
| "json_bool _ = None"

fun json_array :: "json \<Rightarrow> json list option" where
  "json_array (JArr js) = Some js"
| "json_array JNull = Some []"
| "json_array _ = None"

definition string_member :: "obj \<Rightarrow> string \<Rightarrow> bool \<Rightarrow> codec_error + string" where
  "string_member = typed_member json_string []"

definition int64_member :: "obj \<Rightarrow> string \<Rightarrow> bool \<Rightarrow> codec_error + int" where
  "int64_member = typed_member json_int64 0"

definition bool_member :: "obj \<Rightarrow> string \<Rightarrow> bool \<Rightarrow> codec_error + bool" where
  "bool_member = typed_member json_bool False"

definition array_member :: "obj \<Rightarrow> string \<Rightarrow> bool \<Rightarrow> codec_error + json list" where
  "array_member = typed_member json_array []"

definition object_member :: "obj \<Rightarrow> string \<Rightarrow> bool \<Rightarrow> codec_error + obj option" where
  "object_member ob k required =
     rbind (json_member ob k required) (\<lambda>m.
       case m of
         None \<Rightarrow> Inr None
       | Some j \<Rightarrow> map_error (InMember k) (rbind (payload_object (Value j)) (\<lambda>inner. Inr (Some inner))))"

text \<open>A required member that is an object, decoded; and one that may be absent.\<close>

definition part_member :: "(obj \<Rightarrow> codec_error + 'a) \<Rightarrow> obj \<Rightarrow> string \<Rightarrow> codec_error + 'a" where
  "part_member dec ob k =
     rbind (object_member ob k True) (\<lambda>inner.
       map_error (InMember k) (dec (case inner of None \<Rightarrow> [] | Some i \<Rightarrow> i)))"

definition optional_part :: "(obj \<Rightarrow> codec_error + 'a) \<Rightarrow> obj \<Rightarrow> string \<Rightarrow> codec_error + 'a option" where
  "optional_part dec ob k =
     (if present ob k then rbind (part_member dec ob k) (\<lambda>a. Inr (Some a)) else Inr None)"

text \<open>The bytes of \<open>obj[k]\<close>, none when the member is absent.\<close>

definition raw_at :: "obj \<Rightarrow> string \<Rightarrow> raw" where
  "raw_at ob k = (case map_of ob k of None \<Rightarrow> NoBytes | Some j \<Rightarrow> Value j)"

definition optional_non_empty_string :: "obj \<Rightarrow> string \<Rightarrow> codec_error + string" where
  "optional_non_empty_string ob k =
     (if present ob k
      then rbind (string_member ob k True) (\<lambda>s. rbind (ensure (s \<noteq> []) (Refused ''empty member'')) (\<lambda>_. Inr s))
      else Inr [])"

text \<open>A loop over raw items that reports the index of the first offender.\<close>

fun items_from :: "string \<Rightarrow> nat \<Rightarrow> (json \<Rightarrow> codec_error + 'a) \<Rightarrow> json list \<Rightarrow> codec_error + 'a list" where
  "items_from what i dec [] = Inr []"
| "items_from what i dec (j # js) =
     rbind (map_error (InItem what i) (dec j)) (\<lambda>a. rbind (items_from what (Suc i) dec js) (\<lambda>as. Inr (a # as)))"

abbreviation decode_items :: "string \<Rightarrow> (json \<Rightarrow> codec_error + 'a) \<Rightarrow> json list \<Rightarrow> codec_error + 'a list" where
  "decode_items what \<equiv> items_from what 0"

fun encode_each :: "('a \<Rightarrow> codec_error + json) \<Rightarrow> 'a list \<Rightarrow> codec_error + json list" where
  "encode_each enc [] = Inr []"
| "encode_each enc (a # as) = rbind (enc a) (\<lambda>j. rbind (encode_each enc as) (\<lambda>js. Inr (j # js)))"

fun encode_option :: "('a \<Rightarrow> codec_error + json) \<Rightarrow> 'a option \<Rightarrow> codec_error + json option" where
  "encode_option enc None = Inr None"
| "encode_option enc (Some a) = rbind (enc a) (\<lambda>j. Inr (Some j))"

section \<open>Building objects\<close>

text \<open>The members that are there; \<open>omit\<close>: a text left out when it is empty.\<close>

definition members :: "(string \<times> json option) list \<Rightarrow> obj" where
  "members fs = List.map_filter (\<lambda>(k, v). map_option (Pair k) v) fs"

definition jobj :: "(string \<times> json option) list \<Rightarrow> json" where
  "jobj fs = JObj (members fs)"

abbreviation jtext :: "string \<Rightarrow> json option" where
  "jtext s \<equiv> Some (JStr s)"

definition omit :: "string \<Rightarrow> json option" where
  "omit s = (if s = [] then None else Some (JStr s))"

definition omit_list :: "json list \<Rightarrow> json option" where
  "omit_list js = (if js = [] then None else Some (JArr js))"

definition omit_flag :: "bool \<Rightarrow> json option" where
  "omit_flag b = (if b then Some (JBool True) else None)"

definition show_int :: "int \<Rightarrow> string" where
  "show_int i = (if i < 0 then CHR ''-'' # show_nat (nat (- i)) else show_nat (nat i))"

abbreviation jint :: "int \<Rightarrow> json option" where
  "jint i \<equiv> Some (JNum (show_int i))"

section \<open>Framed bytes\<close>

definition decode_frame :: "string \<Rightarrow> codec_error + string" where
  "decode_frame s =
     (case base64_decode s of
        None \<Rightarrow> Inl Noncanonical
      | Some b \<Rightarrow> if base64_encode b = s then Inr b else Inl Noncanonical)"

text \<open>
  \<open>DecodeString\<close> of the strict standard encoding: line breaks are skipped, and the unused bits of the last digit must
  be zero.
\<close>

definition base64_strict :: "string \<Rightarrow> string option" where
  "base64_strict s =
     (case base64_decode s of
        None \<Rightarrow> None
      | Some b \<Rightarrow> if base64_encode b = filter (\<lambda>c. \<not> line_break c) s then Some b else None)"

definition framed_member :: "wire \<Rightarrow> obj \<Rightarrow> string \<Rightarrow> bool \<Rightarrow> codec_error + raw" where
  "framed_member w ob k required =
     rbind (json_member ob k required) (\<lambda>m.
       case m of
         None \<Rightarrow> Inr NoBytes
       | Some j \<Rightarrow>
           (case json_string j of
              None \<Rightarrow> Inl (MemberType k)
            | Some s \<Rightarrow>
                rbind (map_error (InMember k) (decode_frame s)) (\<lambda>b.
                rbind (ensure (b \<noteq> []) (EmptyBytes k)) (\<lambda>_. Inr (wr_parse w b)))))"

definition frame :: "wire \<Rightarrow> raw \<Rightarrow> json" where
  "frame w r = JStr (base64_encode (raw_bytes w r))"

definition omit_frame :: "wire \<Rightarrow> raw \<Rightarrow> json option" where
  "omit_frame w r = (if r = NoBytes then None else Some (frame w r))"

definition valid_extra_values :: "extra \<Rightarrow> bool" where
  "valid_extra_values e \<longleftrightarrow> list_all (\<lambda>(k, v). json_valid v) e"

fun extra_items :: "wire \<Rightarrow> obj \<Rightarrow> string \<Rightarrow> string list \<Rightarrow> codec_error + extra" where
  "extra_items w inner what [] = Inr []"
| "extra_items w inner what (k # ks) =
     rbind (map_error (InMember what) (decode_frame k)) (\<lambda>key.
     rbind (case framed_member w inner k True of
              Inl _ \<Rightarrow> Inl (ExtraValue k)
            | Inr v \<Rightarrow> if json_valid v then Inr v else Inl (ExtraValue k)) (\<lambda>v.
     rbind (extra_items w inner what ks) (\<lambda>rest. Inr ((key, v) # rest))))"

definition extra_member :: "wire \<Rightarrow> obj \<Rightarrow> string \<Rightarrow> bool \<Rightarrow> codec_error + extra" where
  "extra_member w ob k required =
     rbind (object_member ob k required) (\<lambda>m.
       case m of
         None \<Rightarrow> Inr []
       | Some inner \<Rightarrow> extra_items w inner k (map fst inner))"

definition marshal_extra :: "wire \<Rightarrow> extra \<Rightarrow> codec_error + json" where
  "marshal_extra w e =
     rbind (ensure (valid_extra_values e) (InvalidInput (Refused ''extra values''))) (\<lambda>_.
       Inr (JObj (map (\<lambda>(k, v). (base64_encode k, frame w v)) e)))"

definition omit_extra :: "wire \<Rightarrow> extra \<Rightarrow> codec_error + json option" where
  "omit_extra w e = (if e = [] then Inr None else rbind (marshal_extra w e) (\<lambda>j. Inr (Some j)))"

section \<open>Timestamps and identities\<close>

definition encode_time :: "wire \<Rightarrow> timestamp \<Rightarrow> codec_error + string" where
  "encode_time w t =
     rbind (ensure (t \<noteq> 0) (InvalidInput ZeroTime)) (\<lambda>_.
       case wr_time w t of None \<Rightarrow> Inl (InvalidInput YearRange) | Some s \<Rightarrow> Inr s)"

definition decode_time :: "wire \<Rightarrow> string \<Rightarrow> codec_error + timestamp" where
  "decode_time w s =
     (case wr_read_time w s of
        None \<Rightarrow> Inl BadTime
      | Some (t, offset) \<Rightarrow>
          rbind (ensure (t \<noteq> 0) ZeroTime) (\<lambda>_. rbind (ensure (offset = 0) (ZoneOffset offset)) (\<lambda>_. Inr t)))"

definition time_member :: "wire \<Rightarrow> obj \<Rightarrow> string \<Rightarrow> codec_error + timestamp" where
  "time_member w ob k =
     rbind (string_member ob k True) (\<lambda>s. map_error (InMember k) (decode_time w s))"

definition optional_time :: "wire \<Rightarrow> obj \<Rightarrow> string \<Rightarrow> codec_error + timestamp option" where
  "optional_time w ob k =
     (if present ob k then rbind (time_member w ob k) (\<lambda>t. Inr (Some t)) else Inr None)"

fun encode_optional_time :: "wire \<Rightarrow> timestamp option \<Rightarrow> codec_error + json option" where
  "encode_optional_time w None = Inr None"
| "encode_optional_time w (Some t) = rbind (encode_time w t) (\<lambda>s. Inr (jtext s))"

definition lower_hex :: "char \<Rightarrow> bool" where
  "lower_hex c \<longleftrightarrow> is_digit c \<or> (97 \<le> (of_char c :: nat) \<and> (of_char c :: nat) \<le> 102)"

definition validate_hex_id :: "string \<Rightarrow> string \<Rightarrow> codec_error + unit" where
  "validate_hex_id s what = ensure (length s = 32 \<and> list_all lower_hex s) (Identity what)"

definition validate_operation_identity :: "string \<Rightarrow> string \<Rightarrow> codec_error + unit" where
  "validate_operation_identity s what = ensure (s \<noteq> []) (Identity what)"

definition validate_job_id :: "string \<Rightarrow> string \<Rightarrow> codec_error + unit" where
  "validate_job_id s what = ensure (length s = 8 \<and> list_all lower_hex s) (Identity what)"

section \<open>Model identities\<close>

definition encode_model_ref :: "model_ref \<Rightarrow> codec_error + json" where
  "encode_model_ref r =
     rbind (ensure (\<not> (provider r = [] \<or> model_name r = [])) (InvalidInput Incomplete)) (\<lambda>_.
       Inr (jobj [(''provider'', jtext (provider r)), (''model'', jtext (model_name r))]))"

definition decode_model_ref :: "obj \<Rightarrow> codec_error + model_ref" where
  "decode_model_ref ob =
     rbind (reject_unknown_members [''provider'', ''model''] ob) (\<lambda>_.
     rbind (string_member ob ''provider'' True) (\<lambda>p.
     rbind (string_member ob ''model'' True) (\<lambda>n.
     rbind (ensure (\<not> (p = [] \<or> n = [])) Incomplete) (\<lambda>_.
       Inr \<lparr>provider = p, model_name = n\<rparr>))))"

section \<open>Content parts\<close>

fun part_kind_text :: "part_kind \<Rightarrow> string" where
  "part_kind_text PartText = ''text''"
| "part_kind_text PartImageURL = ''image_url''"
| "part_kind_text PartOpaque = ''opaque''"
| "part_kind_text (OtherKind s) = s"

definition encode_content_part :: "wire \<Rightarrow> content_part \<Rightarrow> codec_error + json" where
  "encode_content_part w p =
     rbind (map_error (\<lambda>e. InvalidInput (ModelRule e)) (validate_content_part p)) (\<lambda>_.
     rbind (omit_extra w (part_extra p)) (\<lambda>extra.
       Inr (jobj
         [(''kind'', jtext (part_kind_text (part_kind p))),
          (''text'', if part_kind p = PartText then jtext (part_text p) else None),
          (''url'', if part_kind p = PartImageURL then jtext (part_url p) else None),
          (''opaque_wire_type'', if part_kind p = PartOpaque then jtext (part_opaque p) else None),
          (''extra'', extra)])))"

definition forbidden :: "obj \<Rightarrow> string list \<Rightarrow> codec_error + unit" where
  "forbidden ob others = first_error (\<lambda>k. ensure (\<not> present ob k) (PresentMember k)) others"

definition new_content_part :: "content_part \<Rightarrow> codec_error + content_part" where
  "new_content_part p = rbind (map_error ModelRule (validate_content_part p)) (\<lambda>_. Inr p)"

definition decode_content_part :: "wire \<Rightarrow> json \<Rightarrow> codec_error + content_part" where
  "decode_content_part w j =
     rbind (payload_object (Value j)) (\<lambda>ob.
     rbind (reject_unknown_members [''kind'', ''text'', ''url'', ''opaque_wire_type'', ''extra''] ob) (\<lambda>_.
     rbind (string_member ob ''kind'' True) (\<lambda>kind.
     rbind
       (if kind = ''text'' then
          rbind (forbidden ob [''url'', ''opaque_wire_type'']) (\<lambda>_.
          rbind (string_member ob ''text'' True) (\<lambda>s. Inr (PartText, s, [], [])))
        else if kind = ''image_url'' then
          rbind (forbidden ob [''text'', ''opaque_wire_type'']) (\<lambda>_.
          rbind (string_member ob ''url'' True) (\<lambda>s. Inr (PartImageURL, [], s, [])))
        else if kind = ''opaque'' then
          rbind (forbidden ob [''text'', ''url'']) (\<lambda>_.
          rbind (string_member ob ''opaque_wire_type'' True) (\<lambda>s. Inr (PartOpaque, [], [], s)))
        else Inl (Refused ''content part kind'')) (\<lambda>(pk, txt, url, opaque).
     rbind (extra_member w ob ''extra'' False) (\<lambda>extra.
       new_content_part \<lparr>part_kind = pk, part_text = txt, part_url = url, part_opaque = opaque, part_extra = extra\<rparr>)))))"

section \<open>Tool definitions\<close>

definition encode_tool_definition :: "wire \<Rightarrow> tool_definition \<Rightarrow> codec_error + json" where
  "encode_tool_definition w d =
     rbind (map_error (\<lambda>e. InvalidInput (ModelRule e)) (validate_tool_definition d)) (\<lambda>_.
       Inr (jobj
         [(''name'', jtext (def_name d)),
          (''description'', jtext (def_description d)),
          (''parameters_base64'', Some (frame w (def_parameters d)))]))"

definition decode_tool_definition :: "wire \<Rightarrow> json \<Rightarrow> codec_error + tool_definition" where
  "decode_tool_definition w j =
     rbind (payload_object (Value j)) (\<lambda>ob.
     rbind (reject_unknown_members [''name'', ''description'', ''parameters_base64''] ob) (\<lambda>_.
     rbind (string_member ob ''name'' True) (\<lambda>name.
     rbind (string_member ob ''description'' True) (\<lambda>description.
     rbind (framed_member w ob ''parameters_base64'' True) (\<lambda>params.
     rbind (map_error (InMember ''parameters'') (payload_object params)) (\<lambda>_.
     rbind (Inr \<lparr>def_name = name, def_description = description, def_parameters = params\<rparr>) (\<lambda>d.
     rbind (map_error ModelRule (validate_tool_definition d)) (\<lambda>_. Inr d))))))))"

end
