(* ===== verification/Codec_Laws.thy ===== *)
theory Codec_Laws
  imports Codec
begin

text \<open>
  Reading back what an encoder built. The collection \<open>member_back\<close> says, for every kind of member, what its reader
  returns on an object in which the encoder put it; \<open>inverts\<close> and \<open>inverts_object\<close> say that a decoder inverts an encoder at
  a value, on a tree whose objects have distinct keys.
\<close>

named_theorems member_back \<open>what the readers of members return\<close>
named_theorems lookups \<open>looking up a member of a built object\<close>

section \<open>Trees\<close>

fun tidy :: "json \<Rightarrow> bool" where
  "tidy (JArr js) \<longleftrightarrow> length js < 2 ^ 63 \<and> list_all tidy js"
| "tidy (JObj ms) \<longleftrightarrow> distinct (map fst ms) \<and> list_all (\<lambda>m. tidy (snd m)) ms"
| "tidy _ \<longleftrightarrow> True"

text \<open>
  A tree that its own bytes denote: the keys of an object are distinct and every text is valid UTF-8. Arrays are shorter
  than a 64-bit integer can count, as every slice is.
\<close>

definition storable :: "json \<Rightarrow> bool" where
  "storable j \<longleftrightarrow> tidy j \<and> coerce_json j = j"

lemma storable_marshal: "storable j \<Longrightarrow> marshal j = Value j"
  by (simp add: storable_def marshal_def)

definition inverts :: "('a \<Rightarrow> codec_error + json) \<Rightarrow> (json \<Rightarrow> codec_error + 'a) \<Rightarrow> 'a \<Rightarrow> bool" where
  "inverts enc dec v \<longleftrightarrow> (\<forall>j. enc v = Inr j \<longrightarrow> tidy j \<longrightarrow> dec j = Inr v)"

definition reads_object :: "(obj \<Rightarrow> codec_error + 'a) \<Rightarrow> json \<Rightarrow> 'a \<Rightarrow> bool" where
  "reads_object dec j v \<longleftrightarrow> (\<exists>ms. j = JObj ms \<and> distinct (map fst ms) \<and> dec ms = Inr v)"

definition inverts_object :: "('a \<Rightarrow> codec_error + json) \<Rightarrow> (obj \<Rightarrow> codec_error + 'a) \<Rightarrow> 'a \<Rightarrow> bool" where
  "inverts_object enc dec v \<longleftrightarrow> (\<forall>j. enc v = Inr j \<longrightarrow> tidy j \<longrightarrow> reads_object dec j v)"

section \<open>Objects\<close>

lemma obj_fields_id: "distinct (map fst ms) \<Longrightarrow> obj_fields ms = ms"
proof -
  have "fold (\<lambda>(k, v). AList.update k v) ms al = al @ ms"
    if "distinct (map fst al @ map fst ms)" for al :: obj
    using that
  proof (induction ms arbitrary: al)
    case (Cons m ms)
    obtain k v where m: "m = (k, v)" by (cases m)
    with Cons.prems have "k \<notin> fst ` set al" by auto
    then have "AList.update k v al = al @ [(k, v)]"
      by (induction al) auto
    with Cons m show ?case by simp
  qed simp
  from this [of "[]"] show "distinct (map fst ms) \<Longrightarrow> obj_fields ms = ms"
    by (simp add: obj_fields_def)
qed

lemma payload_object_JObj: "distinct (map fst ms) \<Longrightarrow> payload_object (Value (JObj ms)) = Inr ms"
  by (simp add: payload_object_def obj_fields_id)

definition orelse :: "'a option \<Rightarrow> 'a option \<Rightarrow> 'a option" where
  "orelse a b = (case a of None \<Rightarrow> b | Some _ \<Rightarrow> a)"

lemma orelse_simps [lookups]: "orelse None b = b" "orelse (Some x) b = Some x" "orelse a None = a"
  by (simp_all add: orelse_def split: option.splits)

lemma map_of_members [lookups]:
  "map_of (members []) k = None"
  "map_of (members ((k', v) # fs)) k = (if k' = k then orelse v (map_of (members fs) k) else map_of (members fs) k)"
  by (auto simp: members_def map_filter_simps orelse_def split: option.splits)

lemma set_members: "(k, j) \<in> set (members fs) \<longleftrightarrow> (k, Some j) \<in> set fs"
  by (force simp: members_def map_filter_def)

lemma keys_members: "set (map fst (members fs)) \<subseteq> set (map fst fs)"
proof
  fix k
  assume "k \<in> set (map fst (members fs))"
  then obtain j where "(k, Some j) \<in> set fs" by (auto simp: set_members)
  then show "k \<in> set (map fst fs)" by force
qed

lemma distinct_members: "distinct (map fst fs) \<Longrightarrow> distinct (map fst (members fs))"
proof (induction fs)
  case (Cons f fs)
  obtain k v where f: "f = (k, v)" by (cases f)
  with Cons.prems keys_members [of fs] have "k \<notin> set (map fst (members fs))" by auto
  with Cons f show ?case by (cases v) (auto simp: members_def map_filter_simps)
qed (simp add: members_def map_filter_simps)

lemma tidy_member:
  "tidy (jobj fs) \<Longrightarrow> (k, Some j) \<in> set fs \<Longrightarrow> tidy j"
  using set_members [of k j fs] by (auto simp: jobj_def list_all_iff)

lemma reject_members:
  "list_all (\<lambda>f. fst f \<in> set known) fs \<Longrightarrow> reject_unknown_members known (members fs) = Inr ()"
  by (fastforce simp: reject_unknown_members_def first_error_ok ensure_eq_Inr list_all_iff set_members)

lemma map_of_members_eq:
  assumes "distinct (map fst fs)"
  shows "list_all (\<lambda>(k, v). map_of (members fs) k = v) fs"
proof -
  have "map_of (members fs) k = v" if "(k, v) \<in> set fs" for k v
  proof (cases v)
    case None
    have "k \<notin> fst ` set (members fs)"
    proof
      assume "k \<in> fst ` set (members fs)"
      then obtain j where "(k, Some j) \<in> set fs" by (auto simp: set_members)
      with that None assms show False using eq_key_imp_eq_value by fastforce
    qed
    with None show ?thesis by (simp add: map_of_eq_None_iff)
  next
    case (Some j)
    with that have "(k, j) \<in> set (members fs)" by (simp add: set_members)
    with Some distinct_members [OF assms] show ?thesis by simp
  qed
  then show ?thesis by (auto simp: list_all_iff)
qed

text \<open>What a decoder sees of a built object.\<close>

lemma built_object:
  assumes "distinct (map fst fs)"
  obtains ob where "jobj fs = JObj ob" "distinct (map fst ob)" "payload_object (Value (jobj fs)) = Inr ob"
    and "\<And>known. list_all (\<lambda>f. fst f \<in> set known) fs \<Longrightarrow> reject_unknown_members known ob = Inr ()"
    and "list_all (\<lambda>(k, v). map_of ob k = v) fs"
proof
  show "jobj fs = JObj (members fs)" "distinct (map fst (members fs))" "payload_object (Value (jobj fs)) = Inr (members fs)"
    using assms distinct_members [of fs] by (simp_all add: jobj_def payload_object_JObj)
qed (use assms reject_members map_of_members_eq in auto)

lemma tidy_jobj: "tidy (jobj fs) \<Longrightarrow> list_all (\<lambda>(k, v). pred_option tidy v) fs"
  using tidy_member [of fs] by (force simp: list_all_iff pred_option_def)

section \<open>Members\<close>

lemma json_string_Some: "json_member ob k b = Inr (Some j) \<longleftrightarrow> map_of ob k = Some j \<and> j \<noteq> JNull"
  by (auto simp: json_member_def split: option.splits json.splits)

lemma typed_member_Some:
  "map_of ob k = Some j \<Longrightarrow> j \<noteq> JNull \<Longrightarrow> read j = Some a \<Longrightarrow> typed_member read z ob k b = Inr a"
  by (cases j) (simp_all add: typed_member_def json_member_def)

lemma typed_member_None: "map_of ob k = None \<Longrightarrow> typed_member read z ob k False = Inr z"
  by (simp add: typed_member_def json_member_def)

lemma string_back [member_back]:
  "map_of ob k = jtext s \<Longrightarrow> string_member ob k b = Inr s"
  "map_of ob k = omit s \<Longrightarrow> string_member ob k False = Inr s"
  "map_of ob k = omit s \<Longrightarrow> optional_non_empty_string ob k = Inr s"
  by (auto simp: string_member_def typed_member_def json_member_def optional_non_empty_string_def present_def omit_def
      split: if_splits)

lemma bool_back [member_back]:
  "map_of ob k = Some (JBool b) \<Longrightarrow> bool_member ob k r = Inr b"
  "map_of ob k = omit_flag b \<Longrightarrow> bool_member ob k False = Inr b"
  by (auto simp: bool_member_def typed_member_def json_member_def omit_flag_def split: if_splits)

lemma array_back [member_back]: "map_of ob k = Some (JArr js) \<Longrightarrow> array_member ob k b = Inr js"
  by (simp add: array_member_def typed_member_def json_member_def)

lemma array_absent [member_back]: "map_of ob k = None \<Longrightarrow> array_member ob k False = Inr []"
  by (simp add: array_member_def typed_member_None)

lemma show_nat_no_sign: "\<not> prefix ''-'' (show_nat n) \<and> \<not> prefix ''+'' (show_nat n)"
  using show_nat_digits [of n] digit_char by (cases "show_nat n") auto

lemma atoi_show_int: "in_int64 i \<Longrightarrow> atoi (show_int i) = Some i"
proof (cases "i < 0")
  case True
  assume i: "in_int64 i"
  with True show ?thesis
    using show_nat_digits [of "nat (- i)"] by (simp add: show_int_def atoi_def in_int64_def)
next
  case False
  assume "in_int64 i"
  then have "nat i < 2 ^ 63" using False by (simp add: in_int64_def nat_less_iff)
  with False show ?thesis by (simp add: show_int_def atoi_show_nat)
qed

lemma int64_back [member_back]:
  "map_of ob k = jint i \<Longrightarrow> in_int64 i \<Longrightarrow> int64_member ob k b = Inr i"
  by (simp add: int64_member_def typed_member_def json_member_def atoi_show_int)

lemma omit_list_back [member_back]: "map_of ob k = omit_list js \<Longrightarrow> array_member ob k False = Inr js"
  by (auto simp: omit_list_def array_back array_absent split: if_splits)

lemma tidy_leaf [simp]:
  "pred_option tidy (omit s)" "pred_option tidy (omit_flag b)" "tidy (frame w r)" "pred_option tidy (omit_frame w r)"
  by (simp_all add: omit_def omit_flag_def frame_def omit_frame_def)

lemma tidy_omit_list [simp]: "pred_option tidy (omit_list js) \<longleftrightarrow> js = [] \<or> tidy (JArr js)"
  by (simp add: omit_list_def)

lemma raw_back [member_back]: "map_of ob k = Some j \<Longrightarrow> raw_at ob k = Value j"
  by (simp add: raw_at_def)

lemma object_back:
  "map_of ob k = Some (JObj ms) \<Longrightarrow> distinct (map fst ms) \<Longrightarrow> object_member ob k b = Inr (Some ms)"
  by (simp add: object_member_def json_member_def payload_object_JObj map_error_def)

lemma object_absent: "map_of ob k = None \<Longrightarrow> object_member ob k False = Inr None"
  by (simp add: object_member_def json_member_def)

lemma part_reads: "map_of ob k = Some j \<Longrightarrow> reads_object dec j v \<Longrightarrow> part_member dec ob k = Inr v"
  by (auto simp: reads_object_def part_member_def object_back map_error_def)

lemma optional_reads:
  assumes "map_of ob k = map_option f v" "\<And>a. v = Some a \<Longrightarrow> reads_object dec (f a) a"
  shows "optional_part dec ob k = Inr v"
  using assms by (cases v) (auto simp: optional_part_def present_def part_reads)

lemma part_back:
  assumes "map_of ob k = Some j" "inverts_object enc dec v" "enc v = Inr j" "tidy j"
  shows "part_member dec ob k = Inr v"
  using assms by (auto simp: inverts_object_def intro: part_reads)

lemma optional_part_back:
  assumes "map_of ob k = oj" "encode_option enc v = Inr oj"
    and "\<And>a. v = Some a \<Longrightarrow> inverts_object enc dec a" "pred_option tidy oj"
  shows "optional_part dec ob k = Inr v"
proof (cases v)
  case None
  with assms show ?thesis by (simp add: optional_part_def present_def)
next
  case (Some a)
  with assms obtain j where "enc a = Inr j" "oj = Some j" by (auto simp: rbind_eq_Inr)
  with Some assms part_back [of ob k j enc dec a] show ?thesis by (simp add: optional_part_def present_def)
qed

section \<open>Lists\<close>

lemma items_back:
  "encode_each enc vs = Inr js \<Longrightarrow> (\<And>v. v \<in> set vs \<Longrightarrow> inverts enc dec v) \<Longrightarrow> list_all tidy js \<Longrightarrow>
     items_from what i dec js = Inr vs"
proof (induction vs arbitrary: js i)
  case (Cons v vs)
  from Cons.prems(1) obtain j js' where "enc v = Inr j" "encode_each enc vs = Inr js'" "js = j # js'"
    by (auto simp: rbind_eq_Inr)
  with Cons.prems have "dec j = Inr v" by (simp add: inverts_def)
  moreover have "items_from what (Suc i) dec js' = Inr vs"
    using \<open>encode_each enc vs = Inr js'\<close> Cons.prems \<open>js = j # js'\<close> by (intro Cons.IH) auto
  ultimately show ?case using \<open>js = j # js'\<close> by (simp add: map_error_def)
qed simp

lemma items_map_back: "(\<And>v. v \<in> set vs \<Longrightarrow> dec (f v) = Inr v) \<Longrightarrow> items_from what i dec (map f vs) = Inr vs"
  by (induction vs arbitrary: i) (simp_all add: map_error_def)

lemma encode_each_Nil_iff: "encode_each enc vs = Inr [] \<longleftrightarrow> vs = []"
  by (cases vs) (auto simp: rbind_eq_Inr)

section \<open>Framed bytes\<close>

lemma decode_frame_encode [simp]: "decode_frame (base64_encode b) = Inr b"
  by (simp add: decode_frame_def)

lemma base64_strict_encode [simp]: "base64_strict (base64_encode b) = Some b"
  by (simp add: base64_strict_def encode_no_breaks)

lemma json_valid_iff: "json_valid r \<longleftrightarrow> (\<exists>j. r = Value j)"
  by (cases r) auto

lemma frame_back [member_back]:
  "map_of ob k = Some (frame w r) \<Longrightarrow> faithful_wire w \<Longrightarrow> json_valid r \<Longrightarrow> framed_member w ob k b = Inr r"
  by (auto simp: json_valid_iff faithful_wire_def framed_member_def json_member_def frame_def map_error_def)

lemma frame_absent [member_back]:
  "map_of ob k = omit_frame w r \<Longrightarrow> faithful_wire w \<Longrightarrow> r = NoBytes \<or> json_valid r \<Longrightarrow> framed_member w ob k False = Inr r"
proof (cases "r = NoBytes")
  case False
  assume "map_of ob k = omit_frame w r" "faithful_wire w" "r = NoBytes \<or> json_valid r"
  with False show ?thesis by (intro frame_back) (auto simp: omit_frame_def)
qed (simp add: omit_frame_def framed_member_def json_member_def)

lemma frame_none: "map_of ob k = None \<Longrightarrow> framed_member w ob k False = Inr NoBytes"
  by (simp add: framed_member_def json_member_def)

lemma extra_items_back:
  assumes "faithful_wire w"
    and "list_all (\<lambda>(k, v). json_valid v \<and> map_of inner (base64_encode k) = Some (frame w v)) e"
  shows "extra_items w inner what (map (\<lambda>(k, v). base64_encode k) e) = Inr e"
  using assms(2)
proof (induction e)
  case (Cons x e)
  obtain k v where x: "x = (k, v)" by (cases x)
  with Cons.prems have v: "json_valid v" "map_of inner (base64_encode k) = Some (frame w v)" by simp_all
  from frame_back [OF v(2) assms(1) v(1)] x v Cons show ?case by (simp add: map_error_def)
qed simp

lemma extra_back:
  assumes "faithful_wire w" "omit_extra w e = Inr oj" "map_of ob k = oj" "pred_option tidy oj"
  shows "extra_member w ob k False = Inr e"
proof (cases "e = []")
  case True
  with assms show ?thesis by (simp add: omit_extra_def extra_member_def object_absent)
next
  case False
  let ?ms = "map (\<lambda>(k, v). (base64_encode k, frame w v)) e"
  from False assms(2) have v: "list_all (\<lambda>(k, v). json_valid v) e" and oj: "oj = Some (JObj ?ms)"
    by (auto simp: omit_extra_def marshal_extra_def rbind_eq_Inr ensure_eq_Inr valid_extra_values_def)
  with assms(4) have d: "distinct (map fst ?ms)" by simp
  have "map_of ?ms (base64_encode k') = Some (frame w v')" if "(k', v') \<in> set e" for k' v'
    using that d by (intro map_of_is_SomeI) force+
  with v have "list_all (\<lambda>(k, v). json_valid v \<and> map_of ?ms (base64_encode k) = Some (frame w v)) e"
    by (fastforce simp: list_all_iff)
  from extra_items_back [OF assms(1) this, of k] assms(3) oj d show ?thesis
    by (simp add: extra_member_def object_back comp_def case_prod_unfold)
qed

section \<open>Times\<close>

lemma decode_encode_time: "faithful_wire w \<Longrightarrow> encode_time w t = Inr s \<Longrightarrow> decode_time w s = Inr t"
  by (auto simp: encode_time_def decode_time_def faithful_wire_def rbind_eq_Inr ensure_eq_Inr split: option.splits)

lemma time_back [member_back]:
  "map_of ob k = jtext s \<Longrightarrow> faithful_wire w \<Longrightarrow> encode_time w t = Inr s \<Longrightarrow> time_member w ob k = Inr t"
  by (simp add: time_member_def string_back map_error_def decode_encode_time)

lemma optional_time_back:
  assumes "faithful_wire w" "encode_optional_time w t = Inr oj" "map_of ob k = oj"
  shows "optional_time w ob k = Inr t"
proof (cases t)
  case None
  with assms show ?thesis by (simp add: optional_time_def present_def)
next
  case (Some u)
  with assms obtain s where "encode_time w u = Inr s" "oj = jtext s" by (auto simp: rbind_eq_Inr)
  with Some assms show ?thesis by (simp add: optional_time_def present_def time_back)
qed

section \<open>Values of package model\<close>

lemma model_ref_back: "inverts_object encode_model_ref decode_model_ref r"
  unfolding inverts_object_def
proof (intro allI impI)
  fix j
  let ?fs = "[(''provider'', jtext (provider r)), (''model'', jtext (model_name r))]"
  assume "encode_model_ref r = Inr j"
  then have r: "provider r \<noteq> []" "model_name r \<noteq> []" and j: "j = jobj ?fs"
    by (auto simp: encode_model_ref_def rbind_eq_Inr ensure_eq_Inr)
  obtain ob where ob: "jobj ?fs = JObj ob" "distinct (map fst ob)"
    and known: "\<And>known. list_all (\<lambda>f. fst f \<in> set known) ?fs \<Longrightarrow> reject_unknown_members known ob = Inr ()"
    and at: "list_all (\<lambda>(k, v). map_of ob k = v) ?fs"
    by (rule built_object [of ?fs]) auto
  have "decode_model_ref ob = Inr r"
    unfolding decode_model_ref_def using at r by (simp add: known member_back)
  with ob j show "reads_object decode_model_ref j r" by (simp add: reads_object_def)
qed

lemma content_part_back: "faithful_wire w \<Longrightarrow> inverts (encode_content_part w) (decode_content_part w) p"
  unfolding inverts_def
proof (intro allI impI)
  fix j
  assume w: "faithful_wire w" and enc: "encode_content_part w p = Inr j" and d: "tidy j"
  obtain ex where ex: "omit_extra w (part_extra p) = Inr ex"
    and v: "validate_content_part p = Inr ()"
    and j: "j = jobj
         [(''kind'', jtext (part_kind_text (part_kind p))),
          (''text'', if part_kind p = PartText then jtext (part_text p) else None),
          (''url'', if part_kind p = PartImageURL then jtext (part_url p) else None),
          (''opaque_wire_type'', if part_kind p = PartOpaque then jtext (part_opaque p) else None),
          (''extra'', ex)]" (is "_ = jobj ?fs")
    using enc by (auto simp: encode_content_part_def rbind_eq_Inr map_error_def split: sum.splits)
  obtain ob where ob: "payload_object (Value (jobj ?fs)) = Inr ob"
    and known: "\<And>known. list_all (\<lambda>f. fst f \<in> set known) ?fs \<Longrightarrow> reject_unknown_members known ob = Inr ()"
    and at: "list_all (\<lambda>(k, v). map_of ob k = v) ?fs"
    by (rule built_object [of ?fs]) auto
  have e: "extra_member w ob ''extra'' False = Inr (part_extra p)"
    using at tidy_jobj [OF d [unfolded j]] by (intro extra_back [OF w ex]) auto
  show "decode_content_part w j = Inr p"
    unfolding decode_content_part_def j ob
    using v at
    by (cases p; cases "part_kind p")
       (simp_all add: known e [simplified] member_back forbidden_def present_def new_content_part_def map_error_def
         validate_content_part_def rbind_eq_Inr ensure_eq_Inr)
qed

lemma tool_definition_back: "faithful_wire w \<Longrightarrow> inverts (encode_tool_definition w) (decode_tool_definition w) d"
  unfolding inverts_def
proof (intro allI impI)
  fix j
  let ?fs = "[(''name'', jtext (def_name d)), (''description'', jtext (def_description d)),
    (''parameters_base64'', Some (frame w (def_parameters d)))]"
  assume w: "faithful_wire w" and "encode_tool_definition w d = Inr j"
  then have v: "validate_tool_definition d = Inr ()" and j: "j = jobj ?fs"
    by (auto simp: encode_tool_definition_def rbind_eq_Inr map_error_def split: sum.splits)
  then obtain ms where p: "def_parameters d = Value (JObj ms)"
    by (auto simp: validate_tool_definition_def res_simps split: raw.splits json.splits)
  obtain ob where ob: "payload_object (Value (jobj ?fs)) = Inr ob"
    and known: "\<And>known. list_all (\<lambda>f. fst f \<in> set known) ?fs \<Longrightarrow> reject_unknown_members known ob = Inr ()"
    and at: "list_all (\<lambda>(k, v). map_of ob k = v) ?fs"
    by (rule built_object [of ?fs]) auto
  have "framed_member w ob ''parameters_base64'' True = Inr (def_parameters d)"
    using at w p by (intro frame_back) simp_all
  moreover have "payload_object (def_parameters d) = Inr (obj_fields ms)" by (simp add: p payload_object_def)
  ultimately show "decode_tool_definition w j = Inr d"
    unfolding decode_tool_definition_def j ob using at v by (cases d) (simp add: known member_back map_error_def)
qed

end
