(* ===== verification/Codec_Values.thy ===== *)
theory Codec_Values
  imports Codec
begin

text \<open>
  The values that several payloads share, with their exact members (\<open>src/harness/payload.go\<close>): references, messages and
  their tool calls, hook identities, request evidence and consequences, token counts and maintenance facts. Every
  encoder validates before it builds and every decoder after it has read, as the code does.
\<close>

section \<open>References\<close>

definition validate_entry_ref :: "entry_ref \<Rightarrow> codec_error + unit" where
  "validate_entry_ref r =
     rbind (validate_hex_id (er_session r) ''entry reference session id'') (\<lambda>_.
       validate_hex_id (er_entry r) ''entry reference entry id'')"

definition entry_ref_json :: "entry_ref \<Rightarrow> json" where
  "entry_ref_json r = jobj [(''session_id'', jtext (er_session r)), (''entry_id'', jtext (er_entry r))]"

definition encode_entry_ref :: "entry_ref \<Rightarrow> codec_error + json" where
  "encode_entry_ref r = rbind (map_error InvalidInput (validate_entry_ref r)) (\<lambda>_. Inr (entry_ref_json r))"

definition decode_entry_ref :: "obj \<Rightarrow> codec_error + entry_ref" where
  "decode_entry_ref ob =
     rbind (reject_unknown_members [''session_id'', ''entry_id''] ob) (\<lambda>_.
     rbind (string_member ob ''session_id'' True) (\<lambda>sid.
     rbind (string_member ob ''entry_id'' True) (\<lambda>eid.
     rbind (Inr \<lparr>er_session = sid, er_entry = eid\<rparr>) (\<lambda>r.
     rbind (validate_entry_ref r) (\<lambda>_. Inr r)))))"

definition operation_ref_json :: "operation_ref \<Rightarrow> json" where
  "operation_ref_json r =
     jobj [(''session_id'', jtext (opr_session r)), (''operation_id'', jtext (opr_operation r))]"

definition validate_operation_ref :: "operation_ref \<Rightarrow> codec_error + unit" where
  "validate_operation_ref r =
     rbind (validate_hex_id (opr_session r) ''operation reference session id'') (\<lambda>_.
       validate_operation_identity (opr_operation r) ''operation reference operation id'')"

definition decode_operation_ref :: "obj \<Rightarrow> codec_error + operation_ref" where
  "decode_operation_ref ob =
     rbind (reject_unknown_members [''session_id'', ''operation_id''] ob) (\<lambda>_.
     rbind (string_member ob ''session_id'' True) (\<lambda>sid.
     rbind (string_member ob ''operation_id'' True) (\<lambda>oid.
     rbind (Inr \<lparr>opr_session = sid, opr_operation = oid\<rparr>) (\<lambda>r.
     rbind (validate_operation_ref r) (\<lambda>_. Inr r)))))"

section \<open>Messages\<close>

definition encode_message_tool_call :: "wire \<Rightarrow> tool_call \<Rightarrow> codec_error + json" where
  "encode_message_tool_call w c =
     rbind (map_error (\<lambda>e. InvalidInput (ModelRule e)) (validate_tool_call c)) (\<lambda>_.
     rbind (omit_extra w (call_extra c)) (\<lambda>extra.
       Inr (jobj
         [(''id'', jtext (call_id c)),
          (''name'', jtext (call_name c)),
          (''arguments_base64'', jtext (base64_encode (call_arguments c))),
          (''extra'', extra)])))"

definition decode_message_tool_call :: "wire \<Rightarrow> json \<Rightarrow> codec_error + tool_call" where
  "decode_message_tool_call w j =
     rbind (payload_object (Value j)) (\<lambda>ob.
     rbind (reject_unknown_members [''id'', ''name'', ''arguments_base64'', ''extra''] ob) (\<lambda>_.
     rbind (string_member ob ''id'' True) (\<lambda>i.
     rbind (string_member ob ''name'' True) (\<lambda>name.
     rbind (string_member ob ''arguments_base64'' True) (\<lambda>encoded.
     rbind (case base64_strict encoded of None \<Rightarrow> Inl Noncanonical | Some b \<Rightarrow> Inr b) (\<lambda>arguments.
     rbind (extra_member w ob ''extra'' False) (\<lambda>extra.
     rbind (Inr \<lparr>call_id = i, call_name = name, call_arguments = arguments, call_extra = extra\<rparr>) (\<lambda>c.
     rbind (map_error ModelRule (validate_tool_call c)) (\<lambda>_. Inr c)))))))))"

fun role_text :: "role \<Rightarrow> string" where
  "role_text RoleSystem = ''system''"
| "role_text RoleUser = ''user''"
| "role_text RoleAssistant = ''assistant''"
| "role_text RoleTool = ''tool''"
| "role_text (OtherRole s) = s"

definition role_named :: "string \<Rightarrow> role" where
  "role_named s =
     (if s = ''system'' then RoleSystem else if s = ''user'' then RoleUser
      else if s = ''assistant'' then RoleAssistant else if s = ''tool'' then RoleTool else OtherRole s)"

definition zero_ref :: model_ref where
  "zero_ref = \<lparr>provider = [], model_name = []\<rparr>"

definition encode_message_value :: "wire \<Rightarrow> message \<Rightarrow> codec_error + json" where
  "encode_message_value w m =
     rbind (map_error (\<lambda>e. InvalidInput (ModelRule e)) (validate_message m)) (\<lambda>_.
     rbind (encode_option encode_model_ref (if ref_is_zero (msg_source m) then None else Some (msg_source m))) (\<lambda>source.
     rbind (encode_each (encode_content_part w) (msg_content m)) (\<lambda>parts.
     rbind (omit_extra w (msg_extra m)) (\<lambda>extra.
     rbind (encode_each (encode_message_tool_call w) (msg_tool_calls m)) (\<lambda>calls.
       Inr (jobj
         [(''role'', jtext (role_text (msg_role m))),
          (''source'', source),
          (''content'', omit_list parts),
          (''refusal'', omit (msg_refusal m)),
          (''name'', omit (msg_name m)),
          (''extra'', extra),
          (''tool_calls'', omit_list calls),
          (''tool_call_id'', omit (msg_tool_call_id m))]))))))"

definition decode_message_value :: "wire \<Rightarrow> json \<Rightarrow> codec_error + message" where
  "decode_message_value w j =
     rbind (payload_object (Value j)) (\<lambda>ob.
     rbind (reject_unknown_members
       [''role'', ''source'', ''content'', ''refusal'', ''name'', ''extra'', ''tool_calls'', ''tool_call_id''] ob) (\<lambda>_.
     rbind (string_member ob ''role'' True) (\<lambda>role.
     rbind (optional_part decode_model_ref ob ''source'') (\<lambda>source.
     rbind (array_member ob ''content'' False) (\<lambda>content_raw.
     rbind (decode_items ''content'' (decode_content_part w) content_raw) (\<lambda>content.
     rbind (optional_non_empty_string ob ''refusal'') (\<lambda>refusal.
     rbind (string_member ob ''name'' False) (\<lambda>name.
     rbind (extra_member w ob ''extra'' False) (\<lambda>extra.
     rbind (array_member ob ''tool_calls'' False) (\<lambda>calls_raw.
     rbind (decode_items ''tool_calls'' (decode_message_tool_call w) calls_raw) (\<lambda>calls.
     rbind (optional_non_empty_string ob ''tool_call_id'') (\<lambda>tcid.
       map_error ModelRule (new_message
         \<lparr>msg_role = role_named role, msg_content = content, msg_refusal = refusal, msg_tool_calls = calls,
          msg_tool_call_id = tcid, msg_name = name, msg_extra = extra,
          msg_source = (case source of None \<Rightarrow> zero_ref | Some r \<Rightarrow> r)\<rparr>)))))))))))))"

section \<open>Hook identities and lists of names\<close>

fun check_hook_identities :: "nat \<Rightarrow> hook_identity list \<Rightarrow> hook_identity list \<Rightarrow> codec_error + unit" where
  "check_hook_identities i seen [] = Inr ()"
| "check_hook_identities i seen (h # hs) =
     rbind (ensure (hi_extension h \<noteq> []) (InItem ''hook_ids'' i (Refused ''extension id''))) (\<lambda>_.
     rbind (ensure (hi_hook h \<noteq> []) (InItem ''hook_ids'' i (Refused ''hook id''))) (\<lambda>_.
     rbind (ensure (h \<notin> set seen) (InItem ''hook_ids'' i (Refused ''not unique''))) (\<lambda>_.
       check_hook_identities (Suc i) (h # seen) hs)))"

definition validate_hook_identities :: "hook_identity list \<Rightarrow> codec_error + unit" where
  "validate_hook_identities hs = check_hook_identities 0 [] hs"

definition hook_identity_json :: "hook_identity \<Rightarrow> json" where
  "hook_identity_json h = jobj [(''extension_id'', jtext (hi_extension h)), (''hook_id'', jtext (hi_hook h))]"

definition encode_hook_identities :: "hook_identity list \<Rightarrow> codec_error + json option" where
  "encode_hook_identities hs =
     (if hs = [] then Inr None
      else rbind (map_error InvalidInput (validate_hook_identities hs)) (\<lambda>_.
        Inr (Some (JArr (map hook_identity_json hs)))))"

definition decode_hook_identity :: "json \<Rightarrow> codec_error + hook_identity" where
  "decode_hook_identity j =
     rbind (payload_object (Value j)) (\<lambda>ob.
     rbind (reject_unknown_members [''extension_id'', ''hook_id''] ob) (\<lambda>_.
     rbind (string_member ob ''extension_id'' True) (\<lambda>x.
     rbind (string_member ob ''hook_id'' True) (\<lambda>h. Inr \<lparr>hi_extension = x, hi_hook = h\<rparr>))))"

definition decode_hook_identities :: "obj \<Rightarrow> string \<Rightarrow> codec_error + hook_identity list" where
  "decode_hook_identities ob k =
     rbind (array_member ob k False) (\<lambda>raws.
     rbind (decode_items k decode_hook_identity raws) (\<lambda>hs.
     rbind (validate_hook_identities hs) (\<lambda>_. Inr hs)))"

fun check_names :: "string list \<Rightarrow> string list \<Rightarrow> codec_error + unit" where
  "check_names seen [] = Inr ()"
| "check_names seen (n # ns) =
     rbind (ensure (n \<noteq> []) (Refused ''empty name'')) (\<lambda>_.
     rbind (ensure (n \<notin> set seen) (Refused ''duplicate name'')) (\<lambda>_.
       check_names (n # seen) ns))"

definition decode_name :: "json \<Rightarrow> codec_error + string" where
  "decode_name j =
     (case json_string j of
        None \<Rightarrow> Inl (Refused ''not a string'')
      | Some s \<Rightarrow> rbind (ensure (s \<noteq> []) (Refused ''empty'')) (\<lambda>_. Inr s))"

definition optional_string_member_list :: "obj \<Rightarrow> string \<Rightarrow> codec_error + string list option" where
  "optional_string_member_list ob k =
     (if present ob k
      then rbind (array_member ob k True) (\<lambda>raws. rbind (decode_items k decode_name raws) (\<lambda>ns. Inr (Some ns)))
      else Inr None)"

definition optional_string_member :: "obj \<Rightarrow> string \<Rightarrow> codec_error + string option" where
  "optional_string_member ob k =
     (if present ob k then rbind (string_member ob k True) (\<lambda>s. Inr (Some s)) else Inr None)"

section \<open>Request evidence and consequences\<close>

definition validate_contributions :: "message list \<Rightarrow> codec_error + unit" where
  "validate_contributions ms =
     indexed_error (\<lambda>i m. map_error (\<lambda>e. InItem ''messages'' i (ContributionRule e))
       (rbind (validate_contribution_message m) (\<lambda>_. Inr ()))) ms"

definition validate_request_evidence :: "request_evidence \<Rightarrow> codec_error + unit" where
  "validate_request_evidence v =
     rbind (validate_hex_id (ev_boundary v) ''evidence boundary entry id'') (\<lambda>_.
     rbind (if ev_checkpoint v \<noteq> [] then validate_hex_id (ev_checkpoint v) ''evidence checkpoint entry id'' else Inr ()) (\<lambda>_.
     rbind (validate_contributions (ev_messages v)) (\<lambda>_.
     rbind (check_names [] (ev_tool_names v)) (\<lambda>_.
       validate_hook_identities (ev_hooks v)))))"

definition encode_request_evidence :: "wire \<Rightarrow> request_evidence \<Rightarrow> codec_error + json" where
  "encode_request_evidence w v =
     rbind (map_error InvalidInput (validate_request_evidence v)) (\<lambda>_.
     rbind (encode_each (encode_message_value w) (ev_messages v)) (\<lambda>ms.
     rbind (encode_hook_identities (ev_hooks v)) (\<lambda>hooks.
       Inr (jobj
         [(''boundary_entry_id'', jtext (ev_boundary v)),
          (''prompt'', jtext (ev_prompt v)),
          (''checkpoint_entry_id'', omit (ev_checkpoint v)),
          (''messages'', omit_list ms),
          (''tool_names'', Some (JArr (map JStr (ev_tool_names v)))),
          (''hook_ids'', hooks)]))))"

definition decode_request_evidence :: "wire \<Rightarrow> raw \<Rightarrow> codec_error + request_evidence" where
  "decode_request_evidence w r =
     rbind (payload_object r) (\<lambda>ob.
     rbind (reject_unknown_members
       [''checkpoint_entry_id'', ''boundary_entry_id'', ''prompt'', ''messages'', ''tool_names'', ''hook_ids''] ob) (\<lambda>_.
     rbind (string_member ob ''boundary_entry_id'' True) (\<lambda>boundary.
     rbind (optional_non_empty_string ob ''checkpoint_entry_id'') (\<lambda>checkpoint.
     rbind (string_member ob ''prompt'' True) (\<lambda>prompt.
     rbind (array_member ob ''messages'' False) (\<lambda>raws.
     rbind (decode_items ''messages'' (decode_message_value w) raws) (\<lambda>ms.
     rbind (json_member ob ''tool_names'' True) (\<lambda>_.
     rbind (optional_string_member_list ob ''tool_names'') (\<lambda>names.
     rbind (decode_hook_identities ob ''hook_ids'') (\<lambda>hooks.
     rbind (Inr \<lparr>ev_checkpoint = checkpoint, ev_boundary = boundary, ev_prompt = prompt, ev_messages = ms,
       ev_tool_names = (case names of None \<Rightarrow> [] | Some ns \<Rightarrow> ns), ev_hooks = hooks\<rparr>) (\<lambda>v.
     rbind (validate_request_evidence v) (\<lambda>_. Inr v))))))))))))"

text \<open>\<open>obj[k]\<close> given to the decoder of evidence when the member is there.\<close>

definition optional_record :: "(raw \<Rightarrow> codec_error + 'a) \<Rightarrow> obj \<Rightarrow> string \<Rightarrow> codec_error + 'a option" where
  "optional_record dec ob k =
     (if present ob k then rbind (map_error (InMember k) (dec (raw_at ob k))) (\<lambda>a. Inr (Some a)) else Inr None)"

definition validate_request_consequence_shape :: "request_consequence \<Rightarrow> codec_error + unit" where
  "validate_request_consequence_shape v =
     rbind (validate_contributions (rc_messages v)) (\<lambda>_.
       check_names [] (case rc_tool_names v of None \<Rightarrow> [] | Some ns \<Rightarrow> ns))"

definition encode_request_consequence :: "wire \<Rightarrow> request_consequence \<Rightarrow> codec_error + json" where
  "encode_request_consequence w v =
     rbind (map_error InvalidInput (validate_request_consequence_shape v)) (\<lambda>_.
     rbind (encode_each (encode_message_value w) (rc_messages v)) (\<lambda>ms.
       Inr (jobj
         [(''prompt'', map_option JStr (rc_prompt v)),
          (''messages'', omit_list ms),
          (''tool_names'', map_option (\<lambda>ns. JArr (map JStr ns)) (rc_tool_names v))])))"

definition decode_request_consequence :: "wire \<Rightarrow> raw \<Rightarrow> codec_error + request_consequence" where
  "decode_request_consequence w r =
     rbind (payload_object r) (\<lambda>ob.
     rbind (reject_unknown_members [''prompt'', ''messages'', ''tool_names''] ob) (\<lambda>_.
     rbind (optional_string_member ob ''prompt'') (\<lambda>prompt.
     rbind (array_member ob ''messages'' False) (\<lambda>raws.
     rbind (decode_items ''messages'' (decode_message_value w) raws) (\<lambda>ms.
     rbind (optional_string_member_list ob ''tool_names'') (\<lambda>names.
     rbind (Inr \<lparr>rc_prompt = prompt, rc_messages = ms, rc_tool_names = names\<rparr>) (\<lambda>v.
     rbind (validate_request_consequence_shape v) (\<lambda>_. Inr v))))))))"

section \<open>Token counts\<close>

definition encode_usage_count :: "usage_count \<Rightarrow> json" where
  "encode_usage_count u =
     jobj [(''input_tokens'', jint (sint (in_tokens u))), (''cached_input_tokens'', jint (sint (cached_tokens u))),
       (''output_tokens'', jint (sint (out_tokens u)))]"

definition decode_usage_count :: "obj \<Rightarrow> codec_error + usage_count" where
  "decode_usage_count ob =
     rbind (reject_unknown_members [''input_tokens'', ''cached_input_tokens'', ''output_tokens''] ob) (\<lambda>_.
     rbind (int64_member ob ''input_tokens'' True) (\<lambda>i.
     rbind (int64_member ob ''cached_input_tokens'' True) (\<lambda>c.
     rbind (int64_member ob ''output_tokens'' True) (\<lambda>out.
       Inr \<lparr>in_tokens = word_of_int i, cached_tokens = word_of_int c, out_tokens = word_of_int out\<rparr>))))"

definition encode_model_usage :: "model_usage \<Rightarrow> codec_error + json" where
  "encode_model_usage mu =
     rbind (encode_model_ref (mu_model mu)) (\<lambda>r.
       Inr (jobj [(''model'', Some r), (''usage'', Some (encode_usage_count (mu_usage mu)))]))"

definition decode_model_usage :: "json \<Rightarrow> codec_error + model_usage" where
  "decode_model_usage j =
     rbind (payload_object (Value j)) (\<lambda>ob.
     rbind (reject_unknown_members [''model'', ''usage''] ob) (\<lambda>_.
     rbind (part_member decode_model_ref ob ''model'') (\<lambda>r.
     rbind (part_member decode_usage_count ob ''usage'') (\<lambda>u. Inr \<lparr>mu_model = r, mu_usage = u\<rparr>))))"

definition encode_usage_totals :: "usage_totals \<Rightarrow> codec_error + json" where
  "encode_usage_totals t =
     rbind (map_error (\<lambda>e. InvalidInput (TotalsRule e)) (validate_usage_totals t)) (\<lambda>_.
     rbind (encode_each encode_model_usage t) (\<lambda>items. Inr (jobj [(''by_model'', Some (JArr items))])))"

definition decode_usage_totals :: "obj \<Rightarrow> codec_error + usage_totals" where
  "decode_usage_totals ob =
     rbind (reject_unknown_members [''by_model''] ob) (\<lambda>_.
     rbind (array_member ob ''by_model'' True) (\<lambda>items.
     rbind (decode_items ''by_model'' decode_model_usage items) (\<lambda>t.
     rbind (map_error TotalsRule (validate_usage_totals t)) (\<lambda>_. Inr t))))"

section \<open>Maintenance facts\<close>

definition validate_maintenance_input :: "message list \<Rightarrow> codec_error + unit" where
  "validate_maintenance_input ms = indexed_error (\<lambda>i m. map_error (\<lambda>e. InItem ''input'' i (ModelRule e)) (validate_message m)) ms"

definition encode_maintenance_input :: "wire \<Rightarrow> message list \<Rightarrow> codec_error + json" where
  "encode_maintenance_input w ms =
     rbind (map_error InvalidInput (validate_maintenance_input ms)) (\<lambda>_.
     rbind (encode_each (encode_message_value w) ms) (\<lambda>items. Inr (JArr items)))"

definition decode_maintenance_input :: "wire \<Rightarrow> json \<Rightarrow> codec_error + message list" where
  "decode_maintenance_input w j =
     rbind (case json_array j of None \<Rightarrow> Inl (Refused ''maintenance input'') | Some items \<Rightarrow> Inr items) (\<lambda>items.
     rbind (decode_items ''input'' (decode_message_value w) items) (\<lambda>ms.
     rbind (validate_maintenance_input ms) (\<lambda>_. Inr ms)))"

definition validate_maintenance_fact :: "maintenance_fact \<Rightarrow> codec_error + unit" where
  "validate_maintenance_fact f =
     rbind (validate_operation_identity (mf_request f) ''maintenance request id'') (\<lambda>_.
     rbind (ensure (\<not> (provider (mf_model f) = [] \<or> model_name (mf_model f) = [])) Incomplete) (\<lambda>_.
       validate_maintenance_input (mf_input f)))"

fun check_facts :: "nat \<Rightarrow> string list \<Rightarrow> maintenance_fact list \<Rightarrow> codec_error + unit" where
  "check_facts i seen [] = Inr ()"
| "check_facts i seen (f # fs) =
     rbind (map_error (InItem ''facts'' i) (validate_maintenance_fact f)) (\<lambda>_.
     rbind (ensure (mf_request f \<notin> set seen) (InItem ''facts'' i (Refused ''producer repeats''))) (\<lambda>_.
       check_facts (Suc i) (mf_request f # seen) fs))"

definition validate_maintenance_facts :: "maintenance_fact list \<Rightarrow> codec_error + unit" where
  "validate_maintenance_facts fs = check_facts 0 [] fs"

definition encode_maintenance_fact :: "wire \<Rightarrow> maintenance_fact \<Rightarrow> codec_error + json" where
  "encode_maintenance_fact w f =
     rbind (encode_model_ref (mf_model f)) (\<lambda>r.
     rbind (encode_maintenance_input w (mf_input f)) (\<lambda>i.
       Inr (jobj
         [(''request_id'', jtext (mf_request f)), (''model'', Some r), (''input'', Some i),
          (''usage'', map_option encode_usage_count (mf_usage f))])))"

definition encode_maintenance_facts :: "wire \<Rightarrow> maintenance_fact list \<Rightarrow> codec_error + json" where
  "encode_maintenance_facts w fs =
     rbind (map_error InvalidInput (validate_maintenance_facts fs)) (\<lambda>_.
     rbind (encode_each (encode_maintenance_fact w) fs) (\<lambda>items. Inr (JArr items)))"

definition decode_maintenance_fact :: "wire \<Rightarrow> json \<Rightarrow> codec_error + maintenance_fact" where
  "decode_maintenance_fact w j =
     rbind (payload_object (Value j)) (\<lambda>ob.
     rbind (reject_unknown_members [''request_id'', ''model'', ''input'', ''usage''] ob) (\<lambda>_.
     rbind (string_member ob ''request_id'' True) (\<lambda>rid.
     rbind (part_member decode_model_ref ob ''model'') (\<lambda>source.
     rbind (json_member ob ''input'' True) (\<lambda>raw_input.
     rbind (map_error (InMember ''input'')
       (decode_maintenance_input w (case raw_input of None \<Rightarrow> JNull | Some i \<Rightarrow> i))) (\<lambda>ms.
     rbind (optional_part decode_usage_count ob ''usage'') (\<lambda>usage.
     rbind (Inr \<lparr>mf_request = rid, mf_model = source, mf_input = ms, mf_usage = usage\<rparr>) (\<lambda>f.
     rbind (validate_maintenance_fact f) (\<lambda>_. Inr f)))))))))"

definition decode_maintenance_facts :: "wire \<Rightarrow> json \<Rightarrow> codec_error + maintenance_fact list" where
  "decode_maintenance_facts w j =
     rbind (case json_array j of None \<Rightarrow> Inl (Refused ''maintenance facts'') | Some items \<Rightarrow> Inr items) (\<lambda>items.
     rbind (decode_items ''facts'' (decode_maintenance_fact w) items) (\<lambda>fs.
     rbind (validate_maintenance_facts fs) (\<lambda>_. Inr fs)))"

end
