(* ===== verification/Codec_Back.thy ===== *)
theory Codec_Back
  imports Codec_Laws Codec_Values
begin

text \<open>Every decoder of a shared value inverts its encoder.\<close>

section \<open>References\<close>

declare map_error_Inr [simp]

lemma rbind_unit_eq: "rbind (x :: 'e + unit) f = Inr b \<longleftrightarrow> x = Inr () \<and> f () = Inr b"
  by (cases x) auto

lemma map_error_of_Inr [simp]: "map_error f (Inr a) = Inr a"
  by (simp add: map_error_def)

lemma entry_ref_reads:
  assumes "validate_entry_ref r = Inr ()"
  shows "reads_object decode_entry_ref (entry_ref_json r) r"
proof -
  let ?fs = "[(''session_id'', jtext (er_session r)), (''entry_id'', jtext (er_entry r))]"
  obtain ob where ob: "jobj ?fs = JObj ob" "distinct (map fst ob)"
    and known: "\<And>known. list_all (\<lambda>f. fst f \<in> set known) ?fs \<Longrightarrow> reject_unknown_members known ob = Inr ()"
    and at: "list_all (\<lambda>(k, v). map_of ob k = v) ?fs"
    by (rule built_object [of ?fs]) auto
  have "decode_entry_ref ob = Inr r"
    unfolding decode_entry_ref_def using at assms by (cases r) (simp add: known member_back)
  with ob show ?thesis by (simp add: reads_object_def entry_ref_json_def)
qed

lemma entry_ref_back: "inverts_object encode_entry_ref decode_entry_ref r"
  using entry_ref_reads by (auto simp: inverts_object_def encode_entry_ref_def rbind_eq_Inr)

lemma operation_ref_reads:
  assumes "validate_operation_ref r = Inr ()"
  shows "reads_object decode_operation_ref (operation_ref_json r) r"
proof -
  let ?fs = "[(''session_id'', jtext (opr_session r)), (''operation_id'', jtext (opr_operation r))]"
  obtain ob where ob: "jobj ?fs = JObj ob" "distinct (map fst ob)"
    and known: "\<And>known. list_all (\<lambda>f. fst f \<in> set known) ?fs \<Longrightarrow> reject_unknown_members known ob = Inr ()"
    and at: "list_all (\<lambda>(k, v). map_of ob k = v) ?fs"
    by (rule built_object [of ?fs]) auto
  have "decode_operation_ref ob = Inr r"
    unfolding decode_operation_ref_def using at assms by (cases r) (simp add: known member_back)
  with ob show ?thesis by (simp add: reads_object_def operation_ref_json_def)
qed

section \<open>Messages\<close>

lemma message_tool_call_back:
  "faithful_wire w \<Longrightarrow> inverts (encode_message_tool_call w) (decode_message_tool_call w) c"
  unfolding inverts_def
proof (intro allI impI)
  fix j
  assume w: "faithful_wire w" and enc: "encode_message_tool_call w c = Inr j" and d: "tidy j"
  obtain ex where ex: "omit_extra w (call_extra c) = Inr ex" and v: "validate_tool_call c = Inr ()"
    and j: "j = jobj
         [(''id'', jtext (call_id c)),
          (''name'', jtext (call_name c)),
          (''arguments_base64'', jtext (base64_encode (call_arguments c))),
          (''extra'', ex)]" (is "_ = jobj ?fs")
    using enc by (auto simp: encode_message_tool_call_def rbind_eq_Inr)
  obtain ob where ob: "payload_object (Value (jobj ?fs)) = Inr ob"
    and known: "\<And>known. list_all (\<lambda>f. fst f \<in> set known) ?fs \<Longrightarrow> reject_unknown_members known ob = Inr ()"
    and at: "list_all (\<lambda>(k, v). map_of ob k = v) ?fs"
    by (rule built_object [of ?fs]) auto
  have "extra_member w ob ''extra'' False = Inr (call_extra c)"
    using at tidy_jobj [OF d [unfolded j]] by (intro extra_back [OF w ex]) auto
  then show "decode_message_tool_call w j = Inr c"
    unfolding decode_message_tool_call_def j ob
    using v at by (cases c) (simp add: known member_back)
qed

lemma role_named_text: "valid_role r \<Longrightarrow> role_named (role_text r) = r"
  by (cases r) (simp_all add: valid_role_def role_named_def)

lemma each_tidy: "pred_option tidy (omit_list js) \<Longrightarrow> list_all tidy js"
  by (auto simp: omit_list_def split: if_splits)

lemma message_back: "faithful_wire w \<Longrightarrow> inverts (encode_message_value w) (decode_message_value w) m"
  unfolding inverts_def
proof (intro allI impI)
  fix j
  let ?src = "if ref_is_zero (msg_source m) then None else Some (msg_source m)"
  assume w: "faithful_wire w" and enc: "encode_message_value w m = Inr j" and d: "tidy j"
  obtain src parts ex calls where v: "validate_message m = Inr ()"
    and src: "encode_option encode_model_ref ?src = Inr src"
    and parts: "encode_each (encode_content_part w) (msg_content m) = Inr parts"
    and ex: "omit_extra w (msg_extra m) = Inr ex"
    and calls: "encode_each (encode_message_tool_call w) (msg_tool_calls m) = Inr calls"
    and j: "j = jobj
         [(''role'', jtext (role_text (msg_role m))),
          (''source'', src),
          (''content'', omit_list parts),
          (''refusal'', omit (msg_refusal m)),
          (''name'', omit (msg_name m)),
          (''extra'', ex),
          (''tool_calls'', omit_list calls),
          (''tool_call_id'', omit (msg_tool_call_id m))]" (is "_ = jobj ?fs")
    using enc unfolding encode_message_value_def rbind_unit_eq unfolding rbind_eq_Inr map_error_Inr sum.inject by blast
  obtain ob where ob: "payload_object (Value (jobj ?fs)) = Inr ob"
    and known: "\<And>known. list_all (\<lambda>f. fst f \<in> set known) ?fs \<Longrightarrow> reject_unknown_members known ob = Inr ()"
    and at: "list_all (\<lambda>(k, v). map_of ob k = v) ?fs"
    by (rule built_object [of ?fs]) auto
  note t = tidy_jobj [OF d [unfolded j]]
  have "extra_member w ob ''extra'' False = Inr (msg_extra m)"
    using at t by (intro extra_back [OF w ex]) auto
  moreover have "optional_part decode_model_ref ob ''source'' = Inr ?src"
    using at t by (intro optional_part_back [OF _ src] model_ref_back) auto
  moreover have "decode_items ''content'' (decode_content_part w) parts = Inr (msg_content m)"
    using t each_tidy by (intro items_back [OF parts] content_part_back [OF w]) auto
  moreover have "decode_items ''tool_calls'' (decode_message_tool_call w) calls = Inr (msg_tool_calls m)"
    using t each_tidy by (intro items_back [OF calls] message_tool_call_back [OF w]) auto
  moreover have "role_named (role_text (msg_role m)) = msg_role m"
    using v by (intro role_named_text) (simp add: validate_message_def rbind_eq_Inr ensure_eq_Inr)
  moreover have "(case ?src of None \<Rightarrow> zero_ref | Some r \<Rightarrow> r) = msg_source m"
    by (simp add: ref_is_zero_def zero_ref_def)
  moreover have "new_message m = Inr m" using v by (simp add: new_message_def)
  ultimately show "decode_message_value w j = Inr m"
    unfolding decode_message_value_def j ob
    using at by (cases m) (simp add: known member_back)
qed

section \<open>Hook identities and names\<close>

lemma hook_identity_back: "decode_hook_identity (hook_identity_json h) = Inr h"
proof -
  let ?fs = "[(''extension_id'', jtext (hi_extension h)), (''hook_id'', jtext (hi_hook h))]"
  obtain ob where ob: "payload_object (Value (jobj ?fs)) = Inr ob"
    and known: "\<And>known. list_all (\<lambda>f. fst f \<in> set known) ?fs \<Longrightarrow> reject_unknown_members known ob = Inr ()"
    and at: "list_all (\<lambda>(k, v). map_of ob k = v) ?fs"
    by (rule built_object [of ?fs]) auto
  show ?thesis
    unfolding decode_hook_identity_def hook_identity_json_def ob
    using at by (cases h) (simp add: known member_back)
qed

lemma hook_identities_back:
  assumes "encode_hook_identities hs = Inr oj" "map_of ob k = oj"
  shows "decode_hook_identities ob k = Inr hs"
proof (cases "hs = []")
  case True
  with assms have "array_member ob k False = Inr []" by (simp add: encode_hook_identities_def array_absent)
  with True show ?thesis by (simp add: decode_hook_identities_def validate_hook_identities_def)
next
  case False
  with assms have v: "validate_hook_identities hs = Inr ()" and at: "map_of ob k = Some (JArr (map hook_identity_json hs))"
    by (auto simp: encode_hook_identities_def rbind_eq_Inr)
  have "decode_items k decode_hook_identity (map hook_identity_json hs) = Inr hs"
    by (rule items_map_back) (rule hook_identity_back)
  with v array_back [OF at] show ?thesis by (simp add: decode_hook_identities_def)
qed

lemma check_names_not_empty: "check_names seen ns = Inr () \<Longrightarrow> [] \<notin> set ns"
  by (induction ns arbitrary: seen) (auto simp: rbind_eq_Inr ensure_eq_Inr)

lemma names_back:
  assumes "check_names [] ns = Inr ()" "map_of ob k = Some (JArr (map JStr ns))"
  shows "optional_string_member_list ob k = Inr (Some ns)"
proof -
  have "decode_items k decode_name (map JStr ns) = Inr ns"
    using check_names_not_empty [OF assms(1)] by (intro items_map_back) (auto simp: decode_name_def ensure_def)
  with array_back [OF assms(2)] assms(2) show ?thesis by (simp add: optional_string_member_list_def present_def)
qed

section \<open>Request evidence and consequences\<close>

lemma evidence_back:
  "faithful_wire w \<Longrightarrow> inverts (encode_request_evidence w) (\<lambda>j. decode_request_evidence w (Value j)) v"
  unfolding inverts_def
proof (intro allI impI)
  fix j
  assume w: "faithful_wire w" and enc: "encode_request_evidence w v = Inr j" and d: "tidy j"
  obtain ms hooks where v: "validate_request_evidence v = Inr ()"
    and ms: "encode_each (encode_message_value w) (ev_messages v) = Inr ms"
    and hooks: "encode_hook_identities (ev_hooks v) = Inr hooks"
    and j: "j = jobj
         [(''boundary_entry_id'', jtext (ev_boundary v)),
          (''prompt'', jtext (ev_prompt v)),
          (''checkpoint_entry_id'', omit (ev_checkpoint v)),
          (''messages'', omit_list ms),
          (''tool_names'', Some (JArr (map JStr (ev_tool_names v)))),
          (''hook_ids'', hooks)]" (is "_ = jobj ?fs")
    using enc unfolding encode_request_evidence_def rbind_unit_eq unfolding rbind_eq_Inr map_error_Inr sum.inject by blast
  obtain ob where ob: "payload_object (Value (jobj ?fs)) = Inr ob"
    and known: "\<And>known. list_all (\<lambda>f. fst f \<in> set known) ?fs \<Longrightarrow> reject_unknown_members known ob = Inr ()"
    and at: "list_all (\<lambda>(k, v). map_of ob k = v) ?fs"
    by (rule built_object [of ?fs]) auto
  note t = tidy_jobj [OF d [unfolded j]]
  have "check_names [] (ev_tool_names v) = Inr ()"
    using v by (simp add: validate_request_evidence_def rbind_eq_Inr)
  then have "optional_string_member_list ob ''tool_names'' = Inr (Some (ev_tool_names v))"
    by (rule names_back) (use at in simp)
  moreover have "decode_hook_identities ob ''hook_ids'' = Inr (ev_hooks v)"
    using at by (intro hook_identities_back [OF hooks]) simp
  moreover have "decode_items ''messages'' (decode_message_value w) ms = Inr (ev_messages v)"
    using t each_tidy by (intro items_back [OF ms] message_back [OF w]) auto
  moreover have "json_member ob ''tool_names'' True = Inr (Some (JArr (map JStr (ev_tool_names v))))"
    using at by (simp add: json_member_def)
  ultimately show "decode_request_evidence w (Value j) = Inr v"
    unfolding decode_request_evidence_def j ob
    using at v by (cases v) (simp add: known member_back)
qed

lemma consequence_back:
  "faithful_wire w \<Longrightarrow> inverts (encode_request_consequence w) (\<lambda>j. decode_request_consequence w (Value j)) v"
  unfolding inverts_def
proof (intro allI impI)
  fix j
  assume w: "faithful_wire w" and enc: "encode_request_consequence w v = Inr j" and d: "tidy j"
  obtain ms where v: "validate_request_consequence_shape v = Inr ()"
    and ms: "encode_each (encode_message_value w) (rc_messages v) = Inr ms"
    and j: "j = jobj
         [(''prompt'', map_option JStr (rc_prompt v)),
          (''messages'', omit_list ms),
          (''tool_names'', map_option (\<lambda>ns. JArr (map JStr ns)) (rc_tool_names v))]" (is "_ = jobj ?fs")
    using enc unfolding encode_request_consequence_def rbind_unit_eq unfolding rbind_eq_Inr map_error_Inr sum.inject by blast
  obtain ob where ob: "payload_object (Value (jobj ?fs)) = Inr ob"
    and known: "\<And>known. list_all (\<lambda>f. fst f \<in> set known) ?fs \<Longrightarrow> reject_unknown_members known ob = Inr ()"
    and at: "list_all (\<lambda>(k, v). map_of ob k = v) ?fs"
    by (rule built_object [of ?fs]) auto
  note t = tidy_jobj [OF d [unfolded j]]
  have "optional_string_member_list ob ''tool_names'' = Inr (rc_tool_names v)"
  proof (cases "rc_tool_names v")
    case None
    with at show ?thesis by (simp add: optional_string_member_list_def present_def)
  next
    case (Some ns)
    with v have "check_names [] ns = Inr ()" by (simp add: validate_request_consequence_shape_def rbind_eq_Inr)
    with Some at show ?thesis by (simp add: names_back)
  qed
  moreover have "optional_string_member ob ''prompt'' = Inr (rc_prompt v)"
    using at by (cases "rc_prompt v") (simp_all add: optional_string_member_def present_def member_back)
  moreover have "decode_items ''messages'' (decode_message_value w) ms = Inr (rc_messages v)"
    using t each_tidy by (intro items_back [OF ms] message_back [OF w]) auto
  ultimately show "decode_request_consequence w (Value j) = Inr v"
    unfolding decode_request_consequence_def j ob
    using at v by (cases v) (simp add: known member_back)
qed

lemma optional_record_back:
  assumes "map_of ob k = oj" "encode_option enc v = Inr oj" "pred_option tidy oj"
    and "\<And>a. v = Some a \<Longrightarrow> inverts enc (\<lambda>j. dec (Value j)) a"
  shows "optional_record dec ob k = Inr v"
proof (cases v)
  case None
  with assms show ?thesis by (simp add: optional_record_def present_def)
next
  case (Some a)
  with assms obtain j where "enc a = Inr j" "oj = Some j" by (auto simp: rbind_eq_Inr)
  with Some assms show ?thesis by (simp add: optional_record_def present_def raw_at_def inverts_def)
qed

section \<open>Token counts\<close>

lemma usage_count_reads: "reads_object decode_usage_count (encode_usage_count u) u"
proof -
  let ?fs = "[(''input_tokens'', jint (sint (in_tokens u))), (''cached_input_tokens'', jint (sint (cached_tokens u))),
    (''output_tokens'', jint (sint (out_tokens u)))]"
  obtain ob where ob: "jobj ?fs = JObj ob" "distinct (map fst ob)"
    and known: "\<And>known. list_all (\<lambda>f. fst f \<in> set known) ?fs \<Longrightarrow> reject_unknown_members known ob = Inr ()"
    and at: "list_all (\<lambda>(k, v). map_of ob k = v) ?fs"
    by (rule built_object [of ?fs]) auto
  have "decode_usage_count ob = Inr u"
    unfolding decode_usage_count_def using at by (cases u) (simp add: known int64_back sint_range)
  with ob show ?thesis by (simp add: reads_object_def encode_usage_count_def)
qed

lemma optional_usage_back:
  "map_of ob k = map_option encode_usage_count u \<Longrightarrow> optional_part decode_usage_count ob k = Inr u"
  by (rule optional_reads, assumption, rule usage_count_reads)

lemma model_usage_back: "inverts encode_model_usage decode_model_usage mu"
  unfolding inverts_def
proof (intro allI impI)
  fix j
  assume enc: "encode_model_usage mu = Inr j" and d: "tidy j"
  obtain r where r: "encode_model_ref (mu_model mu) = Inr r"
    and j: "j = jobj [(''model'', Some r), (''usage'', Some (encode_usage_count (mu_usage mu)))]" (is "_ = jobj ?fs")
    using enc by (auto simp: encode_model_usage_def rbind_eq_Inr)
  obtain ob where ob: "payload_object (Value (jobj ?fs)) = Inr ob"
    and known: "\<And>known. list_all (\<lambda>f. fst f \<in> set known) ?fs \<Longrightarrow> reject_unknown_members known ob = Inr ()"
    and at: "list_all (\<lambda>(k, v). map_of ob k = v) ?fs"
    by (rule built_object [of ?fs]) auto
  have "part_member decode_model_ref ob ''model'' = Inr (mu_model mu)"
    using at tidy_jobj [OF d [unfolded j]] by (intro part_back [OF _ model_ref_back r]) auto
  moreover have "part_member decode_usage_count ob ''usage'' = Inr (mu_usage mu)"
    using at by (intro part_reads [OF _ usage_count_reads]) simp
  ultimately show "decode_model_usage j = Inr mu"
    unfolding decode_model_usage_def j ob by (cases mu) (simp add: known)
qed

lemma usage_totals_back: "inverts_object encode_usage_totals decode_usage_totals t"
  unfolding inverts_object_def
proof (intro allI impI)
  fix j
  assume enc: "encode_usage_totals t = Inr j" and d: "tidy j"
  obtain items where v: "validate_usage_totals t = Inr ()" and items: "encode_each encode_model_usage t = Inr items"
    and j: "j = jobj [(''by_model'', Some (JArr items))]" (is "_ = jobj ?fs")
    using enc by (auto simp: encode_usage_totals_def rbind_eq_Inr)
  obtain ob where ob: "jobj ?fs = JObj ob" "distinct (map fst ob)"
    and known: "\<And>known. list_all (\<lambda>f. fst f \<in> set known) ?fs \<Longrightarrow> reject_unknown_members known ob = Inr ()"
    and at: "list_all (\<lambda>(k, v). map_of ob k = v) ?fs"
    by (rule built_object [of ?fs]) auto
  have "decode_items ''by_model'' decode_model_usage items = Inr t"
    using tidy_jobj [OF d [unfolded j]] by (intro items_back [OF items] model_usage_back) simp
  then have "decode_usage_totals ob = Inr t"
    unfolding decode_usage_totals_def using at v by (simp add: known member_back)
  with ob j show "reads_object decode_usage_totals j t" by (simp add: reads_object_def)
qed

section \<open>Maintenance facts\<close>

lemma maintenance_input_back:
  "faithful_wire w \<Longrightarrow> inverts (encode_maintenance_input w) (decode_maintenance_input w) ms"
  unfolding inverts_def
proof (intro allI impI)
  fix j
  assume w: "faithful_wire w" and enc: "encode_maintenance_input w ms = Inr j" and d: "tidy j"
  obtain items where v: "validate_maintenance_input ms = Inr ()"
    and items: "encode_each (encode_message_value w) ms = Inr items" and j: "j = JArr items"
    using enc by (auto simp: encode_maintenance_input_def rbind_eq_Inr)
  have "decode_items ''input'' (decode_message_value w) items = Inr ms"
    using d j by (intro items_back [OF items] message_back [OF w]) simp
  with v j show "decode_maintenance_input w j = Inr ms" by (simp add: decode_maintenance_input_def)
qed

lemma maintenance_fact_back:
  assumes w: "faithful_wire w" and v: "validate_maintenance_fact f = Inr ()"
  shows "inverts (encode_maintenance_fact w) (decode_maintenance_fact w) f"
  unfolding inverts_def
proof (intro allI impI)
  fix j
  assume enc: "encode_maintenance_fact w f = Inr j" and d: "tidy j"
  obtain r i where r: "encode_model_ref (mf_model f) = Inr r" and i: "encode_maintenance_input w (mf_input f) = Inr i"
    and j: "j = jobj [(''request_id'', jtext (mf_request f)), (''model'', Some r), (''input'', Some i),
          (''usage'', map_option encode_usage_count (mf_usage f))]" (is "_ = jobj ?fs")
    using enc by (auto simp: encode_maintenance_fact_def rbind_eq_Inr)
  obtain ob where ob: "payload_object (Value (jobj ?fs)) = Inr ob"
    and known: "\<And>known. list_all (\<lambda>f. fst f \<in> set known) ?fs \<Longrightarrow> reject_unknown_members known ob = Inr ()"
    and at: "list_all (\<lambda>(k, v). map_of ob k = v) ?fs"
    by (rule built_object [of ?fs]) auto
  note t = tidy_jobj [OF d [unfolded j]]
  have "part_member decode_model_ref ob ''model'' = Inr (mf_model f)"
    using at t by (intro part_back [OF _ model_ref_back r]) auto
  moreover have "i \<noteq> JNull" using i by (auto simp: encode_maintenance_input_def rbind_eq_Inr)
  then have "json_member ob ''input'' True = Inr (Some i)" using at by (simp add: json_string_Some)
  moreover have "decode_maintenance_input w i = Inr (mf_input f)"
    using maintenance_input_back [OF w] i t by (simp add: inverts_def)
  moreover have "optional_part decode_usage_count ob ''usage'' = Inr (mf_usage f)"
    using at by (intro optional_usage_back) simp
  ultimately show "decode_maintenance_fact w j = Inr f"
    unfolding decode_maintenance_fact_def j ob using at v by (cases f) (simp add: known member_back)
qed

lemma check_facts_each: "check_facts i seen fs = Inr () \<Longrightarrow> f \<in> set fs \<Longrightarrow> validate_maintenance_fact f = Inr ()"
  by (induction fs arbitrary: i seen) (auto simp: rbind_eq_Inr)

lemma maintenance_facts_back:
  "faithful_wire w \<Longrightarrow> inverts (encode_maintenance_facts w) (decode_maintenance_facts w) fs"
  unfolding inverts_def
proof (intro allI impI)
  fix j
  assume w: "faithful_wire w" and enc: "encode_maintenance_facts w fs = Inr j" and d: "tidy j"
  obtain items where v: "validate_maintenance_facts fs = Inr ()"
    and items: "encode_each (encode_maintenance_fact w) fs = Inr items" and j: "j = JArr items"
    using enc by (auto simp: encode_maintenance_facts_def rbind_eq_Inr)
  have "decode_items ''facts'' (decode_maintenance_fact w) items = Inr fs"
    using d j v check_facts_each unfolding validate_maintenance_facts_def
    by (intro items_back [OF items] maintenance_fact_back [OF w]) auto
  with v j show "decode_maintenance_facts w j = Inr fs" by (simp add: decode_maintenance_facts_def)
qed

lemma facts_json_array: "encode_maintenance_facts w fs = Inr j \<Longrightarrow> \<exists>items. j = JArr items"
  by (auto simp: encode_maintenance_facts_def rbind_eq_Inr)

end
