(* ===== verification/Payload_Entries.thy ===== *)
theory Payload_Entries
  imports Codec_Values Session_Tx
begin

text \<open>
  The durable payload of every kind of entry (\<open>src/harness/payload.go\<close>): its rules, its encoder and its decoder, which
  also requires the identities of the payload to agree with the envelope.
\<close>

section \<open>Envelopes\<close>

definition validate_optional_operation :: "string \<Rightarrow> codec_error + unit" where
  "validate_optional_operation oid = (if oid \<noteq> [] then validate_operation_identity oid ''operation id'' else Inr ())"

definition decode_entry_envelope :: "stored_entry \<Rightarrow> codec_error + unit" where
  "decode_entry_envelope env =
     rbind (validate_hex_id (en_session env) ''envelope session id'') (\<lambda>_.
     rbind (validate_hex_id (en_id env) ''envelope entry id'') (\<lambda>_.
       validate_optional_operation (en_operation env)))"

definition check_agreement :: "stored_entry \<Rightarrow> string \<Rightarrow> string \<Rightarrow> string \<Rightarrow> codec_error + unit" where
  "check_agreement env sid eid oid =
     rbind (ensure (sid = en_session env) (Disagrees ''session id'')) (\<lambda>_.
     rbind (ensure (eid = en_id env) (Disagrees ''entry id'')) (\<lambda>_.
       ensure (oid = en_operation env) (Disagrees ''operation id'')))"

definition validate_identities :: "string \<Rightarrow> string \<Rightarrow> string \<Rightarrow> codec_error + unit" where
  "validate_identities sid eid oid =
     rbind (validate_hex_id sid ''session id'') (\<lambda>_.
     rbind (validate_hex_id eid ''entry id'') (\<lambda>_.
       validate_optional_operation oid))"

text \<open>The identities an owned payload repeats: the Operation is required.\<close>

definition validate_owned_identities :: "string \<Rightarrow> string \<Rightarrow> string \<Rightarrow> codec_error + unit" where
  "validate_owned_identities sid eid oid =
     rbind (validate_hex_id sid ''session id'') (\<lambda>_.
     rbind (validate_hex_id eid ''entry id'') (\<lambda>_.
       validate_operation_identity oid ''operation id''))"

section \<open>Input\<close>

fun origin_text :: "input_origin \<Rightarrow> string" where
  "origin_text OriginUser = ''user''"
| "origin_text OriginRuntime = ''runtime''"
| "origin_text OriginPlugin = ''plugin''"
| "origin_text (OtherOrigin s) = s"

definition origin_named :: "string \<Rightarrow> input_origin" where
  "origin_named s =
     (if s = ''user'' then OriginUser else if s = ''runtime'' then OriginRuntime
      else if s = ''plugin'' then OriginPlugin else OtherOrigin s)"

definition validate_parts :: "content_part list \<Rightarrow> codec_error + unit" where
  "validate_parts ps = indexed_error (\<lambda>i p. map_error (\<lambda>e. InItem ''content'' i (ModelRule e)) (validate_content_part p)) ps"

definition validate_input_entry :: "input_entry \<Rightarrow> codec_error + unit" where
  "validate_input_entry v =
     rbind (validate_identities (in_session v) (in_entry v) (in_operation v)) (\<lambda>_.
     rbind (ensure (in_origin v \<in> {OriginUser, OriginRuntime, OriginPlugin}) (Refused ''input origin'')) (\<lambda>_.
       validate_parts (in_content v)))"

definition encode_input_entry :: "wire \<Rightarrow> input_entry \<Rightarrow> codec_error + json" where
  "encode_input_entry w v =
     rbind (map_error InvalidInput (validate_input_entry v)) (\<lambda>_.
     rbind (encode_each (encode_content_part w) (in_content v)) (\<lambda>content.
       Inr (jobj
         [(''session_id'', jtext (in_session v)),
          (''entry_id'', jtext (in_entry v)),
          (''operation_id'', omit (in_operation v)),
          (''origin'', jtext (origin_text (in_origin v))),
          (''content'', Some (JArr content))])))"

definition decode_input_entry :: "wire \<Rightarrow> stored_entry \<Rightarrow> codec_error + input_entry" where
  "decode_input_entry w env =
     rbind (decode_entry_envelope env) (\<lambda>_.
     rbind (payload_object (se_payload env)) (\<lambda>ob.
     rbind (reject_unknown_members [''session_id'', ''entry_id'', ''operation_id'', ''origin'', ''content''] ob) (\<lambda>_.
     rbind (string_member ob ''session_id'' True) (\<lambda>sid.
     rbind (string_member ob ''entry_id'' True) (\<lambda>eid.
     rbind (optional_non_empty_string ob ''operation_id'') (\<lambda>oid.
     rbind (string_member ob ''origin'' True) (\<lambda>origin.
     rbind (array_member ob ''content'' True) (\<lambda>raws.
     rbind (check_agreement env sid eid oid) (\<lambda>_.
     rbind (decode_items ''content'' (decode_content_part w) raws) (\<lambda>content.
     rbind (Inr \<lparr>in_session = sid, in_entry = eid, in_operation = oid, in_origin = origin_named origin,
       in_content = content\<rparr>) (\<lambda>v.
     rbind (validate_input_entry v) (\<lambda>_. Inr v))))))))))))"

section \<open>Assistant\<close>

definition max_tool_diagnostic_bytes :: nat where
  "max_tool_diagnostic_bytes = 512"

definition bounded_diagnostic :: "string \<Rightarrow> bool" where
  "bounded_diagnostic s \<longleftrightarrow> valid_text s \<and> length s \<le> max_tool_diagnostic_bytes"

definition validate_tool_call_record :: "tool_call_record \<Rightarrow> codec_error + unit" where
  "validate_tool_call_record c =
     rbind (validate_operation_identity (tc_id c) ''tool call id'') (\<lambda>_.
     rbind (validate_operation_identity (tc_name c) ''tool call name'') (\<lambda>_.
     rbind (ensure (base64_strict (tc_arguments_base64 c) \<noteq> None) Noncanonical) (\<lambda>_.
     rbind (ensure (valid_extra_values (tc_extra c)) (Refused ''extra values'')) (\<lambda>_.
     rbind (if tc_normalized c \<noteq> NoBytes then rbind (payload_object (tc_normalized c)) (\<lambda>_. Inr ()) else Inr ()) (\<lambda>_.
     rbind (if tc_normalization_failure c \<noteq> [] then
              rbind (ensure (tc_normalized c = NoBytes) (Refused ''both normalizations'')) (\<lambda>_.
                ensure (bounded_diagnostic (tc_normalization_failure c)) (Refused ''normalization failure''))
            else Inr ()) (\<lambda>_.
       validate_hex_id (tc_result_entry c) ''tool call reserved result entry id''))))))"

definition encode_tool_call_record :: "wire \<Rightarrow> tool_call_record \<Rightarrow> codec_error + json" where
  "encode_tool_call_record w c =
     rbind (map_error InvalidInput (validate_tool_call_record c)) (\<lambda>_.
     rbind (omit_extra w (tc_extra c)) (\<lambda>extra.
       Inr (jobj
         [(''id'', jtext (tc_id c)),
          (''ordinal'', jint (tc_ordinal c)),
          (''name'', jtext (tc_name c)),
          (''arguments_base64'', jtext (tc_arguments_base64 c)),
          (''result_entry_id'', jtext (tc_result_entry c)),
          (''extra'', extra),
          (''normalized_arguments_base64'', omit_frame w (tc_normalized c)),
          (''normalization_failure'', omit (tc_normalization_failure c))])))"

definition decode_tool_call_record :: "wire \<Rightarrow> json \<Rightarrow> codec_error + tool_call_record" where
  "decode_tool_call_record w j =
     rbind (payload_object (Value j)) (\<lambda>ob.
     rbind (reject_unknown_members [''id'', ''ordinal'', ''name'', ''arguments_base64'', ''extra'',
       ''normalized_arguments_base64'', ''normalization_failure'', ''result_entry_id''] ob) (\<lambda>_.
     rbind (string_member ob ''id'' True) (\<lambda>i.
     rbind (int64_member ob ''ordinal'' True) (\<lambda>ordinal.
     rbind (string_member ob ''name'' True) (\<lambda>name.
     rbind (string_member ob ''arguments_base64'' True) (\<lambda>arguments.
     rbind (extra_member w ob ''extra'' False) (\<lambda>extra.
     rbind (framed_member w ob ''normalized_arguments_base64'' False) (\<lambda>normalized.
     rbind (optional_non_empty_string ob ''normalization_failure'') (\<lambda>failure.
     rbind (string_member ob ''result_entry_id'' True) (\<lambda>result.
       Inr \<lparr>tc_id = i, tc_ordinal = ordinal, tc_name = name, tc_arguments_base64 = arguments, tc_extra = extra,
         tc_normalized = normalized, tc_normalization_failure = failure, tc_result_entry = result\<rparr>))))))))))"

text \<open>The first loop over the calls: positions, shapes, and identities that repeat.\<close>

fun check_call_records :: "nat \<Rightarrow> string list \<Rightarrow> string list \<Rightarrow> tool_call_record list \<Rightarrow> codec_error + unit" where
  "check_call_records i calls results [] = Inr ()"
| "check_call_records i calls results (c # cs) =
     rbind (ensure (tc_ordinal c = int i) (InItem ''tool_calls'' i (Refused ''ordinal''))) (\<lambda>_.
     rbind (map_error (InItem ''tool_calls'' i) (validate_tool_call_record c)) (\<lambda>_.
     rbind (ensure (tc_id c \<notin> set calls) (InItem ''tool_calls'' i (Refused ''call id repeats''))) (\<lambda>_.
     rbind (ensure (tc_result_entry c \<notin> set results) (InItem ''tool_calls'' i (Refused ''result repeats''))) (\<lambda>_.
       check_call_records (Suc i) (tc_id c # calls) (tc_result_entry c # results) cs))))"

text \<open>An advertised call carries exactly one of its normalization and its failure, another call neither.\<close>

definition normalization_rule :: "string list \<Rightarrow> tool_call_record \<Rightarrow> codec_error + unit" where
  "normalization_rule names c =
     (let normalized = tc_normalized c \<noteq> NoBytes; failed = tc_normalization_failure c \<noteq> []
      in if tc_name c \<in> set names then ensure (normalized \<noteq> failed) (Refused ''advertised call'')
         else ensure (\<not> (normalized \<or> failed)) (Refused ''unadvertised call''))"

fun output_status_text :: "output_status \<Rightarrow> string" where
  "output_status_text OutputCompleted = ''completed''"
| "output_status_text OutputErrored = ''errored''"
| "output_status_text OutputInterrupted = ''interrupted''"
| "output_status_text (OtherOutput s) = s"

definition output_status_named :: "string \<Rightarrow> output_status" where
  "output_status_named s =
     (if s = ''completed'' then OutputCompleted else if s = ''errored'' then OutputErrored
      else if s = ''interrupted'' then OutputInterrupted else OtherOutput s)"

definition validate_assistant_entry :: "assistant_entry \<Rightarrow> codec_error + unit" where
  "validate_assistant_entry v =
     rbind (validate_identities (as_session v) (as_entry v) (as_operation v)) (\<lambda>_.
     rbind (ensure (\<not> (as_operation v = [] \<and> as_usage v \<noteq> None)) (Refused ''copied usage'')) (\<lambda>_.
     rbind (ensure (valid_output_status (as_status v)) (Refused ''assistant status'')) (\<lambda>_.
     rbind (ensure (\<not> (provider (as_source v) = [] \<or> model_name (as_source v) = [])) Incomplete) (\<lambda>_.
     rbind (validate_parts (as_content v)) (\<lambda>_.
     rbind (check_call_records 0 [] [] (as_tool_calls v)) (\<lambda>_.
     rbind (ensure (\<not> (as_status v \<noteq> OutputCompleted \<and> as_tool_calls v \<noteq> [])) (Refused ''calls of a failed output'')) (\<lambda>_.
     rbind (validate_operation_identity (as_request v) ''assistant request id'') (\<lambda>_.
       case as_evidence v of
         None \<Rightarrow> Inl (Refused ''no evidence'')
       | Some ev \<Rightarrow>
           rbind (validate_request_evidence ev) (\<lambda>_.
           rbind (indexed_error (\<lambda>i c. map_error (InItem ''tool_calls'' i) (normalization_rule (ev_tool_names ev) c))
             (as_tool_calls v)) (\<lambda>_.
             ensure (assistant_payload_eligible v) (Refused ''no payload'')))))))))))"

definition encode_assistant_entry :: "wire \<Rightarrow> assistant_entry \<Rightarrow> codec_error + json" where
  "encode_assistant_entry w v =
     rbind (map_error InvalidInput (validate_assistant_entry v)) (\<lambda>_.
     rbind (encode_model_ref (as_source v)) (\<lambda>source.
     rbind (encode_each (encode_content_part w) (as_content v)) (\<lambda>content.
     rbind (encode_each (encode_tool_call_record w) (as_tool_calls v)) (\<lambda>calls.
     rbind (omit_extra w (as_extra v)) (\<lambda>extra.
     rbind (encode_option (encode_request_evidence w) (as_evidence v)) (\<lambda>evidence.
       Inr (jobj
         [(''session_id'', jtext (as_session v)),
          (''entry_id'', jtext (as_entry v)),
          (''operation_id'', omit (as_operation v)),
          (''status'', jtext (output_status_text (as_status v))),
          (''source'', Some source),
          (''content'', Some (JArr content)),
          (''refusal'', omit (as_refusal v)),
          (''extra'', extra),
          (''tool_calls'', Some (JArr calls)),
          (''usage'', map_option encode_usage_count (as_usage v)),
          (''request_id'', jtext (as_request v)),
          (''evidence'', evidence)])))))))"

definition decode_assistant_entry :: "wire \<Rightarrow> stored_entry \<Rightarrow> codec_error + assistant_entry" where
  "decode_assistant_entry w env =
     rbind (decode_entry_envelope env) (\<lambda>_.
     rbind (payload_object (se_payload env)) (\<lambda>ob.
     rbind (reject_unknown_members [''session_id'', ''entry_id'', ''operation_id'', ''status'', ''source'', ''content'',
       ''refusal'', ''extra'', ''tool_calls'', ''usage'', ''request_id'', ''evidence''] ob) (\<lambda>_.
     rbind (string_member ob ''session_id'' True) (\<lambda>sid.
     rbind (string_member ob ''entry_id'' True) (\<lambda>eid.
     rbind (optional_non_empty_string ob ''operation_id'') (\<lambda>oid.
     rbind (string_member ob ''status'' True) (\<lambda>status.
     rbind (part_member decode_model_ref ob ''source'') (\<lambda>source.
     rbind (array_member ob ''content'' True) (\<lambda>parts.
     rbind (optional_non_empty_string ob ''refusal'') (\<lambda>refusal.
     rbind (extra_member w ob ''extra'' False) (\<lambda>extra.
     rbind (array_member ob ''tool_calls'' True) (\<lambda>calls_raw.
     rbind (optional_part decode_usage_count ob ''usage'') (\<lambda>usage.
     rbind (string_member ob ''request_id'' True) (\<lambda>rid.
     rbind (map_error (InMember ''evidence'') (decode_request_evidence w (raw_at ob ''evidence''))) (\<lambda>evidence.
     rbind (check_agreement env sid eid oid) (\<lambda>_.
     rbind (decode_items ''content'' (decode_content_part w) parts) (\<lambda>content.
     rbind (decode_items ''tool_calls'' (decode_tool_call_record w) calls_raw) (\<lambda>calls.
     rbind (ensure (\<not> (en_operation env = [] \<and> usage \<noteq> None)) (Refused ''copied usage'')) (\<lambda>_.
     rbind (Inr \<lparr>as_session = sid, as_entry = eid, as_operation = oid, as_status = output_status_named status,
       as_source = source, as_content = content, as_refusal = refusal, as_extra = extra, as_tool_calls = calls,
       as_usage = usage, as_request = rid, as_evidence = Some evidence\<rparr>) (\<lambda>v.
     rbind (validate_assistant_entry v) (\<lambda>_. Inr v)))))))))))))))))))))"

section \<open>Tool results\<close>

definition max_tool_metadata_bytes :: nat where
  "max_tool_metadata_bytes = 1048576"

definition owned_tool_metadata :: "wire \<Rightarrow> raw \<Rightarrow> raw" where
  "owned_tool_metadata w r =
     (if r = NoBytes then NoBytes
      else if max_tool_metadata_bytes < length (raw_bytes w r) \<or> \<not> json_valid r \<or> is_json_null r then NoBytes
      else r)"

fun evidence_text :: "execution_evidence \<Rightarrow> string" where
  "evidence_text EvidenceObserved = ''observed''"
| "evidence_text EvidenceNotStarted = ''not_started''"
| "evidence_text EvidenceUnknown = ''unknown''"
| "evidence_text (OtherEvidence s) = s"

definition evidence_named :: "string \<Rightarrow> execution_evidence" where
  "evidence_named s =
     (if s = ''observed'' then EvidenceObserved else if s = ''not_started'' then EvidenceNotStarted
      else if s = ''unknown'' then EvidenceUnknown else OtherEvidence s)"

definition valid_execution_evidence :: "execution_evidence \<Rightarrow> bool" where
  "valid_execution_evidence e \<longleftrightarrow> e \<in> {EvidenceObserved, EvidenceNotStarted, EvidenceUnknown}"

fun result_status_text :: "tool_result_status \<Rightarrow> string" where
  "result_status_text ResultSuccess = ''success''"
| "result_status_text ResultError = ''error''"
| "result_status_text ResultDenied = ''denied''"
| "result_status_text ResultInterrupted = ''interrupted''"
| "result_status_text (OtherResult s) = s"

definition result_status_named :: "string \<Rightarrow> tool_result_status" where
  "result_status_named s =
     (if s = ''success'' then ResultSuccess else if s = ''error'' then ResultError
      else if s = ''denied'' then ResultDenied else if s = ''interrupted'' then ResultInterrupted else OtherResult s)"

definition check_result :: "string \<Rightarrow> tool_result_status \<Rightarrow> string \<Rightarrow> codec_error + unit" where
  "check_result c s content =
     map_error ModelRule
       (rbind (new_tool_result \<lparr>res_call_id = c, res_status = s, res_content = content\<rparr>) (\<lambda>_. Inr ()))"

definition validate_tool_result_entry :: "wire \<Rightarrow> tool_result_entry \<Rightarrow> codec_error + unit" where
  "validate_tool_result_entry w v =
     rbind (validate_identities (tr_session v) (tr_entry v) (tr_operation v)) (\<lambda>_.
     rbind (check_result (tr_call v) (tr_status v) (tr_content v)) (\<lambda>_.
     rbind (check_result (tr_call v) (tr_status v) (tr_original v)) (\<lambda>_.
     rbind (ensure (\<not> (tr_shaping_failure v \<noteq> [] \<and> \<not> bounded_diagnostic (tr_shaping_failure v)))
       (Refused ''shaping failure'')) (\<lambda>_.
     rbind (ensure (valid_execution_evidence (tr_evidence v)) (Refused ''evidence'')) (\<lambda>_.
     rbind (ensure (\<not> (tr_metadata v \<noteq> NoBytes \<and> owned_tool_metadata w (tr_metadata v) = NoBytes)) (Refused ''metadata'')) (\<lambda>_.
     rbind (if tr_normalized v \<noteq> NoBytes then rbind (payload_object (tr_normalized v)) (\<lambda>_. Inr ()) else Inr ()) (\<lambda>_.
     rbind (ensure (\<not> (tr_hooks v \<noteq> [] \<and> tr_normalized v = NoBytes)) (Refused ''hooks without arguments'')) (\<lambda>_.
       validate_hook_identities (tr_hooks v)))))))))"

definition encode_tool_result_entry :: "wire \<Rightarrow> tool_result_entry \<Rightarrow> codec_error + json" where
  "encode_tool_result_entry w v =
     rbind (map_error InvalidInput (validate_tool_result_entry w v)) (\<lambda>_.
     rbind (encode_entry_ref (tr_assistant v)) (\<lambda>assistant.
     rbind (encode_hook_identities (tr_hooks v)) (\<lambda>hooks.
       Inr (jobj
         [(''session_id'', jtext (tr_session v)),
          (''entry_id'', jtext (tr_entry v)),
          (''operation_id'', omit (tr_operation v)),
          (''assistant_entry'', Some assistant),
          (''tool_call_id'', jtext (tr_call v)),
          (''status'', jtext (result_status_text (tr_status v))),
          (''content'', jtext (tr_content v)),
          (''original_content'', jtext (tr_original v)),
          (''shaping_failure'', omit (tr_shaping_failure v)),
          (''evidence'', jtext (evidence_text (tr_evidence v))),
          (''metadata_base64'', omit_frame w (tr_metadata v)),
          (''normalized_arguments_base64'', omit_frame w (tr_normalized v)),
          (''hook_ids'', hooks)]))))"

definition decode_tool_result_entry :: "wire \<Rightarrow> stored_entry \<Rightarrow> codec_error + tool_result_entry" where
  "decode_tool_result_entry w env =
     rbind (decode_entry_envelope env) (\<lambda>_.
     rbind (payload_object (se_payload env)) (\<lambda>ob.
     rbind (reject_unknown_members [''session_id'', ''entry_id'', ''operation_id'', ''assistant_entry'', ''tool_call_id'',
       ''status'', ''content'', ''original_content'', ''shaping_failure'', ''evidence'', ''metadata_base64'',
       ''normalized_arguments_base64'', ''hook_ids''] ob) (\<lambda>_.
     rbind (string_member ob ''session_id'' True) (\<lambda>sid.
     rbind (string_member ob ''entry_id'' True) (\<lambda>eid.
     rbind (optional_non_empty_string ob ''operation_id'') (\<lambda>oid.
     rbind (framed_member w ob ''metadata_base64'' False) (\<lambda>metadata.
     rbind (part_member decode_entry_ref ob ''assistant_entry'') (\<lambda>assistant.
     rbind (string_member ob ''tool_call_id'' True) (\<lambda>tcid.
     rbind (string_member ob ''status'' True) (\<lambda>status.
     rbind (string_member ob ''content'' True) (\<lambda>content.
     rbind (string_member ob ''original_content'' True) (\<lambda>original.
     rbind (optional_non_empty_string ob ''shaping_failure'') (\<lambda>shaping.
     rbind (string_member ob ''evidence'' True) (\<lambda>evidence.
     rbind (framed_member w ob ''normalized_arguments_base64'' False) (\<lambda>normalized.
     rbind (decode_hook_identities ob ''hook_ids'') (\<lambda>hooks.
     rbind (check_agreement env sid eid oid) (\<lambda>_.
     rbind (Inr \<lparr>tr_session = sid, tr_entry = eid, tr_operation = oid, tr_assistant = assistant, tr_call = tcid,
       tr_status = result_status_named status, tr_content = content, tr_original = original,
       tr_shaping_failure = shaping, tr_evidence = evidence_named evidence, tr_metadata = metadata,
       tr_normalized = normalized, tr_hooks = hooks\<rparr>) (\<lambda>v.
     rbind (validate_tool_result_entry w v) (\<lambda>_. Inr v)))))))))))))))))))"

section \<open>Hook results\<close>

fun hook_status_text :: "hook_status \<Rightarrow> string" where
  "hook_status_text HookSucceeded = ''success''"
| "hook_status_text HookFailed = ''error''"
| "hook_status_text HookInterrupted = ''interrupted''"
| "hook_status_text (OtherHookStatus s) = s"

definition hook_status_named :: "string \<Rightarrow> hook_status" where
  "hook_status_named s =
     (if s = ''success'' then HookSucceeded else if s = ''error'' then HookFailed
      else if s = ''interrupted'' then HookInterrupted else OtherHookStatus s)"

definition optional_stored_base64 :: "obj \<Rightarrow> string \<Rightarrow> codec_error + string" where
  "optional_stored_base64 ob k =
     (if present ob k
      then rbind (string_member ob k True) (\<lambda>s. rbind (ensure (base64_strict s \<noteq> None) Noncanonical) (\<lambda>_. Inr s))
      else Inr [])"

text \<open>The members of a tool binding, and of a request binding.\<close>

definition validate_hook_binding :: "hook_result_entry \<Rightarrow> codec_error + unit" where
  "validate_hook_binding v =
     (if hr_tool_call v \<noteq> [] then
        rbind (validate_operation_identity (hr_tool_call v) ''hook result tool call id'') (\<lambda>_.
        rbind (ensure (hr_input_evidence v = None) (Refused ''evidence of a tool binding'')) (\<lambda>_.
        rbind (ensure (base64_strict (hr_input_base64 v) \<noteq> None) Noncanonical) (\<lambda>_.
          ensure (hr_consequence v = None) (Refused ''consequence of a tool binding''))))
      else
        rbind (validate_operation_identity (hr_request v) ''hook result request id'') (\<lambda>_.
        rbind (ensure (hr_input_base64 v = []) (Refused ''bytes of a request binding'')) (\<lambda>_.
        rbind (case hr_input_evidence v of
                 None \<Rightarrow> Inl (Refused ''no input evidence'')
               | Some ev \<Rightarrow> map_error (InMember ''input_evidence'') (validate_request_evidence ev)) (\<lambda>_.
          ensure (hr_arguments v = NoBytes) (Refused ''arguments of a request binding'')))))"

definition validate_hook_outcome :: "hook_result_entry \<Rightarrow> codec_error + unit" where
  "validate_hook_outcome v =
     (if hr_status v = HookSucceeded then
        rbind (ensure (hr_evidence v = EvidenceObserved) (Refused ''evidence of a success'')) (\<lambda>_.
        rbind (ensure (hr_error v = []) (Refused ''error of a success'')) (\<lambda>_.
          if hr_tool_call v \<noteq> [] then rbind (payload_object (hr_arguments v)) (\<lambda>_. Inr ())
          else (case hr_consequence v of
                  None \<Rightarrow> Inl (Refused ''no consequence'')
                | Some c \<Rightarrow> map_error (InMember ''consequence'') (validate_request_consequence_shape c))))
      else if hr_status v \<in> {HookFailed, HookInterrupted} then
        rbind (ensure (valid_execution_evidence (hr_evidence v)) (Refused ''evidence'')) (\<lambda>_.
        rbind (ensure (hr_error v \<noteq> []) (Refused ''no error'')) (\<lambda>_.
        rbind (ensure (hr_arguments v = NoBytes) (Refused ''arguments of a failure'')) (\<lambda>_.
          ensure (hr_consequence v = None) (Refused ''consequence of a failure''))))
      else Inl (Refused ''hook result status''))"

definition validate_hook_result_entry :: "hook_result_entry \<Rightarrow> codec_error + unit" where
  "validate_hook_result_entry v =
     rbind (validate_owned_identities (hr_session v) (hr_entry v) (hr_operation v)) (\<lambda>_.
     rbind (ensure (hr_hook v \<noteq> []) (Refused ''hook id'')) (\<lambda>_.
     rbind (ensure (hr_extension v \<noteq> []) (Refused ''hook extension id'')) (\<lambda>_.
     rbind (ensure ((hr_tool_call v = []) \<noteq> (hr_request v = [])) (Refused ''exactly one binding'')) (\<lambda>_.
     rbind (validate_hook_binding v) (\<lambda>_.
       validate_hook_outcome v)))))"

definition encode_hook_result_entry :: "wire \<Rightarrow> hook_result_entry \<Rightarrow> codec_error + json" where
  "encode_hook_result_entry w v =
     rbind (map_error InvalidInput (validate_hook_result_entry v)) (\<lambda>_.
     rbind (encode_option (encode_request_consequence w)
       (if hr_status v = HookSucceeded \<and> hr_tool_call v = [] then hr_consequence v else None)) (\<lambda>consequence.
     rbind (encode_option (encode_request_evidence w)
       (if hr_tool_call v = [] then hr_input_evidence v else None)) (\<lambda>evidence.
       Inr (jobj
         [(''session_id'', jtext (hr_session v)),
          (''entry_id'', jtext (hr_entry v)),
          (''operation_id'', jtext (hr_operation v)),
          (''hook_id'', jtext (hr_hook v)),
          (''extension_id'', jtext (hr_extension v)),
          (''status'', jtext (hook_status_text (hr_status v))),
          (''evidence'', jtext (evidence_text (hr_evidence v))),
          (''tool_call_id'', omit (hr_tool_call v)),
          (''request_id'', omit (hr_request v)),
          (''arguments_base64'',
             if hr_status v = HookSucceeded \<and> hr_tool_call v \<noteq> [] then Some (frame w (hr_arguments v)) else None),
          (''consequence'', consequence),
          (''error'', omit (hr_error v)),
          (''input_arguments_base64'', if hr_tool_call v \<noteq> [] then jtext (hr_input_base64 v) else None),
          (''input_evidence'', evidence)]))))"

definition decode_hook_result_entry :: "wire \<Rightarrow> stored_entry \<Rightarrow> codec_error + hook_result_entry" where
  "decode_hook_result_entry w env =
     rbind (decode_entry_envelope env) (\<lambda>_.
     rbind (payload_object (se_payload env)) (\<lambda>ob.
     rbind (reject_unknown_members [''session_id'', ''entry_id'', ''operation_id'', ''hook_id'', ''extension_id'',
       ''tool_call_id'', ''request_id'', ''status'', ''evidence'', ''arguments_base64'', ''error'',
       ''input_arguments_base64'', ''input_evidence'', ''consequence''] ob) (\<lambda>_.
     rbind (string_member ob ''session_id'' True) (\<lambda>sid.
     rbind (string_member ob ''entry_id'' True) (\<lambda>eid.
     rbind (string_member ob ''operation_id'' True) (\<lambda>oid.
     rbind (string_member ob ''hook_id'' True) (\<lambda>hook.
     rbind (string_member ob ''extension_id'' True) (\<lambda>extension.
     rbind (optional_non_empty_string ob ''tool_call_id'') (\<lambda>tcid.
     rbind (optional_non_empty_string ob ''request_id'') (\<lambda>rid.
     rbind (string_member ob ''status'' True) (\<lambda>status.
     rbind (string_member ob ''evidence'' True) (\<lambda>evidence.
     rbind (framed_member w ob ''arguments_base64'' False) (\<lambda>arguments.
     rbind (optional_non_empty_string ob ''error'') (\<lambda>err.
     rbind (ensure (\<not> (tcid = [] \<and> present ob ''input_arguments_base64'')) (PresentMember ''input_arguments_base64'')) (\<lambda>_.
     rbind (optional_stored_base64 ob ''input_arguments_base64'') (\<lambda>consumed.
     rbind (ensure (\<not> (tcid \<noteq> [] \<and> rid = [] \<and> \<not> present ob ''input_arguments_base64''))
       (MissingMember ''input_arguments_base64'')) (\<lambda>_.
     rbind (optional_record (decode_request_evidence w) ob ''input_evidence'') (\<lambda>input_evidence.
     rbind (optional_record (decode_request_consequence w) ob ''consequence'') (\<lambda>consequence.
     rbind (check_agreement env sid eid oid) (\<lambda>_.
     rbind (Inr \<lparr>hr_session = sid, hr_entry = eid, hr_operation = oid, hr_hook = hook, hr_extension = extension,
       hr_tool_call = tcid, hr_request = rid, hr_status = hook_status_named status, hr_evidence = evidence_named evidence,
       hr_arguments = arguments, hr_error = err, hr_input_base64 = consumed, hr_input_evidence = input_evidence,
       hr_consequence = consequence\<rparr>) (\<lambda>v.
     rbind (validate_hook_result_entry v) (\<lambda>_. Inr v))))))))))))))))))))))"

section \<open>Signals\<close>

fun signal_text :: "signal_kind \<Rightarrow> string" where
  "signal_text SignalInterruption = ''interruption''"
| "signal_text SignalModelFailure = ''model_failure_continuation''"
| "signal_text SignalBackgroundCompletion = ''background_completion''"
| "signal_text (OtherSignal s) = s"

definition signal_named :: "string \<Rightarrow> signal_kind" where
  "signal_named s =
     (if s = ''interruption'' then SignalInterruption else if s = ''model_failure_continuation'' then SignalModelFailure
      else if s = ''background_completion'' then SignalBackgroundCompletion else OtherSignal s)"

definition validate_related_member :: "related_member \<Rightarrow> codec_error + unit" where
  "validate_related_member m =
     (if rm_kind m = ''child'' then validate_hex_id (rm_id m) ''related member id''
      else if rm_kind m = ''job'' then validate_job_id (rm_id m) ''related member id''
      else Inl (Refused ''related member kind''))"

definition validate_signal_entry :: "signal_entry \<Rightarrow> codec_error + unit" where
  "validate_signal_entry v =
     rbind (validate_identities (sg_session v) (sg_entry v) (sg_operation v)) (\<lambda>_.
       if sg_signal v \<in> {SignalInterruption, SignalModelFailure} then
         rbind (ensure (sg_related_member v = None) (Refused ''related member'')) (\<lambda>_.
           case sg_related_operation v of
             None \<Rightarrow> Inl (Refused ''no related operation'')
           | Some r \<Rightarrow>
               rbind (ensure (sg_content v = signal_content (sg_signal v)) (Refused ''signal content'')) (\<lambda>_.
               rbind (validate_hex_id (opr_session r) ''related operation session id'') (\<lambda>_.
                 validate_operation_identity (opr_operation r) ''related operation id'')))
       else if sg_signal v = SignalBackgroundCompletion then
         rbind (ensure (sg_operation v = []) (Refused ''operation of a background completion'')) (\<lambda>_.
         rbind (ensure (sg_related_operation v = None) (Refused ''related operation'')) (\<lambda>_.
           case sg_related_member v of
             None \<Rightarrow> Inl (Refused ''no related member'')
           | Some m \<Rightarrow>
               rbind (validate_related_member m) (\<lambda>_. ensure (sg_content v \<noteq> []) (Refused ''empty content''))))
       else Inl (Refused ''signal kind''))"

definition related_member_json :: "related_member \<Rightarrow> json" where
  "related_member_json m = jobj [(''kind'', jtext (rm_kind m)), (''id'', jtext (rm_id m))]"

definition encode_signal_entry :: "signal_entry \<Rightarrow> codec_error + json" where
  "encode_signal_entry v =
     rbind (map_error InvalidInput (validate_signal_entry v)) (\<lambda>_.
       Inr (jobj
         [(''session_id'', jtext (sg_session v)),
          (''entry_id'', jtext (sg_entry v)),
          (''operation_id'', omit (sg_operation v)),
          (''signal'', jtext (signal_text (sg_signal v))),
          (''related_operation'', map_option operation_ref_json (sg_related_operation v)),
          (''related_member'', map_option related_member_json (sg_related_member v)),
          (''content'', jtext (sg_content v))]))"

definition decode_related_member :: "obj \<Rightarrow> codec_error + related_member" where
  "decode_related_member ob =
     rbind (reject_unknown_members [''kind'', ''id''] ob) (\<lambda>_.
     rbind (string_member ob ''kind'' True) (\<lambda>kind.
     rbind (string_member ob ''id'' True) (\<lambda>i. Inr \<lparr>rm_kind = kind, rm_id = i\<rparr>)))"

definition decode_signal_entry :: "stored_entry \<Rightarrow> codec_error + signal_entry" where
  "decode_signal_entry env =
     rbind (decode_entry_envelope env) (\<lambda>_.
     rbind (payload_object (se_payload env)) (\<lambda>ob.
     rbind (reject_unknown_members [''session_id'', ''entry_id'', ''operation_id'', ''signal'', ''related_operation'',
       ''related_member'', ''content''] ob) (\<lambda>_.
     rbind (string_member ob ''session_id'' True) (\<lambda>sid.
     rbind (string_member ob ''entry_id'' True) (\<lambda>eid.
     rbind (optional_non_empty_string ob ''operation_id'') (\<lambda>oid.
     rbind (string_member ob ''signal'' True) (\<lambda>sig.
     rbind (optional_part decode_operation_ref ob ''related_operation'') (\<lambda>related.
     rbind (optional_part decode_related_member ob ''related_member'') (\<lambda>mem.
     rbind (string_member ob ''content'' True) (\<lambda>content.
     rbind (check_agreement env sid eid oid) (\<lambda>_.
     rbind (Inr \<lparr>sg_session = sid, sg_entry = eid, sg_operation = oid, sg_signal = signal_named sig,
       sg_related_operation = related, sg_related_member = mem, sg_content = content\<rparr>) (\<lambda>v.
     rbind (validate_signal_entry v) (\<lambda>_. Inr v)))))))))))))"

section \<open>Settlements\<close>

fun op_status_text :: "operation_status \<Rightarrow> string" where
  "op_status_text OpRunning = ''running''"
| "op_status_text OpSuccess = ''success''"
| "op_status_text OpFailure = ''failure''"
| "op_status_text OpInterruption = ''interruption''"
| "op_status_text (OtherOpStatus s) = s"

definition op_status_named :: "string \<Rightarrow> operation_status" where
  "op_status_named s =
     (if s = ''running'' then OpRunning else if s = ''success'' then OpSuccess else if s = ''failure'' then OpFailure
      else if s = ''interruption'' then OpInterruption else OtherOpStatus s)"

definition validate_settlement_facts :: "settlement_entry \<Rightarrow> codec_error + unit" where
  "validate_settlement_facts v =
     (if st_facts v \<noteq> [] then
        rbind (ensure (\<not> (st_compaction_usage v \<and> st_request v = [])) (Refused ''facts without request'')) (\<lambda>_.
          validate_maintenance_facts (st_facts v))
      else Inr ())"

definition validate_operation_settlement_entry :: "settlement_entry \<Rightarrow> codec_error + unit" where
  "validate_operation_settlement_entry v =
     rbind (validate_owned_identities (st_session v) (st_entry v) (st_operation v)) (\<lambda>_.
     rbind (if st_consumed_request v \<noteq> [] then
              rbind (validate_operation_identity (st_consumed_request v) ''settlement consumed request id'') (\<lambda>_.
                ensure (\<not> (st_evidence v = None \<or> \<not> st_compaction_usage v)) (Refused ''consumed request''))
            else Inr ()) (\<lambda>_.
     rbind (if st_status v = OpSuccess then ensure (st_detail v = []) (Refused ''detail of a success'')
            else if st_status v \<in> {OpFailure, OpInterruption} then ensure (st_detail v \<noteq> []) (Refused ''no detail'')
            else Inl (Refused ''settlement status'')) (\<lambda>_.
     rbind (ensure (\<not> (st_model v = None \<and> st_usage v \<noteq> None)) (Refused ''usage without model'')) (\<lambda>_.
     rbind (ensure (\<not> (st_evidence v \<noteq> None \<and> st_request v = [])) (Refused ''evidence without request'')) (\<lambda>_.
     rbind (case st_evidence v of None \<Rightarrow> Inr () | Some ev \<Rightarrow> validate_request_evidence ev) (\<lambda>_.
       validate_settlement_facts v))))))"

definition encode_operation_settlement_entry :: "wire \<Rightarrow> settlement_entry \<Rightarrow> codec_error + json" where
  "encode_operation_settlement_entry w v =
     rbind (map_error InvalidInput (validate_operation_settlement_entry v)) (\<lambda>_.
     rbind (encode_option encode_model_ref (st_model v)) (\<lambda>model_raw.
     rbind (encode_option (encode_request_evidence w) (st_evidence v)) (\<lambda>evidence.
     rbind (if st_facts v \<noteq> [] then rbind (map_error InvalidInput (encode_maintenance_facts w (st_facts v))) (\<lambda>j. Inr (Some j))
            else Inr None) (\<lambda>facts.
       Inr (jobj
         [(''session_id'', jtext (st_session v)),
          (''entry_id'', jtext (st_entry v)),
          (''operation_id'', jtext (st_operation v)),
          (''status'', jtext (op_status_text (st_status v))),
          (''detail'', omit (st_detail v)),
          (''model'', model_raw),
          (''usage'', map_option encode_usage_count (st_usage v)),
          (''compaction_usage'', omit_flag (st_compaction_usage v)),
          (''request_id'', omit (st_request v)),
          (''consumed_request_id'', omit (st_consumed_request v)),
          (''evidence'', evidence),
          (''facts'', facts)])))))"

definition decode_operation_settlement_entry :: "wire \<Rightarrow> stored_entry \<Rightarrow> codec_error + settlement_entry" where
  "decode_operation_settlement_entry w env =
     rbind (decode_entry_envelope env) (\<lambda>_.
     rbind (payload_object (se_payload env)) (\<lambda>ob.
     rbind (reject_unknown_members [''session_id'', ''entry_id'', ''operation_id'', ''status'', ''detail'', ''model'',
       ''usage'', ''compaction_usage'', ''request_id'', ''consumed_request_id'', ''evidence'', ''facts''] ob) (\<lambda>_.
     rbind (string_member ob ''session_id'' True) (\<lambda>sid.
     rbind (string_member ob ''entry_id'' True) (\<lambda>eid.
     rbind (string_member ob ''operation_id'' True) (\<lambda>oid.
     rbind (string_member ob ''status'' True) (\<lambda>status.
     rbind (optional_non_empty_string ob ''detail'') (\<lambda>detail.
     rbind (optional_part decode_model_ref ob ''model'') (\<lambda>ref.
     rbind (optional_part decode_usage_count ob ''usage'') (\<lambda>usage.
     rbind (bool_member ob ''compaction_usage'' False) (\<lambda>compaction.
     rbind (optional_non_empty_string ob ''request_id'') (\<lambda>rid.
     rbind (optional_non_empty_string ob ''consumed_request_id'') (\<lambda>consumed.
     rbind (optional_record (decode_request_evidence w) ob ''evidence'') (\<lambda>evidence.
     rbind (json_member ob ''facts'' False) (\<lambda>facts_raw.
     rbind (case facts_raw of None \<Rightarrow> Inr [] | Some j \<Rightarrow> map_error (InMember ''facts'') (decode_maintenance_facts w j)) (\<lambda>facts.
     rbind (check_agreement env sid eid oid) (\<lambda>_.
     rbind (Inr \<lparr>st_session = sid, st_entry = eid, st_operation = oid, st_status = op_status_named status,
       st_detail = detail, st_model = ref, st_usage = usage, st_compaction_usage = compaction, st_request = rid,
       st_consumed_request = consumed, st_evidence = evidence, st_facts = facts\<rparr>) (\<lambda>v.
     rbind (validate_operation_settlement_entry v) (\<lambda>_. Inr v)))))))))))))))))))"

section \<open>Context checkpoints\<close>

definition validate_context_checkpoint_entry :: "checkpoint_entry \<Rightarrow> codec_error + unit" where
  "validate_context_checkpoint_entry v =
     rbind (validate_hex_id (ck_session v) ''session id'') (\<lambda>_.
     rbind (validate_hex_id (ck_entry v) ''entry id'') (\<lambda>_.
     rbind (if ck_operation v \<noteq> [] then validate_operation_identity (ck_operation v) ''operation id''
            else first_error (\<lambda>f. ensure (mf_usage f = None) (Refused ''copied usage'')) (ck_facts v)) (\<lambda>_.
     rbind (ensure (ck_strategy v \<noteq> []) (Refused ''strategy id'')) (\<lambda>_.
     rbind (ensure (ck_messages v \<noteq> []) (Refused ''no messages'')) (\<lambda>_.
     rbind (indexed_error (\<lambda>i m. map_error (\<lambda>e. InItem ''messages'' i (ModelRule e)) (validate_message m)) (ck_messages v)) (\<lambda>_.
     rbind (map_error PairingRule (validate_tool_pairing (ck_messages v))) (\<lambda>_.
     rbind (validate_hex_id (ck_boundary v) ''boundary entry id'') (\<lambda>_.
     rbind (ensure (ck_revision v \<noteq> []) (Refused ''configuration revision'')) (\<lambda>_.
     rbind (validate_maintenance_facts (ck_facts v)) (\<lambda>_.
     rbind (if ck_consumed_request v \<noteq> []
            then validate_operation_identity (ck_consumed_request v) ''checkpoint consumed request id'' else Inr ()) (\<lambda>_.
       case ck_evidence v of None \<Rightarrow> Inl (Refused ''no evidence'') | Some ev \<Rightarrow> validate_request_evidence ev)))))))))))"

definition encode_context_checkpoint_entry :: "wire \<Rightarrow> checkpoint_entry \<Rightarrow> codec_error + json" where
  "encode_context_checkpoint_entry w v =
     rbind (map_error InvalidInput (validate_context_checkpoint_entry v)) (\<lambda>_.
     rbind (encode_option (encode_request_evidence w) (ck_evidence v)) (\<lambda>evidence.
     rbind (encode_maintenance_facts w (ck_facts v)) (\<lambda>facts.
     rbind (encode_each (encode_message_value w) (ck_messages v)) (\<lambda>ms.
       Inr (jobj
         [(''session_id'', jtext (ck_session v)),
          (''entry_id'', jtext (ck_entry v)),
          (''operation_id'', omit (ck_operation v)),
          (''strategy_id'', jtext (ck_strategy v)),
          (''messages'', Some (JArr ms)),
          (''boundary_entry_id'', jtext (ck_boundary v)),
          (''configuration_revision'', jtext (ck_revision v)),
          (''facts'', Some facts),
          (''consumed_request_id'', omit (ck_consumed_request v)),
          (''evidence'', evidence)])))))"

definition decode_context_checkpoint_entry :: "wire \<Rightarrow> stored_entry \<Rightarrow> codec_error + checkpoint_entry" where
  "decode_context_checkpoint_entry w env =
     rbind (decode_entry_envelope env) (\<lambda>_.
     rbind (payload_object (se_payload env)) (\<lambda>ob.
     rbind (reject_unknown_members [''session_id'', ''entry_id'', ''operation_id'', ''strategy_id'', ''messages'',
       ''boundary_entry_id'', ''configuration_revision'', ''facts'', ''consumed_request_id'', ''evidence''] ob) (\<lambda>_.
     rbind (string_member ob ''session_id'' True) (\<lambda>sid.
     rbind (string_member ob ''entry_id'' True) (\<lambda>eid.
     rbind (optional_non_empty_string ob ''operation_id'') (\<lambda>oid.
     rbind (string_member ob ''strategy_id'' True) (\<lambda>strategy.
     rbind (array_member ob ''messages'' True) (\<lambda>raws.
     rbind (decode_items ''messages'' (decode_message_value w) raws) (\<lambda>ms.
     rbind (string_member ob ''boundary_entry_id'' True) (\<lambda>boundary.
     rbind (string_member ob ''configuration_revision'' True) (\<lambda>revision.
     rbind (json_member ob ''facts'' True) (\<lambda>facts_raw.
     rbind (map_error (InMember ''facts'')
       (decode_maintenance_facts w (case facts_raw of None \<Rightarrow> JNull | Some j \<Rightarrow> j))) (\<lambda>facts.
     rbind (optional_non_empty_string ob ''consumed_request_id'') (\<lambda>consumed.
     rbind (map_error (InMember ''evidence'') (decode_request_evidence w (raw_at ob ''evidence''))) (\<lambda>evidence.
     rbind (check_agreement env sid eid oid) (\<lambda>_.
     rbind (Inr \<lparr>ck_session = sid, ck_entry = eid, ck_operation = oid, ck_strategy = strategy, ck_messages = ms,
       ck_boundary = boundary, ck_revision = revision, ck_facts = facts, ck_consumed_request = consumed,
       ck_evidence = Some evidence\<rparr>) (\<lambda>v.
     rbind (validate_context_checkpoint_entry v) (\<lambda>_. Inr v))))))))))))))))))"

end
