(* ===== verification/Entries_Back.thy ===== *)
theory Entries_Back
  imports Codec_Back Payload_Entries
begin

text \<open>Every entry payload that its encoder accepted is decoded to the same value under an envelope that addresses it.\<close>

section \<open>Envelopes\<close>

definition addressed :: "stored_entry \<Rightarrow> string \<Rightarrow> string \<Rightarrow> string \<Rightarrow> bool" where
  "addressed env sid eid oid \<longleftrightarrow> en_session env = sid \<and> en_id env = eid \<and> en_operation env = oid"

lemma check_agreement_ok: "addressed env sid eid oid \<Longrightarrow> check_agreement env sid eid oid = Inr ()"
  by (simp add: addressed_def check_agreement_def)

lemma envelope_ok:
  "addressed env sid eid oid \<Longrightarrow> validate_identities sid eid oid = Inr () \<Longrightarrow> decode_entry_envelope env = Inr ()"
  by (auto simp: addressed_def decode_entry_envelope_def validate_identities_def validate_hex_id_def
      validate_optional_operation_def validate_operation_identity_def rbind_eq_Inr ensure_eq_Inr split: if_splits)

lemma owned_identities: "validate_owned_identities sid eid oid = Inr () \<Longrightarrow> validate_identities sid eid oid = Inr ()"
  by (auto simp: validate_owned_identities_def validate_identities_def validate_optional_operation_def rbind_eq_Inr)

lemmas envelope_owned = envelope_ok [OF _ owned_identities]

lemma object_valid: "payload_object r = Inr ob \<Longrightarrow> json_valid r"
  by (cases r) (auto simp: payload_object_def)

section \<open>Named values\<close>

lemma origin_named_text: "x \<in> {OriginUser, OriginRuntime, OriginPlugin} \<Longrightarrow> origin_named (origin_text x) = x"
  by (auto simp: origin_named_def)

lemma output_status_named_text: "valid_output_status x \<Longrightarrow> output_status_named (output_status_text x) = x"
  by (auto simp: valid_output_status_def output_status_named_def)

lemma evidence_named_text: "valid_execution_evidence x \<Longrightarrow> evidence_named (evidence_text x) = x"
  by (auto simp: valid_execution_evidence_def evidence_named_def)

lemma result_status_named_text: "valid_tool_result_status x \<Longrightarrow> result_status_named (result_status_text x) = x"
  by (auto simp: valid_tool_result_status_def result_status_named_def)

lemma hook_status_named_text:
  "x \<in> {HookSucceeded, HookFailed, HookInterrupted} \<Longrightarrow> hook_status_named (hook_status_text x) = x"
  by (auto simp: hook_status_named_def)

lemma signal_named_text:
  "x \<in> {SignalInterruption, SignalModelFailure, SignalBackgroundCompletion} \<Longrightarrow> signal_named (signal_text x) = x"
  by (auto simp: signal_named_def)

lemma op_status_named_text:
  "x \<in> {OpRunning, OpSuccess, OpFailure, OpInterruption} \<Longrightarrow> op_status_named (op_status_text x) = x"
  by (auto simp: op_status_named_def)

section \<open>Input\<close>

lemma input_entry_back:
  assumes w: "faithful_wire w" and enc: "encode_input_entry w v = Inr j" and d: "tidy j"
    and env: "se_payload env = Value j" "addressed env (in_session v) (in_entry v) (in_operation v)"
  shows "decode_input_entry w env = Inr v"
proof -
  obtain content where v: "validate_input_entry v = Inr ()"
    and content: "encode_each (encode_content_part w) (in_content v) = Inr content"
    and j: "j = jobj
         [(''session_id'', jtext (in_session v)),
          (''entry_id'', jtext (in_entry v)),
          (''operation_id'', omit (in_operation v)),
          (''origin'', jtext (origin_text (in_origin v))),
          (''content'', Some (JArr content))]" (is "_ = jobj ?fs")
    using enc unfolding encode_input_entry_def rbind_unit_eq unfolding rbind_eq_Inr map_error_Inr sum.inject by blast
  obtain ob where ob: "payload_object (Value (jobj ?fs)) = Inr ob"
    and known: "\<And>known. list_all (\<lambda>f. fst f \<in> set known) ?fs \<Longrightarrow> reject_unknown_members known ob = Inr ()"
    and at: "list_all (\<lambda>(k, v). map_of ob k = v) ?fs"
    by (rule built_object [of ?fs]) auto
  have ids: "validate_identities (in_session v) (in_entry v) (in_operation v) = Inr ()"
    and origin: "origin_named (origin_text (in_origin v)) = in_origin v"
    using v by (simp_all add: validate_input_entry_def rbind_unit_eq ensure_eq_Inr origin_named_text)
  have "decode_items ''content'' (decode_content_part w) content = Inr (in_content v)"
    using tidy_jobj [OF d [unfolded j]] by (intro items_back [OF content] content_part_back [OF w]) simp
  then show ?thesis
    unfolding decode_input_entry_def env j ob
    using at v origin envelope_ok [OF env(2) ids] check_agreement_ok [OF env(2)]
    by (cases v) (simp add: known member_back)
qed

section \<open>Assistant\<close>

lemma tool_call_record_back:
  assumes w: "faithful_wire w" and ordinal: "in_int64 (tc_ordinal c)"
  shows "inverts (encode_tool_call_record w) (decode_tool_call_record w) c"
  unfolding inverts_def
proof (intro allI impI)
  fix j
  assume enc: "encode_tool_call_record w c = Inr j" and d: "tidy j"
  obtain ex where v: "validate_tool_call_record c = Inr ()" and ex: "omit_extra w (tc_extra c) = Inr ex"
    and j: "j = jobj
         [(''id'', jtext (tc_id c)),
          (''ordinal'', jint (tc_ordinal c)),
          (''name'', jtext (tc_name c)),
          (''arguments_base64'', jtext (tc_arguments_base64 c)),
          (''result_entry_id'', jtext (tc_result_entry c)),
          (''extra'', ex),
          (''normalized_arguments_base64'', omit_frame w (tc_normalized c)),
          (''normalization_failure'', omit (tc_normalization_failure c))]" (is "_ = jobj ?fs")
    using enc unfolding encode_tool_call_record_def rbind_unit_eq unfolding rbind_eq_Inr map_error_Inr sum.inject by blast
  obtain ob where ob: "payload_object (Value (jobj ?fs)) = Inr ob"
    and known: "\<And>known. list_all (\<lambda>f. fst f \<in> set known) ?fs \<Longrightarrow> reject_unknown_members known ob = Inr ()"
    and at: "list_all (\<lambda>(k, v). map_of ob k = v) ?fs"
    by (rule built_object [of ?fs]) auto
  have "extra_member w ob ''extra'' False = Inr (tc_extra c)"
    using at tidy_jobj [OF d [unfolded j]] by (intro extra_back [OF w ex]) auto
  moreover have "tc_normalized c = NoBytes \<or> json_valid (tc_normalized c)"
    using v by (auto simp: validate_tool_call_record_def rbind_eq_Inr object_valid split: if_splits)
  then have "framed_member w ob ''normalized_arguments_base64'' False = Inr (tc_normalized c)"
    using at w by (intro frame_absent) auto
  moreover have "int64_member ob ''ordinal'' True = Inr (tc_ordinal c)"
    using at ordinal by (intro int64_back) auto
  ultimately show "decode_tool_call_record w j = Inr c"
    unfolding decode_tool_call_record_def j ob
    using at by (cases c) (simp add: known string_back)
qed

lemma check_call_records_ordinal:
  "check_call_records i calls results cs = Inr () \<Longrightarrow> c \<in> set cs \<Longrightarrow> int i \<le> tc_ordinal c \<and> tc_ordinal c < int (i + length cs)"
proof (induction cs arbitrary: i calls results)
  case (Cons c' cs)
  then have here: "tc_ordinal c' = int i"
    and rest: "check_call_records (Suc i) (tc_id c' # calls) (tc_result_entry c' # results) cs = Inr ()"
    by (auto simp: rbind_unit_eq ensure_eq_Inr)
  from Cons.prems(2) here Cons.IH [OF rest] show ?case by auto
qed simp

lemma encode_each_length: "encode_each enc vs = Inr js \<Longrightarrow> length js = length vs"
  by (induction vs arbitrary: js) (auto simp: rbind_eq_Inr)

lemma assistant_entry_back:
  assumes w: "faithful_wire w" and enc: "encode_assistant_entry w v = Inr j" and d: "tidy j"
    and env: "se_payload env = Value j" "addressed env (as_session v) (as_entry v) (as_operation v)"
  shows "decode_assistant_entry w env = Inr v"
proof -
  obtain source content calls ex evj where v: "validate_assistant_entry v = Inr ()"
    and source: "encode_model_ref (as_source v) = Inr source"
    and content: "encode_each (encode_content_part w) (as_content v) = Inr content"
    and calls: "encode_each (encode_tool_call_record w) (as_tool_calls v) = Inr calls"
    and ex: "omit_extra w (as_extra v) = Inr ex"
    and evj: "encode_option (encode_request_evidence w) (as_evidence v) = Inr evj"
    and j: "j = jobj
         [(''session_id'', jtext (as_session v)),
          (''entry_id'', jtext (as_entry v)),
          (''operation_id'', omit (as_operation v)),
          (''status'', jtext (output_status_text (as_status v))),
          (''source'', Some source),
          (''content'', Some (JArr content)),
          (''refusal'', omit (as_refusal v)),
          (''extra'', ex),
          (''tool_calls'', Some (JArr calls)),
          (''usage'', map_option encode_usage_count (as_usage v)),
          (''request_id'', jtext (as_request v)),
          (''evidence'', evj)]" (is "_ = jobj ?fs")
    using enc unfolding encode_assistant_entry_def rbind_unit_eq unfolding rbind_eq_Inr map_error_Inr sum.inject by blast
  obtain ob where ob: "payload_object (Value (jobj ?fs)) = Inr ob"
    and known: "\<And>known. list_all (\<lambda>f. fst f \<in> set known) ?fs \<Longrightarrow> reject_unknown_members known ob = Inr ()"
    and at: "list_all (\<lambda>(k, v). map_of ob k = v) ?fs"
    by (rule built_object [of ?fs]) auto
  note t = tidy_jobj [OF d [unfolded j]]
  obtain ev where ev: "as_evidence v = Some ev"
    using v by (auto simp: validate_assistant_entry_def rbind_unit_eq split: option.splits)
  with evj obtain e where e: "encode_request_evidence w ev = Inr e" "evj = Some e" by (auto simp: rbind_eq_Inr)
  have ids: "validate_identities (as_session v) (as_entry v) (as_operation v) = Inr ()"
    and status: "output_status_named (output_status_text (as_status v)) = as_status v"
    and usage: "\<not> (as_operation v = [] \<and> as_usage v \<noteq> None)"
    and recs: "check_call_records 0 [] [] (as_tool_calls v) = Inr ()"
    using v by (simp_all add: validate_assistant_entry_def rbind_unit_eq ensure_eq_Inr output_status_named_text)
  have "extra_member w ob ''extra'' False = Inr (as_extra v)"
    using at t by (intro extra_back [OF w ex]) auto
  moreover have "part_member decode_model_ref ob ''source'' = Inr (as_source v)"
    using at t by (intro part_back [OF _ model_ref_back source]) auto
  moreover have "decode_items ''content'' (decode_content_part w) content = Inr (as_content v)"
    using t by (intro items_back [OF content] content_part_back [OF w]) simp
  moreover have "in_int64 (tc_ordinal c)" if "c \<in> set (as_tool_calls v)" for c
    using check_call_records_ordinal [OF recs that] encode_each_length [OF calls] t by (simp add: in_int64_def)
  then have "decode_items ''tool_calls'' (decode_tool_call_record w) calls = Inr (as_tool_calls v)"
    using t by (intro items_back [OF calls] tool_call_record_back [OF w]) auto
  moreover have "optional_part decode_usage_count ob ''usage'' = Inr (as_usage v)"
    using at by (intro optional_usage_back) simp
  moreover have "raw_at ob ''evidence'' = Value e" using at e by (simp add: raw_at_def)
  moreover have "decode_request_evidence w (Value e) = Inr ev"
    using evidence_back [OF w] e t by (simp add: inverts_def)
  moreover have "\<not> (en_operation env = [] \<and> as_usage v \<noteq> None)" using usage env(2) by (simp add: addressed_def)
  ultimately show ?thesis
    unfolding decode_assistant_entry_def env j ob
    using at v status ev envelope_ok [OF env(2) ids] check_agreement_ok [OF env(2)]
    by (cases v) (simp add: known string_back array_back)
qed

section \<open>Tool results\<close>

lemma tool_result_entry_back:
  assumes w: "faithful_wire w" and enc: "encode_tool_result_entry w v = Inr j" and d: "tidy j"
    and env: "se_payload env = Value j" "addressed env (tr_session v) (tr_entry v) (tr_operation v)"
  shows "decode_tool_result_entry w env = Inr v"
proof -
  obtain a hooks where v: "validate_tool_result_entry w v = Inr ()"
    and a: "encode_entry_ref (tr_assistant v) = Inr a" and hooks: "encode_hook_identities (tr_hooks v) = Inr hooks"
    and j: "j = jobj
         [(''session_id'', jtext (tr_session v)),
          (''entry_id'', jtext (tr_entry v)),
          (''operation_id'', omit (tr_operation v)),
          (''assistant_entry'', Some a),
          (''tool_call_id'', jtext (tr_call v)),
          (''status'', jtext (result_status_text (tr_status v))),
          (''content'', jtext (tr_content v)),
          (''original_content'', jtext (tr_original v)),
          (''shaping_failure'', omit (tr_shaping_failure v)),
          (''evidence'', jtext (evidence_text (tr_evidence v))),
          (''metadata_base64'', omit_frame w (tr_metadata v)),
          (''normalized_arguments_base64'', omit_frame w (tr_normalized v)),
          (''hook_ids'', hooks)]" (is "_ = jobj ?fs")
    using enc unfolding encode_tool_result_entry_def rbind_unit_eq unfolding rbind_eq_Inr map_error_Inr sum.inject by blast
  obtain ob where ob: "payload_object (Value (jobj ?fs)) = Inr ob"
    and known: "\<And>known. list_all (\<lambda>f. fst f \<in> set known) ?fs \<Longrightarrow> reject_unknown_members known ob = Inr ()"
    and at: "list_all (\<lambda>(k, v). map_of ob k = v) ?fs"
    by (rule built_object [of ?fs]) auto
  note t = tidy_jobj [OF d [unfolded j]]
  have ids: "validate_identities (tr_session v) (tr_entry v) (tr_operation v) = Inr ()"
    and status: "result_status_named (result_status_text (tr_status v)) = tr_status v"
    and evid: "evidence_named (evidence_text (tr_evidence v)) = tr_evidence v"
    and meta: "tr_metadata v = NoBytes \<or> owned_tool_metadata w (tr_metadata v) \<noteq> NoBytes"
    and n: "(if tr_normalized v \<noteq> NoBytes then rbind (payload_object (tr_normalized v)) (\<lambda>_. Inr ()) else Inr ()) = Inr ()"
    using v unfolding validate_tool_result_entry_def rbind_unit_eq ensure_eq_Inr
    by (auto simp: rbind_eq_Inr check_result_def ensure_eq_Inr new_tool_result_def result_status_named_text
        evidence_named_text simp del: rbind.simps)
  have norm: "tr_normalized v = NoBytes \<or> json_valid (tr_normalized v)"
    using n object_valid by (cases "tr_normalized v = NoBytes") (auto simp: rbind_eq_Inr)
  have "tr_metadata v = NoBytes \<or> json_valid (tr_metadata v)"
    using meta by (auto simp: owned_tool_metadata_def split: if_splits)
  then have "framed_member w ob ''metadata_base64'' False = Inr (tr_metadata v)"
    using at w by (intro frame_absent) auto
  moreover have "framed_member w ob ''normalized_arguments_base64'' False = Inr (tr_normalized v)"
    using at w norm by (intro frame_absent) auto
  moreover have "part_member decode_entry_ref ob ''assistant_entry'' = Inr (tr_assistant v)"
    using at t by (intro part_back [OF _ entry_ref_back a]) auto
  moreover have "decode_hook_identities ob ''hook_ids'' = Inr (tr_hooks v)"
    using at by (intro hook_identities_back [OF hooks]) simp
  ultimately show ?thesis
    unfolding decode_tool_result_entry_def env j ob
    using at v status evid envelope_ok [OF env(2) ids] check_agreement_ok [OF env(2)]
    by (cases v) (simp add: known string_back)
qed

section \<open>Hook results\<close>

lemma hook_result_entry_back:
  assumes w: "faithful_wire w" and enc: "encode_hook_result_entry w v = Inr j" and d: "tidy j"
    and env: "se_payload env = Value j" "addressed env (hr_session v) (hr_entry v) (hr_operation v)"
  shows "decode_hook_result_entry w env = Inr v"
proof -
  let ?success = "hr_status v = HookSucceeded" and ?tool = "hr_tool_call v \<noteq> []"
  obtain cj ej where v: "validate_hook_result_entry v = Inr ()"
    and cj: "encode_option (encode_request_consequence w) (if ?success \<and> hr_tool_call v = [] then hr_consequence v else None) = Inr cj"
    and ej: "encode_option (encode_request_evidence w) (if hr_tool_call v = [] then hr_input_evidence v else None) = Inr ej"
    and j: "j = jobj
         [(''session_id'', jtext (hr_session v)),
          (''entry_id'', jtext (hr_entry v)),
          (''operation_id'', jtext (hr_operation v)),
          (''hook_id'', jtext (hr_hook v)),
          (''extension_id'', jtext (hr_extension v)),
          (''status'', jtext (hook_status_text (hr_status v))),
          (''evidence'', jtext (evidence_text (hr_evidence v))),
          (''tool_call_id'', omit (hr_tool_call v)),
          (''request_id'', omit (hr_request v)),
          (''arguments_base64'', if ?success \<and> ?tool then Some (frame w (hr_arguments v)) else None),
          (''consequence'', cj),
          (''error'', omit (hr_error v)),
          (''input_arguments_base64'', if ?tool then jtext (hr_input_base64 v) else None),
          (''input_evidence'', ej)]" (is "_ = jobj ?fs")
    using enc unfolding encode_hook_result_entry_def rbind_unit_eq unfolding rbind_eq_Inr map_error_Inr sum.inject by blast
  obtain ob where ob: "payload_object (Value (jobj ?fs)) = Inr ob"
    and known: "\<And>known. list_all (\<lambda>f. fst f \<in> set known) ?fs \<Longrightarrow> reject_unknown_members known ob = Inr ()"
    and at: "list_all (\<lambda>(k, v). map_of ob k = v) ?fs"
    by (rule built_object [of ?fs]) auto
  note t = tidy_jobj [OF d [unfolded j]]
  have ids: "validate_owned_identities (hr_session v) (hr_entry v) (hr_operation v) = Inr ()"
    and one: "(hr_tool_call v = []) \<noteq> (hr_request v = [])"
    and bind: "validate_hook_binding v = Inr ()" and outcome: "validate_hook_outcome v = Inr ()"
    using v by (simp_all add: validate_hook_result_entry_def rbind_unit_eq ensure_eq_Inr)
  have status: "hook_status_named (hook_status_text (hr_status v)) = hr_status v"
    using outcome by (intro hook_status_named_text) (auto simp: validate_hook_outcome_def split: if_splits)
  have "valid_execution_evidence (hr_evidence v)"
    using outcome by (auto simp: validate_hook_outcome_def rbind_unit_eq ensure_eq_Inr valid_execution_evidence_def split: if_splits)
  then have evid: "evidence_named (evidence_text (hr_evidence v)) = hr_evidence v" by (rule evidence_named_text)
  have "?success \<and> ?tool \<and> json_valid (hr_arguments v) \<or> \<not> (?success \<and> ?tool) \<and> hr_arguments v = NoBytes"
    using outcome bind
    by (cases ?success; cases ?tool)
       (auto simp: validate_hook_outcome_def validate_hook_binding_def rbind_unit_eq ensure_eq_Inr rbind_eq_Inr object_valid
         split: if_splits)
  then have args: "framed_member w ob ''arguments_base64'' False = Inr (hr_arguments v)"
    using at w by (auto simp: frame_back frame_none)
  have "(if ?success \<and> hr_tool_call v = [] then hr_consequence v else None) = hr_consequence v"
    using outcome bind
    by (cases ?success; cases ?tool)
       (auto simp: validate_hook_outcome_def validate_hook_binding_def rbind_unit_eq ensure_eq_Inr split: if_splits)
  with cj have con: "optional_record (decode_request_consequence w) ob ''consequence'' = Inr (hr_consequence v)"
    using at t by (intro optional_record_back [of _ _ cj "encode_request_consequence w"] consequence_back [OF w]) auto
  have "(if hr_tool_call v = [] then hr_input_evidence v else None) = hr_input_evidence v"
    using bind by (auto simp: validate_hook_binding_def rbind_unit_eq ensure_eq_Inr split: if_splits)
  with ej have evd: "optional_record (decode_request_evidence w) ob ''input_evidence'' = Inr (hr_input_evidence v)"
    using at t by (intro optional_record_back [of _ _ ej "encode_request_evidence w"] evidence_back [OF w]) auto
  have consumed: "optional_stored_base64 ob ''input_arguments_base64'' = Inr (hr_input_base64 v)"
    using at bind
    by (cases ?tool)
       (auto simp: optional_stored_base64_def present_def string_back validate_hook_binding_def rbind_unit_eq ensure_eq_Inr
         split: if_splits)
  have guard: "present ob ''input_arguments_base64'' \<longleftrightarrow> ?tool" using at by (simp add: present_def)
  show ?thesis
    unfolding decode_hook_result_entry_def env j ob
    using at v status evid args con evd consumed guard envelope_owned [OF env(2) ids] check_agreement_ok [OF env(2)]
    by (cases v) (simp add: known string_back)
qed

section \<open>Signals\<close>

lemma related_member_reads: "reads_object decode_related_member (related_member_json m) m"
proof -
  let ?fs = "[(''kind'', jtext (rm_kind m)), (''id'', jtext (rm_id m))]"
  obtain ob where ob: "jobj ?fs = JObj ob" "distinct (map fst ob)"
    and known: "\<And>known. list_all (\<lambda>f. fst f \<in> set known) ?fs \<Longrightarrow> reject_unknown_members known ob = Inr ()"
    and at: "list_all (\<lambda>(k, v). map_of ob k = v) ?fs"
    by (rule built_object [of ?fs]) auto
  have "decode_related_member ob = Inr m"
    unfolding decode_related_member_def using at by (cases m) (simp add: known member_back)
  with ob show ?thesis by (simp add: reads_object_def related_member_json_def)
qed

lemma signal_entry_back:
  assumes enc: "encode_signal_entry v = Inr j"
    and env: "se_payload env = Value j" "addressed env (sg_session v) (sg_entry v) (sg_operation v)"
  shows "decode_signal_entry env = Inr v"
proof -
  have v: "validate_signal_entry v = Inr ()"
    and j: "j = jobj
         [(''session_id'', jtext (sg_session v)),
          (''entry_id'', jtext (sg_entry v)),
          (''operation_id'', omit (sg_operation v)),
          (''signal'', jtext (signal_text (sg_signal v))),
          (''related_operation'', map_option operation_ref_json (sg_related_operation v)),
          (''related_member'', map_option related_member_json (sg_related_member v)),
          (''content'', jtext (sg_content v))]" (is "_ = jobj ?fs")
    using enc unfolding encode_signal_entry_def rbind_unit_eq unfolding map_error_Inr sum.inject by simp_all
  obtain ob where ob: "payload_object (Value (jobj ?fs)) = Inr ob"
    and known: "\<And>known. list_all (\<lambda>f. fst f \<in> set known) ?fs \<Longrightarrow> reject_unknown_members known ob = Inr ()"
    and at: "list_all (\<lambda>(k, v). map_of ob k = v) ?fs"
    by (rule built_object [of ?fs]) auto
  have ids: "validate_identities (sg_session v) (sg_entry v) (sg_operation v) = Inr ()"
    using v by (simp add: validate_signal_entry_def rbind_unit_eq)
  have status: "signal_named (signal_text (sg_signal v)) = sg_signal v"
    using v by (intro signal_named_text) (auto simp: validate_signal_entry_def rbind_unit_eq split: if_splits)
  have "validate_operation_ref r = Inr ()" if "sg_related_operation v = Some r" for r
    using v that by (auto simp: validate_signal_entry_def validate_operation_ref_def validate_hex_id_def
        validate_operation_identity_def rbind_unit_eq ensure_eq_Inr split: if_splits)
  then have "optional_part decode_operation_ref ob ''related_operation'' = Inr (sg_related_operation v)"
    using at by (intro optional_reads [of _ _ operation_ref_json] operation_ref_reads) auto
  moreover have "optional_part decode_related_member ob ''related_member'' = Inr (sg_related_member v)"
    using at by (intro optional_reads [of _ _ related_member_json] related_member_reads) auto
  ultimately show ?thesis
    unfolding decode_signal_entry_def env j ob
    using at v status envelope_ok [OF env(2) ids] check_agreement_ok [OF env(2)]
    by (cases v) (simp add: known string_back)
qed

section \<open>Settlements\<close>

lemma settlement_entry_back:
  assumes w: "faithful_wire w" and enc: "encode_operation_settlement_entry w v = Inr j" and d: "tidy j"
    and env: "se_payload env = Value j" "addressed env (st_session v) (st_entry v) (st_operation v)"
  shows "decode_operation_settlement_entry w env = Inr v"
proof -
  let ?facts = "if st_facts v \<noteq> []
    then rbind (map_error InvalidInput (encode_maintenance_facts w (st_facts v))) (\<lambda>j. Inr (Some j)) else Inr None"
  obtain mj ej fj where v: "validate_operation_settlement_entry v = Inr ()"
    and mj: "encode_option encode_model_ref (st_model v) = Inr mj"
    and ej: "encode_option (encode_request_evidence w) (st_evidence v) = Inr ej" and fj: "?facts = Inr fj"
    and j: "j = jobj
         [(''session_id'', jtext (st_session v)),
          (''entry_id'', jtext (st_entry v)),
          (''operation_id'', jtext (st_operation v)),
          (''status'', jtext (op_status_text (st_status v))),
          (''detail'', omit (st_detail v)),
          (''model'', mj),
          (''usage'', map_option encode_usage_count (st_usage v)),
          (''compaction_usage'', omit_flag (st_compaction_usage v)),
          (''request_id'', omit (st_request v)),
          (''consumed_request_id'', omit (st_consumed_request v)),
          (''evidence'', ej),
          (''facts'', fj)]" (is "_ = jobj ?fs")
    using enc unfolding encode_operation_settlement_entry_def rbind_unit_eq
    unfolding rbind_eq_Inr map_error_Inr sum.inject by blast
  obtain ob where ob: "payload_object (Value (jobj ?fs)) = Inr ob"
    and known: "\<And>known. list_all (\<lambda>f. fst f \<in> set known) ?fs \<Longrightarrow> reject_unknown_members known ob = Inr ()"
    and at: "list_all (\<lambda>(k, v). map_of ob k = v) ?fs"
    by (rule built_object [of ?fs]) auto
  note t = tidy_jobj [OF d [unfolded j]]
  have ids: "validate_owned_identities (st_session v) (st_entry v) (st_operation v) = Inr ()"
    using v by (simp add: validate_operation_settlement_entry_def rbind_unit_eq)
  have status: "op_status_named (op_status_text (st_status v)) = st_status v"
    using v by (intro op_status_named_text)
      (auto simp: validate_operation_settlement_entry_def rbind_unit_eq split: if_splits)
  have "\<exists>raw. json_member ob ''facts'' False = Inr raw \<and>
      (case raw of None \<Rightarrow> Inr [] | Some j \<Rightarrow> map_error (InMember ''facts'') (decode_maintenance_facts w j)) = Inr (st_facts v)"
  proof (cases "st_facts v = []")
    case True
    with fj at show ?thesis by (simp add: json_member_def)
  next
    case False
    with fj obtain f where f: "fj = Some f" "encode_maintenance_facts w (st_facts v) = Inr f" by (auto simp: rbind_eq_Inr)
    with maintenance_facts_back [OF w] t have "decode_maintenance_facts w f = Inr (st_facts v)" by (simp add: inverts_def)
    moreover have "json_member ob ''facts'' False = Inr (Some f)"
      using at f facts_json_array [OF f(2)] by (auto simp: json_string_Some)
    ultimately show ?thesis by (intro exI [of _ "Some f"]) simp
  qed
  then obtain raw where raw: "json_member ob ''facts'' False = Inr raw"
    "(case raw of None \<Rightarrow> Inr [] | Some j \<Rightarrow> map_error (InMember ''facts'') (decode_maintenance_facts w j)) = Inr (st_facts v)"
    by blast
  have "optional_part decode_model_ref ob ''model'' = Inr (st_model v)"
    using at t by (intro optional_part_back [OF _ mj] model_ref_back) auto
  moreover have "optional_record (decode_request_evidence w) ob ''evidence'' = Inr (st_evidence v)"
    using at t by (intro optional_record_back [OF _ ej] evidence_back [OF w]) auto
  moreover have "optional_part decode_usage_count ob ''usage'' = Inr (st_usage v)"
    using at by (intro optional_usage_back) simp
  ultimately show ?thesis
    unfolding decode_operation_settlement_entry_def env j ob
    using at v status raw envelope_owned [OF env(2) ids] check_agreement_ok [OF env(2)]
    by (cases v) (simp add: known string_back bool_back)
qed

section \<open>Context checkpoints\<close>

lemma checkpoint_entry_back:
  assumes w: "faithful_wire w" and enc: "encode_context_checkpoint_entry w v = Inr j" and d: "tidy j"
    and env: "se_payload env = Value j" "addressed env (ck_session v) (ck_entry v) (ck_operation v)"
  shows "decode_context_checkpoint_entry w env = Inr v"
proof -
  obtain evj facts ms where v: "validate_context_checkpoint_entry v = Inr ()"
    and evj: "encode_option (encode_request_evidence w) (ck_evidence v) = Inr evj"
    and facts: "encode_maintenance_facts w (ck_facts v) = Inr facts"
    and ms: "encode_each (encode_message_value w) (ck_messages v) = Inr ms"
    and j: "j = jobj
         [(''session_id'', jtext (ck_session v)),
          (''entry_id'', jtext (ck_entry v)),
          (''operation_id'', omit (ck_operation v)),
          (''strategy_id'', jtext (ck_strategy v)),
          (''messages'', Some (JArr ms)),
          (''boundary_entry_id'', jtext (ck_boundary v)),
          (''configuration_revision'', jtext (ck_revision v)),
          (''facts'', Some facts),
          (''consumed_request_id'', omit (ck_consumed_request v)),
          (''evidence'', evj)]" (is "_ = jobj ?fs")
    using enc unfolding encode_context_checkpoint_entry_def rbind_unit_eq unfolding rbind_eq_Inr map_error_Inr sum.inject by blast
  obtain ob where ob: "payload_object (Value (jobj ?fs)) = Inr ob"
    and known: "\<And>known. list_all (\<lambda>f. fst f \<in> set known) ?fs \<Longrightarrow> reject_unknown_members known ob = Inr ()"
    and at: "list_all (\<lambda>(k, v). map_of ob k = v) ?fs"
    by (rule built_object [of ?fs]) auto
  note t = tidy_jobj [OF d [unfolded j]]
  obtain ev where ev: "ck_evidence v = Some ev"
    using v by (auto simp: validate_context_checkpoint_entry_def rbind_unit_eq split: option.splits)
  with evj obtain e where e: "encode_request_evidence w ev = Inr e" "evj = Some e" by (auto simp: rbind_eq_Inr)
  have ids: "validate_identities (ck_session v) (ck_entry v) (ck_operation v) = Inr ()"
    using v by (simp add: validate_context_checkpoint_entry_def validate_identities_def validate_optional_operation_def
        rbind_unit_eq split: if_splits)
  have "json_member ob ''facts'' True = Inr (Some facts)"
    using at facts_json_array [OF facts] by (auto simp: json_string_Some)
  moreover have "decode_maintenance_facts w facts = Inr (ck_facts v)"
    using maintenance_facts_back [OF w] facts t by (simp add: inverts_def)
  moreover have "decode_items ''messages'' (decode_message_value w) ms = Inr (ck_messages v)"
    using t by (intro items_back [OF ms] message_back [OF w]) simp
  moreover have "raw_at ob ''evidence'' = Value e" using at e by (simp add: raw_at_def)
  moreover have "decode_request_evidence w (Value e) = Inr ev"
    using evidence_back [OF w] e t by (simp add: inverts_def)
  ultimately show ?thesis
    unfolding decode_context_checkpoint_entry_def env j ob
    using at v ev envelope_ok [OF env(2) ids] check_agreement_ok [OF env(2)]
    by (cases v) (simp add: known string_back array_back)
qed

end
