(* ===== verification/Payload_Registers.thy ===== *)
theory Payload_Registers
  imports Codec_Values Go_Path
begin

text \<open>
  The durable payload of the two kinds of registers (\<open>src/harness/payload.go\<close>): the Session register with its identity
  and state, and the Operation register with its admission, the captured configuration and prices, and the state with
  its active effect, suspended request and pending calls.
\<close>

section \<open>The Session register\<close>

text \<open>\<open>filepath.Abs\<close> returns its argument exactly for an absolute path that is clean.\<close>

definition validate_workspace :: "string \<Rightarrow> codec_error + unit" where
  "validate_workspace ws = ensure (is_abs ws \<and> clean ws = ws) (Refused ''workspace'')"

definition validate_session_identity :: "session_identity \<Rightarrow> codec_error + unit" where
  "validate_session_identity v =
     rbind (validate_hex_id (si_session v) ''session id'') (\<lambda>_.
     rbind (validate_workspace (si_workspace v)) (\<lambda>_.
     rbind (ensure (si_created v \<noteq> 0) ZeroTime) (\<lambda>_.
     rbind (ensure ((si_source_session v = []) = (si_source_boundary v = [])) (Refused ''source lineage'')) (\<lambda>_.
     rbind (if si_source_session v \<noteq> [] then
              rbind (validate_hex_id (si_source_session v) ''source session id'') (\<lambda>_.
                validate_hex_id (si_source_boundary v) ''source boundary entry id'')
            else Inr ()) (\<lambda>_.
       if si_parent v \<noteq> [] then
         rbind (ensure (\<not> (si_source_session v \<noteq> [] \<or> si_source_boundary v \<noteq> [])) (Refused ''parent and source'')) (\<lambda>_.
           validate_hex_id (si_parent v) ''parent session id'')
       else Inr ())))))"

definition encode_session_identity :: "wire \<Rightarrow> session_identity \<Rightarrow> codec_error + json" where
  "encode_session_identity w v =
     rbind (map_error InvalidInput (validate_session_identity v)) (\<lambda>_.
     rbind (encode_time w (si_created v)) (\<lambda>created.
       Inr (jobj
         [(''session_id'', jtext (si_session v)),
          (''workspace'', jtext (si_workspace v)),
          (''created_at'', jtext created),
          (''source_session_id'', omit (si_source_session v)),
          (''source_boundary_entry_id'', omit (si_source_boundary v)),
          (''parent_session_id'', omit (si_parent v))])))"

definition decode_session_identity :: "wire \<Rightarrow> obj \<Rightarrow> codec_error + session_identity" where
  "decode_session_identity w ob =
     rbind (reject_unknown_members [''session_id'', ''workspace'', ''created_at'', ''source_session_id'',
       ''source_boundary_entry_id'', ''parent_session_id''] ob) (\<lambda>_.
     rbind (string_member ob ''session_id'' True) (\<lambda>sid.
     rbind (string_member ob ''workspace'' True) (\<lambda>ws.
     rbind (string_member ob ''created_at'' True) (\<lambda>created.
     rbind (optional_non_empty_string ob ''source_session_id'') (\<lambda>source.
     rbind (optional_non_empty_string ob ''source_boundary_entry_id'') (\<lambda>boundary.
     rbind (optional_non_empty_string ob ''parent_session_id'') (\<lambda>parent.
     rbind (map_error (InMember ''created_at'') (decode_time w created)) (\<lambda>stamped.
     rbind (Inr \<lparr>si_session = sid, si_workspace = ws, si_created = stamped, si_source_session = source,
       si_source_boundary = boundary, si_parent = parent\<rparr>) (\<lambda>v.
     rbind (validate_session_identity v) (\<lambda>_. Inr v))))))))))"

fun lifecycle_text :: "lifecycle \<Rightarrow> string" where
  "lifecycle_text LifecycleOpen = ''open''"
| "lifecycle_text LifecycleArchived = ''archived''"
| "lifecycle_text (OtherLifecycle s) = s"

definition lifecycle_named :: "string \<Rightarrow> lifecycle" where
  "lifecycle_named s =
     (if s = ''open'' then LifecycleOpen else if s = ''archived'' then LifecycleArchived else OtherLifecycle s)"

definition check_session_state :: "session_state \<Rightarrow> codec_error + unit" where
  "check_session_state v =
     rbind (ensure (ss_lifecycle v \<in> {LifecycleOpen, LifecycleArchived}) (Refused ''session lifecycle'')) (\<lambda>_.
     rbind (ensure (\<not> (ss_lifecycle v = LifecycleArchived \<and> ss_archived_at v = None)) (Refused ''no archived_at'')) (\<lambda>_.
     rbind (ensure (\<not> (ss_lifecycle v = LifecycleOpen \<and> ss_archived_at v \<noteq> None)) (Refused ''archived_at'')) (\<lambda>_.
     rbind (ensure (ss_agent_type v \<noteq> []) (Refused ''agent type'')) (\<lambda>_.
     rbind (if ss_current_operation v \<noteq> []
            then validate_operation_identity (ss_current_operation v) ''current operation id'' else Inr ()) (\<lambda>_.
     rbind (if ss_checkpoint v \<noteq> [] then validate_hex_id (ss_checkpoint v) ''checkpoint entry id'' else Inr ()) (\<lambda>_.
     rbind (ensure (ss_last_activity v \<noteq> 0) ZeroTime) (\<lambda>_.
       map_error TotalsRule (validate_usage_totals (ss_usage v)))))))))"

definition encode_session_state :: "wire \<Rightarrow> session_state \<Rightarrow> codec_error + json" where
  "encode_session_state w v =
     rbind (map_error InvalidInput (check_session_state v)) (\<lambda>_.
     rbind (encode_time w (ss_last_activity v)) (\<lambda>last_stamp.
     rbind (encode_optional_time w (ss_archived_at v)) (\<lambda>archived.
     rbind (encode_usage_totals (ss_usage v)) (\<lambda>usage.
       Inr (jobj
         [(''lifecycle'', jtext (lifecycle_text (ss_lifecycle v))),
          (''archived_at'', archived),
          (''current_agent_type'', jtext (ss_agent_type v)),
          (''current_operation_id'', omit (ss_current_operation v)),
          (''checkpoint_entry_id'', omit (ss_checkpoint v)),
          (''usage'', Some usage),
          (''last_activity'', jtext last_stamp)])))))"

definition decode_session_state :: "wire \<Rightarrow> obj \<Rightarrow> codec_error + session_state" where
  "decode_session_state w ob =
     rbind (reject_unknown_members [''lifecycle'', ''archived_at'', ''current_agent_type'', ''current_operation_id'',
       ''checkpoint_entry_id'', ''usage'', ''last_activity''] ob) (\<lambda>_.
     rbind (string_member ob ''lifecycle'' True) (\<lambda>cycle.
     rbind (string_member ob ''current_agent_type'' True) (\<lambda>agent.
     rbind (optional_non_empty_string ob ''current_operation_id'') (\<lambda>oid.
     rbind (optional_non_empty_string ob ''checkpoint_entry_id'') (\<lambda>checkpoint.
     rbind (part_member decode_usage_totals ob ''usage'') (\<lambda>usage.
     rbind (time_member w ob ''last_activity'') (\<lambda>last_stamp.
     rbind (optional_time w ob ''archived_at'') (\<lambda>archived.
     rbind (Inr \<lparr>ss_lifecycle = lifecycle_named cycle, ss_archived_at = archived, ss_agent_type = agent,
       ss_current_operation = oid, ss_checkpoint = checkpoint, ss_usage = usage, ss_last_activity = last_stamp\<rparr>) (\<lambda>v.
     rbind (check_session_state v) (\<lambda>_. Inr v))))))))))"

definition encode_session_register :: "wire \<Rightarrow> session_record \<Rightarrow> codec_error + json" where
  "encode_session_register w rec =
     rbind (encode_session_identity w (sr_identity rec)) (\<lambda>identity.
     rbind (encode_session_state w (sr_state rec)) (\<lambda>state.
       Inr (jobj [(''identity'', Some identity), (''state'', Some state)])))"

text \<open>A required object read first and decoded later: the two steps of the registers.\<close>

definition required_object :: "obj \<Rightarrow> string \<Rightarrow> codec_error + obj" where
  "required_object ob k = rbind (object_member ob k True) (\<lambda>m. Inr (case m of None \<Rightarrow> [] | Some i \<Rightarrow> i))"

definition decode_session_register :: "wire \<Rightarrow> register \<Rightarrow> codec_error + session_record" where
  "decode_session_register w r =
     rbind (ensure (rk_kind (rg_key r) = RegisterSession) (Refused ''register kind'')) (\<lambda>_.
     rbind (validate_hex_id (rk_session (rg_key r)) ''register key session id'') (\<lambda>_.
     rbind (ensure (rk_operation (rg_key r) = []) (Refused ''operation of a session key'')) (\<lambda>_.
     rbind (payload_object (rg_payload r)) (\<lambda>ob.
     rbind (reject_unknown_members [''identity'', ''state''] ob) (\<lambda>_.
     rbind (required_object ob ''identity'') (\<lambda>identity_ob.
     rbind (required_object ob ''state'') (\<lambda>state_ob.
     rbind (map_error (InMember ''identity'') (decode_session_identity w identity_ob)) (\<lambda>identity.
     rbind (ensure (si_session identity = rk_session (rg_key r)) (Disagrees ''session id'')) (\<lambda>_.
     rbind (map_error (InMember ''state'') (decode_session_state w state_ob)) (\<lambda>state.
       Inr \<lparr>sr_revision = rg_revision r, sr_identity = identity, sr_state = state\<rparr>))))))))))"

section \<open>Prices\<close>

definition finite_option :: "64 word option \<Rightarrow> bool" where
  "finite_option o' = (case o' of None \<Rightarrow> True | Some b \<Rightarrow> finite_rate b)"

definition validate_model_pricing :: "model_pricing \<Rightarrow> codec_error + unit" where
  "validate_model_pricing v =
     rbind (ensure (finite_option (pr_input v)) (Refused ''input'')) (\<lambda>_.
     rbind (ensure (finite_option (pr_output v)) (Refused ''output'')) (\<lambda>_.
       ensure (finite_option (pr_cache_read v)) (Refused ''cache_read'')))"

definition validate_optional_model_pricing :: "model_pricing option \<Rightarrow> codec_error + unit" where
  "validate_optional_model_pricing o' = (case o' of None \<Rightarrow> Inr () | Some v \<Rightarrow> validate_model_pricing v)"

definition rate_json :: "wire \<Rightarrow> 64 word option \<Rightarrow> json option" where
  "rate_json w o' = map_option (\<lambda>b. JNum (wr_rate w b)) o'"

definition encode_model_pricing :: "wire \<Rightarrow> model_pricing \<Rightarrow> codec_error + json" where
  "encode_model_pricing w v =
     rbind (map_error InvalidInput (validate_model_pricing v)) (\<lambda>_.
       Inr (jobj [(''input'', rate_json w (pr_input v)), (''output'', rate_json w (pr_output v)),
         (''cache_read'', rate_json w (pr_cache_read v))]))"

definition rate_member :: "wire \<Rightarrow> obj \<Rightarrow> string \<Rightarrow> codec_error + 64 word option" where
  "rate_member w ob k =
     rbind (json_member ob k False) (\<lambda>m.
       case m of
         Some (JNum t) \<Rightarrow> (case wr_read_rate w t of None \<Rightarrow> Inl (MemberType k) | Some b \<Rightarrow> Inr (Some b))
       | Some _ \<Rightarrow> Inl (MemberType k)
       | None \<Rightarrow> Inr None)"

definition decode_model_pricing :: "wire \<Rightarrow> obj \<Rightarrow> codec_error + model_pricing" where
  "decode_model_pricing w ob =
     rbind (reject_unknown_members [''input'', ''output'', ''cache_read''] ob) (\<lambda>_.
     rbind (rate_member w ob ''input'') (\<lambda>i.
     rbind (rate_member w ob ''output'') (\<lambda>out.
     rbind (rate_member w ob ''cache_read'') (\<lambda>c.
     rbind (Inr \<lparr>pr_input = i, pr_output = out, pr_cache_read = c\<rparr>) (\<lambda>v.
     rbind (validate_model_pricing v) (\<lambda>_. Inr v))))))"

section \<open>The captured configuration\<close>

definition validate_strategy_capture :: "strategy_capture \<Rightarrow> codec_error + unit" where
  "validate_strategy_capture v =
     rbind (ensure (sc_id v \<noteq> []) (Refused ''id'')) (\<lambda>_.
       ensure (sc_settings v = NoBytes \<or> json_valid (sc_settings v)) (Refused ''settings''))"

definition encode_strategy_capture :: "wire \<Rightarrow> strategy_capture \<Rightarrow> codec_error + json" where
  "encode_strategy_capture w v =
     rbind (map_error InvalidInput (validate_strategy_capture v)) (\<lambda>_.
       Inr (jobj [(''id'', jtext (sc_id v)), (''settings_base64'', omit_frame w (sc_settings v)),
         (''requires_context_window'', Some (JBool (sc_requires_window v)))]))"

definition decode_strategy_capture :: "wire \<Rightarrow> obj \<Rightarrow> codec_error + strategy_capture" where
  "decode_strategy_capture w ob =
     rbind (reject_unknown_members [''id'', ''settings_base64'', ''requires_context_window''] ob) (\<lambda>_.
     rbind (string_member ob ''id'' True) (\<lambda>i.
     rbind (bool_member ob ''requires_context_window'' True) (\<lambda>requires.
     rbind (if present ob ''settings_base64'' then
              rbind (framed_member w ob ''settings_base64'' True) (\<lambda>settings.
              rbind (ensure (json_valid settings) (Refused ''settings'')) (\<lambda>_. Inr settings))
            else Inr NoBytes) (\<lambda>settings.
       Inr \<lparr>sc_id = i, sc_settings = settings, sc_requires_window = requires\<rparr>))))"

definition validate_compact_capture :: "compact_capture \<Rightarrow> codec_error + unit" where
  "validate_compact_capture v =
     rbind (ensure (\<not> (provider (cc_model v) = [] \<or> model_name (cc_model v) = [])) Incomplete) (\<lambda>_.
     rbind (ensure (cc_prompt v \<noteq> []) (Refused ''system prompt'')) (\<lambda>_.
       validate_optional_model_pricing (cc_pricing v)))"

definition encode_compact_capture :: "wire \<Rightarrow> compact_capture \<Rightarrow> codec_error + json" where
  "encode_compact_capture w v =
     rbind (encode_model_ref (cc_model v)) (\<lambda>r.
     rbind (encode_option (encode_model_pricing w) (cc_pricing v)) (\<lambda>pricing.
       Inr (jobj [(''model'', Some r), (''system_prompt'', jtext (cc_prompt v)), (''pricing'', pricing)])))"

definition decode_compact_capture :: "wire \<Rightarrow> obj \<Rightarrow> codec_error + compact_capture" where
  "decode_compact_capture w ob =
     rbind (reject_unknown_members [''model'', ''system_prompt'', ''pricing''] ob) (\<lambda>_.
     rbind (part_member decode_model_ref ob ''model'') (\<lambda>r.
     rbind (string_member ob ''system_prompt'' True) (\<lambda>prompt.
     rbind (optional_part (decode_model_pricing w) ob ''pricing'') (\<lambda>pricing.
       Inr \<lparr>cc_model = r, cc_prompt = prompt, cc_pricing = pricing\<rparr>))))"

fun check_capabilities :: "nat \<Rightarrow> string list \<Rightarrow> string list \<Rightarrow> codec_error + unit" where
  "check_capabilities i seen [] = Inr ()"
| "check_capabilities i seen (c # cs) =
     rbind (ensure (c \<noteq> []) (InItem ''capabilities'' i (Refused ''empty name''))) (\<lambda>_.
     rbind (ensure (c \<notin> set seen) (InItem ''capabilities'' i (Refused ''duplicate name''))) (\<lambda>_.
       check_capabilities (Suc i) (c # seen) cs))"

definition validate_execution_capture :: "execution_capture \<Rightarrow> codec_error + unit" where
  "validate_execution_capture v =
     rbind (ensure (xc_revision v \<noteq> []) (Refused ''configuration revision'')) (\<lambda>_.
     rbind (ensure (\<not> (provider (xc_model v) = [] \<or> model_name (xc_model v) = [])) Incomplete) (\<lambda>_.
     rbind (ensure (\<not> (sc_requires_window (xc_strategy v) \<and> xc_context_window v \<le> 0)) (Refused ''window required'')) (\<lambda>_.
     rbind (ensure (0 \<le> xc_context_window v) (Refused ''negative window'')) (\<lambda>_.
     rbind (ensure (0 < xc_output_reserve v) (Refused ''output reserve'')) (\<lambda>_.
     rbind (map_error (InMember ''compact'') (validate_compact_capture (xc_compact v))) (\<lambda>_.
     rbind (map_error (InMember ''pricing'') (validate_optional_model_pricing (xc_pricing v))) (\<lambda>_.
     rbind (map_error (InMember ''strategy'') (validate_strategy_capture (xc_strategy v))) (\<lambda>_.
     rbind (map_error ModelRule (validate_request \<lparr>req_messages = [], req_tools = xc_tools v\<rparr>)) (\<lambda>_.
       check_capabilities 0 [] (xc_capabilities v))))))))))"

definition encode_execution_capture :: "wire \<Rightarrow> execution_capture \<Rightarrow> codec_error + json" where
  "encode_execution_capture w v =
     rbind (map_error InvalidInput (validate_execution_capture v)) (\<lambda>_.
     rbind (encode_model_ref (xc_model v)) (\<lambda>r.
     rbind (encode_option (encode_model_pricing w) (xc_pricing v)) (\<lambda>pricing.
     rbind (encode_compact_capture w (xc_compact v)) (\<lambda>compact.
     rbind (encode_strategy_capture w (xc_strategy v)) (\<lambda>strategy.
     rbind (encode_each (encode_tool_definition w) (xc_tools v)) (\<lambda>tools.
       Inr (jobj
         [(''configuration_revision'', jtext (xc_revision v)),
          (''model'', Some r),
          (''context_window'', jint (xc_context_window v)),
          (''output_reserve'', jint (xc_output_reserve v)),
          (''system_prompt'', jtext (xc_prompt v)),
          (''tools'', Some (JArr tools)),
          (''capabilities'', omit_list (map JStr (xc_capabilities v))),
          (''readonly'', Some (JBool (xc_readonly v))),
          (''write_dir'', jtext (xc_write_dir v)),
          (''pricing'', pricing),
          (''compact'', Some compact),
          (''strategy'', Some strategy)])))))))"

definition decode_capability :: "json \<Rightarrow> codec_error + string" where
  "decode_capability j = (case json_string j of None \<Rightarrow> Inl (Refused ''not a string'') | Some s \<Rightarrow> Inr s)"

definition decode_execution_capture :: "wire \<Rightarrow> obj \<Rightarrow> codec_error + execution_capture" where
  "decode_execution_capture w ob =
     rbind (reject_unknown_members [''configuration_revision'', ''model'', ''context_window'', ''output_reserve'',
       ''system_prompt'', ''tools'', ''capabilities'', ''readonly'', ''write_dir'', ''pricing'', ''compact'', ''strategy''] ob) (\<lambda>_.
     rbind (string_member ob ''configuration_revision'' True) (\<lambda>revision.
     rbind (part_member decode_model_ref ob ''model'') (\<lambda>r.
     rbind (int64_member ob ''context_window'' True) (\<lambda>window.
     rbind (int64_member ob ''output_reserve'' True) (\<lambda>reserve.
     rbind (string_member ob ''system_prompt'' True) (\<lambda>prompt.
     rbind (array_member ob ''tools'' True) (\<lambda>tools_raw.
     rbind (bool_member ob ''readonly'' True) (\<lambda>readonly.
     rbind (string_member ob ''write_dir'' True) (\<lambda>write_dir.
     rbind (optional_part (decode_model_pricing w) ob ''pricing'') (\<lambda>pricing.
     rbind (part_member (decode_compact_capture w) ob ''compact'') (\<lambda>compact.
     rbind (part_member (decode_strategy_capture w) ob ''strategy'') (\<lambda>strategy.
     rbind (decode_items ''tools'' (decode_tool_definition w) tools_raw) (\<lambda>tools.
     rbind (array_member ob ''capabilities'' False) (\<lambda>capabilities_raw.
     rbind (decode_items ''capabilities'' decode_capability capabilities_raw) (\<lambda>capabilities.
     rbind (Inr \<lparr>xc_revision = revision, xc_model = r, xc_context_window = window, xc_output_reserve = reserve,
       xc_prompt = prompt, xc_tools = tools, xc_capabilities = capabilities, xc_readonly = readonly,
       xc_write_dir = write_dir, xc_pricing = pricing, xc_compact = compact, xc_strategy = strategy\<rparr>) (\<lambda>v.
     rbind (validate_execution_capture v) (\<lambda>_. Inr v)))))))))))))))))"

section \<open>Admission\<close>

fun request_kind_text :: "request_kind \<Rightarrow> string" where
  "request_kind_text RequestMessage = ''message''"
| "request_kind_text RequestCompact = ''compact''"
| "request_kind_text (OtherRequestKind s) = s"

definition request_kind_named :: "string \<Rightarrow> request_kind" where
  "request_kind_named s =
     (if s = ''message'' then RequestMessage else if s = ''compact'' then RequestCompact else OtherRequestKind s)"

definition zero_entry_ref :: entry_ref where
  "zero_entry_ref = \<lparr>er_session = [], er_entry = []\<rparr>"

definition validate_operation_admission :: "operation_admission \<Rightarrow> codec_error + unit" where
  "validate_operation_admission v =
     rbind (validate_hex_id (oa_session v) ''session id'') (\<lambda>_.
     rbind (validate_operation_identity (oa_operation v) ''operation id'') (\<lambda>_.
     rbind (case oa_kind v of
              RequestMessage \<Rightarrow>
                rbind (validate_hex_id (er_session (oa_admitted v)) ''admitted entry session id'') (\<lambda>_.
                  validate_hex_id (er_entry (oa_admitted v)) ''admitted entry id'')
            | RequestCompact \<Rightarrow> ensure (oa_admitted v = zero_entry_ref) (Refused ''admitted entry'')
            | OtherRequestKind _ \<Rightarrow> Inl (Refused ''request kind'')) (\<lambda>_.
     rbind (ensure (oa_agent_type v \<noteq> []) (Refused ''agent type'')) (\<lambda>_.
     rbind (ensure (oa_admitted_at v \<noteq> 0) ZeroTime) (\<lambda>_.
       validate_execution_capture (oa_execution v))))))"

definition encode_operation_admission :: "wire \<Rightarrow> operation_admission \<Rightarrow> codec_error + json" where
  "encode_operation_admission w v =
     rbind (map_error InvalidInput (validate_operation_admission v)) (\<lambda>_.
     rbind (encode_option encode_entry_ref (if oa_kind v = RequestMessage then Some (oa_admitted v) else None)) (\<lambda>admitted.
     rbind (encode_execution_capture w (oa_execution v)) (\<lambda>execution.
     rbind (encode_time w (oa_admitted_at v)) (\<lambda>at.
       Inr (jobj
         [(''session_id'', jtext (oa_session v)),
          (''operation_id'', jtext (oa_operation v)),
          (''request_kind'', jtext (request_kind_text (oa_kind v))),
          (''admitted_entry'', admitted),
          (''agent_type'', jtext (oa_agent_type v)),
          (''execution'', Some execution),
          (''admitted_at'', jtext at)])))))"

definition decode_operation_admission :: "wire \<Rightarrow> obj \<Rightarrow> codec_error + operation_admission" where
  "decode_operation_admission w ob =
     rbind (reject_unknown_members [''session_id'', ''operation_id'', ''request_kind'', ''admitted_entry'', ''agent_type'',
       ''execution'', ''admitted_at''] ob) (\<lambda>_.
     rbind (string_member ob ''session_id'' True) (\<lambda>sid.
     rbind (string_member ob ''operation_id'' True) (\<lambda>oid.
     rbind (string_member ob ''request_kind'' True) (\<lambda>kind.
     rbind (case request_kind_named kind of
              RequestMessage \<Rightarrow> part_member decode_entry_ref ob ''admitted_entry''
            | RequestCompact \<Rightarrow>
                rbind (ensure (\<not> present ob ''admitted_entry'') (PresentMember ''admitted_entry'')) (\<lambda>_. Inr zero_entry_ref)
            | OtherRequestKind _ \<Rightarrow> Inr zero_entry_ref) (\<lambda>admitted.
     rbind (string_member ob ''agent_type'' True) (\<lambda>agent.
     rbind (part_member (decode_execution_capture w) ob ''execution'') (\<lambda>execution.
     rbind (time_member w ob ''admitted_at'') (\<lambda>at.
     rbind (Inr \<lparr>oa_session = sid, oa_operation = oid, oa_kind = request_kind_named kind, oa_admitted = admitted,
       oa_agent_type = agent, oa_execution = execution, oa_admitted_at = at\<rparr>) (\<lambda>v.
     rbind (validate_operation_admission v) (\<lambda>_. Inr v))))))))))"

end
