(* ===== verification/Payload_State.thy ===== *)
theory Payload_State
  imports Payload_Entries Payload_Registers
begin

text \<open>
  The mutable half of the Operation register (\<open>src/harness/payload.go\<close>): the suspended request, the pending calls, the
  active effect and the state that holds them together; the whole register; and the decoding of a stored Session into
  its graph (\<open>validateSessionGraph\<close> and \<open>decodeGraphEntry\<close> of \<open>src/harness/graph.go\<close>).
\<close>

section \<open>The suspended request and the pending calls\<close>

fun check_hook_results :: "nat \<Rightarrow> entry_ref list \<Rightarrow> entry_ref list \<Rightarrow> codec_error + unit" where
  "check_hook_results i seen [] = Inr ()"
| "check_hook_results i seen (r # rs) =
     rbind (map_error (InItem ''hook_results'' i)
       (validate_hex_id (er_session r) ''running request hook result session id'')) (\<lambda>_.
     rbind (map_error (InItem ''hook_results'' i)
       (validate_hex_id (er_entry r) ''running request hook result entry id'')) (\<lambda>_.
     rbind (ensure (r \<notin> set seen) (InItem ''hook_results'' i (Refused ''not unique''))) (\<lambda>_.
       check_hook_results (Suc i) (r # seen) rs)))"

definition check_running_request :: "running_request \<Rightarrow> codec_error + unit" where
  "check_running_request v =
     rbind (validate_operation_identity (rr_request v) ''running request id'') (\<lambda>_.
     rbind (validate_hex_id (rr_boundary v) ''running request boundary entry id'') (\<lambda>_.
     rbind (if rr_checkpoint v \<noteq> [] then validate_hex_id (rr_checkpoint v) ''running request checkpoint entry id''
            else Inr ()) (\<lambda>_.
       check_hook_results 0 [] (rr_hook_results v))))"

definition encode_running_request :: "running_request \<Rightarrow> codec_error + json" where
  "encode_running_request v =
     rbind (map_error InvalidInput (check_running_request v)) (\<lambda>_.
       Inr (jobj
         [(''request_id'', jtext (rr_request v)),
          (''checkpoint_entry_id'', omit (rr_checkpoint v)),
          (''boundary_entry_id'', jtext (rr_boundary v)),
          (''hook_results'', omit_list (map entry_ref_json (rr_hook_results v)))]))"

definition decode_ref_item :: "json \<Rightarrow> codec_error + entry_ref" where
  "decode_ref_item j = rbind (payload_object (Value j)) decode_entry_ref"

definition decode_running_request :: "obj \<Rightarrow> codec_error + running_request" where
  "decode_running_request ob =
     rbind (reject_unknown_members [''request_id'', ''checkpoint_entry_id'', ''boundary_entry_id'', ''hook_results''] ob) (\<lambda>_.
     rbind (string_member ob ''request_id'' True) (\<lambda>rid.
     rbind (optional_non_empty_string ob ''checkpoint_entry_id'') (\<lambda>checkpoint.
     rbind (string_member ob ''boundary_entry_id'' True) (\<lambda>boundary.
     rbind (array_member ob ''hook_results'' False) (\<lambda>raws.
     rbind (decode_items ''hook_results'' decode_ref_item raws) (\<lambda>refs.
     rbind (Inr \<lparr>rr_request = rid, rr_checkpoint = checkpoint, rr_boundary = boundary, rr_hook_results = refs\<rparr>) (\<lambda>v.
     rbind (check_running_request v) (\<lambda>_. Inr v))))))))"

definition pending_call_json :: "pending_call \<Rightarrow> json" where
  "pending_call_json v =
     jobj [(''assistant_entry'', Some (entry_ref_json (pc_assistant v))), (''call_id'', jtext (pc_call v)),
       (''result_entry_id'', jtext (pc_result_entry v))]"

definition decode_pending_tool_call :: "json \<Rightarrow> codec_error + pending_call" where
  "decode_pending_tool_call j =
     rbind (payload_object (Value j)) (\<lambda>ob.
     rbind (reject_unknown_members [''assistant_entry'', ''call_id'', ''result_entry_id''] ob) (\<lambda>_.
     rbind (part_member decode_entry_ref ob ''assistant_entry'') (\<lambda>assistant.
     rbind (string_member ob ''call_id'' True) (\<lambda>cid.
     rbind (string_member ob ''result_entry_id'' True) (\<lambda>result.
     rbind (validate_operation_identity cid ''pending call id'') (\<lambda>_.
     rbind (validate_hex_id result ''pending call reserved result entry id'') (\<lambda>_.
       Inr \<lparr>pc_assistant = assistant, pc_call = cid, pc_result_entry = result\<rparr>)))))))"

definition terminal_json :: "operation_terminal \<Rightarrow> json" where
  "terminal_json v =
     jobj [(''settlement_entry'', Some (entry_ref_json (ot_settlement v))), (''detail'', omit (ot_detail v))]"

definition decode_operation_terminal :: "obj \<Rightarrow> codec_error + operation_terminal" where
  "decode_operation_terminal ob =
     rbind (reject_unknown_members [''settlement_entry'', ''detail''] ob) (\<lambda>_.
     rbind (part_member decode_entry_ref ob ''settlement_entry'') (\<lambda>settlement.
     rbind (optional_non_empty_string ob ''detail'') (\<lambda>detail.
       Inr \<lparr>ot_settlement = settlement, ot_detail = detail\<rparr>)))"

section \<open>Active effects\<close>

fun effect_text :: "effect_kind \<Rightarrow> string" where
  "effect_text EffectModel = ''model''"
| "effect_text EffectTool = ''tool''"
| "effect_text EffectHook = ''hook''"
| "effect_text (OtherEffect s) = s"

definition effect_named :: "string \<Rightarrow> effect_kind" where
  "effect_named s =
     (if s = ''model'' then EffectModel else if s = ''tool'' then EffectTool else if s = ''hook'' then EffectHook
      else OtherEffect s)"

fun purpose_text :: "invocation_purpose \<Rightarrow> string" where
  "purpose_text PurposeConversation = ''conversation''"
| "purpose_text PurposeMaintenance = ''maintenance''"
| "purpose_text (OtherPurpose s) = s"

definition purpose_named :: "string \<Rightarrow> invocation_purpose" where
  "purpose_named s =
     (if s = ''conversation'' then PurposeConversation else if s = ''maintenance'' then PurposeMaintenance
      else OtherPurpose s)"

abbreviation no_purpose :: invocation_purpose where
  "no_purpose \<equiv> OtherPurpose []"

definition validate_model_effect :: "active_effect \<Rightarrow> codec_error + unit" where
  "validate_model_effect v =
     rbind (ensure (ae_tool_call v = [] \<and> ae_hook v = [] \<and> ae_extension v = []) (Refused ''identity of a model effect'')) (\<lambda>_.
     rbind (ensure (ae_input_base64 v = [] \<and> ae_final_arguments v = NoBytes \<and> ae_contributions v = [])
       (Refused ''input of a model effect'')) (\<lambda>_.
     rbind (ensure (ae_request v \<noteq> []) (Refused ''no request'')) (\<lambda>_.
     rbind (case ae_model v of
              None \<Rightarrow> Inl (Refused ''no model'')
            | Some r \<Rightarrow> ensure (\<not> (provider r = [] \<or> model_name r = [])) Incomplete) (\<lambda>_.
     rbind (case ae_purpose v of
              PurposeConversation \<Rightarrow> ensure (ae_evidence v \<noteq> None) (Refused ''no evidence'')
            | PurposeMaintenance \<Rightarrow> ensure (ae_evidence v = None) (Refused ''evidence of maintenance'')
            | OtherPurpose _ \<Rightarrow> Inl (Refused ''purpose'')) (\<lambda>_.
       case ae_evidence v of None \<Rightarrow> Inr () | Some ev \<Rightarrow> map_error (InMember ''evidence'') (validate_request_evidence ev))))))"

definition validate_tool_effect :: "active_effect \<Rightarrow> codec_error + unit" where
  "validate_tool_effect v =
     rbind (ensure (ae_hook v = [] \<and> ae_extension v = []) (Refused ''hook of a tool effect'')) (\<lambda>_.
     rbind (ensure (ae_request v = [] \<and> ae_purpose v = no_purpose \<and> ae_model v = None \<and> ae_evidence v = None)
       (Refused ''request of a tool effect'')) (\<lambda>_.
     rbind (ensure (ae_input_base64 v = []) (Refused ''bytes of a tool effect'')) (\<lambda>_.
     rbind (ensure (ae_tool_call v \<noteq> []) (Refused ''no tool call'')) (\<lambda>_.
     rbind (payload_object (ae_final_arguments v)) (\<lambda>_.
       validate_hook_identities (ae_contributions v))))))"

definition validate_hook_effect :: "active_effect \<Rightarrow> codec_error + unit" where
  "validate_hook_effect v =
     rbind (ensure (\<not> (ae_request v \<noteq> [] \<and> ae_tool_call v \<noteq> [])) (Refused ''two bindings'')) (\<lambda>_.
     rbind (ensure (\<not> (ae_request v = [] \<and> ae_tool_call v = [])) (Refused ''no binding'')) (\<lambda>_.
     rbind (ensure (ae_hook v \<noteq> []) (Refused ''no hook id'')) (\<lambda>_.
     rbind (ensure (ae_extension v \<noteq> []) (Refused ''no extension id'')) (\<lambda>_.
     rbind (ensure (ae_model v = None \<and> ae_purpose v = no_purpose) (Refused ''model of a hook effect'')) (\<lambda>_.
       if ae_request v \<noteq> [] then
         rbind (case ae_evidence v of
                  None \<Rightarrow> Inl (Refused ''no evidence'')
                | Some ev \<Rightarrow> map_error (InMember ''evidence'') (validate_request_evidence ev)) (\<lambda>_.
           ensure (ae_input_base64 v = [] \<and> ae_final_arguments v = NoBytes \<and> ae_contributions v = [])
             (Refused ''arguments of a request hook''))
       else
         rbind (ensure (ae_evidence v = None) (Refused ''evidence of a tool hook'')) (\<lambda>_.
         rbind (ensure (base64_strict (ae_input_base64 v) \<noteq> None) Noncanonical) (\<lambda>_.
           ensure (ae_final_arguments v = NoBytes \<and> ae_contributions v = []) (Refused ''selection of a hook''))))))))"

definition validate_active_effect :: "active_effect \<Rightarrow> codec_error + unit" where
  "validate_active_effect v =
     rbind (validate_hex_id (ae_result_entry v) ''active effect result entry id'') (\<lambda>_.
       case ae_kind v of
         EffectModel \<Rightarrow> validate_model_effect v
       | EffectTool \<Rightarrow> validate_tool_effect v
       | EffectHook \<Rightarrow> validate_hook_effect v
       | OtherEffect _ \<Rightarrow> Inl (Refused ''active effect kind''))"

definition encode_active_effect :: "wire \<Rightarrow> active_effect \<Rightarrow> codec_error + json" where
  "encode_active_effect w v =
     rbind (map_error InvalidInput (validate_active_effect v)) (\<lambda>_.
     rbind (encode_option encode_model_ref (ae_model v)) (\<lambda>model_raw.
     rbind (encode_option (encode_request_evidence w) (ae_evidence v)) (\<lambda>evidence.
     rbind (encode_hook_identities (ae_contributions v)) (\<lambda>hooks.
       Inr (jobj
         [(''kind'', jtext (effect_text (ae_kind v))),
          (''result_entry_id'', jtext (ae_result_entry v)),
          (''tool_call_id'', omit (ae_tool_call v)),
          (''hook_id'', omit (ae_hook v)),
          (''request_id'', omit (ae_request v)),
          (''model'', model_raw),
          (''purpose'', omit (purpose_text (ae_purpose v))),
          (''evidence'', evidence),
          (''hook_extension_id'', omit (ae_extension v)),
          (''input_arguments_base64'',
             if ae_input_base64 v \<noteq> [] \<or> (ae_kind v = EffectHook \<and> ae_hook v \<noteq> [] \<and> ae_tool_call v \<noteq> [])
             then jtext (ae_input_base64 v) else None),
          (''final_arguments_base64'', omit_frame w (ae_final_arguments v)),
          (''hook_ids'', hooks)])))))"

definition decode_active_effect :: "wire \<Rightarrow> obj \<Rightarrow> codec_error + active_effect" where
  "decode_active_effect w ob =
     rbind (reject_unknown_members [''kind'', ''result_entry_id'', ''tool_call_id'', ''hook_id'', ''request_id'', ''model'',
       ''purpose'', ''evidence'', ''hook_extension_id'', ''input_arguments_base64'', ''final_arguments_base64'', ''hook_ids''] ob) (\<lambda>_.
     rbind (string_member ob ''kind'' True) (\<lambda>kind.
     rbind (string_member ob ''result_entry_id'' True) (\<lambda>result.
     rbind (optional_non_empty_string ob ''tool_call_id'') (\<lambda>tcid.
     rbind (optional_non_empty_string ob ''hook_id'') (\<lambda>hook.
     rbind (optional_non_empty_string ob ''request_id'') (\<lambda>rid.
     rbind (optional_part decode_model_ref ob ''model'') (\<lambda>ref.
     rbind (optional_non_empty_string ob ''purpose'') (\<lambda>purpose.
     rbind (optional_record (decode_request_evidence w) ob ''evidence'') (\<lambda>evidence.
     rbind (optional_non_empty_string ob ''hook_extension_id'') (\<lambda>extension.
     rbind (ensure (\<not> ((effect_named kind \<noteq> EffectHook \<or> tcid = []) \<and> present ob ''input_arguments_base64''))
       (PresentMember ''input_arguments_base64'')) (\<lambda>_.
     rbind (optional_stored_base64 ob ''input_arguments_base64'') (\<lambda>consumed.
     rbind (ensure (\<not> (effect_named kind = EffectHook \<and> hook \<noteq> [] \<and> tcid \<noteq> [] \<and> rid = [] \<and>
         \<not> present ob ''input_arguments_base64'')) (MissingMember ''input_arguments_base64'')) (\<lambda>_.
     rbind (framed_member w ob ''final_arguments_base64'' False) (\<lambda>final.
     rbind (decode_hook_identities ob ''hook_ids'') (\<lambda>hooks.
     rbind (Inr \<lparr>ae_kind = effect_named kind, ae_result_entry = result, ae_tool_call = tcid, ae_hook = hook,
       ae_request = rid, ae_model = ref, ae_purpose = purpose_named purpose, ae_evidence = evidence,
       ae_extension = extension, ae_input_base64 = consumed, ae_final_arguments = final, ae_contributions = hooks\<rparr>) (\<lambda>v.
     rbind (validate_active_effect v) (\<lambda>_. Inr v)))))))))))))))))"

section \<open>The state of an Operation\<close>

definition check_terminal_section :: "operation_state \<Rightarrow> codec_error + unit" where
  "check_terminal_section v =
     (case (os_settled_at v, os_terminal v) of
        (Some at, Some t) \<Rightarrow>
          rbind (ensure (os_effect v = None) (Refused ''effect of a terminal operation'')) (\<lambda>_.
          rbind (ensure (os_pending v = []) (Refused ''pending calls of a terminal operation'')) (\<lambda>_.
          rbind (ensure (at \<noteq> 0) ZeroTime) (\<lambda>_.
          rbind (validate_hex_id (er_session (ot_settlement t)) ''terminal settlement entry session id'') (\<lambda>_.
          rbind (validate_hex_id (er_entry (ot_settlement t)) ''terminal settlement entry id'') (\<lambda>_.
            if os_status v = OpSuccess then ensure (ot_detail t = []) (Refused ''detail of a success'')
            else ensure (ot_detail t \<noteq> []) (Refused ''no detail''))))))
      | _ \<Rightarrow> Inl (Refused ''terminal section''))"

definition validate_effect_address :: "operation_state \<Rightarrow> active_effect \<Rightarrow> codec_error + unit" where
  "validate_effect_address v e =
     (case ae_kind e of
        EffectTool \<Rightarrow>
          (case os_pending v of
             [] \<Rightarrow> Inl (Refused ''first pending call'')
           | c # _ \<Rightarrow>
               rbind (ensure (ae_tool_call e = pc_call c) (Refused ''first pending call'')) (\<lambda>_.
                 ensure (ae_result_entry e = pc_result_entry c) (Refused ''reserved result'')))
      | EffectHook \<Rightarrow>
          (if ae_tool_call e \<noteq> [] then
             (case os_pending v of
                [] \<Rightarrow> Inl (Refused ''first pending call'')
              | c # _ \<Rightarrow> ensure (ae_tool_call e = pc_call c) (Refused ''first pending call''))
           else Inr ())
      | _ \<Rightarrow> Inr ())"

text \<open>A request-bound intent belongs to the published request and carries its frozen references.\<close>

definition validate_request_association :: "operation_state \<Rightarrow> active_effect \<Rightarrow> codec_error + unit" where
  "validate_request_association v e =
     (if ae_kind e = EffectModel \<and> ae_purpose e = PurposeConversation \<or> ae_kind e = EffectHook \<and> ae_request e \<noteq> [] then
        (case (os_request v, ae_evidence e) of
           (Some q, Some ev) \<Rightarrow>
             rbind (ensure (rr_request q = ae_request e) (Refused ''foreign request'')) (\<lambda>_.
               ensure (rr_checkpoint q = ev_checkpoint ev \<and> rr_boundary q = ev_boundary ev) (Refused ''references diverge''))
         | _ \<Rightarrow> Inl (Refused ''no running request''))
      else Inr ())"

fun check_pending_calls :: "nat \<Rightarrow> string list \<Rightarrow> string list \<Rightarrow> pending_call list \<Rightarrow> codec_error + unit" where
  "check_pending_calls i calls results [] = Inr ()"
| "check_pending_calls i calls results (c # cs) =
     rbind (validate_hex_id (er_session (pc_assistant c)) ''pending call assistant entry session id'') (\<lambda>_.
     rbind (validate_hex_id (er_entry (pc_assistant c)) ''pending call assistant entry id'') (\<lambda>_.
     rbind (validate_operation_identity (pc_call c) ''pending call id'') (\<lambda>_.
     rbind (validate_hex_id (pc_result_entry c) ''pending call reserved result entry id'') (\<lambda>_.
     rbind (ensure (pc_call c \<notin> set calls) (InItem ''pending_tool_calls'' i (Refused ''call id repeats''))) (\<lambda>_.
     rbind (ensure (pc_result_entry c \<notin> set results) (InItem ''pending_tool_calls'' i (Refused ''result repeats''))) (\<lambda>_.
       check_pending_calls (Suc i) (pc_call c # calls) (pc_result_entry c # results) cs))))))"

definition validate_operation_state :: "operation_state \<Rightarrow> codec_error + unit" where
  "validate_operation_state v =
     rbind (ensure (os_status v \<in> {OpRunning, OpSuccess, OpFailure, OpInterruption}) (Refused ''operation status'')) (\<lambda>_.
     rbind (ensure (os_started_at v \<noteq> 0) ZeroTime) (\<lambda>_.
     rbind (if os_status v = OpRunning
            then ensure (os_settled_at v = None \<and> os_terminal v = None) (Refused ''running operation'')
            else check_terminal_section v) (\<lambda>_.
     rbind (case os_effect v of
              None \<Rightarrow> Inr ()
            | Some e \<Rightarrow>
                rbind (validate_active_effect e) (\<lambda>_.
                rbind (validate_effect_address v e) (\<lambda>_. validate_request_association v e))) (\<lambda>_.
     rbind (ensure (\<not> (os_status v \<noteq> OpRunning \<and> os_request v \<noteq> None)) (Refused ''request of a terminal operation'')) (\<lambda>_.
     rbind (check_pending_calls 0 [] [] (os_pending v)) (\<lambda>_.
       map_error TotalsRule (validate_usage_totals (os_usage v))))))))"

definition encode_operation_state :: "wire \<Rightarrow> operation_state \<Rightarrow> codec_error + json" where
  "encode_operation_state w v =
     rbind (map_error InvalidInput (validate_operation_state v)) (\<lambda>_.
     rbind (encode_time w (os_started_at v)) (\<lambda>started.
     rbind (encode_optional_time w (os_settled_at v)) (\<lambda>settled.
     rbind (encode_usage_totals (os_usage v)) (\<lambda>usage.
     rbind (encode_option (encode_active_effect w) (os_effect v)) (\<lambda>eff.
     rbind (encode_option encode_running_request (os_request v)) (\<lambda>running.
       Inr (jobj
         [(''status'', jtext (op_status_text (os_status v))),
          (''started_at'', jtext started),
          (''settled_at'', settled),
          (''active_effect'', eff),
          (''running_request'', running),
          (''pending_tool_calls'', Some (JArr (map pending_call_json (os_pending v)))),
          (''usage'', Some usage),
          (''terminal'', map_option terminal_json (os_terminal v)),
          (''unreported_maintenance'', omit_flag (os_unreported v))])))))))"

definition decode_operation_state :: "wire \<Rightarrow> obj \<Rightarrow> codec_error + operation_state" where
  "decode_operation_state w ob =
     rbind (reject_unknown_members [''status'', ''started_at'', ''settled_at'', ''active_effect'', ''running_request'',
       ''pending_tool_calls'', ''usage'', ''terminal'', ''unreported_maintenance''] ob) (\<lambda>_.
     rbind (string_member ob ''status'' True) (\<lambda>status.
     rbind (time_member w ob ''started_at'') (\<lambda>started.
     rbind (part_member decode_usage_totals ob ''usage'') (\<lambda>usage.
     rbind (map_error (InMember ''unreported_maintenance'') (bool_member ob ''unreported_maintenance'' False)) (\<lambda>unreported.
     rbind (optional_time w ob ''settled_at'') (\<lambda>settled.
     rbind (optional_part (decode_active_effect w) ob ''active_effect'') (\<lambda>eff.
     rbind (optional_part decode_running_request ob ''running_request'') (\<lambda>running.
     rbind (array_member ob ''pending_tool_calls'' True) (\<lambda>raws.
     rbind (decode_items ''pending_tool_calls'' decode_pending_tool_call raws) (\<lambda>pending.
     rbind (optional_part decode_operation_terminal ob ''terminal'') (\<lambda>terminal.
     rbind (Inr \<lparr>os_status = op_status_named status, os_started_at = started, os_settled_at = settled, os_effect = eff,
       os_request = running, os_pending = pending, os_usage = usage, os_terminal = terminal, os_unreported = unreported\<rparr>) (\<lambda>v.
     rbind (validate_operation_state v) (\<lambda>_. Inr v)))))))))))))"

definition encode_operation_register :: "wire \<Rightarrow> operation_record \<Rightarrow> codec_error + json" where
  "encode_operation_register w rec =
     rbind (encode_operation_admission w (or_admission rec)) (\<lambda>admission.
     rbind (encode_operation_state w (or_state rec)) (\<lambda>state.
       Inr (jobj [(''admission'', Some admission), (''state'', Some state)])))"

definition decode_operation_register :: "wire \<Rightarrow> register \<Rightarrow> codec_error + operation_record" where
  "decode_operation_register w r =
     rbind (ensure (rk_kind (rg_key r) = RegisterOperation) (Refused ''register kind'')) (\<lambda>_.
     rbind (validate_hex_id (rk_session (rg_key r)) ''register key session id'') (\<lambda>_.
     rbind (validate_operation_identity (rk_operation (rg_key r)) ''register key operation id'') (\<lambda>_.
     rbind (payload_object (rg_payload r)) (\<lambda>ob.
     rbind (reject_unknown_members [''admission'', ''state''] ob) (\<lambda>_.
     rbind (required_object ob ''admission'') (\<lambda>admission_ob.
     rbind (required_object ob ''state'') (\<lambda>state_ob.
     rbind (map_error (InMember ''admission'') (decode_operation_admission w admission_ob)) (\<lambda>admission.
     rbind (ensure (oa_session admission = rk_session (rg_key r)) (Disagrees ''session id'')) (\<lambda>_.
     rbind (ensure (oa_operation admission = rk_operation (rg_key r)) (Disagrees ''operation id'')) (\<lambda>_.
     rbind (map_error (InMember ''state'') (decode_operation_state w state_ob)) (\<lambda>state.
       Inr \<lparr>or_revision = rg_revision r, or_admission = admission, or_state = state\<rparr>)))))))))))"

section \<open>The graph of a Session\<close>

datatype graph_error =
  BadSession codec_error
| ReadFailed store_error
| ForeignRegister string
| SecondSession
| BadRegister string codec_error
| UnknownRegister string
| ForeignEntry string
| UnknownEntry string
| BadEntry string codec_error
| NoSessionRegister
| NoSession
| BadGraph violation

definition decode_graph_entry :: "wire \<Rightarrow> stored_entry \<Rightarrow> graph_error + graph_entry" where
  "decode_graph_entry w env =
     (let typed = (\<lambda>p. map_error (BadEntry (en_id env)) (rbind p (\<lambda>p'. Inr \<lparr>ge_env = envelope.truncate env, ge_payload = p'\<rparr>)))
      in case en_kind env of
           KindInput \<Rightarrow> typed (rbind (decode_input_entry w env) (\<lambda>v. Inr (PInput v)))
         | KindAssistant \<Rightarrow> typed (rbind (decode_assistant_entry w env) (\<lambda>v. Inr (PAssistant v)))
         | KindToolResult \<Rightarrow> typed (rbind (decode_tool_result_entry w env) (\<lambda>v. Inr (PToolResult v)))
         | KindSignal \<Rightarrow> typed (rbind (decode_signal_entry env) (\<lambda>v. Inr (PSignal v)))
         | KindHookResult \<Rightarrow> typed (rbind (decode_hook_result_entry w env) (\<lambda>v. Inr (PHookResult v)))
         | KindSettlement \<Rightarrow> typed (rbind (decode_operation_settlement_entry w env) (\<lambda>v. Inr (PSettlement v)))
         | KindCompaction \<Rightarrow> typed (rbind (decode_context_checkpoint_entry w env) (\<lambda>v. Inr (PCompaction v)))
         | OtherEntryKind _ \<Rightarrow> Inl (UnknownEntry (en_id env)))"

fun decode_registers ::
  "wire \<Rightarrow> string \<Rightarrow> session_record option \<Rightarrow> operation_record list \<Rightarrow> register list \<Rightarrow>
     graph_error + session_record option \<times> operation_record list" where
  "decode_registers w sid session ops [] = Inr (session, ops)"
| "decode_registers w sid session ops (r # rs) =
     rbind (ensure (rk_session (rg_key r) = sid) (ForeignRegister (rk_session (rg_key r)))) (\<lambda>_.
       case rk_kind (rg_key r) of
         RegisterSession \<Rightarrow>
           rbind (ensure (session = None) SecondSession) (\<lambda>_.
           rbind (map_error (BadRegister []) (decode_session_register w r)) (\<lambda>rec.
             decode_registers w sid (Some rec) ops rs))
       | RegisterOperation \<Rightarrow>
           rbind (map_error (BadRegister (rk_operation (rg_key r))) (decode_operation_register w r)) (\<lambda>rec.
             decode_registers w sid session (ops @ [rec]) rs)
       | OtherRegisterKind k \<Rightarrow> Inl (UnknownRegister k))"

fun decode_entries :: "wire \<Rightarrow> string \<Rightarrow> stored_entry list \<Rightarrow> graph_error + graph_entry list" where
  "decode_entries w sid [] = Inr []"
| "decode_entries w sid (env # envs) =
     rbind (ensure (en_session env = sid) (ForeignEntry (en_session env))) (\<lambda>_.
     rbind (decode_graph_entry w env) (\<lambda>e.
     rbind (decode_entries w sid envs) (\<lambda>es. Inr (e # es))))"

text \<open>\<open>validateSessionGraph\<close> on what the two reads of the store return.\<close>

definition validate_session_graph ::
  "wire \<Rightarrow> string \<Rightarrow> store_error + register list \<Rightarrow> store_error + stored_entry list \<Rightarrow> graph_error + session_graph" where
  "validate_session_graph w sid registers entries =
     rbind (map_error BadSession (validate_hex_id sid ''session id'')) (\<lambda>_.
     rbind (map_error ReadFailed registers) (\<lambda>rs.
     rbind (map_error ReadFailed entries) (\<lambda>envs.
     rbind (decode_registers w sid None [] rs) (\<lambda>(session, ops).
     rbind (decode_entries w sid envs) (\<lambda>es.
       case session of
         None \<Rightarrow> if ops \<noteq> [] \<or> es \<noteq> [] then Inl NoSessionRegister else Inl NoSession
       | Some rec \<Rightarrow>
           rbind (Inr \<lparr>g_session = rec, g_operations = ops, g_entries = es\<rparr>) (\<lambda>g.
           rbind (map_error BadGraph (validate_graph sid g)) (\<lambda>_. Inr g)))))))"

end
