(* ===== verification/Registers_Back.thy ===== *)
theory Registers_Back
  imports Entries_Back Payload_State
begin

text \<open>Every register payload that its encoder accepted is decoded to the same record, and so is a whole stored Session.\<close>

section \<open>The Session register\<close>

lemma lifecycle_named_text: "x \<in> {LifecycleOpen, LifecycleArchived} \<Longrightarrow> lifecycle_named (lifecycle_text x) = x"
  by (auto simp: lifecycle_named_def)

lemma session_identity_back:
  assumes w: "faithful_wire w"
  shows "inverts_object (encode_session_identity w) (decode_session_identity w) v"
  unfolding inverts_object_def
proof (intro allI impI)
  fix j
  assume enc: "encode_session_identity w v = Inr j"
  obtain created where v: "validate_session_identity v = Inr ()" and created: "encode_time w (si_created v) = Inr created"
    and j: "j = jobj
         [(''session_id'', jtext (si_session v)),
          (''workspace'', jtext (si_workspace v)),
          (''created_at'', jtext created),
          (''source_session_id'', omit (si_source_session v)),
          (''source_boundary_entry_id'', omit (si_source_boundary v)),
          (''parent_session_id'', omit (si_parent v))]" (is "_ = jobj ?fs")
    using enc unfolding encode_session_identity_def rbind_unit_eq unfolding rbind_eq_Inr map_error_Inr sum.inject by blast
  obtain ob where ob: "jobj ?fs = JObj ob" "distinct (map fst ob)"
    and known: "\<And>known. list_all (\<lambda>f. fst f \<in> set known) ?fs \<Longrightarrow> reject_unknown_members known ob = Inr ()"
    and at: "list_all (\<lambda>(k, v). map_of ob k = v) ?fs"
    by (rule built_object [of ?fs]) auto
  have "decode_session_identity w ob = Inr v"
    unfolding decode_session_identity_def
    using at v decode_encode_time [OF w created] by (cases v) (simp add: known string_back)
  with ob j show "reads_object (decode_session_identity w) j v" by (simp add: reads_object_def)
qed

lemma session_state_back:
  assumes w: "faithful_wire w"
  shows "inverts_object (encode_session_state w) (decode_session_state w) v"
  unfolding inverts_object_def
proof (intro allI impI)
  fix j
  assume enc: "encode_session_state w v = Inr j" and d: "tidy j"
  obtain lst arch usage where v: "check_session_state v = Inr ()"
    and lst: "encode_time w (ss_last_activity v) = Inr lst"
    and arch: "encode_optional_time w (ss_archived_at v) = Inr arch"
    and usage: "encode_usage_totals (ss_usage v) = Inr usage"
    and j: "j = jobj
         [(''lifecycle'', jtext (lifecycle_text (ss_lifecycle v))),
          (''archived_at'', arch),
          (''current_agent_type'', jtext (ss_agent_type v)),
          (''current_operation_id'', omit (ss_current_operation v)),
          (''checkpoint_entry_id'', omit (ss_checkpoint v)),
          (''usage'', Some usage),
          (''last_activity'', jtext lst)]" (is "_ = jobj ?fs")
    using enc unfolding encode_session_state_def rbind_unit_eq unfolding rbind_eq_Inr map_error_Inr sum.inject by blast
  obtain ob where ob: "jobj ?fs = JObj ob" "distinct (map fst ob)"
    and known: "\<And>known. list_all (\<lambda>f. fst f \<in> set known) ?fs \<Longrightarrow> reject_unknown_members known ob = Inr ()"
    and at: "list_all (\<lambda>(k, v). map_of ob k = v) ?fs"
    by (rule built_object [of ?fs]) auto
  have "lifecycle_named (lifecycle_text (ss_lifecycle v)) = ss_lifecycle v"
    using v by (intro lifecycle_named_text) (simp add: check_session_state_def rbind_unit_eq ensure_eq_Inr)
  moreover have "part_member decode_usage_totals ob ''usage'' = Inr (ss_usage v)"
    using at tidy_jobj [OF d [unfolded j]] by (intro part_back [OF _ usage_totals_back usage]) auto
  moreover have "time_member w ob ''last_activity'' = Inr (ss_last_activity v)"
    using at by (intro time_back [OF _ w lst]) simp
  moreover have "optional_time w ob ''archived_at'' = Inr (ss_archived_at v)"
    using at by (intro optional_time_back [OF w arch]) simp
  ultimately have "decode_session_state w ob = Inr v"
    unfolding decode_session_state_def using at v by (cases v) (simp add: known string_back)
  with ob j show "reads_object (decode_session_state w) j v" by (simp add: reads_object_def)
qed

lemma required_reads:
  "map_of ob k = Some j \<Longrightarrow> reads_object dec j v \<Longrightarrow> \<exists>inner. required_object ob k = Inr inner \<and> dec inner = Inr v"
  by (auto simp: reads_object_def required_object_def object_back)

lemma session_register_back:
  assumes w: "faithful_wire w" and enc: "encode_session_register w v = Inr j" and d: "tidy j"
    and reg: "rg_payload r = Value j" "rg_revision r = sr_revision v"
      "rg_key r = session_key (si_session (sr_identity v))"
  shows "decode_session_register w r = Inr v"
proof -
  obtain i s where i: "encode_session_identity w (sr_identity v) = Inr i" and s: "encode_session_state w (sr_state v) = Inr s"
    and j: "j = jobj [(''identity'', Some i), (''state'', Some s)]" (is "_ = jobj ?fs")
    using enc unfolding encode_session_register_def unfolding rbind_eq_Inr sum.inject by blast
  obtain ob where ob: "payload_object (Value (jobj ?fs)) = Inr ob"
    and known: "\<And>known. list_all (\<lambda>f. fst f \<in> set known) ?fs \<Longrightarrow> reject_unknown_members known ob = Inr ()"
    and at: "list_all (\<lambda>(k, v). map_of ob k = v) ?fs"
    by (rule built_object [of ?fs]) auto
  note t = tidy_jobj [OF d [unfolded j]]
  have "reads_object (decode_session_identity w) i (sr_identity v)" "reads_object (decode_session_state w) s (sr_state v)"
    using session_identity_back [OF w] session_state_back [OF w] i s t by (auto simp: inverts_object_def)
  note reads = this
  have keys: "map_of ob ''identity'' = Some i" "map_of ob ''state'' = Some s" using at by simp_all
  obtain io where "required_object ob ''identity'' = Inr io" "decode_session_identity w io = Inr (sr_identity v)"
    using required_reads [OF keys(1) reads(1)] by blast
  moreover obtain so where "required_object ob ''state'' = Inr so" "decode_session_state w so = Inr (sr_state v)"
    using required_reads [OF keys(2) reads(2)] by blast
  moreover have "validate_hex_id (si_session (sr_identity v)) what = Inr ()" for what
    using i by (auto simp: encode_session_identity_def validate_session_identity_def validate_hex_id_def rbind_unit_eq ensure_eq_Inr)
  ultimately show ?thesis
    unfolding decode_session_register_def reg j ob
    using at reg by (cases v) (simp add: known session_key_def)
qed

section \<open>Prices and the captured configuration\<close>

lemma rate_back:
  "faithful_wire w \<Longrightarrow> finite_option o' \<Longrightarrow> map_of ob k = rate_json w o' \<Longrightarrow> rate_member w ob k = Inr o'"
  by (cases o') (simp_all add: rate_member_def rate_json_def json_member_def finite_option_def faithful_wire_def)

lemma model_pricing_back:
  assumes w: "faithful_wire w"
  shows "inverts_object (encode_model_pricing w) (decode_model_pricing w) v"
  unfolding inverts_object_def
proof (intro allI impI)
  fix j
  let ?fs = "[(''input'', rate_json w (pr_input v)), (''output'', rate_json w (pr_output v)),
    (''cache_read'', rate_json w (pr_cache_read v))]"
  assume "encode_model_pricing w v = Inr j"
  then have v: "validate_model_pricing v = Inr ()" and j: "j = jobj ?fs"
    by (auto simp: encode_model_pricing_def rbind_unit_eq)
  obtain ob where ob: "jobj ?fs = JObj ob" "distinct (map fst ob)"
    and known: "\<And>known. list_all (\<lambda>f. fst f \<in> set known) ?fs \<Longrightarrow> reject_unknown_members known ob = Inr ()"
    and at: "list_all (\<lambda>(k, v). map_of ob k = v) ?fs"
    by (rule built_object [of ?fs]) auto
  have "rate_member w ob ''input'' = Inr (pr_input v)" "rate_member w ob ''output'' = Inr (pr_output v)"
    "rate_member w ob ''cache_read'' = Inr (pr_cache_read v)"
    using at v by (simp_all add: rate_back [OF w] validate_model_pricing_def rbind_unit_eq ensure_eq_Inr)
  then have "decode_model_pricing w ob = Inr v"
    unfolding decode_model_pricing_def using v by (cases v) (simp add: known)
  with ob j show "reads_object (decode_model_pricing w) j v" by (simp add: reads_object_def)
qed

lemma strategy_capture_back:
  assumes w: "faithful_wire w"
  shows "inverts_object (encode_strategy_capture w) (decode_strategy_capture w) v"
  unfolding inverts_object_def
proof (intro allI impI)
  fix j
  let ?fs = "[(''id'', jtext (sc_id v)), (''settings_base64'', omit_frame w (sc_settings v)),
         (''requires_context_window'', Some (JBool (sc_requires_window v)))]"
  assume "encode_strategy_capture w v = Inr j"
  then have v: "validate_strategy_capture v = Inr ()" and j: "j = jobj ?fs"
    by (auto simp: encode_strategy_capture_def rbind_unit_eq)
  obtain ob where ob: "jobj ?fs = JObj ob" "distinct (map fst ob)"
    and known: "\<And>known. list_all (\<lambda>f. fst f \<in> set known) ?fs \<Longrightarrow> reject_unknown_members known ob = Inr ()"
    and at: "list_all (\<lambda>(k, v). map_of ob k = v) ?fs"
    by (rule built_object [of ?fs]) auto
  have "decode_strategy_capture w ob = Inr v"
  proof (cases "sc_settings v = NoBytes")
    case True
    with at show ?thesis
      unfolding decode_strategy_capture_def by (cases v) (simp add: known member_back present_def omit_frame_def)
  next
    case False
    with v have "json_valid (sc_settings v)" by (simp add: validate_strategy_capture_def rbind_unit_eq ensure_eq_Inr)
    moreover from this have "framed_member w ob ''settings_base64'' True = Inr (sc_settings v)"
      using at w False by (intro frame_back) (auto simp: omit_frame_def)
    ultimately show ?thesis
      unfolding decode_strategy_capture_def using at False
      by (cases v) (simp add: known string_back bool_back present_def omit_frame_def)
  qed
  with ob j show "reads_object (decode_strategy_capture w) j v" by (simp add: reads_object_def)
qed

lemma compact_capture_back:
  assumes w: "faithful_wire w"
  shows "inverts_object (encode_compact_capture w) (decode_compact_capture w) v"
  unfolding inverts_object_def
proof (intro allI impI)
  fix j
  assume enc: "encode_compact_capture w v = Inr j" and d: "tidy j"
  obtain r p where r: "encode_model_ref (cc_model v) = Inr r"
    and p: "encode_option (encode_model_pricing w) (cc_pricing v) = Inr p"
    and j: "j = jobj [(''model'', Some r), (''system_prompt'', jtext (cc_prompt v)), (''pricing'', p)]" (is "_ = jobj ?fs")
    using enc unfolding encode_compact_capture_def unfolding rbind_eq_Inr sum.inject by blast
  obtain ob where ob: "jobj ?fs = JObj ob" "distinct (map fst ob)"
    and known: "\<And>known. list_all (\<lambda>f. fst f \<in> set known) ?fs \<Longrightarrow> reject_unknown_members known ob = Inr ()"
    and at: "list_all (\<lambda>(k, v). map_of ob k = v) ?fs"
    by (rule built_object [of ?fs]) auto
  note t = tidy_jobj [OF d [unfolded j]]
  have "part_member decode_model_ref ob ''model'' = Inr (cc_model v)"
    using at t by (intro part_back [OF _ model_ref_back r]) auto
  moreover have "optional_part (decode_model_pricing w) ob ''pricing'' = Inr (cc_pricing v)"
    using at t by (intro optional_part_back [OF _ p] model_pricing_back [OF w]) auto
  ultimately have "decode_compact_capture w ob = Inr v"
    unfolding decode_compact_capture_def using at by (cases v) (simp add: known string_back)
  with ob j show "reads_object (decode_compact_capture w) j v" by (simp add: reads_object_def)
qed

lemma capabilities_back: "decode_items what decode_capability (map JStr cs) = Inr cs"
  by (rule items_map_back) (simp add: decode_capability_def)

text \<open>The two counts of a capture are Go's 64-bit integers.\<close>

definition word_sized :: "execution_capture \<Rightarrow> bool" where
  "word_sized v \<longleftrightarrow> xc_context_window v < 2 ^ 63 \<and> xc_output_reserve v < 2 ^ 63"

lemma execution_capture_back:
  assumes w: "faithful_wire w" and size_ok: "word_sized v"
  shows "inverts_object (encode_execution_capture w) (decode_execution_capture w) v"
  unfolding inverts_object_def
proof (intro allI impI)
  fix j
  assume enc: "encode_execution_capture w v = Inr j" and d: "tidy j"
  obtain r p c s tools where v: "validate_execution_capture v = Inr ()" and r: "encode_model_ref (xc_model v) = Inr r"
    and p: "encode_option (encode_model_pricing w) (xc_pricing v) = Inr p"
    and c: "encode_compact_capture w (xc_compact v) = Inr c" and s: "encode_strategy_capture w (xc_strategy v) = Inr s"
    and tools: "encode_each (encode_tool_definition w) (xc_tools v) = Inr tools"
    and j: "j = jobj
         [(''configuration_revision'', jtext (xc_revision v)),
          (''model'', Some r),
          (''context_window'', jint (xc_context_window v)),
          (''output_reserve'', jint (xc_output_reserve v)),
          (''system_prompt'', jtext (xc_prompt v)),
          (''tools'', Some (JArr tools)),
          (''capabilities'', omit_list (map JStr (xc_capabilities v))),
          (''readonly'', Some (JBool (xc_readonly v))),
          (''write_dir'', jtext (xc_write_dir v)),
          (''pricing'', p),
          (''compact'', Some c),
          (''strategy'', Some s)]" (is "_ = jobj ?fs")
    using enc unfolding encode_execution_capture_def rbind_unit_eq unfolding rbind_eq_Inr map_error_Inr sum.inject by blast
  obtain ob where ob: "jobj ?fs = JObj ob" "distinct (map fst ob)"
    and known: "\<And>known. list_all (\<lambda>f. fst f \<in> set known) ?fs \<Longrightarrow> reject_unknown_members known ob = Inr ()"
    and at: "list_all (\<lambda>(k, v). map_of ob k = v) ?fs"
    by (rule built_object [of ?fs]) auto
  note t = tidy_jobj [OF d [unfolded j]]
  have "in_int64 (xc_context_window v)" "in_int64 (xc_output_reserve v)"
    using v size_ok by (simp_all add: validate_execution_capture_def rbind_unit_eq ensure_eq_Inr word_sized_def in_int64_def)
  then have "int64_member ob ''context_window'' True = Inr (xc_context_window v)"
    "int64_member ob ''output_reserve'' True = Inr (xc_output_reserve v)"
    using at by (simp_all add: int64_back)
  moreover have "part_member decode_model_ref ob ''model'' = Inr (xc_model v)"
    using at t by (intro part_back [OF _ model_ref_back r]) auto
  moreover have "optional_part (decode_model_pricing w) ob ''pricing'' = Inr (xc_pricing v)"
    using at t by (intro optional_part_back [OF _ p] model_pricing_back [OF w]) auto
  moreover have "part_member (decode_compact_capture w) ob ''compact'' = Inr (xc_compact v)"
    using at t by (intro part_back [OF _ compact_capture_back [OF w] c]) auto
  moreover have "part_member (decode_strategy_capture w) ob ''strategy'' = Inr (xc_strategy v)"
    using at t by (intro part_back [OF _ strategy_capture_back [OF w] s]) auto
  moreover have "decode_items ''tools'' (decode_tool_definition w) tools = Inr (xc_tools v)"
    using t by (intro items_back [OF tools] tool_definition_back [OF w]) simp
  ultimately have "decode_execution_capture w ob = Inr v"
    unfolding decode_execution_capture_def using at v
    by (cases v) (simp add: known string_back bool_back array_back omit_list_back capabilities_back)
  with ob j show "reads_object (decode_execution_capture w) j v" by (simp add: reads_object_def)
qed

section \<open>Admission\<close>

lemma operation_admission_back:
  assumes w: "faithful_wire w" and size_ok: "word_sized (oa_execution v)"
  shows "inverts_object (encode_operation_admission w) (decode_operation_admission w) v"
  unfolding inverts_object_def
proof (intro allI impI)
  fix j
  let ?adm = "if oa_kind v = RequestMessage then Some (oa_admitted v) else None"
  assume enc: "encode_operation_admission w v = Inr j" and d: "tidy j"
  obtain a x at' where v: "validate_operation_admission v = Inr ()" and a: "encode_option encode_entry_ref ?adm = Inr a"
    and x: "encode_execution_capture w (oa_execution v) = Inr x" and at': "encode_time w (oa_admitted_at v) = Inr at'"
    and j: "j = jobj
         [(''session_id'', jtext (oa_session v)),
          (''operation_id'', jtext (oa_operation v)),
          (''request_kind'', jtext (request_kind_text (oa_kind v))),
          (''admitted_entry'', a),
          (''agent_type'', jtext (oa_agent_type v)),
          (''execution'', Some x),
          (''admitted_at'', jtext at')]" (is "_ = jobj ?fs")
    using enc unfolding encode_operation_admission_def rbind_unit_eq unfolding rbind_eq_Inr map_error_Inr sum.inject by blast
  obtain ob where ob: "jobj ?fs = JObj ob" "distinct (map fst ob)"
    and known: "\<And>known. list_all (\<lambda>f. fst f \<in> set known) ?fs \<Longrightarrow> reject_unknown_members known ob = Inr ()"
    and at: "list_all (\<lambda>(k, v). map_of ob k = v) ?fs"
    by (rule built_object [of ?fs]) auto
  note t = tidy_jobj [OF d [unfolded j]]
  have kind: "oa_kind v = RequestMessage \<or> oa_kind v = RequestCompact \<and> oa_admitted v = zero_entry_ref"
    using v by (auto simp: validate_operation_admission_def rbind_unit_eq ensure_eq_Inr split: request_kind.splits)
  then have named: "request_kind_named (request_kind_text (oa_kind v)) = oa_kind v" by (auto simp: request_kind_named_def)
  have "(case oa_kind v of
              RequestMessage \<Rightarrow> part_member decode_entry_ref ob ''admitted_entry''
            | RequestCompact \<Rightarrow>
                rbind (ensure (\<not> present ob ''admitted_entry'') (PresentMember ''admitted_entry'')) (\<lambda>_. Inr zero_entry_ref)
            | OtherRequestKind _ \<Rightarrow> Inr zero_entry_ref) = Inr (oa_admitted v)"
  proof (cases "oa_kind v = RequestMessage")
    case True
    with a obtain e where e: "encode_entry_ref (oa_admitted v) = Inr e" "a = Some e" by (auto simp: rbind_eq_Inr)
    have "part_member decode_entry_ref ob ''admitted_entry'' = Inr (oa_admitted v)"
      using at t e by (intro part_back [OF _ entry_ref_back e(1)]) auto
    with True show ?thesis by simp
  next
    case False
    with a kind at show ?thesis by (simp add: present_def)
  qed
  moreover have "part_member (decode_execution_capture w) ob ''execution'' = Inr (oa_execution v)"
    using at t by (intro part_back [OF _ execution_capture_back [OF w size_ok] x]) auto
  moreover have "time_member w ob ''admitted_at'' = Inr (oa_admitted_at v)"
    using at by (intro time_back [OF _ w at']) simp
  ultimately have "decode_operation_admission w ob = Inr v"
    unfolding decode_operation_admission_def using at v named by (cases v) (simp add: known string_back)
  with ob j show "reads_object (decode_operation_admission w) j v" by (simp add: reads_object_def)
qed

section \<open>The state of an Operation\<close>

lemma check_hook_results_each: "check_hook_results i seen rs = Inr () \<Longrightarrow> r \<in> set rs \<Longrightarrow> validate_entry_ref r = Inr ()"
  by (induction rs arbitrary: i seen)
     (auto simp: rbind_unit_eq ensure_eq_Inr validate_entry_ref_def validate_hex_id_def)

lemma ref_item_back: "validate_entry_ref r = Inr () \<Longrightarrow> decode_ref_item (entry_ref_json r) = Inr r"
  using entry_ref_reads [of r] by (auto simp: reads_object_def decode_ref_item_def payload_object_JObj)

lemma running_request_back: "inverts_object encode_running_request decode_running_request v"
  unfolding inverts_object_def
proof (intro allI impI)
  fix j
  let ?fs = "[(''request_id'', jtext (rr_request v)),
          (''checkpoint_entry_id'', omit (rr_checkpoint v)),
          (''boundary_entry_id'', jtext (rr_boundary v)),
          (''hook_results'', omit_list (map entry_ref_json (rr_hook_results v)))]"
  assume "encode_running_request v = Inr j"
  then have v: "check_running_request v = Inr ()" and j: "j = jobj ?fs"
    by (simp_all add: encode_running_request_def rbind_unit_eq)
  obtain ob where ob: "jobj ?fs = JObj ob" "distinct (map fst ob)"
    and known: "\<And>known. list_all (\<lambda>f. fst f \<in> set known) ?fs \<Longrightarrow> reject_unknown_members known ob = Inr ()"
    and at: "list_all (\<lambda>(k, v). map_of ob k = v) ?fs"
    by (rule built_object [of ?fs]) auto
  have "check_hook_results 0 [] (rr_hook_results v) = Inr ()"
    using v by (simp add: check_running_request_def rbind_unit_eq)
  then have "decode_items ''hook_results'' decode_ref_item (map entry_ref_json (rr_hook_results v)) = Inr (rr_hook_results v)"
    using check_hook_results_each by (intro items_map_back ref_item_back) blast
  then have "decode_running_request ob = Inr v"
    unfolding decode_running_request_def using at v by (cases v) (simp add: known string_back omit_list_back)
  with ob j show "reads_object decode_running_request j v" by (simp add: reads_object_def)
qed

lemma check_pending_calls_each:
  "check_pending_calls i calls results cs = Inr () \<Longrightarrow> c \<in> set cs \<Longrightarrow>
     validate_entry_ref (pc_assistant c) = Inr () \<and> validate_operation_identity (pc_call c) ''pending call id'' = Inr () \<and>
     validate_hex_id (pc_result_entry c) ''pending call reserved result entry id'' = Inr ()"
  by (induction cs arbitrary: i calls results)
     (auto simp: rbind_unit_eq ensure_eq_Inr validate_entry_ref_def validate_hex_id_def)

lemma pending_call_back:
  assumes "validate_entry_ref (pc_assistant c) = Inr ()" "validate_operation_identity (pc_call c) ''pending call id'' = Inr ()"
    "validate_hex_id (pc_result_entry c) ''pending call reserved result entry id'' = Inr ()"
  shows "decode_pending_tool_call (pending_call_json c) = Inr c"
proof -
  let ?fs = "[(''assistant_entry'', Some (entry_ref_json (pc_assistant c))), (''call_id'', jtext (pc_call c)),
       (''result_entry_id'', jtext (pc_result_entry c))]"
  obtain ob where ob: "payload_object (Value (jobj ?fs)) = Inr ob"
    and known: "\<And>known. list_all (\<lambda>f. fst f \<in> set known) ?fs \<Longrightarrow> reject_unknown_members known ob = Inr ()"
    and at: "list_all (\<lambda>(k, v). map_of ob k = v) ?fs"
    by (rule built_object [of ?fs]) auto
  have "part_member decode_entry_ref ob ''assistant_entry'' = Inr (pc_assistant c)"
    using at by (intro part_reads [OF _ entry_ref_reads [OF assms(1)]]) simp
  then show ?thesis
    unfolding decode_pending_tool_call_def pending_call_json_def ob
    using at assms by (cases c) (simp add: known string_back)
qed

lemma terminal_reads:
  assumes "validate_entry_ref (ot_settlement v) = Inr ()"
  shows "reads_object decode_operation_terminal (terminal_json v) v"
proof -
  let ?fs = "[(''settlement_entry'', Some (entry_ref_json (ot_settlement v))), (''detail'', omit (ot_detail v))]"
  obtain ob where ob: "jobj ?fs = JObj ob" "distinct (map fst ob)"
    and known: "\<And>known. list_all (\<lambda>f. fst f \<in> set known) ?fs \<Longrightarrow> reject_unknown_members known ob = Inr ()"
    and at: "list_all (\<lambda>(k, v). map_of ob k = v) ?fs"
    by (rule built_object [of ?fs]) auto
  have "part_member decode_entry_ref ob ''settlement_entry'' = Inr (ot_settlement v)"
    using at by (intro part_reads [OF _ entry_ref_reads [OF assms]]) simp
  then have "decode_operation_terminal ob = Inr v"
    unfolding decode_operation_terminal_def using at by (cases v) (simp add: known string_back)
  with ob show ?thesis by (simp add: reads_object_def terminal_json_def)
qed

lemma effect_named_text: "effect_named (effect_text k) = k" if "k \<in> {EffectModel, EffectTool, EffectHook}" for k
  using that by (auto simp: effect_named_def)

text \<open>What the rules of an active effect leave for its members.\<close>

lemma effect_members:
  assumes "validate_active_effect v = Inr ()"
  shows "ae_kind v \<in> {EffectModel, EffectTool, EffectHook}" "purpose_named (purpose_text (ae_purpose v)) = ae_purpose v"
    "ae_final_arguments v = NoBytes \<or> json_valid (ae_final_arguments v)"
    "ae_input_base64 v = [] \<or> ae_kind v = EffectHook \<and> ae_hook v \<noteq> [] \<and> ae_tool_call v \<noteq> []"
    "ae_kind v = EffectHook \<Longrightarrow> ae_tool_call v \<noteq> [] \<Longrightarrow> base64_strict (ae_input_base64 v) \<noteq> None"
  using assms
  by (auto simp: validate_active_effect_def validate_model_effect_def validate_tool_effect_def validate_hook_effect_def
      purpose_named_def rbind_unit_eq ensure_eq_Inr rbind_eq_Inr object_valid
      split: effect_kind.splits invocation_purpose.splits if_splits)

lemma active_effect_back:
  assumes w: "faithful_wire w"
  shows "inverts_object (encode_active_effect w) (decode_active_effect w) v"
  unfolding inverts_object_def
proof (intro allI impI)
  fix j
  let ?given = "ae_input_base64 v \<noteq> [] \<or> (ae_kind v = EffectHook \<and> ae_hook v \<noteq> [] \<and> ae_tool_call v \<noteq> [])"
  assume enc: "encode_active_effect w v = Inr j" and d: "tidy j"
  obtain mj ej hooks where v: "validate_active_effect v = Inr ()" and mj: "encode_option encode_model_ref (ae_model v) = Inr mj"
    and ej: "encode_option (encode_request_evidence w) (ae_evidence v) = Inr ej"
    and hooks: "encode_hook_identities (ae_contributions v) = Inr hooks"
    and j: "j = jobj
         [(''kind'', jtext (effect_text (ae_kind v))),
          (''result_entry_id'', jtext (ae_result_entry v)),
          (''tool_call_id'', omit (ae_tool_call v)),
          (''hook_id'', omit (ae_hook v)),
          (''request_id'', omit (ae_request v)),
          (''model'', mj),
          (''purpose'', omit (purpose_text (ae_purpose v))),
          (''evidence'', ej),
          (''hook_extension_id'', omit (ae_extension v)),
          (''input_arguments_base64'', if ?given then jtext (ae_input_base64 v) else None),
          (''final_arguments_base64'', omit_frame w (ae_final_arguments v)),
          (''hook_ids'', hooks)]" (is "_ = jobj ?fs")
    using enc unfolding encode_active_effect_def rbind_unit_eq unfolding rbind_eq_Inr map_error_Inr sum.inject by blast
  obtain ob where ob: "jobj ?fs = JObj ob" "distinct (map fst ob)"
    and known: "\<And>known. list_all (\<lambda>f. fst f \<in> set known) ?fs \<Longrightarrow> reject_unknown_members known ob = Inr ()"
    and at: "list_all (\<lambda>(k, v). map_of ob k = v) ?fs"
    by (rule built_object [of ?fs]) auto
  note t = tidy_jobj [OF d [unfolded j]] and m = effect_members [OF v]
  have guard: "present ob ''input_arguments_base64'' \<longleftrightarrow> ?given" using at by (simp add: present_def)
  have "optional_stored_base64 ob ''input_arguments_base64'' = Inr (ae_input_base64 v)"
  proof (cases ?given)
    case True
    with m(4,5) have "base64_strict (ae_input_base64 v) \<noteq> None" by auto
    with True guard at show ?thesis by (simp add: optional_stored_base64_def string_back)
  next
    case False
    with guard show ?thesis by (auto simp: optional_stored_base64_def)
  qed
  moreover have "framed_member w ob ''final_arguments_base64'' False = Inr (ae_final_arguments v)"
    using at w m(3) by (intro frame_absent) auto
  moreover have "optional_part decode_model_ref ob ''model'' = Inr (ae_model v)"
    using at t by (intro optional_part_back [OF _ mj] model_ref_back) auto
  moreover have "optional_record (decode_request_evidence w) ob ''evidence'' = Inr (ae_evidence v)"
    using at t by (intro optional_record_back [OF _ ej] evidence_back [OF w]) auto
  moreover have "decode_hook_identities ob ''hook_ids'' = Inr (ae_contributions v)"
    using at by (intro hook_identities_back [OF hooks]) simp
  moreover have "\<not> ((ae_kind v \<noteq> EffectHook \<or> ae_tool_call v = []) \<and> present ob ''input_arguments_base64'')"
    using guard m(4) by auto
  moreover have "\<not> (ae_kind v = EffectHook \<and> ae_hook v \<noteq> [] \<and> ae_tool_call v \<noteq> [] \<and> ae_request v = [] \<and>
      \<not> present ob ''input_arguments_base64'')"
    using guard by auto
  ultimately have "decode_active_effect w ob = Inr v"
    unfolding decode_active_effect_def using at v m(2) effect_named_text [OF m(1)]
    by (cases v) (simp add: known string_back)
  with ob j show "reads_object (decode_active_effect w) j v" by (simp add: reads_object_def)
qed

lemma operation_state_back:
  assumes w: "faithful_wire w"
  shows "inverts_object (encode_operation_state w) (decode_operation_state w) v"
  unfolding inverts_object_def
proof (intro allI impI)
  fix j
  assume enc: "encode_operation_state w v = Inr j" and d: "tidy j"
  obtain started settled usage eff running where v: "validate_operation_state v = Inr ()"
    and started: "encode_time w (os_started_at v) = Inr started"
    and settled: "encode_optional_time w (os_settled_at v) = Inr settled"
    and usage: "encode_usage_totals (os_usage v) = Inr usage"
    and eff: "encode_option (encode_active_effect w) (os_effect v) = Inr eff"
    and running: "encode_option encode_running_request (os_request v) = Inr running"
    and j: "j = jobj
         [(''status'', jtext (op_status_text (os_status v))),
          (''started_at'', jtext started),
          (''settled_at'', settled),
          (''active_effect'', eff),
          (''running_request'', running),
          (''pending_tool_calls'', Some (JArr (map pending_call_json (os_pending v)))),
          (''usage'', Some usage),
          (''terminal'', map_option terminal_json (os_terminal v)),
          (''unreported_maintenance'', omit_flag (os_unreported v))]" (is "_ = jobj ?fs")
    using enc unfolding encode_operation_state_def rbind_unit_eq unfolding rbind_eq_Inr map_error_Inr sum.inject by blast
  obtain ob where ob: "jobj ?fs = JObj ob" "distinct (map fst ob)"
    and known: "\<And>known. list_all (\<lambda>f. fst f \<in> set known) ?fs \<Longrightarrow> reject_unknown_members known ob = Inr ()"
    and at: "list_all (\<lambda>(k, v). map_of ob k = v) ?fs"
    by (rule built_object [of ?fs]) auto
  note t = tidy_jobj [OF d [unfolded j]]
  have pend: "check_pending_calls 0 [] [] (os_pending v) = Inr ()"
    and status: "op_status_named (op_status_text (os_status v)) = os_status v"
    and term': "if os_status v = OpRunning then os_settled_at v = None \<and> os_terminal v = None else check_terminal_section v = Inr ()"
    using v by (simp_all add: validate_operation_state_def rbind_unit_eq ensure_eq_Inr op_status_named_text split: if_splits)
  have "validate_entry_ref (ot_settlement x) = Inr ()" if "os_terminal v = Some x" for x
    using term' that by (auto simp: check_terminal_section_def validate_entry_ref_def validate_hex_id_def rbind_unit_eq ensure_eq_Inr
        split: if_splits option.splits)
  then have "optional_part decode_operation_terminal ob ''terminal'' = Inr (os_terminal v)"
    using at by (intro optional_reads [of _ _ terminal_json] terminal_reads) auto
  moreover have "decode_items ''pending_tool_calls'' decode_pending_tool_call (map pending_call_json (os_pending v)) = Inr (os_pending v)"
    using check_pending_calls_each [OF pend] by (intro items_map_back pending_call_back) blast+
  moreover have "time_member w ob ''started_at'' = Inr (os_started_at v)"
    using at by (intro time_back [OF _ w started]) simp
  moreover have "optional_time w ob ''settled_at'' = Inr (os_settled_at v)"
    using at by (intro optional_time_back [OF w settled]) simp
  moreover have "part_member decode_usage_totals ob ''usage'' = Inr (os_usage v)"
    using at t by (intro part_back [OF _ usage_totals_back usage]) auto
  moreover have "optional_part (decode_active_effect w) ob ''active_effect'' = Inr (os_effect v)"
    using at t by (intro optional_part_back [OF _ eff] active_effect_back [OF w]) auto
  moreover have "optional_part decode_running_request ob ''running_request'' = Inr (os_request v)"
    using at t by (intro optional_part_back [OF _ running] running_request_back) auto
  ultimately have "decode_operation_state w ob = Inr v"
    unfolding decode_operation_state_def using at v status
    by (cases v) (simp add: known string_back bool_back array_back)
  with ob j show "reads_object (decode_operation_state w) j v" by (simp add: reads_object_def)
qed

definition operation_key :: "operation_admission \<Rightarrow> register_key" where
  "operation_key a = \<lparr>rk_session = oa_session a, rk_kind = RegisterOperation, rk_operation = oa_operation a\<rparr>"

lemma operation_register_back:
  assumes w: "faithful_wire w" and enc: "encode_operation_register w v = Inr j" and d: "tidy j"
    and size_ok: "word_sized (oa_execution (or_admission v))"
    and reg: "rg_payload r = Value j" "rg_revision r = or_revision v" "rg_key r = operation_key (or_admission v)"
  shows "decode_operation_register w r = Inr v"
proof -
  obtain i s where i: "encode_operation_admission w (or_admission v) = Inr i" and s: "encode_operation_state w (or_state v) = Inr s"
    and j: "j = jobj [(''admission'', Some i), (''state'', Some s)]" (is "_ = jobj ?fs")
    using enc unfolding encode_operation_register_def unfolding rbind_eq_Inr sum.inject by blast
  obtain ob where ob: "payload_object (Value (jobj ?fs)) = Inr ob"
    and known: "\<And>known. list_all (\<lambda>f. fst f \<in> set known) ?fs \<Longrightarrow> reject_unknown_members known ob = Inr ()"
    and at: "list_all (\<lambda>(k, v). map_of ob k = v) ?fs"
    by (rule built_object [of ?fs]) auto
  note t = tidy_jobj [OF d [unfolded j]]
  have reads: "reads_object (decode_operation_admission w) i (or_admission v)" "reads_object (decode_operation_state w) s (or_state v)"
    using operation_admission_back [OF w size_ok] operation_state_back [OF w] i s t by (auto simp: inverts_object_def)
  have keys: "map_of ob ''admission'' = Some i" "map_of ob ''state'' = Some s" using at by simp_all
  obtain io where "required_object ob ''admission'' = Inr io" "decode_operation_admission w io = Inr (or_admission v)"
    using required_reads [OF keys(1) reads(1)] by blast
  moreover obtain so where "required_object ob ''state'' = Inr so" "decode_operation_state w so = Inr (or_state v)"
    using required_reads [OF keys(2) reads(2)] by blast
  moreover have "validate_hex_id (oa_session (or_admission v)) what = Inr ()"
    "validate_operation_identity (oa_operation (or_admission v)) what = Inr ()" for what
    using i by (auto simp: encode_operation_admission_def validate_operation_admission_def validate_hex_id_def
        validate_operation_identity_def rbind_unit_eq ensure_eq_Inr)
  ultimately show ?thesis
    unfolding decode_operation_register_def reg j ob
    using at reg by (cases v) (simp add: known operation_key_def)
qed

end
