(* ===== verification/Stored_Graph.thy ===== *)
theory Stored_Graph
  imports Registers_Back
begin

text \<open>
  A Session as it is stored, and what reading it gives. The writers of the harness put every record through its encoder
  and the bytes of the result into an entry or a register that carries the identities of the payload; \<open>stored_graph\<close>
  says that a list of registers and a list of entries hold a graph in this way.
\<close>

section \<open>What the writers store\<close>

definition encode_payload :: "wire \<Rightarrow> payload \<Rightarrow> codec_error + json" where
  "encode_payload w p =
     (case p of
        PInput v \<Rightarrow> encode_input_entry w v
      | PAssistant v \<Rightarrow> encode_assistant_entry w v
      | PToolResult v \<Rightarrow> encode_tool_result_entry w v
      | PSignal v \<Rightarrow> encode_signal_entry v
      | PHookResult v \<Rightarrow> encode_hook_result_entry w v
      | PSettlement v \<Rightarrow> encode_operation_settlement_entry w v
      | PCompaction v \<Rightarrow> encode_context_checkpoint_entry w v)"

fun addressed_by :: "stored_entry \<Rightarrow> payload \<Rightarrow> bool" where
  "addressed_by env (PInput v) = addressed env (in_session v) (in_entry v) (in_operation v)"
| "addressed_by env (PAssistant v) = addressed env (as_session v) (as_entry v) (as_operation v)"
| "addressed_by env (PToolResult v) = addressed env (tr_session v) (tr_entry v) (tr_operation v)"
| "addressed_by env (PSignal v) = addressed env (sg_session v) (sg_entry v) (sg_operation v)"
| "addressed_by env (PHookResult v) = addressed env (hr_session v) (hr_entry v) (hr_operation v)"
| "addressed_by env (PSettlement v) = addressed env (st_session v) (st_entry v) (st_operation v)"
| "addressed_by env (PCompaction v) = addressed env (ck_session v) (ck_entry v) (ck_operation v)"

text \<open>The bytes of an encoded value, when it was encoded and its texts are valid UTF-8.\<close>

definition holds :: "codec_error + json \<Rightarrow> raw \<Rightarrow> bool" where
  "holds enc r \<longleftrightarrow> (case enc of Inl _ \<Rightarrow> False | Inr j \<Rightarrow> storable j \<and> r = marshal j)"

definition stored_payload :: "wire \<Rightarrow> graph_entry \<Rightarrow> stored_entry \<Rightarrow> bool" where
  "stored_payload w e env \<longleftrightarrow>
     envelope.truncate env = ge_env e \<and> typed_entry e \<and> addressed_by env (ge_payload e) \<and>
     holds (encode_payload w (ge_payload e)) (se_payload env)"

definition stored_session :: "wire \<Rightarrow> session_record \<Rightarrow> register \<Rightarrow> bool" where
  "stored_session w rec r \<longleftrightarrow>
     rg_key r = session_key (si_session (sr_identity rec)) \<and> rg_revision r = sr_revision rec \<and>
     holds (encode_session_register w rec) (rg_payload r)"

definition stored_operation :: "wire \<Rightarrow> operation_record \<Rightarrow> register \<Rightarrow> bool" where
  "stored_operation w rec r \<longleftrightarrow>
     rg_key r = operation_key (or_admission rec) \<and> rg_revision r = or_revision rec \<and>
     word_sized (oa_execution (or_admission rec)) \<and> holds (encode_operation_register w rec) (rg_payload r)"

definition stored_graph :: "wire \<Rightarrow> session_graph \<Rightarrow> register list \<Rightarrow> stored_entry list \<Rightarrow> bool" where
  "stored_graph w g rs envs \<longleftrightarrow>
     (case rs of
        [] \<Rightarrow> False
      | r # rs' \<Rightarrow> stored_session w (g_session g) r \<and> list_all2 (stored_operation w) (g_operations g) rs') \<and>
     list_all2 (stored_payload w) (g_entries g) envs \<and>
     list_all (\<lambda>r. rk_session (rg_key r) = si_session (sr_identity (g_session g))) rs \<and>
     list_all (\<lambda>env. en_session env = si_session (sr_identity (g_session g))) envs"

lemma holds_iff: "holds enc r \<longleftrightarrow> (\<exists>j. enc = Inr j \<and> tidy j \<and> coerce_json j = j \<and> r = Value j)"
  by (cases enc) (auto simp: holds_def storable_def marshal_def)

section \<open>Reading it back\<close>

lemma entry_read:
  assumes w: "faithful_wire w" and s: "stored_payload w e env"
  shows "decode_graph_entry w env = Inr e"
proof -
  have kind: "en_kind env = payload_kind (ge_payload e)" and tr: "envelope.truncate env = ge_env e"
    using s by (auto simp: stored_payload_def typed_entry_def envelope.truncate_def dest: arg_cong [where f = en_kind])
  obtain j where j: "encode_payload w (ge_payload e) = Inr j" "tidy j" "se_payload env = Value j"
    and a: "addressed_by env (ge_payload e)"
    using s by (auto simp: stored_payload_def holds_iff)
  show ?thesis
    using kind tr j a w
    by (cases e; cases "ge_payload e")
       (simp_all add: decode_graph_entry_def encode_payload_def input_entry_back assistant_entry_back
         tool_result_entry_back signal_entry_back hook_result_entry_back settlement_entry_back checkpoint_entry_back)
qed

lemma entries_read:
  assumes "faithful_wire w" "list_all2 (stored_payload w) es envs" "list_all (\<lambda>env. en_session env = sid) envs"
  shows "decode_entries w sid envs = Inr es"
  using assms(2,3) by (induction es envs) (simp_all add: entry_read [OF assms(1)])

lemma session_read: "faithful_wire w \<Longrightarrow> stored_session w rec r \<Longrightarrow> decode_session_register w r = Inr rec"
  by (auto simp: stored_session_def holds_iff intro: session_register_back)

lemma operation_read: "faithful_wire w \<Longrightarrow> stored_operation w rec r \<Longrightarrow> decode_operation_register w r = Inr rec"
  by (auto simp: stored_operation_def holds_iff intro: operation_register_back)

lemma operations_read:
  assumes "faithful_wire w" "list_all2 (stored_operation w) recs rs" "list_all (\<lambda>r. rk_session (rg_key r) = sid) rs"
  shows "decode_registers w sid session ops rs = Inr (session, ops @ recs)"
  using assms(2,3)
proof (induction recs rs arbitrary: ops)
  case (Cons rec recs r rs)
  then have "rk_kind (rg_key r) = RegisterOperation" by (simp add: stored_operation_def operation_key_def)
  with Cons operation_read [OF assms(1) Cons.hyps(1)] show ?case by simp
qed simp

lemma stored_session_hex:
  "stored_session w rec r \<Longrightarrow> validate_hex_id (si_session (sr_identity rec)) what = Inr ()"
  by (auto simp: stored_session_def holds_iff encode_session_register_def encode_session_identity_def
      validate_session_identity_def validate_hex_id_def rbind_eq_Inr ensure_eq_Inr)

lemma stored_graph_read:
  assumes w: "faithful_wire w" and s: "stored_graph w g rs envs" and v: "validate_graph sid g = Inr ()"
    and sid: "sid = si_session (sr_identity (g_session g))"
  shows "validate_session_graph w sid (Inr rs) (Inr envs) = Inr g"
proof -
  obtain r rs' where rs: "rs = r # rs'" "stored_session w (g_session g) r" "list_all2 (stored_operation w) (g_operations g) rs'"
    "rk_session (rg_key r) = sid" "list_all (\<lambda>r. rk_session (rg_key r) = sid) rs'"
    using s sid by (auto simp: stored_graph_def split: list.splits)
  have "rk_kind (rg_key r) = RegisterSession" using rs by (simp add: stored_session_def session_key_def)
  with rs have "decode_registers w sid None [] rs = Inr (Some (g_session g), g_operations g)"
    by (simp add: session_read [OF w] operations_read [OF w])
  moreover have "decode_entries w sid envs = Inr (g_entries g)"
    using s sid by (intro entries_read [OF w]) (simp_all add: stored_graph_def)
  moreover have "validate_hex_id sid ''session id'' = Inr ()" using stored_session_hex [OF rs(2)] sid by simp
  ultimately show ?thesis
    unfolding validate_session_graph_def using v by (cases g) simp
qed

end
