(* ===== verification/Stored_Graph_Safe.thy ===== *)
theory Stored_Graph_Safe
  imports Stored_Graph "HOL-Library.Countable"
begin

text \<open>
  The properties of the durable codec: what was stored is read back, and whatever is read obeys the rules of its
  payloads and of the graph.
\<close>

section \<open>What a reader accepts\<close>

definition payload_rules :: "wire \<Rightarrow> payload \<Rightarrow> codec_error + unit" where
  "payload_rules w p =
     (case p of
        PInput v \<Rightarrow> validate_input_entry v
      | PAssistant v \<Rightarrow> validate_assistant_entry v
      | PToolResult v \<Rightarrow> validate_tool_result_entry w v
      | PSignal v \<Rightarrow> validate_signal_entry v
      | PHookResult v \<Rightarrow> validate_hook_result_entry v
      | PSettlement v \<Rightarrow> validate_operation_settlement_entry v
      | PCompaction v \<Rightarrow> validate_context_checkpoint_entry v)"

lemma rbind_InrE:
  assumes "rbind x f = Inr b"
  obtains a where "x = Inr a" "f a = Inr b"
  using assms by (cases x) auto

lemma agreement_addressed: "check_agreement env sid eid oid = Inr () \<longleftrightarrow> addressed env sid eid oid"
  by (auto simp: check_agreement_def addressed_def rbind_unit_eq ensure_eq_Inr)

lemma input_sound:
  "decode_input_entry w env = Inr v \<Longrightarrow>
     validate_input_entry v = Inr () \<and> addressed env (in_session v) (in_entry v) (in_operation v)"
  unfolding decode_input_entry_def by (elim rbind_InrE) (auto simp: agreement_addressed)

lemma assistant_sound:
  "decode_assistant_entry w env = Inr v \<Longrightarrow>
     validate_assistant_entry v = Inr () \<and> addressed env (as_session v) (as_entry v) (as_operation v)"
  unfolding decode_assistant_entry_def by (elim rbind_InrE) (auto simp: agreement_addressed)

lemma tool_result_sound:
  "decode_tool_result_entry w env = Inr v \<Longrightarrow>
     validate_tool_result_entry w v = Inr () \<and> addressed env (tr_session v) (tr_entry v) (tr_operation v)"
  unfolding decode_tool_result_entry_def by (elim rbind_InrE) (auto simp: agreement_addressed)

lemma signal_sound:
  "decode_signal_entry env = Inr v \<Longrightarrow>
     validate_signal_entry v = Inr () \<and> addressed env (sg_session v) (sg_entry v) (sg_operation v)"
  unfolding decode_signal_entry_def by (elim rbind_InrE) (auto simp: agreement_addressed)

lemma hook_result_sound:
  "decode_hook_result_entry w env = Inr v \<Longrightarrow>
     validate_hook_result_entry v = Inr () \<and> addressed env (hr_session v) (hr_entry v) (hr_operation v)"
  unfolding decode_hook_result_entry_def by (elim rbind_InrE) (auto simp: agreement_addressed)

lemma settlement_sound:
  "decode_operation_settlement_entry w env = Inr v \<Longrightarrow>
     validate_operation_settlement_entry v = Inr () \<and> addressed env (st_session v) (st_entry v) (st_operation v)"
  unfolding decode_operation_settlement_entry_def by (elim rbind_InrE) (auto simp: agreement_addressed)

lemma checkpoint_sound:
  "decode_context_checkpoint_entry w env = Inr v \<Longrightarrow>
     validate_context_checkpoint_entry v = Inr () \<and> addressed env (ck_session v) (ck_entry v) (ck_operation v)"
  unfolding decode_context_checkpoint_entry_def by (elim rbind_InrE) (auto simp: agreement_addressed)

lemma entry_sound:
  "decode_graph_entry w env = Inr e \<Longrightarrow>
     typed_entry e \<and> ge_env e = envelope.truncate env \<and> addressed_by env (ge_payload e) \<and>
     payload_rules w (ge_payload e) = Inr ()"
  by (cases "en_kind env")
     (auto simp: decode_graph_entry_def rbind_eq_Inr typed_entry_def payload_rules_def envelope.truncate_def
       dest: input_sound assistant_sound tool_result_sound signal_sound hook_result_sound settlement_sound checkpoint_sound)

fun payload_ids :: "payload \<Rightarrow> string \<times> string \<times> string" where
  "payload_ids (PInput v) = (in_session v, in_entry v, in_operation v)"
| "payload_ids (PAssistant v) = (as_session v, as_entry v, as_operation v)"
| "payload_ids (PToolResult v) = (tr_session v, tr_entry v, tr_operation v)"
| "payload_ids (PSignal v) = (sg_session v, sg_entry v, sg_operation v)"
| "payload_ids (PHookResult v) = (hr_session v, hr_entry v, hr_operation v)"
| "payload_ids (PSettlement v) = (st_session v, st_entry v, st_operation v)"
| "payload_ids (PCompaction v) = (ck_session v, ck_entry v, ck_operation v)"

lemma addressed_by_ids: "addressed_by env p \<longleftrightarrow> payload_ids p = (en_session env, en_id env, en_operation env)"
  by (cases p) (auto simp: addressed_def)

definition entry_obeys :: "wire \<Rightarrow> string \<Rightarrow> graph_entry \<Rightarrow> bool" where
  "entry_obeys w sid e \<longleftrightarrow>
     typed_entry e \<and> en_session (ge_env e) = sid \<and>
     payload_ids (ge_payload e) = (en_session (ge_env e), en_id (ge_env e), en_operation (ge_env e)) \<and>
     payload_rules w (ge_payload e) = Inr ()"

definition operation_obeys :: "string \<Rightarrow> operation_record \<Rightarrow> bool" where
  "operation_obeys sid x \<longleftrightarrow>
     oa_session (or_admission x) = sid \<and> validate_operation_admission (or_admission x) = Inr () \<and>
     validate_operation_state (or_state x) = Inr ()"

definition session_obeys :: "string \<Rightarrow> session_record \<Rightarrow> bool" where
  "session_obeys sid rec \<longleftrightarrow>
     si_session (sr_identity rec) = sid \<and> validate_session_identity (sr_identity rec) = Inr () \<and>
     check_session_state (sr_state rec) = Inr ()"

lemma entries_sound:
  "decode_entries w sid envs = Inr es \<Longrightarrow> list_all (entry_obeys w sid) es"
proof (induction envs arbitrary: es)
  case (Cons env envs)
  then obtain e es' where e: "en_session env = sid" "decode_graph_entry w env = Inr e" "decode_entries w sid envs = Inr es'" "es = e # es'"
    by (auto simp: rbind_eq_Inr ensure_eq_Inr)
  have "entry_obeys w sid e"
    using entry_sound [OF e(2)] e(1) by (simp add: entry_obeys_def addressed_by_ids envelope.truncate_def)
  with e Cons.IH show ?case by simp
qed simp

lemma admission_sound: "decode_operation_admission w ob = Inr v \<Longrightarrow> validate_operation_admission v = Inr ()"
  unfolding decode_operation_admission_def by (elim rbind_InrE) simp

lemma state_sound: "decode_operation_state w ob = Inr v \<Longrightarrow> validate_operation_state v = Inr ()"
  unfolding decode_operation_state_def by (elim rbind_InrE) simp

lemma identity_sound: "decode_session_identity w ob = Inr v \<Longrightarrow> validate_session_identity v = Inr ()"
  unfolding decode_session_identity_def by (elim rbind_InrE) simp

lemma session_state_sound: "decode_session_state w ob = Inr v \<Longrightarrow> check_session_state v = Inr ()"
  unfolding decode_session_state_def by (elim rbind_InrE) simp

lemma operation_sound:
  "decode_operation_register w r = Inr x \<Longrightarrow> rk_session (rg_key r) = sid \<Longrightarrow> operation_obeys sid x"
  unfolding decode_operation_register_def
  by (elim rbind_InrE) (auto simp: operation_obeys_def ensure_eq_Inr dest: admission_sound state_sound)

lemma session_sound:
  "decode_session_register w r = Inr x \<Longrightarrow> rk_session (rg_key r) = sid \<Longrightarrow> session_obeys sid x"
  unfolding decode_session_register_def
  by (elim rbind_InrE) (auto simp: session_obeys_def ensure_eq_Inr dest: identity_sound session_state_sound)

lemma registers_sound:
  "decode_registers w sid session ops rs = Inr (session', ops') \<Longrightarrow> pred_option (session_obeys sid) session \<Longrightarrow>
     list_all (operation_obeys sid) ops \<Longrightarrow>
     pred_option (session_obeys sid) session' \<and> list_all (operation_obeys sid) ops'"
proof (induction rs arbitrary: session ops)
  case (Cons r rs)
  have sid: "rk_session (rg_key r) = sid" using Cons.prems(1) by (simp add: rbind_unit_eq ensure_eq_Inr)
  show ?case
  proof (cases "rk_kind (rg_key r)")
    case RegisterSession
    with Cons.prems(1) sid obtain rec where rec: "decode_session_register w r = Inr rec"
      "decode_registers w sid (Some rec) ops rs = Inr (session', ops')"
      by (auto simp: rbind_eq_Inr ensure_eq_Inr)
    show ?thesis using Cons.IH [OF rec(2)] session_sound [OF rec(1) sid] Cons.prems(3) by simp
  next
    case RegisterOperation
    with Cons.prems(1) sid obtain rec where rec: "decode_operation_register w r = Inr rec"
      "decode_registers w sid session (ops @ [rec]) rs = Inr (session', ops')"
      by (auto simp: rbind_eq_Inr ensure_eq_Inr)
    show ?thesis using Cons.IH [OF rec(2) Cons.prems(2)] operation_sound [OF rec(1) sid] Cons.prems(3) by simp
  next
    case (OtherRegisterKind k)
    with Cons.prems(1) sid show ?thesis by simp
  qed
qed simp

section \<open>The members of a payload\<close>

text \<open>The closed key set of each kind of payload.\<close>

definition payload_members :: "entry_kind \<Rightarrow> string list" where
  "payload_members k = [''session_id'', ''entry_id'', ''operation_id''] @
     (case k of
        KindInput \<Rightarrow> [''origin'', ''content'']
      | KindAssistant \<Rightarrow> [''status'', ''source'', ''content'', ''refusal'', ''extra'', ''tool_calls'', ''usage'', ''request_id'',
          ''evidence'']
      | KindToolResult \<Rightarrow> [''assistant_entry'', ''tool_call_id'', ''status'', ''content'', ''original_content'',
          ''shaping_failure'', ''evidence'', ''metadata_base64'', ''normalized_arguments_base64'', ''hook_ids'']
      | KindSignal \<Rightarrow> [''signal'', ''related_operation'', ''related_member'', ''content'']
      | KindHookResult \<Rightarrow> [''hook_id'', ''extension_id'', ''tool_call_id'', ''request_id'', ''status'', ''evidence'',
          ''arguments_base64'', ''error'', ''input_arguments_base64'', ''input_evidence'', ''consequence'']
      | KindSettlement \<Rightarrow> [''status'', ''detail'', ''model'', ''usage'', ''compaction_usage'', ''request_id'',
          ''consumed_request_id'', ''evidence'', ''facts'']
      | KindCompaction \<Rightarrow> [''strategy_id'', ''messages'', ''boundary_entry_id'', ''configuration_revision'', ''facts'',
          ''consumed_request_id'', ''evidence'']
      | OtherEntryKind _ \<Rightarrow> [])"

lemma known_members:
  assumes "payload_object r = Inr ob" "reject_unknown_members known ob = Inr u"
  shows "\<exists>ms. r = Value (JObj ms) \<and> fst ` set ms \<subseteq> set known"
proof -
  obtain ms where r: "r = Value (JObj ms)" "ob = obj_fields ms"
    using assms(1)
    by (auto simp: payload_object_def split: option.splits elim!: decode_payload_object.elims)
  have "fst ` set ms = fst ` set (obj_fields ms)"
    using map_of_obj_fields [of ms] dom_map_of_conv_image_fst [of ms] dom_map_of_conv_image_fst [of "obj_fields ms"]
      dom_map_of_conv_image_fst [of "rev ms"] by simp
  moreover have "fst ` set (obj_fields ms) \<subseteq> set known"
    using assms(2) r by (auto simp: reject_unknown_members_def first_error_ok ensure_eq_Inr)
  ultimately show ?thesis using r by auto
qed

lemma input_members:
  "decode_input_entry w env = Inr v \<Longrightarrow>
     \<exists>ms. se_payload env = Value (JObj ms) \<and> fst ` set ms \<subseteq> set (payload_members KindInput)"
  unfolding decode_input_entry_def payload_members_def entry_kind.case append.simps
  by (elim rbind_InrE) (rule known_members; assumption)

lemma assistant_members:
  "decode_assistant_entry w env = Inr v \<Longrightarrow>
     \<exists>ms. se_payload env = Value (JObj ms) \<and> fst ` set ms \<subseteq> set (payload_members KindAssistant)"
  unfolding decode_assistant_entry_def payload_members_def entry_kind.case append.simps
  by (elim rbind_InrE) (rule known_members; assumption)

lemma tool_result_members:
  "decode_tool_result_entry w env = Inr v \<Longrightarrow>
     \<exists>ms. se_payload env = Value (JObj ms) \<and> fst ` set ms \<subseteq> set (payload_members KindToolResult)"
  unfolding decode_tool_result_entry_def payload_members_def entry_kind.case append.simps
  by (elim rbind_InrE) (rule known_members; assumption)

lemma signal_members:
  "decode_signal_entry env = Inr v \<Longrightarrow>
     \<exists>ms. se_payload env = Value (JObj ms) \<and> fst ` set ms \<subseteq> set (payload_members KindSignal)"
  unfolding decode_signal_entry_def payload_members_def entry_kind.case append.simps
  by (elim rbind_InrE) (rule known_members; assumption)

lemma hook_result_members:
  "decode_hook_result_entry w env = Inr v \<Longrightarrow>
     \<exists>ms. se_payload env = Value (JObj ms) \<and> fst ` set ms \<subseteq> set (payload_members KindHookResult)"
  unfolding decode_hook_result_entry_def payload_members_def entry_kind.case append.simps
  by (elim rbind_InrE) (rule known_members; assumption)

lemma settlement_members:
  "decode_operation_settlement_entry w env = Inr v \<Longrightarrow>
     \<exists>ms. se_payload env = Value (JObj ms) \<and> fst ` set ms \<subseteq> set (payload_members KindSettlement)"
  unfolding decode_operation_settlement_entry_def payload_members_def entry_kind.case append.simps
  by (elim rbind_InrE) (rule known_members; assumption)

lemma checkpoint_members:
  "decode_context_checkpoint_entry w env = Inr v \<Longrightarrow>
     \<exists>ms. se_payload env = Value (JObj ms) \<and> fst ` set ms \<subseteq> set (payload_members KindCompaction)"
  unfolding decode_context_checkpoint_entry_def payload_members_def entry_kind.case append.simps
  by (elim rbind_InrE) (rule known_members; assumption)

text \<open>C35: the payload of an entry that is read is one complete JSON object, every one of its members a member of the
  closed key set of its kind: a payload with any other key, or with bytes after the object, is refused.\<close>

theorem read_payload_members_known:
  assumes "decode_graph_entry w env = Inr e"
  shows "\<exists>ms. se_payload env = Value (JObj ms) \<and> fst ` set ms \<subseteq> set (payload_members (payload_kind (ge_payload e)))"
  using assms
  by (cases "en_kind env")
     (auto simp: decode_graph_entry_def rbind_eq_Inr
       dest: input_members assistant_members tool_result_members signal_members hook_result_members settlement_members
         checkpoint_members)

section \<open>A stored Session\<close>

text \<open>
  A concrete standard library for the samples: an injective numbering of values as their bytes, and decimal texts for
  the timestamps and the bits of a rate.
\<close>

instance json :: countable
  by countable_datatype

definition sample_wire :: wire where
  "sample_wire = \<lparr>
     wr_bytes = (\<lambda>j. CHR ''#'' # show_nat (to_nat j)),
     wr_parse = (\<lambda>s. case s of [] \<Rightarrow> NoBytes | _ # ds \<Rightarrow> Value (from_nat (digits_value ds))),
     wr_time = (\<lambda>t. if in_int64 t then Some (show_int t) else None),
     wr_read_time = (\<lambda>s. map_option (\<lambda>t. (t, 0)) (atoi s)),
     wr_rate = (\<lambda>b. show_int (sint b)),
     wr_read_rate = (\<lambda>s. map_option word_of_int (atoi s))\<rparr>"

lemma sample_wire_faithful: "faithful_wire sample_wire"
  using show_nat_digits
  by (auto simp: faithful_wire_def sample_wire_def atoi_show_int sint_range split: if_splits)

definition stored_sid :: string where "stored_sid = replicate 32 CHR ''a''"
definition stored_input_id :: string where "stored_input_id = replicate 32 CHR ''b''"
definition stored_end_id :: string where "stored_end_id = replicate 32 CHR ''c''"

definition stored_input :: graph_entry where
  "stored_input = \<lparr>
     ge_env = \<lparr>en_session = stored_sid, en_id = stored_input_id, en_sequence = 1, en_operation = ''o'', en_kind = KindInput,
       en_committed_at = 7\<rparr>,
     ge_payload = PInput \<lparr>in_session = stored_sid, in_entry = stored_input_id, in_operation = ''o'', in_origin = OriginUser,
       in_content = [\<lparr>part_kind = PartText, part_text = ''hi'', part_url = [], part_opaque = [], part_extra = []\<rparr>]\<rparr>\<rparr>"

definition stored_end :: graph_entry where
  "stored_end = \<lparr>
     ge_env = \<lparr>en_session = stored_sid, en_id = stored_end_id, en_sequence = 2, en_operation = ''o'',
       en_kind = KindSettlement, en_committed_at = 9\<rparr>,
     ge_payload = PSettlement \<lparr>st_session = stored_sid, st_entry = stored_end_id, st_operation = ''o'', st_status = OpFailure,
       st_detail = ''no model'', st_model = None, st_usage = None, st_compaction_usage = False, st_request = [],
       st_consumed_request = [], st_evidence = None, st_facts = []\<rparr>\<rparr>"

definition stored_execution :: execution_capture where
  "stored_execution = \<lparr>xc_revision = ''1'', xc_model = \<lparr>provider = ''p'', model_name = ''m''\<rparr>, xc_context_window = 0,
     xc_output_reserve = 100, xc_prompt = [], xc_tools = [], xc_capabilities = [''web''], xc_readonly = True,
     xc_write_dir = [], xc_pricing = Some \<lparr>pr_input = Some 3, pr_output = None, pr_cache_read = Some 0\<rparr>,
     xc_compact = \<lparr>cc_model = \<lparr>provider = ''p'', model_name = ''m''\<rparr>, cc_prompt = ''sum'', cc_pricing = None\<rparr>,
     xc_strategy = \<lparr>sc_id = ''x'', sc_settings = NoBytes, sc_requires_window = False\<rparr>\<rparr>"

definition stored_admission :: operation_admission where
  "stored_admission = \<lparr>oa_session = stored_sid, oa_operation = ''o'', oa_kind = RequestMessage,
     oa_admitted = \<lparr>er_session = stored_sid, er_entry = stored_input_id\<rparr>, oa_agent_type = ''main'',
     oa_execution = stored_execution, oa_admitted_at = 6\<rparr>"

definition stored_outcome :: operation_state where
  "stored_outcome = \<lparr>os_status = OpFailure, os_started_at = 6, os_settled_at = Some 9, os_effect = None, os_request = None,
     os_pending = [], os_usage = [],
     os_terminal = Some \<lparr>ot_settlement = \<lparr>er_session = stored_sid, er_entry = stored_end_id\<rparr>, ot_detail = ''no model''\<rparr>,
     os_unreported = False\<rparr>"

definition stored_op :: operation_record where
  "stored_op = \<lparr>or_revision = 2, or_admission = stored_admission, or_state = stored_outcome\<rparr>"

definition stored_identity :: session_identity where
  "stored_identity = \<lparr>si_session = stored_sid, si_workspace = ''/w'', si_created = 5, si_source_session = [],
     si_source_boundary = [], si_parent = []\<rparr>"

definition stored_current :: session_state where
  "stored_current = \<lparr>ss_lifecycle = LifecycleOpen, ss_archived_at = None, ss_agent_type = ''main'',
     ss_current_operation = [], ss_checkpoint = [], ss_usage = [], ss_last_activity = 9\<rparr>"

definition stored_sample :: session_graph where
  "stored_sample = \<lparr>g_session = \<lparr>sr_revision = 3, sr_identity = stored_identity, sr_state = stored_current\<rparr>,
     g_operations = [stored_op], g_entries = [stored_input, stored_end]\<rparr>"

definition held_bytes :: "codec_error + json \<Rightarrow> raw" where
  "held_bytes enc = (case enc of Inl _ \<Rightarrow> NoBytes | Inr j \<Rightarrow> marshal j)"

definition stored_sample_registers :: "register list" where
  "stored_sample_registers =
     [\<lparr>rg_key = session_key stored_sid, rg_revision = 3,
        rg_payload = held_bytes (encode_session_register sample_wire (g_session stored_sample))\<rparr>,
      \<lparr>rg_key = operation_key (or_admission stored_op), rg_revision = 2,
        rg_payload = held_bytes (encode_operation_register sample_wire stored_op)\<rparr>]"

definition stored_sample_entries :: "stored_entry list" where
  "stored_sample_entries =
     map (\<lambda>e. envelope.extend (ge_env e) (stored_entry.fields (held_bytes (encode_payload sample_wire (ge_payload e)))))
       [stored_input, stored_end]"


fun ascii_json :: "json \<Rightarrow> bool" where
  "ascii_json (JStr s) \<longleftrightarrow> list_all (\<lambda>c. of_char c < (0x80::nat)) s"
| "ascii_json (JArr js) \<longleftrightarrow> list_all ascii_json js"
| "ascii_json (JObj ms) \<longleftrightarrow> list_all (\<lambda>m. list_all (\<lambda>c. of_char c < (0x80::nat)) (fst m) \<and> ascii_json (snd m)) ms"
| "ascii_json j \<longleftrightarrow> True"

lemma ascii_coerced: "ascii_json j \<Longrightarrow> coerce_json j = j"
proof (induction j)
  case (JStr s)
  then show ?case using valid_text_ascii [of s] by (simp add: valid_text_def)
next
  case (JArr js)
  then show ?case by (auto simp: list_all_iff intro: map_idI)
next
  case (JObj ms)
  have "(utf8_encs (runes k), coerce_json j) = (k, j)" if "(k, j) \<in> set ms" for k j
    using that JObj valid_text_ascii [of k] by (fastforce simp: list_all_iff valid_text_def)
  then show ?case by (auto intro: map_idI)
qed simp_all

text \<open>An encoding of ASCII texts is held by its bytes.\<close>

definition ascii_encoded :: "codec_error + json \<Rightarrow> bool" where
  "ascii_encoded enc \<longleftrightarrow> (case enc of Inl _ \<Rightarrow> False | Inr j \<Rightarrow> ascii_json j \<and> tidy j)"

lemma plain_held: "ascii_encoded enc \<Longrightarrow> holds enc (held_bytes enc)"
  by (cases enc) (auto simp: ascii_encoded_def held_bytes_def holds_def storable_def ascii_coerced)

lemmas encoded_members = encode_usage_totals_def jobj_def members_def omit_def omit_list_def omit_flag_def omit_frame_def ascii_encoded_def

lemma sample_times:
  "encode_time sample_wire 5 = Inr ''5''" "encode_time sample_wire 6 = Inr ''6''" "encode_time sample_wire 9 = Inr ''9''"
  by code_simp+

lemma sample_rates: "wr_rate sample_wire 3 = ''3''" "wr_rate sample_wire 0 = ''0''"
  by code_simp+

lemma sample_ids:
  "list_all (\<lambda>c. of_char c < (0x80::nat)) stored_sid" "list_all (\<lambda>c. of_char c < (0x80::nat)) stored_input_id"
  "list_all (\<lambda>c. of_char c < (0x80::nat)) stored_end_id"
  by (simp_all add: stored_sid_def stored_input_id_def stored_end_id_def list_all_iff)

lemma stored_records_valid:
  "validate_session_identity stored_identity = Inr ()" "check_session_state stored_current = Inr ()"
  "validate_operation_admission stored_admission = Inr ()" "validate_execution_capture stored_execution = Inr ()"
  "validate_strategy_capture (xc_strategy stored_execution) = Inr ()" "validate_usage_totals [] = Inr ()"
  "validate_operation_state stored_outcome = Inr ()"
  "validate_model_pricing \<lparr>pr_input = Some 3, pr_output = None, pr_cache_read = Some 0\<rparr> = Inr ()"
  by code_simp+

lemma stored_session_plain: "ascii_encoded (encode_session_register sample_wire (g_session stored_sample))"
  unfolding encode_session_register_def encode_session_identity_def encode_session_state_def stored_sample_def
    session_graph.simps session_record.simps stored_records_valid
  by (simp add: stored_identity_def stored_current_def sample_times sample_ids encoded_members stored_records_valid)

lemma stored_ids_valid: "validate_hex_id stored_sid what = Inr ()" "validate_hex_id stored_input_id what = Inr ()"
  by (simp_all add: validate_hex_id_def stored_sid_def stored_input_id_def list_all_iff lower_hex_def)

lemma stored_input_plain: "ascii_encoded (encode_payload sample_wire (ge_payload stored_input))"
proof -
  have v: "validate_input_entry (case ge_payload stored_input of PInput v \<Rightarrow> v) = Inr ()" by code_simp
  have c: "encode_content_part sample_wire \<lparr>part_kind = PartText, part_text = ''hi'', part_url = [], part_opaque = [],
    part_extra = []\<rparr> = Inr (JObj [(''kind'', JStr ''text''), (''text'', JStr ''hi'')])" by code_simp
  show ?thesis using v
    by (simp add: encode_payload_def stored_input_def encode_input_entry_def c sample_ids encoded_members)
qed

lemma stored_end_plain: "ascii_encoded (encode_payload sample_wire (ge_payload stored_end))"
proof -
  have v: "validate_operation_settlement_entry (case ge_payload stored_end of PSettlement v \<Rightarrow> v) = Inr ()" by code_simp
  show ?thesis using v
    by (simp add: encode_payload_def stored_end_def encode_operation_settlement_entry_def sample_ids encoded_members)
qed

lemma stored_op_plain: "ascii_encoded (encode_operation_register sample_wire stored_op)"
proof -
  have s: "validate_strategy_capture \<lparr>sc_id = ''x'', sc_settings = NoBytes, sc_requires_window = False\<rparr> = Inr ()"
    by code_simp
  have e: "ascii_encoded (encode_execution_capture sample_wire stored_execution)"
    unfolding encode_execution_capture_def stored_records_valid
    by (simp add: stored_execution_def stored_records_valid encoded_members encode_model_ref_def encode_model_pricing_def
      rate_json_def sample_rates encode_compact_capture_def encode_strategy_capture_def s show_int_def)
  then obtain x where x: "encode_execution_capture sample_wire stored_execution = Inr x" "ascii_json x" "tidy x"
    by (auto simp: ascii_encoded_def split: sum.splits)
  have er: "encode_entry_ref \<lparr>er_session = stored_sid, er_entry = stored_input_id\<rparr> =
    Inr (JObj [(''session_id'', JStr stored_sid), (''entry_id'', JStr stored_input_id)])"
    by (simp add: encode_entry_ref_def validate_entry_ref_def entry_ref_json_def jobj_def members_def stored_ids_valid)
  show ?thesis
    unfolding encode_operation_register_def encode_operation_admission_def encode_operation_state_def stored_op_def
      operation_record.simps stored_records_valid
    by (simp add: stored_admission_def stored_outcome_def er x stored_records_valid sample_times sample_ids encoded_members
      terminal_json_def entry_ref_json_def)
qed

lemma stored_sample_accepted: "validate_graph stored_sid stored_sample = Inr ()"
  by code_simp

lemma stored_sample_first: "stored_payload sample_wire stored_input (stored_sample_entries ! 0)"
  using plain_held [OF stored_input_plain]
  by (simp add: stored_sample_entries_def stored_payload_def envelope.defs stored_entry.defs typed_entry_def
    stored_input_def addressed_def)

lemma stored_sample_stored: "stored_graph sample_wire stored_sample stored_sample_registers stored_sample_entries"
proof -
  have "stored_session sample_wire (g_session stored_sample) (stored_sample_registers ! 0)"
    using plain_held [OF stored_session_plain]
    by (simp add: stored_session_def stored_sample_registers_def stored_sample_def stored_identity_def)
  moreover have "stored_operation sample_wire stored_op (stored_sample_registers ! 1)"
    using plain_held [OF stored_op_plain]
    by (simp add: stored_operation_def stored_sample_registers_def stored_op_def word_sized_def stored_admission_def
      stored_execution_def)
  moreover have "list_all2 (stored_payload sample_wire) [stored_input, stored_end] stored_sample_entries"
    using plain_held [OF stored_input_plain] plain_held [OF stored_end_plain]
    by (simp add: stored_sample_entries_def stored_payload_def envelope.defs stored_entry.defs typed_entry_def
      stored_input_def stored_end_def addressed_def)
  ultimately show ?thesis
    by (simp add: stored_graph_def stored_sample_registers_def stored_sample_entries_def stored_sample_def
      stored_identity_def session_key_def operation_key_def stored_op_def stored_admission_def envelope.defs
      stored_entry.defs stored_input_def stored_end_def)
qed

lemma stored_sample_sid: "stored_sid = si_session (sr_identity (g_session stored_sample))"
  by (simp add: stored_sample_def stored_identity_def)

lemma stored_sample_read:
  "validate_session_graph sample_wire stored_sid (Inr stored_sample_registers) (Inr stored_sample_entries) = Inr stored_sample"
  by (rule stored_graph_read [OF sample_wire_faithful stored_sample_stored stored_sample_accepted stored_sample_sid])

section \<open>Properties\<close>





theorem read_payload_members_known_witness:
  "\<exists>ms. se_payload (stored_sample_entries ! 0) = Value (JObj ms) \<and>
     fst ` set ms \<subseteq> set (payload_members (payload_kind (ge_payload stored_input)))"
  by (rule read_payload_members_known [of sample_wire])
     (rule entry_read [OF sample_wire_faithful stored_sample_first])

text \<open>
  The arguments that a hook result stores are checked with \<open>base64.StdEncoding.Strict()\<close>, which skips line breaks: a text
  that is not the canonical one of its bytes is accepted.
\<close>

lemma stored_base64_accepts_line_breaks:
  "optional_stored_base64 [(k, JStr ''YQ=='')] k = Inr ''YQ=='' \<and> base64_encode ''a'' = ''YQ=='' \<and>
     optional_stored_base64 [(k, JStr (''YQ=='' @ [CHR 0x0A]))] k = Inr (''YQ=='' @ [CHR 0x0A])"
proof -
  have "base64_strict ''YQ=='' \<noteq> None" "base64_strict (''YQ=='' @ [CHR 0x0A]) \<noteq> None" "base64_encode ''a'' = ''YQ==''"
    by code_simp+
  then show ?thesis by (simp add: optional_stored_base64_def present_def string_member_def typed_member_def json_member_def)
qed

end
