(* ===== verification/Spec2Isabelle.thy ===== *)
theory Spec2Isabelle
  imports Read_Only_Safe Permissions Agent_Loop_Safe Edit_Preview Session_Graph_Safe Memory_Store_Safe Jobs_Safe File_Props Conversation_Safe Session_Recovery Stored_Graph_Safe
begin

text \<open>
  A verification development for lightcode, a coding agent written in Go. The paths below are relative to \<open>src/\<close>.

  \<^bold>\<open>The program.\<close> A Session of lightcode runs an Agent: the loop of package \<open>agent\<close> asks a model for an
  output, has the tool calls of the output executed, and goes on until the model asks for nothing more. The harness
  (package \<open>harness\<close>) stands around the loop. It writes what happens to a Session into a transactional store, validates
  the stored graph of entries whenever a Session is opened, projects the graph into the messages of the next request,
  and asks the permission policy before a tool call has an effect. The tools (\<open>internal/tool\<close>) run shell commands, with
  a filter for Agents that may only read, and change files through \<open>safefs\<close> and under a snapshot store that lets the
  user revert what a turn did. Long commands go to the background jobs service.

  \<^bold>\<open>Theories.\<close> Errors are values of a sum type, so every early return of the code is a branch of the model. State is a
  record that is passed and returned; the two concurrent components are step relations.

  \<^item> \<open>Prelude\<close>, \<open>Go_Text\<close>, \<open>Go_Number\<close>, \<open>Go_Path\<close>, \<open>Json\<close>: the result monad and its rules, shared lemmas, and what the
    sources use of the Go library (strings as bytes with UTF-8 decoding where a rune is read, decimal numbers,
    \<open>filepath\<close>, decoded JSON values).
  \<^item> \<open>Shell_Scan\<close>, \<open>Shell_Grammar\<close> (\<open>internal/shellparse/shellparse.go\<close>): the scanner with its two grammars;
    \<open>ParseSimple\<close> agrees with \<open>Parse\<close> on all it accepts.
  \<^item> \<open>Read_Only\<close>, \<open>Read_Only_Safe\<close> (\<open>internal/tool/run_command_ro.go\<close>): the read-only filter. What it returns is scanned
    back as what it checked, and every command of it satisfies \<open>allowed_argv\<close>, a policy stated without reference to the
    filter.
  \<^item> \<open>Permissions\<close> (\<open>harness/permission.go\<close>, \<open>toolCallAllowed\<close> of \<open>harness/effect.go\<close>): globs, levels, the built-in
    rules, the evaluation chain and the boundary in front of a tool call; glob matching is equivalent to a denotation,
    and writes are confined.
  \<^item> \<open>Model_Values\<close>, \<open>Extra_Laws\<close> (\<open>model/model_ref.go\<close>, \<open>extra.go\<close>, \<open>message.go\<close>, \<open>tool.go\<close>, \<open>output.go\<close>,
    \<open>stream.go\<close>): the provider-neutral values with their validators; the accumulator of extras as an interpretation of
    the locale that states its contract.
  \<^item> \<open>Assembly\<close>, \<open>Assembly_Safe\<close> (\<open>agent/content_acc.go\<close>, \<open>tool_corr.go\<close>, \<open>assembly.go\<close>, \<open>finalize.go\<close>,
    \<open>message_build.go\<close>): the stream assembler, with an invariant kept by every delta.
  \<^item> \<open>Agent_Loop\<close>, \<open>Agent_Loop_Safe\<close> (\<open>agent/contract.go\<close>, \<open>run.go\<close>, \<open>settlement.go\<close>, \<open>adapter.go\<close>): the loop over
    three caller functions of any behaviour. It does not panic, and it accounts for every call.
  \<^item> \<open>Patch_Parse\<close>, \<open>Patch_Match\<close> (\<open>internal/tool/apply_patch_parse.go\<close>, \<open>apply_patch_match.go\<close>, the pure part of
    \<open>apply_patch_apply.go\<close>): the patch format with its round trip, and the four levels of matching a hunk.
  \<^item> \<open>Edit_Preview\<close> (\<open>ApplyEdit\<close> of \<open>internal/tool/edit_file.go\<close>, \<open>internal/editpreview/preview.go\<close>): edits of a
    buffer, and the rows of a diff, exact and minimal.
  \<^item> \<open>Usage\<close> (\<open>harness/usage.go\<close>): token totals with checked signed 64-bit addition.
  \<^item> \<open>Session_Data\<close>, \<open>Cut_Safety\<close>, \<open>Session_Graph\<close>, \<open>Session_Graph_Safe\<close> (\<open>harness/schema.go\<close>, \<open>graph.go\<close>): the durable
    schema, the validator of a Session graph, and what an accepted graph guarantees of calls, results, settlements,
    checkpoints, hooks, copies and totals.
  \<^item> \<open>Base64\<close>, \<open>Conversation\<close>, \<open>Conversation_Safe\<close> (\<open>harness/context.go\<close>, \<open>effect.go\<close>): the projection of the graph into the
    messages of a request, the view the request hooks transform, and the dispatched request. The projected
    conversation is valid and complete, whatever hooks return the request is well typed, and the text of
    a signal stays in its element.
  \<^item> \<open>Checkpoint_Plan\<close>, \<open>Pairing_Safe\<close> (\<open>harness/compact.go\<close>, \<open>strategy.go\<close>): the plans of context maintenance, the included
    strategy, the resolution and validation of a proposed checkpoint, and the pairing of calls and results.
  \<^item> \<open>Session_Tx\<close> (\<open>harness/effect.go\<close>, \<open>harness.go\<close>, \<open>compact.go\<close>, \<open>recover.go\<close>): the transactions that write a Session: admission,
    intents of effects, results of models, tools and hooks, checkpoints, the terminal settlement and recovery.
  \<^item> \<open>Session_Grow\<close>, \<open>Session_Frame\<close>, \<open>Session_Accounts\<close>, \<open>Session_Settle\<close>, \<open>Session_Close\<close>, \<open>Session_Recovery\<close>: what the validator
    accepted stays accepted when a transaction appends entries of one operation and replaces its register, and the
    operation that a settlement closes is accepted. So recovery turns an accepted Session into an accepted one in
    which nothing runs, and it does not fail when the codec, the random source and the counters do not. What the
    driver keeps of a running effect and the validator does not ask (\<open>recoverable\<close>) is established by the intents of
    call hooks, tools and request hooks.
  \<^item> \<open>Codec\<close>, \<open>Codec_Values\<close>, \<open>Payload_Entries\<close>, \<open>Payload_Registers\<close>, \<open>Payload_State\<close> (\<open>harness/codec.go\<close>, \<open>payload.go\<close>, \<open>graph.go\<close>):
    the durable codec, one encoder, decoder and validator for each payload, register and nested value, and the reading of
    a stored Session. \<open>Codec_Laws\<close>, \<open>Codec_Back\<close>, \<open>Entries_Back\<close>, \<open>Registers_Back\<close>, \<open>Stored_Graph\<close>: each decoder inverts its encoder, so
    a Session is read back as it was written. \<open>Stored_Graph_Safe\<close>: whatever is read obeys the rules of its payloads and of the
    graph, and no payload carries a member outside its closed key set.
  \<^item> \<open>Store_Contract\<close>, \<open>Memory_Store\<close>, \<open>Memory_Store_Safe\<close> (\<open>harness/storage.go\<close>, \<open>internal/storage/memory.go\<close>): the
    storage contract as a locale, its interpretation on the in-memory store, atomic transactions and exact polling.
  \<^item> \<open>Jobs\<close>, \<open>Jobs_Safe\<close> (\<open>internal/jobs/jobs.go\<close>): the critical sections of the service and every interleaving of
    its goroutines with any number of callers; invariants by rule induction, and that \<open>Close\<close> can return.
  \<^item> \<open>File_World\<close>, \<open>Safe_Files\<close>, \<open>Path_Resolve\<close> (\<open>internal/safefs/safefs_linux.go\<close>, \<open>internal/pathutil/resolver.go\<close>,
    \<open>internal/tool/file_shape.go\<close>, \<open>capability.go\<close>): a tree of nodes with links, every system call of which may fail
    and may take effect in part, and the operations that follow no link.
  \<^item> \<open>Code_Store\<close>, \<open>Code_Revert\<close> (\<open>internal/snapshot/code_store.go\<close>, \<open>meta.go\<close>): capture of preimages, identities of
    last writes, restoring of several groups.
  \<^item> \<open>File_Mutation\<close>, \<open>Patch_Apply\<close> (\<open>internal/tool/prepare.go\<close>, \<open>write_file.go\<close>, \<open>edit_file.go\<close>,
    \<open>apply_patch_target.go\<close>, \<open>apply_patch_apply.go\<close>): the prepared mutations of the three file tools.
  \<^item> \<open>File_Laws\<close>, \<open>Canonical_Path\<close>, \<open>Preimages\<close>, \<open>Mutation_Safe\<close>, \<open>Tool_Calls\<close>, \<open>Patch_Calls\<close>, \<open>Revert_Safe\<close>,
    \<open>File_Safe\<close>, \<open>File_Props\<close>: the laws of the file components, from single actions (\<open>post\<close>, a weakest precondition
    of actions under any faults) up to whole calls and reverts. \<open>keeps\<close> is the invariant between a call and the
    groups: what a group would bring back does not change. From it follows that any sequence of calls is undone by a
    clean revert.

  \<^bold>\<open>Bounds.\<close> Only the agent loop runs on fuel, one unit for a round; \<open>run_returns\<close> gives the number of rounds that is
  enough from a measure that every ready request lowers, and a run that has returned does not depend on the fuel. Every
  other loop of the code is a total function: structural, or with a termination proof. Token counts are 64-bit words
  with the overflow checks of the code; lengths, positions and timestamps, which the code never drives near the limits
  of \<open>int\<close>, are integers.

  \<^bold>\<open>Assumptions.\<close>

  \<^item> The text that the code formats into an error is dropped where nothing reads it; the constructor of the error
    stays. Go's deep copies are the identity on values.
  \<^item> Reading JSON is the library's. A raw value is absent, malformed, or decoded.
  \<^item> While a file tool or a revert runs, no other process changes the files; between calls anything may happen. The
    properties of the file tools hold under the hypothesis \<open>steady\<close>: the working directory is absolute, the check whether
    a \<open>meta.json\<close> exists does not fail for another reason (a finding shows what happens if it does), the removal of an
    entry is not interrupted after \<open>meta.json\<close> went and before \<open>original\<close> did, and the digest of paths distinguishes
    the paths in play. \<open>meta.json\<close> is written atomically, and the store lies outside the files the tools change.
  \<^item> The three caller functions of the loop, the permission evaluator, the callbacks of transactions and the behaviour
    of processes are arbitrary parameters.

  \<^bold>\<open>Not modelled.\<close>

  \<^item> \<open>protocol/protocol.gen.go\<close> and \<open>internal/clientops/operations.gen.go\<close> are generated from a schema.
  \<^item> The bytes of JSON, of timestamps and of decimal floats (\<open>encoding/json\<close>, \<open>time\<close>): the codec is modelled over JSON values, and
    what it takes from the standard library is the record \<open>wire\<close> with the hypothesis \<open>faithful_wire\<close>, which \<open>sample_wire\<close> meets.
  \<^item> \<open>harness/effect.go\<close>, \<open>harness.go\<close>, \<open>compact.go\<close>, \<open>context.go\<close>, \<open>recover.go\<close>, \<open>snapshot.go\<close>: what stands around the transactions and
    the projection, that is callbacks that open providers and run tools, queues, locks, waiting and lifecycle calls.
  \<^item> \<open>harness/fork.go\<close>, \<open>background.go\<close>, \<open>observe.go\<close>, \<open>execution.go\<close>, \<open>attempt.go\<close>, \<open>estimate.go\<close>: copying a Session, delivery of
    finished jobs, observers, retries with timers, and token estimates in floating point.
  \<^item> \<open>internal/storage/sqlite.go\<close>: the same contract as the in-memory store, through SQL text.
  \<^item> \<open>runtime\<close>, \<open>commands.go\<close>, \<open>completion.go\<close>, \<open>main.go\<close>: composition of services and requests of the protocol, glue
    between components.
  \<^item> \<open>model/transport.go\<close>, \<open>encode.go\<close>, \<open>sse_stream.go\<close>: HTTP and the wire formats of the providers.
  \<^item> \<open>internal/catalog\<close>, \<open>internal/config\<close>, \<open>internal/agents\<close>, \<open>internal/adaptation\<close>, \<open>prompt\<close>, \<open>internal/plugins\<close>:
    configuration files, built-in data and prompt texts.
  \<^item> \<open>internal/terminal\<close>, \<open>internal/cliclient\<close>, \<open>internal/acpclient\<close>, \<open>internal/desktopclient\<close>, \<open>internal/clientops\<close>,
    \<open>internal/clientview\<close>, \<open>internal/clienthost\<close>, \<open>client\<close>, \<open>frontend\<close>: clients, terminal rendering and transports.
  \<^item> \<open>internal/tool/run_command.go\<close>, \<open>internal/cmdoutput\<close>, \<open>read_file.go\<close>, \<open>normalize.go\<close>, \<open>sleep.go\<close>: running a
    process and shortening its output, and tools that only read.
  \<^item> \<open>internal/selfupdate\<close>, \<open>internal/version\<close>, \<open>internal/doctor\<close>, \<open>internal/protocolgen\<close>, \<open>internal/atomicfs\<close>,
    \<open>internal/hostprocess\<close>, \<open>internal/testassert\<close>: installation, maintenance and build utilities.
\<close>

end
